(* ===== verification/Prelude.thy ===== *)
theory Prelude
  imports Main "HOL-Library.Word"
begin

text \<open>
  What every component shares: the names of the machine types of
  \<^verbatim>\<open>include/zb_types.h\<close>, the return codes of
  \<^verbatim>\<open>include/zb_errors.h\<close>, wrapping counters, \<^verbatim>\<open>memmove\<close> on byte arrays,
  and the interfaces (locales) that queues of the stack implement.
  A failed \<^verbatim>\<open>ZB_ASSERT\<close> and a dereferenced NULL pointer stop the program; operations
  in which that can happen return an \<open>option\<close>, with \<open>None\<close> for the stop.
\<close>

unbundle bit_operations_syntax

named_theorems inv_defs \<open>the invariants of the components, unfolded on demand\<close>
named_theorems refine_simps \<open>operations rewritten to their list or map specification\<close>

section \<open>Machine types\<close>

type_synonym u8 = "8 word"
type_synonym u16 = "16 word"
type_synonym u32 = "32 word"

text \<open>
  Return codes. The source numbers them; the code only compares them for equality.
\<close>

datatype zb_ret =
    RET_OK | RET_ERROR | RET_BLOCKED | RET_EXIT | RET_BUSY | RET_EOF | RET_OUT_OF_RANGE
  | RET_EMPTY | RET_CANCELLED | RET_PENDING | RET_NO_MEMORY | RET_INVALID_PARAMETER
  | RET_OPERATION_FAILED | RET_BUFFER_TOO_SMALL | RET_END_OF_LIST | RET_ALREADY_EXISTS
  | RET_NOT_FOUND | RET_OVERFLOW | RET_TIMEOUT | RET_NOT_IMPLEMENTED | RET_NO_RESOURCES
  | RET_ILLEGAL_REQUEST | RET_INVALID_BINDING | RET_INVALID_GROUP | RET_TABLE_FULL

text \<open>
  The counters of type \<^verbatim>\<open>zb_ushort_t\<close> (\<^verbatim>\<open>unsigned int\<close> on the Linux build) wrap at
  \<open>2 ^ 32\<close>; those of type \<^verbatim>\<open>zb_uint8_t\<close> at 256.
\<close>

definition ushort_inc :: "nat \<Rightarrow> nat" where
  "ushort_inc n = (n + 1) mod 2 ^ 32"

definition ushort_dec :: "nat \<Rightarrow> nat" where
  "ushort_dec n = (if n = 0 then 2 ^ 32 - 1 else n - 1)"

definition u8_inc :: "nat \<Rightarrow> nat" where
  "u8_inc n = (n + 1) mod 256"

definition u8_dec :: "nat \<Rightarrow> nat" where
  "u8_dec n = (if n = 0 then 255 else n - 1)"

lemma ushort_inc_small [simp]: "n < 2 ^ 32 - 1 \<Longrightarrow> ushort_inc n = Suc n"
  by (simp add: ushort_inc_def)

lemma ushort_dec_pos [simp]: "0 < n \<Longrightarrow> ushort_dec n = n - 1"
  by (simp add: ushort_dec_def)

lemma u8_inc_small [simp]: "n < 255 \<Longrightarrow> u8_inc n = Suc n"
  by (simp add: u8_inc_def)

lemma u8_dec_pos [simp]: "0 < n \<Longrightarrow> u8_dec n = n - 1"
  by (simp add: u8_dec_def)

section \<open>Arrays\<close>

text \<open>
  \<^verbatim>\<open>memmove (a + dst, a + src, n)\<close> inside one array: the \<open>n\<close> elements from
  \<open>src\<close> are copied as they were before the call.
\<close>

definition memmove :: "nat \<Rightarrow> nat \<Rightarrow> nat \<Rightarrow> 'a list \<Rightarrow> 'a list" where
  "memmove dst src n xs = take dst xs @ take n (drop src xs) @ drop (dst + n) xs"

text \<open>\<^verbatim>\<open>memcpy (a + dst, ys, length ys)\<close>.\<close>

definition memcpy :: "nat \<Rightarrow> 'a list \<Rightarrow> 'a list \<Rightarrow> 'a list" where
  "memcpy dst ys xs = take dst xs @ ys @ drop (dst + length ys) xs"

lemma length_memmove [simp]:
  "src + n \<le> length xs \<Longrightarrow> dst + n \<le> length xs \<Longrightarrow> length (memmove dst src n xs) = length xs"
  by (simp add: memmove_def)

lemma length_memcpy [simp]:
  "dst + length ys \<le> length xs \<Longrightarrow> length (memcpy dst ys xs) = length xs"
  by (simp add: memcpy_def)

lemma nth_memmove:
  assumes "src + n \<le> length xs" "dst + n \<le> length xs" "i < length xs"
  shows "memmove dst src n xs ! i =
    (if dst \<le> i \<and> i < dst + n then xs ! (src + (i - dst)) else xs ! i)"
proof -
  consider "i < dst" | "dst \<le> i" "i < dst + n" | "dst + n \<le> i" by linarith
  then show ?thesis
  proof cases
    case 1
    then show ?thesis using assms by (simp add: memmove_def nth_append)
  next
    case 2
    then have "i - dst < n" by simp
    with 2 show ?thesis using assms by (auto simp: memmove_def nth_append min_def)
  next
    case 3
    then obtain j where "i = dst + n + j" by (auto simp: le_iff_add)
    then show ?thesis using assms by (simp add: memmove_def nth_append)
  qed
qed

lemma nth_memcpy:
  assumes "dst + length ys \<le> length xs" "i < length xs"
  shows "memcpy dst ys xs ! i = (if dst \<le> i \<and> i < dst + length ys then ys ! (i - dst) else xs ! i)"
proof -
  consider "i < dst" | "dst \<le> i" "i < dst + length ys" | "dst + length ys \<le> i" by linarith
  then show ?thesis
  proof cases
    case 1
    then show ?thesis using assms by (simp add: memcpy_def nth_append)
  next
    case 2
    then have "i - dst < length ys" by simp
    with 2 show ?thesis using assms by (auto simp: memcpy_def nth_append min_def)
  next
    case 3
    then obtain j where "i = dst + length ys + j" by (auto simp: le_iff_add)
    then show ?thesis using assms by (simp add: memcpy_def nth_append)
  qed
qed

section \<open>Interfaces of queues\<close>

text \<open>
  Taking entries from a queue until \<open>n\<close> of them are out or it is empty: the order in
  which a consumer that peeks and drops sees the entries.
\<close>

fun drain_with :: "('q \<Rightarrow> 'a option) \<Rightarrow> ('q \<Rightarrow> 'q) \<Rightarrow> nat \<Rightarrow> 'q \<Rightarrow> 'a list \<times> 'q" where
  "drain_with pk dr 0 q = ([], q)"
| "drain_with pk dr (Suc n) q =
     (case pk q of None \<Rightarrow> ([], q)
      | Some x \<Rightarrow> (let (xs, q') = drain_with pk dr n (dr q) in (x # xs, q')))"

text \<open>
  The read side of a queue: \<open>contents\<close> is its abstract value, oldest entry first.
\<close>

locale fifo_read =
  fixes qinv :: "'q \<Rightarrow> bool"
    and contents :: "'q \<Rightarrow> 'a list"
    and peek :: "'q \<Rightarrow> 'a option"
    and drop1 :: "'q \<Rightarrow> 'q"
  assumes peek_spec: "qinv q \<Longrightarrow> peek q = (case contents q of [] \<Rightarrow> None | x # _ \<Rightarrow> Some x)"
    and drop_inv: "qinv q \<Longrightarrow> contents q \<noteq> [] \<Longrightarrow> qinv (drop1 q)"
    and drop_contents: "qinv q \<Longrightarrow> contents q \<noteq> [] \<Longrightarrow> contents (drop1 q) = tl (contents q)"
begin

lemma peek_empty_iff: "qinv q \<Longrightarrow> peek q = None \<longleftrightarrow> contents q = []"
  by (simp add: peek_spec split: list.splits)

lemma drain_takes_in_order:
  "qinv q \<Longrightarrow> length (contents q) \<le> n \<Longrightarrow>
     fst (drain_with peek drop1 n q) = contents q
     \<and> qinv (snd (drain_with peek drop1 n q))
     \<and> contents (snd (drain_with peek drop1 n q)) = []"
proof (induction n arbitrary: q)
  case 0
  then show ?case by simp
next
  case (Suc n)
  show ?case
  proof (cases "contents q")
    case Nil
    then show ?thesis using Suc.prems by (simp add: peek_spec)
  next
    case (Cons x xs)
    have "qinv (drop1 q)" "contents (drop1 q) = xs"
      using Suc.prems Cons drop_inv drop_contents by auto
    with Suc.IH [of "drop1 q"] Suc.prems Cons show ?thesis
      by (simp add: peek_spec split_beta)
  qed
qed

end

text \<open>The write side, for a queue of fixed capacity.\<close>

locale bounded_fifo = fifo_read qinv contents peek drop1
  for qinv :: "'q \<Rightarrow> bool" and contents :: "'q \<Rightarrow> 'a list"
    and peek :: "'q \<Rightarrow> 'a option" and drop1 :: "'q \<Rightarrow> 'q" +
  fixes capacity :: "'q \<Rightarrow> nat"
    and full :: "'q \<Rightarrow> bool"
    and put :: "'q \<Rightarrow> 'a \<Rightarrow> 'q"
  assumes bounded: "qinv q \<Longrightarrow> length (contents q) \<le> capacity q"
    and full_iff: "qinv q \<Longrightarrow> full q \<longleftrightarrow> length (contents q) = capacity q"
    and put_inv: "qinv q \<Longrightarrow> \<not> full q \<Longrightarrow> qinv (put q x)"
    and put_contents: "qinv q \<Longrightarrow> \<not> full q \<Longrightarrow> contents (put q x) = contents q @ [x]"
    and put_capacity: "qinv q \<Longrightarrow> capacity (put q x) = capacity q"
begin

lemma put_all:
  "qinv q \<Longrightarrow> length (contents q) + length xs \<le> capacity q \<Longrightarrow>
     qinv (foldl put q xs) \<and> contents (foldl put q xs) = contents q @ xs"
proof (induction xs arbitrary: q)
  case Nil
  then show ?case by simp
next
  case (Cons x xs)
  have nf: "\<not> full q" using Cons.prems by (simp add: full_iff)
  with Cons.prems have "qinv (put q x)" "contents (put q x) = contents q @ [x]"
      "capacity (put q x) = capacity q"
    by (simp_all add: put_inv put_contents put_capacity)
  with Cons.IH [of "put q x"] Cons.prems show ?case by simp
qed

lemma put_all_then_drain:
  assumes "qinv q" "length (contents q) + length xs \<le> capacity q"
  shows "fst (drain_with peek drop1 (capacity q) (foldl put q xs)) = contents q @ xs"
  using drain_takes_in_order [of "foldl put q xs" "capacity q"] put_all [OF assms] assms by simp

end

end
