(* ===== verification/List_Macros.thy ===== *)
theory List_Macros
  imports Prelude
begin

text \<open>
  The intrusive lists of \<^verbatim>\<open>include/zb_list_macros.h\<close>. The entries live in a pool
  (\<^verbatim>\<open>tm_buffer\<close>, \<^verbatim>\<open>delayed_buf\<close>, the packet pool) and a pointer is the index of an
  entry or NULL. The control fields that \<^verbatim>\<open>ZB_LIST_FIELD\<close> and
  \<^verbatim>\<open>ZB_SL_LIST_FIELD\<close> add to the entries are two maps from entries to pointers.
  Every macro is one definition that performs the macro's stores in their order;
  where a store goes through a pointer the macro does not test, the result is
  \<open>None\<close> if that pointer is NULL. The doubly-linked list keeps the tail in the
  \<^verbatim>\<open>prev\<close> field of its head; \<open>dl_rep\<close>, \<open>sl_rep\<close> and \<open>stk_rep\<close> relate the fields
  to the list of entries, and every macro refines an operation on that list.
\<close>

type_synonym ptr = "nat option"

record links =
  l_next :: "nat \<Rightarrow> ptr"
  l_prev :: "nat \<Rightarrow> ptr"

definition set_next :: "nat \<Rightarrow> ptr \<Rightarrow> links \<Rightarrow> links" where
  "set_next a v L = L\<lparr>l_next := (l_next L)(a := v)\<rparr>"

definition set_prev :: "nat \<Rightarrow> ptr \<Rightarrow> links \<Rightarrow> links" where
  "set_prev a v L = L\<lparr>l_prev := (l_prev L)(a := v)\<rparr>"

lemma links_sel [simp]:
  "l_next (set_next a v L) = (l_next L)(a := v)" "l_prev (set_next a v L) = l_prev L"
  "l_prev (set_prev a v L) = (l_prev L)(a := v)" "l_next (set_prev a v L) = l_next L"
  by (simp_all add: set_next_def set_prev_def)

section \<open>Doubly-linked list\<close>

definition list_get_tail :: "links \<Rightarrow> ptr \<Rightarrow> ptr" where
  "list_get_tail L lst = (case lst of None \<Rightarrow> None | Some h \<Rightarrow> l_prev L h)"

definition list_item_in_list :: "links \<Rightarrow> nat \<Rightarrow> bool" where
  "list_item_in_list L e \<longleftrightarrow> l_prev L e \<noteq> None"

definition list_cut_head :: "links \<Rightarrow> ptr \<Rightarrow> links \<times> ptr \<times> ptr" where
  "list_cut_head L lst =
     (case lst of
        None \<Rightarrow> (L, lst, None)
      | Some h \<Rightarrow>
          let L1 = (case l_next L h of None \<Rightarrow> L | Some n \<Rightarrow> set_prev n (l_prev L h) L);
              L2 = set_prev h None L1
          in (L2, l_next L2 h, Some h))"

definition list_insert_head :: "links \<Rightarrow> ptr \<Rightarrow> nat \<Rightarrow> links \<times> ptr" where
  "list_insert_head L lst e =
     (let L1 = set_next e lst L in
      case lst of
        Some h \<Rightarrow> let L2 = set_prev e (l_prev L1 h) L1 in (set_prev h (Some e) L2, Some e)
      | None \<Rightarrow> (set_prev e (Some e) L1, Some e))"

definition list_insert_tail :: "links \<Rightarrow> ptr \<Rightarrow> nat \<Rightarrow> (links \<times> ptr) option" where
  "list_insert_tail L lst e =
     (let L1 = set_next e None L in
      case lst of
        Some h \<Rightarrow>
          (let L2 = set_prev e (l_prev L1 h) L1 in
           case l_prev L2 h of
             None \<Rightarrow> None
           | Some t \<Rightarrow> Some (set_prev h (Some e) (set_next t (Some e) L2), lst))
      | None \<Rightarrow> Some (set_prev e (Some e) L1, Some e))"

definition list_insert_after :: "links \<Rightarrow> ptr \<Rightarrow> ptr \<Rightarrow> nat \<Rightarrow> (links \<times> ptr) option" where
  "list_insert_after L lst ent e =
     (case ent of
        None \<Rightarrow> Some (L, lst)
      | Some x \<Rightarrow>
          if ent = list_get_tail L lst then list_insert_tail L lst e
          else
            (let L1 = set_prev e (Some x) (set_next e (l_next L x) L) in
             case l_next L1 x of
               None \<Rightarrow> None
             | Some n \<Rightarrow> Some (set_next x (Some e) (set_prev n (Some e) L1), lst)))"

definition list_remove_head :: "links \<Rightarrow> ptr \<Rightarrow> links \<times> ptr" where
  "list_remove_head L lst = (let (L', lst', _) = list_cut_head L lst in (L', lst'))"

definition list_remove_tail :: "links \<Rightarrow> ptr \<Rightarrow> (links \<times> ptr) option" where
  "list_remove_tail L lst =
     (case lst of
        None \<Rightarrow> Some (L, lst)
      | Some h \<Rightarrow>
          if l_prev L h = Some h then Some (set_prev h None L, None)
          else
            (case l_prev L h of
               None \<Rightarrow> None
             | Some t \<Rightarrow>
                 (case l_prev L t of
                    None \<Rightarrow> None
                  | Some b \<Rightarrow>
                      let L1 = set_next b None L;
                          L2 = set_next t (l_prev L1 t) L1;
                          L3 = set_prev t None L2
                      in Some (set_prev h (l_next L3 t) L3, lst))))"

definition list_remove :: "links \<Rightarrow> ptr \<Rightarrow> nat \<Rightarrow> (links \<times> ptr) option" where
  "list_remove L lst e =
     (if l_prev L e = None then Some (L, lst)
      else
        (case (case l_next L e of
                 Some n \<Rightarrow> Some (set_prev n (l_prev L e) L)
               | None \<Rightarrow>
                   (case lst of None \<Rightarrow> None | Some h \<Rightarrow> Some (set_prev h (l_prev L e) L))) of
           None \<Rightarrow> None
         | Some L1 \<Rightarrow>
             (if Some e = lst then Some (set_prev e None L1, l_next L1 e)
              else
                (case l_prev L1 e of
                   None \<Rightarrow> None
                 | Some p \<Rightarrow> Some (set_prev e None (set_next p (l_next L1 e) L1), lst)))))"

text \<open>
  Iteration, with a bound on the number of steps: forward until NULL, and backward from the
  tail until the entry whose predecessor's \<^verbatim>\<open>next\<close> is NULL (the head, whose \<^verbatim>\<open>prev\<close> is the
  tail).
\<close>

fun list_iterate :: "nat \<Rightarrow> links \<Rightarrow> ptr \<Rightarrow> nat list" where
  "list_iterate 0 L p = []"
| "list_iterate (Suc n) L p = (case p of None \<Rightarrow> [] | Some x \<Rightarrow> x # list_iterate n L (l_next L x))"

fun list_iterate_back_from :: "nat \<Rightarrow> links \<Rightarrow> ptr \<Rightarrow> nat list" where
  "list_iterate_back_from 0 L p = []"
| "list_iterate_back_from (Suc n) L p =
     (case p of
        None \<Rightarrow> []
      | Some x \<Rightarrow>
          x # list_iterate_back_from n L
                (case l_prev L x of None \<Rightarrow> None
                 | Some q \<Rightarrow> (if l_next L q \<noteq> None then Some q else None)))"

definition list_iterate_back :: "nat \<Rightarrow> links \<Rightarrow> ptr \<Rightarrow> nat list" where
  "list_iterate_back n L lst = list_iterate_back_from n L (list_get_tail L lst)"

section \<open>Single-linked list and stack\<close>

text \<open>They use the \<^verbatim>\<open>next\<close> field only; a list is a head and a tail pointer, a stack a head.\<close>

definition sl_insert_head :: "links \<Rightarrow> ptr \<times> ptr \<Rightarrow> nat \<Rightarrow> links \<times> ptr \<times> ptr" where
  "sl_insert_head L ht e =
     (let (h, t) = ht; L1 = set_next e h L
      in (L1, Some e, if h = None then Some e else t))"

definition sl_insert_tail :: "links \<Rightarrow> ptr \<times> ptr \<Rightarrow> nat \<Rightarrow> links \<times> ptr \<times> ptr" where
  "sl_insert_tail L ht e =
     (let (h, t) = ht; L1 = set_next e None L in
      case t of
        Some x \<Rightarrow> (set_next x (Some e) L1, h, Some e)
      | None \<Rightarrow> (L1, Some e, Some e))"

definition sl_cut_head :: "links \<Rightarrow> ptr \<times> ptr \<Rightarrow> (ptr \<times> ptr) \<times> ptr" where
  "sl_cut_head L ht =
     (let (h, t) = ht in
      case h of
        Some x \<Rightarrow> (let h' = l_next L x in ((h', if h' = None then None else t), Some x))
      | None \<Rightarrow> (ht, None))"

definition stk_push :: "links \<Rightarrow> ptr \<Rightarrow> nat \<Rightarrow> links \<times> ptr" where
  "stk_push L s e = (set_next e s L, Some e)"

definition stk_pop :: "links \<Rightarrow> ptr \<Rightarrow> ptr \<times> ptr" where
  "stk_pop L s = (case s of Some x \<Rightarrow> (l_next L x, Some x) | None \<Rightarrow> (s, None))"

section \<open>Chains of pointers\<close>

definition phead :: "ptr \<Rightarrow> nat list \<Rightarrow> ptr" where
  "phead e xs = (case xs of [] \<Rightarrow> e | x # _ \<Rightarrow> Some x)"

definition plast :: "ptr \<Rightarrow> nat list \<Rightarrow> ptr" where
  "plast q xs = (if xs = [] then q else Some (last xs))"

fun nseg :: "(nat \<Rightarrow> ptr) \<Rightarrow> nat list \<Rightarrow> ptr \<Rightarrow> bool" where
  "nseg n [] e = True"
| "nseg n (x # xs) e = (n x = phead e xs \<and> nseg n xs e)"

fun pseg :: "(nat \<Rightarrow> ptr) \<Rightarrow> ptr \<Rightarrow> nat list \<Rightarrow> bool" where
  "pseg v q [] = True"
| "pseg v q (x # xs) = (v x = q \<and> pseg v (Some x) xs)"

lemma phead_simps [simp]:
  "phead e [] = e" "phead e (x # xs) = Some x" "phead e (xs @ ys) = phead (phead e ys) xs"
  by (simp_all add: phead_def split: list.split)

lemma plast_simps [simp]:
  "plast q [] = q" "plast q (x # xs) = plast (Some x) xs" "plast q (xs @ ys) = plast (plast q xs) ys"
  by (simp_all add: plast_def)

lemma phead_None_iff: "phead None xs = None \<longleftrightarrow> xs = []"
  by (cases xs) simp_all

lemma plast_last: "xs \<noteq> [] \<Longrightarrow> plast q xs = Some (last xs)"
  by (simp add: plast_def)

lemma nseg_append [simp]: "nseg n (xs @ ys) e \<longleftrightarrow> nseg n xs (phead e ys) \<and> nseg n ys e"
  by (induction xs) auto

lemma pseg_append [simp]: "pseg v q (xs @ ys) \<longleftrightarrow> pseg v q xs \<and> pseg v (plast q xs) ys"
  by (induction xs arbitrary: q) (auto simp: plast_def)

lemma nseg_upd [simp]: "a \<notin> set xs \<Longrightarrow> nseg (n(a := v)) xs e = nseg n xs e"
  by (induction xs) auto

lemma pseg_upd [simp]: "a \<notin> set xs \<Longrightarrow> pseg (w(a := v)) q xs = pseg w q xs"
  by (induction xs arbitrary: q) auto

lemma phead_Some_in: "phead (Some y) ys = Some e \<Longrightarrow> e = y \<or> e \<in> set ys"
  by (cases ys) auto

lemma pseg_member: "pseg v q xs \<Longrightarrow> q \<noteq> None \<Longrightarrow> y \<in> set xs \<Longrightarrow> v y \<noteq> None"
  by (induction xs arbitrary: q) auto

section \<open>The doubly-linked list represents a list of entries\<close>

definition dl_rep :: "links \<Rightarrow> ptr \<Rightarrow> nat list \<Rightarrow> bool" where
  "dl_rep L lst xs \<longleftrightarrow> distinct xs \<and> lst = phead None xs \<and> nseg (l_next L) xs None
     \<and> pseg (l_prev L) (plast None xs) xs"

lemma dl_rep_Nil [simp]: "dl_rep L lst [] \<longleftrightarrow> lst = None"
  by (simp add: dl_rep_def)

lemma dl_rep_NULL: "dl_rep L None xs \<longleftrightarrow> xs = []"
  by (cases xs) (auto simp: dl_rep_def)

lemma dl_rep_head: "dl_rep L lst xs \<Longrightarrow> lst = phead None xs"
  by (simp add: dl_rep_def)

lemma dl_tail: "dl_rep L lst xs \<Longrightarrow> list_get_tail L lst = plast None xs"
  by (cases xs) (auto simp: dl_rep_def list_get_tail_def)

lemma dl_in_list: "dl_rep L lst xs \<Longrightarrow> e \<in> set xs \<Longrightarrow> list_item_in_list L e"
  using pseg_member [of "l_prev L" "plast None xs" xs e]
  by (cases xs) (auto simp: dl_rep_def list_item_in_list_def plast_def)

lemma dl_next_in: "dl_rep L lst (ys @ e # zs) \<Longrightarrow> l_next L e = phead None zs"
  by (simp add: dl_rep_def)

lemma dl_insert_head:
  assumes "dl_rep L lst xs" "e \<notin> set xs"
  shows "list_insert_head L lst e = (L', lst') \<Longrightarrow> dl_rep L' lst' (e # xs)"
  using assms
  by (cases xs) (auto simp: dl_rep_def list_insert_head_def Let_def plast_def split: if_splits)

lemma dl_cut_head:
  assumes "dl_rep L lst (x # xs)" "list_cut_head L lst = (L', lst', ent)"
  shows "dl_rep L' lst' xs \<and> ent = Some x \<and> l_prev L' x = None
    \<and> l_next L' = l_next L"
  using assms
  by (cases xs) (auto simp: dl_rep_def list_cut_head_def Let_def plast_def split: if_splits)

lemma dl_insert_tail:
  assumes "dl_rep L lst xs" "e \<notin> set xs"
  shows "\<exists>L' lst'. list_insert_tail L lst e = Some (L', lst') \<and> dl_rep L' lst' (xs @ [e])"
proof (cases xs)
  case Nil
  then show ?thesis using assms by (auto simp: dl_rep_def list_insert_tail_def Let_def)
next
  case (Cons h zs)
  show ?thesis
  proof (cases zs rule: rev_cases)
    case Nil
    with Cons assms show ?thesis by (auto simp: dl_rep_def list_insert_tail_def Let_def)
  next
    case (snoc ys t)
    with Cons assms show ?thesis by (auto simp: dl_rep_def list_insert_tail_def Let_def)
  qed
qed

lemma dl_insert_after:
  assumes "dl_rep L lst (ys @ x # zs)" "e \<notin> set (ys @ x # zs)"
  shows "\<exists>L' lst'. list_insert_after L lst (Some x) e = Some (L', lst')
    \<and> dl_rep L' lst' (ys @ x # e # zs)"
proof (cases zs)
  case Nil
  with assms have "list_get_tail L lst = Some x" by (simp add: dl_tail)
  with Nil dl_insert_tail [OF assms] show ?thesis by (simp add: list_insert_after_def)
next
  case (Cons z zs')
  have "plast None (ys @ x # zs) = Some (last zs)" using Cons by (simp add: plast_def)
  moreover have "last zs \<noteq> x" using assms Cons by (auto simp: dl_rep_def)
  ultimately have "Some x \<noteq> list_get_tail L lst" using dl_tail [OF assms(1)] by simp
  with Cons assms show ?thesis
    by (cases ys) (auto simp: dl_rep_def list_insert_after_def Let_def plast_def)
qed

lemma dl_remove_tail:
  assumes "dl_rep L lst (xs @ [t])"
  shows "\<exists>L' lst'. list_remove_tail L lst = Some (L', lst') \<and> dl_rep L' lst' xs
    \<and> l_prev L' t = None"
proof (cases xs)
  case Nil
  with assms show ?thesis by (auto simp: dl_rep_def list_remove_tail_def Let_def)
next
  case (Cons h zs)
  show ?thesis
    using assms Cons
    by (cases zs rule: rev_cases) (auto simp: dl_rep_def list_remove_tail_def Let_def)
qed

lemma dl_remove:
  assumes "dl_rep L lst (ys @ e # zs)"
  shows "\<exists>L' lst'. list_remove L lst e = Some (L', lst') \<and> dl_rep L' lst' (ys @ zs)
    \<and> l_prev L' e = None \<and> (\<forall>a. a \<notin> set ys \<longrightarrow> l_next L' a = l_next L a)"
proof -
  have "l_prev L e \<noteq> None"
    using dl_in_list [OF assms, of e] by (simp add: list_item_in_list_def)
  moreover have ?thesis if "l_prev L e \<noteq> None" "ys = h # ys'" "zs = []" for h ys'
    using assms that
    by (cases ys' rule: rev_cases)
      (auto simp: dl_rep_def list_remove_def Let_def plast_def split: if_splits)
  moreover have ?thesis if "l_prev L e \<noteq> None" "ys = [] \<or> zs \<noteq> []"
    using assms that
    by (cases ys rule: rev_cases; cases zs)
      (auto simp: dl_rep_def list_remove_def Let_def plast_def
        dest: phead_Some_in dest!: sym [of "Some e"] split: if_splits)
  ultimately show ?thesis by (metis list.exhaust)
qed

lemma dl_remove_absent:
  "l_prev L e = None \<Longrightarrow> list_remove L lst e = Some (L, lst)"
  by (simp add: list_remove_def)

text \<open>Inserting before an entry through its \<^verbatim>\<open>prev\<close> pointer, as the scheduler does.\<close>

lemma dl_prev_in: "dl_rep L lst (ys @ x # z # zs) \<Longrightarrow> l_prev L z = Some x"
  by (simp add: dl_rep_def)

lemma nseg_cong: "(\<And>a. a \<in> set xs \<Longrightarrow> n a = n' a) \<Longrightarrow> nseg n xs e = nseg n' xs e"
  by (induction xs) auto

lemma pseg_cong: "(\<And>a. a \<in> set xs \<Longrightarrow> v a = v' a) \<Longrightarrow> pseg v q xs = pseg v' q xs"
  by (induction xs arbitrary: q) auto

text \<open>The list depends on the fields of its own entries only.\<close>

lemma dl_rep_frame:
  assumes "dl_rep L lst xs"
    and "\<And>a. a \<in> set xs \<Longrightarrow> l_next L' a = l_next L a \<and> l_prev L' a = l_prev L a"
  shows "dl_rep L' lst xs"
  using assms nseg_cong [of xs "l_next L'" "l_next L" None]
    pseg_cong [of xs "l_prev L'" "l_prev L" "plast None xs"]
  by (simp add: dl_rep_def)

section \<open>Iteration visits the entries in order, both ways\<close>

lemma list_iterate_nseg:
  "nseg (l_next L) xs None \<Longrightarrow> length xs \<le> n \<Longrightarrow> list_iterate n L (phead None xs) = xs"
proof (induction xs arbitrary: n)
  case Nil
  then show ?case by (cases n) simp_all
next
  case (Cons x xs)
  then show ?case by (cases n) simp_all
qed

lemma list_iterate_rep: "dl_rep L lst xs \<Longrightarrow> length xs \<le> n \<Longrightarrow> list_iterate n L lst = xs"
  using list_iterate_nseg by (auto simp: dl_rep_def)

lemma list_iterate_back_seg:
  "nseg (l_next L) ys (Some b) \<Longrightarrow> pseg (l_prev L) q (ys @ [b]) \<Longrightarrow> q \<noteq> None \<Longrightarrow>
     l_next L (the q) = None \<Longrightarrow> length ys < n \<Longrightarrow>
     list_iterate_back_from n L (Some b) = b # rev ys"
proof (induction ys arbitrary: b n rule: rev_induct)
  case Nil
  then obtain m where n: "n = Suc m" by (cases n) auto
  from Nil show ?case by (cases m) (auto simp: n)
next
  case (snoc y ys)
  then obtain m where n: "n = Suc m" by (cases n) auto
  have "list_iterate_back_from m L (Some y) = y # rev ys"
    using snoc.prems n by (intro snoc.IH) auto
  with snoc.prems show ?case by (auto simp: n plast_def split: if_splits)
qed

lemma list_iterate_back_rep:
  assumes "dl_rep L lst xs" "length xs \<le> n"
  shows "list_iterate_back n L lst = rev xs"
proof (cases xs rule: rev_cases)
  case Nil
  then show ?thesis using assms by (cases n) (auto simp: list_iterate_back_def list_get_tail_def)
next
  case (snoc ys b)
  have "l_next L b = None" using assms snoc by (auto simp: dl_rep_def)
  then have "list_iterate_back_from n L (Some b) = b # rev ys"
    using assms snoc list_iterate_back_seg [of L ys b "Some b" n]
    by (auto simp: dl_rep_def)
  with snoc dl_tail [OF assms(1)] show ?thesis by (simp add: list_iterate_back_def)
qed

section \<open>Single-linked list and stack represent lists\<close>

definition sl_rep :: "links \<Rightarrow> ptr \<times> ptr \<Rightarrow> nat list \<Rightarrow> bool" where
  "sl_rep L ht xs \<longleftrightarrow> distinct xs \<and> ht = (phead None xs, plast None xs) \<and> nseg (l_next L) xs None"

definition stk_rep :: "links \<Rightarrow> ptr \<Rightarrow> nat list \<Rightarrow> bool" where
  "stk_rep L s xs \<longleftrightarrow> distinct xs \<and> s = phead None xs \<and> nseg (l_next L) xs None"

lemma stk_rep_NULL [simp]: "stk_rep L None xs \<longleftrightarrow> xs = []"
  by (cases xs) (auto simp: stk_rep_def)

lemma stk_rep_Nil [simp]: "stk_rep L s [] \<longleftrightarrow> s = None"
  by (simp add: stk_rep_def)

lemma sl_rep_frame:
  assumes "sl_rep L ht xs" "\<And>a. a \<in> set xs \<Longrightarrow> l_next L' a = l_next L a"
  shows "sl_rep L' ht xs"
  using assms nseg_cong [of xs "l_next L'" "l_next L" None] by (simp add: sl_rep_def)

lemma stk_rep_frame:
  assumes "stk_rep L s xs" "\<And>a. a \<in> set xs \<Longrightarrow> l_next L' a = l_next L a"
  shows "stk_rep L' s xs"
  using assms nseg_cong [of xs "l_next L'" "l_next L" None] by (simp add: stk_rep_def)

lemma sl_insert_head_rep:
  "sl_rep L ht xs \<Longrightarrow> e \<notin> set xs \<Longrightarrow> sl_insert_head L ht e = (L', ht') \<Longrightarrow> sl_rep L' ht' (e # xs)"
  by (cases xs) (auto simp: sl_rep_def sl_insert_head_def Let_def plast_def)

lemma sl_insert_tail_rep:
  assumes "sl_rep L ht xs" "e \<notin> set xs" "sl_insert_tail L ht e = (L', ht')"
  shows "sl_rep L' ht' (xs @ [e])"
  using assms
  by (cases xs rule: rev_cases) (auto simp: sl_rep_def sl_insert_tail_def Let_def)

lemma sl_cut_head_rep:
  "sl_rep L ht (x # xs) \<Longrightarrow> \<exists>ht'. sl_cut_head L ht = (ht', Some x) \<and> sl_rep L ht' xs"
  by (cases xs) (auto simp: sl_rep_def sl_cut_head_def Let_def plast_def)

lemma stk_push_rep:
  "stk_rep L s xs \<Longrightarrow> e \<notin> set xs \<Longrightarrow> stk_push L s e = (L', s') \<Longrightarrow> stk_rep L' s' (e # xs)"
  by (auto simp: stk_rep_def stk_push_def)

lemma stk_pop_rep:
  "stk_rep L s (x # xs) \<Longrightarrow> \<exists>s'. stk_pop L s = (s', Some x) \<and> stk_rep L s' xs"
  by (auto simp: stk_rep_def stk_pop_def)

section \<open>What the clients rely on: intrusive queues and stacks\<close>

text \<open>
  \<open>'h\<close> is the list header (a head pointer, or a head and a tail). The laws say which
  entries a header stands for, and that an operation leaves the \<^verbatim>\<open>next\<close> field of every
  other entry alone, so several lists can share the entries of one pool.
\<close>

locale intrusive =
  fixes rep :: "links \<Rightarrow> 'h \<Rightarrow> nat list \<Rightarrow> bool"
    and take_head :: "links \<Rightarrow> 'h \<Rightarrow> links \<times> 'h \<times> ptr"
  assumes take_empty: "rep L h [] \<Longrightarrow> take_head L h = (L, h, None)"
    and take_head: "rep L h (x # xs) \<Longrightarrow>
      \<exists>L' h'. take_head L h = (L', h', Some x) \<and> rep L' h' xs \<and> l_next L' = l_next L"
begin

lemma take_some:
  assumes "rep L h xs" "take_head L h = (L', h', Some x)"
  shows "xs = x # tl xs \<and> rep L' h' (tl xs)"
  using assms take_empty [of L h] take_head [of L h "hd xs" "tl xs"] by (cases xs) auto

lemma take_none:
  assumes "rep L h xs" "take_head L h = (L', h', None)"
  shows "xs = []"
  using assms take_head [of L h "hd xs" "tl xs"] by (cases xs) auto

end

locale intrusive_queue = intrusive rep take_head
  for rep :: "links \<Rightarrow> 'h \<Rightarrow> nat list \<Rightarrow> bool"
    and take_head :: "links \<Rightarrow> 'h \<Rightarrow> links \<times> 'h \<times> ptr" +
  fixes put_tail :: "links \<Rightarrow> 'h \<Rightarrow> nat \<Rightarrow> (links \<times> 'h) option"
  assumes put_tail: "rep L h xs \<Longrightarrow> e \<notin> set xs \<Longrightarrow>
      \<exists>L' h'. put_tail L h e = Some (L', h') \<and> rep L' h' (xs @ [e])"
begin

lemma put_then_take_order:
  assumes "rep L h xs" "e \<notin> set xs"
  shows "\<exists>L1 h1 L2 h2 x. put_tail L h e = Some (L1, h1) \<and> take_head L1 h1 = (L2, h2, Some x)
    \<and> x = hd (xs @ [e]) \<and> rep L2 h2 (tl (xs @ [e]))"
proof -
  obtain L1 h1 where p: "put_tail L h e = Some (L1, h1)" "rep L1 h1 (xs @ [e])"
    using put_tail [OF assms] by blast
  then have "rep L1 h1 (hd (xs @ [e]) # tl (xs @ [e]))" by simp
  from take_head [OF this] p show ?thesis by blast
qed

end

locale intrusive_stack = intrusive rep take_head
  for rep :: "links \<Rightarrow> 'h \<Rightarrow> nat list \<Rightarrow> bool"
    and take_head :: "links \<Rightarrow> 'h \<Rightarrow> links \<times> 'h \<times> ptr" +
  fixes push :: "links \<Rightarrow> 'h \<Rightarrow> nat \<Rightarrow> links \<times> 'h"
  assumes push: "rep L h xs \<Longrightarrow> e \<notin> set xs \<Longrightarrow> push L h e = (L', h') \<Longrightarrow> rep L' h' (e # xs)"
begin

lemma push_then_take:
  assumes "rep L h xs" "e \<notin> set xs" "push L h e = (L1, h1)"
  shows "\<exists>L2 h2. take_head L1 h1 = (L2, h2, Some e) \<and> rep L2 h2 xs"
  using take_head [OF push [OF assms]] by blast

end

lemma dl_take:
  "dl_rep L lst (x # xs) \<Longrightarrow>
     \<exists>L' lst'. list_cut_head L lst = (L', lst', Some x) \<and> dl_rep L' lst' xs \<and> l_next L' = l_next L"
  using dl_cut_head by (metis prod_cases3)

lemma dl_take_empty: "dl_rep L lst [] \<Longrightarrow> list_cut_head L lst = (L, lst, None)"
  by (simp add: list_cut_head_def)

interpretation dl: intrusive_queue dl_rep list_cut_head list_insert_tail
  by unfold_locales (rule dl_take_empty dl_take dl_insert_tail, assumption+)+

interpretation dlh: intrusive_stack dl_rep list_cut_head list_insert_head
  by unfold_locales (auto dest: dl_insert_head)

definition sl_take :: "links \<Rightarrow> ptr \<times> ptr \<Rightarrow> links \<times> (ptr \<times> ptr) \<times> ptr" where
  "sl_take L ht = (let (ht', e) = sl_cut_head L ht in (L, ht', e))"

interpretation sl: intrusive_queue sl_rep sl_take "\<lambda>L h e. Some (sl_insert_tail L h e)"
proof unfold_locales
  show "sl_take L h = (L, h, None)" if "sl_rep L h []" for L h
    using that by (simp add: sl_take_def sl_cut_head_def sl_rep_def)
  show "\<exists>L' h'. sl_take L h = (L', h', Some x) \<and> sl_rep L' h' xs \<and> l_next L' = l_next L"
    if "sl_rep L h (x # xs)" for L h x xs
    using sl_cut_head_rep [OF that] by (auto simp: sl_take_def)
  show "\<exists>L' h'. Some (sl_insert_tail L h e) = Some (L', h') \<and> sl_rep L' h' (xs @ [e])"
    if "sl_rep L h xs" "e \<notin> set xs" for L h xs e
    using sl_insert_tail_rep [OF that] by (metis surj_pair)
qed

definition stk_take :: "links \<Rightarrow> ptr \<Rightarrow> links \<times> ptr \<times> ptr" where
  "stk_take L s = (let (s', e) = stk_pop L s in (L, s', e))"

interpretation stk: intrusive_stack stk_rep stk_take stk_push
proof unfold_locales
  show "stk_take L h = (L, h, None)" if "stk_rep L h []" for L h
    using that by (simp add: stk_take_def stk_pop_def)
  show "\<exists>L' h'. stk_take L h = (L', h', Some x) \<and> stk_rep L' h' xs \<and> l_next L' = l_next L"
    if "stk_rep L h (x # xs)" for L h x xs
    using stk_pop_rep [OF that] by (auto simp: stk_take_def)
qed (rule stk_push_rep)

end
