(* ===== verification/List_Props.thy ===== *)
theory List_Props
  imports List_Macros
begin

text \<open>
  Whole histories of one doubly-linked list: every macro as a command, run on the control
  fields, against the same commands on lists of entries. The items outside of the list have
  a NULL \<^verbatim>\<open>prev\<close>, which is what \<^verbatim>\<open>ZB_LIST_ITEM_IN_LIST\<close> tests.
\<close>

datatype list_op =
    Ins_head nat | Ins_tail nat | Ins_after nat nat | Cut_head | Rem_tail | Rem nat

fun list_exec :: "list_op \<Rightarrow> links \<times> ptr \<Rightarrow> (links \<times> ptr) option" where
  "list_exec (Ins_head e) (L, lst) = Some (list_insert_head L lst e)"
| "list_exec (Ins_tail e) (L, lst) = list_insert_tail L lst e"
| "list_exec (Ins_after x e) (L, lst) = list_insert_after L lst (Some x) e"
| "list_exec Cut_head (L, lst) = Some (list_remove_head L lst)"
| "list_exec Rem_tail (L, lst) = list_remove_tail L lst"
| "list_exec (Rem e) (L, lst) = list_remove L lst e"

fun list_run :: "list_op list \<Rightarrow> links \<times> ptr \<Rightarrow> (links \<times> ptr) option" where
  "list_run [] s = Some s"
| "list_run (op # ops) s = (case list_exec op s of None \<Rightarrow> None | Some s' \<Rightarrow> list_run ops s')"

fun list_abs :: "list_op \<Rightarrow> nat list \<Rightarrow> nat list" where
  "list_abs (Ins_head e) xs = e # xs"
| "list_abs (Ins_tail e) xs = xs @ [e]"
| "list_abs (Ins_after x e) xs =
     takeWhile (\<lambda>y. y \<noteq> x) xs @ x # e # tl (dropWhile (\<lambda>y. y \<noteq> x) xs)"
| "list_abs Cut_head xs = tl xs"
| "list_abs Rem_tail xs = butlast xs"
| "list_abs (Rem e) xs = remove1 e xs"

text \<open>An entry is put into the list only while it is outside, and after one that is in it.\<close>

fun op_ok :: "list_op \<Rightarrow> nat list \<Rightarrow> bool" where
  "op_ok (Ins_head e) xs = (e \<notin> set xs)"
| "op_ok (Ins_tail e) xs = (e \<notin> set xs)"
| "op_ok (Ins_after x e) xs = (x \<in> set xs \<and> e \<notin> set xs)"
| "op_ok _ xs = True"

fun ops_ok :: "list_op list \<Rightarrow> nat list \<Rightarrow> bool" where
  "ops_ok [] xs = True"
| "ops_ok (op # ops) xs = (op_ok op xs \<and> ops_ok ops (list_abs op xs))"

definition dl_ok :: "links \<times> ptr \<Rightarrow> nat list \<Rightarrow> bool" where
  "dl_ok s xs \<longleftrightarrow> dl_rep (fst s) (snd s) xs \<and> (\<forall>a. a \<notin> set xs \<longrightarrow> l_prev (fst s) a = None)"

lemma insert_tail_prev:
  assumes "dl_rep L lst xs" "list_insert_tail L lst e = Some (L', lst')" "a \<noteq> e" "a \<notin> set xs"
  shows "l_prev L' a = l_prev L a"
  using assms
  by (cases xs) (auto simp: dl_rep_def list_insert_tail_def Let_def split: if_splits option.splits)

lemma insert_after_prev:
  assumes "dl_rep L lst (ys @ x # zs)" "list_insert_after L lst (Some x) e = Some (L', lst')"
    "a \<noteq> e" "a \<notin> set (ys @ x # zs)"
  shows "l_prev L' a = l_prev L a"
proof (cases "Some x = list_get_tail L lst")
  case True
  then have "list_insert_tail L lst e = Some (L', lst')"
    using assms(2) by (simp add: list_insert_after_def True [symmetric])
  then show ?thesis using insert_tail_prev assms by blast
next
  case False
  have "l_next L x = phead None zs" using dl_next_in [OF assms(1)] .
  with False assms show ?thesis
    by (cases zs) (auto simp: list_insert_after_def Let_def split: option.splits if_splits)
qed

lemma remove_prev:
  assumes "dl_rep L lst (ys @ e # zs)" "list_remove L lst e = Some (L', lst')"
    "a \<notin> set (ys @ e # zs)"
  shows "l_prev L' a = l_prev L a"
proof -
  have n: "l_next L e = phead None zs" using dl_next_in [OF assms(1)] .
  have h: "lst = Some (hd (ys @ e # zs))" using dl_rep_head [OF assms(1)] by (cases ys) auto
  have "a \<noteq> hd (ys @ e # zs)" using assms(3) by (cases ys) auto
  with n h assms(2,3) show ?thesis
    by (cases zs) (auto simp: list_remove_def Let_def split: option.splits if_splits)
qed

lemma list_exec_ok:
  assumes "dl_ok s xs" "op_ok op xs"
  shows "\<exists>s'. list_exec op s = Some s' \<and> dl_ok s' (list_abs op xs)"
proof -
  obtain L lst where s: "s = (L, lst)" by (cases s)
  have rep: "dl_rep L lst xs" and out: "\<And>a. a \<notin> set xs \<Longrightarrow> l_prev L a = None"
    using assms(1) s by (auto simp: dl_ok_def)
  show ?thesis
  proof (cases op)
    case (Ins_head e)
    obtain L' lst' where i: "list_insert_head L lst e = (L', lst')" by fastforce
    have "l_prev L' a = None" if "a \<noteq> e" "a \<notin> set xs" for a
      using that i out dl_rep_head [OF rep]
      by (cases xs) (auto simp: list_insert_head_def Let_def split: if_splits)
    with Ins_head assms(2) s i dlh.push [OF rep _ i] show ?thesis by (simp add: dl_ok_def)
  next
    case (Ins_tail e)
    have e: "e \<notin> set xs" using assms(2) Ins_tail by simp
    obtain L' lst' where
      i: "list_insert_tail L lst e = Some (L', lst')" "dl_rep L' lst' (xs @ [e])"
      using dl_insert_tail [OF rep e] by blast
    with Ins_tail s out insert_tail_prev [OF rep i(1)] show ?thesis by (simp add: dl_ok_def)
  next
    case (Ins_after x e)
    then have x: "x \<in> set xs" "e \<notin> set xs" using assms(2) by auto
    let ?ys = "takeWhile (\<lambda>y. y \<noteq> x) xs" and ?zs = "tl (dropWhile (\<lambda>y. y \<noteq> x) xs)"
    have dw: "dropWhile (\<lambda>y. y \<noteq> x) xs = x # ?zs"
      using x(1) hd_dropWhile [of "\<lambda>y. y \<noteq> x" xs]
      by (cases "dropWhile (\<lambda>y. y \<noteq> x) xs") (auto simp: dropWhile_eq_Nil_conv)
    have eq: "xs = ?ys @ x # ?zs"
      by (rule trans [OF takeWhile_dropWhile_id [of "\<lambda>y. y \<noteq> x" xs, symmetric]]) (subst dw, rule refl)
    have rep': "dl_rep L lst (?ys @ x # ?zs)" and e: "e \<notin> set (?ys @ x # ?zs)"
      using rep x(2) unfolding eq [symmetric] by simp_all
    obtain L' lst' where i: "list_insert_after L lst (Some x) e = Some (L', lst')"
      "dl_rep L' lst' (?ys @ x # e # ?zs)" using dl_insert_after [OF rep' e] by blast
    have "l_prev L' a = None" if "a \<notin> set (?ys @ x # e # ?zs)" for a
    proof -
      have a: "a \<noteq> e" "a \<notin> set (?ys @ x # ?zs)" using that by auto
      then have "a \<notin> set xs" by (subst eq) simp
      with insert_after_prev [OF rep' i(1) a] out show ?thesis by simp
    qed
    with Ins_after s i show ?thesis by (auto simp: dl_ok_def)
  next
    case Cut_head
    show ?thesis
    proof (cases xs)
      case Nil
      with Cut_head s rep out show ?thesis
        by (simp add: list_remove_head_def list_cut_head_def dl_ok_def)
    next
      case (Cons x zs)
      obtain L' lst' ent where c: "list_cut_head L lst = (L', lst', ent)" by (rule prod_cases3)
      have r: "dl_rep L' lst' zs" "l_prev L' x = None" using dl_cut_head c rep Cons by blast+
      have "l_prev L' a = l_prev L a" if "a \<notin> set xs" for a
        using that c rep Cons
        by (cases zs) (auto simp: dl_rep_def list_cut_head_def Let_def split: if_splits)
      with r out Cons have "dl_ok (L', lst') zs" by (metis dl_ok_def fst_conv set_ConsD snd_conv)
      with Cut_head s c Cons show ?thesis by (simp add: list_remove_head_def)
    qed
  next
    case Rem_tail
    show ?thesis
    proof (cases xs rule: rev_cases)
      case Nil
      with Rem_tail s rep out show ?thesis by (simp add: list_remove_tail_def dl_ok_def)
    next
      case (snoc zs t)
      obtain L' lst' where r: "list_remove_tail L lst = Some (L', lst')" "dl_rep L' lst' zs"
        "l_prev L' t = None" using dl_remove_tail rep snoc by blast
      have "l_prev L' a = l_prev L a" if "a \<notin> set xs" for a
        using that r(1) rep snoc
        by (cases zs)
          (auto simp: dl_rep_def list_remove_tail_def Let_def split: if_splits option.splits)
      with r out snoc have "dl_ok (L', lst') zs"
        by (auto simp: dl_ok_def) (metis UnE empty_iff insertE list.set(1) list.simps(15) set_append)
      with Rem_tail s r snoc show ?thesis by simp
    qed
  next
    case (Rem e)
    show ?thesis
    proof (cases "e \<in> set xs")
      case False
      with Rem s out rep show ?thesis by (simp add: dl_remove_absent dl_ok_def remove1_idem)
    next
      case True
      then obtain ys zs where eq: "xs = ys @ e # zs" by (meson split_list)
      then have ne: "e \<notin> set ys" using rep by (auto simp: dl_rep_def)
      have rep': "dl_rep L lst (ys @ e # zs)" using rep eq by simp
      obtain L' lst' where r: "list_remove L lst e = Some (L', lst')" "dl_rep L' lst' (ys @ zs)"
        "l_prev L' e = None" using dl_remove [OF rep'] by blast
      have "l_prev L' a = None" if "a \<notin> set (ys @ zs)" for a
        using that r(3) remove_prev [OF rep' r(1), of a] out [of a] eq by (cases "a = e") auto
      with Rem s r eq ne show ?thesis by (simp add: dl_ok_def remove1_append)
    qed
  qed
qed

lemma list_run_ok:
  "dl_ok s xs \<Longrightarrow> ops_ok ops xs \<Longrightarrow> \<exists>s'. list_run ops s = Some s' \<and> dl_ok s' (fold list_abs ops xs)"
proof (induction ops arbitrary: s xs)
  case Nil
  then show ?case by simp
next
  case (Cons op ops)
  obtain s1 where "list_exec op s = Some s1" "dl_ok s1 (list_abs op xs)"
    using list_exec_ok [OF Cons.prems(1), of op] Cons.prems(2) by (auto simp del: split_paired_Ex)
  with Cons.IH Cons.prems(2) show ?case by simp
qed

lemma dl_ok_in_list:
  assumes "dl_ok (L, lst) xs"
  shows "list_item_in_list L a \<longleftrightarrow> a \<in> set xs"
proof
  show "list_item_in_list L a \<Longrightarrow> a \<in> set xs"
    using assms by (auto simp: dl_ok_def list_item_in_list_def)
  show "a \<in> set xs \<Longrightarrow> list_item_in_list L a"
    using assms dl_in_list by (auto simp: dl_ok_def)
qed

definition links0 :: links where
  "links0 = \<lparr>l_next = \<lambda>_. None, l_prev = \<lambda>_. None\<rparr>"

text \<open>
  C21: Any history of insertions (at the head, at the tail, after an entry), removals (at
  the head, at the tail, of an entry, even of one that is not in the list) on an empty
  doubly-linked list never follows a NULL pointer, and afterwards the pointers stand for
  exactly the list that the same history gives on plain lists: forward iteration visits it in
  order, backward iteration in reverse, and the in-list test answers membership.
\<close>

theorem list_history_refines_lists:
  assumes "ops_ok ops []" "length (fold list_abs ops []) \<le> n"
  shows "\<exists>L lst. list_run ops (links0, None) = Some (L, lst)
    \<and> list_iterate n L lst = fold list_abs ops []
    \<and> list_iterate_back n L lst = rev (fold list_abs ops [])
    \<and> (\<forall>a. list_item_in_list L a = (a \<in> set (fold list_abs ops [])))"
proof -
  have "dl_ok (links0, None) []" by (simp add: dl_ok_def links0_def)
  from list_run_ok [OF this assms(1)] obtain L lst where
    r: "list_run ops (links0, None) = Some (L, lst)" "dl_ok (L, lst) (fold list_abs ops [])" by auto
  then have "dl_rep L lst (fold list_abs ops [])" by (simp add: dl_ok_def)
  from list_iterate_rep [OF this assms(2)] list_iterate_back_rep [OF this assms(2)]
    dl_ok_in_list [OF r(2)] r(1) show ?thesis by blast
qed

theorem list_history_refines_lists_witness:
  "\<exists>L lst. list_run [Ins_tail 4, Ins_head 2, Ins_after 2 7, Rem 4, Rem 4, Ins_tail 9, Cut_head]
       (links0, None) = Some (L, lst)
     \<and> list_iterate 5 L lst = [7, 9] \<and> list_iterate_back 5 L lst = [9, 7]
     \<and> (\<forall>a. list_item_in_list L a = (a \<in> {7, 9}))"
  using list_history_refines_lists
    [of "[Ins_tail 4, Ins_head 2, Ins_after 2 7, Rem 4, Rem 4, Ins_tail 9, Cut_head]" 5]
  by (simp del: list_run.simps list_iterate.simps)

end
