(* ===== verification/Ring_Buffer.thy ===== *)
theory Ring_Buffer
  imports Prelude
begin

text \<open>
  The ring buffer macros of \<^verbatim>\<open>include/zb_ringbuffer.h\<close>: state as the struct that
  \<^verbatim>\<open>ZB_RING_BUFFER_DECLARE\<close> declares, one definition per macro, and the refinement of
  the whole structure to a bounded queue.
\<close>

section \<open>State and operations\<close>

record 'a ring =
  ring_buf :: "'a list"
  read_i :: nat
  write_i :: nat
  written :: nat

definition ring_init :: "'a ring \<Rightarrow> 'a ring" where
  "ring_init r = r\<lparr>read_i := 0, write_i := 0, written := 0\<rparr>"

definition ring_capacity :: "'a ring \<Rightarrow> nat" where
  "ring_capacity r = length (ring_buf r)"

definition ring_is_full :: "'a ring \<Rightarrow> bool" where
  "ring_is_full r \<longleftrightarrow> written r \<ge> ring_capacity r"

definition ring_is_empty :: "'a ring \<Rightarrow> bool" where
  "ring_is_empty r \<longleftrightarrow> written r = 0"

text \<open>The reserved slot is a pointer into \<open>ring_buf\<close>: its index, or \<open>None\<close> for NULL.\<close>

definition ring_put_reserve :: "'a ring \<Rightarrow> nat option" where
  "ring_put_reserve r = (if ring_is_full r then None else Some (write_i r))"

definition ring_flush_put :: "'a ring \<Rightarrow> 'a ring" where
  "ring_flush_put r = r\<lparr>written := ushort_inc (written r),
                       write_i := (write_i r + 1) mod ring_capacity r\<rparr>"

definition ring_put :: "'a ring \<Rightarrow> 'a \<Rightarrow> 'a ring" where
  "ring_put r v = ring_flush_put (r\<lparr>ring_buf := (ring_buf r)[write_i r := v]\<rparr>)"

definition ring_peek :: "'a ring \<Rightarrow> 'a option" where
  "ring_peek r = (if ring_is_empty r then None else Some (ring_buf r ! read_i r))"

definition ring_get :: "'a ring \<Rightarrow> 'a" where
  "ring_get r = ring_buf r ! read_i r"

definition ring_flush_get :: "'a ring \<Rightarrow> 'a ring" where
  "ring_flush_get r = r\<lparr>written := ushort_dec (written r),
                       read_i := (read_i r + 1) mod ring_capacity r\<rparr>"

lemmas ring_defs =
  ring_init_def ring_capacity_def ring_is_full_def ring_is_empty_def ring_put_reserve_def
  ring_flush_put_def ring_put_def ring_peek_def ring_get_def ring_flush_get_def

section \<open>Invariant and contents\<close>

definition ring_inv :: "'a ring \<Rightarrow> bool" where
  "ring_inv r \<longleftrightarrow> 0 < ring_capacity r \<and> ring_capacity r < 2 ^ 32 - 1
     \<and> read_i r < ring_capacity r \<and> written r \<le> ring_capacity r
     \<and> write_i r = (read_i r + written r) mod ring_capacity r"

definition ring_list :: "'a ring \<Rightarrow> 'a list" where
  "ring_list r = map (\<lambda>k. ring_buf r ! ((read_i r + k) mod ring_capacity r)) [0..<written r]"

lemma length_ring_list [simp]: "length (ring_list r) = written r"
  by (simp add: ring_list_def)

lemma ring_init_inv:
  "0 < ring_capacity r \<Longrightarrow> ring_capacity r < 2 ^ 32 - 1 \<Longrightarrow>
     ring_inv (ring_init r) \<and> ring_list (ring_init r) = []"
  by (simp add: ring_inv_def ring_list_def ring_init_def ring_capacity_def)

text \<open>
  The slot being written is none of the occupied ones: indices \<open>read_i + k\<close> for \<open>k\<close>
  below \<open>written\<close> are distinct modulo the capacity.
\<close>

lemma ring_slot_inj:
  fixes c i k n :: nat
  assumes "i < c" "k < n" "n < c"
  shows "(i + k) mod c \<noteq> (i + n) mod c"
proof
  assume "(i + k) mod c = (i + n) mod c"
  then have "c dvd (i + n) - (i + k)"
    using assms mod_eq_dvd_iff_nat [of "i + k" "i + n" c] by simp
  with assms show False by (auto dest: dvd_imp_le)
qed

lemma ring_put_list:
  assumes "ring_inv r" "\<not> ring_is_full r"
  shows "ring_inv (ring_put r v)" and "ring_list (ring_put r v) = ring_list r @ [v]"
proof -
  let ?c = "ring_capacity r"
  have lt: "written r < ?c" and c: "?c = length (ring_buf r)" and ri: "read_i r < ?c"
    and wi: "write_i r = (read_i r + written r) mod ?c"
    using assms by (auto simp: ring_inv_def ring_is_full_def ring_capacity_def)
  have inc: "ushort_inc (written r) = Suc (written r)"
    using assms lt by (simp add: ring_inv_def)
  have wlt: "write_i r < length (ring_buf r)"
    using ri unfolding wi c by (intro mod_less_divisor) linarith
  have "(write_i r + 1) mod ?c = (read_i r + Suc (written r)) mod ?c"
    by (simp add: wi mod_Suc_eq)
  with assms(1) lt inc show "ring_inv (ring_put r v)"
    by (simp add: ring_inv_def ring_put_def ring_flush_put_def ring_capacity_def)
  have "(ring_buf r)[write_i r := v] ! ((read_i r + k) mod ?c) = ring_buf r ! ((read_i r + k) mod ?c)"
    if "k < written r" for k
    using ring_slot_inj [OF ri that lt] wi by simp
  moreover have "(ring_buf r)[write_i r := v] ! ((read_i r + written r) mod ?c) = v"
    using wlt by (simp add: wi [symmetric])
  ultimately show "ring_list (ring_put r v) = ring_list r @ [v]"
    by (simp add: ring_list_def ring_put_def ring_flush_put_def ring_capacity_def inc)
qed

lemma ring_flush_get_list:
  assumes "ring_inv r" "ring_list r \<noteq> []"
  shows "ring_inv (ring_flush_get r)" and "ring_list (ring_flush_get r) = tl (ring_list r)"
proof -
  let ?c = "ring_capacity r"
  have pos: "0 < written r" using assms(2) length_ring_list [of r] by (metis length_greater_0_conv)
  have ri: "read_i r < ?c" using assms(1) by (simp add: ring_inv_def)
  have step: "(Suc (read_i r) mod ?c + k) mod ?c = (read_i r + Suc k) mod ?c" for k
    by (simp add: mod_add_left_eq)
  show "ring_inv (ring_flush_get r)"
    using assms(1) pos step [of "written r - 1"]
    by (auto simp: ring_inv_def ring_flush_get_def ring_capacity_def)
  have "tl [0..<written r] = map Suc [0..<written r - 1]"
    using pos by (metis Suc_diff_1 map_Suc_upt tl_upt)
  then show "ring_list (ring_flush_get r) = tl (ring_list r)"
    using pos step by (simp add: ring_list_def ring_flush_get_def ring_capacity_def map_tl [symmetric])
qed

lemma ring_peek_list:
  assumes "ring_inv r"
  shows "ring_peek r = (case ring_list r of [] \<Rightarrow> None | x # _ \<Rightarrow> Some x)"
proof (cases "written r")
  case 0
  then show ?thesis by (simp add: ring_peek_def ring_is_empty_def ring_list_def)
next
  case (Suc n)
  then have "ring_list r = ring_buf r ! read_i r #
      map (\<lambda>k. ring_buf r ! ((read_i r + k) mod ring_capacity r)) [1..<written r]"
    using assms by (simp add: ring_list_def upt_rec ring_inv_def)
  with Suc show ?thesis by (simp add: ring_peek_def ring_is_empty_def)
qed

lemma ring_put_reserve_None [simp]: "ring_put_reserve r = None \<longleftrightarrow> ring_is_full r"
  by (simp add: ring_put_reserve_def)

lemma ring_capacity_put [simp]:
  "ring_capacity (ring_put r v) = ring_capacity r"
  "ring_capacity (ring_flush_get r) = ring_capacity r"
  by (simp_all add: ring_defs)

lemma ring_inv_bounds: "ring_inv r \<Longrightarrow> written r \<le> ring_capacity r"
  by (simp add: ring_inv_def)

interpretation ring: bounded_fifo ring_inv ring_list ring_peek ring_flush_get
    ring_capacity ring_is_full ring_put
proof unfold_locales
  show "ring_is_full q \<longleftrightarrow> length (ring_list q) = ring_capacity q" if "ring_inv q" for q :: "'a ring"
    using ring_inv_bounds [OF that] by (auto simp: ring_is_full_def)
qed (simp_all add: ring_peek_list ring_flush_get_list ring_put_list ring_inv_bounds)

end
