(* ===== verification/Zb_Time.thy ===== *)
theory Zb_Time
  imports Prelude
begin

text \<open>
  Time: \<^verbatim>\<open>include/zb_time.h\<close> and \<^verbatim>\<open>common/zb_time.c\<close> (the branches of the Linux
  build). Time is a 16-bit counter of beacon intervals that overflows; the macros compare
  and subtract modulo \<open>2 ^ 16\<close> and assume that two times differ by less than half of the
  range. The lemmas say what that assumption buys and what happens without it.
\<close>

type_synonym zb_time = u16

definition ZB_MAX_TIME_VAL :: zb_time where
  "ZB_MAX_TIME_VAL = 65535"

definition ZB_HALF_MAX_TIME_VAL :: zb_time where
  "ZB_HALF_MAX_TIME_VAL = ZB_MAX_TIME_VAL div 2"

definition zb_time_subtract :: "zb_time \<Rightarrow> zb_time \<Rightarrow> zb_time" where
  "zb_time_subtract a b = (if a - b < ZB_HALF_MAX_TIME_VAL then a - b else b - a)"

definition zb_time_add :: "zb_time \<Rightarrow> zb_time \<Rightarrow> zb_time" where
  "zb_time_add a b = a + b"

definition zb_time_ge :: "zb_time \<Rightarrow> zb_time \<Rightarrow> bool" where
  "zb_time_ge a b \<longleftrightarrow> a - b < ZB_HALF_MAX_TIME_VAL"

text \<open>Conversions; the C expressions are of type \<^verbatim>\<open>long\<close> on non-negative values.\<close>

definition ZB_BEACON_INTERVAL_USEC :: nat where
  "ZB_BEACON_INTERVAL_USEC = 15360"

definition zb_time_beacon_interval_to_msec :: "nat \<Rightarrow> nat" where
  "zb_time_beacon_interval_to_msec t = ZB_BEACON_INTERVAL_USEC div 100 * t div 10"

definition zb_milliseconds_to_beacon_interval :: "nat \<Rightarrow> nat" where
  "zb_milliseconds_to_beacon_interval ms = (10 * ms + 3) div (ZB_BEACON_INTERVAL_USEC div 100)"

definition ZB_TIME_ONE_SECOND :: nat where
  "ZB_TIME_ONE_SECOND = zb_milliseconds_to_beacon_interval 1000"

text \<open>The timer context; starting it keeps the earliest pending stop time.\<close>

record zb_timer =
  timer_stop :: zb_time
  timer :: zb_time
  started :: bool

definition zb_timer_start :: "zb_time \<Rightarrow> zb_timer \<Rightarrow> zb_timer" where
  "zb_timer_start timeout c =
     (let t_cur = timer c; t = zb_time_add t_cur timeout in
      if \<not> started c \<or> \<not> zb_time_ge t (timer_stop c) \<or> \<not> zb_time_ge (timer_stop c) t_cur
      then c\<lparr>timer_stop := t, started := True\<rparr> else c)"

definition zb_timer_stop_async :: "zb_timer \<Rightarrow> zb_timer" where
  "zb_timer_stop_async c = c\<lparr>started := False\<rparr>"

lemma half_max_eq [simp]: "ZB_HALF_MAX_TIME_VAL = 32767"
  by (simp add: ZB_HALF_MAX_TIME_VAL_def ZB_MAX_TIME_VAL_def)

section \<open>Times as offsets from a base\<close>

text \<open>How many ticks after \<open>b\<close> the time \<open>t\<close> is, when time runs forward from \<open>b\<close>.\<close>

definition time_off :: "zb_time \<Rightarrow> zb_time \<Rightarrow> nat" where
  "time_off b t = unat (t - b)"

definition in_window :: "zb_time \<Rightarrow> zb_time \<Rightarrow> bool" where
  "in_window b t \<longleftrightarrow> time_off b t < 32767"

lemma word_sub_less_half:
  fixes x y :: u16
  assumes "unat x < 32767" "unat y < 32767"
  shows "x - y < 32767 \<longleftrightarrow> unat y \<le> unat x"
  using assms by (auto simp: word_less_nat_alt unat_sub_if_size word_size)

lemma time_ge_window:
  assumes "in_window b a" "in_window b c"
  shows "zb_time_ge a c \<longleftrightarrow> time_off b c \<le> time_off b a"
  using word_sub_less_half [of "a - b" "c - b"] assms
  by (simp add: zb_time_ge_def in_window_def time_off_def)

lemma time_off_self [simp]: "time_off b b = 0"
  by (simp add: time_off_def)

lemma time_off_inject: "time_off b a = time_off b c \<longleftrightarrow> a = c"
  by (simp add: time_off_def word_unat_eq_iff [symmetric])

lemma time_sub_window:
  assumes "in_window b a" "in_window b c" "time_off b c \<le> time_off b a"
  shows "unat (zb_time_subtract a c) = time_off b a - time_off b c"
proof -
  have "a - c = (a - b) - (c - b)" by simp
  moreover have "a - c < 32767"
    using time_ge_window [OF assms(1,2)] assms(3) by (simp add: zb_time_ge_def)
  ultimately show ?thesis
    using assms unat_sub_if' [of "a - b" "c - b"]
    by (simp add: zb_time_subtract_def time_off_def word_le_nat_alt)
qed

text \<open>Beyond half of the range the order is lost: the whole table of an added timeout.\<close>

lemma time_ge_add:
  "zb_time_ge t (zb_time_add t d) \<longleftrightarrow> d = 0 \<or> 32770 \<le> unat d"
proof -
  have "t - (t + d) = - d" by simp
  moreover have "- d < 32767 \<longleftrightarrow> d = 0 \<or> 32770 \<le> unat d"
  proof (cases "d = 0")
    case False
    then have "0 < unat d" by (simp add: unat_gt_0)
    moreover have "unat d < 65536" using unsigned_less [of d, where ?'a = nat] by simp
    ultimately show ?thesis
      using False unat_sub_if_size [of "0 :: u16" d] by (auto simp: word_less_nat_alt word_size)
  qed simp
  ultimately show ?thesis by (simp add: zb_time_ge_def zb_time_add_def)
qed

end
