(* ===== verification/Scheduler.thy ===== *)
theory Scheduler
  imports Ring_Buffer List_Macros Zb_Time
begin

text \<open>
  The cooperative scheduler: \<^verbatim>\<open>include/zb_scheduler.h\<close>,
  \<^verbatim>\<open>common/zb_scheduler_init.c\<close> and \<^verbatim>\<open>common/zb_scheduler.c\<close>. Immediate callbacks
  wait in a ring buffer, alarms in a doubly-linked list ordered by time whose entries come
  from a fixed pool. A callback is a function pointer: a value of \<open>'f\<close> that the scheduler
  only stores, compares and calls; what it does to the state is a parameter of the loop.
  The state is an extensible record, so that the packet pool and the protocol layers can
  extend it and callbacks can change all of it.
\<close>

section \<open>State\<close>

definition ZB_SCHEDULER_Q_SIZE :: nat where "ZB_SCHEDULER_Q_SIZE = 16"
definition ZB_MAC_QUEUE_SIZE :: nat where "ZB_MAC_QUEUE_SIZE = 4"
definition ZB_BUF_Q_SIZE :: nat where "ZB_BUF_Q_SIZE = 16"
definition ZB_IOBUF_POOL_SIZE :: nat where "ZB_IOBUF_POOL_SIZE = 16"

record 'f zb_cb_q_ent =
  cb_func :: 'f
  cb_param :: u8

record 'f zb_tm_q_ent =
  tm_func :: 'f
  tm_param :: u8
  tm_run_time :: zb_time

text \<open>
  \<^verbatim>\<open>zb_sched_globals_t\<close> and the timer context. The \<^verbatim>\<open>next\<close> fields of the entries of
  \<^verbatim>\<open>tm_buffer\<close> and \<^verbatim>\<open>delayed_buf\<close> are in \<open>tm_links\<close> and \<open>buf_links\<close>.
\<close>

record 'f zb_sched =
  cb_q :: "'f zb_cb_q_ent ring"
  mac_tx_q :: "'f zb_cb_q_ent ring"
  tm_buffer :: "nat \<Rightarrow> 'f zb_tm_q_ent"
  tm_links :: links
  tm_queue :: ptr
  tm_freelist :: ptr
  delayed_buf :: "nat \<Rightarrow> 'f"
  buf_links :: links
  inbuf_queue :: "ptr \<times> ptr"
  outbuf_queue :: "ptr \<times> ptr"
  buf_freelist :: ptr
  timer_ctx :: zb_timer

definition zb_timer_get :: "('f, 'z) zb_sched_scheme \<Rightarrow> zb_time" where
  "zb_timer_get s = timer (timer_ctx s)"

section \<open>Operations\<close>

fun stk_push_all :: "links \<Rightarrow> ptr \<Rightarrow> nat list \<Rightarrow> links \<times> ptr" where
  "stk_push_all L p [] = (L, p)"
| "stk_push_all L p (i # is) = (let (L', p') = stk_push L p i in stk_push_all L' p' is)"

definition zb_sched_init :: "('f, 'z) zb_sched_scheme \<Rightarrow> ('f, 'z) zb_sched_scheme" where
  "zb_sched_init s =
     (let (L, fl) = stk_push_all (tm_links s) (tm_freelist s) [0..<ZB_SCHEDULER_Q_SIZE];
          (B, bf) = stk_push_all (buf_links s) (buf_freelist s) [0..<ZB_BUF_Q_SIZE]
      in s\<lparr>tm_links := L, tm_freelist := fl, buf_links := B, buf_freelist := bf\<rparr>)"

text \<open>
  Filling the reserved slot of a ring buffer of callbacks; the assertion on the parameter
  comes after the entry is in the queue.
\<close>

definition put_cb :: "'f zb_cb_q_ent ring \<Rightarrow> nat \<Rightarrow> 'f \<Rightarrow> u8 \<Rightarrow> 'f zb_cb_q_ent ring" where
  "put_cb r i func param =
     ring_flush_put (r\<lparr>ring_buf := (ring_buf r)[i := \<lparr>cb_func = func, cb_param = param\<rparr>]\<rparr>)"

definition zb_schedule_callback ::
  "'f \<Rightarrow> u8 \<Rightarrow> ('f, 'z) zb_sched_scheme \<Rightarrow> (zb_ret \<times> ('f, 'z) zb_sched_scheme) option" where
  "zb_schedule_callback func param s =
     (case ring_put_reserve (cb_q s) of
        Some i \<Rightarrow>
          (let s' = s\<lparr>cb_q := put_cb (cb_q s) i func param\<rparr> in
           if unat param \<le> ZB_IOBUF_POOL_SIZE then Some (RET_OK, s') else None)
      | None \<Rightarrow> Some (RET_OVERFLOW, s))"

definition zb_schedule_tx_cb ::
  "'f \<Rightarrow> u8 \<Rightarrow> ('f, 'z) zb_sched_scheme \<Rightarrow> (zb_ret \<times> ('f, 'z) zb_sched_scheme) option" where
  "zb_schedule_tx_cb func param s =
     (case ring_put_reserve (mac_tx_q s) of
        Some i \<Rightarrow>
          (let s' = s\<lparr>mac_tx_q := put_cb (mac_tx_q s) i func param\<rparr> in
           if unat param \<le> ZB_IOBUF_POOL_SIZE then Some (RET_OK, s') else None)
      | None \<Rightarrow> Some (RET_OVERFLOW, s))"

definition insert_tmq_head :: "nat \<Rightarrow> ('f, 'z) zb_sched_scheme \<Rightarrow> ('f, 'z) zb_sched_scheme" where
  "insert_tmq_head nent s =
     (let (L, q) = list_insert_head (tm_links s) (tm_queue s) nent
      in s\<lparr>tm_links := L, tm_queue := q\<rparr>)"

text \<open>
  The search loop of \<^verbatim>\<open>zb_schedule_alarm\<close>; the bound counts the entries it looks at
  and \<open>None\<close> means that it is used up.
\<close>

fun alarm_search :: "nat \<Rightarrow> (nat \<Rightarrow> 'f zb_tm_q_ent) \<Rightarrow> links \<Rightarrow> zb_time \<Rightarrow> ptr \<Rightarrow> ptr option" where
  "alarm_search 0 b L rt ent = None"
| "alarm_search (Suc n) b L rt ent =
     (case ent of
        None \<Rightarrow> Some None
      | Some x \<Rightarrow> if zb_time_ge rt (tm_run_time (b x)) then alarm_search n b L rt (l_next L x)
                  else Some ent)"

definition alarm_insert ::
  "nat \<Rightarrow> zb_time \<Rightarrow> ('f, 'z) zb_sched_scheme \<Rightarrow> ('f, 'z) zb_sched_scheme option" where
  "alarm_insert nent rt s =
     (let put = (\<lambda>r. case r of None \<Rightarrow> None
                   | Some (L, q) \<Rightarrow> Some (s\<lparr>tm_links := L, tm_queue := q\<rparr>)) in
      case tm_queue s of
        None \<Rightarrow> Some (insert_tmq_head nent s)
      | Some h \<Rightarrow>
          if zb_time_ge (tm_run_time (tm_buffer s h)) rt then Some (insert_tmq_head nent s)
          else
            (case alarm_search (Suc ZB_SCHEDULER_Q_SIZE) (tm_buffer s) (tm_links s) rt (Some h) of
               None \<Rightarrow> None
             | Some (Some ent) \<Rightarrow>
                 (case l_prev (tm_links s) ent of
                    Some p \<Rightarrow> put (list_insert_after (tm_links s) (tm_queue s) (Some p) nent)
                  | None \<Rightarrow> Some (insert_tmq_head nent s))
             | Some None \<Rightarrow> put (list_insert_tail (tm_links s) (tm_queue s) nent)))"

text \<open>The hw timer is started unless the head of the queue is due already.\<close>

definition alarm_start_timer :: "('f, 'z) zb_sched_scheme \<Rightarrow> ('f, 'z) zb_sched_scheme option" where
  "alarm_start_timer s =
     (case tm_queue s of
        None \<Rightarrow> None
      | Some ent \<Rightarrow>
          (let t = zb_timer_get s; rt = tm_run_time (tm_buffer s ent) in
           Some (if rt \<noteq> t \<and> zb_time_ge rt t
                 then s\<lparr>timer_ctx := zb_timer_start (zb_time_subtract rt t) (timer_ctx s)\<rparr>
                 else s)))"

definition zb_schedule_alarm ::
  "'f \<Rightarrow> u8 \<Rightarrow> zb_time \<Rightarrow> ('f, 'z) zb_sched_scheme \<Rightarrow> (zb_ret \<times> ('f, 'z) zb_sched_scheme) option" where
  "zb_schedule_alarm func param run_after s =
     (case stk_pop (tm_links s) (tm_freelist s) of
        (fl, None) \<Rightarrow> Some (RET_OVERFLOW, s\<lparr>tm_freelist := fl\<rparr>)
      | (fl, Some nent) \<Rightarrow>
          (let t = zb_timer_get s;
               rt = zb_time_add t run_after;
               s1 = s\<lparr>tm_freelist := fl,
                      tm_buffer := (tm_buffer s)(nent :=
                        \<lparr>tm_func = func, tm_param = param, tm_run_time = rt\<rparr>)\<rparr>
           in case alarm_insert nent rt s1 of
                None \<Rightarrow> None
              | Some s2 \<Rightarrow>
                  (case alarm_start_timer s2 of
                     None \<Rightarrow> None
                   | Some s3 \<Rightarrow> Some (RET_OK, s3))))"

definition ZB_ALARM_ANY_PARAM :: u8 where "ZB_ALARM_ANY_PARAM = 255"
definition ZB_ALARM_ALL_CB :: u8 where "ZB_ALARM_ALL_CB = 254"

definition cancel_matches :: "(nat \<Rightarrow> 'f zb_tm_q_ent) \<Rightarrow> 'f \<Rightarrow> u8 \<Rightarrow> nat \<Rightarrow> bool" where
  "cancel_matches b func param e \<longleftrightarrow>
     tm_func (b e) = func \<and>
     (param = ZB_ALARM_ANY_PARAM \<or> param = ZB_ALARM_ALL_CB \<or> param = tm_param (b e))"

fun alarm_cancel_loop ::
  "nat \<Rightarrow> 'f \<Rightarrow> u8 \<Rightarrow> ptr \<Rightarrow> zb_ret \<Rightarrow> ('f, 'z) zb_sched_scheme \<Rightarrow>
     (zb_ret \<times> ('f, 'z) zb_sched_scheme) option" where
  "alarm_cancel_loop 0 func param ent ret s = None"
| "alarm_cancel_loop (Suc n) func param ent ret s =
     (case ent of
        None \<Rightarrow> Some (ret, s)
      | Some e \<Rightarrow>
          (let nxt = l_next (tm_links s) e in
           if cancel_matches (tm_buffer s) func param e then
             (case list_remove (tm_links s) (tm_queue s) e of
                None \<Rightarrow> None
              | Some (L, q) \<Rightarrow>
                  (let (L', fl) = stk_push L (tm_freelist s) e;
                       s' = s\<lparr>tm_links := L', tm_queue := q, tm_freelist := fl\<rparr>
                   in if param \<noteq> ZB_ALARM_ALL_CB then Some (RET_OK, s')
                      else alarm_cancel_loop n func param nxt RET_OK s'))
           else alarm_cancel_loop n func param nxt ret s))"

definition zb_schedule_alarm_cancel ::
  "'f \<Rightarrow> u8 \<Rightarrow> ('f, 'z) zb_sched_scheme \<Rightarrow> (zb_ret \<times> ('f, 'z) zb_sched_scheme) option" where
  "zb_schedule_alarm_cancel func param s =
     alarm_cancel_loop (Suc ZB_SCHEDULER_Q_SIZE) func param (tm_queue s) RET_NOT_FOUND s"

section \<open>The main loop\<close>

text \<open>
  What the loop calls: a callback, the interrupt check with \<^verbatim>\<open>zb_mac_main_loop\<close>, the
  test \<^verbatim>\<open>ZB_GET_TRANS_INT() && ZB_IN_BUF_AVAILABLE()\<close> and the i/o of the simulator
  build. Each can stop the program (\<open>None\<close>).
\<close>

record ('f, 's) sched_env =
  env_run :: "'f \<Rightarrow> u8 \<Rightarrow> 's \<Rightarrow> 's option"
  env_mac :: "'s \<Rightarrow> 's option"
  env_rx_ready :: "'s \<Rightarrow> bool"
  env_try_io :: "'s \<Rightarrow> 's option"

definition flush_cb :: "('f, 'z) zb_sched_scheme \<Rightarrow> ('f, 'z) zb_sched_scheme" where
  "flush_cb s = s\<lparr>cb_q := ring_flush_get (cb_q s)\<rparr>"

fun run_callbacks ::
  "nat \<Rightarrow> ('f, ('f, 'z) zb_sched_scheme) sched_env \<Rightarrow> bool \<Rightarrow> ('f, 'z) zb_sched_scheme \<Rightarrow>
     (bool \<times> ('f, 'z) zb_sched_scheme) option" where
  "run_callbacks 0 E did s = None"
| "run_callbacks (Suc n) E did s =
     (case ring_peek (cb_q s) of
        None \<Rightarrow> Some (did, s)
      | Some ent \<Rightarrow>
          if env_rx_ready E s then Some (True, s)
          else
            (case env_run E (cb_func ent) (cb_param ent) s of
               None \<Rightarrow> None
             | Some s1 \<Rightarrow> run_callbacks n E True (flush_cb s1)))"

definition cut_alarm :: "('f, 'z) zb_sched_scheme \<Rightarrow> ('f, 'z) zb_sched_scheme" where
  "cut_alarm s =
     (let (L, q, _) = list_cut_head (tm_links s) (tm_queue s) in s\<lparr>tm_links := L, tm_queue := q\<rparr>)"

definition free_alarm :: "nat \<Rightarrow> ('f, 'z) zb_sched_scheme \<Rightarrow> ('f, 'z) zb_sched_scheme" where
  "free_alarm e s =
     (let (L, fl) = stk_push (tm_links s) (tm_freelist s) e
      in s\<lparr>tm_links := L, tm_freelist := fl\<rparr>)"

fun run_alarms ::
  "nat \<Rightarrow> ('f, ('f, 'z) zb_sched_scheme) sched_env \<Rightarrow> zb_time \<Rightarrow> bool \<Rightarrow>
     ('f, 'z) zb_sched_scheme \<Rightarrow> (bool \<times> ('f, 'z) zb_sched_scheme) option" where
  "run_alarms 0 E t did s = None"
| "run_alarms (Suc n) E t did s =
     (case tm_queue s of
        None \<Rightarrow> Some (did, s)
      | Some e \<Rightarrow>
          if \<not> zb_time_ge t (tm_run_time (tm_buffer s e)) then Some (did, s)
          else if env_rx_ready E s then Some (True, s)
          else
            (let s1 = cut_alarm s; ent = tm_buffer s1 e in
             case env_run E (tm_func ent) (tm_param ent) s1 of
               None \<Rightarrow> None
             | Some s2 \<Rightarrow> run_alarms n E t True (free_alarm e s2)))"

fun sched_loop ::
  "nat \<Rightarrow> ('f, ('f, 'z) zb_sched_scheme) sched_env \<Rightarrow> ('f, 'z) zb_sched_scheme \<Rightarrow>
     ('f, 'z) zb_sched_scheme option" where
  "sched_loop 0 E s = None"
| "sched_loop (Suc n) E s =
     (case env_mac E s of
        None \<Rightarrow> None
      | Some s1 \<Rightarrow>
          (case run_callbacks n E False s1 of
             None \<Rightarrow> None
           | Some (did2, s2) \<Rightarrow>
               (let t = (if tm_queue s2 \<noteq> None then zb_timer_get s2 else 0) in
                case (if tm_queue s2 \<noteq> None then run_alarms n E t did2 s2 else Some (did2, s2)) of
                  None \<Rightarrow> None
                | Some (did3, s3) \<Rightarrow>
                    (let s4 = s3\<lparr>timer_ctx :=
                           (case tm_queue s3 of
                              Some h \<Rightarrow> zb_timer_start
                                (zb_time_subtract (tm_run_time (tm_buffer s3 h)) t) (timer_ctx s3)
                            | None \<Rightarrow> zb_timer_stop_async (timer_ctx s3))\<rparr>
                     in if did3 then sched_loop n E s4 else Some s4))))"

definition zb_sched_loop_iteration ::
  "nat \<Rightarrow> ('f, ('f, 'z) zb_sched_scheme) sched_env \<Rightarrow> ('f, 'z) zb_sched_scheme \<Rightarrow>
     ('f, 'z) zb_sched_scheme option" where
  "zb_sched_loop_iteration n E s =
     (case sched_loop n E s of None \<Rightarrow> None | Some s' \<Rightarrow> env_try_io E s')"

section \<open>The pool of alarms\<close>

text \<open>
  \<open>xs\<close> are the waiting alarms in the order of the queue, \<open>ys\<close> the free entries. While an
  alarm runs, its entry is in neither.
\<close>

definition tm_rep :: "('f, 'z) zb_sched_scheme \<Rightarrow> nat list \<Rightarrow> nat list \<Rightarrow> bool" where
  "tm_rep s xs ys \<longleftrightarrow> dl_rep (tm_links s) (tm_queue s) xs \<and> stk_rep (tm_links s) (tm_freelist s) ys
     \<and> set xs \<inter> set ys = {} \<and> set xs \<union> set ys \<subseteq> {..<ZB_SCHEDULER_Q_SIZE}"

lemma tm_rep_length:
  assumes "tm_rep s xs ys"
  shows "length xs \<le> ZB_SCHEDULER_Q_SIZE"
proof -
  have "distinct xs" "set xs \<subseteq> {..<ZB_SCHEDULER_Q_SIZE}"
    using assms by (auto simp: tm_rep_def dl_rep_def)
  then show ?thesis
    using card_mono [of "{..<ZB_SCHEDULER_Q_SIZE}" "set xs"] by (simp add: distinct_card)
qed

lemma stk_push_all_rep:
  "stk_rep L p ys \<Longrightarrow> distinct (rev is @ ys) \<Longrightarrow> stk_push_all L p is = (L', p') \<Longrightarrow>
     stk_rep L' p' (rev is @ ys)"
proof (induction "is" arbitrary: L p ys)
  case Nil
  then show ?case by simp
next
  case (Cons i "is")
  obtain L1 p1 where p: "stk_push L p i = (L1, p1)" by fastforce
  have "stk_rep L1 p1 (i # ys)" using stk.push [OF Cons.prems(1) _ p] Cons.prems(2) by simp
  from Cons.IH [OF this] Cons.prems p show ?case by simp
qed

text \<open>The order of the new entry: before an equal head, after every other entry not later.\<close>

definition alarm_insert_spec :: "(nat \<Rightarrow> zb_time) \<Rightarrow> nat \<Rightarrow> nat list \<Rightarrow> nat list" where
  "alarm_insert_spec rt e xs =
     (if xs = [] \<or> zb_time_ge (rt (hd xs)) (rt e) then e # xs
      else if \<not> zb_time_ge (rt e) (rt (hd xs)) then xs @ [e]
      else takeWhile (\<lambda>x. zb_time_ge (rt e) (rt x)) xs @ e #
           dropWhile (\<lambda>x. zb_time_ge (rt e) (rt x)) xs)"

lemma alarm_search_rep:
  "nseg (l_next L) xs None \<Longrightarrow> length xs < n \<Longrightarrow>
     alarm_search n b L r (phead None xs) =
       Some (phead None (dropWhile (\<lambda>x. zb_time_ge r (tm_run_time (b x))) xs))"
proof (induction xs arbitrary: n)
  case Nil
  then show ?case by (cases n) simp_all
next
  case (Cons x xs)
  then show ?case by (cases n) auto
qed

lemma list_insert_head_next:
  "list_insert_head L lst e = (L', lst') \<Longrightarrow> a \<noteq> e \<Longrightarrow> l_next L' a = l_next L a"
  by (auto simp: list_insert_head_def Let_def split: option.splits)

lemma list_insert_tail_next:
  assumes "dl_rep L lst xs" "list_insert_tail L lst e = Some (L', lst')" "a \<noteq> e" "a \<notin> set xs"
  shows "l_next L' a = l_next L a"
proof (cases xs)
  case Nil
  then show ?thesis using assms by (auto simp: list_insert_tail_def Let_def)
next
  case (Cons h zs)
  have "lst = Some h" "l_prev L h = Some (last xs)"
    using assms(1) Cons by (auto simp: dl_rep_def plast_def split: if_splits)
  moreover have "a \<noteq> last xs" using assms(4) Cons by (metis last_in_set list.distinct(1))
  ultimately show ?thesis using assms(2,3)
    by (auto simp: list_insert_tail_def Let_def split: if_splits option.splits)
qed

lemma list_insert_after_next:
  assumes "dl_rep L lst xs" "list_insert_after L lst (Some x) e = Some (L', lst')" "x \<in> set xs"
    "a \<noteq> e" "a \<notin> set xs"
  shows "l_next L' a = l_next L a"
proof (cases "Some x = list_get_tail L lst")
  case True
  then have "list_insert_tail L lst e = Some (L', lst')"
    using assms(2) by (simp add: list_insert_after_def True [symmetric])
  then show ?thesis using list_insert_tail_next assms by blast
next
  case False
  then show ?thesis using assms
    by (auto simp: list_insert_after_def Let_def split: option.splits)
qed

lemma alarm_insert_head_links:
  assumes "dl_rep (tm_links s) (tm_queue s) xs" "e \<notin> set xs"
  shows "\<exists>L q. insert_tmq_head e s = s\<lparr>tm_links := L, tm_queue := q\<rparr> \<and> dl_rep L q (e # xs)
    \<and> (\<forall>a. a \<noteq> e \<and> a \<notin> set xs \<longrightarrow> l_next L a = l_next (tm_links s) a)"
proof -
  obtain L q where lq: "list_insert_head (tm_links s) (tm_queue s) e = (L, q)" by fastforce
  then show ?thesis
    using dlh.push [OF assms lq] list_insert_head_next [OF lq]
    by (intro exI [of _ L] exI [of _ q]) (simp add: insert_tmq_head_def)
qed

lemma alarm_insert_links:
  assumes rep: "dl_rep (tm_links s) (tm_queue s) xs" and e: "e \<notin> set xs"
    and len: "length xs \<le> ZB_SCHEDULER_Q_SIZE" and r: "r = tm_run_time (tm_buffer s e)"
  shows "\<exists>L q. alarm_insert e r s = Some (s\<lparr>tm_links := L, tm_queue := q\<rparr>)
    \<and> dl_rep L q (alarm_insert_spec (\<lambda>x. tm_run_time (tm_buffer s x)) e xs)
    \<and> (\<forall>a. a \<noteq> e \<and> a \<notin> set xs \<longrightarrow> l_next L a = l_next (tm_links s) a)"
proof (cases "xs = [] \<or> zb_time_ge (tm_run_time (tm_buffer s (hd xs))) r")
  case True
  then have "alarm_insert e r s = Some (insert_tmq_head e s)"
    using dl_rep_head [OF rep] by (cases xs) (auto simp: alarm_insert_def)
  with True alarm_insert_head_links [OF rep e] r show ?thesis
    by (auto simp: alarm_insert_spec_def)
next
  case False
  let ?P = "\<lambda>x. zb_time_ge r (tm_run_time (tm_buffer s x))"
  obtain h zs where xs: "xs = h # zs" and q: "tm_queue s = Some h"
    using False dl_rep_head [OF rep] by (cases xs) auto
  have search: "alarm_search (Suc ZB_SCHEDULER_Q_SIZE) (tm_buffer s) (tm_links s) r (Some h)
      = Some (phead None (dropWhile ?P xs))"
    using alarm_search_rep [of "tm_links s" xs "Suc ZB_SCHEDULER_Q_SIZE" "tm_buffer s" r] rep len xs
    by (simp add: dl_rep_def del: alarm_search.simps)
  have tail: "\<exists>L q'. list_insert_tail (tm_links s) (Some h) e = Some (L, q') \<and> dl_rep L q' (xs @ [e])
      \<and> (\<forall>a. a \<noteq> e \<and> a \<notin> set xs \<longrightarrow> l_next L a = l_next (tm_links s) a)"
    using dl.put_tail [OF rep e] list_insert_tail_next [OF rep] q by metis
  have split_xs: "xs = takeWhile ?P xs @ dropWhile ?P xs" by simp
  have after: "\<exists>L q'. list_insert_after (tm_links s) (Some h) (Some x) e = Some (L, q')
      \<and> dl_rep L q' (ys @ x # e # zs')
      \<and> (\<forall>a. a \<noteq> e \<and> a \<notin> set xs \<longrightarrow> l_next L a = l_next (tm_links s) a)"
    if "xs = ys @ x # zs'" for ys x zs'
    using dl_insert_after [of "tm_links s" "tm_queue s" ys x zs' e]
      list_insert_after_next [OF rep, of x e] rep e q that by fastforce
  let ?rt = "\<lambda>x. tm_run_time (tm_buffer s x)"
  have nospec: "alarm_insert_spec ?rt e xs =
      (if \<not> ?P h then xs @ [e] else takeWhile ?P xs @ e # dropWhile ?P xs)"
    using False xs r by (simp add: alarm_insert_spec_def)
  have unf: "alarm_insert e r s =
      (case phead None (dropWhile ?P xs) of
         Some ent \<Rightarrow>
           (case l_prev (tm_links s) ent of
              Some p \<Rightarrow>
                (case list_insert_after (tm_links s) (Some h) (Some p) e of None \<Rightarrow> None
                 | Some (L, q) \<Rightarrow> Some (s\<lparr>tm_links := L, tm_queue := q\<rparr>))
            | None \<Rightarrow> Some (insert_tmq_head e s))
       | None \<Rightarrow>
           (case list_insert_tail (tm_links s) (Some h) e of None \<Rightarrow> None
            | Some (L, q) \<Rightarrow> Some (s\<lparr>tm_links := L, tm_queue := q\<rparr>)))"
    using False xs q search
    by (simp add: alarm_insert_def del: alarm_search.simps split: option.split)
  show ?thesis
  proof (cases "dropWhile ?P xs")
    case Nil
    with split_xs have "takeWhile ?P xs = xs" by simp
    with Nil have spec: "alarm_insert_spec ?rt e xs = xs @ [e]" by (simp add: nospec)
    from tail obtain L q' where t: "list_insert_tail (tm_links s) (Some h) e = Some (L, q')"
        "dl_rep L q' (xs @ [e])" "\<forall>a. a \<noteq> e \<and> a \<notin> set xs \<longrightarrow> l_next L a = l_next (tm_links s) a"
      by blast
    then show ?thesis by (intro exI [of _ L] exI [of _ q']) (simp add: unf Nil spec)
  next
    case (Cons z zs')
    obtain ys x us where eq: "xs = ys @ x # us" and pz: "l_prev (tm_links s) z = Some x"
      and spec: "alarm_insert_spec ?rt e xs = ys @ x # e # us"
    proof (cases "takeWhile ?P xs" rule: rev_cases)
      case Nil
      then have nP: "\<not> ?P h" using xs by (auto split: if_splits)
      with Cons xs have "z = h" by simp
      then have "l_prev (tm_links s) z = Some (last xs)"
        using rep xs by (simp add: dl_rep_def plast_def split: if_splits)
      moreover have "xs = butlast xs @ last xs # []" using xs by simp
      moreover have "alarm_insert_spec ?rt e xs = butlast xs @ last xs # e # []"
        using nospec nP calculation(2) by (metis append_Cons append_Nil append_assoc)
      ultimately show ?thesis using that by blast
    next
      case (snoc ys x)
      with split_xs Cons have eq: "xs = ys @ x # z # zs'" by simp
      moreover have "l_prev (tm_links s) z = Some x" using rep eq by (simp add: dl_rep_def)
      moreover have "?P h" using snoc xs by (auto split: if_splits)
      then have "alarm_insert_spec ?rt e xs = ys @ x # e # z # zs'"
        using nospec snoc Cons by simp
      ultimately show ?thesis using that by blast
    qed
    from after [OF eq] obtain L q' where
      t: "list_insert_after (tm_links s) (Some h) (Some x) e = Some (L, q')"
        "dl_rep L q' (ys @ x # e # us)"
        "\<forall>a. a \<noteq> e \<and> a \<notin> set xs \<longrightarrow> l_next L a = l_next (tm_links s) a"
      by blast
    then show ?thesis
      by (intro exI [of _ L] exI [of _ q']) (simp add: unf Cons pz spec)
  qed
qed

section \<open>Scheduling an alarm\<close>

lemma tm_rep_cong:
  assumes "tm_rep s xs ys" "tm_links s' = tm_links s" "tm_queue s' = tm_queue s"
    "tm_freelist s' = tm_freelist s"
  shows "tm_rep s' xs ys"
  using assms by (simp add: tm_rep_def)

lemma set_alarm_insert_spec [simp]: "set (alarm_insert_spec rt e xs) = insert e (set xs)"
proof -
  have "set (takeWhile P xs @ e # dropWhile P xs) = insert e (set xs)" for P
    by (metis list.simps(15) set_append takeWhile_dropWhile_id Un_insert_right)
  then show ?thesis by (simp add: alarm_insert_spec_def)
qed

lemma alarm_start_timer_simp:
  "tm_queue s = Some h \<Longrightarrow> \<exists>c. alarm_start_timer s = Some (s\<lparr>timer_ctx := c\<rparr>) \<and> timer c = zb_timer_get s"
  by (cases s) (auto simp: alarm_start_timer_def Let_def zb_timer_start_def zb_timer_get_def)

lemma alarm_insert_spec_not_Nil: "alarm_insert_spec rt e xs \<noteq> []"
  by (metis set_alarm_insert_spec empty_set insert_not_empty)

lemma zb_schedule_alarm_rep:
  assumes rep: "tm_rep s xs (e # ys)"
  shows "\<exists>L q c b. zb_schedule_alarm f p d s =
      Some (RET_OK, s\<lparr>tm_freelist := phead None ys, tm_buffer := b, tm_links := L, tm_queue := q, timer_ctx := c\<rparr>)
    \<and> b = (tm_buffer s)(e := \<lparr>tm_func = f, tm_param = p, tm_run_time = zb_time_add (zb_timer_get s) d\<rparr>)
    \<and> timer c = zb_timer_get s
    \<and> tm_rep (s\<lparr>tm_freelist := phead None ys, tm_buffer := b, tm_links := L, tm_queue := q, timer_ctx := c\<rparr>)
        (alarm_insert_spec (\<lambda>x. tm_run_time (b x)) e xs) ys"
proof -
  let ?rt = "zb_time_add (zb_timer_get s) d"
  let ?b = "(tm_buffer s)(e := \<lparr>tm_func = f, tm_param = p, tm_run_time = ?rt\<rparr>)"
  let ?s1 = "s\<lparr>tm_freelist := phead None ys, tm_buffer := ?b\<rparr>"
  have e: "e \<notin> set xs" "e \<notin> set ys" and fl: "tm_freelist s = Some e"
    and nx: "l_next (tm_links s) e = phead None ys"
    using rep by (auto simp: tm_rep_def stk_rep_def)
  obtain L q where ins: "alarm_insert e ?rt ?s1 = Some (?s1\<lparr>tm_links := L, tm_queue := q\<rparr>)"
    and dl: "dl_rep L q (alarm_insert_spec (\<lambda>x. tm_run_time (?b x)) e xs)"
    and fr: "\<forall>a. a \<noteq> e \<and> a \<notin> set xs \<longrightarrow> l_next L a = l_next (tm_links s) a"
    using alarm_insert_links [of ?s1 xs e ?rt] rep e tm_rep_length [OF rep]
    by (auto simp: tm_rep_def)
  let ?s2 = "?s1\<lparr>tm_links := L, tm_queue := q\<rparr>"
  have "q \<noteq> None" using dl alarm_insert_spec_not_Nil by (metis dl_rep_NULL)
  then obtain c where st: "alarm_start_timer ?s2 = Some (?s2\<lparr>timer_ctx := c\<rparr>)"
      "timer c = zb_timer_get s"
    using alarm_start_timer_simp [of ?s2] by (auto simp: zb_timer_get_def)
  have "stk_rep (tm_links s) (phead None ys) ys"
    using rep by (auto simp: tm_rep_def stk_rep_def)
  moreover have "l_next L a = l_next (tm_links s) a" if "a \<in> set ys" for a
    using that fr e rep by (auto simp: tm_rep_def)
  ultimately have "stk_rep L (phead None ys) ys" by (rule stk_rep_frame)
  then have "tm_rep (?s2\<lparr>timer_ctx := c\<rparr>) (alarm_insert_spec (\<lambda>x. tm_run_time (?b x)) e xs) ys"
    using rep dl e by (auto simp: tm_rep_def)
  moreover have "zb_schedule_alarm f p d s = Some (RET_OK, ?s2\<lparr>timer_ctx := c\<rparr>)"
    using fl nx ins st by (simp add: zb_schedule_alarm_def stk_pop_def Let_def)
  ultimately show ?thesis
    using st(2) by (intro exI [of _ L] exI [of _ q] exI [of _ c] exI [of _ ?b]) simp
qed

text \<open>With no free entry the call reports the overflow and changes nothing.\<close>

lemma zb_schedule_alarm_full:
  "tm_rep s xs [] \<Longrightarrow> zb_schedule_alarm f p d s = Some (RET_OVERFLOW, s)"
  by (cases s) (simp add: tm_rep_def zb_schedule_alarm_def stk_pop_def)

text \<open>The queue stays in the order of time, as long as all times are in one window.\<close>

lemma takeWhile_sorted_split:
  assumes "sorted (map f xs)" "\<And>x. x \<in> set xs \<Longrightarrow> P x \<longleftrightarrow> f x \<le> (k :: nat)"
  shows "sorted (map f (takeWhile P xs) @ k # map f (dropWhile P xs))"
  using assms
proof (induction xs)
  case Nil
  then show ?case by simp
next
  case (Cons x xs)
  have IH: "sorted (map f (takeWhile P xs) @ k # map f (dropWhile P xs))"
    using Cons by simp
  have "k \<le> f x \<and> (\<forall>y\<in>set xs. k \<le> f y)" if "\<not> P x"
    using Cons.prems that by force
  moreover have "\<forall>y\<in>set (takeWhile P xs) \<union> set (dropWhile P xs). f x \<le> f y"
    using Cons.prems(1) by (auto dest: set_takeWhileD set_dropWhileD)
  ultimately show ?case using Cons.prems IH by auto
qed

lemma alarm_insert_spec_sorted:
  assumes "sorted (map (\<lambda>x. time_off b (rt x)) xs)" "\<forall>x\<in>set xs. in_window b (rt x)"
    "in_window b (rt e)"
  shows "sorted (map (\<lambda>x. time_off b (rt x)) (alarm_insert_spec rt e xs))"
proof -
  have ge: "zb_time_ge (rt e) (rt x) \<longleftrightarrow> time_off b (rt x) \<le> time_off b (rt e)"
    "zb_time_ge (rt x) (rt e) \<longleftrightarrow> time_off b (rt e) \<le> time_off b (rt x)" if "x \<in> set xs" for x
    using time_ge_window assms(2,3) that by blast+
  have third: "sorted (map (\<lambda>x. time_off b (rt x)) (takeWhile (\<lambda>x. zb_time_ge (rt e) (rt x)) xs) @
      time_off b (rt e) # map (\<lambda>x. time_off b (rt x)) (dropWhile (\<lambda>x. zb_time_ge (rt e) (rt x)) xs))"
    using assms(1) ge by (intro takeWhile_sorted_split) auto
  show ?thesis
  proof (cases "xs = [] \<or> zb_time_ge (rt (hd xs)) (rt e)")
    case True
    then have "\<forall>x\<in>set xs. time_off b (rt e) \<le> time_off b (rt x)"
      using assms(1) ge(2) [of "hd xs"] by (cases xs) fastforce+
    then show ?thesis using True assms(1) by (auto simp: alarm_insert_spec_def)
  next
    case False
    then have "zb_time_ge (rt e) (rt (hd xs))" using ge [of "hd xs"] by (cases xs) auto
    with False third show ?thesis by (simp add: alarm_insert_spec_def)
  qed
qed

section \<open>Cancelling alarms\<close>

lemma tm_remove_push:
  assumes rep: "tm_rep s (ks @ e # zs) ys"
  shows "\<exists>L q. list_remove (tm_links s) (tm_queue s) e = Some (L, q)
    \<and> tm_rep (s\<lparr>tm_links := fst (stk_push L (tm_freelist s) e), tm_queue := q,
          tm_freelist := snd (stk_push L (tm_freelist s) e)\<rparr>) (ks @ zs) (e # ys)"
proof -
  have dl: "dl_rep (tm_links s) (tm_queue s) (ks @ e # zs)"
    and st: "stk_rep (tm_links s) (tm_freelist s) ys"
    and ne: "e \<notin> set ys" "e \<notin> set ks" "e \<notin> set zs"
    using rep by (auto simp: tm_rep_def dl_rep_def)
  obtain L q where r: "list_remove (tm_links s) (tm_queue s) e = Some (L, q)"
    and dl': "dl_rep L q (ks @ zs)" and fr: "\<forall>a. a \<notin> set ks \<longrightarrow> l_next L a = l_next (tm_links s) a"
    using dl_remove [OF dl] by blast
  let ?L = "fst (stk_push L (tm_freelist s) e)"
  have "stk_rep L (tm_freelist s) ys"
    by (rule stk_rep_frame [OF st]) (use fr rep in \<open>auto simp: tm_rep_def\<close>)
  then have "stk_rep ?L (snd (stk_push L (tm_freelist s) e)) (e # ys)"
    using stk.push ne(1) by simp
  moreover have "dl_rep ?L q (ks @ zs)"
    by (rule dl_rep_frame [OF dl']) (use ne in \<open>auto simp: stk_push_def\<close>)
  ultimately show ?thesis using r rep ne by (auto simp: tm_rep_def)
qed

lemma tm_next: "tm_rep s (ks @ e # zs) ys \<Longrightarrow> l_next (tm_links s) e = phead None zs"
  using dl_next_in by (auto simp: tm_rep_def)

lemma alarm_cancel_loop_all:
  "tm_rep s (ks @ zs) ys \<Longrightarrow> length zs < n \<Longrightarrow> M = cancel_matches (tm_buffer s) f ZB_ALARM_ALL_CB \<Longrightarrow>
     \<exists>L q fl. alarm_cancel_loop n f ZB_ALARM_ALL_CB (phead None zs) ret s =
       Some (if \<exists>x\<in>set zs. M x then RET_OK else ret, s\<lparr>tm_links := L, tm_queue := q, tm_freelist := fl\<rparr>)
     \<and> tm_rep (s\<lparr>tm_links := L, tm_queue := q, tm_freelist := fl\<rparr>)
         (ks @ filter (\<lambda>x. \<not> M x) zs) (rev (filter M zs) @ ys)"
proof (induction zs arbitrary: n s ks ys ret)
  case Nil
  then show ?case
    by (cases n; cases s) (auto intro!: exI [of _ "tm_links s"] exI [of _ "tm_queue s"]
        exI [of _ "tm_freelist s"])
next
  case (Cons e zs)
  obtain m where n: "n = Suc m" "length zs < m" using Cons.prems(2) by (cases n) auto
  note nx = tm_next [OF Cons.prems(1)]
  show ?case
  proof (cases "M e")
    case True
    obtain L q where r: "list_remove (tm_links s) (tm_queue s) e = Some (L, q)"
      and rep': "tm_rep (s\<lparr>tm_links := fst (stk_push L (tm_freelist s) e), tm_queue := q,
          tm_freelist := snd (stk_push L (tm_freelist s) e)\<rparr>) (ks @ zs) (e # ys)"
      using tm_remove_push [OF Cons.prems(1)] by blast
    from Cons.IH [OF rep' n(2), of RET_OK] True Cons.prems(3) r nx n(1)
    show ?thesis by (auto simp: split_beta Let_def)
  next
    case False
    have "tm_rep s ((ks @ [e]) @ zs) ys" using Cons.prems(1) by simp
    from Cons.IH [OF this n(2), of ret] False Cons.prems(3) nx n(1)
    show ?thesis by auto
  qed
qed

lemma alarm_cancel_loop_one:
  "tm_rep s (ks @ zs) ys \<Longrightarrow> length zs < n \<Longrightarrow> p \<noteq> ZB_ALARM_ALL_CB \<Longrightarrow>
     M = cancel_matches (tm_buffer s) f p \<Longrightarrow>
     \<exists>L q fl. alarm_cancel_loop n f p (phead None zs) ret s =
       Some (if \<exists>x\<in>set zs. M x then RET_OK else ret, s\<lparr>tm_links := L, tm_queue := q, tm_freelist := fl\<rparr>)
     \<and> tm_rep (s\<lparr>tm_links := L, tm_queue := q, tm_freelist := fl\<rparr>)
         (ks @ takeWhile (\<lambda>x. \<not> M x) zs @ tl (dropWhile (\<lambda>x. \<not> M x) zs))
         (take 1 (dropWhile (\<lambda>x. \<not> M x) zs) @ ys)"
proof (induction zs arbitrary: n ks)
  case Nil
  then show ?case
    by (cases n; cases s) (auto intro!: exI [of _ "tm_links s"] exI [of _ "tm_queue s"]
        exI [of _ "tm_freelist s"])
next
  case (Cons e zs)
  obtain m where n: "n = Suc m" "length zs < m" using Cons.prems(2) by (cases n) auto
  note nx = tm_next [OF Cons.prems(1)]
  show ?case
  proof (cases "M e")
    case True
    obtain L q where r: "list_remove (tm_links s) (tm_queue s) e = Some (L, q)"
      and rep': "tm_rep (s\<lparr>tm_links := fst (stk_push L (tm_freelist s) e), tm_queue := q,
          tm_freelist := snd (stk_push L (tm_freelist s) e)\<rparr>) (ks @ zs) (e # ys)"
      using tm_remove_push [OF Cons.prems(1)] by blast
    with True Cons.prems(3,4) n(1) show ?thesis
      by (intro exI [of _ "fst (stk_push L (tm_freelist s) e)"] exI [of _ q]
          exI [of _ "snd (stk_push L (tm_freelist s) e)"]) (simp add: split_beta Let_def)
  next
    case False
    have "tm_rep s ((ks @ [e]) @ zs) ys" using Cons.prems(1) by simp
    from Cons.IH [OF this n(2) Cons.prems(3,4)] False Cons.prems(4) nx n(1)
    show ?thesis by auto
  qed
qed

end
