(* ===== verification/Scheduler_Loop.thy ===== *)
theory Scheduler_Loop
  imports Scheduler
begin

text \<open>
  The main loop \<^verbatim>\<open>zb_sched_loop_iteration\<close>: callbacks run in the order they were
  scheduled, whatever they schedule themselves; the alarms that are due run in the order of
  the queue and their entries return to the pool; and with callbacks that schedule nothing
  the loop ends with nothing left to do.
\<close>

section \<open>Immediate callbacks\<close>

text \<open>Running the given entries one after another, each followed by the flush of its slot.\<close>

fun run_each ::
  "('f, ('f, 'z) zb_sched_scheme) sched_env \<Rightarrow> 'f zb_cb_q_ent list \<Rightarrow> ('f, 'z) zb_sched_scheme \<Rightarrow>
     ('f, 'z) zb_sched_scheme option" where
  "run_each E [] s = Some s"
| "run_each E (x # xs) s =
     (case env_run E (cb_func x) (cb_param x) s of
        None \<Rightarrow> None
      | Some s1 \<Rightarrow> run_each E xs (flush_cb s1))"

text \<open>A callback may put entries at the end of the queue and does nothing else to it.\<close>

definition callbacks_append :: "('f, ('f, 'z) zb_sched_scheme) sched_env \<Rightarrow> bool" where
  "callbacks_append E \<longleftrightarrow>
     (\<forall>f p s s'. ring_inv (cb_q s) \<longrightarrow> env_run E f p s = Some s' \<longrightarrow>
        ring_inv (cb_q s') \<and> (\<exists>new. ring_list (cb_q s') = ring_list (cb_q s) @ new))"

lemma cb_q_flush [simp]: "cb_q (flush_cb s) = ring_flush_get (cb_q s)"
  by (simp add: flush_cb_def)

lemma run_callbacks_in_order:
  assumes E: "callbacks_append E" and rx: "\<And>s. \<not> env_rx_ready E s"
  shows "ring_inv (cb_q s) \<Longrightarrow> ring_list (cb_q s) = xs @ ws \<Longrightarrow>
    run_callbacks (length xs + n) E did s =
      (case run_each E xs s of None \<Rightarrow> None | Some s' \<Rightarrow> run_callbacks n E (did \<or> xs \<noteq> []) s')"
proof (induction xs arbitrary: s ws did)
  case Nil
  then show ?case by simp
next
  case (Cons x xs)
  have pk: "ring_peek (cb_q s) = Some x" using Cons.prems by (simp add: ring_peek_list)
  show ?case
  proof (cases "env_run E (cb_func x) (cb_param x) s")
    case None
    with pk rx show ?thesis by simp
  next
    case (Some s1)
    then obtain new where s1: "ring_inv (cb_q s1)" "ring_list (cb_q s1) = x # xs @ ws @ new"
      using E Cons.prems by (fastforce simp: callbacks_append_def)
    then have "ring_inv (cb_q (flush_cb s1))" "ring_list (cb_q (flush_cb s1)) = xs @ ws @ new"
      by (simp_all add: ring_flush_get_list)
    from Cons.IH [OF this, of True] pk rx Some show ?thesis by (simp cong: option.case_cong)
  qed
qed

section \<open>Alarms\<close>

fun run_each_alarm ::
  "('f, ('f, 'z) zb_sched_scheme) sched_env \<Rightarrow> nat list \<Rightarrow> ('f, 'z) zb_sched_scheme \<Rightarrow>
     ('f, 'z) zb_sched_scheme option" where
  "run_each_alarm E [] s = Some s"
| "run_each_alarm E (e # es) s =
     (let s1 = cut_alarm s; ent = tm_buffer s1 e in
      case env_run E (tm_func ent) (tm_param ent) s1 of
        None \<Rightarrow> None
      | Some s2 \<Rightarrow> run_each_alarm E es (free_alarm e s2))"

text \<open>Two states with the same alarms, or also with the same callbacks and the same time.\<close>

definition same_alarms :: "('f, 'z) zb_sched_scheme \<Rightarrow> ('f, 'z) zb_sched_scheme \<Rightarrow> bool" where
  "same_alarms s s' \<longleftrightarrow> tm_buffer s' = tm_buffer s \<and> tm_links s' = tm_links s
     \<and> tm_queue s' = tm_queue s \<and> tm_freelist s' = tm_freelist s"

definition same_sched :: "('f, 'z) zb_sched_scheme \<Rightarrow> ('f, 'z) zb_sched_scheme \<Rightarrow> bool" where
  "same_sched s s' \<longleftrightarrow> same_alarms s s' \<and> cb_q s' = cb_q s \<and> zb_timer_get s' = zb_timer_get s"

definition keeps_alarms :: "('f, ('f, 'z) zb_sched_scheme) sched_env \<Rightarrow> bool" where
  "keeps_alarms E \<longleftrightarrow> (\<forall>f p s s'. env_run E f p s = Some s' \<longrightarrow> same_alarms s s')"

definition quiet :: "('f, ('f, 'z) zb_sched_scheme) sched_env \<Rightarrow> bool" where
  "quiet E \<longleftrightarrow> (\<forall>f p s. \<exists>s'. env_run E f p s = Some s' \<and> same_sched s s')
     \<and> (\<forall>s. \<exists>s'. env_mac E s = Some s' \<and> same_sched s s')
     \<and> (\<forall>s. \<exists>s'. env_try_io E s = Some s' \<and> same_sched s s')
     \<and> (\<forall>s. \<not> env_rx_ready E s)"

lemma tm_rep_cut:
  assumes "tm_rep s (e # xs) ys"
  shows "tm_rep (cut_alarm s) xs ys" "e \<notin> set xs \<union> set ys" "e < ZB_SCHEDULER_Q_SIZE"
    "tm_buffer (cut_alarm s) = tm_buffer s" "cb_q (cut_alarm s) = cb_q s"
    "zb_timer_get (cut_alarm s) = zb_timer_get s"
proof -
  have dl: "dl_rep (tm_links s) (tm_queue s) (e # xs)" and st: "stk_rep (tm_links s) (tm_freelist s) ys"
    using assms by (simp_all add: tm_rep_def)
  obtain L q where c: "list_cut_head (tm_links s) (tm_queue s) = (L, q, Some e)"
    "dl_rep L q xs" "l_next L = l_next (tm_links s)"
    using dl.take_head [OF dl] by blast
  have "stk_rep L (tm_freelist s) ys" by (rule stk_rep_frame [OF st]) (simp add: c(3))
  with c assms show "tm_rep (cut_alarm s) xs ys" by (simp add: tm_rep_def cut_alarm_def)
  show "e \<notin> set xs \<union> set ys" "e < ZB_SCHEDULER_Q_SIZE"
    using assms by (auto simp: tm_rep_def dl_rep_def)
  show "tm_buffer (cut_alarm s) = tm_buffer s" "cb_q (cut_alarm s) = cb_q s"
    "zb_timer_get (cut_alarm s) = zb_timer_get s"
    using c(1) by (simp_all add: cut_alarm_def zb_timer_get_def)
qed

lemma tm_rep_free:
  assumes "tm_rep s xs ys" "e \<notin> set xs \<union> set ys" "e < ZB_SCHEDULER_Q_SIZE"
  shows "tm_rep (free_alarm e s) xs (e # ys)" "tm_buffer (free_alarm e s) = tm_buffer s"
    "cb_q (free_alarm e s) = cb_q s" "zb_timer_get (free_alarm e s) = zb_timer_get s"
proof -
  obtain L fl where p: "stk_push (tm_links s) (tm_freelist s) e = (L, fl)" by fastforce
  have dl: "dl_rep (tm_links s) (tm_queue s) xs" and st: "stk_rep (tm_links s) (tm_freelist s) ys"
    using assms by (simp_all add: tm_rep_def)
  have "stk_rep L fl (e # ys)" using stk.push [OF st _ p] assms(2) by simp
  moreover have "dl_rep L (tm_queue s) xs"
    by (rule dl_rep_frame [OF dl]) (use assms(2) p in \<open>auto simp: stk_push_def\<close>)
  ultimately show "tm_rep (free_alarm e s) xs (e # ys)"
    using assms p by (auto simp: tm_rep_def free_alarm_def)
  show "tm_buffer (free_alarm e s) = tm_buffer s" "cb_q (free_alarm e s) = cb_q s"
    "zb_timer_get (free_alarm e s) = zb_timer_get s"
    using p by (simp_all add: free_alarm_def zb_timer_get_def)
qed

lemma same_alarms_rep: "same_alarms s s' \<Longrightarrow> tm_rep s xs ys \<Longrightarrow> tm_rep s' xs ys"
  by (simp add: same_alarms_def tm_rep_def)

lemma run_each_alarm_rep:
  "keeps_alarms E \<Longrightarrow> tm_rep s (es @ rest) ys \<Longrightarrow> run_each_alarm E es s = Some s' \<Longrightarrow>
     tm_rep s' rest (rev es @ ys) \<and> tm_buffer s' = tm_buffer s"
proof (induction es arbitrary: s ys)
  case Nil
  then show ?case by simp
next
  case (Cons e es)
  have cut: "tm_rep (cut_alarm s) (es @ rest) ys" "e \<notin> set (es @ rest) \<union> set ys"
      "e < ZB_SCHEDULER_Q_SIZE" "tm_buffer (cut_alarm s) = tm_buffer s"
    using tm_rep_cut [of s e "es @ rest" ys] Cons.prems(2) by auto
  obtain s2 where s2: "env_run E (tm_func (tm_buffer s e)) (tm_param (tm_buffer s e)) (cut_alarm s) = Some s2"
    and rest: "run_each_alarm E es (free_alarm e s2) = Some s'"
    using Cons.prems(3) cut(4) by (auto simp: Let_def split: option.splits)
  have sa: "same_alarms (cut_alarm s) s2" using Cons.prems(1) s2 by (simp add: keeps_alarms_def)
  have "tm_rep (free_alarm e s2) (es @ rest) (e # ys)" "tm_buffer (free_alarm e s2) = tm_buffer s2"
    using tm_rep_free [OF same_alarms_rep [OF sa cut(1)] cut(2,3)] by simp_all
  with Cons.IH [OF Cons.prems(1) _ rest] sa cut(4) show ?case by (simp add: same_alarms_def)
qed

lemma run_alarms_due:
  "keeps_alarms E \<Longrightarrow> (\<And>s. \<not> env_rx_ready E s) \<Longrightarrow> tm_rep s (es @ rest) ys \<Longrightarrow>
     (\<forall>e\<in>set es. zb_time_ge t (tm_run_time (tm_buffer s e))) \<Longrightarrow>
     (rest \<noteq> [] \<longrightarrow> \<not> zb_time_ge t (tm_run_time (tm_buffer s (hd rest)))) \<Longrightarrow>
     length es < n \<Longrightarrow>
     run_alarms n E t did s =
       (case run_each_alarm E es s of None \<Rightarrow> None | Some s' \<Rightarrow> Some (did \<or> es \<noteq> [], s'))"
proof (induction es arbitrary: s ys n did)
  case Nil
  then obtain m where n: "n = Suc m" by (cases n) auto
  have "tm_queue s = phead None rest" using Nil.prems(3) by (simp add: tm_rep_def dl_rep_def)
  with Nil.prems(5) n show ?case by (cases rest) auto
next
  case (Cons e es)
  obtain m where n: "n = Suc m" "length es < m" using Cons.prems(6) by (cases n) auto
  have q: "tm_queue s = Some e" using Cons.prems(3) by (simp add: tm_rep_def dl_rep_def)
  have cut: "tm_rep (cut_alarm s) (es @ rest) ys" "e \<notin> set (es @ rest) \<union> set ys"
      "e < ZB_SCHEDULER_Q_SIZE" "tm_buffer (cut_alarm s) = tm_buffer s"
    using tm_rep_cut [of s e "es @ rest" ys] Cons.prems(3) by auto
  show ?case
  proof (cases "env_run E (tm_func (tm_buffer s e)) (tm_param (tm_buffer s e)) (cut_alarm s)")
    case None
    with n q cut(4) Cons.prems(2,4) show ?thesis by (simp add: Let_def)
  next
    case (Some s2)
    have sa: "same_alarms (cut_alarm s) s2" using Cons.prems(1) Some by (simp add: keeps_alarms_def)
    have fr: "tm_rep (free_alarm e s2) (es @ rest) (e # ys)" "tm_buffer (free_alarm e s2) = tm_buffer s"
      using tm_rep_free [OF same_alarms_rep [OF sa cut(1)] cut(2,3)] sa cut(4)
      by (simp_all add: same_alarms_def)
    from Cons.IH [OF Cons.prems(1,2) fr(1) _ _ n(2), of True] fr(2) Cons.prems(2,4,5) Some n q cut(4)
    show ?thesis by (simp add: Let_def cong: option.case_cong)
  qed
qed

section \<open>The loop with quiet callbacks ends\<close>

lemma same_sched_refl [simp]: "same_sched s s"
  by (simp add: same_sched_def same_alarms_def)

lemma same_sched_flush:
  "same_sched s s1 \<Longrightarrow> ring_inv (cb_q s) \<Longrightarrow> ring_list (cb_q s) = x # xs \<Longrightarrow>
     ring_inv (cb_q (flush_cb s1)) \<and> ring_list (cb_q (flush_cb s1)) = xs
     \<and> same_alarms s (flush_cb s1) \<and> zb_timer_get (flush_cb s1) = zb_timer_get s"
  by (simp add: same_sched_def same_alarms_def ring_flush_get_list flush_cb_def zb_timer_get_def)

lemma same_alarms_trans: "same_alarms s s1 \<Longrightarrow> same_alarms s1 s2 \<Longrightarrow> same_alarms s s2"
  by (simp add: same_alarms_def)

lemma quiet_callbacks_append: "quiet E \<Longrightarrow> callbacks_append E"
  unfolding quiet_def callbacks_append_def same_sched_def by (metis append_Nil2 option.inject)

lemma quiet_keeps_alarms: "quiet E \<Longrightarrow> keeps_alarms E"
  unfolding quiet_def keeps_alarms_def same_sched_def by (metis option.inject)

lemma quiet_run_each:
  "quiet E \<Longrightarrow> ring_inv (cb_q s) \<Longrightarrow> ring_list (cb_q s) = xs @ ws \<Longrightarrow>
     \<exists>s'. run_each E xs s = Some s' \<and> ring_inv (cb_q s') \<and> ring_list (cb_q s') = ws
       \<and> same_alarms s s' \<and> zb_timer_get s' = zb_timer_get s"
proof (induction xs arbitrary: s)
  case Nil
  then show ?case by (simp add: same_alarms_def)
next
  case (Cons x xs)
  obtain s1 where s1: "env_run E (cb_func x) (cb_param x) s = Some s1" "same_sched s s1"
    using Cons.prems(1) unfolding quiet_def by blast
  have f: "ring_inv (cb_q (flush_cb s1))" "ring_list (cb_q (flush_cb s1)) = xs @ ws"
    "same_alarms s (flush_cb s1)" "zb_timer_get (flush_cb s1) = zb_timer_get s"
    using same_sched_flush [OF s1(2) Cons.prems(2)] Cons.prems(3) by auto
  from Cons.IH [OF Cons.prems(1) f(1,2)] s1(1) f(3,4) same_alarms_trans [OF f(3)]
  show ?case by auto
qed

lemma quiet_run_each_alarm:
  "quiet E \<Longrightarrow> tm_rep s (es @ rest) ys \<Longrightarrow>
     \<exists>s'. run_each_alarm E es s = Some s' \<and> cb_q s' = cb_q s \<and> zb_timer_get s' = zb_timer_get s"
proof (induction es arbitrary: s ys)
  case Nil
  then show ?case by simp
next
  case (Cons e es)
  note cut = tm_rep_cut [of s e "es @ rest" ys]
  have rep: "tm_rep s (e # es @ rest) ys" using Cons.prems(2) by simp
  let ?ent = "tm_buffer (cut_alarm s) e"
  obtain s2 where s2: "env_run E (tm_func ?ent) (tm_param ?ent) (cut_alarm s) = Some s2"
    "same_sched (cut_alarm s) s2"
    using Cons.prems(1) unfolding quiet_def by blast
  have "tm_rep s2 (es @ rest) ys"
    using s2(2) same_alarms_rep [OF _ cut(1) [OF rep]] by (simp add: same_sched_def)
  from tm_rep_free [OF this cut(2,3) [OF rep]]
  have f: "tm_rep (free_alarm e s2) (es @ rest) (e # ys)" "cb_q (free_alarm e s2) = cb_q s"
    "zb_timer_get (free_alarm e s2) = zb_timer_get s"
    using s2(2) cut(5,6) [OF rep] by (simp_all add: same_sched_def)
  from Cons.IH [OF Cons.prems(1) f(1)] s2(1) f(2,3) show ?case by (auto simp: Let_def)
qed

text \<open>The alarms due at the current time, in the order of the queue up to the first that is not.\<close>

definition due :: "('f, 'z) zb_sched_scheme \<Rightarrow> nat \<Rightarrow> bool" where
  "due s e \<longleftrightarrow> zb_time_ge (zb_timer_get s) (tm_run_time (tm_buffer s e))"

lemma due_cong:
  "tm_buffer s' = tm_buffer s \<Longrightarrow> zb_timer_get s' = zb_timer_get s \<Longrightarrow> due s' = due s"
  by (simp add: due_def fun_eq_iff)

lemma zb_timer_start_time [simp]: "timer (zb_timer_start d c) = timer c"
  by (simp add: zb_timer_start_def Let_def)

lemma zb_timer_stop_time [simp]: "timer (zb_timer_stop_async c) = timer c"
  by (simp add: zb_timer_stop_async_def)

lemma quiet_run_callbacks:
  assumes "quiet E" "ring_inv (cb_q s)" "written (cb_q s) < n"
  shows "\<exists>s'. run_callbacks n E did s = Some (did \<or> written (cb_q s) \<noteq> 0, s')
    \<and> ring_inv (cb_q s') \<and> ring_list (cb_q s') = [] \<and> same_alarms s s'
    \<and> zb_timer_get s' = zb_timer_get s"
proof -
  let ?xs = "ring_list (cb_q s)"
  obtain m where n: "n = length ?xs + Suc m" using assms(3) less_iff_Suc_add by auto
  have rx: "\<not> env_rx_ready E t" for t using assms(1) by (simp add: quiet_def)
  obtain s' where s': "run_each E ?xs s = Some s'" "ring_inv (cb_q s')" "ring_list (cb_q s') = []"
    "same_alarms s s'" "zb_timer_get s' = zb_timer_get s"
    using quiet_run_each [OF assms(1,2), of ?xs "[]"] by auto
  have e: "?xs \<noteq> [] \<longleftrightarrow> written (cb_q s) \<noteq> 0" by (metis length_ring_list length_0_conv)
  have "run_callbacks n E did s = run_callbacks (Suc m) E (did \<or> ?xs \<noteq> []) s'"
    unfolding n using run_callbacks_in_order [OF quiet_callbacks_append [OF assms(1)] rx assms(2),
        of ?xs "[]" "Suc m" did] s'(1) by simp
  also have "\<dots> = Some (did \<or> written (cb_q s) \<noteq> 0, s')"
    using s'(2,3) e by (simp add: ring_peek_list)
  finally show ?thesis using s' by blast
qed

lemma quiet_run_alarms:
  assumes "quiet E" "tm_rep s xs ys" "length xs < n"
  shows "\<exists>s'. run_alarms n E (zb_timer_get s) did s = Some (did \<or> takeWhile (due s) xs \<noteq> [], s')
    \<and> tm_rep s' (dropWhile (due s) xs) (rev (takeWhile (due s) xs) @ ys)
    \<and> tm_buffer s' = tm_buffer s \<and> cb_q s' = cb_q s \<and> zb_timer_get s' = zb_timer_get s"
proof -
  let ?es = "takeWhile (due s) xs" and ?rest = "dropWhile (due s) xs"
  have rep: "tm_rep s (?es @ ?rest) ys" using assms(2) by simp
  have rx: "\<not> env_rx_ready E t" for t using assms(1) by (simp add: quiet_def)
  note ka = quiet_keeps_alarms [OF assms(1)]
  obtain s' where s': "run_each_alarm E ?es s = Some s'" "cb_q s' = cb_q s"
    "zb_timer_get s' = zb_timer_get s"
    using quiet_run_each_alarm [OF assms(1) rep] by blast
  have "length ?es < n" using assms(3) length_takeWhile_le [of "due s" xs] by linarith
  moreover have "\<forall>e\<in>set ?es. zb_time_ge (zb_timer_get s) (tm_run_time (tm_buffer s e))"
    by (auto simp: due_def dest: set_takeWhileD)
  moreover have "?rest \<noteq> [] \<longrightarrow> \<not> zb_time_ge (zb_timer_get s) (tm_run_time (tm_buffer s (hd ?rest)))"
    using hd_dropWhile [of "due s" xs] by (auto simp: due_def)
  ultimately have "run_alarms n E (zb_timer_get s) did s = Some (did \<or> ?es \<noteq> [], s')"
    using run_alarms_due [OF ka rx rep] s'(1) by simp
  with s' run_each_alarm_rep [OF ka rep s'(1)] show ?thesis by blast
qed

text \<open>One pass of the loop, up to the test that decides whether there is another.\<close>

lemma quiet_pass:
  assumes q: "quiet E" and inv: "ring_inv (cb_q s)" and rep: "tm_rep s xs ys"
    and n: "written (cb_q s) < n" "length xs < n"
  shows "\<exists>s'. sched_loop (Suc n) E s =
      (if written (cb_q s) \<noteq> 0 \<or> takeWhile (due s) xs \<noteq> [] then sched_loop n E s' else Some s')
    \<and> ring_inv (cb_q s') \<and> ring_list (cb_q s') = []
    \<and> tm_rep s' (dropWhile (due s) xs) (rev (takeWhile (due s) xs) @ ys)
    \<and> tm_buffer s' = tm_buffer s \<and> zb_timer_get s' = zb_timer_get s"
proof -
  obtain s1 where m: "env_mac E s = Some s1" "same_sched s s1"
    using q unfolding quiet_def by blast
  have s1: "cb_q s1 = cb_q s" "same_alarms s s1" "zb_timer_get s1 = zb_timer_get s"
    using m(2) by (simp_all add: same_sched_def)
  obtain s2 where s2: "run_callbacks n E False s1 = Some (written (cb_q s) \<noteq> 0, s2)"
    "ring_inv (cb_q s2)" "ring_list (cb_q s2) = []" "same_alarms s1 s2" "zb_timer_get s2 = zb_timer_get s"
    using quiet_run_callbacks [OF q, of s1 n False] inv n(1) s1 by auto
  have sa: "same_alarms s s2" by (rule same_alarms_trans [OF s1(2) s2(4)])
  have rep2: "tm_rep s2 xs ys" by (rule same_alarms_rep [OF sa rep])
  have d: "due s2 = due s" by (rule due_cong) (use sa s2(5) in \<open>simp_all add: same_alarms_def\<close>)
  have b: "tm_buffer s2 = tm_buffer s" using sa by (simp add: same_alarms_def)
  obtain s3 where s3: "run_alarms n E (zb_timer_get s2) did s2 = Some (did \<or> takeWhile (due s) xs \<noteq> [], s3)"
    "tm_rep s3 (dropWhile (due s) xs) (rev (takeWhile (due s) xs) @ ys)"
    "tm_buffer s3 = tm_buffer s" "cb_q s3 = cb_q s2" "zb_timer_get s3 = zb_timer_get s"
    if "did = (written (cb_q s) \<noteq> 0)" for did
    using quiet_run_alarms [OF q rep2 n(2), of "written (cb_q s) \<noteq> 0"] d b s2(5) by auto
  let ?s3 = "if tm_queue s2 \<noteq> None then s3 else s2"
  have qe: "tm_queue s2 = None \<longleftrightarrow> xs = []"
    using rep2 by (cases xs) (auto simp: tm_rep_def dl_rep_def)
  let ?t = "if tm_queue s2 \<noteq> None then zb_timer_get s2 else 0"
  let ?s4 = "?s3\<lparr>timer_ctx :=
      (case tm_queue ?s3 of
         Some h \<Rightarrow> zb_timer_start (zb_time_subtract (tm_run_time (tm_buffer ?s3 h)) ?t) (timer_ctx ?s3)
       | None \<Rightarrow> zb_timer_stop_async (timer_ctx ?s3))\<rparr>"
  have alarms: "(if tm_queue s2 \<noteq> None then run_alarms n E ?t (written (cb_q s) \<noteq> 0) s2
        else Some (written (cb_q s) \<noteq> 0, s2))
      = Some (written (cb_q s) \<noteq> 0 \<or> takeWhile (due s) xs \<noteq> [], ?s3)"
    using s3(1) qe by simp
  have "sched_loop (Suc n) E s =
      (if written (cb_q s) \<noteq> 0 \<or> takeWhile (due s) xs \<noteq> [] then sched_loop n E ?s4 else Some ?s4)"
    unfolding sched_loop.simps m(1) option.case s2(1) prod.case Let_def alarms by simp
  moreover have "tm_rep ?s4 (dropWhile (due s) xs) (rev (takeWhile (due s) xs) @ ys)"
    using s3(2) rep2 qe by (auto simp: tm_rep_def)
  moreover have "zb_timer_get ?s4 = zb_timer_get s"
    using s3(5) s2(5) by (auto simp: zb_timer_get_def split: option.split)
  moreover have "cb_q ?s4 = cb_q s2" "tm_buffer ?s4 = tm_buffer s"
    using s3(3,4) b by auto
  ultimately show ?thesis using s2(2,3) by metis
qed

end
