(* ===== verification/Scheduler_Props.thy ===== *)
theory Scheduler_Props
  imports Scheduler_Loop
begin

text \<open>
  What the scheduler promises to the rest of the stack: alarms are kept in the order of
  their times and every alarm is in the queue or in the pool, cancelling removes exactly
  the alarms asked for, the hardware timer covers the first alarm, callbacks run in the
  order they were scheduled, and the main loop comes to rest. The theorems on times beyond
  half of the range say what happens outside of the promise.
\<close>

section \<open>A state to start from\<close>

text \<open>The globals as \<^verbatim>\<open>zb_init\<close> finds them: zeroed memory, no entry in any list.\<close>

definition ring_zero :: "nat \<Rightarrow> 'f \<Rightarrow> 'f zb_cb_q_ent ring" where
  "ring_zero n f0 = \<lparr>ring_buf = replicate n \<lparr>cb_func = f0, cb_param = 0\<rparr>,
     read_i = 0, write_i = 0, written = 0\<rparr>"

definition links_zero :: links where
  "links_zero = \<lparr>l_next = \<lambda>_. None, l_prev = \<lambda>_. None\<rparr>"

definition sched_zero :: "'f \<Rightarrow> 'f zb_sched" where
  "sched_zero f0 = \<lparr>cb_q = ring_zero ZB_SCHEDULER_Q_SIZE f0, mac_tx_q = ring_zero ZB_MAC_QUEUE_SIZE f0,
     tm_buffer = \<lambda>_. \<lparr>tm_func = f0, tm_param = 0, tm_run_time = 0\<rparr>, tm_links = links_zero,
     tm_queue = None, tm_freelist = None, delayed_buf = \<lambda>_. f0, buf_links = links_zero,
     inbuf_queue = (None, None), outbuf_queue = (None, None), buf_freelist = None,
     timer_ctx = \<lparr>timer_stop = 0, timer = 0, started = False\<rparr>\<rparr>"

lemmas sched_zero_defs = sched_zero_def ring_zero_def links_zero_def

lemma stk_push_all_fst: "stk_push_all L p xs = (L', p') \<Longrightarrow> l_prev L' = l_prev L"
proof (induction xs arbitrary: L p)
  case (Cons x xs)
  from Cons.prems Cons.IH show ?case by (fastforce simp: stk_push_def split: prod.splits)
qed simp

lemma sched_init_rep:
  "tm_freelist s = None \<Longrightarrow> tm_queue s = None \<Longrightarrow>
     tm_rep (zb_sched_init s) [] (rev [0..<ZB_SCHEDULER_Q_SIZE])"
  using stk_push_all_rep [of "tm_links s" None "[]" "[0..<ZB_SCHEDULER_Q_SIZE]"]
  by (auto simp: tm_rep_def zb_sched_init_def split: prod.split)

definition boot :: "nat zb_sched" where
  "boot = zb_sched_init (sched_zero 0)"

lemma boot_rep: "tm_rep boot [] [15, 14, 13, 12, 11, 10, 9, 8, 7, 6, 5, 4, 3, 2, 1, 0]"
proof -
  have "rev [0..<ZB_SCHEDULER_Q_SIZE] = [15, 14, 13, 12, 11, 10, 9, 8, 7, 6, 5, 4, 3, 2, 1, 0]"
    by (simp add: ZB_SCHEDULER_Q_SIZE_def upt_rec)
  with sched_init_rep [of "sched_zero 0"] show ?thesis by (simp add: boot_def sched_zero_defs)
qed

lemma boot_time [simp]: "zb_timer_get boot = 0"
  by (simp add: boot_def zb_sched_init_def zb_timer_get_def sched_zero_defs split: prod.split)

lemma boot_cb_q [simp]: "cb_q boot = ring_zero ZB_SCHEDULER_Q_SIZE 0"
  by (simp add: boot_def zb_sched_init_def sched_zero_def split: prod.split)

lemma ring_zero_inv [simp]:
  "0 < n \<Longrightarrow> n < 2 ^ 32 - 1 \<Longrightarrow> ring_inv (ring_zero n f0)" "ring_list (ring_zero n f0) = []"
  by (simp_all add: ring_inv_def ring_zero_def ring_capacity_def ring_list_def)

section \<open>Alarms\<close>

lemma filter_alarm_insert_spec:
  "e \<notin> set xs \<Longrightarrow> filter (\<lambda>x. x \<noteq> e) (alarm_insert_spec rt e xs) = xs"
proof -
  assume e: "e \<notin> set xs"
  have id: "filter (\<lambda>x. x \<noteq> e) ys = ys" if "set ys \<subseteq> set xs" for ys
    using that e by (induction ys) auto
  have "filter (\<lambda>x. x \<noteq> e) (takeWhile P xs) = takeWhile P xs"
    "filter (\<lambda>x. x \<noteq> e) (dropWhile P xs) = dropWhile P xs" for P
    by (rule id, auto dest: set_takeWhileD set_dropWhileD)+
  with id [of xs] show ?thesis by (simp add: alarm_insert_spec_def)
qed

text \<open>
  C20: Scheduling an alarm while an entry is free succeeds: the alarm gets its function,
  parameter and time, it moves from the pool to the queue, every other alarm keeps its
  contents and its place among the others, the queue is still in the order of time, and the
  clock is untouched. The times must lie in one window of less than half of the range.
\<close>

theorem alarm_scheduled_in_order:
  assumes rep: "tm_rep s xs (e # ys)"
    and sorted: "sorted (map (\<lambda>x. time_off b (tm_run_time (tm_buffer s x))) xs)"
    and window: "\<forall>x\<in>set xs. in_window b (tm_run_time (tm_buffer s x))"
      "in_window b (zb_time_add (zb_timer_get s) d)"
  shows "\<exists>s' xs'. zb_schedule_alarm f p d s = Some (RET_OK, s') \<and> tm_rep s' xs' ys
    \<and> set xs' = insert e (set xs) \<and> filter (\<lambda>x. x \<noteq> e) xs' = xs
    \<and> sorted (map (\<lambda>x. time_off b (tm_run_time (tm_buffer s' x))) xs')
    \<and> tm_buffer s' = (tm_buffer s)(e :=
        \<lparr>tm_func = f, tm_param = p, tm_run_time = zb_time_add (zb_timer_get s) d\<rparr>)
    \<and> zb_timer_get s' = zb_timer_get s"
proof -
  let ?b = "(tm_buffer s)(e := \<lparr>tm_func = f, tm_param = p, tm_run_time = zb_time_add (zb_timer_get s) d\<rparr>)"
  let ?rt = "\<lambda>x. tm_run_time (?b x)"
  have e: "e \<notin> set xs" using rep by (auto simp: tm_rep_def)
  have eq: "map (\<lambda>x. time_off b (?rt x)) xs = map (\<lambda>x. time_off b (tm_run_time (tm_buffer s x))) xs"
    using e by (intro map_cong) auto
  have "sorted (map (\<lambda>x. time_off b (?rt x)) (alarm_insert_spec ?rt e xs))"
    using sorted window e by (intro alarm_insert_spec_sorted) (simp_all only: eq, auto)
  with zb_schedule_alarm_rep [OF rep, of f p d] filter_alarm_insert_spec [OF e]
  show ?thesis by (fastforce simp: zb_timer_get_def)
qed

theorem alarm_scheduled_in_order_witness:
  "\<exists>s' xs'. zb_schedule_alarm (7 :: nat) 3 100 boot = Some (RET_OK, s')
     \<and> tm_rep s' xs' [14, 13, 12, 11, 10, 9, 8, 7, 6, 5, 4, 3, 2, 1, 0] \<and> set xs' = {15}
     \<and> filter (\<lambda>x. x \<noteq> 15) xs' = [] \<and> sorted (map (\<lambda>x. time_off 0 (tm_run_time (tm_buffer s' x))) xs')
     \<and> tm_buffer s' = (tm_buffer boot)(15 := \<lparr>tm_func = 7, tm_param = 3, tm_run_time = 100\<rparr>)
     \<and> zb_timer_get s' = 0"
  using alarm_scheduled_in_order [OF boot_rep, of 0 100 7 3]
  by (simp add: in_window_def time_off_def zb_time_add_def)

text \<open>Making a list of requests \<open>(f, p, d)\<close> one after another.\<close>

fun schedule_all ::
  "('f \<times> u8 \<times> zb_time) list \<Rightarrow> ('f, 'z) zb_sched_scheme \<Rightarrow>
     (zb_ret list \<times> ('f, 'z) zb_sched_scheme) option" where
  "schedule_all [] s = Some ([], s)"
| "schedule_all ((f, p, d) # rs) s =
     (case zb_schedule_alarm f p d s of
        None \<Rightarrow> None
      | Some (r, s1) \<Rightarrow>
          (case schedule_all rs s1 of None \<Rightarrow> None | Some (out, s2) \<Rightarrow> Some (r # out, s2)))"

text \<open>
  However the requests are timed, as many alarms are accepted as entries are free, in
  the order of the requests; every further one reports RET_OVERFLOW and changes nothing;
  no entry is lost. After \<^verbatim>\<open>zb_sched_init\<close> that is 16 alarms.
\<close>

theorem alarms_accepted_until_pool_is_empty:
  "tm_rep s xs ys \<Longrightarrow> \<exists>s' xs'.
     schedule_all rs s = Some (replicate (min (length ys) (length rs)) RET_OK @
       replicate (length rs - length ys) RET_OVERFLOW, s')
     \<and> tm_rep s' xs' (drop (length rs) ys)
     \<and> set xs' = set xs \<union> set (take (length rs) ys)
     \<and> (length ys \<le> length rs \<longrightarrow> schedule_all (drop (length ys) rs) s' =
          Some (replicate (length rs - length ys) RET_OVERFLOW, s'))"
proof (induction rs arbitrary: s xs ys)
  case Nil
  then show ?case by auto
next
  case (Cons r rs)
  obtain f p d where r: "r = (f, p, d)" by (cases r)
  show ?case
  proof (cases ys)
    case Nil
    have full: "zb_schedule_alarm f p d s = Some (RET_OVERFLOW, s)" for f p d
      using Cons.prems zb_schedule_alarm_full [of s xs f p d] by (simp add: Nil)
    have "schedule_all rs' s = Some (replicate (length rs') RET_OVERFLOW, s)" for rs'
      by (induction rs') (auto simp: full)
    with Cons.prems Nil show ?thesis by auto
  next
    case (Cons e ys')
    obtain s1 where s1: "zb_schedule_alarm f p d s = Some (RET_OK, s1)"
      "\<exists>rt. tm_rep s1 (alarm_insert_spec rt e xs) ys'"
      using zb_schedule_alarm_rep [OF Cons.prems [unfolded Cons], of f p d] by blast
    then obtain zs where zs: "tm_rep s1 zs ys'" "set zs = insert e (set xs)"
      using set_alarm_insert_spec by blast
    from Cons.IH [OF zs(1)] s1(1) zs(2) show ?thesis by (auto simp: r Cons)
  qed
qed

theorem alarms_accepted_until_pool_is_empty_witness:
  "\<exists>s' xs'. schedule_all (replicate 17 (7, 3, 100)) boot =
       Some ([RET_OK, RET_OK, RET_OK, RET_OK, RET_OK, RET_OK, RET_OK, RET_OK, RET_OK, RET_OK,
         RET_OK, RET_OK, RET_OK, RET_OK, RET_OK, RET_OK, RET_OVERFLOW], s')
     \<and> tm_rep s' xs' [] \<and> set xs' = set [15, 14, 13, 12, 11, 10, 9, 8, 7, 6, 5, 4, 3, 2, 1, 0]
     \<and> schedule_all [(7, 3, 100)] s' = Some ([RET_OVERFLOW], s')"
  using alarms_accepted_until_pool_is_empty [OF boot_rep, of "replicate 17 (7, 3, 100)"]
  by simp

text \<open>
  After a successful call the hardware timer wakes the node no later than the first
  alarm of the queue: unless that alarm is due already the timer runs, and its stop time
  lies between now and the time of the alarm.
\<close>

theorem alarm_timer_covers_head:
  assumes "zb_schedule_alarm f p d s = Some (RET_OK, s')"
  shows "\<exists>h. tm_queue s' = Some h \<and>
    (let now = zb_timer_get s'; rt = tm_run_time (tm_buffer s' h); c = timer_ctx s' in
     rt = now \<or> \<not> in_window now rt \<or>
       started c \<and> in_window now (timer_stop c) \<and> time_off now (timer_stop c) \<le> time_off now rt)"
proof -
  obtain s2 where s2: "alarm_start_timer s2 = Some s'"
    using assms by (auto simp: zb_schedule_alarm_def Let_def split: prod.splits option.splits)
  then obtain h where h: "tm_queue s2 = Some h"
    by (auto simp: alarm_start_timer_def split: option.splits)
  let ?now = "zb_timer_get s2" and ?c = "timer_ctx s2" and ?rt = "tm_run_time (tm_buffer s2 h)"
  have now: "timer ?c = ?now" by (simp add: zb_timer_get_def)
  have win: "in_window ?now x \<longleftrightarrow> zb_time_ge x ?now" for x
    by (auto simp: in_window_def time_off_def zb_time_ge_def word_less_nat_alt)
  show ?thesis
  proof (cases "?rt \<noteq> ?now \<and> zb_time_ge ?rt ?now")
    case True
    then have sub: "zb_time_add ?now (zb_time_subtract ?rt ?now) = ?rt"
      by (simp add: zb_time_add_def zb_time_subtract_def zb_time_ge_def)
    have s': "s' = s2\<lparr>timer_ctx := zb_timer_start (zb_time_subtract ?rt ?now) ?c\<rparr>"
      using s2 h True by (simp add: alarm_start_timer_def Let_def)
    have c: "timer_ctx s' = (if \<not> started ?c \<or> \<not> zb_time_ge ?rt (timer_stop ?c) \<or>
        \<not> zb_time_ge (timer_stop ?c) ?now then ?c\<lparr>timer_stop := ?rt, started := True\<rparr> else ?c)"
      unfolding s' by (simp add: zb_timer_start_def Let_def now sub)
    have t': "zb_timer_get s' = ?now" "tm_queue s' = Some h" "tm_buffer s' = tm_buffer s2"
      using h unfolding s' by (simp_all add: zb_timer_get_def)
    have "started (timer_ctx s') \<and> in_window ?now (timer_stop (timer_ctx s'))
        \<and> time_off ?now (timer_stop (timer_ctx s')) \<le> time_off ?now ?rt"
      using True time_ge_window [of ?now ?rt "timer_stop ?c"] by (auto simp: c win)
    then show ?thesis unfolding t' Let_def by blast
  next
    case False
    then have "s' = s2" using s2 h by (auto simp: alarm_start_timer_def Let_def split: if_splits)
    with False h show ?thesis by (auto simp: Let_def win)
  qed
qed

theorem alarm_timer_covers_head_witness:
  "\<exists>s' h. zb_schedule_alarm (7 :: nat) 3 100 boot = Some (RET_OK, s') \<and> tm_queue s' = Some h
     \<and> (let now = zb_timer_get s'; rt = tm_run_time (tm_buffer s' h); c = timer_ctx s' in
     rt = now \<or> \<not> in_window now rt \<or>
       started c \<and> in_window now (timer_stop c) \<and> time_off now (timer_stop c) \<le> time_off now rt)"
proof -
  obtain s' where ok: "zb_schedule_alarm (7 :: nat) 3 100 boot = Some (RET_OK, s')"
    using zb_schedule_alarm_rep [OF boot_rep, of 7 3 100] by blast
  from alarm_timer_covers_head [OF ok] ok show ?thesis by blast
qed

text \<open>
  Two alarms with the same timeout, set on an empty queue, run in the reverse of the
  order in which they were set: a new alarm goes before a head with the same time. (The
  comment at the test says that the new time is before the start of the queue.)
\<close>

theorem equal_alarms_are_reversed:
  assumes "tm_rep s [] (a # c # ys)"
  shows "\<exists>s1 s2. zb_schedule_alarm f p d s = Some (RET_OK, s1) \<and>
    zb_schedule_alarm g q d s1 = Some (RET_OK, s2) \<and> tm_rep s2 [c, a] ys
    \<and> tm_func (tm_buffer s2 c) = g \<and> tm_func (tm_buffer s2 a) = f"
proof -
  obtain s1 where s1: "zb_schedule_alarm f p d s = Some (RET_OK, s1)" "tm_rep s1 [a] (c # ys)"
    "zb_timer_get s1 = zb_timer_get s" "tm_buffer s1 a =
       \<lparr>tm_func = f, tm_param = p, tm_run_time = zb_time_add (zb_timer_get s) d\<rparr>"
    using zb_schedule_alarm_rep [OF assms, of f p d]
    by (fastforce simp: alarm_insert_spec_def zb_timer_get_def)
  have ne: "c \<noteq> a" using assms by (auto simp: tm_rep_def stk_rep_def)
  have refl: "zb_time_ge t t" for t by (simp add: zb_time_ge_def)
  obtain s2 where s2: "zb_schedule_alarm g q d s1 = Some (RET_OK, s2)" "tm_rep s2 [c, a] ys"
    "tm_buffer s2 = (tm_buffer s1)(c :=
       \<lparr>tm_func = g, tm_param = q, tm_run_time = zb_time_add (zb_timer_get s1) d\<rparr>)"
    using zb_schedule_alarm_rep [OF s1(2), of g q d] s1(3,4) ne refl
    by (fastforce simp: alarm_insert_spec_def)
  with s1 ne show ?thesis by auto
qed

theorem equal_alarms_are_reversed_witness:
  "\<exists>s1 s2. zb_schedule_alarm (7 :: nat) 0 100 boot = Some (RET_OK, s1) \<and>
     zb_schedule_alarm 8 0 100 s1 = Some (RET_OK, s2)
     \<and> tm_rep s2 [14, 15] [13, 12, 11, 10, 9, 8, 7, 6, 5, 4, 3, 2, 1, 0]
     \<and> tm_func (tm_buffer s2 14) = 8 \<and> tm_func (tm_buffer s2 15) = 7"
  using equal_alarms_are_reversed [OF boot_rep, of 7 0 100 8 0] by simp

section \<open>Cancelling alarms\<close>

text \<open>
  Cancelling with ZB_ALARM_ALL_CB removes every waiting alarm of the function, whatever
  its parameter, keeps all others in their order and returns the removed entries to the
  pool; it reports RET_OK iff there was one.
\<close>

theorem cancel_all_removes_exactly_the_function:
  assumes rep: "tm_rep s xs ys"
  shows "\<exists>s'. zb_schedule_alarm_cancel f ZB_ALARM_ALL_CB s =
      Some (if \<exists>x\<in>set xs. tm_func (tm_buffer s x) = f then RET_OK else RET_NOT_FOUND, s')
    \<and> tm_rep s' (filter (\<lambda>x. tm_func (tm_buffer s x) \<noteq> f) xs)
        (rev (filter (\<lambda>x. tm_func (tm_buffer s x) = f) xs) @ ys)
    \<and> tm_buffer s' = tm_buffer s \<and> cb_q s' = cb_q s \<and> timer_ctx s' = timer_ctx s"
proof -
  have M: "(\<lambda>x. tm_func (tm_buffer s x) = f) = cancel_matches (tm_buffer s) f ZB_ALARM_ALL_CB"
    by (simp add: cancel_matches_def fun_eq_iff)
  have q: "tm_queue s = phead None xs" using rep by (simp add: tm_rep_def dl_rep_def)
  have "length xs < Suc ZB_SCHEDULER_Q_SIZE" using tm_rep_length [OF rep] by simp
  from alarm_cancel_loop_all [of s "[]" xs, OF _ this M, of ys RET_NOT_FOUND] rep
  show ?thesis by (auto simp: zb_schedule_alarm_cancel_def q)
qed

theorem cancel_all_removes_exactly_the_function_witness:
  "\<exists>s'. zb_schedule_alarm_cancel 7 ZB_ALARM_ALL_CB boot = Some (RET_NOT_FOUND, s')
     \<and> tm_rep s' [] [15, 14, 13, 12, 11, 10, 9, 8, 7, 6, 5, 4, 3, 2, 1, 0]
     \<and> tm_buffer s' = tm_buffer boot \<and> cb_q s' = cb_q boot \<and> timer_ctx s' = timer_ctx boot"
  using cancel_all_removes_exactly_the_function [OF boot_rep, of 7] by simp

text \<open>
  With any other parameter the call removes one alarm, the first one in the queue that
  has the function and (unless the parameter is ZB_ALARM_ANY_PARAM) the parameter; its entry
  becomes the first of the pool. With no such alarm nothing changes but the answer,
  RET_NOT_FOUND.
\<close>

theorem cancel_one_removes_the_first_match:
  fixes f :: 'f and s :: "('f, 'z) zb_sched_scheme"
  assumes rep: "tm_rep s xs ys" and p: "p \<noteq> ZB_ALARM_ALL_CB"
  defines "M \<equiv> \<lambda>x. tm_func (tm_buffer s x) = f \<and> (p = ZB_ALARM_ANY_PARAM \<or> p = tm_param (tm_buffer s x))"
  shows "\<exists>s'. zb_schedule_alarm_cancel f p s =
      Some (if \<exists>x\<in>set xs. M x then RET_OK else RET_NOT_FOUND, s')
    \<and> tm_rep s' (takeWhile (\<lambda>x. \<not> M x) xs @ tl (dropWhile (\<lambda>x. \<not> M x) xs))
        (take 1 (dropWhile (\<lambda>x. \<not> M x) xs) @ ys)
    \<and> tm_buffer s' = tm_buffer s \<and> cb_q s' = cb_q s \<and> timer_ctx s' = timer_ctx s"
proof -
  have M: "M = cancel_matches (tm_buffer s) f p"
    using p by (simp add: M_def cancel_matches_def fun_eq_iff)
  have q: "tm_queue s = phead None xs" using rep by (simp add: tm_rep_def dl_rep_def)
  have "length xs < Suc ZB_SCHEDULER_Q_SIZE" using tm_rep_length [OF rep] by simp
  from alarm_cancel_loop_one [of s "[]" xs, OF _ this p M, of ys RET_NOT_FOUND] rep
  show ?thesis by (auto simp: zb_schedule_alarm_cancel_def q)
qed

theorem cancel_one_removes_the_first_match_witness:
  "\<exists>s s'. zb_schedule_alarm (7 :: nat) 3 100 boot = Some (RET_OK, s) \<and>
     zb_schedule_alarm_cancel 7 ZB_ALARM_ANY_PARAM s = Some (RET_OK, s')
     \<and> tm_rep s' [] [15, 14, 13, 12, 11, 10, 9, 8, 7, 6, 5, 4, 3, 2, 1, 0]"
proof -
  obtain s where s: "zb_schedule_alarm (7 :: nat) 3 100 boot = Some (RET_OK, s)"
    "tm_rep s [15] [14, 13, 12, 11, 10, 9, 8, 7, 6, 5, 4, 3, 2, 1, 0]"
    "tm_func (tm_buffer s 15) = 7"
    using zb_schedule_alarm_rep [OF boot_rep, of 7 3 100] by (fastforce simp: alarm_insert_spec_def)
  from cancel_one_removes_the_first_match [OF s(2), of ZB_ALARM_ANY_PARAM 7] s(1,3)
  show ?thesis by (auto simp: ZB_ALARM_ANY_PARAM_def ZB_ALARM_ALL_CB_def)
qed

section \<open>The loop\<close>


definition idle_env :: "(nat, nat zb_sched) sched_env" where
  "idle_env = \<lparr>env_run = \<lambda>f p s. Some s, env_mac = Some, env_rx_ready = \<lambda>s. False, env_try_io = Some\<rparr>"

lemma quiet_idle_env: "quiet idle_env"
  by (simp add: quiet_def idle_env_def)


text \<open>
  Callbacks run in the order in which they were scheduled: those waiting when the loop
  starts on them run one after another and before any that they schedule themselves, and the
  loop then goes on with those. Each callback sees the state its predecessor left, with the
  predecessor's slot released.
\<close>

theorem callbacks_run_first_in_first_out:
  assumes "callbacks_append E" "\<And>s. \<not> env_rx_ready E s"
    and "ring_inv (cb_q s)" "ring_list (cb_q s) = xs @ ws"
  shows "run_callbacks (length xs + n) E did s =
    (case run_each E xs s of
       None \<Rightarrow> None
     | Some s' \<Rightarrow> run_callbacks n E (did \<or> xs \<noteq> []) s')"
  by (rule run_callbacks_in_order [OF assms])

theorem callbacks_run_first_in_first_out_witness:
  "\<exists>s. zb_schedule_callback 8 2 (boot\<lparr>cb_q := ring_put (cb_q boot) \<lparr>cb_func = 7, cb_param = 1\<rparr>\<rparr>)
       = Some (RET_OK, s)
     \<and> run_callbacks 3 idle_env False s =
         (case run_each idle_env [\<lparr>cb_func = 7, cb_param = 1\<rparr>, \<lparr>cb_func = 8, cb_param = 2\<rparr>] s of
            None \<Rightarrow> None
          | Some s' \<Rightarrow> run_callbacks 1 idle_env True s')"
proof -
  let ?q = "ring_put (cb_q boot) \<lparr>cb_func = 7, cb_param = 1\<rparr>"
  have nf: "\<not> ring_is_full (cb_q boot)" "\<not> ring_is_full ?q"
    by (simp_all add: ring_zero_def ring_defs ZB_SCHEDULER_Q_SIZE_def)
  have q: "ring_inv ?q" "ring_list ?q = [\<lparr>cb_func = 7, cb_param = 1\<rparr>]"
    using ring_put_list [OF _ nf(1)] by (simp_all add: ZB_SCHEDULER_Q_SIZE_def)
  let ?s = "boot\<lparr>cb_q := ring_put ?q \<lparr>cb_func = 8, cb_param = 2\<rparr>\<rparr>"
  let ?l = "[\<lparr>cb_func = 7, cb_param = 1\<rparr>, \<lparr>cb_func = 8, cb_param = 2\<rparr>]"
  have s: "ring_inv (cb_q ?s)" "ring_list (cb_q ?s) = ?l @ []"
    using ring_put_list [OF q(1) nf(2)] q(2) by simp_all
  have rx: "\<not> env_rx_ready idle_env t" for t by (simp add: idle_env_def)
  have t: "length ?l + 1 = 3" "(False \<or> ?l \<noteq> []) = True" by simp_all
  note callbacks_run_first_in_first_out
    [OF quiet_callbacks_append [OF quiet_idle_env] rx s, of 1 False, unfolded t]
  moreover have "zb_schedule_callback 8 2 (boot\<lparr>cb_q := ?q\<rparr>) = Some (RET_OK, ?s)"
    using nf(2) by (simp add: zb_schedule_callback_def ring_put_reserve_def put_cb_def ring_put_def
        ZB_IOBUF_POOL_SIZE_def)
  ultimately show ?thesis by blast
qed

section \<open>Timeouts beyond half of the range\<close>

text \<open>The timeout of \<^verbatim>\<open>zb_zdo_check_fails\<close>, truncated to a \<^verbatim>\<open>zb_time_t\<close> parameter.\<close>

definition ZB_ZDO_CHANNEL_CHECK_TIMEOUT :: zb_time where
  "ZB_ZDO_CHANNEL_CHECK_TIMEOUT = of_nat (ZB_TIME_ONE_SECOND * 60 * 15)"

text \<open>
  An alarm counts as due in the very moment it is set exactly if its timeout is 0 or
  at least 32770 beacon intervals. The 15 minutes of ZB_ZDO_CHANNEL_CHECK_TIMEOUT are
  58500, so the alarm that should keep channel checks apart is due at once, and the next
  iteration of the main loop runs it without any wait (the comment at the constant only
  sees that the value fits into two bytes).
\<close>

theorem alarm_due_at_once_iff:
  assumes "tm_rep s xs (e # ys)"
  shows "\<exists>s'. zb_schedule_alarm f p d s = Some (RET_OK, s')
    \<and> (due s' e \<longleftrightarrow> d = 0 \<or> 32770 \<le> unat d) \<and> (xs = [] \<longrightarrow> tm_queue s' = Some e)"
proof -
  obtain s' where s': "zb_schedule_alarm f p d s = Some (RET_OK, s')" "zb_timer_get s' = zb_timer_get s"
    "tm_run_time (tm_buffer s' e) = zb_time_add (zb_timer_get s) d"
    "\<exists>rt. tm_rep s' (alarm_insert_spec rt e xs) ys"
    using zb_schedule_alarm_rep [OF assms, of f p d] by (fastforce simp: zb_timer_get_def)
  have "xs = [] \<longrightarrow> tm_queue s' = Some e"
    using s'(4) by (auto simp: alarm_insert_spec_def tm_rep_def dl_rep_def)
  moreover have "due s' e \<longleftrightarrow> d = 0 \<or> 32770 \<le> unat d"
    by (simp add: due_def s'(2,3) time_ge_add)
  ultimately show ?thesis using s'(1) by blast
qed

theorem alarm_due_at_once_iff_witness:
  "\<exists>s' s''. zb_schedule_alarm 7 0 ZB_ZDO_CHANNEL_CHECK_TIMEOUT boot = Some (RET_OK, s')
     \<and> due s' 15 \<and> tm_queue s' = Some 15"
  using alarm_due_at_once_iff [OF boot_rep, of 7 0 ZB_ZDO_CHANNEL_CHECK_TIMEOUT]
  by (auto simp: ZB_ZDO_CHANNEL_CHECK_TIMEOUT_def ZB_TIME_ONE_SECOND_def
      zb_milliseconds_to_beacon_interval_def ZB_BEACON_INTERVAL_USEC_def)

text \<open>
  C24: Putting entries into a ring buffer and draining it gives all of them back, the old
  ones first and in order, as long as they fit, wherever the indices stand and however they
  wrap around.
\<close>

theorem ring_buffer_is_a_bounded_queue:
  assumes "ring_inv r" "length (ring_list r) + length xs \<le> ring_capacity r"
  shows "fst (drain_with ring_peek ring_flush_get (ring_capacity r) (foldl ring_put r xs))
    = ring_list r @ xs"
  by (rule ring.put_all_then_drain [OF assms])

theorem ring_buffer_is_a_bounded_queue_witness:
  "fst (drain_with ring_peek ring_flush_get 4 (foldl ring_put
     \<lparr>ring_buf = [10, 11, 12, 13], read_i = 3, write_i = 1, written = 2\<rparr> [20, 21 :: nat]))
   = [13, 10, 20, 21]"
proof -
  let ?r = "\<lparr>ring_buf = [10, 11, 12, 13], read_i = 3, write_i = 1, written = 2\<rparr> :: nat ring"
  have r: "ring_inv ?r" "ring_list ?r = [13, 10]" "ring_capacity ?r = 4"
    by (simp_all add: ring_inv_def ring_list_def ring_capacity_def upt_rec)
  have "length (ring_list ?r) + length [20, 21 :: nat] \<le> ring_capacity ?r" unfolding r by simp
  from ring_buffer_is_a_bounded_queue [OF r(1) this] show ?thesis unfolding r(2,3) by simp
qed

end
