(* ===== verification/Bufpool.thy ===== *)
theory Bufpool
  imports Scheduler
begin

text \<open>
  The pool of packet buffers: \<^verbatim>\<open>include/zb_bufpool.h\<close>, \<^verbatim>\<open>include/zb_bufpool_globals.h\<close>,
  \<^verbatim>\<open>common/zb_bufpool_init.c\<close> and \<^verbatim>\<open>common/zb_bufpool.c\<close>. A buffer is referred to by
  its index in the pool. The first part is the operations on the data of one buffer, the
  second the free list with the two limits and the queues of callbacks that wait for a
  buffer. Lengths and offsets are bytes of the source, kept as \<open>nat\<close> with the wrap-around
  written out. Reading or writing outside of the 148 bytes of a buffer is \<open>None\<close>.
\<close>

definition ZB_IO_BUF_SIZE :: nat where "ZB_IO_BUF_SIZE = 148"
definition ZB_BUFS_LIMIT :: nat where "ZB_BUFS_LIMIT = ZB_IOBUF_POOL_SIZE div 2"

section \<open>One packet buffer\<close>

record zb_buf_hdr =
  h_len :: nat
  data_offset :: nat
  handle :: u8
  mac_hdr_offset :: u8
  status :: u16
  is_in_buf :: bool
  encrypt_type :: "2 word"
  use_same_key :: bool
  zdo_cmd_no_resp :: bool
  h_reserved :: "3 word"
  mhr_len :: u8

record zb_buf =
  hdr :: zb_buf_hdr
  bytes :: "u8 list"

definition hdr_zero :: zb_buf_hdr where
  "hdr_zero = \<lparr>h_len = 0, data_offset = 0, handle = 0, mac_hdr_offset = 0, status = 0,
     is_in_buf = False, encrypt_type = 0, use_same_key = False, zdo_cmd_no_resp = False,
     h_reserved = 0, mhr_len = 0\<rparr>"

definition set_len :: "nat \<Rightarrow> zb_buf \<Rightarrow> zb_buf" where
  "set_len n b = b\<lparr>hdr := (hdr b)\<lparr>h_len := n mod 256\<rparr>\<rparr>"

definition set_off :: "nat \<Rightarrow> zb_buf \<Rightarrow> zb_buf" where
  "set_off n b = b\<lparr>hdr := (hdr b)\<lparr>data_offset := n mod 256\<rparr>\<rparr>"

abbreviation blen :: "zb_buf \<Rightarrow> nat" where "blen b \<equiv> h_len (hdr b)"
abbreviation boff :: "zb_buf \<Rightarrow> nat" where "boff b \<equiv> data_offset (hdr b)"

text \<open>The functions return the index of the byte the C function's pointer points to.\<close>

definition zb_buf_initial_alloc :: "zb_buf \<Rightarrow> nat \<Rightarrow> (zb_buf \<times> nat) option" where
  "zb_buf_initial_alloc b sz =
     (if sz < ZB_IO_BUF_SIZE then
        (let b1 = b\<lparr>hdr := hdr_zero\<lparr>is_in_buf := is_in_buf (hdr b)\<rparr>\<rparr>;
             b2 = set_off ((ZB_IO_BUF_SIZE - sz) div 2) (set_len sz b1)
         in Some (b2, boff b2))
      else None)"

definition buf_move :: "nat \<Rightarrow> nat \<Rightarrow> nat \<Rightarrow> zb_buf \<Rightarrow> zb_buf option" where
  "buf_move dst src n b =
     (if src + n \<le> ZB_IO_BUF_SIZE \<and> dst + n \<le> ZB_IO_BUF_SIZE
      then Some (b\<lparr>bytes := memmove dst src n (bytes b)\<rparr>) else None)"

definition zb_buf_smart_alloc_left :: "zb_buf \<Rightarrow> nat \<Rightarrow> (zb_buf \<times> nat) option" where
  "zb_buf_smart_alloc_left b sz =
     (if sz + blen b < ZB_IO_BUF_SIZE then
        (case (if boff b < sz
               then map_option (set_off sz) (buf_move (boff b + (sz - boff b)) (boff b) (blen b) b)
               else Some b) of
           None \<Rightarrow> None
         | Some b1 \<Rightarrow>
             (let b2 = set_off (boff b1 - sz) (set_len (blen b1 + sz) b1) in Some (b2, boff b2)))
      else None)"

definition zb_buf_smart_alloc_right :: "zb_buf \<Rightarrow> nat \<Rightarrow> (zb_buf \<times> nat) option" where
  "zb_buf_smart_alloc_right b sz =
     (if sz + blen b < ZB_IO_BUF_SIZE
      then Some (set_len (blen b + sz) b, boff b + blen b) else None)"

definition zb_get_buf_tail :: "zb_buf \<Rightarrow> nat \<Rightarrow> nat option" where
  "zb_get_buf_tail b sz =
     (if blen b + boff b + sz \<le> ZB_IO_BUF_SIZE then Some (ZB_IO_BUF_SIZE - sz) else None)"

definition zb_buf_assign_param :: "zb_buf \<Rightarrow> u8 list \<Rightarrow> zb_buf option" where
  "zb_buf_assign_param b param =
     (let sz = length param; room = int ZB_IO_BUF_SIZE - int (boff b + blen b) in
      if blen b + sz \<le> ZB_IO_BUF_SIZE then
        (case (if room < int sz
               then (let delta = nat (int sz - room) in
                     if delta \<le> boff b
                     then map_option (set_off (boff b - delta)) (buf_move (boff b - delta) (boff b) (blen b) b)
                     else None)
               else Some b) of
           None \<Rightarrow> None
         | Some b1 \<Rightarrow>
             (case zb_get_buf_tail b1 sz of
                None \<Rightarrow> None
              | Some t \<Rightarrow> Some (b1\<lparr>bytes := memcpy t param (bytes b1)\<rparr>)))
      else None)"

definition zb_buf_cut_left :: "zb_buf \<Rightarrow> nat \<Rightarrow> (zb_buf \<times> nat) option" where
  "zb_buf_cut_left b sz =
     (if blen b \<ge> sz then
        (let b1 = set_off (boff b + sz) (set_len (blen b - sz) b) in Some (b1, boff b1))
      else None)"

definition zb_buf_cut_right :: "zb_buf \<Rightarrow> nat \<Rightarrow> zb_buf option" where
  "zb_buf_cut_right b sz = (if blen b \<ge> sz then Some (set_len (blen b - sz) b) else None)"

definition zb_buf_reuse :: "zb_buf \<Rightarrow> zb_buf" where
  "zb_buf_reuse b = b\<lparr>hdr := hdr_zero\<lparr>is_in_buf := is_in_buf (hdr b)\<rparr>\<rparr>"

definition ZB_BUF_COPY :: "zb_buf \<Rightarrow> zb_buf \<Rightarrow> zb_buf" where
  "ZB_BUF_COPY dst src = src\<lparr>hdr := (hdr src)\<lparr>is_in_buf := is_in_buf (hdr dst)\<rparr>\<rparr>"

lemmas buf_op_defs =
  zb_buf_initial_alloc_def zb_buf_smart_alloc_left_def zb_buf_smart_alloc_right_def
  zb_get_buf_tail_def zb_buf_assign_param_def zb_buf_cut_left_def zb_buf_cut_right_def
  buf_move_def set_len_def set_off_def Let_def

text \<open>The data lies inside of the buffer; the bytes it consists of.\<close>

definition buf_ok :: "zb_buf \<Rightarrow> bool" where
  "buf_ok b \<longleftrightarrow> length (bytes b) = ZB_IO_BUF_SIZE \<and> boff b + blen b \<le> ZB_IO_BUF_SIZE"

definition payload :: "zb_buf \<Rightarrow> u8 list" where
  "payload b = take (blen b) (drop (boff b) (bytes b))"

lemma length_payload: "buf_ok b \<Longrightarrow> length (payload b) = blen b"
  by (auto simp: payload_def buf_ok_def)

lemma take_drop_memmove:
  "src + n \<le> length xs \<Longrightarrow> dst + n \<le> length xs \<Longrightarrow>
     take n (drop dst (memmove dst src n xs)) = take n (drop src xs)"
  by (simp add: memmove_def)

lemma drop_take_mid:
  "m \<le> l \<Longrightarrow> drop m (take l (drop a xs)) = take (l - m) (drop (a + m) xs)"
  by (simp add: drop_take add.commute)

lemma alloc_left_payload:
  assumes "buf_ok b" "sz + blen b < ZB_IO_BUF_SIZE"
  shows "\<exists>b'. zb_buf_smart_alloc_left b sz = Some (b', boff b') \<and> buf_ok b'
    \<and> blen b' = blen b + sz \<and> drop sz (payload b') = payload b"
proof (cases "boff b < sz")
  case True
  with assms show ?thesis
    by (auto simp: buf_op_defs buf_ok_def payload_def ZB_IO_BUF_SIZE_def drop_take
        take_drop_memmove)
next
  case False
  with assms show ?thesis
    by (auto simp: buf_op_defs buf_ok_def payload_def ZB_IO_BUF_SIZE_def drop_take_mid)
qed

lemma alloc_right_payload:
  assumes "buf_ok b" "sz + blen b < ZB_IO_BUF_SIZE"
  shows "\<exists>b'. zb_buf_smart_alloc_right b sz = Some (b', boff b + blen b)
    \<and> blen b' = blen b + sz \<and> boff b' = boff b \<and> bytes b' = bytes b
    \<and> (buf_ok b' \<longleftrightarrow> boff b + blen b + sz \<le> ZB_IO_BUF_SIZE)
    \<and> take (blen b) (payload b') = payload b"
  using assms by (auto simp: buf_op_defs buf_ok_def payload_def ZB_IO_BUF_SIZE_def min_def)

lemma cut_left_payload:
  assumes "buf_ok b" "sz \<le> blen b"
  shows "\<exists>b'. zb_buf_cut_left b sz = Some (b', boff b') \<and> buf_ok b'
    \<and> payload b' = drop sz (payload b)"
  using assms by (auto simp: buf_op_defs buf_ok_def payload_def ZB_IO_BUF_SIZE_def drop_take add.commute)

lemma cut_right_payload:
  assumes "buf_ok b" "sz \<le> blen b"
  shows "\<exists>b'. zb_buf_cut_right b sz = Some b' \<and> buf_ok b'
    \<and> payload b' = take (blen b - sz) (payload b)"
  using assms by (auto simp: buf_op_defs buf_ok_def payload_def ZB_IO_BUF_SIZE_def)

lemma drop_memcpy_tail:
  "t + length ys = length xs \<Longrightarrow> drop t (memcpy t ys xs) = ys"
  by (simp add: memcpy_def)

lemma take_drop_memcpy:
  "a + n \<le> t \<Longrightarrow> t \<le> length xs \<Longrightarrow> take n (drop a (memcpy t ys xs)) = take n (drop a xs)"
  by (simp add: memcpy_def drop_take)

lemma write_tail:
  assumes "length (bytes b) = ZB_IO_BUF_SIZE" "boff b + blen b + length param \<le> ZB_IO_BUF_SIZE"
    "b' = b\<lparr>bytes := memcpy (ZB_IO_BUF_SIZE - length param) param (bytes b)\<rparr>"
  shows "buf_ok b' \<and> payload b' = payload b
    \<and> drop (ZB_IO_BUF_SIZE - length param) (bytes b') = param
    \<and> zb_get_buf_tail b' (length param) = Some (ZB_IO_BUF_SIZE - length param)"
proof -
  have "boff b + blen b \<le> ZB_IO_BUF_SIZE - length param" using assms(2) by simp
  then have "payload b' = payload b"
    unfolding payload_def assms(3) using assms(1) by (simp add: take_drop_memcpy)
  with assms show ?thesis by (simp add: buf_ok_def drop_memcpy_tail zb_get_buf_tail_def)
qed

lemma assign_param_payload:
  assumes ok: "buf_ok b" and fits: "blen b + length param \<le> ZB_IO_BUF_SIZE"
  shows "\<exists>b'. zb_buf_assign_param b param = Some b' \<and> buf_ok b' \<and> payload b' = payload b
    \<and> drop (ZB_IO_BUF_SIZE - length param) (bytes b') = param
    \<and> zb_get_buf_tail b' (length param) = Some (ZB_IO_BUF_SIZE - length param)"
proof (cases "boff b + blen b + length param \<le> ZB_IO_BUF_SIZE")
  case True
  then have "zb_buf_assign_param b param =
      Some (b\<lparr>bytes := memcpy (ZB_IO_BUF_SIZE - length param) param (bytes b)\<rparr>)"
    using fits by (simp add: zb_buf_assign_param_def zb_get_buf_tail_def Let_def)
  with write_tail [OF _ True] ok show ?thesis by (simp add: buf_ok_def)
next
  case False
  let ?d = "boff b + blen b + length param - ZB_IO_BUF_SIZE"
  have d: "nat (int (length param) - (int ZB_IO_BUF_SIZE - int (boff b + blen b))) = ?d"
    "?d \<le> boff b" "int ZB_IO_BUF_SIZE - int (boff b + blen b) < int (length param)"
    using False fits by linarith+
  let ?b1 = "set_off (boff b - ?d) (b\<lparr>bytes := memmove (boff b - ?d) (boff b) (blen b) (bytes b)\<rparr>)"
  have off: "boff ?b1 + blen ?b1 + length param = ZB_IO_BUF_SIZE" "boff ?b1 = boff b - ?d"
    using False fits ok by (auto simp: set_off_def buf_ok_def ZB_IO_BUF_SIZE_def)
  have len: "length (bytes ?b1) = ZB_IO_BUF_SIZE" "blen ?b1 = blen b"
    using ok by (auto simp: set_off_def buf_ok_def)
  have pl: "take (blen b) (drop (boff ?b1) (bytes ?b1)) = payload b"
    unfolding off(2) using ok
    by (auto simp: set_off_def buf_ok_def payload_def intro!: take_drop_memmove)
  have tail: "zb_get_buf_tail ?b1 (length param) = Some (ZB_IO_BUF_SIZE - length param)"
    using off(1) by (simp add: zb_get_buf_tail_def)
  have "zb_buf_assign_param b param =
      Some (?b1\<lparr>bytes := memcpy (ZB_IO_BUF_SIZE - length param) param (bytes ?b1)\<rparr>)"
    using d fits ok tail by (simp add: zb_buf_assign_param_def Let_def buf_move_def buf_ok_def)
  moreover have "payload ?b1 = payload b" using pl len(2) by (simp add: payload_def)
  ultimately show ?thesis using write_tail [OF len(1) eq_imp_le [OF off(1)] refl] by metis
qed

end
