(* ===== verification/Bufpool_Alloc.thy ===== *)
theory Bufpool_Alloc
  imports Bufpool
begin

text \<open>
  Getting and freeing packet buffers: the free list, the limit of 8 buffers for each
  direction, and the callbacks that wait until a buffer of their direction is free
  (\<^verbatim>\<open>zb_get_buf\<close>, \<^verbatim>\<open>zb_get_buf_delayed\<close>, \<^verbatim>\<open>zb_free_buf\<close>, \<^verbatim>\<open>zb_init_buffers\<close>).
  \<open>True\<close> stands for the input direction. The header of a buffer is a union with the
  pointer to the next free buffer: writing the pointer also overwrites the first four bytes
  of the header (32-bit pointers); what these bytes become depends on the address, so it is
  the parameter \<open>ov\<close> of \<open>zb_free_buf\<close>.
\<close>

record 'f zb_pool = "'f zb_sched" +
  pool :: "zb_buf list"
  bp_links :: links
  bp_head :: ptr
  bufs_allocated :: "bool \<Rightarrow> nat"
  rx_need_buf :: bool

definition zb_init_buffers :: "('f, 'z) zb_pool_scheme \<Rightarrow> ('f, 'z) zb_pool_scheme" where
  "zb_init_buffers s =
     (if bp_head s \<noteq> None then s
      else s\<lparr>bp_head := Some 0,
             bp_links := foldl (\<lambda>L i. set_next i (if i < ZB_IOBUF_POOL_SIZE - 1 then Some (i + 1) else None) L)
               (bp_links s) [0..<ZB_IOBUF_POOL_SIZE]\<rparr>)"

definition pool_used :: "('f, 'z) zb_pool_scheme \<Rightarrow> bool" where
  "pool_used s \<longleftrightarrow> bp_head s \<noteq> None \<or> bufs_allocated s False \<noteq> 0 \<or> bufs_allocated s True \<noteq> 0"

definition zb_get_buf ::
  "bool \<Rightarrow> ('f, 'z) zb_pool_scheme \<Rightarrow> (ptr \<times> ('f, 'z) zb_pool_scheme) option" where
  "zb_get_buf is_in s =
     (if \<not> pool_used s then None
      else if bufs_allocated s is_in < ZB_BUFS_LIMIT then
        (case bp_head s of
           None \<Rightarrow> Some (None, s)
         | Some b \<Rightarrow>
             (let s1 = s\<lparr>bp_head := l_next (bp_links s) b,
                         bp_links := set_next b None (bp_links s),
                         pool := (pool s)[b := (pool s ! b)\<lparr>hdr := hdr_zero\<lparr>is_in_buf := is_in\<rparr>\<rparr>],
                         bufs_allocated := (bufs_allocated s)(is_in := u8_inc (bufs_allocated s is_in))\<rparr>
              in if bufs_allocated s1 is_in \<le> ZB_BUFS_LIMIT then Some (Some b, s1) else None))
      else Some (None, s))"

definition zb_get_buf_delayed ::
  "'f \<Rightarrow> bool \<Rightarrow> ('f, 'z) zb_pool_scheme \<Rightarrow> (zb_ret \<times> ('f, 'z) zb_pool_scheme) option" where
  "zb_get_buf_delayed callback is_in s =
     (case zb_get_buf is_in s of
        None \<Rightarrow> None
      | Some (Some b, s1) \<Rightarrow> zb_schedule_callback callback (of_nat b) s1
      | Some (None, s1) \<Rightarrow>
          (case stk_pop (buf_links s1) (buf_freelist s1) of
             (fl, None) \<Rightarrow> Some (RET_ERROR, s1\<lparr>buf_freelist := fl\<rparr>)
           | (fl, Some ent) \<Rightarrow>
               (let s2 = s1\<lparr>buf_freelist := fl, delayed_buf := (delayed_buf s1)(ent := callback)\<rparr> in
                if is_in then
                  (let (B, q) = sl_insert_tail (buf_links s2) (inbuf_queue s2) ent
                   in Some (RET_OK, s2\<lparr>buf_links := B, inbuf_queue := q\<rparr>))
                else
                  (let (B, q) = sl_insert_tail (buf_links s2) (outbuf_queue s2) ent
                   in Some (RET_OK, s2\<lparr>buf_links := B, outbuf_queue := q\<rparr>)))))"

text \<open>Taking the first waiting callback of a direction, and handing it a new buffer.\<close>

definition cut_waiting :: "bool \<Rightarrow> ('f, 'z) zb_pool_scheme \<Rightarrow> ptr \<times> ('f, 'z) zb_pool_scheme" where
  "cut_waiting is_in s =
     (if is_in then
        (if \<not> rx_need_buf s then
           (let (q, ent) = sl_cut_head (buf_links s) (inbuf_queue s) in (ent, s\<lparr>inbuf_queue := q\<rparr>))
         else (None, s))
      else
        (let (q, ent) = sl_cut_head (buf_links s) (outbuf_queue s) in (ent, s\<lparr>outbuf_queue := q\<rparr>)))"

definition serve_waiting ::
  "nat \<Rightarrow> bool \<Rightarrow> ('f, 'z) zb_pool_scheme \<Rightarrow> ('f, 'z) zb_pool_scheme option" where
  "serve_waiting ent is_in s =
     (case zb_get_buf is_in s of
        None \<Rightarrow> None
      | Some (None, s1) \<Rightarrow> None
      | Some (Some b, s1) \<Rightarrow>
          (case zb_schedule_callback (delayed_buf s1 ent) (of_nat b) s1 of
             None \<Rightarrow> None
           | Some (_, s2) \<Rightarrow>
               (let (B, fl) = stk_push (buf_links s2) (buf_freelist s2) ent
                in Some (s2\<lparr>buf_links := B, buf_freelist := fl\<rparr>))))"

definition overlay :: "nat \<times> nat \<times> u8 \<times> u8 \<Rightarrow> zb_buf_hdr \<Rightarrow> zb_buf_hdr" where
  "overlay w h = (case w of (w0, w1, w2, w3) \<Rightarrow>
     h\<lparr>h_len := w0, data_offset := w1, handle := w2, mac_hdr_offset := w3\<rparr>)"

definition zb_free_buf ::
  "(ptr \<Rightarrow> nat \<times> nat \<times> u8 \<times> u8) \<Rightarrow> nat \<Rightarrow> ('f, 'z) zb_pool_scheme \<Rightarrow> ('f, 'z) zb_pool_scheme option" where
  "zb_free_buf ov b s =
     (let is_in = is_in_buf (hdr (pool s ! b)) in
      if \<not> pool_used s \<or> bufs_allocated s is_in = 0 then None
      else
        (let h = overlay (ov (bp_head s)) (hdr (pool s ! b));
             s1 = s\<lparr>bufs_allocated := (bufs_allocated s)(is_in := bufs_allocated s is_in - 1),
                    bp_links := set_next b (bp_head s) (bp_links s),
                    pool := (pool s)[b := (pool s ! b)\<lparr>hdr := h\<rparr>],
                    bp_head := Some b\<rparr>;
             (ent, s2) = cut_waiting (is_in_buf h) s1
         in case ent of None \<Rightarrow> Some s2 | Some e \<Rightarrow> serve_waiting e (is_in_buf h) s2))"

section \<open>The invariant\<close>

text \<open>
  \<open>fs\<close> are the free buffers, \<open>ins\<close> and \<open>outs\<close> the entries of the callbacks that wait for
  an input and an output buffer, \<open>qs\<close> the free entries.
\<close>

definition in_use :: "zb_buf list \<Rightarrow> nat list \<Rightarrow> bool \<Rightarrow> nat set" where
  "in_use p fs d = {b. b < ZB_IOBUF_POOL_SIZE \<and> b \<notin> set fs \<and> is_in_buf (hdr (p ! b)) = d}"

definition pool_rep :: "('f, 'z) zb_pool_scheme \<Rightarrow> nat list \<Rightarrow> bool" where
  "pool_rep s fs \<longleftrightarrow> stk_rep (bp_links s) (bp_head s) fs \<and> set fs \<subseteq> {..<ZB_IOBUF_POOL_SIZE}
     \<and> length (pool s) = ZB_IOBUF_POOL_SIZE
     \<and> (\<forall>d. card (in_use (pool s) fs d) = bufs_allocated s d \<and> bufs_allocated s d \<le> ZB_BUFS_LIMIT)"

definition wait_rep :: "('f, 'z) zb_pool_scheme \<Rightarrow> nat list \<Rightarrow> nat list \<Rightarrow> nat list \<Rightarrow> bool" where
  "wait_rep s ins outs qs \<longleftrightarrow> sl_rep (buf_links s) (inbuf_queue s) ins
     \<and> sl_rep (buf_links s) (outbuf_queue s) outs \<and> stk_rep (buf_links s) (buf_freelist s) qs
     \<and> set ins \<inter> set outs = {} \<and> set ins \<inter> set qs = {} \<and> set outs \<inter> set qs = {}
     \<and> set ins \<union> set outs \<union> set qs = {..<ZB_BUF_Q_SIZE}"

text \<open>No lost wake-up: a callback waits only while all buffers of its direction are in use.\<close>

definition waits_justified :: "('f, 'z) zb_pool_scheme \<Rightarrow> nat list \<Rightarrow> nat list \<Rightarrow> bool" where
  "waits_justified s ins outs \<longleftrightarrow>
     (outs \<noteq> [] \<longrightarrow> bufs_allocated s False = ZB_BUFS_LIMIT)
     \<and> (ins \<noteq> [] \<longrightarrow> bufs_allocated s True = ZB_BUFS_LIMIT \<or> rx_need_buf s)"

lemma sizes [simp]:
  "ZB_IOBUF_POOL_SIZE = 16" "ZB_BUFS_LIMIT = 8" "ZB_BUF_Q_SIZE = 16"
  by (simp_all add: ZB_IOBUF_POOL_SIZE_def ZB_BUFS_LIMIT_def ZB_BUF_Q_SIZE_def)

lemma finite_in_use [simp]: "finite (in_use p fs d)"
  by (simp add: in_use_def)

lemma in_use_sum:
  assumes "pool_rep s fs"
  shows "bufs_allocated s True + bufs_allocated s False + length fs = 16"
proof -
  have fs: "distinct fs" "set fs \<subseteq> {..<16}" using assms by (auto simp: pool_rep_def stk_rep_def)
  have "in_use (pool s) fs True \<union> in_use (pool s) fs False = {..<16} - set fs"
    by (auto simp: in_use_def)
  moreover have "in_use (pool s) fs True \<inter> in_use (pool s) fs False = {}"
    by (auto simp: in_use_def)
  ultimately have "card (in_use (pool s) fs True) + card (in_use (pool s) fs False) = card ({..<16} - set fs)"
    by (metis card_Un_disjoint finite_in_use)
  also have "\<dots> = 16 - length fs" using fs by (simp add: card_Diff_subset distinct_card)
  finally show ?thesis
    using assms card_mono [of "{..<16}" "set fs"] fs by (simp add: pool_rep_def distinct_card)
qed

lemma pool_rep_limit: "pool_rep s fs \<Longrightarrow> bufs_allocated s d \<le> 8"
  by (simp add: pool_rep_def)

lemma pool_rep_head: "pool_rep s fs \<Longrightarrow> bp_head s = phead None fs"
  by (simp add: pool_rep_def stk_rep_def)

lemma pool_rep_used: "pool_rep s fs \<Longrightarrow> pool_used s"
  using in_use_sum [of s fs] pool_rep_head [of s fs] by (cases fs) (auto simp: pool_used_def)

text \<open>A new buffer: the first free one, unless the direction is at its limit.\<close>

definition got :: "bool \<Rightarrow> nat \<Rightarrow> ('f, 'z) zb_pool_scheme \<Rightarrow> ('f, 'z) zb_pool_scheme" where
  "got is_in b s = s\<lparr>bp_head := l_next (bp_links s) b,
     bp_links := set_next b None (bp_links s),
     pool := (pool s)[b := (pool s ! b)\<lparr>hdr := hdr_zero\<lparr>is_in_buf := is_in\<rparr>\<rparr>],
     bufs_allocated := (bufs_allocated s)(is_in := Suc (bufs_allocated s is_in))\<rparr>"

lemma zb_get_buf_some:
  assumes "pool_rep s (b # fs)" "bufs_allocated s is_in < 8"
  shows "zb_get_buf is_in s = Some (Some b, got is_in b s)" "pool_rep (got is_in b s) fs"
proof -
  have h: "bp_head s = Some b" using assms(1) by (simp add: pool_rep_def stk_rep_def)
  then show "zb_get_buf is_in s = Some (Some b, got is_in b s)"
    using assms(2) pool_rep_used [OF assms(1)] by (simp add: zb_get_buf_def got_def Let_def)
  have b: "b < 16" "b \<notin> set fs" "length (pool s) = 16"
    using assms(1) by (auto simp: pool_rep_def stk_rep_def)
  let ?p = "(pool s)[b := (pool s ! b)\<lparr>hdr := hdr_zero\<lparr>is_in_buf := is_in\<rparr>\<rparr>]"
  have "in_use ?p fs is_in = insert b (in_use (pool s) (b # fs) is_in)"
    "in_use ?p fs (\<not> is_in) = in_use (pool s) (b # fs) (\<not> is_in)"
    using b by (auto simp: in_use_def nth_list_update)
  moreover have "b \<notin> in_use (pool s) (b # fs) is_in" by (simp add: in_use_def)
  ultimately have "card (in_use ?p fs d) = card (in_use (pool s) (b # fs) d) + (if d = is_in then 1 else 0)" for d
    by (cases "d = is_in"; cases is_in; cases d) auto
  then have "card (in_use (pool (got is_in b s)) fs d) = bufs_allocated (got is_in b s) d
      \<and> bufs_allocated (got is_in b s) d \<le> ZB_BUFS_LIMIT" for d
    using assms(1) assms(2) pool_rep_limit [OF assms(1)]
    by (cases "d = is_in") (simp_all add: got_def pool_rep_def)
  with assms(1) show "pool_rep (got is_in b s) fs"
    by (auto simp: pool_rep_def got_def stk_rep_def)
qed

lemma zb_get_buf_none:
  assumes "pool_rep s fs" "fs = [] \<or> 8 \<le> bufs_allocated s is_in"
  shows "zb_get_buf is_in s = Some (None, s)"
  using assms pool_rep_used [OF assms(1)]
  by (auto simp: zb_get_buf_def pool_rep_def stk_rep_def split: option.split)

text \<open>An empty free list means that both directions are at their limit.\<close>

lemma no_free_limit: "pool_rep s [] \<Longrightarrow> bufs_allocated s d = 8"
  using in_use_sum [of s "[]"] pool_rep_limit [of s "[]" True] pool_rep_limit [of s "[]" False]
  by (cases d) simp_all

lemma zb_schedule_callback_buf:
  assumes "b < 16"
  shows "zb_schedule_callback f (of_nat b) s =
    Some (if ring_is_full (cb_q s) then RET_OVERFLOW else RET_OK,
      s\<lparr>cb_q := if ring_is_full (cb_q s) then cb_q s
                else ring_put (cb_q s) \<lparr>cb_func = f, cb_param = of_nat b\<rparr>\<rparr>)"
proof -
  have "unat (of_nat b :: u8) = b" using assms by (simp add: unat_of_nat)
  with assms show ?thesis
    by (simp add: zb_schedule_callback_def ring_put_reserve_def put_cb_def ring_put_def)
qed

definition pool_inv ::
  "('f, 'z) zb_pool_scheme \<Rightarrow> nat list \<Rightarrow> nat list \<Rightarrow> nat list \<Rightarrow> nat list \<Rightarrow> bool" where
  "pool_inv s fs ins outs qs \<longleftrightarrow> pool_rep s fs \<and> wait_rep s ins outs qs
     \<and> waits_justified s ins outs \<and> ring_inv (cb_q s)"

lemma pool_inv_got:
  assumes "pool_inv s (b # fs) ins outs qs" "bufs_allocated s is_in < 8"
  shows "pool_inv (got is_in b s) fs ins outs qs"
  using assms zb_get_buf_some [of s b fs is_in]
  by (auto simp: pool_inv_def wait_rep_def waits_justified_def got_def)

lemma pool_inv_cb_q:
  "pool_inv s fs ins outs qs \<Longrightarrow> ring_inv r \<Longrightarrow> pool_inv (s\<lparr>cb_q := r\<rparr>) fs ins outs qs"
  by (simp add: pool_inv_def pool_rep_def wait_rep_def waits_justified_def)

lemma pool_inv_ring_put:
  assumes "pool_inv s fs ins outs qs"
  shows "pool_inv (s\<lparr>cb_q := if ring_is_full (cb_q s) then cb_q s else ring_put (cb_q s) e\<rparr>) fs ins outs qs"
  using assms ring_put_list(1) [of "cb_q s" e] by (intro pool_inv_cb_q) (auto simp: pool_inv_def)

text \<open>A callback that has to wait is the last of its queue.\<close>

lemma wait_rep_put:
  assumes w: "wait_rep s ins outs (e # qs)"
  defines "B \<equiv> \<lambda>q. fst (sl_insert_tail (buf_links s) q e)"
    and "Q \<equiv> \<lambda>q. snd (sl_insert_tail (buf_links s) q e)"
  shows "wait_rep (s\<lparr>buf_freelist := phead None qs, delayed_buf := D, buf_links := B (inbuf_queue s),
      inbuf_queue := Q (inbuf_queue s)\<rparr>) (ins @ [e]) outs qs"
    and "wait_rep (s\<lparr>buf_freelist := phead None qs, delayed_buf := D, buf_links := B (outbuf_queue s),
      outbuf_queue := Q (outbuf_queue s)\<rparr>) ins (outs @ [e]) qs"
    and "stk_pop (buf_links s) (buf_freelist s) = (phead None qs, Some e)"
proof -
  have e: "e \<notin> set ins" "e \<notin> set outs" "e \<notin> set qs" "set ins \<inter> set outs = {}"
    "set ins \<inter> set qs = {}" "set outs \<inter> set qs = {}"
    "insert e (set ins \<union> set outs \<union> set qs) = {..<ZB_BUF_Q_SIZE}"
    using w by (auto simp: wait_rep_def stk_rep_def)
  have i: "sl_rep (buf_links s) (inbuf_queue s) ins" and o: "sl_rep (buf_links s) (outbuf_queue s) outs"
    and q: "stk_rep (buf_links s) (phead None qs) qs" and f: "buf_freelist s = Some e"
    "l_next (buf_links s) e = phead None qs"
    using w by (auto simp: wait_rep_def stk_rep_def)
  show "stk_pop (buf_links s) (buf_freelist s) = (phead None qs, Some e)"
    using f by (simp add: stk_pop_def)
  have frame: "l_next (B ht) a = l_next (buf_links s) a"
    if "sl_rep (buf_links s) ht xs" "a \<noteq> e" "a \<notin> set xs" for ht xs a
    using that by (cases xs rule: rev_cases)
      (auto simp: B_def sl_insert_tail_def sl_rep_def Let_def)
  have put: "sl_rep (B ht) (Q ht) (xs @ [e])" if "sl_rep (buf_links s) ht xs" "e \<notin> set xs" for ht xs
    using sl_insert_tail_rep [OF that] by (simp add: B_def Q_def)
  have "sl_rep (B (inbuf_queue s)) (outbuf_queue s) outs" "stk_rep (B (inbuf_queue s)) (phead None qs) qs"
    using frame [OF i] e by (intro sl_rep_frame [OF o] stk_rep_frame [OF q]; fastforce)+
  with put [OF i e(1)] e show "wait_rep (s\<lparr>buf_freelist := phead None qs, delayed_buf := D,
      buf_links := B (inbuf_queue s), inbuf_queue := Q (inbuf_queue s)\<rparr>) (ins @ [e]) outs qs"
    by (auto simp: wait_rep_def)
  have "sl_rep (B (outbuf_queue s)) (inbuf_queue s) ins" "stk_rep (B (outbuf_queue s)) (phead None qs) qs"
    using frame [OF o] e by (intro sl_rep_frame [OF i] stk_rep_frame [OF q]; fastforce)+
  with put [OF o e(2)] e show "wait_rep (s\<lparr>buf_freelist := phead None qs, delayed_buf := D,
      buf_links := B (outbuf_queue s), outbuf_queue := Q (outbuf_queue s)\<rparr>) ins (outs @ [e]) qs"
    by (auto simp: wait_rep_def)
qed

section \<open>The operations keep the invariant\<close>

lemma pool_rep_cong:
  "pool_rep s fs \<Longrightarrow> bp_links s' = bp_links s \<Longrightarrow> bp_head s' = bp_head s \<Longrightarrow> pool s' = pool s \<Longrightarrow>
     bufs_allocated s' = bufs_allocated s \<Longrightarrow> pool_rep s' fs"
  by (simp add: pool_rep_def)

lemma zb_get_buf_inv:
  assumes "pool_inv s fs ins outs qs"
  shows "\<exists>b s' fs'. zb_get_buf d s = Some (b, s') \<and> pool_inv s' fs' ins outs qs
    \<and> (b = None \<longrightarrow> s' = s \<and> bufs_allocated s d = 8)
    \<and> (\<forall>x. b = Some x \<longrightarrow> x \<in> set fs \<and> fs = x # fs' \<and> s' = got d x s)"
proof -
  have rep: "pool_rep s fs" using assms by (simp add: pool_inv_def)
  show ?thesis
  proof (cases "fs \<noteq> [] \<and> bufs_allocated s d < 8")
    case True
    then obtain x xs where "fs = x # xs" by (cases fs) auto
    with True assms zb_get_buf_some [of s x xs d] pool_inv_got [of s x xs ins outs qs d]
    show ?thesis by (simp add: pool_inv_def)
  next
    case False
    then have "zb_get_buf d s = Some (None, s)" "bufs_allocated s d = 8"
      using zb_get_buf_none [OF rep, of d] no_free_limit [of s d] rep pool_rep_limit [OF rep, of d]
      by (cases fs; force)+
    with assms show ?thesis by auto
  qed
qed

text \<open>
  Asking for a buffer later: either the callback is scheduled with a buffer at once, or it
  is put at the end of the queue of its direction, or the pool of entries is empty.
\<close>

lemma zb_get_buf_delayed_inv:
  assumes inv: "pool_inv s fs ins outs qs"
  shows "\<exists>r s' fs' ins' outs' qs'. zb_get_buf_delayed f d s = Some (r, s')
    \<and> pool_inv s' fs' ins' outs' qs'
    \<and> (if bufs_allocated s d < 8 then fs \<noteq> [] \<and> fs' = tl fs \<and> ins' = ins \<and> outs' = outs \<and> qs' = qs
          \<and> bufs_allocated s' d = Suc (bufs_allocated s d)
          \<and> (if ring_is_full (cb_q s) then r = RET_OVERFLOW \<and> cb_q s' = cb_q s
             else r = RET_OK \<and> cb_q s' = ring_put (cb_q s) \<lparr>cb_func = f, cb_param = of_nat (hd fs)\<rparr>)
       else cb_q s' = cb_q s \<and> fs' = fs \<and> bufs_allocated s' = bufs_allocated s
          \<and> (if qs = [] then r = RET_ERROR \<and> s' = s
             else r = RET_OK \<and> qs' = tl qs \<and> delayed_buf s' (hd qs) = f
               \<and> (if d then ins' = ins @ [hd qs] \<and> outs' = outs else ins' = ins \<and> outs' = outs @ [hd qs])))"
proof -
  have rep: "pool_rep s fs" using inv by (simp add: pool_inv_def)
  show ?thesis
  proof (cases "bufs_allocated s d < 8")
    case True
    then have "fs \<noteq> []" using no_free_limit [of s d] rep by auto
    then obtain b fs' where fs: "fs = b # fs'" by (cases fs) auto
    have g: "zb_get_buf d s = Some (Some b, got d b s)" "pool_inv (got d b s) fs' ins outs qs"
      using zb_get_buf_some pool_inv_got True inv rep fs by blast+
    have b: "b < 16" using rep fs by (simp add: pool_rep_def)
    let ?e = "\<lparr>cb_func = f, cb_param = of_nat b\<rparr>"
    let ?r = "if ring_is_full (cb_q s) then RET_OVERFLOW else RET_OK"
    let ?s = "(got d b s)\<lparr>cb_q := if ring_is_full (cb_q s) then cb_q s else ring_put (cb_q s) ?e\<rparr>"
    have c: "cb_q (got d b s) = cb_q s" "bufs_allocated (got d b s) d = Suc (bufs_allocated s d)"
      by (simp_all add: got_def)
    have "zb_get_buf_delayed f d s = Some (?r, ?s)"
      using g(1) zb_schedule_callback_buf [OF b, of f "got d b s"]
      by (simp add: zb_get_buf_delayed_def c)
    moreover have "pool_inv ?s fs' ins outs qs"
      by (rule pool_inv_ring_put [OF g(2), of ?e, unfolded c(1)])
    moreover have "cb_q ?s = (if ring_is_full (cb_q s) then cb_q s else ring_put (cb_q s) ?e)"
      "bufs_allocated ?s d = Suc (bufs_allocated s d)" by (simp_all add: c)
    ultimately show ?thesis using True fs
      by (intro exI [of _ ?r] exI [of _ ?s] exI [of _ fs'] exI [of _ ins] exI [of _ outs] exI [of _ qs])
        (simp del: zb_sched.simps zb_pool.simps)
  next
    case False
    then have a: "bufs_allocated s d = 8" using pool_rep_limit [OF rep, of d] by simp
    have n: "zb_get_buf d s = Some (None, s)" using zb_get_buf_none [OF rep] False by simp
    show ?thesis
    proof (cases qs)
      case Nil
      then have "buf_freelist s = None" using inv by (simp add: pool_inv_def wait_rep_def)
      with False n Nil inv show ?thesis
        by (cases s) (auto simp: zb_get_buf_delayed_def stk_pop_def)
    next
      case (Cons e es)
      then have w: "wait_rep s ins outs (e # es)" using inv by (simp add: pool_inv_def)
      note put = wait_rep_put(1,2) [OF w, of "(delayed_buf s)(e := f)"] wait_rep_put(3) [OF w]
      have keep: "pool_rep s' fs \<and> ring_inv (cb_q s')"
        if "bp_links s' = bp_links s" "bp_head s' = bp_head s" "pool s' = pool s"
          "bufs_allocated s' = bufs_allocated s" "cb_q s' = cb_q s" for s' :: "('a, 'b) zb_pool_scheme"
        using that inv pool_rep_cong [of s fs s'] by (simp add: pool_inv_def)
      show ?thesis
      proof (cases d)
        case True
        let ?s = "s\<lparr>buf_freelist := phead None es, delayed_buf := (delayed_buf s)(e := f),
          buf_links := fst (sl_insert_tail (buf_links s) (inbuf_queue s) e),
          inbuf_queue := snd (sl_insert_tail (buf_links s) (inbuf_queue s) e)\<rparr>"
        have "zb_get_buf_delayed f d s = Some (RET_OK, ?s)"
          using n put(3) True by (simp add: zb_get_buf_delayed_def Let_def split_beta)
        moreover have "pool_inv ?s fs (ins @ [e]) outs es"
          using keep [of ?s] put(1) inv a True by (simp add: pool_inv_def waits_justified_def)
        ultimately show ?thesis using False Cons True by fastforce
      next
        case dF: False
        let ?s = "s\<lparr>buf_freelist := phead None es, delayed_buf := (delayed_buf s)(e := f),
          buf_links := fst (sl_insert_tail (buf_links s) (outbuf_queue s) e),
          outbuf_queue := snd (sl_insert_tail (buf_links s) (outbuf_queue s) e)\<rparr>"
        have "zb_get_buf_delayed f d s = Some (RET_OK, ?s)"
          using n put(3) dF by (simp add: zb_get_buf_delayed_def Let_def split_beta)
        moreover have "pool_inv ?s fs ins (outs @ [e]) es"
          using keep [of ?s] put(2) inv a dF by (simp add: pool_inv_def waits_justified_def)
        ultimately show ?thesis using False Cons dF by fastforce
      qed
    qed
  qed
qed

text \<open>Freeing: the buffer goes to the free list, or straight to the first callback that waits.\<close>

definition freed :: "(ptr \<Rightarrow> nat \<times> nat \<times> u8 \<times> u8) \<Rightarrow> nat \<Rightarrow> ('f, 'z) zb_pool_scheme \<Rightarrow> ('f, 'z) zb_pool_scheme" where
  "freed ov b s =
     (let is_in = is_in_buf (hdr (pool s ! b)) in
      s\<lparr>bufs_allocated := (bufs_allocated s)(is_in := bufs_allocated s is_in - 1),
        bp_links := set_next b (bp_head s) (bp_links s),
        pool := (pool s)[b := (pool s ! b)\<lparr>hdr := overlay (ov (bp_head s)) (hdr (pool s ! b))\<rparr>],
        bp_head := Some b\<rparr>)"

lemma overlay_dir [simp]: "is_in_buf (overlay w h) = is_in_buf h"
  by (simp add: overlay_def split: prod.split)

lemma freed_rep:
  assumes rep: "pool_rep s fs" and b: "b < 16" "b \<notin> set fs"
  defines "d \<equiv> is_in_buf (hdr (pool s ! b))"
  shows "pool_rep (freed ov b s) (b # fs)" "0 < bufs_allocated s d"
proof -
  have len: "length (pool s) = 16" using rep by (simp add: pool_rep_def)
  let ?p = "pool (freed ov b s)"
  have "in_use ?p (b # fs) e = in_use (pool s) fs e - {b}" for e
    using len b by (auto simp: in_use_def freed_def Let_def nth_list_update)
  moreover have mem: "b \<in> in_use (pool s) fs d" "\<And>e. e \<noteq> d \<Longrightarrow> b \<notin> in_use (pool s) fs e"
    using b by (auto simp: in_use_def d_def)
  ultimately have card: "card (in_use ?p (b # fs) e) = card (in_use (pool s) fs e) - (if e = d then 1 else 0)" for e
    by (cases "e = d") simp_all
  have "0 < card (in_use (pool s) fs d)" using mem(1) card_gt_0_iff finite_in_use by blast
  moreover have "card (in_use (pool s) fs d) = bufs_allocated s d" using rep by (simp add: pool_rep_def)
  ultimately show "0 < bufs_allocated s d" by linarith
  have "card (in_use ?p (b # fs) e) = bufs_allocated (freed ov b s) e
      \<and> bufs_allocated (freed ov b s) e \<le> ZB_BUFS_LIMIT" for e
  proof -
    have "bufs_allocated s e - 1 \<le> 8" using pool_rep_limit [OF rep, of e] by linarith
    moreover have "card (in_use (pool s) fs e) = bufs_allocated s e" using rep by (simp add: pool_rep_def)
    ultimately show ?thesis using card [of e] pool_rep_limit [OF rep, of e]
      by (cases "e = d") (simp_all add: freed_def Let_def d_def)
  qed
  with rep b show "pool_rep (freed ov b s) (b # fs)"
    by (auto simp: pool_rep_def freed_def Let_def stk_rep_def)
qed

lemma zb_free_buf_eq:
  assumes "pool_rep s fs" "b < 16" "b \<notin> set fs"
  shows "zb_free_buf ov b s =
    (let d = is_in_buf (hdr (pool s ! b)); (ent, s2) = cut_waiting d (freed ov b s)
     in case ent of None \<Rightarrow> Some s2 | Some e \<Rightarrow> serve_waiting e d s2)"
  unfolding zb_free_buf_def freed_def Let_def overlay_dir
  using pool_rep_used [OF assms(1)] freed_rep(2) [OF assms] by simp

text \<open>The queue of a direction, and the same state with another one.\<close>

definition waiting :: "bool \<Rightarrow> nat list \<Rightarrow> nat list \<Rightarrow> nat list" where
  "waiting d ins outs = (if d then ins else outs)"

lemma cut_waiting_none:
  assumes "wait_rep s ins outs qs" "waiting d ins outs = [] \<or> d \<and> rx_need_buf s"
  shows "cut_waiting d s = (None, s)"
  using assms
  by (cases s) (auto simp: cut_waiting_def wait_rep_def waiting_def sl_cut_head_def sl_rep_def)

lemma cut_waiting_some:
  assumes w: "wait_rep s ins outs qs" and d: "waiting d ins outs = e # es" "\<not> (d \<and> rx_need_buf s)"
  shows "\<exists>s2. cut_waiting d s = (Some e, s2)
    \<and> (\<exists>q q'. s2 = s\<lparr>inbuf_queue := q, outbuf_queue := q'\<rparr>
        \<and> sl_rep (buf_links s) q (if d then es else ins) \<and> sl_rep (buf_links s) q' (if d then outs else es))"
proof (cases d)
  case True
  then have "sl_rep (buf_links s) (inbuf_queue s) (e # es)" "sl_rep (buf_links s) (outbuf_queue s) outs"
    using w d by (simp_all add: wait_rep_def waiting_def)
  moreover from sl_cut_head_rep [OF this(1)] obtain q where
    "sl_cut_head (buf_links s) (inbuf_queue s) = (q, Some e)" "sl_rep (buf_links s) q es" by blast
  ultimately show ?thesis using True d
    by (intro exI [of _ "s\<lparr>inbuf_queue := q\<rparr>"] conjI exI [of _ q] exI [of _ "outbuf_queue s"])
      (simp_all add: cut_waiting_def)
next
  case False
  then have "sl_rep (buf_links s) (inbuf_queue s) ins" "sl_rep (buf_links s) (outbuf_queue s) (e # es)"
    using w d by (simp_all add: wait_rep_def waiting_def)
  moreover from sl_cut_head_rep [OF this(2)] obtain q where
    "sl_cut_head (buf_links s) (outbuf_queue s) = (q, Some e)" "sl_rep (buf_links s) q es" by blast
  ultimately show ?thesis using False d
    by (intro exI [of _ "s\<lparr>outbuf_queue := q\<rparr>"] conjI exI [of _ "inbuf_queue s"] exI [of _ q])
      (simp_all add: cut_waiting_def)
qed

lemma serve_waiting_inv:
  assumes rep: "pool_rep s (b # fs)" and lim: "bufs_allocated s d < 8" and ring: "ring_inv (cb_q s)"
    and links: "sl_rep (buf_links s) (inbuf_queue s) ins" "sl_rep (buf_links s) (outbuf_queue s) outs"
      "stk_rep (buf_links s) (buf_freelist s) qs"
    and dis: "set ins \<inter> set outs = {}" "set ins \<inter> set qs = {}" "set outs \<inter> set qs = {}"
      "insert e (set ins \<union> set outs \<union> set qs) = {..<ZB_BUF_Q_SIZE}"
      "e \<notin> set ins \<union> set outs \<union> set qs"
  shows "\<exists>s'. serve_waiting e d s = Some s' \<and> pool_rep s' fs \<and> wait_rep s' ins outs (e # qs)
    \<and> ring_inv (cb_q s') \<and> bufs_allocated s' = (bufs_allocated s)(d := Suc (bufs_allocated s d))
    \<and> rx_need_buf s' = rx_need_buf s
    \<and> cb_q s' = (if ring_is_full (cb_q s) then cb_q s
        else ring_put (cb_q s) \<lparr>cb_func = delayed_buf s e, cb_param = of_nat b\<rparr>)"
proof -
  have b: "b < 16" using rep by (simp add: pool_rep_def)
  let ?c = "\<lparr>cb_func = delayed_buf s e, cb_param = of_nat b\<rparr>"
  let ?q = "if ring_is_full (cb_q s) then cb_q s else ring_put (cb_q s) ?c"
  let ?s1 = "(got d b s)\<lparr>cb_q := ?q\<rparr>"
  obtain B fl where p: "stk_push (buf_links s) (buf_freelist s) e = (B, fl)" by fastforce
  let ?s2 = "?s1\<lparr>buf_links := B, buf_freelist := fl\<rparr>"
  have c: "cb_q (got d b s) = cb_q s" "delayed_buf (got d b s) = delayed_buf s"
    "buf_links (got d b s) = buf_links s" "buf_freelist (got d b s) = buf_freelist s"
    by (simp_all add: got_def)
  note g = zb_get_buf_some [OF rep lim]
  have "serve_waiting e d s = Some ?s2"
    using zb_schedule_callback_buf [OF b, of "delayed_buf s e" "got d b s"] p
    by (simp add: serve_waiting_def g(1) c)
  moreover have "pool_rep ?s2 fs" by (rule pool_rep_cong [OF g(2)]) simp_all
  moreover have "wait_rep ?s2 ins outs (e # qs)"
  proof -
    have B: "l_next B a = l_next (buf_links s) a" if "a \<noteq> e" for a
      using p that by (auto simp: stk_push_def)
    have "sl_rep B (inbuf_queue s) ins" "sl_rep B (outbuf_queue s) outs"
      using dis(5) B by (intro sl_rep_frame [OF links(1)] sl_rep_frame [OF links(2)]; fastforce)+
    moreover have "stk_rep B fl (e # qs)" using stk.push [OF links(3) _ p] dis(5) by simp
    ultimately show ?thesis using dis by (auto simp: wait_rep_def got_def)
  qed
  moreover have "ring_inv (cb_q ?s2)" using ring ring_put_list(1) [OF ring, of ?c] by simp
  moreover have "bufs_allocated ?s2 = (bufs_allocated s)(d := Suc (bufs_allocated s d))"
    "rx_need_buf ?s2 = rx_need_buf s" "cb_q ?s2 = ?q" by (simp_all add: got_def)
  ultimately show ?thesis by blast
qed

text \<open>
  \<open>zb_free_buf\<close> as a whole. When somebody waits, the number of buffers in use does not
  change: the buffer passes from its owner to the callback.
\<close>

lemma zb_free_buf_inv:
  assumes inv: "pool_inv s fs ins outs qs" and b: "b < 16" "b \<notin> set fs"
  defines "d \<equiv> is_in_buf (hdr (pool s ! b))"
  shows "\<exists>s' fs' ins' outs' qs'. zb_free_buf ov b s = Some s' \<and> pool_inv s' fs' ins' outs' qs'
    \<and> (if waiting d ins outs = [] \<or> d \<and> rx_need_buf s
       then fs' = b # fs \<and> ins' = ins \<and> outs' = outs \<and> qs' = qs \<and> cb_q s' = cb_q s
         \<and> bufs_allocated s' = (bufs_allocated s)(d := bufs_allocated s d - 1)
       else fs' = fs \<and> bufs_allocated s' = bufs_allocated s
         \<and> waiting d ins' outs' = tl (waiting d ins outs) \<and> waiting (\<not> d) ins' outs' = waiting (\<not> d) ins outs
         \<and> qs' = hd (waiting d ins outs) # qs
         \<and> cb_q s' = (if ring_is_full (cb_q s) then cb_q s
             else ring_put (cb_q s)
               \<lparr>cb_func = delayed_buf s (hd (waiting d ins outs)), cb_param = of_nat b\<rparr>))"
proof -
  have rep: "pool_rep s fs" and w: "wait_rep s ins outs qs" and j: "waits_justified s ins outs"
    and ring: "ring_inv (cb_q s)" using inv by (simp_all add: pool_inv_def)
  let ?f = "freed ov b s"
  have frep: "pool_rep ?f (b # fs)" and pos: "0 < bufs_allocated s d"
    using freed_rep [OF rep b] d_def by auto
  have fw: "wait_rep ?f ins outs qs" using w by (simp add: wait_rep_def freed_def Let_def)
  have fa: "bufs_allocated ?f = (bufs_allocated s)(d := bufs_allocated s d - 1)" "cb_q ?f = cb_q s"
    "rx_need_buf ?f = rx_need_buf s" "delayed_buf ?f = delayed_buf s" "buf_links ?f = buf_links s"
    "buf_freelist ?f = buf_freelist s"
    by (simp_all add: freed_def Let_def d_def)
  note eq = zb_free_buf_eq [OF rep b, of ov, folded d_def]
  show ?thesis
  proof (cases "waiting d ins outs = [] \<or> d \<and> rx_need_buf s")
    case True
    then have "cut_waiting d ?f = (None, ?f)" using cut_waiting_none [OF fw, of d] fa(3) by simp
    then have "zb_free_buf ov b s = Some ?f" by (simp add: eq)
    moreover have "pool_inv ?f (b # fs) ins outs qs"
      using frep fw ring j True by (cases d) (auto simp: pool_inv_def waits_justified_def waiting_def fa)
    ultimately show ?thesis using True fa(1,2) by auto
  next
    case False
    then obtain e es where es: "waiting d ins outs = e # es" by (cases "waiting d ins outs") auto
    let ?ins = "if d then es else ins" and ?outs = "if d then outs else es"
    obtain q q' where c: "cut_waiting d ?f = (Some e, ?f\<lparr>inbuf_queue := q, outbuf_queue := q'\<rparr>)"
      "sl_rep (buf_links ?f) q ?ins" "sl_rep (buf_links ?f) q' ?outs"
      using cut_waiting_some [OF fw es] False fa(3) by auto
    let ?g = "?f\<lparr>inbuf_queue := q, outbuf_queue := q'\<rparr>"
    have full: "bufs_allocated s d = 8"
      using j False es by (cases d) (auto simp: waits_justified_def waiting_def)
    have dis: "set ?ins \<inter> set ?outs = {}" "set ?ins \<inter> set qs = {}" "set ?outs \<inter> set qs = {}"
      "insert e (set ?ins \<union> set ?outs \<union> set qs) = {..<ZB_BUF_Q_SIZE}"
      "e \<notin> set ?ins \<union> set ?outs \<union> set qs"
      using w es by (cases d; auto simp: wait_rep_def waiting_def sl_rep_def)+
    have g: "cb_q ?g = cb_q s" "rx_need_buf ?g = rx_need_buf s" "delayed_buf ?g = delayed_buf s"
      "bufs_allocated ?g d < 8" "(bufs_allocated ?g)(d := Suc (bufs_allocated ?g d)) = bufs_allocated s"
      using pos full by (auto simp: fa)
    have "pool_rep ?g (b # fs)" by (rule pool_rep_cong [OF frep]) simp_all
    moreover have "ring_inv (cb_q ?g)" using ring by (simp add: fa)
    moreover have "sl_rep (buf_links ?g) (inbuf_queue ?g) ?ins" "sl_rep (buf_links ?g) (outbuf_queue ?g) ?outs"
      "stk_rep (buf_links ?g) (buf_freelist ?g) qs"
      using c(2,3) w by (simp_all add: fa wait_rep_def)
    ultimately obtain s' where s': "serve_waiting e d ?g = Some s'" "pool_rep s' fs" "wait_rep s' ?ins ?outs (e # qs)"
      "ring_inv (cb_q s')" "bufs_allocated s' = bufs_allocated s" "rx_need_buf s' = rx_need_buf s"
      "cb_q s' = (if ring_is_full (cb_q s) then cb_q s
        else ring_put (cb_q s) \<lparr>cb_func = delayed_buf s e, cb_param = of_nat b\<rparr>)"
      using serve_waiting_inv [OF _ g(4) _ _ _ _ dis] unfolding g(1,2,3,5) by blast
    have "zb_free_buf ov b s = Some s'" using s'(1) c(1) by (simp add: eq)
    moreover have "pool_inv s' fs ?ins ?outs (e # qs)"
      using s' j full es by (cases d) (auto simp: pool_inv_def waits_justified_def waiting_def)
    moreover have "waiting d ?ins ?outs = es" "waiting (\<not> d) ?ins ?outs = waiting (\<not> d) ins outs"
      by (simp_all add: waiting_def)
    ultimately show ?thesis using False es s'(5,7) by auto
  qed
qed

end
