(* ===== verification/Bufpool_Props.thy ===== *)
theory Bufpool_Props
  imports Bufpool_Alloc Scheduler_Props
begin

text \<open>
  What the packet pool promises: the data of a packet survives every change of its borders,
  buffers are never lost or given out twice, neither direction can take more than its half,
  and a callback waits only while its direction has no buffer. Two theorems describe where
  the code gives less than that.
\<close>

section \<open>Packet data\<close>

text \<open>
  A layer that puts a header of \<open>sz\<close> bytes in front of a packet and removes it again
  leaves the data as it was, also when the data had to be moved to make room; until then the
  data follows the header.
\<close>

theorem header_round_trip:
  assumes "buf_ok b" "sz + blen b < ZB_IO_BUF_SIZE"
  shows "\<exists>b1 b2. zb_buf_smart_alloc_left b sz = Some (b1, boff b1) \<and> buf_ok b1
    \<and> drop sz (payload b1) = payload b
    \<and> zb_buf_cut_left b1 sz = Some (b2, boff b2) \<and> buf_ok b2 \<and> payload b2 = payload b"
proof -
  obtain b1 where b1: "zb_buf_smart_alloc_left b sz = Some (b1, boff b1)" "buf_ok b1"
    "blen b1 = blen b + sz" "drop sz (payload b1) = payload b"
    using alloc_left_payload [OF assms] by blast
  moreover obtain b2 where "zb_buf_cut_left b1 sz = Some (b2, boff b2)" "buf_ok b2"
    "payload b2 = drop sz (payload b1)"
    using cut_left_payload [OF b1(2), of sz] b1(3) by auto
  ultimately show ?thesis by auto
qed

definition buf100 :: zb_buf where
  "buf100 = \<lparr>hdr = hdr_zero\<lparr>h_len := 100, data_offset := 20\<rparr>, bytes = map of_nat [0..<148]\<rparr>"

theorem header_round_trip_witness:
  "\<exists>b1 b2. zb_buf_smart_alloc_left buf100 40 = Some (b1, boff b1) \<and> buf_ok b1
     \<and> drop 40 (payload b1) = payload buf100
     \<and> zb_buf_cut_left b1 40 = Some (b2, boff b2) \<and> buf_ok b2 \<and> payload b2 = payload buf100"
  using header_round_trip [of buf100 40] by (simp add: buf_ok_def buf100_def ZB_IO_BUF_SIZE_def)

text \<open>
  Assigning a parameter keeps the packet data, moving it to the left when the tail is
  taken, and the parameter can be read back from the tail; it succeeds whenever both fit.
\<close>

theorem param_round_trip:
  assumes "buf_ok b" "blen b + length param \<le> ZB_IO_BUF_SIZE"
  shows "\<exists>b' t. zb_buf_assign_param b param = Some b' \<and> buf_ok b' \<and> payload b' = payload b
    \<and> zb_get_buf_tail b' (length param) = Some t
    \<and> take (length param) (drop t (bytes b')) = param"
  using assign_param_payload [OF assms] by fastforce

theorem param_round_trip_witness:
  "\<exists>b' t. zb_buf_assign_param buf100 (replicate 40 7) = Some b' \<and> buf_ok b'
     \<and> payload b' = payload buf100 \<and> zb_get_buf_tail b' 40 = Some t
     \<and> take 40 (drop t (bytes b')) = replicate 40 7"
  using param_round_trip [of buf100 "replicate 40 7"]
  by (simp add: buf_ok_def buf100_def ZB_IO_BUF_SIZE_def)

text \<open>
  zb_buf_smart_alloc_right moves nothing, keeps the data and gives the space right
  after it. Its assertion does not look at the offset of the data: the space lies inside of
  the buffer only if offset, length and size together are at most 148, and a buffer just
  allocated in the middle is accepted with a space that ends behind the buffer.
\<close>

theorem alloc_right_may_leave_the_buffer:
  assumes "buf_ok b" "sz + blen b < ZB_IO_BUF_SIZE"
  shows "\<exists>b'. zb_buf_smart_alloc_right b sz = Some (b', boff b + blen b)
    \<and> take (blen b) (payload b') = payload b
    \<and> (buf_ok b' \<longleftrightarrow> boff b + blen b + sz \<le> ZB_IO_BUF_SIZE)"
  using alloc_right_payload [OF assms] by blast

theorem alloc_right_may_leave_the_buffer_witness:
  "\<exists>b'. zb_buf_smart_alloc_right buf100 30 = Some (b', 120)
     \<and> take 100 (payload b') = payload buf100 \<and> \<not> buf_ok b'"
  using alloc_right_may_leave_the_buffer [of buf100 30]
  by (simp add: buf_ok_def buf100_def ZB_IO_BUF_SIZE_def)

section \<open>Histories of the pool\<close>

definition pool_boot :: "'f \<Rightarrow> 'f zb_pool" where
  "pool_boot f0 = zb_init_buffers (zb_sched.extend (zb_sched_init (sched_zero f0))
     (zb_pool.fields (replicate 16 \<lparr>hdr = hdr_zero, bytes = replicate ZB_IO_BUF_SIZE 0\<rparr>)
        links_zero None (\<lambda>_. 0) False))"

definition free_bufs :: "('f, 'z) zb_pool_scheme \<Rightarrow> nat list" where
  "free_bufs s = list_iterate 16 (bp_links s) (bp_head s)"

text \<open>
  What happens to the pool: a buffer is asked for, at once or later; a buffer in use is
  freed; the owner of a buffer changes it, but not its direction; the main loop takes a
  callback off its queue; the MAC notes that it needs a buffer.
\<close>

inductive pool_step ::
  "(ptr \<Rightarrow> nat \<times> nat \<times> u8 \<times> u8) \<Rightarrow> ('f, 'z) zb_pool_scheme \<Rightarrow> ('f, 'z) zb_pool_scheme \<Rightarrow> bool"
  for ov where
  step_get: "zb_get_buf d s = Some (p, s') \<Longrightarrow> pool_step ov s s'"
| step_delayed: "zb_get_buf_delayed f d s = Some (r, s') \<Longrightarrow> pool_step ov s s'"
| step_free: "b < 16 \<Longrightarrow> b \<notin> set (free_bufs s) \<Longrightarrow> zb_free_buf ov b s = Some s' \<Longrightarrow> pool_step ov s s'"
| step_write: "b < 16 \<Longrightarrow> b \<notin> set (free_bufs s) \<Longrightarrow> is_in_buf (hdr nb) = is_in_buf (hdr (pool s ! b)) \<Longrightarrow>
    pool_step ov s (s\<lparr>pool := (pool s)[b := nb]\<rparr>)"
| step_call: "ring_list (cb_q s) \<noteq> [] \<Longrightarrow> pool_step ov s (flush_cb s)"
| step_rx: "pool_step ov s (s\<lparr>rx_need_buf := True\<rparr>)"

inductive_cases pool_stepE: "pool_step ov s s'"

lemma free_bufs_rep:
  assumes "pool_rep s fs"
  shows "free_bufs s = fs"
proof -
  have r: "bp_head s = phead None fs" "nseg (l_next (bp_links s)) fs None" "length fs \<le> 16"
    using assms in_use_sum [OF assms] by (auto simp: pool_rep_def stk_rep_def)
  then show ?thesis using list_iterate_nseg [OF r(2,3)] by (simp add: free_bufs_def)
qed

lemma pool_inv_write:
  assumes "pool_inv s fs ins outs qs" "b < 16" "is_in_buf (hdr nb) = is_in_buf (hdr (pool s ! b))"
  shows "pool_inv (s\<lparr>pool := (pool s)[b := nb]\<rparr>) fs ins outs qs"
proof -
  have "in_use ((pool s)[b := nb]) fs d = in_use (pool s) fs d" for d
    using assms by (auto simp: in_use_def pool_inv_def pool_rep_def nth_list_update)
  with assms(1) show ?thesis
    by (simp add: pool_inv_def pool_rep_def wait_rep_def waits_justified_def)
qed

lemma pool_inv_rx: "pool_inv s fs ins outs qs \<Longrightarrow> pool_inv (s\<lparr>rx_need_buf := True\<rparr>) fs ins outs qs"
  by (simp add: pool_inv_def pool_rep_def wait_rep_def waits_justified_def)

lemma pool_step_inv:
  "pool_step ov s s' \<Longrightarrow> pool_inv s fs ins outs qs \<Longrightarrow> \<exists>fs ins outs qs. pool_inv s' fs ins outs qs"
proof (induction rule: pool_step.induct)
  case (step_get d s p s')
  then show ?case using zb_get_buf_inv [OF step_get.prems, of d] by fastforce
next
  case (step_delayed f d s r s')
  then show ?case using zb_get_buf_delayed_inv [OF step_delayed.prems, of f d] by fastforce
next
  case (step_free b s s')
  have "free_bufs s = fs" using step_free.prems free_bufs_rep by (auto simp: pool_inv_def)
  with step_free.hyps zb_free_buf_inv [OF step_free.prems, of b ov] show ?case by fastforce
next
  case (step_write b s nb)
  then show ?case using pool_inv_write [OF step_write.prems] by blast
next
  case (step_call s)
  then have "pool_inv (s\<lparr>cb_q := ring_flush_get (cb_q s)\<rparr>) fs ins outs qs"
    by (intro pool_inv_cb_q) (auto simp: pool_inv_def ring_flush_get_list)
  then show ?case by (auto simp: flush_cb_def)
next
  case (step_rx s)
  then show ?case using pool_inv_rx by blast
qed

lemma pool_steps_inv:
  "(pool_step ov)\<^sup>*\<^sup>* s s' \<Longrightarrow> pool_inv s fs ins outs qs \<Longrightarrow> \<exists>fs ins outs qs. pool_inv s' fs ins outs qs"
proof (induction rule: rtranclp_induct)
  case base
  then show ?case by blast
next
  case (step s' s'')
  then show ?case using pool_step_inv by blast
qed

lemma pool_boot_inv:
  "pool_inv (pool_boot f0) [0, 1, 2, 3, 4, 5, 6, 7, 8, 9, 10, 11, 12, 13, 14, 15] [] []
     [15, 14, 13, 12, 11, 10, 9, 8, 7, 6, 5, 4, 3, 2, 1, 0]"
proof -
  have q: "rev [0..<16] = [15, 14, 13, 12, 11, 10, 9, 8, 7, 6, 5, 4, 3, 2, 1, 0 :: nat]"
    by (simp add: upt_rec)
  obtain B bf where B: "stk_push_all links_zero None [0..<16] = (B, bf)" by fastforce
  have "stk_rep B bf (rev [0..<16])"
    using stk_push_all_rep [of links_zero None "[]" "[0..<16]" B bf] B by simp
  then have "wait_rep (pool_boot f0) [] [] (rev [0..<16])"
    using B
    by (auto simp: wait_rep_def pool_boot_def zb_init_buffers_def zb_sched_init_def sched_zero_def
        zb_pool.defs zb_sched.defs sl_rep_def split: prod.split)
  then have w: "wait_rep (pool_boot f0) [] [] [15, 14, 13, 12, 11, 10, 9, 8, 7, 6, 5, 4, 3, 2, 1, 0]"
    unfolding q .
  have n: "in_use p [0, 1, 2, 3, 4, 5, 6, 7, 8, 9, 10, 11, 12, 13, 14, 15] d = {}" for p d
    by (auto simp: in_use_def less_Suc_eq numeral_eq_Suc)
  have "pool_rep (pool_boot f0) [0, 1, 2, 3, 4, 5, 6, 7, 8, 9, 10, 11, 12, 13, 14, 15]"
    using n by (simp add: pool_rep_def pool_boot_def zb_init_buffers_def zb_sched_init_def
        sched_zero_def zb_pool.defs zb_sched.defs stk_rep_def upt_rec set_next_def split: prod.split)
  moreover have "ring_inv (cb_q (pool_boot f0))"
    by (simp add: pool_boot_def zb_init_buffers_def zb_sched_init_def sched_zero_def
        zb_pool.defs zb_sched.defs ZB_SCHEDULER_Q_SIZE_def split: prod.split)
  ultimately show ?thesis using w by (simp add: pool_inv_def waits_justified_def)
qed



lemma zb_free_buf_served:
  assumes inv: "pool_inv s fs ins outs qs" and b: "b < 16" "b \<notin> set fs"
    and d: "d = is_in_buf (hdr (pool s ! b))" and wait: "waiting d ins outs = e # es"
    and rx: "\<not> (d \<and> rx_need_buf s)"
  shows "\<exists>s' ins' outs'. zb_free_buf ov b s = Some s' \<and> pool_inv s' fs ins' outs' (e # qs)
    \<and> bufs_allocated s' = bufs_allocated s
    \<and> waiting d ins' outs' = es \<and> waiting (\<not> d) ins' outs' = waiting (\<not> d) ins outs
    \<and> cb_q s' = (if ring_is_full (cb_q s) then cb_q s
        else ring_put (cb_q s) \<lparr>cb_func = delayed_buf s e, cb_param = of_nat b\<rparr>)"
proof -
  have c: "(e # es = [] \<or> d \<and> rx_need_buf s) = False" using rx by simp
  show ?thesis
    using zb_free_buf_inv [OF inv b, of ov] unfolding d [symmetric] wait list.sel c if_False by blast
qed

text \<open>
  While callbacks wait for a direction (and the MAC has not claimed the next input
  buffer), freeing one of its buffers hands exactly this buffer to the callback that has
  waited longest, and no other queue changes; the entry of the waiting callback becomes free.
\<close>

theorem freed_buffer_goes_to_first_waiting:
  assumes inv: "pool_inv s fs ins outs qs" and b: "b < 16" "b \<notin> set fs"
    and wait: "waiting (is_in_buf (hdr (pool s ! b))) ins outs = e # es"
    and "\<not> (is_in_buf (hdr (pool s ! b)) \<and> rx_need_buf s)" "\<not> ring_is_full (cb_q s)"
  shows "\<exists>s' ins' outs'. zb_free_buf ov b s = Some s' \<and> pool_inv s' fs ins' outs' (e # qs)
    \<and> ring_list (cb_q s') = ring_list (cb_q s) @ [\<lparr>cb_func = delayed_buf s e, cb_param = of_nat b\<rparr>]
    \<and> waiting (is_in_buf (hdr (pool s ! b))) ins' outs' = es
    \<and> waiting (\<not> is_in_buf (hdr (pool s ! b))) ins' outs' = waiting (\<not> is_in_buf (hdr (pool s ! b))) ins outs"
proof -
  have "ring_inv (cb_q s)" using inv by (simp add: pool_inv_def)
  from ring_put_list(2) [OF this assms(6)] zb_free_buf_served [OF inv b refl wait assms(5), of ov]
  show ?thesis unfolding if_not_P [OF assms(6)] by metis
qed

text \<open>
  The result of scheduling that callback is ignored. When the queue of callbacks is
  full, freeing a buffer for which a callback waits loses both: the callback is in no queue
  any more and the buffer stays counted as in use, with nobody to free it. Likewise
  asking for a buffer with a full queue returns RET_OVERFLOW and keeps the buffer.
\<close>

theorem full_queue_leaks_buffers:
  assumes inv: "pool_inv s fs ins outs qs" and full: "ring_is_full (cb_q s)"
    and b: "b < 16" "b \<notin> set fs" and wait: "waiting (is_in_buf (hdr (pool s ! b))) ins outs = e # es"
    and rx: "\<not> (is_in_buf (hdr (pool s ! b)) \<and> rx_need_buf s)"
  shows "(\<exists>s' ins' outs'. zb_free_buf ov b s = Some s' \<and> pool_inv s' fs ins' outs' (e # qs)
        \<and> cb_q s' = cb_q s \<and> bufs_allocated s' = bufs_allocated s
        \<and> waiting (is_in_buf (hdr (pool s ! b))) ins' outs' = es)
    \<and> (\<forall>f d. bufs_allocated s d < 8 \<longrightarrow>
        (\<exists>s'. zb_get_buf_delayed f d s = Some (RET_OVERFLOW, s') \<and> cb_q s' = cb_q s
          \<and> bufs_allocated s' d = Suc (bufs_allocated s d)))"
proof (intro conjI allI impI)
  show "\<exists>s' ins' outs'. zb_free_buf ov b s = Some s' \<and> pool_inv s' fs ins' outs' (e # qs)
      \<and> cb_q s' = cb_q s \<and> bufs_allocated s' = bufs_allocated s
      \<and> waiting (is_in_buf (hdr (pool s ! b))) ins' outs' = es"
    using zb_free_buf_served [OF inv b refl wait rx, of ov] full by auto
  show "\<exists>s'. zb_get_buf_delayed f d s = Some (RET_OVERFLOW, s') \<and> cb_q s' = cb_q s
      \<and> bufs_allocated s' d = Suc (bufs_allocated s d)" if "bufs_allocated s d < 8" for f d
    using zb_get_buf_delayed_inv [OF inv, of f d] full that by auto
qed

text \<open>A state in which all output buffers are in use and one callback waits.\<close>

lemma got_sel [simp]:
  "bufs_allocated (got d b s) = (bufs_allocated s)(d := Suc (bufs_allocated s d))"
  "cb_q (got d b s) = cb_q s" "rx_need_buf (got d b s) = rx_need_buf s"
  by (simp_all add: got_def)

lemma pool_boot_sel [simp]:
  "bufs_allocated (pool_boot f0) = (\<lambda>_. 0)" "cb_q (pool_boot f0) = ring_zero 16 f0"
  by (simp_all add: pool_boot_def zb_init_buffers_def zb_sched_init_def sched_zero_def
      zb_pool.defs zb_sched.defs ZB_SCHEDULER_Q_SIZE_def split: prod.split)

lemma pool_busy:
  "\<exists>(s :: nat zb_pool) b. pool_inv s [8, 9, 10, 11, 12, 13, 14, 15] [] [15]
      [14, 13, 12, 11, 10, 9, 8, 7, 6, 5, 4, 3, 2, 1, 0]
    \<and> cb_q s = ring_zero 16 0 \<and> delayed_buf s 15 = 7
    \<and> b < 16 \<and> b \<notin> set [8, 9, 10, 11, 12, 13, 14, 15] \<and> \<not> is_in_buf (hdr (pool s ! b))"
proof -
  let ?s8 = "got False 7 (got False 6 (got False 5 (got False 4 (got False 3 (got False 2
      (got False 1 (got False 0 (pool_boot (0 :: nat)))))))))"
  have i8: "pool_inv ?s8 [8, 9, 10, 11, 12, 13, 14, 15] [] []
      [15, 14, 13, 12, 11, 10, 9, 8, 7, 6, 5, 4, 3, 2, 1, 0]"
    by (intro pool_inv_got, rule pool_boot_inv) simp_all
  have c: "bufs_allocated ?s8 False = 8" "cb_q ?s8 = ring_zero 16 0" by simp_all
  obtain r and s9 :: "nat zb_pool" where
    i9: "pool_inv s9 [8, 9, 10, 11, 12, 13, 14, 15] [] [15] [14, 13, 12, 11, 10, 9, 8, 7, 6, 5, 4, 3, 2, 1, 0]"
      "cb_q s9 = ring_zero 16 0" "delayed_buf s9 15 = 7" "bufs_allocated s9 False = 8"
    using zb_get_buf_delayed_inv [OF i8, of 7 False] unfolding c by auto
  then have "card (in_use (pool s9) [8, 9, 10, 11, 12, 13, 14, 15] False) = 8"
    by (simp add: pool_inv_def pool_rep_def)
  then obtain b where "b \<in> in_use (pool s9) [8, 9, 10, 11, 12, 13, 14, 15] False" by fastforce
  with i9 show ?thesis by (auto simp: in_use_def)
qed

theorem freed_buffer_goes_to_first_waiting_witness:
  "\<exists>(s :: nat zb_pool) s' b. zb_free_buf (\<lambda>_. (0, 0, 0, 0)) b s = Some s'
     \<and> ring_list (cb_q s') = [\<lparr>cb_func = 7, cb_param = of_nat b\<rparr>]"
proof -
  obtain s :: "nat zb_pool" and b where s: "pool_inv s [8, 9, 10, 11, 12, 13, 14, 15] [] [15]
      [14, 13, 12, 11, 10, 9, 8, 7, 6, 5, 4, 3, 2, 1, 0]" "cb_q s = ring_zero 16 0"
    "delayed_buf s 15 = 7" "b < 16" "b \<notin> set [8, 9, 10, 11, 12, 13, 14, 15]"
    "\<not> is_in_buf (hdr (pool s ! b))" using pool_busy by blast
  have "\<not> ring_is_full (cb_q s)" by (simp add: s(2) ring_zero_def ring_defs)
  from freed_buffer_goes_to_first_waiting [OF s(1,4,5) _ _ this, of 15 "[]" "\<lambda>_. (0, 0, 0, 0)"] s(2,3,6)
  show ?thesis by (auto simp: waiting_def)
qed

theorem full_queue_leaks_buffers_witness:
  "\<exists>(s :: nat zb_pool) s' b ins outs. pool_inv s [8, 9, 10, 11, 12, 13, 14, 15] [] [15]
       [14, 13, 12, 11, 10, 9, 8, 7, 6, 5, 4, 3, 2, 1, 0]
     \<and> zb_free_buf (\<lambda>_. (0, 0, 0, 0)) b s = Some s'
     \<and> pool_inv s' [8, 9, 10, 11, 12, 13, 14, 15] ins outs [15, 14, 13, 12, 11, 10, 9, 8, 7, 6, 5, 4, 3, 2, 1, 0]
     \<and> cb_q s' = cb_q s \<and> bufs_allocated s' = bufs_allocated s"
proof -
  obtain s :: "nat zb_pool" and b where s: "pool_inv s [8, 9, 10, 11, 12, 13, 14, 15] [] [15]
      [14, 13, 12, 11, 10, 9, 8, 7, 6, 5, 4, 3, 2, 1, 0]"
    "b < 16" "b \<notin> set [8, 9, 10, 11, 12, 13, 14, 15]" "\<not> is_in_buf (hdr (pool s ! b))"
    using pool_busy by blast
  let ?r = "\<lparr>ring_buf = replicate 16 \<lparr>cb_func = 0, cb_param = 0\<rparr>, read_i = 0, write_i = 0, written = 16\<rparr>"
  let ?s = "s\<lparr>cb_q := ?r\<rparr>"
  have inv: "pool_inv ?s [8, 9, 10, 11, 12, 13, 14, 15] [] [15] [14, 13, 12, 11, 10, 9, 8, 7, 6, 5, 4, 3, 2, 1, 0]"
    by (rule pool_inv_cb_q [OF s(1)]) (simp add: ring_inv_def ring_capacity_def)
  have full: "ring_is_full (cb_q ?s)" by (simp add: ring_defs)
  have "waiting (is_in_buf (hdr (pool ?s ! b))) [] [15] = 15 # []"
    "\<not> (is_in_buf (hdr (pool ?s ! b)) \<and> rx_need_buf ?s)" using s(4) by (simp_all add: waiting_def)
  from full_queue_leaks_buffers [OF inv full s(2,3) this, of "\<lambda>_. (0, 0, 0, 0)"] inv
  show ?thesis by blast
qed

end
