(* ===== verification/Address.thy ===== *)
theory Address
  imports Prelude
begin

text \<open>
  The address translation of the stack: \<^verbatim>\<open>common/zb_address.c\<close>,
  \<^verbatim>\<open>include/zb_address.h\<close>, \<^verbatim>\<open>include/zb_addr_globals.h\<close> and \<^verbatim>\<open>include/zb_hash.h\<close>.
  Protocol tables refer to a device by the index of its entry in \<^verbatim>\<open>addr_map\<close>, an
  open-addressing hash by long address; \<^verbatim>\<open>short_sorted\<close> holds the references in the order
  of their short addresses for binary search. Long addresses are kept compressed, with the
  first three bytes in a table of manufacturers. References and counters are \<open>nat\<close>; the
  output parameter \<^verbatim>\<open>ref_p\<close> is an option, \<open>None\<close> where the code does not set it.
\<close>

section \<open>Tables\<close>

definition ZB_IEEE_ADDR_TABLE_SIZE :: nat where "ZB_IEEE_ADDR_TABLE_SIZE = 101"
definition ZB_PANID_TABLE_SIZE :: nat where "ZB_PANID_TABLE_SIZE = 8"
definition ZB_DEV_MANUFACTORER_TABLE_SIZE :: nat where "ZB_DEV_MANUFACTORER_TABLE_SIZE = 16"
definition ZB_UNKNOWN_SHORT_ADDR :: u16 where "ZB_UNKNOWN_SHORT_ADDR = 0xFFFF"

type_synonym ieee = "u8 list"

record zb_ieee_addr_compressed =
  man_ref :: nat
  device_id :: "u8 list"

record zb_address_map =
  am_ieee :: zb_ieee_addr_compressed
  am_addr :: u16
  aps_dup_counter :: u8
  am_used :: bool
  lock_cnt :: nat
  am_clock :: bool
  aps_dup_clock :: nat

record zb_pan_id_map =
  long_panid :: "u8 list"
  short_panid :: u16

text \<open>
  \<^verbatim>\<open>zb_addr_globals_t\<close>. \<open>sorted_next\<close> is the byte that follows the array
  \<^verbatim>\<open>short_sorted\<close> in memory.
\<close>

record zb_addr_globals =
  used_manufacturer :: "u8 list"
  dev_manufacturer :: "u8 list list"
  pan_map :: "zb_pan_id_map list"
  used_pan_addr :: "u8 list"
  addr_map :: "zb_address_map list"
  short_sorted :: "nat list"
  sorted_next :: nat
  n_elements :: nat
  n_sorted_elements :: nat
  clock_i :: nat

definition upd_ent :: "nat \<Rightarrow> (zb_address_map \<Rightarrow> zb_address_map) \<Rightarrow> zb_addr_globals \<Rightarrow> zb_addr_globals" where
  "upd_ent i f g = g\<lparr>addr_map := (addr_map g)[i := f (addr_map g ! i)]\<rparr>"

section \<open>Bit vectors and hashes\<close>

definition check_bit :: "u8 list \<Rightarrow> nat \<Rightarrow> bool" where
  "check_bit v b \<longleftrightarrow> (v ! (b div 8)) AND push_bit (b mod 8) 1 \<noteq> 0"

definition set_bit_vec :: "u8 list \<Rightarrow> nat \<Rightarrow> u8 list" where
  "set_bit_vec v b = v[b div 8 := (v ! (b div 8)) OR push_bit (b mod 8) 1]"

definition clr_bit_vec :: "u8 list \<Rightarrow> nat \<Rightarrow> u8 list" where
  "clr_bit_vec v b = v[b div 8 := (v ! (b div 8)) AND NOT (push_bit (b mod 8) 1)]"

definition magic_bitcount8 :: "u8 \<Rightarrow> u8" where
  "magic_bitcount8 b =
     (let b1 = (b AND 0x55) + (drop_bit 1 b AND 0x55);
          b2 = (b1 AND 0x33) + (drop_bit 2 b1 AND 0x33)
      in (b2 AND 0x0f) + (drop_bit 4 b2 AND 0x0f))"

definition hash_step :: "u32 \<Rightarrow> u32 \<Rightarrow> u32" where
  "hash_step h v = push_bit 5 h + h + v"

definition hash_4int :: "u32 \<Rightarrow> u32 \<Rightarrow> u32 \<Rightarrow> u32 \<Rightarrow> u32" where
  "hash_4int a b c d =
     hash_step (hash_step (hash_step (hash_step 5381 a) b) c) d AND 0x7fffffff"

definition pan_id_hash :: "u8 list \<Rightarrow> nat" where
  "pan_id_hash p =
     unat (hash_4int (ucast (p ! 0)) (ucast (p ! 2)) (ucast (p ! 4)) (ucast (p ! 6)))
       mod ZB_PANID_TABLE_SIZE"

definition zb_address_compressed_ieee_hash :: "zb_ieee_addr_compressed \<Rightarrow> nat" where
  "zb_address_compressed_ieee_hash c =
     (let d = device_id c in
      unat (hash_4int (ucast (d ! 0)) (ucast (d ! 2)) (ucast (d ! 3)) (ucast (d ! 4)))
        mod ZB_IEEE_ADDR_TABLE_SIZE)"

text \<open>The indices that a cyclic scan of a table of \<open>n\<close> entries from \<open>h\<close> visits, in order.\<close>

definition probe :: "nat \<Rightarrow> nat \<Rightarrow> nat list" where
  "probe n h = map (\<lambda>k. (h + k) mod n) [0..<n]"

section \<open>Extended PAN IDs\<close>

text \<open>The scan of \<^verbatim>\<open>zb_address_set_pan_id\<close>: the match, or the last free index it saw.\<close>

fun pan_scan :: "zb_addr_globals \<Rightarrow> u8 list \<Rightarrow> nat list \<Rightarrow> nat option \<Rightarrow> nat option \<times> nat option" where
  "pan_scan g p [] fr = (None, fr)"
| "pan_scan g p (i # is) fr =
     (if check_bit (used_pan_addr g) i then
        (if long_panid (pan_map g ! i) = p then (Some i, fr) else pan_scan g p is fr)
      else pan_scan g p is (Some i))"

definition zb_address_set_pan_id ::
  "u16 \<Rightarrow> u8 list \<Rightarrow> zb_addr_globals \<Rightarrow> zb_ret \<times> nat option \<times> zb_addr_globals" where
  "zb_address_set_pan_id short_pan_id p g =
     (case pan_scan g p (probe ZB_PANID_TABLE_SIZE (pan_id_hash p)) None of
        (Some i, _) \<Rightarrow> (RET_ALREADY_EXISTS, Some i, g)
      | (None, Some f) \<Rightarrow>
          (RET_OK, Some f,
           g\<lparr>pan_map := (pan_map g)[f := \<lparr>long_panid = p, short_panid = short_pan_id\<rparr>],
             used_pan_addr := set_bit_vec (used_pan_addr g) f\<rparr>)
      | (None, None) \<Rightarrow> (RET_OVERFLOW, None, g))"

definition pan_ref_ok :: "nat \<Rightarrow> zb_addr_globals \<Rightarrow> bool" where
  "pan_ref_ok r g \<longleftrightarrow> r < ZB_PANID_TABLE_SIZE \<and> check_bit (used_pan_addr g) r"

definition zb_address_get_pan_id :: "nat \<Rightarrow> zb_addr_globals \<Rightarrow> u8 list option" where
  "zb_address_get_pan_id r g = (if pan_ref_ok r g then Some (long_panid (pan_map g ! r)) else None)"

definition zb_address_get_short_pan_id :: "nat \<Rightarrow> zb_addr_globals \<Rightarrow> u16 option" where
  "zb_address_get_short_pan_id r g = (if pan_ref_ok r g then Some (short_panid (pan_map g ! r)) else None)"

definition zb_address_cmp_pan_id_by_ref :: "nat \<Rightarrow> u8 list \<Rightarrow> zb_addr_globals \<Rightarrow> bool option" where
  "zb_address_cmp_pan_id_by_ref r p g =
     (if pan_ref_ok r g then Some (p = long_panid (pan_map g ! r)) else None)"

definition zb_address_get_pan_id_ref :: "u8 list \<Rightarrow> zb_addr_globals \<Rightarrow> zb_ret \<times> nat option" where
  "zb_address_get_pan_id_ref p g =
     (case find (\<lambda>i. check_bit (used_pan_addr g) i \<and> long_panid (pan_map g ! i) = p)
             (probe ZB_PANID_TABLE_SIZE (pan_id_hash p)) of
        Some i \<Rightarrow> (RET_OK, Some i)
      | None \<Rightarrow> (RET_NOT_FOUND, None))"

section \<open>Compressed long addresses\<close>

fun man_scan :: "zb_addr_globals \<Rightarrow> ieee \<Rightarrow> nat list \<Rightarrow> nat option \<Rightarrow> nat option" where
  "man_scan g a [] fr = fr"
| "man_scan g a (i # is) fr =
     (if check_bit (used_manufacturer g) i then
        (if dev_manufacturer g ! i = take 3 a then Some i else man_scan g a is fr)
      else man_scan g a is (Some i))"

definition zb_ieee_addr_compress ::
  "ieee \<Rightarrow> zb_addr_globals \<Rightarrow> (zb_ieee_addr_compressed \<times> zb_addr_globals) option" where
  "zb_ieee_addr_compress a g =
     (case man_scan g a [0..<ZB_DEV_MANUFACTORER_TABLE_SIZE] None of
        None \<Rightarrow> None
      | Some i \<Rightarrow>
          Some (\<lparr>man_ref = i, device_id = take 5 (drop 3 a)\<rparr>,
                g\<lparr>used_manufacturer := set_bit_vec (used_manufacturer g) i,
                  dev_manufacturer := (dev_manufacturer g)[i := take 3 a]\<rparr>))"

definition zb_ieee_addr_decompress :: "zb_ieee_addr_compressed \<Rightarrow> zb_addr_globals \<Rightarrow> ieee" where
  "zb_ieee_addr_decompress c g = take 3 (dev_manufacturer g ! man_ref c) @ take 5 (device_id c)"

definition zb_address_compressed_cmp :: "zb_ieee_addr_compressed \<Rightarrow> zb_ieee_addr_compressed \<Rightarrow> bool" where
  "zb_address_compressed_cmp x y \<longleftrightarrow> man_ref x = man_ref y \<and> take 5 (device_id x) = take 5 (device_id y)"

section \<open>Searching\<close>

definition ieee_search :: "zb_ieee_addr_compressed \<Rightarrow> zb_addr_globals \<Rightarrow> nat option" where
  "ieee_search c g =
     find (\<lambda>i. am_used (addr_map g ! i) \<and> zb_address_compressed_cmp (am_ieee (addr_map g ! i)) c)
       (probe ZB_IEEE_ADDR_TABLE_SIZE (zb_address_compressed_ieee_hash c))"

definition sorted_addr :: "zb_addr_globals \<Rightarrow> nat \<Rightarrow> u16" where
  "sorted_addr g i = am_addr (addr_map g ! (short_sorted g ! i))"

text \<open>The two binary searches; the first one stops at an equal address, the second after it.\<close>

function search_lower :: "zb_addr_globals \<Rightarrow> u16 \<Rightarrow> nat \<Rightarrow> nat \<Rightarrow> nat" where
  "search_lower g a l r =
     (if l < r then
        (let i = l + (r - l) div 2 in
         if a > sorted_addr g i then search_lower g a (i + 1) r else search_lower g a l i)
      else l)"
  by pat_completeness auto
termination by (relation "measure (\<lambda>(g, a, l, r). r - l)") auto

function search_upper :: "zb_addr_globals \<Rightarrow> u16 \<Rightarrow> nat \<Rightarrow> nat \<Rightarrow> nat" where
  "search_upper g a l r =
     (if l < r then
        (let i = l + (r - l) div 2 in
         if a \<ge> sorted_addr g i then search_upper g a (i + 1) r else search_upper g a l i)
      else l)"
  by pat_completeness auto
termination by (relation "measure (\<lambda>(g, a, l, r). r - l)") auto

declare search_lower.simps [simp del] search_upper.simps [simp del]

definition short_search :: "u16 \<Rightarrow> zb_addr_globals \<Rightarrow> nat option" where
  "short_search a g =
     (let n = n_sorted_elements g; l = (if n > 1 then search_lower g a 0 n else 0) in
      if n > 0 \<and> l < n \<and> a = sorted_addr g l then Some (short_sorted g ! l) else None)"

section \<open>The sorted array\<close>

definition add_short_sorted :: "nat \<Rightarrow> u16 \<Rightarrow> zb_addr_globals \<Rightarrow> zb_addr_globals" where
  "add_short_sorted ref a g =
     (let n = n_sorted_elements g;
          l = (if n > 1 then search_upper g a 0 n else 0);
          l = (if n > 0 \<and> l < n \<and> a > sorted_addr g l then l + 1 else l);
          s = (if l < n then memmove (l + 1) l (n - l) (short_sorted g) else short_sorted g)
      in g\<lparr>short_sorted := s[l := ref], n_sorted_elements := n + 1\<rparr>)"

text \<open>
  Deleting moves \<open>n - i\<close> elements down by one: the element behind the last one (of the
  array or behind it) comes along.
\<close>

function del_scan :: "nat \<Rightarrow> nat \<Rightarrow> nat \<Rightarrow> nat \<Rightarrow> nat list \<Rightarrow> nat list \<times> nat" where
  "del_scan ref n i dec s =
     (if i < n then
        (if s ! i = ref then
           (let s' = (if i \<noteq> n - 1 then memmove i (i + 1) (n - i) s else s)
            in del_scan ref n (i + 1) (dec + 1) s')
         else del_scan ref n (i + 1) dec s)
      else (s, dec))"
  by pat_completeness auto
termination by (relation "measure (\<lambda>(ref, n, i, dec, s). n - i)") auto

declare del_scan.simps [simp del]

definition del_short_sorted :: "nat \<Rightarrow> zb_addr_globals \<Rightarrow> zb_addr_globals" where
  "del_short_sorted ref g =
     (let (s, dec) = del_scan ref (n_sorted_elements g) 0 0 (short_sorted g @ [sorted_next g])
      in g\<lparr>short_sorted := butlast s, n_sorted_elements := n_sorted_elements g - dec\<rparr>)"

section \<open>The clock\<close>

text \<open>
  One of the two loops of \<^verbatim>\<open>clock_tick\<close>: up to \<open>lim\<close>, from \<open>ci\<close>, while fewer than \<open>n\<close>
  used entries were seen.
\<close>

function clock_scan ::
  "nat \<Rightarrow> nat \<Rightarrow> nat \<Rightarrow> nat \<Rightarrow> zb_address_map list \<Rightarrow> nat \<times> nat \<times> bool \<times> zb_address_map list" where
  "clock_scan lim n ci cnt m =
     (if ci < lim \<and> cnt < n then
        (if am_used (m ! ci) then
           (if lock_cnt (m ! ci) = 0 then (ci + 1, cnt + 1, True, m[ci := (m ! ci)\<lparr>am_clock := False\<rparr>])
            else clock_scan lim n (ci + 1) (cnt + 1) m)
         else clock_scan lim n (ci + 1) cnt m)
      else (ci, cnt, False, m))"
  by pat_completeness auto
termination by (relation "measure (\<lambda>(lim, n, ci, cnt, m). lim - ci)") auto

declare clock_scan.simps [simp del]

definition clock_tick :: "zb_addr_globals \<Rightarrow> zb_addr_globals" where
  "clock_tick g =
     (let n = n_elements g; limit = clock_i g;
          (ci, cnt, found, m) = clock_scan ZB_IEEE_ADDR_TABLE_SIZE n (clock_i g) 0 (addr_map g)
      in if \<not> found \<and> cnt < n then
           (let (ci2, _, _, m2) = clock_scan limit n 0 cnt m in g\<lparr>clock_i := ci2, addr_map := m2\<rparr>)
         else g\<lparr>clock_i := ci, addr_map := m\<rparr>)"

section \<open>Adding, deleting, locking\<close>

definition zero_compressed :: zb_ieee_addr_compressed where
  "zero_compressed = \<lparr>man_ref = 0, device_id = [0, 0, 0, 0, 0]\<rparr>"

definition addr_add ::
  "zb_ieee_addr_compressed option \<Rightarrow> u16 \<Rightarrow> zb_addr_globals \<Rightarrow> zb_ret \<times> nat option \<times> zb_addr_globals" where
  "addr_add ieee a g =
     (let h = (case ieee of Some c \<Rightarrow> zb_address_compressed_ieee_hash c | None \<Rightarrow> 0) in
      case find (\<lambda>i. \<not> am_used (addr_map g ! i)) (probe ZB_IEEE_ADDR_TABLE_SIZE h) of
        None \<Rightarrow> (RET_OVERFLOW, None, g)
      | Some i \<Rightarrow>
          (let g1 = clock_tick g;
               g2 = upd_ent i (\<lambda>e. e\<lparr>am_addr := a, am_clock := True,
                      am_ieee := (case ieee of Some c \<Rightarrow> c | None \<Rightarrow> zero_compressed)\<rparr>) g1;
               g3 = (if a \<noteq> ZB_UNKNOWN_SHORT_ADDR then
                       (let g' = (if am_used (addr_map g2 ! i) then del_short_sorted i g2 else g2)
                        in add_short_sorted i a g')
                     else g2);
               g4 = (if \<not> am_used (addr_map g3 ! i) then g3\<lparr>n_elements := n_elements g3 + 1\<rparr> else g3)
           in (RET_OK, Some i, upd_ent i (\<lambda>e. e\<lparr>am_used := True\<rparr>) g4)))"

definition zb_address_delete :: "nat \<Rightarrow> zb_addr_globals \<Rightarrow> zb_addr_globals" where
  "zb_address_delete ref g =
     (let g1 = upd_ent ref (\<lambda>e. e\<lparr>am_used := False\<rparr>) (del_short_sorted ref g)
      in g1\<lparr>n_elements := ushort_dec (n_elements g1)\<rparr>)"

text \<open>The lock counter has four bits; the assertion detects the overflow.\<close>

definition zb_address_lock :: "nat \<Rightarrow> zb_addr_globals \<Rightarrow> zb_addr_globals option" where
  "zb_address_lock ref g =
     (let g1 = upd_ent ref (\<lambda>e. e\<lparr>lock_cnt := (lock_cnt e + 1) mod 16\<rparr>) g in
      if lock_cnt (addr_map g1 ! ref) \<noteq> 0 then Some (upd_ent ref (\<lambda>e. e\<lparr>am_clock := True\<rparr>) g1)
      else None)"

definition zb_address_unlock :: "nat \<Rightarrow> zb_addr_globals \<Rightarrow> zb_addr_globals option" where
  "zb_address_unlock ref g =
     (if lock_cnt (addr_map g ! ref) \<noteq> 0
      then Some (upd_ent ref (\<lambda>e. e\<lparr>lock_cnt := lock_cnt e - 1\<rparr>) g) else None)"

definition lock_if ::
  "bool \<Rightarrow> zb_ret \<times> nat option \<times> zb_addr_globals \<Rightarrow> (zb_ret \<times> nat option \<times> zb_addr_globals) option" where
  "lock_if lck r =
     (case r of (ret, ref, g) \<Rightarrow>
        if lck \<and> ret = RET_OK then map_option (\<lambda>g'. (ret, ref, g')) (zb_address_lock (the ref) g)
        else Some r)"

section \<open>The interface\<close>

definition set_clock :: "nat \<Rightarrow> zb_addr_globals \<Rightarrow> zb_addr_globals" where
  "set_clock ref g = upd_ent ref (\<lambda>e. e\<lparr>am_clock := True\<rparr>) g"

definition zb_address_by_ieee ::
  "ieee \<Rightarrow> bool \<Rightarrow> bool \<Rightarrow> zb_addr_globals \<Rightarrow> (zb_ret \<times> nat option \<times> zb_addr_globals) option" where
  "zb_address_by_ieee a create lck g =
     (case zb_ieee_addr_compress a g of
        None \<Rightarrow> None
      | Some (c, g1) \<Rightarrow>
          lock_if lck
            (case ieee_search c g1 of
               Some r \<Rightarrow> (RET_OK, Some r, set_clock r g1)
             | None \<Rightarrow> if create then addr_add (Some c) ZB_UNKNOWN_SHORT_ADDR g1
                       else (RET_NOT_FOUND, None, g1)))"

definition zb_address_by_short ::
  "u16 \<Rightarrow> bool \<Rightarrow> bool \<Rightarrow> zb_addr_globals \<Rightarrow> (zb_ret \<times> nat option \<times> zb_addr_globals) option" where
  "zb_address_by_short a create lck g =
     lock_if lck
       (case short_search a g of
          Some r \<Rightarrow> (RET_OK, Some r, set_clock r g)
        | None \<Rightarrow> if create then addr_add None a g else (RET_NOT_FOUND, None, g))"

text \<open>
  \<^verbatim>\<open>zb_address_update\<close>: when the two addresses are known under different references, the
  one that is not locked goes; two locked ones stop the program.
\<close>

definition update_resolve ::
  "nat option \<Rightarrow> nat option \<Rightarrow> zb_addr_globals \<Rightarrow> (nat option \<times> zb_addr_globals) option" where
  "update_resolve found_short found_long g =
     (case (found_short, found_long) of
        (Some r, Some rl) \<Rightarrow>
          if r \<noteq> rl then
            (if lock_cnt (addr_map g ! r) = 0 then Some (Some rl, zb_address_delete r g)
             else if lock_cnt (addr_map g ! rl) = 0 then Some (Some r, zb_address_delete rl g)
             else None)
          else Some (Some r, g)
      | (None, Some rl) \<Rightarrow> Some (Some rl, g)
      | (Some r, None) \<Rightarrow> Some (Some r, g)
      | (None, None) \<Rightarrow> Some (None, g))"

definition update_entry :: "nat \<Rightarrow> zb_ieee_addr_compressed \<Rightarrow> u16 \<Rightarrow> zb_addr_globals \<Rightarrow> zb_addr_globals" where
  "update_entry ref c a g =
     (let g1 = upd_ent ref (\<lambda>e. e\<lparr>am_ieee := c\<rparr>) g;
          g2 = (if am_addr (addr_map g1 ! ref) \<noteq> a then
                  (let g' = (if am_addr (addr_map g1 ! ref) \<noteq> ZB_UNKNOWN_SHORT_ADDR
                             then del_short_sorted ref g1 else g1)
                   in add_short_sorted ref a (upd_ent ref (\<lambda>e. e\<lparr>am_addr := a\<rparr>) g'))
                else g1)
      in set_clock ref g2)"

definition zb_address_update ::
  "ieee \<Rightarrow> u16 \<Rightarrow> bool \<Rightarrow> zb_addr_globals \<Rightarrow> (zb_ret \<times> nat option \<times> zb_addr_globals) option" where
  "zb_address_update ieee a lck g =
     (case zb_ieee_addr_compress ieee g of
        None \<Rightarrow> None
      | Some (c, g1) \<Rightarrow>
          (case update_resolve (short_search a g1) (ieee_search c g1) g1 of
             None \<Rightarrow> None
           | Some (Some ref, g2) \<Rightarrow> lock_if lck (RET_OK, Some ref, update_entry ref c a g2)
           | Some (None, g2) \<Rightarrow> lock_if lck (addr_add (Some c) a g2)))"

definition zb_address_ieee_by_ref :: "nat \<Rightarrow> zb_addr_globals \<Rightarrow> ieee" where
  "zb_address_ieee_by_ref r g = zb_ieee_addr_decompress (am_ieee (addr_map g ! r)) g"

definition zb_address_short_by_ref :: "nat \<Rightarrow> zb_addr_globals \<Rightarrow> u16" where
  "zb_address_short_by_ref r g = am_addr (addr_map g ! r)"

definition zb_address_by_ref :: "nat \<Rightarrow> zb_addr_globals \<Rightarrow> ieee \<times> u16" where
  "zb_address_by_ref r g = (zb_address_ieee_by_ref r g, zb_address_short_by_ref r g)"

definition zb_address_short_by_ieee :: "ieee \<Rightarrow> zb_addr_globals \<Rightarrow> (u16 \<times> zb_addr_globals) option" where
  "zb_address_short_by_ieee a g =
     (case zb_address_by_ieee a False False g of
        None \<Rightarrow> None
      | Some (ret, ref, g1) \<Rightarrow>
          Some (if ret = RET_OK then am_addr (addr_map g1 ! the ref) else ZB_UNKNOWN_SHORT_ADDR, g1))"

definition zb_address_ieee_by_short :: "u16 \<Rightarrow> zb_addr_globals \<Rightarrow> (zb_ret \<times> ieee option \<times> zb_addr_globals) option" where
  "zb_address_ieee_by_short a g =
     (case zb_address_by_short a False False g of
        None \<Rightarrow> None
      | Some (ret, ref, g1) \<Rightarrow>
          Some (if ret = RET_OK then (RET_OK, Some (zb_address_ieee_by_ref (the ref) g1), g1)
                else (RET_NOT_FOUND, None, g1)))"

end
