(* ===== verification/Address_Lemmas.thy ===== *)
theory Address_Lemmas
  imports Address
begin

text \<open>
  The facts behind the properties of the address tables: bit vectors, cyclic scans, the two
  binary searches, insertion into and deletion from the sorted array, and the clock.
\<close>

section \<open>Bit vectors and scans\<close>

lemma check_bit_iff: "check_bit v b \<longleftrightarrow> bit (v ! (b div 8)) (b mod 8)"
  by (simp add: check_bit_def bit_iff_and_push_bit_not_eq_0)

lemma length_set_bit [simp]: "length (set_bit_vec v b) = length v" "length (clr_bit_vec v b) = length v"
  by (simp_all add: set_bit_vec_def clr_bit_vec_def)

lemma div_mod_eq_iff: "b div 8 = c div 8 \<Longrightarrow> b mod 8 = c mod (8 :: nat) \<longleftrightarrow> b = c"
  by (metis div_mult_mod_eq)

lemma check_set_bit:
  assumes "b div 8 < length v" "c div 8 < length v"
  shows "check_bit (set_bit_vec v b) c \<longleftrightarrow> c = b \<or> check_bit v c"
proof (cases "b div 8 = c div 8")
  case True
  have "bit (push_bit (b mod 8) (1 :: u8)) (c mod 8) \<longleftrightarrow> b mod 8 = c mod 8"
    by (auto simp: bit_exp_iff)
  with assms True div_mod_eq_iff [OF True] show ?thesis
    by (auto simp: check_bit_iff set_bit_vec_def bit_or_iff)
next
  case False
  with assms show ?thesis by (auto simp: check_bit_iff set_bit_vec_def)
qed

lemma check_clr_bit:
  assumes "b div 8 < length v" "c div 8 < length v"
  shows "check_bit (clr_bit_vec v b) c \<longleftrightarrow> c \<noteq> b \<and> check_bit v c"
proof (cases "b div 8 = c div 8")
  case True
  have "bit (NOT (push_bit (b mod 8) (1 :: u8))) (c mod 8) \<longleftrightarrow> b mod 8 \<noteq> c mod 8"
    by (auto simp: bit_not_iff bit_exp_iff)
  with assms True div_mod_eq_iff [OF True] show ?thesis
    by (auto simp: check_bit_iff clr_bit_vec_def bit_and_iff)
next
  case False
  with assms show ?thesis by (auto simp: check_bit_iff clr_bit_vec_def)
qed

lemma set_probe: "h < n \<Longrightarrow> set (probe n h) = {..<n}"
proof -
  assume h: "h < n"
  have "i \<in> set (probe n h)" if "i < n" for i
  proof -
    let ?k = "if h \<le> i then i - h else i + n - h"
    have "?k < n" "(h + ?k) mod n = i" using h that by (auto simp: mod_if)
    then show ?thesis unfolding probe_def by (metis (no_types, lifting) atLeastLessThan_iff
      imageI less_eq_nat.simps(1) list.set_map set_upt)
  qed
  with h show ?thesis by (auto simp: probe_def)
qed

lemma find_probe_None:
  "h < n \<Longrightarrow> find P (probe n h) = None \<longleftrightarrow> (\<forall>i<n. \<not> P i)"
  by (auto simp: find_None_iff set_probe)

lemma find_probe_Some: "h < n \<Longrightarrow> find P (probe n h) = Some i \<Longrightarrow> i < n \<and> P i"
  using set_probe [of h n] by (auto simp: find_Some_iff set_conv_nth)

lemma hash_bounds [simp]:
  "pan_id_hash p < ZB_PANID_TABLE_SIZE" "zb_address_compressed_ieee_hash c < ZB_IEEE_ADDR_TABLE_SIZE"
  by (simp_all add: pan_id_hash_def zb_address_compressed_ieee_hash_def Let_def
      ZB_PANID_TABLE_SIZE_def ZB_IEEE_ADDR_TABLE_SIZE_def)

section \<open>Binary search\<close>

lemma search_lower_spec:
  "(\<And>i j. i \<le> j \<Longrightarrow> j < n \<Longrightarrow> sorted_addr g i \<le> sorted_addr g j) \<Longrightarrow> l \<le> r \<Longrightarrow> r \<le> n \<Longrightarrow>
     (\<forall>i<l. sorted_addr g i < a) \<Longrightarrow> (\<forall>i. r \<le> i \<and> i < n \<longrightarrow> a \<le> sorted_addr g i) \<Longrightarrow>
     (let k = search_lower g a l r in
      k \<le> n \<and> (\<forall>i<k. sorted_addr g i < a) \<and> (\<forall>i. k \<le> i \<and> i < n \<longrightarrow> a \<le> sorted_addr g i))"
proof (induction g a l r rule: search_lower.induct)
  case (1 g a l r)
  show ?case
  proof (cases "l < r")
    case False
    with "1.prems" show ?thesis by (subst search_lower.simps) (simp add: Let_def)
  next
    case True
    let ?i = "l + (r - l) div 2"
    have i: "l \<le> ?i" "?i < r" using True by auto
    show ?thesis
    proof (cases "a > sorted_addr g ?i")
      case gt: True
      have "\<forall>j<?i + 1. sorted_addr g j < a"
      proof (intro allI impI)
        fix j assume "j < ?i + 1"
        then have "sorted_addr g j \<le> sorted_addr g ?i" using "1.prems"(1) [of j ?i] i "1.prems"(3) by auto
        with gt show "sorted_addr g j < a" by (rule order.strict_trans1 [rotated])
      qed
      with 1(1) [OF True refl gt "1.prems"(1)] "1.prems" i gt True
      show ?thesis by (subst search_lower.simps) (simp add: Let_def)
    next
      case le: False
      have "\<forall>j. ?i \<le> j \<and> j < n \<longrightarrow> a \<le> sorted_addr g j"
      proof (intro allI impI)
        fix j assume "?i \<le> j \<and> j < n"
        then have "sorted_addr g ?i \<le> sorted_addr g j" using "1.prems"(1) [of ?i j] by auto
        with le show "a \<le> sorted_addr g j" by auto
      qed
      with 1(2) [OF True refl le "1.prems"(1)] "1.prems" i le True
      show ?thesis by (subst search_lower.simps) (simp add: Let_def)
    qed
  qed
qed

lemma search_upper_spec:
  "(\<And>i j. i \<le> j \<Longrightarrow> j < n \<Longrightarrow> sorted_addr g i \<le> sorted_addr g j) \<Longrightarrow> l \<le> r \<Longrightarrow> r \<le> n \<Longrightarrow>
     (\<forall>i<l. sorted_addr g i \<le> a) \<Longrightarrow> (\<forall>i. r \<le> i \<and> i < n \<longrightarrow> a < sorted_addr g i) \<Longrightarrow>
     (let k = search_upper g a l r in
      k \<le> n \<and> (\<forall>i<k. sorted_addr g i \<le> a) \<and> (\<forall>i. k \<le> i \<and> i < n \<longrightarrow> a < sorted_addr g i))"
proof (induction g a l r rule: search_upper.induct)
  case (1 g a l r)
  show ?case
  proof (cases "l < r")
    case False
    with "1.prems" show ?thesis by (subst search_upper.simps) (simp add: Let_def)
  next
    case True
    let ?i = "l + (r - l) div 2"
    have i: "l \<le> ?i" "?i < r" using True by auto
    show ?thesis
    proof (cases "a \<ge> sorted_addr g ?i")
      case ge: True
      have "\<forall>j<?i + 1. sorted_addr g j \<le> a"
      proof (intro allI impI)
        fix j assume "j < ?i + 1"
        then have "sorted_addr g j \<le> sorted_addr g ?i" using "1.prems"(1) [of j ?i] i "1.prems"(3) by auto
        with ge show "sorted_addr g j \<le> a" by (rule order.trans [rotated])
      qed
      with 1(1) [OF True refl ge "1.prems"(1)] "1.prems" i ge True
      show ?thesis by (subst search_upper.simps) (simp add: Let_def)
    next
      case lt: False
      have "\<forall>j. ?i \<le> j \<and> j < n \<longrightarrow> a < sorted_addr g j"
      proof (intro allI impI)
        fix j assume "?i \<le> j \<and> j < n"
        then have "sorted_addr g ?i \<le> sorted_addr g j" using "1.prems"(1) [of ?i j] by auto
        with lt show "a < sorted_addr g j" by auto
      qed
      with 1(2) [OF True refl lt "1.prems"(1)] "1.prems" i lt True
      show ?thesis by (subst search_upper.simps) (simp add: Let_def)
    qed
  qed
qed

section \<open>The sorted references\<close>

definition srefs :: "zb_addr_globals \<Rightarrow> nat list" where
  "srefs g = take (n_sorted_elements g) (short_sorted g)"

definition ref_addr :: "zb_addr_globals \<Rightarrow> nat \<Rightarrow> u16" where
  "ref_addr g r = am_addr (addr_map g ! r)"

definition srefs_ok :: "zb_addr_globals \<Rightarrow> bool" where
  "srefs_ok g \<longleftrightarrow> length (short_sorted g) = ZB_IEEE_ADDR_TABLE_SIZE
     \<and> n_sorted_elements g \<le> ZB_IEEE_ADDR_TABLE_SIZE \<and> sorted (map (ref_addr g) (srefs g))"

lemma length_srefs: "srefs_ok g \<Longrightarrow> length (srefs g) = n_sorted_elements g"
  by (simp add: srefs_ok_def srefs_def)

lemma sorted_addr_nth:
  "srefs_ok g \<Longrightarrow> i < n_sorted_elements g \<Longrightarrow> sorted_addr g i = ref_addr g (srefs g ! i)"
  by (simp add: sorted_addr_def ref_addr_def srefs_def)

lemma sorted_addr_mono:
  "srefs_ok g \<Longrightarrow> i \<le> j \<Longrightarrow> j < n_sorted_elements g \<Longrightarrow> sorted_addr g i \<le> sorted_addr g j"
proof -
  assume ok: "srefs_ok g" and ij: "i \<le> j" "j < n_sorted_elements g"
  have len: "j < length (srefs g)" "i < length (srefs g)" "i < n_sorted_elements g"
    using ij unfolding length_srefs [OF ok] by linarith+
  have "sorted (map (ref_addr g) (srefs g))" using ok by (simp only: srefs_ok_def)
  from sorted_nth_mono [OF this ij(1)] len
  have "ref_addr g (srefs g ! i) \<le> ref_addr g (srefs g ! j)" by (simp only: length_map nth_map)
  then show ?thesis by (simp only: sorted_addr_nth [OF ok len(3)] sorted_addr_nth [OF ok ij(2)])
qed

lemma search_lower_full:
  assumes "srefs_ok g"
  defines "n \<equiv> n_sorted_elements g"
  shows "search_lower g a 0 n \<le> n" "i < search_lower g a 0 n \<Longrightarrow> sorted_addr g i < a"
    "search_lower g a 0 n \<le> i \<Longrightarrow> i < n \<Longrightarrow> a \<le> sorted_addr g i"
proof -
  have "let k = search_lower g a 0 n in
      k \<le> n \<and> (\<forall>i<k. sorted_addr g i < a) \<and> (\<forall>i. k \<le> i \<and> i < n \<longrightarrow> a \<le> sorted_addr g i)"
    by (rule search_lower_spec) (auto simp: n_def intro: sorted_addr_mono [OF assms(1)])
  then show "search_lower g a 0 n \<le> n" "i < search_lower g a 0 n \<Longrightarrow> sorted_addr g i < a"
    "search_lower g a 0 n \<le> i \<Longrightarrow> i < n \<Longrightarrow> a \<le> sorted_addr g i"
    by (simp_all add: Let_def)
qed

lemma search_upper_full:
  assumes "srefs_ok g"
  defines "n \<equiv> n_sorted_elements g"
  shows "search_upper g a 0 n \<le> n" "i < search_upper g a 0 n \<Longrightarrow> sorted_addr g i \<le> a"
    "search_upper g a 0 n \<le> i \<Longrightarrow> i < n \<Longrightarrow> a < sorted_addr g i"
proof -
  have "let k = search_upper g a 0 n in
      k \<le> n \<and> (\<forall>i<k. sorted_addr g i \<le> a) \<and> (\<forall>i. k \<le> i \<and> i < n \<longrightarrow> a < sorted_addr g i)"
    by (rule search_upper_spec) (auto simp: n_def intro: sorted_addr_mono [OF assms(1)])
  then show "search_upper g a 0 n \<le> n" "i < search_upper g a 0 n \<Longrightarrow> sorted_addr g i \<le> a"
    "search_upper g a 0 n \<le> i \<Longrightarrow> i < n \<Longrightarrow> a < sorted_addr g i"
    by (simp_all add: Let_def)
qed

lemma short_search_spec:
  assumes ok: "srefs_ok g"
  shows "case short_search a g of
      Some r \<Rightarrow> r \<in> set (srefs g) \<and> ref_addr g r = a
    | None \<Rightarrow> \<forall>r\<in>set (srefs g). ref_addr g r \<noteq> a"
proof -
  let ?n = "n_sorted_elements g"
  let ?l = "if ?n > 1 then search_lower g a 0 ?n else 0"
  have spec: "?l \<le> ?n" "\<forall>i<?l. sorted_addr g i < a"
    "1 < ?n \<longrightarrow> (\<forall>i. ?l \<le> i \<and> i < ?n \<longrightarrow> a \<le> sorted_addr g i)"
    using search_lower_full [OF ok] by auto
  have mem: "set (srefs g) = {srefs g ! i | i. i < ?n}"
    using length_srefs [OF ok] by (auto simp: set_conv_nth)
  show ?thesis
  proof (cases "?l < ?n \<and> a = sorted_addr g ?l")
    case True
    then have "short_search a g = Some (srefs g ! ?l)"
      using ok by (auto simp: short_search_def Let_def srefs_def srefs_ok_def)
    with True ok mem show ?thesis by (auto simp: sorted_addr_nth)
  next
    case False
    then have none: "short_search a g = None" by (auto simp: short_search_def Let_def)
    have "sorted_addr g i \<noteq> a" if i: "i < ?n" for i
    proof (cases "i < ?l")
      case True
      then show ?thesis using spec(2) by auto
    next
      case ge: False
      then have l: "?l < ?n" "?l \<le> i" using i by auto
      then have ne: "a \<noteq> sorted_addr g ?l" using False by blast
      show ?thesis
      proof (cases "1 < ?n")
        case True
        then have "a < sorted_addr g ?l" using spec(3) l(1) ne by (metis order_le_neq_trans order_refl)
        with sorted_addr_mono [OF ok l(2) i] show ?thesis by auto
      next
        case one: False
        then have "i = ?l" using i l by auto
        with ne show ?thesis by simp
      qed
    qed
    with none mem ok show ?thesis by (auto simp: sorted_addr_nth)
  qed
qed

section \<open>Insertion\<close>

text \<open>Where \<open>add_short_sorted\<close> puts the reference: after every smaller or equal address, or,
  in an array of one element, before an equal one.\<close>

lemma add_position:
  fixes a :: u16
  assumes ok: "srefs_ok g"
  defines "n \<equiv> n_sorted_elements g"
  defines "l0 \<equiv> if n > 1 then search_upper g a 0 n else 0"
  defines "l \<equiv> if n > 0 \<and> l0 < n \<and> a > sorted_addr g l0 then l0 + 1 else l0"
  shows "l \<le> n" "\<forall>i<l. sorted_addr g i \<le> a" "\<forall>i. l \<le> i \<and> i < n \<longrightarrow> a \<le> sorted_addr g i"
proof -
  have up: "l0 \<le> n \<and> (\<forall>i<l0. sorted_addr g i \<le> a) \<and> (\<forall>i. l0 \<le> i \<and> i < n \<longrightarrow> a < sorted_addr g i)"
    if "n > 1"
    using search_upper_full [OF ok] that by (simp add: n_def l0_def)
  have "l = l0" if "n > 1" using up that by (fastforce simp: l_def)
  moreover have "n \<le> 1 \<Longrightarrow> l = (if n = 1 \<and> a > sorted_addr g 0 then 1 else 0)"
    by (auto simp: l_def l0_def)
  ultimately have "l \<le> n \<and> (\<forall>i<l. sorted_addr g i \<le> a) \<and> (\<forall>i. l \<le> i \<and> i < n \<longrightarrow> a \<le> sorted_addr g i)"
    using up by (cases "n > 1"; cases "n = 1") (auto simp: not_less less_Suc0 intro: less_imp_le)
  then show "l \<le> n" "\<forall>i<l. sorted_addr g i \<le> a" "\<forall>i. l \<le> i \<and> i < n \<longrightarrow> a \<le> sorted_addr g i"
    by blast+
qed

lemma take_memmove_insert:
  assumes "l \<le> n" "n < length s"
  shows "take (n + 1) ((if l < n then memmove (l + 1) l (n - l) s else s)[l := x])
    = take l (take n s) @ x # drop l (take n s)"
proof (cases "l < n")
  case True
  have "memmove (l + 1) l (n - l) s = take (l + 1) s @ take (n - l) (drop l s) @ drop (n + 1) s"
    using assms True by (simp add: memmove_def)
  moreover have "take (l + 1) s = take l s @ [s ! l]" using assms True by (simp add: take_Suc_conv_app_nth)
  ultimately have "(memmove (l + 1) l (n - l) s)[l := x]
      = take l s @ x # take (n - l) (drop l s) @ drop (n + 1) s"
    using assms True by (simp add: list_update_append)
  moreover have "take (Suc n - l) (x # take (n - l) (drop l s) @ drop (Suc n) s) = x # take (n - l) (drop l s)"
    using assms True by (simp add: Suc_diff_le)
  ultimately show ?thesis using True assms by (simp add: min_def drop_take)
next
  case False
  with assms show ?thesis by (simp add: take_Suc_conv_app_nth)
qed

lemma add_short_sorted_spec:
  assumes ok: "srefs_ok g" and room: "n_sorted_elements g < ZB_IEEE_ADDR_TABLE_SIZE"
  shows "\<exists>xs ys. srefs g = xs @ ys \<and> srefs (add_short_sorted ref a g) = xs @ ref # ys
    \<and> (\<forall>r\<in>set xs. ref_addr g r \<le> a) \<and> (\<forall>r\<in>set ys. a \<le> ref_addr g r)
    \<and> length (short_sorted (add_short_sorted ref a g)) = ZB_IEEE_ADDR_TABLE_SIZE
    \<and> n_sorted_elements (add_short_sorted ref a g) = Suc (n_sorted_elements g)
    \<and> addr_map (add_short_sorted ref a g) = addr_map g
    \<and> n_elements (add_short_sorted ref a g) = n_elements g
    \<and> clock_i (add_short_sorted ref a g) = clock_i g"
proof -
  let ?n = "n_sorted_elements g"
  let ?l0 = "if ?n > 1 then search_upper g a 0 ?n else 0"
  let ?l = "if ?n > 0 \<and> ?l0 < ?n \<and> a > sorted_addr g ?l0 then ?l0 + 1 else ?l0"
  note pos = add_position [OF ok, of a]
  have len: "length (short_sorted g) = ZB_IEEE_ADDR_TABLE_SIZE" using ok by (simp add: srefs_ok_def)
  define l where "l = ?l"
  define s where "s = (if l < ?n then memmove (l + 1) l (?n - l) (short_sorted g) else short_sorted g)[l := ref]"
  have l: "l \<le> ?n" "\<forall>i<l. sorted_addr g i \<le> a" "\<forall>i. l \<le> i \<and> i < ?n \<longrightarrow> a \<le> sorted_addr g i"
    using pos unfolding l_def by blast+
  have add: "add_short_sorted ref a g = g\<lparr>short_sorted := s, n_sorted_elements := ?n + 1\<rparr>"
    unfolding add_short_sorted_def Let_def s_def l_def by simp
  have "take (?n + 1) s = take l (srefs g) @ ref # drop l (srefs g)"
    unfolding s_def srefs_def take_take [symmetric]
    using take_memmove_insert [of l ?n "short_sorted g" ref] l(1) room len by (simp add: min_def)
  then have "srefs (add_short_sorted ref a g) = take l (srefs g) @ ref # drop l (srefs g)"
    unfolding add by (simp add: srefs_def)
  moreover have "length s = ZB_IEEE_ADDR_TABLE_SIZE" unfolding s_def using len l(1) room by simp
  moreover have "\<forall>r\<in>set (take l (srefs g)). ref_addr g r \<le> a"
    using l(1,2) length_srefs [OF ok] by (auto simp: in_set_conv_nth sorted_addr_nth [OF ok, symmetric])
  moreover have "\<forall>r\<in>set (drop l (srefs g)). a \<le> ref_addr g r"
    using l(1,3) length_srefs [OF ok] by (auto simp: in_set_conv_nth sorted_addr_nth [OF ok, symmetric])
  ultimately show ?thesis
    by (intro exI [of _ "take l (srefs g)"] exI [of _ "drop l (srefs g)"]) (simp add: add)
qed

section \<open>Deletion\<close>

lemma del_scan_skip:
  "i \<le> k \<Longrightarrow> k \<le> n \<Longrightarrow> (\<And>j. i \<le> j \<Longrightarrow> j < k \<Longrightarrow> s ! j \<noteq> ref) \<Longrightarrow>
     del_scan ref n i dec s = del_scan ref n k dec s"
proof (induction "k - i" arbitrary: i)
  case 0
  then show ?case by simp
next
  case (Suc d)
  then have "i < n" "s ! i \<noteq> ref" by auto
  then have "del_scan ref n i dec s = del_scan ref n (i + 1) dec s"
    by (subst del_scan.simps) simp
  with Suc show ?case by simp
qed

lemma del_scan_end: "n \<le> i \<Longrightarrow> del_scan ref n i dec s = (s, dec)"
  by (subst del_scan.simps) simp

lemma del_scan_hit:
  assumes s: "s = xs @ ref # ys @ z # rest" and n: "n = length xs + 1 + length ys"
    and nin: "ref \<notin> set xs" "ref \<notin> set ys"
  shows "del_scan ref n 0 0 s =
    (if ys = [] then (s, 1) else (xs @ ys @ z # z # rest, if z = ref then 2 else 1))"
proof -
  let ?k = "length xs"
  have "del_scan ref n 0 0 s = del_scan ref n ?k 0 s"
    using nin n by (intro del_scan_skip) (auto simp: s nth_append)
  also have "\<dots> = del_scan ref n (?k + 1) 1 (if ys \<noteq> [] then memmove ?k (?k + 1) (n - ?k) s else s)"
    using n by (subst del_scan.simps) (auto simp: s)
  finally have step: "del_scan ref n 0 0 s =
    del_scan ref n (?k + 1) 1 (if ys \<noteq> [] then memmove ?k (?k + 1) (n - ?k) s else s)" .
  show ?thesis
  proof (cases ys)
    case Nil
    with step n show ?thesis by (simp add: del_scan_end)
  next
    case (Cons y zs)
    have mv: "memmove ?k (?k + 1) (n - ?k) s = xs @ ys @ z # z # rest" (is "_ = ?s")
      by (simp add: memmove_def s n)
    have "del_scan ref n (?k + 1) 1 ?s = del_scan ref n (n - 1) 1 ?s"
      using nin n Cons by (intro del_scan_skip) (auto simp: nth_append nth_Cons')
    also have "\<dots> = (?s, if z = ref then 2 else 1)"
      using n Cons by (subst del_scan.simps) (auto simp: nth_append del_scan_end)
    finally show ?thesis using step mv Cons by simp
  qed
qed

text \<open>The element right behind the sorted references, which deletion drags along.\<close>

definition stale :: "zb_addr_globals \<Rightarrow> nat" where
  "stale g = (short_sorted g @ [sorted_next g]) ! n_sorted_elements g"

lemma del_short_sorted_frame [simp]:
  "addr_map (del_short_sorted ref g) = addr_map g" "n_elements (del_short_sorted ref g) = n_elements g"
  "clock_i (del_short_sorted ref g) = clock_i g"
  by (simp_all add: del_short_sorted_def split: prod.split)

lemma del_short_sorted_result:
  assumes ok: "srefs_ok g" and xs: "srefs g = xs @ ref # ys" and nin: "ref \<notin> set xs" "ref \<notin> set ys"
  shows "\<exists>rs. del_short_sorted ref g = g\<lparr>
      short_sorted := (if ys = [] then short_sorted g else xs @ ys @ stale g # rs),
      n_sorted_elements := length xs + length ys - (if ys \<noteq> [] \<and> stale g = ref then 1 else 0)\<rparr>
    \<and> length xs + length ys + 1 + length rs = ZB_IEEE_ADDR_TABLE_SIZE"
proof -
  let ?n = "n_sorted_elements g" and ?s = "short_sorted g @ [sorted_next g]"
  have n: "?n = length xs + 1 + length ys" using length_srefs [OF ok] xs by simp
  have len: "length (short_sorted g) = 101" "?n \<le> 101"
    using ok by (simp_all add: srefs_ok_def ZB_IEEE_ADDR_TABLE_SIZE_def)
  then have nth: "drop ?n ?s = stale g # drop (?n + 1) ?s"
    unfolding stale_def by (metis Cons_nth_drop_Suc Suc_eq_plus1 le_imp_less_Suc length_append_singleton)
  have "take ?n ?s = srefs g" using len by (simp add: srefs_def)
  then have split: "?s = xs @ ref # ys @ stale g # drop (?n + 1) ?s"
    using nth append_take_drop_id [of ?n ?s] xs by simp
  define rest where "rest = drop (?n + 1) ?s"
  define rs where "rs = butlast (stale g # rest)"
  have scan: "del_scan ref ?n 0 0 ?s = (if ys = [] then (?s, 1)
      else (xs @ ys @ stale g # stale g # rest, if stale g = ref then 2 else 1))"
    using del_scan_hit [OF split n nin] by (simp add: rest_def)
  have lr: "length xs + length ys + 2 + length rest = 102"
    using arg_cong [OF split, of length] len by (simp add: rest_def)
  have bl: "butlast (xs @ ys @ stale g # stale g # rest) = xs @ ys @ stale g # rs"
    by (simp add: butlast_append rs_def)
  have "del_short_sorted ref g = g\<lparr>
      short_sorted := (if ys = [] then short_sorted g else xs @ ys @ stale g # rs),
      n_sorted_elements := length xs + length ys - (if ys \<noteq> [] \<and> stale g = ref then 1 else 0)\<rparr>"
    using scan n by (simp add: del_short_sorted_def bl)
  moreover have "length xs + length ys + 1 + length rs = ZB_IEEE_ADDR_TABLE_SIZE"
    using lr by (simp add: rs_def ZB_IEEE_ADDR_TABLE_SIZE_def del: butlast.simps)
  ultimately show ?thesis by blast
qed

lemma del_short_sorted_hit:
  assumes ok: "srefs_ok g" and xs: "srefs g = xs @ ref # ys" and nin: "ref \<notin> set xs" "ref \<notin> set ys"
  shows "srefs (del_short_sorted ref g) =
      (if ys \<noteq> [] \<and> stale g = ref then butlast (xs @ ys) else xs @ ys)"
    "length (short_sorted (del_short_sorted ref g)) = ZB_IEEE_ADDR_TABLE_SIZE"
    "n_sorted_elements (del_short_sorted ref g) = length (srefs (del_short_sorted ref g))"
    "ys = [] \<or> stale g \<noteq> ref \<Longrightarrow> stale (del_short_sorted ref g) = (if ys = [] then ref else stale g)"
proof -
  obtain rs where d: "del_short_sorted ref g = g\<lparr>
      short_sorted := (if ys = [] then short_sorted g else xs @ ys @ stale g # rs),
      n_sorted_elements := length xs + length ys - (if ys \<noteq> [] \<and> stale g = ref then 1 else 0)\<rparr>"
    and l: "length xs + length ys + 1 + length rs = ZB_IEEE_ADDR_TABLE_SIZE"
    using del_short_sorted_result [OF assms] by blast
  have len: "length (short_sorted g) = ZB_IEEE_ADDR_TABLE_SIZE" using ok by (simp add: srefs_ok_def)
  have n: "n_sorted_elements g = length xs + 1 + length ys" using length_srefs [OF ok] xs by simp
  have pre: "take (length xs) (short_sorted g) = xs" "ys = [] \<Longrightarrow> short_sorted g ! length xs = ref"
  proof -
    have "take (length xs) (srefs g) = xs" using xs by simp
    with n show "take (length xs) (short_sorted g) = xs" by (simp add: srefs_def)
    have "srefs g ! length xs = ref" using xs by simp
    with n show "ys = [] \<Longrightarrow> short_sorted g ! length xs = ref" by (simp add: srefs_def)
  qed
  have bl: "butlast (xs @ ys) = take (length xs + length ys - 1) (xs @ ys @ zs)" if "ys \<noteq> []" for zs
    using that by (cases ys rule: rev_cases) (simp_all add: butlast_append)
  show s: "srefs (del_short_sorted ref g) =
      (if ys \<noteq> [] \<and> stale g = ref then butlast (xs @ ys) else xs @ ys)"
    using pre(1) bl [of "stale g # rs"] unfolding d srefs_def by simp
  show "length (short_sorted (del_short_sorted ref g)) = ZB_IEEE_ADDR_TABLE_SIZE"
    using l len unfolding d by simp
  show "n_sorted_elements (del_short_sorted ref g) = length (srefs (del_short_sorted ref g))"
    unfolding s unfolding d by simp
  show "ys = [] \<or> stale g \<noteq> ref \<Longrightarrow> stale (del_short_sorted ref g) = (if ys = [] then ref else stale g)"
  proof -
    assume h: "ys = [] \<or> stale g \<noteq> ref"
    have e: "stale (del_short_sorted ref g) = (short_sorted (del_short_sorted ref g)
        @ [sorted_next (del_short_sorted ref g)]) ! n_sorted_elements (del_short_sorted ref g)"
      by (simp only: stale_def)
    show "stale (del_short_sorted ref g) = (if ys = [] then ref else stale g)"
      unfolding e unfolding d using h pre(2) len l n
      by (auto simp: nth_append ZB_IEEE_ADDR_TABLE_SIZE_def)
  qed
qed

lemma del_short_sorted_miss:
  assumes "srefs_ok g" "ref \<notin> set (srefs g)"
  shows "del_short_sorted ref g = g"
proof -
  let ?n = "n_sorted_elements g" and ?s = "short_sorted g @ [sorted_next g]"
  have "?s ! j \<noteq> ref" if "j < ?n" for j
    using that assms by (auto simp: srefs_ok_def srefs_def nth_append in_set_conv_nth)
  then have "del_scan ref ?n 0 0 ?s = (?s, 0)"
    using del_scan_skip [of 0 ?n ?n ?s ref 0] by (simp add: del_scan_end)
  then show ?thesis by (simp add: del_short_sorted_def)
qed

end
