(* ===== verification/Address_Inv.thy ===== *)
theory Address_Inv
  imports Address_Lemmas
begin

text \<open>
  The invariant of the address table and its preservation by the clock, by adding and by
  deleting an entry and by changing a short address.
\<close>

section \<open>Entries that differ in the clock bit only\<close>

definition no_clock :: "zb_address_map \<Rightarrow> zb_address_map" where
  "no_clock e = e\<lparr>am_clock := False\<rparr>"

definition same_map :: "zb_address_map list \<Rightarrow> zb_address_map list \<Rightarrow> bool" where
  "same_map m m' \<longleftrightarrow> map no_clock m' = map no_clock m"

lemma no_clock_sel [simp]:
  "am_used (no_clock e) = am_used e" "am_addr (no_clock e) = am_addr e"
  "am_ieee (no_clock e) = am_ieee e" "lock_cnt (no_clock e) = lock_cnt e"
  by (simp_all add: no_clock_def)

lemma no_clock_clock [simp]: "no_clock (e\<lparr>am_clock := c\<rparr>) = no_clock e"
  by (simp add: no_clock_def)

lemma same_map_length: "same_map m m' \<Longrightarrow> length m' = length m"
  unfolding same_map_def by (metis length_map)

lemma same_map_nth: "same_map m m' \<Longrightarrow> i < length m \<Longrightarrow> no_clock (m' ! i) = no_clock (m ! i)"
  unfolding same_map_def by (metis length_map nth_map)

lemma same_map_sel:
  assumes "same_map m m'" "i < length m"
  shows "am_used (m' ! i) = am_used (m ! i)" "am_addr (m' ! i) = am_addr (m ! i)"
    "am_ieee (m' ! i) = am_ieee (m ! i)" "lock_cnt (m' ! i) = lock_cnt (m ! i)"
  using same_map_nth [OF assms] by (metis no_clock_sel)+

lemma same_map_refl [simp]: "same_map m m"
  by (simp add: same_map_def)

lemma same_map_trans: "same_map m m' \<Longrightarrow> same_map m' m'' \<Longrightarrow> same_map m m''"
  by (simp add: same_map_def)

lemma same_map_upd: "i < length m \<Longrightarrow> same_map m (m[i := (m ! i)\<lparr>am_clock := c\<rparr>])"
  by (simp add: same_map_def map_update) (metis list_update_id map_update no_clock_clock nth_map)

lemma clock_scan_same:
  "lim \<le> length m \<Longrightarrow> clock_scan lim n ci cnt m = (ci', cnt', fnd, m') \<Longrightarrow>
     same_map m m' \<and> ci' \<le> max ci lim"
proof (induction lim n ci cnt m rule: clock_scan.induct)
  case (1 lim n ci cnt m)
  show ?case
  proof (cases "ci < lim \<and> cnt < n")
    case False
    then have "clock_scan lim n ci cnt m = (ci, cnt, False, m)" by (subst clock_scan.simps) auto
    with "1.prems"(2) show ?thesis by auto
  next
    case True
    then have i: "ci < length m" using "1.prems"(1) by simp
    show ?thesis
    proof (cases "am_used (m ! ci)")
      case used: True
      show ?thesis
      proof (cases "lock_cnt (m ! ci) = 0")
        case True
        have "clock_scan lim n ci cnt m = (ci + 1, cnt + 1, True, m[ci := (m ! ci)\<lparr>am_clock := False\<rparr>])"
          using \<open>ci < lim \<and> cnt < n\<close> used True by (subst clock_scan.simps) simp
        with "1.prems"(2) \<open>ci < lim \<and> cnt < n\<close> same_map_upd [OF i, of False] show ?thesis by auto
      next
        case False
        have "clock_scan lim n (ci + 1) (cnt + 1) m = (ci', cnt', fnd, m')"
          using "1.prems"(2) True used False by (subst (asm) clock_scan.simps) simp
        from "1.IH"(1) [OF True used False "1.prems"(1) this] True show ?thesis by auto
      qed
    next
      case unused: False
      have "clock_scan lim n (ci + 1) cnt m = (ci', cnt', fnd, m')"
        using "1.prems"(2) True unused by (subst (asm) clock_scan.simps) simp
      from "1.IH"(2) [OF True unused "1.prems"(1) this] True show ?thesis by auto
    qed
  qed
qed

lemma clock_tick_same:
  assumes "length (addr_map g) = ZB_IEEE_ADDR_TABLE_SIZE" "clock_i g \<le> ZB_IEEE_ADDR_TABLE_SIZE"
  shows "\<exists>ci m. clock_tick g = g\<lparr>clock_i := ci, addr_map := m\<rparr> \<and> same_map (addr_map g) m
    \<and> ci \<le> ZB_IEEE_ADDR_TABLE_SIZE"
proof -
  obtain ci cnt fnd m where
    c1: "clock_scan ZB_IEEE_ADDR_TABLE_SIZE (n_elements g) (clock_i g) 0 (addr_map g) = (ci, cnt, fnd, m)"
    by (metis prod_cases4)
  have s1: "same_map (addr_map g) m" "ci \<le> ZB_IEEE_ADDR_TABLE_SIZE"
    using clock_scan_same [OF _ c1] assms by auto
  show ?thesis
  proof (cases "\<not> fnd \<and> cnt < n_elements g")
    case False
    then show ?thesis using c1 s1
      by (intro exI [of _ ci] exI [of _ m]) (auto simp: clock_tick_def Let_def)
  next
    case True
    obtain ci2 cnt2 fnd2 m2 where
      c2: "clock_scan (clock_i g) (n_elements g) 0 cnt m = (ci2, cnt2, fnd2, m2)"
      by (metis prod_cases4)
    have "clock_i g \<le> length m" using same_map_length [OF s1(1)] assms by simp
    from clock_scan_same [OF this c2] assms(2) s1(1)
    have "same_map (addr_map g) m2" "ci2 \<le> ZB_IEEE_ADDR_TABLE_SIZE"
      by (auto intro: same_map_trans)
    with True c1 c2 show ?thesis
      by (intro exI [of _ ci2] exI [of _ m2]) (simp add: clock_tick_def Let_def)
  qed
qed

section \<open>The invariant\<close>

definition used_refs :: "zb_addr_globals \<Rightarrow> nat set" where
  "used_refs g = {r. r < ZB_IEEE_ADDR_TABLE_SIZE \<and> am_used (addr_map g ! r)}"

definition addr_inv :: "zb_addr_globals \<Rightarrow> bool" where
  "addr_inv g \<longleftrightarrow> length (addr_map g) = ZB_IEEE_ADDR_TABLE_SIZE \<and> srefs_ok g \<and> distinct (srefs g)
     \<and> set (srefs g) = {r \<in> used_refs g. ref_addr g r \<noteq> ZB_UNKNOWN_SHORT_ADDR}
     \<and> n_elements g = card (used_refs g) \<and> clock_i g \<le> ZB_IEEE_ADDR_TABLE_SIZE"

lemma finite_used [simp]: "finite (used_refs g)"
  by (simp add: used_refs_def)

lemma used_refs_subset: "used_refs g \<subseteq> {..<ZB_IEEE_ADDR_TABLE_SIZE}"
  by (auto simp: used_refs_def)

lemma sorted_room:
  assumes "addr_inv g" "r < ZB_IEEE_ADDR_TABLE_SIZE" "r \<notin> set (srefs g)"
  shows "n_sorted_elements g < ZB_IEEE_ADDR_TABLE_SIZE"
proof -
  have "set (srefs g) \<subset> {..<ZB_IEEE_ADDR_TABLE_SIZE}"
    using assms used_refs_subset by (auto simp: addr_inv_def)
  then have "card (set (srefs g)) < ZB_IEEE_ADDR_TABLE_SIZE"
    by (metis card_lessThan finite_lessThan psubset_card_mono)
  moreover have "card (set (srefs g)) = n_sorted_elements g"
    using assms(1) distinct_card length_srefs unfolding addr_inv_def by metis
  ultimately show ?thesis by simp
qed

text \<open>
  Two tables whose entries agree on use and short address and whose sorted arrays are the
  same satisfy the invariant together.
\<close>

lemma addr_inv_cong:
  assumes inv: "addr_inv g" and len: "length (addr_map g') = ZB_IEEE_ADDR_TABLE_SIZE"
    and ent: "\<And>r. r < ZB_IEEE_ADDR_TABLE_SIZE \<Longrightarrow> am_used (addr_map g' ! r) = am_used (addr_map g ! r)
      \<and> am_addr (addr_map g' ! r) = am_addr (addr_map g ! r)"
    and rest: "short_sorted g' = short_sorted g" "n_sorted_elements g' = n_sorted_elements g"
      "n_elements g' = n_elements g" "clock_i g' \<le> ZB_IEEE_ADDR_TABLE_SIZE"
  shows "addr_inv g'"
proof -
  have u: "used_refs g' = used_refs g" using ent by (auto simp: used_refs_def)
  have s: "srefs g' = srefs g" by (simp add: srefs_def rest)
  have a: "ref_addr g' r = ref_addr g r" if "r < ZB_IEEE_ADDR_TABLE_SIZE" for r
    using ent [OF that] by (simp add: ref_addr_def)
  have lt: "r < ZB_IEEE_ADDR_TABLE_SIZE" if "r \<in> set (srefs g)" for r
    using that inv used_refs_subset by (auto simp: addr_inv_def)
  have map_eq: "map (ref_addr g') (srefs g) = map (ref_addr g) (srefs g)" using a lt by simp
  have "srefs_ok g'" unfolding srefs_ok_def s rest map_eq using inv by (simp add: addr_inv_def srefs_ok_def)
  moreover have "{r \<in> used_refs g. ref_addr g' r \<noteq> ZB_UNKNOWN_SHORT_ADDR}
      = {r \<in> used_refs g. ref_addr g r \<noteq> ZB_UNKNOWN_SHORT_ADDR}"
    using a by (auto simp: used_refs_def)
  ultimately show ?thesis using inv len rest(3,4) unfolding addr_inv_def u s by simp
qed

lemma upd_ent_sel [simp]:
  "short_sorted (upd_ent i f g) = short_sorted g" "n_sorted_elements (upd_ent i f g) = n_sorted_elements g"
  "n_elements (upd_ent i f g) = n_elements g" "clock_i (upd_ent i f g) = clock_i g"
  "sorted_next (upd_ent i f g) = sorted_next g" "length (addr_map (upd_ent i f g)) = length (addr_map g)"
  "srefs (upd_ent i f g) = srefs g" "stale (upd_ent i f g) = stale g"
  by (simp_all add: upd_ent_def srefs_def stale_def)

lemma upd_ent_nth:
  "i < length (addr_map g) \<Longrightarrow> addr_map (upd_ent i f g) ! j = (if j = i then f (addr_map g ! i) else addr_map g ! j)"
  by (auto simp: upd_ent_def)

text \<open>Inserting an unlisted reference whose entry carries the address already.\<close>

lemma add_sorted_inv:
  assumes len: "length (addr_map g) = ZB_IEEE_ADDR_TABLE_SIZE" and ok: "srefs_ok g"
    and d: "distinct (srefs g)" and room: "n_sorted_elements g < ZB_IEEE_ADDR_TABLE_SIZE"
    and ref: "ref \<notin> set (srefs g)" "ref_addr g ref = a"
  defines "g' \<equiv> add_short_sorted ref a g"
  shows "srefs_ok g' \<and> distinct (srefs g') \<and> set (srefs g') = insert ref (set (srefs g))
    \<and> addr_map g' = addr_map g \<and> n_elements g' = n_elements g \<and> clock_i g' = clock_i g"
proof -
  obtain xs ys where s: "srefs g = xs @ ys" "srefs g' = xs @ ref # ys"
    "\<forall>r\<in>set xs. ref_addr g r \<le> a" "\<forall>r\<in>set ys. a \<le> ref_addr g r"
    "length (short_sorted g') = ZB_IEEE_ADDR_TABLE_SIZE"
    "n_sorted_elements g' = Suc (n_sorted_elements g)" "addr_map g' = addr_map g"
    "n_elements g' = n_elements g" "clock_i g' = clock_i g"
    using add_short_sorted_spec [OF ok room, of ref a] unfolding g'_def by blast
  have r: "ref_addr g' = ref_addr g" by (simp add: ref_addr_def fun_eq_iff s(7))
  have "sorted (map (ref_addr g) (xs @ ys))" using ok s(1) by (simp add: srefs_ok_def)
  then have "sorted (map (ref_addr g) (xs @ ref # ys))"
    using s(3,4) ref(2) by (auto simp: sorted_append)
  with s r room d ref(1) show ?thesis by (auto simp: srefs_ok_def)
qed

section \<open>Adding\<close>

lemma addr_add_inv:
  assumes inv: "addr_inv g" and free: "\<exists>i<ZB_IEEE_ADDR_TABLE_SIZE. \<not> am_used (addr_map g ! i)"
  shows "\<exists>i g'. addr_add ieee a g = (RET_OK, Some i, g') \<and> i < ZB_IEEE_ADDR_TABLE_SIZE
    \<and> i \<notin> used_refs g \<and> addr_inv g' \<and> used_refs g' = insert i (used_refs g)
    \<and> am_addr (addr_map g' ! i) = a
    \<and> am_ieee (addr_map g' ! i) = (case ieee of Some c \<Rightarrow> c | None \<Rightarrow> zero_compressed)
    \<and> (\<forall>j<ZB_IEEE_ADDR_TABLE_SIZE. j \<noteq> i \<longrightarrow> no_clock (addr_map g' ! j) = no_clock (addr_map g ! j))
    \<and> dev_manufacturer g' = dev_manufacturer g \<and> used_manufacturer g' = used_manufacturer g"
proof -
  let ?N = "ZB_IEEE_ADDR_TABLE_SIZE"
  define h where "h = (case ieee of Some c \<Rightarrow> zb_address_compressed_ieee_hash c | None \<Rightarrow> 0)"
  have h: "h < ?N" by (auto simp: h_def ZB_IEEE_ADDR_TABLE_SIZE_def split: option.split
      intro: hash_bounds(2) [unfolded ZB_IEEE_ADDR_TABLE_SIZE_def])
  obtain i where find: "find (\<lambda>i. \<not> am_used (addr_map g ! i)) (probe ?N h) = Some i"
    using find_probe_None [OF h, of "\<lambda>i. \<not> am_used (addr_map g ! i)"] free by (metis not_None_eq)
  then have i: "i < ?N" "\<not> am_used (addr_map g ! i)" using find_probe_Some [OF h find] by auto
  obtain ci m where tick: "clock_tick g = g\<lparr>clock_i := ci, addr_map := m\<rparr>" "same_map (addr_map g) m" "ci \<le> ?N"
    using clock_tick_same [of g] inv unfolding addr_inv_def by blast
  have len: "length (addr_map g) = ?N" "length m = ?N"
    using inv same_map_length [OF tick(2)] by (simp_all add: addr_inv_def)
  let ?f = "\<lambda>e. e\<lparr>am_addr := a, am_clock := True,
     am_ieee := (case ieee of Some c \<Rightarrow> c | None \<Rightarrow> zero_compressed)\<rparr>"
  define g2 where "g2 = upd_ent i ?f (clock_tick g)"
  define g3 where "g3 = (if a \<noteq> ZB_UNKNOWN_SHORT_ADDR then add_short_sorted i a g2 else g2)"
  define g' where "g' = upd_ent i (\<lambda>e. e\<lparr>am_used := True\<rparr>) (g3\<lparr>n_elements := n_elements g3 + 1\<rparr>)"
  have m_sel: "am_used (m ! j) = am_used (addr_map g ! j)" "am_addr (m ! j) = am_addr (addr_map g ! j)"
    if "j < ?N" for j
    using same_map_sel [OF tick(2)] that len by auto
  have g2: "addr_map g2 = m[i := ?f (m ! i)]" "short_sorted g2 = short_sorted g"
    "n_sorted_elements g2 = n_sorted_elements g" "n_elements g2 = n_elements g" "clock_i g2 = ci"
    "srefs g2 = srefs g" "dev_manufacturer g2 = dev_manufacturer g" "used_manufacturer g2 = used_manufacturer g"
    by (simp_all add: g2_def tick(1) upd_ent_def srefs_def)
  have nin: "i \<notin> set (srefs g)" using inv i by (auto simp: addr_inv_def used_refs_def)
  have lt: "r < ?N" if "r \<in> set (srefs g)" for r
    using that inv used_refs_subset by (auto simp: addr_inv_def)
  have ra: "ref_addr g2 r = ref_addr g r" if "r \<noteq> i" "r < ?N" for r
    using that len m_sel by (simp add: ref_addr_def g2)
  have map_eq: "map (ref_addr g2) (srefs g) = map (ref_addr g) (srefs g)"
  proof (rule map_cong [OF refl])
    fix r assume "r \<in> set (srefs g)"
    with nin have "r \<noteq> i" "r < ?N" using lt by auto
    then show "ref_addr g2 r = ref_addr g r" by (rule ra)
  qed
  have ok2: "srefs_ok g2" using inv by (simp add: addr_inv_def srefs_ok_def g2 map_eq)
  have rai: "ref_addr g2 i = a" using i len by (simp add: ref_addr_def g2)
  have ui: "am_used (addr_map g2 ! i) = False" using i len m_sel [OF i(1)] by (simp add: g2)
  have g3: "addr_map g3 = addr_map g2" "n_elements g3 = n_elements g2" "clock_i g3 = ci" "srefs_ok g3"
    "distinct (srefs g3)"
    "set (srefs g3) = (if a \<noteq> ZB_UNKNOWN_SHORT_ADDR then insert i (set (srefs g)) else set (srefs g))"
    "dev_manufacturer g3 = dev_manufacturer g" "used_manufacturer g3 = used_manufacturer g"
  proof -
    have add: "srefs_ok (add_short_sorted i a g2) \<and> distinct (srefs (add_short_sorted i a g2))
        \<and> set (srefs (add_short_sorted i a g2)) = insert i (set (srefs g2))
        \<and> addr_map (add_short_sorted i a g2) = addr_map g2
        \<and> n_elements (add_short_sorted i a g2) = n_elements g2
        \<and> clock_i (add_short_sorted i a g2) = clock_i g2"
      by (rule add_sorted_inv)
        (use ok2 inv i nin rai len sorted_room [OF inv i(1) nin] in \<open>simp_all add: g2 addr_inv_def\<close>)
    have dm: "dev_manufacturer (add_short_sorted i a g2) = dev_manufacturer g"
      "used_manufacturer (add_short_sorted i a g2) = used_manufacturer g"
      by (simp_all add: add_short_sorted_def Let_def g2)
    show "addr_map g3 = addr_map g2" "n_elements g3 = n_elements g2" "clock_i g3 = ci" "srefs_ok g3"
      "distinct (srefs g3)"
      "set (srefs g3) = (if a \<noteq> ZB_UNKNOWN_SHORT_ADDR then insert i (set (srefs g)) else set (srefs g))"
      "dev_manufacturer g3 = dev_manufacturer g" "used_manufacturer g3 = used_manufacturer g"
      using add dm ok2 inv by (auto simp: g3_def g2 addr_inv_def)
  qed
  have eq: "addr_add ieee a g = (RET_OK, Some i, g')"
    unfolding addr_add_def Let_def h_def [symmetric] find option.case
    unfolding g2_def [symmetric] unfolding ui if_False
    unfolding g3_def [symmetric] unfolding g3(1) ui g'_def by simp
  have ent: "addr_map g' ! j = (if j = i then (?f (m ! i))\<lparr>am_used := True\<rparr> else m ! j)" if "j < ?N" for j
    using that i len by (simp add: g'_def upd_ent_def g3 g2)
  have u: "used_refs g' = insert i (used_refs g)"
    using ent m_sel i by (auto simp: used_refs_def)
  have ra': "ref_addr g' j = (if j = i then a else ref_addr g j)" if "j < ?N" for j
    using ent [OF that] m_sel [OF that] by (simp add: ref_addr_def)
  have s': "srefs g' = srefs g3" by (simp add: g'_def srefs_def upd_ent_def)
  have lt3: "r < ?N" if "r \<in> set (srefs g3)" for r using that g3(6) lt i by (auto split: if_splits)
  have map3: "map (ref_addr g') (srefs g3) = map (ref_addr g3) (srefs g3)"
    using ra' lt3 rai ra by (intro map_cong refl) (simp add: ref_addr_def g3(1))
  have "short_sorted g' = short_sorted g3" "n_sorted_elements g' = n_sorted_elements g3"
    by (simp_all add: g'_def)
  then have "srefs_ok g'" using g3(4) unfolding srefs_ok_def s' map3 by simp
  moreover have "set (srefs g') = {r \<in> used_refs g'. ref_addr g' r \<noteq> ZB_UNKNOWN_SHORT_ADDR}"
  proof -
    have mem: "r \<in> set (srefs g) \<longleftrightarrow> r \<in> used_refs g \<and> ref_addr g r \<noteq> ZB_UNKNOWN_SHORT_ADDR" for r
      using inv by (simp add: addr_inv_def)
    have ltu: "r < ?N" if "r \<in> used_refs g" for r using that by (simp add: used_refs_def)
    show ?thesis
    proof (rule set_eqI)
      fix r
      show "r \<in> set (srefs g') \<longleftrightarrow> r \<in> {r \<in> used_refs g'. ref_addr g' r \<noteq> ZB_UNKNOWN_SHORT_ADDR}"
      proof (cases "r = i")
        case True
        then show ?thesis using ra' [OF i(1)] nin by (simp add: s' g3(6) u)
      next
        case False
        then show ?thesis using ra' [of r] ltu [of r] by (auto simp add: s' g3(6) u mem)
      qed
    qed
  qed
  moreover have "n_elements g' = card (used_refs g')"
    using inv i unfolding u by (simp add: g'_def g3 g2 addr_inv_def used_refs_def)
  moreover have "length (addr_map g') = ?N" "distinct (srefs g')" "clock_i g' \<le> ?N"
    using g3 tick(3) len by (simp_all add: g'_def srefs_def g2)
  ultimately have "addr_inv g'" by (simp add: addr_inv_def)
  moreover have "\<forall>j<?N. j \<noteq> i \<longrightarrow> no_clock (addr_map g' ! j) = no_clock (addr_map g ! j)"
    using ent same_map_nth [OF tick(2)] len by simp
  moreover have "dev_manufacturer g' = dev_manufacturer g" "used_manufacturer g' = used_manufacturer g"
    using g3 by (simp_all add: g'_def upd_ent_def)
  moreover have "i \<notin> used_refs g" using i by (simp add: used_refs_def)
  moreover have "am_addr (addr_map g' ! i) = a"
    "am_ieee (addr_map g' ! i) = (case ieee of Some c \<Rightarrow> c | None \<Rightarrow> zero_compressed)"
    using ent [OF i(1)] by simp_all
  ultimately show ?thesis using eq i(1) u by blast
qed

lemma addr_add_full:
  assumes "addr_inv g" "\<forall>i<ZB_IEEE_ADDR_TABLE_SIZE. am_used (addr_map g ! i)"
  shows "addr_add ieee a g = (RET_OVERFLOW, None, g)"
proof -
  have none: "find (\<lambda>i. \<not> am_used (addr_map g ! i)) (probe ZB_IEEE_ADDR_TABLE_SIZE h) = None"
    if "h < ZB_IEEE_ADDR_TABLE_SIZE" for h
    using find_probe_None [OF that] assms(2) by blast
  have "0 < ZB_IEEE_ADDR_TABLE_SIZE" by (simp add: ZB_IEEE_ADDR_TABLE_SIZE_def)
  from none [OF this] none [OF hash_bounds(2)] show ?thesis
    by (cases ieee) (simp_all add: addr_add_def)
qed

section \<open>Deleting\<close>

text \<open>
  The copy behind the sorted references is not one of them: then deletion removes exactly
  the reference.
\<close>

definition clean :: "zb_addr_globals \<Rightarrow> bool" where
  "clean g \<longleftrightarrow> stale g \<notin> set (srefs g)"

lemma del_srefs:
  assumes ok: "srefs_ok g" and d: "distinct (srefs g)" and c: "clean g"
  shows "srefs (del_short_sorted ref g) = remove1 ref (srefs g) \<and> srefs_ok (del_short_sorted ref g)"
proof (cases "ref \<in> set (srefs g)")
  case False
  with del_short_sorted_miss [OF ok] ok show ?thesis by (simp add: remove1_idem)
next
  case True
  then obtain xs ys where s: "srefs g = xs @ ref # ys" by (meson split_list)
  then have nin: "ref \<notin> set xs" "ref \<notin> set ys" using d by auto
  have st: "stale g \<noteq> ref" using c s by (auto simp: clean_def)
  note h = del_short_sorted_hit [OF ok s nin]
  have eq: "srefs (del_short_sorted ref g) = xs @ ys" using h(1) st by simp
  have r: "ref_addr (del_short_sorted ref g) = ref_addr g" by (simp add: ref_addr_def fun_eq_iff)
  have "sorted (map (ref_addr g) (xs @ ref # ys))" using ok s by (simp add: srefs_ok_def)
  then have "sorted (map (ref_addr g) (xs @ ys))" by (auto simp: sorted_append)
  moreover have "length (xs @ ys) \<le> ZB_IEEE_ADDR_TABLE_SIZE"
    using length_srefs [OF ok] ok s by (simp add: srefs_ok_def)
  ultimately have "srefs_ok (del_short_sorted ref g)"
    using h(2,3) unfolding srefs_ok_def eq r by simp
  with eq s nin show ?thesis by (simp add: remove1_append)
qed

lemma del_short_sorted_sel [simp]:
  "dev_manufacturer (del_short_sorted ref g) = dev_manufacturer g"
  "used_manufacturer (del_short_sorted ref g) = used_manufacturer g"
  "used_refs (del_short_sorted ref g) = used_refs g" "ref_addr (del_short_sorted ref g) = ref_addr g"
  by (simp_all add: del_short_sorted_def used_refs_def ref_addr_def fun_eq_iff split: prod.split)

lemma zb_address_delete_inv:
  assumes inv: "addr_inv g" and ref: "ref \<in> used_refs g" and c: "clean g"
  defines "g' \<equiv> zb_address_delete ref g"
  shows "addr_inv g' \<and> used_refs g' = used_refs g - {ref} \<and> srefs g' = remove1 ref (srefs g)
    \<and> (\<forall>r. r \<noteq> ref \<longrightarrow> addr_map g' ! r = addr_map g ! r)
    \<and> dev_manufacturer g' = dev_manufacturer g \<and> used_manufacturer g' = used_manufacturer g"
proof -
  let ?d = "del_short_sorted ref g"
  have i: "srefs_ok g" "distinct (srefs g)" "length (addr_map g) = ZB_IEEE_ADDR_TABLE_SIZE"
    "set (srefs g) = {r \<in> used_refs g. ref_addr g r \<noteq> ZB_UNKNOWN_SHORT_ADDR}"
    "n_elements g = card (used_refs g)" "clock_i g \<le> ZB_IEEE_ADDR_TABLE_SIZE"
    using inv unfolding addr_inv_def by blast+
  have r: "ref < ZB_IEEE_ADDR_TABLE_SIZE" using ref by (simp add: used_refs_def)
  note d = del_srefs [OF i(1,2) c, of ref]
  have nth: "addr_map g' ! j = (if j = ref then (addr_map g ! ref)\<lparr>am_used := False\<rparr> else addr_map g ! j)" for j
    using i(3) r by (simp add: g'_def zb_address_delete_def Let_def upd_ent_nth)
  have s: "srefs g' = remove1 ref (srefs g)" "short_sorted g' = short_sorted ?d"
    "n_sorted_elements g' = n_sorted_elements ?d"
    using d by (simp_all add: g'_def zb_address_delete_def Let_def srefs_def)
  have u: "used_refs g' = used_refs g - {ref}" using nth by (auto simp: used_refs_def)
  have ra: "ref_addr g' = ref_addr g" by (simp add: ref_addr_def fun_eq_iff nth)
  have "sorted (map (ref_addr g) (remove1 ref (srefs g)))"
    using d conjunct2 [OF d, unfolded srefs_ok_def] by (simp only: del_short_sorted_sel)
  then have "srefs_ok g'" using d unfolding srefs_ok_def s ra by simp
  moreover have "set (srefs g') = {r \<in> used_refs g'. ref_addr g' r \<noteq> ZB_UNKNOWN_SHORT_ADDR}"
    unfolding s(1) u ra using i(2,4) by (auto simp: set_remove1_eq)
  moreover have "0 < card (used_refs g)" using ref finite_used card_gt_0_iff by blast
  then have "n_elements g' = card (used_refs g')"
    unfolding u using ref i(5) by (simp add: g'_def zb_address_delete_def Let_def)
  moreover have "distinct (srefs g')" "clock_i g' \<le> ZB_IEEE_ADDR_TABLE_SIZE"
    "length (addr_map g') = ZB_IEEE_ADDR_TABLE_SIZE"
    using i unfolding s(1) by (simp_all add: g'_def zb_address_delete_def Let_def distinct_remove1)
  ultimately have "addr_inv g'" unfolding addr_inv_def by blast
  moreover have "dev_manufacturer g' = dev_manufacturer g" "used_manufacturer g' = used_manufacturer g"
    by (simp_all add: g'_def zb_address_delete_def Let_def upd_ent_def)
  ultimately show ?thesis using u s(1) nth by simp
qed

section \<open>Searching\<close>

lemma short_search_inv:
  assumes inv: "addr_inv g" and a: "a \<noteq> ZB_UNKNOWN_SHORT_ADDR"
  shows "case short_search a g of
      Some r \<Rightarrow> r \<in> used_refs g \<and> ref_addr g r = a
    | None \<Rightarrow> \<forall>r\<in>used_refs g. ref_addr g r \<noteq> a"
proof -
  have "srefs_ok g" and s: "set (srefs g) = {r \<in> used_refs g. ref_addr g r \<noteq> ZB_UNKNOWN_SHORT_ADDR}"
    using inv unfolding addr_inv_def by blast+
  from short_search_spec [OF this(1), of a] show ?thesis
    unfolding s using a by (auto split: option.splits)
qed

lemma ieee_search_spec:
  "case ieee_search c g of
      Some r \<Rightarrow> r \<in> used_refs g \<and> zb_address_compressed_cmp (am_ieee (addr_map g ! r)) c
    | None \<Rightarrow> \<forall>r\<in>used_refs g. \<not> zb_address_compressed_cmp (am_ieee (addr_map g ! r)) c"
proof (cases "ieee_search c g")
  case None
  then have "\<forall>i<ZB_IEEE_ADDR_TABLE_SIZE. \<not> (am_used (addr_map g ! i)
      \<and> zb_address_compressed_cmp (am_ieee (addr_map g ! i)) c)"
    unfolding ieee_search_def find_probe_None [OF hash_bounds(2)] .
  with None show ?thesis by (simp add: used_refs_def)
next
  case (Some r)
  from find_probe_Some [OF hash_bounds(2) Some [unfolded ieee_search_def]] Some
  show ?thesis by (simp add: used_refs_def)
qed

section \<open>Manufacturers\<close>

definition man_inv :: "zb_addr_globals \<Rightarrow> bool" where
  "man_inv g \<longleftrightarrow> length (used_manufacturer g) = 3
     \<and> length (dev_manufacturer g) = ZB_DEV_MANUFACTORER_TABLE_SIZE
     \<and> (\<forall>i<ZB_DEV_MANUFACTORER_TABLE_SIZE. check_bit (used_manufacturer g) i \<longrightarrow>
          length (dev_manufacturer g ! i) = 3)
     \<and> inj_on (\<lambda>i. dev_manufacturer g ! i)
          {i. i < ZB_DEV_MANUFACTORER_TABLE_SIZE \<and> check_bit (used_manufacturer g) i}"

text \<open>A compressed address that the table can give back.\<close>

definition comp_ok :: "zb_addr_globals \<Rightarrow> zb_ieee_addr_compressed \<Rightarrow> bool" where
  "comp_ok g c \<longleftrightarrow> man_ref c < ZB_DEV_MANUFACTORER_TABLE_SIZE
     \<and> check_bit (used_manufacturer g) (man_ref c) \<and> length (device_id c) = 5"

lemma man_scan_spec:
  "case man_scan g a js fr of
     None \<Rightarrow> fr = None \<and> (\<forall>i\<in>set js. check_bit (used_manufacturer g) i \<and> dev_manufacturer g ! i \<noteq> take 3 a)
   | Some i \<Rightarrow> i \<in> set js \<and> check_bit (used_manufacturer g) i \<and> dev_manufacturer g ! i = take 3 a
       \<or> (fr = Some i \<or> i \<in> set js \<and> \<not> check_bit (used_manufacturer g) i)
         \<and> (\<forall>j\<in>set js. check_bit (used_manufacturer g) j \<longrightarrow> dev_manufacturer g ! j \<noteq> take 3 a)"
proof (induction js arbitrary: fr)
  case Nil
  then show ?case by (simp split: option.split)
next
  case (Cons i js)
  consider "check_bit (used_manufacturer g) i \<and> dev_manufacturer g ! i = take 3 a"
    | "check_bit (used_manufacturer g) i \<and> dev_manufacturer g ! i \<noteq> take 3 a"
    | "\<not> check_bit (used_manufacturer g) i" by blast
  then show ?case
  proof cases
    case 1
    then show ?thesis by simp
  next
    case 2
    with Cons.IH [of fr] show ?thesis by (auto split: option.splits)
  next
    case 3
    with Cons.IH [of "Some i"] show ?thesis by (auto split: option.splits)
  qed
qed

lemma compress_spec:
  assumes inv: "man_inv g" and len: "length a = 8" and c: "zb_ieee_addr_compress a g = Some (c, g')"
  shows "man_inv g' \<and> comp_ok g' c \<and> zb_ieee_addr_decompress c g' = a"
    and "comp_ok g c' \<Longrightarrow> comp_ok g' c' \<and> zb_ieee_addr_decompress c' g' = zb_ieee_addr_decompress c' g"
    and "addr_map g' = addr_map g" "addr_inv g' = addr_inv g" "srefs g' = srefs g" "stale g' = stale g"
    "used_refs g' = used_refs g"
proof -
  let ?N = "ZB_DEV_MANUFACTORER_TABLE_SIZE"
  obtain i where scan: "man_scan g a [0..<?N] None = Some i"
    and c': "c = \<lparr>man_ref = i, device_id = take 5 (drop 3 a)\<rparr>"
    and g': "g' = g\<lparr>used_manufacturer := set_bit_vec (used_manufacturer g) i,
        dev_manufacturer := (dev_manufacturer g)[i := take 3 a]\<rparr>"
    using c by (auto simp: zb_ieee_addr_compress_def split: option.splits)
  have i: "i < ?N" and cases: "check_bit (used_manufacturer g) i \<and> dev_manufacturer g ! i = take 3 a
      \<or> \<not> check_bit (used_manufacturer g) i
        \<and> (\<forall>j<?N. check_bit (used_manufacturer g) j \<longrightarrow> dev_manufacturer g ! j \<noteq> take 3 a)"
    using man_scan_spec [where g = g and a = a and js = "[0..<?N]" and fr = None] scan by auto
  have lens: "length (used_manufacturer g) = 3" "length (dev_manufacturer g) = ?N"
    using inv by (simp_all add: man_inv_def)
  have chk: "check_bit (used_manufacturer g') j \<longleftrightarrow> j = i \<or> check_bit (used_manufacturer g) j" if "j < ?N" for j
    using that i lens by (simp add: g' check_set_bit ZB_DEV_MANUFACTORER_TABLE_SIZE_def)
  have dev: "dev_manufacturer g' ! j = (if j = i then take 3 a else dev_manufacturer g ! j)" if "j < ?N" for j
    using that lens i by (simp add: g' nth_list_update)
  have keep: "dev_manufacturer g' ! j = dev_manufacturer g ! j"
    if "j < ?N" "check_bit (used_manufacturer g) j" for j
    using dev [OF that(1)] that cases by auto
  have inj: "inj_on (\<lambda>j. dev_manufacturer g ! j) {j. j < ?N \<and> check_bit (used_manufacturer g) j}"
    and l3: "\<And>j. j < ?N \<Longrightarrow> check_bit (used_manufacturer g) j \<Longrightarrow> length (dev_manufacturer g ! j) = 3"
    using inv by (simp_all add: man_inv_def)
  have "inj_on (\<lambda>j. dev_manufacturer g' ! j) {j. j < ?N \<and> check_bit (used_manufacturer g') j}"
  proof (rule inj_onI, clarify)
    fix j k
    assume jk: "j < ?N" "check_bit (used_manufacturer g') j" "k < ?N" "check_bit (used_manufacturer g') k"
      and eq: "dev_manufacturer g' ! j = dev_manufacturer g' ! k"
    show "j = k"
    proof (cases "check_bit (used_manufacturer g) j \<and> check_bit (used_manufacturer g) k")
      case True
      with eq jk keep inj show ?thesis by (auto dest: inj_onD)
    next
      case False
      then have "\<not> check_bit (used_manufacturer g) i" "j = i \<or> k = i" using jk chk by auto
      with cases eq jk dev chk show ?thesis by (metis (no_types, lifting))
    qed
  qed
  moreover have "\<forall>j<?N. check_bit (used_manufacturer g') j \<longrightarrow> length (dev_manufacturer g' ! j) = 3"
    using dev chk l3 len by auto
  ultimately have "man_inv g'" using lens by (simp add: man_inv_def) (simp add: g')
  moreover have "take 3 a @ take 5 (drop 3 a) = a" using len append_take_drop_id [of 3 a] by simp
  ultimately show "man_inv g' \<and> comp_ok g' c \<and> zb_ieee_addr_decompress c g' = a"
    using chk [OF i] dev [OF i] i len by (simp add: comp_ok_def c' zb_ieee_addr_decompress_def)
  show "comp_ok g' c' \<and> zb_ieee_addr_decompress c' g' = zb_ieee_addr_decompress c' g" if "comp_ok g c'"
    using that chk keep by (simp add: comp_ok_def zb_ieee_addr_decompress_def)
  show "addr_map g' = addr_map g" "srefs g' = srefs g" "stale g' = stale g" "used_refs g' = used_refs g"
    by (simp_all add: g' srefs_def stale_def used_refs_def)
  have "ref_addr g' = ref_addr g" by (simp add: g' ref_addr_def fun_eq_iff)
  then show "addr_inv g' = addr_inv g"
    by (simp add: addr_inv_def srefs_ok_def srefs_def used_refs_def g')
qed

text \<open>On compressed addresses of one table, comparing them is comparing the addresses.\<close>

lemma compressed_cmp_spec:
  assumes "man_inv g" "comp_ok g c" "comp_ok g c'"
  shows "zb_address_compressed_cmp c c' \<longleftrightarrow> zb_ieee_addr_decompress c g = zb_ieee_addr_decompress c' g"
proof -
  have l: "length (dev_manufacturer g ! man_ref c) = 3" "length (dev_manufacturer g ! man_ref c') = 3"
    using assms by (simp_all add: man_inv_def comp_ok_def)
  have "dev_manufacturer g ! man_ref c = dev_manufacturer g ! man_ref c' \<longleftrightarrow> man_ref c = man_ref c'"
    using assms by (auto simp: man_inv_def comp_ok_def dest: inj_onD)
  with l assms show ?thesis
    by (auto simp: zb_address_compressed_cmp_def zb_ieee_addr_decompress_def comp_ok_def)
qed

end
