(* ===== verification/Address_Update.thy ===== *)
theory Address_Update
  imports Address_Inv
begin

text \<open>
  \<^verbatim>\<open>zb_address_update\<close>: changing the short address of an entry, resolving two entries
  for one device, and the result of the whole function.
\<close>

lemma clean_del:
  assumes ok: "srefs_ok g" and d: "distinct (srefs g)" and c: "clean g"
  shows "clean (del_short_sorted ref g)"
proof (cases "ref \<in> set (srefs g)")
  case False
  with del_short_sorted_miss [OF ok] c show ?thesis by simp
next
  case True
  then obtain xs ys where s: "srefs g = xs @ ref # ys" by (meson split_list)
  then have nin: "ref \<notin> set xs" "ref \<notin> set ys" using d by auto
  have st: "stale g \<noteq> ref" "stale g \<notin> set (xs @ ys)" using c s by (auto simp: clean_def)
  have "stale (del_short_sorted ref g) = (if ys = [] then ref else stale g)"
    using del_short_sorted_hit(4) [OF ok s nin] st by simp
  moreover have "srefs (del_short_sorted ref g) = xs @ ys"
    using del_short_sorted_hit(1) [OF ok s nin] st by simp
  ultimately show ?thesis using st nin by (simp add: clean_def)
qed

lemma clean_delete:
  assumes "addr_inv g" "clean g"
  shows "clean (zb_address_delete ref g)"
proof -
  have "srefs_ok g" "distinct (srefs g)" using assms(1) unfolding addr_inv_def by blast+
  from clean_del [OF this assms(2), of ref] show ?thesis
    by (simp add: clean_def zb_address_delete_def Let_def srefs_def stale_def)
qed

lemma set_clock_sel [simp]:
  "short_sorted (set_clock i g) = short_sorted g" "n_sorted_elements (set_clock i g) = n_sorted_elements g"
  "n_elements (set_clock i g) = n_elements g" "clock_i (set_clock i g) = clock_i g"
  "srefs (set_clock i g) = srefs g" "length (addr_map (set_clock i g)) = length (addr_map g)"
  "dev_manufacturer (set_clock i g) = dev_manufacturer g"
  "used_manufacturer (set_clock i g) = used_manufacturer g"
  by (simp_all add: set_clock_def upd_ent_def srefs_def)

lemma set_clock_nth:
  "i < length (addr_map g) \<Longrightarrow> no_clock (addr_map (set_clock i g) ! j) = no_clock (addr_map g ! j)"
  by (simp add: set_clock_def upd_ent_nth)

lemma no_clock_eqD:
  assumes "no_clock e = no_clock e'"
  shows "am_used e = am_used e'" "am_addr e = am_addr e'" "am_ieee e = am_ieee e'" "lock_cnt e = lock_cnt e'"
  using assms by (metis no_clock_sel)+

lemma addr_inv_no_clock:
  assumes inv: "addr_inv g" and nc: "\<And>j. no_clock (addr_map g' ! j) = no_clock (addr_map g ! j)"
    and rest: "length (addr_map g') = length (addr_map g)" "short_sorted g' = short_sorted g"
      "n_sorted_elements g' = n_sorted_elements g" "n_elements g' = n_elements g" "clock_i g' = clock_i g"
  shows "addr_inv g'"
proof (rule addr_inv_cong [OF inv _ _ rest(2,3,4)])
  show "length (addr_map g') = ZB_IEEE_ADDR_TABLE_SIZE" "clock_i g' \<le> ZB_IEEE_ADDR_TABLE_SIZE"
    using inv rest by (simp_all add: addr_inv_def)
  show "am_used (addr_map g' ! r) = am_used (addr_map g ! r) \<and> am_addr (addr_map g' ! r) = am_addr (addr_map g ! r)" for r
    using no_clock_eqD [OF nc [of r]] by simp
qed

lemma update_entry_inv:
  fixes co :: zb_ieee_addr_compressed
  assumes inv: "addr_inv g" and ref: "ref \<in> used_refs g" and c: "clean g" and a: "a \<noteq> ZB_UNKNOWN_SHORT_ADDR"
  defines "g' \<equiv> update_entry ref co a g"
  shows "addr_inv g' \<and> used_refs g' = used_refs g \<and> am_addr (addr_map g' ! ref) = a
    \<and> am_ieee (addr_map g' ! ref) = co
    \<and> (\<forall>j. j \<noteq> ref \<longrightarrow> no_clock (addr_map g' ! j) = no_clock (addr_map g ! j))
    \<and> dev_manufacturer g' = dev_manufacturer g \<and> used_manufacturer g' = used_manufacturer g"
proof -
  let ?N = "ZB_IEEE_ADDR_TABLE_SIZE"
  have i: "srefs_ok g" "distinct (srefs g)" "length (addr_map g) = ?N"
    "set (srefs g) = {r \<in> used_refs g. ref_addr g r \<noteq> ZB_UNKNOWN_SHORT_ADDR}"
    "n_elements g = card (used_refs g)" "clock_i g \<le> ?N"
    using inv unfolding addr_inv_def by blast+
  have r: "ref < ?N" "am_used (addr_map g ! ref)" using ref by (simp_all add: used_refs_def)
  define g1 where "g1 = upd_ent ref (\<lambda>e. e\<lparr>am_ieee := co\<rparr>) g"
  have n1: "addr_map g1 ! j = (if j = ref then (addr_map g ! ref)\<lparr>am_ieee := co\<rparr> else addr_map g ! j)" for j
    using r i(3) by (simp add: g1_def upd_ent_nth)
  have inv1: "addr_inv g1"
    by (rule addr_inv_cong [OF inv]) (use i r n1 in \<open>simp_all add: g1_def\<close>)
  have u1: "used_refs g1 = used_refs g" using n1 r by (auto simp: used_refs_def)
  have dm1: "dev_manufacturer g1 = dev_manufacturer g" "used_manufacturer g1 = used_manufacturer g"
    by (simp_all add: g1_def upd_ent_def)
  show ?thesis
  proof (cases "am_addr (addr_map g ! ref) = a")
    case True
    then have g': "g' = set_clock ref g1" using n1 [of ref]
      by (simp add: g'_def update_entry_def Let_def g1_def [symmetric])
    have len1: "ref < length (addr_map g1)" using inv1 r by (simp add: addr_inv_def)
    note nc = set_clock_nth [OF len1]
    have "addr_inv g'" unfolding g' by (rule addr_inv_no_clock [OF inv1 nc]) simp_all
    moreover have "used_refs g' = used_refs g1"
      unfolding g' used_refs_def using no_clock_eqD(1) [OF nc] by simp
    moreover have "am_addr (addr_map g' ! ref) = a" "am_ieee (addr_map g' ! ref) = co"
      using no_clock_eqD(2,3) [OF nc [of ref]] n1 [of ref] True by (simp_all add: g')
    moreover have "\<forall>j. j \<noteq> ref \<longrightarrow> no_clock (addr_map g' ! j) = no_clock (addr_map g ! j)"
      unfolding g' using nc n1 by simp
    ultimately show ?thesis using dm1 u1 by (simp add: g')
  next
    case False
    have i1: "srefs_ok g1" "distinct (srefs g1)" "length (addr_map g1) = ?N"
      "set (srefs g1) = {r \<in> used_refs g1. ref_addr g1 r \<noteq> ZB_UNKNOWN_SHORT_ADDR}"
      "n_elements g1 = card (used_refs g1)" "clock_i g1 \<le> ?N"
      using inv1 unfolding addr_inv_def by blast+
    have c1: "clean g1" using c by (simp add: clean_def g1_def)
    let ?d = "del_short_sorted ref g1"
    have dd: "(if am_addr (addr_map g1 ! ref) \<noteq> ZB_UNKNOWN_SHORT_ADDR then ?d else g1) = ?d"
    proof -
      have "ref \<notin> set (srefs g1)" if "am_addr (addr_map g1 ! ref) = ZB_UNKNOWN_SHORT_ADDR"
        using that by (simp add: i1(4) ref_addr_def)
      then show ?thesis using del_short_sorted_miss [OF i1(1)] by auto
    qed
    note ds = del_srefs [OF i1(1,2) c1, of ref]
    define g4 where "g4 = upd_ent ref (\<lambda>e. e\<lparr>am_addr := a\<rparr>) ?d"
    define g5 where "g5 = add_short_sorted ref a g4"
    have g': "g' = set_clock ref g5" using False n1 [of ref] dd
      by (simp add: g'_def update_entry_def Let_def g1_def [symmetric] g4_def [symmetric] g5_def [symmetric])
    have n4: "addr_map g4 ! j = (if j = ref then (addr_map g1 ! ref)\<lparr>am_addr := a\<rparr> else addr_map g1 ! j)" for j
      using r i1(3) by (simp add: g4_def upd_ent_nth)
    have s4: "srefs g4 = remove1 ref (srefs g1)" "ref \<notin> set (srefs g4)"
      using ds i1(2) by (simp_all add: g4_def set_remove1_eq)
    have ra4: "ref_addr g4 q = (if q = ref then a else ref_addr g1 q)" for q by (simp add: ref_addr_def n4)
    have m4: "map (ref_addr g4) (srefs g4) = map (ref_addr ?d) (srefs ?d)"
      using s4 ds ra4 by (intro map_cong) (auto simp: s4(1) i1(2) set_remove1_eq)
    have "sorted (map (ref_addr g4) (srefs g4))" unfolding m4 using ds unfolding srefs_ok_def by blast
    moreover have "short_sorted g4 = short_sorted ?d" "n_sorted_elements g4 = n_sorted_elements ?d"
      by (simp_all add: g4_def)
    ultimately have ok4: "srefs_ok g4" using ds unfolding srefs_ok_def by simp
    have "distinct (srefs g4)" using s4(1) i1(2) by (simp add: distinct_remove1)
    have room: "n_sorted_elements g4 < ?N"
    proof -
      have "set (srefs g4) \<subseteq> {..<?N} - {ref}" using s4 i1(2,4) used_refs_subset [of g1] by auto
      then have "card (set (srefs g4)) \<le> card ({..<?N} - {ref})" by (intro card_mono) auto
      then show ?thesis using r length_srefs [OF ok4] distinct_card [OF \<open>distinct (srefs g4)\<close>]
        by (simp add: card_Diff_singleton) 
    qed
    have len4: "length (addr_map g4) = ?N" using i1(3) by (simp add: g4_def)
    have add: "srefs_ok g5 \<and> distinct (srefs g5) \<and> set (srefs g5) = insert ref (set (srefs g4))
        \<and> addr_map g5 = addr_map g4 \<and> n_elements g5 = n_elements g4 \<and> clock_i g5 = clock_i g4"
      unfolding g5_def
      by (rule add_sorted_inv [OF len4 ok4 \<open>distinct (srefs g4)\<close> room s4(2)]) (simp add: ra4)
    have u5: "used_refs g5 = used_refs g" using add n4 n1 r by (auto simp: used_refs_def)
    have ra5: "ref_addr g5 q = (if q = ref then a else ref_addr g1 q)" for q
      using add ra4 by (simp add: ref_addr_def)
    have "set (srefs g5) = {q \<in> used_refs g5. ref_addr g5 q \<noteq> ZB_UNKNOWN_SHORT_ADDR}"
      using add s4(1) i1(2,4) u5 u1 ref a unfolding ra5 by auto
    then have inv5: "addr_inv g5"
      using add i1 len4 u5 u1 by (simp add: addr_inv_def) (simp add: g4_def)
    have len5: "ref < length (addr_map g5)" using inv5 r by (simp add: addr_inv_def)
    note nc = set_clock_nth [OF len5]
    have "addr_inv g'" unfolding g' by (rule addr_inv_no_clock [OF inv5 nc]) simp_all
    moreover have "used_refs g' = used_refs g5"
      unfolding g' used_refs_def using no_clock_eqD(1) [OF nc] by simp
    moreover have "am_addr (addr_map g5 ! ref) = a" "am_ieee (addr_map g5 ! ref) = co"
      using add n4 [of ref] n1 [of ref] by simp_all
    then have "am_addr (addr_map g' ! ref) = a" "am_ieee (addr_map g' ! ref) = co"
      using no_clock_eqD(2,3) [OF nc [of ref]] by (simp_all add: g')
    moreover have "\<forall>j. j \<noteq> ref \<longrightarrow> no_clock (addr_map g' ! j) = no_clock (addr_map g ! j)"
      unfolding g' using nc add n4 n1 by simp
    moreover have "dev_manufacturer g5 = dev_manufacturer g1" "used_manufacturer g5 = used_manufacturer g1"
      by (simp_all add: g5_def add_short_sorted_def Let_def g4_def upd_ent_def)
    ultimately show ?thesis using dm1 u5 by (simp add: g')
  qed
qed

end
