(* ===== verification/Address_Props.thy ===== *)
theory Address_Props
  imports Address_Update
begin

text \<open>
  What the address translation promises: a PAN identifier, a long and a short address can
  be found again under the reference they were stored with, and the references of other
  devices do not move. The exceptions are stated too: deletion can drop a second device
  from the search by short address, and a seventeenth manufacturer or a sixteenth lock stops
  the program.
\<close>

definition addr_zero :: zb_addr_globals where
  "addr_zero = \<lparr>used_manufacturer = [0, 0, 0], dev_manufacturer = replicate 16 [0, 0, 0],
     pan_map = replicate 8 \<lparr>long_panid = replicate 8 0, short_panid = 0\<rparr>, used_pan_addr = [0, 0],
     addr_map = replicate 101 \<lparr>am_ieee = zero_compressed, am_addr = 0, aps_dup_counter = 0,
       am_used = False, lock_cnt = 0, am_clock = False, aps_dup_clock = 0\<rparr>,
     short_sorted = replicate 101 0, sorted_next = 0, n_elements = 0, n_sorted_elements = 0, clock_i = 0\<rparr>"

lemma addr_zero_inv [simp]: "addr_inv addr_zero" "used_refs addr_zero = {}" "srefs addr_zero = []"
  "clean addr_zero"
proof -
  show u: "used_refs addr_zero = {}" by (simp add: used_refs_def addr_zero_def ZB_IEEE_ADDR_TABLE_SIZE_def)
  show s: "srefs addr_zero = []" by (simp add: srefs_def addr_zero_def)
  show "addr_inv addr_zero"
    by (simp add: addr_inv_def srefs_ok_def u s) (simp add: addr_zero_def ZB_IEEE_ADDR_TABLE_SIZE_def)
  show "clean addr_zero" by (simp add: clean_def s)
qed

lemma addr_zero_man [simp]: "man_inv addr_zero"
proof -
  have "\<not> check_bit [0, 0, 0] i" if "i < 16" for i
    using that by (auto simp: check_bit_def nth_Cons' )
  then have e: "{i. i < 16 \<and> check_bit [0, 0, 0] i} = {}" by auto
  then show ?thesis
    by (auto simp: man_inv_def addr_zero_def ZB_DEV_MANUFACTORER_TABLE_SIZE_def e)
qed

section \<open>PAN identifiers\<close>

lemma pan_scan_spec:
  "case pan_scan g p js fr of
     (Some i, f) \<Rightarrow> i \<in> set js \<and> check_bit (used_pan_addr g) i \<and> long_panid (pan_map g ! i) = p
   | (None, Some f) \<Rightarrow> (fr = Some f \<or> f \<in> set js \<and> \<not> check_bit (used_pan_addr g) f)
       \<and> (\<forall>i\<in>set js. check_bit (used_pan_addr g) i \<longrightarrow> long_panid (pan_map g ! i) \<noteq> p)
   | (None, None) \<Rightarrow> fr = None
       \<and> (\<forall>i\<in>set js. check_bit (used_pan_addr g) i \<and> long_panid (pan_map g ! i) \<noteq> p)"
proof (induction js arbitrary: fr)
  case Nil
  then show ?case by (simp split: option.split)
next
  case (Cons i js)
  consider "check_bit (used_pan_addr g) i \<and> long_panid (pan_map g ! i) = p"
    | "check_bit (used_pan_addr g) i \<and> long_panid (pan_map g ! i) \<noteq> p"
    | "\<not> check_bit (used_pan_addr g) i" by blast
  then show ?case
  proof cases
    case 1
    then show ?thesis by simp
  next
    case 2
    with Cons.IH [of fr] show ?thesis by (auto split: option.splits prod.splits)
  next
    case 3
    with Cons.IH [of "Some i"] show ?thesis by (auto split: option.splits prod.splits)
  qed
qed

definition pan_inv :: "zb_addr_globals \<Rightarrow> bool" where
  "pan_inv g \<longleftrightarrow> length (pan_map g) = ZB_PANID_TABLE_SIZE \<and> length (used_pan_addr g) = 2"

text \<open>
  Storing an extended PAN identifier answers with a reference under which the
  identifier is read back and which the search by identifier finds; an identifier that is
  already stored keeps its entry (and its old short identifier). All other references in use
  keep their identifiers. It fails, changing nothing, iff all eight entries are taken by other
  identifiers.
\<close>

theorem pan_id_round_trip:
  assumes inv: "pan_inv g" and set: "zb_address_set_pan_id sp p g = (ret, ref, g')"
  shows "pan_inv g' \<and>
    (case ref of
       Some r \<Rightarrow> zb_address_get_pan_id r g' = Some p
         \<and> (\<exists>q. zb_address_get_pan_id_ref p g' = (RET_OK, Some q) \<and> zb_address_get_pan_id q g' = Some p)
         \<and> (if ret = RET_OK then \<not> pan_ref_ok r g \<and> zb_address_get_short_pan_id r g' = Some sp
            else ret = RET_ALREADY_EXISTS \<and> g' = g)
         \<and> (\<forall>q. q \<noteq> r \<longrightarrow> zb_address_get_pan_id q g' = zb_address_get_pan_id q g)
     | None \<Rightarrow> ret = RET_OVERFLOW \<and> g' = g
         \<and> (\<forall>i<ZB_PANID_TABLE_SIZE. \<exists>p'. p' \<noteq> p \<and> zb_address_get_pan_id i g = Some p'))"
proof -
  let ?N = "ZB_PANID_TABLE_SIZE"
  let ?js = "probe ?N (pan_id_hash p)"
  have js: "set ?js = {..<?N}" by (simp add: set_probe)
  have found: "\<exists>q. zb_address_get_pan_id_ref p h = (RET_OK, Some q) \<and> zb_address_get_pan_id q h = Some p"
    if "zb_address_get_pan_id r h = Some p" for r h
  proof -
    let ?P = "\<lambda>i. check_bit (used_pan_addr h) i \<and> long_panid (pan_map h ! i) = p"
    have "\<exists>i<?N. ?P i" using that
      by (auto simp: zb_address_get_pan_id_def pan_ref_ok_def split: if_splits)
    then obtain q where "find ?P ?js = Some q"
      using find_probe_None [OF hash_bounds(1), of ?P p] by (metis not_None_eq)
    with find_probe_Some [OF hash_bounds(1) this] show ?thesis
      by (simp add: zb_address_get_pan_id_ref_def zb_address_get_pan_id_def pan_ref_ok_def)
  qed
  obtain o1 o2 where sc: "pan_scan g p ?js None = (o1, o2)" by fastforce
  note spec = pan_scan_spec [where g = g and p = p and js = ?js and fr = None, unfolded sc js]
  consider (old) i where "o1 = Some i" | (new) f where "o1 = None" "o2 = Some f" | (full) "o1 = None" "o2 = None"
    by (cases o1; cases o2) auto
  then show ?thesis
  proof cases
    case (old i)
    then have "ret = RET_ALREADY_EXISTS" "ref = Some i" "g' = g"
      using set sc by (simp_all add: zb_address_set_pan_id_def)
    moreover have "zb_address_get_pan_id i g = Some p"
      using spec old by (simp add: zb_address_get_pan_id_def pan_ref_ok_def)
    ultimately show ?thesis using found inv by simp
  next
    case (new f)
    then have r: "ret = RET_OK" "ref = Some f"
      "g' = g\<lparr>pan_map := (pan_map g)[f := \<lparr>long_panid = p, short_panid = sp\<rparr>],
             used_pan_addr := set_bit_vec (used_pan_addr g) f\<rparr>"
      using set sc by (simp_all add: zb_address_set_pan_id_def)
    have f: "f < ?N" "\<not> check_bit (used_pan_addr g) f" using spec new by auto
    have chk: "check_bit (used_pan_addr g') q \<longleftrightarrow> q = f \<or> check_bit (used_pan_addr g) q" if "q < ?N" for q
      using that f inv by (simp add: r(3) check_set_bit pan_inv_def ZB_PANID_TABLE_SIZE_def)
    have map: "pan_map g' ! q = (if q = f then \<lparr>long_panid = p, short_panid = sp\<rparr> else pan_map g ! q)" if "q < ?N" for q
      using that f inv by (simp add: r(3) pan_inv_def)
    have get: "zb_address_get_pan_id f g' = Some p" "zb_address_get_short_pan_id f g' = Some sp"
      using f chk map
      by (simp_all add: zb_address_get_pan_id_def zb_address_get_short_pan_id_def pan_ref_ok_def)
    have "zb_address_get_pan_id q g' = zb_address_get_pan_id q g" if "q \<noteq> f" for q
      using that chk [of q] map [of q] by (auto simp: zb_address_get_pan_id_def pan_ref_ok_def)
    moreover have "pan_inv g'" using inv by (simp add: pan_inv_def r(3))
    ultimately show ?thesis using get found [OF get(1)] r(1,2) f by (simp add: pan_ref_ok_def)
  next
    case full
    then have "ret = RET_OVERFLOW" "ref = None" "g' = g"
      using set sc by (simp_all add: zb_address_set_pan_id_def)
    with spec full inv show ?thesis by (simp add: zb_address_get_pan_id_def pan_ref_ok_def)
  qed
qed

theorem pan_id_round_trip_witness:
  "\<exists>ret r g'. zb_address_set_pan_id 0x1aaa [1, 2, 3, 4, 5, 6, 7, 8] addr_zero = (ret, r, g') \<and> pan_inv g'"
proof -
  have "pan_inv addr_zero" by (simp add: pan_inv_def addr_zero_def ZB_PANID_TABLE_SIZE_def)
  moreover obtain ret r g' where
    "zb_address_set_pan_id 0x1aaa [1, 2, 3, 4, 5, 6, 7, 8] addr_zero = (ret, r, g')" by (rule prod_cases3)
  ultimately show ?thesis using pan_id_round_trip by blast
qed

section \<open>Long addresses\<close>

text \<open>
  Compressing a long address and decompressing the result gives the address, now and
  after any later compression; addresses compressed earlier keep their meaning, and two of
  them compare equal exactly if the addresses are equal.
\<close>

theorem compress_round_trip:
  assumes "man_inv g" "length a = 8" "zb_ieee_addr_compress a g = Some (c, g')"
  shows "man_inv g' \<and> comp_ok g' c \<and> zb_ieee_addr_decompress c g' = a
    \<and> (\<forall>c'. comp_ok g c' \<longrightarrow> comp_ok g' c' \<and> zb_ieee_addr_decompress c' g' = zb_ieee_addr_decompress c' g
        \<and> (zb_address_compressed_cmp c' c \<longleftrightarrow> zb_ieee_addr_decompress c' g = a))"
  using compress_spec(1,2) [OF assms] compressed_cmp_spec by metis

theorem compress_round_trip_witness:
  "\<exists>c g'. zb_ieee_addr_compress [1, 2, 3, 4, 5, 6, 7, 8] addr_zero = Some (c, g') \<and> man_inv g'
     \<and> zb_ieee_addr_decompress c g' = [1, 2, 3, 4, 5, 6, 7, 8]"
proof -
  have "man_scan addr_zero a [0..<ZB_DEV_MANUFACTORER_TABLE_SIZE] None \<noteq> None" for a
    by (simp add: upt_rec ZB_DEV_MANUFACTORER_TABLE_SIZE_def addr_zero_def check_bit_def)
  then obtain i where "man_scan addr_zero [1, 2, 3, 4, 5, 6, 7, 8] [0..<ZB_DEV_MANUFACTORER_TABLE_SIZE] None = Some i"
    by blast
  then obtain c g' where c: "zb_ieee_addr_compress [1, 2, 3, 4, 5, 6, 7, 8] addr_zero = Some (c, g')"
    by (simp add: zb_ieee_addr_compress_def)
  from compress_round_trip [OF addr_zero_man _ c] c show ?thesis by simp
qed

text \<open>
  Compression, and with it every call that names a long address, even a mere search,
  stops the program iff 16 manufacturers are stored and the address is of none of them.
\<close>

theorem compress_stops_iff_manufacturers_full:
  "zb_ieee_addr_compress a g = None \<longleftrightarrow>
     (\<forall>i<ZB_DEV_MANUFACTORER_TABLE_SIZE. check_bit (used_manufacturer g) i \<and> dev_manufacturer g ! i \<noteq> take 3 a)"
proof -
  have "man_scan g a js fr = None \<longleftrightarrow>
      fr = None \<and> (\<forall>i\<in>set js. check_bit (used_manufacturer g) i \<and> dev_manufacturer g ! i \<noteq> take 3 a)" for js fr
    by (induction js arbitrary: fr) auto
  from this [of "[0..<ZB_DEV_MANUFACTORER_TABLE_SIZE]" None] show ?thesis
    by (auto simp: zb_ieee_addr_compress_def split: option.split)
qed

theorem compress_stops_iff_manufacturers_full_witness:
  "zb_ieee_addr_compress [9, 9, 9, 1, 2, 3, 4, 5]
     (addr_zero\<lparr>used_manufacturer := [255, 255, 0]\<rparr>) = None"
proof -
  have "\<forall>i\<in>set [0..<16]. check_bit [255, 255, 0] i \<and> dev_manufacturer addr_zero ! i \<noteq> [9, 9, 9]"
    by code_simp
  then have "check_bit [255, 255, 0] i \<and> dev_manufacturer addr_zero ! i \<noteq> [9, 9, 9]" if "i < 16" for i
    using that by auto
  then show ?thesis
    unfolding compress_stops_iff_manufacturers_full by (simp add: ZB_DEV_MANUFACTORER_TABLE_SIZE_def)
qed

section \<open>Short addresses\<close>



text \<open>
  Asking for a short address with \<open>create\<close>: an address that is stored is found; a new
  one gets a reference that was not in use, can be searched and read back from then on, and
  no other device changes (but for the clock bits); with all 101 entries in use the answer is
  RET_OVERFLOW and nothing changes. The table stays well-formed in every case.
\<close>

theorem by_short_creates_or_finds:
  assumes inv: "addr_inv g" and a: "a \<noteq> ZB_UNKNOWN_SHORT_ADDR"
  shows "\<exists>ret ref g'. zb_address_by_short a True False g = Some (ret, ref, g') \<and> addr_inv g'
    \<and> (case ref of
         Some r \<Rightarrow> ret = RET_OK \<and> zb_address_short_by_ref r g' = a \<and> used_refs g' = insert r (used_refs g)
           \<and> short_search a g' \<noteq> None
           \<and> (\<forall>q\<in>used_refs g. q \<noteq> r \<longrightarrow> no_clock (addr_map g' ! q) = no_clock (addr_map g ! q))
           \<and> (r \<in> used_refs g \<longleftrightarrow> (\<exists>q\<in>used_refs g. zb_address_short_by_ref q g = a))
       | None \<Rightarrow> ret = RET_OVERFLOW \<and> g' = g \<and> used_refs g = {..<ZB_IEEE_ADDR_TABLE_SIZE}
           \<and> (\<forall>q\<in>used_refs g. zb_address_short_by_ref q g \<noteq> a))"
proof (cases "short_search a g")
  case (Some r)
  then have r: "r \<in> used_refs g" "ref_addr g r = a" using short_search_inv [OF inv a] by auto
  have len: "r < length (addr_map g)" using r(1) inv by (simp add: used_refs_def addr_inv_def)
  note nc = set_clock_nth [OF len]
  have inv': "addr_inv (set_clock r g)" by (rule addr_inv_no_clock [OF inv nc]) simp_all
  have u: "used_refs (set_clock r g) = used_refs g" using no_clock_eqD(1) [OF nc] by (simp add: used_refs_def)
  have ra: "ref_addr (set_clock r g) q = ref_addr g q" for q using no_clock_eqD(2) [OF nc] by (simp add: ref_addr_def)
  have "short_search a (set_clock r g) \<noteq> None"
    using short_search_inv [OF inv' a] r u ra by (auto split: option.splits)
  with Some r inv' u ra nc show ?thesis
    by (auto simp: zb_address_by_short_def lock_if_def zb_address_short_by_ref_def ref_addr_def)
next
  case None
  then have no: "\<forall>q\<in>used_refs g. zb_address_short_by_ref q g \<noteq> a"
    using short_search_inv [OF inv a] by (simp add: zb_address_short_by_ref_def ref_addr_def)
  show ?thesis
  proof (cases "\<exists>i<ZB_IEEE_ADDR_TABLE_SIZE. \<not> am_used (addr_map g ! i)")
    case True
    obtain i g' where add: "addr_add None a g = (RET_OK, Some i, g')" "i < ZB_IEEE_ADDR_TABLE_SIZE"
      "i \<notin> used_refs g" "addr_inv g'" "used_refs g' = insert i (used_refs g)" "am_addr (addr_map g' ! i) = a"
      "\<forall>j<ZB_IEEE_ADDR_TABLE_SIZE. j \<noteq> i \<longrightarrow> no_clock (addr_map g' ! j) = no_clock (addr_map g ! j)"
      using addr_add_inv [OF inv True, of None a] by auto
    have "short_search a g' \<noteq> None"
      using short_search_inv [OF add(4) a] add(5,6) by (auto simp: ref_addr_def split: option.splits)
    with None add no show ?thesis
      by (auto simp: zb_address_by_short_def lock_if_def zb_address_short_by_ref_def used_refs_def)
  next
    case False
    then have "addr_add None a g = (RET_OVERFLOW, None, g)" using addr_add_full [OF inv] by blast
    moreover have "used_refs g = {..<ZB_IEEE_ADDR_TABLE_SIZE}" using False by (auto simp: used_refs_def)
    ultimately show ?thesis using None no inv by (simp add: zb_address_by_short_def lock_if_def)
  qed
qed

theorem by_short_creates_or_finds_witness:
  "\<exists>r g'. zb_address_by_short 0x1234 True False addr_zero = Some (RET_OK, Some r, g') \<and> addr_inv g'
     \<and> zb_address_short_by_ref r g' = 0x1234 \<and> used_refs g' = {r}"
proof -
  have "{} \<noteq> {..<ZB_IEEE_ADDR_TABLE_SIZE}"
    unfolding ZB_IEEE_ADDR_TABLE_SIZE_def by (metis empty_iff lessThan_iff zero_less_numeral)
  with by_short_creates_or_finds [OF addr_zero_inv(1), of "0x1234"] show ?thesis
    by (auto simp: ZB_UNKNOWN_SHORT_ADDR_def split: option.splits)
qed

text \<open>Lookups in a table without entries, with and without a manufacturer stored.\<close>

definition sample_ieee :: ieee where "sample_ieee = [1, 2, 3, 4, 5, 6, 7, 8]"

definition addr_one :: zb_addr_globals where
  "addr_one = addr_zero\<lparr>used_manufacturer := [0, 128, 0], dev_manufacturer := replicate 15 [0, 0, 0] @ [[1, 2, 3]]\<rparr>"

definition sample_compressed :: zb_ieee_addr_compressed where
  "sample_compressed = \<lparr>man_ref = 15, device_id = [4, 5, 6, 7, 8]\<rparr>"

lemma compress_samples:
  "zb_ieee_addr_compress sample_ieee addr_zero = Some (sample_compressed, addr_one)"
  "zb_ieee_addr_compress sample_ieee addr_one = Some (sample_compressed, addr_one)"
proof -
  have u: "[0..<ZB_DEV_MANUFACTORER_TABLE_SIZE] = [0, 1, 2, 3, 4, 5, 6, 7, 8, 9, 10, 11, 12, 13, 14, 15]"
    by (simp add: ZB_DEV_MANUFACTORER_TABLE_SIZE_def upt_rec)
  have b: "\<forall>i\<in>set [0..<15]. \<not> check_bit [0, 128, 0] i" "check_bit [0, 128, 0] 15" "set_bit_vec [0, 0, 0] 15 = [0, 128, 0]"
    "set_bit_vec [0, 128, 0] 15 = [0, 128, 0]" "\<forall>i\<in>set [0..<16]. \<not> check_bit [0, 0, 0] i" by code_simp+
  then have n: "i < 15 \<Longrightarrow> \<not> check_bit [0, 128, 0] i" "i < 16 \<Longrightarrow> \<not> check_bit [0, 0, 0] i" for i by simp_all
  have "man_scan addr_zero sample_ieee [0..<ZB_DEV_MANUFACTORER_TABLE_SIZE] None = Some 15"
    "man_scan addr_one sample_ieee [0..<ZB_DEV_MANUFACTORER_TABLE_SIZE] None = Some 15"
    by (simp_all add: u n b addr_zero_def addr_one_def sample_ieee_def nth_append)
  moreover have "(replicate 16 [0, 0, 0 :: u8])[15 := [1, 2, 3]] = replicate 15 [0, 0, 0] @ [[1, 2, 3]]"
    by (simp add: numeral_eq_Suc)
  ultimately show "zb_ieee_addr_compress sample_ieee addr_zero = Some (sample_compressed, addr_one)"
    "zb_ieee_addr_compress sample_ieee addr_one = Some (sample_compressed, addr_one)"
    by (simp_all add: zb_ieee_addr_compress_def b sample_ieee_def sample_compressed_def addr_zero_def addr_one_def
        list_update_append)
qed

lemma addr_one_inv [simp]: "addr_inv addr_one" "man_inv addr_one" "used_refs addr_one = {}"
  using compress_spec [OF addr_zero_man _ compress_samples(1)] by (simp_all add: sample_ieee_def)

lemma search_empty:
  assumes "addr_inv g" "used_refs g = {}"
  shows "a \<noteq> ZB_UNKNOWN_SHORT_ADDR \<Longrightarrow> short_search a g = None" "ieee_search c g = None"
  using short_search_inv [OF assms(1), of a] ieee_search_spec [where c = c and g = g] assms(2)
  by (auto split: option.splits)

lemma by_ieee_empty:
  "zb_address_by_ieee sample_ieee False lck addr_zero = Some (RET_NOT_FOUND, None, addr_one)"
  "zb_address_by_ieee sample_ieee False lck addr_one = Some (RET_NOT_FOUND, None, addr_one)"
  by (simp_all add: zb_address_by_ieee_def compress_samples search_empty lock_if_def)

lemma update_empty:
  assumes c: "zb_ieee_addr_compress sample_ieee g = Some (sample_compressed, addr_one)" and a: "a \<noteq> ZB_UNKNOWN_SHORT_ADDR"
  shows "\<exists>ref g'. addr_add (Some sample_compressed) a addr_one = (RET_OK, Some ref, g') \<and> ref < ZB_IEEE_ADDR_TABLE_SIZE
     \<and> ref \<in> used_refs g' \<and> zb_address_update sample_ieee a lck g = lock_if lck (RET_OK, Some ref, g')"
proof -
  have "\<exists>i<ZB_IEEE_ADDR_TABLE_SIZE. \<not> am_used (addr_map addr_one ! i)"
    using addr_one_inv(3) by (intro exI [of _ 0]) (auto simp: used_refs_def ZB_IEEE_ADDR_TABLE_SIZE_def)
  from addr_add_inv [OF addr_one_inv(1) this, of "Some sample_compressed" a] c
  obtain ref g' where "addr_add (Some sample_compressed) a addr_one = (RET_OK, Some ref, g')" "ref \<in> used_refs g'"
    by auto
  then show ?thesis using c a
    by (auto simp: zb_address_update_def update_resolve_def search_empty [OF addr_one_inv(1,3)] used_refs_def)
qed

lemma update_addr_zero:
  assumes a: "a \<noteq> ZB_UNKNOWN_SHORT_ADDR"
  shows "\<exists>ref g'. zb_address_update [1, 2, 3, 4, 5, 6, 7, 8] a False addr_zero = Some (RET_OK, Some ref, g')
     \<and> ref < ZB_IEEE_ADDR_TABLE_SIZE"
  using update_empty [OF compress_samples(1) a, of False] by (auto simp: sample_ieee_def lock_if_def)



section \<open>Deleting\<close>

text \<open>Histories of the table: creating an entry for a short address and deleting a reference.\<close>

datatype addr_cmd = Create u16 | Delete nat

fun addr_run :: "addr_cmd list \<Rightarrow> zb_addr_globals \<Rightarrow> zb_addr_globals option" where
  "addr_run [] g = Some g"
| "addr_run (Create a # cs) g =
     (case zb_address_by_short a True False g of None \<Rightarrow> None | Some (_, _, g1) \<Rightarrow> addr_run cs g1)"
| "addr_run (Delete r # cs) g = addr_run cs (zb_address_delete r g)"

text \<open>
  Deleting a reference removes exactly it from the search by short address, except
  that when the slot behind the sorted references still holds an old copy of the same
  reference, the device with the largest short address is dropped as well: the memmove copies
  one element too many and the copy is counted a second time.
\<close>

theorem delete_may_drop_another_device:
  assumes ok: "srefs_ok g" "distinct (srefs g)" and ref: "ref \<in> set (srefs g)"
  shows "srefs (zb_address_delete ref g) =
    (if ref \<noteq> last (srefs g) \<and> stale g = ref then butlast (remove1 ref (srefs g)) else remove1 ref (srefs g))"
proof -
  obtain xs ys where s: "srefs g = xs @ ref # ys" using ref by (meson split_list)
  then have nin: "ref \<notin> set xs" "ref \<notin> set ys" using ok(2) by auto
  have "last (srefs g) = ref \<longleftrightarrow> ys = []" using s nin(2) by (auto simp: last_append)
  moreover have "srefs (zb_address_delete ref g) = srefs (del_short_sorted ref g)"
    by (simp add: zb_address_delete_def Let_def srefs_def)
  moreover have "remove1 ref (srefs g) = xs @ ys" using s nin by (simp add: remove1_append)
  ultimately show ?thesis using del_short_sorted_hit(1) [OF ok(1) s nin] by auto
qed

text \<open>
  The references 2 and 3 are deleted, 2 is given out again, with the smallest address, and
  deleted again: device 1 stays in the table but is no longer found by its address.
\<close>

theorem delete_may_drop_another_device_witness:
  "\<exists>g. addr_run [Create 1, Create 2, Create 9, Create 5, Delete 2, Delete 3, Create 0] addr_zero = Some g
     \<and> srefs g = [2, 0, 1] \<and> srefs (zb_address_delete 2 g) = [0]"
proof -
  let ?cmds = "[Create 1, Create 2, Create 9, Create 5, Delete 2, Delete 3, Create 0]"
  have "map_option (\<lambda>g. (srefs_ok g, distinct (srefs g), srefs g, stale g)) (addr_run ?cmds addr_zero)
      = Some (True, True, [2, 0, 1], 2)" by code_simp
  then obtain g where g: "addr_run ?cmds addr_zero = Some g" "srefs_ok g" "distinct (srefs g)"
    "srefs g = [2, 0, 1]" "stale g = 2" by blast
  from delete_may_drop_another_device [OF g(2,3), of 2] g(1,4,5) show ?thesis by auto
qed

theorem deleted_neighbour_is_lost:
  "map_option (\<lambda>g. (am_used (addr_map g ! 1), am_addr (addr_map g ! 1), short_search 2 g))
     (addr_run [Create 1, Create 2, Create 9, Create 5, Delete 2, Delete 3, Create 0, Delete 2] addr_zero)
   = Some (True, 2, None)"
  by code_simp

section \<open>Locks\<close>

text \<open>
  An entry can be locked 15 times; the next lock stops the program, as does unlocking
  an entry that is not locked. Between that a lock and an unlock cancel out, and no other
  entry changes.
\<close>

theorem lock_unlock_round_trip:
  assumes "ref < length (addr_map g)" "lock_cnt (addr_map g ! ref) < 16"
  shows "(zb_address_lock ref g = None \<longleftrightarrow> lock_cnt (addr_map g ! ref) = 15)
    \<and> (zb_address_unlock ref g = None \<longleftrightarrow> lock_cnt (addr_map g ! ref) = 0)
    \<and> (\<forall>g1. zb_address_lock ref g = Some g1 \<longrightarrow>
        (\<exists>g2. zb_address_unlock ref g1 = Some g2 \<and> (\<forall>j. no_clock (addr_map g2 ! j) = no_clock (addr_map g ! j))))"
proof -
  have "(lock_cnt (addr_map g ! ref) + 1) mod 16 = 0 \<longleftrightarrow> lock_cnt (addr_map g ! ref) = 15"
    using assms(2) by (auto simp: mod_Suc)
  moreover have "no_clock (e\<lparr>lock_cnt := n, am_clock := c, lock_cnt := lock_cnt e\<rparr>) = no_clock e" for e n c
    by (simp add: no_clock_def)
  ultimately show ?thesis using assms
    by (auto simp: zb_address_lock_def zb_address_unlock_def upd_ent_def Let_def nth_list_update mod_Suc
        no_clock_def split: if_splits)
qed

theorem lock_unlock_round_trip_witness:
  "zb_address_unlock 5 addr_zero = None \<and> zb_address_lock 5 addr_zero \<noteq> None"
  using lock_unlock_round_trip [of 5 addr_zero] by (simp add: addr_zero_def)

end
