(* ===== verification/Secur_Aes.thy ===== *)
theory Secur_Aes
  imports Prelude
begin

text \<open>
  The software AES-128 of \<^verbatim>\<open>secur/secur_ccm.c\<close>: the tables as the source spells them, key
  expansion, the four steps of a round and the encryption of one block. A
  \<^verbatim>\<open>zb_uint8_t\<close> array is the list of its bytes; the functions that change an array in place
  return it. The second part gives the field operations that the tables
  tabulate.
\<close>

section \<open>Tables\<close>

definition shift_rows_table :: "nat list" where
  "shift_rows_table = [
    0, 5, 10, 15, 4, 9, 14, 3, 8, 13, 2, 7, 12, 1, 6, 11]"

definition lookup_rcon :: "u8 list" where
  "lookup_rcon = [
    0x8d, 0x01, 0x02, 0x04, 0x08, 0x10, 0x20, 0x40, 0x80, 0x1b, 0x36, 0x6c, 0xd8, 0xab, 0x4d,
    0x9a]"

definition lookup_sbox :: "u8 list" where
  "lookup_sbox = [
    0x63, 0x7c, 0x77, 0x7b, 0xf2, 0x6b, 0x6f, 0xc5, 0x30, 0x01, 0x67, 0x2b, 0xfe, 0xd7, 0xab,
    0x76, 0xca, 0x82, 0xc9, 0x7d, 0xfa, 0x59, 0x47, 0xf0, 0xad, 0xd4, 0xa2, 0xaf, 0x9c, 0xa4,
    0x72, 0xc0, 0xb7, 0xfd, 0x93, 0x26, 0x36, 0x3f, 0xf7, 0xcc, 0x34, 0xa5, 0xe5, 0xf1, 0x71,
    0xd8, 0x31, 0x15, 0x04, 0xc7, 0x23, 0xc3, 0x18, 0x96, 0x05, 0x9a, 0x07, 0x12, 0x80, 0xe2,
    0xeb, 0x27, 0xb2, 0x75, 0x09, 0x83, 0x2c, 0x1a, 0x1b, 0x6e, 0x5a, 0xa0, 0x52, 0x3b, 0xd6,
    0xb3, 0x29, 0xe3, 0x2f, 0x84, 0x53, 0xd1, 0x00, 0xed, 0x20, 0xfc, 0xb1, 0x5b, 0x6a, 0xcb,
    0xbe, 0x39, 0x4a, 0x4c, 0x58, 0xcf, 0xd0, 0xef, 0xaa, 0xfb, 0x43, 0x4d, 0x33, 0x85, 0x45,
    0xf9, 0x02, 0x7f, 0x50, 0x3c, 0x9f, 0xa8, 0x51, 0xa3, 0x40, 0x8f, 0x92, 0x9d, 0x38, 0xf5,
    0xbc, 0xb6, 0xda, 0x21, 0x10, 0xff, 0xf3, 0xd2, 0xcd, 0x0c, 0x13, 0xec, 0x5f, 0x97, 0x44,
    0x17, 0xc4, 0xa7, 0x7e, 0x3d, 0x64, 0x5d, 0x19, 0x73, 0x60, 0x81, 0x4f, 0xdc, 0x22, 0x2a,
    0x90, 0x88, 0x46, 0xee, 0xb8, 0x14, 0xde, 0x5e, 0x0b, 0xdb, 0xe0, 0x32, 0x3a, 0x0a, 0x49,
    0x06, 0x24, 0x5c, 0xc2, 0xd3, 0xac, 0x62, 0x91, 0x95, 0xe4, 0x79, 0xe7, 0xc8, 0x37, 0x6d,
    0x8d, 0xd5, 0x4e, 0xa9, 0x6c, 0x56, 0xf4, 0xea, 0x65, 0x7a, 0xae, 0x08, 0xba, 0x78, 0x25,
    0x2e, 0x1c, 0xa6, 0xb4, 0xc6, 0xe8, 0xdd, 0x74, 0x1f, 0x4b, 0xbd, 0x8b, 0x8a, 0x70, 0x3e,
    0xb5, 0x66, 0x48, 0x03, 0xf6, 0x0e, 0x61, 0x35, 0x57, 0xb9, 0x86, 0xc1, 0x1d, 0x9e, 0xe1,
    0xf8, 0x98, 0x11, 0x69, 0xd9, 0x8e, 0x94, 0x9b, 0x1e, 0x87, 0xe9, 0xce, 0x55, 0x28, 0xdf,
    0x8c, 0xa1, 0x89, 0x0d, 0xbf, 0xe6, 0x42, 0x68, 0x41, 0x99, 0x2d, 0x0f, 0xb0, 0x54, 0xbb,
    0x16]"

definition lookup_g2 :: "u8 list" where
  "lookup_g2 = [
    0x00, 0x02, 0x04, 0x06, 0x08, 0x0a, 0x0c, 0x0e, 0x10, 0x12, 0x14, 0x16, 0x18, 0x1a, 0x1c,
    0x1e, 0x20, 0x22, 0x24, 0x26, 0x28, 0x2a, 0x2c, 0x2e, 0x30, 0x32, 0x34, 0x36, 0x38, 0x3a,
    0x3c, 0x3e, 0x40, 0x42, 0x44, 0x46, 0x48, 0x4a, 0x4c, 0x4e, 0x50, 0x52, 0x54, 0x56, 0x58,
    0x5a, 0x5c, 0x5e, 0x60, 0x62, 0x64, 0x66, 0x68, 0x6a, 0x6c, 0x6e, 0x70, 0x72, 0x74, 0x76,
    0x78, 0x7a, 0x7c, 0x7e, 0x80, 0x82, 0x84, 0x86, 0x88, 0x8a, 0x8c, 0x8e, 0x90, 0x92, 0x94,
    0x96, 0x98, 0x9a, 0x9c, 0x9e, 0xa0, 0xa2, 0xa4, 0xa6, 0xa8, 0xaa, 0xac, 0xae, 0xb0, 0xb2,
    0xb4, 0xb6, 0xb8, 0xba, 0xbc, 0xbe, 0xc0, 0xc2, 0xc4, 0xc6, 0xc8, 0xca, 0xcc, 0xce, 0xd0,
    0xd2, 0xd4, 0xd6, 0xd8, 0xda, 0xdc, 0xde, 0xe0, 0xe2, 0xe4, 0xe6, 0xe8, 0xea, 0xec, 0xee,
    0xf0, 0xf2, 0xf4, 0xf6, 0xf8, 0xfa, 0xfc, 0xfe, 0x1b, 0x19, 0x1f, 0x1d, 0x13, 0x11, 0x17,
    0x15, 0x0b, 0x09, 0x0f, 0x0d, 0x03, 0x01, 0x07, 0x05, 0x3b, 0x39, 0x3f, 0x3d, 0x33, 0x31,
    0x37, 0x35, 0x2b, 0x29, 0x2f, 0x2d, 0x23, 0x21, 0x27, 0x25, 0x5b, 0x59, 0x5f, 0x5d, 0x53,
    0x51, 0x57, 0x55, 0x4b, 0x49, 0x4f, 0x4d, 0x43, 0x41, 0x47, 0x45, 0x7b, 0x79, 0x7f, 0x7d,
    0x73, 0x71, 0x77, 0x75, 0x6b, 0x69, 0x6f, 0x6d, 0x63, 0x61, 0x67, 0x65, 0x9b, 0x99, 0x9f,
    0x9d, 0x93, 0x91, 0x97, 0x95, 0x8b, 0x89, 0x8f, 0x8d, 0x83, 0x81, 0x87, 0x85, 0xbb, 0xb9,
    0xbf, 0xbd, 0xb3, 0xb1, 0xb7, 0xb5, 0xab, 0xa9, 0xaf, 0xad, 0xa3, 0xa1, 0xa7, 0xa5, 0xdb,
    0xd9, 0xdf, 0xdd, 0xd3, 0xd1, 0xd7, 0xd5, 0xcb, 0xc9, 0xcf, 0xcd, 0xc3, 0xc1, 0xc7, 0xc5,
    0xfb, 0xf9, 0xff, 0xfd, 0xf3, 0xf1, 0xf7, 0xf5, 0xeb, 0xe9, 0xef, 0xed, 0xe3, 0xe1, 0xe7,
    0xe5]"

definition lookup_g3 :: "u8 list" where
  "lookup_g3 = [
    0x00, 0x03, 0x06, 0x05, 0x0c, 0x0f, 0x0a, 0x09, 0x18, 0x1b, 0x1e, 0x1d, 0x14, 0x17, 0x12,
    0x11, 0x30, 0x33, 0x36, 0x35, 0x3c, 0x3f, 0x3a, 0x39, 0x28, 0x2b, 0x2e, 0x2d, 0x24, 0x27,
    0x22, 0x21, 0x60, 0x63, 0x66, 0x65, 0x6c, 0x6f, 0x6a, 0x69, 0x78, 0x7b, 0x7e, 0x7d, 0x74,
    0x77, 0x72, 0x71, 0x50, 0x53, 0x56, 0x55, 0x5c, 0x5f, 0x5a, 0x59, 0x48, 0x4b, 0x4e, 0x4d,
    0x44, 0x47, 0x42, 0x41, 0xc0, 0xc3, 0xc6, 0xc5, 0xcc, 0xcf, 0xca, 0xc9, 0xd8, 0xdb, 0xde,
    0xdd, 0xd4, 0xd7, 0xd2, 0xd1, 0xf0, 0xf3, 0xf6, 0xf5, 0xfc, 0xff, 0xfa, 0xf9, 0xe8, 0xeb,
    0xee, 0xed, 0xe4, 0xe7, 0xe2, 0xe1, 0xa0, 0xa3, 0xa6, 0xa5, 0xac, 0xaf, 0xaa, 0xa9, 0xb8,
    0xbb, 0xbe, 0xbd, 0xb4, 0xb7, 0xb2, 0xb1, 0x90, 0x93, 0x96, 0x95, 0x9c, 0x9f, 0x9a, 0x99,
    0x88, 0x8b, 0x8e, 0x8d, 0x84, 0x87, 0x82, 0x81, 0x9b, 0x98, 0x9d, 0x9e, 0x97, 0x94, 0x91,
    0x92, 0x83, 0x80, 0x85, 0x86, 0x8f, 0x8c, 0x89, 0x8a, 0xab, 0xa8, 0xad, 0xae, 0xa7, 0xa4,
    0xa1, 0xa2, 0xb3, 0xb0, 0xb5, 0xb6, 0xbf, 0xbc, 0xb9, 0xba, 0xfb, 0xf8, 0xfd, 0xfe, 0xf7,
    0xf4, 0xf1, 0xf2, 0xe3, 0xe0, 0xe5, 0xe6, 0xef, 0xec, 0xe9, 0xea, 0xcb, 0xc8, 0xcd, 0xce,
    0xc7, 0xc4, 0xc1, 0xc2, 0xd3, 0xd0, 0xd5, 0xd6, 0xdf, 0xdc, 0xd9, 0xda, 0x5b, 0x58, 0x5d,
    0x5e, 0x57, 0x54, 0x51, 0x52, 0x43, 0x40, 0x45, 0x46, 0x4f, 0x4c, 0x49, 0x4a, 0x6b, 0x68,
    0x6d, 0x6e, 0x67, 0x64, 0x61, 0x62, 0x73, 0x70, 0x75, 0x76, 0x7f, 0x7c, 0x79, 0x7a, 0x3b,
    0x38, 0x3d, 0x3e, 0x37, 0x34, 0x31, 0x32, 0x23, 0x20, 0x25, 0x26, 0x2f, 0x2c, 0x29, 0x2a,
    0x0b, 0x08, 0x0d, 0x0e, 0x07, 0x04, 0x01, 0x02, 0x13, 0x10, 0x15, 0x16, 0x1f, 0x1c, 0x19,
    0x1a]"

section \<open>The rounds\<close>

text \<open>\<^verbatim>\<open>xor\<close> on the first \<open>n\<close> bytes of two arrays.\<close>

definition xor_bytes :: "u8 list \<Rightarrow> u8 list \<Rightarrow> nat \<Rightarrow> u8 list" where
  "xor_bytes a b n = map2 (XOR) (take n a) (take n b) @ drop n a"

definition xor_round_key :: "u8 list \<Rightarrow> u8 list \<Rightarrow> nat \<Rightarrow> u8 list" where
  "xor_round_key state keys rnd = xor_bytes state (drop (rnd * 16) keys) 16"

definition sub_bytes :: "u8 list \<Rightarrow> nat \<Rightarrow> u8 list" where
  "sub_bytes a n = map (\<lambda>v. lookup_sbox ! unat v) (take n a) @ drop n a"

definition key_schedule_core :: "u8 list \<Rightarrow> nat \<Rightarrow> u8 list" where
  "key_schedule_core a i =
     (let temp = a ! 0;
          a1 = a[0 := a ! 1];
          a2 = a1[1 := a1 ! 2];
          a3 = a2[2 := a2 ! 3];
          a4 = a3[3 := temp];
          a5 = sub_bytes a4 4
      in a5[0 := a5 ! 0 XOR lookup_rcon ! i])"

text \<open>
  \<^verbatim>\<open>keys\<close> holds the \<^verbatim>\<open>bytes\<close> that are expanded so far, so that
  \<^verbatim>\<open>keys + bytes - 4\<close> is the last four of them. One step of the \<^verbatim>\<open>while\<close> loop adds
  16 bytes and there are ten of them.
\<close>

definition last4 :: "u8 list \<Rightarrow> u8 list" where
  "last4 keys = take 4 (drop (length keys - 4) keys)"

definition xor_previous_block :: "u8 list \<Rightarrow> u8 list \<Rightarrow> u8 list" where
  "xor_previous_block t keys = xor_bytes t (drop (length keys - 16) keys) 4"

primrec expand_tail :: "nat \<Rightarrow> u8 list \<Rightarrow> u8 list" where
  "expand_tail 0 keys = keys"
| "expand_tail (Suc n) keys = expand_tail n (keys @ xor_previous_block (last4 keys) keys)"

primrec expand_steps :: "nat \<Rightarrow> nat \<Rightarrow> u8 list \<Rightarrow> u8 list" where
  "expand_steps 0 i keys = keys"
| "expand_steps (Suc n) i keys =
     expand_steps n (i + 1)
       (expand_tail 3 (keys @ xor_previous_block (key_schedule_core (last4 keys) i) keys))"

definition expand_key :: "u8 list \<Rightarrow> u8 list" where
  "expand_key key = expand_steps 10 1 (take 16 key)"

definition shift_rows :: "u8 list \<Rightarrow> u8 list" where
  "shift_rows state = map (\<lambda>i. state ! i) shift_rows_table"

fun mix_col :: "u8 \<Rightarrow> u8 \<Rightarrow> u8 \<Rightarrow> u8 \<Rightarrow> u8 list" where
  "mix_col a0 a1 a2 a3 =
     [lookup_g2 ! unat a0 XOR lookup_g3 ! unat a1 XOR a2 XOR a3,
      lookup_g2 ! unat a1 XOR lookup_g3 ! unat a2 XOR a3 XOR a0,
      lookup_g2 ! unat a2 XOR lookup_g3 ! unat a3 XOR a0 XOR a1,
      lookup_g2 ! unat a3 XOR lookup_g3 ! unat a0 XOR a1 XOR a2]"

definition mix_col_at :: "u8 list \<Rightarrow> nat \<Rightarrow> u8 list" where
  "mix_col_at s p = mix_col (s ! p) (s ! (p + 1)) (s ! (p + 2)) (s ! (p + 3))"

definition mix_cols :: "u8 list \<Rightarrow> u8 list" where
  "mix_cols s = mix_col_at s 0 @ mix_col_at s 4 @ mix_col_at s 8 @ mix_col_at s 12"

primrec middle_rounds :: "nat \<Rightarrow> nat \<Rightarrow> u8 list \<Rightarrow> u8 list \<Rightarrow> u8 list" where
  "middle_rounds 0 i keys c = c"
| "middle_rounds (Suc n) i keys c =
     middle_rounds n (i + 1) keys (xor_round_key (mix_cols (shift_rows (sub_bytes c 16))) keys (i + 1))"

definition aes128 :: "u8 list \<Rightarrow> u8 list \<Rightarrow> u8 list" where
  "aes128 key msg =
     (let keys = expand_key key;
          c = xor_round_key (take 16 msg) keys 0;
          c = middle_rounds 9 0 keys c
      in xor_round_key (shift_rows (sub_bytes c 16)) keys 10)"

end
