(* ===== verification/Secur_Ccm.thy ===== *)
theory Secur_Ccm
  imports Bufpool Secur_Aes
begin

text \<open>
  Encryption and authentication of a frame, CCM* of security level 5, as
  \<^verbatim>\<open>secur/secur_ccm.c\<close> does it in software: CBC-MAC over the padded header and payload,
  counter mode for the payload and the tag. Byte strings are lists; \<^verbatim>\<open>p += 16\<close>
  is \<open>drop 16\<close>. The two entry points work on a packet buffer and are \<open>None\<close> where the C
  code writes outside of the buffer or of the local array \<^verbatim>\<open>decrypted_text\<close>.
\<close>

definition ZB_CCM_M :: nat where "ZB_CCM_M = 4"
definition ZB_CCM_L :: nat where "ZB_CCM_L = 2"
definition ZB_CCM_NONCE_LEN :: nat where "ZB_CCM_NONCE_LEN = 13"

section \<open>The transformations\<close>

definition xor16 :: "u8 list \<Rightarrow> u8 list \<Rightarrow> u8 list" where
  "xor16 v1 v2 = map2 (XOR) (take 16 v1) (take 16 v2)"

definition htobe16 :: "u16 \<Rightarrow> u8 list" where
  "htobe16 v = [ucast (drop_bit 8 v), ucast v]"

text \<open>\<^verbatim>\<open>memset (tmp, 0, 16); memcpy (tmp, p, len)\<close>.\<close>

definition pad16 :: "u8 list \<Rightarrow> u8 list" where
  "pad16 p = p @ replicate (16 - length p) 0"

fun cbc_mac :: "u8 list \<Rightarrow> u8 list \<Rightarrow> u8 list \<Rightarrow> u8 list" where
  "cbc_mac key t p =
     (if 16 \<le> length p then cbc_mac key (aes128 key (xor16 t p)) (drop 16 p)
      else if p \<noteq> [] then aes128 key (xor16 t (pad16 p))
      else t)"

declare cbc_mac.simps [simp del]

definition auth_flags :: "nat \<Rightarrow> u8" where
  "auth_flags m = push_bit 6 1 OR of_nat (ZB_CCM_L - 1) OR push_bit 3 (of_nat ((m - 2) div 2))"

definition auth_trans :: "nat \<Rightarrow> u8 list \<Rightarrow> u8 list \<Rightarrow> u8 list \<Rightarrow> u8 list \<Rightarrow> u8 list" where
  "auth_trans ccm_m key nonce string_a string_m =
     (let b0 = auth_flags ccm_m # take ZB_CCM_NONCE_LEN nonce @ htobe16 (of_nat (length string_m));
          t = aes128 key b0;
          tmp = (if length string_a \<le> 16 - 2
                 then htobe16 (of_nat (length string_a)) @ string_a @ replicate (14 - length string_a) 0
                 else htobe16 (of_nat (length string_a)) @ take 14 string_a);
          rest = (if length string_a \<le> 16 - 2 then [] else drop 14 string_a);
          t = aes128 key (xor16 t tmp);
          t = cbc_mac key t rest
      in cbc_mac key t string_m)"

definition ctr_block :: "u8 list \<Rightarrow> u16 \<Rightarrow> u8 list" where
  "ctr_block nonce i = of_nat (ZB_CCM_L - 1) # take ZB_CCM_NONCE_LEN nonce @ htobe16 i"

text \<open>
  The bytes from \<^verbatim>\<open>encrypted\<close> on, in memory order. A padded last block is 16 bytes long, but
  the tag, which is written next, lies over the bytes behind its \<^verbatim>\<open>len\<close>.
\<close>

fun ctr_mode :: "u8 list \<Rightarrow> u8 list \<Rightarrow> u16 \<Rightarrow> u8 list \<Rightarrow> u8 list" where
  "ctr_mode key nonce i p =
     (if 16 \<le> length p
      then xor16 (aes128 key (ctr_block nonce i)) p @ ctr_mode key nonce (i + 1) (drop 16 p)
      else if p \<noteq> [] then take (length p) (xor16 (aes128 key (ctr_block nonce i)) (pad16 p))
      else [])"

declare ctr_mode.simps [simp del]

definition encrypt_trans :: "nat \<Rightarrow> u8 list \<Rightarrow> u8 list \<Rightarrow> u8 list \<Rightarrow> u8 list \<Rightarrow> u8 list" where
  "encrypt_trans ccm_m key nonce string_m t =
     ctr_mode key nonce 1 string_m @ xor16 (aes128 key (ctr_block nonce 0)) (pad16 (take ccm_m t))"

section \<open>On packet buffers\<close>

definition write_bytes :: "nat \<Rightarrow> u8 list \<Rightarrow> zb_buf \<Rightarrow> zb_buf option" where
  "write_bytes at bs b =
     (if at + length bs \<le> ZB_IO_BUF_SIZE then Some (b\<lparr>bytes := memcpy at bs (bytes b)\<rparr>) else None)"

definition zb_ccm_encrypt_n_auth ::
  "u8 list \<Rightarrow> u8 list \<Rightarrow> u8 list \<Rightarrow> u8 list \<Rightarrow> zb_buf \<Rightarrow> (zb_ret \<times> zb_buf) option" where
  "zb_ccm_encrypt_n_auth key nonce string_a string_m crypted_text =
     (let t = auth_trans ZB_CCM_M key nonce string_a string_m in
      case zb_buf_initial_alloc crypted_text (length string_a + length string_m + ZB_CCM_M) of
        None \<Rightarrow> None
      | Some (b1, c_text) \<Rightarrow>
          (case write_bytes (c_text + length string_a)
                  (encrypt_trans ZB_CCM_M key nonce string_m t) b1 of
             None \<Rightarrow> None
           | Some b2 \<Rightarrow>
               (case write_bytes (boff b2) string_a b2 of
                  None \<Rightarrow> None
                | Some b3 \<Rightarrow> Some (RET_OK, b3))))"

definition zb_ccm_decrypt_n_auth ::
  "u8 list \<Rightarrow> u8 list \<Rightarrow> zb_buf \<Rightarrow> nat \<Rightarrow> nat \<Rightarrow> (zb_ret \<times> zb_buf) option" where
  "zb_ccm_decrypt_n_auth key nonce buf string_a_len string_c_len =
     (if ZB_CCM_M \<le> string_c_len
         \<and> boff buf + string_a_len + string_c_len \<le> ZB_IO_BUF_SIZE
         \<and> string_c_len - ZB_CCM_M + 16 \<le> ZB_IO_BUF_SIZE
      then
        (let p = boff buf + string_a_len;
             n = string_c_len - ZB_CCM_M;
             string_c = take n (drop p (bytes buf));
             u = take ZB_CCM_M (drop (p + n) (bytes buf));
             decrypted_text = encrypt_trans ZB_CCM_M key nonce string_c u;
             string_a = take string_a_len (drop (boff buf) (bytes buf));
             t = auth_trans ZB_CCM_M key nonce string_a (take n decrypted_text);
             b1 = set_len (blen buf + 256 - ZB_CCM_M) buf
         in if take ZB_CCM_M (drop n decrypted_text) = take ZB_CCM_M t
            then map_option (Pair RET_OK) (write_bytes p (take n decrypted_text) b1)
            else map_option (Pair RET_ERROR) (write_bytes p (replicate n 0xeb) b1))
      else None)"

definition zb_ccm_decrypt_n_auth_stdsecur ::
  "u8 list \<Rightarrow> u8 list \<Rightarrow> zb_buf \<Rightarrow> nat \<Rightarrow> nat \<Rightarrow> (zb_ret \<times> zb_buf) option" where
  "zb_ccm_decrypt_n_auth_stdsecur key nonce buf string_a_len string_m_len =
     zb_ccm_decrypt_n_auth key nonce buf string_a_len string_m_len"

end
