(* ===== verification/Secur_Aes_Tables.thy ===== *)
theory Secur_Aes_Tables
  imports Secur_Aes
begin

text \<open>
  The field with 256 elements of FIPS 197 and what the tables of the source hold: multiples by
  2 and 3, and the S-box.
\<close>

section \<open>The field\<close>

definition xtime :: "u8 \<Rightarrow> u8" where
  "xtime b = (if 0x80 \<le> b then (2 * b) XOR 0x1b else 2 * b)"

primrec gf_mul_bits :: "nat \<Rightarrow> u8 \<Rightarrow> u8 \<Rightarrow> u8" where
  "gf_mul_bits 0 a b = 0"
| "gf_mul_bits (Suc n) a b = (if bit b 0 then a else 0) XOR gf_mul_bits n (xtime a) (drop_bit 1 b)"

definition gf_mul :: "u8 \<Rightarrow> u8 \<Rightarrow> u8" where
  "gf_mul a b = gf_mul_bits 8 a b"

text \<open>The affine map of the S-box, undone.\<close>

definition unaffine :: "u8 \<Rightarrow> u8" where
  "unaffine s = word_rotl 1 s XOR word_rotl 3 s XOR word_rotl 6 s XOR 0x05"

definition all_bytes :: "u8 list" where
  "all_bytes = map word_of_nat [0..<256]"

lemma gf_mul_small: "gf_mul a 2 = xtime a" "gf_mul a 3 = a XOR xtime a" "gf_mul a 1 = a"
  by (simp_all add: gf_mul_def eval_nat_numeral bit_simps)

lemma unat_u8: "unat (x :: u8) < 256"
  by (rule order.strict_trans2 [OF unsigned_less]) simp

lemma nth_all_bytes: "all_bytes ! unat x = x"
  using unat_u8 [of x] by (simp add: all_bytes_def)

lemma table_nth:
  assumes "tab = map f all_bytes"
  shows "tab ! unat (x :: u8) = f x"
  using unat_u8 [of x] nth_all_bytes [of x] by (simp add: assms) (simp add: all_bytes_def)

lemma g2_table: "lookup_g2 = map xtime all_bytes"
  by code_simp

lemma g3_table: "lookup_g3 = map (\<lambda>x. x XOR xtime x) all_bytes"
  by code_simp

lemmas g2_nth = table_nth [OF g2_table]
lemmas g3_nth = table_nth [OF g3_table]

definition sbox_ok :: "u8 \<Rightarrow> u8 \<Rightarrow> bool" where
  "sbox_ok x s \<longleftrightarrow> gf_mul x (unaffine s) = (if x = 0 then 0 else 1)"

lemma list_all2_append_drop:
  "list_all2 P (take n (drop k xs)) (take n (drop k ys)) \<Longrightarrow>
   list_all2 P (drop (k + n) xs) (drop (k + n) ys) \<Longrightarrow> list_all2 P (drop k xs) (drop k ys)"
proof -
  have split: "drop k zs = take n (drop k zs) @ drop (k + n) zs" for zs :: "'z list"
    by (metis append_take_drop_id drop_drop add.commute)
  show "list_all2 P (take n (drop k xs)) (take n (drop k ys)) \<Longrightarrow>
      list_all2 P (drop (k + n) xs) (drop (k + n) ys) \<Longrightarrow> list_all2 P (drop k xs) (drop k ys)"
    by (subst split [of xs], subst split [of ys]) (rule list_all2_appendI)
qed

lemma sbox_0: "list_all2 sbox_ok (take 32 (drop 0 all_bytes)) (take 32 (drop 0 lookup_sbox))"
  by code_simp

lemma sbox_1: "list_all2 sbox_ok (take 32 (drop 32 all_bytes)) (take 32 (drop 32 lookup_sbox))"
  by code_simp

lemma sbox_2: "list_all2 sbox_ok (take 32 (drop 64 all_bytes)) (take 32 (drop 64 lookup_sbox))"
  by code_simp

lemma sbox_3: "list_all2 sbox_ok (take 32 (drop 96 all_bytes)) (take 32 (drop 96 lookup_sbox))"
  by code_simp

lemma sbox_4: "list_all2 sbox_ok (take 32 (drop 128 all_bytes)) (take 32 (drop 128 lookup_sbox))"
  by code_simp

lemma sbox_5: "list_all2 sbox_ok (take 32 (drop 160 all_bytes)) (take 32 (drop 160 lookup_sbox))"
  by code_simp

lemma sbox_6: "list_all2 sbox_ok (take 32 (drop 192 all_bytes)) (take 32 (drop 192 lookup_sbox))"
  by code_simp

lemma sbox_7: "list_all2 sbox_ok (take 32 (drop 224 all_bytes)) (take 32 (drop 224 lookup_sbox))"
  by code_simp

lemma sbox_end: "list_all2 sbox_ok (drop (224 + 32) all_bytes) (drop (224 + 32) lookup_sbox)"
  by code_simp

lemma sbox_all: "list_all2 sbox_ok all_bytes lookup_sbox"
  using list_all2_append_drop [OF sbox_0]
    list_all2_append_drop [OF sbox_1]
    list_all2_append_drop [OF sbox_2]
    list_all2_append_drop [OF sbox_3]
    list_all2_append_drop [OF sbox_4]
    list_all2_append_drop [OF sbox_5]
    list_all2_append_drop [OF sbox_6]
    list_all2_append_drop [OF sbox_7 sbox_end]
  by simp

lemma sbox_nth: "sbox_ok x (lookup_sbox ! unat x)"
  using list_all2_nthD [OF sbox_all, of "unat x"] unat_u8 [of x] nth_all_bytes [of x]
  by (simp add: all_bytes_def)

end
