(* ===== verification/Secur_Aes_Spec.thy ===== *)
theory Secur_Aes_Spec
  imports Secur_Aes_Tables
begin

text \<open>
  AES-128 as FIPS 197 states it, over the field with 256 elements, and the proof that the table-driven
  \<open>aes128\<close> of the source is this function. The state is the list of its
  16 bytes, \<open>s ! (r + 4 * c)\<close> being the byte in row \<open>r\<close> and column \<open>c\<close>.
\<close>

section \<open>The cipher\<close>

definition xor_block :: "u8 list \<Rightarrow> u8 list \<Rightarrow> u8 list" where
  "xor_block a b = map2 (XOR) a b"

definition sub_word :: "u8 list \<Rightarrow> u8 list" where
  "sub_word s = map (\<lambda>v. lookup_sbox ! unat v) s"

definition shift_rows_spec :: "u8 list \<Rightarrow> u8 list" where
  "shift_rows_spec s =
     map (\<lambda>i. let r = i mod 4; c = i div 4 in s ! (r + 4 * ((c + r) mod 4))) [0..<16]"

definition mix_columns_spec :: "u8 list \<Rightarrow> u8 list" where
  "mix_columns_spec s =
     map (\<lambda>i. let r = i mod 4; c = i div 4; col = (\<lambda>k. s ! ((r + k) mod 4 + 4 * c)) in
            gf_mul (col 0) 2 XOR gf_mul (col 1) 3 XOR gf_mul (col 2) 1 XOR gf_mul (col 3) 1) [0..<16]"

primrec rcon :: "nat \<Rightarrow> u8" where
  "rcon 0 = 1"
| "rcon (Suc i) = xtime (rcon i)"

fun key_word :: "u8 list \<Rightarrow> nat \<Rightarrow> u8 list" where
  "key_word key i =
     (if i < 4 then take 4 (drop (4 * i) key)
      else xor_block (if i mod 4 = 0
                      then xor_block (sub_word (rotate1 (key_word key (i - 1)))) [rcon (i div 4 - 1), 0, 0, 0]
                      else key_word key (i - 1))
                     (key_word key (i - 4)))"

declare key_word.simps [simp del]

definition round_key :: "u8 list \<Rightarrow> nat \<Rightarrow> u8 list" where
  "round_key key n = concat (map (key_word key) [4 * n..<4 * n + 4])"

definition aes_round :: "u8 list \<Rightarrow> nat \<Rightarrow> u8 list \<Rightarrow> u8 list" where
  "aes_round key n s = xor_block (mix_columns_spec (shift_rows_spec (sub_word s))) (round_key key n)"

definition fips197 :: "u8 list \<Rightarrow> u8 list \<Rightarrow> u8 list" where
  "fips197 key msg =
     (let s = fold (aes_round key) [1..<10] (xor_block msg (round_key key 0))
      in xor_block (shift_rows_spec (sub_word s)) (round_key key 10))"

section \<open>The source implements it\<close>

lemma upto16: "[0..<16] = [0, 1, 2, 3, 4, 5, 6, 7, 8, 9, 10, 11, 12, 13, 14, 15]"
  by (simp add: upt_rec)

lemma shift_rows_eq: "shift_rows s = shift_rows_spec s"
  by (simp add: shift_rows_def shift_rows_table_def shift_rows_spec_def upto16 del: One_nat_def)

lemma mix_cols_eq: "mix_cols s = mix_columns_spec s"
proof -
  have idx: "map (\<lambda>i. (i mod 4 + 4 * (i div 4), (i mod 4 + 1) mod 4 + 4 * (i div 4),
      (i mod 4 + 2) mod 4 + 4 * (i div 4), (i mod 4 + 3) mod 4 + 4 * (i div 4))) [0..<16]
    = concat (map (\<lambda>p. [(p, p + 1, p + 2, p + 3), (p + 1, p + 2, p + 3, p),
        (p + 2, p + 3, p, p + 1), (p + 3, p, p + 1, p + 2)]) [0, 4, 8, 12])"
    by code_simp
  have "mix_columns_spec s = map (\<lambda>(a, b, c, d). xtime (s ! a) XOR (s ! b XOR xtime (s ! b)) XOR s ! c XOR s ! d)
      (map (\<lambda>i. (i mod 4 + 4 * (i div 4), (i mod 4 + 1) mod 4 + 4 * (i div 4),
        (i mod 4 + 2) mod 4 + 4 * (i div 4), (i mod 4 + 3) mod 4 + 4 * (i div 4))) [0..<16])"
    by (simp add: mix_columns_spec_def Let_def gf_mul_small)
  also have "\<dots> = mix_cols s"
    unfolding idx by (simp add: mix_cols_def mix_col_at_def g2_nth g3_nth)
  finally show ?thesis ..
qed

lemma length_key_word: "length key = 16 \<Longrightarrow> length (key_word key i) = 4" for key
proof (induction i rule: less_induct)
  case (less i)
  then show ?case
    by (subst key_word.simps) (auto simp: xor_block_def sub_word_def)
qed

lemma rcon_table: "i < 11 \<Longrightarrow> 0 < i \<Longrightarrow> lookup_rcon ! i = rcon (i - 1)"
proof -
  have "\<forall>i\<in>set [1..<11]. lookup_rcon ! i = rcon (i - 1)" by code_simp
  then show "i < 11 \<Longrightarrow> 0 < i \<Longrightarrow> lookup_rcon ! i = rcon (i - 1)" by simp
qed

lemma key_schedule_core_eq:
  assumes "length a = 4" "0 < i" "i < 11"
  shows "key_schedule_core a i = xor_block (sub_word (rotate1 a)) [rcon (i - 1), 0, 0, 0]"
proof -
  obtain a0 a1 a2 a3 where "a = [a0, a1, a2, a3]"
    using assms(1) by (auto simp: length_Suc_conv numeral_eq_Suc)
  then show ?thesis
    by (simp add: key_schedule_core_def sub_bytes_def sub_word_def xor_block_def rcon_table [OF assms(3,2)])
qed

definition key_words :: "u8 list \<Rightarrow> nat \<Rightarrow> u8 list" where
  "key_words key n = concat (map (key_word key) [0..<n])"

lemma length_key_words: "length key = 16 \<Longrightarrow> length (key_words key n) = 4 * n"
  by (induction n) (auto simp: key_words_def length_key_word)

lemma key_words_Suc: "key_words key (Suc n) = key_words key n @ key_word key n"
  by (simp add: key_words_def)

lemma upt_split: "i \<le> j \<Longrightarrow> j \<le> n \<Longrightarrow> [i..<n] = [i..<j] @ [j..<n]"
  by (metis le_add_diff_inverse upt_add_eq_append)

lemma drop_key_words:
  assumes "length key = 16" "j \<le> n"
  shows "drop (4 * j) (key_words key n) = concat (map (key_word key) [j..<n])"
proof -
  have "key_words key n = key_words key j @ concat (map (key_word key) [j..<n])"
    using upt_split [of 0 j n] assms(2) by (simp add: key_words_def)
  then show ?thesis using assms(1) by (simp add: length_key_words)
qed

lemma last4_key_words:
  assumes "length key = 16" "0 < n"
  shows "last4 (key_words key n) = key_word key (n - 1)"
  using drop_key_words [OF assms(1), of "n - 1" n] assms
  by (cases n) (auto simp: last4_def length_key_words length_key_word)

lemma take_concat_first:
  "length (f j) = m \<Longrightarrow> j < n \<Longrightarrow> take m (concat (map f [j..<n])) = f j"
  by (simp add: upt_conv_Cons)

lemma xor_previous_key_words:
  assumes "length key = 16" "length t = 4" "4 \<le> n"
  shows "xor_previous_block t (key_words key n) = xor_block t (key_word key (n - 4))"
proof -
  have "length (key_words key n) - 16 = 4 * (n - 4)"
    using assms by (simp add: length_key_words)
  then have d: "drop (length (key_words key n) - 16) (key_words key n)
      = concat (map (key_word key) [n - 4..<n])"
    using drop_key_words [OF assms(1), of "n - 4" n] by simp
  have "take 4 (concat (map (key_word key) [n - 4..<n])) = key_word key (n - 4)"
    using assms by (intro take_concat_first) (auto simp: length_key_word)
  with assms(2) show ?thesis
    unfolding xor_previous_block_def d by (simp add: xor_bytes_def xor_block_def)
qed

lemma key_word_plain:
  "4 \<le> n \<Longrightarrow> n mod 4 \<noteq> 0 \<Longrightarrow> key_word key n = xor_block (key_word key (n - 1)) (key_word key (n - 4))"
  by (subst key_word.simps) simp

lemma key_word_core:
  "4 \<le> n \<Longrightarrow> n mod 4 = 0 \<Longrightarrow> key_word key n =
     xor_block (xor_block (sub_word (rotate1 (key_word key (n - 1)))) [rcon (n div 4 - 1), 0, 0, 0])
       (key_word key (n - 4))"
  by (subst key_word.simps) simp

lemma key_word_first: "i < 4 \<Longrightarrow> key_word key i = take 4 (drop (4 * i) key)"
  by (subst key_word.simps) simp

lemma expand_tail_words:
  assumes "length key = 16" "4 \<le> m" "\<And>j. j < n \<Longrightarrow> (m + j) mod 4 \<noteq> 0"
  shows "expand_tail n (key_words key m) = key_words key (m + n)"
  using assms(2,3)
proof (induction n arbitrary: m)
  case 0
  then show ?case by simp
next
  case (Suc n)
  have "m mod 4 \<noteq> 0" using Suc.prems(2) [of 0] by simp
  then have "key_words key m @ xor_previous_block (last4 (key_words key m)) (key_words key m)
      = key_words key (Suc m)"
    using Suc.prems(1) assms(1)
    by (simp add: last4_key_words xor_previous_key_words length_key_word key_words_Suc key_word_plain)
  moreover have "(Suc m + j) mod 4 \<noteq> 0" if "j < n" for j
    using Suc.prems(2) [of "Suc j"] that by simp
  ultimately show ?case using Suc.IH [of "Suc m"] Suc.prems(1) by simp
qed

lemma expand_steps_words:
  assumes "length key = 16" "0 < i" "i + n \<le> 11"
  shows "expand_steps n i (key_words key (4 * i)) = key_words key (4 * (i + n))"
  using assms(2,3)
proof (induction n arbitrary: i)
  case 0
  then show ?case by simp
next
  case (Suc n)
  let ?k = "key_words key (4 * i)"
  have "last4 ?k = key_word key (4 * i - 1)"
    using assms(1) Suc.prems by (simp add: last4_key_words)
  then have "xor_previous_block (key_schedule_core (last4 ?k) i) ?k = key_word key (4 * i)"
    using assms(1) Suc.prems
    by (simp add: key_schedule_core_eq xor_previous_key_words length_key_word key_word_core [of "4 * i"]
        xor_block_def sub_word_def)
  then have a: "?k @ xor_previous_block (key_schedule_core (last4 ?k) i) ?k = key_words key (Suc (4 * i))"
    by (simp add: key_words_Suc)
  have "(Suc (4 * i) + j) mod 4 \<noteq> 0" if "j < 3" for j using that by presburger
  then have "expand_tail 3 (key_words key (Suc (4 * i))) = key_words key (4 * (i + 1))"
    using expand_tail_words [OF assms(1), of "Suc (4 * i)" 3] Suc.prems(1) by simp
  then show ?case using Suc.IH [of "i + 1"] Suc.prems a by simp
qed

lemma expand_key_words:
  assumes "length key = 16"
  shows "expand_key key = key_words key 44"
proof -
  have "key_words key (4 * 1) = take (4 + 4 + 4 + 4) key"
    unfolding take_add by (simp add: key_words_def upt_rec key_word_first)
  then have "key_words key (4 * 1) = key" using assms by simp
  then show ?thesis
    using expand_steps_words [OF assms, of 1 10] assms by (simp add: expand_key_def)
qed

lemma xor_round_key_eq:
  assumes "length key = 16" "length c = 16" "n < 11"
  shows "xor_round_key c (expand_key key) n = xor_block c (round_key key n)"
proof -
  have "[4 * n..<44] = [4 * n..<4 * n + 4] @ [4 * n + 4..<44]"
    using assms(3) by (intro upt_split) auto
  then have "drop (4 * (4 * n)) (key_words key 44)
      = round_key key n @ concat (map (key_word key) [4 * n + 4..<44])"
    using drop_key_words [OF assms(1), of "4 * n" 44] assms(3) by (simp add: round_key_def)
  moreover have "length (round_key key n) = 16"
    using assms(1) by (simp add: round_key_def upt_rec length_key_word)
  ultimately show ?thesis
    using assms by (simp add: xor_round_key_def expand_key_words xor_bytes_def xor_block_def mult.commute)
qed

lemma sub_bytes_eq: "length c = 16 \<Longrightarrow> sub_bytes c 16 = sub_word c"
  by (simp add: sub_bytes_def sub_word_def)

lemma length_specs [simp]:
  "length (shift_rows_spec s) = 16" "length (mix_columns_spec s) = 16"
  "length (sub_word s) = length s" "length (xor_block a b) = min (length a) (length b)"
  by (simp_all add: shift_rows_spec_def mix_columns_spec_def sub_word_def xor_block_def)

lemma length_round_key [simp]: "length key = 16 \<Longrightarrow> length (round_key key n) = 16"
  by (simp add: round_key_def upt_rec length_key_word)

lemma middle_rounds_eq:
  assumes "length key = 16" "length c = 16" "i + n \<le> 9"
  shows "middle_rounds n i (expand_key key) c = fold (aes_round key) [Suc i..<Suc (i + n)] c
    \<and> length (middle_rounds n i (expand_key key) c) = 16"
  using assms(2,3)
proof (induction n arbitrary: i c)
  case 0
  then show ?case by simp
next
  case (Suc n)
  let ?c = "aes_round key (Suc i) c"
  have l: "length ?c = 16" using assms(1) by (simp add: aes_round_def)
  have e: "xor_round_key (mix_cols (shift_rows (sub_bytes c 16))) (expand_key key) (i + 1) = ?c"
    using assms(1) Suc.prems
    by (simp add: sub_bytes_eq shift_rows_eq mix_cols_eq xor_round_key_eq aes_round_def)
  have "[Suc i..<Suc (i + Suc n)] = Suc i # [Suc (i + 1)..<Suc (i + 1 + n)]"
    by (simp add: upt_conv_Cons del: upt_Suc)
  moreover have "i + 1 + n \<le> 9" using Suc.prems by simp
  ultimately show ?case using Suc.IH [OF l, of "i + 1"] e by (auto simp del: upt_Suc)
qed

lemma aes128_eq:
  assumes "length key = 16" "length msg = 16"
  shows "aes128 key msg = fips197 key msg"
proof -
  let ?c = "xor_block msg (round_key key 0)"
  let ?m = "middle_rounds 9 0 (expand_key key) ?c"
  have c0: "xor_round_key msg (expand_key key) 0 = ?c"
    using assms by (simp add: xor_round_key_eq)
  have m: "?m = fold (aes_round key) [1..<10] ?c" "length ?m = 16"
    using middle_rounds_eq [OF assms(1), of ?c 0 9] assms by (auto simp del: upt_Suc)
  have "aes128 key msg = xor_block (shift_rows_spec (sub_word ?m)) (round_key key 10)"
    using assms m(2) c0 by (simp add: aes128_def Let_def sub_bytes_eq shift_rows_eq xor_round_key_eq)
  with m(1) show ?thesis by (simp add: fips197_def Let_def del: upt_Suc)
qed

lemma length_aes128: "length key = 16 \<Longrightarrow> length msg = 16 \<Longrightarrow> length (aes128 key msg) = 16"
  by (simp add: aes128_eq fips197_def Let_def)

end
