(* ===== verification/Secur_Ccm_Lemmas.thy ===== *)
theory Secur_Ccm_Lemmas
  imports Secur_Ccm Secur_Aes_Spec
begin

text \<open>
  What callers of the cipher rely on, as an interface: sealing and opening byte strings. The source's
  transformations are an interpretation of it, and its two entry points do on the payload of a packet
  buffer what the interface says.
\<close>

section \<open>The interface\<close>

locale authenticated_cipher =
  fixes ok :: "'k \<Rightarrow> bool"
    and seal :: "'k \<Rightarrow> u8 list \<Rightarrow> u8 list \<Rightarrow> u8 list"
    and opn :: "'k \<Rightarrow> u8 list \<Rightarrow> u8 list \<Rightarrow> u8 list option"
    and tag_len :: nat
  assumes open_seal: "ok k \<Longrightarrow> opn k a (seal k a m) = Some m"
    and length_seal: "ok k \<Longrightarrow> length (seal k a m) = length m + tag_len"
    and tag_unique: "ok k \<Longrightarrow> length u = tag_len \<Longrightarrow> length u' = tag_len \<Longrightarrow>
      opn k a (c @ u) = Some m \<Longrightarrow> opn k a (c @ u') = Some m' \<Longrightarrow> u = u'"
begin

lemma seal_inj: "ok k \<Longrightarrow> seal k a m = seal k a m' \<Longrightarrow> m = m'"
  by (metis open_seal option.inject)

lemma changed_tag_is_rejected:
  assumes "ok k" "seal k a m = c @ u" "length c = length m" "length u' = tag_len" "u' \<noteq> u"
  shows "opn k a (c @ u') = None"
proof (rule ccontr)
  assume "opn k a (c @ u') \<noteq> None"
  then obtain m' where "opn k a (c @ u') = Some m'" by blast
  moreover have "length u = tag_len"
    using length_seal [OF assms(1), of a m] assms(2,3) by simp
  moreover have "opn k a (c @ u) = Some m" using open_seal [OF assms(1), of a m] assms(2) by simp
  ultimately show False using tag_unique [OF assms(1), of u u'] assms(4,5) by blast
qed

end

section \<open>Blocks\<close>

lemma length_xor16 [simp]: "length (xor16 a b) = min (min 16 (length a)) (min 16 (length b))"
  by (simp add: xor16_def min.assoc)

lemma length_pad16 [simp]: "length (pad16 p) = max 16 (length p)"
  by (simp add: pad16_def)

lemma length_htobe16 [simp]: "length (htobe16 v) = 2"
  by (simp add: htobe16_def)

lemma length_ctr_block [simp]: "13 \<le> length nonce \<Longrightarrow> length (ctr_block nonce i) = 16"
  by (simp add: ctr_block_def ZB_CCM_NONCE_LEN_def)

definition key_ok :: "u8 list \<times> u8 list \<Rightarrow> bool" where
  "key_ok kn \<longleftrightarrow> length (fst kn) = 16 \<and> length (snd kn) = ZB_CCM_NONCE_LEN"

lemma length_keystream:
  "key_ok (key, nonce) \<Longrightarrow> length (aes128 key (ctr_block nonce i)) = 16"
  by (simp add: key_ok_def ZB_CCM_NONCE_LEN_def length_aes128)

lemma map2_xor_nth:
  "i < length a \<Longrightarrow> i < length b \<Longrightarrow> map2 (XOR) a b ! i = a ! i XOR b ! i"
  by simp

lemma xor_twice:
  "length p \<le> length e \<Longrightarrow> map2 (XOR) e (map2 (XOR) e p) = (p :: u8 list)"
  by (rule nth_equalityI) (simp_all flip: xor.assoc)

lemma take_map2: "take n (map2 f a b) = map2 f (take n a) (take n b)"
  by (simp add: take_map take_zip)

section \<open>Counter mode\<close>

lemma xor16_full: "length e = 16 \<Longrightarrow> 16 \<le> length p \<Longrightarrow> xor16 e p = map2 (XOR) e (take 16 p)"
  by (simp add: xor16_def)

lemma xor16_pad:
  assumes "length e = 16" "length p \<le> 16"
  shows "take (length p) (xor16 e (pad16 p)) = map2 (XOR) (take (length p) e) p"
  using assms by (simp add: xor16_def pad16_def take_map2 min_def)

lemma ctr_mode_long:
  "key_ok (key, nonce) \<Longrightarrow> 16 \<le> length p \<Longrightarrow> ctr_mode key nonce i p =
     map2 (XOR) (aes128 key (ctr_block nonce i)) (take 16 p) @ ctr_mode key nonce (i + 1) (drop 16 p)"
  by (subst ctr_mode.simps) (simp add: xor16_full length_keystream)

lemma ctr_mode_short:
  "key_ok (key, nonce) \<Longrightarrow> length p < 16 \<Longrightarrow> ctr_mode key nonce i p =
     map2 (XOR) (take (length p) (aes128 key (ctr_block nonce i))) p"
  by (subst ctr_mode.simps) (auto simp: xor16_pad length_keystream)

lemma length_ctr_mode:
  assumes "key_ok (key, nonce)"
  shows "length (ctr_mode key nonce i p) = length p"
proof (induction p arbitrary: i rule: length_induct)
  case (1 p)
  show ?case
  proof (cases "16 \<le> length p")
    case True
    then have "length (ctr_mode key nonce (i + 1) (drop 16 p)) = length p - 16"
      using 1 by simp
    with True show ?thesis using assms by (simp add: ctr_mode_long length_keystream)
  next
    case False
    then show ?thesis using assms by (simp add: ctr_mode_short length_keystream)
  qed
qed

lemma ctr_mode_twice:
  assumes "key_ok (key, nonce)"
  shows "ctr_mode key nonce i (ctr_mode key nonce i p) = p"
proof (induction p arbitrary: i rule: length_induct)
  case (1 p)
  let ?e = "aes128 key (ctr_block nonce i)"
  have e: "length ?e = 16" using assms by (rule length_keystream)
  show ?case
  proof (cases "16 \<le> length p")
    case True
    let ?c = "map2 (XOR) ?e (take 16 p)" and ?r = "ctr_mode key nonce (i + 1) (drop 16 p)"
    have len: "length ?c = 16" using True e by simp
    have "ctr_mode key nonce i p = ?c @ ?r" using assms True by (rule ctr_mode_long)
    then have "ctr_mode key nonce i (ctr_mode key nonce i p) =
        map2 (XOR) ?e ?c @ ctr_mode key nonce (i + 1) ?r"
      using len ctr_mode_long [OF assms, of "?c @ ?r" i] by simp
    also have "\<dots> = take 16 p @ drop 16 p"
      using 1 True e xor_twice [of "take 16 p" ?e] by simp
    finally show ?thesis by simp
  next
    case False
    then show ?thesis
      using assms xor_twice [of p "take (length p) ?e"] e by (simp add: ctr_mode_short)
  qed
qed

section \<open>Sealing\<close>

definition tag_mask :: "u8 list \<times> u8 list \<Rightarrow> u8 list \<Rightarrow> u8 list" where
  "tag_mask kn t = map2 (XOR) (take ZB_CCM_M (aes128 (fst kn) (ctr_block (snd kn) 0))) t"

definition ccm_tag :: "u8 list \<times> u8 list \<Rightarrow> u8 list \<Rightarrow> u8 list \<Rightarrow> u8 list" where
  "ccm_tag kn a m = take ZB_CCM_M (auth_trans ZB_CCM_M (fst kn) (snd kn) a m)"

definition ccm_seal :: "u8 list \<times> u8 list \<Rightarrow> u8 list \<Rightarrow> u8 list \<Rightarrow> u8 list" where
  "ccm_seal kn a m = ctr_mode (fst kn) (snd kn) 1 m @ tag_mask kn (ccm_tag kn a m)"

definition ccm_open :: "u8 list \<times> u8 list \<Rightarrow> u8 list \<Rightarrow> u8 list \<Rightarrow> u8 list option" where
  "ccm_open kn a c =
     (let n = length c - ZB_CCM_M; m = ctr_mode (fst kn) (snd kn) 1 (take n c)
      in if ZB_CCM_M \<le> length c \<and> tag_mask kn (drop n c) = ccm_tag kn a m then Some m else None)"

lemma length_cbc_mac:
  assumes "length key = 16" "length t = 16"
  shows "length (cbc_mac key t p) = 16"
  using assms
proof (induction p arbitrary: t rule: length_induct)
  case (1 p)
  then show ?case by (subst cbc_mac.simps) (auto simp: length_aes128)
qed

lemma length_auth_trans:
  assumes "key_ok (key, nonce)"
  shows "length (auth_trans n key nonce a m) = 16"
proof -
  have k: "length key = 16" using assms by (simp add: key_ok_def)
  have "length (aes128 key (auth_flags n # take ZB_CCM_NONCE_LEN nonce @ htobe16 x)) = 16" for x
    using assms by (intro length_aes128) (simp_all add: key_ok_def ZB_CCM_NONCE_LEN_def)
  with k show ?thesis
    unfolding auth_trans_def Let_def by (intro length_cbc_mac length_aes128) simp_all
qed

lemma length_ccm_tag [simp]: "key_ok kn \<Longrightarrow> length (ccm_tag kn a m) = 4"
  by (cases kn) (simp add: ccm_tag_def length_auth_trans ZB_CCM_M_def)

lemma length_tag_mask [simp]: "key_ok kn \<Longrightarrow> length t = 4 \<Longrightarrow> length (tag_mask kn t) = 4"
  by (cases kn) (simp add: tag_mask_def length_keystream ZB_CCM_M_def)

lemma tag_mask_twice: "key_ok kn \<Longrightarrow> length t = 4 \<Longrightarrow> tag_mask kn (tag_mask kn t) = t"
  by (cases kn) (simp add: tag_mask_def xor_twice length_keystream ZB_CCM_M_def)

lemma ccm_open_append:
  assumes "length u = 4"
  shows "ccm_open k a (c @ u) =
    (if tag_mask k u = ccm_tag k a (ctr_mode (fst k) (snd k) 1 c)
     then Some (ctr_mode (fst k) (snd k) 1 c) else None)"
  using assms by (simp add: ccm_open_def ZB_CCM_M_def)

interpretation ccm: authenticated_cipher key_ok ccm_seal ccm_open ZB_CCM_M
proof
  fix k and a m :: "u8 list"
  assume ok: "key_ok k"
  then show "length (ccm_seal k a m) = length m + ZB_CCM_M"
    by (cases k) (simp add: ccm_seal_def length_ctr_mode ZB_CCM_M_def)
  from ok show "ccm_open k a (ccm_seal k a m) = Some m"
    by (cases k)
      (simp add: ccm_open_def ccm_seal_def length_ctr_mode ctr_mode_twice ZB_CCM_M_def tag_mask_twice)
next
  fix k and a c u u' m m' :: "u8 list"
  assume ok: "key_ok k" and len: "length u = ZB_CCM_M" "length u' = ZB_CCM_M"
    and m: "ccm_open k a (c @ u) = Some m" "ccm_open k a (c @ u') = Some m'"
  let ?t = "ccm_tag k a (ctr_mode (fst k) (snd k) 1 c)"
  have "tag_mask k u = ?t" "tag_mask k u' = ?t"
    using m len by (simp_all add: ccm_open_append ZB_CCM_M_def split: if_split_asm)
  then show "u = u'" using tag_mask_twice [OF ok, of u] tag_mask_twice [OF ok, of u'] len
    by (simp add: ZB_CCM_M_def)
qed

section \<open>The entry points\<close>

lemma memcpy_twice:
  "i + length xs + length ys \<le> length zs \<Longrightarrow>
     memcpy i xs (memcpy (i + length xs) ys zs) = memcpy i (xs @ ys) zs"
  by (simp add: memcpy_def min_def add.assoc)

lemma drop_memcpy:
  "i + length ys \<le> length zs \<Longrightarrow> drop i (memcpy i ys zs) = ys @ drop (i + length ys) zs"
  by (simp add: memcpy_def)

lemma encrypt_trans_split:
  assumes "key_ok (key, nonce)" "4 \<le> length t"
  shows "\<exists>rest. length rest = 12 \<and> encrypt_trans ZB_CCM_M key nonce m t =
    ctr_mode key nonce 1 m @ tag_mask (key, nonce) (take ZB_CCM_M t) @ rest"
proof -
  let ?x = "xor16 (aes128 key (ctr_block nonce 0)) (pad16 (take ZB_CCM_M t))"
  have "take 4 ?x = tag_mask (key, nonce) (take ZB_CCM_M t)"
    using assms xor16_pad [of "aes128 key (ctr_block nonce 0)" "take 4 t"] length_keystream [OF assms(1), of 0]
    by (simp add: tag_mask_def ZB_CCM_M_def)
  moreover have "length ?x = 16" using assms by (simp add: length_keystream ZB_CCM_M_def)
  ultimately show ?thesis
    by (intro exI [of _ "drop 4 ?x"]) (simp add: encrypt_trans_def, metis append_take_drop_id)
qed

lemma encrypt_refines_seal:
  assumes "key_ok (key, nonce)" "length a + length m + ZB_CCM_M \<le> 125" "length (bytes b) = ZB_IO_BUF_SIZE"
  shows "\<exists>b'. zb_ccm_encrypt_n_auth key nonce a m b = Some (RET_OK, b') \<and> buf_ok b'
    \<and> payload b' = a @ ccm_seal (key, nonce) a m \<and> is_in_buf (hdr b') = is_in_buf (hdr b)"
proof -
  let ?sz = "length a + length m + ZB_CCM_M"
  let ?o = "(ZB_IO_BUF_SIZE - ?sz) div 2"
  let ?t = "auth_trans ZB_CCM_M key nonce a m"
  obtain rest where e: "length rest = 12" "encrypt_trans ZB_CCM_M key nonce m ?t =
      ctr_mode key nonce 1 m @ tag_mask (key, nonce) (take ZB_CCM_M ?t) @ rest"
    using encrypt_trans_split [OF assms(1), of ?t m] length_auth_trans [OF assms(1)] by auto
  then have e': "encrypt_trans ZB_CCM_M key nonce m ?t = ccm_seal (key, nonce) a m @ rest"
    by (simp add: ccm_seal_def ccm_tag_def)
  have len: "length (ccm_seal (key, nonce) a m) = length m + ZB_CCM_M"
    using assms(1) by (rule ccm.length_seal)
  have o: "?o + ?sz + 12 \<le> ZB_IO_BUF_SIZE" "?o < 256" "?sz < 256" "?sz < ZB_IO_BUF_SIZE"
    using assms(2) by (auto simp: ZB_IO_BUF_SIZE_def)
  let ?b1 = "set_off ?o (set_len ?sz (b\<lparr>hdr := hdr_zero\<lparr>is_in_buf := is_in_buf (hdr b)\<rparr>\<rparr>))"
  let ?b' = "?b1\<lparr>bytes := memcpy ?o (a @ ccm_seal (key, nonce) a m @ rest) (bytes b)\<rparr>"
  have b1: "zb_buf_initial_alloc b ?sz = Some (?b1, ?o)" "boff ?b1 = ?o" "blen ?b1 = ?sz" "bytes ?b1 = bytes b"
    using o by (simp_all add: buf_op_defs)
  have w1: "write_bytes (?o + length a) (ccm_seal (key, nonce) a m @ rest) ?b1 =
      Some (?b1\<lparr>bytes := memcpy (?o + length a) (ccm_seal (key, nonce) a m @ rest) (bytes b)\<rparr>)"
    using o(1) e(1) len b1(4) by (simp add: write_bytes_def)
  have w2: "write_bytes ?o a (?b1\<lparr>bytes := memcpy (?o + length a) (ccm_seal (key, nonce) a m @ rest) (bytes b)\<rparr>) =
      Some ?b'"
    using o(1) e(1) len assms(3) by (simp add: write_bytes_def memcpy_twice)
  have enc: "zb_ccm_encrypt_n_auth key nonce a m b = Some (RET_OK, ?b')"
    using b1 w1 w2 by (simp add: zb_ccm_encrypt_n_auth_def Let_def e')
  have pl: "payload ?b' = a @ ccm_seal (key, nonce) a m"
    using b1(2,3) o(1) assms(3) len e(1) by (simp add: payload_def drop_memcpy)
  have "buf_ok ?b'" using b1(2,3) o(1) assms(3) len e(1) by (simp add: buf_ok_def)
  with enc pl show ?thesis by (simp add: set_off_def set_len_def)
qed

lemma encrypt_overruns:
  assumes "key_ok (key, nonce)" "length a + length m + ZB_CCM_M > 125" "length (bytes b) = ZB_IO_BUF_SIZE"
  shows "zb_ccm_encrypt_n_auth key nonce a m b = None"
proof -
  let ?sz = "length a + length m + ZB_CCM_M"
  let ?t = "auth_trans ZB_CCM_M key nonce a m"
  have "length (encrypt_trans ZB_CCM_M key nonce m ?t) = length m + 16"
    using assms(1) by (simp add: encrypt_trans_def length_ctr_mode length_keystream ZB_CCM_M_def)
  then show ?thesis
    using assms(2)
    by (auto simp: zb_ccm_encrypt_n_auth_def zb_buf_initial_alloc_def Let_def write_bytes_def set_off_def
        set_len_def ZB_IO_BUF_SIZE_def ZB_CCM_M_def)
qed

lemma take_drop_memcpy_behind:
  assumes "i + a + length xs \<le> length zs"
  shows "take (a + length xs) (drop i (memcpy (i + a) xs zs)) = take a (drop i zs) @ xs"
  using assms by (simp add: memcpy_def drop_take)

lemma write_payload:
  assumes "buf_ok b" "a + n + ZB_CCM_M = blen b" "length xs = n"
  shows "\<exists>b'. write_bytes (boff b + a) xs (set_len (blen b + 256 - ZB_CCM_M) b) = Some b'
    \<and> buf_ok b' \<and> boff b' = boff b \<and> payload b' = take a (payload b) @ xs"
proof -
  have "blen b + 256 - ZB_CCM_M = a + n + 256" "a + n < 256"
    using assms(1,2) by (simp_all add: buf_ok_def ZB_CCM_M_def ZB_IO_BUF_SIZE_def)
  then have l: "(blen b + 256 - ZB_CCM_M) mod 256 = a + n" by simp
  let ?b1 = "set_len (blen b + 256 - ZB_CCM_M) b"
  have b1: "blen ?b1 = a + n" "boff ?b1 = boff b" "bytes ?b1 = bytes b"
    using l by (simp_all add: set_len_def)
  have fit: "boff b + a + length xs \<le> length (bytes b)" "length (bytes b) = ZB_IO_BUF_SIZE"
    using assms by (auto simp: buf_ok_def)
  then have "write_bytes (boff b + a) xs ?b1 = Some (?b1\<lparr>bytes := memcpy (boff b + a) xs (bytes b)\<rparr>)"
    using b1(3) by (simp add: write_bytes_def)
  moreover have "take (blen b) (drop (boff b) (bytes b)) = payload b" by (simp add: payload_def)
  then have "take a (payload b) = take a (drop (boff b) (bytes b))"
    using assms(2) by (metis min.absorb1 take_take le_add1 add.assoc)
  ultimately show ?thesis
    using b1 fit take_drop_memcpy_behind [OF fit(1)] assms(3)
    by (simp add: payload_def buf_ok_def)
qed

lemma decrypt_refines_open:
  assumes k: "key_ok (key, nonce)" and b: "buf_ok b" "a_len + c_len = blen b" "ZB_CCM_M \<le> c_len" "c_len \<le> 136"
  shows "\<exists>b'. zb_ccm_decrypt_n_auth key nonce b a_len c_len =
      Some (if ccm_open (key, nonce) (take a_len (payload b)) (drop a_len (payload b)) = None
            then RET_ERROR else RET_OK, b')
    \<and> buf_ok b' \<and> boff b' = boff b
    \<and> payload b' = take a_len (payload b) @
        (case ccm_open (key, nonce) (take a_len (payload b)) (drop a_len (payload b)) of
           Some m \<Rightarrow> m | None \<Rightarrow> replicate (c_len - ZB_CCM_M) 0xeb)"
proof -
  define n where "n = c_len - ZB_CCM_M"
  define A where "A = take a_len (payload b)"
  define c where "c = take n (drop a_len (payload b))"
  define u where "u = drop n (drop a_len (payload b))"
  have pl: "payload b = A @ c @ u" by (simp add: A_def c_def u_def del: drop_drop)
  have len: "length A = a_len" "length c = n" "length u = 4" "n + ZB_CCM_M = c_len"
    using b length_payload [OF b(1)] by (auto simp: A_def c_def u_def n_def ZB_CCM_M_def)
  have mem: "take a_len (drop (boff b) (bytes b)) = A"
    "take n (drop (boff b + a_len) (bytes b)) = c"
    "take ZB_CCM_M (drop (boff b + a_len + n) (bytes b)) = u"
  proof -
    have le: "n + ZB_CCM_M = blen b - a_len" "a_len \<le> blen b" using b(2) len(4) by simp_all
    show "take a_len (drop (boff b) (bytes b)) = A"
      using le(2) by (simp add: A_def payload_def min_absorb1)
    have d: "drop a_len (payload b) = take (n + ZB_CCM_M) (drop (boff b + a_len) (bytes b))"
      using le by (simp add: payload_def drop_take_mid)
    show "take n (drop (boff b + a_len) (bytes b)) = c" by (simp add: c_def d)
    show "take ZB_CCM_M (drop (boff b + a_len + n) (bytes b)) = u"
      unfolding u_def d by (simp add: drop_take add.commute add.left_commute)
  qed
  define m where "m = ctr_mode key nonce 1 c"
  have m: "length m = n" using k len by (simp add: m_def length_ctr_mode)
  obtain rest where e: "encrypt_trans ZB_CCM_M key nonce c u = m @ tag_mask (key, nonce) u @ rest"
    using encrypt_trans_split [OF k, of u c] len(3) by (auto simp: m_def ZB_CCM_M_def)
  have tm: "length (tag_mask (key, nonce) u) = ZB_CCM_M" using k len by (simp add: ZB_CCM_M_def)
  have opn: "ccm_open (key, nonce) A (c @ u) = (if tag_mask (key, nonce) u = ccm_tag (key, nonce) A m then Some m else None)"
    using len(3) by (simp add: ccm_open_append m_def)
  let ?b1 = "set_len (blen b + 256 - ZB_CCM_M) b"
  have cond: "ZB_CCM_M \<le> c_len \<and> boff b + a_len + c_len \<le> ZB_IO_BUF_SIZE \<and> n + 16 \<le> ZB_IO_BUF_SIZE"
    using b len(4) by (simp add: buf_ok_def ZB_IO_BUF_SIZE_def ZB_CCM_M_def)
  have dec: "zb_ccm_decrypt_n_auth key nonce b a_len c_len =
    (if tag_mask (key, nonce) u = ccm_tag (key, nonce) A m
     then map_option (Pair RET_OK) (write_bytes (boff b + a_len) m ?b1)
     else map_option (Pair RET_ERROR) (write_bytes (boff b + a_len) (replicate n 0xeb) ?b1))"
    using cond tm m mem unfolding zb_ccm_decrypt_n_auth_def n_def [symmetric]
    by (simp add: Let_def e ccm_tag_def)
  have fit: "a_len + n + ZB_CCM_M = blen b" using b(2) len(4) by simp
  show ?thesis
    using dec opn write_payload [OF b(1) fit m] write_payload [OF b(1) fit, of "replicate n 0xeb"] len
    unfolding A_def [symmetric] n_def [symmetric] by (auto simp: pl)
qed

end
