(* ===== verification/Secur_Props.thy ===== *)
theory Secur_Props
  imports Secur_Ccm_Lemmas
begin

text \<open>
  The properties of the cipher: AES-128 is the one of FIPS 197, decryption undoes
  encryption, a changed authentication code is detected and leaks no plain text, and when the
  encryption leaves the packet buffer.
\<close>

section \<open>The block cipher\<close>

text \<open>
  C26: The table-driven AES-128 of the source computes the function of FIPS 197 for every key
  and block.
\<close>

theorem aes128_is_fips197:
  assumes "length key = 16" "length msg = 16"
  shows "aes128 key msg = fips197 key msg"
  using assms by (rule aes128_eq)

theorem aes128_is_fips197_witness:
  "aes128 (replicate 16 7) (replicate 16 9) = fips197 (replicate 16 7) (replicate 16 9)"
  by (rule aes128_is_fips197) simp_all

text \<open>
  The lookup tables hold what they stand for: twice and three times the
  index in the field with 256 elements, and for the S-box the byte that is, with the affine map
  undone, the field inverse of the index (0 for 0).
\<close>

theorem tables_are_the_field_operations:
  "lookup_g2 ! unat x = gf_mul x 2 \<and> lookup_g3 ! unat x = gf_mul x 3
    \<and> gf_mul x (unaffine (lookup_sbox ! unat x)) = (if x = 0 then 0 else 1)
    \<and> unaffine (lookup_sbox ! 0) = 0"
  using sbox_nth [of x] by (simp add: g2_nth g3_nth gf_mul_small sbox_ok_def) code_simp

section \<open>Frames\<close>

definition plain_buf :: "u8 list \<Rightarrow> zb_buf" where
  "plain_buf p = \<lparr>hdr = hdr_zero\<lparr>h_len := length p\<rparr>, bytes = p @ replicate (ZB_IO_BUF_SIZE - length p) 0\<rparr>"

lemma plain_buf:
  "length p \<le> ZB_IO_BUF_SIZE \<Longrightarrow> buf_ok (plain_buf p) \<and> payload (plain_buf p) = p"
  by (simp add: plain_buf_def buf_ok_def payload_def hdr_zero_def)

text \<open>
  C25: A frame whose header and payload together have at most 121 bytes is encrypted into the
  header, the payload and a code of 4 bytes, and decrypting the buffer with the same key and nonce
  reports success and gives back header and payload exactly.
\<close>

theorem encrypt_then_decrypt:
  assumes "key_ok (key, nonce)" "length a + length m \<le> 121" "length (bytes b) = ZB_IO_BUF_SIZE"
  shows "\<exists>b1 b2. zb_ccm_encrypt_n_auth key nonce a m b = Some (RET_OK, b1)
    \<and> blen b1 = length a + length m + ZB_CCM_M \<and> take (length a) (payload b1) = a
    \<and> zb_ccm_decrypt_n_auth_stdsecur key nonce b1 (length a) (length m + ZB_CCM_M) = Some (RET_OK, b2)
    \<and> buf_ok b2 \<and> payload b2 = a @ m"
proof -
  obtain b1 where b1: "zb_ccm_encrypt_n_auth key nonce a m b = Some (RET_OK, b1)" "buf_ok b1"
      "payload b1 = a @ ccm_seal (key, nonce) a m"
    using encrypt_refines_seal [OF assms(1) _ assms(3), of a m] assms(2) by (auto simp: ZB_CCM_M_def)
  have len: "blen b1 = length a + length m + ZB_CCM_M"
    using length_payload [OF b1(2)] b1(3) ccm.length_seal [OF assms(1)] by simp
  then have "length m + ZB_CCM_M \<le> 136" "length a + (length m + ZB_CCM_M) = blen b1"
    using assms(2) by (simp_all add: ZB_CCM_M_def)
  from decrypt_refines_open [OF assms(1) b1(2) this(2) _ this(1)] b1 len show ?thesis
    by (auto simp: zb_ccm_decrypt_n_auth_stdsecur_def ccm.open_seal [OF assms(1)])
qed

theorem encrypt_then_decrypt_witness:
  "\<exists>b1 b2. zb_ccm_encrypt_n_auth (replicate 16 1) (replicate 13 2) [3, 4] [5, 6, 7] (plain_buf []) = Some (RET_OK, b1)
    \<and> zb_ccm_decrypt_n_auth_stdsecur (replicate 16 1) (replicate 13 2) b1 2 7 = Some (RET_OK, b2)
    \<and> payload b2 = [3, 4, 5, 6, 7]"
  using encrypt_then_decrypt [of "replicate 16 1" "replicate 13 2" "[3, 4]" "[5, 6, 7]" "plain_buf []"]
  by (auto simp: key_ok_def ZB_CCM_NONCE_LEN_def plain_buf_def ZB_CCM_M_def numeral_2_eq_2)

text \<open>
  A received frame that differs from an encrypted one in its authentication code is refused
  with an error, and what is left in the buffer behind the header is the byte 0xeb in every place,
  nothing of the plain text.
\<close>

theorem changed_code_is_refused:
  assumes "key_ok (key, nonce)" "length a + length m \<le> 121" "length (bytes b) = ZB_IO_BUF_SIZE"
    and "zb_ccm_encrypt_n_auth key nonce a m b = Some (RET_OK, b1)"
    and "payload b1 = a @ c @ u" "length u = ZB_CCM_M"
    and "buf_ok r" "payload r = a @ c @ u'" "length u' = ZB_CCM_M" "u' \<noteq> u"
  shows "\<exists>r'. zb_ccm_decrypt_n_auth_stdsecur key nonce r (length a) (length m + ZB_CCM_M) = Some (RET_ERROR, r')
    \<and> payload r' = a @ replicate (length m) 0xeb"
proof -
  have seal: "ccm_seal (key, nonce) a m = c @ u"
    using encrypt_refines_seal [OF assms(1) _ assms(3), of a m] assms(2,4,5) by (auto simp: ZB_CCM_M_def)
  then have lc: "length c = length m"
    using ccm.length_seal [OF assms(1), of a m] assms(6) by simp
  have opn: "ccm_open (key, nonce) a (c @ u') = None"
    by (rule ccm.changed_tag_is_rejected [OF assms(1) seal lc assms(9,10)])
  have "length a + (length m + ZB_CCM_M) = blen r" "length m + ZB_CCM_M \<le> 136"
    using length_payload [OF assms(7)] assms(2,8,9) lc by (simp_all add: ZB_CCM_M_def)
  from decrypt_refines_open [OF assms(1,7) this(1) _ this(2)] show ?thesis
    using opn assms(8) by (auto simp: zb_ccm_decrypt_n_auth_stdsecur_def)
qed

theorem changed_code_is_refused_witness:
  "\<exists>b1 c u r'. zb_ccm_encrypt_n_auth (replicate 16 1) (replicate 13 2) [3] [5, 6] (plain_buf []) = Some (RET_OK, b1)
    \<and> payload b1 = [3] @ c @ u
    \<and> zb_ccm_decrypt_n_auth_stdsecur (replicate 16 1) (replicate 13 2)
        (plain_buf ([3] @ c @ map NOT u)) 1 6 = Some (RET_ERROR, r')
    \<and> payload r' = [3, 0xeb, 0xeb]"
proof -
  have k: "key_ok (replicate 16 1, replicate 13 2)" by (simp add: key_ok_def ZB_CCM_NONCE_LEN_def)
  have lb: "length (bytes (plain_buf [])) = ZB_IO_BUF_SIZE" by (simp add: plain_buf_def)
  obtain b1 where b1: "zb_ccm_encrypt_n_auth (replicate 16 1) (replicate 13 2) [3] [5, 6] (plain_buf []) = Some (RET_OK, b1)"
      "payload b1 = [3] @ ccm_seal (replicate 16 1, replicate 13 2) [3] [5, 6]"
    using encrypt_refines_seal [OF k _ lb, of "[3]" "[5, 6]"] by (auto simp: ZB_CCM_M_def)
  define c where "c = take 2 (ccm_seal (replicate 16 1, replicate 13 2) [3] [5, 6])"
  define u where "u = drop 2 (ccm_seal (replicate 16 1, replicate 13 2) [3] [5, 6])"
  have cu: "payload b1 = [3] @ c @ u" "length u = ZB_CCM_M" "length c = 2"
    using b1(2) ccm.length_seal [OF k, of "[3]" "[5, 6]"] by (simp_all add: c_def u_def ZB_CCM_M_def)
  have "bit (NOT (hd u)) 0 \<longleftrightarrow> \<not> bit (hd u) 0" by (simp add: bit_simps)
  then have "NOT (hd u) \<noteq> hd u" by metis
  then have ne: "map NOT u \<noteq> u" using cu(2) by (cases u) (auto simp: ZB_CCM_M_def)
  have pb: "buf_ok (plain_buf ([3] @ c @ map NOT u))" "payload (plain_buf ([3] @ c @ map NOT u)) = [3] @ c @ map NOT u"
    using plain_buf [of "[3] @ c @ map NOT u"] cu by (simp_all add: ZB_CCM_M_def ZB_IO_BUF_SIZE_def)
  from changed_code_is_refused [OF k _ lb b1(1) cu(1,2) pb _ ne] b1(1) cu show ?thesis
    by (auto simp: ZB_CCM_M_def numeral_2_eq_2)
qed

text \<open>
  C27: Encrypting writes 16 bytes where the code has 4, so it stays inside of the buffer iff header,
  payload and code have at most 125 bytes together; above that it writes behind the
  end of the buffer (or stops at the assertion of the allocation).
\<close>

theorem encrypt_stays_in_buffer_iff:
  assumes "key_ok (key, nonce)" "length (bytes b) = ZB_IO_BUF_SIZE"
  shows "zb_ccm_encrypt_n_auth key nonce a m b \<noteq> None \<longleftrightarrow> length a + length m + ZB_CCM_M \<le> 125"
  using encrypt_refines_seal [OF assms(1) _ assms(2), of a m] encrypt_overruns [OF assms(1) _ assms(2), of a m]
  by fastforce

theorem encrypt_stays_in_buffer_iff_witness:
  "zb_ccm_encrypt_n_auth (replicate 16 1) (replicate 13 2) [3] (replicate 120 0) (plain_buf []) \<noteq> None
    \<and> zb_ccm_encrypt_n_auth (replicate 16 1) (replicate 13 2) [3] (replicate 121 0) (plain_buf []) = None"
  using encrypt_stays_in_buffer_iff [of "replicate 16 1" "replicate 13 2" "plain_buf []" "[3]" "replicate 120 0"]
    encrypt_stays_in_buffer_iff [of "replicate 16 1" "replicate 13 2" "plain_buf []" "[3]" "replicate 121 0"]
  by (simp add: key_ok_def ZB_CCM_NONCE_LEN_def plain_buf_def ZB_CCM_M_def del: not_None_eq)

end
