(* ===== verification/Nwk_Neighbor.thy ===== *)
theory Nwk_Neighbor
  imports Address
begin

text \<open>
  The neighbour table of the network layer: \<^verbatim>\<open>nwk/nwk_neighbor.c\<close> and
  \<^verbatim>\<open>include/zb_nwk_neighbor.h\<close> in the build for routers. \<^verbatim>\<open>addr_to_neighbor\<close> maps the reference of
  an address to the index of its entry (255 for none). While a device looks for networks a second,
  extended table lies in the memory of the first one, behind its first
  \<^verbatim>\<open>base_neighbor_size\<close> entries; \<open>ext_offset\<close> is the distance in bytes of the pointer
  \<^verbatim>\<open>ext_neighbor\<close> from the start of the array. Pointers to entries are their indices, an access outside of an array
  and the read of a variable that was not set are \<open>None\<close>.
\<close>

section \<open>Tables\<close>

definition ZB_NEIGHBOR_TABLE_SIZE :: nat where "ZB_NEIGHBOR_TABLE_SIZE = 32"

text \<open>The enumerations, in the order of their numbers.\<close>

datatype zb_nwk_device_type =
  DEVICE_TYPE_ED | DEVICE_TYPE_ROUTER | DEVICE_TYPE_COORDINATOR | DEVICE_TYPE_NONE

datatype zb_nwk_relationship =
    RELATIONSHIP_PARENT | RELATIONSHIP_CHILD | RELATIONSHIP_SIBLING | RELATIONSHIP_NONE_OF_THE_ABOVE
  | RELATIONSHIP_PREVIOUS_CHILD | RELATIONSHIP_UNAUTHENTICATED_CHILD

record zb_neighbor_tbl_ent =
  nb_addr_ref :: nat
  nb_permit_joining :: nat
  nb_device_type :: zb_nwk_device_type
  nb_depth :: nat
  nb_used :: bool
  nb_rx_on_when_idle :: bool
  nb_relationship :: zb_nwk_relationship
  nb_transmit_failure :: u8
  nb_lqi :: u8
  nb_incoming_frame_counter :: u32
  nb_key_seq_number :: u8

record zb_ext_neighbor_tbl_ent =
  ext_short_addr :: u16
  ext_long_addr :: zb_ieee_addr_compressed
  ext_lqi :: u8
  ext_update_id :: u8
  ext_logical_channel :: nat
  ext_panid_ref :: nat
  ext_beacon_order :: nat
  ext_depth :: nat
  ext_stack_profile :: nat
  ext_superframe_order :: nat
  ext_permit_joining :: nat
  ext_device_type :: zb_nwk_device_type
  ext_router_capacity :: bool
  ext_end_device_capacity :: bool
  ext_potential_parent :: bool

record zb_neighbor_tbl =
  base_neighbor :: "zb_neighbor_tbl_ent list"
  addr_to_neighbor :: "nat list"
  base_neighbor_size :: nat
  base_neighbor_used :: nat
  ext_offset :: nat
  ext_neighbor :: "zb_ext_neighbor_tbl_ent list"
  ext_neighbor_size :: nat
  ext_neighbor_used :: nat
  incoming_frame_counter_clock :: nat

text \<open>The part of the globals the operations work on: the two tables and the depth of the node.\<close>

record nb_ctx =
  addr :: zb_addr_globals
  neighbor :: zb_neighbor_tbl
  nib_depth :: nat

definition ent_zero :: zb_neighbor_tbl_ent where
  "ent_zero = \<lparr>nb_addr_ref = 0, nb_permit_joining = 0, nb_device_type = DEVICE_TYPE_ED, nb_depth = 0,
     nb_used = False, nb_rx_on_when_idle = False, nb_relationship = RELATIONSHIP_PARENT,
     nb_transmit_failure = 0, nb_lqi = 0, nb_incoming_frame_counter = 0, nb_key_seq_number = 0\<rparr>"

definition ext_zero :: zb_ext_neighbor_tbl_ent where
  "ext_zero = \<lparr>ext_short_addr = 0, ext_long_addr = zero_compressed, ext_lqi = 0, ext_update_id = 0,
     ext_logical_channel = 0, ext_panid_ref = 0, ext_beacon_order = 0, ext_depth = 0,
     ext_stack_profile = 0, ext_superframe_order = 0, ext_permit_joining = 0,
     ext_device_type = DEVICE_TYPE_ED, ext_router_capacity = False, ext_end_device_capacity = False,
     ext_potential_parent = False\<rparr>"

definition NO_NEIGHBOR :: nat where "NO_NEIGHBOR = 255"

text \<open>The sizes of the two packed structs in bytes.\<close>

definition SIZEOF_ENT :: nat where "SIZEOF_ENT = 10"
definition SIZEOF_EXT :: nat where "SIZEOF_EXT = 14"

definition upd_nb :: "(zb_neighbor_tbl \<Rightarrow> zb_neighbor_tbl) \<Rightarrow> nb_ctx \<Rightarrow> nb_ctx" where
  "upd_nb f s = s\<lparr>neighbor := f (neighbor s)\<rparr>"

definition set_base :: "nat \<Rightarrow> zb_neighbor_tbl_ent \<Rightarrow> zb_neighbor_tbl \<Rightarrow> zb_neighbor_tbl" where
  "set_base i e t = t\<lparr>base_neighbor := (base_neighbor t)[i := e]\<rparr>"

definition set_index :: "nat \<Rightarrow> nat \<Rightarrow> zb_neighbor_tbl \<Rightarrow> zb_neighbor_tbl" where
  "set_index r n t = t\<lparr>addr_to_neighbor := (addr_to_neighbor t)[r := n]\<rparr>"

section \<open>Start\<close>

definition zb_nwk_neighbor_init :: "zb_neighbor_tbl \<Rightarrow> zb_neighbor_tbl" where
  "zb_nwk_neighbor_init t =
     t\<lparr>addr_to_neighbor := replicate ZB_IEEE_ADDR_TABLE_SIZE NO_NEIGHBOR,
       base_neighbor_size := ZB_NEIGHBOR_TABLE_SIZE\<rparr>"

definition nb_zero :: zb_neighbor_tbl where
  "nb_zero = \<lparr>base_neighbor = replicate ZB_NEIGHBOR_TABLE_SIZE ent_zero,
     addr_to_neighbor = replicate ZB_IEEE_ADDR_TABLE_SIZE 0, base_neighbor_size = 0,
     base_neighbor_used = 0, ext_offset = 0, ext_neighbor = [], ext_neighbor_size = 0,
     ext_neighbor_used = 0, incoming_frame_counter_clock = 0\<rparr>"

definition zb_nwk_neighbor_clear :: "zb_neighbor_tbl \<Rightarrow> zb_neighbor_tbl" where
  "zb_nwk_neighbor_clear t = zb_nwk_neighbor_init nb_zero"

section \<open>Single entries\<close>

definition zb_nwk_neighbor_delete :: "nat \<Rightarrow> zb_neighbor_tbl \<Rightarrow> (zb_ret \<times> zb_neighbor_tbl) option" where
  "zb_nwk_neighbor_delete ieee_ref t =
     (if ieee_ref < length (addr_to_neighbor t) then
        (let n = addr_to_neighbor t ! ieee_ref in
         if n \<noteq> NO_NEIGHBOR then
           (let t1 = set_index ieee_ref NO_NEIGHBOR t in
            if n < length (base_neighbor t)
            then Some (RET_OK, set_base n ((base_neighbor t1 ! n)\<lparr>nb_used := False\<rparr>) t1)
            else None)
         else Some (RET_NOT_FOUND, t))
      else None)"

definition base_neighbor_cleanup :: "zb_neighbor_tbl \<Rightarrow> zb_neighbor_tbl" where
  "base_neighbor_cleanup t = t"

text \<open>
  The result is the return code, the index of the entry where the code sets it, and the new state.
  The check for a full table is for equality with the size less one; an entry written at
  \<^verbatim>\<open>base_neighbor_size\<close> would lie in the bytes of the extended table, or behind the array.
\<close>

definition zb_nwk_neighbor_get :: "nat \<Rightarrow> bool \<Rightarrow> nb_ctx \<Rightarrow> (zb_ret \<times> nat option \<times> nb_ctx) option" where
  "zb_nwk_neighbor_get a create_if_absent s =
     (let t = neighbor s in
      if a < length (addr_to_neighbor t) then
        (let n = addr_to_neighbor t ! a in
         if n = NO_NEIGHBOR then
           (if create_if_absent then
              (if base_neighbor_used t + 1 = base_neighbor_size t then Some (RET_NO_MEMORY, None, s)
               else
                 (case zb_address_lock a (addr s) of
                    None \<Rightarrow> None
                  | Some g \<Rightarrow>
                      (let n = base_neighbor_used t;
                           t1 = set_index a (n mod 256) t;
                           t2 = t1\<lparr>base_neighbor_used := ushort_inc (base_neighbor_used t1)\<rparr>;
                           e = ent_zero\<lparr>nb_used := True, nb_addr_ref := a,
                                 nb_relationship := RELATIONSHIP_NONE_OF_THE_ABOVE,
                                 nb_permit_joining := 2, nb_depth := nib_depth s mod 16\<rparr>
                       in if n < base_neighbor_size t2
                          then Some (RET_OK, Some n, s\<lparr>addr := g, neighbor := set_base n e t2\<rparr>)
                          else None)))
            else Some (RET_NOT_FOUND, None, s))
         else Some (RET_OK, Some n, s))
      else None)"

definition zb_nwk_neighbor_get_by_short :: "u16 \<Rightarrow> nb_ctx \<Rightarrow> (zb_ret \<times> nat option \<times> nb_ctx) option" where
  "zb_nwk_neighbor_get_by_short a s =
     (case zb_address_by_short a False False (addr s) of
        None \<Rightarrow> None
      | Some (ret, ref, g) \<Rightarrow>
          if ret = RET_OK then
            (case zb_nwk_neighbor_get (the ref) False (s\<lparr>addr := g\<rparr>) of
               None \<Rightarrow> None
             | Some (ret2, n, s2) \<Rightarrow>
                 Some (if ret2 = RET_OK then (RET_OK, n, s2) else (RET_NOT_FOUND, None, s2)))
          else Some (RET_NOT_FOUND, None, s\<lparr>addr := g\<rparr>))"

definition zb_nwk_neighbor_get_by_ieee :: "ieee \<Rightarrow> nb_ctx \<Rightarrow> (zb_ret \<times> nat option \<times> nb_ctx) option" where
  "zb_nwk_neighbor_get_by_ieee a s =
     (case zb_address_by_ieee a False False (addr s) of
        None \<Rightarrow> None
      | Some (ret, ref, g) \<Rightarrow>
          if ret = RET_OK then
            (case zb_nwk_neighbor_get (the ref) False (s\<lparr>addr := g\<rparr>) of
               None \<Rightarrow> None
             | Some (ret2, n, s2) \<Rightarrow>
                 Some (if ret2 = RET_OK then (RET_OK, n, s2) else (RET_NOT_FOUND, None, s2)))
          else Some (RET_NOT_FOUND, None, s\<lparr>addr := g\<rparr>))"

text \<open>
  The result of \<^verbatim>\<open>zb_address_by_ieee\<close> is not looked at: when it fails the reference is the value of a variable that was not set.
\<close>

definition zb_nwk_neighbor_ext_to_base_tmp :: "zb_ext_neighbor_tbl_ent \<Rightarrow> nb_ctx \<Rightarrow> (zb_ret \<times> nb_ctx) option" where
  "zb_nwk_neighbor_ext_to_base_tmp x s =
     (let t = neighbor s; n = base_neighbor_used t in
      if n \<ge> base_neighbor_size t then Some (RET_NO_MEMORY, s)
      else
        (case zb_address_by_ieee (zb_ieee_addr_decompress (ext_long_addr x) (addr s)) True False (addr s) of
           Some (RET_OK, Some ref, g) \<Rightarrow>
             (if ref < length (addr_to_neighbor t) \<and> n < length (base_neighbor t) then
                (let t1 = set_index ref (n mod 256) t;
                     t2 = t1\<lparr>base_neighbor_used := ushort_inc n\<rparr>;
                     e = ent_zero\<lparr>nb_device_type := ext_device_type x,
                           nb_rx_on_when_idle := (ext_device_type x \<noteq> DEVICE_TYPE_ED),
                           nb_relationship := RELATIONSHIP_NONE_OF_THE_ABOVE,
                           nb_used := True, nb_addr_ref := ref, nb_lqi := ext_lqi x\<rparr>
                 in Some (RET_OK, s\<lparr>addr := g, neighbor := set_base n e t2\<rparr>))
              else None)
         | _ \<Rightarrow> None))"

section \<open>The extended table\<close>

text \<open>
  The bytes of the extended table do not overlap the entries of the base table that are still in use
  as such and do not leave the array.
\<close>

definition ext_layout_ok :: "zb_neighbor_tbl \<Rightarrow> bool" where
  "ext_layout_ok t \<longleftrightarrow> base_neighbor_size t * SIZEOF_ENT \<le> ext_offset t
     \<and> ext_offset t + ext_neighbor_size t * SIZEOF_EXT \<le> ZB_NEIGHBOR_TABLE_SIZE * SIZEOF_ENT"

definition alloc_new_extneiboard ::
  "nat \<Rightarrow> u16 \<Rightarrow> zb_neighbor_tbl \<Rightarrow> (zb_ret \<times> nat option \<times> zb_neighbor_tbl) option" where
  "alloc_new_extneiboard panid_ref short_addr t =
     (if ext_neighbor_used t = ext_neighbor_size t then Some (RET_NO_MEMORY, None, t)
      else if ext_layout_ok t \<and> ext_neighbor_used t < length (ext_neighbor t) then
        (let n = ext_neighbor_used t in
         Some (RET_OK, Some n,
           t\<lparr>ext_neighbor_used := ushort_inc n,
             ext_neighbor := (ext_neighbor t)[n :=
               ext_zero\<lparr>ext_short_addr := short_addr, ext_panid_ref := panid_ref mod 8\<rparr>]\<rparr>))
      else None)"

definition zb_nwk_exneighbor_by_short ::
  "nat \<Rightarrow> u16 \<Rightarrow> zb_neighbor_tbl \<Rightarrow> (zb_ret \<times> nat option \<times> zb_neighbor_tbl) option" where
  "zb_nwk_exneighbor_by_short panid_ref short_addr t =
     (case find (\<lambda>i. ext_short_addr (ext_neighbor t ! i) = short_addr
                   \<and> ext_panid_ref (ext_neighbor t ! i) = panid_ref) [0..<ext_neighbor_used t] of
        Some i \<Rightarrow> Some (RET_OK, Some i, t)
      | None \<Rightarrow> alloc_new_extneiboard panid_ref short_addr t)"

text \<open>The loop by long address does not stop at a match, so the last one counts.\<close>

definition zb_nwk_exneighbor_by_ieee ::
  "nat \<Rightarrow> ieee \<Rightarrow> nb_ctx \<Rightarrow> (zb_ret \<times> nat option \<times> nb_ctx) option" where
  "zb_nwk_exneighbor_by_ieee panid_ref long_addr s =
     (case zb_ieee_addr_compress long_addr (addr s) of
        None \<Rightarrow> None
      | Some (c, g) \<Rightarrow>
          (let t = neighbor s; s1 = s\<lparr>addr := g\<rparr> in
           case find (\<lambda>i. ext_panid_ref (ext_neighbor t ! i) = panid_ref
                         \<and> zb_address_compressed_cmp (ext_long_addr (ext_neighbor t ! i)) c)
                  (rev [0..<ext_neighbor_used t]) of
             Some i \<Rightarrow> Some (RET_OK, Some i, s1)
           | None \<Rightarrow>
               (case alloc_new_extneiboard panid_ref 0xFFFF t of
                  None \<Rightarrow> None
                | Some (RET_OK, Some i, t1) \<Rightarrow>
                    (case zb_ieee_addr_compress long_addr g of
                       None \<Rightarrow> None
                     | Some (c2, g2) \<Rightarrow>
                         Some (RET_OK, Some i,
                           s\<lparr>addr := g2,
                             neighbor := t1\<lparr>ext_neighbor := (ext_neighbor t1)[i :=
                               (ext_neighbor t1 ! i)\<lparr>ext_long_addr := c2\<rparr>]\<rparr>\<rparr>))
                | Some (ret, n, t1) \<Rightarrow> Some (ret, n, s1\<lparr>neighbor := t1\<rparr>))))"

text \<open>The packing loop of \<^verbatim>\<open>zb_nwk_exneighbor_start\<close>.\<close>

function pack_base :: "nat \<Rightarrow> nat \<Rightarrow> nat \<Rightarrow> zb_neighbor_tbl \<Rightarrow> zb_neighbor_tbl option" where
  "pack_base i usd hole t =
     (if i < base_neighbor_size t \<and> usd < base_neighbor_used t then
        (if i < length (base_neighbor t) then
           (let e = base_neighbor t ! i in
            if nb_used e then
              (if hole > 0 then
                 (if nb_addr_ref e < length (addr_to_neighbor t) then
                    pack_base (i + 1) (usd + 1) (hole - 1)
                      (set_base i (e\<lparr>nb_used := False\<rparr>)
                        (set_index (nb_addr_ref e) (i - hole) (set_base (i - hole) e t)))
                  else None)
               else pack_base (i + 1) (usd + 1) hole t)
            else pack_base (i + 1) usd (hole + 1) t)
         else None)
      else Some t)"
  by pat_completeness auto
termination
  by (relation "measure (\<lambda>(i, usd, hole, t). base_neighbor_size t - i)") (auto simp: set_base_def set_index_def)

declare pack_base.simps [simp del]

definition round_to_4 :: "nat \<Rightarrow> nat" where
  "round_to_4 a = (a + 3) div 4 * 4"

text \<open>
  What \<^verbatim>\<open>zb_nwk_exneighbor_start\<close> computes from size and use of the base table: its new size, the
  offset of the extended table and the number of entries of that. \<^verbatim>\<open>cut\<close> and \<^verbatim>\<open>off\<close> are
  variables of eight bits.
\<close>

definition ext_cut :: "nat \<Rightarrow> nat \<Rightarrow> nat \<times> nat \<times> nat" where
  "ext_cut base_size base_used =
     (let cut = base_size div 2 mod 256;
          cut = (if base_used > base_size - cut then (base_size - base_used) mod 256 else cut);
          size1 = base_size - cut;
          off = round_to_4 (size1 * SIZEOF_ENT) mod 256;
          cut2 = nat ((int (cut * SIZEOF_ENT) - (int off - int (size1 * SIZEOF_ENT))) mod 256)
      in (size1, off, cut2 div SIZEOF_EXT))"

text \<open>
  The bytes of the extended table are not cleared when it is made, its entries are written before
  they are read.
\<close>

definition zb_nwk_exneighbor_start :: "zb_neighbor_tbl \<Rightarrow> zb_neighbor_tbl option" where
  "zb_nwk_exneighbor_start t =
     (if ext_neighbor_size t \<noteq> 0 then Some t
      else
        (case (if base_neighbor_used t \<noteq> 0 then pack_base 0 0 0 t else Some t) of
           None \<Rightarrow> None
         | Some t1 \<Rightarrow>
             (let t2 = (if base_neighbor_used t1 > base_neighbor_size t1 - base_neighbor_size t1 div 2 mod 256
                        then base_neighbor_cleanup t1 else t1);
                  (size1, off, n) = ext_cut (base_neighbor_size t2) (base_neighbor_used t2)
              in if n > 0
                 then Some (t2\<lparr>base_neighbor_size := size1, ext_offset := off,
                       ext_neighbor := replicate n ext_zero, ext_neighbor_size := n\<rparr>)
                 else None)))"

definition ext_is_zero :: "zb_ieee_addr_compressed \<Rightarrow> bool" where
  "ext_is_zero c \<longleftrightarrow> man_ref c = 0 \<and> device_id c = [0, 0, 0, 0, 0]"

text \<open>The reference for the addresses of an extended entry, by what is known of them.\<close>

definition ext_address :: "zb_ext_neighbor_tbl_ent \<Rightarrow> zb_addr_globals \<Rightarrow> (zb_ret \<times> nat option \<times> zb_addr_globals) option" where
  "ext_address x g =
     (if ext_short_addr x \<noteq> 0xFFFF then
        (if \<not> ext_is_zero (ext_long_addr x)
         then zb_address_update (zb_ieee_addr_decompress (ext_long_addr x) g) (ext_short_addr x) False g
         else zb_address_by_short (ext_short_addr x) True False g)
      else zb_address_by_ieee (zb_ieee_addr_decompress (ext_long_addr x) g) True False g)"

definition ext_to_base :: "zb_ext_neighbor_tbl_ent \<Rightarrow> nat \<Rightarrow> zb_neighbor_tbl \<Rightarrow> zb_neighbor_tbl option" where
  "ext_to_base x ref t =
     (if ref < length (addr_to_neighbor t) then
        (let n = addr_to_neighbor t ! ref;
             fin = (\<lambda>n t. set_base n ((base_neighbor t ! n)\<lparr>nb_used := True, nb_addr_ref := ref,
                            nb_lqi := ext_lqi x\<rparr>) t)
         in if n \<noteq> NO_NEIGHBOR then
              (if n < length (base_neighbor t) \<and> nb_used (base_neighbor t ! n) then
                 (let e = base_neighbor t ! n;
                      t1 = (if nb_device_type e = DEVICE_TYPE_NONE
                            then set_base n (e\<lparr>nb_device_type := ext_device_type x\<rparr>) t else t)
                  in Some (fin n t1))
               else None)
            else
              (let t1 = (if base_neighbor_used t = base_neighbor_size t then base_neighbor_cleanup t else t);
                   n = base_neighbor_used t1
               in if n < base_neighbor_size t1 then
                    (if n < length (base_neighbor t1) then
                       (let t2 = set_index ref (n mod 256) t1;
                            t3 = t2\<lparr>base_neighbor_used := ushort_inc n\<rparr>;
                            e = ent_zero\<lparr>nb_device_type := ext_device_type x,
                                  nb_rx_on_when_idle := (ext_device_type x \<noteq> DEVICE_TYPE_ED),
                                  nb_depth := ext_depth x, nb_permit_joining := ext_permit_joining x,
                                  nb_relationship := RELATIONSHIP_NONE_OF_THE_ABOVE\<rparr>
                        in Some (fin n (set_base n e t3)))
                     else None)
                  else Some t1))
      else None)"

text \<open>The loop of \<^verbatim>\<open>zb_nwk_exneighbor_stop\<close> over the entries; \<^verbatim>\<open>free_size\<close> has eight bits.\<close>

fun stop_loop :: "nat option \<Rightarrow> zb_ext_neighbor_tbl_ent list \<Rightarrow> nat \<Rightarrow> nb_ctx \<Rightarrow> nb_ctx option" where
  "stop_loop my_panid_ref [] free_size s = Some s"
| "stop_loop my_panid_ref (x # xs) free_size s =
     (case my_panid_ref of
        None \<Rightarrow> None
      | Some p \<Rightarrow>
          (case (if ext_panid_ref x = p then
                   (case ext_address x (addr s) of
                      None \<Rightarrow> None
                    | Some (ret, ref, g) \<Rightarrow>
                        if ret = RET_OK
                        then map_option (\<lambda>t. s\<lparr>addr := g, neighbor := t\<rparr>)
                               (ext_to_base x (the ref) (neighbor s))
                        else Some (s\<lparr>addr := g\<rparr>))
                 else Some s) of
             None \<Rightarrow> None
           | Some s1 \<Rightarrow>
               (let fs = (free_size + SIZEOF_EXT) mod 256;
                    s2 = upd_nb (\<lambda>t. t\<lparr>base_neighbor_size := base_neighbor_size t + fs div SIZEOF_ENT\<rparr>) s1;
                    fs = fs - fs div SIZEOF_ENT * SIZEOF_ENT
                in if base_neighbor_size (neighbor s2) \<le> ZB_NEIGHBOR_TABLE_SIZE
                   then stop_loop my_panid_ref xs fs s2 else None)))"

text \<open>
  \<open>rest\<close> is what the array holds, read as entries of the base table, in the part that the
  extended table lies in: these bytes are not cleared when they are given back.
\<close>

definition give_back :: "zb_neighbor_tbl_ent list \<Rightarrow> zb_neighbor_tbl \<Rightarrow> zb_neighbor_tbl" where
  "give_back rest t =
     (if ext_neighbor_size t = 0 then t
      else t\<lparr>base_neighbor := take (base_neighbor_size t) (base_neighbor t)
               @ take (ZB_NEIGHBOR_TABLE_SIZE - base_neighbor_size t) rest\<rparr>)"

definition zb_nwk_exneighbor_stop ::
  "zb_neighbor_tbl_ent list \<Rightarrow> bool \<Rightarrow> u8 list \<Rightarrow> nb_ctx \<Rightarrow> nb_ctx option" where
  "zb_nwk_exneighbor_stop rest joined nib_ext_pan_id s =
     (let s0 = upd_nb (give_back rest) s in
      case (if joined
            then stop_loop (snd (zb_address_get_pan_id_ref nib_ext_pan_id (addr s0)))
                   (take (ext_neighbor_used (neighbor s0)) (ext_neighbor (neighbor s0))) 0 s0
            else Some s0) of
        None \<Rightarrow> None
      | Some s1 \<Rightarrow>
          Some (upd_nb (\<lambda>t. t\<lparr>base_neighbor_size := ZB_NEIGHBOR_TABLE_SIZE, ext_neighbor_used := 0,
            ext_neighbor_size := 0, ext_neighbor := []\<rparr>) s1))"

section \<open>Frame counters and iteration\<close>

definition zb_nwk_neighbor_incoming_frame_counter_clock :: "u8 \<Rightarrow> zb_neighbor_tbl \<Rightarrow> zb_neighbor_tbl option" where
  "zb_nwk_neighbor_incoming_frame_counter_clock key_seq_number t =
     (if base_neighbor_size t \<noteq> 0 then
        (let i = (incoming_frame_counter_clock t + 1) mod base_neighbor_size t;
             t1 = t\<lparr>incoming_frame_counter_clock := i\<rparr>
         in if i < length (base_neighbor t1) then
              (let e = base_neighbor t1 ! i;
                   diff = int (unat key_seq_number) - int (unat (nb_key_seq_number e));
                   diff = (if diff < 0 then 256 + diff else diff)
               in Some (if diff > 3
                        then set_base i (e\<lparr>nb_incoming_frame_counter := 0,
                               nb_key_seq_number := key_seq_number\<rparr>) t1
                        else t1))
            else None)
      else Some t)"

text \<open>The iterators return the next index with the wanted property, \<^verbatim>\<open>~0\<close> at the end.\<close>

definition NO_INDEX :: nat where "NO_INDEX = 2 ^ 32 - 1"

definition next_index :: "(zb_neighbor_tbl_ent \<Rightarrow> bool) \<Rightarrow> nat \<Rightarrow> zb_neighbor_tbl \<Rightarrow> nat" where
  "next_index P i t =
     (case find (\<lambda>k. P (base_neighbor t ! k)) [i..<base_neighbor_used t] of
        Some k \<Rightarrow> k | None \<Rightarrow> NO_INDEX)"

definition zb_nwk_neighbor_next_rx_on_i :: "nat \<Rightarrow> zb_neighbor_tbl \<Rightarrow> nat" where
  "zb_nwk_neighbor_next_rx_on_i i t = next_index (\<lambda>e. nb_used e \<and> nb_rx_on_when_idle e) i t"

definition is_child :: "zb_neighbor_tbl_ent \<Rightarrow> bool" where
  "is_child e \<longleftrightarrow> nb_relationship e = RELATIONSHIP_CHILD
     \<or> nb_relationship e = RELATIONSHIP_UNAUTHENTICATED_CHILD"

definition ZB_NWK_BROADCAST_ALL_DEVICES :: u16 where "ZB_NWK_BROADCAST_ALL_DEVICES = 0xFFFF"
definition ZB_NWK_BROADCAST_RX_ON_WHEN_IDLE :: u16 where "ZB_NWK_BROADCAST_RX_ON_WHEN_IDLE = 0xFFFD"

definition zb_nwk_neighbor_next_ze_children_i :: "u16 \<Rightarrow> nat \<Rightarrow> zb_neighbor_tbl \<Rightarrow> nat" where
  "zb_nwk_neighbor_next_ze_children_i a i t =
     next_index (\<lambda>e. nb_used e \<and> is_child e \<and> nb_device_type e = DEVICE_TYPE_ED
        \<and> (a = ZB_NWK_BROADCAST_ALL_DEVICES
           \<or> (a = ZB_NWK_BROADCAST_RX_ON_WHEN_IDLE \<and> nb_rx_on_when_idle e))) i t"

definition zb_nwk_neighbor_next_ze_children_rx_off_i :: "nat \<Rightarrow> zb_neighbor_tbl \<Rightarrow> nat" where
  "zb_nwk_neighbor_next_ze_children_rx_off_i i t =
     next_index (\<lambda>e. nb_used e \<and> is_child e \<and> \<not> nb_rx_on_when_idle e) i t"

end
