(* ===== verification/Nwk_Neighbor_Inv.thy ===== *)
theory Nwk_Neighbor_Inv
  imports Nwk_Neighbor
begin

text \<open>
  The invariant of the neighbour table, that every operation keeps it, and the histories of the table as
  a step relation.
\<close>

lemma nth_update: "xs[i := x] ! j = (if i = j \<and> j < length xs then x else xs ! j)"
  by (cases "i < length xs") (auto simp: nth_list_update list_update_beyond)

section \<open>The invariant\<close>

definition nb_index_ok :: "zb_neighbor_tbl \<Rightarrow> bool" where
  "nb_index_ok t \<longleftrightarrow> (\<forall>r<ZB_IEEE_ADDR_TABLE_SIZE. addr_to_neighbor t ! r \<noteq> NO_NEIGHBOR \<longrightarrow>
     addr_to_neighbor t ! r < base_neighbor_used t
     \<and> nb_used (base_neighbor t ! (addr_to_neighbor t ! r))
     \<and> nb_addr_ref (base_neighbor t ! (addr_to_neighbor t ! r)) = r)"

definition nb_clean :: "zb_neighbor_tbl \<Rightarrow> bool" where
  "nb_clean t \<longleftrightarrow> (\<forall>i<ZB_NEIGHBOR_TABLE_SIZE. nb_used (base_neighbor t ! i) \<longrightarrow>
     i < base_neighbor_used t \<and> nb_addr_ref (base_neighbor t ! i) < ZB_IEEE_ADDR_TABLE_SIZE)"

definition nb_shape :: "zb_neighbor_tbl \<Rightarrow> bool" where
  "nb_shape t \<longleftrightarrow> length (base_neighbor t) = ZB_NEIGHBOR_TABLE_SIZE
     \<and> length (addr_to_neighbor t) = ZB_IEEE_ADDR_TABLE_SIZE
     \<and> base_neighbor_used t \<le> base_neighbor_size t \<and> base_neighbor_size t \<le> ZB_NEIGHBOR_TABLE_SIZE
     \<and> 0 < base_neighbor_size t"

definition nb_inv :: "zb_neighbor_tbl \<Rightarrow> bool" where
  "nb_inv t \<longleftrightarrow> nb_shape t \<and> nb_clean t \<and> nb_index_ok t"

lemma nb_invI: "nb_shape t \<Longrightarrow> nb_clean t \<Longrightarrow> nb_index_ok t \<Longrightarrow> nb_inv t"
  by (simp add: nb_inv_def)

lemmas nb_defs = nb_shape_def nb_clean_def nb_index_ok_def set_base_def set_index_def

lemma nb_inv_ext_fields [simp]:
  "nb_inv (t\<lparr>ext_neighbor := x\<rparr>) = nb_inv t" "nb_inv (t\<lparr>ext_neighbor_used := n\<rparr>) = nb_inv t"
  "nb_inv (t\<lparr>ext_neighbor_size := n\<rparr>) = nb_inv t" "nb_inv (t\<lparr>ext_offset := n\<rparr>) = nb_inv t"
  "nb_inv (t\<lparr>incoming_frame_counter_clock := n\<rparr>) = nb_inv t"
  by (simp_all add: nb_inv_def nb_defs)

lemma nb_inv_grow:
  "nb_inv t \<Longrightarrow> base_neighbor_size t \<le> n \<Longrightarrow> n \<le> ZB_NEIGHBOR_TABLE_SIZE \<Longrightarrow> nb_inv (t\<lparr>base_neighbor_size := n\<rparr>)"
  by (auto simp: nb_inv_def nb_defs)

lemma nb_inv_shrink:
  "nb_inv t \<Longrightarrow> base_neighbor_used t \<le> n \<Longrightarrow> 0 < n \<Longrightarrow> n \<le> base_neighbor_size t \<Longrightarrow>
     nb_inv (t\<lparr>base_neighbor_size := n\<rparr>)"
  by (auto simp: nb_inv_def nb_defs)

lemma clear_inv: "nb_inv (zb_nwk_neighbor_clear t)"
  by (auto simp: nb_inv_def nb_defs zb_nwk_neighbor_clear_def zb_nwk_neighbor_init_def nb_zero_def
      ZB_NEIGHBOR_TABLE_SIZE_def ent_zero_def)

text \<open>Changing fields other than the reference of an entry, and marking it used when it is.\<close>

lemma nb_update_entry_inv:
  assumes "nb_inv t" "nb_used e = nb_used (base_neighbor t ! i)" "nb_addr_ref e = nb_addr_ref (base_neighbor t ! i)"
  shows "nb_inv (set_base i e t)"
  using assms by (auto simp: nb_inv_def nb_defs nth_update)

text \<open>A new entry behind the last one.\<close>

lemma new_entry_inv:
  assumes inv: "nb_inv t" and r: "r < ZB_IEEE_ADDR_TABLE_SIZE"
    and n: "n = base_neighbor_used t" "n < base_neighbor_size t"
    and e: "nb_used e" "nb_addr_ref e = r"
  shows "nb_inv (set_base n e (set_index r n t\<lparr>base_neighbor_used := Suc n\<rparr>))"
proof (rule nb_invI)
  let ?t = "set_base n e (set_index r n t\<lparr>base_neighbor_used := Suc n\<rparr>)"
  have len: "n < length (base_neighbor t)" "length (addr_to_neighbor t) = ZB_IEEE_ADDR_TABLE_SIZE"
    using inv n by (auto simp: nb_inv_def nb_shape_def)
  show "nb_shape ?t" using inv n by (auto simp: nb_inv_def nb_defs)
  show "nb_clean ?t"
    using inv n r e by (auto simp: nb_inv_def nb_defs nth_update less_Suc_eq)
  have old: "nb_index_ok t" using inv by (simp add: nb_inv_def)
  show "nb_index_ok ?t"
    unfolding nb_index_ok_def
  proof (intro allI impI)
    fix k assume k: "k < ZB_IEEE_ADDR_TABLE_SIZE" "addr_to_neighbor ?t ! k \<noteq> NO_NEIGHBOR"
    show "addr_to_neighbor ?t ! k < base_neighbor_used ?t
      \<and> nb_used (base_neighbor ?t ! (addr_to_neighbor ?t ! k))
      \<and> nb_addr_ref (base_neighbor ?t ! (addr_to_neighbor ?t ! k)) = k"
    proof (cases "k = r")
      case True
      then show ?thesis using len r e n by (simp add: set_base_def set_index_def)
    next
      case False
      then have "addr_to_neighbor ?t ! k = addr_to_neighbor t ! k"
        by (simp add: set_base_def set_index_def)
      moreover from this k old have "addr_to_neighbor t ! k < n"
          "nb_used (base_neighbor t ! (addr_to_neighbor t ! k))"
          "nb_addr_ref (base_neighbor t ! (addr_to_neighbor t ! k)) = k"
        unfolding nb_index_ok_def n(1) by simp_all
      ultimately show ?thesis by (simp add: set_base_def set_index_def)
    qed
  qed
qed

section \<open>Operations on the base table\<close>

lemma delete_inv:
  assumes inv: "nb_inv t" and d: "zb_nwk_neighbor_delete r t = Some (ret, t')"
  shows "nb_inv t'"
proof (cases "ret = RET_OK")
  case False
  then have "t' = t" using d by (auto simp: zb_nwk_neighbor_delete_def Let_def split: if_split_asm)
  with inv show ?thesis by simp
next
  case True
  let ?n = "addr_to_neighbor t ! r"
  have r: "r < ZB_IEEE_ADDR_TABLE_SIZE" "?n \<noteq> NO_NEIGHBOR"
    and t': "t' = set_base ?n ((base_neighbor t ! ?n)\<lparr>nb_used := False\<rparr>) (set_index r NO_NEIGHBOR t)"
    using d True inv
    by (auto simp: zb_nwk_neighbor_delete_def Let_def nb_inv_def nb_shape_def set_index_def split: if_split_asm)
  have own: "k = r" if "k < ZB_IEEE_ADDR_TABLE_SIZE" "addr_to_neighbor t ! k = ?n" for k
    using inv that r unfolding nb_inv_def nb_index_ok_def by metis
  show ?thesis
  proof (rule nb_invI)
    show "nb_shape t'" using inv by (auto simp: t' nb_inv_def nb_defs)
    show "nb_clean t'" using inv by (auto simp: t' nb_inv_def nb_defs nth_update)
    show "nb_index_ok t'"
      using inv own unfolding t' nb_inv_def nb_defs by (auto simp: nth_update)
  qed
qed

lemma delete_used: "zb_nwk_neighbor_delete r t = Some (ret, t') \<Longrightarrow> base_neighbor_used t' = base_neighbor_used t"
  by (auto simp: zb_nwk_neighbor_delete_def Let_def set_base_def set_index_def split: if_split_asm)

text \<open>What a successful \<^verbatim>\<open>zb_nwk_neighbor_get\<close> has done.\<close>

lemma get_cases:
  assumes inv: "nb_inv (neighbor s)" and g: "zb_nwk_neighbor_get a create s = Some (ret, n, s')"
  obtains (found) i where "ret = RET_OK" "n = Some i" "s' = s" "addr_to_neighbor (neighbor s) ! a = i"
      "i \<noteq> NO_NEIGHBOR" "a < ZB_IEEE_ADDR_TABLE_SIZE"
  | (absent) "ret = RET_NOT_FOUND" "n = None" "s' = s" "addr_to_neighbor (neighbor s) ! a = NO_NEIGHBOR"
      "\<not> create"
  | (full) "ret = RET_NO_MEMORY" "n = None" "s' = s" "addr_to_neighbor (neighbor s) ! a = NO_NEIGHBOR"
      "create" "base_neighbor_used (neighbor s) + 1 = base_neighbor_size (neighbor s)"
  | (made) ag e where "ret = RET_OK" "n = Some (base_neighbor_used (neighbor s))"
      "addr_to_neighbor (neighbor s) ! a = NO_NEIGHBOR" "a < ZB_IEEE_ADDR_TABLE_SIZE" "create"
      "base_neighbor_used (neighbor s) + 1 \<noteq> base_neighbor_size (neighbor s)"
      "base_neighbor_used (neighbor s) < base_neighbor_size (neighbor s)"
      "zb_address_lock a (addr s) = Some ag" "nb_used e" "nb_addr_ref e = a"
      "s' = s\<lparr>addr := ag, neighbor := set_base (base_neighbor_used (neighbor s)) e
        (set_index a (base_neighbor_used (neighbor s)) (neighbor s)
           \<lparr>base_neighbor_used := Suc (base_neighbor_used (neighbor s))\<rparr>)\<rparr>"
proof -
  let ?t = "neighbor s"
  have len: "length (addr_to_neighbor ?t) = ZB_IEEE_ADDR_TABLE_SIZE" "length (base_neighbor ?t) = ZB_NEIGHBOR_TABLE_SIZE"
    and small: "base_neighbor_used ?t \<le> ZB_NEIGHBOR_TABLE_SIZE"
    using inv by (auto simp: nb_inv_def nb_shape_def)
  have u: "base_neighbor_used ?t mod 256 = base_neighbor_used ?t"
      "ushort_inc (base_neighbor_used ?t) = Suc (base_neighbor_used ?t)"
    using small by (simp_all add: ZB_NEIGHBOR_TABLE_SIZE_def ushort_inc_def)
  show thesis
  proof (cases "addr_to_neighbor ?t ! a = NO_NEIGHBOR")
    case False
    then show thesis using g len found by (auto simp: zb_nwk_neighbor_get_def Let_def split: if_split_asm)
  next
    case True
    show thesis
    proof (cases "create \<and> base_neighbor_used ?t + 1 \<noteq> base_neighbor_size ?t")
      case False
      then show thesis using True g len absent full
        by (auto simp: zb_nwk_neighbor_get_def Let_def split: if_split_asm)
    next
      case create: True
      let ?e = "ent_zero\<lparr>nb_used := True, nb_addr_ref := a,
          nb_relationship := RELATIONSHIP_NONE_OF_THE_ABOVE, nb_permit_joining := 2, nb_depth := nib_depth s mod 16\<rparr>"
      obtain ag where ag: "zb_address_lock a (addr s) = Some ag"
        using g True create len by (auto simp: zb_nwk_neighbor_get_def Let_def split: if_split_asm option.split_asm)
      have "a < ZB_IEEE_ADDR_TABLE_SIZE" "base_neighbor_used ?t < base_neighbor_size ?t"
        and eq: "ret = RET_OK" "n = Some (base_neighbor_used ?t)"
          "s' = s\<lparr>addr := ag, neighbor := set_base (base_neighbor_used ?t) ?e
            (set_index a (base_neighbor_used ?t) ?t\<lparr>base_neighbor_used := Suc (base_neighbor_used ?t)\<rparr>)\<rparr>"
        using g True create len ag u
        by (simp_all add: zb_nwk_neighbor_get_def Let_def set_index_def split: if_split_asm)
      then show thesis using made [of ag ?e] True create ag by simp
    qed
  qed
qed

lemma get_inv:
  assumes inv: "nb_inv (neighbor s)" and g: "zb_nwk_neighbor_get a create s = Some (ret, n, s')"
  shows "nb_inv (neighbor s')"
  using assms
proof (cases rule: get_cases)
  case (made ag e)
  then show ?thesis using new_entry_inv [OF inv made(4) refl made(7) made(9,10)] by simp
qed (use inv in simp_all)

lemma get_entry:
  assumes inv: "nb_inv (neighbor s)" and g: "zb_nwk_neighbor_get a create s = Some (RET_OK, n, s')"
  shows "\<exists>i. n = Some i \<and> i < base_neighbor_used (neighbor s') \<and> addr_to_neighbor (neighbor s') ! a = i
    \<and> nb_used (base_neighbor (neighbor s') ! i) \<and> nb_addr_ref (base_neighbor (neighbor s') ! i) = a"
  using assms
proof (cases rule: get_cases)
  case (found i)
  with inv show ?thesis by (auto simp: nb_inv_def nb_index_ok_def)
next
  case (made ag e)
  have "length (addr_to_neighbor (neighbor s)) = ZB_IEEE_ADDR_TABLE_SIZE"
      "length (base_neighbor (neighbor s)) = ZB_NEIGHBOR_TABLE_SIZE"
      "base_neighbor_size (neighbor s) \<le> ZB_NEIGHBOR_TABLE_SIZE"
    using inv by (simp_all add: nb_inv_def nb_shape_def)
  with made show ?thesis by (simp add: set_base_def set_index_def)
qed simp_all

section \<open>Packing\<close>

lemma move_inv:
  assumes inv: "nb_inv t" and i: "i < ZB_NEIGHBOR_TABLE_SIZE" "nb_used (base_neighbor t ! i)"
    and p: "p < i" "\<not> nb_used (base_neighbor t ! p)"
  defines "e \<equiv> base_neighbor t ! i"
  defines "t' \<equiv> set_base i (e\<lparr>nb_used := False\<rparr>) (set_index (nb_addr_ref e) p (set_base p e t))"
  shows "nb_inv t'"
proof (rule nb_invI)
  have len: "length (base_neighbor t) = ZB_NEIGHBOR_TABLE_SIZE" "length (addr_to_neighbor t) = ZB_IEEE_ADDR_TABLE_SIZE"
    using inv by (simp_all add: nb_inv_def nb_shape_def)
  have e: "i < base_neighbor_used t" "nb_addr_ref e < ZB_IEEE_ADDR_TABLE_SIZE" "nb_used e"
    using inv i by (auto simp: nb_inv_def nb_clean_def e_def)
  show "nb_shape t'" using inv by (simp add: t'_def nb_inv_def nb_defs)
  show "nb_clean t'"
    using inv e p(1) unfolding t'_def nb_inv_def nb_defs by (auto simp: nth_update)
  show "nb_index_ok t'"
    unfolding nb_index_ok_def
  proof (intro allI impI)
    fix k assume k: "k < ZB_IEEE_ADDR_TABLE_SIZE" "addr_to_neighbor t' ! k \<noteq> NO_NEIGHBOR"
    show "addr_to_neighbor t' ! k < base_neighbor_used t' \<and> nb_used (base_neighbor t' ! (addr_to_neighbor t' ! k))
      \<and> nb_addr_ref (base_neighbor t' ! (addr_to_neighbor t' ! k)) = k"
    proof (cases "k = nb_addr_ref e")
      case True
      then show ?thesis using len e p i by (simp add: t'_def set_base_def set_index_def nth_update)
    next
      case False
      then have a: "addr_to_neighbor t' ! k = addr_to_neighbor t ! k"
        by (simp add: t'_def set_base_def set_index_def)
      with k inv have q: "addr_to_neighbor t ! k < base_neighbor_used t"
          "nb_used (base_neighbor t ! (addr_to_neighbor t ! k))"
          "nb_addr_ref (base_neighbor t ! (addr_to_neighbor t ! k)) = k"
        by (simp_all add: nb_inv_def nb_index_ok_def)
      then have "addr_to_neighbor t ! k \<noteq> i" "addr_to_neighbor t ! k \<noteq> p"
        using False p(2) by (auto simp: e_def)
      then show ?thesis using a q by (simp add: t'_def set_base_def set_index_def)
    qed
  qed
qed

text \<open>The \<open>hole\<close> entries before \<open>i\<close> are always free, so packing overwrites no entry.\<close>

lemma pack_base_inv:
  assumes "nb_inv t" "hole \<le> i" "\<And>k. i - hole \<le> k \<Longrightarrow> k < i \<Longrightarrow> \<not> nb_used (base_neighbor t ! k)"
  shows "\<exists>t'. pack_base i usd hole t = Some t' \<and> nb_inv t'
    \<and> base_neighbor_size t' = base_neighbor_size t \<and> base_neighbor_used t' = base_neighbor_used t
    \<and> ext_neighbor_size t' = ext_neighbor_size t"
  using assms
proof (induction i usd hole t rule: pack_base.induct)
  case (1 i usd hole t)
  have len: "length (base_neighbor t) = ZB_NEIGHBOR_TABLE_SIZE" "length (addr_to_neighbor t) = ZB_IEEE_ADDR_TABLE_SIZE"
      "base_neighbor_size t \<le> ZB_NEIGHBOR_TABLE_SIZE"
    using 1(4) by (simp_all add: nb_inv_def nb_shape_def)
  show ?case
  proof (cases "i < base_neighbor_size t \<and> usd < base_neighbor_used t")
    case False
    then show ?thesis using 1(4) by (subst pack_base.simps) auto
  next
    case go: True
    then have i: "i < ZB_NEIGHBOR_TABLE_SIZE" using len by simp
    let ?e = "base_neighbor t ! i"
    consider "\<not> nb_used ?e" | "nb_used ?e" "hole = 0" | "nb_used ?e" "0 < hole" by blast
    then show ?thesis
    proof cases
      case 1
      have "\<not> nb_used (base_neighbor t ! k)" if "i + 1 - (hole + 1) \<le> k" "k < i + 1" for k
        using that "1.prems"(3) 1 by (cases "k = i") auto
      then show ?thesis using go i len 1 "1.prems"(1,2) "1.IH"(3) [OF go _ refl]
        by (subst pack_base.simps) simp
    next
      case 2
      then show ?thesis using go i len "1.prems"(1) "1.IH"(2) [OF go _ refl]
        by (subst pack_base.simps) simp
    next
      case 3
      let ?p = "i - hole"
      let ?t = "set_base i (?e\<lparr>nb_used := False\<rparr>) (set_index (nb_addr_ref ?e) ?p (set_base ?p ?e t))"
      have p: "?p < i" "\<not> nb_used (base_neighbor t ! ?p)" using 3 "1.prems"(2,3) by auto
      have ref: "nb_addr_ref ?e < ZB_IEEE_ADDR_TABLE_SIZE"
        using "1.prems"(1) i 3(1) by (simp add: nb_inv_def nb_clean_def)
      have inv: "nb_inv ?t" by (rule move_inv [OF "1.prems"(1) i 3(1) p])
      have free: "\<not> nb_used (base_neighbor ?t ! k)" if "i + 1 - (hole - 1) \<le> k" "k < i + 1" for k
        using that "1.prems"(2,3) 3 i len by (auto simp: set_base_def set_index_def nth_update)
      have "\<exists>t'. pack_base (i + 1) (usd + 1) (hole - 1) ?t = Some t' \<and> nb_inv t'
          \<and> base_neighbor_size t' = base_neighbor_size ?t \<and> base_neighbor_used t' = base_neighbor_used ?t
          \<and> ext_neighbor_size t' = ext_neighbor_size ?t"
        using go i len 3 ref by (intro "1.IH"(1) [OF go _ refl] inv free) (use "1.prems"(2) in auto)
      then show ?thesis using go i len 3 ref
        by (subst pack_base.simps) (simp add: set_base_def set_index_def Let_def)
    qed
  qed
qed

section \<open>The extended table\<close>

lemma ext_cut_table:
  assumes "u \<le> 32"
  shows "case ext_cut 32 u of (size1, off, n) \<Rightarrow>
    size1 = max 16 u \<and> (n > 0 \<longleftrightarrow> u \<le> 30)
    \<and> (n > 0 \<longrightarrow> (size1 * SIZEOF_ENT \<le> off \<and> off + n * SIZEOF_EXT \<le> 320 \<longleftrightarrow> u \<le> 25))"
proof -
  have "\<forall>u\<in>set [0..<33]. case ext_cut 32 u of (size1, off, n) \<Rightarrow>
    size1 = max 16 u \<and> (n > 0 \<longleftrightarrow> u \<le> 30)
    \<and> (n > 0 \<longrightarrow> (size1 * SIZEOF_ENT \<le> off \<and> off + n * SIZEOF_EXT \<le> 320 \<longleftrightarrow> u \<le> 25))"
    by code_simp
  with assms show ?thesis by simp
qed

lemma start_layout:
  assumes inv: "nb_inv t" and size: "base_neighbor_size t = ZB_NEIGHBOR_TABLE_SIZE" "ext_neighbor_size t = 0"
  shows "zb_nwk_exneighbor_start t = None \<longleftrightarrow> 30 < base_neighbor_used t"
    and "\<And>t'. zb_nwk_exneighbor_start t = Some t' \<Longrightarrow> nb_inv t'
      \<and> base_neighbor_used t' = base_neighbor_used t \<and> 0 < ext_neighbor_size t'
      \<and> base_neighbor_size t' = max 16 (base_neighbor_used t)
      \<and> (ext_layout_ok t' \<longleftrightarrow> base_neighbor_used t \<le> 25)"
proof -
  obtain t1 where t1: "(if base_neighbor_used t \<noteq> 0 then pack_base 0 0 0 t else Some t) = Some t1" "nb_inv t1"
      "base_neighbor_size t1 = base_neighbor_size t" "base_neighbor_used t1 = base_neighbor_used t"
    using pack_base_inv [OF inv, of 0 0 0] inv by (cases "base_neighbor_used t = 0") auto
  obtain size1 off n where c: "ext_cut 32 (base_neighbor_used t) = (size1, off, n)" by (metis prod_cases3)
  have u: "base_neighbor_used t \<le> 32" using inv size by (simp add: nb_inv_def nb_shape_def ZB_NEIGHBOR_TABLE_SIZE_def)
  note tab = ext_cut_table [OF u, unfolded c prod.case]
  have eq: "zb_nwk_exneighbor_start t =
      (if n > 0 then Some (t1\<lparr>base_neighbor_size := size1, ext_offset := off,
           ext_neighbor := replicate n ext_zero, ext_neighbor_size := n\<rparr>) else None)"
    using t1 size c by (simp add: zb_nwk_exneighbor_start_def base_neighbor_cleanup_def ZB_NEIGHBOR_TABLE_SIZE_def)
  then show "zb_nwk_exneighbor_start t = None \<longleftrightarrow> 30 < base_neighbor_used t"
    using tab by auto
  fix t' assume "zb_nwk_exneighbor_start t = Some t'"
  with eq have n: "n > 0" and t': "t' = t1\<lparr>base_neighbor_size := size1, ext_offset := off,
           ext_neighbor := replicate n ext_zero, ext_neighbor_size := n\<rparr>"
    by (auto split: if_split_asm)
  have s1: "size1 = max 16 (base_neighbor_used t)" using tab by simp
  have "nb_inv (t1\<lparr>base_neighbor_size := size1\<rparr>)"
    by (rule nb_inv_shrink [OF t1(2)]) (use t1 size s1 u in \<open>simp_all add: ZB_NEIGHBOR_TABLE_SIZE_def\<close>)
  then show "nb_inv t' \<and> base_neighbor_used t' = base_neighbor_used t \<and> 0 < ext_neighbor_size t'
      \<and> base_neighbor_size t' = max 16 (base_neighbor_used t)
      \<and> (ext_layout_ok t' \<longleftrightarrow> base_neighbor_used t \<le> 25)"
    using n tab t1 s1 by (simp add: t' ext_layout_ok_def ZB_NEIGHBOR_TABLE_SIZE_def SIZEOF_ENT_def)
qed

text \<open>The table has its full size while there is no extended one.\<close>

definition nb_phase :: "zb_neighbor_tbl \<Rightarrow> bool" where
  "nb_phase t \<longleftrightarrow> (ext_neighbor_size t = 0 \<longrightarrow> base_neighbor_size t = ZB_NEIGHBOR_TABLE_SIZE)"

lemma start_inv:
  assumes "nb_inv t" "nb_phase t" "zb_nwk_exneighbor_start t = Some t'"
  shows "nb_inv t' \<and> nb_phase t'"
proof (cases "ext_neighbor_size t = 0")
  case True
  with start_layout(2) [OF assms(1) _ _ assms(3)] assms(2) show ?thesis by (simp add: nb_phase_def)
next
  case False
  with assms show ?thesis by (simp add: zb_nwk_exneighbor_start_def)
qed

lemma alloc_inv:
  "nb_inv t \<Longrightarrow> alloc_new_extneiboard p a t = Some (ret, n, t') \<Longrightarrow>
     nb_inv t' \<and> ext_neighbor_size t' = ext_neighbor_size t \<and> base_neighbor_size t' = base_neighbor_size t"
  by (auto simp: alloc_new_extneiboard_def Let_def split: if_split_asm)

lemma exn_by_short_inv:
  "nb_inv t \<Longrightarrow> zb_nwk_exneighbor_by_short p a t = Some (ret, n, t') \<Longrightarrow>
     nb_inv t' \<and> ext_neighbor_size t' = ext_neighbor_size t \<and> base_neighbor_size t' = base_neighbor_size t"
  by (auto simp: zb_nwk_exneighbor_by_short_def split: option.split_asm dest: alloc_inv)

lemma exn_by_ieee_inv:
  "nb_inv (neighbor s) \<Longrightarrow> zb_nwk_exneighbor_by_ieee p a s = Some (ret, n, s') \<Longrightarrow>
     nb_inv (neighbor s') \<and> ext_neighbor_size (neighbor s') = ext_neighbor_size (neighbor s)
     \<and> base_neighbor_size (neighbor s') = base_neighbor_size (neighbor s)"
  by (auto simp: zb_nwk_exneighbor_by_ieee_def Let_def split: option.split_asm prod.split_asm zb_ret.split_asm
      dest: alloc_inv)

lemma clock_inv:
  assumes inv: "nb_inv t" and r: "zb_nwk_neighbor_incoming_frame_counter_clock k t = Some t'"
  shows "nb_inv t' \<and> ext_neighbor_size t' = ext_neighbor_size t \<and> base_neighbor_size t' = base_neighbor_size t"
proof (cases "base_neighbor_size t = 0")
  case True
  with inv r show ?thesis by (simp add: zb_nwk_neighbor_incoming_frame_counter_clock_def)
next
  case False
  let ?i = "(incoming_frame_counter_clock t + 1) mod base_neighbor_size t"
  let ?t1 = "t\<lparr>incoming_frame_counter_clock := ?i\<rparr>"
  let ?e = "(base_neighbor ?t1 ! ?i)\<lparr>nb_incoming_frame_counter := 0, nb_key_seq_number := k\<rparr>"
  have inv1: "nb_inv ?t1" using inv by simp
  then have "nb_inv (set_base ?i ?e ?t1)" by (rule nb_update_entry_inv) simp_all
  moreover have "t' = ?t1 \<or> t' = set_base ?i ?e ?t1"
    using r False by (simp add: zb_nwk_neighbor_incoming_frame_counter_clock_def Let_def split: if_split_asm)
  ultimately show ?thesis using inv1 by (auto simp: set_base_def)
qed

lemma tmp_inv:
  assumes inv: "nb_inv (neighbor s)" and r: "zb_nwk_neighbor_ext_to_base_tmp x s = Some (ret, s')"
  shows "nb_inv (neighbor s') \<and> ext_neighbor_size (neighbor s') = ext_neighbor_size (neighbor s)
     \<and> base_neighbor_size (neighbor s') = base_neighbor_size (neighbor s)"
proof (cases "base_neighbor_used (neighbor s) < base_neighbor_size (neighbor s)")
  case False
  then have "s' = s" using r by (auto simp: zb_nwk_neighbor_ext_to_base_tmp_def Let_def)
  with inv show ?thesis by simp
next
  case True
  let ?t = "neighbor s" and ?n = "base_neighbor_used (neighbor s)"
  have n: "?n < ZB_NEIGHBOR_TABLE_SIZE" using True inv by (auto simp: nb_inv_def nb_shape_def)
  then have n2: "?n mod 256 = ?n" "ushort_inc ?n = Suc ?n"
    by (simp_all add: ZB_NEIGHBOR_TABLE_SIZE_def ushort_inc_def)
  let ?e = "\<lambda>ref. ent_zero\<lparr>nb_device_type := ext_device_type x,
     nb_rx_on_when_idle := (ext_device_type x \<noteq> DEVICE_TYPE_ED),
     nb_relationship := RELATIONSHIP_NONE_OF_THE_ABOVE, nb_used := True, nb_addr_ref := ref, nb_lqi := ext_lqi x\<rparr>"
  obtain ref g where "ref < length (addr_to_neighbor ?t)"
    and s': "s' = s\<lparr>addr := g, neighbor := set_base ?n (?e ref) (set_index ref ?n ?t\<lparr>base_neighbor_used := Suc ?n\<rparr>)\<rparr>"
    using r True n2
    by (auto simp: zb_nwk_neighbor_ext_to_base_tmp_def Let_def
        split: option.split_asm prod.split_asm zb_ret.split_asm if_split_asm)
  then have ref: "ref < ZB_IEEE_ADDR_TABLE_SIZE" using inv by (simp add: nb_inv_def nb_shape_def)
  have "nb_inv (neighbor s')"
    using new_entry_inv [OF inv ref refl True, of "?e ref"] by (simp add: s')
  then show ?thesis by (simp add: s' set_base_def set_index_def)
qed

lemma ext_to_base_inv:
  assumes inv: "nb_inv t" and r: "ext_to_base x ref t = Some t'"
  shows "nb_inv t' \<and> ext_neighbor_size t' = ext_neighbor_size t \<and> base_neighbor_size t' = base_neighbor_size t"
proof -
  have ref: "ref < ZB_IEEE_ADDR_TABLE_SIZE"
    using r inv by (auto simp: ext_to_base_def nb_inv_def nb_shape_def split: if_split_asm)
  show ?thesis
  proof (cases "addr_to_neighbor t ! ref = NO_NEIGHBOR")
    case False
    let ?i = "addr_to_neighbor t ! ref"
    have i: "?i < length (base_neighbor t)" "nb_used (base_neighbor t ! ?i)" "nb_addr_ref (base_neighbor t ! ?i) = ref"
      using inv ref False by (auto simp: nb_inv_def nb_shape_def nb_index_ok_def)
    obtain e where e: "t' = set_base ?i e t" "nb_used e" "nb_addr_ref e = ref"
      using r False i inv ref
      by (auto simp: ext_to_base_def Let_def nb_inv_def nb_shape_def set_base_def split: if_split_asm)
    then have "nb_inv t'" using i by (auto intro: nb_update_entry_inv [OF inv])
    with e show ?thesis by (simp add: set_base_def)
  next
    case True
    show ?thesis
    proof (cases "base_neighbor_used t < base_neighbor_size t")
      case False
      then have "t' = t" using r True ref inv
        by (auto simp: ext_to_base_def Let_def base_neighbor_cleanup_def split: if_split_asm)
      with inv show ?thesis by simp
    next
      case room: True
      let ?n = "base_neighbor_used t"
      have n: "?n < ZB_NEIGHBOR_TABLE_SIZE" "?n < length (base_neighbor t)"
        using room inv by (auto simp: nb_inv_def nb_shape_def)
      then have n2: "?n mod 256 = ?n" "ushort_inc ?n = Suc ?n"
        by (simp_all add: ZB_NEIGHBOR_TABLE_SIZE_def ushort_inc_def)
      obtain e where e: "t' = set_base ?n e (set_index ref ?n t\<lparr>base_neighbor_used := Suc ?n\<rparr>)"
          "nb_used e" "nb_addr_ref e = ref"
        using r True room ref inv n n2
        by (auto simp: ext_to_base_def Let_def base_neighbor_cleanup_def set_base_def set_index_def split: if_split_asm)
      then have "nb_inv t'" using new_entry_inv [OF inv ref refl room] by simp
      with e show ?thesis by (simp add: set_base_def set_index_def)
    qed
  qed
qed

lemma stop_loop_inv:
  "nb_inv (neighbor s) \<Longrightarrow> stop_loop p xs fs s = Some s' \<Longrightarrow> nb_inv (neighbor s')"
proof (induction p xs fs s rule: stop_loop.induct)
  case (1 p fs s)
  then show ?case by simp
next
  case (2 p x xs fs s)
  obtain q s1 where q: "p = Some q"
    and s1: "(if ext_panid_ref x = q then
                   (case ext_address x (addr s) of
                      None \<Rightarrow> None
                    | Some (ret, ref, g) \<Rightarrow>
                        if ret = RET_OK
                        then map_option (\<lambda>t. s\<lparr>addr := g, neighbor := t\<rparr>)
                               (ext_to_base x (the ref) (neighbor s))
                        else Some (s\<lparr>addr := g\<rparr>))
                 else Some s) = Some s1"
    using "2.prems"(2) by (auto split: option.split_asm)
  have inv1: "nb_inv (neighbor s1)"
    using s1 "2.prems"(1) ext_to_base_inv by (auto split: if_split_asm option.split_asm prod.split_asm)
  let ?fs = "(fs + SIZEOF_EXT) mod 256"
  let ?s2 = "upd_nb (\<lambda>t. t\<lparr>base_neighbor_size := base_neighbor_size t + ?fs div SIZEOF_ENT\<rparr>) s1"
  have le: "base_neighbor_size (neighbor ?s2) \<le> ZB_NEIGHBOR_TABLE_SIZE"
    and rest: "stop_loop p xs (?fs - ?fs div SIZEOF_ENT * SIZEOF_ENT) ?s2 = Some s'"
    using "2.prems"(2) s1 q by (auto simp: Let_def split: if_split_asm)
  have "nb_inv (neighbor ?s2)"
    using nb_inv_grow [OF inv1, of "base_neighbor_size (neighbor s1) + ?fs div SIZEOF_ENT"] le
    by (simp add: upd_nb_def)
  from "2.IH" [OF q s1 refl refl refl le this] rest show ?case by simp
qed

lemma give_back_inv:
  assumes "nb_inv t" "length rest = ZB_NEIGHBOR_TABLE_SIZE" "\<forall>e\<in>set rest. \<not> nb_used e"
  shows "nb_inv (give_back rest t)"
proof (cases "ext_neighbor_size t = 0")
  case True
  with assms show ?thesis by (simp add: give_back_def)
next
  case False
  let ?n = "base_neighbor_size t"
  let ?b = "take ?n (base_neighbor t) @ take (ZB_NEIGHBOR_TABLE_SIZE - ?n) rest"
  have n: "?n \<le> ZB_NEIGHBOR_TABLE_SIZE" "length (base_neighbor t) = ZB_NEIGHBOR_TABLE_SIZE" "base_neighbor_used t \<le> ?n"
    using assms(1) by (auto simp: nb_inv_def nb_shape_def)
  have front: "?b ! i = base_neighbor t ! i" if "i < ?n" for i
    using that n by (simp add: nth_append)
  have tail: "\<not> nb_used (?b ! i)" if "?n \<le> i" "i < ZB_NEIGHBOR_TABLE_SIZE" for i
    using that n assms(2,3) by (simp add: nth_append)
  let ?t = "t\<lparr>base_neighbor := ?b\<rparr>"
  have "nb_inv ?t"
  proof (rule nb_invI)
    show "nb_shape ?t" using assms(1,2) n by (simp add: nb_inv_def nb_shape_def)
    show "nb_clean ?t"
      unfolding nb_clean_def
    proof (intro allI impI)
      fix i assume i: "i < ZB_NEIGHBOR_TABLE_SIZE" "nb_used (base_neighbor ?t ! i)"
      then have "i < ?n" using tail [of i] by (cases "i < ?n") auto
      with i front [of i] assms(1)
      show "i < base_neighbor_used ?t \<and> nb_addr_ref (base_neighbor ?t ! i) < ZB_IEEE_ADDR_TABLE_SIZE"
        by (simp add: nb_inv_def nb_clean_def)
    qed
    show "nb_index_ok ?t"
      unfolding nb_index_ok_def
    proof (intro allI impI)
      fix r assume r: "r < ZB_IEEE_ADDR_TABLE_SIZE" "addr_to_neighbor ?t ! r \<noteq> NO_NEIGHBOR"
      then have old: "addr_to_neighbor t ! r < base_neighbor_used t \<and> nb_used (base_neighbor t ! (addr_to_neighbor t ! r))
          \<and> nb_addr_ref (base_neighbor t ! (addr_to_neighbor t ! r)) = r"
        using assms(1) by (simp add: nb_inv_def nb_index_ok_def)
      then have "base_neighbor ?t ! (addr_to_neighbor t ! r) = base_neighbor t ! (addr_to_neighbor t ! r)"
        using front [of "addr_to_neighbor t ! r"] n(3) by simp
      with old show "addr_to_neighbor ?t ! r < base_neighbor_used ?t
          \<and> nb_used (base_neighbor ?t ! (addr_to_neighbor ?t ! r))
          \<and> nb_addr_ref (base_neighbor ?t ! (addr_to_neighbor ?t ! r)) = r"
        by simp
    qed
  qed
  then show ?thesis using False by (simp add: give_back_def)
qed

lemma stop_inv:
  assumes "nb_inv (neighbor s)" "length rest = ZB_NEIGHBOR_TABLE_SIZE" "\<forall>e\<in>set rest. \<not> nb_used e"
    "zb_nwk_exneighbor_stop rest joined p s = Some s'"
  shows "nb_inv (neighbor s') \<and> nb_phase (neighbor s')"
proof -
  obtain s1 where s1: "(if joined
      then stop_loop (snd (zb_address_get_pan_id_ref p (addr (upd_nb (give_back rest) s))))
             (take (ext_neighbor_used (neighbor (upd_nb (give_back rest) s)))
               (ext_neighbor (neighbor (upd_nb (give_back rest) s)))) 0 (upd_nb (give_back rest) s)
      else Some (upd_nb (give_back rest) s)) = Some s1"
    and s': "s' = upd_nb (\<lambda>t. t\<lparr>base_neighbor_size := ZB_NEIGHBOR_TABLE_SIZE, ext_neighbor_used := 0,
            ext_neighbor_size := 0, ext_neighbor := []\<rparr>) s1"
    using assms(4) by (auto simp: zb_nwk_exneighbor_stop_def Let_def split: option.split_asm)
  have "nb_inv (neighbor (upd_nb (give_back rest) s))"
    using give_back_inv assms by (simp add: upd_nb_def)
  then have "nb_inv (neighbor s1)" using s1 stop_loop_inv by (auto split: if_split_asm)
  then have "nb_inv ((neighbor s1)\<lparr>base_neighbor_size := ZB_NEIGHBOR_TABLE_SIZE\<rparr>)"
    by (rule nb_inv_grow) (use \<open>nb_inv (neighbor s1)\<close> in \<open>auto simp: nb_inv_def nb_shape_def\<close>)
  then show ?thesis by (simp add: s' upd_nb_def nb_phase_def)
qed

end
