(* ===== verification/Nwk_Neighbor_Props.thy ===== *)
theory Nwk_Neighbor_Props
  imports Nwk_Neighbor_Inv Address_Props
begin

text \<open>
  The properties of the neighbour table: soundness of every history of operations, what a deletion does
  not give back, and how the extended table is laid over the base table.
\<close>

section \<open>Histories\<close>

inductive nb_step :: "nb_ctx \<Rightarrow> nb_ctx \<Rightarrow> bool" where
  get: "zb_nwk_neighbor_get r create s = Some (ret, n, s') \<Longrightarrow> nb_step s s'"
| delete: "zb_nwk_neighbor_delete r (neighbor s) = Some (ret, t) \<Longrightarrow> nb_step s (s\<lparr>neighbor := t\<rparr>)"
| clear: "nb_step s (s\<lparr>neighbor := zb_nwk_neighbor_clear (neighbor s)\<rparr>)"
| to_base: "zb_nwk_neighbor_ext_to_base_tmp x s = Some (ret, s') \<Longrightarrow> nb_step s s'"
| start: "zb_nwk_exneighbor_start (neighbor s) = Some t \<Longrightarrow> nb_step s (s\<lparr>neighbor := t\<rparr>)"
| stop: "length rest = ZB_NEIGHBOR_TABLE_SIZE \<Longrightarrow> \<forall>e\<in>set rest. \<not> nb_used e \<Longrightarrow>
    zb_nwk_exneighbor_stop rest joined p s = Some s' \<Longrightarrow> nb_step s s'"
| ext_short: "zb_nwk_exneighbor_by_short p a (neighbor s) = Some (ret, n, t) \<Longrightarrow> nb_step s (s\<lparr>neighbor := t\<rparr>)"
| ext_ieee: "zb_nwk_exneighbor_by_ieee p l s = Some (ret, n, s') \<Longrightarrow> nb_step s s'"
| tick: "zb_nwk_neighbor_incoming_frame_counter_clock k (neighbor s) = Some t \<Longrightarrow> nb_step s (s\<lparr>neighbor := t\<rparr>)"
| addresses: "nb_step s (s\<lparr>addr := g\<rparr>)"

lemma get_phase:
  assumes "nb_inv (neighbor s)" "zb_nwk_neighbor_get a create s = Some (ret, n, s')" "nb_phase (neighbor s)"
  shows "nb_phase (neighbor s')"
  using assms(1,2)
  by (cases rule: get_cases) (use assms(3) in \<open>auto simp: nb_phase_def set_base_def set_index_def\<close>)

lemma delete_phase:
  "zb_nwk_neighbor_delete r t = Some (ret, t') \<Longrightarrow> nb_phase t \<Longrightarrow> nb_phase t'"
  by (auto simp: zb_nwk_neighbor_delete_def Let_def nb_phase_def set_base_def set_index_def split: if_split_asm)

lemma step_inv:
  assumes "nb_step s s'" "nb_inv (neighbor s) \<and> nb_phase (neighbor s)"
  shows "nb_inv (neighbor s') \<and> nb_phase (neighbor s')"
  using assms
proof (induction rule: nb_step.induct)
  case (get r create s ret n s')
  then show ?case using get_inv get_phase by blast
next
  case (delete r s ret t)
  then show ?case using delete_inv delete_phase by fastforce
next
  case (clear s)
  then show ?case
    by (simp add: clear_inv) (simp add: nb_phase_def zb_nwk_neighbor_clear_def zb_nwk_neighbor_init_def)
next
  case (to_base x s ret s')
  then show ?case using tmp_inv [of s x ret s'] by (simp add: nb_phase_def)
next
  case (start s t)
  then show ?case using start_inv [of "neighbor s" t] by simp
next
  case (stop rest joined p s s')
  then show ?case using stop_inv [of s rest joined p s'] by simp
next
  case (ext_short p a s ret n t)
  then show ?case using exn_by_short_inv [of "neighbor s" p a ret n t] by (simp add: nb_phase_def)
next
  case (ext_ieee p l s ret n s')
  then show ?case using exn_by_ieee_inv [of s p l ret n s'] by (simp add: nb_phase_def)
next
  case (tick k s t)
  then show ?case using clock_inv [of "neighbor s" k t] by (simp add: nb_phase_def)
next
  case (addresses s g)
  then show ?case by simp
qed

lemma history_inv:
  assumes "nb_step\<^sup>*\<^sup>* s s'" "neighbor s = zb_nwk_neighbor_clear t"
  shows "nb_inv (neighbor s') \<and> nb_phase (neighbor s')"
  using assms(1)
proof (induction rule: rtranclp_induct)
  case base
  then show ?case using assms(2)
    by (simp add: clear_inv) (simp add: nb_phase_def zb_nwk_neighbor_clear_def zb_nwk_neighbor_init_def)
next
  case (step s1 s2)
  then show ?case using step_inv by blast
qed


definition nb_start :: nb_ctx where
  "nb_start = \<lparr>addr = addr_zero, neighbor = zb_nwk_neighbor_clear nb_zero, nib_depth = 1\<rparr>"


section \<open>What a deletion does not give back\<close>

text \<open>
  Adding a neighbour and deleting it again costs for good: the references are as before,
  but one slot fewer is left, the address keeps one more lock, and when the slot was the last
  but one, no neighbour can be added any more although none may be stored.
\<close>

theorem deleted_slots_are_never_reused:
  assumes inv: "nb_inv (neighbor s)" and absent: "addr_to_neighbor (neighbor s) ! r = NO_NEIGHBOR"
    and g: "zb_nwk_neighbor_get r True s = Some (RET_OK, n, s1)"
    and d: "zb_nwk_neighbor_delete r (neighbor s1) = Some (ret, t)"
  shows "ret = RET_OK \<and> addr_to_neighbor t = addr_to_neighbor (neighbor s)
    \<and> base_neighbor_used t = base_neighbor_used (neighbor s) + 1
    \<and> zb_address_lock r (addr s) = Some (addr s1)
    \<and> (base_neighbor_used t + 1 = base_neighbor_size t \<longrightarrow>
        (\<forall>r'<ZB_IEEE_ADDR_TABLE_SIZE. addr_to_neighbor (neighbor s) ! r' = NO_NEIGHBOR \<longrightarrow>
          zb_nwk_neighbor_get r' True (s1\<lparr>neighbor := t\<rparr>) = Some (RET_NO_MEMORY, None, s1\<lparr>neighbor := t\<rparr>)))"
  using inv g
proof (cases rule: get_cases)
  case (made ag e)
  let ?u = "base_neighbor_used (neighbor s)"
  have len: "length (addr_to_neighbor (neighbor s)) = ZB_IEEE_ADDR_TABLE_SIZE"
      "length (base_neighbor (neighbor s)) = ZB_NEIGHBOR_TABLE_SIZE" "?u < ZB_NEIGHBOR_TABLE_SIZE"
    using inv made(7) by (auto simp: nb_inv_def nb_shape_def)
  have u: "?u \<noteq> NO_NEIGHBOR" using len(3) by (simp add: ZB_NEIGHBOR_TABLE_SIZE_def NO_NEIGHBOR_def)
  have t: "ret = RET_OK" "addr_to_neighbor t = (addr_to_neighbor (neighbor s))[r := NO_NEIGHBOR]"
      "base_neighbor_used t = ?u + 1" "base_neighbor_size t = base_neighbor_size (neighbor s)"
    using d made len u
    by (auto simp: zb_nwk_neighbor_delete_def Let_def set_base_def set_index_def)
  have a: "addr_to_neighbor t = addr_to_neighbor (neighbor s)"
    using t(2) absent by (metis list_update_id)
  have "zb_nwk_neighbor_get r' True (s1\<lparr>neighbor := t\<rparr>) = Some (RET_NO_MEMORY, None, s1\<lparr>neighbor := t\<rparr>)"
    if "base_neighbor_used t + 1 = base_neighbor_size t" "r' < ZB_IEEE_ADDR_TABLE_SIZE"
      "addr_to_neighbor (neighbor s) ! r' = NO_NEIGHBOR" for r'
    using that a len by (simp add: zb_nwk_neighbor_get_def)
  then show ?thesis using t a made by simp
qed (use absent in auto)

theorem deleted_slots_are_never_reused_witness:
  "\<exists>n s1 t. zb_nwk_neighbor_get 5 True nb_start = Some (RET_OK, n, s1)
     \<and> zb_nwk_neighbor_delete 5 (neighbor s1) = Some (RET_OK, t) \<and> base_neighbor_used t = 1"
proof -
  obtain n s1 where g: "zb_nwk_neighbor_get 5 True nb_start = Some (RET_OK, n, s1)"
    by (simp add: zb_nwk_neighbor_get_def nb_start_def Let_def zb_nwk_neighbor_clear_def nb_zero_def
        zb_nwk_neighbor_init_def ZB_IEEE_ADDR_TABLE_SIZE_def ZB_NEIGHBOR_TABLE_SIZE_def zb_address_lock_def
        addr_zero_def upd_ent_def set_index_def NO_NEIGHBOR_def)
  have inv: "nb_inv (neighbor nb_start)" by (simp add: nb_start_def clear_inv)
  obtain i where i: "n = Some i" "i < base_neighbor_used (neighbor s1)" "addr_to_neighbor (neighbor s1) ! 5 = i"
    using get_entry [OF inv g] by auto
  have inv1: "nb_inv (neighbor s1)" using get_inv [OF inv g] .
  then have len: "length (addr_to_neighbor (neighbor s1)) = 101" "length (base_neighbor (neighbor s1)) = 32" "i < 32"
    using i by (auto simp: nb_inv_def nb_shape_def ZB_IEEE_ADDR_TABLE_SIZE_def ZB_NEIGHBOR_TABLE_SIZE_def)
  then obtain ret t where d: "zb_nwk_neighbor_delete 5 (neighbor s1) = Some (ret, t)"
    using i(3) by (cases "i = NO_NEIGHBOR") (auto simp: zb_nwk_neighbor_delete_def Let_def)
  have a: "addr_to_neighbor (neighbor nb_start) ! 5 = NO_NEIGHBOR" "base_neighbor_used (neighbor nb_start) = 0"
    by (simp_all add: nb_start_def zb_nwk_neighbor_clear_def zb_nwk_neighbor_init_def nb_zero_def ZB_IEEE_ADDR_TABLE_SIZE_def)
  from deleted_slots_are_never_reused [OF inv a(1) g d] g d a(2) show ?thesis by auto
qed

section \<open>The two tables in one array\<close>

text \<open>
  Starting the search for networks stops the program when 31 or 32 slots of the neighbour table are
  taken. Otherwise the table is valid, at least 16 slots remain in it, and the extended table has
  at least one entry; but it lies behind the neighbours in use iff at most 25 slots are
  taken, since its offset in bytes is cut to eight bits. With 16 or more slots taken, no slot
  remains free and storing a further neighbour during the search writes into the extended table.
\<close>

theorem extended_table_layout:
  assumes "nb_inv (neighbor s)" "base_neighbor_size (neighbor s) = ZB_NEIGHBOR_TABLE_SIZE"
    "ext_neighbor_size (neighbor s) = 0"
  shows "(zb_nwk_exneighbor_start (neighbor s) = None \<longleftrightarrow> 30 < base_neighbor_used (neighbor s))
    \<and> (\<forall>t. zb_nwk_exneighbor_start (neighbor s) = Some t \<longrightarrow>
        nb_inv t \<and> 0 < ext_neighbor_size t \<and> base_neighbor_size t = max 16 (base_neighbor_used (neighbor s))
        \<and> (ext_layout_ok t \<longleftrightarrow> base_neighbor_used (neighbor s) \<le> 25)
        \<and> (16 \<le> base_neighbor_used (neighbor s) \<longrightarrow>
            (\<forall>r. addr_to_neighbor t ! r = NO_NEIGHBOR \<longrightarrow> zb_nwk_neighbor_get r True (s\<lparr>neighbor := t\<rparr>) = None)))"
proof (intro conjI allI impI)
  note start = start_layout [OF assms]
  show "zb_nwk_exneighbor_start (neighbor s) = None \<longleftrightarrow> 30 < base_neighbor_used (neighbor s)" by (rule start(1))
  fix t assume t: "zb_nwk_exneighbor_start (neighbor s) = Some t"
  note after = start(2) [OF t]
  then show "nb_inv t" "0 < ext_neighbor_size t" "base_neighbor_size t = max 16 (base_neighbor_used (neighbor s))"
    "ext_layout_ok t \<longleftrightarrow> base_neighbor_used (neighbor s) \<le> 25" by simp_all
  fix r assume "16 \<le> base_neighbor_used (neighbor s)" "addr_to_neighbor t ! r = NO_NEIGHBOR"
  with after have "base_neighbor_used t = base_neighbor_size t" "base_neighbor_size t \<le> ZB_NEIGHBOR_TABLE_SIZE"
    by (simp_all add: nb_inv_def nb_shape_def)
  with \<open>addr_to_neighbor t ! r = NO_NEIGHBOR\<close> show "zb_nwk_neighbor_get r True (s\<lparr>neighbor := t\<rparr>) = None"
    by (auto simp: zb_nwk_neighbor_get_def Let_def ZB_NEIGHBOR_TABLE_SIZE_def ushort_inc_def set_index_def split: option.split)
qed

theorem extended_table_layout_witness:
  "\<exists>t. zb_nwk_exneighbor_start (neighbor nb_start) = Some t \<and> ext_layout_ok t \<and> base_neighbor_size t = 16"
  using extended_table_layout [of nb_start]
  by (auto simp: nb_start_def clear_inv)
    (auto simp: zb_nwk_neighbor_clear_def zb_nwk_neighbor_init_def nb_zero_def)

end
