(* ===== verification/Secur_Keys.thy ===== *)
theory Secur_Keys
  imports Nwk_Neighbor
begin

text \<open>
  The network keys of a node, \<^verbatim>\<open>secur/zdo_secur.c\<close>: the three slots for keys, the active one,
  what is done when a key arrives, is switched to, or is asked for. Random bytes
  (\<^verbatim>\<open>ZB_RANDOM\<close>) are an argument, the 16 bytes that the loop draws. The handlers return, beside
  the state, what they do with the buffer.
\<close>

definition ZB_CCM_KEY_SIZE :: nat where "ZB_CCM_KEY_SIZE = 16"
definition ZB_SECUR_N_SECUR_MATERIAL :: nat where "ZB_SECUR_N_SECUR_MATERIAL = 3"

record zb_secur_material =
  sm_key :: "u8 list"
  sm_seq :: u8

record zb_keys =
  secur_material_set :: "zb_secur_material list"
  active_secur_material_i :: nat
  active_key_seq_number :: u8
  outgoing_frame_counter :: u32
  prev_outgoing_frame_counter :: u32
  is_tc :: bool
  authenticated :: bool
  trust_center_address :: ieee

datatype key_action =
    Free_buf | Send_device_annce
  | Transport_key "u8 list" u8 ieee

definition put_key :: "nat \<Rightarrow> u8 list \<Rightarrow> u8 \<Rightarrow> zb_keys \<Rightarrow> zb_keys" where
  "put_key i k n s =
     s\<lparr>secur_material_set := (secur_material_set s)[i := \<lparr>sm_key = take ZB_CCM_KEY_SIZE k, sm_seq = n\<rparr>]\<rparr>"

section \<open>Slots\<close>

definition secur_tc_init :: "ieee \<Rightarrow> zb_keys \<Rightarrow> zb_keys" where
  "secur_tc_init own s = s\<lparr>is_tc := True, trust_center_address := own, authenticated := True\<rparr>"

definition secur_generate_key :: "u8 list \<Rightarrow> nat \<Rightarrow> u8 \<Rightarrow> zb_keys \<Rightarrow> zb_keys" where
  "secur_generate_key rnd i key_seq s = put_key i rnd key_seq s"

primrec generate_from :: "u8 list list \<Rightarrow> nat \<Rightarrow> zb_keys \<Rightarrow> zb_keys" where
  "generate_from [] i s = s"
| "generate_from (r # rs) i s = generate_from rs (i + 1) (secur_generate_key r i (of_nat i) s)"

definition secur_generate_keys :: "u8 list list \<Rightarrow> zb_keys \<Rightarrow> zb_keys" where
  "secur_generate_keys rnds s = generate_from (take ZB_SECUR_N_SECUR_MATERIAL rnds) 0 s"

definition zb_secur_setup_preconfigured_key :: "u8 list \<Rightarrow> u8 \<Rightarrow> zb_keys \<Rightarrow> zb_keys" where
  "zb_secur_setup_preconfigured_key key i s =
     (if unat i \<ge> ZB_SECUR_N_SECUR_MATERIAL then s else put_key (unat i) key i s)"

definition secur_clear_preconfigured_key :: "zb_keys \<Rightarrow> zb_keys" where
  "secur_clear_preconfigured_key s =
     put_key 0 (replicate ZB_CCM_KEY_SIZE 0) (sm_seq (secur_material_set s ! 0)) s"

definition secur_nwk_key_is_empty :: "u8 list \<Rightarrow> bool" where
  "secur_nwk_key_is_empty key \<longleftrightarrow> (\<forall>i\<in>set [0..<ZB_CCM_KEY_SIZE]. key ! i = 0)"

definition secur_has_preconfigured_key :: "zb_keys \<Rightarrow> bool" where
  "secur_has_preconfigured_key s \<longleftrightarrow> \<not> secur_nwk_key_is_empty (sm_key (secur_material_set s ! 0))"

text \<open>The search by number starts at the active slot.\<close>

definition secur_nwk_key_by_seq :: "u8 \<Rightarrow> zb_keys \<Rightarrow> u8 list option" where
  "secur_nwk_key_by_seq n s =
     map_option (\<lambda>i. sm_key (secur_material_set s ! i))
       (find (\<lambda>i. sm_seq (secur_material_set s ! i) = n)
         (probe ZB_SECUR_N_SECUR_MATERIAL (active_secur_material_i s)))"

section \<open>Switching\<close>

text \<open>The loop of \<^verbatim>\<open>secur_nwk_key_switch\<close> goes on while the slot has the wanted number.\<close>

function switch_scan :: "u8 \<Rightarrow> nat \<Rightarrow> nat \<Rightarrow> zb_keys \<Rightarrow> nat" where
  "switch_scan n sh i s =
     (if i < ZB_SECUR_N_SECUR_MATERIAL
         \<and> sm_seq (secur_material_set s ! ((i + sh) mod ZB_SECUR_N_SECUR_MATERIAL)) = n
      then switch_scan n sh (i + 1) s else i)"
  by pat_completeness auto
termination by (relation "measure (\<lambda>(n, sh, i, s). ZB_SECUR_N_SECUR_MATERIAL - i)") auto

declare switch_scan.simps [simp del]

definition secur_nwk_key_switch :: "u8 list \<Rightarrow> u8 \<Rightarrow> zb_keys \<Rightarrow> zb_keys" where
  "secur_nwk_key_switch rnd key_number s =
     (let sh = (active_secur_material_i s + 1) mod ZB_SECUR_N_SECUR_MATERIAL;
          i0 = switch_scan key_number sh 0 s;
          (i, s1) = (if i0 = ZB_SECUR_N_SECUR_MATERIAL \<and> is_tc s
                     then (sh, secur_generate_key rnd sh key_number s) else (i0, s))
      in if i \<noteq> ZB_SECUR_N_SECUR_MATERIAL then
           s1\<lparr>active_secur_material_i := i, active_key_seq_number := key_number,
              prev_outgoing_frame_counter := outgoing_frame_counter s1, outgoing_frame_counter := 0\<rparr>
         else s1)"

definition zb_apsme_switch_key_indication :: "u8 list \<Rightarrow> u8 \<Rightarrow> zb_keys \<Rightarrow> zb_keys \<times> key_action" where
  "zb_apsme_switch_key_indication rnd key_seq_number s = (secur_nwk_key_switch rnd key_seq_number s, Free_buf)"

section \<open>Receiving and giving out keys\<close>

text \<open>\<open>std\<close> says that the type of the key is \<^verbatim>\<open>ZB_STANDARD_NETWORK_KEY\<close>.\<close>

definition zb_apsme_transport_key_indication ::
  "bool \<Rightarrow> ieee \<Rightarrow> u8 list \<Rightarrow> u8 \<Rightarrow> zb_keys \<Rightarrow> zb_addr_globals \<Rightarrow> (zb_keys \<times> zb_addr_globals \<times> key_action) option" where
  "zb_apsme_transport_key_indication std src key n s g =
     (if \<not> std then Some (s, g, Free_buf)
      else
        (case (if trust_center_address s = replicate 8 0 then
                 (case zb_address_update src 0 False g of
                    None \<Rightarrow> None
                  | Some (_, _, g1) \<Rightarrow> Some (s\<lparr>trust_center_address := src\<rparr>, g1))
               else Some (s, g)) of
           None \<Rightarrow> None
         | Some (s1, g1) \<Rightarrow>
             (let (i, s2) =
                (if secur_nwk_key_is_empty key \<and> n = 0 then (0, s1)
                 else
                   (let i = (active_secur_material_i s1 + unat (n - active_key_seq_number s1))
                              mod ZB_SECUR_N_SECUR_MATERIAL;
                        s2 = put_key i key n s1;
                        s3 = (if i = active_secur_material_i s2 \<and> n \<noteq> active_key_seq_number s2
                              then s2\<lparr>active_key_seq_number := n, outgoing_frame_counter := 0\<rparr> else s2)
                    in (i, s3)))
              in if \<not> authenticated s2 then
                   Some (s2\<lparr>authenticated := True, active_key_seq_number := n, outgoing_frame_counter := 0,
                            active_secur_material_i := i\<rparr>, g1, Send_device_annce)
                 else Some (s2, g1, Free_buf))))"

text \<open>The request for the network key; only a neighbour that has joined is answered.\<close>

definition zb_apsme_request_key_indication :: "bool \<Rightarrow> ieee \<Rightarrow> zb_keys \<Rightarrow> nb_ctx \<Rightarrow> (nb_ctx \<times> key_action) option" where
  "zb_apsme_request_key_indication std src s c =
     (if std then
        (case zb_address_by_ieee src False False (addr c) of
           None \<Rightarrow> None
         | Some (ret, ref, g) \<Rightarrow>
             (let c1 = c\<lparr>addr := g\<rparr> in
              if ret \<noteq> RET_OK then Some (c1, Free_buf)
              else
                (case zb_nwk_neighbor_get (the ref) False c1 of
                   None \<Rightarrow> None
                 | Some (ret2, nb, c2) \<Rightarrow>
                     if ret2 = RET_OK
                        \<and> nb_relationship (base_neighbor (neighbor c2) ! the nb)
                            \<notin> {RELATIONSHIP_UNAUTHENTICATED_CHILD, RELATIONSHIP_PREVIOUS_CHILD,
                                RELATIONSHIP_NONE_OF_THE_ABOVE}
                     then Some (c2, Transport_key
                                      (sm_key (secur_material_set s ! active_secur_material_i s))
                                      (active_key_seq_number s) src)
                     else Some (c2, Free_buf))))
      else Some (c, Free_buf))"

section \<open>What switching does\<close>

lemma switch_scan_le: "i \<le> 3 \<Longrightarrow> switch_scan n sh i s \<le> 3"
  by (induction n sh i s rule: switch_scan.induct)
    (subst switch_scan.simps, simp add: ZB_SECUR_N_SECUR_MATERIAL_def)

lemma switch_scan_0:
  "sm_seq (secur_material_set s ! (sh mod 3)) \<noteq> n \<Longrightarrow> switch_scan n sh 0 s = 0"
  by (subst switch_scan.simps) (simp add: ZB_SECUR_N_SECUR_MATERIAL_def)

lemma switch_scan_1:
  "sm_seq (secur_material_set s ! (sh mod 3)) = n \<Longrightarrow> sm_seq (secur_material_set s ! (Suc sh mod 3)) \<noteq> n \<Longrightarrow>
     switch_scan n sh 0 s = 1"
  by (subst switch_scan.simps, subst switch_scan.simps) (simp add: ZB_SECUR_N_SECUR_MATERIAL_def)

end
