(* ===== verification/Zb_Bytes.thy ===== *)
theory Zb_Bytes
  imports Prelude
begin

text \<open>
  Integers as bytes: the conversions of \<^verbatim>\<open>include/zb_types.h\<close>. Frames carry the low byte first; on the Linux build,
  as on every little-endian machine, the conversions copy bytes.
\<close>

definition htole16 :: "u16 \<Rightarrow> u8 list" where
  "htole16 v = [ucast v, ucast (drop_bit 8 v)]"

definition letoh16 :: "u8 list \<Rightarrow> u16" where
  "letoh16 b = ucast (b ! 0) OR push_bit 8 (ucast (b ! 1))"

definition htole32 :: "u32 \<Rightarrow> u8 list" where
  "htole32 v = [ucast v, ucast (drop_bit 8 v), ucast (drop_bit 16 v), ucast (drop_bit 24 v)]"

definition letoh32 :: "u8 list \<Rightarrow> u32" where
  "letoh32 b = ucast (b ! 0) OR push_bit 8 (ucast (b ! 1)) OR push_bit 16 (ucast (b ! 2))
     OR push_bit 24 (ucast (b ! 3))"

lemma length_htole16 [simp]: "length (htole16 v) = 2"
  by (simp add: htole16_def)

lemma length_htole32 [simp]: "length (htole32 v) = 4"
  by (simp add: htole32_def)

lemma letoh16_htole16 [simp]: "letoh16 (htole16 v) = v" "letoh16 (htole16 v @ bs) = v"
proof -
  have "letoh16 (htole16 v @ bs) = v" for bs
  proof (rule bit_word_eqI)
    fix n assume "n < LENGTH(16)"
    then consider "n < 8" | "8 \<le> n" "n < 16" by force
    then show "bit (letoh16 (htole16 v @ bs)) n = bit v n"
      by cases (auto simp: letoh16_def htole16_def bit_simps)
  qed
  from this [of bs] this [of "[]"] show "letoh16 (htole16 v @ bs) = v" "letoh16 (htole16 v) = v" by simp_all
qed

lemma htole16_letoh16: "htole16 (letoh16 [a, b]) = [a, b]"
proof -
  have "ucast (letoh16 [a, b]) = a"
    by (rule bit_word_eqI) (auto simp: letoh16_def bit_simps)
  moreover have "ucast (drop_bit 8 (letoh16 [a, b])) = b"
    by (rule bit_word_eqI) (auto simp: letoh16_def bit_simps dest: bit_imp_le_length)
  ultimately show ?thesis by (simp add: htole16_def)
qed

lemma htole16_take: "2 \<le> length bs \<Longrightarrow> htole16 (letoh16 bs) = take 2 bs"
proof -
  assume "2 \<le> length bs"
  then obtain a b r where "bs = a # b # r" by (metis Suc_le_length_iff numeral_2_eq_2)
  then show ?thesis using htole16_letoh16 [of a b] by (simp add: letoh16_def)
qed

lemma letoh32_htole32 [simp]: "letoh32 (htole32 v) = v"
proof (rule bit_word_eqI)
  fix n assume "n < LENGTH(32)"
  then have "n < 32" by simp
  then consider "n < 8" | "8 \<le> n" "n < 16" | "16 \<le> n" "n < 24" | "24 \<le> n" "n < 32" by linarith
  then show "bit (letoh32 (htole32 v)) n = bit v n"
    by cases (auto simp: letoh32_def htole32_def bit_simps)
qed

end
