(* ===== verification/Nwk_Secur.thy ===== *)
theory Nwk_Secur
  imports Secur_Keys Secur_Ccm Zb_Bytes
begin

text \<open>
  Security of frames of the network layer, \<^verbatim>\<open>secur/nwk_secur.c\<close>: a frame is encrypted with the
  network key its auxiliary header names, under a nonce made of the sender's long address and a frame
  counter, and a received frame is checked against the counter that is kept for
  the neighbour it came from. Headers are read from and written to the bytes of the packet buffer at the
  positions the structs have; \<open>aux\<close> is the index of the auxiliary header in the buffer.
\<close>

section \<open>Headers\<close>

definition ZB_NWK_STD_SECUR_CONTROL :: u8 where
  "ZB_NWK_STD_SECUR_CONTROL = 5 OR push_bit 3 1 OR push_bit 5 1"

definition ZB_NWK_STD_SECUR_CONTROL_ZEROED_LEVEL :: u8 where
  "ZB_NWK_STD_SECUR_CONTROL_ZEROED_LEVEL = 0 OR push_bit 3 1 OR push_bit 5 1"

definition ZB_SECUR_NWK_COUNTER_LIMIT :: u32 where "ZB_SECUR_NWK_COUNTER_LIMIT = 0xFFFFFFFF - 128"

definition ZB_NWK_SHORT_HDR_SIZE :: "bool \<Rightarrow> nat" where
  "ZB_NWK_SHORT_HDR_SIZE is_multicast = 8 + (if is_multicast then 1 else 0)"

text \<open>The second byte of the frame control field has the flags.\<close>

definition zb_nwk_hdr_size :: "u8 list \<Rightarrow> nat" where
  "zb_nwk_hdr_size fctl =
     ZB_NWK_SHORT_HDR_SIZE (bit (fctl ! 1) 0) + (if bit (fctl ! 1) 1 then 14 else 0)
       + ((if bit (fctl ! 1) 3 then 1 else 0) + (if bit (fctl ! 1) 4 then 1 else 0)) * 8"

text \<open>\<^verbatim>\<open>zb_nwk_aux_frame_hdr_t\<close>: control, counter (4), source address (8), key number.\<close>

definition SIZEOF_AUX :: nat where "SIZEOF_AUX = 14"

definition aux_hdr :: "u8 \<Rightarrow> u8 list \<Rightarrow> ieee \<Rightarrow> u8 \<Rightarrow> u8 list" where
  "aux_hdr control counter source key_seq = [control] @ take 4 counter @ take 8 source @ [key_seq]"

text \<open>\<^verbatim>\<open>zb_secur_ccm_nonce_t\<close>.\<close>

definition ccm_nonce :: "ieee \<Rightarrow> u8 list \<Rightarrow> u8 \<Rightarrow> u8 list" where
  "ccm_nonce source counter control = take 8 source @ take 4 counter @ [control]"

definition bytes_at :: "nat \<Rightarrow> nat \<Rightarrow> zb_buf \<Rightarrow> u8 list" where
  "bytes_at p n b = take n (drop p (bytes b))"

section \<open>State\<close>

datatype nwk_command_status =
  STATUS_BAD_FRAME_COUNTER | STATUS_BAD_KEY_SEQUENCE_NUMBER

definition STATUS_FRAME_SECURITY_FAILED :: nwk_command_status where
  "STATUS_FRAME_SECURITY_FAILED = STATUS_BAD_KEY_SEQUENCE_NUMBER"

text \<open>What the functions ask others to do, in order.\<close>

datatype secur_event =
    Free_frame
  | Status_indication nwk_command_status u16
  | Get_buf_for_key_switch

record nwk_sec =
  keys :: zb_keys
  ctx :: nb_ctx
  extended_address :: ieee
  events :: "secur_event list"

definition emit :: "secur_event \<Rightarrow> nwk_sec \<Rightarrow> nwk_sec" where
  "emit e s = s\<lparr>events := events s @ [e]\<rparr>"

section \<open>Sending\<close>

text \<open>The counter and the key number that go into the auxiliary header.\<close>

definition next_counter :: "bool \<Rightarrow> u8 \<Rightarrow> zb_keys \<Rightarrow> u32 \<times> u8 \<times> zb_keys" where
  "next_counter same_key aux_seq k =
     (if same_key \<and> aux_seq \<noteq> active_key_seq_number k
      then (prev_outgoing_frame_counter k, aux_seq,
            k\<lparr>prev_outgoing_frame_counter := prev_outgoing_frame_counter k + 1\<rparr>)
      else (outgoing_frame_counter k, active_key_seq_number k,
            k\<lparr>outgoing_frame_counter := outgoing_frame_counter k + 1\<rparr>))"

definition zb_nwk_secure_frame ::
  "zb_buf \<Rightarrow> nat \<Rightarrow> zb_buf \<Rightarrow> nwk_sec \<Rightarrow> (zb_ret \<times> zb_buf \<times> zb_buf \<times> nwk_sec) option" where
  "zb_nwk_secure_frame src mac_hdr_size dst s =
     (let p = boff src + mac_hdr_size;
          hdr_size = zb_nwk_hdr_size (bytes_at p 2 src)
      in if p + hdr_size < SIZEOF_AUX \<or> blen src < mac_hdr_size + hdr_size then None
         else
        (let aux = p + hdr_size - SIZEOF_AUX;
             aux_seq = bytes src ! (aux + 13);
             (cnt, seq, k) = next_counter (use_same_key (hdr src)) aux_seq (keys s);
             s1 = s\<lparr>keys := k\<rparr>;
             counter = htole32 cnt
         in case write_bytes aux (aux_hdr ZB_NWK_STD_SECUR_CONTROL counter (extended_address s) seq) src of
              None \<Rightarrow> None
            | Some src1 \<Rightarrow>
                (let nonce = ccm_nonce (extended_address s) counter ZB_NWK_STD_SECUR_CONTROL in
                 case secur_nwk_key_by_seq seq k of
                   None \<Rightarrow> Some (RET_ERROR, src1, dst, s1)
                 | Some key \<Rightarrow>
                     (case zb_ccm_encrypt_n_auth key nonce (bytes_at p hdr_size src1)
                             (bytes_at (p + hdr_size) (blen src - hdr_size - mac_hdr_size) src1) dst of
                        None \<Rightarrow> None
                      | Some (ret, dst1) \<Rightarrow>
                          (case zb_buf_smart_alloc_left dst1 mac_hdr_size of
                             None \<Rightarrow> None
                           | Some (dst2, dp) \<Rightarrow>
                               (case write_bytes dp (bytes_at (boff src) mac_hdr_size src1) dst2 of
                                  None \<Rightarrow> None
                                | Some dst3 \<Rightarrow>
                                    (case write_bytes (boff dst3 + (aux - boff src))
                                            [ZB_NWK_STD_SECUR_CONTROL_ZEROED_LEVEL] dst3 of
                                       None \<Rightarrow> None
                                     | Some dst4 \<Rightarrow>
                                         Some (ret, src1, dst4,
                                           if is_tc k \<and> outgoing_frame_counter k = ZB_SECUR_NWK_COUNTER_LIMIT
                                           then emit Get_buf_for_key_switch s1 else s1))))))))"

section \<open>Receiving\<close>

text \<open>
  The parsed MAC header: whether the source address is a short one, that address, and the bytes
  \<^verbatim>\<open>zb_mac_fill_mhr\<close> writes for the header.
\<close>

record mac_mhr =
  mhr_src_is_short :: bool
  mhr_src_short :: u16
  mhr_bytes :: "u8 list"

definition upd_nbe :: "nat \<Rightarrow> (zb_neighbor_tbl_ent \<Rightarrow> zb_neighbor_tbl_ent) \<Rightarrow> nwk_sec \<Rightarrow> nwk_sec" where
  "upd_nbe i f s = s\<lparr>ctx := upd_nb (\<lambda>t. set_base i (f (base_neighbor t ! i)) t) (ctx s)\<rparr>"

definition nbe :: "nat \<Rightarrow> nwk_sec \<Rightarrow> zb_neighbor_tbl_ent" where
  "nbe i s = base_neighbor (neighbor (ctx s)) ! i"

text \<open>
  Finding the neighbour: for a short source address the address translation is updated with the two
  addresses first; for a long one the reference is not set, which is \<open>None\<close>.
\<close>

definition unsecure_neighbor ::
  "ieee \<Rightarrow> u16 \<Rightarrow> mac_mhr \<Rightarrow> nwk_sec \<Rightarrow> (zb_ret \<times> nat option \<times> nwk_sec) option" where
  "unsecure_neighbor source nwk_src mhr s =
     (if \<not> mhr_src_is_short mhr then None
      else
        (case zb_address_update source (mhr_src_short mhr) False (addr (ctx s)) of
           None \<Rightarrow> None
         | Some (ret, ref, g) \<Rightarrow>
             (let s1 = s\<lparr>ctx := (ctx s)\<lparr>addr := g\<rparr>\<rparr> in
              if ret \<noteq> RET_OK then Some (ret, None, s1)
              else
                (case zb_nwk_neighbor_get (the ref) (nwk_src = mhr_src_short mhr) (ctx s1) of
                   None \<Rightarrow> None
                 | Some (ret2, n, c) \<Rightarrow> Some (ret2, n, s1\<lparr>ctx := c\<rparr>)))))"

text \<open>Relationship, key number and frame counter of the neighbour, before anything is decrypted.\<close>

definition check_counter :: "nat \<Rightarrow> u8 \<Rightarrow> u32 \<Rightarrow> mac_mhr \<Rightarrow> nwk_sec \<Rightarrow> zb_ret \<times> nwk_sec" where
  "check_counter i key_seq frame_counter mhr s =
     (let key = secur_nwk_key_by_seq key_seq (keys s);
          s1 = (if nb_relationship (nbe i s) = RELATIONSHIP_CHILD
                then upd_nbe i (\<lambda>e. e\<lparr>nb_relationship := RELATIONSHIP_UNAUTHENTICATED_CHILD\<rparr>) s else s);
          s2 = (if nb_key_seq_number (nbe i s1) \<noteq> key_seq
                then upd_nbe i (\<lambda>e. e\<lparr>nb_incoming_frame_counter := 0, nb_key_seq_number := key_seq\<rparr>) s1
                else s1)
      in case key of
           None \<Rightarrow> (RET_ERROR, emit (Status_indication STATUS_BAD_KEY_SEQUENCE_NUMBER (mhr_src_short mhr)) s2)
         | Some _ \<Rightarrow>
             if nb_incoming_frame_counter (nbe i s2) > frame_counter
                \<or> nb_incoming_frame_counter (nbe i s2) = 0xFFFFFFFF
             then (RET_ERROR, emit (Status_indication STATUS_BAD_FRAME_COUNTER (mhr_src_short mhr)) s2)
             else (RET_OK, upd_nbe i (\<lambda>e. e\<lparr>nb_incoming_frame_counter := frame_counter\<rparr>) s2))"

text \<open>After the frame was found authentic: the MAC header is put back before the data.\<close>

definition reinsert_mhr :: "mac_mhr \<Rightarrow> zb_buf \<Rightarrow> zb_buf option" where
  "reinsert_mhr mhr b =
     (let n = length (mhr_bytes mhr) in
      case zb_buf_smart_alloc_left b (n + 1) of
        None \<Rightarrow> None
      | Some (b1, p) \<Rightarrow>
          (case write_bytes (p + 1) (mhr_bytes mhr) b1 of
             None \<Rightarrow> None
           | Some b2 \<Rightarrow>
               map_option fst
                 (zb_buf_cut_left (b2\<lparr>hdr := (hdr b2)\<lparr>mac_hdr_offset := of_nat (boff b2 + 1)\<rparr>\<rparr>) (n + 1))))"

text \<open>The condition for following the sender to its key.\<close>

definition implicit_switch :: "u8 \<Rightarrow> zb_keys \<Rightarrow> bool" where
  "implicit_switch key_seq k \<longleftrightarrow>
     int (unat key_seq) - int (unat (active_key_seq_number k)) \<noteq> 0
     \<and> key_seq - active_key_seq_number k < 127"

text \<open>
  Decrypting in place. When the header is longer than the frame, the unsigned difference of the lengths is
  huge and the cipher leaves the buffer. \<open>aux\<close> is a pointer into the buffer, from which the key number is read again
  at the end, after the data may have been moved.
\<close>

definition unsecure_decrypt ::
  "u8 list \<Rightarrow> nat \<Rightarrow> u8 list \<Rightarrow> nat \<Rightarrow> nat \<Rightarrow> mac_mhr \<Rightarrow> zb_buf \<Rightarrow> nwk_sec \<Rightarrow> (zb_ret \<times> zb_buf \<times> nwk_sec) option" where
  "unsecure_decrypt rnd i key hdr_size aux mhr nsdu s =
     (let fail = (\<lambda>b. Some (RET_ERROR, b,
                    emit (Status_indication STATUS_FRAME_SECURITY_FAILED (mhr_src_short mhr)) s));
          payload_size = blen nsdu - hdr_size
      in if blen nsdu < hdr_size then None
         else if payload_size < ZB_CCM_M then fail nsdu
         else
        (case write_bytes aux [ZB_NWK_STD_SECUR_CONTROL] nsdu of
           None \<Rightarrow> None
         | Some b1 \<Rightarrow>
             (let nonce = ccm_nonce (bytes_at (aux + 5) 8 b1) (bytes_at (aux + 1) 4 b1) ZB_NWK_STD_SECUR_CONTROL in
              case zb_ccm_decrypt_n_auth_stdsecur key nonce b1 hdr_size payload_size of
                None \<Rightarrow> None
              | Some (ret, b2) \<Rightarrow>
                  if ret \<noteq> RET_OK then fail b2
                  else
                    (case reinsert_mhr mhr b2 of
                       None \<Rightarrow> None
                     | Some b3 \<Rightarrow>
                         (let s1 = (if nb_relationship (nbe i s) = RELATIONSHIP_UNAUTHENTICATED_CHILD
                                    then upd_nbe i (\<lambda>e. e\<lparr>nb_relationship := RELATIONSHIP_CHILD\<rparr>) s else s);
                              seq2 = bytes b3 ! (aux + 13);
                              s2 = (if implicit_switch seq2 (keys s1)
                                    then s1\<lparr>keys := secur_nwk_key_switch rnd seq2 (keys s1)\<rparr> else s1)
                          in Some (RET_OK, b3, s2))))))"

definition zb_nwk_unsecure_frame ::
  "u8 list \<Rightarrow> zb_buf \<Rightarrow> mac_mhr \<Rightarrow> nwk_sec \<Rightarrow> (zb_ret \<times> zb_buf \<times> nwk_sec) option" where
  "zb_nwk_unsecure_frame rnd nsdu mhr s =
     (if \<not> authenticated (keys s) then Some (RET_ERROR, nsdu, emit Free_frame s)
      else
        (let p = boff nsdu;
             hdr_size = zb_nwk_hdr_size (bytes_at p 2 nsdu);
             aux = p + hdr_size - SIZEOF_AUX
         in if p + hdr_size < SIZEOF_AUX \<or> p + hdr_size > ZB_IO_BUF_SIZE then None
            else
           (case unsecure_neighbor (bytes_at (aux + 5) 8 nsdu) (letoh16 (bytes_at (p + 4) 2 nsdu)) mhr s of
              None \<Rightarrow> None
            | Some (ret, n, s1) \<Rightarrow>
                if ret \<noteq> RET_OK
                then Some (ret, nsdu, emit (Status_indication STATUS_FRAME_SECURITY_FAILED (mhr_src_short mhr)) s1)
                else
                  (let key_seq = bytes nsdu ! (aux + 13);
                       (ret2, s2) = check_counter (the n) key_seq (letoh32 (bytes_at (aux + 1) 4 nsdu)) mhr s1
                   in if ret2 \<noteq> RET_OK then Some (ret2, nsdu, s2)
                      else unsecure_decrypt rnd (the n) (the (secur_nwk_key_by_seq key_seq (keys s2)))
                             hdr_size aux mhr nsdu s2))))"

end
