(* ===== verification/Nwk_Secur_Lemmas.thy ===== *)
theory Nwk_Secur_Lemmas
  imports Nwk_Secur Secur_Ccm_Lemmas
begin

text \<open>
  Reading and writing the data of a packet buffer by position, and what securing and unsecuring do with the data
  of a frame.
\<close>

section \<open>Positions in the data\<close>

lemma bytes_at_payload:
  "i + n \<le> blen b \<Longrightarrow> bytes_at (boff b + i) n b = take n (drop i (payload b))"
  by (simp add: bytes_at_def payload_def drop_take_mid min_absorb1)

lemma memcpy_payload:
  assumes "buf_ok b" "i + length xs \<le> blen b"
  shows "buf_ok (b\<lparr>bytes := memcpy (boff b + i) xs (bytes b)\<rparr>)
    \<and> payload (b\<lparr>bytes := memcpy (boff b + i) xs (bytes b)\<rparr>) = memcpy i xs (payload b)"
proof -
  define pre where "pre = take (boff b) (bytes b)"
  define post where "post = drop (boff b + blen b) (bytes b)"
  have "bytes b = pre @ payload b @ post"
    unfolding pre_def post_def payload_def by (metis append_take_drop_id drop_drop add.commute)
  moreover have l: "length pre = boff b" "length (payload b) = blen b"
    using assms length_payload [OF assms(1)] by (auto simp: pre_def buf_ok_def)
  ultimately have "memcpy (boff b + i) xs (bytes b) = pre @ memcpy i xs (payload b) @ post"
    using assms(2) by (simp add: memcpy_def)
  moreover have "length (memcpy i xs (payload b)) = blen b" using assms(2) l by simp
  moreover have "length (bytes b) = length (pre @ payload b @ post)"
    using \<open>bytes b = pre @ payload b @ post\<close> by simp
  ultimately show ?thesis using l assms(1) by (simp add: payload_def [where b = "b\<lparr>bytes := _\<rparr>"] buf_ok_def)
qed

lemma write_at_payload:
  assumes "buf_ok b" "i + length xs \<le> blen b"
  shows "\<exists>b'. write_bytes (boff b + i) xs b = Some b' \<and> buf_ok b' \<and> hdr b' = hdr b
    \<and> payload b' = memcpy i xs (payload b)"
  using memcpy_payload [OF assms] assms
  by (auto simp: write_bytes_def buf_ok_def)

lemma memcpy_append_mid:
  "length xs = length ys \<Longrightarrow> memcpy (length a) xs (a @ ys @ c) = a @ xs @ c"
  by (simp add: memcpy_def)

lemma memcpy_append_left:
  "length xs = length a \<Longrightarrow> memcpy 0 xs (a @ c) = xs @ c"
  by (simp add: memcpy_def)

lemma reinsert_payload:
  assumes "buf_ok b" "blen b + length (mhr_bytes mhr) + 1 < ZB_IO_BUF_SIZE"
  shows "\<exists>b'. reinsert_mhr mhr b = Some b' \<and> buf_ok b' \<and> payload b' = payload b"
proof -
  let ?n = "length (mhr_bytes mhr) + 1"
  have "?n + blen b < ZB_IO_BUF_SIZE" using assms(2) by simp
  then obtain b1 where b1: "zb_buf_smart_alloc_left b ?n = Some (b1, boff b1)" "buf_ok b1"
      "blen b1 = blen b + ?n" "drop ?n (payload b1) = payload b"
    using alloc_left_payload [OF assms(1)] by blast
  obtain b2 where b2: "write_bytes (boff b1 + 1) (mhr_bytes mhr) b1 = Some b2" "buf_ok b2" "hdr b2 = hdr b1"
      "payload b2 = memcpy 1 (mhr_bytes mhr) (payload b1)"
    using write_at_payload [OF b1(2), of 1 "mhr_bytes mhr"] b1(3) by auto
  let ?b3 = "b2\<lparr>hdr := (hdr b2)\<lparr>mac_hdr_offset := of_nat (boff b2 + 1)\<rparr>\<rparr>"
  have b3: "buf_ok ?b3" "payload ?b3 = payload b2" "blen ?b3 = blen b1"
    using b2 by (simp_all add: buf_ok_def payload_def)
  obtain b4 where b4: "zb_buf_cut_left ?b3 ?n = Some (b4, boff b4)" "buf_ok b4" "payload b4 = drop ?n (payload ?b3)"
    using cut_left_payload [OF b3(1), of ?n] b3(3) b1(3) by auto
  have "length (payload b1) = blen b + ?n" using length_payload [OF b1(2)] b1(3) by simp
  then have "payload b4 = payload b"
    using b4(3) b3(2) b2(4) b1(4) by (simp add: memcpy_def)
  moreover have "reinsert_mhr mhr b = Some b4"
    using b1(1) b2(1) b4(1) by (simp add: reinsert_mhr_def Let_def)
  ultimately show ?thesis using b4(2) by blast
qed

section \<open>Sending\<close>

lemma length_aux_hdr [simp]:
  "length c = 4 \<Longrightarrow> length a = 8 \<Longrightarrow> length (aux_hdr ctl c a n) = 14"
  by (simp add: aux_hdr_def)

lemma nonce_key_ok: "length key = 16 \<Longrightarrow> length a = 8 \<Longrightarrow> length c = 4 \<Longrightarrow> key_ok (key, ccm_nonce a c ctl)"
  by (simp add: key_ok_def ccm_nonce_def ZB_CCM_NONCE_LEN_def)

text \<open>
  The frame is \<open>mac @ h @ x @ m\<close>: MAC header, network header up to the auxiliary one, auxiliary header,
  payload. Securing gives \<open>mac @ h @ aux @ seal\<close>.
\<close>

lemma secure_frame_payload:
  assumes src: "buf_ok src" "payload src = mac @ h @ x @ m" "length x = SIZEOF_AUX"
    and size: "zb_nwk_hdr_size (take 2 (h @ x @ m)) = length h + SIZEOF_AUX"
    and short: "length mac + length h + length m \<le> 107"
    and dst: "length (bytes dst) = ZB_IO_BUF_SIZE"
    and cnt: "next_counter (use_same_key (hdr src)) (x ! 13) (keys s) = (cnt, seq, k)"
    and key: "secur_nwk_key_by_seq seq k = Some key" "length key = 16"
    and addr: "length (extended_address s) = 8"
  defines "aux \<equiv> \<lambda>ctl. aux_hdr ctl (htole32 cnt) (extended_address s) seq"
  defines "kn \<equiv> (key, ccm_nonce (extended_address s) (htole32 cnt) ZB_NWK_STD_SECUR_CONTROL)"
  shows "\<exists>src1 dst1 s1. zb_nwk_secure_frame src (length mac) dst s = Some (RET_OK, src1, dst1, s1)
    \<and> buf_ok dst1 \<and> keys s1 = k
    \<and> payload dst1 = mac @ h @ aux ZB_NWK_STD_SECUR_CONTROL_ZEROED_LEVEL
        @ ccm_seal kn (h @ aux ZB_NWK_STD_SECUR_CONTROL) m"
proof -
  let ?A = "aux ZB_NWK_STD_SECUR_CONTROL"
  have lA: "length (aux c) = 14" for c using addr by (simp add: aux_def)
  have blen: "blen src = length mac + length h + SIZEOF_AUX + length m"
    using length_payload [OF src(1)] src(2,3) by simp
  have off: "boff src + blen src \<le> ZB_IO_BUF_SIZE" using src(1) by (simp add: buf_ok_def)
  let ?p = "boff src + length mac"
  let ?hs = "length h + SIZEOF_AUX"
  have fctl: "bytes_at ?p 2 src = take 2 (h @ x @ m)"
    using bytes_at_payload [of "length mac" 2 src] src(2,3) blen by (simp add: SIZEOF_AUX_def)
  have apos: "?p + ?hs - SIZEOF_AUX = boff src + (length mac + length h)" by simp
  have seqb: "bytes src ! (boff src + (length mac + length h) + 13) = x ! 13"
  proof -
    have "payload src ! (length mac + length h + 13) = bytes src ! (boff src + (length mac + length h + 13))"
      unfolding payload_def using src(1) blen by (simp add: buf_ok_def SIZEOF_AUX_def)
    moreover have "payload src ! (length mac + length h + 13) = x ! 13"
      using src(2,3) by (simp add: nth_append SIZEOF_AUX_def)
    ultimately show ?thesis by (simp add: add.assoc)
  qed
  obtain src1 where src1: "write_bytes (boff src + (length mac + length h)) ?A src = Some src1" "buf_ok src1"
      "hdr src1 = hdr src" "payload src1 = mac @ h @ ?A @ m"
  proof -
    have "memcpy (length mac + length h) ?A (payload src) = mac @ h @ ?A @ m"
      using memcpy_append_mid [of ?A x "mac @ h" m] src(2,3) lA by (simp add: SIZEOF_AUX_def)
    then show thesis
      using that write_at_payload [OF src(1), of "length mac + length h" ?A] lA blen by (auto simp: SIZEOF_AUX_def)
  qed
  have a: "bytes_at ?p ?hs src1 = h @ ?A"
    using bytes_at_payload [of "length mac" ?hs src1] src1(3,4) blen lA by (simp add: SIZEOF_AUX_def)
  have m: "bytes_at (?p + ?hs) (blen src - ?hs - length mac) src1 = m"
    using bytes_at_payload [of "length mac + ?hs" "length m" src1] src1(3,4) blen lA
    by (simp add: SIZEOF_AUX_def add.assoc)
  have kok: "key_ok kn" using key addr by (simp add: kn_def nonce_key_ok)
  have "length (h @ ?A) + length m + ZB_CCM_M \<le> 125" using short lA by (simp add: ZB_CCM_M_def)
  then obtain d1 where d1: "zb_ccm_encrypt_n_auth (fst kn) (snd kn) (h @ ?A) m dst = Some (RET_OK, d1)" "buf_ok d1"
      "payload d1 = h @ ?A @ ccm_seal kn (h @ ?A) m"
    using encrypt_refines_seal [of "fst kn" "snd kn"] kok dst by fastforce
  have bd1: "blen d1 = length h + 14 + length m + 4"
    using length_payload [OF d1(2)] d1(3) lA ccm.length_seal [OF kok] by (simp add: ZB_CCM_M_def)
  then obtain d2 where d2: "zb_buf_smart_alloc_left d1 (length mac) = Some (d2, boff d2)" "buf_ok d2"
      "blen d2 = blen d1 + length mac" "drop (length mac) (payload d2) = payload d1"
    using alloc_left_payload [OF d1(2), of "length mac"] short by (auto simp: ZB_IO_BUF_SIZE_def)
  have macb: "bytes_at (boff src) (length mac) src1 = mac"
    using bytes_at_payload [of 0 "length mac" src1] src1(3,4) blen by simp
  obtain d3 where d3: "write_bytes (boff d2) mac d2 = Some d3" "buf_ok d3" "hdr d3 = hdr d2"
      "payload d3 = mac @ payload d1"
    using write_at_payload [OF d2(2), of 0 mac] d2(3,4) by (auto simp: memcpy_def)
  let ?Z = "aux ZB_NWK_STD_SECUR_CONTROL_ZEROED_LEVEL"
  obtain d4 where d4: "write_bytes (boff d3 + (length mac + length h)) [ZB_NWK_STD_SECUR_CONTROL_ZEROED_LEVEL] d3 = Some d4"
      "buf_ok d4" "payload d4 = mac @ h @ ?Z @ ccm_seal kn (h @ ?A) m"
  proof -
    have "memcpy (length (mac @ h)) [ZB_NWK_STD_SECUR_CONTROL_ZEROED_LEVEL]
        ((mac @ h) @ [ZB_NWK_STD_SECUR_CONTROL] @ tl ?A @ ccm_seal kn (h @ ?A) m)
        = (mac @ h) @ [ZB_NWK_STD_SECUR_CONTROL_ZEROED_LEVEL] @ tl ?A @ ccm_seal kn (h @ ?A) m"
      by (rule memcpy_append_mid) simp
    moreover have "[ZB_NWK_STD_SECUR_CONTROL] @ tl ?A = ?A" "[ZB_NWK_STD_SECUR_CONTROL_ZEROED_LEVEL] @ tl ?A = ?Z"
      by (simp_all add: aux_def aux_hdr_def)
    ultimately have "memcpy (length mac + length h) [ZB_NWK_STD_SECUR_CONTROL_ZEROED_LEVEL] (payload d3)
        = mac @ h @ ?Z @ ccm_seal kn (h @ ?A) m"
      using d3(4) d1(3) by (simp del: append_Cons append_Nil) (metis append.assoc)
    then show thesis
      using that write_at_payload [OF d3(2), of "length mac + length h" "[ZB_NWK_STD_SECUR_CONTROL_ZEROED_LEVEL]"]
        d3(3) d2(3) bd1 by auto
  qed
  have "zb_nwk_secure_frame src (length mac) dst s = Some (RET_OK, src1, d4,
      if is_tc k \<and> outgoing_frame_counter k = ZB_SECUR_NWK_COUNTER_LIMIT
      then emit Get_buf_for_key_switch (s\<lparr>keys := k\<rparr>) else s\<lparr>keys := k\<rparr>)"
    using blen fctl size cnt key(1) src1(1) a m d1(1) d2(1) d3(1) d4(1) macb
    by (simp add: zb_nwk_secure_frame_def Let_def apos seqb kn_def aux_def)
  then show ?thesis using d4 by (auto simp: emit_def)
qed

section \<open>Receiving\<close>

lemma nbe_simps [simp]:
  "nbe i (emit e s) = nbe i s" "keys (emit e s) = keys s" "keys (upd_nbe i f s) = keys s"
  "nbe i (s\<lparr>keys := k\<rparr>) = nbe i s" "ctx (emit e s) = ctx s"
  by (simp_all add: nbe_def emit_def upd_nbe_def)

lemma nbe_upd:
  "i < length (base_neighbor (neighbor (ctx s))) \<Longrightarrow> nbe i (upd_nbe i f s) = f (nbe i s)"
  by (simp add: nbe_def upd_nbe_def upd_nb_def set_base_def)

lemma length_upd_nbe [simp]:
  "length (base_neighbor (neighbor (ctx (upd_nbe i f s)))) = length (base_neighbor (neighbor (ctx s)))"
  by (simp add: upd_nbe_def upd_nb_def set_base_def)

text \<open>Decrypting does not touch the frame counter, whatever the result.\<close>

lemma decrypt_keeps_counter:
  assumes "unsecure_decrypt rnd i key hs aux mhr b s = Some (ret, b', s')"
    "i < length (base_neighbor (neighbor (ctx s)))"
  shows "nb_incoming_frame_counter (nbe i s') = nb_incoming_frame_counter (nbe i s)
    \<and> nb_key_seq_number (nbe i s') = nb_key_seq_number (nbe i s)
    \<and> length (base_neighbor (neighbor (ctx s'))) = length (base_neighbor (neighbor (ctx s)))
    \<and> (ret \<noteq> RET_OK \<longrightarrow> keys s' = keys s)"
  using assms
  by (auto simp: unsecure_decrypt_def Let_def nbe_upd split: if_split_asm option.split_asm prod.split_asm)

text \<open>What the checks leave behind.\<close>

lemma check_counter_ok:
  assumes "check_counter i seq cnt mhr s = (RET_OK, s')" "i < length (base_neighbor (neighbor (ctx s)))"
  shows "nb_incoming_frame_counter (nbe i s') = cnt \<and> nb_key_seq_number (nbe i s') = seq
    \<and> keys s' = keys s \<and> secur_nwk_key_by_seq seq (keys s) \<noteq> None
    \<and> length (base_neighbor (neighbor (ctx s'))) = length (base_neighbor (neighbor (ctx s)))
    \<and> (nb_key_seq_number (nbe i s) = seq \<longrightarrow>
        nb_incoming_frame_counter (nbe i s) \<le> cnt \<and> nb_incoming_frame_counter (nbe i s) \<noteq> 0xFFFFFFFF)"
  using assms
  by (auto simp: check_counter_def Let_def nbe_upd split: if_split_asm option.split_asm)

lemma check_counter_again:
  assumes "i < length (base_neighbor (neighbor (ctx s)))" "nb_key_seq_number (nbe i s) = seq"
    "nb_incoming_frame_counter (nbe i s) = cnt" "secur_nwk_key_by_seq seq (keys s) \<noteq> None"
  shows "fst (check_counter i seq cnt' mhr s) = (if cnt' < cnt \<or> cnt = 0xFFFFFFFF then RET_ERROR else RET_OK)"
  using assms
  by (auto simp: check_counter_def Let_def nbe_upd split: option.split)

lemma decrypt_accepts:
  fixes h m source key :: "u8 list" and seq :: u8 and cnt :: u32
  defines "A \<equiv> \<lambda>ctl. aux_hdr ctl (htole32 cnt) source seq"
  defines "kn \<equiv> (key, ccm_nonce source (htole32 cnt) ZB_NWK_STD_SECUR_CONTROL)"
  assumes b: "buf_ok b" "payload b = h @ A ZB_NWK_STD_SECUR_CONTROL_ZEROED_LEVEL
        @ ccm_seal kn (h @ A ZB_NWK_STD_SECUR_CONTROL) m"
    and key: "length key = 16" "length source = 8"
    and short: "length h + length m \<le> 107" "length h + 14 + length m + length (mhr_bytes mhr) + 1 < ZB_IO_BUF_SIZE"
  shows "\<exists>b' s'. unsecure_decrypt rnd i key (length h + SIZEOF_AUX) (boff b + length h) mhr b s = Some (RET_OK, b', s')
    \<and> buf_ok b' \<and> payload b' = h @ A ZB_NWK_STD_SECUR_CONTROL @ m"
proof -
  let ?S = "A ZB_NWK_STD_SECUR_CONTROL" and ?hs = "length h + SIZEOF_AUX"
  have lA: "length (A c) = 14" for c using key by (simp add: A_def)
  have kok: "key_ok kn" using key by (simp add: kn_def nonce_key_ok)
  have blen: "blen b = ?hs + length m + ZB_CCM_M"
    using length_payload [OF b(1)] b(2) lA ccm.length_seal [OF kok] by (simp add: SIZEOF_AUX_def)
  obtain b1 where b1: "write_bytes (boff b + length h) [ZB_NWK_STD_SECUR_CONTROL] b = Some b1" "buf_ok b1"
      "hdr b1 = hdr b" "payload b1 = h @ ?S @ ccm_seal kn (h @ ?S) m"
  proof -
    have "memcpy (length h) [ZB_NWK_STD_SECUR_CONTROL]
        (h @ [ZB_NWK_STD_SECUR_CONTROL_ZEROED_LEVEL] @ tl ?S @ ccm_seal kn (h @ ?S) m)
        = h @ [ZB_NWK_STD_SECUR_CONTROL] @ tl ?S @ ccm_seal kn (h @ ?S) m"
      by (rule memcpy_append_mid) simp
    moreover have "[ZB_NWK_STD_SECUR_CONTROL] @ tl ?S = ?S"
      "[ZB_NWK_STD_SECUR_CONTROL_ZEROED_LEVEL] @ tl ?S = A ZB_NWK_STD_SECUR_CONTROL_ZEROED_LEVEL"
      by (simp_all add: A_def aux_hdr_def)
    ultimately have "memcpy (length h) [ZB_NWK_STD_SECUR_CONTROL] (payload b) = h @ ?S @ ccm_seal kn (h @ ?S) m"
      using b(2) by (simp del: append_Cons append_Nil) (metis append.assoc)
    then show thesis
      using that write_at_payload [OF b(1), of "length h" "[ZB_NWK_STD_SECUR_CONTROL]"] blen
      by (auto simp: SIZEOF_AUX_def)
  qed
  have src: "bytes_at (boff b + length h + 5) 8 b1 = source"
  proof -
    have "bytes_at (boff b1 + (length h + 5)) 8 b1 = take 8 (drop (length h + 5) (payload b1))"
      using blen b1(3) by (intro bytes_at_payload) (simp add: SIZEOF_AUX_def)
    also have "\<dots> = source"
      using key unfolding b1(4) A_def aux_hdr_def by (simp add: htole32_def)
    finally show ?thesis using b1(3) by (simp add: add.assoc)
  qed
  have ctr: "bytes_at (boff b + length h + 1) 4 b1 = htole32 cnt"
  proof -
    have "bytes_at (boff b1 + (length h + 1)) 4 b1 = take 4 (drop (length h + 1) (payload b1))"
      using blen b1(3) by (intro bytes_at_payload) (simp add: SIZEOF_AUX_def)
    also have "\<dots> = htole32 cnt"
      unfolding b1(4) A_def aux_hdr_def by (simp add: htole32_def)
    finally show ?thesis using b1(3) by (simp add: add.assoc)
  qed
  have split: "take ?hs (payload b1) = h @ ?S" "drop ?hs (payload b1) = ccm_seal kn (h @ ?S) m"
    using b1(4) lA by (simp_all add: SIZEOF_AUX_def)
  have "?hs + (length m + ZB_CCM_M) = blen b1" "ZB_CCM_M \<le> length m + ZB_CCM_M" "length m + ZB_CCM_M \<le> 136"
    using blen b1(3) short by (simp_all add: ZB_CCM_M_def)
  from decrypt_refines_open [of "fst kn" "snd kn", simplified, OF kok b1(2) this]
  obtain b2 where b2: "zb_ccm_decrypt_n_auth (fst kn) (snd kn) b1 ?hs (length m + ZB_CCM_M) = Some (RET_OK, b2)"
      "buf_ok b2" "payload b2 = h @ ?S @ m"
    using ccm.open_seal [OF kok, of "h @ ?S" m] by (auto simp: split simp del: append_assoc)
  have "blen b2 + length (mhr_bytes mhr) + 1 < ZB_IO_BUF_SIZE"
    using length_payload [OF b2(2)] b2(3) lA short by simp
  from reinsert_payload [OF b2(2) this] obtain b3 where b3: "reinsert_mhr mhr b2 = Some b3" "buf_ok b3"
      "payload b3 = payload b2" by blast
  have "blen b - ?hs = length m + ZB_CCM_M" "\<not> blen b < ?hs" "\<not> length m + ZB_CCM_M < ZB_CCM_M" using blen by simp_all
  then have "\<exists>s'. unsecure_decrypt rnd i key ?hs (boff b + length h) mhr b s = Some (RET_OK, b3, s')"
    using b1(1) b2(1) b3(1) src ctr
    by (simp add: unsecure_decrypt_def Let_def zb_ccm_decrypt_n_auth_stdsecur_def kn_def)
  then show ?thesis using b3 b2 by auto
qed

end
