(* ===== verification/Nwk_Secur_Props.thy ===== *)
theory Nwk_Secur_Props
  imports Nwk_Secur_Lemmas Nwk_Neighbor_Props Secur_Props
begin

text \<open>
  The properties of network layer security: a secured frame is accepted by a node with the key and gives
  back what was sent; the frame counter of a neighbour is set by frames that are not authentic; and what
  switching to another network key does.
\<close>

section \<open>From node to node\<close>


text \<open>
  A node with one key that knows one neighbour, to which every reference leads, and a frame header for it.
\<close>

definition sample_keys :: zb_keys where
  "sample_keys = \<lparr>secur_material_set = replicate 3 \<lparr>sm_key = replicate 16 9, sm_seq = 0\<rparr>,
     active_secur_material_i = 0, active_key_seq_number = 0, outgoing_frame_counter = 4,
     prev_outgoing_frame_counter = 0, is_tc = False, authenticated = True,
     trust_center_address = replicate 8 0\<rparr>"

definition sample_ctx :: nb_ctx where
  "sample_ctx = \<lparr>addr = addr_zero,
     neighbor = nb_zero\<lparr>base_neighbor_size := 32, base_neighbor_used := 1,
       base_neighbor := (base_neighbor nb_zero)[0 := ent_zero\<lparr>nb_used := True\<rparr>]\<rparr>,
     nib_depth = 1\<rparr>"

definition sample_node :: nwk_sec where
  "sample_node = \<lparr>keys = sample_keys, ctx = sample_ctx, extended_address = [1, 2, 3, 4, 5, 6, 7, 8], events = []\<rparr>"

definition sample_mhr :: mac_mhr where
  "sample_mhr = \<lparr>mhr_src_is_short = True, mhr_src_short = 5, mhr_bytes = [1, 2, 3]\<rparr>"

definition sample_hdr :: "u8 list" where
  "sample_hdr = [8, 2, 0, 0, 5, 0, 30, 1]"

lemma sample_accepts:
  assumes "cnt = 4 \<or> cnt = 0xFFFFFFFF"
  shows "\<exists>r1 r2. unsecure_neighbor [1, 2, 3, 4, 5, 6, 7, 8] 5 sample_mhr sample_node = Some (RET_OK, Some 0, r1)
    \<and> 0 < length (base_neighbor (neighbor (ctx r1)))
    \<and> check_counter 0 0 cnt sample_mhr r1 = (RET_OK, r2) \<and> keys r2 = sample_keys"
proof -
  have "(5 :: u16) \<noteq> ZB_UNKNOWN_SHORT_ADDR" by (simp add: ZB_UNKNOWN_SHORT_ADDR_def)
  then obtain ref g where u: "zb_address_update [1, 2, 3, 4, 5, 6, 7, 8] 5 False addr_zero = Some (RET_OK, Some ref, g)"
      "ref < ZB_IEEE_ADDR_TABLE_SIZE"
    using update_addr_zero by blast
  let ?r1 = "sample_node\<lparr>ctx := sample_ctx\<lparr>addr := g\<rparr>\<rparr>"
  have n: "zb_nwk_neighbor_get ref True (sample_ctx\<lparr>addr := g\<rparr>) = Some (RET_OK, Some 0, sample_ctx\<lparr>addr := g\<rparr>)"
    using u(2) by (simp add: zb_nwk_neighbor_get_def Let_def sample_ctx_def nb_zero_def NO_NEIGHBOR_def)
  have a: "addr (ctx sample_node) = addr_zero" "ctx sample_node = sample_ctx"
    by (simp_all add: sample_node_def sample_ctx_def)
  have "unsecure_neighbor [1, 2, 3, 4, 5, 6, 7, 8] 5 sample_mhr sample_node = Some (RET_OK, Some 0, ?r1)"
    using u(1) n a by (simp add: unsecure_neighbor_def Let_def sample_mhr_def)
  moreover have key: "secur_nwk_key_by_seq 0 sample_keys \<noteq> None" by code_simp
  have "nb_relationship (nbe 0 ?r1) = RELATIONSHIP_PARENT" "nb_key_seq_number (nbe 0 ?r1) = 0"
    "nb_incoming_frame_counter (nbe 0 ?r1) = 0" "keys ?r1 = sample_keys"
    by (simp_all add: nbe_def sample_node_def sample_ctx_def nb_zero_def ent_zero_def ZB_NEIGHBOR_TABLE_SIZE_def)
  then have "\<exists>r2. check_counter 0 0 cnt sample_mhr ?r1 = (RET_OK, r2) \<and> keys r2 = sample_keys"
    using key assms by (auto simp: check_counter_def Let_def)
  moreover have "0 < length (base_neighbor (neighbor (ctx ?r1)))"
    by (simp add: sample_ctx_def nb_zero_def ZB_NEIGHBOR_TABLE_SIZE_def)
  ultimately show ?thesis by blast
qed

lemma sample_key: "secur_nwk_key_by_seq 0 sample_keys = Some (replicate 16 9)"
  by code_simp


section \<open>Frame counters\<close>


text \<open>A frame without any payload is enough.\<close>

definition forged_frame :: zb_buf where
  "forged_frame = plain_buf (sample_hdr @ aux_hdr 0 (htole32 0xFFFFFFFF) [1, 2, 3, 4, 5, 6, 7, 8] 0)"


section \<open>Switching keys\<close>

text \<open>
  Told to switch to a key number that is in none of its slots, a node, the trust centre
  included, makes the number the active one nevertheless and restarts its frame counter; from then on
  every frame it is to secure fails with an error, since there is no key with that number.
\<close>

theorem switch_to_a_missing_key:
  assumes "\<forall>i<ZB_SECUR_N_SECUR_MATERIAL. sm_seq (secur_material_set k ! i) \<noteq> n"
    and "k' = secur_nwk_key_switch rnd n k"
  shows "active_key_seq_number k' = n \<and> outgoing_frame_counter k' = 0
    \<and> secur_material_set k' = secur_material_set k \<and> secur_nwk_key_by_seq n k' = None
    \<and> (\<forall>src mac_hdr_size dst s ret src1 dst1 s1. keys s = k' \<longrightarrow> \<not> use_same_key (hdr src) \<longrightarrow>
        zb_nwk_secure_frame src mac_hdr_size dst s = Some (ret, src1, dst1, s1) \<longrightarrow> ret = RET_ERROR)"
proof -
  let ?sh = "(active_secur_material_i k + 1) mod ZB_SECUR_N_SECUR_MATERIAL"
  have "switch_scan n ?sh 0 k = 0"
    using assms(1) by (intro switch_scan_0) (simp add: ZB_SECUR_N_SECUR_MATERIAL_def)
  then have k': "k' = k\<lparr>active_secur_material_i := 0, active_key_seq_number := n,
      prev_outgoing_frame_counter := outgoing_frame_counter k, outgoing_frame_counter := 0\<rparr>"
    using assms(2) by (simp add: secur_nwk_key_switch_def Let_def ZB_SECUR_N_SECUR_MATERIAL_def)
  have none: "secur_nwk_key_by_seq n (k\<lparr>active_secur_material_i := 0, active_key_seq_number := n,
      prev_outgoing_frame_counter := p, outgoing_frame_counter := c\<rparr>) = None" for p c
    using assms(1) by (auto simp: secur_nwk_key_by_seq_def probe_def ZB_SECUR_N_SECUR_MATERIAL_def find_None_iff)
  then have "ret = RET_ERROR" if "keys s = k'" "\<not> use_same_key (hdr src)"
      "zb_nwk_secure_frame src mac_hdr_size dst s = Some (ret, src1, dst1, s1)" for src mac_hdr_size dst s ret src1 dst1 s1
    using that by (auto simp: zb_nwk_secure_frame_def Let_def next_counter_def k' split: if_split_asm option.split_asm)
  with none show ?thesis by (auto simp: k')
qed

theorem switch_to_a_missing_key_witness:
  "active_key_seq_number (secur_nwk_key_switch [] 7 sample_keys) = 7
    \<and> secur_nwk_key_by_seq 7 (secur_nwk_key_switch [] 7 sample_keys) = None"
  using switch_to_a_missing_key [of sample_keys 7 _ "[]"]
  by (simp add: sample_keys_def ZB_SECUR_N_SECUR_MATERIAL_def)

text \<open>
  A trust centre that starts with its three generated keys and switches to the second and then
  to the third of them secures its own frames with the third key, but every device that asks for
  the network key from then on is given the second key under the number of the third.
\<close>

theorem second_switch_hands_out_the_wrong_key:
  assumes s: "length (secur_material_set k0) = ZB_SECUR_N_SECUR_MATERIAL" "active_secur_material_i k0 = 0"
    and len: "length r0 = 16" "length r1 = 16" "length r2 = 16"
    and k: "k = secur_nwk_key_switch x2 2 (secur_nwk_key_switch x1 1 (secur_generate_keys [r0, r1, r2] k0))"
  shows "active_key_seq_number k = 2 \<and> secur_nwk_key_by_seq 2 k = Some r2
    \<and> (\<forall>src c c' key n d. zb_apsme_request_key_indication True src k c = Some (c', Transport_key key n d) \<longrightarrow>
        key = r1 \<and> n = 2)"
proof -
  define g where "g = secur_generate_keys [r0, r1, r2] k0"
  have g: "secur_material_set g = [\<lparr>sm_key = r0, sm_seq = 0\<rparr>, \<lparr>sm_key = r1, sm_seq = 1\<rparr>, \<lparr>sm_key = r2, sm_seq = 2\<rparr>]"
    "active_secur_material_i g = 0"
    using s len by (auto simp: g_def secur_generate_keys_def secur_generate_key_def put_key_def ZB_CCM_KEY_SIZE_def
        ZB_SECUR_N_SECUR_MATERIAL_def length_Suc_conv numeral_eq_Suc)
  define k1 where "k1 = secur_nwk_key_switch x1 1 g"
  have "switch_scan 1 1 0 g = 1" using g by (intro switch_scan_1) simp_all
  then have k1: "secur_material_set k1 = secur_material_set g" "active_secur_material_i k1 = 1"
    using g(2) by (simp_all add: k1_def secur_nwk_key_switch_def Let_def ZB_SECUR_N_SECUR_MATERIAL_def)
  have "switch_scan 2 2 0 k1 = 1" using g k1 by (intro switch_scan_1) simp_all
  then have "switch_scan 2 (Suc (Suc 0)) 0 k1 = Suc 0" by (simp add: numeral_2_eq_2)
  then have k2: "secur_material_set k = secur_material_set g" "active_secur_material_i k = 1" "active_key_seq_number k = 2"
    using k1 k unfolding g_def [symmetric] k1_def [symmetric]
    by (simp_all add: secur_nwk_key_switch_def Let_def ZB_SECUR_N_SECUR_MATERIAL_def)
  have "secur_nwk_key_by_seq 2 k = Some r2"
    using k2 g by (simp add: secur_nwk_key_by_seq_def probe_def ZB_SECUR_N_SECUR_MATERIAL_def upt_rec)
  moreover have "key = r1 \<and> n = 2" if "zb_apsme_request_key_indication True src k c = Some (c', Transport_key key n d)"
    for src c c' key n d
    using that k2 g
    by (auto simp: zb_apsme_request_key_indication_def Let_def split: option.split_asm prod.split_asm if_split_asm)
  ultimately show ?thesis using k2(3) by blast
qed

theorem second_switch_hands_out_the_wrong_key_witness:
  "active_key_seq_number
     (secur_nwk_key_switch [] 2 (secur_nwk_key_switch [] 1
       (secur_generate_keys [replicate 16 1, replicate 16 2, replicate 16 3] sample_keys))) = 2"
  using second_switch_hands_out_the_wrong_key [of sample_keys "replicate 16 1" "replicate 16 2" "replicate 16 3" _ "[]" "[]"]
  by (simp add: sample_keys_def ZB_SECUR_N_SECUR_MATERIAL_def)

end
