(* ===== verification/Secur_Zdo.thy ===== *)
theory Secur_Zdo
  imports Secur_Keys
begin

text \<open>
  The handlers of \<^verbatim>\<open>secur/zdo_secur.c\<close> that pass keys on: how a trust centre or a router lets a child
  in, hands out the next key, has everybody switch to it, and forgets a device that left. Every handler gets one
  packet buffer; what it does with it, and what it asks others to do, is the list of actions it returns beside the
  new state. Request structures, which the code writes into the buffer, are the arguments of the
  actions.
\<close>

section \<open>Requests\<close>

datatype zb_addr =
    Addr_short u16
  | Addr_long ieee

text \<open>The parent's address is there when \<^verbatim>\<open>use_parent\<close> is set.\<close>

datatype secur_action =
    Transport_key_request zb_addr "u8 list" u8 "ieee option"
  | Update_device_request ieee ieee u16 u8
  | Switch_key_request zb_addr u8
  | Leave_request ieee
  | Remove_device_request ieee ieee
  | Send_nwk_key_switch u16
  | Free_param
  | Get_buf_for_next

definition ZB_STD_SEQ_SECURED_REJOIN :: u8 where "ZB_STD_SEQ_SECURED_REJOIN = 0"
definition ZB_STD_SEQ_UNSECURED_JOIN :: u8 where "ZB_STD_SEQ_UNSECURED_JOIN = 1"
definition ZB_DEVICE_LEFT :: u8 where "ZB_DEVICE_LEFT = 2"
definition ZB_STD_SEQ_UNSECURED_REJOIN :: u8 where "ZB_STD_SEQ_UNSECURED_REJOIN = 3"

lemmas upd_device_status_defs =
  ZB_STD_SEQ_SECURED_REJOIN_def ZB_STD_SEQ_UNSECURED_JOIN_def ZB_DEVICE_LEFT_def ZB_STD_SEQ_UNSECURED_REJOIN_def

record zdo_sec =
  z_keys :: zb_keys
  z_ctx :: nb_ctx
  z_coordinator :: bool
  allow_auth :: bool
  key_sw :: u8
  neighbor_table_iterator :: nat

definition active_key :: "zb_keys \<Rightarrow> u8 list" where
  "active_key k = sm_key (secur_material_set k ! active_secur_material_i k)"

section \<open>Children\<close>

record zb_join_ind =
  network_address :: u16
  ji_extended_address :: ieee
  rejoin_network :: u8
  secure_rejoin :: u8

text \<open>The result \<^verbatim>\<open>-1\<close> is kept in a byte by the caller. \<open>secure_rejoin\<close> is 1 for an unsecured frame.\<close>

definition zb_secur_gen_upd_dev_status :: "u8 \<Rightarrow> u8 \<Rightarrow> u8" where
  "zb_secur_gen_upd_dev_status rejoin secure =
     (let v = (if rejoin \<noteq> 0 then 2 else 0) OR secure in
      if v = 0 then ZB_STD_SEQ_UNSECURED_JOIN
      else if v = 2 then ZB_STD_SEQ_SECURED_REJOIN
      else if v = 3 then ZB_STD_SEQ_UNSECURED_REJOIN
      else - 1)"

definition secur_authenticate_child :: "zb_join_ind \<Rightarrow> zdo_sec \<Rightarrow> secur_action list" where
  "secur_authenticate_child ind s =
     (let status = zb_secur_gen_upd_dev_status (rejoin_network ind) (secure_rejoin ind);
          k = z_keys s
      in if z_coordinator s \<and> is_tc k then
           (if status = ZB_STD_SEQ_SECURED_REJOIN
            then [Transport_key_request (Addr_long (ji_extended_address ind)) (replicate ZB_CCM_KEY_SIZE 0) 0 None]
            else [Transport_key_request (Addr_long (ji_extended_address ind)) (active_key k)
                    (active_key_seq_number k) None])
         else [Update_device_request (trust_center_address k) (ji_extended_address ind)
                 (network_address ind) status])"

record zb_upd_ind =
  ui_src_address :: ieee
  ui_device_address :: ieee
  ui_device_short_address :: u16
  ui_status :: u8

text \<open>
  \<open>left\<close> are key and key number that the bytes of the buffer happen to stand for; they are sent when the status
  is none of the three that fill the key in.
\<close>

definition zb_apsme_update_device_indication ::
  "u8 list \<times> u8 \<Rightarrow> zb_upd_ind \<Rightarrow> zdo_sec \<Rightarrow> (zdo_sec \<times> secur_action list) option" where
  "zb_apsme_update_device_indication left ind s =
     (if ui_status ind = ZB_DEVICE_LEFT then
        (case zb_address_by_short (ui_device_short_address ind) False False (addr (z_ctx s)) of
           None \<Rightarrow> None
         | Some (ret, ref, g) \<Rightarrow>
             (case (if ret = RET_OK then Some (ret, ref, g)
                    else zb_address_by_ieee (ui_device_address ind) False False g) of
                None \<Rightarrow> None
              | Some (ret, ref, g) \<Rightarrow>
                  (let c = (z_ctx s)\<lparr>addr := g\<rparr> in
                   if ret = RET_OK then
                     (case zb_nwk_neighbor_delete (the ref) (neighbor c) of
                        None \<Rightarrow> None
                      | Some (_, t) \<Rightarrow>
                          Some (s\<lparr>z_ctx := c\<lparr>neighbor := t, addr := zb_address_delete (the ref) g\<rparr>\<rparr>, [Free_param]))
                   else Some (s\<lparr>z_ctx := c\<rparr>, []))))
      else if allow_auth s then
        (let (key, n) = (if ui_status ind = ZB_STD_SEQ_SECURED_REJOIN then (replicate ZB_CCM_KEY_SIZE 0, 0)
                         else if ui_status ind \<in> {ZB_STD_SEQ_UNSECURED_JOIN, ZB_STD_SEQ_UNSECURED_REJOIN}
                         then (active_key (z_keys s), active_key_seq_number (z_keys s)) else left)
         in Some (s, [Transport_key_request (Addr_long (ui_device_address ind)) key n (Some (ui_src_address ind))]))
      else Some (s, [Remove_device_request (ui_src_address ind) (ui_device_address ind)]))"

definition zb_apsme_remove_device_indication :: "ieee \<Rightarrow> ieee \<Rightarrow> zdo_sec \<Rightarrow> secur_action list" where
  "zb_apsme_remove_device_indication src child s =
     (if src = trust_center_address (z_keys s) then [Leave_request child] else [Free_param])"

section \<open>Updating and switching keys\<close>

definition zb_secur_send_nwk_key_update_br :: "u16 \<Rightarrow> zdo_sec \<Rightarrow> secur_action list" where
  "zb_secur_send_nwk_key_update_br dest_br s =
     (let n = active_key_seq_number (z_keys s) + 1 in
      case secur_nwk_key_by_seq n (z_keys s) of
        None \<Rightarrow> []
      | Some key \<Rightarrow> [Transport_key_request (Addr_short dest_br) key n None])"

definition secur_send_key_sw_next :: "zdo_sec \<Rightarrow> zdo_sec \<times> secur_action list" where
  "secur_send_key_sw_next s =
     (let i = neighbor_table_iterator s;
          dest = zb_address_ieee_by_ref (nb_addr_ref (base_neighbor (neighbor (z_ctx s)) ! i)) (addr (z_ctx s));
          i1 = zb_nwk_neighbor_next_rx_on_i (i + 1) (neighbor (z_ctx s))
      in (s\<lparr>neighbor_table_iterator := i1\<rparr>,
          Switch_key_request (Addr_long dest) (active_key_seq_number (z_keys s))
            # (if i1 \<noteq> NO_INDEX then [Get_buf_for_next] else [])))"

definition zb_secur_send_nwk_key_switch ::
  "u8 list \<Rightarrow> u8 \<Rightarrow> u16 \<Rightarrow> zdo_sec \<Rightarrow> zdo_sec \<times> secur_action list" where
  "zb_secur_send_nwk_key_switch rnd param dest_br s =
     (if dest_br = 0 then
        (let s1 = s\<lparr>z_keys := secur_nwk_key_switch rnd (active_key_seq_number (z_keys s) + 1) (z_keys s),
                    neighbor_table_iterator := zb_nwk_neighbor_next_rx_on_i 0 (neighbor (z_ctx s))\<rparr>
         in if neighbor_table_iterator s1 \<noteq> NO_INDEX then secur_send_key_sw_next s1 else (s1, [Free_param]))
      else
        (s\<lparr>key_sw := param\<rparr>,
         [Switch_key_request (Addr_short dest_br) (active_key_seq_number (z_keys s) + 1)]))"

definition zb_secur_switch_nwk_key_br :: "secur_action list" where
  "zb_secur_switch_nwk_key_br = [Send_nwk_key_switch ZB_NWK_BROADCAST_RX_ON_WHEN_IDLE]"

section \<open>The round of a key switch\<close>

text \<open>
  Every buffer that was asked for is delivered to \<^verbatim>\<open>secur_send_key_sw_next\<close>; the round goes on as long
  as it asks for another.
\<close>

lemma next_index_cases:
  "next_index P i t = NO_INDEX \<or> i \<le> next_index P i t \<and> next_index P i t < base_neighbor_used t
     \<and> P (base_neighbor t ! next_index P i t)"
  by (auto simp: next_index_def find_Some_iff split: option.split)

function key_switch_round :: "zdo_sec \<Rightarrow> zdo_sec \<times> secur_action list" where
  "key_switch_round s =
     (let (s1, acts) = secur_send_key_sw_next s in
      if neighbor_table_iterator s1 \<noteq> NO_INDEX
      then (case key_switch_round s1 of (s2, acts2) \<Rightarrow> (s2, filter (\<lambda>a. a \<noteq> Get_buf_for_next) acts @ acts2))
      else (s1, acts))"
  by pat_completeness auto
termination
proof (relation "measure (\<lambda>s. base_neighbor_used (neighbor (z_ctx s)) - neighbor_table_iterator s)", goal_cases)
  case (2 s p s1 acts)
  then show ?case
    using next_index_cases [of "\<lambda>e. nb_used e \<and> nb_rx_on_when_idle e" "Suc (neighbor_table_iterator s)" "neighbor (z_ctx s)"]
    by (auto simp: secur_send_key_sw_next_def Let_def zb_nwk_neighbor_next_rx_on_i_def)
qed simp

declare key_switch_round.simps [simp del]

end
