(* ===== verification/Secur_Zdo_Props.thy ===== *)
theory Secur_Zdo_Props
  imports Secur_Zdo Nwk_Secur_Props
begin

text \<open>
  Properties of the key handlers: a key switch by unicast reaches every neighbour that listens, the active key
  arrives at the child that is let in, and where a handler loses its packet buffer.
\<close>

section \<open>The round of a key switch\<close>

abbreviation listens :: "zb_neighbor_tbl \<Rightarrow> nat \<Rightarrow> bool" where
  "listens t i \<equiv> nb_used (base_neighbor t ! i) \<and> nb_rx_on_when_idle (base_neighbor t ! i)"

definition listeners :: "nat \<Rightarrow> zb_neighbor_tbl \<Rightarrow> nat list" where
  "listeners i t = filter (listens t) [i..<base_neighbor_used t]"

definition switch_request :: "zdo_sec \<Rightarrow> nat \<Rightarrow> secur_action" where
  "switch_request s i =
     Switch_key_request
       (Addr_long (zb_address_ieee_by_ref (nb_addr_ref (base_neighbor (neighbor (z_ctx s)) ! i)) (addr (z_ctx s))))
       (active_key_seq_number (z_keys s))"

lemma filter_upt_find:
  "filter P [i..<n] = (case find P [i..<n] of None \<Rightarrow> [] | Some k \<Rightarrow> k # filter P [Suc k..<n])"
proof (induction "n - i" arbitrary: i)
  case (Suc d)
  then have "[i..<n] = i # [Suc i..<n]" by (simp add: upt_conv_Cons)
  with Suc.hyps(1) [of "Suc i"] Suc.hyps(2) show ?case by (auto split: option.split)
qed simp

lemma listeners_next:
  assumes "base_neighbor_used t \<le> ZB_NEIGHBOR_TABLE_SIZE"
  shows "listeners i t =
    (let k = zb_nwk_neighbor_next_rx_on_i i t in if k = NO_INDEX then [] else k # listeners (Suc k) t)"
proof -
  have "k \<noteq> NO_INDEX" if "find (listens t) [i..<base_neighbor_used t] = Some k" for k
    using that assms by (auto simp: find_Some_iff NO_INDEX_def ZB_NEIGHBOR_TABLE_SIZE_def)
  then show ?thesis
    by (subst listeners_def, subst filter_upt_find)
      (auto simp: listeners_def zb_nwk_neighbor_next_rx_on_i_def next_index_def Let_def split: option.split)
qed

lemma sw_next:
  assumes "base_neighbor_used (neighbor (z_ctx s)) \<le> ZB_NEIGHBOR_TABLE_SIZE"
    and "secur_send_key_sw_next s = (s1, acts)"
  shows "filter (\<lambda>a. a \<noteq> Get_buf_for_next) acts = [switch_request s (neighbor_table_iterator s)]"
    "Get_buf_for_next \<in> set acts \<longleftrightarrow> neighbor_table_iterator s1 \<noteq> NO_INDEX"
    "neighbor_table_iterator s1 = zb_nwk_neighbor_next_rx_on_i (Suc (neighbor_table_iterator s)) (neighbor (z_ctx s))"
    "z_ctx s1 = z_ctx s" "z_keys s1 = z_keys s" "switch_request s1 = switch_request s"
    "neighbor_table_iterator s1 = NO_INDEX \<Longrightarrow> acts = [switch_request s (neighbor_table_iterator s)]"
  using assms(2)
  by (auto simp: secur_send_key_sw_next_def Let_def switch_request_def fun_eq_iff split: if_split_asm)

lemma key_switch_round_all:
  assumes "base_neighbor_used (neighbor (z_ctx s)) \<le> ZB_NEIGHBOR_TABLE_SIZE"
  shows "snd (key_switch_round s) =
      map (switch_request s) (neighbor_table_iterator s # listeners (Suc (neighbor_table_iterator s)) (neighbor (z_ctx s)))
    \<and> neighbor_table_iterator (fst (key_switch_round s)) = NO_INDEX
    \<and> z_keys (fst (key_switch_round s)) = z_keys s"
  using assms
proof (induction s rule: key_switch_round.induct)
  case (1 s)
  obtain s1 acts where n: "secur_send_key_sw_next s = (s1, acts)" by force
  note sw = sw_next [OF "1.prems" n]
  note L = listeners_next [OF "1.prems", of "Suc (neighbor_table_iterator s)"]
  show ?case
  proof (cases "neighbor_table_iterator s1 = NO_INDEX")
    case True
    then show ?thesis using sw L by (subst (1 2 3) key_switch_round.simps) (simp add: n Let_def)
  next
    case False
    have IH: "snd (key_switch_round s1) =
      map (switch_request s1) (neighbor_table_iterator s1 # listeners (Suc (neighbor_table_iterator s1)) (neighbor (z_ctx s1)))
      \<and> neighbor_table_iterator (fst (key_switch_round s1)) = NO_INDEX \<and> z_keys (fst (key_switch_round s1)) = z_keys s1"
      using "1.IH" [OF n [symmetric] refl] False sw "1.prems" by simp
    have "key_switch_round s = (fst (key_switch_round s1), switch_request s (neighbor_table_iterator s) # snd (key_switch_round s1))"
      using False sw by (subst key_switch_round.simps) (simp add: n split: prod.split)
    with IH sw L False show ?thesis by (simp add: Let_def)
  qed
qed

text \<open>Everything that is done by one call of the handler with the unicast address.\<close>

definition unicast_key_switch :: "u8 list \<Rightarrow> u8 \<Rightarrow> zdo_sec \<Rightarrow> zdo_sec \<times> secur_action list" where
  "unicast_key_switch rnd param s =
     (let (s1, acts) = zb_secur_send_nwk_key_switch rnd param 0 s in
      if Get_buf_for_next \<in> set acts
      then (case key_switch_round s1 of (s2, acts2) \<Rightarrow> (s2, filter (\<lambda>a. a \<noteq> Get_buf_for_next) acts @ acts2))
      else (s1, acts))"

text \<open>
  A key switch by unicast switches the own key to the next number and then comes to an end after it has sent exactly one
  request with the new number to every neighbour that is in use and listens when idle, in
  the order of the table; without such a neighbour the buffer is freed.
\<close>

theorem key_switch_reaches_every_listener:
  assumes t: "base_neighbor_used (neighbor (z_ctx s)) \<le> ZB_NEIGHBOR_TABLE_SIZE"
    and r: "unicast_key_switch rnd param s = (s2, acts)"
  shows "z_keys s2 = secur_nwk_key_switch rnd (active_key_seq_number (z_keys s) + 1) (z_keys s)
    \<and> neighbor_table_iterator s2 = NO_INDEX
    \<and> acts = (if listeners 0 (neighbor (z_ctx s)) = [] then [Free_param]
              else map (switch_request (s\<lparr>z_keys := z_keys s2\<rparr>)) (listeners 0 (neighbor (z_ctx s))))"
proof -
  define s0 where "s0 = s\<lparr>z_keys := secur_nwk_key_switch rnd (active_key_seq_number (z_keys s) + 1) (z_keys s),
                    neighbor_table_iterator := zb_nwk_neighbor_next_rx_on_i 0 (neighbor (z_ctx s))\<rparr>"
  obtain s1 acts1 where n: "secur_send_key_sw_next s0 = (s1, acts1)" by force
  have t0: "base_neighbor_used (neighbor (z_ctx s0)) \<le> ZB_NEIGHBOR_TABLE_SIZE" using t by (simp add: s0_def)
  note sw = sw_next [OF t0 n]
  note L0 = listeners_next [OF t, of 0] and L1 = listeners_next [OF t0, of "Suc (neighbor_table_iterator s0)"]
  have q: "switch_request s0 = switch_request (s\<lparr>z_keys := z_keys s0\<rparr>)" "z_ctx s0 = z_ctx s"
    by (simp_all add: s0_def switch_request_def fun_eq_iff)
  have k0: "z_keys s0 = secur_nwk_key_switch rnd (active_key_seq_number (z_keys s) + 1) (z_keys s)"
    "neighbor_table_iterator s0 = zb_nwk_neighbor_next_rx_on_i 0 (neighbor (z_ctx s))" by (simp_all add: s0_def)
  have u: "zb_secur_send_nwk_key_switch rnd param 0 s =
      (if neighbor_table_iterator s0 \<noteq> NO_INDEX then secur_send_key_sw_next s0 else (s0, [Free_param]))"
    by (simp add: zb_secur_send_nwk_key_switch_def s0_def Let_def)
  show ?thesis
  proof (cases "neighbor_table_iterator s0 = NO_INDEX")
    case True
    then have "s2 = s0" "acts = [Free_param]" using r by (simp_all add: unicast_key_switch_def u)
    with True k0 L0 show ?thesis by (simp add: Let_def)
  next
    case False
    have K: "snd (key_switch_round s1) = map (switch_request s0)
          (neighbor_table_iterator s1 # listeners (Suc (neighbor_table_iterator s1)) (neighbor (z_ctx s0)))
        \<and> neighbor_table_iterator (fst (key_switch_round s1)) = NO_INDEX \<and> z_keys (fst (key_switch_round s1)) = z_keys s0"
      using key_switch_round_all [of s1] sw t0 by simp
    have L: "listeners 0 (neighbor (z_ctx s)) =
        neighbor_table_iterator s0 # listeners (Suc (neighbor_table_iterator s0)) (neighbor (z_ctx s0))"
      using L0 False k0(2) q(2) by (simp add: Let_def)
    show ?thesis
    proof (cases "neighbor_table_iterator s1 = NO_INDEX")
      case True
      then have "s2 = s1" "acts = acts1" using r sw(2) False by (simp_all add: unicast_key_switch_def u n)
      with True sw L L1 q k0 show ?thesis by (simp add: Let_def)
    next
      case F: False
      then have "s2 = fst (key_switch_round s1)" "acts = switch_request s0 (neighbor_table_iterator s0) # snd (key_switch_round s1)"
        using r sw False by (auto simp: unicast_key_switch_def u n split: prod.split_asm)
      with F K sw L L1 q k0 show ?thesis by (simp add: Let_def)
    qed
  qed
qed

definition sample_centre :: zdo_sec where
  "sample_centre = \<lparr>z_keys = sample_keys\<lparr>is_tc := True\<rparr>, z_ctx = sample_ctx\<lparr>neighbor :=
       (neighbor sample_ctx)\<lparr>base_neighbor_used := 3,
          base_neighbor := (base_neighbor nb_zero)
            [0 := ent_zero\<lparr>nb_used := True, nb_rx_on_when_idle := True\<rparr>,
             2 := ent_zero\<lparr>nb_used := True, nb_rx_on_when_idle := True\<rparr>]\<rparr>\<rparr>,
     z_coordinator = True, allow_auth = True, key_sw = 0, neighbor_table_iterator = 0\<rparr>"

theorem key_switch_reaches_every_listener_witness:
  "\<exists>s2 acts. unicast_key_switch (replicate 16 1) 5 sample_centre = (s2, acts) \<and> length acts = 2"
proof -
  obtain s2 acts where u: "unicast_key_switch (replicate 16 1) 5 sample_centre = (s2, acts)" by force
  have l: "listeners 0 (neighbor (z_ctx sample_centre)) = [0, 2]"
    by (simp add: listeners_def sample_centre_def sample_ctx_def nb_zero_def ent_zero_def ZB_NEIGHBOR_TABLE_SIZE_def upt_rec
        numeral_2_eq_2)
  have "base_neighbor_used (neighbor (z_ctx sample_centre)) \<le> ZB_NEIGHBOR_TABLE_SIZE"
    by (simp add: sample_centre_def ZB_NEIGHBOR_TABLE_SIZE_def)
  from key_switch_reaches_every_listener [OF this u] have "length acts = 2" by (simp add: l)
  with u show ?thesis by blast
qed

section \<open>Buffers\<close>

text \<open>The actions that take the packet buffer of the handler with them.\<close>

definition takes_buffer :: "secur_action \<Rightarrow> bool" where
  "takes_buffer a \<longleftrightarrow> a \<noteq> Get_buf_for_next"

abbreviation takers :: "secur_action list \<Rightarrow> nat" where
  "takers acts \<equiv> length (filter takes_buffer acts)"

text \<open>
  Every key handler gives its packet buffer to exactly one taker, with two exceptions that lose it: handing out the
  next key when there is no key with the next number, and the report that a device
  has left which is found neither by its short nor by its long address.
\<close>

theorem handlers_that_lose_their_buffer:
  assumes i: "zb_apsme_update_device_indication left ui s = Some (s', acts)"
  shows "takers (secur_authenticate_child ji s) = 1
    \<and> takers (zb_apsme_remove_device_indication src child s) = 1
    \<and> takers (snd (zb_secur_send_nwk_key_switch rnd param dest_br s)) = 1
    \<and> takers (snd (secur_send_key_sw_next s)) = 1
    \<and> takers zb_secur_switch_nwk_key_br = 1
    \<and> takers (zb_secur_send_nwk_key_update_br dest_br s) =
        (if secur_nwk_key_by_seq (active_key_seq_number (z_keys s) + 1) (z_keys s) = None then 0 else 1)
    \<and> takers acts =
        (if ui_status ui = ZB_DEVICE_LEFT
            \<and> map_option fst (zb_address_by_short (ui_device_short_address ui) False False (addr (z_ctx s))) \<noteq> Some RET_OK
            \<and> (\<forall>ret ref g. zb_address_by_short (ui_device_short_address ui) False False (addr (z_ctx s)) = Some (ret, ref, g)
                \<longrightarrow> map_option fst (zb_address_by_ieee (ui_device_address ui) False False g) \<noteq> Some RET_OK)
         then 0 else 1)"
proof -
  have "takers acts =
        (if ui_status ui = ZB_DEVICE_LEFT
            \<and> map_option fst (zb_address_by_short (ui_device_short_address ui) False False (addr (z_ctx s))) \<noteq> Some RET_OK
            \<and> (\<forall>ret ref g. zb_address_by_short (ui_device_short_address ui) False False (addr (z_ctx s)) = Some (ret, ref, g)
                \<longrightarrow> map_option fst (zb_address_by_ieee (ui_device_address ui) False False g) \<noteq> Some RET_OK)
         then 0 else 1)"
    using i
    by (auto simp: zb_apsme_update_device_indication_def Let_def takes_buffer_def
        split: if_split_asm option.split_asm prod.split_asm)
  moreover have n: "takers (snd (secur_send_key_sw_next s)) = 1" for s
    by (simp add: secur_send_key_sw_next_def Let_def takes_buffer_def)
  moreover have "takers (snd (zb_secur_send_nwk_key_switch rnd param dest_br s)) = 1"
    using n by (simp add: zb_secur_send_nwk_key_switch_def Let_def takes_buffer_def)
  ultimately show ?thesis
    by (simp add: secur_authenticate_child_def zb_apsme_remove_device_indication_def zb_secur_switch_nwk_key_br_def
        zb_secur_send_nwk_key_update_br_def Let_def takes_buffer_def split: option.split)
qed

theorem handlers_that_lose_their_buffer_witness:
  "\<exists>s' acts. zb_apsme_update_device_indication ([], 0)
      \<lparr>ui_src_address = replicate 8 1, ui_device_address = [1, 2, 3, 4, 5, 6, 7, 8],
       ui_device_short_address = 9, ui_status = ZB_DEVICE_LEFT\<rparr>
      sample_centre = Some (s', acts) \<and> takers acts = 0"
proof -
  have a: "zb_address_by_short 9 False False addr_zero = Some (RET_NOT_FOUND, None, addr_zero)"
    by (simp add: zb_address_by_short_def short_search_def lock_if_def addr_zero_def)
  have b: "zb_address_by_ieee [1, 2, 3, 4, 5, 6, 7, 8] False False addr_zero = Some (RET_NOT_FOUND, None, addr_one)"
    using by_ieee_empty(1) [of False] by (simp add: sample_ieee_def)
  let ?u = "\<lparr>ui_src_address = replicate 8 1, ui_device_address = [1, 2, 3, 4, 5, 6, 7, 8],
      ui_device_short_address = 9, ui_status = ZB_DEVICE_LEFT\<rparr>"
  have "addr (z_ctx sample_centre) = addr_zero" by (simp add: sample_centre_def sample_ctx_def)
  then obtain s' acts where u: "zb_apsme_update_device_indication ([], 0) ?u sample_centre = Some (s', acts)"
    by (simp add: zb_apsme_update_device_indication_def a b Let_def)
  from handlers_that_lose_their_buffer [OF u] have "takers acts = 0"
    by (simp add: sample_centre_def sample_ctx_def a b)
  with u show ?thesis by blast
qed

section \<open>Letting a child in\<close>

lemma key_by_seq_active:
  "active_secur_material_i k < ZB_SECUR_N_SECUR_MATERIAL \<Longrightarrow> secur_material_set k ! active_secur_material_i k = \<lparr>sm_key = key, sm_seq = n\<rparr>
     \<Longrightarrow> secur_nwk_key_by_seq n k = Some key"
  by (simp add: secur_nwk_key_by_seq_def probe_def ZB_SECUR_N_SECUR_MATERIAL_def upt_rec)

lemma transport_to_new_child:
  assumes got: "zb_apsme_transport_key_indication True src k n c g = Some (c', g', act)"
    and "\<not> authenticated c" and child: "length (secur_material_set c) = ZB_SECUR_N_SECUR_MATERIAL"
    and key: "length k = ZB_CCM_KEY_SIZE" "\<not> secur_nwk_key_is_empty k"
  shows "act = Send_device_annce \<and> authenticated c' \<and> active_key_seq_number c' = n \<and> secur_nwk_key_by_seq n c' = Some k"
proof -
  define i where "i = (active_secur_material_i c + unat (n - active_key_seq_number c)) mod ZB_SECUR_N_SECUR_MATERIAL"
  have i: "i < ZB_SECUR_N_SECUR_MATERIAL" by (simp add: i_def ZB_SECUR_N_SECUR_MATERIAL_def)
  have "secur_material_set c' ! i = \<lparr>sm_key = k, sm_seq = n\<rparr>" "active_secur_material_i c' = i"
    "active_key_seq_number c' = n" "authenticated c'" "act = Send_device_annce"
    using got assms(2) key child i
    by (auto simp: zb_apsme_transport_key_indication_def Let_def put_key_def i_def
        split: if_split_asm option.split_asm prod.split_asm)
  with i key_by_seq_active [of c' k n] show ?thesis by simp
qed

text \<open>
  When a trust centre lets a child in that does not yet belong to the network, the key and
  the number it sends, delivered to the child, make the child an authenticated device that announces itself, with
  the centre's active key stored under the centre's active number; a child that comes back by a secured rejoin is sent
  no key, and if it is authenticated its keys stay as they are.
\<close>

theorem child_gets_the_active_key:
  assumes tc: "z_coordinator s" "is_tc (z_keys s)"
    and j: "ji = \<lparr>network_address = a, ji_extended_address = e, rejoin_network = rj, secure_rejoin = sr\<rparr>"
    and key: "length (active_key (z_keys s)) = ZB_CCM_KEY_SIZE" "\<not> secur_nwk_key_is_empty (active_key (z_keys s))"
    and child: "length (secur_material_set c) = ZB_SECUR_N_SECUR_MATERIAL"
    and sr: "sr \<in> {0, 1}"
    and sent: "secur_authenticate_child ji s = [Transport_key_request to k n p]"
    and got: "zb_apsme_transport_key_indication True src k n c g = Some (c', g', act)"
  shows "to = Addr_long e
    \<and> (if rj \<noteq> 0 \<and> sr = 0 then authenticated c \<longrightarrow> secur_material_set c' = secur_material_set c
          \<and> active_secur_material_i c' = active_secur_material_i c \<and> active_key_seq_number c' = active_key_seq_number c
       else \<not> authenticated c \<longrightarrow> act = Send_device_annce \<and> authenticated c'
          \<and> active_key_seq_number c' = active_key_seq_number (z_keys s)
          \<and> secur_nwk_key_by_seq (active_key_seq_number c') c' = Some (active_key (z_keys s)))"
proof -
  have st: "zb_secur_gen_upd_dev_status rj sr = ZB_STD_SEQ_SECURED_REJOIN \<longleftrightarrow> rj \<noteq> 0 \<and> sr = 0"
    using sr by (auto simp: zb_secur_gen_upd_dev_status_def upd_device_status_defs Let_def)
  have zero: "secur_nwk_key_is_empty (replicate ZB_CCM_KEY_SIZE 0)"
    by (simp add: secur_nwk_key_is_empty_def)
  show ?thesis
  proof (cases "rj \<noteq> 0 \<and> sr = 0")
    case True
    then have "to = Addr_long e" "k = replicate ZB_CCM_KEY_SIZE 0" "n = 0"
      using sent tc st by (simp_all add: secur_authenticate_child_def j Let_def)
    with True got zero show ?thesis
      by (auto simp: zb_apsme_transport_key_indication_def Let_def split: if_split_asm option.split_asm prod.split_asm)
  next
    case False
    then have kn: "to = Addr_long e" "k = active_key (z_keys s)" "n = active_key_seq_number (z_keys s)"
      using sent tc st by (simp_all add: secur_authenticate_child_def j Let_def split: if_split_asm)
    then show ?thesis using False transport_to_new_child [OF got _ child] key by auto
  qed
qed

theorem child_gets_the_active_key_witness:
  "\<exists>c' g'. zb_apsme_transport_key_indication True (replicate 8 1) (replicate 16 9) 0
      (sample_keys\<lparr>authenticated := False, trust_center_address := replicate 8 1\<rparr>) addr_zero
      = Some (c', g', Send_device_annce) \<and> secur_nwk_key_by_seq 0 c' = Some (replicate 16 9)"
proof -
  let ?j = "\<lparr>network_address = 3, ji_extended_address = replicate 8 2, rejoin_network = 0, secure_rejoin = 1\<rparr>"
  have k: "active_key (z_keys sample_centre) = replicate 16 9" "active_key_seq_number (z_keys sample_centre) = 0"
    "z_coordinator sample_centre" "is_tc (z_keys sample_centre)"
    by (simp_all add: active_key_def sample_centre_def sample_keys_def)
  have e: "\<not> secur_nwk_key_is_empty (replicate 16 9)" by code_simp
  have sent: "secur_authenticate_child ?j sample_centre =
      [Transport_key_request (Addr_long (replicate 8 2)) (replicate 16 9) 0 None]"
    using k by (simp add: secur_authenticate_child_def zb_secur_gen_upd_dev_status_def upd_device_status_defs)
  have l: "length (secur_material_set (sample_keys\<lparr>authenticated := False, trust_center_address := replicate 8 1\<rparr>))
      = ZB_SECUR_N_SECUR_MATERIAL"
    by (simp add: sample_keys_def ZB_SECUR_N_SECUR_MATERIAL_def)
  let ?c = "sample_keys\<lparr>authenticated := False, trust_center_address := replicate 8 1\<rparr>"
  have "trust_center_address ?c \<noteq> replicate 8 0" by (simp add: numeral_eq_Suc)
  then have "zb_apsme_transport_key_indication True (replicate 8 1) (replicate 16 9) 0 ?c addr_zero \<noteq> None"
    by (simp only: zb_apsme_transport_key_indication_def Let_def if_False option.case prod.case)
      (simp split: prod.split)
  then obtain c' g' act where t: "zb_apsme_transport_key_indication True (replicate 8 1) (replicate 16 9) 0
      ?c addr_zero = Some (c', g', act)"
    by fastforce
  have "act = Send_device_annce" "active_key_seq_number c' = 0"
      "secur_nwk_key_by_seq (active_key_seq_number c') c' = Some (replicate 16 9)"
    using child_gets_the_active_key [OF k(3,4) refl _ _ l _ sent t] k e
    by (auto simp: ZB_CCM_KEY_SIZE_def)
  with t show ?thesis by simp
qed

end
