(* ===== verification/Nwk_Tree.thy ===== *)
theory Nwk_Tree
  imports Nwk_Neighbor
begin

text \<open>
  The tree of the network: the sizes of the address blocks (\<^verbatim>\<open>nwk/nwk_address_assign.c\<close>), how a router gives a
  child an address and enters it into the tables (\<^verbatim>\<open>nwk/nwk_cr_join.c\<close>), and how a frame is routed along the
  tree (\<^verbatim>\<open>nwk/nwk_cr_tree_routing.c\<close>). A pointer to a neighbour is its index, \<open>None\<close> inside of a
  result is the null pointer, and \<open>None\<close> as result is a stop of the program.
\<close>

section \<open>State\<close>

text \<open>The depth of the node is kept with the neighbour table, as \<open>nib_depth\<close>.\<close>

record nwk_tree =
  max_depth :: u8
  max_children :: u8
  max_routers :: u8
  router_child_num :: u8
  ed_child_num :: u8
  cskip :: u16
  mac_short_address :: u16
  parent_ref :: nat
  security_level :: nat
  mac_association_permit :: bool
  nctx :: nb_ctx

section \<open>The size of address blocks\<close>

text \<open>Division as in C, towards zero.\<close>

definition c_div :: "int \<Rightarrow> int \<Rightarrow> int" where
  "c_div n d = sgn n * sgn d * (\<bar>n\<bar> div \<bar>d\<bar>)"

definition zb_nwk_daa_calc_cskip :: "nat \<Rightarrow> nwk_tree \<Rightarrow> u16" where
  "zb_nwk_daa_calc_cskip depth s =
     (let n = uint (max_depth s) - int depth - 1 in
      if max_routers s = 1 then word_of_int (1 + uint (max_children s) * n)
      else
        (let tmp = (ucast (max_routers s) :: u16) ^ nat n;
             num = 1 + uint (max_children s) - uint (max_routers s) - uint (max_children s) * uint tmp;
             den = 1 - uint (max_routers s)
         in word_of_int (c_div num den)))"

section \<open>Accepting a child\<close>

datatype mac_status = MAC_SUCCESS | MAC_OUT_OF_CAP

abbreviation cap_router :: "u8 \<Rightarrow> bool" where "cap_router c \<equiv> bit c 1"
abbreviation cap_rx_on :: "u8 \<Rightarrow> bool" where "cap_rx_on c \<equiv> bit c 3"
abbreviation cap_alloc_address :: "u8 \<Rightarrow> bool" where "cap_alloc_address c \<equiv> bit c 7"

definition ROUTER_ADDRESS_ASSIGN :: "nwk_tree \<Rightarrow> u16" where
  "ROUTER_ADDRESS_ASSIGN s = mac_short_address s + ucast (router_child_num s) * cskip s + 1"

definition ED_ADDRESS_ASSIGN :: "nwk_tree \<Rightarrow> u16" where
  "ED_ADDRESS_ASSIGN s = mac_short_address s + ucast (max_routers s) * cskip s + ucast (ed_child_num s) + 1"

text \<open>
  A device that is in the neighbour table with the same capabilities keeps its entry; with others it is
  deleted from the table.
\<close>

definition known_child :: "ieee \<Rightarrow> u8 \<Rightarrow> nwk_tree \<Rightarrow> (nat option \<times> u16 \<times> nwk_tree) option" where
  "known_child a cap s =
     (case zb_nwk_neighbor_get_by_ieee a (nctx s) of
        None \<Rightarrow> None
      | Some (ret, n, c) \<Rightarrow>
          if ret = RET_OK then
            (let e = base_neighbor (neighbor c) ! the n in
             if (nb_device_type e = DEVICE_TYPE_ROUTER) = cap_router cap \<and> cap_rx_on cap = nb_rx_on_when_idle e
             then Some (n, zb_address_short_by_ref (nb_addr_ref e) (addr c), s\<lparr>nctx := c\<rparr>)
             else
               (case zb_nwk_neighbor_delete (nb_addr_ref e) (neighbor c) of
                  None \<Rightarrow> None
                | Some (_, t) \<Rightarrow> Some (None, 0xfffe, s\<lparr>nctx := c\<lparr>neighbor := t\<rparr>\<rparr>)))
          else Some (None, 0xfffe, s\<lparr>nctx := c\<rparr>))"

definition assign_address :: "u8 \<Rightarrow> nwk_tree \<Rightarrow> mac_status \<times> u16 \<times> nwk_tree" where
  "assign_address cap s =
     (if unat (max_children s) > unat (ed_child_num s) + unat (router_child_num s)
         \<and> nib_depth (nctx s) < unat (max_depth s)
      then
        (if cap_router cap then
           (if router_child_num s < max_routers s
            then (MAC_SUCCESS, if cap_alloc_address cap then ROUTER_ADDRESS_ASSIGN s else 0xfffe,
                  s\<lparr>router_child_num := router_child_num s + 1\<rparr>)
            else (MAC_OUT_OF_CAP, 0xfffe, s))
         else (MAC_SUCCESS, if cap_alloc_address cap then ED_ADDRESS_ASSIGN s else 0xfffe,
               s\<lparr>ed_child_num := ed_child_num s + 1\<rparr>))
      else (MAC_OUT_OF_CAP, 0xfffe, s))"

text \<open>Address translation and neighbour table for a new child.\<close>

definition enter_child :: "ieee \<Rightarrow> u16 \<Rightarrow> nwk_tree \<Rightarrow> (mac_status \<times> nat option \<times> nwk_tree) option" where
  "enter_child a short s =
     (case zb_address_update a short True (addr (nctx s)) of
        None \<Rightarrow> None
      | Some (ret, ref, g) \<Rightarrow>
          (let c = (nctx s)\<lparr>addr := g\<rparr> in
           if ret = RET_OK then
             (case zb_nwk_neighbor_get (the ref) True c of
                None \<Rightarrow> None
              | Some (ret2, n, c2) \<Rightarrow>
                  if ret2 \<noteq> RET_OK
                  then map_option (\<lambda>g2. (MAC_OUT_OF_CAP, None, s\<lparr>nctx := c2\<lparr>addr := g2\<rparr>\<rparr>))
                         (zb_address_unlock (the ref) (addr c2))
                  else Some (MAC_SUCCESS, n, s\<lparr>nctx := c2\<rparr>))
           else Some (MAC_OUT_OF_CAP, None, s\<lparr>nctx := c\<rparr>)))"

definition child_entry :: "u8 \<Rightarrow> u8 \<Rightarrow> nwk_tree \<Rightarrow> zb_neighbor_tbl_ent \<Rightarrow> zb_neighbor_tbl_ent" where
  "child_entry cap lqi s e =
     e\<lparr>nb_device_type := (if cap_router cap then DEVICE_TYPE_ROUTER else DEVICE_TYPE_ED),
       nb_rx_on_when_idle := cap_rx_on cap,
       nb_relationship := (if security_level s \<noteq> 0 then RELATIONSHIP_UNAUTHENTICATED_CHILD else RELATIONSHIP_CHILD),
       nb_depth := (nib_depth (nctx s) + (if nib_depth (nctx s) < unat (max_depth s) then 1 else 0)) mod 16,
       nb_permit_joining := (if cap_router cap then nb_permit_joining e else 0),
       nb_lqi := lqi\<rparr>"

text \<open>The address is stored where the caller wants it only on success.\<close>

definition zb_nwk_accept_child ::
  "ieee \<Rightarrow> u8 \<Rightarrow> u8 \<Rightarrow> nwk_tree \<Rightarrow> (mac_status \<times> u16 option \<times> nwk_tree) option" where
  "zb_nwk_accept_child a cap lqi s =
     (case known_child a cap s of
        None \<Rightarrow> None
      | Some (known, short, s1) \<Rightarrow>
          (case (if known = None then
                   (case assign_address cap s1 of
                      (st, short, s2) \<Rightarrow>
                        if st = MAC_SUCCESS
                        then map_option (\<lambda>(st, n, s3). (st, n, short, s3)) (enter_child a short s2)
                        else Some (st, None, short, s2))
                 else Some (MAC_SUCCESS, known, short, s1)) of
             None \<Rightarrow> None
           | Some (st, n, short, s4) \<Rightarrow>
               (let s5 = (if mac_association_permit s4
                             \<and> unat (router_child_num s4) + unat (ed_child_num s4) \<ge> unat (max_children s4)
                          then s4\<lparr>mac_association_permit := False\<rparr> else s4)
                in if st = MAC_SUCCESS
                   then Some (st, Some short, s5\<lparr>nctx := upd_nb (\<lambda>t. set_base (the n)
                          (child_entry cap lqi s5 (base_neighbor t ! the n)) t) (nctx s5)\<rparr>)
                   else Some (st, None, s5))))"

text \<open>The answer to an association: the short address is \<^verbatim>\<open>~0\<close> when none was given.\<close>

definition zb_mlme_associate_indication ::
  "ieee \<Rightarrow> u8 \<Rightarrow> u8 \<Rightarrow> nwk_tree \<Rightarrow> ((ieee \<times> u16 \<times> mac_status) \<times> nwk_tree) option" where
  "zb_mlme_associate_indication a cap lqi s =
     map_option (\<lambda>(st, short, s'). ((a, case short of None \<Rightarrow> 0xffff | Some x \<Rightarrow> x, st), s'))
       (zb_nwk_accept_child a cap lqi s)"

section \<open>Routing along the tree\<close>

definition zb_nwk_tree_routing_init :: "nwk_tree \<Rightarrow> nwk_tree" where
  "zb_nwk_tree_routing_init s = s\<lparr>cskip := 0xffff\<rparr>"

text \<open>A neighbour by its short address; the search sets the clock of the address that is found.\<close>

definition neighbor_of :: "u16 \<Rightarrow> nwk_tree \<Rightarrow> (nat option \<times> nwk_tree) option" where
  "neighbor_of a s =
     (case zb_address_by_short a False False (addr (nctx s)) of
        None \<Rightarrow> None
      | Some (ret, ref, g) \<Rightarrow>
          (let s1 = s\<lparr>nctx := (nctx s)\<lparr>addr := g\<rparr>\<rparr> in
           if ret = RET_OK then
             (if the ref < length (addr_to_neighbor (neighbor (nctx s)))
              then (let n = addr_to_neighbor (neighbor (nctx s)) ! the ref
                    in Some (if n \<noteq> NO_NEIGHBOR then Some n else None, s1))
              else None)
           else Some (None, s1)))"

definition lower_address :: "nat \<Rightarrow> nwk_tree \<Rightarrow> u16" where
  "lower_address i s = cskip s * of_nat i + 1"

definition in_range :: "u16 \<Rightarrow> nat \<Rightarrow> nwk_tree \<Rightarrow> bool" where
  "in_range dest i s \<longleftrightarrow> dest > lower_address i s \<and> dest < lower_address i s + cskip s"

definition zb_nwk_tree_routing_find_router :: "u16 \<Rightarrow> nwk_tree \<Rightarrow> (nat option \<times> nwk_tree) option" where
  "zb_nwk_tree_routing_find_router dest s =
     (case neighbor_of dest s of
        None \<Rightarrow> None
      | Some (ret, s1) \<Rightarrow>
          if ret \<noteq> None then Some (ret, s1)
          else
            (case find (\<lambda>i. in_range dest i s1) [0..<unat (max_routers s1)] of
               None \<Rightarrow> Some (None, s1)
             | Some i \<Rightarrow> neighbor_of (lower_address i s1) s1))"

definition zb_nwk_tree_routing_route :: "u16 \<Rightarrow> nwk_tree \<Rightarrow> (nat option \<times> nwk_tree) option" where
  "zb_nwk_tree_routing_route dest s =
     (let d = nib_depth (nctx s);
          cskip_parent = (if d \<noteq> 0 then zb_nwk_daa_calc_cskip (d - 1) s else 0);
          route_down = (dest > mac_short_address s
                        \<and> unat dest < unat (mac_short_address s) + unat cskip_parent)
      in if mac_short_address s = 0 \<or> route_down then zb_nwk_tree_routing_find_router dest s
         else
           map_option (\<lambda>(ret, n, c). (if ret = RET_OK then n else None, s\<lparr>nctx := c\<rparr>))
             (zb_nwk_neighbor_get (parent_ref s) False (nctx s)))"

end
