(* ===== verification/Nwk_Tree_Props.thy ===== *)
theory Nwk_Tree_Props
  imports Nwk_Tree Nwk_Neighbor_Props
begin

text \<open>
  Properties of the network tree: the block sizes are those of the ZigBee specification, which
  addresses the children of a router get and when they are those of another router, what is left
  behind when a child is refused, and which frames are routed down the tree.
\<close>

section \<open>Sixteen bit arithmetic\<close>

lemma unat_of_nat16: "n < 2 ^ 16 \<Longrightarrow> unat (of_nat n :: u16) = n"
  by (simp add: unat_of_nat)

lemma unat_linear:
  assumes "unat c * i + d < 2 ^ 16"
  shows "unat ((c :: u16) * of_nat i + of_nat d) = unat c * i + d"
proof -
  have "(of_nat (unat c * i + d) :: u16) = c * of_nat i + of_nat d"
    by (simp only: of_nat_add of_nat_mult of_nat_unat ucast_id)
  with unat_of_nat16 [OF assms] show ?thesis by simp
qed

section \<open>Block sizes\<close>

text \<open>
  The size of the address block of a router with \<open>k\<close> levels below it, 3.6.1.6 of the specification as a recurrence: the
  router itself, its end devices, and the blocks of its routers.
\<close>

fun block :: "nat \<Rightarrow> nat \<Rightarrow> nat \<Rightarrow> nat" where
  "block cm rm 0 = 1"
| "block cm rm (Suc k) = 1 + (cm - rm) + rm * block cm rm k"

lemma block_pos [simp]: "0 < block cm rm k"
  by (cases k) simp_all

lemma block_one: "1 \<le> cm \<Longrightarrow> block cm 1 k = 1 + cm * k"
  by (induction k) (simp_all add: algebra_simps)

lemma block_closed:
  "rm \<le> cm \<Longrightarrow> (int rm - 1) * int (block cm rm k) = int cm * int rm ^ k - int cm + int rm - 1"
proof (induction k)
  case (Suc k)
  have "(int rm - 1) * int (block cm rm (Suc k)) =
      (int rm - 1) * (1 + int cm - int rm) + int rm * ((int rm - 1) * int (block cm rm k))"
    using Suc.prems by (simp add: of_nat_diff algebra_simps)
  then show ?case unfolding Suc.IH [OF Suc.prems] by (simp add: algebra_simps)
qed simp

lemma c_div_mult: "d \<noteq> 0 \<Longrightarrow> 0 \<le> b \<Longrightarrow> c_div (d * b) d = b"
  by (cases "b = 0") (simp_all add: c_div_def sgn_mult abs_mult)

lemma uint_power16:
  assumes "unat (r :: u8) ^ k < 2 ^ 16"
  shows "uint ((ucast r :: u16) ^ k) = int (unat r ^ k)"
proof -
  have "(of_nat (unat r ^ k) :: u16) = ucast r ^ k" by (simp only: of_nat_power of_nat_unat)
  with unat_of_nat16 [OF assms] have "unat ((ucast r :: u16) ^ k) = unat r ^ k" by simp
  then show ?thesis by (metis of_nat_unat id_apply of_int_eq_id uint_nat)
qed

lemma calc_cskip_block:
  assumes "max_routers s \<le> max_children s" "depth < unat (max_depth s)"
    and "k = unat (max_depth s) - depth - 1"
    and "unat (max_routers s) ^ k < 2 ^ 16"
    and "block (unat (max_children s)) (unat (max_routers s)) k < 2 ^ 16"
  shows "unat (zb_nwk_daa_calc_cskip depth s) = block (unat (max_children s)) (unat (max_routers s)) k"
proof -
  define cm where "cm = unat (max_children s)"
  define rm where "rm = unat (max_routers s)"
  have u: "uint (max_children s) = int cm" "uint (max_routers s) = int rm" by (simp_all add: cm_def rm_def)
  have le: "rm \<le> cm" using assms(1) by (simp add: cm_def rm_def word_le_nat_alt)
  have n: "uint (max_depth s) - int depth - 1 = int k" using assms(2,3) by (simp add: of_nat_diff)
  have p: "uint ((ucast (max_routers s) :: u16) ^ k) = int rm ^ k"
    using uint_power16 [OF assms(4)] by (simp add: rm_def)
  have "zb_nwk_daa_calc_cskip depth s = word_of_int (int (block cm rm k))"
  proof (cases "max_routers s = 1")
    case True
    then have "rm = 1" by (simp add: rm_def)
    with True le show ?thesis using block_one [of cm k] by (simp add: zb_nwk_daa_calc_cskip_def n u)
  next
    case False
    then have ne: "rm \<noteq> 1" by (simp add: rm_def word_unat_eq_iff)
    have "1 + int cm - int rm - int cm * int rm ^ k = (1 - int rm) * int (block cm rm k)"
      using block_closed [OF le, of k] by (simp add: algebra_simps)
    then show ?thesis
      using False ne c_div_mult [of "1 - int rm" "int (block cm rm k)"]
      by (simp add: zb_nwk_daa_calc_cskip_def n u p Let_def)
  qed
  then show ?thesis using unat_of_nat16 [OF assms(5)] by (simp add: cm_def rm_def)
qed

text \<open>
  C31: As long as neither the power of the number of routers nor the result passes 16 bits, the block size is the
  one of the recurrence, the division in the closed formula leaves no rest.
\<close>

theorem cskip_is_the_block_size:
  assumes "max_routers s \<le> max_children s" "depth < unat (max_depth s)"
    and "k = unat (max_depth s) - depth - 1"
    and "unat (max_routers s) ^ k < 2 ^ 16"
    and "block (unat (max_children s)) (unat (max_routers s)) k < 2 ^ 16"
  shows "unat (zb_nwk_daa_calc_cskip depth s) = block (unat (max_children s)) (unat (max_routers s)) k"
  using assms by (rule calc_cskip_block)

definition sample_tree :: nwk_tree where
  "sample_tree = \<lparr>max_depth = 5, max_children = 32, max_routers = 4, router_child_num = 0, ed_child_num = 0,
     cskip = 673, mac_short_address = 1, parent_ref = 0, security_level = 0, mac_association_permit = True,
     nctx = \<lparr>addr = addr_zero, neighbor = zb_nwk_neighbor_clear nb_zero, nib_depth = 1\<rparr>\<rparr>"

lemma sample_blocks: "block 32 4 3 = 673" "block 32 4 4 = 2721" "block 32 4 (Suc 3) = 2721" "block 32 4 (Suc (Suc 3)) = 10913" "block 32 4 5 = 10913"
  by code_simp+

text \<open>The sizes with the values the stack is built with.\<close>

theorem cskip_is_the_block_size_witness:
  "unat (zb_nwk_daa_calc_cskip 0 sample_tree) = 2721 \<and> unat (zb_nwk_daa_calc_cskip 1 sample_tree) = 673"
proof -
  have s: "max_routers sample_tree = 4" "max_children sample_tree = 32" "max_depth sample_tree = 5"
    by (simp_all add: sample_tree_def)
  have "unat (zb_nwk_daa_calc_cskip 0 sample_tree) = block (unat (max_children sample_tree)) (unat (max_routers sample_tree)) 4"
    by (rule cskip_is_the_block_size) (simp_all add: s sample_blocks)
  moreover have "unat (zb_nwk_daa_calc_cskip 1 sample_tree) = block (unat (max_children sample_tree)) (unat (max_routers sample_tree)) 3"
    by (rule cskip_is_the_block_size) (simp_all add: s sample_blocks)
  ultimately show ?thesis by (simp add: s sample_blocks)
qed

section \<open>Addresses of children\<close>

text \<open>A router at an address in a block of the given size; its own block size is set, and all addresses fit.\<close>

definition tree_router :: "nat \<Rightarrow> nwk_tree \<Rightarrow> bool" where
  "tree_router k s \<longleftrightarrow> max_routers s \<le> max_children s
     \<and> unat (cskip s) = block (unat (max_children s)) (unat (max_routers s)) k
     \<and> unat (mac_short_address s) + block (unat (max_children s)) (unat (max_routers s)) (Suc k) < 2 ^ 16"

abbreviation block_end :: "nat \<Rightarrow> nwk_tree \<Rightarrow> nat" where
  "block_end k s \<equiv> unat (mac_short_address s) + block (unat (max_children s)) (unat (max_routers s)) (Suc k)"

lemma router_address:
  assumes r: "tree_router k s" and n: "router_child_num s < max_routers s"
  shows "unat (ROUTER_ADDRESS_ASSIGN s) = unat (mac_short_address s) + unat (router_child_num s) * unat (cskip s) + 1"
    "unat (ROUTER_ADDRESS_ASSIGN s) + unat (cskip s) \<le> block_end k s"
proof -
  let ?n = "unat (router_child_num s)" and ?c = "unat (cskip s)"
  have n: "Suc ?n \<le> unat (max_routers s)" using n by (simp add: word_less_nat_alt)
  then have le: "?n * ?c + ?c \<le> unat (max_routers s) * ?c" using mult_le_mono1 [OF n, of ?c] by simp
  have "(of_nat (unat (mac_short_address s) + ?n * ?c + 1) :: u16) = ROUTER_ADDRESS_ASSIGN s"
    by (simp only: ROUTER_ADDRESS_ASSIGN_def of_nat_add of_nat_mult of_nat_unat ucast_id of_nat_1)
  moreover have "unat (mac_short_address s) + ?n * ?c + 1 < 2 ^ 16"
    using r le by (simp add: tree_router_def)
  ultimately show *: "unat (ROUTER_ADDRESS_ASSIGN s) = unat (mac_short_address s) + ?n * ?c + 1"
    using unat_of_nat16 by metis
  show "unat (ROUTER_ADDRESS_ASSIGN s) + ?c \<le> block_end k s"
    using r le by (simp add: * tree_router_def)
qed

lemma ed_address:
  assumes r: "tree_router k s" and e: "ed_child_num s < max_children s"
    and fits: "block_end k s + unat (max_routers s) < 2 ^ 16"
  shows "unat (ED_ADDRESS_ASSIGN s) + (unat (max_children s) - unat (max_routers s)) = block_end k s + unat (ed_child_num s)"
proof -
  let ?r = "unat (max_routers s)" and ?c = "unat (cskip s)"
  have e: "unat (ed_child_num s) < unat (max_children s)" using e by (simp add: word_less_nat_alt)
  have le: "?r \<le> unat (max_children s)" using r by (simp add: tree_router_def word_le_nat_alt)
  have "(of_nat (unat (mac_short_address s) + ?r * ?c + unat (ed_child_num s) + 1) :: u16) = ED_ADDRESS_ASSIGN s"
    by (simp only: ED_ADDRESS_ASSIGN_def of_nat_add of_nat_mult of_nat_unat ucast_id of_nat_1)
  moreover have "unat (mac_short_address s) + ?r * ?c + unat (ed_child_num s) + 1 < 2 ^ 16"
    using r e le fits by (simp add: tree_router_def)
  ultimately have "unat (ED_ADDRESS_ASSIGN s) = unat (mac_short_address s) + ?r * ?c + unat (ed_child_num s) + 1"
    using unat_of_nat16 by metis
  then show ?thesis using r le by (simp add: tree_router_def)
qed



text \<open>
  C33: When as many end devices have joined a router as there is room for in its block, the next one is accepted with the
  address that the parent of the router gives to the next router: two devices of the network have the same
  short address.
\<close>

theorem two_devices_with_one_address:
  assumes r: "tree_router k s" and p: "tree_router (Suc k) p"
    and same: "max_children p = max_children s" "max_routers p = max_routers s"
    and child: "unat (mac_short_address s) =
        unat (mac_short_address p) + (unat (router_child_num p) - 1) * unat (cskip p) + 1" "0 < router_child_num p"
    and d: "nib_depth (nctx s) < unat (max_depth s)" "nib_depth (nctx p) < unat (max_depth p)"
    and eds: "unat (ed_child_num s) = unat (max_children s) - unat (max_routers s)"
      "router_child_num s < max_routers s"
    and room: "router_child_num p < max_routers p"
      "unat (ed_child_num p) + unat (router_child_num p) < unat (max_children p)"
    and fits: "block_end k s + unat (max_routers s) < 2 ^ 16"
    and caps: "\<not> cap_router cap" "cap_alloc_address cap" "cap_router cap'" "cap_alloc_address cap'"
  shows "\<exists>a s' p'. assign_address cap s = (MAC_SUCCESS, a, s') \<and> assign_address cap' p = (MAC_SUCCESS, a, p')"
proof -
  have le: "unat (max_routers s) \<le> unat (max_children s)" using r by (simp add: tree_router_def word_le_nat_alt)
  have rs: "unat (router_child_num s) < unat (max_routers s)" using eds(2) by (simp add: word_less_nat_alt)
  have e: "ed_child_num s < max_children s" using eds rs le by (simp add: word_less_nat_alt)
  have n: "unat (router_child_num p) > 0" using child(2) by (simp add: word_less_nat_alt)
  have "unat (ED_ADDRESS_ASSIGN s) = block_end k s" using ed_address [OF r e fits] eds(1) by simp
  also have "\<dots> = unat (mac_short_address p) + unat (router_child_num p) * unat (cskip p) + 1"
    using child(1) n p same by (cases "unat (router_child_num p)") (simp_all add: tree_router_def)
  also have "\<dots> = unat (ROUTER_ADDRESS_ASSIGN p)" using router_address(1) [OF p room(1)] by simp
  finally have "ED_ADDRESS_ASSIGN s = ROUTER_ADDRESS_ASSIGN p" by (simp add: word_unat_eq_iff)
  moreover have "unat (ed_child_num s) + unat (router_child_num s) < unat (max_children s)"
    using eds(1) rs le by simp
  ultimately show ?thesis
    using d caps room by (simp add: assign_address_def)
qed

theorem two_devices_with_one_address_witness:
  "\<exists>a s' p'. assign_address 0x80 (sample_tree\<lparr>ed_child_num := 28\<rparr>) = (MAC_SUCCESS, a, s')
     \<and> assign_address 0x82 (sample_tree\<lparr>mac_short_address := 0, cskip := 2721, router_child_num := 1,
           nctx := (nctx sample_tree)\<lparr>nib_depth := 0\<rparr>\<rparr>) = (MAC_SUCCESS, a, p')"
proof -
  have "\<not> cap_router 0x80" "cap_alloc_address 0x80" "cap_router 0x82" "cap_alloc_address 0x82" by code_simp+
  then show ?thesis
    by (intro two_devices_with_one_address [where k = 3])
      (simp_all add: tree_router_def sample_tree_def sample_blocks del: block.simps)
qed

section \<open>Refused children\<close>

text \<open>
  When a new child is given an address but the address translation or the neighbour table has no room for it, it is refused, but
  it stays counted as a child and its address is not given out again.
\<close>

theorem refused_child_stays_counted:
  assumes new: "known_child a cap s = Some (None, x, s1)"
    and assigned: "assign_address cap s1 = (MAC_SUCCESS, short, s2)"
    and full: "enter_child a short s2 = Some (MAC_OUT_OF_CAP, n, s3)"
  shows "\<exists>s'. zb_nwk_accept_child a cap lqi s = Some (MAC_OUT_OF_CAP, None, s')
    \<and> (if cap_router cap then router_child_num s' = router_child_num s1 + 1 \<and> ed_child_num s' = ed_child_num s1
       else ed_child_num s' = ed_child_num s1 + 1 \<and> router_child_num s' = router_child_num s1)"
proof -
  have "router_child_num s3 = router_child_num s2" "ed_child_num s3 = ed_child_num s2"
    using full by (auto simp: enter_child_def Let_def split: option.split_asm prod.split_asm if_split_asm)
  moreover have "if cap_router cap then router_child_num s2 = router_child_num s1 + 1 \<and> ed_child_num s2 = ed_child_num s1
       else ed_child_num s2 = ed_child_num s1 + 1 \<and> router_child_num s2 = router_child_num s1"
    using assigned by (auto simp: assign_address_def split: if_split_asm)
  ultimately show ?thesis using assms by (simp add: zb_nwk_accept_child_def Let_def)
qed

lemma add_to_empty_lock:
  assumes "addr_add (Some c) a addr_one = (RET_OK, Some i, g')" "i < ZB_IEEE_ADDR_TABLE_SIZE"
  shows "lock_cnt (addr_map g' ! i) = 0" "length (addr_map g') = ZB_IEEE_ADDR_TABLE_SIZE"
proof -
  have t: "clock_tick addr_one = addr_one"
    by (simp add: clock_tick_def addr_one_def addr_zero_def clock_scan.simps)
  have m: "addr_map (add_short_sorted j b g) = addr_map g" for j b g
    by (simp add: add_short_sorted_def Let_def)
  have l: "\<forall>e\<in>set (addr_map addr_one). lock_cnt e = 0 \<and> \<not> am_used e" "length (addr_map addr_one) = ZB_IEEE_ADDR_TABLE_SIZE"
    by (simp_all add: addr_one_def addr_zero_def ZB_IEEE_ADDR_TABLE_SIZE_def)
  then have n: "lock_cnt (addr_map addr_one ! i) = 0 \<and> \<not> am_used (addr_map addr_one ! i)" using assms(2) by simp
  show "lock_cnt (addr_map g' ! i) = 0" "length (addr_map g') = ZB_IEEE_ADDR_TABLE_SIZE"
    using assms l n by (auto simp: addr_add_def Let_def t m upd_ent_nth split: option.split_asm if_split_asm)
qed

definition full_tree :: nwk_tree where
  "full_tree = sample_tree\<lparr>nctx := (nctx sample_tree)\<lparr>neighbor :=
     (zb_nwk_neighbor_clear nb_zero)\<lparr>base_neighbor_used := 31\<rparr>\<rparr>\<rparr>"

theorem refused_child_stays_counted_witness:
  "\<exists>s'. zb_nwk_accept_child sample_ieee 0x80 200 full_tree = Some (MAC_OUT_OF_CAP, None, s') \<and> ed_child_num s' = 1"
proof -
  define s1 where "s1 = full_tree\<lparr>nctx := (nctx full_tree)\<lparr>addr := addr_one\<rparr>\<rparr>"
  have a: "addr (nctx full_tree) = addr_zero" by (simp add: full_tree_def sample_tree_def)
  have new: "known_child sample_ieee 0x80 full_tree = Some (None, 0xfffe, s1)"
    by (simp add: known_child_def zb_nwk_neighbor_get_by_ieee_def a by_ieee_empty s1_def)
  have c: "\<not> cap_router 0x80" "cap_alloc_address 0x80" by code_simp+
  obtain s2 where assigned: "assign_address 0x80 s1 = (MAC_SUCCESS, 0xa86, s2)" and s2: "nctx s2 = nctx s1"
    by (simp add: assign_address_def c s1_def full_tree_def sample_tree_def ED_ADDRESS_ASSIGN_def)
  have "(0xa86 :: u16) \<noteq> ZB_UNKNOWN_SHORT_ADDR" by (simp add: ZB_UNKNOWN_SHORT_ADDR_def)
  from update_empty [OF compress_samples(2) this, of True]
  obtain ref g where u: "addr_add (Some sample_compressed) 0xa86 addr_one = (RET_OK, Some ref, g)"
      "ref < ZB_IEEE_ADDR_TABLE_SIZE" "zb_address_update sample_ieee 0xa86 True addr_one = lock_if True (RET_OK, Some ref, g)"
    by blast
  note l = add_to_empty_lock [OF u(1,2)]
  have n: "addr_to_neighbor (neighbor (nctx s1)) ! ref = NO_NEIGHBOR" "ref < length (addr_to_neighbor (neighbor (nctx s1)))"
    "base_neighbor_used (neighbor (nctx s1)) + 1 = base_neighbor_size (neighbor (nctx s1))" "addr (nctx s1) = addr_one"
    using u(2) by (simp_all add: s1_def full_tree_def sample_tree_def zb_nwk_neighbor_clear_def zb_nwk_neighbor_init_def
        ZB_NEIGHBOR_TABLE_SIZE_def)
  obtain n s3 where full: "enter_child sample_ieee 0xa86 s2 = Some (MAC_OUT_OF_CAP, n, s3)"
    using u(2,3) l n by (auto simp: enter_child_def s2 lock_if_def zb_address_lock_def zb_address_unlock_def
        zb_nwk_neighbor_get_def Let_def upd_ent_nth)
  have "ed_child_num s1 = 0" by (simp add: s1_def full_tree_def sample_tree_def)
  with refused_child_stays_counted [OF new assigned full, of 200] c show ?thesis by auto
qed

section \<open>Routing\<close>

lemma in_range_nat:
  assumes r: "tree_router k s" and j: "j < unat (max_routers s)"
  shows "unat (lower_address j s) = 1 + j * unat (cskip s)"
    "in_range dest j s \<longleftrightarrow> 1 + j * unat (cskip s) < unat dest \<and> unat dest < 1 + Suc j * unat (cskip s)"
proof -
  let ?c = "unat (cskip s)"
  have "Suc j * ?c \<le> unat (max_routers s) * ?c" using j by (intro mult_le_mono1) simp
  then have f: "?c * Suc j + 1 < 2 ^ 16" "?c * j + 1 < 2 ^ 16" using r by (simp_all add: tree_router_def mult.commute)
  have e: "lower_address j s = cskip s * of_nat j + of_nat 1" "lower_address j s + cskip s = cskip s * of_nat (Suc j) + of_nat 1"
    by (simp_all add: lower_address_def algebra_simps)
  have "unat (lower_address j s) = ?c * j + 1" by (simp only: e(1) unat_linear [OF f(2)])
  moreover have "unat (lower_address j s + cskip s) = ?c * Suc j + 1" by (simp only: e(2) unat_linear [OF f(1)])
  ultimately have u: "unat (lower_address j s) = ?c * j + 1" "unat (lower_address j s + cskip s) = ?c * Suc j + 1" by simp_all
  then show "unat (lower_address j s) = 1 + j * ?c" by simp
  show "in_range dest j s \<longleftrightarrow> 1 + j * ?c < unat dest \<and> unat dest < 1 + Suc j * ?c"
    by (simp only: in_range_def word_less_nat_alt u) (simp add: mult.commute)
qed

text \<open>The search answers with the only range the destination is in.\<close>

lemma range_search:
  assumes r: "tree_router k s" and i: "i < unat (max_routers s)"
    and dest: "1 + i * unat (cskip s) < unat dest" "unat dest < 1 + Suc i * unat (cskip s)"
  shows "find (\<lambda>i. in_range dest i s) [0..<unat (max_routers s)] = Some i"
proof -
  have "\<not> in_range dest j s" if "j < i" for j
  proof -
    have "Suc j * unat (cskip s) \<le> i * unat (cskip s)" using that by (intro mult_le_mono1) simp
    with in_range_nat(2) [OF r, of j] that i dest show ?thesis by simp
  qed
  then show ?thesis using in_range_nat(2) [OF r i] i dest by (auto simp: find_Some_iff)
qed

lemma neighbor_of_keeps:
  "neighbor_of a s = Some (n, s1) \<Longrightarrow> s1 = s\<lparr>nctx := nctx s1\<rparr>"
  by (auto simp: neighbor_of_def Let_def split: option.split_asm prod.split_asm if_split_asm)

lemma tree_router_nctx [simp]:
  "tree_router k (s\<lparr>nctx := c\<rparr>) = tree_router k s" "lower_address i (s\<lparr>nctx := c\<rparr>) = lower_address i s"
  by (simp_all add: tree_router_def lower_address_def)

lemma lower_of_nat: "lower_address i s = of_nat (1 + i * unat (cskip s))"
  by (simp add: lower_address_def mult.commute)

text \<open>
  At the coordinator a frame for a device that is no neighbour but lies in the block of a child router goes to
  that child, if it is a neighbour, and to nobody otherwise.
\<close>

theorem coordinator_routes_down:
  assumes r: "tree_router k s" and own: "mac_short_address s = 0"
    and no: "neighbor_of dest s = Some (None, s1)" and i: "i < unat (max_routers s)"
    and dest: "1 + i * unat (cskip s) < unat dest" "unat dest < 1 + i * unat (cskip s) + unat (cskip s)"
  shows "zb_nwk_tree_routing_route dest s = neighbor_of (of_nat (1 + i * unat (cskip s))) s1"
proof -
  obtain c where s1: "s1 = s\<lparr>nctx := c\<rparr>" using neighbor_of_keeps [OF no] by blast
  have "find (\<lambda>i. in_range dest i s1) [0..<unat (max_routers s1)] = Some i"
    using range_search [of k s1 i dest] r i dest by (simp add: s1)
  then show ?thesis
    using no own by (simp add: zb_nwk_tree_routing_route_def zb_nwk_tree_routing_find_router_def lower_of_nat s1)
qed

lemma neighbor_of_empty:
  "addr (nctx s) = addr_zero \<Longrightarrow> neighbor_of a s = Some (None, s\<lparr>nctx := (nctx s)\<lparr>addr := addr_zero\<rparr>\<rparr>)"
  by (simp add: neighbor_of_def zb_address_by_short_def short_search_def lock_if_def addr_zero_def)

definition sample_coordinator :: nwk_tree where
  "sample_coordinator = sample_tree\<lparr>mac_short_address := 0, cskip := 2721, nctx := (nctx sample_tree)\<lparr>nib_depth := 0\<rparr>\<rparr>"

theorem coordinator_routes_down_witness:
  "zb_nwk_tree_routing_route 3000 sample_coordinator = neighbor_of 2722 sample_coordinator"
proof -
  have r: "tree_router 4 sample_coordinator"
    by (simp add: tree_router_def sample_coordinator_def sample_tree_def sample_blocks del: block.simps)
  have n: "neighbor_of 3000 sample_coordinator = Some (None, sample_coordinator)"
    using neighbor_of_empty [of sample_coordinator 3000] by (simp add: sample_coordinator_def sample_tree_def)
  have c: "mac_short_address sample_coordinator = 0" "unat (cskip sample_coordinator) = 2721"
      "unat (max_routers sample_coordinator) = 4"
    by (simp_all add: sample_coordinator_def sample_tree_def)
  show ?thesis using coordinator_routes_down [OF r c(1) n, of 1] by (simp add: c)
qed

text \<open>
  A child router of the coordinator does not find the way down. For a device that is no neighbour and lies in the
  block of one of its own child routers, a router that is not the first gives no next hop at all; the first one, with address 1, looks
  for a neighbour whose address is one less than the one of the child, or for none.
\<close>

theorem routers_do_not_route_down:
  assumes r: "tree_router k s" and c1: "1 < unat (cskip s)"
    and own: "unat (mac_short_address s) = 1 + m * block (unat (max_children s)) (unat (max_routers s)) (Suc k)"
    and depth: "nib_depth (nctx s) = 1"
      "unat (zb_nwk_daa_calc_cskip 0 s) = block (unat (max_children s)) (unat (max_routers s)) (Suc k)"
    and no: "neighbor_of dest s = Some (None, s1)" and i: "i < unat (max_routers s)"
    and child: "child = unat (mac_short_address s) + 1 + i * unat (cskip s)"
    and dest: "child < unat dest" "unat dest < child + unat (cskip s)"
  shows "zb_nwk_tree_routing_route dest s =
    (if 0 < m \<or> unat dest = child + unat (cskip s) - 1 then Some (None, s1) else neighbor_of (of_nat (child - 1)) s1)"
proof -
  let ?c = "unat (cskip s)" and ?P = "block (unat (max_children s)) (unat (max_routers s)) (Suc k)"
  obtain c where s1: "s1 = s\<lparr>nctx := c\<rparr>" using neighbor_of_keeps [OF no] by blast
  have le: "Suc i * ?c \<le> unat (max_routers s) * ?c" using i by (intro mult_le_mono1) simp
  have P: "unat (max_routers s) * ?c < ?P" using r by (simp add: tree_router_def)
  have down: "dest > mac_short_address s" "unat dest < unat (mac_short_address s) + ?P"
    using child dest le P by (simp_all add: word_less_nat_alt)
  then have route: "zb_nwk_tree_routing_route dest s =
      (case find (\<lambda>i. in_range dest i s) [0..<unat (max_routers s)] of
         None \<Rightarrow> Some (None, s1) | Some i \<Rightarrow> neighbor_of (lower_address i s) s1)"
    using no depth by (simp add: zb_nwk_tree_routing_route_def zb_nwk_tree_routing_find_router_def s1 in_range_def
        cong: option.case_cong)
  show ?thesis
  proof (cases "0 < m \<or> unat dest = child + ?c - 1")
    case True
    have "\<not> in_range dest j s" if j: "j < unat (max_routers s)" for j
    proof -
      have "Suc j * ?c \<le> unat (max_routers s) * ?c" using j by (intro mult_le_mono1) simp
      then have "\<not> unat dest < 1 + Suc j * ?c" if "0 < m"
        using that own child dest P mult_le_mono1 [of 1 m ?P] by simp
      moreover have "\<not> (1 + j * ?c < 1 + Suc i * ?c \<and> 1 + Suc i * ?c < 1 + Suc j * ?c)"
        using mult_less_cancel2 [of j ?c "Suc i"] mult_less_cancel2 [of "Suc i" ?c "Suc j"] by linarith
      then have "\<not> in_range dest j s" if "m = 0" "unat dest = child + ?c - 1"
        using that own child c1 by (simp add: in_range_nat [OF r j] add.commute)
      ultimately show ?thesis using True in_range_nat(2) [OF r j] by blast
    qed
    then have "find (\<lambda>i. in_range dest i s) [0..<unat (max_routers s)] = None" by (simp add: find_None_iff)
    with route True show ?thesis by simp
  next
    case False
    then have "m = 0" "unat dest \<noteq> child + ?c - 1" by auto
    then have "1 + i * ?c < unat dest" "unat dest < 1 + Suc i * ?c" "child - 1 = 1 + i * ?c"
      using own child dest by simp_all
    with range_search [OF r i, of dest] route False show ?thesis by (simp add: lower_of_nat)
  qed
qed

theorem routers_do_not_route_down_witness:
  "zb_nwk_tree_routing_route 700 sample_tree = neighbor_of 674 sample_tree"
proof -
  have r: "tree_router 3 sample_tree" by (simp add: tree_router_def sample_tree_def sample_blocks del: block.simps)
  have n: "neighbor_of 700 sample_tree = Some (None, sample_tree)"
    using neighbor_of_empty [of sample_tree 700] by (simp add: sample_tree_def)
  have c: "unat (mac_short_address sample_tree) = 1" "unat (cskip sample_tree) = 673"
      "unat (max_routers sample_tree) = 4" "unat (max_children sample_tree) = 32" "nib_depth (nctx sample_tree) = 1"
    by (simp_all add: sample_tree_def)
  have t: "max_routers sample_tree = 4" "max_children sample_tree = 32" "max_depth sample_tree = 5"
    by (simp_all add: sample_tree_def)
  have "unat (zb_nwk_daa_calc_cskip 0 sample_tree) = block (unat (max_children sample_tree)) (unat (max_routers sample_tree)) 4"
    by (rule calc_cskip_block) (simp_all add: t sample_blocks)
  then have p: "unat (zb_nwk_daa_calc_cskip 0 sample_tree) = 2721" by (simp add: t sample_blocks)
  show ?thesis
    using routers_do_not_route_down [OF r _ _ c(5) _ n, of 0 1 675] by (simp add: c p sample_blocks del: block.simps)
qed

end
