(* ===== verification/Nwk_Mesh.thy ===== *)
theory Nwk_Mesh
  imports Nwk_Tree Zb_Time
begin

text \<open>
  Routing in the mesh: \<^verbatim>\<open>nwk/nwk_cr_mesh_routing.c\<close> and \<^verbatim>\<open>nwk/nwk_cr_route_discovery.c\<close>. Routes are found by
  route requests, which are broadcast from node to node, and route replies, which come back along the nodes that passed
  the request on. Every node keeps a routing table, a table of the discoveries under way and
  a table of the frames that wait for a route. What a handler does with its packet buffer, and what it asks others to
  do, is the list of actions that it returns beside the new state, in the order of the code. A pointer into a table is its index.
\<close>

section \<open>Arrays of entries with a used bit\<close>

text \<open>
  The macros of \<^verbatim>\<open>nwk/nwk_internal.h\<close>. \<open>used\<close> reads the bit of an entry and \<open>mark\<close> sets it; \<open>cnt\<close> counts the used
  entries.
\<close>

definition nwk_array_find_ent :: "('a \<Rightarrow> bool) \<Rightarrow> (nat \<Rightarrow> 'a \<Rightarrow> bool) \<Rightarrow> 'a list \<Rightarrow> nat option" where
  "nwk_array_find_ent used P xs = find (\<lambda>i. used (xs ! i) \<and> P i (xs ! i)) [0..<length xs]"

definition nwk_array_get_ent ::
  "('a \<Rightarrow> bool) \<Rightarrow> (bool \<Rightarrow> 'a \<Rightarrow> 'a) \<Rightarrow> 'a list \<Rightarrow> u8 \<Rightarrow> nat option \<times> 'a list \<times> u8" where
  "nwk_array_get_ent used mark xs cnt =
     (case find (\<lambda>i. \<not> used (xs ! i)) [0..<length xs] of
        None \<Rightarrow> (None, xs, cnt)
      | Some i \<Rightarrow> (Some i, xs[i := mark True (xs ! i)], cnt + 1))"

definition nwk_array_put_ent :: "(bool \<Rightarrow> 'a \<Rightarrow> 'a) \<Rightarrow> nat \<Rightarrow> 'a list \<Rightarrow> u8 \<Rightarrow> 'a list \<times> u8" where
  "nwk_array_put_ent mark i xs cnt = (xs[i := mark False (xs ! i)], cnt - 1)"

section \<open>Tables\<close>

definition ZB_NWK_ROUTING_TABLE_SIZE :: nat where "ZB_NWK_ROUTING_TABLE_SIZE = 5"
definition ZB_NWK_ROUTE_DISCOVERY_TABLE_SIZE :: nat where "ZB_NWK_ROUTE_DISCOVERY_TABLE_SIZE = 5"
definition ZB_NWK_PENDING_TABLE_SIZE :: nat where "ZB_NWK_PENDING_TABLE_SIZE = 5"
definition ZB_NWK_ROUTE_DISCOVERY_EXPIRY :: nat where "ZB_NWK_ROUTE_DISCOVERY_EXPIRY = 10"
definition ZB_NWK_PENDING_ENTRY_EXPIRY :: nat where "ZB_NWK_PENDING_ENTRY_EXPIRY = 20"
definition ZB_NWK_STATIC_PATH_COST :: u8 where "ZB_NWK_STATIC_PATH_COST = 7"
definition ZB_NWK_EXPIRY_ROUTE_DISCOVERY :: zb_time where "ZB_NWK_EXPIRY_ROUTE_DISCOVERY = 2 * of_nat ZB_TIME_ONE_SECOND"
definition ZB_NWK_EXPIRY_PENDING :: zb_time where "ZB_NWK_EXPIRY_PENDING = 5 * of_nat ZB_TIME_ONE_SECOND"

datatype zb_nwk_route_state =
    ROUTE_ACTIVE | ROUTE_DISCOVERY_UNDERWAY | ROUTE_DISCOVERY_FAILED | ROUTE_DISCOVERY_INACTIVE
  | ROUTE_VALIDATION_UNDERWAY

text \<open>The bits for routes to concentrators and groups are never read or written and left out.\<close>

record zb_nwk_routing =
  rt_used :: bool
  rt_status :: zb_nwk_route_state
  rt_dest_addr :: u16
  rt_next_hop_addr :: u16

record zb_nwk_route_discovery =
  rd_used :: bool
  rd_request_id :: u8
  rd_source_addr :: u16
  rd_sender_addr :: u16
  rd_dest_addr :: u16
  rd_forward_cost :: u8
  rd_residual_cost :: u8
  rd_expiration_time :: nat

record zb_nwk_pend =
  pd_used :: bool
  pd_buf :: nat
  pd_handle :: u8
  pd_dest_addr :: u16
  pd_expiry :: nat
  pd_waiting_buf :: bool

abbreviation rt_mark :: "bool \<Rightarrow> zb_nwk_routing \<Rightarrow> zb_nwk_routing" where "rt_mark b e \<equiv> e\<lparr>rt_used := b\<rparr>"
abbreviation rd_mark :: "bool \<Rightarrow> zb_nwk_route_discovery \<Rightarrow> zb_nwk_route_discovery" where "rd_mark b e \<equiv> e\<lparr>rd_used := b\<rparr>"
abbreviation pd_mark :: "bool \<Rightarrow> zb_nwk_pend \<Rightarrow> zb_nwk_pend" where "pd_mark b e \<equiv> e\<lparr>pd_used := b\<rparr>"

text \<open>
  The state of a node. \<open>tree\<close> holds its address, its depth limit, its neighbours and the address translation;
  \<open>buf_dst\<close> is the destination in the network header of a packet buffer; \<open>status_ind_addr\<close> is the address
  that the next status indication is about.
\<close>

record nwk_mesh =
  tree :: nwk_tree
  routing_table :: "zb_nwk_routing list"
  routing_table_cnt :: u8
  route_disc_table :: "zb_nwk_route_discovery list"
  route_disc_table_cnt :: u8
  rreq_id :: u8
  pending_table :: "zb_nwk_pend list"
  pending_table_cnt :: u8
  aps_rreq_addr :: u16
  nwk_report_constant_cost :: bool
  device_type :: zb_nwk_device_type
  sequence_number :: u8
  secure_frames :: bool
  status_ind_addr :: u16
  buf_dst :: "nat \<Rightarrow> u16"

abbreviation network_addr :: "nwk_mesh \<Rightarrow> u16" where "network_addr s \<equiv> mac_short_address (tree s)"

definition upd_tree :: "(nwk_tree \<Rightarrow> nwk_tree) \<Rightarrow> nwk_mesh \<Rightarrow> nwk_mesh" where
  "upd_tree f s = s\<lparr>tree := f (tree s)\<rparr>"

definition set_routing :: "nat \<Rightarrow> zb_nwk_routing \<Rightarrow> nwk_mesh \<Rightarrow> nwk_mesh" where
  "set_routing i e s = s\<lparr>routing_table := (routing_table s)[i := e]\<rparr>"

definition set_disc :: "nat \<Rightarrow> zb_nwk_route_discovery \<Rightarrow> nwk_mesh \<Rightarrow> nwk_mesh" where
  "set_disc i e s = s\<lparr>route_disc_table := (route_disc_table s)[i := e]\<rparr>"

definition set_pend :: "nat \<Rightarrow> zb_nwk_pend \<Rightarrow> nwk_mesh \<Rightarrow> nwk_mesh" where
  "set_pend i e s = s\<lparr>pending_table := (pending_table s)[i := e]\<rparr>"

definition get_routing :: "nwk_mesh \<Rightarrow> nat option \<times> nwk_mesh" where
  "get_routing s = (case nwk_array_get_ent rt_used rt_mark (routing_table s) (routing_table_cnt s) of
     (i, t, c) \<Rightarrow> (i, s\<lparr>routing_table := t, routing_table_cnt := c\<rparr>))"

definition put_routing :: "nat \<Rightarrow> nwk_mesh \<Rightarrow> nwk_mesh" where
  "put_routing i s = (case nwk_array_put_ent rt_mark i (routing_table s) (routing_table_cnt s) of
     (t, c) \<Rightarrow> s\<lparr>routing_table := t, routing_table_cnt := c\<rparr>)"

definition get_disc :: "nwk_mesh \<Rightarrow> nat option \<times> nwk_mesh" where
  "get_disc s = (case nwk_array_get_ent rd_used rd_mark (route_disc_table s) (route_disc_table_cnt s) of
     (i, t, c) \<Rightarrow> (i, s\<lparr>route_disc_table := t, route_disc_table_cnt := c\<rparr>))"

definition put_disc :: "nat \<Rightarrow> nwk_mesh \<Rightarrow> nwk_mesh" where
  "put_disc i s = (case nwk_array_put_ent rd_mark i (route_disc_table s) (route_disc_table_cnt s) of
     (t, c) \<Rightarrow> s\<lparr>route_disc_table := t, route_disc_table_cnt := c\<rparr>)"

definition get_pend :: "nwk_mesh \<Rightarrow> nat option \<times> nwk_mesh" where
  "get_pend s = (case nwk_array_get_ent pd_used pd_mark (pending_table s) (pending_table_cnt s) of
     (i, t, c) \<Rightarrow> (i, s\<lparr>pending_table := t, pending_table_cnt := c\<rparr>))"

definition put_pend :: "nat \<Rightarrow> nwk_mesh \<Rightarrow> nwk_mesh" where
  "put_pend i s = (case nwk_array_put_ent pd_mark i (pending_table s) (pending_table_cnt s) of
     (t, c) \<Rightarrow> s\<lparr>pending_table := t, pending_table_cnt := c\<rparr>)"

section \<open>Frames and actions\<close>

text \<open>
  The fields of a network header that the handlers use, the two commands, and the frames that are built from them. The
  cost is a signed byte in one command and an unsigned one in the other, which makes no difference to a sum of bytes.
\<close>

record nwk_hdr =
  h_src_addr :: u16
  h_dst_addr :: u16
  h_radius :: u8
  h_seq_num :: u8
  h_secure :: bool

record zb_nwk_cmd_rreq =
  rq_rreq_id :: u8
  rq_dest_addr :: u16
  rq_path_cost :: u8

record zb_nwk_cmd_rrep =
  rp_rreq_id :: u8
  rp_originator :: u16
  rp_responder :: u16
  rp_path_cost :: u8

datatype zb_nwk_status = NWK_STATUS_SUCCESS | NWK_STATUS_INVALID_REQUEST | NWK_STATUS_ROUTE_ERROR

datatype mesh_callback = Initiate_route_discovery | Route_disc_failed

datatype mesh_alarm = Expiry_route_disc | Expiry_pending

text \<open>
  Frames go to \<^verbatim>\<open>zb_nwk_forward\<close>. A confirm carries the status of the buffer and the one in the answer.
\<close>

datatype mesh_action =
    Send_rreq nat nwk_hdr zb_nwk_cmd_rreq
  | Send_rrep nat nwk_hdr zb_nwk_cmd_rrep
  | Forward_pending nat u8
  | Route_discovery_confirm nat zb_nwk_status u8
  | Status_indication nat u8 u16
  | Free_buf nat
  | Get_out_buf_delayed mesh_callback
  | Set_alarm mesh_alarm zb_time
  | Cancel_alarm mesh_alarm

definition COMMAND_STATUS_NO_ROUTE_AVAILABLE :: u8 where "COMMAND_STATUS_NO_ROUTE_AVAILABLE = 0"

text \<open>The source of a received frame, or the own address for a buffer without a MAC header.\<close>

definition nwk_get_mac_source_addr :: "u16 option \<Rightarrow> nwk_mesh \<Rightarrow> u16" where
  "nwk_get_mac_source_addr mac_src s = (case mac_src of Some a \<Rightarrow> a | None \<Rightarrow> network_addr s)"

text \<open>\<^verbatim>\<open>nwk_alloc_and_fill_hdr\<close> for a command without long addresses: a new header takes the next sequence number.\<close>

definition cmd_hdr :: "u16 \<Rightarrow> nwk_mesh \<Rightarrow> nwk_hdr \<times> nwk_mesh" where
  "cmd_hdr dst s =
     (\<lparr>h_src_addr = network_addr s, h_dst_addr = dst, h_radius = 1, h_seq_num = sequence_number s,
       h_secure = secure_frames s\<rparr>, s\<lparr>sequence_number := sequence_number s + 1\<rparr>)"

definition ZB_NWK_BROADCAST_ROUTER_COORDINATOR :: u16 where "ZB_NWK_BROADCAST_ROUTER_COORDINATOR = 0xfffc"

definition zb_nwk_mesh_send_rreq ::
  "nat \<Rightarrow> zb_nwk_cmd_rreq \<Rightarrow> u16 \<Rightarrow> u8 \<Rightarrow> u8 \<Rightarrow> u8 \<Rightarrow> nwk_mesh \<Rightarrow> nwk_mesh \<times> mesh_action list" where
  "zb_nwk_mesh_send_rreq cbuf cmd src_addr seq_num path_cost radius s =
     (case cmd_hdr ZB_NWK_BROADCAST_ROUTER_COORDINATOR s of
        (h, s1) \<Rightarrow>
          (let h1 = h\<lparr>h_radius := radius, h_src_addr := src_addr\<rparr>;
               h2 = (if src_addr \<noteq> network_addr s1 then h1\<lparr>h_seq_num := seq_num\<rparr> else h1)
           in (s1, [Send_rreq cbuf h2 (cmd\<lparr>rq_path_cost := path_cost\<rparr>)])))"

definition zb_nwk_mesh_send_rrep ::
  "nat \<Rightarrow> u8 \<Rightarrow> u16 \<Rightarrow> u16 \<Rightarrow> u8 \<Rightarrow> u16 \<Rightarrow> nwk_mesh \<Rightarrow> nwk_mesh \<times> mesh_action list" where
  "zb_nwk_mesh_send_rrep cbuf rreq originator responder path_cost sender_addr s =
     (case cmd_hdr sender_addr s of
        (h, s1) \<Rightarrow>
          (s1, [Send_rrep cbuf (h\<lparr>h_radius := push_bit 1 (max_depth (tree s1))\<rparr>)
                  \<lparr>rp_rreq_id = rreq, rp_originator = originator, rp_responder = responder, rp_path_cost = path_cost\<rparr>]))"

section \<open>The cost of a link\<close>

function lqi_steps :: "nat \<Rightarrow> u8 \<Rightarrow> nat" where
  "lqi_steps i lqi = (if 32 * (i + 1) < unat lqi then lqi_steps (i + 1) lqi else i)"
  by pat_completeness auto
termination by (relation "measure (\<lambda>(i, lqi). unat lqi - 32 * i)") auto

declare lqi_steps.simps [simp del]

definition lqi_cost :: "u8 \<Rightarrow> u8" where
  "lqi_cost lqi = (let i = int (lqi_steps 0 lqi) in word_of_int (if 7 - i \<noteq> 0 then 7 - i else 1))"

definition nwk_calc_path_cost :: "u16 \<Rightarrow> nwk_mesh \<Rightarrow> (u8 \<times> nwk_mesh) option" where
  "nwk_calc_path_cost src s =
     (if \<not> nwk_report_constant_cost s then
        (case zb_nwk_neighbor_get_by_short src (nctx (tree s)) of
           None \<Rightarrow> None
         | Some (ret, n, c) \<Rightarrow>
             (let s1 = upd_tree (\<lambda>t. t\<lparr>nctx := c\<rparr>) s in
              if ret = RET_OK then Some (lqi_cost (nb_lqi (base_neighbor (neighbor c) ! the n)), s1)
              else if src = network_addr s then Some (0, s1)
              else Some (ZB_NWK_STATIC_PATH_COST, s1)))
      else Some (ZB_NWK_STATIC_PATH_COST, s))"

section \<open>Route requests\<close>

definition find_route :: "u16 \<Rightarrow> nwk_mesh \<Rightarrow> nat option" where
  "find_route dest s = nwk_array_find_ent rt_used (\<lambda>i e. rt_dest_addr e = dest) (routing_table s)"

definition find_disc :: "u8 \<Rightarrow> u16 \<Rightarrow> nwk_mesh \<Rightarrow> nat option" where
  "find_disc req src s =
     nwk_array_find_ent rd_used (\<lambda>i e. rd_request_id e = req \<and> rd_source_addr e = src) (route_disc_table s)"

text \<open>The routing entry of a request: a route that is in use or about to be used keeps its state.\<close>

definition rreq_routing :: "u16 \<Rightarrow> nwk_mesh \<Rightarrow> zb_ret \<times> nat option \<times> nwk_mesh" where
  "rreq_routing dest s =
     (case find_route dest s of
        Some i \<Rightarrow>
          (let e = routing_table s ! i in
           (RET_OK, Some i,
            if rt_status e \<noteq> ROUTE_ACTIVE \<and> rt_status e \<noteq> ROUTE_VALIDATION_UNDERWAY
            then set_routing i (e\<lparr>rt_status := ROUTE_DISCOVERY_UNDERWAY\<rparr>) s else s))
      | None \<Rightarrow>
          (case get_routing s of
             (Some i, s1) \<Rightarrow>
               (RET_OK, Some i, set_routing i ((routing_table s1 ! i)\<lparr>rt_dest_addr := dest,
                  rt_status := ROUTE_DISCOVERY_UNDERWAY\<rparr>) s1)
           | (None, s1) \<Rightarrow> (RET_NO_MEMORY, None, s1)))"

text \<open>The discovery entry, and whether the request goes on.\<close>

definition rreq_disc ::
  "u16 option \<Rightarrow> nwk_hdr \<Rightarrow> zb_nwk_cmd_rreq \<Rightarrow> u8 \<Rightarrow> nwk_mesh \<Rightarrow> zb_ret \<times> bool \<times> nat option \<times> nwk_mesh" where
  "rreq_disc mac_src hdr cmd path_cost s =
     (case find_disc (rq_rreq_id cmd) (h_src_addr hdr) s of
        Some i \<Rightarrow>
          (let e = route_disc_table s ! i in
           if path_cost < rd_forward_cost e
           then (RET_OK, True, Some i, set_disc i (e\<lparr>rd_sender_addr := nwk_get_mac_source_addr mac_src s,
                  rd_forward_cost := path_cost\<rparr>) s)
           else (RET_OK, False, Some i, s))
      | None \<Rightarrow>
          (case get_disc s of
             (Some i, s1) \<Rightarrow>
               (RET_OK, True, Some i, set_disc i ((route_disc_table s1 ! i)
                 \<lparr>rd_request_id := rq_rreq_id cmd, rd_source_addr := h_src_addr hdr,
                  rd_sender_addr := nwk_get_mac_source_addr mac_src s1, rd_dest_addr := rq_dest_addr cmd,
                  rd_forward_cost := path_cost, rd_residual_cost := 0xff,
                  rd_expiration_time := ZB_NWK_ROUTE_DISCOVERY_EXPIRY\<rparr>) s1)
           | (None, s1) \<Rightarrow> (RET_NO_MEMORY, False, None, s1)))"

text \<open>The answer, for the node itself and its neighbours, or the same request with the new cost.\<close>

definition rreq_respond ::
  "nat \<Rightarrow> u16 option \<Rightarrow> nwk_hdr \<Rightarrow> zb_nwk_cmd_rreq \<Rightarrow> u8 \<Rightarrow> nwk_mesh \<Rightarrow> (nwk_mesh \<times> mesh_action list) option" where
  "rreq_respond buf mac_src hdr cmd path_cost s =
     (let reply = (\<lambda>s. zb_nwk_mesh_send_rrep buf (rq_rreq_id cmd) (h_src_addr hdr) (rq_dest_addr cmd) path_cost
            (nwk_get_mac_source_addr mac_src s) s) in
      if rq_dest_addr cmd = network_addr s then Some (reply s)
      else
        (case zb_nwk_neighbor_get_by_short (rq_dest_addr cmd) (nctx (tree s)) of
           None \<Rightarrow> None
         | Some (ret, n, c) \<Rightarrow>
             (let s1 = upd_tree (\<lambda>t. t\<lparr>nctx := c\<rparr>) s in
              if ret = RET_OK then Some (reply s1)
              else Some (zb_nwk_mesh_send_rreq buf cmd (h_src_addr hdr) (h_seq_num hdr) path_cost (h_radius hdr) s1))))"

text \<open>After an error the entries are given back, also a routing entry that was there before.\<close>

definition rreq_failed ::
  "nat \<Rightarrow> nat option \<Rightarrow> nat option \<Rightarrow> zb_nwk_cmd_rreq \<Rightarrow> nwk_mesh \<Rightarrow> nwk_mesh \<times> mesh_action list" where
  "rreq_failed buf disc_ent routing_ent cmd s =
     (let s1 = (case disc_ent of Some i \<Rightarrow> put_disc i s | None \<Rightarrow> s);
          s2 = (case routing_ent of Some i \<Rightarrow> put_routing i s1 | None \<Rightarrow> s1)
      in (s2, if aps_rreq_addr s2 \<noteq> 0 \<and> aps_rreq_addr s2 = rq_dest_addr cmd
              then [Route_discovery_confirm buf NWK_STATUS_ROUTE_ERROR COMMAND_STATUS_NO_ROUTE_AVAILABLE]
              else [Free_buf buf]))"

definition zb_nwk_mesh_rreq_handler ::
  "nat \<Rightarrow> u16 option \<Rightarrow> nwk_hdr \<Rightarrow> zb_nwk_cmd_rreq \<Rightarrow> nwk_mesh \<Rightarrow> (nwk_mesh \<times> mesh_action list) option" where
  "zb_nwk_mesh_rreq_handler buf mac_src hdr cmd s =
     (case nwk_calc_path_cost (h_src_addr hdr) s of
        None \<Rightarrow> None
      | Some (c, s1) \<Rightarrow>
          (let path_cost = c + rq_path_cost cmd in
           case rreq_routing (rq_dest_addr cmd) s1 of
             (ret, routing_ent, s2) \<Rightarrow>
               if ret \<noteq> RET_OK then Some (rreq_failed buf None routing_ent cmd s2)
               else
                 (case rreq_disc mac_src hdr cmd path_cost s2 of
                    (ret, go_on, disc_ent, s3) \<Rightarrow>
                      if ret \<noteq> RET_OK then Some (rreq_failed buf disc_ent routing_ent cmd s3)
                      else if go_on then rreq_respond buf mac_src hdr cmd path_cost s3
                      else Some (s3, [Free_buf buf]))))"

text \<open>A node starts a discovery by handling a request of its own, in a buffer without a MAC header.\<close>

definition zb_nwk_mesh_route_discovery ::
  "nat option \<Rightarrow> u16 \<Rightarrow> u8 \<Rightarrow> nwk_mesh \<Rightarrow> (nwk_mesh \<times> mesh_action list) option" where
  "zb_nwk_mesh_route_discovery cbuf dest radius s =
     (case cbuf of
        Some buf \<Rightarrow>
          (let s1 = s\<lparr>rreq_id := rreq_id s + 1\<rparr> in
           zb_nwk_mesh_rreq_handler buf None
             \<lparr>h_src_addr = network_addr s1, h_dst_addr = 0,
              h_radius = (if radius \<noteq> 0 then radius else push_bit 1 (max_depth (tree s1))), h_seq_num = 0, h_secure = False\<rparr>
             \<lparr>rq_rreq_id = rreq_id s1, rq_dest_addr = dest, rq_path_cost = 0\<rparr> s1)
      | None \<Rightarrow> Some (s, [Get_out_buf_delayed Initiate_route_discovery]))"

text \<open>The buffer that was asked for has come; without a frame that waits for it the program stops.\<close>

definition zb_nwk_mesh_initiate_route_discovery :: "nat \<Rightarrow> nwk_mesh \<Rightarrow> (nwk_mesh \<times> mesh_action list) option" where
  "zb_nwk_mesh_initiate_route_discovery param s =
     (case nwk_array_find_ent pd_used (\<lambda>i. pd_waiting_buf) (pending_table s) of
        Some i \<Rightarrow>
          (case zb_nwk_mesh_route_discovery (Some param) (buf_dst s (pd_buf (pending_table s ! i))) 0 s of
             None \<Rightarrow> None
           | Some (s1, acts) \<Rightarrow> Some (set_pend i ((pending_table s1 ! i)\<lparr>pd_waiting_buf := False\<rparr>) s1, acts))
      | None \<Rightarrow> None)"

section \<open>Route replies\<close>

text \<open>The frames that wait for a destination are sent, in the order of the table.\<close>

fun send_pending :: "nat list \<Rightarrow> u16 \<Rightarrow> nwk_mesh \<Rightarrow> nwk_mesh \<times> mesh_action list" where
  "send_pending [] dest s = (s, [])"
| "send_pending (i # is) dest s =
     (let e = pending_table s ! i in
      if pd_used e \<and> pd_dest_addr e = dest
      then (case send_pending is dest (put_pend i s) of (s1, acts) \<Rightarrow> (s1, Forward_pending (pd_buf e) (pd_handle e) # acts))
      else send_pending is dest s)"

text \<open>The buffer of a reply to the own request is freed, also when the confirm was given it.\<close>

definition rrep_arrived :: "nat \<Rightarrow> u16 \<Rightarrow> nwk_mesh \<Rightarrow> nwk_mesh \<times> mesh_action list" where
  "rrep_arrived buf dest s =
     (case send_pending [0..<ZB_NWK_PENDING_TABLE_SIZE] dest s of
        (s1, acts) \<Rightarrow>
          if aps_rreq_addr s1 = dest
          then (s1\<lparr>aps_rreq_addr := - 1\<rparr>, acts @ [Route_discovery_confirm buf NWK_STATUS_SUCCESS 0xff, Free_buf buf])
          else (s1, acts @ [Free_buf buf]))"

definition zb_nwk_mesh_rrep_handler ::
  "nat \<Rightarrow> u16 option \<Rightarrow> nwk_hdr \<Rightarrow> zb_nwk_cmd_rrep \<Rightarrow> nwk_mesh \<Rightarrow> (nwk_mesh \<times> mesh_action list) option" where
  "zb_nwk_mesh_rrep_handler buf mac_src hdr cmd s =
     (case nwk_calc_path_cost (h_src_addr hdr) s of
        None \<Rightarrow> None
      | Some (c, s1) \<Rightarrow>
          (let path_cost = c + rp_path_cost cmd in
           case (find_disc (rp_rreq_id cmd) (rp_originator cmd) s1, find_route (rp_responder cmd) s1) of
             (Some d, Some r) \<Rightarrow>
               (let de = route_disc_table s1 ! d; re = routing_table s1 ! r in
                if path_cost > rd_residual_cost de then Some (s1, [Free_buf buf])
                else
                  (let s2 = set_routing r (re\<lparr>rt_next_hop_addr := nwk_get_mac_source_addr mac_src s1,
                              rt_status := (if rt_status re = ROUTE_DISCOVERY_UNDERWAY then ROUTE_VALIDATION_UNDERWAY
                                            else rt_status re)\<rparr>)
                            (set_disc d (de\<lparr>rd_residual_cost := path_cost,
                              rd_expiration_time := ZB_NWK_ROUTE_DISCOVERY_EXPIRY\<rparr>) s1)
                   in if rp_originator cmd = network_addr s2 then Some (rrep_arrived buf (rt_dest_addr re) s2)
                      else Some (zb_nwk_mesh_send_rrep buf (rp_rreq_id cmd) (rp_originator cmd) (rp_responder cmd) path_cost
                                   (rd_sender_addr de) s2)))
           | (Some d, None) \<Rightarrow> Some (put_disc d s1, [Free_buf buf])
           | (None, Some r) \<Rightarrow> Some (put_routing r s1, [Free_buf buf])
           | (None, None) \<Rightarrow> Some (s1, [Free_buf buf])))"

section \<open>Timers\<close>

definition zb_nwk_mesh_routing_init :: "mesh_action list" where
  "zb_nwk_mesh_routing_init =
     [Set_alarm Expiry_route_disc ZB_NWK_EXPIRY_ROUTE_DISCOVERY, Set_alarm Expiry_pending ZB_NWK_EXPIRY_PENDING]"

definition zb_nwk_mesh_routing_deinit :: "mesh_action list" where
  "zb_nwk_mesh_routing_deinit = [Cancel_alarm Expiry_pending, Cancel_alarm Expiry_route_disc]"

text \<open>
  The condition of the search for the routing entry names the discovery entry by an index \<^verbatim>\<open>i\<close>. Inside of the macro that is
  the macro's own index, so entries of the same position in the two tables are compared.
\<close>

definition failed_route :: "nwk_mesh \<Rightarrow> nat option" where
  "failed_route s = nwk_array_find_ent rt_used
     (\<lambda>i e. rt_dest_addr e = rd_dest_addr (route_disc_table s ! i) \<and> rt_status e \<noteq> ROUTE_ACTIVE) (routing_table s)"

fun expiry_disc_loop :: "nat list \<Rightarrow> nwk_mesh \<Rightarrow> nwk_mesh \<times> mesh_action list" where
  "expiry_disc_loop [] s = (s, [Set_alarm Expiry_route_disc ZB_NWK_EXPIRY_ROUTE_DISCOVERY])"
| "expiry_disc_loop (i # is) s =
     (let e = route_disc_table s ! i in
      if rd_used e then
        (if rd_expiration_time e \<noteq> 0
         then expiry_disc_loop is (set_disc i (e\<lparr>rd_expiration_time := rd_expiration_time e - 1\<rparr>) s)
         else
           (case failed_route s of
              None \<Rightarrow> expiry_disc_loop is (put_disc i s)
            | Some r \<Rightarrow>
                (let s1 = put_disc i s;
                     s2 = s1\<lparr>status_ind_addr := rt_dest_addr (routing_table s1 ! r)\<rparr>
                 in (put_routing r s2, [Get_out_buf_delayed Route_disc_failed]))))
      else expiry_disc_loop is s)"

definition zb_nwk_mesh_expiry_route_disc :: "nwk_mesh \<Rightarrow> nwk_mesh \<times> mesh_action list" where
  "zb_nwk_mesh_expiry_route_disc s =
     expiry_disc_loop (if route_disc_table_cnt s \<noteq> 0 then [0..<ZB_NWK_ROUTE_DISCOVERY_TABLE_SIZE] else []) s"

definition nwk_route_disc_failed :: "nat \<Rightarrow> nwk_mesh \<Rightarrow> mesh_action list" where
  "nwk_route_disc_failed param s =
     [Status_indication param COMMAND_STATUS_NO_ROUTE_AVAILABLE (status_ind_addr s),
      Cancel_alarm Expiry_route_disc, Set_alarm Expiry_route_disc ZB_NWK_EXPIRY_ROUTE_DISCOVERY]"

fun expiry_pending_loop :: "nat list \<Rightarrow> nwk_mesh \<Rightarrow> nwk_mesh \<times> mesh_action list" where
  "expiry_pending_loop [] s = (s, [])"
| "expiry_pending_loop (i # is) s =
     (let e = pending_table s ! i in
      if pd_used e then
        (if pd_expiry e = 0
         then (case expiry_pending_loop is (put_pend i s) of (s1, acts) \<Rightarrow> (s1, Free_buf (pd_buf e) # acts))
         else expiry_pending_loop is (set_pend i (e\<lparr>pd_expiry := pd_expiry e - 1\<rparr>) s))
      else expiry_pending_loop is s)"

definition zb_nwk_mesh_expiry_pending :: "nwk_mesh \<Rightarrow> nwk_mesh \<times> mesh_action list" where
  "zb_nwk_mesh_expiry_pending s =
     (case (if pending_table_cnt s \<noteq> 0 then expiry_pending_loop [0..<ZB_NWK_PENDING_TABLE_SIZE] s else (s, [])) of
        (s1, acts) \<Rightarrow> (s1, acts @ [Set_alarm Expiry_pending ZB_NWK_EXPIRY_PENDING]))"

section \<open>Searches and waiting frames\<close>

definition zb_nwk_mesh_find_route :: "u16 \<Rightarrow> nwk_mesh \<Rightarrow> nat option" where
  "zb_nwk_mesh_find_route dest s = find_route dest s"

definition zb_nwk_mesh_find_route_discovery_entry :: "u16 \<Rightarrow> nwk_mesh \<Rightarrow> nat option" where
  "zb_nwk_mesh_find_route_discovery_entry dest s =
     nwk_array_find_ent rd_used (\<lambda>i e. rd_dest_addr e = dest) (route_disc_table s)"

definition zb_nwk_mesh_add_buf_to_pending :: "nat \<Rightarrow> u8 \<Rightarrow> nwk_mesh \<Rightarrow> zb_ret \<times> nwk_mesh" where
  "zb_nwk_mesh_add_buf_to_pending buf handle s =
     (case get_pend s of
        (Some i, s1) \<Rightarrow>
          (RET_OK, set_pend i ((pending_table s1 ! i)\<lparr>pd_buf := buf, pd_handle := handle, pd_dest_addr := buf_dst s1 buf,
             pd_expiry := ZB_NWK_PENDING_ENTRY_EXPIRY, pd_waiting_buf := True\<rparr>) s1)
      | (None, s1) \<Rightarrow> (RET_NO_MEMORY, s1))"

section \<open>The request of the higher layer\<close>

datatype zb_addr_mode = ADDR_NO_ADDR | ADDR_16BIT_MULTICAST | ADDR_16BIT_DEV_OR_BROADCAST | ADDR_64BIT_DEV

definition ZB_NWK_IS_ADDRESS_BROADCAST :: "u16 \<Rightarrow> bool" where
  "ZB_NWK_IS_ADDRESS_BROADCAST a \<longleftrightarrow> a AND 0xfff0 = 0xfff0"

record zb_nlme_route_discovery_req =
  rdr_address_mode :: zb_addr_mode
  rdr_network_addr :: u16
  rdr_radius :: u8

definition zb_nlme_route_discovery_request ::
  "nat \<Rightarrow> zb_nlme_route_discovery_req \<Rightarrow> nwk_mesh \<Rightarrow> (nwk_mesh \<times> mesh_action list) option" where
  "zb_nlme_route_discovery_request buf req s =
     (let confirm = (\<lambda>st ns s. Some (s, [Route_discovery_confirm buf st ns])) in
      if device_type s \<noteq> DEVICE_TYPE_COORDINATOR \<and> device_type s \<noteq> DEVICE_TYPE_ROUTER
      then confirm NWK_STATUS_INVALID_REQUEST COMMAND_STATUS_NO_ROUTE_AVAILABLE s
      else if rdr_address_mode req \<noteq> ADDR_NO_ADDR \<and> ZB_NWK_IS_ADDRESS_BROADCAST (rdr_network_addr req)
      then confirm NWK_STATUS_INVALID_REQUEST COMMAND_STATUS_NO_ROUTE_AVAILABLE s
      else if rdr_address_mode req = ADDR_16BIT_DEV_OR_BROADCAST \<and> rdr_network_addr req = network_addr s
      then confirm NWK_STATUS_SUCCESS 0xff s
      else
        (case zb_nwk_neighbor_get_by_short (rdr_network_addr req) (nctx (tree s)) of
           None \<Rightarrow> None
         | Some (ret, n, c) \<Rightarrow>
             (let s1 = upd_tree (\<lambda>t. t\<lparr>nctx := c\<rparr>) s in
              if ret = RET_OK then confirm NWK_STATUS_SUCCESS 0xff s1
              else if rdr_address_mode req = ADDR_16BIT_DEV_OR_BROADCAST
              then zb_nwk_mesh_route_discovery (Some buf) (rdr_network_addr req) (rdr_radius req)
                     (s1\<lparr>aps_rreq_addr := rdr_network_addr req\<rparr>)
              else confirm NWK_STATUS_INVALID_REQUEST COMMAND_STATUS_NO_ROUTE_AVAILABLE s1)))"

end
