(* ===== verification/Nwk_Mesh_Lemmas.thy ===== *)
theory Nwk_Mesh_Lemmas
  imports Nwk_Mesh Address_Props Nwk_Neighbor_Inv
begin

text \<open>
  Facts shared by the properties of the mesh routing: arrays of entries with a used bit as an interface, the costs of
  links, and what the parts of the handlers do to the tables of a node.
\<close>

section \<open>Arrays\<close>

definition counted :: "('a \<Rightarrow> bool) \<Rightarrow> 'a list \<Rightarrow> u8 \<Rightarrow> bool" where
  "counted used xs cnt \<longleftrightarrow> unat cnt = length (filter used xs) \<and> length xs < 256"

definition unique_keys :: "('a \<Rightarrow> bool) \<Rightarrow> ('a \<Rightarrow> 'k) \<Rightarrow> 'a list \<Rightarrow> bool" where
  "unique_keys used key xs \<longleftrightarrow> (\<forall>i < length xs. \<forall>j < length xs. used (xs ! i) \<longrightarrow> used (xs ! j) \<longrightarrow> key (xs ! i) = key (xs ! j) \<longrightarrow> i = j)"

definition all_used :: "('a \<Rightarrow> bool) \<Rightarrow> ('a \<Rightarrow> bool) \<Rightarrow> 'a list \<Rightarrow> bool" where
  "all_used used P xs \<longleftrightarrow> (\<forall>i < length xs. used (xs ! i) \<longrightarrow> P (xs ! i))"

text \<open>
  What the handlers need of an array: getting an entry marks a free one, giving one back frees it, and the counter
  is the number of used entries.
\<close>

locale used_array =
  fixes used :: "'a \<Rightarrow> bool" and mark :: "bool \<Rightarrow> 'a \<Rightarrow> 'a"
  assumes used_mark: "used (mark b e) = b"
begin

lemma find_SomeD:
  "nwk_array_find_ent used P xs = Some i \<Longrightarrow> i < length xs \<and> used (xs ! i) \<and> P i (xs ! i)"
  by (auto simp: nwk_array_find_ent_def find_Some_iff)

lemma find_NoneD:
  "nwk_array_find_ent used P xs = None \<Longrightarrow> i < length xs \<Longrightarrow> used (xs ! i) \<Longrightarrow> \<not> P i (xs ! i)"
  by (auto simp: nwk_array_find_ent_def find_None_iff)

lemma find_unique:
  assumes "i < length xs" "used (xs ! i)" "P i (xs ! i)"
    and "\<And>j. j < length xs \<Longrightarrow> used (xs ! j) \<Longrightarrow> P j (xs ! j) \<Longrightarrow> j = i"
  shows "nwk_array_find_ent used P xs = Some i"
  using find_NoneD [of P xs i] find_SomeD [of P xs] assms by (cases "nwk_array_find_ent used P xs") blast+

lemma count_split:
  assumes "i < length xs"
  shows "length (filter used (xs[i := e])) + (if used (xs ! i) then 1 else 0)
    = length (filter used xs) + (if used e then 1 else 0)"
proof -
  have c: "xs = take i xs @ xs ! i # drop (Suc i) xs" using assms by (rule id_take_nth_drop)
  have "length (filter used xs) = length (filter used (take i xs)) + (if used (xs ! i) then 1 else 0)
      + length (filter used (drop (Suc i) xs))"
    by (subst c) simp
  moreover have "xs[i := e] = take i xs @ e # drop (Suc i) xs" using assms by (rule upd_conv_take_nth_drop)
  ultimately show ?thesis by simp
qed

lemma count_update:
  assumes "i < length xs"
  shows "\<not> used (xs ! i) \<Longrightarrow> used e \<Longrightarrow> length (filter used (xs[i := e])) = length (filter used xs) + 1"
    and "used (xs ! i) \<Longrightarrow> \<not> used e \<Longrightarrow> length (filter used (xs[i := e])) + 1 = length (filter used xs)"
    and "used e = used (xs ! i) \<Longrightarrow> length (filter used (xs[i := e])) = length (filter used xs)"
  using count_split [OF assms, of e] by simp_all

lemma counted_same: "counted used xs cnt \<Longrightarrow> used e = used (xs ! i) \<Longrightarrow> counted used (xs[i := e]) cnt"
  by (cases "i < length xs") (simp_all add: counted_def count_update(3) list_update_beyond)

lemma get_SomeD:
  assumes "nwk_array_get_ent used mark xs cnt = (Some i, ys, c)"
  shows "i < length xs" "\<not> used (xs ! i)" "ys = xs[i := mark True (xs ! i)]" "c = cnt + 1"
    and "counted used xs cnt \<Longrightarrow> counted used ys c"
proof -
  show s: "i < length xs" "\<not> used (xs ! i)" "ys = xs[i := mark True (xs ! i)]" "c = cnt + 1"
    using assms by (auto simp: nwk_array_get_ent_def find_Some_iff split: option.splits)
  assume c: "counted used xs cnt"
  have l: "length (filter used ys) = length (filter used xs) + 1"
    using count_update(1) [of i xs "mark True (xs ! i)"] s by (simp add: used_mark)
  moreover have "length (filter used ys) \<le> length xs" using s(3) length_filter_le [of used ys] by simp
  ultimately have "unat cnt + 1 < 2 ^ 8" using c by (simp add: counted_def)
  then have "unat (cnt + 1) = unat cnt + 1" by (simp add: unat_word_ariths(1))
  then show "counted used ys c" using c l s(3,4) by (simp add: counted_def)
qed

lemma get_NoneD:
  assumes "nwk_array_get_ent used mark xs cnt = (None, ys, c)"
  shows "ys = xs" "c = cnt" "i < length xs \<Longrightarrow> used (xs ! i)"
  using assms by (auto simp: nwk_array_get_ent_def find_None_iff split: option.splits)

lemma put_counted:
  assumes "counted used xs cnt" "i < length xs" "used (xs ! i)" "nwk_array_put_ent mark i xs cnt = (ys, c)"
  shows "counted used ys c"
proof -
  have y: "ys = xs[i := mark False (xs ! i)]" "c = cnt - 1" using assms(4) by (auto simp: nwk_array_put_ent_def)
  have "length (filter used ys) + 1 = length (filter used xs)"
    using count_update(2) [of i xs "mark False (xs ! i)"] assms(2,3) y(1) by (simp add: used_mark)
  moreover have "0 < unat cnt" using calculation assms(1) by (simp only: counted_def)
  then have "unat (cnt - 1) = unat cnt - 1" by (simp add: unat_minus_one unat_gt_0)
  ultimately show ?thesis using assms(1) y by (simp add: counted_def)
qed

lemma unique_same:
  assumes "unique_keys used key xs" "i < length xs" "used e \<longrightarrow> used (xs ! i) \<and> key e = key (xs ! i)"
  shows "unique_keys used key (xs[i := e])"
  unfolding unique_keys_def
proof (intro allI impI)
  fix j k
  assume a: "j < length (xs[i := e])" "k < length (xs[i := e])" "used (xs[i := e] ! j)" "used (xs[i := e] ! k)"
    "key (xs[i := e] ! j) = key (xs[i := e] ! k)"
  have old: "used (xs ! m) \<and> key (xs[i := e] ! m) = key (xs ! m)" if "used (xs[i := e] ! m)" for m
    using that assms(2,3) by (cases "m = i") auto
  from old [OF a(3)] old [OF a(4)] a(1,2,5) assms(1) show "j = k" unfolding unique_keys_def by (metis length_list_update)
qed

lemma unique_add:
  assumes u: "unique_keys used key xs" and new: "\<And>j. j < length xs \<Longrightarrow> used (xs ! j) \<Longrightarrow> key (xs ! j) \<noteq> key e"
  shows "unique_keys used key (xs[i := e])"
  unfolding unique_keys_def
proof (intro allI impI)
  fix j k
  assume a: "j < length (xs[i := e])" "k < length (xs[i := e])" "used (xs[i := e] ! j)" "used (xs[i := e] ! k)"
    "key (xs[i := e] ! j) = key (xs[i := e] ! k)"
  have "i \<noteq> j \<and> i \<noteq> k \<Longrightarrow> j = k" using a u unfolding unique_keys_def by simp
  moreover have "i = j \<Longrightarrow> i = k" using a new [of k] by (simp add: nth_update split: if_split_asm)
  moreover have "i = k \<Longrightarrow> i = j" using a new [of j] by (simp add: nth_update split: if_split_asm)
  ultimately show "j = k" by blast
qed

lemma all_update: "all_used used P xs \<Longrightarrow> used e \<longrightarrow> P e \<Longrightarrow> all_used used P (xs[i := e])"
  by (auto simp: all_used_def nth_update split: if_split_asm)

end

interpretation rt: used_array rt_used rt_mark by unfold_locales simp
interpretation rd: used_array rd_used rd_mark by unfold_locales simp
interpretation pd: used_array pd_used pd_mark by unfold_locales simp

section \<open>Costs\<close>

lemma lqi_steps_le: "i \<le> 7 \<Longrightarrow> lqi_steps i lqi \<le> 7"
proof (induction i lqi rule: lqi_steps.induct)
  case (1 i lqi)
  have "unat lqi < 256" using unsigned_less [of lqi] by simp
  with 1 show ?case by (subst lqi_steps.simps) auto
qed

lemma lqi_cost_range: "1 \<le> unat (lqi_cost lqi)" "unat (lqi_cost lqi) \<le> 7"
proof -
  have "lqi_steps 0 lqi \<le> 7" by (rule lqi_steps_le) simp
  then have "lqi_steps 0 lqi \<in> {0, 1, 2, 3, 4, 5, 6, 7}" by auto
  then have "1 \<le> unat (lqi_cost lqi) \<and> unat (lqi_cost lqi) \<le> 7" by (auto simp: lqi_cost_def Let_def)
  then show "1 \<le> unat (lqi_cost lqi)" "unat (lqi_cost lqi) \<le> 7" by simp_all
qed

text \<open>A search in the neighbour table changes the clocks of the addresses only.\<close>

lemma upd_tree_sel [simp]:
  "tree (upd_tree f s) = f (tree s)" "routing_table (upd_tree f s) = routing_table s"
  "routing_table_cnt (upd_tree f s) = routing_table_cnt s" "route_disc_table (upd_tree f s) = route_disc_table s"
  "route_disc_table_cnt (upd_tree f s) = route_disc_table_cnt s" "rreq_id (upd_tree f s) = rreq_id s"
  "pending_table (upd_tree f s) = pending_table s" "pending_table_cnt (upd_tree f s) = pending_table_cnt s"
  "aps_rreq_addr (upd_tree f s) = aps_rreq_addr s" "sequence_number (upd_tree f s) = sequence_number s"
  "nwk_report_constant_cost (upd_tree f s) = nwk_report_constant_cost s"
  by (simp_all add: upd_tree_def)

lemma calc_path_cost_frame:
  assumes "nwk_calc_path_cost src s = Some (c, s1)"
  shows "\<exists>x. s1 = upd_tree (\<lambda>t. t\<lparr>nctx := x\<rparr>) s" "unat c \<le> 7" "src \<noteq> network_addr s \<Longrightarrow> 1 \<le> unat c"
proof -
  have id: "\<exists>x. s = upd_tree (\<lambda>t. t\<lparr>nctx := x\<rparr>) s" by (intro exI [of _ "nctx (tree s)"]) (simp add: upd_tree_def)
  show "\<exists>x. s1 = upd_tree (\<lambda>t. t\<lparr>nctx := x\<rparr>) s"
    using assms id by (auto simp: nwk_calc_path_cost_def Let_def split: option.splits if_splits)
  show "unat c \<le> 7" "src \<noteq> network_addr s \<Longrightarrow> 1 \<le> unat c"
    using assms lqi_cost_range
    by (auto simp: nwk_calc_path_cost_def Let_def ZB_NWK_STATIC_PATH_COST_def split: option.splits if_splits)
qed

end
