(* ===== verification/Nwk_Mesh_Inv.thy ===== *)
theory Nwk_Mesh_Inv
  imports Nwk_Mesh_Lemmas
begin

text \<open>
  The invariant of the tables of the mesh routing, that every handler keeps it, and that no handler stops the program as long as
  it holds.
\<close>

section \<open>Searches in the neighbour table\<close>

definition ctx_inv :: "nb_ctx \<Rightarrow> bool" where
  "ctx_inv c \<longleftrightarrow> addr_inv (addr c) \<and> nb_inv (neighbor c)"

lemma set_clock_inv:
  assumes inv: "addr_inv g" and r: "r \<in> used_refs g"
  shows "addr_inv (set_clock r g)" "used_refs (set_clock r g) = used_refs g"
proof -
  have len: "r < length (addr_map g)" using r inv by (simp add: used_refs_def addr_inv_def)
  note nc = set_clock_nth [OF len]
  show "addr_inv (set_clock r g)" by (rule addr_inv_no_clock [OF inv nc]) simp_all
  show "used_refs (set_clock r g) = used_refs g" using no_clock_eqD(1) [OF nc] by (simp add: used_refs_def)
qed

lemma short_search_used: "addr_inv g \<Longrightarrow> short_search a g = Some r \<Longrightarrow> r \<in> used_refs g"
  using short_search_spec [of g a] by (auto simp: addr_inv_def split: option.splits)

lemma neighbor_by_short_total:
  assumes inv: "ctx_inv c"
  shows "\<exists>ret n c'. zb_nwk_neighbor_get_by_short a c = Some (ret, n, c') \<and> ctx_inv c' \<and> neighbor c' = neighbor c
    \<and> (ret = RET_OK \<longrightarrow> n \<noteq> None)"
proof (cases "short_search a (addr c)")
  case None
  then show ?thesis using inv by (simp add: zb_nwk_neighbor_get_by_short_def zb_address_by_short_def lock_if_def)
next
  case (Some r)
  have r: "r \<in> used_refs (addr c)" using short_search_used Some inv by (simp add: ctx_inv_def)
  have l: "r < length (addr_to_neighbor (neighbor c))"
    using r inv by (simp add: used_refs_def ctx_inv_def nb_inv_def nb_shape_def)
  show ?thesis using Some l inv set_clock_inv [of "addr c" r] r
    by (auto simp: zb_nwk_neighbor_get_by_short_def zb_address_by_short_def lock_if_def zb_nwk_neighbor_get_def Let_def ctx_inv_def)
qed

lemma neighbor_by_short_keeps:
  "ctx_inv c \<Longrightarrow> zb_nwk_neighbor_get_by_short a c = Some (ret, n, c') \<Longrightarrow> ctx_inv c' \<and> neighbor c' = neighbor c"
  using neighbor_by_short_total [of c a] by auto

section \<open>The invariant\<close>

definition routing_ok :: "zb_nwk_routing list \<Rightarrow> u8 \<Rightarrow> bool" where
  "routing_ok xs cnt \<longleftrightarrow> length xs = ZB_NWK_ROUTING_TABLE_SIZE \<and> counted rt_used xs cnt
     \<and> unique_keys rt_used rt_dest_addr xs"

abbreviation rd_key :: "zb_nwk_route_discovery \<Rightarrow> u8 \<times> u16" where
  "rd_key e \<equiv> (rd_request_id e, rd_source_addr e)"

definition disc_ok :: "zb_nwk_route_discovery list \<Rightarrow> u8 \<Rightarrow> bool" where
  "disc_ok xs cnt \<longleftrightarrow> length xs = ZB_NWK_ROUTE_DISCOVERY_TABLE_SIZE \<and> counted rd_used xs cnt
     \<and> unique_keys rd_used rd_key xs \<and> all_used rd_used (\<lambda>e. rd_expiration_time e \<le> ZB_NWK_ROUTE_DISCOVERY_EXPIRY) xs"

definition pend_ok :: "zb_nwk_pend list \<Rightarrow> u8 \<Rightarrow> bool" where
  "pend_ok xs cnt \<longleftrightarrow> length xs = ZB_NWK_PENDING_TABLE_SIZE \<and> counted pd_used xs cnt
     \<and> all_used pd_used (\<lambda>e. pd_expiry e \<le> ZB_NWK_PENDING_ENTRY_EXPIRY) xs"

lemmas table_ok = routing_ok_def disc_ok_def pend_ok_def

definition mesh_inv :: "nwk_mesh \<Rightarrow> bool" where
  "mesh_inv s \<longleftrightarrow> ctx_inv (nctx (tree s)) \<and> routing_ok (routing_table s) (routing_table_cnt s)
     \<and> disc_ok (route_disc_table s) (route_disc_table_cnt s) \<and> pend_ok (pending_table s) (pending_table_cnt s)"

lemmas table_sizes = ZB_NWK_ROUTING_TABLE_SIZE_def ZB_NWK_ROUTE_DISCOVERY_TABLE_SIZE_def ZB_NWK_PENDING_TABLE_SIZE_def

lemma mesh_inv_fields [simp]:
  "mesh_inv (s\<lparr>sequence_number := q\<rparr>) = mesh_inv s" "mesh_inv (s\<lparr>rreq_id := i\<rparr>) = mesh_inv s"
  "mesh_inv (s\<lparr>aps_rreq_addr := a\<rparr>) = mesh_inv s" "mesh_inv (s\<lparr>status_ind_addr := a\<rparr>) = mesh_inv s"
  by (simp_all add: mesh_inv_def)

lemma mesh_inv_ctx: "mesh_inv s \<Longrightarrow> ctx_inv c \<Longrightarrow> mesh_inv (upd_tree (\<lambda>t. t\<lparr>nctx := c\<rparr>) s)"
  by (simp add: mesh_inv_def)

lemma routing_ok_same:
  assumes "routing_ok xs cnt" "i < length xs" "rt_used e = rt_used (xs ! i)" "rt_dest_addr e = rt_dest_addr (xs ! i)"
  shows "routing_ok (xs[i := e]) cnt"
  using assms rt.counted_same [of xs cnt e i] rt.unique_same [of rt_dest_addr xs i e] by (simp add: table_ok)

lemma routing_ok_add:
  assumes ok: "routing_ok xs cnt" and g: "nwk_array_get_ent rt_used rt_mark xs cnt = (Some i, ys, c)"
    and new: "nwk_array_find_ent rt_used (\<lambda>i e. rt_dest_addr e = d) xs = None" and e: "rt_used e" "rt_dest_addr e = d"
  shows "routing_ok (ys[i := e]) c"
proof -
  note gs = rt.get_SomeD [OF g]
  have "counted rt_used (ys[i := e]) c" using gs ok e by (intro rt.counted_same) (simp_all add: table_ok)
  moreover have "unique_keys rt_used rt_dest_addr (xs[i := e])"
    using ok e(2) rt.find_NoneD [OF new] by (intro rt.unique_add) (auto simp: table_ok)
  ultimately show ?thesis using ok gs(3) by (simp add: table_ok)
qed

lemma routing_ok_put:
  assumes "routing_ok xs cnt" "i < length xs" "rt_used (xs ! i)" "nwk_array_put_ent rt_mark i xs cnt = (ys, c)"
  shows "routing_ok ys c"
  using assms rt.put_counted [of xs cnt i ys c] rt.unique_same [of rt_dest_addr xs i]
  by (auto simp: table_ok nwk_array_put_ent_def)

lemma disc_ok_same:
  assumes "disc_ok xs cnt" "i < length xs" "rd_used e = rd_used (xs ! i)" "rd_key e = rd_key (xs ! i)"
    "rd_expiration_time e \<le> ZB_NWK_ROUTE_DISCOVERY_EXPIRY"
  shows "disc_ok (xs[i := e]) cnt"
  using assms rd.counted_same [of xs cnt e i] rd.unique_same [of rd_key xs i e] rd.all_update [of _ xs e i]
  by (simp add: table_ok)

lemma disc_ok_add:
  assumes ok: "disc_ok xs cnt" and g: "nwk_array_get_ent rd_used rd_mark xs cnt = (Some i, ys, c)"
    and new: "nwk_array_find_ent rd_used (\<lambda>i e. rd_request_id e = q \<and> rd_source_addr e = a) xs = None"
    and e: "rd_used e" "rd_request_id e = q" "rd_source_addr e = a" "rd_expiration_time e \<le> ZB_NWK_ROUTE_DISCOVERY_EXPIRY"
  shows "disc_ok (ys[i := e]) c"
proof -
  note gs = rd.get_SomeD [OF g]
  have "counted rd_used (ys[i := e]) c" using gs ok e by (intro rd.counted_same) (simp_all add: table_ok)
  moreover have "unique_keys rd_used rd_key (xs[i := e])"
    using ok e(2,3) rd.find_NoneD [OF new] by (intro rd.unique_add) (auto simp: table_ok)
  moreover have "all_used rd_used (\<lambda>e. rd_expiration_time e \<le> ZB_NWK_ROUTE_DISCOVERY_EXPIRY) (xs[i := e])"
    using ok e(4) by (intro rd.all_update) (simp_all add: table_ok)
  ultimately show ?thesis using ok gs(3) by (simp add: table_ok)
qed

lemma disc_ok_put:
  assumes "disc_ok xs cnt" "i < length xs" "rd_used (xs ! i)" "nwk_array_put_ent rd_mark i xs cnt = (ys, c)"
  shows "disc_ok ys c"
  using assms rd.put_counted [of xs cnt i ys c] rd.unique_same [of rd_key xs i] rd.all_update [of _ xs _ i]
  by (auto simp: table_ok nwk_array_put_ent_def)

lemma pend_ok_same:
  assumes "pend_ok xs cnt" "i < length xs" "pd_used e = pd_used (xs ! i)" "pd_expiry e \<le> ZB_NWK_PENDING_ENTRY_EXPIRY \<or> \<not> pd_used e"
  shows "pend_ok (xs[i := e]) cnt"
  using assms pd.counted_same [of xs cnt e i] pd.all_update [of _ xs e i] by (auto simp: table_ok)

lemma pend_ok_put:
  assumes "pend_ok xs cnt" "i < length xs" "pd_used (xs ! i)" "nwk_array_put_ent pd_mark i xs cnt = (ys, c)"
  shows "pend_ok ys c"
  using assms pd.put_counted [of xs cnt i ys c] pd.all_update [of _ xs _ i] by (auto simp: table_ok nwk_array_put_ent_def)

section \<open>Operations on one entry\<close>

lemma put_routing_inv:
  "mesh_inv s \<Longrightarrow> i < length (routing_table s) \<Longrightarrow> rt_used (routing_table s ! i) \<Longrightarrow> mesh_inv (put_routing i s)"
  by (auto simp: mesh_inv_def put_routing_def routing_ok_put split: prod.split)

lemma put_disc_inv:
  "mesh_inv s \<Longrightarrow> i < length (route_disc_table s) \<Longrightarrow> rd_used (route_disc_table s ! i) \<Longrightarrow> mesh_inv (put_disc i s)"
  by (auto simp: mesh_inv_def put_disc_def disc_ok_put split: prod.split)

lemma put_pend_inv:
  "mesh_inv s \<Longrightarrow> i < length (pending_table s) \<Longrightarrow> pd_used (pending_table s ! i) \<Longrightarrow> mesh_inv (put_pend i s)"
  by (auto simp: mesh_inv_def put_pend_def pend_ok_put split: prod.split)

lemma set_pend_inv:
  "mesh_inv s \<Longrightarrow> i < length (pending_table s) \<Longrightarrow> pd_used e = pd_used (pending_table s ! i) \<Longrightarrow>
    pd_expiry e \<le> ZB_NWK_PENDING_ENTRY_EXPIRY \<or> \<not> pd_used e \<Longrightarrow> mesh_inv (set_pend i e s)"
  by (simp add: mesh_inv_def set_pend_def pend_ok_same)

lemma put_sel [simp]:
  "tree (put_routing i s) = tree s" "route_disc_table (put_routing i s) = route_disc_table s"
  "pending_table (put_routing i s) = pending_table s" "routing_table (put_disc i s) = routing_table s"
  "tree (put_disc i s) = tree s" "pending_table (put_disc i s) = pending_table s"
  "tree (put_pend i s) = tree s" "routing_table (put_pend i s) = routing_table s"
  "route_disc_table (put_pend i s) = route_disc_table s" "aps_rreq_addr (put_pend i s) = aps_rreq_addr s"
  "aps_rreq_addr (put_routing i s) = aps_rreq_addr s" "aps_rreq_addr (put_disc i s) = aps_rreq_addr s"
  "routing_table (put_routing i s) = (routing_table s)[i := rt_mark False (routing_table s ! i)]"
  "route_disc_table (put_disc i s) = (route_disc_table s)[i := rd_mark False (route_disc_table s ! i)]"
  "pending_table (put_pend i s) = (pending_table s)[i := pd_mark False (pending_table s ! i)]"
  by (simp_all add: put_routing_def put_disc_def put_pend_def nwk_array_put_ent_def)

lemma set_sel [simp]:
  "tree (set_routing i e s) = tree s" "route_disc_table (set_routing i e s) = route_disc_table s"
  "routing_table (set_routing i e s) = (routing_table s)[i := e]" "routing_table (set_disc i d s) = routing_table s"
  "tree (set_disc i d s) = tree s" "route_disc_table (set_disc i d s) = (route_disc_table s)[i := d]"
  "tree (set_pend i p s) = tree s" "routing_table (set_pend i p s) = routing_table s"
  "route_disc_table (set_pend i p s) = route_disc_table s" "pending_table (set_pend i p s) = (pending_table s)[i := p]"
  "pending_table (set_routing i e s) = pending_table s" "pending_table (set_disc i d s) = pending_table s"
  "aps_rreq_addr (set_routing i e s) = aps_rreq_addr s" "aps_rreq_addr (set_disc i d s) = aps_rreq_addr s"
  by (simp_all add: set_routing_def set_disc_def set_pend_def)

end
