(* ===== verification/Nwk_Mesh_Handlers.thy ===== *)
theory Nwk_Mesh_Handlers
  imports Nwk_Mesh_Inv
begin

text \<open>
  The handlers of the mesh routing keep the invariant of the tables, and none of them stops the program as long as
  it holds, with the one exception of a buffer that no frame waits for.
\<close>

section \<open>Parts of the handler of a request\<close>

text \<open>Getting an entry and filling it.\<close>

lemma get_routing_cases:
  assumes "get_routing s = (r, s1)"
  obtains (full) "r = None" "s1 = s" "\<And>i. i < length (routing_table s) \<Longrightarrow> rt_used (routing_table s ! i)"
  | (got) i ys c where "r = Some i" "nwk_array_get_ent rt_used rt_mark (routing_table s) (routing_table_cnt s) = (Some i, ys, c)"
      "s1 = s\<lparr>routing_table := ys, routing_table_cnt := c\<rparr>"
proof -
  obtain q ys c where g: "nwk_array_get_ent rt_used rt_mark (routing_table s) (routing_table_cnt s) = (q, ys, c)"
    by (metis prod_cases3)
  with assms have e: "r = q" "s1 = s\<lparr>routing_table := ys, routing_table_cnt := c\<rparr>" by (simp_all add: get_routing_def)
  show thesis
  proof (cases q)
    case None
    with rt.get_NoneD g e full show thesis by force
  qed (use got g e in auto)
qed

lemma get_disc_cases:
  assumes "get_disc s = (r, s1)"
  obtains (full) "r = None" "s1 = s" "\<And>i. i < length (route_disc_table s) \<Longrightarrow> rd_used (route_disc_table s ! i)"
  | (got) i ys c where "r = Some i" "nwk_array_get_ent rd_used rd_mark (route_disc_table s) (route_disc_table_cnt s) = (Some i, ys, c)"
      "s1 = s\<lparr>route_disc_table := ys, route_disc_table_cnt := c\<rparr>"
proof -
  obtain q ys c where g: "nwk_array_get_ent rd_used rd_mark (route_disc_table s) (route_disc_table_cnt s) = (q, ys, c)"
    by (metis prod_cases3)
  with assms have e: "r = q" "s1 = s\<lparr>route_disc_table := ys, route_disc_table_cnt := c\<rparr>" by (simp_all add: get_disc_def)
  show thesis
  proof (cases q)
    case None
    with rd.get_NoneD g e full show thesis by force
  qed (use got g e in auto)
qed

lemma rreq_routing_spec:
  assumes inv: "mesh_inv s" and r: "rreq_routing dest s = (ret, ri, s1)"
  shows "mesh_inv s1" "s1 = s\<lparr>routing_table := routing_table s1, routing_table_cnt := routing_table_cnt s1\<rparr>"
    "ret = RET_OK \<Longrightarrow> \<exists>i. ri = Some i \<and> i < length (routing_table s1) \<and> rt_used (routing_table s1 ! i)
      \<and> rt_dest_addr (routing_table s1 ! i) = dest"
    "ret \<noteq> RET_OK \<Longrightarrow> ret = RET_NO_MEMORY \<and> ri = None \<and> s1 = s"
proof -
  have ok: "routing_ok (routing_table s) (routing_table_cnt s)" using inv by (simp add: mesh_inv_def)
  have all: "(mesh_inv s1) \<and> (s1 = s\<lparr>routing_table := routing_table s1, routing_table_cnt := routing_table_cnt s1\<rparr>) \<and> ((ret = RET_OK \<longrightarrow> (\<exists>i. ri = Some i \<and> i < length (routing_table s1) \<and> rt_used (routing_table s1 ! i) \<and> rt_dest_addr (routing_table s1 ! i) = dest))) \<and> ((ret \<noteq> RET_OK \<longrightarrow> (ret = RET_NO_MEMORY \<and> ri = None \<and> s1 = s)))"
  proof (cases "find_route dest s")
    case (Some i)
    note f = rt.find_SomeD [OF Some [unfolded find_route_def]]
    let ?e = "(routing_table s ! i)\<lparr>rt_status := ROUTE_DISCOVERY_UNDERWAY\<rparr>"
    have "mesh_inv (set_routing i ?e s)"
      using inv f ok by (simp add: mesh_inv_def set_routing_def routing_ok_same)
    moreover have "ret = RET_OK" "ri = Some i" "s1 = s \<or> s1 = set_routing i ?e s"
      using r Some by (auto simp: rreq_routing_def Let_def split: if_split_asm)
    ultimately show ?thesis
      using f inv by (auto simp: set_routing_def)
  next
    case None
    obtain q s2 where g: "get_routing s = (q, s2)" by fastforce
    from g show ?thesis
    proof (cases rule: get_routing_cases)
      case full
      then show ?thesis using r None g inv
        by (auto simp: rreq_routing_def)
    next
      case (got i ys c)
      let ?e = "(ys ! i)\<lparr>rt_dest_addr := dest, rt_status := ROUTE_DISCOVERY_UNDERWAY\<rparr>"
      note gs = rt.get_SomeD [OF got(2)]
      have "rt_used ?e" using gs by simp
      then have "routing_ok (ys[i := ?e]) c"
        using routing_ok_add [OF ok got(2) None [unfolded find_route_def]] by simp
      then show ?thesis using r None g got inv gs
        by (auto simp: rreq_routing_def set_routing_def mesh_inv_def)
    qed
  qed
  from all show "mesh_inv s1" "s1 = s\<lparr>routing_table := routing_table s1, routing_table_cnt := routing_table_cnt s1\<rparr>" "ret = RET_OK \<Longrightarrow> \<exists>i. ri = Some i \<and> i < length (routing_table s1) \<and> rt_used (routing_table s1 ! i) \<and> rt_dest_addr (routing_table s1 ! i) = dest" "ret \<noteq> RET_OK \<Longrightarrow> ret = RET_NO_MEMORY \<and> ri = None \<and> s1 = s" by blast+
qed

lemma rreq_disc_spec:
  assumes inv: "mesh_inv s" and r: "rreq_disc m h cmd cost s = (ret, go, di, s1)"
  shows "mesh_inv s1" "s1 = s\<lparr>route_disc_table := route_disc_table s1, route_disc_table_cnt := route_disc_table_cnt s1\<rparr>"
    "ret \<noteq> RET_OK \<Longrightarrow> ret = RET_NO_MEMORY \<and> di = None \<and> s1 = s \<and> \<not> go \<and> find_disc (rq_rreq_id cmd) (h_src_addr h) s = None
      \<and> (\<forall>i < length (route_disc_table s). rd_used (route_disc_table s ! i))"
proof -
  have ok: "disc_ok (route_disc_table s) (route_disc_table_cnt s)" using inv by (simp add: mesh_inv_def)
  have all: "(mesh_inv s1) \<and> (s1 = s\<lparr>route_disc_table := route_disc_table s1, route_disc_table_cnt := route_disc_table_cnt s1\<rparr>) \<and> ((ret \<noteq> RET_OK \<longrightarrow> (ret = RET_NO_MEMORY \<and> di = None \<and> s1 = s \<and> \<not> go \<and> find_disc (rq_rreq_id cmd) (h_src_addr h) s = None \<and> (\<forall>i < length (route_disc_table s). rd_used (route_disc_table s ! i)))))"
  proof (cases "find_disc (rq_rreq_id cmd) (h_src_addr h) s")
    case (Some i)
    note f = rd.find_SomeD [OF Some [unfolded find_disc_def]]
    let ?e = "(route_disc_table s ! i)\<lparr>rd_sender_addr := nwk_get_mac_source_addr m s, rd_forward_cost := cost\<rparr>"
    have "rd_expiration_time ?e \<le> ZB_NWK_ROUTE_DISCOVERY_EXPIRY" using ok f by (simp add: disc_ok_def all_used_def)
    then have "mesh_inv (set_disc i ?e s)"
      using inv f ok by (simp add: mesh_inv_def set_disc_def disc_ok_same)
    then show ?thesis
      using r Some f inv by (auto simp: rreq_disc_def Let_def set_disc_def split: if_split_asm)
  next
    case None
    obtain q s2 where g: "get_disc s = (q, s2)" by fastforce
    from g show ?thesis
    proof (cases rule: get_disc_cases)
      case full
      then show ?thesis using r None g inv
        by (auto simp: rreq_disc_def)
    next
      case (got i ys c)
      note gs = rd.get_SomeD [OF got(2)]
      have "rd_used (ys ! i)" using gs by simp
      then have "disc_ok (ys[i := (ys ! i)\<lparr>rd_request_id := rq_rreq_id cmd, rd_source_addr := h_src_addr h,
          rd_sender_addr := a, rd_dest_addr := rq_dest_addr cmd, rd_forward_cost := cost, rd_residual_cost := x,
          rd_expiration_time := ZB_NWK_ROUTE_DISCOVERY_EXPIRY\<rparr>]) c" for a x
        by (intro disc_ok_add [OF ok got(2) None [unfolded find_disc_def]]) simp_all
      then show ?thesis using r None g got inv gs
        by (auto simp: rreq_disc_def set_disc_def mesh_inv_def)
    qed
  qed
  from all show "mesh_inv s1" "s1 = s\<lparr>route_disc_table := route_disc_table s1, route_disc_table_cnt := route_disc_table_cnt s1\<rparr>" "ret \<noteq> RET_OK \<Longrightarrow> ret = RET_NO_MEMORY \<and> di = None \<and> s1 = s \<and> \<not> go \<and> find_disc (rq_rreq_id cmd) (h_src_addr h) s = None \<and> (\<forall>i < length (route_disc_table s). rd_used (route_disc_table s ! i))" by blast+
qed

lemma send_keeps [simp]:
  "fst (zb_nwk_mesh_send_rreq b c a q p r s) = s\<lparr>sequence_number := sequence_number s + 1\<rparr>"
  "fst (zb_nwk_mesh_send_rrep b q o' a p x s) = s\<lparr>sequence_number := sequence_number s + 1\<rparr>"
  by (simp_all add: zb_nwk_mesh_send_rreq_def zb_nwk_mesh_send_rrep_def cmd_hdr_def Let_def)

lemma mesh_inv_send: "zb_nwk_mesh_send_rreq b c a q p r s = (s1, acts) \<Longrightarrow> mesh_inv s1 = mesh_inv s"
  "zb_nwk_mesh_send_rrep b q o' a p x s = (s1, acts) \<Longrightarrow> mesh_inv s1 = mesh_inv s"
  using send_keeps(1) [of b c a q p r s] send_keeps(2) [of b q o' a p x s] by simp_all

lemma upd_tree_id: "s = upd_tree (\<lambda>t. t\<lparr>nctx := nctx (tree s)\<rparr>) s"
  by (simp add: upd_tree_def)

lemma rreq_respond_spec:
  assumes inv: "mesh_inv s"
  shows "\<exists>c acts. rreq_respond b m h cmd p s =
    Some ((upd_tree (\<lambda>t. t\<lparr>nctx := c\<rparr>) s)\<lparr>sequence_number := sequence_number s + 1\<rparr>, acts) \<and> ctx_inv c"
proof -
  have i: "ctx_inv (nctx (tree s))" using inv by (simp add: mesh_inv_def)
  obtain ret n c where g: "zb_nwk_neighbor_get_by_short (rq_dest_addr cmd) (nctx (tree s)) = Some (ret, n, c)" "ctx_inv c"
    using neighbor_by_short_total [OF i] by blast
  show ?thesis
  proof (cases "rq_dest_addr cmd = network_addr s")
    case True
    then have "fst (the (rreq_respond b m h cmd p s)) = s\<lparr>sequence_number := sequence_number s + 1\<rparr>"
        "rreq_respond b m h cmd p s \<noteq> None"
      by (simp_all add: rreq_respond_def Let_def)
    with i upd_tree_id [of s] show ?thesis by (metis option.exhaust_sel prod.collapse)
  next
    case False
    let ?s1 = "upd_tree (\<lambda>t. t\<lparr>nctx := c\<rparr>) s"
    have "fst (the (rreq_respond b m h cmd p s)) = ?s1\<lparr>sequence_number := sequence_number s + 1\<rparr>"
        "rreq_respond b m h cmd p s \<noteq> None"
      using False g by (simp_all add: rreq_respond_def Let_def)
    with g(2) show ?thesis by (metis option.exhaust_sel prod.collapse)
  qed
qed

lemma calc_path_cost_total:
  assumes inv: "mesh_inv s"
  shows "\<exists>c x. nwk_calc_path_cost src s = Some (c, upd_tree (\<lambda>t. t\<lparr>nctx := x\<rparr>) s) \<and> ctx_inv x"
proof -
  have i: "ctx_inv (nctx (tree s))" using inv by (simp add: mesh_inv_def)
  obtain ret n c where g: "zb_nwk_neighbor_get_by_short src (nctx (tree s)) = Some (ret, n, c)" "ctx_inv c"
    using neighbor_by_short_total [OF i] by blast
  show ?thesis
  proof (cases "nwk_report_constant_cost s")
    case True
    then show ?thesis using i upd_tree_id [of s] by (auto simp: nwk_calc_path_cost_def)
  next
    case False
    then show ?thesis using g by (auto simp: nwk_calc_path_cost_def Let_def)
  qed
qed

lemma calc_path_cost_inv:
  "mesh_inv s \<Longrightarrow> nwk_calc_path_cost src s = Some (c, s1) \<Longrightarrow> mesh_inv s1"
  using calc_path_cost_total [of s src] by (auto simp: mesh_inv_ctx)

section \<open>Handlers\<close>

lemma rreq_handler_inv:
  assumes inv: "mesh_inv s"
  shows "\<exists>s' acts. zb_nwk_mesh_rreq_handler b m h cmd s = Some (s', acts) \<and> mesh_inv s'"
proof -
  obtain c x where c: "nwk_calc_path_cost (h_src_addr h) s = Some (c, upd_tree (\<lambda>t. t\<lparr>nctx := x\<rparr>) s)" "ctx_inv x"
    using calc_path_cost_total [OF inv] by blast
  let ?s1 = "upd_tree (\<lambda>t. t\<lparr>nctx := x\<rparr>) s"
  have i1: "mesh_inv ?s1" using inv c(2) by (rule mesh_inv_ctx)
  obtain ret ri s2 where r: "rreq_routing (rq_dest_addr cmd) ?s1 = (ret, ri, s2)" by (metis prod_cases3)
  note rs = rreq_routing_spec [OF i1 r]
  show ?thesis
  proof (cases "ret = RET_OK")
    case False
    then have "mesh_inv (fst (rreq_failed b None ri cmd s2))" using rs by (simp add: rreq_failed_def Let_def)
    then show ?thesis using c r False by (cases "rreq_failed b None ri cmd s2") (simp add: zb_nwk_mesh_rreq_handler_def Let_def)
  next
    case True
    obtain ret2 go di s3 where d: "rreq_disc m h cmd (c + rq_path_cost cmd) s2 = (ret2, go, di, s3)" by (metis prod_cases4)
    note ds = rreq_disc_spec [OF rs(1) d]
    show ?thesis
    proof (cases "ret2 = RET_OK")
      case False
      have "mesh_inv (put_routing i s3)" if "ri = Some i" for i
        using put_routing_inv [OF ds(1), of i] ds(3) [OF False] rs(3) [OF True] that by simp
      then have "mesh_inv (fst (rreq_failed b di ri cmd s3))"
        using ds(3) [OF False] rs(3) [OF True] by (auto simp: rreq_failed_def Let_def)
      then show ?thesis using c r d True False
        by (cases "rreq_failed b di ri cmd s3") (simp add: zb_nwk_mesh_rreq_handler_def Let_def)
    next
      case ok: True
      obtain y acts where "rreq_respond b m h cmd (c + rq_path_cost cmd) s3 =
          Some ((upd_tree (\<lambda>t. t\<lparr>nctx := y\<rparr>) s3)\<lparr>sequence_number := sequence_number s3 + 1\<rparr>, acts)" "ctx_inv y"
        using rreq_respond_spec [OF ds(1)] by blast
      then show ?thesis using c r d True ok mesh_inv_ctx [OF ds(1)] ds(1)
        by (cases go) (simp_all add: zb_nwk_mesh_rreq_handler_def Let_def)
    qed
  qed
qed

lemma route_discovery_inv:
  "mesh_inv s \<Longrightarrow> \<exists>s' acts. zb_nwk_mesh_route_discovery cb d r s = Some (s', acts) \<and> mesh_inv s'"
  unfolding zb_nwk_mesh_route_discovery_def Let_def
  by (cases cb) (simp, simp only: option.case, rule rreq_handler_inv, simp)

text \<open>What a handled request can change.\<close>

lemma rreq_handler_keeps:
  assumes inv: "mesh_inv s" and h: "zb_nwk_mesh_rreq_handler b m h cmd s = Some (s', acts)"
  shows "pending_table s' = pending_table s \<and> pending_table_cnt s' = pending_table_cnt s \<and> rreq_id s' = rreq_id s
    \<and> (\<exists>c. tree s' = (tree s)\<lparr>nctx := c\<rparr>)"
proof -
  obtain c x where c: "nwk_calc_path_cost (h_src_addr h) s = Some (c, upd_tree (\<lambda>t. t\<lparr>nctx := x\<rparr>) s)" "ctx_inv x"
    using calc_path_cost_total [OF inv] by blast
  let ?s1 = "upd_tree (\<lambda>t. t\<lparr>nctx := x\<rparr>) s"
  have i1: "mesh_inv ?s1" using inv c(2) by (rule mesh_inv_ctx)
  obtain ret ri s2 where r: "rreq_routing (rq_dest_addr cmd) ?s1 = (ret, ri, s2)" by (metis prod_cases3)
  note rs = rreq_routing_spec [OF i1 r]
  obtain ret2 go di s3 where d: "rreq_disc m h cmd (c + rq_path_cost cmd) s2 = (ret2, go, di, s3)" by (metis prod_cases4)
  note ds = rreq_disc_spec [OF rs(1) d]
  obtain y acts3 where y: "rreq_respond b m h cmd (c + rq_path_cost cmd) s3 =
      Some ((upd_tree (\<lambda>t. t\<lparr>nctx := y\<rparr>) s3)\<lparr>sequence_number := sequence_number s3 + 1\<rparr>, acts3)"
    using rreq_respond_spec [OF ds(1)] by blast
  have f: "pending_table (fst (rreq_failed b e r cmd u)) = pending_table u"
      "pending_table_cnt (fst (rreq_failed b e r cmd u)) = pending_table_cnt u" "tree (fst (rreq_failed b e r cmd u)) = tree u"
      "rreq_id (fst (rreq_failed b e r cmd u)) = rreq_id u" for e r u
    by (auto simp: rreq_failed_def put_routing_def put_disc_def Let_def split: option.split prod.split)
  have "s' \<in> {fst (rreq_failed b None ri cmd s2), fst (rreq_failed b di ri cmd s3), s3,
      (upd_tree (\<lambda>t. t\<lparr>nctx := y\<rparr>) s3)\<lparr>sequence_number := sequence_number s3 + 1\<rparr>}"
    using h c r d y by (auto simp: zb_nwk_mesh_rreq_handler_def Let_def split: if_split_asm)
  moreover have "pending_table s3 = pending_table s2" "pending_table_cnt s3 = pending_table_cnt s2" "tree s3 = tree s2"
      "rreq_id s3 = rreq_id s2"
    by (subst ds(2), simp)+
  moreover have "pending_table s2 = pending_table s" "pending_table_cnt s2 = pending_table_cnt s"
      "tree s2 = (tree s)\<lparr>nctx := x\<rparr>" "rreq_id s2 = rreq_id s"
    by (subst rs(2), simp)+
  ultimately show ?thesis using f by auto
qed

lemma send_pending_inv:
  "mesh_inv s \<Longrightarrow> \<forall>i\<in>set is. i < ZB_NWK_PENDING_TABLE_SIZE \<Longrightarrow> send_pending is dest s = (s', acts) \<Longrightarrow> mesh_inv s'"
proof (induction "is" dest s arbitrary: acts rule: send_pending.induct)
  case (2 i "is" dest s)
  have l: "i < length (pending_table s)" using 2 by (simp add: mesh_inv_def pend_ok_def)
  then show ?case using 2 put_pend_inv [OF 2(3) l] by (auto simp: Let_def split: if_split_asm prod.split_asm)
qed simp

lemma rrep_arrived_inv: "mesh_inv s \<Longrightarrow> mesh_inv (fst (rrep_arrived b d s))"
  using send_pending_inv [of s "[0..<ZB_NWK_PENDING_TABLE_SIZE]" d]
  by (auto simp: rrep_arrived_def split: prod.split)

lemma rrep_handler_inv:
  assumes inv: "mesh_inv s"
  shows "\<exists>s' acts. zb_nwk_mesh_rrep_handler b m h cmd s = Some (s', acts) \<and> mesh_inv s'"
proof -
  obtain c x where c: "nwk_calc_path_cost (h_src_addr h) s = Some (c, upd_tree (\<lambda>t. t\<lparr>nctx := x\<rparr>) s)" "ctx_inv x"
    using calc_path_cost_total [OF inv] by blast
  define s1 where "s1 = upd_tree (\<lambda>t. t\<lparr>nctx := x\<rparr>) s"
  have i1: "mesh_inv s1" using inv c(2) by (simp add: s1_def mesh_inv_ctx)
  show ?thesis
  proof (cases "find_disc (rp_rreq_id cmd) (rp_originator cmd) s1")
    case None
    have "mesh_inv (put_routing r s1)" if "find_route (rp_responder cmd) s1 = Some r" for r
      using rt.find_SomeD [OF that [unfolded find_route_def]] put_routing_inv [OF i1] by blast
    then show ?thesis using c None i1 by (cases "find_route (rp_responder cmd) s1")
        (simp_all add: zb_nwk_mesh_rrep_handler_def flip: s1_def)
  next
    case (Some d)
    note fd = rd.find_SomeD [OF Some [unfolded find_disc_def]]
    show ?thesis
    proof (cases "find_route (rp_responder cmd) s1")
      case None
      then show ?thesis using c Some put_disc_inv [OF i1] fd by (simp add: zb_nwk_mesh_rrep_handler_def flip: s1_def)
    next
      case r: (Some r)
      note fr = rt.find_SomeD [OF r [unfolded find_route_def]]
      let ?de = "(route_disc_table s1 ! d)\<lparr>rd_residual_cost := c + rp_path_cost cmd, rd_expiration_time := ZB_NWK_ROUTE_DISCOVERY_EXPIRY\<rparr>"
      let ?re = "(routing_table s1 ! r)\<lparr>rt_next_hop_addr := nwk_get_mac_source_addr m s1,
          rt_status := (if rt_status (routing_table s1 ! r) = ROUTE_DISCOVERY_UNDERWAY then ROUTE_VALIDATION_UNDERWAY
            else rt_status (routing_table s1 ! r))\<rparr>"
      have i2: "mesh_inv (set_routing r ?re (set_disc d ?de s1))"
        using i1 fd fr by (simp add: mesh_inv_def set_routing_def set_disc_def routing_ok_same disc_ok_same)
      obtain s3 acts where a: "rrep_arrived b (rt_dest_addr (routing_table s1 ! r)) (set_routing r ?re (set_disc d ?de s1)) = (s3, acts)"
        by fastforce
      then have "mesh_inv s3" using rrep_arrived_inv [OF i2, of b "rt_dest_addr (routing_table s1 ! r)"] by simp
      moreover obtain s4 acts4 where e: "zb_nwk_mesh_send_rrep b (rp_rreq_id cmd) (rp_originator cmd) (rp_responder cmd)
          (c + rp_path_cost cmd) (rd_sender_addr (route_disc_table s1 ! d)) (set_routing r ?re (set_disc d ?de s1)) = (s4, acts4)"
        by fastforce
      moreover have "mesh_inv s4" using mesh_inv_send(2) [OF e] i2 by simp
      ultimately show ?thesis using c Some r i1 a
        by (simp add: zb_nwk_mesh_rrep_handler_def Let_def flip: s1_def)
    qed
  qed
qed


section \<open>Timers and the other operations\<close>

lemma set_disc_time_inv:
  assumes "mesh_inv s" "i < length (route_disc_table s)" "rd_used (route_disc_table s ! i)"
  shows "mesh_inv (set_disc i ((route_disc_table s ! i)\<lparr>rd_expiration_time := rd_expiration_time (route_disc_table s ! i) - 1\<rparr>) s)"
proof -
  have "rd_expiration_time (route_disc_table s ! i) \<le> ZB_NWK_ROUTE_DISCOVERY_EXPIRY"
    using assms by (simp add: mesh_inv_def disc_ok_def all_used_def)
  then show ?thesis using assms by (simp add: mesh_inv_def set_disc_def disc_ok_same)
qed

lemma expiry_disc_loop_inv:
  "mesh_inv s \<Longrightarrow> \<forall>i\<in>set is. i < ZB_NWK_ROUTE_DISCOVERY_TABLE_SIZE \<Longrightarrow> mesh_inv (fst (expiry_disc_loop is s))"
proof (induction "is" s rule: expiry_disc_loop.induct)
  case (2 i "is" s)
  have l: "i < length (route_disc_table s)" using 2 by (simp add: mesh_inv_def disc_ok_def)
  show ?case
  proof (cases "rd_used (route_disc_table s ! i)")
    case False
    then show ?thesis using 2 by (simp add: Let_def)
  next
    case u: True
    show ?thesis
    proof (cases "rd_expiration_time (route_disc_table s ! i) = 0")
      case False
      then show ?thesis using 2 u set_disc_time_inv [OF 2(4) l u] by (simp add: Let_def)
    next
      case t: True
      have p: "mesh_inv (put_disc i s)" using put_disc_inv [OF 2(4) l u] .
      show ?thesis
      proof (cases "failed_route s")
        case None
        then show ?thesis using 2 u t p by (simp add: Let_def)
      next
        case (Some r)
        have "r < length (routing_table s)" "rt_used (routing_table s ! r)"
          using rt.find_SomeD [OF Some [unfolded failed_route_def]] by simp_all
        then show ?thesis using u t p Some by (simp add: Let_def put_routing_inv)
      qed
    qed
  qed
qed simp

lemma expiry_disc_inv: "mesh_inv s \<Longrightarrow> mesh_inv (fst (zb_nwk_mesh_expiry_route_disc s))"
  by (simp add: zb_nwk_mesh_expiry_route_disc_def expiry_disc_loop_inv)

lemma expiry_pending_loop_inv:
  "mesh_inv s \<Longrightarrow> \<forall>i\<in>set is. i < ZB_NWK_PENDING_TABLE_SIZE \<Longrightarrow> mesh_inv (fst (expiry_pending_loop is s))"
proof (induction "is" s rule: expiry_pending_loop.induct)
  case (2 i "is" s)
  have l: "i < length (pending_table s)" using 2 by (simp add: mesh_inv_def pend_ok_def)
  have e: "pd_expiry (pending_table s ! i) \<le> ZB_NWK_PENDING_ENTRY_EXPIRY" if "pd_used (pending_table s ! i)"
    using 2 l that by (simp add: mesh_inv_def pend_ok_def all_used_def)
  show ?case using 2 put_pend_inv [OF 2(4) l] set_pend_inv [OF 2(4) l] e
    by (auto simp: Let_def split: prod.split)
qed simp

lemma expiry_pending_inv: "mesh_inv s \<Longrightarrow> mesh_inv (fst (zb_nwk_mesh_expiry_pending s))"
  using expiry_pending_loop_inv [of s "[0..<ZB_NWK_PENDING_TABLE_SIZE]"]
  by (auto simp: zb_nwk_mesh_expiry_pending_def split: prod.split)

lemma add_pending_inv: "mesh_inv s \<Longrightarrow> mesh_inv (snd (zb_nwk_mesh_add_buf_to_pending b h s))"
proof -
  assume inv: "mesh_inv s"
  obtain q ys c where g: "nwk_array_get_ent pd_used pd_mark (pending_table s) (pending_table_cnt s) = (q, ys, c)"
    by (metis prod_cases3)
  show ?thesis
  proof (cases q)
    case None
    have "ys = pending_table s" "c = pending_table_cnt s" using pd.get_NoneD g None by auto
    then show ?thesis using g None inv by (simp add: zb_nwk_mesh_add_buf_to_pending_def get_pend_def)
  next
    case (Some i)
    note gs = pd.get_SomeD [OF g [unfolded Some]]
    let ?e = "pd_mark True (pending_table s ! i)\<lparr>pd_buf := b, pd_handle := h, pd_dest_addr := buf_dst s b,
        pd_expiry := ZB_NWK_PENDING_ENTRY_EXPIRY, pd_waiting_buf := True\<rparr>"
    have ok: "pend_ok (pending_table s) (pending_table_cnt s)" using inv by (simp add: mesh_inv_def)
    have "counted pd_used (ys[i := ?e]) c" using gs ok by (intro pd.counted_same) (simp_all add: table_ok)
    moreover have "all_used pd_used (\<lambda>e. pd_expiry e \<le> ZB_NWK_PENDING_ENTRY_EXPIRY) ((pending_table s)[i := ?e])"
      using ok by (intro pd.all_update) (simp_all add: table_ok)
    ultimately have "pend_ok (ys[i := ?e]) c" using gs ok by (simp add: table_ok)
    then show ?thesis using g Some inv gs
      by (simp add: zb_nwk_mesh_add_buf_to_pending_def get_pend_def set_pend_def mesh_inv_def)
  qed
qed

lemma initiate_inv:
  assumes inv: "mesh_inv s"
  shows "zb_nwk_mesh_initiate_route_discovery p s = None \<longleftrightarrow> (\<forall>e\<in>set (pending_table s). pd_used e \<longrightarrow> \<not> pd_waiting_buf e)"
    and "zb_nwk_mesh_initiate_route_discovery p s = Some (s', acts) \<Longrightarrow> mesh_inv s'"
proof -
  let ?f = "nwk_array_find_ent pd_used (\<lambda>i. pd_waiting_buf) (pending_table s)"
  have none: "?f = None \<longleftrightarrow> (\<forall>e\<in>set (pending_table s). pd_used e \<longrightarrow> \<not> pd_waiting_buf e)"
    by (auto simp: nwk_array_find_ent_def find_None_iff all_set_conv_all_nth)
  show "zb_nwk_mesh_initiate_route_discovery p s = None \<longleftrightarrow> (\<forall>e\<in>set (pending_table s). pd_used e \<longrightarrow> \<not> pd_waiting_buf e)"
  proof (cases ?f)
    case (Some i)
    then show ?thesis using none route_discovery_inv [OF inv, of "Some p" "buf_dst s (pd_buf (pending_table s ! i))" 0]
      by (auto simp: zb_nwk_mesh_initiate_route_discovery_def)
  qed (use none in \<open>simp add: zb_nwk_mesh_initiate_route_discovery_def\<close>)
  assume h: "zb_nwk_mesh_initiate_route_discovery p s = Some (s', acts)"
  then obtain i where i: "?f = Some i" by (auto simp: zb_nwk_mesh_initiate_route_discovery_def split: option.splits)
  obtain s1 acts1 where d: "zb_nwk_mesh_route_discovery (Some p) (buf_dst s (pd_buf (pending_table s ! i))) 0 s = Some (s1, acts1)"
      "mesh_inv s1"
    using route_discovery_inv [OF inv] by blast
  have "pending_table s1 = pending_table s"
    using rreq_handler_keeps [of "s\<lparr>rreq_id := rreq_id s + 1\<rparr>"] d(1) inv
    by (auto simp: zb_nwk_mesh_route_discovery_def Let_def)
  moreover have "s' = set_pend i ((pending_table s1 ! i)\<lparr>pd_waiting_buf := False\<rparr>) s1"
    using h i d by (simp add: zb_nwk_mesh_initiate_route_discovery_def)
  moreover have "i < length (pending_table s)" "pd_used (pending_table s ! i)" using pd.find_SomeD [OF i] by simp_all
  moreover have "pd_expiry (pending_table s ! i) \<le> ZB_NWK_PENDING_ENTRY_EXPIRY"
    using inv calculation(3,4) by (simp add: mesh_inv_def pend_ok_def all_used_def)
  ultimately show "mesh_inv s'" using set_pend_inv [OF d(2)] by simp
qed

lemma route_request_inv:
  assumes inv: "mesh_inv s"
  shows "\<exists>s' acts. zb_nlme_route_discovery_request b req s = Some (s', acts) \<and> mesh_inv s'"
proof -
  have i: "ctx_inv (nctx (tree s))" using inv by (simp add: mesh_inv_def)
  obtain ret n c where g: "zb_nwk_neighbor_get_by_short (rdr_network_addr req) (nctx (tree s)) = Some (ret, n, c)" "ctx_inv c"
    using neighbor_by_short_total [OF i] by blast
  have i1: "mesh_inv (upd_tree (\<lambda>t. t\<lparr>nctx := c\<rparr>) s)" using inv g(2) by (rule mesh_inv_ctx)
  then have i2: "mesh_inv ((upd_tree (\<lambda>t. t\<lparr>nctx := c\<rparr>) s)\<lparr>aps_rreq_addr := rdr_network_addr req\<rparr>)" by simp
  show ?thesis using g inv i1 route_discovery_inv [OF i2]
    by (auto simp: zb_nlme_route_discovery_request_def Let_def)
qed

end
