(* ===== verification/Nwk_Mesh_Props.thy ===== *)
theory Nwk_Mesh_Props
  imports Nwk_Mesh_Handlers Nwk_Tree_Props
begin

text \<open>
  Properties of the mesh routing of one node: the tables keep their form over every history, what a new request, a
  reply to the own request and an expired discovery do, and what happens to a working route when a table is full.
\<close>

section \<open>Histories\<close>

datatype mesh_op =
    Op_rreq nat "u16 option" nwk_hdr zb_nwk_cmd_rreq
  | Op_rrep nat "u16 option" nwk_hdr zb_nwk_cmd_rrep
  | Op_discovery_request nat zb_nlme_route_discovery_req
  | Op_route_discovery "nat option" u16 u8
  | Op_initiate nat
  | Op_add_pending nat u8
  | Op_expiry_route_disc
  | Op_expiry_pending

fun mesh_step :: "mesh_op \<Rightarrow> nwk_mesh \<Rightarrow> (nwk_mesh \<times> mesh_action list) option" where
  "mesh_step (Op_rreq b m h c) s = zb_nwk_mesh_rreq_handler b m h c s"
| "mesh_step (Op_rrep b m h c) s = zb_nwk_mesh_rrep_handler b m h c s"
| "mesh_step (Op_discovery_request b r) s = zb_nlme_route_discovery_request b r s"
| "mesh_step (Op_route_discovery b d r) s = zb_nwk_mesh_route_discovery b d r s"
| "mesh_step (Op_initiate b) s = zb_nwk_mesh_initiate_route_discovery b s"
| "mesh_step (Op_add_pending b h) s = Some (snd (zb_nwk_mesh_add_buf_to_pending b h s), [])"
| "mesh_step Op_expiry_route_disc s = Some (zb_nwk_mesh_expiry_route_disc s)"
| "mesh_step Op_expiry_pending s = Some (zb_nwk_mesh_expiry_pending s)"

text \<open>A history ends in a state or stops the program at one of its operations.\<close>

inductive mesh_run :: "nwk_mesh \<Rightarrow> mesh_op list \<Rightarrow> nwk_mesh \<Rightarrow> bool" where
  Start: "mesh_run s [] s"
| Step: "mesh_run s ops s1 \<Longrightarrow> mesh_step p s1 = Some (s2, acts) \<Longrightarrow> mesh_run s (ops @ [p]) s2"

lemma mesh_step_inv:
  assumes inv: "mesh_inv s" and st: "mesh_step p s = Some (s', acts)"
  shows "mesh_inv s'"
proof (cases p)
  case (Op_rreq b m h c)
  then show ?thesis using st rreq_handler_inv [OF inv, of b m h c] by auto
next
  case (Op_rrep b m h c)
  then show ?thesis using st rrep_handler_inv [OF inv, of b m h c] by auto
next
  case (Op_discovery_request b r)
  then show ?thesis using st route_request_inv [OF inv, of b r] by auto
next
  case (Op_route_discovery b d r)
  then show ?thesis using st route_discovery_inv [OF inv, of b d r] by auto
next
  case (Op_initiate b)
  then show ?thesis using st initiate_inv(2) [OF inv] by simp
next
  case (Op_add_pending b h)
  then show ?thesis using st add_pending_inv [OF inv, of b h] by simp
next
  case Op_expiry_route_disc
  then show ?thesis using st expiry_disc_inv [OF inv] by simp
next
  case Op_expiry_pending
  then show ?thesis using st expiry_pending_inv [OF inv] by simp
qed

text \<open>
  C34: Over every history of handled frames, requests, buffers and timers the tables of the mesh routing keep their form: their sizes, counters that
  are the numbers of used entries, one routing entry for a destination, one discovery entry for an identifier and a source, and timers
  within their limits. And no operation stops the program, except the delivery of a buffer that no frame waits for.
\<close>

theorem mesh_history_is_sound:
  assumes inv: "mesh_inv s" and run: "mesh_run s ops s'"
  shows "mesh_inv s' \<and> (mesh_step p s' = None \<longleftrightarrow>
    (\<exists>b. p = Op_initiate b \<and> (\<forall>e\<in>set (pending_table s'). pd_used e \<longrightarrow> \<not> pd_waiting_buf e)))"
proof -
  from run inv have i: "mesh_inv s'"
  proof induction
    case (Step s ops s1 p s2 acts)
    then show ?case using mesh_step_inv by blast
  qed
  have "mesh_step p s' = None \<longleftrightarrow> (\<exists>b. p = Op_initiate b \<and> (\<forall>e\<in>set (pending_table s'). pd_used e \<longrightarrow> \<not> pd_waiting_buf e))"
  proof (cases p)
    case (Op_rreq b m h c)
    then show ?thesis using rreq_handler_inv [OF i, of b m h c] by auto
  next
    case (Op_rrep b m h c)
    then show ?thesis using rrep_handler_inv [OF i, of b m h c] by auto
  next
    case (Op_discovery_request b r)
    then show ?thesis using route_request_inv [OF i, of b r] by auto
  next
    case (Op_route_discovery b d r)
    then show ?thesis using route_discovery_inv [OF i, of b d r] by auto
  next
    case (Op_initiate b)
    then show ?thesis using initiate_inv(1) [OF i, of b] by simp
  qed simp_all
  with i show ?thesis by blast
qed

abbreviation no_route :: zb_nwk_routing where
  "no_route \<equiv> \<lparr>rt_used = False, rt_status = ROUTE_ACTIVE, rt_dest_addr = 0, rt_next_hop_addr = 0\<rparr>"

abbreviation no_disc :: zb_nwk_route_discovery where
  "no_disc \<equiv> \<lparr>rd_used = False, rd_request_id = 0, rd_source_addr = 0, rd_sender_addr = 0, rd_dest_addr = 0,
     rd_forward_cost = 0, rd_residual_cost = 0, rd_expiration_time = 0\<rparr>"

abbreviation no_pend :: zb_nwk_pend where
  "no_pend \<equiv> \<lparr>pd_used = False, pd_buf = 0, pd_handle = 0, pd_dest_addr = 0, pd_expiry = 0, pd_waiting_buf = False\<rparr>"

lemma unique_keys_Cons [simp]:
  "unique_keys used key []"
  "unique_keys used key (x # xs) \<longleftrightarrow> (used x \<longrightarrow> (\<forall>y\<in>set xs. used y \<longrightarrow> key y \<noteq> key x)) \<and> unique_keys used key xs"
  by (auto simp: unique_keys_def All_less_Suc2 all_set_conv_all_nth)

lemma all_used_set: "all_used used P xs \<longleftrightarrow> (\<forall>e\<in>set xs. used e \<longrightarrow> P e)"
  by (auto simp: all_used_def all_set_conv_all_nth)

definition sample_node :: "u16 \<Rightarrow> nwk_mesh" where
  "sample_node a = \<lparr>tree = sample_tree\<lparr>mac_short_address := a\<rparr>,
     routing_table = [no_route, no_route, no_route, no_route, no_route], routing_table_cnt = 0,
     route_disc_table = [no_disc, no_disc, no_disc, no_disc, no_disc], route_disc_table_cnt = 0, rreq_id = 0,
     pending_table = [no_pend, no_pend, no_pend, no_pend, no_pend],
     pending_table_cnt = 0, aps_rreq_addr = - 1, nwk_report_constant_cost = False, device_type = DEVICE_TYPE_ROUTER,
     sequence_number = 0, secure_frames = True, status_ind_addr = 0, buf_dst = (\<lambda>b. 77)\<rparr>"

lemma sample_node_inv: "mesh_inv (sample_node a)"
proof -
  have "nb_inv (zb_nwk_neighbor_clear nb_zero)" by (rule clear_inv)
  then show ?thesis
    by (simp add: mesh_inv_def table_ok sample_node_def sample_tree_def ctx_inv_def table_sizes counted_def
        all_used_set)
qed

lemma sample_by_short:
  "addr c = addr_zero \<Longrightarrow> zb_nwk_neighbor_get_by_short a c = Some (RET_NOT_FOUND, None, c)"
  by (simp add: zb_nwk_neighbor_get_by_short_def zb_address_by_short_def short_search_def lock_if_def addr_zero_def)

theorem mesh_history_is_sound_witness:
  "\<exists>s'. mesh_run (sample_node 1) [Op_add_pending 3 9, Op_expiry_pending] s' \<and> mesh_inv s'
     \<and> mesh_step (Op_initiate 4) s' \<noteq> None"
proof -
  obtain s1 where s1: "mesh_step (Op_add_pending 3 9) (sample_node 1) = Some (s1, [])"
      "\<exists>e\<in>set (pending_table s1). pd_used e \<and> pd_waiting_buf e \<and> pd_expiry e = 20"
    by (simp add: zb_nwk_mesh_add_buf_to_pending_def get_pend_def nwk_array_get_ent_def sample_node_def set_pend_def upt_rec
        ZB_NWK_PENDING_ENTRY_EXPIRY_def)
  obtain s2 acts where s2: "zb_nwk_mesh_expiry_pending s1 = (s2, acts)" by fastforce
  have "\<exists>e\<in>set (pending_table s2). pd_used e \<and> pd_waiting_buf e"
    using s1 s2 by (auto simp: zb_nwk_mesh_expiry_pending_def zb_nwk_mesh_add_buf_to_pending_def get_pend_def nwk_array_get_ent_def
        sample_node_def set_pend_def upt_rec ZB_NWK_PENDING_ENTRY_EXPIRY_def ZB_NWK_PENDING_TABLE_SIZE_def Let_def)
  moreover have "mesh_run (sample_node 1) ([] @ [Op_add_pending 3 9]) s1" using s1(1) by (rule mesh_run.Step [OF mesh_run.Start])
  then have r: "mesh_run (sample_node 1) (([] @ [Op_add_pending 3 9]) @ [Op_expiry_pending]) s2"
    by (rule mesh_run.Step) (simp add: s2)
  ultimately show ?thesis using mesh_history_is_sound [OF sample_node_inv r, of "Op_initiate 4"] r by auto
qed

section \<open>A new request\<close>

lemma find_disc_unique:
  assumes "mesh_inv s" "i < length (route_disc_table s)" "rd_used (route_disc_table s ! i)"
    "rd_request_id (route_disc_table s ! i) = q" "rd_source_addr (route_disc_table s ! i) = a"
  shows "find_disc q a s = Some i"
  unfolding find_disc_def using assms
  by (intro rd.find_unique) (auto simp: mesh_inv_def disc_ok_def unique_keys_def)

lemma find_route_unique:
  assumes "mesh_inv s" "i < length (routing_table s)" "rt_used (routing_table s ! i)" "rt_dest_addr (routing_table s ! i) = d"
  shows "find_route d s = Some i"
  unfolding find_route_def using assms
  by (intro rt.find_unique) (auto simp: mesh_inv_def routing_ok_def unique_keys_def)

lemma rreq_disc_new:
  assumes inv: "mesh_inv s" and new: "find_disc (rq_rreq_id cmd) (h_src_addr h) s = None"
    and free: "\<exists>e\<in>set (route_disc_table s). \<not> rd_used e"
  shows "\<exists>i s1. rreq_disc m h cmd cost s = (RET_OK, True, Some i, s1) \<and> mesh_inv s1
    \<and> find_disc (rq_rreq_id cmd) (h_src_addr h) s1 = Some i
    \<and> (let e = route_disc_table s1 ! i in rd_sender_addr e = nwk_get_mac_source_addr m s \<and> rd_dest_addr e = rq_dest_addr cmd
         \<and> rd_forward_cost e = cost \<and> rd_residual_cost e = 0xff \<and> rd_expiration_time e = 10)"
proof -
  obtain q s2 where g: "get_disc s = (q, s2)" by fastforce
  then show ?thesis
  proof (cases rule: get_disc_cases)
    case full
    with free show ?thesis by (auto simp: in_set_conv_nth)
  next
    case (got i ys c)
    note gs = rd.get_SomeD [OF got(2)]
    obtain s3 where d: "rreq_disc m h cmd cost s = (RET_OK, True, Some i, s3)"
      using g got(1) new by (simp add: rreq_disc_def)
    have inv3: "mesh_inv s3" using rreq_disc_spec(1) [OF inv d] .
    have e: "i < length (route_disc_table s3)" "rd_used (route_disc_table s3 ! i)"
      "rd_request_id (route_disc_table s3 ! i) = rq_rreq_id cmd" "rd_source_addr (route_disc_table s3 ! i) = h_src_addr h"
      "rd_sender_addr (route_disc_table s3 ! i) = nwk_get_mac_source_addr m s" "rd_dest_addr (route_disc_table s3 ! i) = rq_dest_addr cmd"
      "rd_forward_cost (route_disc_table s3 ! i) = cost" "rd_residual_cost (route_disc_table s3 ! i) = 0xff"
      "rd_expiration_time (route_disc_table s3 ! i) = 10"
      using d g got(1,3) new gs
      by (auto simp: rreq_disc_def ZB_NWK_ROUTE_DISCOVERY_EXPIRY_def nwk_get_mac_source_addr_def split: option.split)
    with d inv3 find_disc_unique [OF inv3 e(1)] show ?thesis by (simp add: Let_def)
  qed
qed

lemma rreq_routing_ok:
  assumes inv: "mesh_inv s" and room: "find_route dest s \<noteq> None \<or> (\<exists>e\<in>set (routing_table s). \<not> rt_used e)"
  shows "\<exists>i s1. rreq_routing dest s = (RET_OK, Some i, s1)"
proof (cases "find_route dest s")
  case None
  obtain q s2 where g: "get_routing s = (q, s2)" by fastforce
  then show ?thesis
  proof (cases rule: get_routing_cases)
    case full
    with room None show ?thesis by (auto simp: in_set_conv_nth)
  qed (use None g in \<open>simp add: rreq_routing_def\<close>)
qed (auto simp: rreq_routing_def Let_def)


lemma sample_cost:
  "src \<noteq> a \<Longrightarrow> nwk_calc_path_cost src (sample_node a) = Some (7, sample_node a)"
  "nctx (tree (sample_node a)) = nctx sample_tree" "addr (nctx sample_tree) = addr_zero"
  by (simp_all add: nwk_calc_path_cost_def sample_node_def sample_tree_def sample_by_short ZB_NWK_STATIC_PATH_COST_def
      upd_tree_def Let_def)

definition sample_hdr :: "u16 \<Rightarrow> nwk_hdr" where
  "sample_hdr src = \<lparr>h_src_addr = src, h_dst_addr = 0xfffc, h_radius = 9, h_seq_num = 3, h_secure = True\<rparr>"


section \<open>A full table of discoveries\<close>

text \<open>
  A new request for a destination that the node has a route to deletes this route, also an active one, when the table of
  discoveries is full. The buffer is freed; the higher layer hears of the failure only if it has asked
  for this destination and the destination is not the coordinator, whose address is 0.
\<close>

theorem full_discovery_table_deletes_the_route:
  assumes inv: "mesh_inv s" and full: "\<forall>e\<in>set (route_disc_table s). rd_used e"
    and new: "find_disc (rq_rreq_id cmd) (h_src_addr h) s = None" and route: "find_route (rq_dest_addr cmd) s = Some r"
  shows "\<exists>s' act. zb_nwk_mesh_rreq_handler b m h cmd s = Some (s', [act]) \<and> find_route (rq_dest_addr cmd) s' = None
    \<and> routing_table_cnt s' = routing_table_cnt s - 1 \<and> route_disc_table s' = route_disc_table s
    \<and> act = (if aps_rreq_addr s = rq_dest_addr cmd \<and> rq_dest_addr cmd \<noteq> 0
             then Route_discovery_confirm b NWK_STATUS_ROUTE_ERROR 0 else Free_buf b)"
proof -
  obtain c x where c: "nwk_calc_path_cost (h_src_addr h) s = Some (c, upd_tree (\<lambda>t. t\<lparr>nctx := x\<rparr>) s)" "ctx_inv x"
    using calc_path_cost_total [OF inv] by blast
  define s1 where "s1 = upd_tree (\<lambda>t. t\<lparr>nctx := x\<rparr>) s"
  have i1: "mesh_inv s1" using mesh_inv_ctx [OF inv c(2)] by (simp add: s1_def)
  have r1: "find_route (rq_dest_addr cmd) s1 = Some r" using route by (simp add: s1_def find_route_def)
  define s2 where "s2 = snd (snd (rreq_routing (rq_dest_addr cmd) s1))"
  have rr: "rreq_routing (rq_dest_addr cmd) s1 = (RET_OK, Some r, s2)"
    using r1 by (simp add: rreq_routing_def Let_def s2_def)
  note rs = rreq_routing_spec [OF i1 rr]
  have e2: "route_disc_table s2 = route_disc_table s" "route_disc_table_cnt s2 = route_disc_table_cnt s"
    "aps_rreq_addr s2 = aps_rreq_addr s" by (subst rs(2), simp add: s1_def)+
  have c2: "routing_table_cnt s2 = routing_table_cnt s"
    using rr r1 by (auto simp: rreq_routing_def Let_def s1_def set_routing_def split: if_split_asm)
  have "find (\<lambda>i. \<not> rd_used (route_disc_table s ! i)) [0..<length (route_disc_table s)] = None"
    using full by (auto simp: find_None_iff)
  then have d: "rreq_disc m h cmd p s2 = (RET_NO_MEMORY, False, None, s2)" for p
    using new by (simp add: rreq_disc_def get_disc_def nwk_array_get_ent_def find_disc_def flip: e2)
  have u: "r < length (routing_table s2)" "rt_used (routing_table s2 ! r)" "rt_dest_addr (routing_table s2 ! r) = rq_dest_addr cmd"
    using rs(3) by simp_all
  have "find_route (rq_dest_addr cmd) (put_routing r s2) = None"
  proof (cases "find_route (rq_dest_addr cmd) (put_routing r s2)")
    case (Some k)
    note f = rt.find_SomeD [OF Some [unfolded find_route_def]]
    then have "k \<noteq> r" using u(1) by auto
    with f u rs(1) show ?thesis by (auto simp: mesh_inv_def routing_ok_def unique_keys_def nth_update)
  qed simp
  moreover have "routing_table_cnt (put_routing r s2) = routing_table_cnt s - 1"
    by (simp add: put_routing_def nwk_array_put_ent_def c2)
  moreover have "rreq_failed b None (Some r) cmd s2 = (put_routing r s2, [if aps_rreq_addr s = rq_dest_addr cmd \<and> rq_dest_addr cmd \<noteq> 0
             then Route_discovery_confirm b NWK_STATUS_ROUTE_ERROR 0 else Free_buf b])"
    by (auto simp: rreq_failed_def Let_def e2 COMMAND_STATUS_NO_ROUTE_AVAILABLE_def)
  ultimately show ?thesis using c(1) rr d e2(1)
    by (simp add: zb_nwk_mesh_rreq_handler_def Let_def flip: s1_def)
qed

definition busy_node :: nwk_mesh where
  "busy_node = (sample_node 1)
     \<lparr>routing_table := [\<lparr>rt_used = True, rt_status = ROUTE_ACTIVE, rt_dest_addr = 70, rt_next_hop_addr = 9\<rparr>, no_route, no_route,
        no_route, no_route], routing_table_cnt := 1,
      route_disc_table := map (\<lambda>a. no_disc\<lparr>rd_used := True, rd_source_addr := a\<rparr>) [11, 12, 13, 14, 15], route_disc_table_cnt := 5\<rparr>"

lemma busy_node_inv: "mesh_inv busy_node"
  using sample_node_inv [of 1]
  by (simp add: busy_node_def mesh_inv_def table_ok table_sizes counted_def all_used_set)

theorem full_discovery_table_deletes_the_route_witness:
  "rt_status (routing_table busy_node ! the (find_route 70 busy_node)) = ROUTE_ACTIVE
    \<and> (\<exists>s'. zb_nwk_mesh_rreq_handler 4 (Some 9) (sample_hdr 5) \<lparr>rq_rreq_id = 3, rq_dest_addr = 70, rq_path_cost = 6\<rparr> busy_node =
      Some (s', [Free_buf 4]) \<and> find_route 70 s' = None)"
proof -
  have r: "find_route 70 busy_node = Some 0" by (simp add: busy_node_def find_route_def nwk_array_find_ent_def upt_rec)
  have t: "\<forall>e\<in>set (route_disc_table busy_node). rd_used e" "find_disc 3 5 busy_node = None" "aps_rreq_addr busy_node = - 1"
    by (simp_all add: busy_node_def find_disc_def nwk_array_find_ent_def upt_rec) (simp add: sample_node_def)
  show ?thesis
    using full_discovery_table_deletes_the_route [OF busy_node_inv t(1), of "\<lparr>rq_rreq_id = 3, rq_dest_addr = 70, rq_path_cost = 6\<rparr>"
        "sample_hdr 5" 0 4 "Some 9"] r t by (auto simp: sample_hdr_def busy_node_def)
qed

section \<open>The reply to the own request\<close>

lemma send_pending_spec:
  assumes "send_pending is d s = (s', acts)" "distinct is" "\<forall>i\<in>set is. i < length (pending_table s)"
  shows "acts = map (\<lambda>i. Forward_pending (pd_buf (pending_table s ! i)) (pd_handle (pending_table s ! i)))
      (filter (\<lambda>i. pd_used (pending_table s ! i) \<and> pd_dest_addr (pending_table s ! i) = d) is)
    \<and> length (pending_table s') = length (pending_table s)
    \<and> (\<forall>j < length (pending_table s). pending_table s' ! j =
         (if j \<in> set is \<and> pd_used (pending_table s ! j) \<and> pd_dest_addr (pending_table s ! j) = d
          then pd_mark False (pending_table s ! j) else pending_table s ! j))
    \<and> routing_table s' = routing_table s \<and> route_disc_table s' = route_disc_table s \<and> aps_rreq_addr s' = aps_rreq_addr s
    \<and> tree s' = tree s"
  using assms
proof (induction "is" arbitrary: s acts)
  case Nil
  then show ?case by simp
next
  case (Cons i "is")
  show ?case
  proof (cases "pd_used (pending_table s ! i) \<and> pd_dest_addr (pending_table s ! i) = d")
    case True
    then obtain acts' where a: "send_pending is d (put_pend i s) = (s', acts')"
        "acts = Forward_pending (pd_buf (pending_table s ! i)) (pd_handle (pending_table s ! i)) # acts'"
      using Cons.prems(1) by (auto simp: Let_def split: prod.split_asm)
    have ne: "pending_table (put_pend i s) ! j = pending_table s ! j" if "j \<in> set is" for j using that Cons.prems(2) by (cases "j = i") auto
    have "acts' = map (\<lambda>i. Forward_pending (pd_buf (pending_table s ! i)) (pd_handle (pending_table s ! i)))
      (filter (\<lambda>i. pd_used (pending_table s ! i) \<and> pd_dest_addr (pending_table s ! i) = d) is)"
    proof -
      have "map (\<lambda>i. Forward_pending (pd_buf (pending_table (put_pend i' s) ! i)) (pd_handle (pending_table (put_pend i' s) ! i)))
          (filter (\<lambda>i. pd_used (pending_table (put_pend i' s) ! i) \<and> pd_dest_addr (pending_table (put_pend i' s) ! i) = d) is) =
        map (\<lambda>i. Forward_pending (pd_buf (pending_table s ! i)) (pd_handle (pending_table s ! i)))
          (filter (\<lambda>i. pd_used (pending_table s ! i) \<and> pd_dest_addr (pending_table s ! i) = d) is)" if "i' = i" for i'
        using ne that by (intro map_cong filter_cong) auto
      then show ?thesis using Cons.IH [OF a(1)] Cons.prems(2,3) by simp
    qed
    then show ?thesis using Cons.IH [OF a(1)] Cons.prems(2,3) a(2) True by (auto simp: nth_list_update)
  next
    case False
    then have "send_pending is d s = (s', acts)" using Cons.prems(1) by (auto simp: Let_def split: if_split_asm)
    with Cons.IH [of s acts] Cons.prems(2,3) False show ?thesis by auto
  qed
qed

text \<open>
  A reply to an own request that is not worse than the best one so far sets the next hop of the route to the node the reply came from, makes the
  route usable, and sends all frames that wait for the destination and no others, in the order of the table. If the higher
  layer has asked for the destination, the buffer of the reply is passed to it and freed at the same time.
\<close>

theorem reply_to_own_request_sends_what_waits:
  assumes inv: "mesh_inv s" and cost: "nwk_calc_path_cost (h_src_addr h) s = Some (c, s1)"
    and own: "rp_originator cmd = network_addr s"
    and d: "find_disc (rp_rreq_id cmd) (rp_originator cmd) s = Some d" and r: "find_route (rp_responder cmd) s = Some r"
    and better: "c + rp_path_cost cmd \<le> rd_residual_cost (route_disc_table s ! d)"
  shows "\<exists>s'. zb_nwk_mesh_rrep_handler b m h cmd s = Some (s',
      map (\<lambda>e. Forward_pending (pd_buf e) (pd_handle e))
        (filter (\<lambda>e. pd_used e \<and> pd_dest_addr e = rp_responder cmd) (pending_table s))
      @ (if aps_rreq_addr s = rp_responder cmd then [Route_discovery_confirm b NWK_STATUS_SUCCESS 0xff] else [])
      @ [Free_buf b])
    \<and> find_route (rp_responder cmd) s' = Some r
    \<and> rt_next_hop_addr (routing_table s' ! r) = nwk_get_mac_source_addr m s
    \<and> rt_status (routing_table s' ! r) \<noteq> ROUTE_DISCOVERY_UNDERWAY
    \<and> (\<forall>j < length (pending_table s). pd_used (pending_table s' ! j) \<longleftrightarrow>
         pd_used (pending_table s ! j) \<and> pd_dest_addr (pending_table s ! j) \<noteq> rp_responder cmd)
    \<and> (aps_rreq_addr s' \<noteq> rp_responder cmd \<or> rp_responder cmd = - 1)"
proof -
  obtain x where s1: "s1 = upd_tree (\<lambda>t. t\<lparr>nctx := x\<rparr>) s" using calc_path_cost_frame(1) [OF cost] by blast
  define re where "re = (routing_table s ! r)\<lparr>rt_next_hop_addr := nwk_get_mac_source_addr m s,
    rt_status := (if rt_status (routing_table s ! r) = ROUTE_DISCOVERY_UNDERWAY then ROUTE_VALIDATION_UNDERWAY
      else rt_status (routing_table s ! r))\<rparr>"
  define de where "de = (route_disc_table s ! d)\<lparr>rd_residual_cost := c + rp_path_cost cmd, rd_expiration_time := ZB_NWK_ROUTE_DISCOVERY_EXPIRY\<rparr>"
  define s2 where "s2 = set_routing r re (set_disc d de s1)"
  have m: "nwk_get_mac_source_addr m s1 = nwk_get_mac_source_addr m s" by (simp add: s1 nwk_get_mac_source_addr_def split: option.split)
  note fr = rt.find_SomeD [OF r [unfolded find_route_def]]
  have f1: "find_disc (rp_rreq_id cmd) (rp_originator cmd) s1 = Some d" "find_route (rp_responder cmd) s1 = Some r"
    using d r by (simp_all add: s1 find_disc_def find_route_def)
  have t1: "routing_table s1 = routing_table s" "route_disc_table s1 = route_disc_table s" "network_addr s1 = network_addr s"
    by (simp_all add: s1)
  have h: "zb_nwk_mesh_rrep_handler b m h cmd s = Some (rrep_arrived b (rp_responder cmd) s2)"
    using cost f1 t1 leD [OF better] own fr
    by (simp add: zb_nwk_mesh_rrep_handler_def Let_def s2_def re_def de_def m)
  obtain s3 acts where a: "send_pending [0..<ZB_NWK_PENDING_TABLE_SIZE] (rp_responder cmd) s2 = (s3, acts)" by fastforce
  have p2: "pending_table s2 = pending_table s" "aps_rreq_addr s2 = aps_rreq_addr s" by (simp_all add: s2_def s1)
  have len: "length (pending_table s) = ZB_NWK_PENDING_TABLE_SIZE" using inv by (simp add: mesh_inv_def pend_ok_def)
  have "\<forall>i\<in>set [0..<ZB_NWK_PENDING_TABLE_SIZE]. i < length (pending_table s2)" by (simp add: p2 len)
  note sp = send_pending_spec [OF a distinct_upt this, unfolded p2]
  have acts: "acts = map (\<lambda>e. Forward_pending (pd_buf e) (pd_handle e))
      (filter (\<lambda>e. pd_used e \<and> pd_dest_addr e = rp_responder cmd) (pending_table s))"
  proof -
    have "pending_table s = map (\<lambda>i. pending_table s ! i) [0..<ZB_NWK_PENDING_TABLE_SIZE]" by (simp add: map_nth flip: len)
    then have "filter (\<lambda>e. pd_used e \<and> pd_dest_addr e = rp_responder cmd) (pending_table s) = map (\<lambda>i. pending_table s ! i)
        (filter ((\<lambda>e. pd_used e \<and> pd_dest_addr e = rp_responder cmd) \<circ> (\<lambda>i. pending_table s ! i)) [0..<ZB_NWK_PENDING_TABLE_SIZE])"
      by (metis filter_map)
    with sp show ?thesis by (simp add: comp_def)
  qed
  have rt: "routing_table s3 = (routing_table s)[r := re]" using sp by (simp add: s2_def t1)
  have fr3: "find_route (rp_responder cmd) s3 = Some r"
  proof -
    have "mesh_inv s3" using h rrep_handler_inv [OF inv, of b m h cmd] a by (auto simp: rrep_arrived_def split: if_split_asm)
    then show ?thesis using fr by (intro find_route_unique) (simp_all add: rt re_def)
  qed
  have st: "rt_status re \<noteq> ROUTE_DISCOVERY_UNDERWAY" "rt_next_hop_addr re = nwk_get_mac_source_addr m s" by (simp_all add: re_def)
  have pd: "\<forall>j < length (pending_table s). pd_used (pending_table s3 ! j) \<longleftrightarrow>
         pd_used (pending_table s ! j) \<and> pd_dest_addr (pending_table s ! j) \<noteq> rp_responder cmd"
    using sp len by auto
  have rr: "routing_table s3 ! r = re" unfolding rt using fr by simp
  have aa: "aps_rreq_addr s3 = aps_rreq_addr s" using sp by simp
  have fa: "find_route x (s3\<lparr>aps_rreq_addr := y\<rparr>) = find_route x s3" for x y by (simp add: find_route_def)
  show ?thesis
    using fr3 st pd by (cases "aps_rreq_addr s = rp_responder cmd") (auto simp: h rrep_arrived_def a acts rr aa fa)
qed

definition asking_node :: nwk_mesh where
  "asking_node = (sample_node 1)
     \<lparr>routing_table := [\<lparr>rt_used = True, rt_status = ROUTE_DISCOVERY_UNDERWAY, rt_dest_addr = 70, rt_next_hop_addr = 0\<rparr>, no_route,
        no_route, no_route, no_route], routing_table_cnt := 1,
      route_disc_table := [no_disc\<lparr>rd_used := True, rd_request_id := 3, rd_source_addr := 1, rd_residual_cost := 255\<rparr>, no_disc,
        no_disc, no_disc, no_disc], route_disc_table_cnt := 1,
      pending_table := [no_pend\<lparr>pd_used := True, pd_buf := 6, pd_handle := 2, pd_dest_addr := 70\<rparr>, no_pend, no_pend, no_pend, no_pend],
      pending_table_cnt := 1, aps_rreq_addr := 70\<rparr>"

lemma asking_node_facts:
  "mesh_inv asking_node" "find_disc 3 1 asking_node = Some 0" "find_route 70 asking_node = Some 0"
  using sample_node_inv [of 1]
  by (simp_all add: asking_node_def mesh_inv_def table_ok table_sizes counted_def all_used_set find_disc_def find_route_def
      nwk_array_find_ent_def upt_rec)

theorem reply_to_own_request_sends_what_waits_witness:
  "\<exists>s'. zb_nwk_mesh_rrep_handler 4 (Some 9) (sample_hdr 9)
      \<lparr>rp_rreq_id = 3, rp_originator = 1, rp_responder = 70, rp_path_cost = 6\<rparr> asking_node =
    Some (s', [Forward_pending 6 2, Route_discovery_confirm 4 NWK_STATUS_SUCCESS 0xff, Free_buf 4])"
proof -
  have c: "nwk_calc_path_cost 9 asking_node = Some (7, asking_node)"
    using sample_cost(1) [of 9 1]
    by (simp add: asking_node_def nwk_calc_path_cost_def sample_node_def sample_tree_def sample_by_short upd_tree_def Let_def)
  show ?thesis
    using reply_to_own_request_sends_what_waits [OF asking_node_facts(1), of "sample_hdr 9" 7 asking_node
        "\<lparr>rp_rreq_id = 3, rp_originator = 1, rp_responder = 70, rp_path_cost = 6\<rparr>" 0 0 4 "Some 9"] c asking_node_facts(2,3)
    by (auto simp: sample_hdr_def) (auto simp: asking_node_def sample_node_def)
qed

section \<open>Expired discoveries\<close>

lemma failed_route_cong:
  assumes "routing_table s' = routing_table s" "\<And>k. k < length (routing_table s) \<Longrightarrow>
     rd_dest_addr (route_disc_table s' ! k) = rd_dest_addr (route_disc_table s ! k)"
  shows "failed_route s' = failed_route s"
proof -
  have "find (\<lambda>i. rt_used (routing_table s ! i) \<and> rt_dest_addr (routing_table s ! i) = rd_dest_addr (route_disc_table s' ! i)
          \<and> rt_status (routing_table s ! i) \<noteq> ROUTE_ACTIVE) xs =
        find (\<lambda>i. rt_used (routing_table s ! i) \<and> rt_dest_addr (routing_table s ! i) = rd_dest_addr (route_disc_table s ! i)
          \<and> rt_status (routing_table s ! i) \<noteq> ROUTE_ACTIVE) xs" if "\<forall>i\<in>set xs. i < length (routing_table s)" for xs
    using that assms(2) by (induction xs) auto
  then show ?thesis using assms(1) by (simp add: failed_route_def nwk_array_find_ent_def)
qed

definition disc_round :: "zb_nwk_route_discovery \<Rightarrow> zb_nwk_route_discovery" where
  "disc_round e = (if rd_used e then (if rd_expiration_time e \<noteq> 0 then e\<lparr>rd_expiration_time := rd_expiration_time e - 1\<rparr>
     else rd_mark False e) else e)"

lemma disc_round_dest [simp]: "rd_dest_addr (disc_round e) = rd_dest_addr e"
  by (simp add: disc_round_def)

lemma expiry_disc_loop_spec:
  assumes "failed_route s = None" "distinct is"
  shows "\<exists>s'. expiry_disc_loop is s = (s', [Set_alarm Expiry_route_disc ZB_NWK_EXPIRY_ROUTE_DISCOVERY])
    \<and> routing_table s' = routing_table s \<and> length (route_disc_table s') = length (route_disc_table s)
    \<and> (\<forall>j < length (route_disc_table s). route_disc_table s' ! j =
         (if j \<in> set is then disc_round (route_disc_table s ! j) else route_disc_table s ! j))"
  using assms
proof (induction "is" arbitrary: s)
  case (Cons i "is")
  let ?e = "route_disc_table s ! i"
  define s1 where "s1 = (if rd_used ?e then (if rd_expiration_time ?e \<noteq> 0
      then set_disc i (?e\<lparr>rd_expiration_time := rd_expiration_time ?e - 1\<rparr>) s else put_disc i s) else s)"
  have t: "route_disc_table s1 = (route_disc_table s)[i := disc_round ?e]" "routing_table s1 = routing_table s"
    by (simp_all add: s1_def disc_round_def)
  have "failed_route s1 = failed_route s" by (rule failed_route_cong) (simp_all add: t nth_update)
  then have f: "failed_route s1 = None" using Cons.prems by simp
  have "expiry_disc_loop (i # is) s = expiry_disc_loop is s1"
    using Cons.prems(1) by (simp add: Let_def s1_def)
  with Cons.IH [OF f] Cons.prems(2) show ?case by (auto simp: t nth_update)
qed simp

text \<open>
  The search for the route of an expired discovery compares the two tables position by position. If no position holds a route and a discovery
  for the same destination, the round frees all expired discoveries and counts the others down, but keeps every route, also those whose discovery has
  just failed, reports nothing and goes on with the next round.
\<close>

theorem expired_discoveries_keep_misplaced_routes:
  assumes inv: "mesh_inv s" and cnt: "route_disc_table_cnt s \<noteq> 0"
    and apart: "\<forall>k < ZB_NWK_ROUTING_TABLE_SIZE. rt_used (routing_table s ! k) \<longrightarrow>
      rt_dest_addr (routing_table s ! k) = rd_dest_addr (route_disc_table s ! k) \<longrightarrow> rt_status (routing_table s ! k) = ROUTE_ACTIVE"
  shows "\<exists>s'. zb_nwk_mesh_expiry_route_disc s = (s', [Set_alarm Expiry_route_disc ZB_NWK_EXPIRY_ROUTE_DISCOVERY])
    \<and> routing_table s' = routing_table s
    \<and> (\<forall>j < ZB_NWK_ROUTE_DISCOVERY_TABLE_SIZE. let e = route_disc_table s ! j; e' = route_disc_table s' ! j in
         (rd_used e' \<longleftrightarrow> rd_used e \<and> rd_expiration_time e \<noteq> 0) \<and>
         (rd_used e' \<longrightarrow> e' = e\<lparr>rd_expiration_time := rd_expiration_time e - 1\<rparr>))"
proof -
  have l: "length (routing_table s) = ZB_NWK_ROUTING_TABLE_SIZE" "length (route_disc_table s) = ZB_NWK_ROUTE_DISCOVERY_TABLE_SIZE"
    using inv by (simp_all add: mesh_inv_def routing_ok_def disc_ok_def)
  have "failed_route s = None"
    using apart by (auto simp: failed_route_def nwk_array_find_ent_def find_None_iff l)
  from expiry_disc_loop_spec [OF this distinct_upt, of 0 ZB_NWK_ROUTE_DISCOVERY_TABLE_SIZE] cnt l
  show ?thesis by (auto simp: zb_nwk_mesh_expiry_route_disc_def disc_round_def Let_def)
qed

definition failing_node :: nwk_mesh where
  "failing_node = (sample_node 1)
     \<lparr>routing_table := [\<lparr>rt_used = True, rt_status = ROUTE_ACTIVE, rt_dest_addr = 50, rt_next_hop_addr = 9\<rparr>,
        \<lparr>rt_used = True, rt_status = ROUTE_DISCOVERY_UNDERWAY, rt_dest_addr = 70, rt_next_hop_addr = 0\<rparr>, no_route, no_route, no_route],
      routing_table_cnt := 2,
      route_disc_table := [no_disc\<lparr>rd_used := True, rd_dest_addr := 70\<rparr>, no_disc, no_disc, no_disc, no_disc],
      route_disc_table_cnt := 1\<rparr>"

theorem expired_discoveries_keep_misplaced_routes_witness:
  "\<exists>s'. zb_nwk_mesh_expiry_route_disc failing_node = (s', [Set_alarm Expiry_route_disc ZB_NWK_EXPIRY_ROUTE_DISCOVERY])
     \<and> \<not> rd_used (route_disc_table s' ! 0) \<and> rt_dest_addr (routing_table s' ! 1) = 70
     \<and> rt_used (routing_table s' ! 1) \<and> rt_status (routing_table s' ! 1) = ROUTE_DISCOVERY_UNDERWAY"
proof -
  have i: "mesh_inv failing_node" using sample_node_inv [of 1]
    by (simp add: failing_node_def mesh_inv_def table_ok table_sizes counted_def all_used_set)
  have f: "\<forall>k < ZB_NWK_ROUTING_TABLE_SIZE. rt_used (routing_table failing_node ! k) \<longrightarrow>
      rt_dest_addr (routing_table failing_node ! k) = rd_dest_addr (route_disc_table failing_node ! k) \<longrightarrow>
      rt_status (routing_table failing_node ! k) = ROUTE_ACTIVE" "route_disc_table_cnt failing_node \<noteq> 0"
    by (auto simp: failing_node_def table_sizes nth_Cons split: nat.splits)
  from expired_discoveries_keep_misplaced_routes [OF i f(2,1)] show ?thesis
    by (auto simp: failing_node_def table_sizes Let_def)
qed

end
