(* ===== verification/Nwk_Mesh_Net.thy ===== *)
theory Nwk_Mesh_Net
  imports Nwk_Mesh_Props
begin

text \<open>
  Route requests in a network of nodes. The nodes run the handlers of the mesh routing; a frame that a node has sent stays in
  the air, where every other node may receive it at any time, any number of times or never. On the way
  up a received frame passes \<^verbatim>\<open>zb_mcps_data_indication\<close> of \<^verbatim>\<open>nwk/nwk_main.c\<close>, which drops it if its radius is
  used up and otherwise decrements the radius. The discovery entries of the nodes point back to the source of the request; this
  theory shows that they never form a loop.
\<close>

section \<open>Received frames\<close>

definition rreq_indication ::
  "nat \<Rightarrow> u16 \<Rightarrow> nwk_hdr \<Rightarrow> zb_nwk_cmd_rreq \<Rightarrow> nwk_mesh \<Rightarrow> (nwk_mesh \<times> mesh_action list) option" where
  "rreq_indication b mac_src h cmd s =
     (if h_radius h = 0 then Some (s, [Free_buf b])
      else zb_nwk_mesh_rreq_handler b (Some mac_src) (h\<lparr>h_radius := h_radius h - 1\<rparr>) cmd s)"

section \<open>What a node knows of a discovery\<close>

text \<open>The node the best request came from and its cost, for an identifier and a source.\<close>

definition disc_view :: "nwk_mesh \<Rightarrow> u8 \<Rightarrow> u16 \<Rightarrow> (u16 \<times> u8) option" where
  "disc_view s q a = map_option (\<lambda>i. (rd_sender_addr (route_disc_table s ! i), rd_forward_cost (route_disc_table s ! i))) (find_disc q a s)"

lemma disc_view_eq: "route_disc_table s' = route_disc_table s \<Longrightarrow> disc_view s' = disc_view s"
  by (simp add: disc_view_def find_disc_def fun_eq_iff)

lemma find_ent_cong:
  assumes "length ys = length xs"
    and "\<And>i. i < length xs \<Longrightarrow> (used (ys ! i) \<and> P i (ys ! i)) = (used (xs ! i) \<and> P i (xs ! i))"
  shows "nwk_array_find_ent used P ys = nwk_array_find_ent used P xs"
proof -
  have "find (\<lambda>i. used (ys ! i) \<and> P i (ys ! i)) is = find (\<lambda>i. used (xs ! i) \<and> P i (xs ! i)) is"
    if "\<forall>i\<in>set is. i < length xs" for "is"
    using that assms(2) by (induction "is") auto
  then show ?thesis using assms(1) by (simp add: nwk_array_find_ent_def)
qed

lemma disc_view_other:
  assumes t: "route_disc_table s' = (route_disc_table s)[i := e]" and i: "i < length (route_disc_table s)"
    and old: "rd_used (route_disc_table s ! i) \<longrightarrow> rd_key (route_disc_table s ! i) \<noteq> (q, a)" and new: "rd_key e \<noteq> (q, a)"
  shows "disc_view s' q a = disc_view s q a"
proof -
  have f: "find_disc q a s' = find_disc q a s"
    unfolding find_disc_def t using old new by (intro find_ent_cong) (auto simp: nth_update)
  show ?thesis
  proof (cases "find_disc q a s")
    case None
    then show ?thesis by (simp add: disc_view_def f)
  next
    case (Some j)
    have "j \<noteq> i" using rd.find_SomeD [OF Some [unfolded find_disc_def]] old by auto
    then show ?thesis by (simp add: disc_view_def f t Some)
  qed
qed

lemma disc_view_this:
  assumes inv: "mesh_inv s" and i: "i < length (route_disc_table s)" "rd_used (route_disc_table s ! i)"
  shows "disc_view s (rd_request_id (route_disc_table s ! i)) (rd_source_addr (route_disc_table s ! i)) =
    Some (rd_sender_addr (route_disc_table s ! i), rd_forward_cost (route_disc_table s ! i))"
  using find_disc_unique [OF inv i] by (simp add: disc_view_def)

lemma rreq_disc_view:
  assumes inv: "mesh_inv s" and r: "rreq_disc m h cmd p s = (ret, go, di, s1)"
  shows "(q, a) \<noteq> (rq_rreq_id cmd, h_src_addr h) \<Longrightarrow> disc_view s1 q a = disc_view s q a"
    and "\<not> go \<Longrightarrow> disc_view s1 = disc_view s"
    and "go \<Longrightarrow> ret = RET_OK \<and> disc_view s1 (rq_rreq_id cmd) (h_src_addr h) = Some (nwk_get_mac_source_addr m s, p)
      \<and> (\<forall>x f. disc_view s (rq_rreq_id cmd) (h_src_addr h) = Some (x, f) \<longrightarrow> p < f)"
proof -
  note inv1 = rreq_disc_spec(1) [OF inv r]
  have "((q, a) \<noteq> (rq_rreq_id cmd, h_src_addr h) \<longrightarrow> disc_view s1 q a = disc_view s q a) \<and> (\<not> go \<longrightarrow> disc_view s1 = disc_view s)
    \<and> (go \<longrightarrow> ret = RET_OK \<and> disc_view s1 (rq_rreq_id cmd) (h_src_addr h) = Some (nwk_get_mac_source_addr m s, p)
      \<and> (\<forall>x f. disc_view s (rq_rreq_id cmd) (h_src_addr h) = Some (x, f) \<longrightarrow> p < f))"
  proof (cases "find_disc (rq_rreq_id cmd) (h_src_addr h) s")
    case (Some i)
    note f = rd.find_SomeD [OF Some [unfolded find_disc_def]]
    define e where "e = (route_disc_table s ! i)\<lparr>rd_sender_addr := nwk_get_mac_source_addr m s, rd_forward_cost := p\<rparr>"
    have v: "disc_view s (rq_rreq_id cmd) (h_src_addr h) =
        Some (rd_sender_addr (route_disc_table s ! i), rd_forward_cost (route_disc_table s ! i))"
      using Some by (simp add: disc_view_def)
    show ?thesis
    proof (cases "p < rd_forward_cost (route_disc_table s ! i)")
      case False
      then show ?thesis using r Some by (auto simp: rreq_disc_def Let_def)
    next
      case True
      then have s1: "ret = RET_OK" "go" "s1 = set_disc i e s" using r Some by (simp_all add: rreq_disc_def Let_def e_def)
      have t: "route_disc_table s1 = (route_disc_table s)[i := e]" by (simp add: s1)
      have "disc_view s1 (rq_rreq_id cmd) (h_src_addr h) = Some (nwk_get_mac_source_addr m s, p)"
        using disc_view_this [OF inv1, of i] f by (simp add: t e_def)
      moreover have "(q, a) \<noteq> (rq_rreq_id cmd, h_src_addr h) \<Longrightarrow> disc_view s1 q a = disc_view s q a"
        using f by (intro disc_view_other [OF t]) (auto simp: e_def)
      ultimately show ?thesis using s1(1,2) True v by auto
    qed
  next
    case None
    obtain z s2 where g: "get_disc s = (z, s2)" by fastforce
    have v: "disc_view s (rq_rreq_id cmd) (h_src_addr h) = None" using None by (simp add: disc_view_def)
    from g show ?thesis
    proof (cases rule: get_disc_cases)
      case full
      then show ?thesis using r None g by (auto simp: rreq_disc_def)
    next
      case (got i ys c)
      note gs = rd.get_SomeD [OF got(2)]
      have mm: "nwk_get_mac_source_addr m s2 = nwk_get_mac_source_addr m s"
        by (simp add: got(3) nwk_get_mac_source_addr_def split: option.split)
      have s1: "ret = RET_OK" "go" using r None g got(1) by (auto simp: rreq_disc_def)
      obtain e where t: "route_disc_table s1 = (route_disc_table s)[i := e]" and e: "rd_used e" "rd_key e = (rq_rreq_id cmd, h_src_addr h)"
          "rd_sender_addr e = nwk_get_mac_source_addr m s" "rd_forward_cost e = p"
        using r None g got(1,3) gs mm by (auto simp: rreq_disc_def)
      have "disc_view s1 (rq_rreq_id cmd) (h_src_addr h) = Some (nwk_get_mac_source_addr m s, p)"
        using disc_view_this [OF inv1, of i] gs e by (simp add: t)
      moreover have "(q, a) \<noteq> (rq_rreq_id cmd, h_src_addr h) \<Longrightarrow> disc_view s1 q a = disc_view s q a"
        using gs e by (intro disc_view_other [OF t]) auto
      ultimately show ?thesis using s1 v by auto
    qed
  qed
  then show "(q, a) \<noteq> (rq_rreq_id cmd, h_src_addr h) \<Longrightarrow> disc_view s1 q a = disc_view s q a" "\<not> go \<Longrightarrow> disc_view s1 = disc_view s"
    "go \<Longrightarrow> ret = RET_OK \<and> disc_view s1 (rq_rreq_id cmd) (h_src_addr h) = Some (nwk_get_mac_source_addr m s, p)
      \<and> (\<forall>x f. disc_view s (rq_rreq_id cmd) (h_src_addr h) = Some (x, f) \<longrightarrow> p < f)"
    by blast+
qed

text \<open>The request frames of a node, as they are in the air.\<close>

definition sent_rreqs :: "u16 \<Rightarrow> mesh_action list \<Rightarrow> (u16 \<times> nwk_hdr \<times> zb_nwk_cmd_rreq) set" where
  "sent_rreqs a acts = {(a, h, c) | b h c. Send_rreq b h c \<in> set acts}"

lemma rreq_respond_sent:
  assumes "rreq_respond b m h cmd p s = Some (s', acts)"
  shows "route_disc_table s' = route_disc_table s"
    and "(x, h', c') \<in> sent_rreqs x acts \<Longrightarrow> h_src_addr h' = h_src_addr h \<and> h_radius h' = h_radius h \<and> c' = cmd\<lparr>rq_path_cost := p\<rparr>"
  using assms by (auto simp: rreq_respond_def zb_nwk_mesh_send_rrep_def zb_nwk_mesh_send_rreq_def cmd_hdr_def Let_def sent_rreqs_def
      split: if_split_asm option.split_asm)

lemma rreq_failed_view:
  "fst (rreq_failed b None r cmd s) = s' \<Longrightarrow> disc_view s' = disc_view s" "sent_rreqs x (snd (rreq_failed b e r cmd s)) = {}"
  by (auto simp: rreq_failed_def Let_def sent_rreqs_def put_routing_def nwk_array_put_ent_def split: option.split intro!: disc_view_eq)

lemma rreq_handler_view:
  assumes inv: "mesh_inv s" and h: "zb_nwk_mesh_rreq_handler b m h cmd s = Some (s', acts)"
  obtains c where "unat c \<le> 7" "h_src_addr h \<noteq> network_addr s \<Longrightarrow> 1 \<le> unat c"
    "\<And>q a. (q, a) \<noteq> (rq_rreq_id cmd, h_src_addr h) \<Longrightarrow> disc_view s' q a = disc_view s q a"
    "disc_view s' = disc_view s \<and> sent_rreqs x acts = {} \<or>
     disc_view s' (rq_rreq_id cmd) (h_src_addr h) = Some (nwk_get_mac_source_addr m s, c + rq_path_cost cmd)
       \<and> (\<forall>x f. disc_view s (rq_rreq_id cmd) (h_src_addr h) = Some (x, f) \<longrightarrow> c + rq_path_cost cmd < f)
       \<and> (\<forall>h' c'. (x, h', c') \<in> sent_rreqs x acts \<longrightarrow> h_src_addr h' = h_src_addr h \<and> h_radius h' = h_radius h
            \<and> c' = cmd\<lparr>rq_path_cost := c + rq_path_cost cmd\<rparr>)"
proof -
  obtain c y where c: "nwk_calc_path_cost (h_src_addr h) s = Some (c, upd_tree (\<lambda>t. t\<lparr>nctx := y\<rparr>) s)" "ctx_inv y"
    using calc_path_cost_total [OF inv] by blast
  let ?s1 = "upd_tree (\<lambda>t. t\<lparr>nctx := y\<rparr>) s"
  have i1: "mesh_inv ?s1" using inv c(2) by (rule mesh_inv_ctx)
  obtain ret ri s2 where r: "rreq_routing (rq_dest_addr cmd) ?s1 = (ret, ri, s2)" by (metis prod_cases3)
  note rs = rreq_routing_spec [OF i1 r]
  have t2: "route_disc_table s2 = route_disc_table s" "tree s2 = tree ?s1" by (subst rs(2), simp)+
  have v2: "disc_view s2 = disc_view s" using t2(1) by (rule disc_view_eq)
  have m2: "nwk_get_mac_source_addr m s2 = nwk_get_mac_source_addr m s" by (simp add: nwk_get_mac_source_addr_def t2 split: option.split)
  obtain ret2 go di s3 where d: "rreq_disc m h cmd (c + rq_path_cost cmd) s2 = (ret2, go, di, s3)" by (metis prod_cases4)
  note dv = rreq_disc_view [OF rs(1) d, unfolded v2 m2]
  note ds = rreq_disc_spec [OF rs(1) d]
  note cost = calc_path_cost_frame(2,3) [OF c(1)]
  show thesis
  proof (cases "ret = RET_OK \<and> go")
    case True
    then have "rreq_respond b m h cmd (c + rq_path_cost cmd) s3 = Some (s', acts)"
      using h c r d dv(3) by (simp add: zb_nwk_mesh_rreq_handler_def Let_def)
    note rr = rreq_respond_sent [OF this]
    have "disc_view s' = disc_view s3" using rr(1) by (rule disc_view_eq)
    then show thesis using dv rr(2) True cost by (intro that [of c]) auto
  next
    case False
    have "s' = fst (rreq_failed b None ri cmd s2) \<and> acts = snd (rreq_failed b None ri cmd s2)
        \<or> ret = RET_OK \<and> s' = fst (rreq_failed b None ri cmd s3) \<and> acts = snd (rreq_failed b None ri cmd s3)
        \<or> ret = RET_OK \<and> s' = s3 \<and> acts = [Free_buf b]"
      using h c r d False ds(3) by (auto simp: zb_nwk_mesh_rreq_handler_def Let_def split: if_split_asm)
    then have "disc_view s' = disc_view s \<and> sent_rreqs x acts = {}"
      using rreq_failed_view dv(2) False v2 by (auto simp: sent_rreqs_def)
    then show thesis using cost by (intro that [of c]) auto
  qed
qed


section \<open>Discoveries that point back to their source\<close>

text \<open>
  What all nodes know of the discovery of a source, as a function of the node: an entry points to a node that has an entry
  of a smaller cost, up to the source, whose entry points to itself.
\<close>

definition toward_source :: "u16 set \<Rightarrow> u16 \<Rightarrow> (u16 \<Rightarrow> (u16 \<times> u8) option) \<Rightarrow> bool" where
  "toward_source A src V \<longleftrightarrow> (\<forall>n\<in>A. \<forall>p f. V n = Some (p, f) \<longrightarrow>
     src \<in> A \<and> (\<exists>f0. V src = Some (src, f0) \<and> f0 \<le> f) \<and>
     (if n = src then p = src else p \<in> A \<and> (\<exists>p' f'. V p = Some (p', f') \<and> f' < f)))"

lemma toward_sourceD:
  assumes "toward_source A src V" "n \<in> A" "V n = Some (p, f)"
  shows "\<exists>f0. V src = Some (src, f0) \<and> f0 \<le> f" "n = src \<Longrightarrow> p = src"
    "n \<noteq> src \<Longrightarrow> p \<in> A \<and> (\<exists>p' f'. V p = Some (p', f') \<and> f' < f)"
proof -
  have "src \<in> A \<and> (\<exists>f0. V src = Some (src, f0) \<and> f0 \<le> f) \<and>
     (if n = src then p = src else p \<in> A \<and> (\<exists>p' f'. V p = Some (p', f') \<and> f' < f))"
    using assms unfolding toward_source_def by blast
  then show "\<exists>f0. V src = Some (src, f0) \<and> f0 \<le> f" "n = src \<Longrightarrow> p = src"
    "n \<noteq> src \<Longrightarrow> p \<in> A \<and> (\<exists>p' f'. V p = Some (p', f') \<and> f' < f)" by auto
qed

definition heard_from :: "u16 set \<Rightarrow> u16 \<Rightarrow> (u16 \<Rightarrow> (u16 \<times> u8) option) \<Rightarrow> u16 \<Rightarrow> u8 \<Rightarrow> bool" where
  "heard_from A src V m cost \<longleftrightarrow> m \<in> A \<and> src \<in> A \<and> (\<exists>p f. V m = Some (p, f) \<and> f \<le> cost) \<and> (\<exists>f. V src = Some (src, f) \<and> f \<le> cost)"

lemma toward_source_update:
  assumes t: "toward_source A src V" and h: "heard_from A src V m cost" and f: "cost < f" and a: "a \<in> A"
    and better: "\<And>x y. V a = Some (x, y) \<Longrightarrow> f < y"
  shows "toward_source A src (V(a \<mapsto> (m, f)))"
    and "heard_from A src V m' cost' \<Longrightarrow> heard_from A src (V(a \<mapsto> (m, f))) m' cost'"
    and "f \<le> cost' \<Longrightarrow> heard_from A src (V(a \<mapsto> (m, f))) a cost'"
proof -
  obtain f0 where f0: "V src = Some (src, f0)" "f0 \<le> cost" and mA: "m \<in> A" "src \<in> A" using h by (auto simp: heard_from_def)
  obtain x y where m: "V m = Some (x, y)" "y \<le> cost" using h by (auto simp: heard_from_def)
  have as: "a \<noteq> src" using better f0 f by fastforce
  have am: "a \<noteq> m" using better m f by fastforce
  show "toward_source A src (V(a \<mapsto> (m, f)))"
    unfolding toward_source_def
  proof (intro ballI allI impI)
    fix n p g assume n: "n \<in> A" and v: "(V(a \<mapsto> (m, f))) n = Some (p, g)"
    show "src \<in> A \<and> (\<exists>f0. (V(a \<mapsto> (m, f))) src = Some (src, f0) \<and> f0 \<le> g) \<and>
      (if n = src then p = src else p \<in> A \<and> (\<exists>p' f'. (V(a \<mapsto> (m, f))) p = Some (p', f') \<and> f' < g))"
    proof (cases "n = a")
      case True
      then have pg: "p = m" "g = f" using v by auto
      have "f0 \<le> f" "y < f" using f0(2) m(2) f by auto
      then show ?thesis using True as am f0(1) mA m(1) pg by auto
    next
      case False
      then have vn: "V n = Some (p, g)" using v by simp
      have o: "src \<in> A \<and> (\<exists>f0. V src = Some (src, f0) \<and> f0 \<le> g) \<and>
        (if n = src then p = src else p \<in> A \<and> (\<exists>p' f'. V p = Some (p', f') \<and> f' < g))"
        using t n vn unfolding toward_source_def by blast
      have "f < g" if "p = a" "n \<noteq> src"
      proof -
        obtain p' f' where pf: "V p = Some (p', f')" "f' < g" using o \<open>n \<noteq> src\<close> by auto
        then have "f < f'" using better \<open>p = a\<close> by blast
        then show ?thesis using pf(2) by simp
      qed
      then show ?thesis using o as by auto
    qed
  qed
  show "heard_from A src V m' cost' \<Longrightarrow> heard_from A src (V(a \<mapsto> (m, f))) m' cost'"
  proof -
    assume m': "heard_from A src V m' cost'"
    have "f \<le> cost'" if "m' = a" using m' better that unfolding heard_from_def by fastforce
    then show ?thesis using m' as unfolding heard_from_def by auto
  qed
  show "f \<le> cost' \<Longrightarrow> heard_from A src (V(a \<mapsto> (m, f))) a cost'"
    using f0 f a mA as unfolding heard_from_def by auto
qed

lemma toward_source_start:
  assumes t: "toward_source A src V" and a: "src \<in> A" and better: "\<And>x y. V src = Some (x, y) \<Longrightarrow> f < y"
  shows "toward_source A src (V(src \<mapsto> (src, f)))"
    and "heard_from A src V m cost \<Longrightarrow> heard_from A src (V(src \<mapsto> (src, f))) m cost"
    and "heard_from A src (V(src \<mapsto> (src, f))) src f"
proof -
  have o: "(\<exists>f0. V src = Some (src, f0) \<and> f0 \<le> g) \<and> (if n = src then p = src else p \<in> A \<and> (\<exists>p' f'. V p = Some (p', f') \<and> f' < g))"
    if "n \<in> A" "V n = Some (p, g)" for n p g
    using t that unfolding toward_source_def by blast
  have le: "f \<le> g" if "n \<in> A" "V n = Some (p, g)" for n p g
    using o [OF that] better by fastforce
  show "toward_source A src (V(src \<mapsto> (src, f)))"
    unfolding toward_source_def
  proof (intro ballI allI impI)
    fix n p g assume n: "n \<in> A" and v: "(V(src \<mapsto> (src, f))) n = Some (p, g)"
    show "src \<in> A \<and> (\<exists>f0. (V(src \<mapsto> (src, f))) src = Some (src, f0) \<and> f0 \<le> g) \<and>
      (if n = src then p = src else p \<in> A \<and> (\<exists>p' f'. (V(src \<mapsto> (src, f))) p = Some (p', f') \<and> f' < g))"
    proof (cases "n = src")
      case True
      then show ?thesis using v a by simp
    next
      case False
      then have vn: "V n = Some (p, g)" using v by simp
      obtain f0 where f0: "V src = Some (src, f0)" using o [OF n vn] by auto
      obtain p' f' where pf: "p \<in> A" "V p = Some (p', f')" "f' < g" using o [OF n vn] False by auto
      have "f < g" using le [OF pf(1,2)] pf(3) by simp
      then show ?thesis using False a pf by auto
    qed
  qed
  show "heard_from A src V m cost \<Longrightarrow> heard_from A src (V(src \<mapsto> (src, f))) m cost"
    using better unfolding heard_from_def by fastforce
  show "heard_from A src (V(src \<mapsto> (src, f))) src f" using a by (simp add: heard_from_def)
qed

section \<open>The network\<close>

text \<open>
  \<open>N\<close> gives the state of the node with an address of \<open>A\<close>. A step is a discovery of a node, the receipt
  of a request that is in the air, or any other change of one node that keeps its address, its invariant and what it knows
  of the discoveries, that is, everything but the expiry of a discovery entry, its removal by a failed reply and a restart.
\<close>

abbreviation views :: "(u16 \<Rightarrow> nwk_mesh) \<Rightarrow> u8 \<Rightarrow> u16 \<Rightarrow> u16 \<Rightarrow> (u16 \<times> u8) option" where
  "views N q src \<equiv> \<lambda>n. disc_view (N n) q src"

definition request_radius :: "u8 \<Rightarrow> nwk_mesh \<Rightarrow> u8" where
  "request_radius r s = (if r \<noteq> 0 then r else push_bit 1 (max_depth (tree s)))"

inductive net :: "u16 set \<Rightarrow> (u16 \<Rightarrow> nwk_mesh) \<Rightarrow> (u16 \<times> nwk_hdr \<times> zb_nwk_cmd_rreq) set \<Rightarrow> bool" for A where
  Init: "\<forall>a\<in>A. mesh_inv (N a) \<and> network_addr (N a) = a \<and> disc_view (N a) = (\<lambda>q s. None) \<Longrightarrow> net A N {}"
| Ask: "net A N air \<Longrightarrow> a \<in> A \<Longrightarrow> request_radius r (N a) \<le> 35
    \<Longrightarrow> zb_nwk_mesh_route_discovery (Some b) dest r (N a) = Some (s', acts) \<Longrightarrow> net A (N(a := s')) (air \<union> sent_rreqs a acts)"
| Receive: "net A N air \<Longrightarrow> (m, h, c) \<in> air \<Longrightarrow> a \<in> A \<Longrightarrow> rreq_indication b m h c (N a) = Some (s', acts)
    \<Longrightarrow> net A (N(a := s')) (air \<union> sent_rreqs a acts)"
| Other: "net A N air \<Longrightarrow> a \<in> A \<Longrightarrow> mesh_inv s' \<Longrightarrow> network_addr s' = a \<Longrightarrow> disc_view s' = disc_view (N a)
    \<Longrightarrow> net A (N(a := s')) air"

definition net_inv :: "u16 set \<Rightarrow> (u16 \<Rightarrow> nwk_mesh) \<Rightarrow> (u16 \<times> nwk_hdr \<times> zb_nwk_cmd_rreq) set \<Rightarrow> bool" where
  "net_inv A N air \<longleftrightarrow> (\<forall>a\<in>A. mesh_inv (N a) \<and> network_addr (N a) = a) \<and> (\<forall>q src. toward_source A src (views N q src))
    \<and> (\<forall>(m, h, c)\<in>air. heard_from A (h_src_addr h) (views N (rq_rreq_id c) (h_src_addr h)) m (rq_path_cost c)
         \<and> unat (rq_path_cost c) + 7 * unat (h_radius h) \<le> 252)"


lemma views_upd: "views (N(a := s')) q src = (views N q src)(a := disc_view s' q src)"
  by (simp add: fun_eq_iff)

text \<open>One handler of a node, for a request that it may use.\<close>

lemma net_inv_handler:
  assumes i: "net_inv A N air" and a: "a \<in> A" and s: "mesh_inv s" "network_addr s = a" "disc_view s = disc_view (N a)"
    and h: "zb_nwk_mesh_rreq_handler b m h cmd s = Some (s', acts)"
    and source: "heard_from A (h_src_addr h) (views N (rq_rreq_id cmd) (h_src_addr h)) (nwk_get_mac_source_addr m s) (rq_path_cost cmd)
        \<or> h_src_addr h = a \<and> m = None \<and> rq_path_cost cmd = 0"
    and r: "unat (rq_path_cost cmd) + 7 * unat (h_radius h) \<le> 245"
  shows "net_inv A (N(a := s')) (air \<union> sent_rreqs a acts)"
proof -
  let ?q = "rq_rreq_id cmd" and ?src = "h_src_addr h"
  obtain c where c0: "unat c \<le> 7" "?src \<noteq> network_addr s \<Longrightarrow> 1 \<le> unat c"
    "\<And>q a'. (q, a') \<noteq> (?q, ?src) \<Longrightarrow> disc_view s' q a' = disc_view s q a'"
    "disc_view s' = disc_view s \<and> sent_rreqs a acts = {} \<or>
     disc_view s' ?q ?src = Some (nwk_get_mac_source_addr m s, c + rq_path_cost cmd)
       \<and> (\<forall>x f. disc_view s ?q ?src = Some (x, f) \<longrightarrow> c + rq_path_cost cmd < f)
       \<and> (\<forall>h' c'. (a, h', c') \<in> sent_rreqs a acts \<longrightarrow> h_src_addr h' = ?src \<and> h_radius h' = h_radius h
            \<and> c' = cmd\<lparr>rq_path_cost := c + rq_path_cost cmd\<rparr>)"
    by (rule rreq_handler_view [OF s(1) h, where x = a]) (rule that, assumption+)
  note c = c0 [unfolded s(2,3)]
  obtain s'' acts'' where hi: "zb_nwk_mesh_rreq_handler b m h cmd s = Some (s'', acts'')" "mesh_inv s''"
    using rreq_handler_inv [OF s(1)] by blast
  have inv': "mesh_inv s'" "network_addr s' = a"
    using hi h s(2) rreq_handler_keeps [OF s(1) h] by auto
  show ?thesis
  proof (cases "disc_view s' = disc_view (N a) \<and> sent_rreqs a acts = {}")
    case True
    then have "views (N(a := s')) q src = views N q src" for q src by (simp add: fun_eq_iff)
    then show ?thesis using i inv' True by (auto simp: net_inv_def)
  next
    case False
    let ?f = "c + rq_path_cost cmd" and ?m = "nwk_get_mac_source_addr m s"
    let ?V = "views N ?q ?src" and ?V' = "(views N ?q ?src)(a \<mapsto> (?m, c + rq_path_cost cmd))"
    have n1: "disc_view s' ?q ?src = Some (?m, ?f)"
      and n2: "\<And>x f. disc_view (N a) ?q ?src = Some (x, f) \<Longrightarrow> ?f < f"
      and n3: "\<And>h' c'. (a, h', c') \<in> sent_rreqs a acts \<Longrightarrow> h_src_addr h' = ?src \<and> h_radius h' = h_radius h
            \<and> c' = cmd\<lparr>rq_path_cost := ?f\<rparr>"
      using c(4) False by blast+
    have sum: "unat ?f = unat c + unat (rq_path_cost cmd)"
      using c(1) r by (subst unat_word_ariths) simp
    have t: "toward_source A ?src ?V" and air: "\<And>m h c. (m, h, c) \<in> air \<Longrightarrow>
        heard_from A (h_src_addr h) (views N (rq_rreq_id c) (h_src_addr h)) m (rq_path_cost c)
         \<and> unat (rq_path_cost c) + 7 * unat (h_radius h) \<le> 252"
      using i by (auto simp: net_inv_def)
    have "toward_source A ?src ?V' \<and> (\<forall>m' cost'. heard_from A ?src ?V m' cost' \<longrightarrow> heard_from A ?src ?V' m' cost')
      \<and> heard_from A ?src ?V' a ?f"
    proof (cases "heard_from A ?src ?V ?m (rq_path_cost cmd)")
      case True
      have "?src \<noteq> a"
      proof
        assume "?src = a"
        then obtain f where f: "disc_view (N a) ?q ?src = Some (a, f)" "f \<le> rq_path_cost cmd"
          using True by (auto simp: heard_from_def)
        show False using n2 [OF f(1)] f(2) sum by (simp add: word_less_nat_alt word_le_nat_alt)
      qed
      then have "rq_path_cost cmd < ?f" using c(2) sum by (simp add: word_less_nat_alt)
      then show ?thesis using toward_source_update [OF t True _ a n2] by auto
    next
      case False
      then have own: "?src = a" "m = None" "rq_path_cost cmd = 0" using source by auto
      have m: "?m = a" using own(2) s(2) by (simp add: nwk_get_mac_source_addr_def)
      show ?thesis using toward_source_start [OF t, of ?f] a own(1) n2 m by auto
    qed
    then have V': "toward_source A ?src ?V'" "\<And>m' cost'. heard_from A ?src ?V m' cost' \<Longrightarrow> heard_from A ?src ?V' m' cost'"
        "heard_from A ?src ?V' a ?f" by blast+
    have v: "views (N(a := s')) q src = (if (q, src) = (?q, ?src) then ?V' else views N q src)" for q src
      using n1 c(3) [of q src] by (cases "(q, src) = (?q, ?src)") (auto simp: fun_eq_iff)
    have A1: "toward_source A src (views (N(a := s')) q src)" for q src
      using i V'(1) unfolding v by (auto simp: net_inv_def)
    have A2: "heard_from A (h_src_addr h1) (views (N(a := s')) (rq_rreq_id c1) (h_src_addr h1)) m1 (rq_path_cost c1)
         \<and> unat (rq_path_cost c1) + 7 * unat (h_radius h1) \<le> 252" if f: "(m1, h1, c1) \<in> air \<union> sent_rreqs a acts" for m1 h1 c1
    proof (cases "(m1, h1, c1) \<in> air")
      case True
      then show ?thesis using air [OF True] V'(2) unfolding v by auto
    next
      case False
      then have "m1 = a" "(a, h1, c1) \<in> sent_rreqs a acts" using f by (auto simp: sent_rreqs_def)
      then show ?thesis using n3 [of h1 c1] V'(3) sum c(1) r unfolding v by auto
    qed
    have "\<forall>n\<in>A. mesh_inv ((N(a := s')) n) \<and> network_addr ((N(a := s')) n) = n" using i inv' by (auto simp: net_inv_def)
    then show ?thesis unfolding net_inv_def using A1 A2 by blast
  qed
qed

lemma net_invariant: "net A N air \<Longrightarrow> net_inv A N air"
proof (induction rule: net.induct)
  case (Init N)
  then show ?case by (auto simp: net_inv_def toward_source_def)
next
  case (Ask N air a r b dest s' acts)
  let ?s = "(N a)\<lparr>rreq_id := rreq_id (N a) + 1\<rparr>"
  have s: "mesh_inv ?s" "network_addr ?s = a" "disc_view ?s = disc_view (N a)"
    using Ask.IH Ask.hyps(2) by (auto simp: net_inv_def intro: disc_view_eq)
  show ?case
    using Ask.hyps(3,4) s by (intro net_inv_handler [OF Ask.IH Ask.hyps(2) s])
      (auto simp: zb_nwk_mesh_route_discovery_def Let_def request_radius_def word_le_nat_alt split: if_split_asm)
next
  case (Receive N air m h c a b s' acts)
  have f: "heard_from A (h_src_addr h) (views N (rq_rreq_id c) (h_src_addr h)) m (rq_path_cost c)"
      "unat (rq_path_cost c) + 7 * unat (h_radius h) \<le> 252" "mesh_inv (N a)" "network_addr (N a) = a"
    using Receive.IH Receive.hyps(2,3) by (auto simp: net_inv_def)
  show ?case
  proof (cases "h_radius h = 0")
    case True
    then have "s' = N a" "sent_rreqs a acts = {}" using Receive.hyps(4) by (auto simp: rreq_indication_def sent_rreqs_def)
    then show ?thesis using Receive.IH by simp
  next
    case False
    then have "zb_nwk_mesh_rreq_handler b (Some m) (h\<lparr>h_radius := h_radius h - 1\<rparr>) c (N a) = Some (s', acts)"
      using Receive.hyps(4) by (simp add: rreq_indication_def)
    moreover have "unat (h_radius h - 1) = unat (h_radius h) - 1" "1 \<le> unat (h_radius h)"
      using False by (simp_all add: unat_minus_one unat_gt_0 Suc_le_eq)
    ultimately show ?thesis using f
      by (intro net_inv_handler [OF Receive.IH Receive.hyps(3) f(3,4)]) (auto simp: nwk_get_mac_source_addr_def)
  qed
next
  case (Other N air a s')
  then have "views (N(a := s')) q src = views N q src" for q src by (simp add: fun_eq_iff)
  then show ?case using Other by (auto simp: net_inv_def)
qed


section \<open>Reverse routes\<close>

text \<open>The nodes that a reply passes on its way to the source, as far as \<open>k\<close> steps.\<close>

fun reverse_route :: "nat \<Rightarrow> (u16 \<Rightarrow> nwk_mesh) \<Rightarrow> u8 \<Rightarrow> u16 \<Rightarrow> u16 \<Rightarrow> u16 list" where
  "reverse_route 0 N q src n = [n]"
| "reverse_route (Suc k) N q src n =
     n # (if n = src then []
          else (case disc_view (N n) q src of None \<Rightarrow> [] | Some (p, f) \<Rightarrow> reverse_route k N q src p))"

lemma reverse_route_ne [simp]: "reverse_route k N q src n \<noteq> []"
  by (cases k) auto

lemma reverse_route_towards:
  assumes t: "toward_source A src (views N q src)"
  shows "n \<in> A \<Longrightarrow> disc_view (N n) q src = Some (p, f) \<Longrightarrow> unat f \<le> k \<Longrightarrow>
    last (reverse_route k N q src n) = src \<and> distinct (reverse_route k N q src n) \<and> set (reverse_route k N q src n) \<subseteq> A
    \<and> (\<forall>x\<in>set (reverse_route k N q src n). \<exists>y g. disc_view (N x) q src = Some (y, g) \<and> g \<le> f)"
proof (induction k arbitrary: n p f)
  case 0
  then have "f = 0" by (simp add: unat_eq_0)
  then have "n = src" using toward_sourceD(3) [OF t 0(1,2)] by auto
  then show ?case using 0 by auto
next
  case (Suc k)
  show ?case
  proof (cases "n = src")
    case True
    then show ?thesis using Suc.prems by auto
  next
    case False
    then obtain p' f' where p: "p \<in> A" "disc_view (N p) q src = Some (p', f')" "f' < f"
      using toward_sourceD(3) [OF t Suc.prems(1,2)] by auto
    have "unat f' \<le> k" using p(3) Suc.prems(3) by (simp add: word_less_nat_alt)
    note IH = Suc.IH [OF p(1,2) this]
    have lt: "g < f" if "x \<in> set (reverse_route k N q src p)" "disc_view (N x) q src = Some (y, g)" for x y g
      using IH that p(3) by fastforce
    have "n \<notin> set (reverse_route k N q src p)" using lt Suc.prems(2) by fastforce
    moreover have "\<exists>y g. disc_view (N x) q src = Some (y, g) \<and> g \<le> f" if "x \<in> set (reverse_route k N q src p)" for x
      using IH lt that by (meson less_imp_le)
    ultimately show ?thesis using IH Suc.prems False by auto
  qed
qed

text \<open>
  C3: However the request frames of all the nodes are delivered, repeated, delayed and lost, the nodes that know of a discovery
  lead back to its source without a loop: a reply of any of them, handed from each to the node it got its best request from,
  reaches the source in at most as many steps as the cost of the entry says. It takes that
  the requests start with a radius of at most 35, and that no entry of the discovery has expired.
\<close>

theorem reverse_routes_are_loop_free:
  assumes "net A N air" "n \<in> A" "disc_view (N n) q src = Some (p, f)"
  shows "last (reverse_route (unat f) N q src n) = src \<and> distinct (reverse_route (unat f) N q src n)
    \<and> set (reverse_route (unat f) N q src n) \<subseteq> A
    \<and> (\<forall>x\<in>set (reverse_route (unat f) N q src n). \<exists>y g. disc_view (N x) q src = Some (y, g) \<and> g \<le> f)"
proof -
  have "toward_source A src (views N q src)" using net_invariant [OF assms(1)] by (simp add: net_inv_def)
  then show ?thesis using assms(2,3) by (rule reverse_route_towards) simp
qed


definition sample_net :: "u16 \<Rightarrow> nwk_mesh" where
  "sample_net a = (sample_node a)\<lparr>nwk_report_constant_cost := True\<rparr>"

lemma sample_net_facts:
  "mesh_inv (sample_net a)" "network_addr (sample_net a) = a" "disc_view (sample_net a) = (\<lambda>q s. None)"
  "max_depth (tree (sample_net a)) = max_depth sample_tree"
proof -
  show "mesh_inv (sample_net a)" using sample_node_inv [of a] by (simp add: sample_net_def mesh_inv_def)
  show "network_addr (sample_net a) = a" "max_depth (tree (sample_net a)) = max_depth sample_tree"
    by (simp_all add: sample_net_def sample_node_def)
  show "disc_view (sample_net a) = (\<lambda>q s. None)"
    by (intro ext) (simp add: sample_net_def sample_node_def disc_view_def find_disc_def nwk_array_find_ent_def upt_rec)
qed

lemma sample_net_handler:
  assumes "a \<noteq> 70"
  shows "\<exists>s' acts. zb_nwk_mesh_rreq_handler b m \<lparr>h_src_addr = 5, h_dst_addr = d, h_radius = r, h_seq_num = q, h_secure = z\<rparr>
      \<lparr>rq_rreq_id = 1, rq_dest_addr = 70, rq_path_cost = c\<rparr> ((sample_net a)\<lparr>rreq_id := j\<rparr>) = Some (s', acts)
    \<and> disc_view s' 1 5 = Some (nwk_get_mac_source_addr m (sample_net a), 7 + c)
    \<and> (\<exists>h. (a, h, \<lparr>rq_rreq_id = 1, rq_dest_addr = 70, rq_path_cost = 7 + c\<rparr>) \<in> sent_rreqs a acts \<and> h_src_addr h = 5
        \<and> h_radius h = r)"
proof -
  let ?h = "\<lparr>h_src_addr = 5, h_dst_addr = d, h_radius = r, h_seq_num = q, h_secure = z\<rparr>"
  let ?c = "\<lparr>rq_rreq_id = 1, rq_dest_addr = 70, rq_path_cost = c\<rparr>"
  let ?s = "(sample_net a)\<lparr>rreq_id := j\<rparr>"
  define s1 where "s1 = ?s\<lparr>routing_table := (routing_table ?s)[0 := no_route\<lparr>rt_used := True, rt_dest_addr := 70,
    rt_status := ROUTE_DISCOVERY_UNDERWAY\<rparr>], routing_table_cnt := 1\<rparr>"
  define s2 where "s2 = s1\<lparr>route_disc_table := [\<lparr>rd_used = True, rd_request_id = 1, rd_source_addr = 5,
    rd_sender_addr = nwk_get_mac_source_addr m s1, rd_dest_addr = 70, rd_forward_cost = 7 + c, rd_residual_cost = 0xff,
    rd_expiration_time = ZB_NWK_ROUTE_DISCOVERY_EXPIRY\<rparr>, no_disc, no_disc, no_disc, no_disc], route_disc_table_cnt := 1\<rparr>"
  have c: "nwk_calc_path_cost 5 ?s = Some (7, ?s)"
    by (simp add: nwk_calc_path_cost_def sample_net_def ZB_NWK_STATIC_PATH_COST_def)
  have r: "rreq_routing 70 ?s = (RET_OK, Some 0, s1)"
    by (simp add: rreq_routing_def find_route_def nwk_array_find_ent_def sample_net_def sample_node_def upt_rec get_routing_def
        nwk_array_get_ent_def set_routing_def s1_def)
  have d: "rreq_disc m ?h ?c (7 + c) s1 = (RET_OK, True, Some 0, s2)"
    by (simp add: rreq_disc_def find_disc_def nwk_array_find_ent_def s1_def sample_net_def sample_node_def upt_rec get_disc_def
        nwk_array_get_ent_def set_disc_def s2_def nwk_get_mac_source_addr_def split: option.split)
  have n: "zb_nwk_neighbor_get_by_short 70 (nctx (tree s2)) = Some (RET_NOT_FOUND, None, nctx sample_tree)"
    by (subst sample_by_short) (simp_all add: s2_def s1_def sample_net_def sample_node_def sample_tree_def)
  have "disc_view s2 1 5 = Some (nwk_get_mac_source_addr m s1, 7 + c)"
    by (simp add: disc_view_def find_disc_def nwk_array_find_ent_def s2_def s1_def sample_net_def sample_node_def upt_rec)
  moreover have "nwk_get_mac_source_addr m s1 = nwk_get_mac_source_addr m (sample_net a)" "network_addr s2 = a"
    by (simp_all add: nwk_get_mac_source_addr_def s2_def s1_def sample_net_def sample_node_def split: option.split)
  moreover have "zb_nwk_mesh_rreq_handler b m ?h ?c ?s = rreq_respond b m ?h ?c (7 + c) s2"
    using c r d by (simp add: zb_nwk_mesh_rreq_handler_def Let_def)
  moreover obtain s3 h' where "rreq_respond b m ?h ?c (7 + c) s2 = Some (s3, [Send_rreq b h' (?c\<lparr>rq_path_cost := 7 + c\<rparr>)])"
      "route_disc_table s3 = route_disc_table s2" "h_src_addr h' = 5" "h_radius h' = r"
    using n assms calculation(3)
    by (auto simp: rreq_respond_def zb_nwk_mesh_send_rreq_def cmd_hdr_def Let_def)
  ultimately show ?thesis using disc_view_eq [of s3 s2]
    by (auto simp: sent_rreqs_def)
qed

text \<open>The source 5 asks for the address 70, and the node 9 hears it.\<close>

theorem reverse_routes_are_loop_free_witness:
  "\<exists>N air. net {5, 9} N air \<and> disc_view (N 9) 1 5 = Some (5, 14) \<and> last (reverse_route 14 N 1 5 9) = 5
    \<and> distinct (reverse_route 14 N 1 5 9)"
proof -
  let ?N = "sample_net"
  have n0: "net {5, 9} ?N {}" by (rule net.Init) (simp add: sample_net_facts)
  obtain s1 acts1 h1 where s1: "zb_nwk_mesh_rreq_handler 3 None \<lparr>h_src_addr = 5, h_dst_addr = 0, h_radius = 10, h_seq_num = 0, h_secure = False\<rparr>
        \<lparr>rq_rreq_id = 1, rq_dest_addr = 70, rq_path_cost = 0\<rparr> ((?N 5)\<lparr>rreq_id := 1\<rparr>) = Some (s1, acts1)"
      "disc_view s1 1 5 = Some (5, 7)" "(5, h1, \<lparr>rq_rreq_id = 1, rq_dest_addr = 70, rq_path_cost = 7\<rparr>) \<in> sent_rreqs 5 acts1"
      "h_src_addr h1 = 5" "h_radius h1 = 10"
    using sample_net_handler [of 5 3 None 0 10 0 False 0 1] by (auto simp: nwk_get_mac_source_addr_def sample_net_facts)
  have "zb_nwk_mesh_route_discovery (Some 3) 70 10 (?N 5) = Some (s1, acts1)"
    using s1(1) by (simp add: zb_nwk_mesh_route_discovery_def Let_def sample_net_facts) (simp add: sample_net_def sample_node_def)
  then have n1: "net {5, 9} (?N(5 := s1)) ({} \<union> sent_rreqs 5 acts1)"
    using net.Ask [OF n0, of 5 10 3 70] by (simp add: request_radius_def)
  obtain d q z where h1: "h1 = \<lparr>h_src_addr = 5, h_dst_addr = d, h_radius = 10, h_seq_num = q, h_secure = z\<rparr>"
    using s1(4,5) by (cases h1) auto
  obtain s2 acts2 where s2: "zb_nwk_mesh_rreq_handler 4 (Some 5) (h1\<lparr>h_radius := 9\<rparr>)
        \<lparr>rq_rreq_id = 1, rq_dest_addr = 70, rq_path_cost = 7\<rparr> ((?N 9)\<lparr>rreq_id := 0\<rparr>) = Some (s2, acts2)"
      "disc_view s2 1 5 = Some (5, 14)"
    using sample_net_handler [of 9 4 "Some 5" d 9 q z 7 0] by (auto simp: nwk_get_mac_source_addr_def h1)
  have "(?N 9)\<lparr>rreq_id := 0\<rparr> = ?N 9" by (simp add: sample_net_def sample_node_def)
  then have "rreq_indication 4 5 h1 \<lparr>rq_rreq_id = 1, rq_dest_addr = 70, rq_path_cost = 7\<rparr> ((?N(5 := s1)) 9) = Some (s2, acts2)"
    using s2(1) by (simp add: rreq_indication_def h1)
  then have n2: "net {5, 9} (?N(5 := s1, 9 := s2)) (({} \<union> sent_rreqs 5 acts1) \<union> sent_rreqs 9 acts2)"
    using net.Receive [OF n1, of 5 h1] s1(3) by simp
  then show ?thesis using reverse_routes_are_loop_free [OF n2, of 9 1 5 5 14] s2(2) by auto
qed

end
