(* ===== verification/Mac_Frame.thy ===== *)
theory Mac_Frame
  imports Zb_Bytes Address Secur_Ccm
begin

text \<open>
  Frames of the MAC layer as bytes: the frame control field (\<^verbatim>\<open>include/zb_mac.h\<close>), the header, which is filled by
  \<^verbatim>\<open>zb_mac_fill_mhr\<close> of \<^verbatim>\<open>mac/mac.c\<close> and read by \<^verbatim>\<open>zb_parse_mhr\<close> of \<^verbatim>\<open>mac/mac_common.c\<close>, the check sum
  of \<^verbatim>\<open>mac/mac_fcs.c\<close>, the filters for received frames, and the superframe specification of a beacon.
\<close>

section \<open>Frame control\<close>

definition MAC_FRAME_BEACON :: u8 where "MAC_FRAME_BEACON = 0"
definition MAC_FRAME_DATA :: u8 where "MAC_FRAME_DATA = 1"
definition MAC_FRAME_ACKNOWLEDGMENT :: u8 where "MAC_FRAME_ACKNOWLEDGMENT = 2"
definition MAC_FRAME_COMMAND :: u8 where "MAC_FRAME_COMMAND = 3"
definition MAC_FRAME_RESERVED1 :: u8 where "MAC_FRAME_RESERVED1 = 4"
definition MAC_FRAME_IEEE_802_15_4 :: u8 where "MAC_FRAME_IEEE_802_15_4 = 1"

definition MODE_NO_ADDR :: u8 where "MODE_NO_ADDR = 0"
definition MODE_16BIT :: u8 where "MODE_16BIT = 2"
definition MODE_64BIT :: u8 where "MODE_64BIT = 3"

lemmas mac_modes = MODE_NO_ADDR_def MODE_16BIT_def MODE_64BIT_def

text \<open>The field is two bytes; a setter clears its bits and sets them again. \<open>None\<close> is a failed assertion.\<close>

definition ZB_FCF_GET_FRAME_TYPE :: "u8 list \<Rightarrow> u8" where "ZB_FCF_GET_FRAME_TYPE fc = fc ! 0 AND 0x07"
definition ZB_FCF_GET_SECURITY_BIT :: "u8 list \<Rightarrow> u8" where "ZB_FCF_GET_SECURITY_BIT fc = fc ! 0 AND 0x08"
definition ZB_FCF_GET_FRAME_PENDING_BIT :: "u8 list \<Rightarrow> u8" where "ZB_FCF_GET_FRAME_PENDING_BIT fc = fc ! 0 AND 0x10"
definition ZB_FCF_GET_ACK_REQUEST_BIT :: "u8 list \<Rightarrow> u8" where "ZB_FCF_GET_ACK_REQUEST_BIT fc = fc ! 0 AND 0x20"
definition ZB_FCF_GET_PANID_COMPRESSION_BIT :: "u8 list \<Rightarrow> u8" where
  "ZB_FCF_GET_PANID_COMPRESSION_BIT fc = fc ! 0 AND 0x40"
definition ZB_FCF_GET_FRAME_VERSION :: "u8 list \<Rightarrow> u8" where
  "ZB_FCF_GET_FRAME_VERSION fc = drop_bit 4 (fc ! 1 AND 0x30)"
definition ZB_FCF_GET_SRC_ADDRESSING_MODE :: "u8 list \<Rightarrow> u8" where
  "ZB_FCF_GET_SRC_ADDRESSING_MODE fc = drop_bit 6 (fc ! 1 AND 0xC0)"
definition ZB_FCF_GET_DST_ADDRESSING_MODE :: "u8 list \<Rightarrow> u8" where
  "ZB_FCF_GET_DST_ADDRESSING_MODE fc = drop_bit 2 (fc ! 1 AND 0x0C)"

definition ZB_FCF_SET_FRAME_TYPE :: "u8 list \<Rightarrow> u8 \<Rightarrow> u8 list option" where
  "ZB_FCF_SET_FRAME_TYPE fc t =
     (if t < MAC_FRAME_RESERVED1 then Some (fc[0 := fc ! 0 AND 0xf8 OR t]) else None)"

definition fcf_set_bit :: "nat \<Rightarrow> u8 \<Rightarrow> u8 list \<Rightarrow> u8 \<Rightarrow> u8 list option" where
  "fcf_set_bit n keep fc v =
     (if v = 0 \<or> v = 1 then Some (fc[0 := fc ! 0 AND keep OR push_bit n v]) else None)"

definition ZB_FCF_SET_SECURITY_BIT :: "u8 list \<Rightarrow> u8 \<Rightarrow> u8 list option" where "ZB_FCF_SET_SECURITY_BIT = fcf_set_bit 3 0xF7"
definition ZB_FCF_SET_FRAME_PENDING_BIT :: "u8 list \<Rightarrow> u8 \<Rightarrow> u8 list option" where
  "ZB_FCF_SET_FRAME_PENDING_BIT = fcf_set_bit 4 0xEF"
definition ZB_FCF_SET_ACK_REQUEST_BIT :: "u8 list \<Rightarrow> u8 \<Rightarrow> u8 list option" where
  "ZB_FCF_SET_ACK_REQUEST_BIT = fcf_set_bit 5 0xDF"
definition ZB_FCF_SET_PANID_COMPRESSION_BIT :: "u8 list \<Rightarrow> u8 \<Rightarrow> u8 list option" where
  "ZB_FCF_SET_PANID_COMPRESSION_BIT = fcf_set_bit 6 0xBF"

definition ZB_FCF_SET_FRAME_VERSION :: "u8 list \<Rightarrow> u8 \<Rightarrow> u8 list" where
  "ZB_FCF_SET_FRAME_VERSION fc v = fc[1 := fc ! 1 AND 0xCF OR push_bit 4 v]"

definition zb_fcf_set_src_addressing_mode :: "u8 list \<Rightarrow> u8 \<Rightarrow> u8 list option" where
  "zb_fcf_set_src_addressing_mode fc m =
     (if m \<le> 3 then Some (fc[1 := fc ! 1 AND 0x3F OR push_bit 6 m]) else None)"

definition zb_fcf_set_dst_addressing_mode :: "u8 list \<Rightarrow> u8 \<Rightarrow> u8 list option" where
  "zb_fcf_set_dst_addressing_mode fc m =
     (if m \<le> 3 then Some (fc[1 := fc ! 1 AND 0xF3 OR push_bit 2 m]) else None)"

section \<open>The header\<close>

text \<open>An address is a union of eight bytes, of which a short address takes the first two.\<close>

record zb_mac_mhr =
  frame_control :: "u8 list"
  seq_number :: u8
  dst_pan_id :: u16
  dst_addr :: ieee
  src_pan_id :: u16
  src_addr :: ieee

definition addr_short :: "ieee \<Rightarrow> u16" where "addr_short a = letoh16 a"

definition union_short :: "u16 \<Rightarrow> ieee" where "union_short a = htole16 a @ replicate 6 0"

definition ZB_MAC_DST_PANID_OFFSET :: nat where "ZB_MAC_DST_PANID_OFFSET = 3"
definition PAN_ID_LENGTH :: nat where "PAN_ID_LENGTH = 2"

definition zb_mac_calculate_mhr_length :: "u8 \<Rightarrow> u8 \<Rightarrow> u8 \<Rightarrow> nat option" where
  "zb_mac_calculate_mhr_length src_addr_mode dst_addr_mode panid_compression =
     (let ok = (\<lambda>m. m = MODE_NO_ADDR \<or> m = MODE_16BIT \<or> m = MODE_64BIT);
          src = (if src_addr_mode \<noteq> MODE_NO_ADDR
                 then (if panid_compression = 0 then PAN_ID_LENGTH else 0) + 2
                   + (if src_addr_mode = MODE_64BIT then 6 else 0) else 0);
          dst = (if dst_addr_mode \<noteq> MODE_NO_ADDR
                 then PAN_ID_LENGTH + 2 + (if dst_addr_mode = MODE_64BIT then 6 else 0) else 0)
      in if ok src_addr_mode \<and> ok dst_addr_mode then Some (ZB_MAC_DST_PANID_OFFSET + src + dst) else None)"

definition fill_addr :: "u8 \<Rightarrow> ieee \<Rightarrow> u8 list" where
  "fill_addr mode a = (if mode = MODE_16BIT then htole16 (addr_short a) else take 8 a)"

definition zb_mac_fill_mhr :: "zb_mac_mhr \<Rightarrow> u8 list" where
  "zb_mac_fill_mhr m =
     (let fc = frame_control m; dst = ZB_FCF_GET_DST_ADDRESSING_MODE fc; src = ZB_FCF_GET_SRC_ADDRESSING_MODE fc in
      take 2 fc @ [seq_number m]
      @ (if dst \<noteq> 0 then htole16 (dst_pan_id m) @ fill_addr dst (dst_addr m) else [])
      @ (if src \<noteq> 0 then (if ZB_FCF_GET_PANID_COMPRESSION_BIT fc = 0 then htole16 (src_pan_id m) else [])
           @ fill_addr src (src_addr m) else []))"

text \<open>
  Reading: each step takes bytes from the front. \<open>None\<close> is a step behind the end of the memory that is given.
\<close>

definition get_bytes :: "nat \<Rightarrow> u8 list \<Rightarrow> (u8 list \<times> u8 list) option" where
  "get_bytes n bs = (if n \<le> length bs then Some (take n bs, drop n bs) else None)"

definition get_addr :: "u8 \<Rightarrow> u8 list \<Rightarrow> (ieee \<times> u8 list) option" where
  "get_addr mode bs =
     (if mode = MODE_16BIT then map_option (\<lambda>(a, r). (union_short (letoh16 a), r)) (get_bytes 2 bs)
      else get_bytes 8 bs)"

definition parse_dst :: "u8 \<Rightarrow> u8 list \<Rightarrow> (u16 \<times> ieee \<times> u8 list) option" where
  "parse_dst mode bs =
     (if mode \<noteq> 0 then
        (case get_bytes 2 bs of
           None \<Rightarrow> None
         | Some (p, r) \<Rightarrow> map_option (\<lambda>(a, r2). (letoh16 p, a, r2)) (get_addr mode r))
      else Some (0, replicate 8 0, bs))"

definition parse_src :: "u8 \<Rightarrow> u8 \<Rightarrow> u16 \<Rightarrow> u8 list \<Rightarrow> (u16 \<times> ieee \<times> u8 list) option" where
  "parse_src mode compression dst_pan bs =
     (if mode \<noteq> 0 then
        (if compression = 0 then
           (case get_bytes 2 bs of
              None \<Rightarrow> None
            | Some (p, r) \<Rightarrow> map_option (\<lambda>(a, r2). (letoh16 p, a, r2)) (get_addr mode r))
         else map_option (\<lambda>(a, r2). (dst_pan, a, r2)) (get_addr mode bs))
      else Some (0, replicate 8 0, bs))"

definition zb_parse_mhr :: "u8 list \<Rightarrow> (zb_mac_mhr \<times> nat) option" where
  "zb_parse_mhr bs =
     (case get_bytes 3 bs of
        None \<Rightarrow> None
      | Some (h, r) \<Rightarrow>
          (let fc = take 2 h in
           case parse_dst (ZB_FCF_GET_DST_ADDRESSING_MODE fc) r of
             None \<Rightarrow> None
           | Some (dp, da, r2) \<Rightarrow>
               (case parse_src (ZB_FCF_GET_SRC_ADDRESSING_MODE fc) (ZB_FCF_GET_PANID_COMPRESSION_BIT fc) dp r2 of
                  None \<Rightarrow> None
                | Some (sp, sa, r3) \<Rightarrow>
                    Some (\<lparr>frame_control = fc, seq_number = h ! 2, dst_pan_id = dp, dst_addr = da, src_pan_id = sp,
                      src_addr = sa\<rparr>, length bs - length r3))))"

section \<open>Filters\<close>

text \<open>
  Frames that a device takes: not a broadcast, if it sleeps, and not a frame with the security of 2003. The short address
  is compared whatever kind of address the frame has.
\<close>

definition can_accept_frame :: "bool \<Rightarrow> zb_mac_mhr \<Rightarrow> bool" where
  "can_accept_frame rx_on_when_idle m \<longleftrightarrow>
     \<not> (\<not> rx_on_when_idle \<and> addr_short (dst_addr m) = 0xffff)
     \<and> \<not> (ZB_FCF_GET_SECURITY_BIT (frame_control m) \<noteq> 0 \<and> ZB_FCF_GET_FRAME_VERSION (frame_control m) < MAC_FRAME_IEEE_802_15_4)"

definition check_frame_dst_addr :: "u16 \<Rightarrow> ieee \<Rightarrow> zb_mac_mhr \<Rightarrow> bool" where
  "check_frame_dst_addr short_address extended_address m \<longleftrightarrow>
     (if ZB_FCF_GET_DST_ADDRESSING_MODE (frame_control m) = MODE_16BIT then addr_short (dst_addr m) = short_address
      else dst_addr m = extended_address)"

section \<open>The superframe specification\<close>

definition ZB_SUPERFRAME_SET_BEACON_ORDER :: "u8 list \<Rightarrow> u8 \<Rightarrow> u8 list" where
  "ZB_SUPERFRAME_SET_BEACON_ORDER s v = s[0 := s ! 0 AND 0xF0 OR v]"
definition ZB_SUPERFRAME_SET_SUPERFRAME_ORDER :: "u8 list \<Rightarrow> u8 \<Rightarrow> u8 list" where
  "ZB_SUPERFRAME_SET_SUPERFRAME_ORDER s v = s[0 := s ! 0 AND 0x0F OR push_bit 4 v]"
definition ZB_SUPERFRAME_SET_FINAL_CAP_SLOT :: "u8 list \<Rightarrow> u8 \<Rightarrow> u8 list" where
  "ZB_SUPERFRAME_SET_FINAL_CAP_SLOT s v = s[1 := s ! 1 AND 0xF0 OR v]"
definition ZB_SUPERFRAME_SET_BLE :: "u8 list \<Rightarrow> u8 \<Rightarrow> u8 list" where
  "ZB_SUPERFRAME_SET_BLE s v = s[1 := s ! 1 AND 0xEF OR push_bit 4 v]"
definition ZB_SUPERFRAME_SET_PAN_COORD :: "u8 list \<Rightarrow> u8 \<Rightarrow> u8 list" where
  "ZB_SUPERFRAME_SET_PAN_COORD s v = s[1 := s ! 1 AND 0xBF OR push_bit 6 v]"
definition ZB_SUPERFRAME_SET_ASS_PERMIT :: "u8 list \<Rightarrow> u8 \<Rightarrow> u8 list" where
  "ZB_SUPERFRAME_SET_ASS_PERMIT s v = s[1 := s ! 1 AND 0x7F OR push_bit 7 v]"

definition ZB_MAC_GET_BEACON_ORDER :: "u8 list \<Rightarrow> u8" where "ZB_MAC_GET_BEACON_ORDER s = s ! 0 AND 0x07"
definition ZB_MAC_GET_ASSOCIATION_PERMIT :: "u8 list \<Rightarrow> u8" where
  "ZB_MAC_GET_ASSOCIATION_PERMIT s = drop_bit 7 (s ! 1) AND 1"
definition ZB_MAC_GET_SUPERFRAME_ORDER :: "u8 list \<Rightarrow> u8" where
  "ZB_MAC_GET_SUPERFRAME_ORDER s = drop_bit 4 (s ! 0) AND 0xF"

text \<open>The specification that \<^verbatim>\<open>zb_send_beacon_frame\<close> puts into a beacon.\<close>

definition beacon_superframe :: "u8 \<Rightarrow> u8 \<Rightarrow> u8 \<Rightarrow> bool \<Rightarrow> u8 \<Rightarrow> u8 list" where
  "beacon_superframe beacon_order superframe_order ble coordinator permit =
     (let s0 = ZB_SUPERFRAME_SET_BEACON_ORDER [0, 0] beacon_order;
          s1 = ZB_SUPERFRAME_SET_SUPERFRAME_ORDER s0 superframe_order;
          s2 = ZB_SUPERFRAME_SET_FINAL_CAP_SLOT s1 0x0F;
          s3 = ZB_SUPERFRAME_SET_BLE s2 ble;
          s4 = (if coordinator then ZB_SUPERFRAME_SET_PAN_COORD s3 1 else s3)
      in ZB_SUPERFRAME_SET_ASS_PERMIT s4 permit)"

end
