(* ===== verification/Mac_Frame_Props.thy ===== *)
theory Mac_Frame_Props
  imports Mac_Fcs
begin

text \<open>
  Headers of the MAC layer: reading is the inverse of filling, and the length that is reserved for a header is the one
  that is filled. The check sum of a frame is the CRC-16 of ITU-T and finds every change within two neighbouring bytes.
\<close>

section \<open>Addresses\<close>

definition addr_ok :: "u8 \<Rightarrow> ieee \<Rightarrow> bool" where
  "addr_ok mode a \<longleftrightarrow> (if mode = MODE_16BIT then a = union_short (addr_short a) else length a = 8)"

lemma get_bytes_iff: "get_bytes n bs = Some (x, r) \<longleftrightarrow> length x = n \<and> bs = x @ r"
  by (auto simp: get_bytes_def)

lemma addr_short_union [simp]: "addr_short (union_short a) = a"
  by (simp add: addr_short_def union_short_def)

lemma get_addr_iff: "get_addr mode bs = Some (a, r) \<longleftrightarrow> addr_ok mode a \<and> bs = fill_addr mode a @ r"
proof (cases "mode = MODE_16BIT")
  case True
  have "(\<exists>x. length x = 2 \<and> bs = x @ r \<and> a = union_short (letoh16 x)) \<longleftrightarrow> a = union_short (addr_short a) \<and> bs = htole16 (addr_short a) @ r"
  proof
    assume "\<exists>x. length x = 2 \<and> bs = x @ r \<and> a = union_short (letoh16 x)"
    then obtain x where x: "length x = 2" "bs = x @ r" "a = union_short (letoh16 x)" by blast
    then have "htole16 (letoh16 x) = x" using htole16_take [of x] by simp
    then show "a = union_short (addr_short a) \<and> bs = htole16 (addr_short a) @ r" using x by simp
  next
    assume "a = union_short (addr_short a) \<and> bs = htole16 (addr_short a) @ r"
    then show "\<exists>x. length x = 2 \<and> bs = x @ r \<and> a = union_short (letoh16 x)"
      by (intro exI [of _ "htole16 (addr_short a)"]) simp
  qed
  then show ?thesis using True by (auto simp: get_addr_def addr_ok_def fill_addr_def get_bytes_iff)
next
  case False
  then show ?thesis by (auto simp: get_addr_def addr_ok_def fill_addr_def get_bytes_iff)
qed

lemma get_pan_iff:
  "(\<exists>x. get_bytes 2 bs = Some (x, r) \<and> p = letoh16 x) \<longleftrightarrow> bs = htole16 p @ r"
proof
  assume "\<exists>x. get_bytes 2 bs = Some (x, r) \<and> p = letoh16 x"
  then obtain x where x: "length x = 2" "bs = x @ r" "p = letoh16 x" by (auto simp: get_bytes_iff)
  then show "bs = htole16 p @ r" using htole16_take [of x] by simp
next
  assume "bs = htole16 p @ r"
  then show "\<exists>x. get_bytes 2 bs = Some (x, r) \<and> p = letoh16 x"
    by (intro exI [of _ "htole16 p"]) (simp add: get_bytes_iff)
qed

section \<open>The two halves of a header\<close>

definition fill_dst :: "u8 \<Rightarrow> u16 \<Rightarrow> ieee \<Rightarrow> u8 list" where
  "fill_dst mode p a = (if mode \<noteq> 0 then htole16 p @ fill_addr mode a else [])"

definition dst_ok :: "u8 \<Rightarrow> u16 \<Rightarrow> ieee \<Rightarrow> bool" where
  "dst_ok mode p a \<longleftrightarrow> (if mode \<noteq> 0 then addr_ok mode a else p = 0 \<and> a = replicate 8 0)"

definition fill_src :: "u8 \<Rightarrow> u8 \<Rightarrow> u16 \<Rightarrow> ieee \<Rightarrow> u8 list" where
  "fill_src mode c p a = (if mode \<noteq> 0 then (if c = 0 then htole16 p else []) @ fill_addr mode a else [])"

definition src_ok :: "u8 \<Rightarrow> u8 \<Rightarrow> u16 \<Rightarrow> u16 \<Rightarrow> ieee \<Rightarrow> bool" where
  "src_ok mode c dst_pan p a \<longleftrightarrow>
     (if mode \<noteq> 0 then addr_ok mode a \<and> (c \<noteq> 0 \<longrightarrow> p = dst_pan) else p = 0 \<and> a = replicate 8 0)"

lemma pan_addr_iff:
  "(case get_bytes 2 bs of None \<Rightarrow> None | Some (x, r) \<Rightarrow> map_option (\<lambda>(a, r2). (letoh16 x, a, r2)) (get_addr mode r)) = Some (p, a, r)
     \<longleftrightarrow> addr_ok mode a \<and> bs = htole16 p @ fill_addr mode a @ r"
proof -
  have "(case get_bytes 2 bs of None \<Rightarrow> None | Some (x, r) \<Rightarrow> map_option (\<lambda>(a, r2). (letoh16 x, a, r2)) (get_addr mode r)) = Some (p, a, r)
      \<longleftrightarrow> (\<exists>r1. (\<exists>x. get_bytes 2 bs = Some (x, r1) \<and> p = letoh16 x) \<and> get_addr mode r1 = Some (a, r))"
    by (cases "get_bytes 2 bs") auto
  then show ?thesis by (auto simp: get_pan_iff get_addr_iff)
qed

lemma parse_dst_iff: "parse_dst mode bs = Some (p, a, r) \<longleftrightarrow> dst_ok mode p a \<and> bs = fill_dst mode p a @ r"
proof (cases "mode = 0")
  case True
  then show ?thesis by (auto simp: parse_dst_def dst_ok_def fill_dst_def)
next
  case False
  then show ?thesis using pan_addr_iff [where bs = bs and mode = mode and p = p and a = a and r = r] by (simp add: parse_dst_def dst_ok_def fill_dst_def)
qed

lemma parse_src_iff: "parse_src mode c d bs = Some (p, a, r) \<longleftrightarrow> src_ok mode c d p a \<and> bs = fill_src mode c p a @ r"
proof (cases "mode = 0 \<or> c \<noteq> 0")
  case True
  then show ?thesis by (auto simp: parse_src_def src_ok_def fill_src_def get_addr_iff)
next
  case False
  then show ?thesis using pan_addr_iff [where bs = bs and mode = mode and p = p and a = a and r = r] by (simp add: parse_src_def src_ok_def fill_src_def)
qed

section \<open>Headers\<close>

text \<open>Headers as they are read: fields that are not in the frame are zero, and the PAN of the source may stand for both.\<close>

definition mhr_ok :: "zb_mac_mhr \<Rightarrow> bool" where
  "mhr_ok m \<longleftrightarrow> length (frame_control m) = 2
     \<and> dst_ok (ZB_FCF_GET_DST_ADDRESSING_MODE (frame_control m)) (dst_pan_id m) (dst_addr m)
     \<and> src_ok (ZB_FCF_GET_SRC_ADDRESSING_MODE (frame_control m)) (ZB_FCF_GET_PANID_COMPRESSION_BIT (frame_control m))
         (dst_pan_id m) (src_pan_id m) (src_addr m)"

lemma fill_mhr_parts:
  "zb_mac_fill_mhr m = take 2 (frame_control m) @ [seq_number m]
     @ fill_dst (ZB_FCF_GET_DST_ADDRESSING_MODE (frame_control m)) (dst_pan_id m) (dst_addr m)
     @ fill_src (ZB_FCF_GET_SRC_ADDRESSING_MODE (frame_control m)) (ZB_FCF_GET_PANID_COMPRESSION_BIT (frame_control m))
         (src_pan_id m) (src_addr m)"
  by (simp add: zb_mac_fill_mhr_def fill_dst_def fill_src_def Let_def)

text \<open>What was filled is read, whatever follows it.\<close>

lemma parse_fill:
  assumes ok: "mhr_ok m"
  shows "zb_parse_mhr (zb_mac_fill_mhr m @ rest) = Some (m, length (zb_mac_fill_mhr m))"
proof -
  let ?h = "frame_control m @ [seq_number m]" and ?fc = "frame_control m"
  let ?d = "fill_dst (ZB_FCF_GET_DST_ADDRESSING_MODE ?fc) (dst_pan_id m) (dst_addr m)"
  let ?s = "fill_src (ZB_FCF_GET_SRC_ADDRESSING_MODE ?fc) (ZB_FCF_GET_PANID_COMPRESSION_BIT ?fc) (src_pan_id m) (src_addr m)"
  have l: "length ?fc = 2" using ok by (simp add: mhr_ok_def)
  then have t: "take 2 ?h = ?fc" "?h ! 2 = seq_number m" by (simp_all add: nth_append)
  let ?bs = "zb_mac_fill_mhr m @ rest"
  have b: "?bs = ?h @ ?d @ ?s @ rest" using l by (simp add: fill_mhr_parts)
  have g: "get_bytes 3 ?bs = Some (?h, ?d @ ?s @ rest)" using b l by (simp add: get_bytes_iff)
  have d: "parse_dst (ZB_FCF_GET_DST_ADDRESSING_MODE ?fc) (?d @ ?s @ rest) = Some (dst_pan_id m, dst_addr m, ?s @ rest)"
    using ok by (simp add: parse_dst_iff mhr_ok_def)
  have s: "parse_src (ZB_FCF_GET_SRC_ADDRESSING_MODE ?fc) (ZB_FCF_GET_PANID_COMPRESSION_BIT ?fc) (dst_pan_id m) (?s @ rest)
      = Some (src_pan_id m, src_addr m, rest)"
    using ok by (simp add: parse_src_iff mhr_ok_def)
  have "length (zb_mac_fill_mhr m) = length ?bs - length rest" by simp
  then show ?thesis
    unfolding zb_parse_mhr_def g Let_def prod.case option.case t d s by simp
qed

text \<open>
  C13: Reading a MAC header is the inverse of filling one: the bytes are read as a header of some length exactly if they start with the
  filled bytes of this header, which are as many; so what was filled is read back, whatever
  follows it, and what was read would be filled with the same bytes.
\<close>

theorem parse_inverts_fill:
  "zb_parse_mhr bs = Some (m, n) \<longleftrightarrow> mhr_ok m \<and> n = length (zb_mac_fill_mhr m) \<and> (\<exists>rest. bs = zb_mac_fill_mhr m @ rest)"
proof
  assume "zb_parse_mhr bs = Some (m, n)"
  then obtain h r dp da r2 sp sa r3 where h: "get_bytes 3 bs = Some (h, r)"
    and d: "parse_dst (ZB_FCF_GET_DST_ADDRESSING_MODE (take 2 h)) r = Some (dp, da, r2)"
    and s: "parse_src (ZB_FCF_GET_SRC_ADDRESSING_MODE (take 2 h)) (ZB_FCF_GET_PANID_COMPRESSION_BIT (take 2 h)) dp r2 = Some (sp, sa, r3)"
    and m: "m = \<lparr>frame_control = take 2 h, seq_number = h ! 2, dst_pan_id = dp, dst_addr = da, src_pan_id = sp, src_addr = sa\<rparr>"
    and n: "n = length bs - length r3"
    by (auto simp: zb_parse_mhr_def Let_def split: option.split_asm prod.split_asm)
  have h3: "length h = 3" "bs = h @ r" using h by (simp_all add: get_bytes_iff)
  then have "h = take 2 h @ [h ! 2]" using take_Suc_conv_app_nth [of 2 h] by simp
  moreover have "bs = zb_mac_fill_mhr m @ r3"
    using d s h3 calculation by (simp add: fill_mhr_parts m parse_dst_iff parse_src_iff)
  ultimately show "mhr_ok m \<and> n = length (zb_mac_fill_mhr m) \<and> (\<exists>rest. bs = zb_mac_fill_mhr m @ rest)"
    using d s h3(1) n by (auto simp: mhr_ok_def m parse_dst_iff parse_src_iff)
next
  assume "mhr_ok m \<and> n = length (zb_mac_fill_mhr m) \<and> (\<exists>rest. bs = zb_mac_fill_mhr m @ rest)"
  then show "zb_parse_mhr bs = Some (m, n)" using parse_fill by auto
qed

text \<open>The length that is reserved for a header.\<close>

lemma length_fill_addr: "addr_ok mode a \<Longrightarrow> length (fill_addr mode a) = (if mode = MODE_16BIT then 2 else 8)"
  by (simp add: fill_addr_def addr_ok_def)

text \<open>
  The length that is reserved for a header is the number of bytes that are filled into it, or the program stops
  because an address has the reserved mode.
\<close>

theorem reserved_length_is_filled:
  assumes "mhr_ok m"
    and "zb_mac_calculate_mhr_length (ZB_FCF_GET_SRC_ADDRESSING_MODE (frame_control m))
      (ZB_FCF_GET_DST_ADDRESSING_MODE (frame_control m)) (ZB_FCF_GET_PANID_COMPRESSION_BIT (frame_control m)) = Some n"
  shows "length (zb_mac_fill_mhr m) = n \<and> n \<le> 23"
  using assms
  by (auto simp: fill_mhr_parts fill_dst_def fill_src_def length_fill_addr mhr_ok_def dst_ok_def src_ok_def
      zb_mac_calculate_mhr_length_def Let_def ZB_MAC_DST_PANID_OFFSET_def PAN_ID_LENGTH_def mac_modes split: if_split_asm)

theorem reserved_length_is_filled_witness:
  "length (zb_mac_fill_mhr \<lparr>frame_control = [0x41, 0x88], seq_number = 7, dst_pan_id = 0x1aaa, dst_addr = union_short 3,
     src_pan_id = 0x1aaa, src_addr = union_short 9\<rparr>) = 9"
proof -
  let ?m = "\<lparr>frame_control = [0x41, 0x88], seq_number = 7, dst_pan_id = 0x1aaa, dst_addr = union_short 3,
     src_pan_id = 0x1aaa, src_addr = union_short 9\<rparr>"
  have "mhr_ok ?m \<and> zb_mac_calculate_mhr_length (ZB_FCF_GET_SRC_ADDRESSING_MODE (frame_control ?m))
      (ZB_FCF_GET_DST_ADDRESSING_MODE (frame_control ?m)) (ZB_FCF_GET_PANID_COMPRESSION_BIT (frame_control ?m)) = Some 9"
    by (simp add: mhr_ok_def dst_ok_def src_ok_def addr_ok_def ZB_FCF_GET_SRC_ADDRESSING_MODE_def ZB_FCF_GET_DST_ADDRESSING_MODE_def
        ZB_FCF_GET_PANID_COMPRESSION_BIT_def zb_mac_calculate_mhr_length_def mac_modes ZB_MAC_DST_PANID_OFFSET_def PAN_ID_LENGTH_def)
  then show ?thesis using reserved_length_is_filled [of ?m 9] by blast
qed

section \<open>The check sum\<close>

text \<open>One bit and one byte of the code with the polynomial \<open>x^16 + x^12 + x^5 + 1\<close>, lowest bit first.\<close>

definition crc_bit :: "u16 \<Rightarrow> u16" where
  "crc_bit c = drop_bit 1 c XOR (if bit c 0 then 0x8408 else 0)"

definition crc_byte :: "u16 \<Rightarrow> u8 \<Rightarrow> u16" where
  "crc_byte c b = (crc_bit ^^ 8) (c XOR ucast b)"

lemma crc_bit_xor: "crc_bit (x XOR y) = crc_bit x XOR crc_bit y"
  by (rule bit_word_eqI) (auto simp: crc_bit_def bit_simps)

lemma crc_bits_xor: "(crc_bit ^^ n) (x XOR y) = (crc_bit ^^ n) x XOR (crc_bit ^^ n) y"
  by (induction n) (simp_all add: crc_bit_xor)

lemma crc_bit_even: "\<not> bit c 0 \<Longrightarrow> crc_bit c = drop_bit 1 c"
  by (simp add: crc_bit_def)

lemma crc_bits_high: "n \<le> k \<Longrightarrow> (\<And>j. j < k \<Longrightarrow> \<not> bit c j) \<Longrightarrow> (crc_bit ^^ n) c = drop_bit n c"
proof (induction n)
  case (Suc n)
  then have "(crc_bit ^^ n) c = drop_bit n c" by simp
  moreover have "\<not> bit (drop_bit n c) 0" using Suc.prems by (simp add: bit_simps)
  then have "crc_bit (drop_bit n c) = drop_bit 1 (drop_bit n c)" by (rule crc_bit_even)
  ultimately show ?case by simp
qed simp

text \<open>The table: the bytes with one digit zero are computed, the others are sums of those.\<close>

lemma fcs_table_digits:
  "map (\<lambda>i. (crc_bit ^^ 8) (of_nat i)) [0..<16] = take 16 fcs_table"
  "map (\<lambda>h. (crc_bit ^^ 8) (of_nat (16 * h))) [0..<16] = map (\<lambda>h. fcs_table ! (16 * h)) [0..<16]"
  by code_simp+

lemma fcs_table_sums:
  "\<forall>h\<in>set [0..<16]. \<forall>l\<in>set [0..<16]. fcs_table ! (16 * h + l) = fcs_table ! (16 * h) XOR fcs_table ! l"
  "\<forall>h\<in>set [0..<16]. \<forall>l\<in>set [0..<16]. (of_nat (16 * h + l) :: u16) = of_nat (16 * h) XOR of_nat l"
  by code_simp+

lemma fcs_table_byte: "i < 256 \<Longrightarrow> fcs_table ! i = (crc_bit ^^ 8) (of_nat i)"
proof -
  assume "i < 256"
  let ?h = "i div 16" and ?l = "i mod 16"
  have d: "?h < 16" "?l < 16" "16 * ?h + ?l = i" using \<open>i < 256\<close> by simp_all
  have "fcs_table ! ?l = (crc_bit ^^ 8) (of_nat ?l)"
    using arg_cong [OF fcs_table_digits(1), of "\<lambda>xs. xs ! ?l"] d(2) by simp
  moreover have "fcs_table ! (16 * ?h) = (crc_bit ^^ 8) (of_nat (16 * ?h))"
    using arg_cong [OF fcs_table_digits(2), of "\<lambda>xs. xs ! ?h"] d(1) by simp
  moreover have m: "?h \<in> set [0..<16]" "?l \<in> set [0..<16]" using d by simp_all
  have "fcs_table ! (16 * ?h + ?l) = fcs_table ! (16 * ?h) XOR fcs_table ! ?l"
    "(of_nat (16 * ?h + ?l) :: u16) = of_nat (16 * ?h) XOR of_nat ?l"
    by (rule bspec [OF bspec [OF fcs_table_sums(1) m(1)] m(2)], rule bspec [OF bspec [OF fcs_table_sums(2) m(1)] m(2)])
  ultimately show ?thesis unfolding d(3) by (simp only: crc_bits_xor)
qed

lemma low_byte: "(x :: u16) AND 0xff = take_bit 8 x"
  by (simp add: take_bit_eq_mask mask_eq_exp_minus_1)

lemma fcs_step: "fcs_table ! unat ((c XOR ucast b) AND 0xff) XOR drop_bit 8 c = crc_byte c b"
proof -
  let ?x = "c XOR ucast b" and ?y = "(c XOR ucast b) AND 0xff" and ?h = "push_bit 8 (drop_bit 8 c)"
  have "unat ?y < 256" unfolding low_byte by (simp only: unsigned_take_bit_eq) (simp add: take_bit_eq_mod)
  then have "fcs_table ! unat ?y = (crc_bit ^^ 8) ?y" using fcs_table_byte by simp
  moreover have "(crc_bit ^^ 8) ?h = drop_bit 8 c"
  proof -
    have "(crc_bit ^^ 8) ?h = drop_bit 8 ?h" by (rule crc_bits_high [of 8 8]) (simp_all add: bit_simps)
    also have "\<dots> = drop_bit 8 c" by (rule bit_word_eqI) (auto simp: bit_simps dest: bit_imp_le_length)
    finally show ?thesis .
  qed
  moreover have "?x = ?y XOR ?h"
    unfolding low_byte by (rule bit_word_eqI) (auto simp: bit_simps dest: bit_imp_le_length)
  then have "crc_byte c b = (crc_bit ^^ 8) (?y XOR ?h)" unfolding crc_byte_def by (rule arg_cong)
  then have "crc_byte c b = (crc_bit ^^ 8) ?y XOR (crc_bit ^^ 8) ?h" unfolding crc_bits_xor .
  ultimately show ?thesis by simp
qed

lemma fcs_loop_crc: "fcs_loop c bs = foldl crc_byte c bs"
  by (induction bs arbitrary: c) (simp_all add: fcs_step)

text \<open>One bit of the code loses nothing.\<close>

lemma crc_bit_inj: "crc_bit x = crc_bit y \<Longrightarrow> x = y"
proof -
  assume eq: "crc_bit x = crc_bit y"
  have b: "bit (crc_bit z) n = (bit z (Suc n) \<noteq> (bit z 0 \<and> bit (0x8408 :: u16) n))" for z n
    by (auto simp: crc_bit_def bit_simps)
  have "bit (crc_bit z) 15 = bit z 0" for z using b [of z 15] by (auto dest: bit_imp_le_length)
  then have z: "bit x 0 = bit y 0" using eq by metis
  show "x = y"
  proof (rule bit_word_eqI)
    fix n assume "n < LENGTH(16)"
    show "bit x n = bit y n"
    proof (cases n)
      case (Suc m)
      then show ?thesis using b [of x m] b [of y m] eq z by auto
    qed (use z in simp)
  qed
qed

lemma crc_bits_inj: "(crc_bit ^^ n) x = (crc_bit ^^ n) y \<Longrightarrow> x = y"
  by (induction n) (auto dest: crc_bit_inj)

lemma crc_byte_same: "crc_byte x b = crc_byte y b \<longleftrightarrow> x = y"
proof -
  have "x XOR ucast b = y XOR ucast b \<Longrightarrow> x = y"
    by (metis xor.assoc xor_self_eq xor.right_neutral)
  then show ?thesis unfolding crc_byte_def by (metis crc_bits_inj)
qed

lemma crc_bytes_same: "foldl crc_byte x bs = foldl crc_byte y bs \<longleftrightarrow> x = y"
  by (induction bs arbitrary: x y) (simp_all add: crc_byte_same)

lemma crc_two_bytes: "crc_byte (crc_byte c a) b = crc_byte (crc_byte c a') b' \<longleftrightarrow> a = a' \<and> b = b'"
proof
  assume eq: "crc_byte (crc_byte c a) b = crc_byte (crc_byte c a') b'"
  let ?w = "\<lambda>a b. ucast a XOR push_bit 8 (ucast (b :: u8)) :: u16"
  have e: "crc_byte (crc_byte c x) y = (crc_bit ^^ 16) (c XOR ?w x y)" for x y :: u8
  proof -
    have "(crc_bit ^^ 8) (push_bit 8 (ucast y)) = drop_bit 8 (push_bit 8 (ucast y) :: u16)"
      by (rule crc_bits_high [of 8 8]) (simp_all add: bit_simps)
    also have "\<dots> = ucast y" by (rule bit_word_eqI) (auto simp: bit_simps dest: bit_imp_le_length)
    finally have h: "(crc_bit ^^ 8) (push_bit 8 (ucast y)) = (ucast y :: u16)" .
    have "(crc_bit ^^ 16) (c XOR ?w x y) = (crc_bit ^^ 8) ((crc_bit ^^ 8) (c XOR ucast x XOR push_bit 8 (ucast y)))"
      using funpow_add [of 8 8 crc_bit] by (simp add: xor.assoc)
    also have "\<dots> = (crc_bit ^^ 8) ((crc_bit ^^ 8) (c XOR ucast x) XOR ucast y)" by (simp only: crc_bits_xor h xor.assoc)
    finally show ?thesis by (simp add: crc_byte_def)
  qed
  have "c XOR ?w a b = c XOR ?w a' b'" using eq unfolding e by (rule crc_bits_inj)
  then have "c XOR (c XOR ?w a b) = c XOR (c XOR ?w a' b')" by (rule arg_cong)
  then have w: "?w a b = ?w a' b'" by (simp only: xor.assoc [symmetric] xor_self_eq xor.left_neutral)
  have "a = a'"
  proof (rule bit_word_eqI)
    fix n assume "n < LENGTH(8)"
    then show "bit a n = bit a' n" using arg_cong [OF w, of "\<lambda>v. bit v n"] by (simp add: bit_simps)
  qed
  moreover have "b = b'"
  proof (rule bit_word_eqI)
    fix n assume "n < LENGTH(8)"
    then show "bit b n = bit b' n"
      using arg_cong [OF w, of "\<lambda>v. bit v (n + 8)"] by (auto simp: bit_simps dest: bit_imp_le_length)
  qed
  ultimately show "a = a' \<and> b = b'" by simp
qed simp

text \<open>
  C14: The check sum that the table-driven code appends is the cyclic redundancy code of 16 bits with the polynomial
  of ITU-T (\<open>x^16 + x^12 + x^5 + 1\<close>), computed bit by bit.
\<close>

theorem fcs_is_itu_t_crc:
  "fcs_loop 0 bs = foldl (\<lambda>c b. (crc_bit ^^ 8) (c XOR ucast b)) 0 bs"
  using fcs_loop_crc [of 0 bs] by (simp add: crc_byte_def [abs_def])

text \<open>
  Two frames that differ in at most two neighbouring bytes have different check sums, so that every burst of errors
  that stays within them is found.
\<close>

theorem fcs_finds_short_bursts:
  "fcs_loop 0 (h @ [a, b] @ t) = fcs_loop 0 (h @ [a', b'] @ t) \<longleftrightarrow> a = a' \<and> b = b'"
  by (simp add: fcs_loop_crc crc_bytes_same crc_two_bytes)

end
