(* ===== verification/Nwk_Frame.thy ===== *)
theory Nwk_Frame
  imports Nwk_Secur
begin

text \<open>
  Headers of the network layer in packet buffers: the macros of \<^verbatim>\<open>include/zb_nwk.h\<close> on the frame control field
  and \<^verbatim>\<open>nwk_alloc_and_fill_hdr\<close> of \<^verbatim>\<open>nwk/nwk_main.c\<close>. The fields are at fixed places behind
  the begin of the data: control (2), destination (2), source (2), radius, number; long addresses and the auxiliary
  header follow.
\<close>

section \<open>Frame control\<close>

definition ZB_PROTOCOL_VERSION :: u8 where "ZB_PROTOCOL_VERSION = 2"
definition ZB_NWK_FRAME_TYPE_DATA :: u8 where "ZB_NWK_FRAME_TYPE_DATA = 0"
definition ZB_NWK_FRAME_TYPE_COMMAND :: u8 where "ZB_NWK_FRAME_TYPE_COMMAND = 1"

definition ZB_NWK_FRAMECTL_GET_FRAME_TYPE :: "u8 list \<Rightarrow> u8" where
  "ZB_NWK_FRAMECTL_GET_FRAME_TYPE fc = fc ! 0 AND 3"
definition ZB_NWK_FRAMECTL_GET_PROTOCOL_VERSION :: "u8 list \<Rightarrow> u8" where
  "ZB_NWK_FRAMECTL_GET_PROTOCOL_VERSION fc = drop_bit 2 (fc ! 0) AND 0xf"
definition ZB_NWK_FRAMECTL_GET_DISCOVER_ROUTE :: "u8 list \<Rightarrow> u8" where
  "ZB_NWK_FRAMECTL_GET_DISCOVER_ROUTE fc = drop_bit 5 (fc ! 0) AND 3"
definition ZB_NWK_FRAMECTL_GET_MULTICAST_FLAG :: "u8 list \<Rightarrow> u8" where
  "ZB_NWK_FRAMECTL_GET_MULTICAST_FLAG fc = fc ! 1 AND 1"
definition ZB_NWK_FRAMECTL_GET_SECURITY :: "u8 list \<Rightarrow> u8" where
  "ZB_NWK_FRAMECTL_GET_SECURITY fc = drop_bit 1 (fc ! 1) AND 1"
definition ZB_NWK_FRAMECTL_GET_DESTINATION_IEEE :: "u8 list \<Rightarrow> u8" where
  "ZB_NWK_FRAMECTL_GET_DESTINATION_IEEE fc = drop_bit 3 (fc ! 1) AND 1"
definition ZB_NWK_FRAMECTL_GET_SOURCE_IEEE :: "u8 list \<Rightarrow> u8" where
  "ZB_NWK_FRAMECTL_GET_SOURCE_IEEE fc = drop_bit 4 (fc ! 1) AND 1"

text \<open>The setters only set bits; the field is cleared first.\<close>

definition ZB_NWK_FRAMECTL_SET_FRAME_TYPE_N_PROTO_VER :: "u8 \<Rightarrow> u8 \<Rightarrow> u8 list \<Rightarrow> u8 list" where
  "ZB_NWK_FRAMECTL_SET_FRAME_TYPE_N_PROTO_VER t v fc = fc[0 := fc ! 0 OR (t OR push_bit 2 v)]"
definition ZB_NWK_FRAMECTL_SET_DISCOVER_ROUTE :: "u8 \<Rightarrow> u8 list \<Rightarrow> u8 list" where
  "ZB_NWK_FRAMECTL_SET_DISCOVER_ROUTE r fc = fc[0 := fc ! 0 OR push_bit 6 r]"
definition ZB_NWK_FRAMECTL_SET_SECURITY :: "u8 \<Rightarrow> u8 list \<Rightarrow> u8 list" where
  "ZB_NWK_FRAMECTL_SET_SECURITY s fc = fc[1 := fc ! 1 OR push_bit 1 s]"
definition ZB_NWK_FRAMECTL_SET_SRC_DEST_IEEE :: "u8 \<Rightarrow> u8 \<Rightarrow> u8 list \<Rightarrow> u8 list" where
  "ZB_NWK_FRAMECTL_SET_SRC_DEST_IEEE s d fc = fc[1 := fc ! 1 OR (push_bit 3 d OR push_bit 4 s)]"

lemmas framectl_defs = ZB_NWK_FRAMECTL_GET_FRAME_TYPE_def ZB_NWK_FRAMECTL_GET_PROTOCOL_VERSION_def
  ZB_NWK_FRAMECTL_GET_DISCOVER_ROUTE_def ZB_NWK_FRAMECTL_GET_MULTICAST_FLAG_def ZB_NWK_FRAMECTL_GET_SECURITY_def
  ZB_NWK_FRAMECTL_GET_DESTINATION_IEEE_def ZB_NWK_FRAMECTL_GET_SOURCE_IEEE_def
  ZB_NWK_FRAMECTL_SET_FRAME_TYPE_N_PROTO_VER_def ZB_NWK_FRAMECTL_SET_DISCOVER_ROUTE_def ZB_NWK_FRAMECTL_SET_SECURITY_def
  ZB_NWK_FRAMECTL_SET_SRC_DEST_IEEE_def ZB_PROTOCOL_VERSION_def ZB_NWK_FRAME_TYPE_DATA_def ZB_NWK_FRAME_TYPE_COMMAND_def

section \<open>Fields of a header in a buffer\<close>

definition hdr_fctl :: "zb_buf \<Rightarrow> u8 list" where "hdr_fctl b = bytes_at (boff b) 2 b"
definition hdr_dst :: "zb_buf \<Rightarrow> u16" where "hdr_dst b = letoh16 (bytes_at (boff b + 2) 2 b)"
definition hdr_src :: "zb_buf \<Rightarrow> u16" where "hdr_src b = letoh16 (bytes_at (boff b + 4) 2 b)"
definition hdr_radius :: "zb_buf \<Rightarrow> u8" where "hdr_radius b = bytes b ! (boff b + 6)"
definition hdr_seq :: "zb_buf \<Rightarrow> u8" where "hdr_seq b = bytes b ! (boff b + 7)"
definition hdr_dst_ieee :: "zb_buf \<Rightarrow> ieee" where "hdr_dst_ieee b = bytes_at (boff b + 8) 8 b"

definition put_fctl :: "u8 list \<Rightarrow> zb_buf \<Rightarrow> zb_buf option" where "put_fctl fc b = write_bytes (boff b) fc b"
definition put_dst :: "u16 \<Rightarrow> zb_buf \<Rightarrow> zb_buf option" where "put_dst a b = write_bytes (boff b + 2) (htole16 a) b"
definition put_src :: "u16 \<Rightarrow> zb_buf \<Rightarrow> zb_buf option" where "put_src a b = write_bytes (boff b + 4) (htole16 a) b"
definition put_radius :: "u8 \<Rightarrow> zb_buf \<Rightarrow> zb_buf option" where "put_radius r b = write_bytes (boff b + 6) [r] b"
definition put_seq :: "u8 \<Rightarrow> zb_buf \<Rightarrow> zb_buf option" where "put_seq q b = write_bytes (boff b + 7) [q] b"

section \<open>A new header\<close>

definition ZB_NWK_HALF_HDR_SIZE :: "bool \<Rightarrow> nat" where
  "ZB_NWK_HALF_HDR_SIZE is_multicast = 16 + (if is_multicast then 1 else 0)"

definition ZB_NWK_FULL_HDR_SIZE :: "bool \<Rightarrow> nat" where
  "ZB_NWK_FULL_HDR_SIZE is_multicast = 24 + (if is_multicast then 1 else 0)"

definition ZB_SECUR_NO_ENCR :: "2 word" where "ZB_SECUR_NO_ENCR = 0"
definition ZB_SECUR_NWK_ENCR :: "2 word" where "ZB_SECUR_NWK_ENCR = 1"

text \<open>
  The size that is allocated and the control field. A multicast header is one byte longer, but the flag that says so
  is not set.
\<close>

definition new_hdr_size :: "bool \<Rightarrow> bool \<Rightarrow> bool \<Rightarrow> bool \<Rightarrow> nat" where
  "new_hdr_size src_ieee dst_ieee is_multicast is_secured =
     (if src_ieee \<and> dst_ieee then ZB_NWK_FULL_HDR_SIZE is_multicast
      else if src_ieee \<or> dst_ieee then ZB_NWK_HALF_HDR_SIZE is_multicast
      else ZB_NWK_SHORT_HDR_SIZE is_multicast) + (if is_secured then SIZEOF_AUX else 0)"

definition new_fctl :: "bool \<Rightarrow> bool \<Rightarrow> bool \<Rightarrow> bool \<Rightarrow> u8 list" where
  "new_fctl src_ieee dst_ieee is_secured is_cmd_frame =
     (let fc = ZB_NWK_FRAMECTL_SET_FRAME_TYPE_N_PROTO_VER
                 (if is_cmd_frame then ZB_NWK_FRAME_TYPE_COMMAND else ZB_NWK_FRAME_TYPE_DATA) ZB_PROTOCOL_VERSION [0, 0];
          fc1 = ZB_NWK_FRAMECTL_SET_SRC_DEST_IEEE (if src_ieee then 1 else 0) (if dst_ieee then 1 else 0) fc
      in if is_secured then ZB_NWK_FRAMECTL_SET_SECURITY 1 fc1 else fc1)"

definition nwk_alloc_and_fill_hdr ::
  "u16 \<Rightarrow> ieee option \<Rightarrow> ieee option \<Rightarrow> bool \<Rightarrow> bool \<Rightarrow> bool \<Rightarrow> u16 \<Rightarrow> u8 \<Rightarrow> zb_buf \<Rightarrow> zb_buf option" where
  "nwk_alloc_and_fill_hdr dst_address src_ieee dst_ieee is_multicast is_secured is_cmd_frame own_address seq_num b =
     (let src = src_ieee \<noteq> None; dst = dst_ieee \<noteq> None; n = new_hdr_size src dst is_multicast is_secured in
      case (if is_cmd_frame then zb_buf_initial_alloc b n else zb_buf_smart_alloc_left b n) of
        None \<Rightarrow> None
      | Some (b1, p) \<Rightarrow>
          map_option (\<lambda>b2. b2\<lparr>hdr := (hdr b2)\<lparr>encrypt_type := (if is_secured then ZB_SECUR_NWK_ENCR else ZB_SECUR_NO_ENCR)\<rparr>\<rparr>)
            (write_bytes p (new_fctl src dst is_secured is_cmd_frame @ htole16 dst_address @ htole16 own_address @ [1, seq_num]
               @ (case dst_ieee of Some d \<Rightarrow> take 8 d | None \<Rightarrow> []) @ (case src_ieee of Some a \<Rightarrow> take 8 a | None \<Rightarrow> [])) b1))"

text \<open>A command: its identifier and the bytes of its fields.\<close>

definition nwk_fill_cmd :: "u8 \<Rightarrow> u8 list \<Rightarrow> zb_buf \<Rightarrow> zb_buf option" where
  "nwk_fill_cmd cmd args b =
     (case zb_buf_smart_alloc_right b (1 + length args) of
        None \<Rightarrow> None
      | Some (b1, p) \<Rightarrow> write_bytes p (cmd # args) b1)"

definition cmd_id :: "zb_buf \<Rightarrow> u8" where
  "cmd_id b = bytes b ! (boff b + zb_nwk_hdr_size (hdr_fctl b))"

definition cmd_fields :: "nat \<Rightarrow> zb_buf \<Rightarrow> u8 list" where
  "cmd_fields n b = bytes_at (boff b + zb_nwk_hdr_size (hdr_fctl b) + 1) n b"

section \<open>Commands\<close>

definition ZB_NWK_CMD_ROUTE_REQUEST :: u8 where "ZB_NWK_CMD_ROUTE_REQUEST = 1"
definition ZB_NWK_CMD_ROUTE_REPLY :: u8 where "ZB_NWK_CMD_ROUTE_REPLY = 2"
definition ZB_NWK_CMD_NETWORK_STATUS :: u8 where "ZB_NWK_CMD_NETWORK_STATUS = 3"
definition ZB_NWK_CMD_LEAVE :: u8 where "ZB_NWK_CMD_LEAVE = 4"
definition ZB_NWK_CMD_REJOIN_REQUEST :: u8 where "ZB_NWK_CMD_REJOIN_REQUEST = 6"
definition ZB_NWK_CMD_REJOIN_RESPONSE :: u8 where "ZB_NWK_CMD_REJOIN_RESPONSE = 7"
definition ZB_NWK_CMD_NETWORK_REPORT :: u8 where "ZB_NWK_CMD_NETWORK_REPORT = 9"
definition ZB_NWK_CMD_NETWORK_UPDATE :: u8 where "ZB_NWK_CMD_NETWORK_UPDATE = 10"

lemmas nwk_cmds = ZB_NWK_CMD_ROUTE_REQUEST_def ZB_NWK_CMD_ROUTE_REPLY_def ZB_NWK_CMD_NETWORK_STATUS_def ZB_NWK_CMD_LEAVE_def
  ZB_NWK_CMD_REJOIN_REQUEST_def ZB_NWK_CMD_REJOIN_RESPONSE_def ZB_NWK_CMD_NETWORK_REPORT_def ZB_NWK_CMD_NETWORK_UPDATE_def

definition ZB_LEAVE_PL_SET_REJOIN :: "u8 \<Rightarrow> bool \<Rightarrow> u8" where
  "ZB_LEAVE_PL_SET_REJOIN pl v = pl OR push_bit 5 (if v then 1 else 0)"
definition ZB_LEAVE_PL_SET_REMOVE_CHILDREN :: "u8 \<Rightarrow> bool \<Rightarrow> u8" where
  "ZB_LEAVE_PL_SET_REMOVE_CHILDREN pl v = pl OR push_bit 7 (if v then 1 else 0)"
definition ZB_LEAVE_PL_GET_REQUEST :: "u8 \<Rightarrow> bool" where "ZB_LEAVE_PL_GET_REQUEST pl \<longleftrightarrow> drop_bit 6 pl AND 1 \<noteq> 0"
definition ZB_LEAVE_PL_GET_REJOIN :: "u8 \<Rightarrow> bool" where "ZB_LEAVE_PL_GET_REJOIN pl \<longleftrightarrow> drop_bit 5 pl AND 1 \<noteq> 0"
definition ZB_LEAVE_PL_GET_REMOVE_CHILDREN :: "u8 \<Rightarrow> bool" where
  "ZB_LEAVE_PL_GET_REMOVE_CHILDREN pl \<longleftrightarrow> drop_bit 7 pl AND 1 \<noteq> 0"

end
