(* ===== verification/Nwk_Node.thy ===== *)
theory Nwk_Node
  imports Nwk_Frame Nwk_Mesh Mac_Frame
begin

text \<open>
  Sending and forwarding of frames, \<^verbatim>\<open>nwk/nwk_main.c\<close>, on a node whose state puts the neighbour table, the address
  translation, the routing tables, the keys and the packet buffers together. A frame is in the buffer that its number
  names; what is kept in the tail of a buffer as parameter of the next callback stands beside the buffers. What a
  callback asks others to do is the list of actions it returns.
\<close>

section \<open>State\<close>

definition ZB_NWK_BTR_TABLE_SIZE :: nat where "ZB_NWK_BTR_TABLE_SIZE = 16"
definition ZB_NWK_BRR_TABLE_SIZE :: nat where "ZB_NWK_BRR_TABLE_SIZE = 8"
definition ZB_NWK_WAIT_ALLOC_TABLE_SIZE :: nat where "ZB_NWK_WAIT_ALLOC_TABLE_SIZE = 5"
definition ZB_NWK_MAX_BROADCAST_RETRIES :: nat where "ZB_NWK_MAX_BROADCAST_RETRIES = 2"
definition ZB_NWK_BROADCAST_DELIVERY_TIME :: nat where "ZB_NWK_BROADCAST_DELIVERY_TIME = 9"
definition ZB_NWK_MAX_BROADCAST_JITTER_INTERVAL :: zb_time where
  "ZB_NWK_MAX_BROADCAST_JITTER_INTERVAL = of_nat (zb_milliseconds_to_beacon_interval 0x40)"
definition ZB_NWK_RREQ_RETRY_INTERVAL :: zb_time where
  "ZB_NWK_RREQ_RETRY_INTERVAL = of_nat (zb_milliseconds_to_beacon_interval 0xFE)"

definition ZB_NWK_INTERNAL_NSDU_HANDLE :: u8 where "ZB_NWK_INTERNAL_NSDU_HANDLE = 0xFF"
definition ZB_NWK_INTERNAL_REJOIN_CMD_HANDLE :: u8 where "ZB_NWK_INTERNAL_REJOIN_CMD_HANDLE = 0xFE"
definition ZB_NWK_INTERNAL_REJOIN_CMD_RESPONSE :: u8 where "ZB_NWK_INTERNAL_REJOIN_CMD_RESPONSE = 0xFD"
definition ZB_NWK_INTERNAL_LEAVE_IND_AT_DATA_CONFIRM_HANDLE :: u8 where
  "ZB_NWK_INTERNAL_LEAVE_IND_AT_DATA_CONFIRM_HANDLE = 0xFC"
definition ZB_NWK_INTERNAL_LEAVE_CONFIRM_AT_DATA_CONFIRM_HANDLE :: u8 where
  "ZB_NWK_INTERNAL_LEAVE_CONFIRM_AT_DATA_CONFIRM_HANDLE = 0xFB"

definition COMMAND_STATUS_TREE_LINK_FAILURE :: u8 where "COMMAND_STATUS_TREE_LINK_FAILURE = 1"
definition COMMAND_STATUS_NO_ROUTING_CAPACITY :: u8 where "COMMAND_STATUS_NO_ROUTING_CAPACITY = 4"

record zb_nwk_btr =
  bt_used :: bool
  bt_expiration_time :: nat
  bt_source_addr :: u16
  bt_sequence_number :: u8

text \<open>The bit vector of the passive acknowledgements has one byte.\<close>

definition ZB_NWK_BRCST_PASSIVE_ACK_ARRAY_SIZE :: nat where
  "ZB_NWK_BRCST_PASSIVE_ACK_ARRAY_SIZE =
     (if ZB_NEIGHBOR_TABLE_SIZE div 8 + ZB_NEIGHBOR_TABLE_SIZE mod 8 \<noteq> 0 then 1 else 0)"

record zb_nwk_broadcast_retransmit =
  br_used :: bool
  br_retries :: nat
  br_buf :: nat
  br_neighbor_table_iterator :: nat
  br_next_retransmit :: zb_time
  br_src_addr :: u16
  br_dst_addr :: u16
  br_seq_num :: u8
  br_passive_ack :: "u8 list"

record zb_nwk_buf_alloc_wait =
  wa_used :: bool
  wa_buf :: nat

record zb_mcps_data_req =
  dr_src_addr :: u16
  dr_dst_addr :: u16
  dr_tx_options :: u8
  dr_msdu_handle :: u8

abbreviation bt_mark :: "bool \<Rightarrow> zb_nwk_btr \<Rightarrow> zb_nwk_btr" where "bt_mark v e \<equiv> e\<lparr>bt_used := v\<rparr>"
abbreviation br_mark :: "bool \<Rightarrow> zb_nwk_broadcast_retransmit \<Rightarrow> zb_nwk_broadcast_retransmit" where
  "br_mark v e \<equiv> e\<lparr>br_used := v\<rparr>"
abbreviation wa_mark :: "bool \<Rightarrow> zb_nwk_buf_alloc_wait \<Rightarrow> zb_nwk_buf_alloc_wait" where "wa_mark v e \<equiv> e\<lparr>wa_used := v\<rparr>"

text \<open>
  \<open>mesh\<close> holds the routing tables and, in its tree, the address, the parent, the neighbours and the address translation.
\<close>

record nwk_node =
  mesh :: nwk_mesh
  bufs :: "nat \<Rightarrow> zb_buf"
  nsdu_handle :: "nat \<Rightarrow> u8"
  data_req :: "nat \<Rightarrow> zb_mcps_data_req"
  node_keys :: zb_keys
  own_ieee :: ieee
  secure_all_frames :: bool
  extended_pan_id :: ieee
  joined :: bool
  joined_pro :: bool
  rejoining :: bool
  rx_on_when_idle :: bool
  use_tree_routing :: bool
  timer :: zb_time
  btt :: "zb_nwk_btr list"
  btt_cnt :: u8
  brrt :: "zb_nwk_broadcast_retransmit list"
  brrt_cnt :: u8
  wait_alloc :: "zb_nwk_buf_alloc_wait list"
  wait_alloc_cnt :: u8
  ind_status :: u8
  ind_addr :: u16
  rejoin_after_leave :: bool
  leave_ind_prnt :: "nat \<times> bool"

definition on_mesh :: "(nwk_mesh \<Rightarrow> nwk_mesh) \<Rightarrow> nwk_node \<Rightarrow> nwk_node" where
  "on_mesh f s = s\<lparr>mesh := f (mesh s)\<rparr>"

definition set_ctx :: "nb_ctx \<Rightarrow> nwk_node \<Rightarrow> nwk_node" where
  "set_ctx c = on_mesh (upd_tree (\<lambda>t. t\<lparr>nctx := c\<rparr>))"

abbreviation node_ctx :: "nwk_node \<Rightarrow> nb_ctx" where "node_ctx s \<equiv> nctx (tree (mesh s))"
abbreviation node_addr :: "nwk_node \<Rightarrow> u16" where "node_addr s \<equiv> network_addr (mesh s)"
abbreviation node_type :: "nwk_node \<Rightarrow> zb_nwk_device_type" where "node_type s \<equiv> device_type (mesh s)"
abbreviation node_parent :: "nwk_node \<Rightarrow> nat" where "node_parent s \<equiv> parent_ref (tree (mesh s))"

definition set_buf :: "nat \<Rightarrow> zb_buf \<Rightarrow> nwk_node \<Rightarrow> nwk_node" where
  "set_buf p b s = s\<lparr>bufs := (bufs s)(p := b)\<rparr>"

definition set_handle :: "nat \<Rightarrow> u8 \<Rightarrow> nwk_node \<Rightarrow> nwk_node" where
  "set_handle p h s = s\<lparr>nsdu_handle := (nsdu_handle s)(p := h)\<rparr>"

definition set_req :: "nat \<Rightarrow> zb_mcps_data_req \<Rightarrow> nwk_node \<Rightarrow> nwk_node" where
  "set_req p r s = s\<lparr>data_req := (data_req s)(p := r)\<rparr>"

text \<open>The routing tables read the destination of a waiting frame from its buffer.\<close>

definition mesh_view :: "nwk_node \<Rightarrow> nwk_mesh" where
  "mesh_view s = (mesh s)\<lparr>buf_dst := \<lambda>p. hdr_dst (bufs s p)\<rparr>"

section \<open>Actions\<close>

datatype nwk_callback = Broadcast_transmission | New_buffer_allocated | Call_status_indication | Leave_ind_prnt

datatype nwk_alarm = Btr_expiry | Broadcast_alarm | Rejoin_response_timeout nat

datatype nwk_action =
    Mesh_act mesh_action
  | Secur_act secur_event
  | Forward nat
  | Mcps_data_request nat
  | Nlde_data_confirm nat
  | Nlde_data_refused nat
  | Nlde_data_indication nat
  | Frame_indication nat
  | Nlme_status_indication nat u8 u16
  | Leave_indication nat ieee bool
  | Leave_confirm nat u16 "ieee option"
  | Rejoin_request nat
  | Rejoin_response nat
  | Rejoin_resp_sent nat
  | Network_report nat
  | Network_update "u8 list"
  | Join_request nat
  | Br_confirm nat
  | Call nwk_callback
  | Free nat
  | Get_out_buf nwk_callback
  | Get_in_buf nwk_callback
  | Alarm_set nwk_alarm zb_time
  | Alarm_cancel nwk_alarm

section \<open>Start and data requests\<close>

definition zb_nwk_nib_init :: "nwk_node \<Rightarrow> nwk_node" where
  "zb_nwk_nib_init s =
     (on_mesh (\<lambda>m. m\<lparr>tree := (tree m)\<lparr>max_routers := 4, max_depth := 5\<rparr>, aps_rreq_addr := - 1\<rparr>) s)\<lparr>use_tree_routing := True\<rparr>"

record zb_nlde_data_req =
  nr_dst_addr :: u16
  nr_radius :: u8
  nr_addr_mode :: zb_addr_mode
  nr_discovery_route :: u8
  nr_security_enable :: bool
  nr_ndsu_handle :: u8

definition zb_nlde_data_request :: "nat \<Rightarrow> zb_nlde_data_req \<Rightarrow> nwk_node \<Rightarrow> (nwk_node \<times> nwk_action list) option" where
  "zb_nlde_data_request p req s =
     (if \<not> joined s then Some (s, [Nlde_data_refused p])
      else
        (let secure = (nr_security_enable req \<and> secure_frames (mesh s));
             q = sequence_number (mesh s);
             s1 = on_mesh (\<lambda>m. m\<lparr>sequence_number := q + 1\<rparr>) s
         in case nwk_alloc_and_fill_hdr (nr_dst_addr req) None None (nr_addr_mode req = ADDR_16BIT_MULTICAST) secure False
                   (node_addr s) q (bufs s p) of
              None \<Rightarrow> None
            | Some b1 \<Rightarrow>
                (case put_radius (if nr_radius req \<noteq> 0 then nr_radius req else max_depth (tree (mesh s)) * 2) b1 of
                   None \<Rightarrow> None
                 | Some b2 \<Rightarrow>
                     map_option (\<lambda>b3. (set_handle p (nr_ndsu_handle req) (set_buf p b3 s1), [Forward p]))
                       (if nr_discovery_route req \<noteq> 0
                        then put_fctl (ZB_NWK_FRAMECTL_SET_DISCOVER_ROUTE 1 (hdr_fctl b2)) b2 else Some b2))))"

section \<open>The next hop\<close>

text \<open>The neighbour with the destination of the frame, by its short address, or by its long one if the header has one.\<close>

definition dest_neighbor :: "zb_buf \<Rightarrow> nb_ctx \<Rightarrow> (nat option \<times> nb_ctx) option" where
  "dest_neighbor b c =
     (case (if ZB_NWK_FRAMECTL_GET_DESTINATION_IEEE (hdr_fctl b) = 0
            then zb_address_by_short (hdr_dst b) False False (addr c)
            else zb_address_by_ieee (hdr_dst_ieee b) False False (addr c)) of
        None \<Rightarrow> None
      | Some (ret, ref, g) \<Rightarrow>
          if ret = RET_OK
          then map_option (\<lambda>(ret2, n, c2). (if ret2 = RET_OK then n else None, c2))
                 (zb_nwk_neighbor_get (the ref) False (c\<lparr>addr := g\<rparr>))
          else Some (None, c\<lparr>addr := g\<rparr>))"

text \<open>
  A frame waits for a route. The discovery is only started with a buffer, which the first call asks for.
\<close>

definition wait_for_route :: "nat \<Rightarrow> u8 \<Rightarrow> u16 \<Rightarrow> bool \<Rightarrow> nwk_node \<Rightarrow> zb_ret \<times> u8 \<times> nwk_node \<times> nwk_action list" where
  "wait_for_route p h dest known s =
     (case zb_nwk_mesh_add_buf_to_pending p h (mesh_view s) of
        (ret, m) \<Rightarrow>
          (let s1 = on_mesh (\<lambda>_. m) s;
               own = (case zb_nwk_mesh_find_route_discovery_entry dest m of
                        None \<Rightarrow> False | Some i \<Rightarrow> rd_source_addr (route_disc_table m ! i) = network_addr m)
           in if ret = RET_OK
              then (RET_BUSY, 0, s1, if known \<and> own then [] else [Mesh_act (Get_out_buf_delayed Initiate_route_discovery)])
              else (ret, COMMAND_STATUS_NO_ROUTE_AVAILABLE, s1, [])))"

text \<open>The result: status, next hop, whether the frame is sent indirectly, and the status for the higher layer.\<close>

definition nwk_calc_destination ::
  "nat \<Rightarrow> u8 \<Rightarrow> nwk_node \<Rightarrow> (zb_ret \<times> u16 \<times> bool \<times> u8 \<times> nwk_node \<times> nwk_action list) option" where
  "nwk_calc_destination p h s =
     (let b = bufs s p; dest = hdr_dst b; discover = (ZB_NWK_FRAMECTL_GET_DISCOVER_ROUTE (hdr_fctl b) \<noteq> 0);
          none = COMMAND_STATUS_NO_ROUTE_AVAILABLE in
      if node_type s = DEVICE_TYPE_ED
      then Some (RET_OK, if rejoining s then dest else zb_address_short_by_ref (node_parent s) (addr (node_ctx s)), False, none, s, [])
      else if ZB_NWK_IS_ADDRESS_BROADCAST dest then Some (RET_OK, ZB_NWK_BROADCAST_ALL_DEVICES, False, none, s, [])
      else
        (case dest_neighbor b (node_ctx s) of
           None \<Rightarrow> None
         | Some (Some n, c) \<Rightarrow>
             Some (RET_OK, dest, \<not> nb_rx_on_when_idle (base_neighbor (neighbor c) ! n), none, set_ctx c s, [])
         | Some (None, c) \<Rightarrow>
             (let s1 = set_ctx c s in
              case (discover, zb_nwk_mesh_find_route dest (mesh s1)) of
                (False, _) \<Rightarrow> Some (RET_ERROR, dest, False, COMMAND_STATUS_NO_ROUTING_CAPACITY, s1, [])
              | (True, None) \<Rightarrow>
                  (case wait_for_route p h dest False s1 of (ret, st, s2, acts) \<Rightarrow> Some (ret, dest, False, st, s2, acts))
              | (True, Some r) \<Rightarrow>
                  (let e = routing_table (mesh s1) ! r in
                   if rt_status e = ROUTE_ACTIVE \<or> rt_status e = ROUTE_VALIDATION_UNDERWAY
                   then Some (RET_OK, rt_next_hop_addr e, False, none, on_mesh (set_routing r (e\<lparr>rt_status := ROUTE_ACTIVE\<rparr>)) s1, [])
                   else if rt_status e = ROUTE_DISCOVERY_UNDERWAY
                   then (case wait_for_route p h dest True s1 of (ret, st, s2, acts) \<Rightarrow> Some (ret, dest, False, st, s2, acts))
                   else if use_tree_routing s1
                   then (case zb_nwk_tree_routing_route dest (tree (mesh s1)) of
                           None \<Rightarrow> None
                         | Some (Some n, t) \<Rightarrow>
                             Some (RET_OK,
                               zb_address_short_by_ref (nb_addr_ref (base_neighbor (neighbor (nctx t)) ! n)) (addr (nctx t)), False, none,
                               on_mesh (\<lambda>m. m\<lparr>tree := t\<rparr>) s1, [])
                         | Some (None, t) \<Rightarrow>
                             Some (RET_ERROR, dest, False, COMMAND_STATUS_TREE_LINK_FAILURE, on_mesh (\<lambda>m. m\<lparr>tree := t\<rparr>) s1, []))
                   else Some (RET_ERROR, dest, False, COMMAND_STATUS_NO_ROUTING_CAPACITY, s1, [])))))"

section \<open>Records of broadcasts\<close>

definition START_BTR_EXPIRY :: "u8 \<Rightarrow> nwk_action list" where
  "START_BTR_EXPIRY cnt =
     (if cnt = 1 then [Alarm_cancel Btr_expiry, Alarm_set Btr_expiry (of_nat ZB_TIME_ONE_SECOND)] else [])"

definition find_btr :: "u16 \<Rightarrow> u8 \<Rightarrow> nwk_node \<Rightarrow> nat option" where
  "find_btr src q s = nwk_array_find_ent bt_used (\<lambda>i e. bt_source_addr e = src \<and> bt_sequence_number e = q) (btt s)"

text \<open>A new record, if there is room for it.\<close>

definition add_btr :: "u16 \<Rightarrow> u8 \<Rightarrow> nwk_node \<Rightarrow> bool \<times> nwk_node \<times> nwk_action list" where
  "add_btr src q s =
     (case nwk_array_get_ent bt_used bt_mark (btt s) (btt_cnt s) of
        (None, t, c) \<Rightarrow> (False, s, [])
      | (Some i, t, c) \<Rightarrow>
          (True, s\<lparr>btt := t[i := (t ! i)\<lparr>bt_source_addr := src, bt_sequence_number := q,
                       bt_expiration_time := ZB_NWK_BROADCAST_DELIVERY_TIME\<rparr>], btt_cnt := c\<rparr>, START_BTR_EXPIRY c))"

definition set_br :: "nat \<Rightarrow> zb_nwk_broadcast_retransmit \<Rightarrow> nwk_node \<Rightarrow> nwk_node" where
  "set_br i e s = s\<lparr>brrt := (brrt s)[i := e]\<rparr>"

definition put_br :: "nat \<Rightarrow> nwk_node \<Rightarrow> nwk_node" where
  "put_br i s = (case nwk_array_put_ent br_mark i (brrt s) (brrt_cnt s) of (t, c) \<Rightarrow> s\<lparr>brrt := t, brrt_cnt := c\<rparr>)"

section \<open>Forwarding\<close>

text \<open>A frame that cannot be sent is dropped, or goes up as a status indication if the next hop is a child.\<close>

definition forward_failed :: "nat \<Rightarrow> u16 \<Rightarrow> u8 \<Rightarrow> nwk_node \<Rightarrow> (nwk_node \<times> nwk_action list) option" where
  "forward_failed p mac_dst st s =
     (case zb_nwk_neighbor_get_by_short mac_dst (node_ctx s) of
        None \<Rightarrow> None
      | Some (ret, n, c) \<Rightarrow>
          (let child = (case n of None \<Rightarrow> False
                        | Some i \<Rightarrow> is_child (base_neighbor (neighbor c) ! i))
           in Some (set_ctx c s, [if ret = RET_OK \<and> child then Nlme_status_indication p st mac_dst else Free p])))"

text \<open>A broadcast of a router is kept to be repeated and to be sent to the sleeping children.\<close>

definition start_broadcast :: "nat \<Rightarrow> nwk_node \<Rightarrow> (nwk_node \<times> nwk_action list) option" where
  "start_broadcast p s =
     (case nwk_array_get_ent br_used br_mark (brrt s) (brrt_cnt s) of
        (None, t, c) \<Rightarrow> None
      | (Some i, t, c) \<Rightarrow>
          (let b = bufs s p in
           Some (s\<lparr>brrt := t[i := (t ! i)\<lparr>br_buf := p, br_retries := 0, br_src_addr := hdr_src b, br_dst_addr := hdr_dst b,
                     br_seq_num := hdr_seq b,
                     br_neighbor_table_iterator := zb_nwk_neighbor_next_ze_children_i (hdr_dst b) 0 (neighbor (node_ctx s)),
                     br_passive_ack := replicate ZB_NWK_BRCST_PASSIVE_ACK_ARRAY_SIZE 0\<rparr>], brrt_cnt := c\<rparr>,
                 [Alarm_cancel Broadcast_alarm, Get_out_buf Broadcast_transmission])))"

definition MAC_TX_OPTION_ACKNOWLEDGED_BIT :: u8 where "MAC_TX_OPTION_ACKNOWLEDGED_BIT = 1"
definition MAC_TX_OPTION_INDIRECT_TRANSMISSION_BIT :: u8 where "MAC_TX_OPTION_INDIRECT_TRANSMISSION_BIT = 4"

definition build_data_request :: "nat \<Rightarrow> u16 \<Rightarrow> bool \<Rightarrow> nwk_node \<Rightarrow> nwk_node" where
  "build_data_request p mac_dst indirect s =
     set_req p \<lparr>dr_src_addr = node_addr s, dr_dst_addr = mac_dst,
       dr_tx_options = (if indirect then MAC_TX_OPTION_INDIRECT_TRANSMISSION_BIT else 0)
         OR (if mac_dst \<noteq> 0xffff then MAC_TX_OPTION_ACKNOWLEDGED_BIT else 0),
       dr_msdu_handle = nsdu_handle s p\<rparr> s"

definition add_acts :: "nwk_action list \<Rightarrow> (nwk_node \<times> nwk_action list) option \<Rightarrow> (nwk_node \<times> nwk_action list) option" where
  "add_acts as = map_option (\<lambda>(s, as2). (s, as @ as2))"

definition zb_nwk_forward :: "nat \<Rightarrow> nwk_node \<Rightarrow> (nwk_node \<times> nwk_action list) option" where
  "zb_nwk_forward p s =
     (case nwk_calc_destination p (nsdu_handle s p) s of
        None \<Rightarrow> None
      | Some (ret, mac_dst, indirect, st, s1, acts) \<Rightarrow>
          if ret = RET_BUSY then Some (s1, acts)
          else if ret \<noteq> RET_OK then add_acts acts (forward_failed p mac_dst st s1)
          else
            (let b = bufs s1 p; brd = ZB_NWK_IS_ADDRESS_BROADCAST (hdr_dst b) in
             case (if brd \<and> find_btr (hdr_src b) (hdr_seq b) s1 = None then add_btr (hdr_src b) (hdr_seq b) s1 else (True, s1, [])) of
               (ok, s2, acts2) \<Rightarrow>
                 if \<not> ok then add_acts acts (forward_failed p mac_dst st s2)
                 else
                   (let s3 = build_data_request p mac_dst indirect s2 in
                    add_acts (acts @ acts2)
                      (if brd \<and> node_type s3 \<noteq> DEVICE_TYPE_ED
                       then (if unat (brrt_cnt s3) < ZB_NWK_BRR_TABLE_SIZE then start_broadcast p s3
                             else forward_failed p mac_dst st s3)
                       else Some (s3, [Mcps_data_request p])))))"

section \<open>Repeating broadcasts\<close>

definition new_broadcast :: "nwk_node \<Rightarrow> nat option" where
  "new_broadcast s = find (\<lambda>i. br_used (brrt s ! i) \<and> br_retries (brrt s ! i) = 0) [0..<ZB_NWK_BRR_TABLE_SIZE]"

definition next_ze :: "zb_nwk_broadcast_retransmit \<Rightarrow> nwk_node \<Rightarrow> nat" where
  "next_ze e s = zb_nwk_neighbor_next_ze_children_i (br_dst_addr e) (br_neighbor_table_iterator e + 1) (neighbor (node_ctx s))"

text \<open>The next child that gets a broadcast, with the entry; the node the frame comes from is left out.\<close>

fun next_unicast :: "nat list \<Rightarrow> nwk_node \<Rightarrow> (nat \<times> nat) option \<times> nwk_node" where
  "next_unicast [] s = (None, s)"
| "next_unicast (i # is) s =
     (let e = brrt s ! i; n = br_neighbor_table_iterator e in
      if br_used e \<and> n \<noteq> NO_INDEX then
        (if zb_address_short_by_ref (nb_addr_ref (base_neighbor (neighbor (node_ctx s)) ! n)) (addr (node_ctx s))
              = hdr_src (bufs s (br_buf e))
         then next_unicast is (set_br i (e\<lparr>br_neighbor_table_iterator := next_ze e s\<rparr>) s)
         else (Some (i, n), s))
      else next_unicast is s)"

definition due_broadcast :: "nwk_node \<Rightarrow> nat option" where
  "due_broadcast s =
     find (\<lambda>i. br_used (brrt s ! i) \<and> zb_time_ge (timer s) (br_next_retransmit (brrt s ! i))) [0..<ZB_NWK_BRR_TABLE_SIZE]"

definition passive_ack_dev_num :: "nwk_node \<Rightarrow> u8" where
  "passive_ack_dev_num s =
     (let t = neighbor (node_ctx s) in
      of_nat (length (filter (\<lambda>e. nb_used e \<and> (nb_device_type e = DEVICE_TYPE_ROUTER \<or> nb_device_type e = DEVICE_TYPE_COORDINATOR))
                (take (base_neighbor_size t) (base_neighbor t)))))"

text \<open>Setting a bit behind the end of the vector is \<open>None\<close>.\<close>

definition set_passive_ack :: "nat \<Rightarrow> zb_nwk_broadcast_retransmit \<Rightarrow> zb_nwk_broadcast_retransmit option" where
  "set_passive_ack n e =
     (if n div 8 < ZB_NWK_BRCST_PASSIVE_ACK_ARRAY_SIZE
      then Some (e\<lparr>br_passive_ack := set_bit_vec (br_passive_ack e) n\<rparr>) else None)"

text \<open>
  Whether a broadcast is sent for the last time. \<open>i\<close> should be the number of acknowledgements, but the macro
  that counts them has an index of its own with the name of the variable, so \<open>i\<close> is what
  the search loops left there.
\<close>

definition last_transmission :: "nat \<Rightarrow> zb_nwk_broadcast_retransmit \<Rightarrow> nwk_node \<Rightarrow> bool" where
  "last_transmission i e s \<longleftrightarrow>
     (let num = unat (passive_ack_dev_num s) in
      br_neighbor_table_iterator e = NO_INDEX
      \<and> (ZB_NWK_MAX_BROADCAST_RETRIES \<le> br_retries e
         \<or> i = num \<and> br_src_addr e = node_addr s
         \<or> num \<noteq> 0 \<and> i = num - 1 \<and> br_src_addr e \<noteq> node_addr s))"

text \<open>One transmission of the entry \<open>k\<close> with the buffer \<open>p\<close>: to the child \<open>nent\<close>, or to all.\<close>

definition transmit_entry :: "nat \<Rightarrow> nat \<Rightarrow> nat option \<Rightarrow> nat \<Rightarrow> nwk_node \<Rightarrow> (nwk_node \<times> nwk_action list) option" where
  "transmit_entry p k nent i s =
     (let e = brrt s ! k in
      case (case nent of
              Some n \<Rightarrow> map_option (\<lambda>e1. e1\<lparr>br_neighbor_table_iterator := next_ze e s\<rparr>) (set_passive_ack n e)
            | None \<Rightarrow> Some (e\<lparr>br_next_retransmit := timer s + ZB_NWK_RREQ_RETRY_INTERVAL, br_retries := br_retries e + 1\<rparr>)) of
        None \<Rightarrow> None
      | Some e1 \<Rightarrow>
          (let s1 = set_br k e1 s;
               final = last_transmission i e1 s1;
               q = (if final then br_buf e1 else p);
               s2 = (if final then put_br k s1 else s1);
               s3 = (if q \<noteq> br_buf e1
                     then set_req q ((data_req s2 (br_buf e1))\<lparr>dr_msdu_handle := ZB_NWK_INTERNAL_NSDU_HANDLE\<rparr>)
                            (set_handle q (nsdu_handle s2 (br_buf e1))
                              (set_buf q (ZB_BUF_COPY (bufs s2 q) (bufs s2 (br_buf e1))) s2))
                     else s2);
               s4 = (case nent of
                       Some n \<Rightarrow> set_req q ((data_req s3 q)\<lparr>
                         dr_dst_addr := zb_address_short_by_ref (nb_addr_ref (base_neighbor (neighbor (node_ctx s3)) ! n)) (addr (node_ctx s3)),
                         dr_tx_options := dr_tx_options (data_req s3 q)
                           OR (MAC_TX_OPTION_INDIRECT_TRANSMISSION_BIT OR MAC_TX_OPTION_ACKNOWLEDGED_BIT)\<rparr>) s3
                     | None \<Rightarrow> s3)
           in Some (s4, (if final then [Free p] else []) @ [Mcps_data_request q])))"

definition next_execution :: "nwk_node \<Rightarrow> zb_time" where
  "next_execution s =
     foldl (\<lambda>t e. if br_used e \<and> br_retries e < ZB_NWK_MAX_BROADCAST_RETRIES \<and> br_next_retransmit e < t then br_next_retransmit e else t)
       (timer s + ZB_NWK_MAX_BROADCAST_JITTER_INTERVAL) (brrt s)"

text \<open>The parameter is 0 when the function runs without a buffer.\<close>

definition nwk_broadcast_transmition :: "nat \<Rightarrow> nwk_node \<Rightarrow> (nwk_node \<times> nwk_action list) option" where
  "nwk_broadcast_transmition p s =
     (let (found, s1) =
        (case new_broadcast s of
           Some k \<Rightarrow> (Some (k, None, 0), s)
         | None \<Rightarrow>
             (case next_unicast [0..<ZB_NWK_BRR_TABLE_SIZE] s of
                (Some (k, n), s1) \<Rightarrow> (Some (k, Some n, 0), s1)
              | (None, s1) \<Rightarrow> (map_option (\<lambda>k. (k, None, k + 1)) (due_broadcast s1), s1)))
      in case found of
           Some (k, nent, i) \<Rightarrow>
             (if p = 0 then Some (s1, [Get_out_buf Broadcast_transmission])
              else map_option (\<lambda>(s2, acts). (s2, acts @ (if brrt_cnt s2 \<noteq> 0 then [Call Broadcast_transmission] else [])))
                     (transmit_entry p k nent i s1))
         | None \<Rightarrow>
             Some (s1, (if p \<noteq> 0 then [Free p] else [])
               @ (if brrt_cnt s1 \<noteq> 0
                  then [Alarm_cancel Broadcast_alarm, Alarm_set Broadcast_alarm (next_execution s1 - timer s1)] else [])))"

end
