(* ===== verification/Nwk_Input.thy ===== *)
theory Nwk_Input
  imports Nwk_Node
begin

text \<open>
  Received frames and confirmations, \<^verbatim>\<open>nwk/nwk_main.c\<close>: a received frame is checked, decrypted, and handed to the
  higher layer, to the command handlers, or on to the next hop; a confirmation goes to whoever sent the frame.
  Frames that the routing handlers answer are written into their buffers here.
\<close>

section \<open>Frames of the routing commands\<close>

definition mesh_frame :: "nwk_hdr \<Rightarrow> u8 \<Rightarrow> u8 list \<Rightarrow> u16 \<Rightarrow> zb_buf \<Rightarrow> zb_buf option" where
  "mesh_frame h cmd args own b =
     (case nwk_alloc_and_fill_hdr (h_dst_addr h) None None False (h_secure h) True own (h_seq_num h) b of
        None \<Rightarrow> None
      | Some b1 \<Rightarrow>
          (case nwk_fill_cmd cmd args b1 of
             None \<Rightarrow> None
           | Some b2 \<Rightarrow>
               (case put_radius (h_radius h) b2 of
                  None \<Rightarrow> None
                | Some b3 \<Rightarrow> put_src (h_src_addr h) b3)))"

definition rreq_bytes :: "zb_nwk_cmd_rreq \<Rightarrow> u8 list" where
  "rreq_bytes c = [0, rq_rreq_id c] @ htole16 (rq_dest_addr c) @ [rq_path_cost c]"

definition rrep_bytes :: "zb_nwk_cmd_rrep \<Rightarrow> u8 list" where
  "rrep_bytes c = [0, rp_rreq_id c] @ htole16 (rp_originator c) @ htole16 (rp_responder c) @ [rp_path_cost c]"

definition rreq_of_bytes :: "u8 list \<Rightarrow> zb_nwk_cmd_rreq" where
  "rreq_of_bytes b = \<lparr>rq_rreq_id = b ! 1, rq_dest_addr = letoh16 (drop 2 b), rq_path_cost = b ! 4\<rparr>"

definition rrep_of_bytes :: "u8 list \<Rightarrow> zb_nwk_cmd_rrep" where
  "rrep_of_bytes b = \<lparr>rp_rreq_id = b ! 1, rp_originator = letoh16 (drop 2 b), rp_responder = letoh16 (drop 4 b), rp_path_cost = b ! 6\<rparr>"

text \<open>The actions of the routing handlers that write frames write them; the others go on.\<close>

fun do_mesh :: "mesh_action list \<Rightarrow> nwk_node \<Rightarrow> (nwk_node \<times> nwk_action list) option" where
  "do_mesh [] s = Some (s, [])"
| "do_mesh (a # as) s =
     (case (case a of
              Send_rreq q h c \<Rightarrow> map_option (\<lambda>b. (set_handle q ZB_NWK_INTERNAL_NSDU_HANDLE (set_buf q b s), Forward q))
                (mesh_frame h ZB_NWK_CMD_ROUTE_REQUEST (rreq_bytes c) (node_addr s) (bufs s q))
            | Send_rrep q h c \<Rightarrow> map_option (\<lambda>b. (set_handle q ZB_NWK_INTERNAL_NSDU_HANDLE (set_buf q b s), Forward q))
                (mesh_frame h ZB_NWK_CMD_ROUTE_REPLY (rrep_bytes c) (node_addr s) (bufs s q))
            | Forward_pending q h \<Rightarrow> Some (set_handle q h s, Forward q)
            | Free_buf q \<Rightarrow> Some (s, Free q)
            | _ \<Rightarrow> Some (s, Mesh_act a)) of
        None \<Rightarrow> None
      | Some (s1, x) \<Rightarrow> add_acts [x] (do_mesh as s1))"

definition run_mesh :: "(nwk_mesh \<Rightarrow> (nwk_mesh \<times> mesh_action list) option) \<Rightarrow> nwk_node \<Rightarrow> (nwk_node \<times> nwk_action list) option" where
  "run_mesh f s =
     (case f (mesh_view s) of
        None \<Rightarrow> None
      | Some (m, acts) \<Rightarrow> do_mesh acts (on_mesh (\<lambda>_. m) s))"

text \<open>The sender of a received frame, whose MAC header stays in the buffer before the data.\<close>

definition mac_source :: "zb_buf \<Rightarrow> u16 option option" where
  "mac_source b =
     (if mac_hdr_offset (hdr b) = 0 then Some None
      else map_option (\<lambda>(m, n). Some (addr_short (src_addr m))) (zb_parse_mhr (drop (unat (mac_hdr_offset (hdr b))) (bytes b))))"

definition rx_hdr :: "zb_buf \<Rightarrow> nwk_hdr" where
  "rx_hdr b = \<lparr>h_src_addr = hdr_src b, h_dst_addr = hdr_dst b, h_radius = hdr_radius b, h_seq_num = hdr_seq b, h_secure = False\<rparr>"

section \<open>Leaving\<close>

definition zb_nwk_call_leave_ind :: "nat \<Rightarrow> bool \<Rightarrow> nat option \<Rightarrow> nwk_node \<Rightarrow> nwk_action list" where
  "zb_nwk_call_leave_ind p rejoin ref s =
     [Leave_indication p (case ref of None \<Rightarrow> replicate 8 0 | Some r \<Rightarrow> zb_address_ieee_by_ref r (addr (node_ctx s))) rejoin]"

definition zb_nwk_leave_ind_prnt :: "nat \<Rightarrow> nwk_node \<Rightarrow> nwk_action list" where
  "zb_nwk_leave_ind_prnt p s = zb_nwk_call_leave_ind p (snd (leave_ind_prnt s)) (Some (fst (leave_ind_prnt s))) s"

text \<open>A router tells everybody that it leaves, and leaves when the frame was sent.\<close>

definition send_leave :: "nat \<Rightarrow> u8 \<Rightarrow> nwk_node \<Rightarrow> (nwk_node \<times> nwk_action list) option" where
  "send_leave p lp s =
     (let secure = (secure_all_frames s \<and> security_level (tree (mesh s)) \<noteq> 0 \<and> secur_has_preconfigured_key (node_keys s));
          q = sequence_number (mesh s);
          pl = ZB_LEAVE_PL_SET_REMOVE_CHILDREN (ZB_LEAVE_PL_SET_REJOIN 0 (ZB_LEAVE_PL_GET_REJOIN lp)) (ZB_LEAVE_PL_GET_REMOVE_CHILDREN lp)
      in case nwk_alloc_and_fill_hdr ZB_NWK_BROADCAST_RX_ON_WHEN_IDLE (Some (own_ieee s)) None False secure True (node_addr s) q (bufs s p) of
           None \<Rightarrow> None
         | Some b1 \<Rightarrow>
             map_option (\<lambda>b2.
                 (set_handle p ZB_NWK_INTERNAL_LEAVE_IND_AT_DATA_CONFIRM_HANDLE
                    ((set_buf p b2 (on_mesh (\<lambda>m. m\<lparr>sequence_number := q + 1\<rparr>) s))\<lparr>rejoin_after_leave := ZB_LEAVE_PL_GET_REJOIN lp\<rparr>),
                  [Forward p]))
               (nwk_fill_cmd ZB_NWK_CMD_LEAVE [pl] b1))"

definition zb_nwk_leave_handler :: "nat \<Rightarrow> u16 \<Rightarrow> u8 \<Rightarrow> nwk_node \<Rightarrow> (nwk_node \<times> nwk_action list) option" where
  "zb_nwk_leave_handler p src lp s =
     (let request = ZB_LEAVE_PL_GET_REQUEST lp; ed = (node_type s = DEVICE_TYPE_ED) in
      case zb_address_by_short src False False (addr (node_ctx s)) of
        None \<Rightarrow> None
      | Some (ret, ref, g) \<Rightarrow>
          (let s1 = set_ctx ((node_ctx s)\<lparr>addr := g\<rparr>) s; r = the ref in
           if ret \<noteq> RET_OK then Some (s1, [Free p])
           else
             (case zb_nwk_neighbor_get r False (node_ctx s1) of
                None \<Rightarrow> None
              | Some (ret2, n, c) \<Rightarrow>
                  (let s2 = set_ctx c s1 in
                   if ret2 \<noteq> RET_OK
                   then Some (if request then s2 else set_ctx (c\<lparr>addr := zb_address_delete r (addr c)\<rparr>) s2, [Free p])
                   else if nb_relationship (base_neighbor (neighbor c) ! the n) \<noteq> RELATIONSHIP_PARENT
                   then (if request \<or> ed then Some (s2, [Free p])
                         else Some (s2, zb_nwk_call_leave_ind p (ZB_LEAVE_PL_GET_REJOIN lp) (Some r) s2))
                   else
                     (let (s3, acts) = (if \<not> request then (s2\<lparr>leave_ind_prnt := (r, ZB_LEAVE_PL_GET_REJOIN lp)\<rparr>, [Get_in_buf Leave_ind_prnt])
                                        else (s2, []))
                      in if (request \<or> ZB_LEAVE_PL_GET_REMOVE_CHILDREN lp) \<and> \<not> ed then add_acts acts (send_leave p lp s3)
                         else Some (s3, acts @ zb_nwk_call_leave_ind p (ZB_LEAVE_PL_GET_REJOIN lp) (if ed then None else Some r) s3))))))"

definition zb_nwk_forget_device :: "nat \<Rightarrow> nwk_node \<Rightarrow> nwk_node option" where
  "zb_nwk_forget_device r s =
     map_option (\<lambda>(ret, t). set_ctx ((node_ctx s)\<lparr>neighbor := t, addr := zb_address_delete r (addr (node_ctx s))\<rparr>) s)
       (zb_nwk_neighbor_delete r (neighbor (node_ctx s)))"

text \<open>The counters of the tables of broadcasts are set to zero, their entries stay.\<close>

definition zb_nwk_do_leave :: "nat \<Rightarrow> bool \<Rightarrow> nwk_node \<Rightarrow> (nwk_node \<times> nwk_action list) option" where
  "zb_nwk_do_leave p rejoin s =
     (let s1 = (on_mesh (\<lambda>m. m\<lparr>tree := (tree m)\<lparr>parent_ref := 255\<rparr>\<rparr>) s)\<lparr>joined := False, btt_cnt := 0, brrt_cnt := 0\<rparr>;
          s2 = set_buf p (zb_buf_reuse (bufs s p)) s1
      in if rejoin then Some (s2, [Join_request p])
         else
           (case zb_address_by_short (node_addr s2) False False (addr (node_ctx s2)) of
              None \<Rightarrow> None
            | Some (ret, ref, g) \<Rightarrow>
                (let s3 = set_ctx ((node_ctx s2)\<lparr>addr := g\<rparr>) s2 in
                 map_option (\<lambda>s4. ((on_mesh (\<lambda>m. m\<lparr>tree := (tree m)\<lparr>mac_short_address := - 1\<rparr>\<rparr>) s4)
                        \<lparr>extended_pan_id := replicate 8 0\<rparr>, [Free p]))
                   (if ret = RET_OK then zb_nwk_forget_device (the ref) s3 else Some s3))))"

section \<open>Confirmations\<close>

definition MAC_SUCCESS_STATUS :: u16 where "MAC_SUCCESS_STATUS = 0"
definition ZB_NWK_REJOIN_TIMEOUT :: zb_time where "ZB_NWK_REJOIN_TIMEOUT = 64 * 5"

definition MAC_STATUS_2_NWK_COMMAND_STATUS :: "u8 \<Rightarrow> u8" where
  "MAC_STATUS_2_NWK_COMMAND_STATUS s = (if s = 0xe9 \<or> s = 0xe1 then 0x09 else if s = 0xf0 then 0x06 else s)"

definition call_status_indication :: "nat \<Rightarrow> nwk_node \<Rightarrow> nwk_action list" where
  "call_status_indication p s = [Nlme_status_indication p (MAC_STATUS_2_NWK_COMMAND_STATUS (ind_status s)) (ind_addr s)]"

text \<open>The status of a leave is read from the buffer after its header was cleared.\<close>

definition zb_mcps_data_confirm :: "nat \<Rightarrow> u8 \<Rightarrow> nwk_node \<Rightarrow> (nwk_node \<times> nwk_action list) option" where
  "zb_mcps_data_confirm p msdu_handle s =
     (let b = bufs s p; st = status (hdr b) in
      if msdu_handle = ZB_NWK_INTERNAL_REJOIN_CMD_HANDLE \<and> rejoining s
      then Some (s, [Alarm_cancel (Rejoin_response_timeout 0), Alarm_set (Rejoin_response_timeout p) ZB_NWK_REJOIN_TIMEOUT])
      else if msdu_handle = ZB_NWK_INTERNAL_REJOIN_CMD_RESPONSE then Some (s, [Rejoin_resp_sent p])
      else if msdu_handle = ZB_NWK_INTERNAL_LEAVE_IND_AT_DATA_CONFIRM_HANDLE
      then Some (s, zb_nwk_call_leave_ind p (rejoin_after_leave s) None s)
      else
        (case zb_parse_mhr (drop (boff b) (bytes b)) of
           None \<Rightarrow> None
         | Some (m, n) \<Rightarrow>
             (let dest = addr_short (dst_addr m);
                  s1 = s\<lparr>ind_status := ucast st, ind_addr := dest\<rparr> in
              if msdu_handle = ZB_NWK_INTERNAL_LEAVE_CONFIRM_AT_DATA_CONFIRM_HANDLE
              then
                (let s2 = set_buf p (zb_buf_reuse b) s in
                 if dest \<noteq> 0xffff
                 then map_option (\<lambda>(ret, a, g). (set_ctx ((node_ctx s2)\<lparr>addr := g\<rparr>) s2,
                          [Leave_confirm p (status (hdr (bufs s2 p))) a]))
                        (zb_address_ieee_by_short dest (addr (node_ctx s2)))
                 else Some (s2, [Leave_confirm p (status (hdr (bufs s2 p))) (Some (replicate 8 0))]))
              else if msdu_handle = ZB_NWK_INTERNAL_NSDU_HANDLE
              then (if st \<noteq> MAC_SUCCESS_STATUS then Some (s1, call_status_indication p s1) else Some (s, [Free p]))
              else if st \<noteq> MAC_SUCCESS_STATUS then Some (s1, [Nlde_data_confirm p, Get_in_buf Call_status_indication])
              else Some (s, [Nlde_data_confirm p]))))"

text \<open>A broadcast whose acknowledgements have all come gets a header as if it had been sent once more.\<close>

definition br_confirm_mhr :: "u16 \<Rightarrow> zb_mac_mhr option" where
  "br_confirm_mhr own =
     (case zb_fcf_set_dst_addressing_mode [0, 0] MODE_16BIT of
        None \<Rightarrow> None
      | Some f1 \<Rightarrow>
          (case zb_fcf_set_src_addressing_mode f1 MODE_16BIT of
             None \<Rightarrow> None
           | Some f2 \<Rightarrow>
               map_option (\<lambda>f3. \<lparr>frame_control = f3, seq_number = 0, dst_pan_id = 0,
                   dst_addr = union_short ZB_NWK_BROADCAST_ALL_DEVICES, src_pan_id = 0, src_addr = union_short own\<rparr>)
                 (ZB_FCF_SET_PANID_COMPRESSION_BIT f2 1)))"

definition zb_nwk_call_br_confirm :: "nat \<Rightarrow> nwk_node \<Rightarrow> (nwk_node \<times> nwk_action list) option" where
  "zb_nwk_call_br_confirm p s =
     (case (zb_buf_smart_alloc_right (bufs s p) 2, br_confirm_mhr (node_addr s), zb_mac_calculate_mhr_length MODE_16BIT MODE_16BIT 1) of
        (Some (b1, _), Some m, Some n) \<Rightarrow>
          (case zb_buf_smart_alloc_left b1 n of
             None \<Rightarrow> None
           | Some (b2, q) \<Rightarrow>
               (case write_bytes q (zb_mac_fill_mhr m) b2 of
                  None \<Rightarrow> None
                | Some b3 \<Rightarrow> zb_mcps_data_confirm p (nsdu_handle s p) (set_buf p b3 s)))
      | _ \<Rightarrow> None)"

section \<open>Buffers for frames that go two ways\<close>

text \<open>A new buffer gets a copy for the node itself, the old one is sent on.\<close>

definition new_buffer_allocated :: "nat \<Rightarrow> nwk_node \<Rightarrow> (nwk_node \<times> nwk_action list) option" where
  "new_buffer_allocated p s =
     (if p = 0 \<or> wait_alloc_cnt s = 0 then Some (s, [])
      else
        (let i = unat (wait_alloc_cnt s) - 1 in
         if i < length (wait_alloc s) then
           (let eb = wa_buf (wait_alloc s ! i);
                s1 = set_buf p (ZB_BUF_COPY (bufs s p) (bufs s eb)) s;
                s2 = set_buf eb ((bufs s1 eb)\<lparr>hdr := (hdr (bufs s1 eb))\<lparr>use_same_key := True\<rparr>\<rparr>) s1;
                s3 = set_handle eb ZB_NWK_INTERNAL_NSDU_HANDLE s2;
                (t, c) = nwk_array_put_ent wa_mark i (wait_alloc s3) (wait_alloc_cnt s3)
            in Some (s3\<lparr>wait_alloc := t, wait_alloc_cnt := c\<rparr>,
                 [Frame_indication p, Forward eb] @ (if c \<noteq> 0 then [Get_in_buf New_buffer_allocated] else [])))
         else None))"

section \<open>Received frames\<close>

definition ZB_TAIL_SIZE_FOR_RECEIVED_MAC_FRAME :: nat where "ZB_TAIL_SIZE_FOR_RECEIVED_MAC_FRAME = 2 + 9"
definition ZB_NWK_BROADCAST_LOW_POWER_ROUTER :: u16 where "ZB_NWK_BROADCAST_LOW_POWER_ROUTER = 0xfffb"

text \<open>The MAC header and the trailer are cut off; the place of the header is remembered.\<close>

definition ZB_MAC_CUT_HDR :: "nat \<Rightarrow> zb_buf \<Rightarrow> zb_buf option" where
  "ZB_MAC_CUT_HDR n b =
     (let b1 = b\<lparr>hdr := (hdr b)\<lparr>mac_hdr_offset := of_nat (boff b)\<rparr>\<rparr> in
      case zb_buf_cut_right b1 ZB_TAIL_SIZE_FOR_RECEIVED_MAC_FRAME of
        None \<Rightarrow> None
      | Some b2 \<Rightarrow> map_option fst (zb_buf_cut_left b2 n))"

definition broadcast_for_us :: "u16 \<Rightarrow> nwk_node \<Rightarrow> bool" where
  "broadcast_for_us dst s \<longleftrightarrow>
     dst = ZB_NWK_BROADCAST_ALL_DEVICES
     \<or> dst = ZB_NWK_BROADCAST_RX_ON_WHEN_IDLE \<and> rx_on_when_idle s
     \<or> dst = ZB_NWK_BROADCAST_ROUTER_COORDINATOR \<and> \<not> joined_pro s
     \<or> dst = ZB_NWK_BROADCAST_LOW_POWER_ROUTER \<and> \<not> joined_pro s"

definition passive_acks :: "zb_nwk_broadcast_retransmit \<Rightarrow> u8" where
  "passive_acks e = sum_list (map magic_bitcount8 (take ZB_NWK_BRCST_PASSIVE_ACK_ARRAY_SIZE (br_passive_ack e)))"

text \<open>A neighbour that repeats a broadcast of ours acknowledges it; the last one ends the repetitions.\<close>

definition note_passive_ack :: "zb_mac_mhr \<Rightarrow> u16 \<Rightarrow> u8 \<Rightarrow> nwk_node \<Rightarrow> (nwk_node \<times> nwk_action list) option" where
  "note_passive_ack m src q s =
     (case (if joined_pro s then None
            else nwk_array_find_ent br_used (\<lambda>i e. br_src_addr e = src \<and> br_seq_num e = q) (brrt s)) of
        None \<Rightarrow> Some (s, [])
      | Some k \<Rightarrow>
          if ZB_FCF_GET_SRC_ADDRESSING_MODE (frame_control m) \<noteq> MODE_16BIT then Some (s, [])
          else
            (case zb_nwk_neighbor_get_by_short (addr_short (src_addr m)) (node_ctx s) of
               None \<Rightarrow> None
             | Some (ret, n, c) \<Rightarrow>
                 (let s1 = set_ctx c s in
                  if ret \<noteq> RET_OK then Some (s1, [])
                  else
                    (case set_passive_ack (the n) (brrt s1 ! k) of
                       None \<Rightarrow> None
                     | Some e1 \<Rightarrow>
                         (let s2 = set_br k e1 s1; num = int (unat (passive_ack_dev_num s2)); acks = int (unat (passive_acks e1)) in
                          if acks = num \<and> br_src_addr e1 = node_addr s2 \<or> acks = num - 1 \<and> br_src_addr e1 \<noteq> node_addr s2
                          then Some (put_br k s2, [Br_confirm (br_buf e1)]) else Some (s2, []))))))"

text \<open>Whether a broadcast goes on: not if it is not for us, was seen before, or cannot be remembered.\<close>

definition receive_broadcast :: "zb_mac_mhr \<Rightarrow> u16 \<Rightarrow> u16 \<Rightarrow> u8 \<Rightarrow> nwk_node \<Rightarrow> (bool \<times> nwk_node \<times> nwk_action list) option" where
  "receive_broadcast m dst src q s =
     (if \<not> broadcast_for_us dst s then Some (False, s, [])
      else
        (case note_passive_ack m src q s of
           None \<Rightarrow> None
         | Some (s1, acts) \<Rightarrow>
             Some (if find_btr src q s1 \<noteq> None then (False, s1, acts)
                   else (case add_btr src q s1 of (ok, s2, acts2) \<Rightarrow> (ok, s2, acts @ acts2)))))"

text \<open>The security of the network layer on the parts of the node it works on.\<close>

definition sec_view :: "nwk_node \<Rightarrow> nwk_sec" where
  "sec_view s = \<lparr>keys = node_keys s, ctx = node_ctx s, extended_address = own_ieee s, events = []\<rparr>"

definition unsecure_buf :: "u8 list \<Rightarrow> nat \<Rightarrow> zb_mac_mhr \<Rightarrow> nwk_node \<Rightarrow> (zb_ret \<times> nwk_node \<times> nwk_action list) option" where
  "unsecure_buf rnd p m s =
     map_option (\<lambda>(ret, b, z). (ret, set_buf p b ((set_ctx (ctx z) s)\<lparr>node_keys := keys z\<rparr>), map Secur_act (events z)))
       (zb_nwk_unsecure_frame rnd (bufs s p)
          \<lparr>mhr_src_is_short = (ZB_FCF_GET_SRC_ADDRESSING_MODE (frame_control m) = MODE_16BIT), mhr_src_short = addr_short (src_addr m),
           mhr_bytes = zb_mac_fill_mhr m\<rparr> (sec_view s))"

text \<open>What is done with a frame: whether the node takes it and whether it sends it on.\<close>

definition decide_frame :: "zb_buf \<Rightarrow> nwk_node \<Rightarrow> bool \<times> bool" where
  "decide_frame b s =
     (let type = ZB_NWK_FRAMECTL_GET_FRAME_TYPE (hdr_fctl b); brd = ZB_NWK_IS_ADDRESS_BROADCAST (hdr_dst b);
          own = (hdr_dst b = node_addr s); cmd = cmd_id b in
      if node_type s = DEVICE_TYPE_COORDINATOR \<or> node_type s = DEVICE_TYPE_ROUTER
      then
        (if brd then
           (True, hdr_radius b \<noteq> 0
              \<and> (type = ZB_NWK_FRAME_TYPE_DATA
                 \<or> type = ZB_NWK_FRAME_TYPE_COMMAND
                   \<and> (cmd = ZB_NWK_CMD_NETWORK_REPORT \<or> cmd = ZB_NWK_CMD_NETWORK_STATUS \<or> cmd = ZB_NWK_CMD_NETWORK_UPDATE)))
         else if own then (True, False)
         else (False, hdr_radius b \<noteq> 0))
      else (own \<or> brd, False))"

text \<open>The link quality of the source, in the build for the simulator made of its address.\<close>

definition update_lqi :: "u16 \<Rightarrow> nwk_node \<Rightarrow> nwk_node option" where
  "update_lqi src s =
     (case zb_nwk_neighbor_get_by_short src (node_ctx s) of
        None \<Rightarrow> None
      | Some (ret, n, c) \<Rightarrow>
          (let lqi = (if unat src * 10 > 255 then 255 else of_nat (unat src * 10)) in
           Some (set_ctx (if ret = RET_OK
                          then upd_nb (\<lambda>t. set_base (the n) ((base_neighbor t ! the n)\<lparr>nb_lqi := lqi\<rparr>) t) c else c) s)))"

definition dispatch_frame :: "nat \<Rightarrow> bool \<times> bool \<Rightarrow> nwk_node \<Rightarrow> nwk_node \<times> nwk_action list" where
  "dispatch_frame p what s =
     (case what of
        (True, True) \<Rightarrow>
          (case nwk_array_get_ent wa_used wa_mark (wait_alloc s) (wait_alloc_cnt s) of
             (None, t, c) \<Rightarrow> (s, [Frame_indication p])
           | (Some i, t, c) \<Rightarrow>
               (s\<lparr>wait_alloc := t[i := (t ! i)\<lparr>wa_buf := p\<rparr>], wait_alloc_cnt := c\<rparr>, [Get_in_buf New_buffer_allocated]))
      | (False, True) \<Rightarrow> (set_handle p ZB_NWK_INTERNAL_NSDU_HANDLE s, [Forward p])
      | (True, False) \<Rightarrow> (s, [Frame_indication p])
      | (False, False) \<Rightarrow> (s, [Free p]))"

text \<open>
  A received frame. A header that would reach behind the end of the buffer is \<open>None\<close>. \<open>rnd\<close> are the random bytes for new
  keys.
\<close>

definition indicate_checked :: "u8 list \<Rightarrow> nat \<Rightarrow> zb_mac_mhr \<Rightarrow> nwk_node \<Rightarrow> (nwk_node \<times> nwk_action list) option" where
  "indicate_checked rnd p m s =
     (let b = bufs s p; type = ZB_NWK_FRAMECTL_GET_FRAME_TYPE (hdr_fctl b) in
      case (if ZB_NWK_FRAMECTL_GET_SECURITY (hdr_fctl b) \<noteq> 0
            then map_option (\<lambda>(ret, s1, acts). (ret, if ret = RET_OK
                     then set_buf p ((bufs s1 p)\<lparr>hdr := (hdr (bufs s1 p))\<lparr>encrypt_type := ZB_SECUR_NWK_ENCR\<rparr>\<rparr>) s1 else s1, acts))
                   (unsecure_buf rnd p m s)
            else Some (RET_OK, s, [])) of
        None \<Rightarrow> None
      | Some (ret, s1, acts) \<Rightarrow>
          if ret \<noteq> RET_OK then Some (s1, acts)
          else
            (case put_radius (hdr_radius (bufs s1 p) - 1) (bufs s1 p) of
               None \<Rightarrow> None
             | Some b2 \<Rightarrow>
                 (let s2 = set_buf p b2 s1 in
                  case update_lqi (hdr_src b2) s2 of
                    None \<Rightarrow> None
                  | Some s3 \<Rightarrow> (case dispatch_frame p (decide_frame b2 s2) s3 of (s4, acts2) \<Rightarrow> Some (s4, acts @ acts2)))))"

definition zb_mcps_data_indication :: "u8 list \<Rightarrow> nat \<Rightarrow> nwk_node \<Rightarrow> (nwk_node \<times> nwk_action list) option" where
  "zb_mcps_data_indication rnd p s =
     (case zb_parse_mhr (drop (boff (bufs s p)) (bytes (bufs s p))) of
        None \<Rightarrow> None
      | Some (m, n) \<Rightarrow>
          (case ZB_MAC_CUT_HDR n (bufs s p) of
             None \<Rightarrow> None
           | Some b \<Rightarrow>
               (let s1 = set_buf p b s; type = ZB_NWK_FRAMECTL_GET_FRAME_TYPE (hdr_fctl b); dst = hdr_dst b in
                if boff b + 8 > ZB_IO_BUF_SIZE then None
                else if hdr_radius b = 0 \<or> type \<noteq> ZB_NWK_FRAME_TYPE_COMMAND \<and> type \<noteq> ZB_NWK_FRAME_TYPE_DATA
                then Some (s1, [Free p])
                else if ZB_NWK_IS_ADDRESS_BROADCAST dst
                then
                  (case receive_broadcast m dst (hdr_src b) (hdr_seq b) s1 of
                     None \<Rightarrow> None
                   | Some (ok, s2, acts) \<Rightarrow>
                       if ok then add_acts acts (indicate_checked rnd p m s2) else Some (s2, acts @ [Free p]))
                else indicate_checked rnd p m s1)))"

text \<open>A frame for this node goes to the higher layer or to the handler of its command.\<close>

definition report_for_us :: "zb_buf \<Rightarrow> nwk_node \<Rightarrow> bool" where
  "report_for_us b s \<longleftrightarrow>
     (let args = cmd_fields 9 b in drop_bit 4 (args ! 0) AND 0xf = 0 \<and> take 8 (drop 1 args) = extended_pan_id s)"

definition nwk_frame_indication :: "nat \<Rightarrow> nwk_node \<Rightarrow> (nwk_node \<times> nwk_action list) option" where
  "nwk_frame_indication p s =
     (let b = bufs s p; type = ZB_NWK_FRAMECTL_GET_FRAME_TYPE (hdr_fctl b); cmd = cmd_id b; here = \<not> joined_pro s in
      if type = ZB_NWK_FRAME_TYPE_DATA then Some (s, [Nlde_data_indication p])
      else if type \<noteq> ZB_NWK_FRAME_TYPE_COMMAND then Some (s, [])
      else if cmd = ZB_NWK_CMD_LEAVE then zb_nwk_leave_handler p (hdr_src b) (cmd_fields 1 b ! 0) s
      else if cmd = ZB_NWK_CMD_ROUTE_REQUEST \<and> here
      then (case mac_source b of
              None \<Rightarrow> None
            | Some a \<Rightarrow> run_mesh (zb_nwk_mesh_rreq_handler p a (rx_hdr b) (rreq_of_bytes (cmd_fields 5 b))) s)
      else if cmd = ZB_NWK_CMD_ROUTE_REPLY \<and> here
      then (case mac_source b of
              None \<Rightarrow> None
            | Some a \<Rightarrow> run_mesh (zb_nwk_mesh_rrep_handler p a (rx_hdr b) (rrep_of_bytes (cmd_fields 7 b))) s)
      else if cmd = ZB_NWK_CMD_REJOIN_REQUEST \<and> here then Some (s, [Rejoin_request p])
      else if cmd = ZB_NWK_CMD_NETWORK_REPORT then Some (s, [if report_for_us b s then Network_report p else Free p])
      else if cmd = ZB_NWK_CMD_NETWORK_STATUS
      then Some (s, [Nlme_status_indication p (cmd_fields 3 b ! 0) (letoh16 (drop 1 (cmd_fields 3 b)))])
      else if cmd = ZB_NWK_CMD_REJOIN_RESPONSE then Some (s, [Rejoin_response p])
      else if cmd = ZB_NWK_CMD_NETWORK_UPDATE
      then Some (s, [if report_for_us b s then Network_update (cmd_fields 12 b) else Free p])
      else Some (s, [Free p]))"

section \<open>Expiry\<close>

fun btr_expiry_loop :: "nat list \<Rightarrow> zb_nwk_btr list \<times> u8 \<Rightarrow> zb_nwk_btr list \<times> u8" where
  "btr_expiry_loop [] (t, c) = (t, c)"
| "btr_expiry_loop (i # is) (t, c) =
     btr_expiry_loop is
       (if bt_used (t ! i)
        then (if bt_expiration_time (t ! i) \<noteq> 0 then (t[i := (t ! i)\<lparr>bt_expiration_time := bt_expiration_time (t ! i) - 1\<rparr>], c)
              else nwk_array_put_ent bt_mark i t c)
        else (t, c))"

definition zb_nwk_btr_expiry :: "nwk_node \<Rightarrow> nwk_node \<times> nwk_action list" where
  "zb_nwk_btr_expiry s =
     (if btt_cnt s \<noteq> 0
      then (let (t, c) = btr_expiry_loop [0..<ZB_NWK_BTR_TABLE_SIZE] (btt s, btt_cnt s)
            in (s\<lparr>btt := t, btt_cnt := c\<rparr>, [Alarm_set Btr_expiry (of_nat ZB_TIME_ONE_SECOND)]))
      else (s, []))"

end
