(* ===== verification/Nwk_Node_Run.thy ===== *)
theory Nwk_Node_Run
  imports Nwk_Input Nwk_Mesh_Lemmas
begin

text \<open>
  The callbacks of the network layer as steps of a node, in any order, and what they keep of its tables: the counters are the
  numbers of used entries, the table of frames that wait for a buffer is a stack, and a record of a broadcast stays until it
  has expired. Leaving the network is not among the steps: it clears counters and keeps entries.
\<close>

section \<open>Steps\<close>

datatype nwk_event =
    Ev_data_request nat zb_nlde_data_req
  | Ev_forward nat
  | Ev_transmission nat
  | Ev_data_confirm nat u8
  | Ev_br_confirm nat
  | Ev_data_indication "u8 list" nat
  | Ev_frame_indication nat
  | Ev_new_buffer nat
  | Ev_btr_expiry

definition nwk_step :: "nwk_event \<Rightarrow> nwk_node \<Rightarrow> (nwk_node \<times> nwk_action list) option" where
  "nwk_step e s =
     (case e of
        Ev_data_request p req \<Rightarrow> zb_nlde_data_request p req s
      | Ev_forward p \<Rightarrow> zb_nwk_forward p s
      | Ev_transmission p \<Rightarrow> nwk_broadcast_transmition p s
      | Ev_data_confirm p h \<Rightarrow> zb_mcps_data_confirm p h s
      | Ev_br_confirm p \<Rightarrow> zb_nwk_call_br_confirm p s
      | Ev_data_indication rnd p \<Rightarrow> zb_mcps_data_indication rnd p s
      | Ev_frame_indication p \<Rightarrow> nwk_frame_indication p s
      | Ev_new_buffer p \<Rightarrow> new_buffer_allocated p s
      | Ev_btr_expiry \<Rightarrow> Some (zb_nwk_btr_expiry s))"

text \<open>\<open>nwk_run s n s'\<close>: some callbacks, \<open>n\<close> of them the timer of the records, lead from \<open>s\<close> to \<open>s'\<close>.\<close>

inductive nwk_run :: "nwk_node \<Rightarrow> nat \<Rightarrow> nwk_node \<Rightarrow> bool" where
  start: "nwk_run s 0 s"
| step: "nwk_run s n s1 \<Longrightarrow> nwk_step e s1 = Some (s2, acts) \<Longrightarrow> nwk_run s (n + (if e = Ev_btr_expiry then 1 else 0)) s2"

section \<open>What does not touch the tables\<close>

interpretation bt: used_array bt_used bt_mark by unfold_locales simp
interpretation br: used_array br_used br_mark by unfold_locales simp
interpretation wa: used_array wa_used wa_mark by unfold_locales simp

definition tabs :: "nwk_node \<Rightarrow> zb_nwk_btr list \<times> u8 \<times> zb_nwk_broadcast_retransmit list \<times> u8 \<times> zb_nwk_buf_alloc_wait list \<times> u8" where
  "tabs s = (btt s, btt_cnt s, brrt s, brrt_cnt s, wait_alloc s, wait_alloc_cnt s)"

lemma tabs_simps [simp]:
  "tabs (on_mesh f s) = tabs s" "tabs (set_ctx c s) = tabs s" "tabs (set_buf p b s) = tabs s"
  "tabs (set_handle p h s) = tabs s" "tabs (set_req p r s) = tabs s" "tabs (build_data_request p d i s) = tabs s"
  "tabs (s\<lparr>node_keys := k\<rparr>) = tabs s" "tabs (s\<lparr>rejoin_after_leave := x\<rparr>) = tabs s" "tabs (s\<lparr>leave_ind_prnt := y\<rparr>) = tabs s"
  "tabs (s\<lparr>ind_status := u\<rparr>) = tabs s" "tabs (s\<lparr>ind_addr := v\<rparr>) = tabs s"
  by (simp_all add: tabs_def on_mesh_def set_ctx_def set_buf_def set_handle_def set_req_def build_data_request_def)

lemma tabs_wait_for_route: "wait_for_route p h dest known s = (ret, st, s', acts) \<Longrightarrow> tabs s' = tabs s"
  by (auto simp: wait_for_route_def Let_def split: prod.splits if_splits)

lemma tabs_calc: "nwk_calc_destination p h s = Some (ret, d, i, st, s', acts) \<Longrightarrow> tabs s' = tabs s"
  by (auto simp: nwk_calc_destination_def Let_def split: if_splits option.splits prod.splits bool.splits dest!: tabs_wait_for_route)

lemma tabs_forward_failed: "forward_failed p d st s = Some (s', acts) \<Longrightarrow> tabs s' = tabs s"
  by (auto simp: forward_failed_def Let_def split: option.splits prod.splits)

lemma tabs_data_request: "zb_nlde_data_request p req s = Some (s', acts) \<Longrightarrow> tabs s' = tabs s"
  by (auto simp: zb_nlde_data_request_def Let_def split: if_splits option.splits)

lemma add_acts_iff: "add_acts as r = Some (s', acts) \<longleftrightarrow> (\<exists>as2. r = Some (s', as2) \<and> acts = as @ as2)"
  by (auto simp: add_acts_def)

lemma tabs_do_mesh: "do_mesh as s = Some (s', acts) \<Longrightarrow> tabs s' = tabs s"
proof (induction as arbitrary: s acts)
  case Nil
  then show ?case by simp
next
  case (Cons a as)
  from Cons.prems obtain s1 x acts2 where
    a: "(case a of
          Send_rreq q h c \<Rightarrow> map_option (\<lambda>b. (set_handle q ZB_NWK_INTERNAL_NSDU_HANDLE (set_buf q b s), Forward q))
            (mesh_frame h ZB_NWK_CMD_ROUTE_REQUEST (rreq_bytes c) (node_addr s) (bufs s q))
        | Send_rrep q h c \<Rightarrow> map_option (\<lambda>b. (set_handle q ZB_NWK_INTERNAL_NSDU_HANDLE (set_buf q b s), Forward q))
            (mesh_frame h ZB_NWK_CMD_ROUTE_REPLY (rrep_bytes c) (node_addr s) (bufs s q))
        | Forward_pending q h \<Rightarrow> Some (set_handle q h s, Forward q)
        | Free_buf q \<Rightarrow> Some (s, Free q)
        | _ \<Rightarrow> Some (s, Mesh_act a)) = Some (s1, x)"
    and r: "do_mesh as s1 = Some (s', acts2)"
    by (auto simp: add_acts_iff split: option.splits prod.splits)
  from a have "tabs s1 = tabs s" by (auto split: mesh_action.splits)
  with Cons.IH [OF r] show ?case by simp
qed

lemma tabs_run_mesh: "run_mesh f s = Some (s', acts) \<Longrightarrow> tabs s' = tabs s"
  by (auto simp: run_mesh_def split: option.splits prod.splits dest!: tabs_do_mesh)

lemma tabs_send_leave: "send_leave p lp s = Some (s', acts) \<Longrightarrow> tabs s' = tabs s"
  by (auto simp: send_leave_def Let_def split: option.splits)

lemma tabs_leave_handler: "zb_nwk_leave_handler p src lp s = Some (s', acts) \<Longrightarrow> tabs s' = tabs s"
  by (auto simp: zb_nwk_leave_handler_def Let_def add_acts_iff split: option.splits prod.splits if_splits dest!: tabs_send_leave)

lemma tabs_confirm: "zb_mcps_data_confirm p h s = Some (s', acts) \<Longrightarrow> tabs s' = tabs s"
  by (auto simp: zb_mcps_data_confirm_def Let_def split: option.splits prod.splits if_splits)

lemma tabs_br_confirm: "zb_nwk_call_br_confirm p s = Some (s', acts) \<Longrightarrow> tabs s' = tabs s"
  by (auto simp: zb_nwk_call_br_confirm_def split: option.splits prod.splits dest!: tabs_confirm)

lemma tabs_frame_indication: "nwk_frame_indication p s = Some (s', acts) \<Longrightarrow> tabs s' = tabs s"
  by (auto simp: nwk_frame_indication_def Let_def split: option.splits if_splits dest!: tabs_leave_handler tabs_run_mesh)

lemma tabs_unsecure: "unsecure_buf rnd p m s = Some (ret, s', acts) \<Longrightarrow> tabs s' = tabs s"
  by (auto simp: unsecure_buf_def)

lemma tabs_update_lqi: "update_lqi src s = Some s' \<Longrightarrow> tabs s' = tabs s"
  by (auto simp: update_lqi_def Let_def split: option.splits prod.splits)

section \<open>What the tables keep\<close>

definition tables_ok :: "nwk_node \<Rightarrow> bool" where
  "tables_ok s \<longleftrightarrow>
     counted bt_used (btt s) (btt_cnt s) \<and> length (btt s) = ZB_NWK_BTR_TABLE_SIZE
     \<and> counted br_used (brrt s) (brrt_cnt s) \<and> length (brrt s) = ZB_NWK_BRR_TABLE_SIZE
     \<and> length (wait_alloc s) = ZB_NWK_WAIT_ALLOC_TABLE_SIZE \<and> unat (wait_alloc_cnt s) \<le> ZB_NWK_WAIT_ALLOC_TABLE_SIZE
     \<and> (\<forall>i < ZB_NWK_WAIT_ALLOC_TABLE_SIZE. wa_used (wait_alloc s ! i) \<longleftrightarrow> i < unat (wait_alloc_cnt s))"

definition records_stay :: "nwk_node \<Rightarrow> nwk_node \<Rightarrow> bool" where
  "records_stay s s' \<longleftrightarrow> (\<forall>i < length (btt s). bt_used (btt s ! i) \<longrightarrow> i < length (btt s') \<and> btt s' ! i = btt s ! i)"

definition keeps :: "nwk_node \<Rightarrow> nwk_node \<Rightarrow> bool" where
  "keeps s s' \<longleftrightarrow> (tables_ok s \<longrightarrow> tables_ok s') \<and> records_stay s s'"

lemma keeps_tabs: "tabs s' = tabs s \<Longrightarrow> keeps s s'"
  by (simp add: keeps_def tables_ok_def records_stay_def tabs_def)

lemma keeps_trans: "keeps s1 s2 \<Longrightarrow> keeps s2 s3 \<Longrightarrow> keeps s1 s3"
  unfolding keeps_def records_stay_def by simp

lemma keeps_tabs_left: "tabs s1 = tabs s \<Longrightarrow> keeps s1 s2 \<Longrightarrow> keeps s s2"
  using keeps_trans keeps_tabs by blast

lemma keeps_tabs_right: "keeps s s1 \<Longrightarrow> tabs s2 = tabs s1 \<Longrightarrow> keeps s s2"
  using keeps_trans keeps_tabs by blast

lemma keeps_refl: "keeps s s"
  by (rule keeps_tabs) simp

lemma keeps_add_btr:
  assumes "add_btr src q s = (ok, s', acts)"
  shows "keeps s s'"
proof (cases "nwk_array_get_ent bt_used bt_mark (btt s) (btt_cnt s)")
  case (fields i t c)
  show ?thesis
  proof (cases i)
    case None
    with assms fields have "s' = s" by (simp add: add_btr_def)
    then show ?thesis using keeps_refl by simp
  next
    case (Some k)
    note g = fields [unfolded Some]
    note d = bt.get_SomeD [OF g]
    let ?e = "(t ! k)\<lparr>bt_source_addr := src, bt_sequence_number := q, bt_expiration_time := ZB_NWK_BROADCAST_DELIVERY_TIME\<rparr>"
    have s': "s' = s\<lparr>btt := t[k := ?e], btt_cnt := c\<rparr>" using assms g by (simp add: add_btr_def)
    have "counted bt_used (t[k := ?e]) c" if "tables_ok s"
      by (rule bt.counted_same) (use d(5) that in \<open>simp_all add: tables_ok_def\<close>)
    moreover have "records_stay s s'" using d(2,3) by (auto simp: records_stay_def s' nth_update)
    ultimately show ?thesis using d(3) by (simp add: keeps_def tables_ok_def s')
  qed
qed

lemma keeps_brrt:
  assumes "tabs s' = (btt s, btt_cnt s, t, c, wait_alloc s, wait_alloc_cnt s)"
    and "tables_ok s \<Longrightarrow> counted br_used t c \<and> length t = length (brrt s)"
  shows "keeps s s'"
  using assms by (auto simp: keeps_def tables_ok_def records_stay_def tabs_def)

lemma keeps_set_br:
  assumes "br_used e = br_used (brrt s ! k)"
  shows "keeps s (set_br k e s)"
  by (rule keeps_brrt) (auto simp: set_br_def tabs_def tables_ok_def intro: br.counted_same [OF _ assms])

lemma keeps_put_br:
  assumes "tables_ok s \<Longrightarrow> k < ZB_NWK_BRR_TABLE_SIZE \<and> br_used (brrt s ! k)"
  shows "keeps s (put_br k s)"
proof (rule keeps_brrt)
  obtain t c where t: "nwk_array_put_ent br_mark k (brrt s) (brrt_cnt s) = (t, c)" by force
  show "tabs (put_br k s) = (btt s, btt_cnt s, brrt (put_br k s), brrt_cnt (put_br k s), wait_alloc s, wait_alloc_cnt s)"
    using t by (simp add: put_br_def tabs_def)
  assume ok: "tables_ok s"
  then have "counted br_used t c" using br.put_counted [OF _ _ _ t] assms by (simp add: tables_ok_def)
  then show "counted br_used (brrt (put_br k s)) (brrt_cnt (put_br k s)) \<and> length (brrt (put_br k s)) = length (brrt s)"
    using t by (auto simp: put_br_def nwk_array_put_ent_def)
qed

lemma keeps_start_broadcast:
  assumes "start_broadcast p s = Some (s', acts)"
  shows "keeps s s'"
proof -
  obtain i t c where g: "nwk_array_get_ent br_used br_mark (brrt s) (brrt_cnt s) = (Some i, t, c)"
    using assms by (auto simp: start_broadcast_def split: option.splits prod.splits)
  note d = br.get_SomeD [OF g]
  show ?thesis
  proof (rule keeps_brrt)
    show "tabs s' = (btt s, btt_cnt s, brrt s', brrt_cnt s', wait_alloc s, wait_alloc_cnt s)"
      using assms g by (auto simp: start_broadcast_def Let_def tabs_def)
    show "counted br_used (brrt s') (brrt_cnt s') \<and> length (brrt s') = length (brrt s)" if "tables_ok s"
    proof -
      have c: "counted br_used t c" using that d(5) by (simp add: tables_ok_def)
      have "counted br_used (brrt s') (brrt_cnt s')"
        using assms g by (auto simp: start_broadcast_def Let_def intro!: br.counted_same [OF c])
      moreover have "length (brrt s') = length (brrt s)" using assms g d(3) by (auto simp: start_broadcast_def Let_def)
      ultimately show ?thesis ..
    qed
  qed
qed

lemma start_broadcast_works:
  assumes "tables_ok s" "unat (brrt_cnt s) < ZB_NWK_BRR_TABLE_SIZE"
  shows "start_broadcast p s \<noteq> None"
proof -
  obtain i where i: "i < length (brrt s)" "\<not> br_used (brrt s ! i)"
  proof (rule ccontr)
    assume "\<not> thesis"
    with that have "\<forall>x \<in> set (brrt s). br_used x" by (metis in_set_conv_nth)
    then have "length (filter br_used (brrt s)) = length (brrt s)" by simp
    then show False using assms by (simp add: tables_ok_def counted_def)
  qed
  then obtain j t c where "nwk_array_get_ent br_used br_mark (brrt s) (brrt_cnt s) = (Some j, t, c)"
    using br.get_NoneD(3) by (metis not_Some_eq prod_cases3)
  then show ?thesis by (simp add: start_broadcast_def Let_def)
qed

lemma keeps_forward:
  assumes "zb_nwk_forward p s = Some (s', acts)"
  shows "keeps s s'"
proof -
  obtain ret d i st s1 acts1 where c: "nwk_calc_destination p (nsdu_handle s p) s = Some (ret, d, i, st, s1, acts1)"
    using assms by (auto simp: zb_nwk_forward_def split: option.splits)
  have t: "keeps s s1" using tabs_calc [OF c] by (rule keeps_tabs)
  let ?b = "bufs s1 p"
  let ?brd = "ZB_NWK_IS_ADDRESS_BROADCAST (hdr_dst ?b)"
  obtain ok s2 acts2 where a: "(if ?brd \<and> find_btr (hdr_src ?b) (hdr_seq ?b) s1 = None then add_btr (hdr_src ?b) (hdr_seq ?b) s1 else (True, s1, [])) = (ok, s2, acts2)"
    by (metis prod_cases3)
  then have k: "keeps s1 s2" by (auto intro: keeps_add_btr keeps_refl split: if_split_asm)
  let ?s3 = "build_data_request p d i s2"
  consider "s' = s1" | "\<exists>x. forward_failed p d st s1 = Some (s', x)" | "\<exists>x. forward_failed p d st s2 = Some (s', x)"
    | "\<exists>x. start_broadcast p ?s3 = Some (s', x)" | "\<exists>x. forward_failed p d st ?s3 = Some (s', x)" | "s' = ?s3"
    using assms by (simp add: zb_nwk_forward_def c a Let_def add_acts_iff split: if_split_asm) blast+
  then have "keeps s1 s'"
  proof cases
    case 4
    have "keeps s2 ?s3" by (rule keeps_tabs) simp
    with 4 k show ?thesis using keeps_trans keeps_start_broadcast by blast
  next
    case 5
    then have "tabs s' = tabs s2" by (auto dest: tabs_forward_failed)
    with k show ?thesis by (rule keeps_tabs_right)
  next
    case 6
    with k show ?thesis by (auto intro: keeps_tabs_right)
  qed (use k in \<open>auto intro: keeps_refl keeps_tabs dest: tabs_forward_failed keeps_tabs_right\<close>)
  with t show ?thesis by (rule keeps_trans)
qed

section \<open>Repeating, receiving\<close>

lemma next_unicast_steps:
  "next_unicast ks s = (r, s') \<Longrightarrow> keeps s s' \<and> length (brrt s') = length (brrt s)
     \<and> (\<forall>k n. r = Some (k, n) \<longrightarrow> k \<in> set ks \<and> br_used (brrt s' ! k) \<and> br_neighbor_table_iterator (brrt s' ! k) = n)"
proof (induction ks s arbitrary: r rule: next_unicast.induct)
  case (1 s)
  then show ?case by (auto intro: keeps_refl)
next
  case (2 i ks s)
  let ?e = "brrt s ! i"
  let ?n = "br_neighbor_table_iterator ?e"
  let ?own = "zb_address_short_by_ref (nb_addr_ref (base_neighbor (neighbor (node_ctx s)) ! ?n)) (addr (node_ctx s)) = hdr_src (bufs s (br_buf ?e))"
  let ?s1 = "set_br i (?e\<lparr>br_neighbor_table_iterator := next_ze ?e s\<rparr>) s"
  consider (own) "br_used ?e \<and> ?n \<noteq> NO_INDEX" "?own" | (found) "br_used ?e \<and> ?n \<noteq> NO_INDEX" "\<not> ?own" | (skip) "\<not> (br_used ?e \<and> ?n \<noteq> NO_INDEX)"
    by blast
  then show ?case
  proof cases
    case own
    then have "next_unicast ks ?s1 = (r, s')" using 2(3) by (simp add: Let_def)
    from 2(1) [OF refl refl own this]
    have ih: "keeps ?s1 s'" "length (brrt s') = length (brrt ?s1)"
      "\<forall>k n. r = Some (k, n) \<longrightarrow> k \<in> set ks \<and> br_used (brrt s' ! k) \<and> br_neighbor_table_iterator (brrt s' ! k) = n"
      by blast+
    have "keeps s ?s1" by (rule keeps_set_br) simp
    then have "keeps s s'" using ih(1) by (rule keeps_trans)
    with ih(2,3) show ?thesis by (simp add: set_br_def)
  next
    case found
    then show ?thesis using 2(3) by (auto simp: Let_def intro: keeps_refl)
  next
    case skip
    then have "next_unicast ks s = (r, s')" using 2(3) by (auto simp: Let_def)
    from 2(2) [OF refl refl skip this] show ?thesis by auto
  qed
qed

lemma new_broadcastD: "new_broadcast s = Some k \<Longrightarrow> k < ZB_NWK_BRR_TABLE_SIZE \<and> br_used (brrt s ! k)"
  by (auto simp: new_broadcast_def find_Some_iff)

lemma due_broadcastD: "due_broadcast s = Some k \<Longrightarrow> k < ZB_NWK_BRR_TABLE_SIZE \<and> br_used (brrt s ! k)"
  by (auto simp: due_broadcast_def find_Some_iff)

lemma set_passive_ack_used: "set_passive_ack n e = Some e1 \<Longrightarrow> br_used e1 = br_used e"
  by (auto simp: set_passive_ack_def split: if_splits)

lemma keeps_transmit:
  assumes "transmit_entry p k nent i s = Some (s', acts)" "k < ZB_NWK_BRR_TABLE_SIZE" "br_used (brrt s ! k)"
  shows "keeps s s'"
proof -
  let ?e = "brrt s ! k"
  obtain e1 where e1: "(case nent of
        Some n \<Rightarrow> map_option (\<lambda>e1. e1\<lparr>br_neighbor_table_iterator := next_ze ?e s\<rparr>) (set_passive_ack n ?e)
      | None \<Rightarrow> Some (?e\<lparr>br_next_retransmit := timer s + ZB_NWK_RREQ_RETRY_INTERVAL, br_retries := br_retries ?e + 1\<rparr>)) = Some e1"
    using assms(1) by (auto simp: transmit_entry_def Let_def split: option.splits)
  then have u: "br_used e1 = br_used ?e" by (auto dest: set_passive_ack_used split: option.splits)
  let ?s1 = "set_br k e1 s"
  let ?s2 = "if last_transmission i e1 ?s1 then put_br k ?s1 else ?s1"
  have "tabs s' = tabs ?s2"
    using assms(1) unfolding transmit_entry_def Let_def e1 by (auto split: option.splits if_split_asm)
  moreover have k1: "keeps s ?s1" using u by (rule keeps_set_br)
  have "keeps ?s1 (put_br k ?s1)"
    by (rule keeps_put_br) (use assms(2,3) u in \<open>simp add: set_br_def tables_ok_def\<close>)
  then have "keeps s ?s2" using k1 keeps_trans by simp
  ultimately show ?thesis using keeps_tabs_right by blast
qed

lemma keeps_transmission:
  assumes "nwk_broadcast_transmition p s = Some (s', acts)"
  shows "keeps s s'"
proof -
  obtain found s1 where f: "(case new_broadcast s of
           Some k \<Rightarrow> (Some (k, None, 0), s)
         | None \<Rightarrow>
             (case next_unicast [0..<ZB_NWK_BRR_TABLE_SIZE] s of
                (Some (k, n), s1) \<Rightarrow> (Some (k, Some n, 0), s1)
              | (None, s1) \<Rightarrow> (map_option (\<lambda>k. (k, None, k + 1)) (due_broadcast s1), s1))) = (found, s1)"
    by force
  obtain r s2 where n: "next_unicast [0..<ZB_NWK_BRR_TABLE_SIZE] s = (r, s2)" by force
  note nu = next_unicast_steps [OF n]
  have k1: "keeps s s1"
    using f n nu keeps_refl by (cases "new_broadcast s"; cases r) auto
  have used: "k < ZB_NWK_BRR_TABLE_SIZE \<and> br_used (brrt s1 ! k)" if "found = Some (k, nent, i)" for k nent i
    using f n nu that by (cases "new_broadcast s"; cases r) (auto dest: new_broadcastD due_broadcastD)
  show ?thesis
  proof (cases found)
    case None
    then have "s' = s1" using assms f by (simp add: nwk_broadcast_transmition_def)
    with k1 show ?thesis by simp
  next
    case (Some x)
    obtain k nent i where x: "x = (k, nent, i)" by (cases x)
    show ?thesis
    proof (cases "p = 0")
      case True
      then have "s' = s1" using assms f Some x by (simp add: nwk_broadcast_transmition_def)
      with k1 show ?thesis by simp
    next
      case False
      then obtain acts2 where "transmit_entry p k nent i s1 = Some (s', acts2)"
        using assms f Some x by (auto simp: nwk_broadcast_transmition_def)
      from keeps_transmit [OF this] used [of k nent i] Some x have "keeps s1 s'" by simp
      with k1 show ?thesis by (rule keeps_trans)
    qed
  qed
qed

lemma keeps_passive_ack:
  assumes "note_passive_ack m src q s = Some (s', acts)"
  shows "keeps s s'"
proof (cases "joined_pro s \<or> nwk_array_find_ent br_used (\<lambda>i e. br_src_addr e = src \<and> br_seq_num e = q) (brrt s) = None")
  case True
  then have "(if joined_pro s then None
            else nwk_array_find_ent br_used (\<lambda>i e. br_src_addr e = src \<and> br_seq_num e = q) (brrt s)) = None" by auto
  with assms have "s' = s" by (simp add: note_passive_ack_def)
  then show ?thesis using keeps_refl by simp
next
  case False
  then obtain k where k: "nwk_array_find_ent br_used (\<lambda>i e. br_src_addr e = src \<and> br_seq_num e = q) (brrt s) = Some k" by blast
  note kd = br.find_SomeD [OF k]
  show ?thesis
  proof (cases "ZB_FCF_GET_SRC_ADDRESSING_MODE (frame_control m) = MODE_16BIT")
    case False
    with assms k \<open>\<not> (joined_pro s \<or> _)\<close> show ?thesis using keeps_refl by (simp add: note_passive_ack_def)
  next
    case True
    obtain ret n c where g: "zb_nwk_neighbor_get_by_short (addr_short (src_addr m)) (node_ctx s) = Some (ret, n, c)"
      using assms k True \<open>\<not> (joined_pro s \<or> _)\<close> by (auto simp: note_passive_ack_def split: option.splits)
    let ?s1 = "set_ctx c s"
    have b: "brrt ?s1 = brrt s" by (simp add: set_ctx_def on_mesh_def)
    show ?thesis
    proof (cases "ret = RET_OK")
      case False
      with assms k True g \<open>\<not> (joined_pro s \<or> _)\<close> have "s' = ?s1" by (simp add: note_passive_ack_def Let_def)
      then show ?thesis by (simp add: keeps_tabs)
    next
      case ok: True
      obtain e1 where e1: "set_passive_ack (the n) (brrt ?s1 ! k) = Some e1"
        using assms k True g ok \<open>\<not> (joined_pro s \<or> _)\<close> by (auto simp: note_passive_ack_def Let_def split: option.splits)
      let ?s2 = "set_br k e1 ?s1"
      have u: "br_used e1 = br_used (brrt ?s1 ! k)" using e1 by (rule set_passive_ack_used)
      have k2: "keeps s ?s2" by (rule keeps_tabs_left [OF _ keeps_set_br [OF u]]) simp
      have "keeps ?s2 (put_br k ?s2)" by (rule keeps_put_br) (use kd u b in \<open>simp add: set_br_def tables_ok_def\<close>)
      moreover have "s' = ?s2 \<or> s' = put_br k ?s2"
        using assms k True g ok e1 \<open>\<not> (joined_pro s \<or> _)\<close> by (auto simp: note_passive_ack_def Let_def split: if_split_asm)
      ultimately show ?thesis using k2 keeps_trans by blast
    qed
  qed
qed

lemma keeps_receive:
  assumes "receive_broadcast m dst src q s = Some (ok, s', acts)"
  shows "keeps s s'"
proof (cases "broadcast_for_us dst s")
  case False
  then show ?thesis using assms keeps_refl by (auto simp: receive_broadcast_def)
next
  case True
  obtain s1 acts1 where n: "note_passive_ack m src q s = Some (s1, acts1)"
    using assms True by (auto simp: receive_broadcast_def split: option.splits)
  obtain ok2 s2 acts2 where a: "add_btr src q s1 = (ok2, s2, acts2)" by (cases "add_btr src q s1")
  have "s' = s1 \<or> s' = s2" using assms True n a by (auto simp: receive_broadcast_def split: if_split_asm)
  then show ?thesis using keeps_passive_ack [OF n] keeps_add_btr [OF a] keeps_trans by blast
qed

text \<open>The table of frames that wait for a buffer is a stack.\<close>

lemma wait_top:
  assumes "tables_ok s" "nwk_array_get_ent wa_used wa_mark (wait_alloc s) (wait_alloc_cnt s) = (Some i, t, c)"
  shows "i = unat (wait_alloc_cnt s)" "i < ZB_NWK_WAIT_ALLOC_TABLE_SIZE" "unat c = i + 1"
proof -
  have ok: "length (wait_alloc s) = ZB_NWK_WAIT_ALLOC_TABLE_SIZE" "unat (wait_alloc_cnt s) \<le> ZB_NWK_WAIT_ALLOC_TABLE_SIZE"
    "\<And>j. j < ZB_NWK_WAIT_ALLOC_TABLE_SIZE \<Longrightarrow> wa_used (wait_alloc s ! j) \<longleftrightarrow> j < unat (wait_alloc_cnt s)"
    using assms(1) by (simp_all add: tables_ok_def)
  have f: "find (\<lambda>i. \<not> wa_used (wait_alloc s ! i)) [0..<length (wait_alloc s)] = Some i"
    using assms(2) by (simp add: nwk_array_get_ent_def split: option.splits)
  then have i: "i < ZB_NWK_WAIT_ALLOC_TABLE_SIZE" "\<not> wa_used (wait_alloc s ! i)" "\<And>j. j < i \<Longrightarrow> wa_used (wait_alloc s ! j)"
    using ok(1) by (auto simp: find_Some_iff)
  have "unat (wait_alloc_cnt s) \<le> i" using ok(3) [OF i(1)] i(2) by simp
  moreover have "\<not> unat (wait_alloc_cnt s) < i"
    using i(3) [of "unat (wait_alloc_cnt s)"] ok(3) [of "unat (wait_alloc_cnt s)"] i(1) by auto
  ultimately show e: "i = unat (wait_alloc_cnt s)" by simp
  show "i < ZB_NWK_WAIT_ALLOC_TABLE_SIZE" by (rule i(1))
  have "c = wait_alloc_cnt s + 1" using wa.get_SomeD(4) [OF assms(2)] .
  then show "unat c = i + 1" using e i(1) by (simp add: unat_word_ariths(1) ZB_NWK_WAIT_ALLOC_TABLE_SIZE_def)
qed

lemma keeps_wait:
  assumes "btt s' = btt s" "btt_cnt s' = btt_cnt s" "brrt s' = brrt s" "brrt_cnt s' = brrt_cnt s"
    and "tables_ok s \<Longrightarrow> length (wait_alloc s') = ZB_NWK_WAIT_ALLOC_TABLE_SIZE \<and> unat (wait_alloc_cnt s') \<le> ZB_NWK_WAIT_ALLOC_TABLE_SIZE
      \<and> (\<forall>i < ZB_NWK_WAIT_ALLOC_TABLE_SIZE. wa_used (wait_alloc s' ! i) \<longleftrightarrow> i < unat (wait_alloc_cnt s'))"
  shows "keeps s s'"
  using assms by (auto simp: keeps_def tables_ok_def records_stay_def)

lemma keeps_dispatch:
  assumes "dispatch_frame p what s = (s', acts)"
  shows "keeps s s'"
proof (cases "what = (True, True)")
  case False
  then have "tabs s' = tabs s" using assms by (auto simp: dispatch_frame_def split: prod.splits bool.splits)
  then show ?thesis by (rule keeps_tabs)
next
  case True
  show ?thesis
  proof (cases "nwk_array_get_ent wa_used wa_mark (wait_alloc s) (wait_alloc_cnt s)")
    case (fields i t c)
    show ?thesis
    proof (cases i)
      case None
      then have "s' = s" using assms True fields by (simp add: dispatch_frame_def)
      then show ?thesis using keeps_refl by simp
    next
      case (Some k)
      note g = fields [unfolded Some]
      have s': "s' = s\<lparr>wait_alloc := t[k := (t ! k)\<lparr>wa_buf := p\<rparr>], wait_alloc_cnt := c\<rparr>"
        using assms True g by (simp add: dispatch_frame_def)
      have t: "t = (wait_alloc s)[k := wa_mark True (wait_alloc s ! k)]" using wa.get_SomeD(3) [OF g] .
      show ?thesis
      proof (rule keeps_wait)
        assume ok: "tables_ok s"
        note w = wait_top [OF ok g]
        show "length (wait_alloc s') = ZB_NWK_WAIT_ALLOC_TABLE_SIZE \<and> unat (wait_alloc_cnt s') \<le> ZB_NWK_WAIT_ALLOC_TABLE_SIZE
      \<and> (\<forall>i < ZB_NWK_WAIT_ALLOC_TABLE_SIZE. wa_used (wait_alloc s' ! i) \<longleftrightarrow> i < unat (wait_alloc_cnt s'))"
          using ok w by (auto simp: s' t nth_update tables_ok_def split: if_splits)
      qed (simp_all add: s')
    qed
  qed
qed

lemma keeps_checked:
  assumes "indicate_checked rnd p m s = Some (s', acts)"
  shows "keeps s s'"
proof -
  let ?sec = "ZB_NWK_FRAMECTL_GET_SECURITY (hdr_fctl (bufs s p)) \<noteq> 0"
  obtain ret s1 acts1 where u: "(if ?sec
            then map_option (\<lambda>(ret, s1, acts). (ret, if ret = RET_OK
                     then set_buf p ((bufs s1 p)\<lparr>hdr := (hdr (bufs s1 p))\<lparr>encrypt_type := ZB_SECUR_NWK_ENCR\<rparr>\<rparr>) s1 else s1, acts))
                   (unsecure_buf rnd p m s)
            else Some (RET_OK, s, [])) = Some (ret, s1, acts1)"
    using assms by (auto simp: indicate_checked_def Let_def split: option.splits)
  then have t1: "tabs s1 = tabs s" by (auto dest!: tabs_unsecure split: if_split_asm prod.splits)
  show ?thesis
  proof (cases "ret = RET_OK")
    case False
    then have "s' = s1" using assms unfolding indicate_checked_def Let_def u by simp
    with t1 show ?thesis by (simp add: keeps_tabs)
  next
    case True
    obtain b2 s3 where b2: "put_radius (hdr_radius (bufs s1 p) - 1) (bufs s1 p) = Some b2"
      and s3: "update_lqi (hdr_src b2) (set_buf p b2 s1) = Some s3"
      and d: "fst (dispatch_frame p (decide_frame b2 (set_buf p b2 s1)) s3) = s'"
      using assms True unfolding indicate_checked_def Let_def u by (auto split: option.splits prod.splits)
    have "tabs s3 = tabs s" using tabs_update_lqi [OF s3] t1 by simp
    moreover obtain a where "dispatch_frame p (decide_frame b2 (set_buf p b2 s1)) s3 = (s', a)" using d by (metis prod.collapse)
    ultimately show ?thesis using keeps_dispatch keeps_tabs_left by blast
  qed
qed

lemma keeps_data_indication:
  assumes "zb_mcps_data_indication rnd p s = Some (s', acts)"
  shows "keeps s s'"
proof -
  obtain m n b where m: "zb_parse_mhr (drop (boff (bufs s p)) (bytes (bufs s p))) = Some (m, n)" "ZB_MAC_CUT_HDR n (bufs s p) = Some b"
    using assms by (auto simp: zb_mcps_data_indication_def split: option.splits)
  let ?s1 = "set_buf p b s"
  consider "s' = ?s1" | "\<exists>x. indicate_checked rnd p m ?s1 = Some (s', x)"
    | "\<exists>ok s2 x. receive_broadcast m (hdr_dst b) (hdr_src b) (hdr_seq b) ?s1 = Some (ok, s2, x)
        \<and> (s' = s2 \<or> (\<exists>y. indicate_checked rnd p m s2 = Some (s', y)))"
    using assms m
    by (simp add: zb_mcps_data_indication_def Let_def add_acts_iff split: if_split_asm option.split_asm prod.split_asm) blast+
  then have "keeps ?s1 s'"
    by cases (auto intro: keeps_refl dest: keeps_checked keeps_receive elim!: keeps_trans)
  then show ?thesis by (rule keeps_tabs_left [rotated]) simp
qed

lemma keeps_new_buffer:
  assumes "new_buffer_allocated p s = Some (s', acts)"
  shows "keeps s s'"
proof (cases "p = 0 \<or> wait_alloc_cnt s = 0")
  case True
  then have "s' = s" using assms by (simp add: new_buffer_allocated_def)
  then show ?thesis using keeps_refl by simp
next
  case False
  let ?i = "unat (wait_alloc_cnt s) - 1"
  have w: "wait_alloc s' = (wait_alloc s)[?i := wa_mark False (wait_alloc s ! ?i)]" "wait_alloc_cnt s' = wait_alloc_cnt s - 1"
    and t: "btt s' = btt s" "btt_cnt s' = btt_cnt s" "brrt s' = brrt s" "brrt_cnt s' = brrt_cnt s"
    using assms False
    by (auto simp: new_buffer_allocated_def Let_def nwk_array_put_ent_def set_buf_def set_handle_def split: if_split_asm)
  have c: "unat (wait_alloc_cnt s - 1) = ?i" using False by (simp add: unat_minus_one)
  show ?thesis
  proof (rule keeps_wait [OF t])
    assume ok: "tables_ok s"
    have "0 < unat (wait_alloc_cnt s)" using False by (simp add: unat_gt_0)
    then show "length (wait_alloc s') = ZB_NWK_WAIT_ALLOC_TABLE_SIZE \<and> unat (wait_alloc_cnt s') \<le> ZB_NWK_WAIT_ALLOC_TABLE_SIZE
      \<and> (\<forall>i < ZB_NWK_WAIT_ALLOC_TABLE_SIZE. wa_used (wait_alloc s' ! i) \<longleftrightarrow> i < unat (wait_alloc_cnt s'))"
      using ok unfolding w c by (auto simp: nth_update tables_ok_def split: if_splits)
  qed
qed

lemma keeps_step:
  assumes "nwk_step e s = Some (s', acts)" "e \<noteq> Ev_btr_expiry"
  shows "keeps s s'"
  using assms
  by (auto simp: nwk_step_def split: nwk_event.splits
    intro: keeps_tabs keeps_forward keeps_transmission keeps_data_indication keeps_new_buffer
    dest: tabs_data_request tabs_confirm tabs_br_confirm tabs_frame_indication)

end
