(* ===== verification/Nwk_Frame_Props.thy ===== *)
theory Nwk_Frame_Props
  imports Nwk_Input Nwk_Secur_Lemmas
begin

text \<open>
  Headers and commands in packet buffers: what is filled in is what is read back, and where it is not.
\<close>

section \<open>Control fields\<close>

lemma fctl_bits:
  fixes a b c d :: bool
  shows "new_fctl a b c d = [(if d then 9 else 8), (if c then 2 else 0) OR (if b then 8 else 0) OR (if a then 16 else 0)]"
  by (simp add: new_fctl_def framectl_defs)

lemma new_fctl_fields [simp]:
  "ZB_NWK_FRAMECTL_GET_SECURITY (new_fctl a b c d) = (if c then 1 else 0)"
  "ZB_NWK_FRAMECTL_GET_DESTINATION_IEEE (new_fctl a b c d) = (if b then 1 else 0)"
  "ZB_NWK_FRAMECTL_GET_SOURCE_IEEE (new_fctl a b c d) = (if a then 1 else 0)"
  "ZB_NWK_FRAMECTL_GET_DISCOVER_ROUTE (new_fctl a b c d) = 0"
  "ZB_NWK_FRAMECTL_GET_PROTOCOL_VERSION (new_fctl a b c d) = ZB_PROTOCOL_VERSION"
  "ZB_NWK_FRAMECTL_GET_FRAME_TYPE (new_fctl a b c d) = (if d then ZB_NWK_FRAME_TYPE_COMMAND else ZB_NWK_FRAME_TYPE_DATA)"
  by (cases a; cases b; cases c; cases d; simp add: fctl_bits framectl_defs)+

lemma length_new_fctl [simp]: "length (new_fctl a b c d) = 2"
  by (simp add: fctl_bits)

text \<open>The size that a received control field says is the size that was allocated, but for the byte of a multicast.\<close>

lemma hdr_size_new_fctl:
  "zb_nwk_hdr_size (new_fctl a b c d) + (if m then 1 else 0) = new_hdr_size a b m c"
  by (cases a; cases b; cases c; cases m)
    (simp_all add: fctl_bits zb_nwk_hdr_size_def new_hdr_size_def ZB_NWK_SHORT_HDR_SIZE_def ZB_NWK_HALF_HDR_SIZE_def
      ZB_NWK_FULL_HDR_SIZE_def SIZEOF_AUX_def bit_simps)

section \<open>Fields of the data\<close>

definition nwk_header :: "u8 list \<Rightarrow> u16 \<Rightarrow> u16 \<Rightarrow> u8 \<Rightarrow> u8 \<Rightarrow> u8 list" where
  "nwk_header fc dst src r q = fc @ htole16 dst @ htole16 src @ [r, q]"

lemma length_nwk_header [simp]: "length fc = 2 \<Longrightarrow> length (nwk_header fc dst src r q) = 8"
  by (simp add: nwk_header_def)

lemma byte_at_payload: "i < blen b \<Longrightarrow> buf_ok b \<Longrightarrow> bytes b ! (boff b + i) = payload b ! i"
  by (simp add: payload_def buf_ok_def)

lemma header_fields:
  assumes "buf_ok b" "payload b = nwk_header fc dst src r q @ rest" "length fc = 2"
  shows "hdr_fctl b = fc" "hdr_dst b = dst" "hdr_src b = src" "hdr_radius b = r" "hdr_seq b = q"
    and "8 \<le> length rest \<Longrightarrow> hdr_dst_ieee b = take 8 rest"
proof -
  have l: "blen b = 8 + length rest" using length_payload [OF assms(1)] assms(2,3) by simp
  obtain x y where fc: "fc = [x, y]" using assms(3) by (auto simp: length_Suc_conv numeral_2_eq_2)
  note at = bytes_at_payload [of _ _ b, unfolded assms(2) nwk_header_def fc]
  show "hdr_fctl b = fc" using at [of 0 2] l by (simp add: hdr_fctl_def fc)
  show "hdr_dst b = dst" "hdr_src b = src"
    using at [of 2 2] at [of 4 2] l by (simp_all add: hdr_dst_def hdr_src_def htole16_def [of dst] htole16_def [of src] letoh16_htole16(1) [unfolded htole16_def])
  show "hdr_radius b = r" "hdr_seq b = q"
    using byte_at_payload [of 6 b] byte_at_payload [of 7 b] l assms
    by (simp_all add: hdr_radius_def hdr_seq_def nwk_header_def fc htole16_def)
  show "hdr_dst_ieee b = take 8 rest" if "8 \<le> length rest"
    using at [of 8 8] l that by (simp add: hdr_dst_ieee_def htole16_def)
qed

lemma command_fields:
  assumes "buf_ok b" "payload b = nwk_header fc dst src r q @ x @ cmd # args" "length fc = 2" "8 + length x = zb_nwk_hdr_size fc"
  shows "cmd_id b = cmd" "n \<le> length args \<Longrightarrow> cmd_fields n b = take n args"
proof -
  have l: "blen b = zb_nwk_hdr_size fc + 1 + length args" using length_payload [OF assms(1)] assms(2-4) by simp
  have f: "hdr_fctl b = fc" using header_fields(1) [OF assms(1-3)] .
  have p: "payload b = (nwk_header fc dst src r q @ x) @ cmd # args" "length (nwk_header fc dst src r q @ x) = zb_nwk_hdr_size fc"
    using assms by simp_all
  show "cmd_id b = cmd"
  proof -
    have "cmd_id b = payload b ! zb_nwk_hdr_size fc"
      unfolding cmd_id_def f by (rule byte_at_payload) (use l assms(1) in simp_all)
    also have "\<dots> = cmd" unfolding p(1) p(2) [symmetric] by (rule nth_append_length)
    finally show ?thesis .
  qed
  show "cmd_fields n b = take n args" if "n \<le> length args"
  proof -
    have "cmd_fields n b = take n (drop (zb_nwk_hdr_size fc + 1) (payload b))"
      unfolding cmd_fields_def f using bytes_at_payload [of "zb_nwk_hdr_size fc + 1" n b] l that by (simp add: add.assoc)
    then show ?thesis unfolding p(1) using p(2) by simp
  qed
qed

lemma initial_alloc_payload:
  "length (bytes b) = ZB_IO_BUF_SIZE \<Longrightarrow> n < ZB_IO_BUF_SIZE \<Longrightarrow>
    \<exists>b'. zb_buf_initial_alloc b n = Some (b', boff b') \<and> buf_ok b' \<and> blen b' = n \<and> boff b' = (ZB_IO_BUF_SIZE - n) div 2"
  by (auto simp: zb_buf_initial_alloc_def buf_ok_def set_off_def set_len_def ZB_IO_BUF_SIZE_def Let_def)

lemma write_front:
  assumes "buf_ok b" "length xs \<le> blen b"
  obtains b' where "write_bytes (boff b) xs b = Some b'" "buf_ok b'" "hdr b' = hdr b" "payload b' = xs @ drop (length xs) (payload b)"
  using write_at_payload [of b 0 xs] assms by (auto simp: memcpy_def)

lemma drop_in_two: "m \<le> n \<Longrightarrow> drop m xs = take (n - m) (drop m xs) @ drop n xs"
  using append_take_drop_id [of "n - m" "drop m xs"] by simp

section \<open>The new header\<close>

definition ieee_part :: "ieee option \<Rightarrow> u8 list" where
  "ieee_part a = (case a of Some d \<Rightarrow> take 8 d | None \<Rightarrow> [])"

definition ieee_opt_ok :: "ieee option \<Rightarrow> bool" where
  "ieee_opt_ok a \<longleftrightarrow> (case a of Some d \<Rightarrow> length d = 8 | None \<Rightarrow> True)"

lemma filled_header:
  assumes b: "buf_ok b" and ok: "ieee_opt_ok src_ieee" "ieee_opt_ok dst_ieee"
    and room: "new_hdr_size (src_ieee \<noteq> None) (dst_ieee \<noteq> None) mc sec + (if cmd then 0 else blen b) < ZB_IO_BUF_SIZE"
  obtains b' aux where "nwk_alloc_and_fill_hdr dst src_ieee dst_ieee mc sec cmd own q b = Some b'" "buf_ok b'"
    "payload b' = nwk_header (new_fctl (src_ieee \<noteq> None) (dst_ieee \<noteq> None) sec cmd) dst own 1 q
       @ ieee_part dst_ieee @ ieee_part src_ieee @ aux @ (if cmd then [] else payload b)"
    "8 + length (ieee_part dst_ieee @ ieee_part src_ieee @ aux)
       = zb_nwk_hdr_size (new_fctl (src_ieee \<noteq> None) (dst_ieee \<noteq> None) sec cmd) + (if mc then 1 else 0)"
    "cmd \<Longrightarrow> boff b' + blen b' + 54 \<le> ZB_IO_BUF_SIZE"
proof -
  let ?n = "new_hdr_size (src_ieee \<noteq> None) (dst_ieee \<noteq> None) mc sec"
  let ?h = "nwk_header (new_fctl (src_ieee \<noteq> None) (dst_ieee \<noteq> None) sec cmd) dst own 1 q @ ieee_part dst_ieee @ ieee_part src_ieee"
  have n: "?n \<le> 39"
    by (simp add: new_hdr_size_def ZB_NWK_SHORT_HDR_SIZE_def ZB_NWK_HALF_HDR_SIZE_def ZB_NWK_FULL_HDR_SIZE_def SIZEOF_AUX_def)
  have h: "length ?h \<le> ?n"
    using ok by (auto simp: new_hdr_size_def ieee_part_def ieee_opt_ok_def ZB_NWK_SHORT_HDR_SIZE_def ZB_NWK_HALF_HDR_SIZE_def
      ZB_NWK_FULL_HDR_SIZE_def split: option.splits)
  obtain b1 where b1: "(if cmd then zb_buf_initial_alloc b ?n else zb_buf_smart_alloc_left b ?n) = Some (b1, boff b1)" "buf_ok b1"
      "blen b1 = ?n + (if cmd then 0 else blen b)" "drop ?n (payload b1) = (if cmd then [] else payload b)"
      "cmd \<longrightarrow> boff b1 = (ZB_IO_BUF_SIZE - ?n) div 2"
  proof (cases cmd)
    case True
    have "length (bytes b) = ZB_IO_BUF_SIZE" "?n < ZB_IO_BUF_SIZE" using b n by (simp_all add: buf_ok_def ZB_IO_BUF_SIZE_def)
    from initial_alloc_payload [OF this] obtain b1 where i: "zb_buf_initial_alloc b ?n = Some (b1, boff b1)" "buf_ok b1" "blen b1 = ?n"
      "boff b1 = (ZB_IO_BUF_SIZE - ?n) div 2" by blast
    have "drop ?n (payload b1) = []" using length_payload [OF i(2)] i(3) by simp
    then show thesis using that [of b1] i True by simp
  next
    case False
    from alloc_left_payload [OF b, of ?n] room False obtain b1 where i: "zb_buf_smart_alloc_left b ?n = Some (b1, boff b1)" "buf_ok b1"
      "blen b1 = blen b + ?n" "drop ?n (payload b1) = payload b" by auto
    show thesis by (rule that [of b1]) (use i False in simp_all)
  qed
  obtain b2 where b2: "write_bytes (boff b1) ?h b1 = Some b2" "buf_ok b2" "hdr b2 = hdr b1" "payload b2 = ?h @ drop (length ?h) (payload b1)"
    by (rule write_front [OF b1(2), of ?h]) (use h b1(3) in simp)
  let ?aux = "take (?n - length ?h) (drop (length ?h) (payload b1))"
  have split: "drop (length ?h) (payload b1) = ?aux @ (if cmd then [] else payload b)"
    unfolding b1(4) [symmetric] by (rule drop_in_two [OF h])
  let ?b = "b2\<lparr>hdr := (hdr b2)\<lparr>encrypt_type := (if sec then ZB_SECUR_NWK_ENCR else ZB_SECUR_NO_ENCR)\<rparr>\<rparr>"
  have call: "nwk_alloc_and_fill_hdr dst src_ieee dst_ieee mc sec cmd own q b = Some ?b"
    unfolding nwk_alloc_and_fill_hdr_def Let_def b1(1) using b2(1) by (simp add: nwk_header_def ieee_part_def)
  have "length ?aux = ?n - length ?h" using length_payload [OF b1(2)] b1(3) by simp
  then have len: "8 + length (ieee_part dst_ieee @ ieee_part src_ieee @ ?aux) = ?n" using h by simp
  show thesis
  proof (rule that [OF call])
    show "buf_ok ?b" using b2(2) by (simp add: buf_ok_def)
    show "payload ?b = nwk_header (new_fctl (src_ieee \<noteq> None) (dst_ieee \<noteq> None) sec cmd) dst own 1 q
       @ ieee_part dst_ieee @ ieee_part src_ieee @ ?aux @ (if cmd then [] else payload b)"
      using b2(4) split by (simp add: payload_def [of ?b] payload_def [of b2])
    show "8 + length (ieee_part dst_ieee @ ieee_part src_ieee @ ?aux)
        = zb_nwk_hdr_size (new_fctl (src_ieee \<noteq> None) (dst_ieee \<noteq> None) sec cmd) + (if mc then 1 else 0)"
      using len hdr_size_new_fctl [of "src_ieee \<noteq> None" "dst_ieee \<noteq> None" sec cmd mc] by simp
    show "boff ?b + blen ?b + 54 \<le> ZB_IO_BUF_SIZE" if cmd
      using that b1(3,5) b2(3) n by (simp add: ZB_IO_BUF_SIZE_def)
  qed
qed

section \<open>Commands\<close>

lemma filled_command:
  assumes "buf_ok b" "boff b + blen b + 1 + length args \<le> ZB_IO_BUF_SIZE" "blen b + 1 + length args < ZB_IO_BUF_SIZE"
  obtains b' where "nwk_fill_cmd cmd args b = Some b'" "buf_ok b'" "payload b' = payload b @ cmd # args"
proof -
  from alloc_right_payload [OF assms(1), of "1 + length args"] assms(2,3) obtain b1 where
    b1: "zb_buf_smart_alloc_right b (1 + length args) = Some (b1, boff b + blen b)" "blen b1 = blen b + (1 + length args)"
      "boff b1 = boff b" "buf_ok b1" "take (blen b) (payload b1) = payload b"
    by auto
  have "blen b + length (cmd # args) \<le> blen b1" using b1(2) by simp
  from write_at_payload [OF b1(4) this] obtain b2 where
    b2: "write_bytes (boff b1 + blen b) (cmd # args) b1 = Some b2" "buf_ok b2" "hdr b2 = hdr b1"
      "payload b2 = memcpy (blen b) (cmd # args) (payload b1)" by blast
  have "payload b2 = payload b @ cmd # args"
    using b1(5) length_payload [OF b1(4)] b1(2) unfolding b2(4) memcpy_def by simp
  then show thesis using that [of b2] b1(1,3) b2(1,2) by (simp add: nwk_fill_cmd_def)
qed

lemma put_header_byte:
  assumes "buf_ok b" "payload b = nwk_header fc dst src r q @ rest" "length fc = 2"
  obtains b' where "put_radius r' b = Some b'" "buf_ok b'" "hdr b' = hdr b" "payload b' = nwk_header fc dst src r' q @ rest"
proof -
  have l: "blen b = 8 + length rest" using length_payload [OF assms(1)] assms(2,3) by simp
  have "6 + length [r'] \<le> blen b" using l by simp
  from write_at_payload [OF assms(1) this] obtain b' where
    b': "write_bytes (boff b + 6) [r'] b = Some b'" "buf_ok b'" "hdr b' = hdr b" "payload b' = memcpy 6 [r'] (payload b)" by blast
  have "memcpy 6 [r'] (nwk_header fc dst src r q @ rest) = nwk_header fc dst src r' q @ rest"
    using memcpy_append_mid [of "[r']" "[r]" "fc @ htole16 dst @ htole16 src" "q # rest"] assms(3) by (simp add: nwk_header_def)
  then show thesis using that [of b'] b' assms(2) by (simp add: put_radius_def)
qed

lemma put_header_src:
  assumes "buf_ok b" "payload b = nwk_header fc dst src r q @ rest" "length fc = 2"
  obtains b' where "put_src src' b = Some b'" "buf_ok b'" "hdr b' = hdr b" "payload b' = nwk_header fc dst src' r q @ rest"
proof -
  have l: "blen b = 8 + length rest" using length_payload [OF assms(1)] assms(2,3) by simp
  have "4 + length (htole16 src') \<le> blen b" using l by simp
  from write_at_payload [OF assms(1) this] obtain b' where
    b': "write_bytes (boff b + 4) (htole16 src') b = Some b'" "buf_ok b'" "hdr b' = hdr b"
      "payload b' = memcpy 4 (htole16 src') (payload b)" by blast
  have "memcpy 4 (htole16 src') (nwk_header fc dst src r q @ rest) = nwk_header fc dst src' r q @ rest"
    using memcpy_append_mid [of "htole16 src'" "htole16 src" "fc @ htole16 dst" "r # q # rest"] assms(3) by (simp add: nwk_header_def)
  then show thesis using that [of b'] b' assms(2) by (simp add: put_src_def)
qed

text \<open>A frame of the routing commands, as it is in the buffer.\<close>

lemma mesh_frame_payload:
  assumes "buf_ok b" "length args \<le> 50"
  obtains b' aux where "mesh_frame h cmd args own b = Some b'" "buf_ok b'"
    "payload b' = nwk_header (new_fctl False False (h_secure h) True) (h_dst_addr h) (h_src_addr h) (h_radius h) (h_seq_num h) @ aux @ cmd # args"
    "8 + length aux = zb_nwk_hdr_size (new_fctl False False (h_secure h) True)"
proof -
  let ?fc = "new_fctl False False (h_secure h) True"
  have room: "new_hdr_size (None \<noteq> None) (None \<noteq> None) False (h_secure h) + (if True then 0 else blen b) < ZB_IO_BUF_SIZE"
    by (simp add: new_hdr_size_def ZB_NWK_SHORT_HDR_SIZE_def SIZEOF_AUX_def ZB_IO_BUF_SIZE_def)
  obtain b1 aux where b1: "nwk_alloc_and_fill_hdr (h_dst_addr h) None None False (h_secure h) True own (h_seq_num h) b = Some b1" "buf_ok b1"
      "payload b1 = nwk_header ?fc (h_dst_addr h) own 1 (h_seq_num h) @ aux" "8 + length aux = zb_nwk_hdr_size ?fc"
      "boff b1 + blen b1 + 54 \<le> ZB_IO_BUF_SIZE"
    by (rule filled_header [OF assms(1) _ _ room, where dst = "h_dst_addr h" and own = own and q = "h_seq_num h"])
      (simp_all add: ieee_part_def ieee_opt_ok_def)
  obtain b2 where b2: "nwk_fill_cmd cmd args b1 = Some b2" "buf_ok b2" "payload b2 = payload b1 @ cmd # args"
    by (rule filled_command [OF b1(2), of args cmd]) (use b1(5) assms(2) in simp_all)
  have p2: "payload b2 = nwk_header ?fc (h_dst_addr h) own 1 (h_seq_num h) @ aux @ cmd # args" using b1(3) b2(3) by simp
  obtain b3 where b3: "put_radius (h_radius h) b2 = Some b3" "buf_ok b3"
      "payload b3 = nwk_header ?fc (h_dst_addr h) own (h_radius h) (h_seq_num h) @ aux @ cmd # args"
    by (rule put_header_byte [OF b2(2) p2, of "h_radius h"]) simp_all
  obtain b4 where b4: "put_src (h_src_addr h) b3 = Some b4" "buf_ok b4"
      "payload b4 = nwk_header ?fc (h_dst_addr h) (h_src_addr h) (h_radius h) (h_seq_num h) @ aux @ cmd # args"
    by (rule put_header_src [OF b3(2,3), of "h_src_addr h"]) simp_all
  show thesis by (rule that [of b4 aux]) (use b1(1,4) b2(1) b3(1) b4 in \<open>simp_all add: mesh_frame_def\<close>)
qed

lemma rreq_of_rreq_bytes [simp]: "rreq_of_bytes (rreq_bytes c) = c"
  by (simp add: rreq_of_bytes_def rreq_bytes_def htole16_def letoh16_htole16(2) [unfolded htole16_def, simplified])

lemma rrep_of_rrep_bytes [simp]: "rrep_of_bytes (rrep_bytes c) = c"
  by (simp add: rrep_of_bytes_def rrep_bytes_def htole16_def letoh16_htole16(2) [unfolded htole16_def, simplified])

lemma length_command_bytes [simp]: "length (rreq_bytes c) = 5" "length (rrep_bytes d) = 7"
  by (simp_all add: rreq_bytes_def rrep_bytes_def)

section \<open>Properties\<close>



text \<open>
  What the routing sends survives the frame: from the buffer that \<^verbatim>\<open>zb_nwk_mesh_send_rreq\<close> and \<^verbatim>\<open>zb_nwk_mesh_send_rrep\<close>
  fill, secured or not, the receiver reads the addresses, the radius, the number, the command and its fields.
\<close>

theorem route_commands_read_back:
  assumes "buf_ok b"
  shows "\<exists>b1 b2. mesh_frame h ZB_NWK_CMD_ROUTE_REQUEST (rreq_bytes c) own b = Some b1
    \<and> rx_hdr b1 = h\<lparr>h_secure := False\<rparr> \<and> cmd_id b1 = ZB_NWK_CMD_ROUTE_REQUEST \<and> rreq_of_bytes (cmd_fields 5 b1) = c
    \<and> mesh_frame h ZB_NWK_CMD_ROUTE_REPLY (rrep_bytes d) own b = Some b2
    \<and> rx_hdr b2 = h\<lparr>h_secure := False\<rparr> \<and> cmd_id b2 = ZB_NWK_CMD_ROUTE_REPLY \<and> rrep_of_bytes (cmd_fields 7 b2) = d"
proof -
  have one: "\<exists>b'. mesh_frame h cmd args own b = Some b' \<and> rx_hdr b' = h\<lparr>h_secure := False\<rparr> \<and> cmd_id b' = cmd
      \<and> cmd_fields (length args) b' = args" if args: "length args \<le> 50" for cmd args
  proof -
    obtain b' aux where b': "mesh_frame h cmd args own b = Some b'" "buf_ok b'"
      "payload b' = nwk_header (new_fctl False False (h_secure h) True) (h_dst_addr h) (h_src_addr h) (h_radius h) (h_seq_num h) @ aux @ cmd # args"
      "8 + length aux = zb_nwk_hdr_size (new_fctl False False (h_secure h) True)"
      by (rule mesh_frame_payload [OF assms args, where h = h and cmd = cmd and own = own])
    show ?thesis
      using b'(1) header_fields [OF b'(2,3)] command_fields [OF b'(2,3) _ b'(4)] by (simp add: rx_hdr_def)
  qed
  from one [of "rreq_bytes c" ZB_NWK_CMD_ROUTE_REQUEST] one [of "rrep_bytes d" ZB_NWK_CMD_ROUTE_REPLY] show ?thesis
    by auto
qed

theorem route_commands_read_back_witness:
  "\<exists>b1. mesh_frame \<lparr>h_src_addr = 1, h_dst_addr = 2, h_radius = 10, h_seq_num = 5, h_secure = True\<rparr> ZB_NWK_CMD_ROUTE_REQUEST
      (rreq_bytes \<lparr>rq_rreq_id = 3, rq_dest_addr = 0x99, rq_path_cost = 4\<rparr>) 1 \<lparr>hdr = hdr_zero, bytes = replicate 148 0\<rparr> = Some b1
    \<and> rreq_of_bytes (cmd_fields 5 b1) = \<lparr>rq_rreq_id = 3, rq_dest_addr = 0x99, rq_path_cost = 4\<rparr>"
  using route_commands_read_back [of "\<lparr>hdr = hdr_zero, bytes = replicate 148 0\<rparr>"]
  by (force simp: buf_ok_def hdr_zero_def ZB_IO_BUF_SIZE_def)

end
