(* ===== verification/Nwk_Node_Props.thy ===== *)
theory Nwk_Node_Props
  imports Nwk_Node_Run Nwk_Frame_Props Nwk_Mesh_Props
begin

text \<open>
  Properties of forwarding and of the frame input: the tables stay consistent, a broadcast is taken once, and the places where
  frames are lost.
\<close>

section \<open>Expiry of records\<close>

definition tick_entry :: "zb_nwk_btr \<Rightarrow> zb_nwk_btr" where
  "tick_entry e =
     (if bt_used e then (if bt_expiration_time e \<noteq> 0 then e\<lparr>bt_expiration_time := bt_expiration_time e - 1\<rparr> else bt_mark False e) else e)"

lemma expiry_loop_Nil [simp]: "btr_expiry_loop [] x = x"
  by (cases x) simp

lemma expiry_step:
  assumes "counted bt_used t c" "i < length t" "btr_expiry_loop [i] (t, c) = (t', c')"
  shows "counted bt_used t' c' \<and> t' = t[i := tick_entry (t ! i)]"
proof (cases "bt_used (t ! i) \<and> bt_expiration_time (t ! i) = 0")
  case True
  then have p: "nwk_array_put_ent bt_mark i t c = (t', c')" using assms(3) by simp
  then have "counted bt_used t' c'" using bt.put_counted [OF assms(1,2) _ p] True by blast
  then show ?thesis using p True by (simp add: nwk_array_put_ent_def tick_entry_def)
next
  case False
  then show ?thesis using assms by (auto simp: tick_entry_def intro!: bt.counted_same split: if_split_asm)
qed

lemma expiry_loop:
  "counted bt_used t c \<Longrightarrow> n \<le> length t \<Longrightarrow> btr_expiry_loop [k..<n] (t, c) = (t', c') \<Longrightarrow>
     counted bt_used t' c' \<and> length t' = length t \<and> (\<forall>i < length t. t' ! i = (if k \<le> i \<and> i < n then tick_entry (t ! i) else t ! i))"
proof (induction "n - k" arbitrary: k t c)
  case 0
  then show ?case by auto
next
  case (Suc d)
  then have k: "k < n" by simp
  then have r: "[k..<n] = k # [Suc k..<n]" by (simp add: upt_rec)
  obtain t1 c1 where s1: "btr_expiry_loop [k] (t, c) = (t1, c1)" by force
  then have step: "btr_expiry_loop [k..<n] (t, c) = btr_expiry_loop [Suc k..<n] (t1, c1)" unfolding r by (simp del: if_split)
  have "k < length t" using k Suc(4) by simp
  from expiry_step [OF Suc(3) this s1] have e: "counted bt_used t1 c1" "t1 = t[k := tick_entry (t ! k)]" by blast+
  have "counted bt_used t' c' \<and> length t' = length t1 \<and> (\<forall>i < length t1. t' ! i = (if Suc k \<le> i \<and> i < n then tick_entry (t1 ! i) else t1 ! i))"
    by (rule Suc(1)) (use Suc(2,4,5) e step in simp_all)
  then show ?case using e(2) k Suc(4) by (auto simp: nth_update)
qed

lemma expiry_tables:
  assumes "tables_ok s" "zb_nwk_btr_expiry s = (s', acts)"
  shows "tables_ok s'" "i < ZB_NWK_BTR_TABLE_SIZE \<Longrightarrow> btt s' ! i = tick_entry (btt s ! i)"
proof -
  have t: "counted bt_used (btt s) (btt_cnt s)" "length (btt s) = ZB_NWK_BTR_TABLE_SIZE" using assms(1) by (simp_all add: tables_ok_def)
  have "tables_ok s' \<and> (\<forall>i < ZB_NWK_BTR_TABLE_SIZE. btt s' ! i = tick_entry (btt s ! i))"
  proof (cases "btt_cnt s = 0")
    case True
    then have "length (filter bt_used (btt s)) = 0" using t(1) unfolding counted_def by simp
    then have "\<not> bt_used (btt s ! i)" if "i < ZB_NWK_BTR_TABLE_SIZE" for i using that t(2) by (auto simp: filter_empty_conv)
    then show ?thesis using assms True by (auto simp: zb_nwk_btr_expiry_def tick_entry_def)
  next
    case False
    obtain t' c' where l: "btr_expiry_loop [0..<ZB_NWK_BTR_TABLE_SIZE] (btt s, btt_cnt s) = (t', c')" by force
    then have "s' = s\<lparr>btt := t', btt_cnt := c'\<rparr>" using assms(2) False by (simp add: zb_nwk_btr_expiry_def)
    then show ?thesis using expiry_loop [OF t(1) _ l] t(2) assms(1) by (simp add: tables_ok_def)
  qed
  then show "tables_ok s'" "i < ZB_NWK_BTR_TABLE_SIZE \<Longrightarrow> btt s' ! i = tick_entry (btt s ! i)" by blast+
qed

section \<open>The life of a record\<close>

definition recorded :: "u16 \<Rightarrow> u8 \<Rightarrow> nat \<Rightarrow> nwk_node \<Rightarrow> bool" where
  "recorded src q k s \<longleftrightarrow>
     (\<exists>i < length (btt s). bt_used (btt s ! i) \<and> bt_source_addr (btt s ! i) = src \<and> bt_sequence_number (btt s ! i) = q
        \<and> k \<le> bt_expiration_time (btt s ! i))"

lemma recorded_find: "recorded src q k s \<Longrightarrow> find_btr src q s \<noteq> None"
  unfolding recorded_def find_btr_def using bt.find_NoneD [of _ "btt s"] by blast

lemma recorded_stays: "recorded src q k s \<Longrightarrow> keeps s s' \<Longrightarrow> recorded src q k s'"
  unfolding recorded_def keeps_def records_stay_def by metis

lemma recorded_tick:
  assumes "recorded src q (Suc k) s" "tables_ok s" "zb_nwk_btr_expiry s = (s', acts)"
  shows "recorded src q k s'"
proof -
  obtain i where i: "i < length (btt s)" "bt_used (btt s ! i)" "bt_source_addr (btt s ! i) = src" "bt_sequence_number (btt s ! i) = q"
      "Suc k \<le> bt_expiration_time (btt s ! i)" using assms(1) unfolding recorded_def by blast
  have l: "length (btt s) = length (btt s')" "length (btt s) = ZB_NWK_BTR_TABLE_SIZE"
    using assms(2) expiry_tables(1) [OF assms(2,3)] by (simp_all add: tables_ok_def)
  have "btt s' ! i = tick_entry (btt s ! i)" using expiry_tables(2) [OF assms(2,3)] i(1) l(2) by simp
  then show ?thesis unfolding recorded_def using i l by (intro exI [of _ i]) (simp add: tick_entry_def)
qed

lemma recorded_add:
  assumes "add_btr src q s = (True, s', acts)"
  shows "recorded src q ZB_NWK_BROADCAST_DELIVERY_TIME s'"
proof -
  obtain i t c where g: "nwk_array_get_ent bt_used bt_mark (btt s) (btt_cnt s) = (Some i, t, c)"
    using assms by (auto simp: add_btr_def split: option.splits prod.splits)
  note d = bt.get_SomeD [OF g]
  have "btt s' = t[i := (t ! i)\<lparr>bt_source_addr := src, bt_sequence_number := q, bt_expiration_time := ZB_NWK_BROADCAST_DELIVERY_TIME\<rparr>]"
    using assms g by (auto simp: add_btr_def)
  then show ?thesis unfolding recorded_def using d(1,3) by (intro exI [of _ i]) simp
qed

lemma run_tables: "nwk_run s n s' \<Longrightarrow> tables_ok s \<Longrightarrow> tables_ok s'"
proof (induction rule: nwk_run.induct)
  case (step s n s1 e s2 acts)
  show ?case
  proof (cases "e = Ev_btr_expiry")
    case True
    with step show ?thesis using expiry_tables(1) [of s1 s2 acts] by (simp add: nwk_step_def)
  next
    case False
    with step keeps_step [of e s1 s2 acts] show ?thesis by (simp add: keeps_def)
  qed
qed

lemma run_recorded: "nwk_run s n s' \<Longrightarrow> tables_ok s \<Longrightarrow> recorded src q (n + k) s \<Longrightarrow> recorded src q k s'"
proof (induction arbitrary: k rule: nwk_run.induct)
  case (start s)
  then show ?case by simp
next
  case (step s n s1 e s2 acts)
  show ?case
  proof (cases "e = Ev_btr_expiry")
    case True
    then have "recorded src q (Suc k) s1" using step by simp
    then show ?thesis using recorded_tick run_tables [OF step(1,4)] step(2) True by (auto simp: nwk_step_def)
  next
    case False
    then have "recorded src q k s1" using step by simp
    then show ?thesis by (rule recorded_stays) (use keeps_step [OF step(2)] False in simp)
  qed
qed


text \<open>
  C4: A broadcast is taken once: after the first copy was accepted, no other copy with the same source and number is accepted until the
  timer of the records has run more than nine times, whatever else happens on the node. So a copy of a route request that came over a
  cheaper path never reaches \<^verbatim>\<open>zb_nwk_mesh_rreq_handler\<close>.
\<close>

theorem broadcast_is_taken_once:
  assumes "tables_ok s" "receive_broadcast m dst src q s = Some (True, s1, acts)" "nwk_run s1 n s2" "n \<le> ZB_NWK_BROADCAST_DELIVERY_TIME"
    and "receive_broadcast m' dst' src q s2 = Some (ok, s3, acts')"
  shows "\<not> ok"
proof -
  obtain s0 a0 a1 where n: "note_passive_ack m src q s = Some (s0, a0)" and a: "add_btr src q s0 = (True, s1, a1)"
    using assms(2) by (auto simp: receive_broadcast_def split: option.splits prod.splits if_split_asm)
  have "tables_ok s1" using keeps_passive_ack [OF n] keeps_add_btr [OF a] assms(1) by (simp add: keeps_def)
  moreover have "recorded src q (n + (ZB_NWK_BROADCAST_DELIVERY_TIME - n)) s1" using recorded_add [OF a] assms(4) by simp
  ultimately have r: "recorded src q (ZB_NWK_BROADCAST_DELIVERY_TIME - n) s2" using run_recorded [OF assms(3)] by blast
  show ?thesis
  proof
    assume ok
    with assms(5) obtain s4 a4 where p: "note_passive_ack m' src q s2 = Some (s4, a4)" and f: "find_btr src q s4 = None"
      by (auto simp: receive_broadcast_def split: option.splits prod.splits if_split_asm)
    from recorded_find [OF recorded_stays [OF r keeps_passive_ack [OF p]]] f show False by simp
  qed
qed

section \<open>Leaving\<close>

lemma do_leave_tables:
  assumes "zb_nwk_do_leave q rejoin s = Some (s', acts)"
  shows "btt s' = btt s \<and> brrt s' = brrt s \<and> btt_cnt s' = 0 \<and> brrt_cnt s' = 0 \<and> node_type s' = node_type s
    \<and> (p \<noteq> q \<longrightarrow> bufs s' p = bufs s p) \<and> nsdu_handle s' = nsdu_handle s"
  using assms
  by (auto simp: zb_nwk_do_leave_def Let_def zb_nwk_forget_device_def set_ctx_def on_mesh_def upd_tree_def set_buf_def
      split: if_split_asm option.split_asm prod.split_asm)

lemma calc_broadcast:
  assumes "node_type s \<noteq> DEVICE_TYPE_ED" "ZB_NWK_IS_ADDRESS_BROADCAST (hdr_dst (bufs s p))"
  shows "nwk_calc_destination p h s = Some (RET_OK, ZB_NWK_BROADCAST_ALL_DEVICES, False, COMMAND_STATUS_NO_ROUTE_AVAILABLE, s, [])"
  using assms by (simp add: nwk_calc_destination_def Let_def)

text \<open>
  \<^verbatim>\<open>zb_nwk_do_leave\<close> sets the counters of the tables of broadcasts to zero but leaves the entries used. A router whose
  eight entries for repeated broadcasts were in use when it left finds no free entry for the next broadcast although the counter
  promises one, and stops.
\<close>

theorem leave_keeps_used_entries:
  assumes "tables_ok s" "unat (brrt_cnt s) = ZB_NWK_BRR_TABLE_SIZE" "zb_nwk_do_leave q rejoin s = Some (s', acts)"
    and "node_type s \<noteq> DEVICE_TYPE_ED" "p \<noteq> q" "ZB_NWK_IS_ADDRESS_BROADCAST (hdr_dst (bufs s p))"
    and "\<exists>e \<in> set (btt s). \<not> bt_used e"
  shows "brrt_cnt s' = 0 \<and> zb_nwk_forward p s' = None"
proof -
  note l = do_leave_tables [OF assms(3), of p]
  have "length (filter br_used (brrt s)) = length (brrt s)" using assms(1,2) by (simp add: tables_ok_def counted_def)
  then have used: "br_used (brrt s ! i)" if "i < length (brrt s)" for i
    using that by (metis length_filter_less nth_mem order_less_irrefl)
  have c: "nwk_calc_destination p (nsdu_handle s' p) s' = Some (RET_OK, ZB_NWK_BROADCAST_ALL_DEVICES, False, COMMAND_STATUS_NO_ROUTE_AVAILABLE, s', [])"
    using calc_broadcast l assms(4,5,6) by simp
  let ?b = "bufs s' p"
  obtain ok s2 acts2 where a: "(if ZB_NWK_IS_ADDRESS_BROADCAST (hdr_dst ?b) \<and> find_btr (hdr_src ?b) (hdr_seq ?b) s' = None
      then add_btr (hdr_src ?b) (hdr_seq ?b) s' else (True, s', [])) = (ok, s2, acts2)"
    by (metis prod_cases3)
  obtain i where "i < length (btt s')" "\<not> bt_used (btt s' ! i)" using assms(7) l by (metis in_set_conv_nth)
  then have "ok" using a bt.get_NoneD(3) [of "btt s'" "btt_cnt s'"]
    by (auto simp: add_btr_def split: if_split_asm option.splits prod.splits)
  have s2: "brrt s2 = brrt s" "brrt_cnt s2 = 0" "node_type s2 = node_type s"
    using a l by (auto simp: add_btr_def split: if_split_asm option.splits prod.splits)
  let ?s3 = "build_data_request p ZB_NWK_BROADCAST_ALL_DEVICES False s2"
  have s3: "brrt ?s3 = brrt s" "brrt_cnt ?s3 = 0" "node_type ?s3 = node_type s"
    using s2 by (simp_all add: build_data_request_def set_req_def)
  have "start_broadcast p ?s3 = None"
    using used br.get_SomeD(1,2) [of "brrt s" 0] by (auto simp: start_broadcast_def s3 split: option.splits prod.splits)
  moreover have "ZB_NWK_IS_ADDRESS_BROADCAST (hdr_dst ?b)" using l assms(5,6) by simp
  ultimately have "zb_nwk_forward p s' = None"
    unfolding zb_nwk_forward_def c option.case prod.case Let_def a using \<open>ok\<close> s3 assms(4)
    by (simp add: add_acts_def ZB_NWK_BRR_TABLE_SIZE_def)
  then show ?thesis using l by simp
qed

section \<open>Refused frames\<close>

text \<open>
  A router forwards a frame over its routes only if the frame has the discover-route flag. A frame without it, whose
  destination is not a neighbour, is dropped, even if there is an active route; the routing commands never have the flag.
\<close>

theorem frame_without_flag_is_not_routed:
  assumes "node_type s \<noteq> DEVICE_TYPE_ED" "\<not> ZB_NWK_IS_ADDRESS_BROADCAST (hdr_dst (bufs s p))"
    and "ZB_NWK_FRAMECTL_GET_DISCOVER_ROUTE (hdr_fctl (bufs s p)) = 0" "dest_neighbor (bufs s p) (node_ctx s) = Some (None, c)"
    and "zb_nwk_forward p s = Some (s', acts)"
  shows "acts = [Free p] \<or> acts = [Nlme_status_indication p COMMAND_STATUS_NO_ROUTING_CAPACITY (hdr_dst (bufs s p))]"
proof -
  have "nwk_calc_destination p (nsdu_handle s p) s =
      Some (RET_ERROR, hdr_dst (bufs s p), False, COMMAND_STATUS_NO_ROUTING_CAPACITY, set_ctx c s, [])"
    using assms(1-4) by (simp add: nwk_calc_destination_def Let_def)
  then show ?thesis
    using assms(5) by (auto simp: zb_nwk_forward_def forward_failed_def Let_def add_acts_def split: option.splits prod.splits)
qed

section \<open>Acknowledgements\<close>

text \<open>
  The vector of passive acknowledgements has one byte. Sending a repeated broadcast to the next sleeping child stops the program
  exactly when the child is not among the first eight neighbours of the table, which has room for 32.
\<close>

theorem child_behind_the_eighth_neighbour:
  assumes "p \<noteq> 0" "new_broadcast s = None" "next_unicast [0..<ZB_NWK_BRR_TABLE_SIZE] s = (Some (k, n), s1)"
  shows "nwk_broadcast_transmition p s = None \<longleftrightarrow> 8 \<le> n"
proof -
  have "ZB_NWK_BRCST_PASSIVE_ACK_ARRAY_SIZE = 1" by (simp add: ZB_NWK_BRCST_PASSIVE_ACK_ARRAY_SIZE_def ZB_NEIGHBOR_TABLE_SIZE_def)
  moreover have "transmit_entry p k (Some n) 0 s1 = None \<longleftrightarrow> set_passive_ack n (brrt s1 ! k) = None"
    by (auto simp: transmit_entry_def Let_def split: option.splits)
  ultimately show ?thesis
    using assms by (auto simp: nwk_broadcast_transmition_def set_passive_ack_def)
qed

section \<open>Confirmation of a leave\<close>

text \<open>
  The confirmation of a leave request always says success: the buffer is cleared before the status is read from it, so the higher
  layer never learns that the leave frame was not sent.
\<close>

theorem leave_confirm_says_success:
  assumes "zb_mcps_data_confirm p ZB_NWK_INTERNAL_LEAVE_CONFIRM_AT_DATA_CONFIRM_HANDLE s = Some (s', acts)"
  shows "\<exists>a. acts = [Leave_confirm p MAC_SUCCESS_STATUS a]"
  using assms
  by (auto simp: zb_mcps_data_confirm_def Let_def zb_buf_reuse_def hdr_zero_def set_buf_def MAC_SUCCESS_STATUS_def
      ZB_NWK_INTERNAL_LEAVE_CONFIRM_AT_DATA_CONFIRM_HANDLE_def ZB_NWK_INTERNAL_REJOIN_CMD_HANDLE_def
      ZB_NWK_INTERNAL_REJOIN_CMD_RESPONSE_def ZB_NWK_INTERNAL_LEAVE_IND_AT_DATA_CONFIRM_HANDLE_def
      split: option.split_asm prod.split_asm if_split_asm)

section \<open>Frames for the node and for others\<close>


section \<open>Owners of a buffer\<close>

text \<open>The actions that hand a buffer on or free it, and the frames that wait for a second buffer.\<close>

fun owns :: "nat \<Rightarrow> nwk_action \<Rightarrow> bool" where
  "owns p (Secur_act e) \<longleftrightarrow> e \<noteq> Get_buf_for_key_switch"
| "owns p (Forward q) \<longleftrightarrow> q = p"
| "owns p (Frame_indication q) \<longleftrightarrow> q = p"
| "owns p (Nlde_data_indication q) \<longleftrightarrow> q = p"
| "owns p (Nlme_status_indication q st a) \<longleftrightarrow> q = p"
| "owns p (Rejoin_request q) \<longleftrightarrow> q = p"
| "owns p (Rejoin_response q) \<longleftrightarrow> q = p"
| "owns p (Network_report q) \<longleftrightarrow> q = p"
| "owns p (Br_confirm q) \<longleftrightarrow> q = p"
| "owns p (Free q) \<longleftrightarrow> q = p"
| "owns p _ \<longleftrightarrow> False"

definition owners :: "nat \<Rightarrow> nwk_action list \<Rightarrow> nat" where
  "owners p as = length (filter (owns p) as)"

definition waits_for_buffer :: "nat \<Rightarrow> nwk_node \<Rightarrow> bool" where
  "waits_for_buffer p s \<longleftrightarrow> (\<exists>e \<in> set (wait_alloc s). wa_used e \<and> wa_buf e = p)"

lemma owners_simps [simp]:
  "owners p [] = 0" "owners p (a # as) = (if owns p a then Suc (owners p as) else owners p as)"
  "owners p (as @ bs) = owners p as + owners p bs"
  by (simp_all add: owners_def)

lemma check_counter_events:
  "check_counter i k fc m s = (ret, s') \<Longrightarrow>
     (ret = RET_OK \<and> events s' = events s) \<or> (ret \<noteq> RET_OK \<and> (\<exists>st a. events s' = events s @ [secur_event.Status_indication st a]))"
  by (auto simp: check_counter_def Let_def emit_def upd_nbe_def split: if_split_asm option.split_asm)

lemma decrypt_events:
  "unsecure_decrypt rnd i key hs aux m b s = Some (ret, b', s') \<Longrightarrow>
     (ret = RET_OK \<and> events s' = events s) \<or> (ret \<noteq> RET_OK \<and> (\<exists>st a. events s' = events s @ [secur_event.Status_indication st a]))"
  by (auto simp: unsecure_decrypt_def Let_def emit_def upd_nbe_def split: if_split_asm option.split_asm prod.split_asm)

lemma neighbor_events: "unsecure_neighbor src a m s = Some (ret, n, s') \<Longrightarrow> events s' = events s"
  by (auto simp: unsecure_neighbor_def Let_def split: if_split_asm option.split_asm prod.split_asm)

lemma unsecure_events:
  assumes "zb_nwk_unsecure_frame rnd b m s = Some (ret, b', s')"
  shows "(ret = RET_OK \<and> events s' = events s)
    \<or> (ret \<noteq> RET_OK \<and> (\<exists>e. events s' = events s @ [e] \<and> e \<noteq> Get_buf_for_key_switch))"
proof (cases "authenticated (keys s)")
  case False
  then show ?thesis using assms by (auto simp: zb_nwk_unsecure_frame_def emit_def)
next
  case True
  let ?p = "boff b" let ?hs = "zb_nwk_hdr_size (bytes_at (boff b) 2 b)" let ?aux = "boff b + zb_nwk_hdr_size (bytes_at (boff b) 2 b) - SIZEOF_AUX"
  let ?seq = "bytes b ! (?aux + 13)"
  obtain ret1 n s1 where n: "unsecure_neighbor (bytes_at (?aux + 5) 8 b) (letoh16 (bytes_at (?p + 4) 2 b)) m s = Some (ret1, n, s1)"
    using assms True by (auto simp: zb_nwk_unsecure_frame_def Let_def split: if_split_asm option.split_asm prod.split_asm)
  note e1 = neighbor_events [OF n]
  obtain ret2 s2 where c: "check_counter (the n) ?seq (letoh32 (bytes_at (?aux + 1) 4 b)) m s1 = (ret2, s2)" by force
  from assms True n c show ?thesis
    using check_counter_events [OF c] e1
    by (auto simp: zb_nwk_unsecure_frame_def Let_def emit_def split: if_split_asm dest!: decrypt_events)
qed

lemma checked_owner:
  assumes "indicate_checked rnd p m s = Some (s', acts)" "tables_ok s" "\<not> waits_for_buffer p s"
  shows "owners p acts + (if waits_for_buffer p s' then 1 else 0) = 1"
proof -
  let ?sec = "ZB_NWK_FRAMECTL_GET_SECURITY (hdr_fctl (bufs s p)) \<noteq> 0"
  obtain ret s1 acts1 where u: "(if ?sec
            then map_option (\<lambda>(ret, s1, acts). (ret, if ret = RET_OK
                     then set_buf p ((bufs s1 p)\<lparr>hdr := (hdr (bufs s1 p))\<lparr>encrypt_type := ZB_SECUR_NWK_ENCR\<rparr>\<rparr>) s1 else s1, acts))
                   (unsecure_buf rnd p m s)
            else Some (RET_OK, s, [])) = Some (ret, s1, acts1)"
    using assms(1) by (auto simp: indicate_checked_def Let_def split: option.splits)
  then have t1: "tabs s1 = tabs s" by (auto dest!: tabs_unsecure split: if_split_asm prod.splits)
  have o1: "owners p acts1 = (if ret = RET_OK then 0 else 1)"
    using u by (auto simp: unsecure_buf_def sec_view_def split: if_split_asm dest!: unsecure_events)
  have w: "waits_for_buffer p s2 = waits_for_buffer p s" if "tabs s2 = tabs s" for s2
    using that by (simp add: waits_for_buffer_def tabs_def)
  show ?thesis
  proof (cases "ret = RET_OK")
    case False
    then have "s' = s1 \<and> acts = acts1" using assms(1) unfolding indicate_checked_def Let_def u by simp
    with o1 w [OF t1] assms(3) False show ?thesis by simp
  next
    case True
    obtain b2 s3 what acts2 where s3: "update_lqi (hdr_src b2) (set_buf p b2 s1) = Some s3" and d: "dispatch_frame p what s3 = (s', acts2)"
      and acts: "acts = acts1 @ acts2"
      using assms(1) True unfolding indicate_checked_def Let_def u by (auto split: option.splits prod.splits)
    have t3: "tabs s3 = tabs s" using tabs_update_lqi [OF s3] t1 by simp
    have "owners p acts2 + (if waits_for_buffer p s' then 1 else 0) = 1"
    proof (cases "what = (True, True) \<and> fst (nwk_array_get_ent wa_used wa_mark (wait_alloc s3) (wait_alloc_cnt s3)) \<noteq> None")
      case False
      then have "tabs s' = tabs s \<and> owners p acts2 = 1"
        using d t3 by (auto simp: dispatch_frame_def split: prod.splits bool.splits option.splits)
      with w assms(3) show ?thesis by simp
    next
      case True
      then obtain i t c where g: "nwk_array_get_ent wa_used wa_mark (wait_alloc s3) (wait_alloc_cnt s3) = (Some i, t, c)"
        by (metis not_Some_eq prod.collapse)
      have "s' = s3\<lparr>wait_alloc := t[i := (t ! i)\<lparr>wa_buf := p\<rparr>], wait_alloc_cnt := c\<rparr>" "owners p acts2 = 0"
        using d True g by (auto simp: dispatch_frame_def)
      moreover have "t = (wait_alloc s3)[i := wa_mark True (wait_alloc s3 ! i)]" "i < length (wait_alloc s3)" using wa.get_SomeD(1,3) [OF g] by simp_all
      ultimately have "waits_for_buffer p s'" unfolding waits_for_buffer_def by (auto intro!: bexI set_update_memI)
      with \<open>owners p acts2 = 0\<close> show ?thesis by simp
    qed
    with acts o1 True show ?thesis by simp
  qed
qed

lemma guard_SomeD: "(if b then None else x) = Some y \<Longrightarrow> x = Some y"
  by (simp split: if_split_asm)

lemma passive_ack_owner:
  assumes "note_passive_ack m src q s = Some (s', acts)" "\<forall>e \<in> set (brrt s). br_used e \<longrightarrow> br_buf e \<noteq> p"
  shows "owners p acts = 0 \<and> wait_alloc s' = wait_alloc s"
proof -
  have nb: "br_buf e1 \<noteq> p" if "nwk_array_find_ent br_used P (brrt s) = Some k" "set_passive_ack n (brrt (set_ctx c s) ! k) = Some e1" for P k n c e1
    using br.find_SomeD [OF that(1)] that(2) assms(2) by (auto simp: set_passive_ack_def set_ctx_def on_mesh_def split: if_splits)
  show ?thesis
    using assms(1) by (auto simp: note_passive_ack_def Let_def set_ctx_def on_mesh_def set_br_def put_br_def nwk_array_put_ent_def
        split: option.split_asm prod.split_asm if_split_asm dest: nb [unfolded set_ctx_def on_mesh_def])
qed

lemma receive_owner:
  assumes "receive_broadcast m dst src q s = Some (ok, s', acts)" "\<forall>e \<in> set (brrt s). br_used e \<longrightarrow> br_buf e \<noteq> p"
  shows "owners p acts = 0 \<and> wait_alloc s' = wait_alloc s"
proof (cases "broadcast_for_us dst s")
  case False
  then show ?thesis using assms(1) by (simp add: receive_broadcast_def)
next
  case True
  obtain s1 acts1 where n: "note_passive_ack m src q s = Some (s1, acts1)"
    using assms(1) True by (auto simp: receive_broadcast_def split: option.splits)
  obtain ok2 s2 acts2 where a: "add_btr src q s1 = (ok2, s2, acts2)" by (cases "add_btr src q s1")
  have "owners p acts1 = 0 \<and> wait_alloc s1 = wait_alloc s" using passive_ack_owner [OF n assms(2)] .
  moreover have "owners p acts2 = 0 \<and> wait_alloc s2 = wait_alloc s1"
    using a by (auto simp: add_btr_def START_BTR_EXPIRY_def split: option.splits prod.splits)
  ultimately show ?thesis using assms(1) True n a by (auto simp: receive_broadcast_def split: if_split_asm)
qed

text \<open>
  C6: Every received frame keeps exactly one owner: its buffer is freed, goes up, is forwarded, becomes a status indication, or waits for
  a second buffer, and never two of these.
\<close>

theorem received_buffer_has_one_owner:
  assumes "zb_mcps_data_indication rnd p s = Some (s', acts)" "tables_ok s" "\<not> waits_for_buffer p s"
    and "\<forall>e \<in> set (brrt s). br_used e \<longrightarrow> br_buf e \<noteq> p"
  shows "owners p acts + (if waits_for_buffer p s' then 1 else 0) = 1"
proof -
  obtain m n b where m: "zb_parse_mhr (drop (boff (bufs s p)) (bytes (bufs s p))) = Some (m, n)" "ZB_MAC_CUT_HDR n (bufs s p) = Some b"
    using assms(1) by (auto simp: zb_mcps_data_indication_def split: option.splits)
  let ?s1 = "set_buf p b s"
  have s1: "tables_ok ?s1" "\<not> waits_for_buffer p ?s1" "brrt ?s1 = brrt s"
    using assms(2,3) keeps_tabs [of ?s1 s] by (simp_all add: keeps_def waits_for_buffer_def) (simp_all add: set_buf_def)
  let ?type = "ZB_NWK_FRAMECTL_GET_FRAME_TYPE (hdr_fctl b)"
  let ?bad = "hdr_radius b = 0 \<or> ?type \<noteq> ZB_NWK_FRAME_TYPE_COMMAND \<and> ?type \<noteq> ZB_NWK_FRAME_TYPE_DATA"
  let ?brd = "ZB_NWK_IS_ADDRESS_BROADCAST (hdr_dst b)" let ?r = "receive_broadcast m (hdr_dst b) (hdr_src b) (hdr_seq b) ?s1"
  have e: "(if ?bad then Some (?s1, [Free p])
      else if ?brd then (case ?r of None \<Rightarrow> None
        | Some (ok, s2, x) \<Rightarrow> if ok then add_acts x (indicate_checked rnd p m s2) else Some (s2, x @ [Free p]))
      else indicate_checked rnd p m ?s1) = Some (s', acts)"
    using assms(1) unfolding zb_mcps_data_indication_def m option.case prod.case Let_def by (rule guard_SomeD)
  consider (free) "?bad" | (unicast) "\<not> ?bad" "\<not> ?brd" | (broadcast) "\<not> ?bad" "?brd" by blast
  then show ?thesis
  proof cases
    case free
    have "s' = ?s1 \<and> acts = [Free p]" using e unfolding if_P [OF free] by simp
    then show ?thesis using s1 by simp
  next
    case unicast
    have "indicate_checked rnd p m ?s1 = Some (s', acts)" using e unfolding if_not_P [OF unicast(1)] if_not_P [OF unicast(2)] .
    then show ?thesis using checked_owner s1 by blast
  next
    case broadcast
    have "(case ?r of None \<Rightarrow> None
        | Some (ok, s2, x) \<Rightarrow> if ok then add_acts x (indicate_checked rnd p m s2) else Some (s2, x @ [Free p])) = Some (s', acts)"
      using e unfolding if_not_P [OF broadcast(1)] if_P [OF broadcast(2)] .
    then obtain ok s2 x where broadcast: "?r = Some (ok, s2, x)"
        "if ok then \<exists>y. indicate_checked rnd p m s2 = Some (s', y) \<and> acts = x @ y else s' = s2 \<and> acts = x @ [Free p]"
      by (cases ?r) (auto simp: add_acts_iff split: if_split_asm)
    have t2: "tables_ok s2" using keeps_receive [OF broadcast(1)] s1(1) by (simp add: keeps_def)
    have x: "owners p x = 0 \<and> wait_alloc s2 = wait_alloc ?s1" using receive_owner [OF broadcast(1)] assms(4) s1(3) by simp
    then have w: "\<not> waits_for_buffer p s2" using s1(2) by (simp add: waits_for_buffer_def)
    show ?thesis
    proof (cases ok)
      case True
      then obtain y where y: "indicate_checked rnd p m s2 = Some (s', y)" "acts = x @ y" using broadcast(2) by auto
      then show ?thesis using checked_owner [OF y(1) t2 w] x by simp
    next
      case False
      then show ?thesis using broadcast(2) x w by simp
    qed
  qed
qed

text \<open>
  Of the other frames for this node, everything but the network update hands its buffer on: an update for the own network is
  read and its buffer is lost.
\<close>

theorem network_update_loses_its_buffer:
  assumes "ZB_NWK_FRAMECTL_GET_FRAME_TYPE (hdr_fctl (bufs s p)) = ZB_NWK_FRAME_TYPE_DATA
      \<or> ZB_NWK_FRAMECTL_GET_FRAME_TYPE (hdr_fctl (bufs s p)) = ZB_NWK_FRAME_TYPE_COMMAND
        \<and> cmd_id (bufs s p) \<notin> {ZB_NWK_CMD_LEAVE, ZB_NWK_CMD_ROUTE_REQUEST, ZB_NWK_CMD_ROUTE_REPLY}"
    and "nwk_frame_indication p s = Some (s', acts)"
  shows "owners p acts = (if ZB_NWK_FRAMECTL_GET_FRAME_TYPE (hdr_fctl (bufs s p)) = ZB_NWK_FRAME_TYPE_COMMAND
      \<and> cmd_id (bufs s p) = ZB_NWK_CMD_NETWORK_UPDATE \<and> report_for_us (bufs s p) s then 0 else 1)"
  using assms by (auto simp: nwk_frame_indication_def Let_def nwk_cmds ZB_NWK_FRAME_TYPE_DATA_def ZB_NWK_FRAME_TYPE_COMMAND_def split: if_split_asm)

section \<open>Samples\<close>

definition sample_buf :: "u8 list \<Rightarrow> zb_buf" where
  "sample_buf data = \<lparr>hdr = hdr_zero\<lparr>data_offset := 40, h_len := length data\<rparr>, bytes = replicate 40 0 @ data @ replicate (108 - length data) 0\<rparr>"

definition no_btr :: zb_nwk_btr where
  "no_btr = \<lparr>bt_used = False, bt_expiration_time = 0, bt_source_addr = 0, bt_sequence_number = 0\<rparr>"

definition no_br :: zb_nwk_broadcast_retransmit where
  "no_br = \<lparr>br_used = False, br_retries = 0, br_buf = 0, br_neighbor_table_iterator = NO_INDEX, br_next_retransmit = 0,
     br_src_addr = 0, br_dst_addr = 0, br_seq_num = 0, br_passive_ack = [0]\<rparr>"

text \<open>A router that has just joined; its buffers hold the given frame.\<close>

definition sample_nwk :: "u8 list \<Rightarrow> nwk_node" where
  "sample_nwk data = \<lparr>mesh = sample_node 1, bufs = (\<lambda>_. sample_buf data), nsdu_handle = (\<lambda>_. 0),
     data_req = (\<lambda>_. \<lparr>dr_src_addr = 0, dr_dst_addr = 0, dr_tx_options = 0, dr_msdu_handle = 0\<rparr>),
     node_keys = \<lparr>secur_material_set = [], active_secur_material_i = 0, active_key_seq_number = 0, outgoing_frame_counter = 0,
       prev_outgoing_frame_counter = 0, is_tc = False, authenticated = False, trust_center_address = replicate 8 0\<rparr>, own_ieee = replicate 8 0, secure_all_frames = True, extended_pan_id = replicate 8 0,
     joined = True, joined_pro = False, rejoining = False, rx_on_when_idle = True, use_tree_routing = True, timer = 0,
     btt = replicate 16 no_btr, btt_cnt = 0, brrt = replicate 8 no_br, brrt_cnt = 0,
     wait_alloc = replicate 5 \<lparr>wa_used = False, wa_buf = 0\<rparr>, wait_alloc_cnt = 0, ind_status = 0, ind_addr = 0,
     rejoin_after_leave = False, leave_ind_prnt = (0, False)\<rparr>"

lemma sample_nwk_ok: "tables_ok (sample_nwk data)"
  by (simp add: tables_ok_def sample_nwk_def counted_def no_btr_def no_br_def ZB_NWK_BTR_TABLE_SIZE_def ZB_NWK_BRR_TABLE_SIZE_def
      ZB_NWK_WAIT_ALLOC_TABLE_SIZE_def)


lemma sample_receive:
  "\<exists>s1 acts. receive_broadcast m 0xffff 7 3 (sample_nwk []) = Some (True, s1, acts)"
proof -
  have "note_passive_ack m 7 3 (sample_nwk []) = Some (sample_nwk [], [])"
    by (simp add: note_passive_ack_def sample_nwk_def nwk_array_find_ent_def no_br_def upt_rec)
  moreover have "find_btr 7 3 (sample_nwk []) = None"
    by (simp add: find_btr_def sample_nwk_def nwk_array_find_ent_def no_btr_def upt_rec)
  moreover have "\<exists>s1 acts. add_btr 7 3 (sample_nwk []) = (True, s1, acts)"
    by (simp add: add_btr_def sample_nwk_def nwk_array_get_ent_def no_btr_def upt_rec)
  ultimately show ?thesis by (auto simp: receive_broadcast_def broadcast_for_us_def ZB_NWK_BROADCAST_ALL_DEVICES_def)
qed

definition sample_mac :: zb_mac_mhr where
  "sample_mac = \<lparr>frame_control = [1, 0], seq_number = 5, dst_pan_id = 0, dst_addr = replicate 8 0, src_pan_id = 0, src_addr = replicate 8 0\<rparr>"

theorem broadcast_is_taken_once_witness:
  "\<exists>s1 acts. receive_broadcast sample_mac 0xffff 7 3 (sample_nwk []) = Some (True, s1, acts)
    \<and> (\<forall>ok s3 acts'. receive_broadcast sample_mac 0xffff 7 3 s1 = Some (ok, s3, acts') \<longrightarrow> \<not> ok)"
proof -
  obtain s1 acts where r: "receive_broadcast sample_mac 0xffff 7 3 (sample_nwk []) = Some (True, s1, acts)" using sample_receive by blast
  with broadcast_is_taken_once [OF sample_nwk_ok r nwk_run.start] show ?thesis by blast
qed


definition full_node :: nwk_node where
  "full_node = (sample_nwk [8, 0, 0xfd, 0xff, 1, 0, 9, 4])\<lparr>brrt := replicate 8 (no_br\<lparr>br_used := True\<rparr>), brrt_cnt := 8\<rparr>"

theorem leave_keeps_used_entries_witness:
  "\<exists>s' acts. zb_nwk_do_leave 3 True full_node = Some (s', acts) \<and> brrt_cnt s' = 0 \<and> zb_nwk_forward 2 s' = None"
proof -
  have "tables_ok full_node" using sample_nwk_ok [of "[8, 0, 0xfd, 0xff, 1, 0, 9, 4]"]
    by (simp add: full_node_def tables_ok_def counted_def no_br_def ZB_NWK_BRR_TABLE_SIZE_def)
  moreover have "ZB_NWK_IS_ADDRESS_BROADCAST (hdr_dst (bufs full_node 2))"
    by (simp add: full_node_def sample_nwk_def sample_buf_def hdr_zero_def hdr_dst_def bytes_at_def letoh16_def ZB_NWK_IS_ADDRESS_BROADCAST_def)
  moreover have "node_type full_node \<noteq> DEVICE_TYPE_ED" "\<exists>e \<in> set (btt full_node). \<not> bt_used e" "unat (brrt_cnt full_node) = ZB_NWK_BRR_TABLE_SIZE"
    by (simp_all add: full_node_def sample_nwk_def sample_node_def no_btr_def ZB_NWK_BRR_TABLE_SIZE_def)
  moreover obtain s' acts where "zb_nwk_do_leave 3 True full_node = Some (s', acts)" by (simp add: zb_nwk_do_leave_def Let_def)
  ultimately show ?thesis using leave_keeps_used_entries [of full_node 3 True s' acts 2] by auto
qed

text \<open>A frame for the node 9 without the flag, on the node 1 that has no neighbours.\<close>

theorem frame_without_flag_is_not_routed_witness:
  "\<exists>s' acts. zb_nwk_forward 2 (sample_nwk [8, 0, 9, 0, 1, 0, 9, 4]) = Some (s', acts)
    \<and> (acts = [Free 2] \<or> acts = [Nlme_status_indication 2 COMMAND_STATUS_NO_ROUTING_CAPACITY 9])"
proof -
  let ?s = "sample_nwk [8, 0, 9, 0, 1, 0, 9, 4]"
  have f: "hdr_dst (bufs ?s 2) = 9" "hdr_fctl (bufs ?s 2) = [8, 0]" "node_type ?s \<noteq> DEVICE_TYPE_ED"
    by (simp_all add: sample_nwk_def sample_buf_def hdr_zero_def hdr_dst_def hdr_fctl_def bytes_at_def letoh16_def sample_node_def)
  have c: "addr (node_ctx ?s) = addr_zero" by (simp add: sample_nwk_def sample_cost)
  have d: "dest_neighbor (bufs ?s 2) (node_ctx ?s) = Some (None, node_ctx ?s)"
    by (simp add: dest_neighbor_def f framectl_defs c zb_address_by_short_def short_search_def lock_if_def addr_zero_def)
  have "zb_nwk_forward 2 ?s \<noteq> None"
    by (simp add: zb_nwk_forward_def nwk_calc_destination_def Let_def f d framectl_defs ZB_NWK_IS_ADDRESS_BROADCAST_def forward_failed_def
      sample_by_short set_ctx_def on_mesh_def upd_tree_def c add_acts_def)
  then obtain s' acts where "zb_nwk_forward 2 ?s = Some (s', acts)" by auto
  with frame_without_flag_is_not_routed [OF f(3) _ _ d this] f show ?thesis by (simp add: framectl_defs ZB_NWK_IS_ADDRESS_BROADCAST_def)
qed

text \<open>A repeated broadcast whose next child is the tenth neighbour.\<close>

definition repeating_node :: nwk_node where
  "repeating_node = (sample_nwk [8, 0, 0xff, 0xff, 1, 0, 9, 4])
     \<lparr>brrt := no_br\<lparr>br_used := True, br_retries := 1, br_neighbor_table_iterator := 9\<rparr> # replicate 7 no_br, brrt_cnt := 1\<rparr>"

theorem child_behind_the_eighth_neighbour_witness:
  "nwk_broadcast_transmition 3 repeating_node = None"
proof -
  have "new_broadcast repeating_node = None"
    by (simp add: new_broadcast_def repeating_node_def no_br_def ZB_NWK_BRR_TABLE_SIZE_def upt_rec nth_Cons')
  moreover have "hdr_src (bufs repeating_node b) = 1" for b
    by (simp add: repeating_node_def sample_nwk_def sample_buf_def hdr_zero_def hdr_src_def bytes_at_def letoh16_def)
  moreover have "zb_address_short_by_ref (nb_addr_ref (base_neighbor (neighbor (node_ctx repeating_node)) ! 9)) (addr (node_ctx repeating_node)) \<noteq> 1"
    by (simp add: repeating_node_def sample_nwk_def sample_node_def sample_tree_def zb_nwk_neighbor_clear_def zb_nwk_neighbor_init_def nb_zero_def ent_zero_def ZB_NEIGHBOR_TABLE_SIZE_def
      zb_address_short_by_ref_def addr_zero_def)
  moreover have "br_used (brrt repeating_node ! 0)" "br_neighbor_table_iterator (brrt repeating_node ! 0) = 9" "NO_INDEX \<noteq> 9"
    by (simp_all add: repeating_node_def NO_INDEX_def)
  ultimately have n: "new_broadcast repeating_node = None" "next_unicast (0 # ks) repeating_node = (Some (0, 9), repeating_node)" for ks
    by (simp_all add: Let_def del: One_nat_def)
  have "[0..<ZB_NWK_BRR_TABLE_SIZE] = 0 # [1..<ZB_NWK_BRR_TABLE_SIZE]" by (simp add: ZB_NWK_BRR_TABLE_SIZE_def upt_rec)
  with n show ?thesis using child_behind_the_eighth_neighbour [of 3 repeating_node 0 9 repeating_node] by simp
qed

lemma sample_parse: "zb_parse_mhr ([1, 0, 5] @ r) = Some (sample_mac, 3)"
  by (simp add: zb_parse_mhr_def get_bytes_def parse_dst_def parse_src_def ZB_FCF_GET_DST_ADDRESSING_MODE_def ZB_FCF_GET_SRC_ADDRESSING_MODE_def
    mac_modes Let_def sample_mac_def)

text \<open>A leave frame to the node 9 that was not sent.\<close>

definition leaving_node :: nwk_node where
  "leaving_node = set_buf 2 ((sample_buf [1, 0, 5])\<lparr>hdr := (hdr (sample_buf [1, 0, 5]))\<lparr>status := 0xe9\<rparr>\<rparr>) (sample_nwk [])"

theorem leave_confirm_says_success_witness:
  "\<exists>s' a. zb_mcps_data_confirm 2 ZB_NWK_INTERNAL_LEAVE_CONFIRM_AT_DATA_CONFIRM_HANDLE leaving_node = Some (s', [Leave_confirm 2 MAC_SUCCESS_STATUS a])
     \<and> status (hdr (bufs leaving_node 2)) \<noteq> MAC_SUCCESS_STATUS"
proof -
  have m: "zb_parse_mhr (drop (boff (bufs leaving_node 2)) (bytes (bufs leaving_node 2))) = Some (sample_mac, 3)"
    using sample_parse [of "replicate 105 0"] by (simp add: leaving_node_def set_buf_def sample_buf_def hdr_zero_def)
  have "zb_address_ieee_by_short a (addr (node_ctx (set_buf p b leaving_node))) \<noteq> None" for a p b
    by (simp add: leaving_node_def set_buf_def sample_nwk_def sample_cost zb_address_ieee_by_short_def zb_address_by_short_def short_search_def
      lock_if_def addr_zero_def)
  with m have "zb_mcps_data_confirm 2 ZB_NWK_INTERNAL_LEAVE_CONFIRM_AT_DATA_CONFIRM_HANDLE leaving_node \<noteq> None"
    by (simp add: zb_mcps_data_confirm_def Let_def ZB_NWK_INTERNAL_LEAVE_CONFIRM_AT_DATA_CONFIRM_HANDLE_def ZB_NWK_INTERNAL_REJOIN_CMD_HANDLE_def
      ZB_NWK_INTERNAL_REJOIN_CMD_RESPONSE_def ZB_NWK_INTERNAL_LEAVE_IND_AT_DATA_CONFIRM_HANDLE_def del: not_None_eq)
  then obtain s' acts where "zb_mcps_data_confirm 2 ZB_NWK_INTERNAL_LEAVE_CONFIRM_AT_DATA_CONFIRM_HANDLE leaving_node = Some (s', acts)" by auto
  with leave_confirm_says_success [OF this] show ?thesis
    by (auto simp: leaving_node_def set_buf_def sample_buf_def MAC_SUCCESS_STATUS_def)
qed


text \<open>A data frame for this node, with a MAC header without addresses and the trailer.\<close>

definition received_node :: nwk_node where
  "received_node = sample_nwk ([1, 0, 5] @ [8, 0, 1, 0, 7, 0, 5, 3] @ replicate 11 0)"

lemma received_sample: "\<exists>s'. zb_mcps_data_indication [] 2 received_node = Some (s', [Frame_indication 2])"
proof -
  have m: "zb_parse_mhr (drop (boff (bufs received_node 2)) (bytes (bufs received_node 2))) = Some (sample_mac, 3)"
    using sample_parse by (simp add: received_node_def sample_nwk_def sample_buf_def hdr_zero_def)
  obtain b where b: "ZB_MAC_CUT_HDR 3 (bufs received_node 2) = Some b" "buf_ok b" "payload b = nwk_header [8, 0] 1 7 5 3 @ []" "boff b = 43"
    by (simp add: ZB_MAC_CUT_HDR_def zb_buf_cut_right_def zb_buf_cut_left_def received_node_def sample_nwk_def sample_buf_def hdr_zero_def
      ZB_TAIL_SIZE_FOR_RECEIVED_MAC_FRAME_def set_len_def set_off_def Let_def buf_ok_def payload_def nwk_header_def htole16_def ZB_IO_BUF_SIZE_def)
  obtain b2 where b2: "put_radius 4 b = Some b2" "buf_ok b2" "payload b2 = nwk_header [8, 0] 1 7 4 3 @ []"
    by (rule put_header_byte [OF b(2,3), of 4]) simp_all
  note f = header_fields [OF b(2,3)] header_fields [OF b2(2,3)]
  have u: "update_lqi a (set_buf 2 x (set_buf 2 y received_node)) = Some (set_buf 2 x (set_buf 2 y received_node))" for a x y
    by (simp add: update_lqi_def received_node_def sample_nwk_def set_buf_def sample_cost sample_by_short set_ctx_def on_mesh_def upd_tree_def)
  have n: "node_type (set_buf 2 x (set_buf 2 y received_node)) = DEVICE_TYPE_ROUTER" "node_addr (set_buf 2 x (set_buf 2 y received_node)) = 1"
      "bufs (set_buf 2 y received_node) 2 = y" for x y
    by (simp_all add: received_node_def sample_nwk_def set_buf_def sample_node_def)
  have d: "decide_frame b2 (set_buf 2 b2 (set_buf 2 b received_node)) = (True, False)"
    by (simp add: decide_frame_def Let_def f n ZB_NWK_IS_ADDRESS_BROADCAST_def)
  have "indicate_checked [] 2 sample_mac (set_buf 2 b received_node) = Some (set_buf 2 b2 (set_buf 2 b received_node), [Frame_indication 2])"
    by (simp add: indicate_checked_def Let_def n f b2(1) u d dispatch_frame_def ZB_NWK_FRAMECTL_GET_SECURITY_def)
  then show ?thesis
    using b(4) by (simp add: zb_mcps_data_indication_def m b(1) Let_def f framectl_defs ZB_IO_BUF_SIZE_def ZB_NWK_IS_ADDRESS_BROADCAST_def)
qed

theorem received_buffer_has_one_owner_witness:
  "\<exists>s' acts. zb_mcps_data_indication [] 2 received_node = Some (s', acts)
     \<and> owners 2 acts + (if waits_for_buffer 2 s' then 1 else 0) = 1"
proof -
  obtain s' where r: "zb_mcps_data_indication [] 2 received_node = Some (s', [Frame_indication 2])" using received_sample by blast
  have "tables_ok received_node" "\<not> waits_for_buffer 2 received_node" "\<forall>e \<in> set (brrt received_node). br_used e \<longrightarrow> br_buf e \<noteq> 2"
    using sample_nwk_ok by (simp_all add: received_node_def) (simp_all add: sample_nwk_def waits_for_buffer_def no_br_def)
  with received_buffer_has_one_owner [OF r] r show ?thesis by blast
qed

text \<open>A network update for the network with the identifier 0.\<close>

theorem network_update_loses_its_buffer_witness:
  "\<exists>acts. nwk_frame_indication 2 (sample_nwk ([9, 0, 1, 0, 7, 0, 5, 3] @ [10, 0] @ replicate 11 0)) =
      Some (sample_nwk ([9, 0, 1, 0, 7, 0, 5, 3] @ [10, 0] @ replicate 11 0), acts) \<and> owners 2 acts = 0"
proof -
  define s where "s = sample_nwk ([9, 0, 1, 0, 7, 0, 5, 3] @ [10, 0] @ replicate 11 0)"
  have f: "hdr_fctl (bufs s 2) = [9, 0]" by (simp add: s_def sample_nwk_def sample_buf_def hdr_zero_def hdr_fctl_def bytes_at_def)
  have h: "zb_nwk_hdr_size [9, 0] = 8" by (simp add: zb_nwk_hdr_size_def ZB_NWK_SHORT_HDR_SIZE_def)
  have c: "cmd_id (bufs s 2) = 10" unfolding cmd_id_def f h by (simp add: s_def sample_nwk_def sample_buf_def hdr_zero_def nth_append)
  have r: "report_for_us (bufs s 2) s"
    unfolding report_for_us_def cmd_fields_def f h by (simp add: s_def sample_nwk_def sample_buf_def hdr_zero_def bytes_at_def Let_def)
  have "nwk_frame_indication 2 s = Some (s, [Network_update (cmd_fields 12 (bufs s 2))])"
    unfolding nwk_frame_indication_def Let_def c f by (simp add: nwk_cmds framectl_defs r)
  with network_update_loses_its_buffer [OF _ this] f c r show ?thesis unfolding s_def [symmetric] by (auto simp: nwk_cmds framectl_defs)
qed

end
