(* ===== verification/Mac_Node.thy ===== *)
theory Mac_Node
  imports Mac_Fcs Nwk_Node Scheduler "HOL-Library.Monad_Syntax"
begin

text \<open>
  The state of the MAC layer, \<^verbatim>\<open>include/zb_mac_globals.h\<close> and the attributes of \<^verbatim>\<open>include/zb_mac.h\<close>, the transport of the
  simulator build, acknowledgements, and the queue of frames that wait until their receiver asks for them,
  \<^verbatim>\<open>mac/mac_routines.c\<close>. A handler maps the state to the state after it, \<open>None\<close> when the program stops; what it asks others
  to do is appended to \<open>macts\<close>. Parameters in the tail of a buffer stand beside the buffers. The frames that the pipe will
  deliver, each with the buffer that \<^verbatim>\<open>zb_get_in_buf\<close> gives for it, are \<open>rx_q\<close>.
\<close>

section \<open>State\<close>

definition ZB_MAC_PENDING_QUEUE_SIZE :: nat where "ZB_MAC_PENDING_QUEUE_SIZE = ZB_IOBUF_POOL_SIZE div 4"
definition ZB_MAC_MAX_REQUESTS :: nat where "ZB_MAC_MAX_REQUESTS = 10"
definition ZB_MAC_EXTRA_DATA_SIZE :: nat where "ZB_MAC_EXTRA_DATA_SIZE = 9"
definition ZB_MAC_TRANSACTION_PERSISTENCE_TIME :: zb_time where "ZB_MAC_TRANSACTION_PERSISTENCE_TIME = 0x01f4"
definition ZB_MAC_RESPONSE_WAIT_TIME :: zb_time where "ZB_MAC_RESPONSE_WAIT_TIME = 64"
definition ZB_MAX_FRAME_TOTAL_WAIT_TIME :: zb_time where "ZB_MAX_FRAME_TOTAL_WAIT_TIME = 800"
definition ZB_TURN_OFF_ORDER :: u8 where "ZB_TURN_OFF_ORDER = 15"
definition ZB_BROADCAST_PAN_ID :: u16 where "ZB_BROADCAST_PAN_ID = 0xFFFF"
definition ZB_MAC_SHORT_ADDR_NO_VALUE :: u16 where "ZB_MAC_SHORT_ADDR_NO_VALUE = 0xFFFF"
definition ZB_MAC_SHORT_ADDR_NOT_ALLOCATED :: u16 where "ZB_MAC_SHORT_ADDR_NOT_ALLOCATED = 0xFFFE"

definition MAC_SUCCESS :: u8 where "MAC_SUCCESS = 0"
definition MAC_INVALID_PARAMETER :: u8 where "MAC_INVALID_PARAMETER = 0xe8"
definition MAC_NO_ACK :: u8 where "MAC_NO_ACK = 0xe9"
definition MAC_NO_BEACON :: u8 where "MAC_NO_BEACON = 0xea"
definition MAC_NO_DATA :: u8 where "MAC_NO_DATA = 0xeb"
definition MAC_NO_SHORT_ADDRESS :: u8 where "MAC_NO_SHORT_ADDRESS = 0xec"
definition MAC_TRANSACTION_EXPIRED :: u8 where "MAC_TRANSACTION_EXPIRED = 0xf0"
definition MAC_TRANSACTION_OVERFLOW :: u8 where "MAC_TRANSACTION_OVERFLOW = 0xf1"

text \<open>The status that the buffer of a sent frame has, \<^verbatim>\<open>RET_BUSY\<close>.\<close>

definition RET_BUSY_status :: u16 where "RET_BUSY_status = - 4"

datatype zb_callback_type = MAC_ASS_CONFIRM_CALLBACK | MAC_POLL_REQUEST_CALLBACK

text \<open>The functions that wait for the end of a transmission, and those in the queue for the transmitter.\<close>

datatype mac_wait = Mcps_data_req_continue | Data_request_cmd_continue | Association_req_continue | Orphan_response_continue

datatype mac_tx = Handle_mcps_data_req | Accept_data_request_cmd | Handle_beacon_req | Handle_poll_request | Handle_orphan_response

datatype mac_alarm = Pending_data_timeout nat | Ack_timeout | Indirect_data_timeout zb_callback_type | Resp_timeout | Scan_step

datatype mac_callback =
    Handle_data_frame | Command_accept | Accept_ass_request_cmd | Handle_scan_request | Scan_step_cb | Check_fails

datatype mac_action =
    M_sent "u8 list"
  | M_call mac_callback nat
  | M_free nat
  | M_alarm mac_alarm zb_time
  | M_cancel mac_alarm
  | M_cancel_indirect
  | M_out_buf_delayed
  | Mcps_confirm nat
  | Mcps_indication nat
  | Comm_status_indication nat u8 u8 ieee u8 ieee
  | Poll_confirm nat
  | Associate_confirm nat u16 u8 ieee
  | Associate_indication nat ieee u8 u8
  | Beacon_notify nat
  | Orphan_indication nat ieee
  | Scan_confirm nat u8 u8
  | Start_confirm nat
  | Reset_confirm nat
  | Get_confirm nat
  | Set_confirm nat

record zb_mac_pending_data =
  pd_data :: "nat option"
  pd_dst_addr_mode :: u8
  pd_dst_addr :: ieee

text \<open>
  What \<^verbatim>\<open>zb_handle_data_request_cmd\<close> leaves for its continuation. The pointers into the frame are the number of its buffer and
  the position in it.
\<close>

record zb_mac_data_req_storage =
  ds_fcf :: "nat \<times> nat"
  ds_cmd_ptr :: "nat \<times> nat"
  ds_mhr_pend_len :: nat
  ds_data_found_index :: nat
  ds_mhr_pend :: zb_mac_mhr

record zb_mlme_poll_request =
  pq_coord_addr_mode :: u8
  pq_coord_addr :: ieee

record zb_mlme_associate_params =
  ap_pan_id :: u16
  ap_coord_addr :: ieee
  ap_coord_addr_mode :: u8
  ap_logical_channel :: u8
  ap_capability :: u8

record zb_mlme_scan_params =
  sp_scan_type :: u8
  sp_scan_duration :: nat
  sp_channels :: u32

record zb_mac_pib =
  mac_ack_wait_duration :: u16
  mac_association_permit :: u8
  mac_batt_life_ext :: u8
  mac_beacon_payload :: "u8 list"
  mac_beacon_payload_length :: u8
  mac_beacon_order :: u8
  mac_bsn :: u8
  mac_coord_extended_address :: ieee
  mac_coord_short_address :: u16
  mac_dsn :: u8
  mac_pan_id :: u16
  mac_rx_on_when_idle :: u8
  mac_short_address :: u16
  mac_superframe_order :: u16
  mac_max_frame_retries :: u8
  phy_current_page :: u8
  phy_current_channel :: u8
  mac_extended_address :: ieee

text \<open>
  \<open>rt_ctx\<close> are the bytes of the union of the same name: byte 0 is \<^verbatim>\<open>orphan_scan.got_realignment\<close>, byte 1
  \<^verbatim>\<open>active_scan.beacon_found\<close>, bytes 0 to 3, 4 to 7 and 8 are \<^verbatim>\<open>cb_type\<close>, \<^verbatim>\<open>cb_status\<close> and \<^verbatim>\<open>buf_ref\<close> of
  \<^verbatim>\<open>indirect_data\<close>.
\<close>

record mac_node =
  mbufs :: "nat \<Rightarrow> zb_buf"
  mcps_req :: "nat \<Rightarrow> zb_mcps_data_req"
  poll_params :: "nat \<Rightarrow> zb_mlme_poll_request"
  ass_params :: "nat \<Rightarrow> zb_mlme_associate_params"
  scan_params :: "nat \<Rightarrow> zb_mlme_scan_params"
  operation_buf :: nat
  encryption_buf :: nat
  pending_buf :: "nat option"
  tx_cnt :: u8
  tx_wait_cb :: "mac_wait option"
  tx_wait_cb_arg :: nat
  data_req_storage :: zb_mac_data_req_storage
  out_q :: "nat ring"
  tx_q :: "mac_tx zb_cb_q_ent ring"
  mac_status :: u8
  dev_type_ffd :: bool
  current_channel :: u8
  mac_flags :: u8
  ack_dsn :: u8
  retry_counter :: u8
  mlme_scan_in_progress :: bool
  ed_scan_step_passed :: bool
  unscanned_channels :: u32
  rt_ctx :: "u8 list"
  pending_data_queue :: "zb_mac_pending_data list"
  pib :: zb_mac_pib
  mac_sec :: nwk_sec
  mac_joined_pro :: bool
  designated_coordinator :: bool
  nwk_tx_total :: u16
  nwk_tx_fail :: u16
  mcps_confirm_handle :: "nat \<Rightarrow> u8"
  checks_fails :: bool
  poll_request_flag :: bool
  rx_q :: "(nat \<times> u8 list) list"
  macts :: "mac_action list"

definition emit_m :: "mac_action \<Rightarrow> mac_node \<Rightarrow> mac_node" where
  "emit_m a s = s\<lparr>macts := macts s @ [a]\<rparr>"

definition set_mbuf :: "nat \<Rightarrow> zb_buf \<Rightarrow> mac_node \<Rightarrow> mac_node" where
  "set_mbuf p b s = s\<lparr>mbufs := (mbufs s)(p := b)\<rparr>"

definition on_pib :: "(zb_mac_pib \<Rightarrow> zb_mac_pib) \<Rightarrow> mac_node \<Rightarrow> mac_node" where
  "on_pib f s = s\<lparr>pib := f (pib s)\<rparr>"

definition mac_buf_status :: "nat \<Rightarrow> u16 \<Rightarrow> mac_node \<Rightarrow> mac_node" where
  "mac_buf_status p st s = set_mbuf p ((mbufs s p)\<lparr>hdr := (hdr (mbufs s p))\<lparr>status := st\<rparr>\<rparr>) s"

text \<open>The memory of a buffer from its first used byte on, which the parser of the header reads.\<close>

definition mem_from :: "nat \<Rightarrow> zb_buf \<Rightarrow> u8 list" where
  "mem_from k b = drop k (bytes b)"

definition buf_mhr :: "zb_buf \<Rightarrow> (zb_mac_mhr \<times> nat) option" where
  "buf_mhr b = zb_parse_mhr (mem_from (boff b) b)"

definition tail_fits :: "nat \<Rightarrow> zb_buf \<Rightarrow> bool" where
  "tail_fits n b \<longleftrightarrow> zb_get_buf_tail b n \<noteq> None"

definition assert_that :: "bool \<Rightarrow> unit option" where
  "assert_that b = (if b then Some () else None)"

section \<open>Flags\<close>

definition ZB_MAC_ACK_TIMEOUT_MASK :: u8 where "ZB_MAC_ACK_TIMEOUT_MASK = 0x1"
definition ZB_MAC_ACK_OK_MASK :: u8 where "ZB_MAC_ACK_OK_MASK = 0x2"
definition ZB_MAC_ACK_FAIL_MASK :: u8 where "ZB_MAC_ACK_FAIL_MASK = 0x4"
definition ZB_MAC_PEND_DATA_MASK :: u8 where "ZB_MAC_PEND_DATA_MASK = 0x10"
definition ZB_MAC_ASS_REQUEST_MASK :: u8 where "ZB_MAC_ASS_REQUEST_MASK = 0x20"
definition ZB_MAC_INDIRECT_DATA_REQUEST_MASK :: u8 where "ZB_MAC_INDIRECT_DATA_REQUEST_MASK = 0x80"

definition mac_set :: "u8 \<Rightarrow> mac_node \<Rightarrow> mac_node" where
  "mac_set m s = s\<lparr>mac_flags := mac_flags s OR m\<rparr>"

definition mac_clear :: "u8 \<Rightarrow> mac_node \<Rightarrow> mac_node" where
  "mac_clear m s = s\<lparr>mac_flags := mac_flags s AND NOT m\<rparr>"

definition mac_get :: "u8 \<Rightarrow> mac_node \<Rightarrow> bool" where
  "mac_get m s \<longleftrightarrow> mac_flags s AND m \<noteq> 0"

section \<open>Transport\<close>

text \<open>
  \<^verbatim>\<open>zb_mac_ns_send_packet\<close> with \<^verbatim>\<open>zb_mac_transport_put_data\<close>: the frame goes out with its length in front, then the length
  is cut off again. The pipe takes all of it.
\<close>

definition ZB_TRANS_SEND_COMMAND :: "nat \<Rightarrow> mac_node \<Rightarrow> mac_node option" where
  "ZB_TRANS_SEND_COMMAND p s =
     do { let s1 = mac_buf_status p RET_BUSY_status s;
          (b1, q) \<leftarrow> zb_buf_smart_alloc_left (mbufs s1 p) 1;
          b2 \<leftarrow> write_bytes q [of_nat (blen b1)] b1;
          (b3, q3) \<leftarrow> zb_buf_cut_left b2 1;
          Some (emit_m (M_sent (payload b2)) (set_mbuf p b3 (s1\<lparr>tx_cnt := tx_cnt s1 + 1\<rparr>))) }"

definition MAC_ADD_FCS :: "nat \<Rightarrow> mac_node \<Rightarrow> mac_node option" where
  "MAC_ADD_FCS p s = do { b \<leftarrow> zb_mac_fcs_add (mbufs s p); Some (set_mbuf p b s) }"

text \<open>
  A frame is built from the front of a fresh buffer: \<open>n\<close> zero bytes are allocated, then the header and the bytes behind it
  are written.
\<close>

definition build_frame :: "nat \<Rightarrow> nat \<Rightarrow> zb_mac_mhr \<Rightarrow> nat \<Rightarrow> u8 list \<Rightarrow> mac_node \<Rightarrow> mac_node option" where
  "build_frame p n m hlen body s =
     do { (b1, q) \<leftarrow> zb_buf_initial_alloc (mbufs s p) n;
          b2 \<leftarrow> write_bytes q (replicate n 0) b1;
          b3 \<leftarrow> write_bytes q (zb_mac_fill_mhr m) b2;
          b4 \<leftarrow> write_bytes (q + hlen) body b3;
          Some (set_mbuf p b4 s) }"

text \<open>The frame control field of a frame, set as the senders set it.\<close>

definition mac_fcf :: "u8 \<Rightarrow> u8 \<Rightarrow> u8 \<Rightarrow> u8 \<Rightarrow> u8 \<Rightarrow> u8 \<Rightarrow> u8 list option" where
  "mac_fcf frame_type pending ack compression dst_mode src_mode =
     do { f1 \<leftarrow> ZB_FCF_SET_FRAME_TYPE [0, 0] frame_type;
          f2 \<leftarrow> ZB_FCF_SET_FRAME_PENDING_BIT f1 pending;
          f3 \<leftarrow> ZB_FCF_SET_ACK_REQUEST_BIT f2 ack;
          f4 \<leftarrow> ZB_FCF_SET_PANID_COMPRESSION_BIT f3 compression;
          f5 \<leftarrow> zb_fcf_set_dst_addressing_mode f4 dst_mode;
          zb_fcf_set_src_addressing_mode (ZB_FCF_SET_FRAME_VERSION f5 0) src_mode }"

definition zb_inc_mac_dsn :: "mac_node \<Rightarrow> mac_node" where
  "zb_inc_mac_dsn = on_pib (\<lambda>p. p\<lparr>mac_dsn := mac_dsn p + 1\<rparr>)"

definition no_addr_mhr :: zb_mac_mhr where
  "no_addr_mhr = \<lparr>frame_control = [0, 0], seq_number = 0, dst_pan_id = 0, dst_addr = replicate 8 0, src_pan_id = 0,
     src_addr = replicate 8 0\<rparr>"

definition send_operation_buf :: "mac_node \<Rightarrow> mac_node option" where
  "send_operation_buf s = do { s1 \<leftarrow> MAC_ADD_FCS (operation_buf s) s; ZB_TRANS_SEND_COMMAND (operation_buf s1) s1 }"

definition zb_mac_send_ack :: "u8 \<Rightarrow> u8 \<Rightarrow> mac_node \<Rightarrow> mac_node option" where
  "zb_mac_send_ack dsn data_pending s =
     do { hlen \<leftarrow> zb_mac_calculate_mhr_length MODE_NO_ADDR MODE_NO_ADDR 0;
          fc \<leftarrow> mac_fcf MAC_FRAME_ACKNOWLEDGMENT data_pending 0 0 MODE_NO_ADDR MODE_NO_ADDR;
          s1 \<leftarrow> build_frame (operation_buf s) hlen (no_addr_mhr\<lparr>frame_control := fc, seq_number := dsn\<rparr>) hlen [] s;
          send_operation_buf s1 }"

section \<open>Frames that wait for their receiver\<close>

definition empty_slot :: "zb_mac_pending_data \<Rightarrow> bool" where
  "empty_slot d \<longleftrightarrow> pd_data d = None"

text \<open>\<^verbatim>\<open>RET_ERROR\<close>, which is not zero, means that all slots are empty.\<close>

definition pending_queue_is_empty :: "mac_node \<Rightarrow> bool" where
  "pending_queue_is_empty s \<longleftrightarrow> list_all empty_slot (pending_data_queue s)"

definition ZB_CLEAR_PENDING_QUEUE_SLOT :: "nat \<Rightarrow> mac_node \<Rightarrow> mac_node" where
  "ZB_CLEAR_PENDING_QUEUE_SLOT i s =
     s\<lparr>pending_data_queue := (pending_data_queue s)[i := (pending_data_queue s ! i)\<lparr>pd_data := None\<rparr>]\<rparr>"

definition free_slot :: "mac_node \<Rightarrow> nat option" where
  "free_slot s = find (\<lambda>i. empty_slot (pending_data_queue s ! i)) [0..<length (pending_data_queue s)]"

definition zb_mac_put_data_to_pending_queue :: "zb_mac_pending_data \<Rightarrow> mac_node \<Rightarrow> zb_ret \<times> mac_node" where
  "zb_mac_put_data_to_pending_queue d s =
     (case free_slot s of
        None \<Rightarrow> (RET_ERROR, s\<lparr>mac_status := MAC_TRANSACTION_OVERFLOW\<rparr>)
      | Some i \<Rightarrow>
          (RET_PENDING, emit_m (M_alarm (Pending_data_timeout i) ZB_MAC_TRANSACTION_PERSISTENCE_TIME)
             (s\<lparr>pending_data_queue := (pending_data_queue s)[i := d]\<rparr>)))"

text \<open>
  The indication of the status of a frame: the addresses are those of the header in \<open>pending\<close>, the parameters are put
  into \<open>buffer\<close>.
\<close>

definition SIZEOF_COMM_STATUS_INDICATION :: nat where "SIZEOF_COMM_STATUS_INDICATION = 19"

definition zb_mac_send_comm_status :: "nat \<Rightarrow> u8 \<Rightarrow> nat \<Rightarrow> mac_node \<Rightarrow> mac_node option" where
  "zb_mac_send_comm_status pending st buffer s =
     do { (m, n) \<leftarrow> buf_mhr (mbufs s pending);
          assert_that (tail_fits SIZEOF_COMM_STATUS_INDICATION (mbufs s buffer));
          Some (emit_m (Comm_status_indication buffer st (ZB_FCF_GET_SRC_ADDRESSING_MODE (frame_control m)) (src_addr m)
                   (ZB_FCF_GET_DST_ADDRESSING_MODE (frame_control m)) (dst_addr m))
                 (mac_buf_status buffer (ucast st) s)) }"

definition zb_mac_pending_data_timeout :: "nat \<Rightarrow> mac_node \<Rightarrow> mac_node option" where
  "zb_mac_pending_data_timeout i s =
     do { p \<leftarrow> pd_data (pending_data_queue s ! i);
          s1 \<leftarrow> zb_mac_send_comm_status p MAC_TRANSACTION_EXPIRED p s;
          Some (ZB_CLEAR_PENDING_QUEUE_SLOT i s1) }"

definition zb_mac_put_request_to_queue :: "nat \<Rightarrow> mac_node \<Rightarrow> mac_node option" where
  "zb_mac_put_request_to_queue p s =
     do { assert_that (\<not> ring_is_full (out_q s)); Some (s\<lparr>out_q := ring_put (out_q s) p\<rparr>) }"

text \<open>
  The search for a frame from the slot \<open>k\<close> on, for the device that the header comes from. Slots with another addressing mode
  are passed over.
\<close>

definition slot_matches :: "zb_mac_mhr \<Rightarrow> zb_mac_pending_data \<Rightarrow> bool" where
  "slot_matches m d \<longleftrightarrow>
     (let mode = ZB_FCF_GET_SRC_ADDRESSING_MODE (frame_control m) in
      pd_data d \<noteq> None \<and> mode = pd_dst_addr_mode d
      \<and> (if mode = MODE_64BIT then pd_dst_addr d = src_addr m
         else mode = MODE_16BIT \<and> addr_short (src_addr m) = addr_short (pd_dst_addr d)))"

definition check_pending_data :: "zb_mac_mhr \<Rightarrow> nat \<Rightarrow> mac_node \<Rightarrow> nat option" where
  "check_pending_data m k s =
     find (\<lambda>i. slot_matches m (pending_data_queue s ! i)) [k..<length (pending_data_queue s)]"

section \<open>Counters of transmissions\<close>

definition zb_tx_total_inc :: "mac_node \<Rightarrow> mac_node" where
  "zb_tx_total_inc s =
     (let s1 = s\<lparr>nwk_tx_total := nwk_tx_total s + 1\<rparr> in
      if nwk_tx_total s1 = 0 then s1\<lparr>nwk_tx_fail := 0\<rparr> else s1)"

definition zb_tx_fail_inc :: "mac_node \<Rightarrow> mac_node" where
  "zb_tx_fail_inc s =
     (let s1 = s\<lparr>nwk_tx_fail := nwk_tx_fail s + 1\<rparr> in
      if checks_fails s1 then s1 else emit_m (M_call Check_fails 0) s1)"

text \<open>The simulator build has no errors of the channel.\<close>

definition zb_check_cmd_tx_status :: "mac_node \<Rightarrow> zb_ret" where
  "zb_check_cmd_tx_status s = RET_OK"

definition ZB_SKIP_TX_CHK :: "mac_node \<Rightarrow> mac_node" where
  "ZB_SKIP_TX_CHK s = s\<lparr>tx_cnt := 1\<rparr>"

text \<open>Waiting for the transmitter is a loop that only the counter ends; \<open>None\<close> is no end.\<close>

definition ZB_WAIT_FOR_TX :: "mac_node \<Rightarrow> mac_node option" where
  "ZB_WAIT_FOR_TX s = (if tx_cnt s = 0 then None else Some s)"

definition schedule_tx :: "mac_tx \<Rightarrow> nat \<Rightarrow> mac_node \<Rightarrow> mac_node option" where
  "schedule_tx f p s =
     (case ring_put_reserve (tx_q s) of
        None \<Rightarrow> Some s
      | Some i \<Rightarrow> do { assert_that (p \<le> ZB_IOBUF_POOL_SIZE); Some (s\<lparr>tx_q := put_cb (tx_q s) i f (of_nat p)\<rparr>) })"

end
