(* ===== verification/Mac_Data.thy ===== *)
theory Mac_Data
  imports Mac_Node
begin

text \<open>
  Receiving frames, waiting for acknowledgements, sending data and answering requests for waiting data:
  \<^verbatim>\<open>mac/mac.c\<close>, \<^verbatim>\<open>mac/mac_data.c\<close> and \<^verbatim>\<open>mac/mac_cr_data.c\<close>.
\<close>

section \<open>Receiving\<close>

text \<open>
  The transport puts a frame, whose first byte is its length, into the buffer and appends nine zero bytes in place of what
  the transceiver would report.
\<close>

definition recv_frame :: "u8 list \<Rightarrow> zb_buf \<Rightarrow> zb_buf option" where
  "recv_frame f b =
     do { (b1, q) \<leftarrow> zb_buf_initial_alloc b (length f);
          b2 \<leftarrow> write_bytes q f b1;
          (b3, q3) \<leftarrow> zb_buf_smart_alloc_right b2 ZB_MAC_EXTRA_DATA_SIZE;
          write_bytes q3 (replicate ZB_MAC_EXTRA_DATA_SIZE 0) b3 }"

definition zb_mlme_ack_accept :: "nat \<Rightarrow> mac_node \<Rightarrow> mac_node option" where
  "zb_mlme_ack_accept p s =
     do { (m, n) \<leftarrow> buf_mhr (mbufs s p);
          let s1 = (if ack_dsn s = seq_number m then
                      (let s2 = mac_set ZB_MAC_ACK_OK_MASK s;
                           s3 = (if ZB_FCF_GET_FRAME_PENDING_BIT (frame_control m) \<noteq> 0
                                 then mac_set ZB_MAC_PEND_DATA_MASK s2 else mac_clear ZB_MAC_PEND_DATA_MASK s2)
                       in emit_m (M_cancel Ack_timeout) s3)
                    else s);
          Some (emit_m (M_free p) s1) }"

definition rt_buf_ref :: "mac_node \<Rightarrow> nat" where "rt_buf_ref s = unat (rt_ctx s ! 8)"
definition set_rt_buf_ref :: "nat \<Rightarrow> mac_node \<Rightarrow> mac_node" where
  "set_rt_buf_ref p s = s\<lparr>rt_ctx := (rt_ctx s)[8 := of_nat p]\<rparr>"

text \<open>A frame for this device ends the wait for waiting data and confirms a poll.\<close>

definition indirect_data_came :: "zb_mac_mhr \<Rightarrow> mac_node \<Rightarrow> mac_node" where
  "indirect_data_came m s =
     (let s1 = mac_clear ZB_MAC_INDIRECT_DATA_REQUEST_MASK (emit_m M_cancel_indirect s);
          s2 = (if ZB_FCF_GET_FRAME_PENDING_BIT (frame_control m) \<noteq> 0 then mac_set ZB_MAC_PEND_DATA_MASK s1 else s1)
      in if poll_request_flag s2 \<and> ZB_FCF_GET_FRAME_TYPE (frame_control m) = MAC_FRAME_DATA \<and> rt_buf_ref s2 \<noteq> 0 then
           emit_m (Poll_confirm (rt_buf_ref s2))
             (mac_buf_status (rt_buf_ref s2) (ucast (mac_status s2)) (s2\<lparr>poll_request_flag := False\<rparr>))
         else s2)"

definition zb_mac_parse_recv_data :: "nat \<Rightarrow> mac_node \<Rightarrow> mac_node option" where
  "zb_mac_parse_recv_data p s =
     do { (b1, q) \<leftarrow> zb_buf_cut_left (mbufs s p) 1;
          let s0 = set_mbuf p b1 s;
          (m, n) \<leftarrow> buf_mhr b1;
          if can_accept_frame (mac_rx_on_when_idle (pib s0) \<noteq> 0) m then
            (let s1 = (if mac_get ZB_MAC_INDIRECT_DATA_REQUEST_MASK s0
                          \<and> check_frame_dst_addr (mac_short_address (pib s0)) (mac_extended_address (pib s0)) m
                       then indirect_data_came m s0 else s0);
                 t = ZB_FCF_GET_FRAME_TYPE (frame_control m)
             in if t = MAC_FRAME_DATA then Some (emit_m (M_call Handle_data_frame p) s1)
                else if t = MAC_FRAME_BEACON then
                  (let s2 = emit_m (Beacon_notify p) s1
                   in Some (if mlme_scan_in_progress s2 then s2\<lparr>rt_ctx := (rt_ctx s2)[1 := 1]\<rparr> else s2))
                else if t = MAC_FRAME_ACKNOWLEDGMENT then zb_mlme_ack_accept p s1
                else if t = MAC_FRAME_COMMAND then Some (emit_m (M_call Command_accept p) s1)
                else Some s1)
          else Some (emit_m (M_free p) s0) }"

definition zb_mac_recv_data :: "nat \<Rightarrow> u8 list \<Rightarrow> mac_node \<Rightarrow> mac_node option" where
  "zb_mac_recv_data p f s =
     do { b \<leftarrow> recv_frame f (mbufs s p); zb_mac_parse_recv_data p (set_mbuf p b s) }"

definition recv_next :: "mac_node \<Rightarrow> mac_node option" where
  "recv_next s = (case rx_q s of [] \<Rightarrow> Some s | (p, f) # r \<Rightarrow> zb_mac_recv_data p f (s\<lparr>rx_q := r\<rparr>))"

section \<open>Waiting for an acknowledgement\<close>

definition ZB_MAC_START_ACK_WAITING :: "mac_node \<Rightarrow> mac_node" where
  "ZB_MAC_START_ACK_WAITING s =
     (let s1 = mac_clear ZB_MAC_ACK_OK_MASK (mac_clear ZB_MAC_ACK_FAIL_MASK (mac_clear ZB_MAC_ACK_TIMEOUT_MASK s))
      in emit_m (M_alarm Ack_timeout (mac_ack_wait_duration (pib s1))) (emit_m (M_cancel Ack_timeout) s1))"

text \<open>
  The body of the loop, which every way through it ends. It looks at the flags, and, when they say nothing, reads one frame.
\<close>

definition check_ack_body :: "mac_node \<Rightarrow> (zb_ret \<times> mac_node) option" where
  "check_ack_body s =
     (if mac_get ZB_MAC_ACK_OK_MASK s then Some (RET_OK, s)
      else if mac_get ZB_MAC_ACK_FAIL_MASK s \<or> mac_get ZB_MAC_ACK_TIMEOUT_MASK s then
        (let s1 = (emit_m (M_cancel Ack_timeout) s)\<lparr>retry_counter := retry_counter s + 1\<rparr>
         in if retry_counter s1 > mac_max_frame_retries (pib s1) then Some (RET_ERROR, s1\<lparr>mac_status := MAC_NO_ACK\<rparr>)
            else Some (RET_PENDING, s1))
      else
        do { s1 \<leftarrow> recv_next s; Some (if mac_get ZB_MAC_ACK_OK_MASK s1 then RET_OK else RET_BLOCKED, s1) })"

definition zb_mac_check_ack :: "mac_node \<Rightarrow> (zb_ret \<times> mac_node) option" where
  "zb_mac_check_ack s = check_ack_body (ZB_MAC_START_ACK_WAITING s)"

section \<open>Sending data\<close>

definition SIZEOF_MCPS_DATA_REQ :: nat where "SIZEOF_MCPS_DATA_REQ = 8"

definition has_tx_option :: "u8 \<Rightarrow> u8 \<Rightarrow> bool" where "has_tx_option k opts \<longleftrightarrow> opts AND k \<noteq> 0"

definition data_mhr :: "u8 list \<Rightarrow> zb_mcps_data_req \<Rightarrow> mac_node \<Rightarrow> zb_mac_mhr" where
  "data_mhr fc r s =
     \<lparr>frame_control = fc, seq_number = mac_dsn (pib s), dst_pan_id = mac_pan_id (pib s), dst_addr = union_short (dr_dst_addr r),
      src_pan_id = mac_pan_id (pib s), src_addr = union_short (dr_src_addr r)\<rparr>"

definition zb_mcps_data_request_fill_hdr :: "nat \<Rightarrow> mac_node \<Rightarrow> (zb_ret \<times> mac_node) option" where
  "zb_mcps_data_request_fill_hdr p s =
     (let r = mcps_req s p; opts = dr_tx_options r; ack = has_tx_option MAC_TX_OPTION_ACKNOWLEDGED_BIT opts in
      do { assert_that (tail_fits SIZEOF_MCPS_DATA_REQ (mbufs s p));
           hlen \<leftarrow> zb_mac_calculate_mhr_length MODE_16BIT MODE_16BIT 1;
           assert_that (blen (mbufs s p) + hlen \<le> 255);
           fc \<leftarrow> mac_fcf MAC_FRAME_DATA 0 (if ack then 1 else 0) 1 MODE_16BIT MODE_16BIT;
           let m = data_mhr fc r s;
           let s1 = zb_inc_mac_dsn s;
           let s2 = (if ack then s1\<lparr>ack_dsn := seq_number m\<rparr> else s1);
           let (ret, s3) = (if has_tx_option MAC_TX_OPTION_INDIRECT_TRANSMISSION_BIT opts then
                              zb_mac_put_data_to_pending_queue
                                \<lparr>pd_data = Some p, pd_dst_addr_mode = MODE_16BIT, pd_dst_addr = union_short (dr_dst_addr r)\<rparr> s2
                            else (RET_OK, s2));
           if ret = RET_OK \<or> ret = RET_PENDING then
             do { (b1, q) \<leftarrow> zb_buf_smart_alloc_left (mbufs s3 p) hlen;
                  b2 \<leftarrow> write_bytes q (zb_mac_fill_mhr m) b1;
                  Some (ret, set_mbuf p b2 s3) }
           else if ret = RET_ERROR \<and> mac_status s3 = MAC_TRANSACTION_OVERFLOW then
             do { s4 \<leftarrow> zb_mac_put_request_to_queue p (s3\<lparr>mac_status := MAC_SUCCESS\<rparr>); Some (RET_PENDING, s4) }
           else Some (ret, s3) })"

definition zb_mcps_data_request :: "nat \<Rightarrow> mac_node \<Rightarrow> mac_node option" where
  "zb_mcps_data_request p s = schedule_tx Handle_mcps_data_req p s"

text \<open>A frame with the mark of the network layer is encrypted into \<open>encryption_buf\<close>.\<close>

definition zb_mac_check_security :: "nat \<Rightarrow> mac_node \<Rightarrow> (zb_ret \<times> mac_node) option" where
  "zb_mac_check_security p s =
     (let b = mbufs s p; fc = mem_from (boff b) b in
      if encrypt_type (hdr b) \<noteq> ZB_SECUR_NO_ENCR then
        do { hlen \<leftarrow> zb_mac_calculate_mhr_length (ZB_FCF_GET_SRC_ADDRESSING_MODE fc) (ZB_FCF_GET_DST_ADDRESSING_MODE fc)
                       (ZB_FCF_GET_PANID_COMPRESSION_BIT fc);
             if encrypt_type (hdr b) = ZB_SECUR_NWK_ENCR then
               do { (ret, b1, e1, k) \<leftarrow> zb_nwk_secure_frame b hlen (mbufs s (encryption_buf s)) (mac_sec s);
                    Some (ret, set_mbuf (encryption_buf s) e1 (set_mbuf p b1 (s\<lparr>mac_sec := k\<rparr>))) }
             else Some (RET_OK, s) }
      else Some (RET_OK, s))"

text \<open>
  \<^verbatim>\<open>goto send_command\<close> jumps in front of a test for \<^verbatim>\<open>RET_OK\<close> with another code, so nothing is sent again.
\<close>

definition send_data :: "nat \<Rightarrow> mac_node \<Rightarrow> mac_node option" where
  "send_data p s =
     do { s1 \<leftarrow> MAC_ADD_FCS p (s\<lparr>tx_wait_cb := Some Mcps_data_req_continue, tx_wait_cb_arg := p\<rparr>);
          if encrypt_type (hdr (mbufs s1 p)) \<noteq> ZB_SECUR_NO_ENCR then
            do { s2 \<leftarrow> MAC_ADD_FCS (encryption_buf s1) s1; ZB_TRANS_SEND_COMMAND (encryption_buf s1) s2 }
          else ZB_TRANS_SEND_COMMAND p s1 }"

definition zb_handle_mcps_data_req :: "nat \<Rightarrow> mac_node \<Rightarrow> mac_node option" where
  "zb_handle_mcps_data_req p s =
     (let r = mcps_req s p;
          s1 = (set_mbuf p ((mbufs s p)\<lparr>hdr := (hdr (mbufs s p))\<lparr>handle := dr_msdu_handle r\<rparr>\<rparr>) s)
                 \<lparr>pending_buf := Some p, mac_status := MAC_SUCCESS, retry_counter := 0\<rparr>
      in do { (ret, s2) \<leftarrow> zb_mcps_data_request_fill_hdr p s1;
              (ret2, s3) \<leftarrow> (if ret = RET_OK then zb_mac_check_security p s2 else Some (ret, s2));
              if ret2 = RET_OK then
                do { let s4 = (if ZB_NWK_IS_ADDRESS_BROADCAST (dr_dst_addr r) then s3 else zb_tx_total_inc s3);
                     s5 \<leftarrow> send_data p s4;
                     if ZB_FCF_GET_ACK_REQUEST_BIT (mem_from (boff (mbufs s5 p)) (mbufs s5 p)) \<noteq> 0
                     then map_option snd (zb_mac_check_ack s5) else Some s5 }
              else Some s3 })"

definition confirm_data :: "nat \<Rightarrow> mac_node \<Rightarrow> mac_node" where
  "confirm_data p s =
     (let s1 = s\<lparr>mcps_confirm_handle := (mcps_confirm_handle s)(p := dr_msdu_handle (mcps_req s p))\<rparr>
      in emit_m (Mcps_confirm p) (mac_buf_status p (ucast (mac_status s1)) s1))"

definition zb_handle_mcps_data_req_continue :: "nat \<Rightarrow> mac_node \<Rightarrow> mac_node option" where
  "zb_handle_mcps_data_req_continue p s =
     do { assert_that (tail_fits SIZEOF_MCPS_DATA_REQ (mbufs s p));
          let s1 = ZB_SKIP_TX_CHK (s\<lparr>pending_buf := Some p\<rparr>);
          let ret = zb_check_cmd_tx_status s1;
          let s2 = (if ret \<noteq> RET_OK \<and> ret \<noteq> RET_BLOCKED \<and> \<not> ZB_NWK_IS_ADDRESS_BROADCAST (dr_dst_addr (mcps_req s1 p)) then zb_tx_fail_inc s1 else s1);
          Some (if ret \<noteq> RET_BLOCKED \<and> ret \<noteq> RET_PENDING then
                  (let s3 = (if ret \<noteq> RET_OK \<and> mac_status s2 = MAC_SUCCESS then s2\<lparr>mac_status := MAC_INVALID_PARAMETER\<rparr> else s2)
                   in (confirm_data p s3)\<lparr>pending_buf := None\<rparr>)
                else s2) }"

definition zb_handle_data_frame :: "nat \<Rightarrow> mac_node \<Rightarrow> mac_node option" where
  "zb_handle_data_frame p s =
     do { (m, n) \<leftarrow> buf_mhr (mbufs s p);
          let s1 = s\<lparr>pending_buf := Some p\<rparr>;
          s2 \<leftarrow> (if ZB_FCF_GET_ACK_REQUEST_BIT (frame_control m) \<noteq> 0 then zb_mac_send_ack (seq_number m) 0 s1 else Some s1);
          Some (emit_m (Mcps_indication p) s2) }"

end
