(* ===== verification/Mac_Indirect.thy ===== *)
theory Mac_Indirect
  imports Mac_Data
begin

text \<open>
  Frames that wait for their receiver, on both sides: the answer of a coordinator to a data request,
  \<^verbatim>\<open>mac/mac_cr_data.c\<close>, the request of a device, \<^verbatim>\<open>mac/mac_data.c\<close> and \<^verbatim>\<open>mac/mac.c\<close>, and the association
  that uses them, \<^verbatim>\<open>mac/mac_associate.c\<close> and \<^verbatim>\<open>mac/mac_cr_associate.c\<close>.
\<close>

section \<open>Answering a data request\<close>

definition MAC_CMD_ASSOCIATION_REQUEST :: u8 where "MAC_CMD_ASSOCIATION_REQUEST = 1"
definition MAC_CMD_ASSOCIATION_RESPONSE :: u8 where "MAC_CMD_ASSOCIATION_RESPONSE = 2"
definition MAC_CMD_DATA_REQUEST :: u8 where "MAC_CMD_DATA_REQUEST = 4"
definition MAC_CMD_ORPHAN_NOTIFICATION :: u8 where "MAC_CMD_ORPHAN_NOTIFICATION = 6"
definition MAC_CMD_BEACON_REQUEST :: u8 where "MAC_CMD_BEACON_REQUEST = 7"
definition MAC_CMD_COORDINATOR_REALIGNMENT :: u8 where "MAC_CMD_COORDINATOR_REALIGNMENT = 8"

definition SIZEOF_DATA_REQ_CTX :: nat where "SIZEOF_DATA_REQ_CTX = 26"

definition set_pending_bit :: "nat \<Rightarrow> mac_node \<Rightarrow> mac_node option" where
  "set_pending_bit p s =
     (let b = mbufs s p in
      do { fc \<leftarrow> ZB_FCF_SET_FRAME_PENDING_BIT (bytes_at (boff b) 2 b) 1;
           b1 \<leftarrow> write_bytes (boff b) fc b;
           Some (set_mbuf p b1 s) })"

text \<open>
  One transmission of the frame in buffer \<open>d\<close> of slot \<open>i\<close>, whose frame control field was found at position \<open>fo\<close>: for an
  encrypted frame the copy in \<open>encryption_buf\<close> is sent. The pending bit tells the device that another frame waits for it.
\<close>

definition fcf_at :: "nat \<Rightarrow> nat \<Rightarrow> mac_node \<Rightarrow> u8 list" where
  "fcf_at d fo s = mem_from fo (mbufs s d)"

definition send_waiting :: "nat \<Rightarrow> nat \<Rightarrow> nat \<Rightarrow> zb_mac_mhr \<Rightarrow> u8 \<Rightarrow> mac_node \<Rightarrow> (zb_ret \<times> mac_node) option" where
  "send_waiting i d fo mhr_req seq s =
     (let t = ZB_FCF_GET_FRAME_TYPE (fcf_at d fo s) in
      do { assert_that (t = MAC_FRAME_COMMAND \<or> t = MAC_FRAME_DATA);
           (ret, s1) \<leftarrow> zb_mac_check_security d s;
           if ret = RET_OK then
             do { let s2 = zb_tx_total_inc s1;
                  let encrypted = encrypt_type (hdr (mbufs s2 d)) \<noteq> ZB_SECUR_NO_ENCR;
                  let b_tmp = (if encrypted then encryption_buf s2 else d);
                  s3 \<leftarrow> (if encrypted then MAC_ADD_FCS d s2 else Some s2);
                  s4 \<leftarrow> (if check_pending_data mhr_req (i + 1) s3 \<noteq> None then set_pending_bit b_tmp s3 else Some s3);
                  s5 \<leftarrow> MAC_ADD_FCS b_tmp s4;
                  s6 \<leftarrow> ZB_TRANS_SEND_COMMAND b_tmp s5;
                  Some (RET_OK, if ZB_FCF_GET_ACK_REQUEST_BIT (fcf_at d fo s6) \<noteq> 0 then s6\<lparr>ack_dsn := seq\<rparr> else s6) }
           else Some (ret, s1) })"

text \<open>
  Sending and waiting for the acknowledgement, again as long as the wait says so; the bound is more than the retry counter
  can count.
\<close>

fun send_data_resp :: "nat \<Rightarrow> nat \<Rightarrow> nat \<Rightarrow> nat \<Rightarrow> zb_mac_mhr \<Rightarrow> u8 \<Rightarrow> mac_node \<Rightarrow> mac_node option" where
  "send_data_resp 0 i d fo mhr_req seq s = None"
| "send_data_resp (Suc k) i d fo mhr_req seq s =
     do { (ret, s1) \<leftarrow> send_waiting i d fo mhr_req seq s;
          if ret = RET_OK \<and> ZB_FCF_GET_ACK_REQUEST_BIT (fcf_at d fo s1) \<noteq> 0 then
            do { (ret2, s2) \<leftarrow> zb_mac_check_ack s1;
                 if ret2 = RET_PENDING then send_data_resp k i d fo mhr_req seq s2 else Some s2 }
          else Some s1 }"

definition zb_handle_data_request_cmd :: "mac_node \<Rightarrow> mac_node option" where
  "zb_handle_data_request_cmd s =
     (case pending_buf s of
        None \<Rightarrow> Some s
      | Some p \<Rightarrow>
          do { (mhr_req, n) \<leftarrow> buf_mhr (mbufs s p);
               assert_that (tail_fits SIZEOF_DATA_REQ_CTX (mbufs s p));
               let s1 = s\<lparr>mac_status := MAC_SUCCESS\<rparr>;
               case check_pending_data mhr_req 0 s of
                 None \<Rightarrow>
                   do { s2 \<leftarrow> zb_mac_send_ack (seq_number mhr_req) 0 s1;
                        Some ((emit_m (M_free p) s2)\<lparr>pending_buf := None\<rparr>) }
               | Some i \<Rightarrow>
                   do { d \<leftarrow> pd_data (pending_data_queue s ! i);
                        (mhr_pend, plen) \<leftarrow> buf_mhr (mbufs s d);
                        let ptr = (d, boff (mbufs s d));
                        s2 \<leftarrow> zb_mac_send_ack (seq_number mhr_req) 1 s1;
                        s3 \<leftarrow> send_data_resp 256 i d (snd ptr) mhr_req (seq_number mhr_pend) s2;
                        Some (s3\<lparr>data_req_storage := \<lparr>ds_fcf = ptr, ds_cmd_ptr = ptr, ds_mhr_pend_len = plen,
                                  ds_data_found_index = i, ds_mhr_pend = mhr_pend\<rparr>,
                                 tx_wait_cb := Some Data_request_cmd_continue\<rparr>) } })"

definition zb_accept_data_request_cmd :: "nat \<Rightarrow> mac_node \<Rightarrow> mac_node option" where
  "zb_accept_data_request_cmd p s = zb_handle_data_request_cmd (s\<lparr>pending_buf := Some p\<rparr>)"

text \<open>
  After the transmission. The status of an association goes up in the buffer of the request; the frame is confirmed as it is,
  without status or handle.
\<close>

definition zb_handle_data_request_cmd_continue :: "mac_node \<Rightarrow> mac_node option" where
  "zb_handle_data_request_cmd_continue s =
     (let st = data_req_storage s; i = ds_data_found_index st;
          s1 = ZB_SKIP_TX_CHK s;
          ret = zb_check_cmd_tx_status s1;
          s2 = (if ret \<noteq> RET_OK \<and> ret \<noteq> RET_BLOCKED then zb_tx_fail_inc s1 else s1);
          (fb, fo) = ds_fcf st; (cb, co) = ds_cmd_ptr st
      in if ret = RET_BLOCKED then Some s2
         else
         do { d \<leftarrow> pd_data (pending_data_queue s2 ! i);
              s3 \<leftarrow> (if ZB_FCF_GET_FRAME_TYPE (fcf_at fb fo s2) = MAC_FRAME_COMMAND
                        \<and> bytes (mbufs s2 cb) ! (co + ds_mhr_pend_len st) = MAC_CMD_ASSOCIATION_RESPONSE then
                      do { pb \<leftarrow> pending_buf s2;
                           let code = (if ret = RET_OK then MAC_SUCCESS
                                       else if mac_status s2 \<noteq> MAC_SUCCESS then mac_status s2 else MAC_INVALID_PARAMETER);
                           s' \<leftarrow> zb_mac_send_comm_status d code pb s2;
                           Some (s'\<lparr>pending_buf := None\<rparr>) }
                    else Some s2);
              let s4 = (if ZB_FCF_GET_FRAME_TYPE (frame_control (ds_mhr_pend st)) = MAC_FRAME_COMMAND
                        then emit_m (M_free d) s3 else emit_m (Mcps_confirm d) s3);
              let s5 = ZB_CLEAR_PENDING_QUEUE_SLOT i (emit_m (M_cancel (Pending_data_timeout i)) s4);
              Some (case pending_buf s5 of None \<Rightarrow> s5 | Some pb \<Rightarrow> (emit_m (M_free pb) s5)\<lparr>pending_buf := None\<rparr>) })"

section \<open>Asking for data\<close>

record zb_mlme_data_req_params =
  dq_src_addr_mode :: u8
  dq_dst_addr_mode :: u8
  dq_src_addr :: ieee
  dq_dst_addr :: ieee
  dq_cb_type :: zb_callback_type

definition zb_mlme_send_data_req_cmd :: "zb_mlme_data_req_params \<Rightarrow> mac_node \<Rightarrow> mac_node option" where
  "zb_mlme_send_data_req_cmd r s =
     do { assert_that (dq_dst_addr_mode r \<noteq> MODE_NO_ADDR);
          hlen \<leftarrow> zb_mac_calculate_mhr_length (dq_src_addr_mode r) (dq_dst_addr_mode r) 1;
          let seq = mac_dsn (pib s);
          let s1 = (zb_inc_mac_dsn s)\<lparr>ack_dsn := seq\<rparr>;
          fc \<leftarrow> mac_fcf MAC_FRAME_COMMAND 0 1 1 (dq_dst_addr_mode r) (dq_src_addr_mode r);
          s2 \<leftarrow> build_frame (operation_buf s1) (hlen + 1)
                 \<lparr>frame_control = fc, seq_number = seq, dst_pan_id = mac_pan_id (pib s1), dst_addr = dq_dst_addr r, src_pan_id = 0,
                  src_addr = dq_src_addr r\<rparr> hlen [MAC_CMD_DATA_REQUEST] s1;
          send_operation_buf s2 }"

fun data_req_until_ack :: "nat \<Rightarrow> zb_mlme_data_req_params \<Rightarrow> mac_node \<Rightarrow> (zb_ret \<times> mac_node) option" where
  "data_req_until_ack 0 r s = None"
| "data_req_until_ack (Suc k) r s =
     do { s1 \<leftarrow> zb_mlme_send_data_req_cmd r (mac_set ZB_MAC_INDIRECT_DATA_REQUEST_MASK s);
          (ret, s2) \<leftarrow> zb_mac_check_ack s1;
          if ret = RET_PENDING then data_req_until_ack k r s2 else Some (ret, s2) }"

definition zb_mac_get_indirect_data :: "zb_mlme_data_req_params \<Rightarrow> mac_node \<Rightarrow> (zb_ret \<times> mac_node) option" where
  "zb_mac_get_indirect_data r s =
     do { (ret, s1) \<leftarrow> data_req_until_ack 256 r s;
          Some (if ret = RET_OK then
                  (if mac_get ZB_MAC_PEND_DATA_MASK s1 then
                     (RET_OK, emit_m (M_alarm (Indirect_data_timeout (dq_cb_type r)) ZB_MAX_FRAME_TOTAL_WAIT_TIME)
                                (set_rt_buf_ref 0 (mac_set ZB_MAC_INDIRECT_DATA_REQUEST_MASK s1)))
                   else (RET_ERROR, s1\<lparr>mac_status := MAC_NO_DATA\<rparr>))
                else if ret = RET_ERROR then (ret, mac_clear ZB_MAC_PEND_DATA_MASK s1)
                else (ret, s1)) }"

definition call_indirect_data_callback :: "zb_callback_type \<Rightarrow> u8 \<Rightarrow> nat option \<Rightarrow> mac_node \<Rightarrow> mac_node" where
  "call_indirect_data_callback cb st buf s =
     (case cb of
        MAC_ASS_CONFIRM_CALLBACK \<Rightarrow>
          (let s1 = mac_clear ZB_MAC_ASS_REQUEST_MASK s in
           case buf of None \<Rightarrow> s1 | Some p \<Rightarrow> emit_m (Associate_confirm p 0 st (replicate 8 0)) s1)
      | MAC_POLL_REQUEST_CALLBACK \<Rightarrow>
          (let s1 = s\<lparr>poll_request_flag := False\<rparr> in
           case buf of None \<Rightarrow> s1 | Some p \<Rightarrow> emit_m (Poll_confirm p) (mac_buf_status p (ucast st) s1)))"

text \<open>The kind of the callback as it is stored, \<open>None\<close> for a number that is none of them.\<close>

definition cb_code :: "zb_callback_type \<Rightarrow> u32" where
  "cb_code cb = (case cb of MAC_ASS_CONFIRM_CALLBACK \<Rightarrow> 0 | MAC_POLL_REQUEST_CALLBACK \<Rightarrow> 1)"

definition cb_of_code :: "u32 \<Rightarrow> zb_callback_type option" where
  "cb_of_code n = (if n = 0 then Some MAC_ASS_CONFIRM_CALLBACK else if n = 1 then Some MAC_POLL_REQUEST_CALLBACK else None)"

definition indirect_data_callback_caller :: "nat \<Rightarrow> mac_node \<Rightarrow> mac_node option" where
  "indirect_data_callback_caller p s =
     do { cb \<leftarrow> cb_of_code (letoh32 (take 4 (rt_ctx s)));
          Some (call_indirect_data_callback cb (ucast (letoh32 (take 4 (drop 4 (rt_ctx s))))) (Some p) s) }"

definition zb_mac_indirect_data_timeout :: "zb_callback_type \<Rightarrow> mac_node \<Rightarrow> mac_node" where
  "zb_mac_indirect_data_timeout cb s =
     (if rt_buf_ref s \<noteq> 0 then
        set_rt_buf_ref 0 (call_indirect_data_callback cb MAC_NO_DATA (Some (rt_buf_ref s)) s)
      else
        emit_m M_out_buf_delayed
          (s\<lparr>rt_ctx := htole32 (cb_code cb) @ htole32 (ucast MAC_NO_DATA) @ drop 8 (rt_ctx s)\<rparr>))"

definition SIZEOF_POLL_REQUEST :: nat where "SIZEOF_POLL_REQUEST = 16"

definition zb_poll_request :: "u16 \<Rightarrow> nat \<Rightarrow> mac_node \<Rightarrow> mac_node option" where
  "zb_poll_request parent_addr p s =
     (if p = 0 then Some (emit_m M_out_buf_delayed s)
      else
        do { assert_that (tail_fits SIZEOF_POLL_REQUEST (mbufs s p));
             schedule_tx Handle_poll_request p
               (s\<lparr>poll_params := (poll_params s)(p := \<lparr>pq_coord_addr_mode = MODE_16BIT, pq_coord_addr = union_short parent_addr\<rparr>),
                  mac_status := MAC_SUCCESS\<rparr>) })"

definition poll_data_req :: "nat \<Rightarrow> mac_node \<Rightarrow> zb_mlme_data_req_params" where
  "poll_data_req p s =
     (let short = mac_short_address (pib s) < ZB_MAC_SHORT_ADDR_NOT_ALLOCATED in
      \<lparr>dq_src_addr_mode = (if short then MODE_16BIT else MODE_64BIT),
       dq_dst_addr_mode = pq_coord_addr_mode (poll_params s p),
       dq_src_addr = (if short then union_short (mac_short_address (pib s)) else mac_extended_address (pib s)),
       dq_dst_addr = pq_coord_addr (poll_params s p), dq_cb_type = MAC_POLL_REQUEST_CALLBACK\<rparr>)"

definition zb_handle_poll_request :: "nat \<Rightarrow> mac_node \<Rightarrow> mac_node option" where
  "zb_handle_poll_request p s =
     do { assert_that (tail_fits SIZEOF_POLL_REQUEST (mbufs s p));
          let s1 = s\<lparr>pending_buf := Some p\<rparr>;
          s2 \<leftarrow> (if tx_wait_cb s1 \<noteq> None \<and> tx_cnt s1 = 0 then ZB_WAIT_FOR_TX s1 else Some s1);
          (ret, s3) \<leftarrow> zb_mac_get_indirect_data (poll_data_req p s2) s2;
          let s4 = (if ret = RET_OK then set_rt_buf_ref p (s3\<lparr>poll_request_flag := True\<rparr>)
                    else emit_m (Poll_confirm p)
                           (mac_buf_status p (ucast (if mac_status s3 = MAC_SUCCESS then MAC_INVALID_PARAMETER else mac_status s3)) s3));
          Some (s4\<lparr>pending_buf := None\<rparr>) }"

section \<open>Association\<close>

definition SIZEOF_ASSOCIATE_PARAMS :: nat where "SIZEOF_ASSOCIATE_PARAMS = 14"

definition zb_mlme_send_association_req_cmd :: "nat \<Rightarrow> mac_node \<Rightarrow> mac_node option" where
  "zb_mlme_send_association_req_cmd p s =
     (let r = ass_params s p in
      do { hlen \<leftarrow> zb_mac_calculate_mhr_length MODE_64BIT (ap_coord_addr_mode r) 0;
           fc \<leftarrow> mac_fcf MAC_FRAME_COMMAND 0 1 0 (ap_coord_addr_mode r) MODE_64BIT;
           let seq = mac_dsn (pib s);
           let s1 = (zb_inc_mac_dsn s)\<lparr>ack_dsn := seq\<rparr>;
           s2 \<leftarrow> build_frame (operation_buf s1) (hlen + 2)
                  \<lparr>frame_control = fc, seq_number = seq, dst_pan_id = ap_pan_id r, dst_addr = ap_coord_addr r,
                   src_pan_id = ZB_BROADCAST_PAN_ID, src_addr = mac_extended_address (pib s1)\<rparr> hlen
                  [MAC_CMD_ASSOCIATION_REQUEST, ap_capability r] s1;
           s3 \<leftarrow> send_operation_buf s2;
           Some (s3\<lparr>tx_wait_cb := Some Association_req_continue\<rparr>) })"

text \<open>When the wait asks for another try, the request is sent once more and nothing waits for its acknowledgement.\<close>

definition zb_mlme_associate_request :: "nat \<Rightarrow> mac_node \<Rightarrow> mac_node option" where
  "zb_mlme_associate_request p s =
     do { assert_that (tail_fits SIZEOF_ASSOCIATE_PARAMS (mbufs s p));
          s1 \<leftarrow> zb_mlme_send_association_req_cmd p (s\<lparr>mac_status := MAC_SUCCESS, retry_counter := 0\<rparr>);
          (ret, s2) \<leftarrow> zb_mac_check_ack s1;
          if ret = RET_PENDING then zb_mlme_send_association_req_cmd p s2 else Some s2 }"

definition zb_mlme_send_association_req_continue :: "mac_node \<Rightarrow> mac_node" where
  "zb_mlme_send_association_req_continue s =
     (let s1 = ZB_SKIP_TX_CHK s in
      if zb_check_cmd_tx_status s1 = RET_OK then emit_m (M_alarm Resp_timeout ZB_MAC_RESPONSE_WAIT_TIME) s1 else s1)"

text \<open>
  The time to ask for the answer. The parameters are those of \<^verbatim>\<open>pending_buf\<close>, which the request has not set.
\<close>

definition zb_mac_resp_timeout :: "mac_node \<Rightarrow> mac_node option" where
  "zb_mac_resp_timeout s =
     do { p \<leftarrow> pending_buf s;
          assert_that (tail_fits SIZEOF_ASSOCIATE_PARAMS (mbufs s p));
          let r = ass_params s p;
          (ret, s1) \<leftarrow> zb_mac_get_indirect_data
                        \<lparr>dq_src_addr_mode = MODE_64BIT, dq_dst_addr_mode = ap_coord_addr_mode r,
                         dq_src_addr = mac_extended_address (pib s), dq_dst_addr = ap_coord_addr r,
                         dq_cb_type = MAC_ASS_CONFIRM_CALLBACK\<rparr> (mac_set ZB_MAC_ASS_REQUEST_MASK s);
          Some (if ret \<noteq> RET_OK then
                  call_indirect_data_callback MAC_ASS_CONFIRM_CALLBACK
                    (if mac_status s1 = MAC_SUCCESS then MAC_INVALID_PARAMETER else mac_status s1) (pending_buf s1) s1
                else (emit_m (M_free p) s1)\<lparr>pending_buf := None\<rparr>) }"

text \<open>The side of the coordinator: the request goes up, the response waits for the device.\<close>

definition SIZEOF_ASSOCIATE_INDICATION :: nat where "SIZEOF_ASSOCIATE_INDICATION = 10"
definition SIZEOF_ASSOCIATE_RESPONSE :: nat where "SIZEOF_ASSOCIATE_RESPONSE = 11"

definition ZB_MAC_GET_LQI :: "zb_buf \<Rightarrow> u8" where
  "ZB_MAC_GET_LQI b = bytes b ! (boff b + blen b - ZB_MAC_EXTRA_DATA_SIZE)"

definition zb_accept_ass_request_cmd :: "nat \<Rightarrow> mac_node \<Rightarrow> mac_node option" where
  "zb_accept_ass_request_cmd p s =
     do { (m, n) \<leftarrow> buf_mhr (mbufs s p);
          s1 \<leftarrow> zb_mac_send_ack (seq_number m) 0 (s\<lparr>pending_buf := Some p\<rparr>);
          let b = mbufs s1 p;
          assert_that (tail_fits SIZEOF_ASSOCIATE_INDICATION b);
          Some (emit_m (Associate_indication p (src_addr m) (bytes b ! (boff b + n + 1)) (ZB_MAC_GET_LQI b)) s1) }"

record zb_mlme_associate_response_params =
  ar_device_address :: ieee
  ar_short_address :: u16
  ar_status :: u8

definition ass_response_mhr :: "u8 list \<Rightarrow> ieee \<Rightarrow> mac_node \<Rightarrow> zb_mac_mhr" where
  "ass_response_mhr fc dev s =
     \<lparr>frame_control = fc, seq_number = mac_dsn (pib s), dst_pan_id = mac_pan_id (pib s), dst_addr = dev,
      src_pan_id = mac_pan_id (pib s), src_addr = mac_extended_address (pib s)\<rparr>"

definition zb_handle_associate_response :: "nat \<Rightarrow> zb_mlme_associate_response_params \<Rightarrow> mac_node \<Rightarrow> mac_node option" where
  "zb_handle_associate_response p r s =
     do { assert_that (tail_fits SIZEOF_ASSOCIATE_RESPONSE (mbufs s p));
          hlen \<leftarrow> zb_mac_calculate_mhr_length MODE_64BIT MODE_64BIT 1;
          fc \<leftarrow> mac_fcf MAC_FRAME_COMMAND 0 1 1 MODE_64BIT MODE_64BIT;
          s1 \<leftarrow> build_frame p (hlen + 4) (ass_response_mhr fc (ar_device_address r) s) hlen
                 ([MAC_CMD_ASSOCIATION_RESPONSE] @ htole16 (ar_short_address r) @ [ar_status r]) (zb_inc_mac_dsn s);
          s2 \<leftarrow> MAC_ADD_FCS p s1;
          let (ret, s3) = zb_mac_put_data_to_pending_queue
                            \<lparr>pd_data = Some p, pd_dst_addr_mode = MODE_64BIT, pd_dst_addr = ar_device_address r\<rparr> s2;
          if ret = RET_ERROR then
            do { s4 \<leftarrow> zb_mac_send_comm_status p (mac_status s3) p s3; Some (s4\<lparr>pending_buf := None\<rparr>) }
          else Some s3 }"

definition zb_mlme_associate_response :: "nat \<Rightarrow> zb_mlme_associate_response_params \<Rightarrow> mac_node \<Rightarrow> mac_node option" where
  "zb_mlme_associate_response p r s =
     (if \<not> mac_joined_pro s then
        zb_handle_associate_response p r (s\<lparr>mac_status := MAC_SUCCESS, pending_buf := Some p\<rparr>)
      else Some (emit_m (M_free p) s))"

end
