(* ===== verification/Mac_Mlme.thy ===== *)
theory Mac_Mlme
  imports Mac_Indirect
begin

text \<open>
  The other services of the MAC layer: received commands and the main loop, \<^verbatim>\<open>mac/mac.c\<close>, beacons and realignment,
  \<^verbatim>\<open>mac/mac_cr_coordinator.c\<close>, the start of a network, \<^verbatim>\<open>mac/mac_routines.c\<close>, and scans, \<^verbatim>\<open>mac/mac_scan.c\<close>.
\<close>

section \<open>Received commands\<close>

definition ORPHAN_SCAN :: u8 where "ORPHAN_SCAN = 3"
definition ACTIVE_SCAN :: u8 where "ACTIVE_SCAN = 1"
definition ED_SCAN :: u8 where "ED_SCAN = 0"

definition SIZEOF_ASSOCIATE_CONFIRM :: nat where "SIZEOF_ASSOCIATE_CONFIRM = 11"

definition accept_ass_response :: "nat \<Rightarrow> zb_mac_mhr \<Rightarrow> nat \<Rightarrow> mac_node \<Rightarrow> mac_node option" where
  "accept_ass_response p m c s =
     (let parent = (if ZB_FCF_GET_SRC_ADDRESSING_MODE (frame_control m) = MODE_64BIT then src_addr m else replicate 8 0) in
      do { assert_that (tail_fits SIZEOF_ASSOCIATE_CONFIRM (mbufs s p));
           s1 \<leftarrow> (if ZB_FCF_GET_ACK_REQUEST_BIT (frame_control m) \<noteq> 0 then zb_mac_send_ack (seq_number m) 0 s else Some s);
           if mac_get ZB_MAC_ASS_REQUEST_MASK s1 then
             (let b = mbufs s1 p; short = letoh16 (bytes_at (c + 1) 2 b); st = bytes b ! (c + 3);
                  s2 = on_pib (\<lambda>q. q\<lparr>mac_short_address := short\<rparr>) s1
              in Some (mac_clear ZB_MAC_ASS_REQUEST_MASK
                        (emit_m (Associate_confirm p short st parent) (mac_buf_status p (ucast st) s2))))
           else Some (emit_m (M_free p) s1) })"

text \<open>A realignment during the scan of an orphan; the bytes behind the command are the network, the coordinator, the channel and
  the own address.\<close>

definition SIZEOF_SCAN_PARAMS :: nat where "SIZEOF_SCAN_PARAMS = 8"

definition accept_realignment :: "nat \<Rightarrow> nat \<Rightarrow> mac_node \<Rightarrow> mac_node option" where
  "accept_realignment p c s =
     (if mlme_scan_in_progress s then
        do { pb \<leftarrow> pending_buf s;
             assert_that (tail_fits SIZEOF_SCAN_PARAMS (mbufs s pb));
             Some (if sp_scan_type (scan_params s pb) = ORPHAN_SCAN then
                     (let b = mbufs s p in
                      on_pib (\<lambda>q. q\<lparr>mac_pan_id := letoh16 (bytes_at (c + 1) 2 b),
                                    mac_coord_short_address := letoh16 (bytes_at (c + 3) 2 b),
                                    phy_current_channel := bytes b ! (c + 5),
                                    mac_short_address := letoh16 (bytes_at (c + 6) 2 b)\<rparr>)
                        (s\<lparr>rt_ctx := (rt_ctx s)[0 := 1]\<rparr>))
                   else s) }
      else Some s)"

definition zb_mlme_command_accept :: "nat \<Rightarrow> mac_node \<Rightarrow> mac_node option" where
  "zb_mlme_command_accept p s =
     do { (m, n) \<leftarrow> buf_mhr (mbufs s p);
          let c = boff (mbufs s p) + n;
          let cmd = bytes (mbufs s p) ! c;
          if cmd = MAC_CMD_BEACON_REQUEST \<and> \<not> mac_joined_pro s then
            map_option (emit_m (M_free p)) (schedule_tx Handle_beacon_req 0 s)
          else if cmd = MAC_CMD_ASSOCIATION_REQUEST then Some (emit_m (M_call Accept_ass_request_cmd p) s)
          else if cmd = MAC_CMD_ASSOCIATION_RESPONSE then accept_ass_response p m c s
          else if cmd = MAC_CMD_DATA_REQUEST then schedule_tx Accept_data_request_cmd p s
          else if cmd = MAC_CMD_COORDINATOR_REALIGNMENT then accept_realignment p c s
          else if cmd = MAC_CMD_ORPHAN_NOTIFICATION then
            Some (if ZB_FCF_GET_SRC_ADDRESSING_MODE (frame_control m) = MODE_64BIT
                  then emit_m (Orphan_indication p (src_addr m)) s else s)
          else Some s }"

section \<open>Beacons\<close>

record zb_beacon_frame_params =
  bf_src_addr_mode :: u8
  bf_frame_pending :: u8
  bf_ble :: u8
  bf_beacon_order :: u8
  bf_superframe_order :: u8

definition zb_inc_mac_bsn :: "mac_node \<Rightarrow> mac_node" where
  "zb_inc_mac_bsn = on_pib (\<lambda>p. p\<lparr>mac_bsn := mac_bsn p + 1\<rparr>)"

definition zb_send_beacon_frame :: "zb_beacon_frame_params \<Rightarrow> mac_node \<Rightarrow> mac_node option" where
  "zb_send_beacon_frame r s =
     (let q = pib s; mode = bf_src_addr_mode r; paylen = unat (mac_beacon_payload_length q) in
      do { hlen \<leftarrow> zb_mac_calculate_mhr_length mode MODE_NO_ADDR 0;
           f1 \<leftarrow> ZB_FCF_SET_FRAME_TYPE [0, 0] MAC_FRAME_BEACON;
           f2 \<leftarrow> zb_fcf_set_src_addressing_mode f1 mode;
           fc \<leftarrow> ZB_FCF_SET_FRAME_PENDING_BIT (ZB_FCF_SET_FRAME_VERSION f2 0) (bf_frame_pending r);
           let m = no_addr_mhr\<lparr>frame_control := fc, seq_number := mac_bsn q, src_pan_id := mac_pan_id q,
                     src_addr := (if mode = MODE_64BIT then mac_extended_address q else union_short (mac_short_address q))\<rparr>;
           s1 \<leftarrow> build_frame (operation_buf s) ((hlen + 4 + paylen) mod 256) m hlen
                  (beacon_superframe (bf_beacon_order r) (bf_superframe_order r) (bf_ble r) (designated_coordinator s)
                     (mac_association_permit q) @ [0, 0] @ take paylen (mac_beacon_payload q)) (zb_inc_mac_bsn s);
           send_operation_buf s1 })"

text \<open>Beacons are sent by full function devices that have a payload for them.\<close>

definition zb_handle_beacon_req :: "mac_node \<Rightarrow> mac_node option" where
  "zb_handle_beacon_req s =
     (if dev_type_ffd s \<and> mac_beacon_payload_length (pib s) \<noteq> 0 then
        zb_send_beacon_frame
          \<lparr>bf_src_addr_mode = MODE_16BIT, bf_frame_pending = 0, bf_ble = mac_batt_life_ext (pib s),
           bf_beacon_order = mac_beacon_order (pib s), bf_superframe_order = ucast (mac_superframe_order (pib s))\<rparr> s
      else Some s)"

section \<open>Starting and realigning a network\<close>

record zb_mlme_start_req =
  st_pan_id :: u16
  st_logical_channel :: u8
  st_channel_page :: u8
  st_beacon_order :: u8
  st_superframe_order :: u8
  st_battery_life_extension :: u8
  st_coord_realignment :: bool

text \<open>
  The command is for one device, then with its long address, or for all. \<open>junk\<close> is what was on the stack where the address
  of the header is: with no address for one device only two bytes of it are set.
\<close>

definition realign_dst :: "bool \<Rightarrow> ieee option \<Rightarrow> ieee \<Rightarrow> ieee" where
  "realign_dst is_broadcast dev junk =
     (case dev of
        Some a \<Rightarrow> if is_broadcast then htole16 ZB_MAC_SHORT_ADDR_NO_VALUE @ drop 2 junk else a
      | None \<Rightarrow> htole16 ZB_MAC_SHORT_ADDR_NO_VALUE @ drop 2 junk)"

definition zb_tx_coord_realignment_cmd ::
  "bool \<Rightarrow> ieee option \<Rightarrow> u16 \<Rightarrow> ieee \<Rightarrow> zb_mlme_start_req \<Rightarrow> mac_node \<Rightarrow> mac_node option" where
  "zb_tx_coord_realignment_cmd is_broadcast dev dev_short junk r s =
     (let mode = (if is_broadcast then MODE_16BIT else MODE_64BIT) in
      do { hlen \<leftarrow> zb_mac_calculate_mhr_length MODE_64BIT mode 0;
           fc \<leftarrow> mac_fcf MAC_FRAME_COMMAND 0 (if is_broadcast then 0 else 1) 0 mode MODE_64BIT;
           let m = \<lparr>frame_control = fc, seq_number = mac_dsn (pib s), dst_pan_id = ZB_BROADCAST_PAN_ID,
                    dst_addr = realign_dst is_broadcast dev junk, src_pan_id = mac_pan_id (pib s),
                    src_addr = mac_extended_address (pib s)\<rparr>;
           s1 \<leftarrow> build_frame (operation_buf s) (hlen + 9) m hlen
                  ([MAC_CMD_COORDINATOR_REALIGNMENT] @ htole16 (st_pan_id r) @ htole16 (mac_short_address (pib s))
                   @ [st_logical_channel r] @ htole16 (if is_broadcast then ZB_MAC_SHORT_ADDR_NO_VALUE else dev_short)
                   @ [st_channel_page r]) (zb_inc_mac_dsn s);
           send_operation_buf s1 })"

text \<open>The realignment of the whole network is sent as one for a single device that is not named.\<close>

definition zb_realign_pan :: "ieee \<Rightarrow> zb_mlme_start_req \<Rightarrow> mac_node \<Rightarrow> (zb_ret \<times> mac_node) option" where
  "zb_realign_pan junk r s =
     do { s1 \<leftarrow> ZB_WAIT_FOR_TX s;
          s2 \<leftarrow> zb_tx_coord_realignment_cmd False None 0 junk r s1;
          s3 \<leftarrow> ZB_WAIT_FOR_TX s2;
          Some (zb_check_cmd_tx_status s3, s3) }"

definition zb_mac_update_superframe_and_pib :: "zb_mlme_start_req \<Rightarrow> mac_node \<Rightarrow> mac_node" where
  "zb_mac_update_superframe_and_pib r s =
     (let s1 = on_pib (\<lambda>q. q\<lparr>mac_beacon_order := st_beacon_order r,
                mac_superframe_order := ucast (if st_beacon_order r = ZB_TURN_OFF_ORDER then ZB_TURN_OFF_ORDER else st_superframe_order r),
                mac_pan_id := st_pan_id r, phy_current_page := st_channel_page r, phy_current_channel := st_logical_channel r\<rparr>) s
      in s1\<lparr>current_channel := phy_current_channel (pib s1)\<rparr>)"

definition zb_mac_process_mlme_start :: "nat \<Rightarrow> ieee \<Rightarrow> zb_mlme_start_req \<Rightarrow> mac_node \<Rightarrow> mac_node option" where
  "zb_mac_process_mlme_start p junk r s =
     (let s1 = s\<lparr>mac_status := MAC_SUCCESS\<rparr>;
          r1 = (if st_beacon_order r = ZB_TURN_OFF_ORDER then r\<lparr>st_superframe_order := ZB_TURN_OFF_ORDER\<rparr> else r)
      in do { (ret, s2) \<leftarrow> (if st_coord_realignment r1 then zb_realign_pan junk r1 s1 else Some (RET_OK, s1));
              let s3 = (if ret = RET_OK then
                          (let s4 = zb_mac_update_superframe_and_pib r1 s2
                           in if mac_beacon_order (pib s4) < ZB_TURN_OFF_ORDER
                              then on_pib (\<lambda>q. q\<lparr>mac_batt_life_ext := st_battery_life_extension r1\<rparr>) s4 else s4)
                        else s2);
              Some (if ret \<noteq> RET_BLOCKED then
                      emit_m (Start_confirm p)
                        ((mac_buf_status p (ucast (if ret = RET_OK then MAC_SUCCESS else mac_status s3)) s3)\<lparr>dev_type_ffd := True\<rparr>)
                    else s3) })"

definition SIZEOF_START_REQ :: nat where "SIZEOF_START_REQ = 7"

definition zb_mlme_start_request :: "nat \<Rightarrow> ieee \<Rightarrow> zb_mlme_start_req \<Rightarrow> mac_node \<Rightarrow> mac_node option" where
  "zb_mlme_start_request p junk r s =
     do { assert_that (tail_fits SIZEOF_START_REQ (mbufs s p));
          let bad = st_beacon_order r > ZB_TURN_OFF_ORDER
                    \<or> st_superframe_order r > st_beacon_order r \<and> st_superframe_order r \<noteq> ZB_TURN_OFF_ORDER;
          if \<not> bad \<and> mac_short_address (pib s) \<noteq> ZB_MAC_SHORT_ADDR_NO_VALUE then
            (let s1 = s\<lparr>pending_buf := Some p\<rparr> in
             if \<not> mac_joined_pro s1 then zb_mac_process_mlme_start p junk r s1 else Some s1)
          else Some s }"

section \<open>Orphans\<close>

text \<open>
  The parameters of the response and those of the realignment share the end of the buffer, so they are its bytes here: the
  address of the orphan, its short address, two bytes that are not used, and whether it is associated.
\<close>

definition ORESP_AT :: nat where "ORESP_AT = ZB_IO_BUF_SIZE - 16"
definition START_REQ_AT :: nat where "START_REQ_AT = ZB_IO_BUF_SIZE - SIZEOF_START_REQ"

definition oresp_addr :: "zb_buf \<Rightarrow> ieee" where "oresp_addr b = bytes_at ORESP_AT 8 b"
definition oresp_short :: "zb_buf \<Rightarrow> u16" where "oresp_short b = letoh16 (bytes_at (ORESP_AT + 8) 2 b)"

definition start_req_of_bytes :: "zb_buf \<Rightarrow> zb_mlme_start_req" where
  "start_req_of_bytes b =
     (let t = bytes_at START_REQ_AT SIZEOF_START_REQ b in
      \<lparr>st_pan_id = letoh16 (take 2 t), st_logical_channel = t ! 2, st_channel_page = t ! 3, st_beacon_order = t ! 4,
       st_superframe_order = t ! 5, st_battery_life_extension = drop_bit 1 (t ! 6) AND 1,
       st_coord_realignment = (drop_bit 2 (t ! 6) AND 1 \<noteq> 0)\<rparr>)"

definition zb_mlme_handle_orphan_response :: "nat \<Rightarrow> ieee \<Rightarrow> mac_node \<Rightarrow> mac_node option" where
  "zb_mlme_handle_orphan_response p junk s =
     (let b = mbufs s p; addr = oresp_addr b; short = oresp_short b; s1 = s\<lparr>pending_buf := Some p\<rparr> in
      do { assert_that (tail_fits 16 b);
           b1 \<leftarrow> write_bytes START_REQ_AT (htole16 (mac_pan_id (pib s1)) @ [current_channel s1, 0]) b;
           let s2 = (set_mbuf p b1 s1)\<lparr>tx_wait_cb := Some Orphan_response_continue, tx_wait_cb_arg := p\<rparr>;
           zb_tx_coord_realignment_cmd False (Some addr) short junk (start_req_of_bytes b1) s2 })"

definition zb_mlme_handle_orphan_response_continue :: "mac_node \<Rightarrow> mac_node option" where
  "zb_mlme_handle_orphan_response_continue s =
     (let s1 = ZB_SKIP_TX_CHK s in
      do { pb \<leftarrow> pending_buf s1;
           let b = mbufs s1 pb;
           assert_that (tail_fits SIZEOF_COMM_STATUS_INDICATION b);
           Some (emit_m (Comm_status_indication pb MAC_SUCCESS MODE_64BIT (oresp_addr b) MODE_16BIT (union_short (oresp_short b))) s1) })"

section \<open>Scans\<close>

definition ZB_MAC_START_CHANNEL_NUMBER :: nat where "ZB_MAC_START_CHANNEL_NUMBER = 11"
definition ZB_MAC_MAX_CHANNEL_NUMBER :: nat where "ZB_MAC_MAX_CHANNEL_NUMBER = 26"
definition ZB_MAX_SCAN_DURATION_VALUE :: nat where "ZB_MAX_SCAN_DURATION_VALUE = 14"

definition zb_beacon_request_command :: "mac_node \<Rightarrow> mac_node option" where
  "zb_beacon_request_command s =
     do { hlen \<leftarrow> zb_mac_calculate_mhr_length MODE_16BIT MODE_NO_ADDR 0;
          fc \<leftarrow> mac_fcf MAC_FRAME_COMMAND 0 0 0 MODE_16BIT MODE_NO_ADDR;
          s1 \<leftarrow> build_frame (operation_buf s) (hlen + 1)
                 (no_addr_mhr\<lparr>frame_control := fc, seq_number := mac_dsn (pib s), dst_pan_id := ZB_BROADCAST_PAN_ID,
                    dst_addr := union_short ZB_MAC_SHORT_ADDR_NO_VALUE\<rparr>) hlen [MAC_CMD_BEACON_REQUEST] (zb_inc_mac_dsn s);
          send_operation_buf s1 }"

definition zb_orphan_notification_command :: "mac_node \<Rightarrow> mac_node option" where
  "zb_orphan_notification_command s =
     do { hlen \<leftarrow> zb_mac_calculate_mhr_length MODE_64BIT MODE_16BIT 1;
          fc \<leftarrow> mac_fcf MAC_FRAME_COMMAND 0 0 1 MODE_16BIT MODE_64BIT;
          s1 \<leftarrow> build_frame (operation_buf s) (hlen + 1)
                 (no_addr_mhr\<lparr>frame_control := fc, seq_number := mac_dsn (pib s), dst_pan_id := ZB_BROADCAST_PAN_ID,
                    dst_addr := union_short ZB_MAC_SHORT_ADDR_NO_VALUE, src_addr := mac_extended_address (pib s)\<rparr>)
                 hlen [MAC_CMD_ORPHAN_NOTIFICATION] (zb_inc_mac_dsn s);
          send_operation_buf s1 }"

text \<open>
  The channel that comes next: the loop looks at the numbers from the first channel to the sum of it and the last one. A shift by
  more than 31 places has no defined value in C; here it gives none of the bits.
\<close>

definition next_channel :: "u32 \<Rightarrow> nat option" where
  "next_channel unscanned =
     find (\<lambda>c. bit unscanned c) [ZB_MAC_START_CHANNEL_NUMBER..<ZB_MAC_START_CHANNEL_NUMBER + ZB_MAC_MAX_CHANNEL_NUMBER]"

definition scan_timeout :: "nat \<Rightarrow> zb_time" where
  "scan_timeout duration = of_nat (2 ^ duration + 1)"

definition scan_channel :: "nat \<Rightarrow> zb_mlme_scan_params \<Rightarrow> mac_node \<Rightarrow> mac_node option" where
  "scan_channel c r s =
     (let alarm = M_alarm Scan_step (scan_timeout (sp_scan_duration r));
          s1 = (if sp_scan_type r = ED_SCAN then emit_m alarm (s\<lparr>ed_scan_step_passed := True\<rparr>) else s);
          s2 = s1\<lparr>current_channel := of_nat c, unscanned_channels := unset_bit c (unscanned_channels s1)\<rparr>
      in do { s3 \<leftarrow> (if sp_scan_type r = ACTIVE_SCAN then zb_beacon_request_command s2
                     else if sp_scan_type r = ORPHAN_SCAN then
                       do { s4 \<leftarrow> zb_orphan_notification_command s2; ZB_WAIT_FOR_TX s4 }
                     else Some s2);
              Some (emit_m alarm (emit_m (M_cancel Scan_step) s3)) })"

definition SIZEOF_SCAN_CONFIRM :: nat where "SIZEOF_SCAN_CONFIRM = 23"

definition zb_mlme_scan_step :: "mac_node \<Rightarrow> mac_node option" where
  "zb_mlme_scan_step s =
     do { p \<leftarrow> pending_buf s;
          assert_that (tail_fits SIZEOF_SCAN_PARAMS (mbufs s p));
          let r = scan_params s p;
          let s1 = s\<lparr>mlme_scan_in_progress := True\<rparr>;
          case next_channel (unscanned_channels s1) of
            Some c \<Rightarrow> scan_channel c r s1
          | None \<Rightarrow>
              do { assert_that (tail_fits SIZEOF_SCAN_CONFIRM (mbufs s1 p));
                   let found = sp_scan_type r = ED_SCAN \<or> rt_ctx s1 ! 1 \<noteq> 0 \<or> rt_ctx s1 ! 0 \<noteq> 0;
                   let s0 = (if sp_scan_type r = ED_SCAN then s1\<lparr>current_channel := rt_ctx s1 ! 2\<rparr> else s1);
                   let s2 = (if found then s0\<lparr>rt_ctx := (rt_ctx s0)[1 := 0]\<rparr> else s0);
                   Some (emit_m (Scan_confirm p (if found then MAC_SUCCESS else MAC_NO_BEACON) (sp_scan_type r))
                           (s2\<lparr>mlme_scan_in_progress := False\<rparr>)) } }"

definition zb_mlme_active_scan :: "nat \<Rightarrow> mac_node \<Rightarrow> mac_node" where
  "zb_mlme_active_scan p s =
     emit_m (M_call Scan_step_cb 0) (s\<lparr>rt_ctx := (rt_ctx s)[1 := 0], unscanned_channels := sp_channels (scan_params s p)\<rparr>)"

definition zb_mlme_orphan_scan :: "nat \<Rightarrow> mac_node \<Rightarrow> mac_node" where
  "zb_mlme_orphan_scan p s =
     emit_m (M_alarm Scan_step ZB_MAC_RESPONSE_WAIT_TIME)
       (s\<lparr>unscanned_channels := sp_channels (scan_params s p), rt_ctx := (rt_ctx s)[0 := 0]\<rparr>)"

text \<open>The simulator build has no energy to measure and confirms at once, with a status and a kind of zero.\<close>

definition zb_mlme_ed_scan :: "nat \<Rightarrow> mac_node \<Rightarrow> mac_node" where
  "zb_mlme_ed_scan p s =
     emit_m (Scan_confirm p 0 0)
       (set_mbuf p (zb_buf_reuse (mbufs s p))
         (s\<lparr>unscanned_channels := sp_channels (scan_params s p),
            rt_ctx := (rt_ctx s)[0 := of_nat (2 ^ sp_scan_duration (scan_params s p) + 1)]\<rparr>))"

definition zb_handle_scan_request :: "nat \<Rightarrow> mac_node \<Rightarrow> mac_node option" where
  "zb_handle_scan_request p s =
     do { assert_that (tail_fits SIZEOF_SCAN_PARAMS (mbufs s p));
          let s1 = s\<lparr>pending_buf := Some p\<rparr>;
          let t = sp_scan_type (scan_params s1 p);
          Some (if t = ACTIVE_SCAN then zb_mlme_active_scan p s1
                else if t = ED_SCAN then (zb_mlme_ed_scan p s1)\<lparr>ed_scan_step_passed := False\<rparr>
                else if t = ORPHAN_SCAN then zb_mlme_orphan_scan p s1
                else s1\<lparr>mac_status := MAC_INVALID_PARAMETER\<rparr>) }"

text \<open>A request that is not taken is confirmed in the buffer that is pending, which is not its own.\<close>

definition zb_mlme_scan_request :: "nat \<Rightarrow> mac_node \<Rightarrow> mac_node option" where
  "zb_mlme_scan_request p s =
     do { assert_that (tail_fits SIZEOF_SCAN_PARAMS (mbufs s p));
          let r = scan_params s p;
          let bad = sp_scan_duration r > ZB_MAX_SCAN_DURATION_VALUE \<and> sp_scan_type r \<noteq> ORPHAN_SCAN;
          let s1 = s\<lparr>mac_status := (if bad then MAC_INVALID_PARAMETER else MAC_SUCCESS)\<rparr>;
          if \<not> bad \<and> \<not> mlme_scan_in_progress s1 then
            Some (emit_m (M_call Handle_scan_request p) (s1\<lparr>pending_buf := Some p\<rparr>))
          else
            do { pb \<leftarrow> pending_buf s1;
                 assert_that (tail_fits SIZEOF_SCAN_CONFIRM (mbufs s1 pb));
                 Some (emit_m (Scan_confirm pb (if \<not> bad then MAC_SUCCESS else mac_status s1) (sp_scan_type r)) s1) } }"

section \<open>The main loop\<close>

definition run_wait :: "mac_wait \<Rightarrow> mac_node \<Rightarrow> mac_node option" where
  "run_wait w s =
     (case w of
        Mcps_data_req_continue \<Rightarrow> zb_handle_mcps_data_req_continue (tx_wait_cb_arg s) s
      | Data_request_cmd_continue \<Rightarrow> zb_handle_data_request_cmd_continue s
      | Association_req_continue \<Rightarrow> Some (zb_mlme_send_association_req_continue s)
      | Orphan_response_continue \<Rightarrow> zb_mlme_handle_orphan_response_continue s)"

definition run_tx :: "mac_tx \<Rightarrow> nat \<Rightarrow> ieee \<Rightarrow> mac_node \<Rightarrow> mac_node option" where
  "run_tx f p junk s =
     (case f of
        Handle_mcps_data_req \<Rightarrow> zb_handle_mcps_data_req p s
      | Accept_data_request_cmd \<Rightarrow> zb_accept_data_request_cmd p s
      | Handle_beacon_req \<Rightarrow> zb_handle_beacon_req s
      | Handle_poll_request \<Rightarrow> zb_handle_poll_request p s
      | Handle_orphan_response \<Rightarrow> zb_mlme_handle_orphan_response p junk s)"

definition mac_tx_turn :: "ieee \<Rightarrow> mac_node \<Rightarrow> mac_node option" where
  "mac_tx_turn junk s =
     (case tx_wait_cb s of
        Some w \<Rightarrow>
          if tx_cnt s \<noteq> 0 then map_option (\<lambda>s1. s1\<lparr>tx_wait_cb := None\<rparr>) (run_wait w (s\<lparr>tx_cnt := 0\<rparr>)) else Some s
      | None \<Rightarrow>
          (case ring_peek (tx_q s) of
             None \<Rightarrow> Some s
           | Some e \<Rightarrow> map_option (\<lambda>s1. s1\<lparr>tx_q := ring_flush_get (tx_q s1)\<rparr>) (run_tx (cb_func e) (unat (cb_param e)) junk s)))"

definition zb_mac_main_loop :: "ieee \<Rightarrow> mac_node \<Rightarrow> mac_node option" where
  "zb_mac_main_loop junk s = do { s1 \<leftarrow> mac_tx_turn junk s; recv_next s1 }"

end
