(* ===== verification/Mac_Pib.thy ===== *)
theory Mac_Pib
  imports Mac_Mlme
begin

text \<open>
  The services that read and write the attributes of the MAC layer, \<^verbatim>\<open>mac/mac.c\<close>. A request is at the beginning of its
  buffer: the number of the attribute in four bytes, the index, and for a new value its length and the value. A confirm
  has the status, the number, the index, the length and the value.
\<close>

section \<open>Attributes\<close>

definition ZB_PHY_PIB_CURRENT_CHANNEL :: u32 where "ZB_PHY_PIB_CURRENT_CHANNEL = 0x00"
definition ZB_PHY_PIB_CURRENT_PAGE :: u32 where "ZB_PHY_PIB_CURRENT_PAGE = 0x04"
definition ATTR_ACK_WAIT_DURATION :: u32 where "ATTR_ACK_WAIT_DURATION = 0x40"
definition ATTR_ASSOCIATION_PERMIT :: u32 where "ATTR_ASSOCIATION_PERMIT = 0x41"
definition ATTR_BATT_LIFE_EXT :: u32 where "ATTR_BATT_LIFE_EXT = 0x43"
definition ATTR_BEACON_PAYLOAD :: u32 where "ATTR_BEACON_PAYLOAD = 0x45"
definition ATTR_BEACON_PAYLOAD_LENGTH :: u32 where "ATTR_BEACON_PAYLOAD_LENGTH = 0x46"
definition ATTR_BEACON_ORDER :: u32 where "ATTR_BEACON_ORDER = 0x47"
definition ATTR_BSN :: u32 where "ATTR_BSN = 0x49"
definition ATTR_COORD_EXTEND_ADDRESS :: u32 where "ATTR_COORD_EXTEND_ADDRESS = 0x4a"
definition ATTR_COORD_SHORT_ADDRESS :: u32 where "ATTR_COORD_SHORT_ADDRESS = 0x4b"
definition ATTR_DSN :: u32 where "ATTR_DSN = 0x4c"
definition ATTR_PANID :: u32 where "ATTR_PANID = 0x50"
definition ATTR_RX_ON_WHEN_IDLE :: u32 where "ATTR_RX_ON_WHEN_IDLE = 0x52"
definition ATTR_SHORT_ADDRESS :: u32 where "ATTR_SHORT_ADDRESS = 0x53"
definition ATTR_SUPER_FRAME_ORDER :: u32 where "ATTR_SUPER_FRAME_ORDER = 0x54"
definition ATTR_TRANSACTION_PERSISTENCE_TIME :: u32 where "ATTR_TRANSACTION_PERSISTENCE_TIME = 0x55"
definition ATTR_ASSOCIATED_PAN_COORD :: u32 where "ATTR_ASSOCIATED_PAN_COORD = 0x56"
definition ATTR_MAX_FRAME_TOTAL_WAIT_TIME :: u32 where "ATTR_MAX_FRAME_TOTAL_WAIT_TIME = 0x58"
definition ATTR_MAX_FRAME_RETRIES :: u32 where "ATTR_MAX_FRAME_RETRIES = 0x59"
definition ATTR_RESPONSE_WAIT_TIME :: u32 where "ATTR_RESPONSE_WAIT_TIME = 0x5a"

lemmas pib_attrs =
  ZB_PHY_PIB_CURRENT_CHANNEL_def ZB_PHY_PIB_CURRENT_PAGE_def ATTR_ACK_WAIT_DURATION_def ATTR_ASSOCIATION_PERMIT_def
  ATTR_BATT_LIFE_EXT_def ATTR_BEACON_PAYLOAD_def ATTR_BEACON_PAYLOAD_LENGTH_def ATTR_BEACON_ORDER_def ATTR_BSN_def
  ATTR_COORD_EXTEND_ADDRESS_def ATTR_COORD_SHORT_ADDRESS_def ATTR_DSN_def ATTR_PANID_def ATTR_RX_ON_WHEN_IDLE_def
  ATTR_SHORT_ADDRESS_def ATTR_SUPER_FRAME_ORDER_def ATTR_TRANSACTION_PERSISTENCE_TIME_def ATTR_ASSOCIATED_PAN_COORD_def
  ATTR_MAX_FRAME_TOTAL_WAIT_TIME_def ATTR_MAX_FRAME_RETRIES_def ATTR_RESPONSE_WAIT_TIME_def

definition MAC_UNSUPPORTED_ATTRIBUTE :: u8 where "MAC_UNSUPPORTED_ATTRIBUTE = 0xf4"

text \<open>The fixed waiting times, \<^verbatim>\<open>ZB_MAC_PIB_ACK_WAIT_DURATION\<close> being 20 + 12 + 40 + 16.\<close>

definition ZB_MAC_PIB_ACK_WAIT_DURATION :: u16 where "ZB_MAC_PIB_ACK_WAIT_DURATION = 88"
definition ZB_MAC_MAX_FRAME_RETRIES :: u8 where "ZB_MAC_MAX_FRAME_RETRIES = 3"
definition SIZEOF_BEACON_PAYLOAD :: nat where "SIZEOF_BEACON_PAYLOAD = 15"
definition SIZEOF_GET_CONFIRM :: nat where "SIZEOF_GET_CONFIRM = 7"
definition SIZEOF_SET_REQUEST :: nat where "SIZEOF_SET_REQUEST = 6"
definition SIZEOF_SET_CONFIRM :: nat where "SIZEOF_SET_CONFIRM = 6"

text \<open>
  What reading an attribute puts into the confirm: the length, the position of the value, and the bytes that are written there.
  Most values of two bytes are assigned through a pointer to one byte. The two waiting times are written behind a pointer
  to two bytes, at twice the distance. \<open>None\<close> is no such attribute.
\<close>

definition one_byte :: "u8 \<Rightarrow> (nat \<times> nat \<times> u8 list) option" where "one_byte v = Some (1, SIZEOF_GET_CONFIRM, [v])"
definition low_byte :: "u16 \<Rightarrow> (nat \<times> nat \<times> u8 list) option" where "low_byte v = Some (2, SIZEOF_GET_CONFIRM, [ucast v])"
definition far_word :: "u16 \<Rightarrow> (nat \<times> nat \<times> u8 list) option" where "far_word v = Some (2, 2 * SIZEOF_GET_CONFIRM, htole16 v)"

definition pib_read :: "u32 \<Rightarrow> mac_node \<Rightarrow> (nat \<times> nat \<times> u8 list) option" where
  "pib_read a s =
     (let q = pib s in
      if a = ZB_PHY_PIB_CURRENT_CHANNEL then one_byte (phy_current_channel q)
      else if a = ZB_PHY_PIB_CURRENT_PAGE then one_byte (phy_current_page q)
      else if a = ATTR_ACK_WAIT_DURATION then low_byte ZB_MAC_PIB_ACK_WAIT_DURATION
      else if a = ATTR_ASSOCIATION_PERMIT then one_byte (mac_association_permit q)
      else if a = ATTR_BATT_LIFE_EXT then one_byte (mac_batt_life_ext q)
      else if a = ATTR_BEACON_PAYLOAD then
        Some (SIZEOF_BEACON_PAYLOAD, SIZEOF_GET_CONFIRM, take SIZEOF_BEACON_PAYLOAD (mac_beacon_payload q))
      else if a = ATTR_BEACON_PAYLOAD_LENGTH then one_byte (mac_beacon_payload_length q)
      else if a = ATTR_BEACON_ORDER then one_byte (mac_beacon_order q)
      else if a = ATTR_BSN then one_byte (mac_bsn q)
      else if a = ATTR_COORD_SHORT_ADDRESS then low_byte (mac_coord_short_address q)
      else if a = ATTR_DSN then one_byte (mac_dsn q)
      else if a = ATTR_PANID then low_byte (mac_pan_id q)
      else if a = ATTR_RX_ON_WHEN_IDLE then one_byte (mac_rx_on_when_idle q)
      else if a = ATTR_SHORT_ADDRESS then low_byte (mac_short_address q)
      else if a = ATTR_SUPER_FRAME_ORDER then low_byte (mac_superframe_order q)
      else if a = ATTR_TRANSACTION_PERSISTENCE_TIME then far_word ZB_MAC_TRANSACTION_PERSISTENCE_TIME
      else if a = ATTR_MAX_FRAME_TOTAL_WAIT_TIME then far_word ZB_MAX_FRAME_TOTAL_WAIT_TIME
      else if a = ATTR_MAX_FRAME_RETRIES then one_byte ZB_MAC_MAX_FRAME_RETRIES
      else if a = ATTR_RESPONSE_WAIT_TIME then one_byte (ucast ZB_MAC_RESPONSE_WAIT_TIME)
      else None)"

section \<open>Reading\<close>

text \<open>The index of an attribute that does not exist is left as it is in the memory.\<close>

definition zb_mlme_get_request :: "nat \<Rightarrow> mac_node \<Rightarrow> mac_node option" where
  "zb_mlme_get_request p s =
     (let b = mbufs s p; attr = bytes_at (boff b) 4 b; a = letoh32 attr;
          (st, len, off, val) =
            (case pib_read a s of
               Some (len, off, val) \<Rightarrow> (MAC_SUCCESS, len, off, val)
             | None \<Rightarrow> (MAC_UNSUPPORTED_ATTRIBUTE, 0, SIZEOF_GET_CONFIRM, []))
      in do { (b1, q) \<leftarrow> zb_buf_initial_alloc b (SIZEOF_GET_CONFIRM + len);
              b2 \<leftarrow> write_bytes (q + 6) [of_nat len] b1;
              b3 \<leftarrow> write_bytes (q + off) val b2;
              b4 \<leftarrow> (if pib_read a s \<noteq> None \<or> a = ATTR_ASSOCIATED_PAN_COORD then write_bytes (q + 5) [0] b3 else Some b3);
              b5 \<leftarrow> write_bytes (q + 1) attr b4;
              b6 \<leftarrow> write_bytes q [st] b5;
              Some (emit_m (Get_confirm p) (set_mbuf p b6 s)) })"

text \<open>The receiver of the confirm fills it again for three attributes before it frees the buffer.\<close>

definition zb_mlme_get_confirm :: "nat \<Rightarrow> mac_node \<Rightarrow> mac_node option" where
  "zb_mlme_get_confirm p s =
     (let b = mbufs s p; a = letoh32 (bytes_at (boff b + 1) 4 b) in
      do { b1 \<leftarrow> (if a = ATTR_BEACON_PAYLOAD_LENGTH \<or> a = ATTR_BEACON_ORDER \<or> a = ATTR_BSN then
                    do { (b2, q) \<leftarrow> zb_buf_initial_alloc b (SIZEOF_GET_CONFIRM + 1);
                         write_bytes (q + 5) [0, 1, mac_beacon_payload_length (pib s)] b2 }
                  else Some b);
           Some (emit_m (M_free p) (set_mbuf p b1 s)) })"

section \<open>Writing\<close>

text \<open>\<open>v\<close> is the memory from the value of the request on.\<close>

definition pib_write :: "u32 \<Rightarrow> u8 list \<Rightarrow> zb_mac_pib \<Rightarrow> zb_mac_pib option" where
  "pib_write a v q =
     (let w = letoh16 (take 2 v) in
      if a = ZB_PHY_PIB_CURRENT_CHANNEL then Some (q\<lparr>phy_current_channel := v ! 0\<rparr>)
      else if a = ZB_PHY_PIB_CURRENT_PAGE then Some (q\<lparr>phy_current_page := v ! 0\<rparr>)
      else if a = ATTR_ASSOCIATION_PERMIT then Some (q\<lparr>mac_association_permit := v ! 0\<rparr>)
      else if a = ATTR_BATT_LIFE_EXT then Some (q\<lparr>mac_batt_life_ext := v ! 0\<rparr>)
      else if a = ATTR_BEACON_PAYLOAD then Some (q\<lparr>mac_beacon_payload := take SIZEOF_BEACON_PAYLOAD v\<rparr>)
      else if a = ATTR_BEACON_PAYLOAD_LENGTH then Some (q\<lparr>mac_beacon_payload_length := v ! 0\<rparr>)
      else if a = ATTR_BEACON_ORDER then Some (q\<lparr>mac_beacon_order := v ! 0\<rparr>)
      else if a = ATTR_BSN then Some (q\<lparr>mac_bsn := v ! 0\<rparr>)
      else if a = ATTR_COORD_SHORT_ADDRESS then Some (q\<lparr>mac_coord_short_address := w\<rparr>)
      else if a = ATTR_COORD_EXTEND_ADDRESS then Some (q\<lparr>mac_coord_extended_address := take 8 v\<rparr>)
      else if a = ATTR_DSN then Some (q\<lparr>mac_dsn := v ! 0\<rparr>)
      else if a = ATTR_PANID then Some (q\<lparr>mac_pan_id := w\<rparr>)
      else if a = ATTR_RX_ON_WHEN_IDLE then Some (q\<lparr>mac_rx_on_when_idle := v ! 0\<rparr>)
      else if a = ATTR_SHORT_ADDRESS then Some (q\<lparr>mac_short_address := w\<rparr>)
      else if a = ATTR_SUPER_FRAME_ORDER then Some (q\<lparr>mac_superframe_order := w\<rparr>)
      else None)"

definition zb_mlme_set_request :: "nat \<Rightarrow> mac_node \<Rightarrow> mac_node option" where
  "zb_mlme_set_request p s =
     (let b = mbufs s p; attr = bytes_at (boff b) 4 b; a = letoh32 attr;
          v = mem_from (boff b + SIZEOF_SET_REQUEST) b;
          (st, s1) =
            (case pib_write a v (pib s) of
               Some q \<Rightarrow> (MAC_SUCCESS, if a = ZB_PHY_PIB_CURRENT_CHANNEL then s\<lparr>pib := q, current_channel := phy_current_channel q\<rparr>
                                     else s\<lparr>pib := q\<rparr>)
             | None \<Rightarrow> (MAC_UNSUPPORTED_ATTRIBUTE, s))
      in do { (b1, k) \<leftarrow> zb_buf_initial_alloc b SIZEOF_SET_CONFIRM;
              b2 \<leftarrow> write_bytes k (st # attr @ [0]) b1;
              Some (emit_m (Set_confirm p) (set_mbuf p b2 s1)) })"

definition zb_mlme_reset_request :: "nat \<Rightarrow> mac_node \<Rightarrow> mac_node option" where
  "zb_mlme_reset_request p s =
     do { assert_that (tail_fits 1 (mbufs s p)); Some (emit_m (Reset_confirm p) (mac_buf_status p 0 s)) }"

end
