(* ===== verification/Mac_Lemmas.thy ===== *)
theory Mac_Lemmas
  imports Mac_Pib Mac_Frame_Props Nwk_Frame_Props
begin

text \<open>
  What the steps of the MAC layer leave alone, and the bytes that they send.
\<close>

section \<open>State\<close>

lemma emit_m_sel [simp]:
  "macts (emit_m a s) = macts s @ [a]" "mbufs (emit_m a s) = mbufs s" "pending_data_queue (emit_m a s) = pending_data_queue s"
  "pending_buf (emit_m a s) = pending_buf s" "operation_buf (emit_m a s) = operation_buf s"
  "encryption_buf (emit_m a s) = encryption_buf s" "mac_flags (emit_m a s) = mac_flags s" "rx_q (emit_m a s) = rx_q s"
  "out_q (emit_m a s) = out_q s" "pib (emit_m a s) = pib s" "tx_cnt (emit_m a s) = tx_cnt s" "mac_status (emit_m a s) = mac_status s"
  "retry_counter (emit_m a s) = retry_counter s" "ack_dsn (emit_m a s) = ack_dsn s" "rt_ctx (emit_m a s) = rt_ctx s"
  "mcps_req (emit_m a s) = mcps_req s" "tx_wait_cb (emit_m a s) = tx_wait_cb s" "data_req_storage (emit_m a s) = data_req_storage s"
  "mac_joined_pro (emit_m a s) = mac_joined_pro s" "poll_request_flag (emit_m a s) = poll_request_flag s" "mac_sec (emit_m a s) = mac_sec s"
  "tx_wait_cb_arg (emit_m a s) = tx_wait_cb_arg s" "unscanned_channels (emit_m a s) = unscanned_channels s" "tx_q (emit_m a s) = tx_q s"
  "scan_params (emit_m a s) = scan_params s" "current_channel (emit_m a s) = current_channel s"
  "mlme_scan_in_progress (emit_m a s) = mlme_scan_in_progress s"
  by (simp_all add: emit_m_def)

lemma set_mbuf_sel [simp]:
  "macts (set_mbuf p b s) = macts s" "mbufs (set_mbuf p b s) = (mbufs s)(p := b)" "pending_data_queue (set_mbuf p b s) = pending_data_queue s"
  "pending_buf (set_mbuf p b s) = pending_buf s" "operation_buf (set_mbuf p b s) = operation_buf s"
  "encryption_buf (set_mbuf p b s) = encryption_buf s" "mac_flags (set_mbuf p b s) = mac_flags s" "rx_q (set_mbuf p b s) = rx_q s"
  "out_q (set_mbuf p b s) = out_q s" "pib (set_mbuf p b s) = pib s" "tx_cnt (set_mbuf p b s) = tx_cnt s"
  "mac_status (set_mbuf p b s) = mac_status s" "retry_counter (set_mbuf p b s) = retry_counter s"
  "ack_dsn (set_mbuf p b s) = ack_dsn s" "rt_ctx (set_mbuf p b s) = rt_ctx s" "mcps_req (set_mbuf p b s) = mcps_req s"
  "tx_wait_cb (set_mbuf p b s) = tx_wait_cb s" "data_req_storage (set_mbuf p b s) = data_req_storage s"
  "mac_joined_pro (set_mbuf p b s) = mac_joined_pro s" "poll_request_flag (set_mbuf p b s) = poll_request_flag s"
  "mac_sec (set_mbuf p b s) = mac_sec s" "tx_wait_cb_arg (set_mbuf p b s) = tx_wait_cb_arg s"
  "unscanned_channels (set_mbuf p b s) = unscanned_channels s" "tx_q (set_mbuf p b s) = tx_q s"
  "scan_params (set_mbuf p b s) = scan_params s" "current_channel (set_mbuf p b s) = current_channel s"
  "mlme_scan_in_progress (set_mbuf p b s) = mlme_scan_in_progress s"
  by (simp_all add: set_mbuf_def)

lemma on_pib_sel [simp]:
  "macts (on_pib f s) = macts s" "mbufs (on_pib f s) = mbufs s" "pending_data_queue (on_pib f s) = pending_data_queue s"
  "pending_buf (on_pib f s) = pending_buf s" "operation_buf (on_pib f s) = operation_buf s"
  "encryption_buf (on_pib f s) = encryption_buf s" "mac_flags (on_pib f s) = mac_flags s" "rx_q (on_pib f s) = rx_q s"
  "out_q (on_pib f s) = out_q s" "pib (on_pib f s) = f (pib s)" "tx_cnt (on_pib f s) = tx_cnt s"
  "mac_status (on_pib f s) = mac_status s" "retry_counter (on_pib f s) = retry_counter s" "rt_ctx (on_pib f s) = rt_ctx s"
  "mcps_req (on_pib f s) = mcps_req s" "tx_wait_cb (on_pib f s) = tx_wait_cb s" "data_req_storage (on_pib f s) = data_req_storage s"
  "scan_params (on_pib f s) = scan_params s" "unscanned_channels (on_pib f s) = unscanned_channels s"
  "current_channel (on_pib f s) = current_channel s" "mlme_scan_in_progress (on_pib f s) = mlme_scan_in_progress s"
  "poll_request_flag (on_pib f s) = poll_request_flag s" "ack_dsn (on_pib f s) = ack_dsn s" "tx_q (on_pib f s) = tx_q s"
  "mac_joined_pro (on_pib f s) = mac_joined_pro s" "mac_sec (on_pib f s) = mac_sec s" "tx_wait_cb_arg (on_pib f s) = tx_wait_cb_arg s"
  by (simp_all add: on_pib_def)

lemma bindE: "Option.bind x f = Some y \<Longrightarrow> (\<And>v. x = Some v \<Longrightarrow> f v = Some y \<Longrightarrow> P) \<Longrightarrow> P"
  by (cases x) auto

lemma assert_that_Some [simp]: "assert_that b = Some u \<longleftrightarrow> b"
  by (cases u) (simp add: assert_that_def)

lemma assert_that_bind [simp]: "Option.bind (assert_that b) f = (if b then f () else None)"
  by (simp add: assert_that_def)

end
