(* ===== verification/Mac_Bytes.thy ===== *)
theory Mac_Bytes
  imports Mac_Lemmas
begin

text \<open>
  The bytes of the frames that the MAC layer sends, and what the operations on the buffers do with them.
\<close>

section \<open>Frames in buffers\<close>

lemma set_mbuf_set_mbuf [simp]: "set_mbuf p b (set_mbuf p c s) = set_mbuf p b s"
  by (simp add: set_mbuf_def)

lemma set_mbuf_tx_cnt [simp]: "(set_mbuf p b s)\<lparr>tx_cnt := c\<rparr> = set_mbuf p b (s\<lparr>tx_cnt := c\<rparr>)"
  by (simp add: set_mbuf_def)

text \<open>All buffers have their whole memory.\<close>

definition mems_ok :: "mac_node \<Rightarrow> bool" where
  "mems_ok s \<longleftrightarrow> (\<forall>p. length (bytes (mbufs s p)) = ZB_IO_BUF_SIZE)"

lemma mems_ok_set_mbuf [simp]: "mems_ok s \<Longrightarrow> length (bytes b) = ZB_IO_BUF_SIZE \<Longrightarrow> mems_ok (set_mbuf p b s)"
  by (simp add: mems_ok_def)

lemma mems_ok_len [simp]: "mems_ok s \<Longrightarrow> length (bytes (mbufs s p)) = ZB_IO_BUF_SIZE"
  by (simp add: mems_ok_def)

lemma initial_alloc_hdr:
  "length (bytes b) = ZB_IO_BUF_SIZE \<Longrightarrow> n < ZB_IO_BUF_SIZE \<Longrightarrow>
    zb_buf_initial_alloc b n = Some (b\<lparr>hdr := hdr_zero\<lparr>is_in_buf := is_in_buf (hdr b), h_len := n, data_offset := (ZB_IO_BUF_SIZE - n) div 2\<rparr>\<rparr>,
      (ZB_IO_BUF_SIZE - n) div 2)"
  by (simp add: zb_buf_initial_alloc_def set_off_def set_len_def ZB_IO_BUF_SIZE_def Let_def)

definition fresh_hdr :: "nat \<Rightarrow> zb_buf_hdr \<Rightarrow> zb_buf_hdr" where
  "fresh_hdr n h = hdr_zero\<lparr>is_in_buf := is_in_buf h, h_len := n, data_offset := (ZB_IO_BUF_SIZE - n) div 2\<rparr>"

lemma fresh_hdr_sel [simp]:
  "h_len (fresh_hdr n h) = n" "data_offset (fresh_hdr n h) = (ZB_IO_BUF_SIZE - n) div 2" "is_in_buf (fresh_hdr n h) = is_in_buf h"
  "encrypt_type (fresh_hdr n h) = encrypt_type hdr_zero" "handle (fresh_hdr n h) = handle hdr_zero" "status (fresh_hdr n h) = status hdr_zero"
  by (simp_all add: fresh_hdr_def)

lemma build_frame_bytes:
  assumes "length (bytes (mbufs s p)) = ZB_IO_BUF_SIZE" and n: "n < ZB_IO_BUF_SIZE" "n = length (zb_mac_fill_mhr m) + length body"
    and h: "hlen = length (zb_mac_fill_mhr m)"
  obtains b where "build_frame p n m hlen body s = Some (set_mbuf p b s)" "buf_ok b" "payload b = zb_mac_fill_mhr m @ body"
    "hdr b = fresh_hdr n (hdr (mbufs s p))"
proof -
  let ?f = "zb_mac_fill_mhr m"
  obtain b1 where b1: "zb_buf_initial_alloc (mbufs s p) n = Some (b1, boff b1)" "hdr b1 = fresh_hdr n (hdr (mbufs s p))" "buf_ok b1" "blen b1 = n"
    using initial_alloc_hdr [OF assms(1) n(1)] assms(1) n(1)
    by (auto simp: fresh_hdr_def buf_ok_def ZB_IO_BUF_SIZE_def)
  obtain b2 where b2: "write_bytes (boff b1) (replicate n 0) b1 = Some b2" "buf_ok b2" "hdr b2 = hdr b1" "payload b2 = replicate n 0"
    by (rule write_front [OF b1(3), of "replicate n 0"]) (simp_all add: b1(4) length_payload [OF b1(3)])
  obtain b3 where b3: "write_bytes (boff b2) ?f b2 = Some b3" "buf_ok b3" "hdr b3 = hdr b2" "payload b3 = ?f @ replicate (length body) 0"
    by (rule write_front [OF b2(2), of ?f]) (use n(2) b1(4) b2(3,4) in simp_all)
  obtain b4 where b4: "write_bytes (boff b3 + length ?f) body b3 = Some b4" "buf_ok b4" "hdr b4 = hdr b3" "payload b4 = memcpy (length ?f) body (payload b3)"
    using write_at_payload [OF b3(2), of "length ?f" body] n(2) b1(4) b2(3) b3(3) by auto
  have "build_frame p n m hlen body s = Some (set_mbuf p b4 s)"
    unfolding build_frame_def h using b1(1) b2(1,3) b3(1,3) b4(1) by simp
  moreover have "payload b4 = ?f @ body"
    unfolding b4(4) b3(4) using memcpy_append_mid [of body "replicate (length body) 0" ?f "[]"] by simp
  ultimately show thesis using that b4(2,3) b3(3) b2(3) b1(2) by metis
qed

lemma fcs_add_bytes:
  assumes ok: "buf_ok b" and room: "boff b + blen b + 2 \<le> ZB_IO_BUF_SIZE" "blen b + 2 < ZB_IO_BUF_SIZE"
  obtains b' where "zb_mac_fcs_add b = Some b'" "buf_ok b'" "payload b' = payload b @ htole16 (fcs_loop 0 (payload b))"
    "hdr b' = (hdr b)\<lparr>h_len := blen b + 2\<rparr>"
proof -
  let ?c = "htole16 (fcs_loop 0 (payload b))" and ?b1 = "set_len (blen b + 2) b"
  have a: "zb_buf_smart_alloc_right b 2 = Some (?b1, boff b + blen b)" using room by (simp add: zb_buf_smart_alloc_right_def)
  have h1: "hdr ?b1 = (hdr b)\<lparr>h_len := blen b + 2\<rparr>" "buf_ok ?b1" using ok room by (auto simp: set_len_def buf_ok_def ZB_IO_BUF_SIZE_def)
  have p1: "take (blen b) (payload ?b1) = payload b"
    using h1 by (simp add: payload_def set_len_def min_def)
  obtain b2 where b2: "write_bytes (boff ?b1 + blen b) ?c ?b1 = Some b2" "buf_ok b2" "hdr b2 = hdr ?b1" "payload b2 = memcpy (blen b) ?c (payload ?b1)"
    using write_at_payload [OF h1(2), of "blen b" ?c] h1 by auto
  have "length (payload ?b1) = blen b + 2" using length_payload [OF h1(2)] h1(1) by simp
  then have "payload b2 = payload b @ ?c" unfolding b2(4) using p1 by (simp add: memcpy_def)
  moreover have "zb_mac_fcs_add b = Some b2" unfolding zb_mac_fcs_add_def a Let_def using b2(1) h1(1) by simp
  ultimately show thesis using that b2(2,3) h1(1) by simp
qed

lemma send_command_bytes:
  assumes ok: "buf_ok (mbufs s p)" and room: "1 \<le> boff (mbufs s p)" "blen (mbufs s p) + 1 < ZB_IO_BUF_SIZE"
  obtains b where "ZB_TRANS_SEND_COMMAND p s =
      Some (emit_m (M_sent (of_nat (blen (mbufs s p) + 1) # payload (mbufs s p))) (set_mbuf p b (s\<lparr>tx_cnt := tx_cnt s + 1\<rparr>)))"
    "buf_ok b" "payload b = payload (mbufs s p)" "hdr b = (hdr (mbufs s p))\<lparr>status := RET_BUSY_status\<rparr>"
proof -
  let ?b = "mbufs s p"
  let ?busy = "?b\<lparr>hdr := (hdr ?b)\<lparr>status := RET_BUSY_status\<rparr>\<rparr>"
  have ok0: "buf_ok ?busy" and p0: "payload ?busy = payload ?b" using ok by (simp_all add: buf_ok_def payload_def)
  obtain b1 where b1: "zb_buf_smart_alloc_left ?busy 1 = Some (b1, boff b1)" "buf_ok b1" "blen b1 = blen ?b + 1" "drop 1 (payload b1) = payload ?b"
    using alloc_left_payload [OF ok0, of 1] room p0 by auto
  have h1: "hdr b1 = (hdr ?busy)\<lparr>h_len := blen ?b + 1, data_offset := boff ?b - 1\<rparr>"
    using b1(1) ok room by (clarsimp simp: buf_op_defs buf_ok_def ZB_IO_BUF_SIZE_def)
  obtain b2 where b2: "write_bytes (boff b1) [of_nat (blen b1)] b1 = Some b2" "buf_ok b2" "hdr b2 = hdr b1" "payload b2 = of_nat (blen b1) # payload ?b"
    by (rule write_front [OF b1(2), of "[of_nat (blen b1)]"]) (use b1(3,4) in simp_all)
  obtain b3 where b3: "zb_buf_cut_left b2 1 = Some (b3, boff b3)" "buf_ok b3" "payload b3 = drop 1 (payload b2)"
    using cut_left_payload [OF b2(2), of 1] b2(3) b1(3) by auto
  have h3: "hdr b3 = (hdr ?b)\<lparr>status := RET_BUSY_status\<rparr>"
  proof -
    have e: "b3 = set_off (boff b2 + 1) (set_len (blen b2 - 1) b2)"
      using b3(1) by (auto simp: zb_buf_cut_left_def Let_def split: if_split_asm)
    have l: "blen b2 - 1 = blen ?b" "boff b2 + 1 = boff ?b" using b2(3) h1 room(1) by simp_all
    have m: "blen ?b mod 256 = blen ?b" "boff ?b mod 256 = boff ?b"
      by (rule mod_less, use room ok in \<open>simp add: buf_ok_def ZB_IO_BUF_SIZE_def\<close>)+
    have "hdr b3 = (hdr b2)\<lparr>h_len := blen ?b, data_offset := boff ?b\<rparr>"
      unfolding e l set_off_def set_len_def m by simp
    also have "\<dots> = (hdr ?b)\<lparr>status := RET_BUSY_status\<rparr>" unfolding b2(3) h1 by simp
    finally show ?thesis .
  qed
  have "ZB_TRANS_SEND_COMMAND p s = Some (emit_m (M_sent (payload b2)) (set_mbuf p b3 (s\<lparr>tx_cnt := tx_cnt s + 1\<rparr>)))"
    unfolding ZB_TRANS_SEND_COMMAND_def mac_buf_status_def Let_def using b1(1) b2(1) b3(1)
    by (simp add: set_mbuf_def)
  then show thesis using that b3(2,3) h3 b2(4) b1(3) p0 by simp
qed

section \<open>Frames from the operation buffer\<close>

text \<open>A frame on the air: its length, its bytes and their check sum.\<close>

definition on_air :: "u8 list \<Rightarrow> u8 list" where
  "on_air bs = of_nat (length bs + 3) # bs @ htole16 (fcs_loop 0 bs)"

definition sent_frame :: "u8 list \<Rightarrow> mac_action" where
  "sent_frame bs = M_sent (on_air bs)"

definition op_sent :: "mac_node \<Rightarrow> u8 list \<Rightarrow> mac_node \<Rightarrow> bool" where
  "op_sent s bs s' \<longleftrightarrow> (\<exists>b. s' = emit_m (sent_frame bs) (set_mbuf (operation_buf s) b (s\<lparr>tx_cnt := tx_cnt s + 1\<rparr>)) \<and> buf_ok b)"

lemma op_sent_sel:
  assumes "op_sent s bs s'"
  shows "macts s' = macts s @ [sent_frame bs]" "pending_data_queue s' = pending_data_queue s" "pending_buf s' = pending_buf s"
    "operation_buf s' = operation_buf s" "encryption_buf s' = encryption_buf s" "mac_flags s' = mac_flags s" "rx_q s' = rx_q s"
    "out_q s' = out_q s" "pib s' = pib s" "mac_status s' = mac_status s" "retry_counter s' = retry_counter s"
    "ack_dsn s' = ack_dsn s" "rt_ctx s' = rt_ctx s" "mcps_req s' = mcps_req s" "tx_wait_cb s' = tx_wait_cb s"
    "data_req_storage s' = data_req_storage s" "poll_request_flag s' = poll_request_flag s" "mac_joined_pro s' = mac_joined_pro s"
    "mac_sec s' = mac_sec s" "unscanned_channels s' = unscanned_channels s" "scan_params s' = scan_params s"
    "mlme_scan_in_progress s' = mlme_scan_in_progress s" "p \<noteq> operation_buf s \<Longrightarrow> mbufs s' p = mbufs s p"
    "mems_ok s \<Longrightarrow> mems_ok s'" "tx_cnt s' = tx_cnt s + 1"
  using assms by (auto simp: op_sent_def buf_ok_def mems_ok_def)

lemma send_operation_buf_ok:
  assumes "length (bytes (mbufs s (operation_buf s))) = ZB_IO_BUF_SIZE"
    and n: "n + 4 < ZB_IO_BUF_SIZE" "n = length (zb_mac_fill_mhr m) + length body" and h: "hlen = length (zb_mac_fill_mhr m)"
  obtains s' where "Option.bind (build_frame (operation_buf s) n m hlen body s) send_operation_buf = Some s'"
    "op_sent s (zb_mac_fill_mhr m @ body) s'"
proof -
  let ?p = "operation_buf s" and ?bs = "zb_mac_fill_mhr m @ body"
  obtain b where b: "build_frame ?p n m hlen body s = Some (set_mbuf ?p b s)" "buf_ok b" "payload b = ?bs" "hdr b = fresh_hdr n (hdr (mbufs s ?p))"
    by (rule build_frame_bytes [OF assms(1) _ n(2) h]) (use n(1) in simp)
  obtain b2 where b2: "zb_mac_fcs_add b = Some b2" "buf_ok b2" "payload b2 = ?bs @ htole16 (fcs_loop 0 ?bs)" "hdr b2 = (hdr b)\<lparr>h_len := blen b + 2\<rparr>"
    by (rule fcs_add_bytes [OF b(2)]) (use b(3,4) n(1) in \<open>simp_all add: ZB_IO_BUF_SIZE_def\<close>)
  let ?s2 = "set_mbuf ?p b2 s"
  obtain b3 where b3: "ZB_TRANS_SEND_COMMAND ?p ?s2 = Some (emit_m (M_sent (of_nat (blen b2 + 1) # payload b2)) (set_mbuf ?p b3 (?s2\<lparr>tx_cnt := tx_cnt ?s2 + 1\<rparr>)))"
      "buf_ok b3"
    by (rule send_command_bytes [of ?s2 ?p]) (use b2(2,4) b(4) n(1) in \<open>simp_all add: ZB_IO_BUF_SIZE_def\<close>)
  have "blen b2 + 1 = length ?bs + 3" using b2(4) b(4) n(2) by simp
  then have "send_operation_buf (set_mbuf ?p b s) = Some (emit_m (sent_frame ?bs) (set_mbuf ?p b3 (s\<lparr>tx_cnt := tx_cnt s + 1\<rparr>)))"
    unfolding send_operation_buf_def MAC_ADD_FCS_def sent_frame_def on_air_def using b2(1,3) b3(1) by (simp add: add.commute)
  then have "Option.bind (build_frame ?p n m hlen body s) send_operation_buf = Some (emit_m (sent_frame ?bs) (set_mbuf ?p b3 (s\<lparr>tx_cnt := tx_cnt s + 1\<rparr>)))"
    unfolding b(1) by simp
  moreover have "op_sent s ?bs (emit_m (sent_frame ?bs) (set_mbuf ?p b3 (s\<lparr>tx_cnt := tx_cnt s + 1\<rparr>)))"
    unfolding op_sent_def using b3(2) by blast
  ultimately show thesis by (rule that)
qed

definition ack_bytes :: "u8 \<Rightarrow> u8 \<Rightarrow> u8 list" where
  "ack_bytes dsn pend = [if pend = 0 then 0x02 else 0x12, 0, dsn]"

lemma zb_mac_send_ack_ok:
  assumes "length (bytes (mbufs s (operation_buf s))) = ZB_IO_BUF_SIZE" "pend = 0 \<or> pend = 1"
  obtains s' where "zb_mac_send_ack dsn pend s = Some s'" "op_sent s (ack_bytes dsn pend) s'"
proof -
  let ?fc = "[if pend = 0 then 0x02 else 0x12, 0] :: u8 list"
  let ?m = "no_addr_mhr\<lparr>frame_control := ?fc, seq_number := dsn\<rparr>"
  have fc: "mac_fcf MAC_FRAME_ACKNOWLEDGMENT pend 0 0 MODE_NO_ADDR MODE_NO_ADDR = Some ?fc"
    using assms(2) by (auto simp: mac_fcf_def MAC_FRAME_ACKNOWLEDGMENT_def MODE_NO_ADDR_def ZB_FCF_SET_FRAME_TYPE_def MAC_FRAME_RESERVED1_def
        ZB_FCF_SET_FRAME_PENDING_BIT_def ZB_FCF_SET_ACK_REQUEST_BIT_def ZB_FCF_SET_PANID_COMPRESSION_BIT_def fcf_set_bit_def
        zb_fcf_set_dst_addressing_mode_def zb_fcf_set_src_addressing_mode_def ZB_FCF_SET_FRAME_VERSION_def)
  have l: "zb_mac_calculate_mhr_length MODE_NO_ADDR MODE_NO_ADDR 0 = Some 3"
    by (simp add: zb_mac_calculate_mhr_length_def mac_modes ZB_MAC_DST_PANID_OFFSET_def)
  have f: "zb_mac_fill_mhr ?m = ack_bytes dsn pend"
    by (simp add: zb_mac_fill_mhr_def no_addr_mhr_def ack_bytes_def ZB_FCF_GET_DST_ADDRESSING_MODE_def ZB_FCF_GET_SRC_ADDRESSING_MODE_def)
  obtain s' where "Option.bind (build_frame (operation_buf s) 3 ?m 3 [] s) send_operation_buf = Some s'" "op_sent s (zb_mac_fill_mhr ?m @ []) s'"
    by (rule send_operation_buf_ok [OF assms(1), of 3 ?m "[]" 3]) (simp_all add: f ack_bytes_def ZB_IO_BUF_SIZE_def)
  then show thesis using that f l fc by (simp add: zb_mac_send_ack_def)
qed

section \<open>Frames that come in\<close>

text \<open>What becomes of a frame: it is handed to one of the handlers, kept as an acknowledgement, freed, or left.\<close>

lemma recv_cases:
  assumes "zb_mac_parse_recv_data p s = Some s'"
  obtains b m n B where "buf_mhr b = Some (m, n)" "B = set_mbuf p b s \<or> B = indirect_data_came m (set_mbuf p b s)"
    "s' = emit_m (M_free p) B \<or> s' = emit_m (M_call Handle_data_frame p) B \<or> s' = emit_m (Beacon_notify p) B
    \<or> s' = (emit_m (Beacon_notify p) B)\<lparr>rt_ctx := (rt_ctx (emit_m (Beacon_notify p) B))[1 := 1]\<rparr>
    \<or> zb_mlme_ack_accept p B = Some s' \<or> s' = emit_m (M_call Command_accept p) B \<or> s' = B"
proof -
  obtain b q m n where c: "zb_buf_cut_left (mbufs s p) 1 = Some (b, q)" and b: "buf_mhr b = Some (m, n)"
    using assms by (auto simp: zb_mac_parse_recv_data_def Let_def bind_eq_Some_conv)
  define A where "A = set_mbuf p b s"
  define B where "B = (if mac_get ZB_MAC_INDIRECT_DATA_REQUEST_MASK A \<and> check_frame_dst_addr (mac_short_address (pib A)) (mac_extended_address (pib A)) m
      then indirect_data_came m A else A)"
  have "s' = emit_m (M_free p) A \<or> s' = emit_m (M_call Handle_data_frame p) B \<or> s' = emit_m (Beacon_notify p) B
    \<or> s' = (emit_m (Beacon_notify p) B)\<lparr>rt_ctx := (rt_ctx (emit_m (Beacon_notify p) B))[1 := 1]\<rparr>
    \<or> zb_mlme_ack_accept p B = Some s' \<or> s' = emit_m (M_call Command_accept p) B \<or> s' = B"
    using assms unfolding zb_mac_parse_recv_data_def c Option.bind.simps prod.case Let_def b A_def [symmetric] B_def [symmetric]
    by - (split if_split_asm | (drule option.inject [THEN iffD1, THEN sym], simp only: simp_thms) | simp only: simp_thms)+
  moreover have "A = set_mbuf p b s \<or> A = indirect_data_came m (set_mbuf p b s)" "B = set_mbuf p b s \<or> B = indirect_data_came m (set_mbuf p b s)"
    by (simp_all add: A_def B_def)
  ultimately show thesis using that [OF b, of A] that [OF b, of B] by blast
qed

text \<open>The acknowledgement, and what is told to whom when a frame for this device comes in.\<close>

lemma ack_accept_cases:
  assumes "zb_mlme_ack_accept p s = Some s'"
  obtains t where "s' = emit_m (M_free p) t" "t = s \<or> t = emit_m (M_cancel Ack_timeout) (mac_set ZB_MAC_PEND_DATA_MASK (mac_set ZB_MAC_ACK_OK_MASK s))
    \<or> t = emit_m (M_cancel Ack_timeout) (mac_clear ZB_MAC_PEND_DATA_MASK (mac_set ZB_MAC_ACK_OK_MASK s))"
proof -
  obtain m n where m: "buf_mhr (mbufs s p) = Some (m, n)" using assms by (auto simp: zb_mlme_ack_accept_def bind_eq_Some_conv)
  then show thesis using that assms unfolding zb_mlme_ack_accept_def Let_def m Option.bind.simps prod.case
    by (auto split: if_split_asm)
qed

lemma indirect_came_cases:
  obtains t where "t = mac_clear ZB_MAC_INDIRECT_DATA_REQUEST_MASK (emit_m M_cancel_indirect s)
      \<or> t = mac_set ZB_MAC_PEND_DATA_MASK (mac_clear ZB_MAC_INDIRECT_DATA_REQUEST_MASK (emit_m M_cancel_indirect s))"
    "indirect_data_came m s = t \<or> (poll_request_flag t \<and> rt_buf_ref t \<noteq> 0 \<and> indirect_data_came m s =
       emit_m (Poll_confirm (rt_buf_ref t)) (mac_buf_status (rt_buf_ref t) (ucast (mac_status t)) (t\<lparr>poll_request_flag := False\<rparr>)))"
proof -
  define a where "a = mac_clear ZB_MAC_INDIRECT_DATA_REQUEST_MASK (emit_m M_cancel_indirect s)"
  define t where "t = (if ZB_FCF_GET_FRAME_PENDING_BIT (frame_control m) \<noteq> 0 then mac_set ZB_MAC_PEND_DATA_MASK a else a)"
  have "t = a \<or> t = mac_set ZB_MAC_PEND_DATA_MASK a" by (simp add: t_def)
  moreover have "indirect_data_came m s = t \<or> (poll_request_flag t \<and> rt_buf_ref t \<noteq> 0 \<and> indirect_data_came m s =
       emit_m (Poll_confirm (rt_buf_ref t)) (mac_buf_status (rt_buf_ref t) (ucast (mac_status t)) (t\<lparr>poll_request_flag := False\<rparr>)))"
    unfolding indirect_data_came_def Let_def a_def [symmetric] t_def [symmetric] by simp
  ultimately show thesis using that by (simp add: a_def)
qed

end
