(* ===== verification/Mac_Pending.thy ===== *)
theory Mac_Pending
  imports Mac_Bytes "HOL-Library.Multiset" "HOL-Library.Sublist"
begin

text \<open>
  Who owns the buffers of the MAC layer: those that wait for their receiver, those that wait behind them, the one of a
  poll, the frames that come in, and those that were handed out. A step makes no buffer: what it hands out it had or was given.
\<close>

section \<open>Buffers that are handed out\<close>

fun gives :: "mac_action \<Rightarrow> nat list" where
  "gives (M_call f p) = (if f = Handle_data_frame \<or> f = Command_accept \<or> f = Accept_ass_request_cmd then [p] else [])"
| "gives (M_free p) = [p]"
| "gives (Mcps_confirm p) = [p]"
| "gives (Mcps_indication p) = [p]"
| "gives (Comm_status_indication p st m1 a1 m2 a2) = [p]"
| "gives (Poll_confirm p) = [p]"
| "gives (Associate_confirm p a st l) = [p]"
| "gives (Associate_indication p l c q) = [p]"
| "gives (Beacon_notify p) = [p]"
| "gives (Orphan_indication p a) = [p]"
| "gives (Scan_confirm p st t) = [p]"
| "gives (Start_confirm p) = [p]"
| "gives (Reset_confirm p) = [p]"
| "gives (Get_confirm p) = [p]"
| "gives (Set_confirm p) = [p]"
| "gives _ = []"

text \<open>The timers of waiting frames after an action.\<close>

fun timers_after :: "mac_action \<Rightarrow> nat set \<Rightarrow> nat set" where
  "timers_after (M_alarm (Pending_data_timeout i) t) T = insert i T"
| "timers_after (M_cancel (Pending_data_timeout i)) T = T - {i}"
| "timers_after _ T = T"

definition given :: "mac_action list \<Rightarrow> nat multiset" where "given as = mset (concat (map gives as))"
definition timers :: "mac_action list \<Rightarrow> nat set" where "timers as = fold timers_after as {}"

lemma given_simps [simp]: "given [] = {#}" "given (a # as) = mset (gives a) + given as" "given (as @ bs) = given as + given bs"
  by (simp_all add: given_def)

lemma timers_simps [simp]: "timers [] = {}" "timers (as @ bs) = fold timers_after bs (timers as)"
  by (simp_all add: timers_def)

section \<open>Ownership\<close>

definition queued :: "mac_node \<Rightarrow> nat multiset" where
  "queued s = mset (List.map_filter pd_data (pending_data_queue s))"

definition slots :: "mac_node \<Rightarrow> nat set" where
  "slots s = {i. i < length (pending_data_queue s) \<and> pd_data (pending_data_queue s ! i) \<noteq> None}"

definition poll_held :: "mac_node \<Rightarrow> nat multiset" where
  "poll_held s = (if poll_request_flag s \<and> rt_buf_ref s \<noteq> 0 then {#rt_buf_ref s#} else {#})"

definition owned :: "mac_node \<Rightarrow> nat multiset" where
  "owned s = queued s + mset (ring_list (out_q s)) + poll_held s + mset (map fst (rx_q s)) + given (macts s)"

definition pend_inv :: "mac_node \<Rightarrow> bool" where
  "pend_inv s \<longleftrightarrow> timers (macts s) = slots s \<and> ring_inv (out_q s) \<and> length (rt_ctx s) = 9"

definition takes :: "nat multiset \<Rightarrow> mac_node \<Rightarrow> mac_node \<Rightarrow> bool" where
  "takes g s s' \<longleftrightarrow> (pend_inv s \<longrightarrow> pend_inv s' \<and> owned s' \<subseteq># owned s + g \<and> prefix (ring_list (out_q s)) (ring_list (out_q s')))"

lemma takes_refl [simp]: "takes {#} s s"
  by (simp add: takes_def)

lemma takes_trans: "takes g s s' \<Longrightarrow> takes h s' s'' \<Longrightarrow> takes (g + h) s s''"
  unfolding takes_def by (metis subset_mset.order_trans subset_mset.add_right_mono add.assoc prefix_order.trans)

lemma takes_mono: "takes g s s' \<Longrightarrow> g \<subseteq># h \<Longrightarrow> takes h s s'"
  unfolding takes_def by (blast intro: subset_mset.order_trans subset_mset.add_left_mono)

lemma takes_first: "takes {#} s s' \<Longrightarrow> takes g s' s'' \<Longrightarrow> takes g s s''"
  using takes_trans [of "{#}"] by simp

lemma takes_then: "takes g s s' \<Longrightarrow> takes {#} s' s'' \<Longrightarrow> takes g s s''"
  using takes_trans [of g s s' "{#}"] by simp

text \<open>What the steps between a request and its continuation leave alone.\<close>

definition kept :: "mac_node \<Rightarrow> mac_node \<Rightarrow> bool" where
  "kept s s' \<longleftrightarrow> pending_buf s' = pending_buf s \<and> tx_wait_cb s' = tx_wait_cb s \<and> tx_wait_cb_arg s' = tx_wait_cb_arg s
     \<and> pending_data_queue s' = pending_data_queue s"

text \<open>Steps that touch none of the buffers, and those that only take frames that come in.\<close>

definition quiet :: "mac_node \<Rightarrow> mac_node \<Rightarrow> bool" where
  "quiet s s' \<longleftrightarrow> kept s s' \<and> out_q s' = out_q s \<and> rx_q s' = rx_q s
     \<and> poll_request_flag s' = poll_request_flag s \<and> rt_ctx s' = rt_ctx s
     \<and> given (macts s') = given (macts s) \<and> timers (macts s') = timers (macts s)"

definition calm :: "mac_node \<Rightarrow> mac_node \<Rightarrow> bool" where
  "calm s s' \<longleftrightarrow> kept s s' \<and> takes {#} s s'"

lemma quiet_takes: "quiet s s' \<Longrightarrow> takes {#} s s'"
  by (auto simp: quiet_def kept_def takes_def pend_inv_def slots_def owned_def queued_def poll_held_def rt_buf_ref_def)

lemma quiet_calm: "quiet s s' \<Longrightarrow> calm s s'"
  by (simp add: calm_def quiet_takes) (simp add: quiet_def)

lemma quiet_refl [simp]: "quiet s s" and quiet_trans: "quiet s s' \<Longrightarrow> quiet s' s'' \<Longrightarrow> quiet s s''"
  by (simp_all add: quiet_def kept_def)

lemma calm_trans: "calm s s' \<Longrightarrow> calm s' s'' \<Longrightarrow> calm s s''"
  by (auto simp: calm_def kept_def intro: takes_first)

lemma quiet_steps:
  "gives a = [] \<Longrightarrow> (\<And>T. timers_after a T = T) \<Longrightarrow> quiet s (emit_m a s)"
  "quiet s (set_mbuf p b s)" "quiet s (on_pib f s)" "quiet s (mac_buf_status p st s)"
  "quiet s (mac_set m s)" "quiet s (mac_clear m s)" "quiet s (zb_inc_mac_dsn s)" "quiet s (ZB_SKIP_TX_CHK s)"
  "quiet s (zb_tx_total_inc s)" "quiet s (zb_tx_fail_inc s)" "quiet s (ZB_MAC_START_ACK_WAITING s)"
  by (simp_all add: quiet_def kept_def mac_buf_status_def mac_set_def mac_clear_def zb_inc_mac_dsn_def ZB_SKIP_TX_CHK_def zb_tx_total_inc_def
      zb_tx_fail_inc_def ZB_MAC_START_ACK_WAITING_def Let_def)

lemma quiet_send: "ZB_TRANS_SEND_COMMAND p s = Some s' \<Longrightarrow> quiet s s'"
  by (auto simp: ZB_TRANS_SEND_COMMAND_def Let_def quiet_def kept_def mac_buf_status_def bind_eq_Some_conv)

lemma quiet_fcs: "MAC_ADD_FCS p s = Some s' \<Longrightarrow> quiet s s'"
  by (auto simp: MAC_ADD_FCS_def quiet_def kept_def bind_eq_Some_conv)

lemma quiet_build: "build_frame p n m hlen body s = Some s' \<Longrightarrow> quiet s s'"
  by (auto simp: build_frame_def quiet_def kept_def bind_eq_Some_conv)

lemma quiet_operation: "send_operation_buf s = Some s' \<Longrightarrow> quiet s s'"
  by (auto simp: send_operation_buf_def bind_eq_Some_conv intro: quiet_trans dest!: quiet_fcs quiet_send)

lemma quiet_ack: "zb_mac_send_ack dsn d s = Some s' \<Longrightarrow> quiet s s'"
  by (auto simp: zb_mac_send_ack_def bind_eq_Some_conv intro: quiet_trans dest!: quiet_build quiet_operation)

lemma quiet_security: "zb_mac_check_security p s = Some (r, s') \<Longrightarrow> quiet s s'"
  by (auto simp: zb_mac_check_security_def Let_def quiet_def kept_def bind_eq_Some_conv split: if_split_asm)

lemma quiet_pending_bit: "set_pending_bit p s = Some s' \<Longrightarrow> quiet s s'"
  by (auto simp: set_pending_bit_def Let_def quiet_def kept_def bind_eq_Some_conv)

text \<open>A buffer that is given and handed out.\<close>

lemma hands_out: "(\<And>T. timers_after a T = T) \<Longrightarrow> takes (mset (gives a)) s (emit_m a s)"
  by (auto simp: takes_def pend_inv_def slots_def owned_def queued_def poll_held_def rt_buf_ref_def)

section \<open>Frames that come in\<close>

lemma calm_indirect: "calm s (indirect_data_came m s)"
proof (rule indirect_came_cases [of s m])
  fix t
  assume t: "t = mac_clear ZB_MAC_INDIRECT_DATA_REQUEST_MASK (emit_m M_cancel_indirect s)
      \<or> t = mac_set ZB_MAC_PEND_DATA_MASK (mac_clear ZB_MAC_INDIRECT_DATA_REQUEST_MASK (emit_m M_cancel_indirect s))"
    and e: "indirect_data_came m s = t \<or> (poll_request_flag t \<and> rt_buf_ref t \<noteq> 0 \<and> indirect_data_came m s =
       emit_m (Poll_confirm (rt_buf_ref t)) (mac_buf_status (rt_buf_ref t) (ucast (mac_status t)) (t\<lparr>poll_request_flag := False\<rparr>)))"
  have "quiet s (emit_m M_cancel_indirect s)" by (rule quiet_steps) simp_all
  then have q: "quiet s t" using t by (elim disjE) (auto intro: quiet_trans [OF quiet_trans [OF _ quiet_steps(6)] quiet_steps(5)] quiet_trans [OF _ quiet_steps(6)])
  have c: "calm t (emit_m (Poll_confirm (rt_buf_ref t)) (mac_buf_status (rt_buf_ref t) st (t\<lparr>poll_request_flag := False\<rparr>)))"
    if "poll_request_flag t" "rt_buf_ref t \<noteq> 0" for st
    using that by (auto simp: calm_def kept_def takes_def pend_inv_def slots_def owned_def queued_def poll_held_def rt_buf_ref_def mac_buf_status_def)
  show ?thesis using e c quiet_calm [OF q] calm_trans [OF quiet_calm [OF q]] by metis
qed

lemma kept_emit [simp]: "kept s (emit_m a s)"
  by (simp add: kept_def)

lemma kept_trans: "kept s s' \<Longrightarrow> kept s' s'' \<Longrightarrow> kept s s''"
  by (simp add: kept_def)

lemma calm_hands_out: "calm s s' \<Longrightarrow> gives a = [p] \<Longrightarrow> (\<And>T. timers_after a T = T) \<Longrightarrow> kept s (emit_m a s') \<and> takes {#p#} s (emit_m a s')"
  using hands_out [of a s'] by (auto simp: calm_def intro: takes_first kept_trans)

lemma takes_ack_accept: "zb_mlme_ack_accept p s = Some s' \<Longrightarrow> kept s s' \<and> takes {#p#} s s'"
proof (erule ack_accept_cases)
  fix t
  assume s': "s' = emit_m (M_free p) t" and t: "t = s \<or> t = emit_m (M_cancel Ack_timeout) (mac_set ZB_MAC_PEND_DATA_MASK (mac_set ZB_MAC_ACK_OK_MASK s))
    \<or> t = emit_m (M_cancel Ack_timeout) (mac_clear ZB_MAC_PEND_DATA_MASK (mac_set ZB_MAC_ACK_OK_MASK s))"
  have "quiet s t" using t by (auto simp: quiet_def kept_def mac_set_def mac_clear_def)
  then show "kept s s' \<and> takes {#p#} s s'" unfolding s' by (intro calm_hands_out [OF quiet_calm]) simp_all
qed

lemma takes_parse: "zb_mac_parse_recv_data p s = Some s' \<Longrightarrow> kept s s' \<and> takes {#p#} s s'"
proof (erule recv_cases)
  fix b m n B
  assume B: "B = set_mbuf p b s \<or> B = indirect_data_came m (set_mbuf p b s)"
    and s': "s' = emit_m (M_free p) B \<or> s' = emit_m (M_call Handle_data_frame p) B \<or> s' = emit_m (Beacon_notify p) B
    \<or> s' = (emit_m (Beacon_notify p) B)\<lparr>rt_ctx := (rt_ctx (emit_m (Beacon_notify p) B))[1 := 1]\<rparr>
    \<or> zb_mlme_ack_accept p B = Some s' \<or> s' = emit_m (M_call Command_accept p) B \<or> s' = B"
  have c: "calm s B" using B quiet_calm [OF quiet_steps(2)] calm_trans [OF quiet_calm [OF quiet_steps(2)] calm_indirect] by blast
  have n: "kept s B \<and> takes {#p#} s B" using c by (auto simp: calm_def intro: takes_mono)
  have r: "kept s (t\<lparr>rt_ctx := (rt_ctx t)[1 := 1]\<rparr>) \<and> takes {#p#} s (t\<lparr>rt_ctx := (rt_ctx t)[1 := 1]\<rparr>)" if "kept s t \<and> takes {#p#} s t" for t
  proof -
    have "takes {#} t (t\<lparr>rt_ctx := (rt_ctx t)[1 := 1]\<rparr>)"
      by (simp add: takes_def pend_inv_def slots_def owned_def queued_def poll_held_def rt_buf_ref_def)
    then show ?thesis using that by (auto simp: kept_def intro: takes_then)
  qed
  have f: "kept s (emit_m x B) \<and> takes {#p#} s (emit_m x B)"
    if "x = M_call Handle_data_frame p \<or> x = Beacon_notify p \<or> x = M_call Command_accept p \<or> x = M_free p" for x
    by (rule calm_hands_out [OF c]) (use that in auto)
  have k: "kept s s' \<and> takes {#p#} s s'" if "zb_mlme_ack_accept p B = Some s'"
    using takes_ack_accept [OF that] c by (auto simp: calm_def intro: kept_trans takes_first)
  show "kept s s' \<and> takes {#p#} s s'" using s' f r n k by (elim disjE) blast+
qed

lemma calm_recv_next: "recv_next s = Some s' \<Longrightarrow> calm s s'"
proof (cases "rx_q s")
  case (Cons x r)
  assume a: "recv_next s = Some s'"
  obtain p f where x: "x = (p, f)" by (cases x)
  let ?o = "s\<lparr>rx_q := r\<rparr>"
  obtain b where b: "zb_mac_parse_recv_data p (set_mbuf p b ?o) = Some s'"
    using a Cons x by (auto simp: recv_next_def zb_mac_recv_data_def bind_eq_Some_conv)
  have "kept s ?o" by (simp add: kept_def)
  moreover have "takes {#p#} ?o s'" using takes_parse [OF b] by (auto intro: takes_first [OF quiet_takes [OF quiet_steps(2)]])
  moreover have "pend_inv s \<longrightarrow> pend_inv ?o" "owned s = owned ?o + {#p#}"
    using Cons x by (simp_all add: pend_inv_def slots_def owned_def queued_def poll_held_def rt_buf_ref_def)
  ultimately show "calm s s'" using takes_parse [OF b] by (auto simp: calm_def takes_def kept_def)
qed (auto simp: recv_next_def calm_def kept_def)

lemma calm_check_ack: "zb_mac_check_ack s = Some (r, s') \<Longrightarrow> calm s s'"
proof -
  assume a: "zb_mac_check_ack s = Some (r, s')"
  let ?t = "ZB_MAC_START_ACK_WAITING s"
  have q: "quiet s ?t" by (rule quiet_steps)
  have "calm ?t s'" if b: "check_ack_body ?t = Some (r, s')"
    using b by (auto simp: check_ack_body_def Let_def bind_eq_Some_conv quiet_def kept_def intro: calm_recv_next quiet_calm split: if_split_asm)
  then show ?thesis using a calm_trans [OF quiet_calm [OF q]] by (simp add: zb_mac_check_ack_def)
qed

end
