(* ===== verification/Mac_Samples.thy ===== *)
theory Mac_Samples
  imports Mac_Pib Nwk_Secur_Props
begin

text \<open>
  A coordinator of the MAC layer for the examples: nothing waits and nothing is under way. The requests for data in all of its
  buffers are for device 5.
\<close>

definition plain_buf :: zb_buf where
  "plain_buf = \<lparr>hdr = hdr_zero\<lparr>h_len := 10, data_offset := 69\<rparr>, bytes = replicate 148 0\<rparr>"

definition no_slot :: zb_mac_pending_data where
  "no_slot = \<lparr>pd_data = None, pd_dst_addr_mode = 0, pd_dst_addr = replicate 8 0\<rparr>"

definition sample_pib :: zb_mac_pib where
  "sample_pib = \<lparr>mac_ack_wait_duration = 54, mac_association_permit = 1, mac_batt_life_ext = 0, mac_beacon_payload = replicate 15 0,
     mac_beacon_payload_length = 15, mac_beacon_order = 15, mac_bsn = 1, mac_coord_extended_address = replicate 8 0,
     mac_coord_short_address = 0, mac_dsn = 40, mac_pan_id = 0x1aaa, mac_rx_on_when_idle = 1, mac_short_address = 0,
     mac_superframe_order = 15, mac_max_frame_retries = 3, phy_current_page = 0, phy_current_channel = 20,
     mac_extended_address = [9, 9, 9, 9, 9, 9, 9, 9]\<rparr>"

definition sample_storage :: zb_mac_data_req_storage where
  "sample_storage = \<lparr>ds_fcf = (0, 0), ds_cmd_ptr = (0, 0), ds_mhr_pend_len = 0, ds_data_found_index = 0, ds_mhr_pend = no_addr_mhr\<rparr>"

definition sample_mac :: mac_node where
  "sample_mac = \<lparr>mbufs = (\<lambda>p. plain_buf), mcps_req = (\<lambda>p. \<lparr>dr_src_addr = 0, dr_dst_addr = 5, dr_tx_options = 5, dr_msdu_handle = 7\<rparr>),
     poll_params = (\<lambda>p. \<lparr>pq_coord_addr_mode = MODE_16BIT, pq_coord_addr = replicate 8 0\<rparr>),
     ass_params = (\<lambda>p. \<lparr>ap_pan_id = 0x1aaa, ap_coord_addr = replicate 8 0, ap_coord_addr_mode = MODE_16BIT, ap_logical_channel = 20, ap_capability = 0\<rparr>),
     scan_params = (\<lambda>p. \<lparr>sp_scan_type = ACTIVE_SCAN, sp_scan_duration = 3, sp_channels = 0x00101000\<rparr>),
     operation_buf = 15, encryption_buf = 16, pending_buf = None, tx_cnt = 0, tx_wait_cb = None, tx_wait_cb_arg = 0,
     data_req_storage = sample_storage, out_q = \<lparr>ring_buf = replicate 10 0, read_i = 0, write_i = 0, written = 0\<rparr>,
     tx_q = \<lparr>ring_buf = replicate 4 \<lparr>cb_func = Handle_beacon_req, cb_param = 0\<rparr>, read_i = 0, write_i = 0, written = 0\<rparr>,
     mac_status = 0, dev_type_ffd = True, current_channel = 20, mac_flags = 0, ack_dsn = 0, retry_counter = 0,
     mlme_scan_in_progress = False, ed_scan_step_passed = False, unscanned_channels = 0, rt_ctx = replicate 9 0,
     pending_data_queue = replicate 4 no_slot, pib = sample_pib, mac_sec = sample_node, mac_joined_pro = False,
     designated_coordinator = True, nwk_tx_total = 0, nwk_tx_fail = 0, mcps_confirm_handle = (\<lambda>p. 0), checks_fails = False,
     poll_request_flag = False, rx_q = [], macts = []\<rparr>"

end
