(* ===== verification/Mac_Pending_Props.thy ===== *)
theory Mac_Pending_Props
  imports Mac_Pending Mac_Samples
begin

text \<open>
  The history of the frames that wait for their receiver.
\<close>

section \<open>The queue\<close>

definition alike :: "mac_node \<Rightarrow> mac_node \<Rightarrow> bool" where
  "alike s s' \<longleftrightarrow> pending_data_queue s' = pending_data_queue s \<and> out_q s' = out_q s \<and> rx_q s' = rx_q s
     \<and> poll_request_flag s' = poll_request_flag s \<and> rt_ctx s' = rt_ctx s
     \<and> given (macts s') = given (macts s) \<and> timers (macts s') = timers (macts s)"

lemma alike_takes: "alike s s' \<Longrightarrow> takes {#} s s'"
  by (auto simp: alike_def takes_def pend_inv_def slots_def owned_def queued_def poll_held_def rt_buf_ref_def)

lemma quiet_alike: "quiet s s' \<Longrightarrow> alike s s'"
  by (simp add: quiet_def kept_def alike_def)

lemma alike_trans: "alike s s' \<Longrightarrow> alike s' s'' \<Longrightarrow> alike s s''"
  by (simp add: alike_def)

lemma map_filter_update:
  assumes "i < length xs"
  shows "mset (List.map_filter f (xs[i := y])) + (case f (xs ! i) of None \<Rightarrow> {#} | Some a \<Rightarrow> {#a#})
    = mset (List.map_filter f xs) + (case f y of None \<Rightarrow> {#} | Some a \<Rightarrow> {#a#})"
proof -
  have ap: "List.map_filter f (as @ bs) = List.map_filter f as @ List.map_filter f bs" for as bs :: "'a list"
    by (simp add: List.map_filter_def)
  have x: "xs = take i xs @ xs ! i # drop (Suc i) xs" using id_take_nth_drop [OF assms] .
  have y: "xs[i := y] = take i xs @ y # drop (Suc i) xs" using upd_conv_take_nth_drop [OF assms] .
  have "mset (List.map_filter f xs) = mset (List.map_filter f (take i xs)) + mset (List.map_filter f (drop (Suc i) xs))
      + (case f (xs ! i) of None \<Rightarrow> {#} | Some a \<Rightarrow> {#a#})"
    by (subst x, unfold ap) (simp add: map_filter_simps split: option.split)
  then show ?thesis unfolding y ap by (simp add: map_filter_simps split: option.split)
qed

lemma takes_put:
  assumes "pd_data d = Some p" "zb_mac_put_data_to_pending_queue d s = (r, s')"
  shows "(r = RET_PENDING \<and> takes {#p#} s s' \<and> tx_wait_cb s' = tx_wait_cb s) \<or> (r = RET_ERROR \<and> s' = s\<lparr>mac_status := MAC_TRANSACTION_OVERFLOW\<rparr>)"
proof (cases "free_slot s")
  case None
  then show ?thesis using assms by (simp add: zb_mac_put_data_to_pending_queue_def)
next
  case (Some i)
  then have i: "i < length (pending_data_queue s)" "pd_data (pending_data_queue s ! i) = None"
    by (auto simp: free_slot_def find_Some_iff empty_slot_def)
  have s': "r = RET_PENDING" "s' = emit_m (M_alarm (Pending_data_timeout i) ZB_MAC_TRANSACTION_PERSISTENCE_TIME)
             (s\<lparr>pending_data_queue := (pending_data_queue s)[i := d]\<rparr>)"
    using Some assms by (simp_all add: zb_mac_put_data_to_pending_queue_def)
  have "queued s' = queued s + {#p#}"
    using map_filter_update [OF i(1), of pd_data d] i(2) assms(1) by (simp add: queued_def s')
  moreover have "slots s' = insert i (slots s)"
    using i assms(1) by (auto simp: slots_def s' nth_list_update)
  ultimately have "takes {#p#} s s'"
    by (simp add: takes_def pend_inv_def owned_def poll_held_def rt_buf_ref_def s')
  then show ?thesis using s' by simp
qed

text \<open>A frame leaves its slot.\<close>

lemma clear_slot:
  assumes i: "i < length (pending_data_queue s)" and d: "pd_data (pending_data_queue s ! i) = Some d"
    and a: "gives a = [d]" "\<And>T. timers_after a T = T"
  shows "takes {#} s (ZB_CLEAR_PENDING_QUEUE_SLOT i (emit_m (M_cancel (Pending_data_timeout i)) (emit_m a s)))"
proof -
  let ?c = "ZB_CLEAR_PENDING_QUEUE_SLOT i (emit_m (M_cancel (Pending_data_timeout i)) (emit_m a s))"
  have "queued ?c + {#d#} = queued s"
    using map_filter_update [OF i, of pd_data "(pending_data_queue s ! i)\<lparr>pd_data := None\<rparr>"] d
    by (simp add: queued_def ZB_CLEAR_PENDING_QUEUE_SLOT_def)
  moreover have "slots ?c = slots s - {i}"
    using i by (auto simp: slots_def ZB_CLEAR_PENDING_QUEUE_SLOT_def nth_list_update split: if_split_asm)
  ultimately show ?thesis
    using a by (auto simp: takes_def pend_inv_def owned_def poll_held_def rt_buf_ref_def ZB_CLEAR_PENDING_QUEUE_SLOT_def)
qed

lemma check_pending_data_slot:
  "check_pending_data m k s = Some i \<Longrightarrow> i < length (pending_data_queue s) \<and> (\<exists>d. pd_data (pending_data_queue s ! i) = Some d)"
  by (auto simp: check_pending_data_def find_Some_iff slot_matches_def Let_def)

section \<open>A turn of the transmitter\<close>

text \<open>A function from the queue of the transmitter and, when it asks to wait for the end of the transmission, its continuation.\<close>

definition tx_turn :: "mac_tx \<Rightarrow> nat \<Rightarrow> ieee \<Rightarrow> mac_node \<Rightarrow> mac_node option" where
  "tx_turn f p junk s =
     do { s1 \<leftarrow> run_tx f p junk s;
          (case tx_wait_cb s1 of
             None \<Rightarrow> Some s1
           | Some w \<Rightarrow> map_option (\<lambda>s2. s2\<lparr>tx_wait_cb := None\<rparr>) (run_wait w (s1\<lparr>tx_cnt := 0\<rparr>))) }"

definition turn_ok :: "nat \<Rightarrow> mac_node \<Rightarrow> mac_node \<Rightarrow> bool" where
  "turn_ok p s s1 \<longleftrightarrow>
     (case tx_wait_cb s1 of None \<Rightarrow> takes {#p#} s s1 | Some w \<Rightarrow> (\<forall>s2. run_wait w (s1\<lparr>tx_cnt := 0\<rparr>) = Some s2 \<longrightarrow> takes {#p#} s s2))"

lemma turn_ok_turn:
  assumes "\<And>s1. run_tx f p junk s = Some s1 \<Longrightarrow> turn_ok p s s1" "tx_turn f p junk s = Some s'"
  shows "takes {#p#} s s' \<and> tx_wait_cb s' = None"
proof -
  obtain s1 where s1: "run_tx f p junk s = Some s1" using assms(2) by (auto simp: tx_turn_def bind_eq_Some_conv)
  show ?thesis
  proof (cases "tx_wait_cb s1")
    case None
    then show ?thesis using assms s1 by (auto simp: tx_turn_def turn_ok_def)
  next
    case (Some w)
    then obtain s2 where s2: "run_wait w (s1\<lparr>tx_cnt := 0\<rparr>) = Some s2" "s' = s2\<lparr>tx_wait_cb := None\<rparr>"
      using assms(2) s1 by (auto simp: tx_turn_def)
    have "takes {#p#} s s2" using assms(1) [OF s1] s2(1) Some by (simp add: turn_ok_def)
    moreover have "takes {#} s2 s'" by (rule alike_takes) (simp add: s2(2) alike_def)
    ultimately show ?thesis by (auto intro: takes_then simp: s2(2))
  qed
qed

text \<open>Data.\<close>

lemma alike_steps:
  "alike s (s\<lparr>pending_buf := x\<rparr>)" "alike s (s\<lparr>mac_status := st\<rparr>)" "alike s (s\<lparr>ack_dsn := a\<rparr>)" "alike s (s\<lparr>tx_wait_cb := w, tx_wait_cb_arg := y\<rparr>)"
  "alike s (s\<lparr>tx_cnt := c\<rparr>)" "alike s s"
  by (simp_all add: alike_def)

lemma takes_out:
  assumes "zb_mac_put_request_to_queue p s = Some s'"
  shows "takes {#p#} s s' \<and> tx_wait_cb s' = tx_wait_cb s"
proof -
  have f: "\<not> ring_is_full (out_q s)" "s' = s\<lparr>out_q := ring_put (out_q s) p\<rparr>"
    using assms by (auto simp: zb_mac_put_request_to_queue_def split: if_split_asm)
  have "takes {#p#} s s'"
    using ring_put_list [of "out_q s" p] f by (simp add: takes_def pend_inv_def slots_def owned_def queued_def poll_held_def rt_buf_ref_def)
  then show ?thesis using f by simp
qed

lemma fill_hdr_takes:
  assumes "zb_mcps_data_request_fill_hdr p s = Some (r, s')"
  shows "(r = RET_OK \<and> alike s s' \<and> tx_wait_cb s' = tx_wait_cb s) \<or> (r \<noteq> RET_OK \<and> takes {#p#} s s' \<and> tx_wait_cb s' = tx_wait_cb s)"
proof -
  let ?opts = "dr_tx_options (mcps_req s p)"
  obtain fc where fc: "mac_fcf MAC_FRAME_DATA 0 (if has_tx_option MAC_TX_OPTION_ACKNOWLEDGED_BIT ?opts then 1 else 0) 1 MODE_16BIT MODE_16BIT = Some fc"
    using assms by (auto simp: zb_mcps_data_request_fill_hdr_def Let_def bind_eq_Some_conv split: if_split_asm)
  define m where "m = data_mhr fc (mcps_req s p) s"
  define t where "t = (if has_tx_option MAC_TX_OPTION_ACKNOWLEDGED_BIT ?opts then (zb_inc_mac_dsn s)\<lparr>ack_dsn := seq_number m\<rparr> else zb_inc_mac_dsn s)"
  have t: "alike s t" "tx_wait_cb t = tx_wait_cb s" by (simp_all add: t_def alike_def zb_inc_mac_dsn_def)
  define d where "d = \<lparr>pd_data = Some p, pd_dst_addr_mode = MODE_16BIT, pd_dst_addr = union_short (dr_dst_addr (mcps_req s p))\<rparr>"
  obtain ret u where u: "(if has_tx_option MAC_TX_OPTION_INDIRECT_TRANSMISSION_BIT ?opts then zb_mac_put_data_to_pending_queue d t else (RET_OK, t)) = (ret, u)"
    by (metis surj_pair)
  have up: "(ret = RET_OK \<and> u = t) \<or> (ret = RET_PENDING \<and> takes {#p#} t u \<and> tx_wait_cb u = tx_wait_cb t) \<or> (ret = RET_ERROR \<and> u = t\<lparr>mac_status := MAC_TRANSACTION_OVERFLOW\<rparr>)"
    using u takes_put [of d p t ret u] by (auto simp: d_def split: if_split_asm)
  have body: "(ret = RET_OK \<or> ret = RET_PENDING) \<and> r = ret \<and> (\<exists>b. s' = set_mbuf p b u)
      \<or> ret = RET_ERROR \<and> mac_status u = MAC_TRANSACTION_OVERFLOW \<and> r = RET_PENDING \<and> zb_mac_put_request_to_queue p (u\<lparr>mac_status := MAC_SUCCESS\<rparr>) = Some s'
      \<or> ret = RET_ERROR \<and> r = RET_ERROR \<and> s' = u"
    using assms up u unfolding zb_mcps_data_request_fill_hdr_def Let_def fc Option.bind.simps m_def [symmetric] t_def [symmetric] d_def [symmetric] u prod.case
    by (auto simp: bind_eq_Some_conv split: if_split_asm)
  have ts: "takes {#} s t" using t(1) by (rule alike_takes)
  show ?thesis
  proof (rule disjE [OF body])
    assume a: "(ret = RET_OK \<or> ret = RET_PENDING) \<and> r = ret \<and> (\<exists>b. s' = set_mbuf p b u)"
    then obtain b where b: "s' = set_mbuf p b u" by blast
    have "alike u s'" unfolding b by (rule quiet_alike [OF quiet_steps(2)])
    then show ?thesis using a up t b alike_trans [OF t(1)] takes_first [OF ts] takes_then [OF _ alike_takes]
      by (auto simp: b)
  next
    assume "ret = RET_ERROR \<and> mac_status u = MAC_TRANSACTION_OVERFLOW \<and> r = RET_PENDING \<and> zb_mac_put_request_to_queue p (u\<lparr>mac_status := MAC_SUCCESS\<rparr>) = Some s'
      \<or> ret = RET_ERROR \<and> r = RET_ERROR \<and> s' = u"
    then have e: "r \<noteq> RET_OK" "u = t\<lparr>mac_status := MAC_TRANSACTION_OVERFLOW\<rparr>" "zb_mac_put_request_to_queue p (u\<lparr>mac_status := MAC_SUCCESS\<rparr>) = Some s' \<or> s' = u"
      using up by auto
    have su: "takes {#} s u" unfolding e(2) using ts by (rule takes_first) (rule alike_takes [OF alike_steps(2)])
    then have "takes {#} s (u\<lparr>mac_status := MAC_SUCCESS\<rparr>)" by (rule takes_first) (rule alike_takes [OF alike_steps(2)])
    then show ?thesis using e takes_out [of p "u\<lparr>mac_status := MAC_SUCCESS\<rparr>" s'] t su by (auto intro: takes_first takes_mono)
  qed
qed

lemma send_data_takes:
  assumes "send_data p s = Some s'"
  shows "quiet (s\<lparr>tx_wait_cb := Some Mcps_data_req_continue, tx_wait_cb_arg := p\<rparr>) s'"
  using assms by (auto simp: send_data_def bind_eq_Some_conv intro: quiet_trans dest!: quiet_fcs quiet_send split: if_split_asm)

lemma data_continue_takes: "zb_handle_mcps_data_req_continue p s = Some s' \<Longrightarrow> takes {#p#} s s'"
proof -
  assume "zb_handle_mcps_data_req_continue p s = Some s'"
  then have s': "s' = (confirm_data p (ZB_SKIP_TX_CHK (s\<lparr>pending_buf := Some p\<rparr>)))\<lparr>pending_buf := None\<rparr>"
    by (auto simp: zb_handle_mcps_data_req_continue_def Let_def zb_check_cmd_tx_status_def split: if_split_asm)
  let ?t = "mac_buf_status p (ucast (mac_status s)) ((ZB_SKIP_TX_CHK (s\<lparr>pending_buf := Some p\<rparr>))\<lparr>mcps_confirm_handle :=
      (mcps_confirm_handle s)(p := dr_msdu_handle (mcps_req s p))\<rparr>)"
  have "alike s ?t" by (simp add: alike_def ZB_SKIP_TX_CHK_def mac_buf_status_def)
  moreover have "takes (mset (gives (Mcps_confirm p))) ?t (emit_m (Mcps_confirm p) ?t)" by (rule hands_out) simp
  moreover have "alike (emit_m (Mcps_confirm p) ?t) s'" by (simp add: s' confirm_data_def Let_def alike_def ZB_SKIP_TX_CHK_def mac_buf_status_def)
  ultimately show ?thesis by (auto intro: takes_first [OF alike_takes] takes_then [OF _ alike_takes])
qed

lemma data_turn_ok: "zb_handle_mcps_data_req p s = Some s1 \<Longrightarrow> tx_wait_cb s = None \<Longrightarrow> turn_ok p s s1"
proof -
  assume a: "zb_handle_mcps_data_req p s = Some s1" and w: "tx_wait_cb s = None"
  define t where "t = (set_mbuf p ((mbufs s p)\<lparr>hdr := (hdr (mbufs s p))\<lparr>handle := dr_msdu_handle (mcps_req s p)\<rparr>\<rparr>) s)
                 \<lparr>pending_buf := Some p, mac_status := MAC_SUCCESS, retry_counter := 0\<rparr>"
  have t: "takes {#} s t" "tx_wait_cb t = None" using w by (auto intro!: alike_takes simp: t_def alike_def)
  obtain r u where f: "zb_mcps_data_request_fill_hdr p t = Some (r, u)"
    using a by (auto simp: zb_handle_mcps_data_req_def Let_def t_def bind_eq_Some_conv)
  show ?thesis
  proof (cases "r = RET_OK")
    case False
    then have "s1 = u" using a f by (simp add: zb_handle_mcps_data_req_def Let_def t_def)
    then show ?thesis using fill_hdr_takes [OF f] False t by (auto simp: turn_ok_def intro: takes_first)
  next
    case True
    obtain r2 v where v: "zb_mac_check_security p u = Some (r2, v)"
      using a f True by (auto simp: zb_handle_mcps_data_req_def Let_def t_def bind_eq_Some_conv)
    have qv: "alike s v" "tx_wait_cb v = None"
      using fill_hdr_takes [OF f] True t quiet_security [OF v] w by (auto simp: alike_def quiet_def kept_def t_def)
    show ?thesis
    proof (cases "r2 = RET_OK")
      case False
      then have "s1 = v" using a f v True by (simp add: zb_handle_mcps_data_req_def Let_def t_def)
      then show ?thesis using qv alike_takes [OF qv(1)] by (auto simp: turn_ok_def intro: takes_mono)
    next
      case r2: True
      define x where "x = (if ZB_NWK_IS_ADDRESS_BROADCAST (dr_dst_addr (mcps_req s p)) then v else zb_tx_total_inc v)"
      have x: "alike v x" using quiet_alike [OF quiet_steps(9)] by (simp add: x_def alike_steps)
      obtain y where y: "send_data p x = Some y"
          "s1 = y \<or> (\<exists>r. zb_mac_check_ack y = Some (r, s1))"
        using a f v True r2 by (auto simp: zb_handle_mcps_data_req_def Let_def t_def x_def bind_eq_Some_conv split: if_split_asm)
      have q: "quiet (x\<lparr>tx_wait_cb := Some Mcps_data_req_continue, tx_wait_cb_arg := p\<rparr>) y" by (rule send_data_takes [OF y(1)])
      have "calm y s1" using y(2) calm_check_ack quiet_calm [OF quiet_refl] by blast
      then have c: "calm (x\<lparr>tx_wait_cb := Some Mcps_data_req_continue, tx_wait_cb_arg := p\<rparr>) s1" by (rule calm_trans [OF quiet_calm [OF q]])
      then have k: "tx_wait_cb s1 = Some Mcps_data_req_continue" "tx_wait_cb_arg s1 = p" by (simp_all add: calm_def kept_def)
      have "takes {#} s (x\<lparr>tx_wait_cb := Some Mcps_data_req_continue, tx_wait_cb_arg := p\<rparr>)"
        by (intro alike_takes alike_trans [OF alike_trans [OF qv(1) x]] alike_steps)
      then have "takes {#} s (s1\<lparr>tx_cnt := 0\<rparr>)" using c by (auto simp: calm_def intro: takes_first takes_then [OF _ alike_takes [OF alike_steps(5)]])
      then show ?thesis using k data_continue_takes by (auto simp: turn_ok_def run_wait_def intro: takes_first)
    qed
  qed
qed

text \<open>An answer to a request for data.\<close>

lemma send_waiting_calm: "send_waiting i d fo m q s = Some (r, s') \<Longrightarrow> calm s s'"
proof -
  assume a: "send_waiting i d fo m q s = Some (r, s')"
  obtain r1 s1 where s1: "zb_mac_check_security d s = Some (r1, s1)"
    using a by (auto simp: send_waiting_def Let_def bind_eq_Some_conv split: if_split_asm)
  have q1: "quiet s s1" by (rule quiet_security [OF s1])
  show ?thesis
  proof (cases "r1 = RET_OK")
    case False
    then have "s' = s1" using a s1 by (auto simp: send_waiting_def Let_def split: if_split_asm)
    then show ?thesis using quiet_calm [OF q1] by simp
  next
    case True
    let ?t = "zb_tx_total_inc s1"
    define e where "e \<longleftrightarrow> encrypt_type (hdr (mbufs ?t d)) \<noteq> ZB_SECUR_NO_ENCR"
    define b where "b = (if e then encryption_buf ?t else d)"
    obtain s3 s4 s5 s6 where s3: "(if e then MAC_ADD_FCS d ?t else Some ?t) = Some s3"
      and s4: "(if check_pending_data m (i + 1) s3 \<noteq> None then set_pending_bit b s3 else Some s3) = Some s4"
      and s5: "MAC_ADD_FCS b s4 = Some s5" and s6: "ZB_TRANS_SEND_COMMAND b s5 = Some s6"
      and s': "s' = s6 \<or> s' = s6\<lparr>ack_dsn := q\<rparr>"
    proof -
      have "do { s3 \<leftarrow> (if e then MAC_ADD_FCS d ?t else Some ?t);
                 s4 \<leftarrow> (if check_pending_data m (i + 1) s3 \<noteq> None then set_pending_bit b s3 else Some s3);
                 s5 \<leftarrow> MAC_ADD_FCS b s4;
                 s6 \<leftarrow> ZB_TRANS_SEND_COMMAND b s5;
                 Some (RET_OK, if ZB_FCF_GET_ACK_REQUEST_BIT (fcf_at d fo s6) \<noteq> 0 then s6\<lparr>ack_dsn := q\<rparr> else s6) } = Some (r, s')"
      proof -
        have "ZB_FCF_GET_FRAME_TYPE (fcf_at d fo s) = MAC_FRAME_COMMAND \<or> ZB_FCF_GET_FRAME_TYPE (fcf_at d fo s) = MAC_FRAME_DATA"
          using a by (auto simp: send_waiting_def split: if_split_asm)
        then show ?thesis
          using a unfolding send_waiting_def Let_def e_def b_def assert_that_bind s1 True by simp
      qed
      then show thesis
      proof (elim bindE)
        fix s3 s4 s5 s6
        assume a: "(if e then MAC_ADD_FCS d ?t else Some ?t) = Some s3" "(if check_pending_data m (i + 1) s3 \<noteq> None then set_pending_bit b s3 else Some s3) = Some s4"
          "MAC_ADD_FCS b s4 = Some s5" "ZB_TRANS_SEND_COMMAND b s5 = Some s6"
          and e: "Some (RET_OK, if ZB_FCF_GET_ACK_REQUEST_BIT (fcf_at d fo s6) \<noteq> 0 then s6\<lparr>ack_dsn := q\<rparr> else s6) = Some (r, s')"
        from e have "s' = s6 \<or> s' = s6\<lparr>ack_dsn := q\<rparr>" by (cases "ZB_FCF_GET_ACK_REQUEST_BIT (fcf_at d fo s6) \<noteq> 0") simp_all
        with a show thesis by (rule that)
      qed
    qed
    have q3: "quiet ?t s3" using s3 quiet_fcs by (cases e) auto
    have q4: "quiet s3 s4" using s4 quiet_pending_bit by (cases "check_pending_data m (i + 1) s3 \<noteq> None") auto
    have "quiet s s4" by (rule quiet_trans [OF quiet_trans [OF quiet_trans [OF q1 quiet_steps(9)] q3] q4])
    then have "quiet s s6" by (rule quiet_trans [OF quiet_trans [OF _ quiet_fcs [OF s5]] quiet_send [OF s6]])
    then have "quiet s s'" using s' by (elim disjE) (simp_all add: quiet_def kept_def)
    then show ?thesis by (rule quiet_calm)
  qed
qed

lemma send_data_resp_calm: "send_data_resp k i d fo m q s = Some s' \<Longrightarrow> calm s s'"
proof (induction k arbitrary: s)
  case (Suc k)
  obtain r s1 where s1: "send_waiting i d fo m q s = Some (r, s1)"
    using Suc.prems by (auto simp: bind_eq_Some_conv)
  note c1 = send_waiting_calm [OF s1]
  show ?case
  proof (cases "r = RET_OK \<and> ZB_FCF_GET_ACK_REQUEST_BIT (fcf_at d fo s1) \<noteq> 0")
    case False
    then show ?thesis using Suc.prems s1 c1 by auto
  next
    case True
    obtain r2 s2 where s2: "zb_mac_check_ack s1 = Some (r2, s2)" using Suc.prems s1 True by (auto simp: bind_eq_Some_conv)
    have c2: "calm s s2" by (rule calm_trans [OF c1 calm_check_ack [OF s2]])
    show ?thesis using Suc.prems s1 s2 True Suc.IH calm_trans [OF c2] c2 by (auto split: if_split_asm)
  qed
qed simp

lemma frees: "takes {#p#} s ((emit_m (M_free p) s)\<lparr>pending_buf := x\<rparr>)"
  using takes_then [OF hands_out [of "M_free p" s] alike_takes [OF alike_steps(1)]] by simp

lemma comm_status_takes:
  assumes "zb_mac_send_comm_status q st p s = Some s'"
  shows "takes {#p#} s s' \<and> kept s s'"
proof -
  obtain m n where m: "buf_mhr (mbufs s q) = Some (m, n)"
    using assms by (auto simp: zb_mac_send_comm_status_def bind_eq_Some_conv)
  have s': "s' = emit_m (Comm_status_indication p st (ZB_FCF_GET_SRC_ADDRESSING_MODE (frame_control m)) (src_addr m)
                   (ZB_FCF_GET_DST_ADDRESSING_MODE (frame_control m)) (dst_addr m)) (mac_buf_status p (ucast st) s)"
    using assms m by (auto simp: zb_mac_send_comm_status_def split: if_split_asm)
  show ?thesis unfolding s' using calm_hands_out [OF quiet_calm [OF quiet_steps(4)]] by auto
qed

lemma data_request_continue_takes:
  assumes s: "zb_handle_data_request_cmd_continue s = Some s'" and p: "pending_buf s = Some p"
    and i: "ds_data_found_index (data_req_storage s) < length (pending_data_queue s)"
  shows "takes {#p#} s s'"
proof -
  let ?i = "ds_data_found_index (data_req_storage s)" and ?t = "ZB_SKIP_TX_CHK s"
  have t: "quiet s ?t" by (rule quiet_steps)
  obtain d where d: "pd_data (pending_data_queue s ! ?i) = Some d"
    using s by (auto simp: zb_handle_data_request_cmd_continue_def Let_def zb_check_cmd_tx_status_def bind_eq_Some_conv
        ZB_SKIP_TX_CHK_def split: prod.split_asm)
  obtain s3 where s3: "s3 = ?t \<or> (\<exists>c s4. zb_mac_send_comm_status d c p ?t = Some s4 \<and> s3 = s4\<lparr>pending_buf := None\<rparr>)"
    and e: "\<exists>x. (x = M_free d \<or> x = Mcps_confirm d) \<and>
      s' = (let s5 = ZB_CLEAR_PENDING_QUEUE_SLOT ?i (emit_m (M_cancel (Pending_data_timeout ?i)) (emit_m x s3))
            in case pending_buf s5 of None \<Rightarrow> s5 | Some pb \<Rightarrow> (emit_m (M_free pb) s5)\<lparr>pending_buf := None\<rparr>)"
    using s d p by (auto simp: zb_handle_data_request_cmd_continue_def Let_def zb_check_cmd_tx_status_def bind_eq_Some_conv
        ZB_SKIP_TX_CHK_def split: prod.split_asm if_split_asm)
  then obtain x where x: "x = M_free d \<or> x = Mcps_confirm d"
      "s' = (let s5 = ZB_CLEAR_PENDING_QUEUE_SLOT ?i (emit_m (M_cancel (Pending_data_timeout ?i)) (emit_m x s3))
            in case pending_buf s5 of None \<Rightarrow> s5 | Some pb \<Rightarrow> (emit_m (M_free pb) s5)\<lparr>pending_buf := None\<rparr>)" by blast
  let ?c = "ZB_CLEAR_PENDING_QUEUE_SLOT ?i (emit_m (M_cancel (Pending_data_timeout ?i)) (emit_m x s3))"
  have q3: "pending_data_queue s3 = pending_data_queue s"
    using s3 t comm_status_takes [of d _ p ?t] by (auto simp: quiet_def kept_def)
  have c: "takes {#} s3 ?c"
    by (rule clear_slot) (use q3 i d x(1) in auto)
  have pb: "pending_buf ?c = pending_buf s3" by (simp add: ZB_CLEAR_PENDING_QUEUE_SLOT_def)
  from s3 show ?thesis
  proof
    assume "s3 = ?t"
    then have "s' = (emit_m (M_free p) ?c)\<lparr>pending_buf := None\<rparr>" "takes {#} s ?c"
      using x(2) pb p t c takes_first [OF quiet_takes [OF t]] by (simp_all add: Let_def quiet_def kept_def)
    then show ?thesis using takes_first frees by metis
  next
    assume "\<exists>c s4. zb_mac_send_comm_status d c p ?t = Some s4 \<and> s3 = s4\<lparr>pending_buf := None\<rparr>"
    then obtain k s4 where s4: "zb_mac_send_comm_status d k p ?t = Some s4" "s3 = s4\<lparr>pending_buf := None\<rparr>" by blast
    have "takes {#p#} s s3"
      unfolding s4(2) using takes_first [OF quiet_takes [OF t]] comm_status_takes [OF s4(1)] takes_then [OF _ alike_takes [OF alike_steps(1)]] by blast
    moreover have "s' = ?c" using x(2) pb s4(2) by (simp add: Let_def)
    ultimately show ?thesis using takes_then c by simp
  qed
qed

lemma data_request_turn_ok: "zb_accept_data_request_cmd p s = Some s1 \<Longrightarrow> tx_wait_cb s = None \<Longrightarrow> turn_ok p s s1"
proof -
  assume a: "zb_accept_data_request_cmd p s = Some s1" and w: "tx_wait_cb s = None"
  define t where "t = s\<lparr>pending_buf := Some p, mac_status := MAC_SUCCESS\<rparr>"
  have t: "takes {#} s t" "pending_buf t = Some p" "tx_wait_cb t = None" "pending_data_queue t = pending_data_queue s"
    using w by (auto intro!: alike_takes simp: t_def alike_def)
  obtain m n where m: "buf_mhr (mbufs s p) = Some (m, n)"
    using a by (auto simp: zb_accept_data_request_cmd_def zb_handle_data_request_cmd_def bind_eq_Some_conv)
  have ck: "check_pending_data m k (s\<lparr>pending_buf := x\<rparr>) = check_pending_data m k s" for k x by (simp add: check_pending_data_def)
  show ?thesis
  proof (cases "check_pending_data m 0 s")
    case None
    then obtain s2 where s2: "zb_mac_send_ack (seq_number m) 0 t = Some s2" "s1 = (emit_m (M_free p) s2)\<lparr>pending_buf := None\<rparr>"
      using a m by (auto simp: zb_accept_data_request_cmd_def zb_handle_data_request_cmd_def t_def ck Let_def bind_eq_Some_conv split: if_split_asm)
    have q: "quiet t s2" by (rule quiet_ack [OF s2(1)])
    have "takes {#p#} s s1" unfolding s2(2) by (rule takes_first [OF takes_first [OF t(1) quiet_takes [OF q]] frees])
    moreover have "tx_wait_cb s1 = None" using q t by (simp add: s2(2) quiet_def kept_def)
    ultimately show ?thesis by (simp add: turn_ok_def)
  next
    case (Some i)
    have i: "i < length (pending_data_queue s)" using check_pending_data_slot [OF Some] by simp
    obtain d mp pl where d: "pd_data (pending_data_queue s ! i) = Some d" "buf_mhr (mbufs s d) = Some (mp, pl)"
      using a m Some by (auto simp: zb_accept_data_request_cmd_def zb_handle_data_request_cmd_def ck Let_def bind_eq_Some_conv split: if_split_asm)
    obtain s2 s3 where s2: "zb_mac_send_ack (seq_number m) 1 t = Some s2"
      and s3: "send_data_resp 256 i d (boff (mbufs s d)) m (seq_number mp) s2 = Some s3"
      and s1: "s1 = s3\<lparr>data_req_storage := \<lparr>ds_fcf = (d, boff (mbufs s d)), ds_cmd_ptr = (d, boff (mbufs s d)), ds_mhr_pend_len = pl,
            ds_data_found_index = i, ds_mhr_pend = mp\<rparr>, tx_wait_cb := Some Data_request_cmd_continue\<rparr>"
      using a m Some d unfolding zb_accept_data_request_cmd_def zb_handle_data_request_cmd_def Let_def
      by (auto simp: t_def ck bind_eq_Some_conv simp del: send_data_resp.simps split: if_split_asm)
    have c: "calm t s3" by (rule calm_trans [OF quiet_calm [OF quiet_ack [OF s2]] send_data_resp_calm [OF s3]])
    define u where "u = s1\<lparr>tx_cnt := 0\<rparr>"
    have u: "takes {#} s u" "pending_buf u = Some p" "ds_data_found_index (data_req_storage u) = i" "pending_data_queue u = pending_data_queue s"
    proof -
      have "alike s3 u" by (simp add: u_def s1 alike_def)
      then show "takes {#} s u" using takes_first [OF t(1)] c takes_then [OF _ alike_takes] by (auto simp: calm_def)
    qed (use c t in \<open>simp_all add: u_def s1 calm_def kept_def\<close>)
    have "takes {#p#} s s2'" if "run_wait Data_request_cmd_continue u = Some s2'" for s2'
      using data_request_continue_takes [of u s2' p] that u i by (auto simp: run_wait_def intro: takes_first)
    then show ?thesis by (simp add: turn_ok_def u_def s1)
  qed
qed

text \<open>Beacons, polls and orphans.\<close>

lemma beacon_turn_ok: "zb_handle_beacon_req s = Some s1 \<Longrightarrow> tx_wait_cb s = None \<Longrightarrow> turn_ok p s s1"
proof -
  assume a: "zb_handle_beacon_req s = Some s1" and w: "tx_wait_cb s = None"
  have i: "quiet s (zb_inc_mac_bsn s)" by (simp add: quiet_def kept_def zb_inc_mac_bsn_def)
  have "quiet s s1"
    using a by (auto simp: zb_handle_beacon_req_def zb_send_beacon_frame_def Let_def bind_eq_Some_conv
        intro: quiet_trans [OF i] quiet_trans [OF quiet_build quiet_operation] split: if_split_asm)
  then show ?thesis using w takes_mono [OF quiet_takes, of s s1 "{#p#}"] by (simp add: turn_ok_def quiet_def kept_def)
qed

lemma data_req_until_ack_calm: "data_req_until_ack k r s = Some (ret, s') \<Longrightarrow> calm s s'"
proof (induction k arbitrary: s)
  case (Suc k)
  let ?t = "mac_set ZB_MAC_INDIRECT_DATA_REQUEST_MASK s"
  obtain s1 ret1 s2 where s1: "zb_mlme_send_data_req_cmd r ?t = Some s1" and s2: "zb_mac_check_ack s1 = Some (ret1, s2)"
    and e: "(if ret1 = RET_PENDING then data_req_until_ack k r s2 else Some (ret1, s2)) = Some (ret, s')"
    using Suc.prems by (auto simp: bind_eq_Some_conv)
  have i: "quiet t ((zb_inc_mac_dsn t)\<lparr>ack_dsn := a\<rparr>)" for t a by (simp add: quiet_def kept_def zb_inc_mac_dsn_def)
  have "quiet ?t s1"
    using s1 by (auto simp: zb_mlme_send_data_req_cmd_def Let_def bind_eq_Some_conv intro: quiet_trans [OF i] quiet_trans [OF quiet_build quiet_operation] split: if_split_asm)
  then have "calm s s1" by (rule quiet_calm [OF quiet_trans [OF quiet_steps(5)]])
  then have c: "calm s s2" by (rule calm_trans [OF _ calm_check_ack [OF s2]])
  then show ?case using e Suc.IH [of s2] calm_trans [OF c] by (auto split: if_split_asm)
qed simp

lemma set_rt_takes: "takes {#} s (set_rt_buf_ref 0 s)"
  by (simp add: takes_def pend_inv_def slots_def owned_def queued_def poll_held_def rt_buf_ref_def set_rt_buf_ref_def)

lemma get_indirect_takes:
  assumes "zb_mac_get_indirect_data r s = Some (ret, s')"
  shows "takes {#} s s' \<and> tx_wait_cb s' = tx_wait_cb s"
proof -
  obtain ret1 s1 where s1: "data_req_until_ack 256 r s = Some (ret1, s1)"
    using assms by (auto simp: zb_mac_get_indirect_data_def bind_eq_Some_conv)
  have c: "calm s s1" by (rule data_req_until_ack_calm [OF s1])
  let ?a = "mac_set ZB_MAC_INDIRECT_DATA_REQUEST_MASK s1"
  let ?b = "emit_m (M_alarm (Indirect_data_timeout (dq_cb_type r)) ZB_MAX_FRAME_TOTAL_WAIT_TIME) (set_rt_buf_ref 0 ?a)"
  have b: "takes {#} s ?b"
  proof -
    have "takes {#} s ?a" using c takes_first [OF _ quiet_takes [OF quiet_steps(5)]] by (simp add: calm_def)
    then have "takes {#} s (set_rt_buf_ref 0 ?a)" by (rule takes_first [OF _ set_rt_takes])
    then show ?thesis by (rule takes_first [OF _ quiet_takes [OF quiet_steps(1)]]) simp_all
  qed
  have "s' = ?b \<or> s' = s1\<lparr>mac_status := MAC_NO_DATA\<rparr> \<or> s' = mac_clear ZB_MAC_PEND_DATA_MASK s1 \<or> s' = s1"
    using assms s1 by (auto simp: zb_mac_get_indirect_data_def simp del: data_req_until_ack.simps split: if_split_asm)
  moreover have "takes {#} s (s1\<lparr>mac_status := MAC_NO_DATA\<rparr>)" "takes {#} s (mac_clear ZB_MAC_PEND_DATA_MASK s1)" "takes {#} s s1"
    using c takes_first [OF _ alike_takes [OF alike_steps(2)]] takes_first [OF _ quiet_takes [OF quiet_steps(6)]] by (simp_all add: calm_def)
  moreover have "tx_wait_cb s1 = tx_wait_cb s" using c by (simp add: calm_def kept_def)
  ultimately show ?thesis using b by (auto simp: set_rt_buf_ref_def mac_set_def mac_clear_def)
qed

lemma poll_turn_ok: "zb_handle_poll_request p s = Some s1 \<Longrightarrow> tx_wait_cb s = None \<Longrightarrow> p < 256 \<Longrightarrow> turn_ok p s s1"
proof -
  assume a: "zb_handle_poll_request p s = Some s1" and w: "tx_wait_cb s = None" and p: "p < 256"
  let ?t = "s\<lparr>pending_buf := Some p\<rparr>"
  obtain ret u where u: "zb_mac_get_indirect_data (poll_data_req p ?t) ?t = Some (ret, u)"
    and s1: "s1 = (if ret = RET_OK then set_rt_buf_ref p (u\<lparr>poll_request_flag := True\<rparr>)
                    else emit_m (Poll_confirm p)
                           (mac_buf_status p (ucast (if mac_status u = MAC_SUCCESS then MAC_INVALID_PARAMETER else mac_status u)) u))\<lparr>pending_buf := None\<rparr>"
    using a w by (auto simp: zb_handle_poll_request_def bind_eq_Some_conv Let_def split: if_split_asm)
  have t: "takes {#} s u" "tx_wait_cb u = None"
    using get_indirect_takes [OF u] takes_first [OF alike_takes [OF alike_steps(1)]] w by auto
  have b: "unat (of_nat p :: u8) = p" using p by (simp add: unat_of_nat)
  have "takes {#p#} u s1"
  proof (cases "ret = RET_OK")
    case True
    then show ?thesis
      by (auto simp: s1 takes_def pend_inv_def slots_def owned_def queued_def poll_held_def rt_buf_ref_def set_rt_buf_ref_def b
          intro: subset_mset.order_trans)
  next
    case False
    let ?x = "mac_buf_status p (ucast (if mac_status u = MAC_SUCCESS then MAC_INVALID_PARAMETER else mac_status u)) u"
    have "takes {#p#} u (emit_m (Poll_confirm p) ?x)"
      using takes_first [OF quiet_takes [OF quiet_steps(4)] hands_out [of "Poll_confirm p" ?x]] by simp
    then show ?thesis using False takes_then [OF _ alike_takes [OF alike_steps(1)]] by (simp add: s1)
  qed
  then have "takes {#p#} s s1" by (rule takes_first [OF t(1)])
  moreover have "tx_wait_cb s1 = None" using t(2) by (simp add: s1 set_rt_buf_ref_def mac_buf_status_def)
  ultimately show ?thesis by (simp add: turn_ok_def)
qed

lemma orphan_turn_ok: "zb_mlme_handle_orphan_response p junk s = Some s1 \<Longrightarrow> tx_wait_cb s = None \<Longrightarrow> turn_ok p s s1"
proof -
  assume a: "zb_mlme_handle_orphan_response p junk s = Some s1" and w: "tx_wait_cb s = None"
  obtain b addr short r where b: "zb_tx_coord_realignment_cmd False (Some addr) short junk r
      ((set_mbuf p b (s\<lparr>pending_buf := Some p\<rparr>))\<lparr>tx_wait_cb := Some Orphan_response_continue, tx_wait_cb_arg := p\<rparr>) = Some s1"
    using a by (auto simp: zb_mlme_handle_orphan_response_def Let_def bind_eq_Some_conv split: if_split_asm)
  let ?t = "(set_mbuf p b (s\<lparr>pending_buf := Some p\<rparr>))\<lparr>tx_wait_cb := Some Orphan_response_continue, tx_wait_cb_arg := p\<rparr>"
  have "quiet ?t s1" using b
    by (auto simp: zb_tx_coord_realignment_cmd_def Let_def bind_eq_Some_conv
        intro: quiet_trans [OF quiet_steps(7)] quiet_trans [OF quiet_build quiet_operation])
  moreover have "alike s ?t" by (simp add: alike_def)
  ultimately have t: "alike s s1" "pending_buf s1 = Some p" "tx_wait_cb s1 = Some Orphan_response_continue"
    by (simp_all add: quiet_def kept_def alike_def)
  have "takes {#p#} s s2" if "zb_mlme_handle_orphan_response_continue (s1\<lparr>tx_cnt := 0\<rparr>) = Some s2" for s2
  proof -
    let ?u = "ZB_SKIP_TX_CHK (s1\<lparr>tx_cnt := 0\<rparr>)"
    have u: "takes {#} s ?u" using t(1) by (intro alike_takes) (simp add: alike_def ZB_SKIP_TX_CHK_def)
    let ?x = "Comm_status_indication p MAC_SUCCESS MODE_64BIT (oresp_addr (mbufs ?u p)) MODE_16BIT (union_short (oresp_short (mbufs ?u p)))"
    have "s2 = emit_m ?x ?u"
      using that t(2) by (auto simp: zb_mlme_handle_orphan_response_continue_def Let_def ZB_SKIP_TX_CHK_def split: if_split_asm)
    then show ?thesis using takes_first [OF u hands_out [of ?x ?u]] by simp
  qed
  then show ?thesis using t(3) by (simp add: turn_ok_def run_wait_def)
qed

lemma tx_turn_takes:
  assumes "tx_turn f p junk s = Some s'" "tx_wait_cb s = None" "p < 256"
  shows "takes {#p#} s s' \<and> tx_wait_cb s' = None"
  by (rule turn_ok_turn [OF _ assms(1)])
    (use assms(2,3) in \<open>auto simp: run_tx_def intro: data_turn_ok data_request_turn_ok beacon_turn_ok poll_turn_ok orphan_turn_ok split: mac_tx.split_asm\<close>)

section \<open>Other events\<close>

lemma data_frame_takes:
  assumes "zb_handle_data_frame p s = Some s'"
  shows "takes {#p#} s s' \<and> tx_wait_cb s' = tx_wait_cb s"
proof -
  let ?t = "s\<lparr>pending_buf := Some p\<rparr>"
  obtain m n where m: "buf_mhr (mbufs s p) = Some (m, n)" using assms by (auto simp: zb_handle_data_frame_def elim!: bindE)
  have "Option.bind (if ZB_FCF_GET_ACK_REQUEST_BIT (frame_control m) \<noteq> 0 then zb_mac_send_ack (seq_number m) 0 ?t else Some ?t)
      (\<lambda>u. Some (emit_m (Mcps_indication p) u)) = Some s'"
    using assms m by (simp add: zb_handle_data_frame_def Let_def)
  then obtain u where v: "(if ZB_FCF_GET_ACK_REQUEST_BIT (frame_control m) \<noteq> 0 then zb_mac_send_ack (seq_number m) 0 ?t else Some ?t) = Some u"
      and e: "s' = emit_m (Mcps_indication p) u"
    by (rule bindE) simp
  have u: "quiet ?t u" "s' = emit_m (Mcps_indication p) u"
    using v e quiet_ack by (cases "ZB_FCF_GET_ACK_REQUEST_BIT (frame_control m) \<noteq> 0", auto)
  have "takes {#p#} s s'"
    unfolding u(2) using takes_first [OF takes_first [OF alike_takes [OF alike_steps(1)] quiet_takes [OF u(1)]] hands_out [of "Mcps_indication p" u]] by simp
  then show ?thesis using u by (simp add: quiet_def kept_def)
qed

lemma associate_takes:
  assumes "zb_mlme_associate_response p r s = Some s'"
  shows "takes {#p#} s s' \<and> tx_wait_cb s' = tx_wait_cb s"
proof (cases "mac_joined_pro s")
  case True
  then have "s' = emit_m (M_free p) s" using assms by (simp add: zb_mlme_associate_response_def)
  then show ?thesis using hands_out [of "M_free p" s] by simp
next
  case False
  let ?t = "s\<lparr>mac_status := MAC_SUCCESS, pending_buf := Some p\<rparr>"
  let ?d = "\<lparr>pd_data = Some p, pd_dst_addr_mode = MODE_64BIT, pd_dst_addr = ar_device_address r\<rparr>"
  have h: "zb_handle_associate_response p r ?t = Some s'" using assms False by (simp add: zb_mlme_associate_response_def)
  obtain hlen fc where hf: "zb_mac_calculate_mhr_length MODE_64BIT MODE_64BIT 1 = Some hlen" "mac_fcf MAC_FRAME_COMMAND 0 1 1 MODE_64BIT MODE_64BIT = Some fc"
    using h by (auto simp: zb_handle_associate_response_def elim!: bindE split: if_split_asm)
  let ?k = "\<lambda>(ret, s3). if ret = RET_ERROR then Option.bind (zb_mac_send_comm_status p (mac_status s3) p s3) (\<lambda>s4. Some (s4\<lparr>pending_buf := None\<rparr>)) else Some s3"
  let ?b = "build_frame p (hlen + 4) (ass_response_mhr fc (ar_device_address r) ?t) hlen
                 ([MAC_CMD_ASSOCIATION_RESPONSE] @ htole16 (ar_short_address r) @ [ar_status r]) (zb_inc_mac_dsn ?t)"
  have "Option.bind ?b (\<lambda>s1. Option.bind (MAC_ADD_FCS p s1) (\<lambda>s2. ?k (zb_mac_put_data_to_pending_queue ?d s2))) = Some s'"
    using h hf by (simp add: zb_handle_associate_response_def Let_def split: if_split_asm)
  then obtain s1 s2 where s1: "?b = Some s1" and s2: "MAC_ADD_FCS p s1 = Some s2" and e0: "?k (zb_mac_put_data_to_pending_queue ?d s2) = Some s'"
    by (elim bindE) blast
  obtain ret s3 where s3: "zb_mac_put_data_to_pending_queue ?d s2 = (ret, s3)" by (metis surj_pair)
  have e: "(if ret = RET_ERROR then Option.bind (zb_mac_send_comm_status p (mac_status s3) p s3) (\<lambda>s4. Some (s4\<lparr>pending_buf := None\<rparr>)) else Some s3) = Some s'"
    using e0 s3 by simp
  have "quiet ?t s2" by (rule quiet_trans [OF quiet_trans [OF quiet_steps(7) quiet_build [OF s1]] quiet_fcs [OF s2]])
  then have t: "takes {#} s s2" "tx_wait_cb s2 = tx_wait_cb s" by (auto intro!: alike_takes simp: quiet_def kept_def alike_def)
  show ?thesis
  proof (cases "ret = RET_ERROR")
    case True
    then have f: "takes {#} s s3" "tx_wait_cb s3 = tx_wait_cb s" using takes_put [OF _ s3] t takes_first [OF t(1) alike_takes [OF alike_steps(2)]] by auto
    obtain s4 where s4: "zb_mac_send_comm_status p (mac_status s3) p s3 = Some s4" "s' = s4\<lparr>pending_buf := None\<rparr>"
      using e True by (auto simp: bind_eq_Some_conv)
    show ?thesis unfolding s4(2) using comm_status_takes [OF s4(1)] f takes_first takes_then [OF _ alike_takes [OF alike_steps(1)]] by (auto simp: kept_def)
  next
    case False
    then show ?thesis using e takes_put [OF _ s3] t takes_first by auto
  qed
qed

text \<open>A timer that runs out is not set any more.\<close>

definition pending_timer_fires :: "nat \<Rightarrow> mac_node \<Rightarrow> mac_node option" where
  "pending_timer_fires i s = zb_mac_pending_data_timeout i (emit_m (M_cancel (Pending_data_timeout i)) s)"

lemma pending_timer_takes:
  assumes "pending_timer_fires i s = Some s'" "i \<in> slots s"
  shows "takes {#} s s' \<and> tx_wait_cb s' = tx_wait_cb s"
proof -
  let ?c = "emit_m (M_cancel (Pending_data_timeout i)) s"
  obtain p s1 where p: "pd_data (pending_data_queue s ! i) = Some p" and s1: "zb_mac_send_comm_status p MAC_TRANSACTION_EXPIRED p ?c = Some s1"
    and s': "s' = ZB_CLEAR_PENDING_QUEUE_SLOT i s1"
    using assms(1) by (auto simp: pending_timer_fires_def zb_mac_pending_data_timeout_def elim!: bindE)
  obtain m n where m: "buf_mhr (mbufs s p) = Some (m, n)" using s1 by (auto simp: zb_mac_send_comm_status_def elim!: bindE)
  let ?x = "Comm_status_indication p MAC_TRANSACTION_EXPIRED (ZB_FCF_GET_SRC_ADDRESSING_MODE (frame_control m)) (src_addr m)
                   (ZB_FCF_GET_DST_ADDRESSING_MODE (frame_control m)) (dst_addr m)"
  let ?s1 = "emit_m ?x (mac_buf_status p (ucast MAC_TRANSACTION_EXPIRED) ?c)"
  have e: "s1 = ?s1" using s1 m by (auto simp: zb_mac_send_comm_status_def split: if_split_asm)
  have i: "i < length (pending_data_queue s)" using assms(2) by (simp add: slots_def)
  let ?w = "ZB_CLEAR_PENDING_QUEUE_SLOT i (emit_m (M_cancel (Pending_data_timeout i)) (emit_m ?x s))"
  have "takes {#} s ?w" by (rule clear_slot [OF i p]) simp_all
  moreover have "alike ?w s'" by (simp add: s' e alike_def ZB_CLEAR_PENDING_QUEUE_SLOT_def mac_buf_status_def)
  ultimately have "takes {#} s s'" by (rule takes_first [OF _ alike_takes])
  then show ?thesis by (simp add: s' e ZB_CLEAR_PENDING_QUEUE_SLOT_def mac_buf_status_def)
qed

definition poll_timer_fires :: "mac_node \<Rightarrow> mac_node" where
  "poll_timer_fires = zb_mac_indirect_data_timeout MAC_POLL_REQUEST_CALLBACK"

lemma poll_timer_takes:
  assumes "poll_request_flag s"
  shows "takes {#} s (poll_timer_fires s)" "tx_wait_cb (poll_timer_fires s) = tx_wait_cb s"
proof -
  have "takes {#} s (set_rt_buf_ref 0 (emit_m (Poll_confirm b) (mac_buf_status b st (s\<lparr>poll_request_flag := False\<rparr>))))"
    if "b = rt_buf_ref s" "b \<noteq> 0" for b st
    using assms that
    by (simp add: takes_def pend_inv_def slots_def owned_def queued_def poll_held_def rt_buf_ref_def set_rt_buf_ref_def mac_buf_status_def)
  moreover have "takes {#} s (emit_m M_out_buf_delayed (s\<lparr>rt_ctx := htole32 x @ htole32 y @ drop 8 (rt_ctx s)\<rparr>))" for x y
    by (auto simp: takes_def pend_inv_def slots_def owned_def queued_def poll_held_def rt_buf_ref_def nth_append)
  ultimately show "takes {#} s (poll_timer_fires s)"
    by (simp add: poll_timer_fires_def zb_mac_indirect_data_timeout_def call_indirect_data_callback_def Let_def)
  show "tx_wait_cb (poll_timer_fires s) = tx_wait_cb s"
    by (simp add: poll_timer_fires_def zb_mac_indirect_data_timeout_def call_indirect_data_callback_def Let_def set_rt_buf_ref_def mac_buf_status_def)
qed

section \<open>Histories\<close>

definition mac_boot :: "mac_node \<Rightarrow> bool" where
  "mac_boot s \<longleftrightarrow> list_all empty_slot (pending_data_queue s) \<and> ring_inv (out_q s) \<and> ring_list (out_q s) = [] \<and> \<not> poll_request_flag s
     \<and> rx_q s = [] \<and> macts s = [] \<and> length (rt_ctx s) = 9 \<and> tx_wait_cb s = None"

text \<open>What happens to the layer, and the buffers it is given with it.\<close>

inductive mac_event :: "nat multiset \<Rightarrow> mac_node \<Rightarrow> mac_node \<Rightarrow> bool" where
  e_arrive: "mac_event {#p#} s (s\<lparr>rx_q := rx_q s @ [(p, f)]\<rparr>)"
| e_receive: "recv_next s = Some s' \<Longrightarrow> mac_event {#} s s'"
| e_turn: "p < 256 \<Longrightarrow> tx_turn f p junk s = Some s' \<Longrightarrow> mac_event {#p#} s s'"
| e_data: "zb_handle_data_frame p s = Some s' \<Longrightarrow> mac_event {#p#} s s'"
| e_associate: "zb_mlme_associate_response p r s = Some s' \<Longrightarrow> mac_event {#p#} s s'"
| e_expire: "i \<in> timers (macts s) \<Longrightarrow> pending_timer_fires i s = Some s' \<Longrightarrow> mac_event {#} s s'"
| e_poll: "poll_request_flag s \<Longrightarrow> mac_event {#} s (poll_timer_fires s)"

text \<open>A history from one state to another, with all buffers that are given.\<close>

inductive mac_events :: "nat multiset \<Rightarrow> mac_node \<Rightarrow> mac_node \<Rightarrow> bool" where
  no_events: "mac_events {#} s s"
| more_events: "mac_events g s s' \<Longrightarrow> mac_event h s' s'' \<Longrightarrow> mac_events (g + h) s s''"

lemma event_takes:
  assumes "mac_event g s s'" "pend_inv s" "tx_wait_cb s = None"
  shows "takes g s s' \<and> tx_wait_cb s' = None"
  using assms
proof (induction rule: mac_event.induct)
  case (e_arrive p s f)
  have "pend_inv (s\<lparr>rx_q := rx_q s @ [(p, f)]\<rparr>) = pend_inv s" by (simp add: pend_inv_def slots_def)
  moreover have "owned (s\<lparr>rx_q := rx_q s @ [(p, f)]\<rparr>) = owned s + {#p#}" by (simp add: owned_def queued_def poll_held_def rt_buf_ref_def)
  ultimately show ?case using e_arrive by (simp add: takes_def)
next
  case (e_receive s s')
  then show ?case using calm_recv_next [OF e_receive(1)] by (simp add: calm_def kept_def)
next
  case (e_turn p f junk s s')
  then show ?case using tx_turn_takes by simp
next
  case (e_data p s s')
  then show ?case using data_frame_takes by simp
next
  case (e_associate p r s s')
  then show ?case using associate_takes by simp
next
  case (e_expire i s s')
  then show ?case using pending_timer_takes by (simp add: pend_inv_def)
next
  case (e_poll s)
  then show ?case using poll_timer_takes by simp
qed

lemma events_take: "mac_events g s s' \<Longrightarrow> pend_inv s \<Longrightarrow> tx_wait_cb s = None \<Longrightarrow> takes g s s' \<and> tx_wait_cb s' = None \<and> pend_inv s'"
proof (induction rule: mac_events.induct)
  case (more_events g s s' h s'')
  then show ?case using event_takes [OF more_events(2)] takes_trans [of g s s' h s''] by (auto simp: takes_def)
qed simp

lemma boot_inv: "mac_boot s \<Longrightarrow> pend_inv s \<and> tx_wait_cb s = None \<and> owned s = {#}"
proof -
  assume b: "mac_boot s"
  then have q: "list_all empty_slot (pending_data_queue s)" by (simp add: mac_boot_def)
  then have "slots s = {}" by (auto simp: slots_def list_all_length empty_slot_def)
  moreover have "List.map_filter pd_data (pending_data_queue s) = []"
    using q by (auto simp: List.map_filter_def list_all_iff empty_slot_def)
  ultimately show ?thesis using b by (simp add: mac_boot_def pend_inv_def owned_def queued_def poll_held_def)
qed


lemma sample_mac_boot: "mac_boot sample_mac"
  by (simp add: mac_boot_def sample_mac_def empty_slot_def no_slot_def ring_inv_def ring_capacity_def ring_list_def list_all_iff)


lemma request_without_slot:
  assumes "zb_handle_mcps_data_req p s = Some s'" "free_slot s = None"
    and "has_tx_option MAC_TX_OPTION_INDIRECT_TRANSMISSION_BIT (dr_tx_options (mcps_req s p))"
  shows "macts s' = macts s \<and> out_q s' = ring_put (out_q s) p \<and> \<not> ring_is_full (out_q s) \<and> takes {#p#} s s' \<and> tx_wait_cb s' = tx_wait_cb s"
proof -
  define t where "t = (set_mbuf p ((mbufs s p)\<lparr>hdr := (hdr (mbufs s p))\<lparr>handle := dr_msdu_handle (mcps_req s p)\<rparr>\<rparr>) s)
                 \<lparr>pending_buf := Some p, mac_status := MAC_SUCCESS, retry_counter := 0\<rparr>"
  obtain r u where f: "zb_mcps_data_request_fill_hdr p t = Some (r, u)"
    using assms(1) by (auto simp: zb_handle_mcps_data_req_def Let_def t_def bind_eq_Some_conv)
  have full: "zb_mac_put_data_to_pending_queue d x = (RET_ERROR, x\<lparr>mac_status := MAC_TRANSACTION_OVERFLOW\<rparr>)" if "pending_data_queue x = pending_data_queue s" for d x
    using that assms(2) by (simp add: zb_mac_put_data_to_pending_queue_def free_slot_def)
  have u: "r = RET_PENDING \<and> macts u = macts s \<and> out_q u = ring_put (out_q s) p \<and> \<not> ring_is_full (out_q s) \<and> pending_data_queue u = pending_data_queue s"
    using f assms(3) unfolding zb_mcps_data_request_fill_hdr_def Let_def assert_that_bind
    by (auto simp: bind_eq_Some_conv full t_def zb_inc_mac_dsn_def zb_mac_put_request_to_queue_def split: if_split_asm)
  then have e: "s' = u" using assms(1) f by (simp add: zb_handle_mcps_data_req_def Let_def t_def)
  have "takes {#} s t" by (rule alike_takes) (simp add: t_def alike_def)
  then have "takes {#p#} s s'" "tx_wait_cb s' = tx_wait_cb s" using fill_hdr_takes [OF f] u e by (auto simp: t_def intro: takes_first)
  then show ?thesis using u e by blast
qed

text \<open>
  C37: An indirect frame that finds the four slots in use is lost. Its request sends nothing, confirms nothing and sets no timer: the buffer
  goes into a second queue, and whatever happens afterwards, it stays there behind the frames that came before it, for no part of the program takes
  from that queue.
\<close>

theorem frame_without_slot_is_never_sent:
  assumes "mac_boot s" "mac_events g s s1" "free_slot s1 = None"
    and "has_tx_option MAC_TX_OPTION_INDIRECT_TRANSMISSION_BIT (dr_tx_options (mcps_req s1 p))"
    and "zb_handle_mcps_data_req p s1 = Some s2" "mac_events h s2 s3"
  shows "macts s2 = macts s1 \<and> (\<exists>later. ring_list (out_q s3) = ring_list (out_q s1) @ p # later)"
proof -
  have s1: "pend_inv s1" "tx_wait_cb s1 = None" using events_take [OF assms(2)] boot_inv [OF assms(1)] by auto
  note r = request_without_slot [OF assms(5,3,4)]
  then have s2: "pend_inv s2" "tx_wait_cb s2 = None" "ring_list (out_q s2) = ring_list (out_q s1) @ [p]"
    using s1 ring_put_list(2) [of "out_q s1" p] by (auto simp: takes_def pend_inv_def)
  have "prefix (ring_list (out_q s2)) (ring_list (out_q s3))" using events_take [OF assms(6) s2(1,2)] s2(1) by (simp add: takes_def)
  then show ?thesis using r s2(3) by (auto simp: prefix_def)
qed

text \<open>An indirect request with room: the frame takes the first free slot.\<close>

lemma data_fcf: "mac_fcf MAC_FRAME_DATA 0 1 1 MODE_16BIT MODE_16BIT = Some [0x61, 0x88]"
  by (simp add: mac_fcf_def MAC_FRAME_DATA_def MODE_16BIT_def ZB_FCF_SET_FRAME_TYPE_def MAC_FRAME_RESERVED1_def
      ZB_FCF_SET_FRAME_PENDING_BIT_def ZB_FCF_SET_ACK_REQUEST_BIT_def ZB_FCF_SET_PANID_COMPRESSION_BIT_def fcf_set_bit_def
      zb_fcf_set_dst_addressing_mode_def zb_fcf_set_src_addressing_mode_def ZB_FCF_SET_FRAME_VERSION_def)

lemma indirect_request:
  assumes mem: "mems_ok s" and ok: "buf_ok (mbufs s p)" "blen (mbufs s p) + boff (mbufs s p) + 8 \<le> ZB_IO_BUF_SIZE" "blen (mbufs s p) + 9 < ZB_IO_BUF_SIZE"
    and opt: "dr_tx_options (mcps_req s p) = 5" and w: "tx_wait_cb s = None" and room: "free_slot s = None \<Longrightarrow> \<not> ring_is_full (out_q s)"
  obtains s' where "zb_handle_mcps_data_req p s = Some s'" "tx_turn Handle_mcps_data_req p junk s = Some s'" "tx_wait_cb s' = None"
    "mcps_req s' = mcps_req s" "mems_ok s'" "free_slot s \<noteq> None \<Longrightarrow> out_q s' = out_q s"
    "pending_data_queue s' = (case free_slot s of None \<Rightarrow> pending_data_queue s
       | Some i \<Rightarrow> (pending_data_queue s)[i := \<lparr>pd_data = Some p, pd_dst_addr_mode = MODE_16BIT, pd_dst_addr = union_short (dr_dst_addr (mcps_req s p))\<rparr>])"
    "\<And>q. q \<noteq> p \<Longrightarrow> mbufs s' q = mbufs s q"
proof -
  let ?d = "\<lparr>pd_data = Some p, pd_dst_addr_mode = MODE_16BIT, pd_dst_addr = union_short (dr_dst_addr (mcps_req s p))\<rparr>"
  define b where "b = (mbufs s p)\<lparr>hdr := (hdr (mbufs s p))\<lparr>handle := dr_msdu_handle (mcps_req s p)\<rparr>\<rparr>"
  define t where "t = (set_mbuf p b s)\<lparr>pending_buf := Some p, mac_status := MAC_SUCCESS, retry_counter := 0\<rparr>"
  define m where "m = data_mhr [0x61, 0x88] (mcps_req s p) t"
  define u where "u = (zb_inc_mac_dsn t)\<lparr>ack_dsn := seq_number m\<rparr>"
  have b: "buf_ok b" "blen b = blen (mbufs s p)" "boff b = boff (mbufs s p)" using ok by (simp_all add: b_def buf_ok_def)
  have t: "mbufs t p = b" "mcps_req t = mcps_req s" "pending_data_queue t = pending_data_queue s" "tx_wait_cb t = None" "out_q t = out_q s"
    using w by (simp_all add: t_def)
  have fu: "free_slot u = free_slot s" "mbufs u p = b" "pending_data_queue u = pending_data_queue s"
    by (simp_all add: free_slot_def u_def zb_inc_mac_dsn_def t_def)
  have hl: "zb_mac_calculate_mhr_length MODE_16BIT MODE_16BIT 1 = Some 9"
    by (simp add: zb_mac_calculate_mhr_length_def mac_modes ZB_MAC_DST_PANID_OFFSET_def PAN_ID_LENGTH_def)
  have opts: "has_tx_option MAC_TX_OPTION_ACKNOWLEDGED_BIT 5" "has_tx_option MAC_TX_OPTION_INDIRECT_TRANSMISSION_BIT 5"
    by (simp_all add: has_tx_option_def MAC_TX_OPTION_ACKNOWLEDGED_BIT_def MAC_TX_OPTION_INDIRECT_TRANSMISSION_BIT_def)
  have fits: "tail_fits SIZEOF_MCPS_DATA_REQ b" "blen b + 9 \<le> 255"
    using ok b by (simp_all add: tail_fits_def zb_get_buf_tail_def SIZEOF_MCPS_DATA_REQ_def ZB_IO_BUF_SIZE_def)
  have fill: "zb_mcps_data_request_fill_hdr p t =
      (let (ret, s3) = zb_mac_put_data_to_pending_queue ?d u in
       if ret = RET_OK \<or> ret = RET_PENDING then
         do { (b1, q) \<leftarrow> zb_buf_smart_alloc_left (mbufs s3 p) 9; b2 \<leftarrow> write_bytes q (zb_mac_fill_mhr m) b1; Some (ret, set_mbuf p b2 s3) }
       else if ret = RET_ERROR \<and> mac_status s3 = MAC_TRANSACTION_OVERFLOW then
         do { s4 \<leftarrow> zb_mac_put_request_to_queue p (s3\<lparr>mac_status := MAC_SUCCESS\<rparr>); Some (RET_PENDING, s4) }
       else Some (ret, s3))"
    unfolding zb_mcps_data_request_fill_hdr_def Let_def t opt hl fits(1) Option.bind.simps
    using fits data_fcf opts unfolding u_def m_def by (simp add: t)
  obtain b1 where b1: "zb_buf_smart_alloc_left b 9 = Some (b1, boff b1)" "buf_ok b1" "blen b1 = blen b + 9"
    using alloc_left_payload [OF b(1), of 9] ok(3) b(2) by (auto simp: add.commute)
  have lm: "length (zb_mac_fill_mhr m) = 9"
    by (simp add: m_def data_mhr_def zb_mac_fill_mhr_def ZB_FCF_GET_DST_ADDRESSING_MODE_def ZB_FCF_GET_SRC_ADDRESSING_MODE_def
        ZB_FCF_GET_PANID_COMPRESSION_BIT_def fill_addr_def mac_modes)
  obtain b2 where b2: "write_bytes (boff b1) (zb_mac_fill_mhr m) b1 = Some b2" "buf_ok b2"
    by (rule write_front [OF b1(2), of "zb_mac_fill_mhr m"]) (use lm b1(3) in simp_all)
  show thesis
  proof (cases "free_slot s")
    case None
    have f: "\<not> ring_is_full (out_q s)" by (rule room [OF None])
    define s' where "s' = u\<lparr>mac_status := MAC_SUCCESS, out_q := ring_put (out_q s) p\<rparr>"
    have "zb_mcps_data_request_fill_hdr p t = Some (RET_PENDING, s')"
      unfolding fill using None fu f by (simp add: zb_mac_put_data_to_pending_queue_def zb_mac_put_request_to_queue_def s'_def u_def zb_inc_mac_dsn_def t)
    then have h: "zb_handle_mcps_data_req p s = Some s'" by (simp add: zb_handle_mcps_data_req_def Let_def t_def b_def)
    have "tx_wait_cb s' = None" using t by (simp add: s'_def u_def zb_inc_mac_dsn_def)
    with h have "tx_turn Handle_mcps_data_req p junk s = Some s'" by (simp add: tx_turn_def run_tx_def)
    moreover have "mems_ok s'" using mem b(1) by (simp add: mems_ok_def s'_def u_def zb_inc_mac_dsn_def t_def buf_ok_def)
    ultimately show thesis using that [of s'] None h t by (simp add: s'_def u_def zb_inc_mac_dsn_def t_def)
  next
    case (Some i)
    define v where "v = emit_m (M_alarm (Pending_data_timeout i) ZB_MAC_TRANSACTION_PERSISTENCE_TIME) (u\<lparr>pending_data_queue := (pending_data_queue s)[i := ?d]\<rparr>)"
    have "zb_mcps_data_request_fill_hdr p t = Some (RET_PENDING, set_mbuf p b2 v)"
      unfolding fill using Some fu b1 b2 by (simp add: zb_mac_put_data_to_pending_queue_def v_def)
    then have h: "zb_handle_mcps_data_req p s = Some (set_mbuf p b2 v)" by (simp add: zb_handle_mcps_data_req_def Let_def t_def b_def)
    have "tx_wait_cb (set_mbuf p b2 v) = None" using t by (simp add: v_def u_def zb_inc_mac_dsn_def)
    with h have "tx_turn Handle_mcps_data_req p junk s = Some (set_mbuf p b2 v)" by (simp add: tx_turn_def run_tx_def)
    moreover have "mems_ok (set_mbuf p b2 v)" using mem b2(2) b(1) by (simp add: mems_ok_def v_def u_def zb_inc_mac_dsn_def t_def buf_ok_def)
    ultimately show thesis using that [of "set_mbuf p b2 v"] Some h t by (simp add: v_def u_def zb_inc_mac_dsn_def t_def)
  qed
qed

lemma sample_mac_sel:
  "mems_ok sample_mac" "buf_ok (mbufs sample_mac p)" "blen (mbufs sample_mac p) = 10" "boff (mbufs sample_mac p) = 69"
  "dr_tx_options (mcps_req sample_mac p) = 5" "tx_wait_cb sample_mac = None" "out_q sample_mac = \<lparr>ring_buf = replicate 10 0, read_i = 0, write_i = 0, written = 0\<rparr>"
  by (simp_all add: sample_mac_def mems_ok_def plain_buf_def buf_ok_def ZB_IO_BUF_SIZE_def)

text \<open>The four slots of the example are taken one after the other.\<close>

lemma fill_slots:
  assumes "mems_ok s" "mcps_req s = mcps_req sample_mac" "tx_wait_cb s = None" "out_q s = out_q sample_mac" "mbufs s p = mbufs sample_mac p"
    "free_slot s = Some i" "p < 256"
  obtains s' where "mac_event {#p#} s s'" "mems_ok s'" "mcps_req s' = mcps_req sample_mac" "tx_wait_cb s' = None" "out_q s' = out_q sample_mac"
    "\<And>q. q \<noteq> p \<Longrightarrow> mbufs s' q = mbufs s q" "map pd_data (pending_data_queue s') = (map pd_data (pending_data_queue s))[i := Some p]"
proof -
  obtain s' where "tx_turn Handle_mcps_data_req p [] s = Some s'" "tx_wait_cb s' = None" "mcps_req s' = mcps_req s" "mems_ok s'" "out_q s' = out_q s"
    "pending_data_queue s' = (pending_data_queue s)[i := \<lparr>pd_data = Some p, pd_dst_addr_mode = MODE_16BIT, pd_dst_addr = union_short (dr_dst_addr (mcps_req s p))\<rparr>]"
    "\<And>q. q \<noteq> p \<Longrightarrow> mbufs s' q = mbufs s q"
    by (rule indirect_request [OF assms(1), where p = p and junk = "[]"]) (use assms in \<open>simp_all add: sample_mac_sel ZB_IO_BUF_SIZE_def\<close>)
  then show thesis using that [of s'] assms e_turn [of p Handle_mcps_data_req "[]" s s'] by (simp add: map_update)
qed

lemma free_slot_data:
  "free_slot s = find (\<lambda>i. map pd_data (pending_data_queue s) ! i = None) [0..<length (map pd_data (pending_data_queue s))]"
  unfolding free_slot_def empty_slot_def by (rule find_cong) auto

theorem frame_without_slot_is_never_sent_witness:
  "\<exists>s1 s2. mac_events {#1, 2, 3, 4#} sample_mac s1 \<and> zb_handle_mcps_data_req 6 s1 = Some s2 \<and> macts s2 = macts s1
     \<and> (\<exists>later. ring_list (out_q s2) = 6 # later)"
proof -
  have m: "map pd_data (pending_data_queue sample_mac) = [None, None, None, None]"
    by (simp add: sample_mac_def no_slot_def numeral_eq_Suc)
  obtain a where a: "mac_event {#1#} sample_mac a" "mems_ok a" "mcps_req a = mcps_req sample_mac" "tx_wait_cb a = None" "out_q a = out_q sample_mac"
      "\<And>q. q \<noteq> 1 \<Longrightarrow> mbufs a q = mbufs sample_mac q" "map pd_data (pending_data_queue a) = [Some 1, None, None, None]"
    by (rule fill_slots [of sample_mac 1 0]) (simp_all add: sample_mac_sel free_slot_data m)
  obtain b where b: "mac_event {#2#} a b" "mems_ok b" "mcps_req b = mcps_req sample_mac" "tx_wait_cb b = None" "out_q b = out_q sample_mac"
      "\<And>q. q \<noteq> 2 \<Longrightarrow> mbufs b q = mbufs a q" "map pd_data (pending_data_queue b) = [Some 1, Some 2, None, None]"
    by (rule fill_slots [of a 2 1]) (use a in \<open>simp_all add: free_slot_data\<close>)
  obtain c where c: "mac_event {#3#} b c" "mems_ok c" "mcps_req c = mcps_req sample_mac" "tx_wait_cb c = None" "out_q c = out_q sample_mac"
      "\<And>q. q \<noteq> 3 \<Longrightarrow> mbufs c q = mbufs b q" "map pd_data (pending_data_queue c) = [Some 1, Some 2, Some 3, None]"
    by (rule fill_slots [of b 3 2]) (use a b in \<open>simp_all add: free_slot_data\<close>)
  obtain d where d: "mac_event {#4#} c d" "mems_ok d" "mcps_req d = mcps_req sample_mac" "tx_wait_cb d = None" "out_q d = out_q sample_mac"
      "\<And>q. q \<noteq> 4 \<Longrightarrow> mbufs d q = mbufs c q" "map pd_data (pending_data_queue d) = [Some 1, Some 2, Some 3, Some 4]"
    by (rule fill_slots [of c 4 3]) (use a b c in \<open>simp_all add: free_slot_data\<close>)
  have f: "free_slot d = None" using d(7) by (simp add: free_slot_data)
  have d6: "mbufs d 6 = mbufs sample_mac 6" using a(6) b(6) c(6) d(6) by simp
  obtain e where e: "zb_handle_mcps_data_req 6 d = Some e"
    by (rule indirect_request [OF d(2), where p = 6 and junk = "[]"])
      (use d f d6 in \<open>simp_all add: sample_mac_sel ring_is_full_def ring_capacity_def ZB_IO_BUF_SIZE_def\<close>)
  have ev: "mac_events {#1, 2, 3, 4#} sample_mac d"
    using more_events [OF more_events [OF more_events [OF more_events [OF no_events a(1)] b(1)] c(1)] d(1)] by (simp add: add_mset_commute)
  have i: "has_tx_option MAC_TX_OPTION_INDIRECT_TRANSMISSION_BIT (dr_tx_options (mcps_req d 6))"
    using d(3) by (simp add: sample_mac_sel has_tx_option_def MAC_TX_OPTION_INDIRECT_TRANSMISSION_BIT_def)
  have "ring_list (out_q d) = []" using d(5) by (simp add: sample_mac_sel ring_list_def)
  then show ?thesis using frame_without_slot_is_never_sent [OF sample_mac_boot ev f i e no_events] ev e by auto
qed

end
