(* ===== verification/Mac_Data_Props.thy ===== *)
theory Mac_Data_Props
  imports Mac_Bytes Mac_Samples
begin

text \<open>
  Sending data, and answering a device that asks for the data that waits for it.
\<close>

section \<open>Waiting for an acknowledgement\<close>

fun is_sent :: "mac_action \<Rightarrow> bool" where
  "is_sent (M_sent f) = True"
| "is_sent _ = False"

definition sent :: "mac_node \<Rightarrow> u8 list list" where
  "sent s = map (\<lambda>a. case a of M_sent f \<Rightarrow> f | _ \<Rightarrow> []) (filter is_sent (macts s))"

text \<open>Steps that send nothing and keep the state of the request under way.\<close>

definition listens :: "mac_node \<Rightarrow> mac_node \<Rightarrow> bool" where
  "listens s s' \<longleftrightarrow> sent s' = sent s \<and> mac_status s' = mac_status s \<and> retry_counter s' = retry_counter s \<and> mcps_req s' = mcps_req s
     \<and> tx_wait_cb s' = tx_wait_cb s \<and> tx_wait_cb_arg s' = tx_wait_cb_arg s"

lemma listens_refl: "listens s s" and listens_trans: "listens s s' \<Longrightarrow> listens s' s'' \<Longrightarrow> listens s s''"
  by (simp_all add: listens_def)

lemma sent_emit [simp]: "sent (emit_m a s) = sent s @ (case a of M_sent f \<Rightarrow> [f] | _ \<Rightarrow> [])"
  by (cases a) (simp_all add: sent_def)

lemma sent_eq: "macts s' = macts s \<Longrightarrow> sent s' = sent s"
  by (simp add: sent_def)

lemma recv_next_listens: "recv_next s = Some s' \<Longrightarrow> listens s s'"
proof (cases "rx_q s")
  case (Cons x r)
  assume a: "recv_next s = Some s'"
  obtain p f where x: "x = (p, f)" by (cases x)
  obtain b where b: "zb_mac_parse_recv_data p (set_mbuf p b (s\<lparr>rx_q := r\<rparr>)) = Some s'"
    using a Cons x by (auto simp: recv_next_def zb_mac_recv_data_def bind_eq_Some_conv)
  let ?t = "set_mbuf p b (s\<lparr>rx_q := r\<rparr>)"
  have ic: "listens u (indirect_data_came m u)" for m u
    by (rule indirect_came_cases [of u m])
      (auto simp: listens_def mac_clear_def mac_set_def mac_buf_status_def sent_def)
  show "listens s s'"
  proof (rule recv_cases [OF b])
    fix b2 m n B
    assume B: "B = set_mbuf p b2 ?t \<or> B = indirect_data_came m (set_mbuf p b2 ?t)"
      and s': "s' = emit_m (M_free p) B \<or> s' = emit_m (M_call Handle_data_frame p) B \<or> s' = emit_m (Beacon_notify p) B
    \<or> s' = (emit_m (Beacon_notify p) B)\<lparr>rt_ctx := (rt_ctx (emit_m (Beacon_notify p) B))[1 := 1]\<rparr>
    \<or> zb_mlme_ack_accept p B = Some s' \<or> s' = emit_m (M_call Command_accept p) B \<or> s' = B"
    have "listens s (set_mbuf p b2 ?t)" by (simp add: listens_def sent_def)
    then have lB: "listens s B" using B ic listens_trans by blast
    have "listens B s'" if "zb_mlme_ack_accept p B = Some s'"
      using that by (rule ack_accept_cases) (auto simp: listens_def mac_set_def mac_clear_def sent_def)
    then have "listens B s'" using s' by (elim disjE) (simp_all add: listens_def, simp_all add: sent_def)
    then show ?thesis by (rule listens_trans [OF lB])
  qed
qed (simp add: recv_next_def listens_refl)

text \<open>
  The wait looks at the flags after it has cleared them, so it reads one frame and ends: the acknowledgement was this frame, or
  it is blocked; it never asks for another try.
\<close>

lemma start_waiting: "listens s (ZB_MAC_START_ACK_WAITING s)" "rx_q (ZB_MAC_START_ACK_WAITING s) = rx_q s"
  "mac_flags (ZB_MAC_START_ACK_WAITING s) = mac_flags s AND - 8" "mbufs (ZB_MAC_START_ACK_WAITING s) = mbufs s"
  "pending_data_queue (ZB_MAC_START_ACK_WAITING s) = pending_data_queue s" "pending_buf (ZB_MAC_START_ACK_WAITING s) = pending_buf s"
  by (simp_all add: ZB_MAC_START_ACK_WAITING_def Let_def listens_def mac_clear_def ZB_MAC_ACK_TIMEOUT_MASK_def ZB_MAC_ACK_OK_MASK_def
      ZB_MAC_ACK_FAIL_MASK_def sent_def and.assoc)

lemma flags_cleared: "\<not> mac_get m (ZB_MAC_START_ACK_WAITING s)" if "m = ZB_MAC_ACK_TIMEOUT_MASK \<or> m = ZB_MAC_ACK_OK_MASK \<or> m = ZB_MAC_ACK_FAIL_MASK"
proof -
  have "(w AND - 8) AND m = 0" for w :: u8
    using that by (auto simp: and.assoc ZB_MAC_ACK_TIMEOUT_MASK_def ZB_MAC_ACK_OK_MASK_def ZB_MAC_ACK_FAIL_MASK_def)
  then show ?thesis by (simp add: mac_get_def start_waiting)
qed

lemma check_ack_once:
  assumes "zb_mac_check_ack s = Some (r, s')"
  shows "recv_next (ZB_MAC_START_ACK_WAITING s) = Some s' \<and> listens s s' \<and> (r = RET_OK \<or> r = RET_BLOCKED)"
proof -
  have "recv_next (ZB_MAC_START_ACK_WAITING s) = Some s'" "r = RET_OK \<or> r = RET_BLOCKED"
    using assms by (auto simp: zb_mac_check_ack_def check_ack_body_def flags_cleared elim!: bindE split: if_split_asm)
  then show ?thesis using recv_next_listens listens_trans [OF start_waiting(1)] by blast
qed

section \<open>A frame is sent once\<close>

lemma fcs_listens: "MAC_ADD_FCS p s = Some s' \<Longrightarrow> listens s s'"
  by (auto simp: MAC_ADD_FCS_def listens_def sent_def elim!: bindE)

lemma security_listens: "zb_mac_check_security p s = Some (r, s') \<Longrightarrow> listens s s'"
  by (auto simp: zb_mac_check_security_def Let_def listens_def sent_def elim!: bindE split: if_split_asm)

lemma trans_shape:
  "ZB_TRANS_SEND_COMMAND p s = Some s' \<Longrightarrow> \<exists>f b. s' = emit_m (M_sent f) (set_mbuf p b (s\<lparr>tx_cnt := tx_cnt s + 1\<rparr>))"
  by (auto simp: ZB_TRANS_SEND_COMMAND_def Let_def mac_buf_status_def elim!: bindE)

lemma send_data_sends:
  assumes "send_data p s = Some s'"
  shows "\<exists>f. sent s' = sent s @ [f]" "mac_status s' = mac_status s" "retry_counter s' = retry_counter s" "mcps_req s' = mcps_req s"
    "tx_wait_cb s' = Some Mcps_data_req_continue" "tx_wait_cb_arg s' = p"
proof -
  let ?t = "s\<lparr>tx_wait_cb := Some Mcps_data_req_continue, tx_wait_cb_arg := p\<rparr>"
  obtain v where v: "MAC_ADD_FCS p ?t = Some v" and k: "(if encrypt_type (hdr (mbufs v p)) \<noteq> ZB_SECUR_NO_ENCR
      then Option.bind (MAC_ADD_FCS (encryption_buf v) v) (\<lambda>w. ZB_TRANS_SEND_COMMAND (encryption_buf v) w) else ZB_TRANS_SEND_COMMAND p v) = Some s'"
    using assms unfolding send_data_def by (rule bindE)
  obtain u q where u: "listens ?t u" "ZB_TRANS_SEND_COMMAND q u = Some s'"
  proof (cases "encrypt_type (hdr (mbufs v p)) \<noteq> ZB_SECUR_NO_ENCR")
    case True
    then obtain w where "MAC_ADD_FCS (encryption_buf v) v = Some w" "ZB_TRANS_SEND_COMMAND (encryption_buf v) w = Some s'"
      using k by (auto elim: bindE)
    then show thesis using that listens_trans [OF fcs_listens [OF v] fcs_listens] by blast
  next
    case False
    then show thesis using that fcs_listens [OF v] k by simp
  qed
  obtain f b where e: "s' = emit_m (M_sent f) (set_mbuf q b (u\<lparr>tx_cnt := tx_cnt u + 1\<rparr>))" using trans_shape [OF u(2)] by blast
  have "sent ?t = sent s" by (simp add: sent_def)
  moreover have "sent s' = sent u @ [f]" unfolding e by (simp add: sent_def)
  ultimately show "\<exists>f. sent s' = sent s @ [f]" "mac_status s' = mac_status s" "retry_counter s' = retry_counter s" "mcps_req s' = mcps_req s"
    "tx_wait_cb s' = Some Mcps_data_req_continue" "tx_wait_cb_arg s' = p"
    using u(1) by (auto simp: listens_def e)
qed

lemma fill_hdr_direct:
  assumes "zb_mcps_data_request_fill_hdr p s = Some (r, s')" "\<not> has_tx_option MAC_TX_OPTION_INDIRECT_TRANSMISSION_BIT (dr_tx_options (mcps_req s p))"
  shows "r = RET_OK \<and> listens s s'"
  using assms unfolding zb_mcps_data_request_fill_hdr_def Let_def assert_that_bind
  by (auto simp: bind_eq_Some_conv listens_def zb_inc_mac_dsn_def sent_def split: if_split_asm)

text \<open>
  C12: A frame that does not wait for its receiver goes out exactly once and is confirmed with success, whatever arrives while its acknowledgement is
  waited for, and also when nothing arrives: the layer never sends it again and never finds that it was not acknowledged. The retry counter stays 0, although
  the attribute for the number of retries is 3.
\<close>

theorem frame_is_sent_once:
  assumes "zb_handle_mcps_data_req p s = Some s1" "\<not> has_tx_option MAC_TX_OPTION_INDIRECT_TRANSMISSION_BIT (dr_tx_options (mcps_req s p))"
    and "tx_wait_cb s = None" "tx_wait_cb s1 = Some w" "run_wait w (s1\<lparr>tx_cnt := 0\<rparr>) = Some s2"
  shows "(\<exists>f. sent s2 = sent s @ [f]) \<and> retry_counter s2 = 0 \<and> last (macts s2) = Mcps_confirm p \<and> status (hdr (mbufs s2 p)) = ucast MAC_SUCCESS"
proof -
  define t where "t = (set_mbuf p ((mbufs s p)\<lparr>hdr := (hdr (mbufs s p))\<lparr>handle := dr_msdu_handle (mcps_req s p)\<rparr>\<rparr>) s)
                 \<lparr>pending_buf := Some p, mac_status := MAC_SUCCESS, retry_counter := 0\<rparr>"
  have t: "sent t = sent s" "mac_status t = MAC_SUCCESS" "retry_counter t = 0" "tx_wait_cb t = None" "mcps_req t = mcps_req s"
    using assms(3) by (simp_all add: t_def sent_def)
  obtain r u where f: "zb_mcps_data_request_fill_hdr p t = Some (r, u)"
    using assms(1) by (auto simp: zb_handle_mcps_data_req_def Let_def t_def bind_eq_Some_conv)
  have fu: "r = RET_OK" "listens t u" using fill_hdr_direct [OF f] assms(2) t(5) by simp_all
  obtain r2 v where v: "zb_mac_check_security p u = Some (r2, v)"
    using assms(1) f fu by (auto simp: zb_handle_mcps_data_req_def Let_def t_def bind_eq_Some_conv)
  have lv: "listens t v" by (rule listens_trans [OF fu(2) security_listens [OF v]])
  have "r2 = RET_OK"
  proof (rule ccontr)
    assume "r2 \<noteq> RET_OK"
    then have "s1 = v" using assms(1) f v fu by (simp add: zb_handle_mcps_data_req_def Let_def t_def)
    then show False using assms(4) lv t(4) by (simp add: listens_def)
  qed
  define x where "x = (if ZB_NWK_IS_ADDRESS_BROADCAST (dr_dst_addr (mcps_req s p)) then v else zb_tx_total_inc v)"
  have lx: "listens t x" using lv by (simp add: x_def listens_def zb_tx_total_inc_def Let_def sent_def)
  have e: "Option.bind (send_data p x) (\<lambda>y. if ZB_FCF_GET_ACK_REQUEST_BIT (mem_from (boff (mbufs y p)) (mbufs y p)) \<noteq> 0
                     then map_option snd (zb_mac_check_ack y) else Some y) = Some s1"
    using assms(1) f v fu \<open>r2 = RET_OK\<close> by (simp add: zb_handle_mcps_data_req_def Let_def t_def x_def)
  obtain y where y: "send_data p x = Some y" "s1 = y \<or> (\<exists>r. zb_mac_check_ack y = Some (r, s1))"
    using e by (rule bindE) (auto split: if_split_asm)
  note sy = send_data_sends [OF y(1)]
  have ly: "listens y s1" using y(2) check_ack_once listens_refl by blast
  have w: "w = Mcps_data_req_continue" "tx_wait_cb_arg s1 = p" using assms(4) ly sy by (auto simp: listens_def)
  have s1: "\<exists>f. sent s1 = sent s @ [f]" "mac_status s1 = MAC_SUCCESS" "retry_counter s1 = 0"
    using ly sy lx t by (auto simp: listens_def)
  let ?z = "ZB_SKIP_TX_CHK ((s1\<lparr>tx_cnt := 0\<rparr>)\<lparr>pending_buf := Some p\<rparr>)"
  have s2: "s2 = (confirm_data p ?z)\<lparr>pending_buf := None\<rparr>"
    using assms(5) w by (auto simp: run_wait_def zb_handle_mcps_data_req_continue_def Let_def zb_check_cmd_tx_status_def split: if_split_asm)
  have "sent s2 = sent s1 \<and> retry_counter s2 = retry_counter s1 \<and> last (macts s2) = Mcps_confirm p \<and> status (hdr (mbufs s2 p)) = ucast (mac_status s1)"
    unfolding s2 confirm_data_def Let_def ZB_SKIP_TX_CHK_def mac_buf_status_def by (simp add: sent_def)
  then show ?thesis using s1 by auto
qed

text \<open>Here nothing answers the frame, which asks for an acknowledgement.\<close>

definition direct_mac :: mac_node where
  "direct_mac = sample_mac\<lparr>mcps_req := (\<lambda>p. \<lparr>dr_src_addr = 0, dr_dst_addr = 5, dr_tx_options = 1, dr_msdu_handle = 7\<rparr>)\<rparr>"

theorem frame_is_sent_once_witness:
  "\<exists>s1 s2. zb_handle_mcps_data_req 1 direct_mac = Some s1 \<and> zb_handle_mcps_data_req_continue 1 (s1\<lparr>tx_cnt := 0\<rparr>) = Some s2
     \<and> length (sent s2) = 1 \<and> status (hdr (mbufs s2 1)) = 0"
proof -
  have "map_option (\<lambda>s1. (tx_wait_cb s1, tx_wait_cb_arg s1)) (zb_handle_mcps_data_req 1 direct_mac) = Some (Some Mcps_data_req_continue, 1)"
    by code_simp
  then obtain s1 where s1: "zb_handle_mcps_data_req 1 direct_mac = Some s1" "tx_wait_cb s1 = Some Mcps_data_req_continue" "tx_wait_cb_arg s1 = 1"
    by auto
  have "Option.bind (zb_handle_mcps_data_req 1 direct_mac) (\<lambda>s1. zb_handle_mcps_data_req_continue 1 (s1\<lparr>tx_cnt := 0\<rparr>)) \<noteq> None"
    by code_simp
  then obtain s2 where s2: "zb_handle_mcps_data_req_continue 1 (s1\<lparr>tx_cnt := 0\<rparr>) = Some s2" using s1(1) by auto
  have "run_wait Mcps_data_req_continue (s1\<lparr>tx_cnt := 0\<rparr>) = Some s2" using s1(3) s2 by (simp add: run_wait_def)
  moreover have "\<not> has_tx_option MAC_TX_OPTION_INDIRECT_TRANSMISSION_BIT (dr_tx_options (mcps_req direct_mac 1))" "tx_wait_cb direct_mac = None"
      "sent direct_mac = []"
    by (simp_all add: direct_mac_def has_tx_option_def MAC_TX_OPTION_INDIRECT_TRANSMISSION_BIT_def sample_mac_def sent_def)
  ultimately show ?thesis
    using frame_is_sent_once [OF s1(1) _ _ s1(2)] s1(1) s2 by (fastforce simp: MAC_SUCCESS_def)
qed

section \<open>An answer to a request for data\<close>

definition with_pending :: "bool \<Rightarrow> u8 list \<Rightarrow> u8 list" where
  "with_pending again bs = (if again then (bs ! 0 AND 0xEF OR 0x10) # tl bs else bs)"

lemma length_with_pending [simp]: "bs \<noteq> [] \<Longrightarrow> length (with_pending again bs) = length bs"
  by (simp add: with_pending_def)

lemma with_pending_bits:
  assumes "bs \<noteq> []"
  shows "with_pending again bs ! 0 AND 0x20 = bs ! 0 AND 0x20" "with_pending again bs ! 0 AND 0x07 = bs ! 0 AND 0x07"
proof -
  have "(x AND 0xEF OR 0x10) AND 0x20 = x AND (0x20 :: u8)" "(x AND 0xEF OR 0x10) AND 0x07 = x AND (0x07 :: u8)" for x
    by (simp_all add: bit.conj_disj_distrib2 and.assoc)
  then show "with_pending again bs ! 0 AND 0x20 = bs ! 0 AND 0x20" "with_pending again bs ! 0 AND 0x07 = bs ! 0 AND 0x07"
    by (simp_all add: with_pending_def)
qed

lemma fcf_at_payload: "buf_ok (mbufs s d) \<Longrightarrow> boff (mbufs s d) = fo \<Longrightarrow> 0 < blen (mbufs s d) \<Longrightarrow> fcf_at d fo s ! 0 = payload (mbufs s d) ! 0"
  by (auto simp: fcf_at_def mem_from_def payload_def buf_ok_def)

lemma set_pending_bit_ok:
  assumes "buf_ok (mbufs s d)" "2 \<le> blen (mbufs s d)"
  obtains b where "set_pending_bit d s = Some (set_mbuf d b s)" "buf_ok b" "hdr b = hdr (mbufs s d)" "payload b = with_pending True (payload (mbufs s d))"
proof -
  let ?b = "mbufs s d" and ?fc = "bytes_at (boff (mbufs s d)) 2 (mbufs s d)"
  have fc: "?fc = take 2 (payload ?b)" using bytes_at_payload [of 0 2 ?b] assms(2) by simp
  have lp: "2 \<le> length (payload ?b)" using length_payload [OF assms(1)] assms(2) by simp
  then obtain x y r where p: "payload ?b = x # y # r" by (metis Suc_le_length_iff numeral_2_eq_2)
  have set: "ZB_FCF_SET_FRAME_PENDING_BIT ?fc 1 = Some [x AND 0xEF OR 0x10, y]"
    by (simp add: fc p ZB_FCF_SET_FRAME_PENDING_BIT_def fcf_set_bit_def)
  obtain b where b: "write_bytes (boff ?b) [x AND 0xEF OR 0x10, y] ?b = Some b" "buf_ok b" "hdr b = hdr ?b"
      "payload b = [x AND 0xEF OR 0x10, y] @ drop 2 (payload ?b)"
    by (rule write_front [OF assms(1), of "[x AND 0xEF OR 0x10, y]"]) (use assms(2) in \<open>simp_all add: numeral_2_eq_2\<close>)
  show thesis
    by (rule that [of b]) (use b set in \<open>simp_all add: set_pending_bit_def Let_def p with_pending_def\<close>)
qed

lemma send_waiting_plain:
  assumes ok: "buf_ok (mbufs s d)" "1 \<le> boff (mbufs s d)" "boff (mbufs s d) + blen (mbufs s d) + 2 \<le> ZB_IO_BUF_SIZE" "2 \<le> blen (mbufs s d)"
    "blen (mbufs s d) + 3 < ZB_IO_BUF_SIZE"
    and enc: "encrypt_type (hdr (mbufs s d)) = ZB_SECUR_NO_ENCR"
    and t: "payload (mbufs s d) ! 0 AND 7 = MAC_FRAME_DATA \<or> payload (mbufs s d) ! 0 AND 7 = MAC_FRAME_COMMAND"
  obtains s' where "send_waiting i d (boff (mbufs s d)) m q s = Some (RET_OK, s')"
    "macts s' = macts s @ [sent_frame (with_pending (check_pending_data m (i + 1) s \<noteq> None) (payload (mbufs s d)))]"
    "pending_data_queue s' = pending_data_queue s" "pending_buf s' = pending_buf s" "rx_q s' = rx_q s" "mac_status s' = mac_status s"
    "operation_buf s' = operation_buf s"
    "buf_ok (mbufs s' d)" "hdr (mbufs s' d) = (hdr (mbufs s d))\<lparr>h_len := blen (mbufs s d) + 2, status := RET_BUSY_status\<rparr>"
    "payload (mbufs s' d) ! 0 AND 0x20 = payload (mbufs s d) ! 0 AND 0x20" "payload (mbufs s' d) ! 0 AND 7 = payload (mbufs s d) ! 0 AND 7"
    "take (blen (mbufs s d)) (payload (mbufs s' d)) = with_pending (check_pending_data m (i + 1) s \<noteq> None) (payload (mbufs s d))"
    "\<And>p. p \<noteq> d \<Longrightarrow> mbufs s' p = mbufs s p"
proof -
  let ?b = "mbufs s d" and ?again = "check_pending_data m (i + 1) s \<noteq> None"
  let ?w = "with_pending ?again (payload ?b)"
  have lp: "length (payload ?b) = blen ?b" by (rule length_payload [OF ok(1)])
  then have ne: "payload ?b \<noteq> []" using ok(4) by auto
  have ft: "ZB_FCF_GET_FRAME_TYPE (fcf_at d (boff ?b) s) = payload ?b ! 0 AND 7"
    using fcf_at_payload [OF ok(1) refl] ok(4) by (simp add: ZB_FCF_GET_FRAME_TYPE_def)
  have sec: "zb_mac_check_security d s = Some (RET_OK, s)" using enc by (simp add: zb_mac_check_security_def Let_def)
  define x where "x = zb_tx_total_inc s"
  have x: "mbufs x = mbufs s" "pending_data_queue x = pending_data_queue s" "macts x = macts s" "pending_buf x = pending_buf s" "rx_q x = rx_q s"
      "mac_status x = mac_status s" "operation_buf x = operation_buf s"
    by (simp_all add: x_def zb_tx_total_inc_def Let_def)
  have ck: "check_pending_data m (i + 1) x = check_pending_data m (i + 1) s" by (simp add: check_pending_data_def x)
  obtain c where c: "(if check_pending_data m (i + 1) x \<noteq> None then set_pending_bit d x else Some x) = Some (set_mbuf d c x)"
      "buf_ok c" "hdr c = hdr ?b" "payload c = ?w"
  proof (cases ?again)
    case True
    obtain c where "set_pending_bit d x = Some (set_mbuf d c x)" "buf_ok c" "hdr c = hdr (mbufs x d)" "payload c = with_pending True (payload (mbufs x d))"
      by (rule set_pending_bit_ok [of x d]) (use ok x in simp_all)
    then show thesis using that True ck x by simp
  next
    case False
    have "set_mbuf d ?b x = x" by (simp add: set_mbuf_def x(1) [symmetric])
    then show thesis using that [of ?b] False ck ok x by (simp add: with_pending_def)
  qed
  obtain e where e: "zb_mac_fcs_add c = Some e" "buf_ok e" "payload e = payload c @ htole16 (fcs_loop 0 (payload c))" "hdr e = (hdr c)\<lparr>h_len := blen c + 2\<rparr>"
    by (rule fcs_add_bytes [OF c(2)]) (use c(3) ok in simp_all)
  define y where "y = set_mbuf d e x"
  have y: "mbufs y d = e" "macts y = macts x" by (simp_all add: y_def)
  obtain f where f: "ZB_TRANS_SEND_COMMAND d y = Some (emit_m (M_sent (of_nat (blen (mbufs y d) + 1) # payload (mbufs y d))) (set_mbuf d f (y\<lparr>tx_cnt := tx_cnt y + 1\<rparr>)))"
      "buf_ok f" "payload f = payload (mbufs y d)" "hdr f = (hdr (mbufs y d))\<lparr>status := RET_BUSY_status\<rparr>"
    by (rule send_command_bytes [of y d]) (use y e c ok in \<open>simp_all add: ZB_IO_BUF_SIZE_def\<close>)
  have air: "M_sent (of_nat (blen (mbufs y d) + 1) # payload (mbufs y d)) = sent_frame ?w"
    unfolding sent_frame_def on_air_def using y e c lp ne by (simp add: add.commute)
  define z where "z = emit_m (sent_frame ?w) (set_mbuf d f (y\<lparr>tx_cnt := tx_cnt y + 1\<rparr>))"
  have fz: "ZB_TRANS_SEND_COMMAND d y = Some z" using f(1) air by (simp add: z_def)
  define s' where "s' = (if ZB_FCF_GET_ACK_REQUEST_BIT (fcf_at d (boff ?b) z) \<noteq> 0 then z\<lparr>ack_dsn := q\<rparr> else z)"
  have "MAC_ADD_FCS d (set_mbuf d c x) = Some y" using e(1) by (simp add: MAC_ADD_FCS_def y_def)
  then have s: "send_waiting i d (boff ?b) m q s = Some (RET_OK, s')"
  proof -
    assume a: "MAC_ADD_FCS d (set_mbuf d c x) = Some y"
    have t2: "(payload ?b ! 0 AND 7 = MAC_FRAME_COMMAND \<or> payload ?b ! 0 AND 7 = MAC_FRAME_DATA) = True" using t by blast
    have en: "(encrypt_type (hdr (mbufs x d)) \<noteq> ZB_SECUR_NO_ENCR) = False" using enc x by simp
    show ?thesis unfolding send_waiting_def Let_def assert_that_bind ft sec s'_def
      by (simp only: t2 en if_True if_False Option.bind.simps prod.case x_def [symmetric] c(1) a fz simp_thms)
  qed
  have sel: "mbufs s' = mbufs z" "macts s' = macts z" "pending_data_queue s' = pending_data_queue z" "pending_buf s' = pending_buf z" "rx_q s' = rx_q z"
      "mac_status s' = mac_status z" "operation_buf s' = operation_buf z"
    by (simp_all add: s'_def)
  have pf: "payload f = ?w @ htole16 (fcs_loop 0 ?w)" using f(3) y e(3) c(4) by simp
  then have "payload f ! 0 = ?w ! 0" using ne by (simp add: nth_append)
  then show thesis
    using that [OF s] sel f y e c x ok with_pending_bits [OF ne, of ?again] pf lp ne by (simp add: z_def y_def)
qed

lemma parsed_control: "zb_parse_mhr bs = Some (m, n) \<Longrightarrow> frame_control m = take 2 bs \<and> 3 \<le> length bs"
  by (auto simp: zb_parse_mhr_def get_bytes_def Let_def split: option.split_asm prod.split_asm if_split_asm)

lemma frame_type_of_payload:
  assumes "buf_mhr b = Some (m, n)" "buf_ok b" "0 < blen b"
  shows "frame_control m ! 0 = payload b ! 0"
  using parsed_control [of "mem_from (boff b) b" m n] assms by (auto simp: buf_mhr_def mem_from_def payload_def)

lemma check_ack_nothing:
  assumes "rx_q s = []"
  shows "zb_mac_check_ack s = Some (RET_BLOCKED, ZB_MAC_START_ACK_WAITING s)"
proof -
  have "recv_next (ZB_MAC_START_ACK_WAITING s) = Some (ZB_MAC_START_ACK_WAITING s)" using assms by (simp add: recv_next_def start_waiting)
  then show ?thesis by (simp add: zb_mac_check_ack_def check_ack_body_def flags_cleared)
qed

text \<open>A frame that waits: in clear text, in a buffer that is not the one for short frames.\<close>

definition waiting_frame_ok :: "mac_node \<Rightarrow> nat \<Rightarrow> bool" where
  "waiting_frame_ok s d \<longleftrightarrow> buf_ok (mbufs s d) \<and> 1 \<le> boff (mbufs s d) \<and> boff (mbufs s d) + blen (mbufs s d) + 2 \<le> ZB_IO_BUF_SIZE
     \<and> 2 \<le> blen (mbufs s d) \<and> blen (mbufs s d) + 3 < ZB_IO_BUF_SIZE \<and> encrypt_type (hdr (mbufs s d)) = ZB_SECUR_NO_ENCR
     \<and> d \<noteq> operation_buf s \<and> buf_mhr (mbufs s d) \<noteq> None
     \<and> (payload (mbufs s d) ! 0 AND 7 = MAC_FRAME_DATA \<or> payload (mbufs s d) ! 0 AND 7 = MAC_FRAME_COMMAND)"

text \<open>The frames that go out, and what is left for the continuation.\<close>

lemma data_request_sends:
  assumes "mems_ok s" "rx_q s = []" "buf_mhr (mbufs s p) = Some (m, n)" "tail_fits SIZEOF_DATA_REQ_CTX (mbufs s p)"
    and "check_pending_data m 0 s = Some i" "pd_data (pending_data_queue s ! i) = Some d" "waiting_frame_ok s d"
  obtains s1 md nd where "zb_accept_data_request_cmd p s = Some s1" "buf_mhr (mbufs s d) = Some (md, nd)"
    "sent s1 = sent s @ [on_air (ack_bytes (seq_number m) 1), on_air (with_pending (check_pending_data m (i + 1) s \<noteq> None) (payload (mbufs s d)))]"
    "data_req_storage s1 = \<lparr>ds_fcf = (d, boff (mbufs s d)), ds_cmd_ptr = (d, boff (mbufs s d)), ds_mhr_pend_len = nd,
      ds_data_found_index = i, ds_mhr_pend = md\<rparr>"
    "pending_data_queue s1 = pending_data_queue s" "pending_buf s1 = Some p" "buf_ok (mbufs s1 d)"
    "hdr (mbufs s1 d) = (hdr (mbufs s d))\<lparr>h_len := blen (mbufs s d) + 2, status := RET_BUSY_status\<rparr>"
    "payload (mbufs s1 d) ! 0 AND 7 = payload (mbufs s d) ! 0 AND 7"
proof -
  let ?w = "with_pending (check_pending_data m (i + 1) s \<noteq> None) (payload (mbufs s d))"
  define t where "t = s\<lparr>pending_buf := Some p, mac_status := MAC_SUCCESS\<rparr>"
  have w: "buf_ok (mbufs s d)" "1 \<le> boff (mbufs s d)" "boff (mbufs s d) + blen (mbufs s d) + 2 \<le> ZB_IO_BUF_SIZE" "2 \<le> blen (mbufs s d)"
      "blen (mbufs s d) + 3 < ZB_IO_BUF_SIZE" "encrypt_type (hdr (mbufs s d)) = ZB_SECUR_NO_ENCR" "d \<noteq> operation_buf s"
      "payload (mbufs s d) ! 0 AND 7 = MAC_FRAME_DATA \<or> payload (mbufs s d) ! 0 AND 7 = MAC_FRAME_COMMAND"
    using assms(7) by (auto simp: waiting_frame_ok_def)
  obtain md nd where md: "buf_mhr (mbufs s d) = Some (md, nd)" using assms(7) by (auto simp: waiting_frame_ok_def)
  obtain a where a: "zb_mac_send_ack (seq_number m) 1 t = Some a" "op_sent t (ack_bytes (seq_number m) 1) a"
    by (rule zb_mac_send_ack_ok [of t 1]) (use assms(1) in \<open>simp_all add: t_def mems_ok_def\<close>)
  note ao = op_sent_sel [OF a(2)]
  have ad: "mbufs a d = mbufs s d" "pending_data_queue a = pending_data_queue s" "rx_q a = []" "pending_buf a = Some p"
      "macts a = macts s @ [sent_frame (ack_bytes (seq_number m) 1)]"
    using ao w(7) assms(2) by (simp_all add: t_def)
  have ck: "check_pending_data m k a = check_pending_data m k s" for k by (simp add: check_pending_data_def ad)
  obtain f where f: "send_waiting i d (boff (mbufs a d)) m (seq_number md) a = Some (RET_OK, f)"
      "macts f = macts a @ [sent_frame ?w]" "pending_data_queue f = pending_data_queue a" "pending_buf f = pending_buf a" "rx_q f = rx_q a"
      "buf_ok (mbufs f d)" "hdr (mbufs f d) = (hdr (mbufs a d))\<lparr>h_len := blen (mbufs a d) + 2, status := RET_BUSY_status\<rparr>"
      "payload (mbufs f d) ! 0 AND 7 = payload (mbufs a d) ! 0 AND 7"
    by (rule send_waiting_plain [of a d i m "seq_number md"]) (use w ad ck in \<open>simp_all del: One_nat_def\<close>)
  define g where "g = (if ZB_FCF_GET_ACK_REQUEST_BIT (fcf_at d (boff (mbufs s d)) f) \<noteq> 0 then ZB_MAC_START_ACK_WAITING f else f)"
  have resp: "send_data_resp 256 i d (boff (mbufs s d)) m (seq_number md) a = Some g"
  proof -
    have "send_data_resp (Suc 255) i d (boff (mbufs s d)) m (seq_number md) a = Some g"
      unfolding send_data_resp.simps(2) using f(1) check_ack_nothing [of f] f(5) ad(1,3) by (simp add: g_def)
    then show ?thesis by (simp del: send_data_resp.simps)
  qed
  have g: "mbufs g = mbufs f" "pending_data_queue g = pending_data_queue s" "pending_buf g = Some p" "sent g = sent f"
    using start_waiting [of f] f ad by (simp_all add: g_def listens_def)
  define s1 where "s1 = g\<lparr>data_req_storage := \<lparr>ds_fcf = (d, boff (mbufs s d)), ds_cmd_ptr = (d, boff (mbufs s d)), ds_mhr_pend_len = nd,
      ds_data_found_index = i, ds_mhr_pend = md\<rparr>, tx_wait_cb := Some Data_request_cmd_continue\<rparr>"
  have ckt: "check_pending_data m 0 (s\<lparr>pending_buf := Some p\<rparr>) = Some i" using assms(5) by (simp add: check_pending_data_def)
  have h: "zb_accept_data_request_cmd p s = Some s1"
    unfolding zb_accept_data_request_cmd_def zb_handle_data_request_cmd_def Let_def
    using assms(3,4,6) ckt md a(1) resp by (simp add: t_def s1_def del: send_data_resp.simps)
  have "sent s1 = sent g" by (simp add: s1_def sent_def)
  also have "\<dots> = sent s @ [on_air (ack_bytes (seq_number m) 1), on_air ?w]"
    unfolding g(4) using f(2) ad(5) by (simp add: sent_def sent_frame_def)
  finally show thesis using that [OF h md] g f ad by (simp add: s1_def)
qed

text \<open>The continuation for a data frame: the buffer that is freed is the one that is pending then.\<close>

lemma data_request_finishes:
  assumes "data_req_storage s = \<lparr>ds_fcf = (d, fo), ds_cmd_ptr = (d, fo), ds_mhr_pend_len = nd, ds_data_found_index = i, ds_mhr_pend = md\<rparr>"
    and "pd_data (pending_data_queue s ! i) = Some d" "pending_buf s = Some x"
    and type: "ZB_FCF_GET_FRAME_TYPE (fcf_at d fo s) = MAC_FRAME_DATA" "ZB_FCF_GET_FRAME_TYPE (frame_control md) = MAC_FRAME_DATA"
  obtains s2 where "zb_handle_data_request_cmd_continue (s\<lparr>tx_cnt := 0\<rparr>) = Some s2"
    "macts s2 = macts s @ [Mcps_confirm d, M_cancel (Pending_data_timeout i), M_free x]"
    "pending_data_queue s2 = (pending_data_queue s)[i := (pending_data_queue s ! i)\<lparr>pd_data := None\<rparr>]" "mbufs s2 = mbufs s"
proof -
  define u where "u = ZB_SKIP_TX_CHK (s\<lparr>tx_cnt := 0\<rparr>)"
  have u: "mbufs u = mbufs s" "pending_data_queue u = pending_data_queue s" "pending_buf u = Some x" "macts u = macts s"
    using assms(3) by (simp_all add: u_def ZB_SKIP_TX_CHK_def)
  define s2 where "s2 = (emit_m (M_free x) (ZB_CLEAR_PENDING_QUEUE_SLOT i (emit_m (M_cancel (Pending_data_timeout i)) (emit_m (Mcps_confirm d) u))))\<lparr>pending_buf := None\<rparr>"
  have st: "data_req_storage (s\<lparr>tx_cnt := 0\<rparr>) = \<lparr>ds_fcf = (d, fo), ds_cmd_ptr = (d, fo), ds_mhr_pend_len = nd, ds_data_found_index = i, ds_mhr_pend = md\<rparr>"
    by (simp add: assms(1))
  have ty: "ZB_FCF_GET_FRAME_TYPE (fcf_at d fo u) = MAC_FRAME_DATA" using type(1) by (simp add: fcf_at_def u)
  have "zb_handle_data_request_cmd_continue (s\<lparr>tx_cnt := 0\<rparr>) = Some s2"
    unfolding zb_handle_data_request_cmd_continue_def st Let_def u_def [symmetric] zb_check_cmd_tx_status_def
    using u type(2) ty assms(2) by (simp add: s2_def ZB_CLEAR_PENDING_QUEUE_SLOT_def MAC_FRAME_COMMAND_def MAC_FRAME_DATA_def)
  then show thesis by (rule that) (simp_all add: s2_def ZB_CLEAR_PENDING_QUEUE_SLOT_def u)
qed


lemma ack_shape:
  assumes "zb_mac_send_ack dsn pend s = Some u"
  obtains f b where "u = emit_m (M_sent f) (set_mbuf (operation_buf s) b (s\<lparr>tx_cnt := tx_cnt s + 1\<rparr>))"
proof -
  obtain s1 s2 b1 b2 where "s1 = set_mbuf (operation_buf s) b1 s" and s2: "s2 = set_mbuf (operation_buf s1) b2 s1" "ZB_TRANS_SEND_COMMAND (operation_buf s2) s2 = Some u"
    using assms unfolding zb_mac_send_ack_def send_operation_buf_def build_frame_def MAC_ADD_FCS_def by (auto elim!: bindE)
  then have "s2 = set_mbuf (operation_buf s) b2 s" by simp
  then show thesis using trans_shape [OF s2(2)] that by auto
qed

lemma data_frame_indicated:
  assumes "zb_handle_data_frame q s = Some s'" "d \<noteq> operation_buf s"
  obtains a where "macts s' = macts s @ a @ [Mcps_indication q]" "filter is_sent a = a" "pending_buf s' = Some q" "mbufs s' d = mbufs s d"
    "pending_data_queue s' = pending_data_queue s" "data_req_storage s' = data_req_storage s"
proof -
  let ?t = "s\<lparr>pending_buf := Some q\<rparr>"
  obtain m n where m: "buf_mhr (mbufs s q) = Some (m, n)" using assms by (auto simp: zb_handle_data_frame_def elim!: bindE)
  have e: "Option.bind (if ZB_FCF_GET_ACK_REQUEST_BIT (frame_control m) \<noteq> 0 then zb_mac_send_ack (seq_number m) 0 ?t else Some ?t)
      (\<lambda>u. Some (emit_m (Mcps_indication q) u)) = Some s'"
    using assms m by (simp add: zb_handle_data_frame_def Let_def)
  show thesis
  proof (cases "ZB_FCF_GET_ACK_REQUEST_BIT (frame_control m) \<noteq> 0")
    case False
    then have "s' = emit_m (Mcps_indication q) ?t" using e by simp
    then show thesis using that [of "[]"] by simp
  next
    case True
    obtain u where u: "zb_mac_send_ack (seq_number m) 0 ?t = Some u" "s' = emit_m (Mcps_indication q) u" using e True by (auto elim: bindE)
    obtain f b where ub: "u = emit_m (M_sent f) (set_mbuf (operation_buf s) b (?t\<lparr>tx_cnt := tx_cnt s + 1\<rparr>))"
      using u(1) by (rule ack_shape) auto
    show thesis by (rule that [of "[M_sent f]"]) (use assms(2) in \<open>simp_all add: u(2) ub\<close>)
  qed
qed

text \<open>
  C38: A data frame that is handled after a device's request for data was answered and before the continuation of that answer is freed while it is in use:
  the layer above gets the buffer in an indication, and then the continuation frees it, because it frees the buffer that is pending, which the data frame has
  replaced. The buffer of the request itself is not freed at all.
\<close>

theorem indicated_frame_is_freed:
  assumes "mems_ok s" "rx_q s = []" "buf_mhr (mbufs s p) = Some (m, n)" "tail_fits SIZEOF_DATA_REQ_CTX (mbufs s p)"
    and "check_pending_data m 0 s = Some i" "pd_data (pending_data_queue s ! i) = Some d" "waiting_frame_ok s d"
    and data: "payload (mbufs s d) ! 0 AND 7 = MAC_FRAME_DATA"
    and other: "zb_accept_data_request_cmd p s = Some s1" "zb_handle_data_frame q s1 = Some s2" "operation_buf s1 \<noteq> d"
  shows "\<exists>s3 a. zb_handle_data_request_cmd_continue (s2\<lparr>tx_cnt := 0\<rparr>) = Some s3
     \<and> macts s3 = macts s1 @ a @ [Mcps_indication q, Mcps_confirm d, M_cancel (Pending_data_timeout i), M_free q] \<and> filter is_sent a = a"
proof -
  obtain s1' md nd where h: "zb_accept_data_request_cmd p s = Some s1'" and md: "buf_mhr (mbufs s d) = Some (md, nd)"
    and st: "data_req_storage s1' = \<lparr>ds_fcf = (d, boff (mbufs s d)), ds_cmd_ptr = (d, boff (mbufs s d)), ds_mhr_pend_len = nd,
      ds_data_found_index = i, ds_mhr_pend = md\<rparr>"
    and s1: "pending_data_queue s1' = pending_data_queue s" "buf_ok (mbufs s1' d)"
      "hdr (mbufs s1' d) = (hdr (mbufs s d))\<lparr>h_len := blen (mbufs s d) + 2, status := RET_BUSY_status\<rparr>"
      "payload (mbufs s1' d) ! 0 AND 7 = payload (mbufs s d) ! 0 AND 7"
    by (rule data_request_sends [OF assms(1-7)])
  have e: "s1' = s1" using h other(1) by simp
  have w: "buf_ok (mbufs s d)" "0 < blen (mbufs s d)" using assms(7) by (auto simp: waiting_frame_ok_def)
  obtain a where s2: "macts s2 = macts s1 @ a @ [Mcps_indication q]" "filter is_sent a = a" "pending_buf s2 = Some q" "mbufs s2 d = mbufs s1 d"
      "pending_data_queue s2 = pending_data_queue s1" "data_req_storage s2 = data_req_storage s1"
    by (rule data_frame_indicated [OF other(2), of d]) (use other(3) in auto)
  have ty: "ZB_FCF_GET_FRAME_TYPE (fcf_at d (boff (mbufs s d)) s2) = MAC_FRAME_DATA" "ZB_FCF_GET_FRAME_TYPE (frame_control md) = MAC_FRAME_DATA"
    using fcf_at_payload [of s2 d "boff (mbufs s d)"] s1 s2(4) e data frame_type_of_payload [OF md w]
    by (simp_all add: ZB_FCF_GET_FRAME_TYPE_def)
  obtain s3 where s3: "zb_handle_data_request_cmd_continue (s2\<lparr>tx_cnt := 0\<rparr>) = Some s3"
      "macts s3 = macts s2 @ [Mcps_confirm d, M_cancel (Pending_data_timeout i), M_free q]"
    by (rule data_request_finishes [of s2 d "boff (mbufs s d)" nd i md, OF _ _ s2(3) ty]) (use st s1 s2 e assms(6) in simp_all)
  then show ?thesis using s2 by (intro exI [of _ s3] exI [of _ a]) simp
qed

text \<open>Two frames wait for device 5, which asks in buffer 3.\<close>

definition frame_buf :: "u8 list \<Rightarrow> zb_buf" where
  "frame_buf bs = \<lparr>hdr = hdr_zero\<lparr>h_len := length bs, data_offset := 60\<rparr>, bytes = replicate 60 0 @ bs @ replicate (88 - length bs) 0\<rparr>"

definition slot_for_5 :: "nat \<Rightarrow> zb_mac_pending_data" where
  "slot_for_5 p = \<lparr>pd_data = Some p, pd_dst_addr_mode = MODE_16BIT, pd_dst_addr = union_short 5\<rparr>"

definition waiting_mac :: mac_node where
  "waiting_mac = sample_mac\<lparr>pending_data_queue := [slot_for_5 1, no_slot, slot_for_5 2, no_slot],
     mbufs := (\<lambda>p. frame_buf (if p = 3 then [0x63, 0x88, 9, 0xaa, 0x1a, 0, 0, 5, 0, 4] else [0x61, 0x88, 40, 0xaa, 0x1a, 5, 0, 0, 0, 7]))\<rparr>"

lemma waiting_mac_sel:
  "mbufs waiting_mac p = frame_buf (if p = 3 then [0x63, 0x88, 9, 0xaa, 0x1a, 0, 0, 5, 0, 4] else [0x61, 0x88, 40, 0xaa, 0x1a, 5, 0, 0, 0, 7])"
  "pending_data_queue waiting_mac = [slot_for_5 1, no_slot, slot_for_5 2, no_slot]" "rx_q waiting_mac = []" "operation_buf waiting_mac = 15"
  "macts waiting_mac = []"
  by (simp_all add: waiting_mac_def sample_mac_def)

lemma waiting_mac_ok: "waiting_frame_ok waiting_mac 1"
proof -
  have "buf_mhr (mbufs waiting_mac 1) \<noteq> None" by code_simp
  then show ?thesis
    by (simp add: waiting_frame_ok_def waiting_mac_sel frame_buf_def buf_ok_def ZB_IO_BUF_SIZE_def hdr_zero_def ZB_SECUR_NO_ENCR_def payload_def MAC_FRAME_DATA_def)
qed


text \<open>Buffer 6 has a data frame that is handled in between.\<close>

theorem indicated_frame_is_freed_witness:
  "\<exists>s1 s2 s3. zb_accept_data_request_cmd 3 waiting_mac = Some s1 \<and> zb_handle_data_frame 6 s1 = Some s2
     \<and> zb_handle_data_request_cmd_continue (s2\<lparr>tx_cnt := 0\<rparr>) = Some s3 \<and> Mcps_indication 6 \<in> set (macts s3) \<and> last (macts s3) = M_free 6"
proof -
  have mem: "mems_ok waiting_mac" by (simp add: mems_ok_def waiting_mac_sel frame_buf_def ZB_IO_BUF_SIZE_def)
  obtain s1 s2 m n where s: "zb_accept_data_request_cmd 3 waiting_mac = Some s1" "zb_handle_data_frame 6 s1 = Some s2" "operation_buf s1 \<noteq> 1"
    and m: "buf_mhr (mbufs waiting_mac 3) = Some (m, n)" "check_pending_data m 0 waiting_mac = Some 0"
  proof -
    have "map_option (\<lambda>s1. (operation_buf s1, zb_handle_data_frame 6 s1 \<noteq> None)) (zb_accept_data_request_cmd 3 waiting_mac) = Some (15, True)"
      by code_simp
    moreover have "map_option (\<lambda>(m, n). check_pending_data m 0 waiting_mac) (buf_mhr (mbufs waiting_mac 3)) = Some (Some 0)"
      by code_simp
    ultimately show thesis using that by auto
  qed
  have fits: "tail_fits SIZEOF_DATA_REQ_CTX (mbufs waiting_mac 3)" by code_simp
  have pl: "payload (mbufs waiting_mac 1) ! 0 AND 7 = MAC_FRAME_DATA"
    by (simp add: waiting_mac_sel frame_buf_def payload_def MAC_FRAME_DATA_def)
  have d: "pd_data (pending_data_queue waiting_mac ! 0) = Some 1" by (simp add: waiting_mac_sel slot_for_5_def)
  show ?thesis
    using indicated_frame_is_freed [OF mem waiting_mac_sel(3) m(1) fits m(2) d waiting_mac_ok pl s] s by auto
qed

end
