(* ===== verification/Mac_Assoc_Props.thy ===== *)
theory Mac_Assoc_Props
  imports Mac_Data_Props
begin

text \<open>
  Association, from the response of the coordinator to the confirm of the device.
\<close>

section \<open>The response\<close>

definition response_fc :: "bool \<Rightarrow> u8 list" where
  "response_fc again = [if again then 0x73 else 0x63, 0xCC]"

definition response_bytes :: "zb_mac_mhr \<Rightarrow> u16 \<Rightarrow> u8 \<Rightarrow> u8 list" where
  "response_bytes m short st = zb_mac_fill_mhr m @ [MAC_CMD_ASSOCIATION_RESPONSE] @ htole16 short @ [st]"

definition response_mhr :: "zb_mac_mhr \<Rightarrow> bool" where
  "response_mhr m \<longleftrightarrow> (\<exists>again. frame_control m = response_fc again) \<and> length (dst_addr m) = 8 \<and> length (src_addr m) = 8 \<and> src_pan_id m = dst_pan_id m"

lemma response_modes [simp]:
  "ZB_FCF_GET_DST_ADDRESSING_MODE (response_fc b) = 3" "ZB_FCF_GET_SRC_ADDRESSING_MODE (response_fc b) = 3"
  "ZB_FCF_GET_PANID_COMPRESSION_BIT (response_fc b) = 0x40" "ZB_FCF_GET_FRAME_TYPE (response_fc b) = MAC_FRAME_COMMAND"
  "ZB_FCF_GET_SECURITY_BIT (response_fc b) = 0" "ZB_FCF_GET_ACK_REQUEST_BIT (response_fc b) = 0x20" "length (response_fc b) = 2"
  by (simp_all add: response_fc_def ZB_FCF_GET_DST_ADDRESSING_MODE_def ZB_FCF_GET_SRC_ADDRESSING_MODE_def ZB_FCF_GET_PANID_COMPRESSION_BIT_def
      ZB_FCF_GET_FRAME_TYPE_def ZB_FCF_GET_SECURITY_BIT_def ZB_FCF_GET_ACK_REQUEST_BIT_def MAC_FRAME_COMMAND_def)

lemma response_mhr_ok: "response_mhr m \<Longrightarrow> mhr_ok m"
  by (auto simp: response_mhr_def mhr_ok_def dst_ok_def src_ok_def addr_ok_def mac_modes)

lemma response_fill:
  "response_mhr m \<Longrightarrow> zb_mac_fill_mhr m = frame_control m @ [seq_number m] @ htole16 (dst_pan_id m) @ dst_addr m @ src_addr m"
  "response_mhr m \<Longrightarrow> length (zb_mac_fill_mhr m) = 21"
  by (auto simp: response_mhr_def zb_mac_fill_mhr_def Let_def fill_addr_def mac_modes)

lemma response_pending:
  assumes "response_mhr m" "frame_control m = response_fc False"
  shows "with_pending again (response_bytes m short st @ x) = response_bytes (m\<lparr>frame_control := response_fc again\<rparr>) short st @ x"
    and "response_mhr (m\<lparr>frame_control := response_fc again\<rparr>)"
proof -
  show r: "response_mhr (m\<lparr>frame_control := response_fc again\<rparr>)" using assms(1) by (auto simp: response_mhr_def)
  show "with_pending again (response_bytes m short st @ x) = response_bytes (m\<lparr>frame_control := response_fc again\<rparr>) short st @ x"
    unfolding response_bytes_def response_fill(1) [OF assms(1)] response_fill(1) [OF r] assms(2)
    by (simp add: with_pending_def response_fc_def)
qed

lemma mem_payload: obtains rest where "mem_from (boff b) b = payload b @ rest"
  using that [of "drop (blen b) (drop (boff b) (bytes b))"] by (simp only: mem_from_def payload_def append_take_drop_id)

text \<open>The coordinator puts the response into the first free slot.\<close>

lemma response_waits:
  assumes ok: "mems_ok c" and slot: "free_slot c = Some i" "\<not> mac_joined_pro c"
    and lens: "length (ar_device_address r) = 8" "length (mac_extended_address (pib c)) = 8"
    and c1: "zb_mlme_associate_response p r c = Some c1"
  obtains m where "response_mhr m" "frame_control m = response_fc False" "src_addr m = mac_extended_address (pib c)" "dst_addr m = ar_device_address r"
    "payload (mbufs c1 p) = response_bytes m (ar_short_address r) (ar_status r) @ htole16 (fcs_loop 0 (response_bytes m (ar_short_address r) (ar_status r)))"
    "buf_ok (mbufs c1 p)" "hdr (mbufs c1 p) = (fresh_hdr 25 (hdr (mbufs c p)))\<lparr>h_len := 27\<rparr>" "\<And>q. q \<noteq> p \<Longrightarrow> mbufs c1 q = mbufs c q"
    "pending_data_queue c1 = (pending_data_queue c)[i := \<lparr>pd_data = Some p, pd_dst_addr_mode = MODE_64BIT, pd_dst_addr = ar_device_address r\<rparr>]"
    "rx_q c1 = rx_q c" "operation_buf c1 = operation_buf c" "sent c1 = sent c" "mems_ok c1"
proof -
  let ?d = "\<lparr>pd_data = Some p, pd_dst_addr_mode = MODE_64BIT, pd_dst_addr = ar_device_address r\<rparr>"
  define t where "t = c\<lparr>mac_status := MAC_SUCCESS, pending_buf := Some p\<rparr>"
  define m where "m = ass_response_mhr (response_fc False) (ar_device_address r) t"
  let ?bs = "response_bytes m (ar_short_address r) (ar_status r)"
  have t: "mbufs t = mbufs c" "pib t = pib c" by (simp_all add: t_def)
  have m: "response_mhr m" "frame_control m = response_fc False" "src_addr m = mac_extended_address (pib c)" "dst_addr m = ar_device_address r"
    using lens by (auto simp: m_def ass_response_mhr_def response_mhr_def t)
  have fc: "mac_fcf MAC_FRAME_COMMAND 0 1 1 MODE_64BIT MODE_64BIT = Some (response_fc False)"
    by (simp add: mac_fcf_def MAC_FRAME_COMMAND_def MODE_64BIT_def ZB_FCF_SET_FRAME_TYPE_def MAC_FRAME_RESERVED1_def response_fc_def
        ZB_FCF_SET_FRAME_PENDING_BIT_def ZB_FCF_SET_ACK_REQUEST_BIT_def ZB_FCF_SET_PANID_COMPRESSION_BIT_def fcf_set_bit_def
        zb_fcf_set_dst_addressing_mode_def zb_fcf_set_src_addressing_mode_def ZB_FCF_SET_FRAME_VERSION_def)
  have hl: "zb_mac_calculate_mhr_length MODE_64BIT MODE_64BIT 1 = Some 21"
    by (simp add: zb_mac_calculate_mhr_length_def mac_modes ZB_MAC_DST_PANID_OFFSET_def PAN_ID_LENGTH_def)
  define u where "u = zb_inc_mac_dsn t"
  have u: "mbufs u = mbufs c" by (simp add: u_def zb_inc_mac_dsn_def t)
  obtain b where b: "build_frame p 25 m 21 ([MAC_CMD_ASSOCIATION_RESPONSE] @ htole16 (ar_short_address r) @ [ar_status r]) u = Some (set_mbuf p b u)"
      "buf_ok b" "payload b = ?bs" "hdr b = fresh_hdr 25 (hdr (mbufs c p))"
    by (rule build_frame_bytes [of u p 25 m "[MAC_CMD_ASSOCIATION_RESPONSE] @ htole16 (ar_short_address r) @ [ar_status r]" 21])
      (use ok response_fill(2) [OF m(1)] u in \<open>simp_all add: ZB_IO_BUF_SIZE_def response_bytes_def mems_ok_def\<close>)
  obtain e where e: "zb_mac_fcs_add b = Some e" "buf_ok e" "payload e = ?bs @ htole16 (fcs_loop 0 ?bs)" "hdr e = (hdr b)\<lparr>h_len := blen b + 2\<rparr>"
    by (rule fcs_add_bytes [OF b(2)]) (use b(3,4) in \<open>simp_all add: ZB_IO_BUF_SIZE_def\<close>)
  define v where "v = set_mbuf p e u"
  have fs: "free_slot v = Some i" using slot by (simp add: free_slot_def v_def u_def zb_inc_mac_dsn_def t_def)
  define w where "w = emit_m (M_alarm (Pending_data_timeout i) ZB_MAC_TRANSACTION_PERSISTENCE_TIME) (v\<lparr>pending_data_queue := (pending_data_queue v)[i := ?d]\<rparr>)"
  have fits: "tail_fits SIZEOF_ASSOCIATE_RESPONSE (mbufs c p)"
    using c1 slot by (auto simp: zb_mlme_associate_response_def zb_handle_associate_response_def split: if_split_asm)
  have pd: "zb_mac_put_data_to_pending_queue ?d v = (RET_PENDING, w)" using fs by (simp add: zb_mac_put_data_to_pending_queue_def w_def)
  have "zb_handle_associate_response p r t = Some w"
    unfolding zb_handle_associate_response_def Let_def assert_that_bind fc hl Option.bind.simps m_def [symmetric] u_def [symmetric]
    using fits b(1) e(1) pd by (simp add: t MAC_ADD_FCS_def v_def)
  then have w: "c1 = w" using c1 slot by (simp add: zb_mlme_associate_response_def t_def)
  have mm: "mems_ok w" using ok e(2) by (simp add: mems_ok_def w_def v_def u buf_ok_def)
  show thesis
    by (rule that [OF m])
      (use mm e b in \<open>auto simp: w w_def v_def u_def zb_inc_mac_dsn_def t_def sent_def\<close>)
qed

section \<open>The device\<close>

lemma recv_frame_bytes:
  assumes "length (bytes b) = ZB_IO_BUF_SIZE" "length f = 30"
  obtains b' where "recv_frame f b = Some b'" "buf_ok b'" "payload b' = f @ replicate 9 0" "blen b' = 39" "boff b' = 59"
proof -
  obtain b1 where b1: "zb_buf_initial_alloc b (length f) = Some (b1, boff b1)" "buf_ok b1" "blen b1 = 30" "boff b1 = 59"
    using initial_alloc_payload [OF assms(1), of 30] assms(2) by (auto simp: ZB_IO_BUF_SIZE_def)
  obtain b2 where b2: "write_bytes (boff b1) f b1 = Some b2" "buf_ok b2" "hdr b2 = hdr b1" "payload b2 = f @ drop (length f) (payload b1)"
    by (rule write_front [OF b1(2), of f]) (use b1 assms(2) in simp_all)
  then have p2: "payload b2 = f" using length_payload [OF b1(2)] b1(3) assms(2) by simp
  obtain b3 where b3: "zb_buf_smart_alloc_right b2 9 = Some (b3, boff b2 + blen b2)" "blen b3 = 39" "boff b3 = 59" "buf_ok b3" "take 30 (payload b3) = f"
    using alloc_right_payload [OF b2(2), of 9] b2(3) b1(3,4) p2 by (auto simp: ZB_IO_BUF_SIZE_def)
  obtain b4 where b4: "write_bytes (boff b3 + 30) (replicate 9 0) b3 = Some b4" "buf_ok b4" "hdr b4 = hdr b3" "payload b4 = memcpy 30 (replicate 9 0) (payload b3)"
    using write_at_payload [OF b3(4), of 30 "replicate 9 0"] b3(2) by auto
  have "payload b4 = f @ replicate 9 0"
    unfolding b4(4) using b3(5) length_payload [OF b3(4)] b3(2) by (simp add: memcpy_def)
  moreover have "recv_frame f b = Some b4"
    unfolding recv_frame_def ZB_MAC_EXTRA_DATA_SIZE_def using b1(1) b2(1) b3(1) b4(1) b2(3) b1(3,4) b3(3) by simp
  ultimately show thesis using that b4(2,3) b3(2,3) by simp
qed

text \<open>A response on the air comes in, is handed on, and is confirmed.\<close>

lemma response_comes_in:
  assumes ok: "mems_ok d" "mac_rx_on_when_idle (pib d) \<noteq> 0" and m: "response_mhr m"
    and f: "f = on_air (response_bytes m short st @ [x, y])"
  obtains d1 B where "zb_mac_recv_data b f d = Some d1" "d1 = emit_m (M_call Command_accept b) B" "mems_ok d1"
    "mac_get ZB_MAC_ASS_REQUEST_MASK d1 = mac_get ZB_MAC_ASS_REQUEST_MASK d" "operation_buf d1 = operation_buf d"
    "buf_ok (mbufs d1 b)" "boff (mbufs d1 b) = 60" "blen (mbufs d1 b) = 38"
    "\<exists>rest. payload (mbufs d1 b) = response_bytes m short st @ rest" "buf_mhr (mbufs d1 b) = Some (m, 21)"
proof -
  let ?bs = "response_bytes m short st"
  have lf: "length f = 30" "length ?bs = 25" using response_fill(2) [OF m] by (simp_all add: f on_air_def response_bytes_def)
  obtain b1 where b1: "recv_frame f (mbufs d b) = Some b1" "buf_ok b1" "payload b1 = f @ replicate 9 0" "blen b1 = 39" "boff b1 = 59"
    by (rule recv_frame_bytes [of "mbufs d b" f]) (use ok lf in simp_all)
  obtain b2 where b2: "zb_buf_cut_left b1 1 = Some (b2, boff b2)" "buf_ok b2" "payload b2 = tl f @ replicate 9 0"
    using cut_left_payload [OF b1(2), of 1] b1(3,4) lf by (auto simp: drop_Suc)
  have h2: "boff b2 = 60" "blen b2 = 38"
    using b2(1) b1(4,5) by (auto simp: zb_buf_cut_left_def set_off_def set_len_def Let_def split: if_split_asm)
  obtain rest where rest: "payload b2 = ?bs @ rest" using b2(3) by (auto simp: f on_air_def)
  obtain tail where tail: "mem_from (boff b2) b2 = payload b2 @ tail" by (rule mem_payload)
  have parse: "buf_mhr b2 = Some (m, 21)"
    using parse_fill [OF response_mhr_ok [OF m]] response_fill(2) [OF m] by (simp add: buf_mhr_def tail rest response_bytes_def)
  obtain again where fc: "frame_control m = response_fc again" using m by (auto simp: response_mhr_def)
  define A where "A = set_mbuf b b2 d"
  define B where "B = (if mac_get ZB_MAC_INDIRECT_DATA_REQUEST_MASK A \<and> check_frame_dst_addr (mac_short_address (pib d)) (mac_extended_address (pib d)) m
      then indirect_data_came m A else A)"
  have acc: "can_accept_frame (mac_rx_on_when_idle (pib d) \<noteq> 0) m"
    using ok(2) by (simp add: can_accept_frame_def fc)
  have s2: "zb_mac_recv_data b f d = Some (emit_m (M_call Command_accept b) B)"
    unfolding zb_mac_recv_data_def b1(1) Option.bind.simps zb_mac_parse_recv_data_def set_mbuf_sel set_mbuf_set_mbuf fun_upd_same b2(1) prod.case Let_def parse
      A_def [symmetric] B_def [symmetric]
    using acc by (simp add: fc MAC_FRAME_COMMAND_def MAC_FRAME_DATA_def MAC_FRAME_BEACON_def MAC_FRAME_ACKNOWLEDGMENT_def)
  have i: "mbufs (indirect_data_came m A) = mbufs A" "mac_get ZB_MAC_ASS_REQUEST_MASK (indirect_data_came m A) = mac_get ZB_MAC_ASS_REQUEST_MASK A"
      "operation_buf (indirect_data_came m A) = operation_buf A"
  proof -
    have e: "((w AND - 129) OR 16) AND 32 = w AND (32 :: u8)" "(w AND - 129) AND 32 = w AND (32 :: u8)" for w
      by (simp_all add: bit.conj_disj_distrib2 and.assoc)
    show "mbufs (indirect_data_came m A) = mbufs A" "mac_get ZB_MAC_ASS_REQUEST_MASK (indirect_data_came m A) = mac_get ZB_MAC_ASS_REQUEST_MASK A"
      "operation_buf (indirect_data_came m A) = operation_buf A"
      unfolding indirect_data_came_def Let_def fc
      by (simp_all add: MAC_FRAME_COMMAND_def MAC_FRAME_DATA_def mac_clear_def mac_set_def mac_get_def e ZB_MAC_ASS_REQUEST_MASK_def ZB_MAC_PEND_DATA_MASK_def
          ZB_MAC_INDIRECT_DATA_REQUEST_MASK_def)
  qed
  have sB: "mbufs B = mbufs A" "mac_get ZB_MAC_ASS_REQUEST_MASK B = mac_get ZB_MAC_ASS_REQUEST_MASK A" "operation_buf B = operation_buf A"
    using i by (simp_all add: B_def)
  show thesis
    by (rule that [OF s2 refl]) (use sB ok(1) b2(2) h2 rest parse in \<open>auto simp: A_def mems_ok_def mac_get_def buf_ok_def\<close>)
qed

lemma response_is_confirmed:
  assumes "mems_ok d" "b \<noteq> operation_buf d" "mac_get ZB_MAC_ASS_REQUEST_MASK d" "response_mhr m" "buf_mhr (mbufs d b) = Some (m, 21)"
    and "buf_ok (mbufs d b)" "boff (mbufs d b) = 60" "blen (mbufs d b) = 38" "payload (mbufs d b) = response_bytes m short st @ rest"
  obtains d2 where "zb_mlme_command_accept b d = Some d2" "last (macts d2) = Associate_confirm b short st (src_addr m)"
    "mac_short_address (pib d2) = short" "sent d2 = sent d @ [on_air (ack_bytes (seq_number m) 0)]" "\<not> mac_get ZB_MAC_ASS_REQUEST_MASK d2"
proof -
  obtain again where fc: "frame_control m = response_fc again" using assms(4) by (auto simp: response_mhr_def)
  have lf: "length (zb_mac_fill_mhr m) = 21" by (rule response_fill(2) [OF assms(4)])
  have at: "bytes (mbufs d b) ! (60 + k) = payload (mbufs d b) ! k" if "k < 38" for k
    using byte_at_payload [of k "mbufs d b"] assms(6-8) that by simp
  have pl: "payload (mbufs d b) ! 21 = MAC_CMD_ASSOCIATION_RESPONSE" "payload (mbufs d b) ! 24 = st" "take 2 (drop 22 (payload (mbufs d b))) = htole16 short"
    using lf by (simp_all add: assms(9) response_bytes_def nth_append htole16_def)
  have cmd: "bytes (mbufs d b) ! 81 = MAC_CMD_ASSOCIATION_RESPONSE" "bytes (mbufs d b) ! 84 = st" using at [of 21] at [of 24] pl by simp_all
  have sh: "bytes_at 82 2 (mbufs d b) = htole16 short" using bytes_at_payload [of 22 2 "mbufs d b"] assms(7,8) pl(3) by simp
  obtain a where a: "zb_mac_send_ack (seq_number m) 0 d = Some a" "op_sent d (ack_bytes (seq_number m) 0) a"
    by (rule zb_mac_send_ack_ok [of d 0]) (use assms(1) in simp_all)
  note ao = op_sent_sel [OF a(2)]
  have ab: "mbufs a b = mbufs d b" using ao assms(2) by simp
  have fits: "tail_fits SIZEOF_ASSOCIATE_CONFIRM (mbufs d b)"
    using assms(7,8) by (simp add: tail_fits_def zb_get_buf_tail_def SIZEOF_ASSOCIATE_CONFIRM_def ZB_IO_BUF_SIZE_def)
  define d2 where "d2 = mac_clear ZB_MAC_ASS_REQUEST_MASK (emit_m (Associate_confirm b short st (src_addr m))
      (mac_buf_status b (ucast st) (on_pib (\<lambda>q. q\<lparr>mac_short_address := short\<rparr>) a)))"
  have ass: "mac_get ZB_MAC_ASS_REQUEST_MASK a" using assms(3) ao by (simp add: mac_get_def)
  have acc: "accept_ass_response b m 81 d = Some d2"
    unfolding accept_ass_response_def Let_def assert_that_bind
    using fits a(1) fc ass ab cmd(2) sh by (simp add: d2_def mac_modes)
  have "zb_mlme_command_accept b d = Some d2"
    using acc cmd(1) assms(5,7)
    by (simp add: zb_mlme_command_accept_def MAC_CMD_ASSOCIATION_RESPONSE_def MAC_CMD_BEACON_REQUEST_def MAC_CMD_ASSOCIATION_REQUEST_def)
  moreover have "sent d2 = sent d @ [on_air (ack_bytes (seq_number m) 0)]"
    using ao(1) by (simp add: d2_def mac_clear_def mac_buf_status_def sent_def sent_frame_def)
  moreover have "\<not> mac_get ZB_MAC_ASS_REQUEST_MASK d2" by (simp add: d2_def mac_get_def mac_clear_def and.assoc)
  ultimately show thesis
    by (intro that [of d2]) (simp_all add: d2_def mac_clear_def mac_buf_status_def)
qed

section \<open>Both together\<close>

text \<open>
  C11: Association, end to end. A coordinator with a free slot keeps the response for the device; when the device asks for its data, the frame that the coordinator
  puts on the air is received by the device, recognised as the response it waits for and acknowledged, and what the device reports upwards and takes for its short address
  is the address and the status that the coordinator chose, with the long address of that coordinator.
\<close>

theorem association_response_reaches_the_device:
  assumes coord: "mems_ok c" "free_slot c = Some i" "\<not> mac_joined_pro c" "rx_q c = []" "p \<noteq> operation_buf c"
      "length (ar_device_address r) = 8" "length (mac_extended_address (pib c)) = 8" "zb_mlme_associate_response p r c = Some c1"
    and req: "buf_mhr (mbufs c1 q) = Some (mq, nq)" "tail_fits SIZEOF_DATA_REQ_CTX (mbufs c1 q)" "check_pending_data mq 0 c1 = Some i"
    and dev: "mems_ok d" "mac_rx_on_when_idle (pib d) \<noteq> 0" "mac_get ZB_MAC_ASS_REQUEST_MASK d" "b \<noteq> operation_buf d"
  shows "\<exists>c2 f d1 d2. zb_accept_data_request_cmd q c1 = Some c2 \<and> sent c2 = sent c @ [on_air (ack_bytes (seq_number mq) 1), f]
     \<and> zb_mac_recv_data b f d = Some d1 \<and> last (macts d1) = M_call Command_accept b
     \<and> zb_mlme_command_accept b d1 = Some d2
     \<and> last (macts d2) = Associate_confirm b (ar_short_address r) (ar_status r) (mac_extended_address (pib c))
     \<and> mac_short_address (pib d2) = ar_short_address r \<and> \<not> mac_get ZB_MAC_ASS_REQUEST_MASK d2"
proof -
  let ?short = "ar_short_address r" and ?st = "ar_status r"
  obtain m where m: "response_mhr m" "frame_control m = response_fc False" "src_addr m = mac_extended_address (pib c)"
      "payload (mbufs c1 p) = response_bytes m ?short ?st @ htole16 (fcs_loop 0 (response_bytes m ?short ?st))"
      "buf_ok (mbufs c1 p)" "hdr (mbufs c1 p) = (fresh_hdr 25 (hdr (mbufs c p)))\<lparr>h_len := 27\<rparr>"
      "pending_data_queue c1 = (pending_data_queue c)[i := \<lparr>pd_data = Some p, pd_dst_addr_mode = MODE_64BIT, pd_dst_addr = ar_device_address r\<rparr>]"
      "rx_q c1 = rx_q c" "operation_buf c1 = operation_buf c" "sent c1 = sent c" "mems_ok c1"
    by (rule response_waits [OF coord(1,2,3,6,7,8)])
  let ?bs = "response_bytes m ?short ?st"
  have i: "i < length (pending_data_queue c)" using coord(2) by (auto simp: free_slot_def find_Some_iff)
  have slot: "pd_data (pending_data_queue c1 ! i) = Some p" using m(7) i by simp
  have b0: "payload (mbufs c1 p) ! 0 = 0x63"
    unfolding m(4) response_bytes_def response_fill(1) [OF m(1)] m(2) by (simp add: response_fc_def)
  obtain tail where tail: "mem_from (boff (mbufs c1 p)) (mbufs c1 p) = payload (mbufs c1 p) @ tail" by (rule mem_payload)
  have "zb_parse_mhr (?bs @ x) = Some (m, 21)" for x
    using parse_fill [OF response_mhr_ok [OF m(1)]] response_fill(2) [OF m(1)] by (simp add: response_bytes_def)
  then have parse: "buf_mhr (mbufs c1 p) = Some (m, 21)" unfolding buf_mhr_def tail m(4) append.assoc by blast
  have wf: "waiting_frame_ok c1 p"
    using m(5,6,9) coord(5) parse b0 by (simp add: waiting_frame_ok_def ZB_IO_BUF_SIZE_def hdr_zero_def ZB_SECUR_NO_ENCR_def MAC_FRAME_COMMAND_def)
  let ?again = "check_pending_data mq (i + 1) c1 \<noteq> None"
  obtain c2 where c2: "zb_accept_data_request_cmd q c1 = Some c2"
      "sent c2 = sent c1 @ [on_air (ack_bytes (seq_number mq) 1), on_air (with_pending ?again (payload (mbufs c1 p)))]"
    by (rule data_request_sends [OF m(11) _ req(1,2,3) slot wf]) (use m(8) coord(4) in auto)
  let ?m = "m\<lparr>frame_control := response_fc ?again\<rparr>"
  note rp = response_pending(1) [OF m(1,2), of ?again ?short ?st] response_pending(2) [OF m(1,2), of ?again]
  obtain x y where xy: "htole16 (fcs_loop 0 ?bs) = [x, y]" by (simp add: htole16_def)
  have air: "on_air (with_pending ?again (payload (mbufs c1 p))) = on_air (response_bytes ?m ?short ?st @ [x, y])"
    unfolding m(4) xy rp(1) ..
  obtain d1 B where d1: "zb_mac_recv_data b (on_air (response_bytes ?m ?short ?st @ [x, y])) d = Some d1" "d1 = emit_m (M_call Command_accept b) B" "mems_ok d1"
      "mac_get ZB_MAC_ASS_REQUEST_MASK d1 = mac_get ZB_MAC_ASS_REQUEST_MASK d" "operation_buf d1 = operation_buf d"
      "buf_ok (mbufs d1 b)" "boff (mbufs d1 b) = 60" "blen (mbufs d1 b) = 38"
      "\<exists>rest. payload (mbufs d1 b) = response_bytes ?m ?short ?st @ rest" "buf_mhr (mbufs d1 b) = Some (?m, 21)"
    by (rule response_comes_in [OF dev(1,2) rp(2) refl])
  then obtain rest where rest: "payload (mbufs d1 b) = response_bytes ?m ?short ?st @ rest" by blast
  obtain d2 where d2: "zb_mlme_command_accept b d1 = Some d2" "last (macts d2) = Associate_confirm b ?short ?st (src_addr ?m)"
      "mac_short_address (pib d2) = ?short" "\<not> mac_get ZB_MAC_ASS_REQUEST_MASK d2"
    by (rule response_is_confirmed [OF d1(3) _ _ rp(2) d1(10,6,7,8) rest]) (use d1 dev in simp_all)
  have "last (macts d1) = M_call Command_accept b" by (simp add: d1(2))
  then show ?thesis using c2 air d1(1) d2 m(3,10) by auto
qed

text \<open>Device 7 asks in buffer 3, which has its request already; the device takes the answer into buffer 1.\<close>

definition coordinator_mac :: mac_node where
  "coordinator_mac = sample_mac\<lparr>mbufs := (\<lambda>p. if p = 3 then frame_buf ([0x63, 0xC8, 9, 0xaa, 0x1a, 0, 0] @ replicate 8 7 @ [4]) else plain_buf)\<rparr>"

definition device_mac :: mac_node where
  "device_mac = sample_mac\<lparr>mac_flags := ZB_MAC_ASS_REQUEST_MASK, designated_coordinator := False\<rparr>"

theorem association_response_reaches_the_device_witness:
  "\<exists>c1 c2 f d1 d2. zb_mlme_associate_response 1 \<lparr>ar_device_address = replicate 8 7, ar_short_address = 0x1430, ar_status = 0\<rparr> coordinator_mac = Some c1
     \<and> zb_accept_data_request_cmd 3 c1 = Some c2 \<and> last (sent c2) = f
     \<and> zb_mac_recv_data 1 f device_mac = Some d1 \<and> zb_mlme_command_accept 1 d1 = Some d2
     \<and> last (macts d2) = Associate_confirm 1 0x1430 0 (replicate 8 9)"
proof -
  let ?r = "\<lparr>ar_device_address = replicate 8 7, ar_short_address = 0x1430, ar_status = 0\<rparr>"
  have c: "mems_ok coordinator_mac" "free_slot coordinator_mac = Some 0" "\<not> mac_joined_pro coordinator_mac" "rx_q coordinator_mac = []"
      "1 \<noteq> operation_buf coordinator_mac" "length (ar_device_address ?r) = 8" "length (mac_extended_address (pib coordinator_mac)) = 8"
      "mac_extended_address (pib coordinator_mac) = replicate 8 9"
    by (simp_all add: coordinator_mac_def sample_mac_def mems_ok_def frame_buf_def plain_buf_def ZB_IO_BUF_SIZE_def free_slot_def upt_rec empty_slot_def
        no_slot_def sample_pib_def numeral_eq_Suc)
  obtain c1 where c1: "zb_mlme_associate_response 1 ?r coordinator_mac = Some c1"
    "map_option (\<lambda>(m, n). check_pending_data m 0 c1) (buf_mhr (mbufs c1 3)) = Some (Some 0)" "tail_fits SIZEOF_DATA_REQ_CTX (mbufs c1 3)"
  proof -
    have "map_option (\<lambda>c1. (map_option (\<lambda>(m, n). check_pending_data m 0 c1) (buf_mhr (mbufs c1 3)), tail_fits SIZEOF_DATA_REQ_CTX (mbufs c1 3)))
        (zb_mlme_associate_response 1 ?r coordinator_mac) = Some (Some (Some 0), True)"
      by code_simp
    then show thesis using that by auto
  qed
  then obtain mq nq where q: "buf_mhr (mbufs c1 3) = Some (mq, nq)" "check_pending_data mq 0 c1 = Some 0" by auto
  have d: "mems_ok device_mac" "mac_rx_on_when_idle (pib device_mac) \<noteq> 0" "mac_get ZB_MAC_ASS_REQUEST_MASK device_mac" "1 \<noteq> operation_buf device_mac"
    by (simp_all add: device_mac_def sample_mac_def mems_ok_def plain_buf_def ZB_IO_BUF_SIZE_def sample_pib_def mac_get_def ZB_MAC_ASS_REQUEST_MASK_def)
  show ?thesis
    using association_response_reaches_the_device [OF c(1-7) c1(1) q(1) c1(3) q(2) d] c1(1) c(8) by auto
qed

end
