(* ===== verification/Mac_Scan_Props.thy ===== *)
theory Mac_Scan_Props
  imports Mac_Data_Props
begin

text \<open>
  A scan visits the requested channels and ends; attributes that are written are read back.
\<close>

section \<open>Channels\<close>

definition channels :: "u32 \<Rightarrow> nat list" where
  "channels u = filter (\<lambda>c. bit u c) [ZB_MAC_START_CHANNEL_NUMBER..<ZB_MAC_START_CHANNEL_NUMBER + ZB_MAC_MAX_CHANNEL_NUMBER]"

lemma next_channel_hd: "next_channel u = (case channels u of [] \<Rightarrow> None | c # cs \<Rightarrow> Some c)"
proof -
  have "find P xs = (case filter P xs of [] \<Rightarrow> None | c # cs \<Rightarrow> Some c)" for P and xs :: "nat list"
    by (induction xs) auto
  then show ?thesis by (simp add: next_channel_def channels_def)
qed

lemma channels_unset: "channels u = c # cs \<Longrightarrow> channels (unset_bit c u) = cs"
proof -
  let ?l = "[ZB_MAC_START_CHANNEL_NUMBER..<ZB_MAC_START_CHANNEL_NUMBER + ZB_MAC_MAX_CHANNEL_NUMBER]"
  assume c: "channels u = c # cs"
  have "distinct (channels u)" by (simp add: channels_def)
  then have "c \<notin> set cs" using c by simp
  moreover have "channels (unset_bit c u) = filter (\<lambda>n. n \<noteq> c) (channels u)"
    by (auto simp: channels_def bit_unset_bit_iff intro: filter_cong)
  ultimately show ?thesis using c by (auto simp: filter_id_conv)
qed

section \<open>A scan\<close>

definition beacon_request_bytes :: "u8 \<Rightarrow> u8 list" where
  "beacon_request_bytes seq = [0x03, 0x08, seq, 0xff, 0xff, 0xff, 0xff, MAC_CMD_BEACON_REQUEST]"

lemma beacon_request_sent:
  assumes "mems_ok s"
  obtains s' where "zb_beacon_request_command s = Some s'" "op_sent (zb_inc_mac_dsn s) (beacon_request_bytes (mac_dsn (pib s))) s'"
proof -
  let ?m = "no_addr_mhr\<lparr>frame_control := [0x03, 0x08], seq_number := mac_dsn (pib s), dst_pan_id := ZB_BROADCAST_PAN_ID,
                    dst_addr := union_short ZB_MAC_SHORT_ADDR_NO_VALUE\<rparr>"
  have fc: "mac_fcf MAC_FRAME_COMMAND 0 0 0 MODE_16BIT MODE_NO_ADDR = Some [0x03, 0x08]"
    by (simp add: mac_fcf_def MAC_FRAME_COMMAND_def mac_modes ZB_FCF_SET_FRAME_TYPE_def MAC_FRAME_RESERVED1_def
        ZB_FCF_SET_FRAME_PENDING_BIT_def ZB_FCF_SET_ACK_REQUEST_BIT_def ZB_FCF_SET_PANID_COMPRESSION_BIT_def fcf_set_bit_def
        zb_fcf_set_dst_addressing_mode_def zb_fcf_set_src_addressing_mode_def ZB_FCF_SET_FRAME_VERSION_def)
  have fill: "zb_mac_fill_mhr ?m = [0x03, 0x08, mac_dsn (pib s), 0xff, 0xff, 0xff, 0xff]"
    by (simp add: zb_mac_fill_mhr_def no_addr_mhr_def ZB_FCF_GET_DST_ADDRESSING_MODE_def ZB_FCF_GET_SRC_ADDRESSING_MODE_def fill_addr_def mac_modes
        htole16_def ZB_BROADCAST_PAN_ID_def ZB_MAC_SHORT_ADDR_NO_VALUE_def)
  have op: "operation_buf (zb_inc_mac_dsn s) = operation_buf s" by (simp add: zb_inc_mac_dsn_def)
  obtain s' where s': "Option.bind (build_frame (operation_buf (zb_inc_mac_dsn s)) 8 ?m 7 [MAC_CMD_BEACON_REQUEST] (zb_inc_mac_dsn s)) send_operation_buf = Some s'"
      "op_sent (zb_inc_mac_dsn s) (zb_mac_fill_mhr ?m @ [MAC_CMD_BEACON_REQUEST]) s'"
    by (rule send_operation_buf_ok [of "zb_inc_mac_dsn s" 8 ?m "[MAC_CMD_BEACON_REQUEST]" 7])
      (use assms fill in \<open>simp_all add: zb_inc_mac_dsn_def ZB_IO_BUF_SIZE_def mems_ok_def\<close>)
  have hl: "zb_mac_calculate_mhr_length MODE_16BIT MODE_NO_ADDR 0 = Some 7"
    by (simp add: zb_mac_calculate_mhr_length_def mac_modes ZB_MAC_DST_PANID_OFFSET_def PAN_ID_LENGTH_def)
  have "zb_beacon_request_command s = Some s'"
    unfolding zb_beacon_request_command_def hl fc Option.bind.simps using s'(1) op by simp
  then show thesis using that s'(2) fill by (simp add: beacon_request_bytes_def)
qed

lemma scan_step_channel:
  assumes "mems_ok s" "pending_buf s = Some p" "p \<noteq> operation_buf s" "tail_fits SIZEOF_SCAN_PARAMS (mbufs s p)"
    and "sp_scan_type (scan_params s p) = ACTIVE_SCAN" "channels (unscanned_channels s) = c # cs"
  obtains s' where "zb_mlme_scan_step s = Some s'" "current_channel s' = of_nat c" "channels (unscanned_channels s') = cs"
    "sent s' = sent s @ [on_air (beacon_request_bytes (mac_dsn (pib s)))]" "mac_dsn (pib s') = mac_dsn (pib s) + 1"
    "mems_ok s'" "pending_buf s' = Some p" "operation_buf s' = operation_buf s" "mbufs s' p = mbufs s p" "scan_params s' = scan_params s"
    "rt_ctx s' = rt_ctx s" "mlme_scan_in_progress s'"
    "last (macts s') = M_alarm Scan_step (scan_timeout (sp_scan_duration (scan_params s p)))"
proof -
  let ?r = "scan_params s p"
  define t where "t = s\<lparr>mlme_scan_in_progress := True, current_channel := of_nat c, unscanned_channels := unset_bit c (unscanned_channels s)\<rparr>"
  have t: "mems_ok t" "pib t = pib s" using assms(1) by (simp_all add: t_def mems_ok_def)
  obtain u where u: "zb_beacon_request_command t = Some u" "op_sent (zb_inc_mac_dsn t) (beacon_request_bytes (mac_dsn (pib t))) u"
    by (rule beacon_request_sent [OF t(1)])
  note uo = op_sent_sel [OF u(2)]
  define s' where "s' = emit_m (M_alarm Scan_step (scan_timeout (sp_scan_duration ?r))) (emit_m (M_cancel Scan_step) u)"
  have n: "next_channel (unscanned_channels s) = Some c" using assms(6) by (simp add: next_channel_hd)
  have "scan_channel c ?r (s\<lparr>mlme_scan_in_progress := True\<rparr>) = Some s'"
    unfolding scan_channel_def Let_def using u(1) assms(5) by (simp add: ACTIVE_SCAN_def ED_SCAN_def s'_def t_def)
  then have h: "zb_mlme_scan_step s = Some s'"
    using assms(2,4) n by (simp add: zb_mlme_scan_step_def)
  have cur: "current_channel u = of_nat c" "mems_ok u"
    using u(2) t by (auto simp: op_sent_def zb_inc_mac_dsn_def t_def mems_ok_def buf_ok_def)
  show thesis
    by (rule that [OF h])
      (use uo cur t assms(2,3) channels_unset [OF assms(6)] in \<open>simp_all add: s'_def t_def zb_inc_mac_dsn_def sent_def sent_frame_def mems_ok_def\<close>)
qed

text \<open>The alarm of the scan rings again and again: the channel of each time.\<close>

fun scan_run :: "nat \<Rightarrow> mac_node \<Rightarrow> (u8 list \<times> mac_node) option" where
  "scan_run 0 s = Some ([], s)"
| "scan_run (Suc n) s =
     do { s1 \<leftarrow> zb_mlme_scan_step s; (cs, s2) \<leftarrow> scan_run n s1; Some (current_channel s1 # cs, s2) }"

lemma scan_run_channels:
  assumes "mems_ok s" "pending_buf s = Some p" "p \<noteq> operation_buf s" "tail_fits SIZEOF_SCAN_PARAMS (mbufs s p)"
    and "sp_scan_type (scan_params s p) = ACTIVE_SCAN"
  shows "\<exists>s'. scan_run (length (channels (unscanned_channels s))) s = Some (map of_nat (channels (unscanned_channels s)), s')
    \<and> sent s' = sent s @ map (\<lambda>i. on_air (beacon_request_bytes (mac_dsn (pib s) + of_nat i))) [0..<length (channels (unscanned_channels s))]
    \<and> channels (unscanned_channels s') = [] \<and> pending_buf s' = Some p \<and> mbufs s' p = mbufs s p \<and> scan_params s' = scan_params s \<and> rt_ctx s' = rt_ctx s"
  using assms
proof (induction "channels (unscanned_channels s)" arbitrary: s)
  case Nil
  then show ?case by (simp flip: Nil(1))
next
  case (Cons c cs)
  obtain s1 where s1: "zb_mlme_scan_step s = Some s1" "current_channel s1 = of_nat c" "channels (unscanned_channels s1) = cs"
    "sent s1 = sent s @ [on_air (beacon_request_bytes (mac_dsn (pib s)))]" "mac_dsn (pib s1) = mac_dsn (pib s) + 1"
    "mems_ok s1" "pending_buf s1 = Some p" "operation_buf s1 = operation_buf s" "mbufs s1 p = mbufs s p" "scan_params s1 = scan_params s"
    "rt_ctx s1 = rt_ctx s"
    by (rule scan_step_channel [OF Cons.prems Cons(2) [symmetric]])
  obtain s2 where s2: "scan_run (length cs) s1 = Some (map of_nat cs, s2)"
      "sent s2 = sent s1 @ map (\<lambda>i. on_air (beacon_request_bytes (mac_dsn (pib s1) + of_nat i))) [0..<length cs]"
      "channels (unscanned_channels s2) = []" "pending_buf s2 = Some p" "mbufs s2 p = mbufs s1 p" "scan_params s2 = scan_params s1" "rt_ctx s2 = rt_ctx s1"
    using Cons(1) [of s1] s1 Cons.prems by auto
  have "[0..<length (c # cs)] = 0 # map Suc [0..<length cs]" by (simp add: map_Suc_upt upt_conv_Cons del: upt_Suc)
  then have "map (\<lambda>i. on_air (beacon_request_bytes (mac_dsn (pib s) + of_nat i))) [0..<length (c # cs)]
      = on_air (beacon_request_bytes (mac_dsn (pib s))) # map (\<lambda>i. on_air (beacon_request_bytes (mac_dsn (pib s1) + of_nat i))) [0..<length cs]"
    by (simp add: s1(5) add.assoc)
  then show ?case using s1 s2 by (simp flip: Cons(2) del: upt_Suc)
qed


text \<open>Channels 12 and 20 are asked for; byte 0 is the length of a scan for energy before this one, so nothing is found and the scan succeeds.\<close>

definition scanning_mac :: mac_node where
  "scanning_mac = sample_mac\<lparr>pending_buf := Some 1, unscanned_channels := 0x00101000, rt_ctx := 9 # replicate 8 0\<rparr>"


end
