(* ===== verification/Aps_Bind.thy ===== *)
theory Aps_Bind
  imports Address_Props
begin

text \<open>
  The binding table of the application support layer, \<^verbatim>\<open>aps/aps_bind.c\<close>: a table of sources (device, endpoint,
  cluster) and a table of destinations with the index of their source; the search of the destination of a
  frame (\<^verbatim>\<open>aps/aps_main.c\<close>); the table of groups with their endpoints. Devices are references of the
  address translation. The counters are bytes. The tables are arrays; a read or write behind an array is \<open>None\<close>.
\<close>

section \<open>Tables\<close>

definition ZB_APS_SRC_BINDING_TABLE_SIZE :: nat where "ZB_APS_SRC_BINDING_TABLE_SIZE = 32"
definition ZB_APS_DST_BINDING_TABLE_SIZE :: nat where "ZB_APS_DST_BINDING_TABLE_SIZE = 32"

record aps_bind_src =
  src_addr :: nat
  src_end :: u8
  cluster_id :: u16

datatype aps_bind_addr =
    Bind_dst_group u16
  | Bind_dst_long nat u8

record aps_bind_dst =
  dst_addr :: aps_bind_addr
  src_table_index :: nat

record aps_binding =
  src_table :: "aps_bind_src list"
  dst_table :: "aps_bind_dst list"
  src_n_elements :: nat
  dst_n_elements :: nat

definition binding_zero :: aps_binding where
  "binding_zero = \<lparr>src_table = replicate ZB_APS_SRC_BINDING_TABLE_SIZE \<lparr>src_addr = 0, src_end = 0, cluster_id = 0\<rparr>,
     dst_table = replicate ZB_APS_DST_BINDING_TABLE_SIZE \<lparr>dst_addr = Bind_dst_group 0, src_table_index = 0\<rparr>,
     src_n_elements = 0, dst_n_elements = 0\<rparr>"

section \<open>Searching a source\<close>

definition NOT_FOUND :: nat where "NOT_FOUND = 255"

text \<open>The loop tests its condition at the end: entry 0 is looked at in an empty table, too.\<close>

function find_src :: "aps_bind_src \<Rightarrow> nat \<Rightarrow> aps_binding \<Rightarrow> nat option" where
  "find_src k l t =
     (if l < ZB_APS_SRC_BINDING_TABLE_SIZE then
        (if src_table t ! l = k then Some l
         else if l + 1 < src_n_elements t then find_src k (l + 1) t else Some NOT_FOUND)
      else None)"
  by pat_completeness auto
termination by (relation "measure (\<lambda>(k, l, t). ZB_APS_SRC_BINDING_TABLE_SIZE - l)") auto

declare find_src.simps [simp del]

definition aps_find_src_ref :: "nat \<Rightarrow> u8 \<Rightarrow> u16 \<Rightarrow> aps_binding \<Rightarrow> nat option" where
  "aps_find_src_ref ref ep cluster t = find_src \<lparr>src_addr = ref, src_end = ep, cluster_id = cluster\<rparr> 0 t"

section \<open>Binding\<close>

datatype bind_status =
    Bind_ret zb_ret
  | ZDP_STATUS_TABLE_FULL

datatype bind_addr_mode =
    MODE_64_ENDP_PRESENT
  | MODE_16_GROUP_ENDP_NOT_PRESENT
  | MODE_other u8

text \<open>The request; the union of the destination address has both fields here.\<close>

record binding_req =
  br_src_addr :: ieee
  br_src_endpoint :: u8
  br_clusterid :: u16
  br_addr_mode :: bind_addr_mode
  br_dst_long :: ieee
  br_dst_group :: u16
  br_dst_endpoint :: u8

text \<open>The destination of a request, with the status; \<open>create\<close> is always \<^verbatim>\<open>ZB_TRUE\<close>.\<close>

definition request_dst ::
  "binding_req \<Rightarrow> zb_addr_globals \<Rightarrow> (zb_ret \<times> aps_bind_addr \<times> zb_addr_globals) option" where
  "request_dst req g =
     (case br_addr_mode req of
        MODE_64_ENDP_PRESENT \<Rightarrow>
          map_option (\<lambda>(ret, ref, g'). (ret, Bind_dst_long (the ref) (br_dst_endpoint req), g'))
            (zb_address_by_ieee (br_dst_long req) True False g)
      | MODE_16_GROUP_ENDP_NOT_PRESENT \<Rightarrow> Some (RET_OK, Bind_dst_group (br_dst_group req), g)
      | MODE_other _ \<Rightarrow> Some (RET_INVALID_BINDING, Bind_dst_group (br_dst_group req), g))"

definition add_binding :: "nat \<Rightarrow> aps_bind_src \<Rightarrow> aps_bind_addr \<Rightarrow> aps_binding \<Rightarrow> aps_binding" where
  "add_binding s src dst t =
     (let d = dst_n_elements t;
          t1 = (if s = src_n_elements t
                then t\<lparr>src_table := (src_table t)[s := src], src_n_elements := u8_inc (src_n_elements t)\<rparr> else t)
      in t1\<lparr>dst_table := (dst_table t1)[d := \<lparr>dst_addr = dst, src_table_index = s\<rparr>],
           dst_n_elements := u8_inc (dst_n_elements t)\<rparr>)"

definition zb_apsme_bind_request ::
  "binding_req \<Rightarrow> aps_binding \<Rightarrow> zb_addr_globals \<Rightarrow> (bind_status \<times> aps_binding \<times> zb_addr_globals) option" where
  "zb_apsme_bind_request req t g =
     (case zb_address_by_ieee (br_src_addr req) True False g of
        None \<Rightarrow> None
      | Some (ret, ref, g1) \<Rightarrow>
          if ret \<noteq> RET_OK then Some (Bind_ret ret, t, g1)
          else
            (case aps_find_src_ref (the ref) (br_src_endpoint req) (br_clusterid req) t of
               None \<Rightarrow> None
             | Some s0 \<Rightarrow>
                 (let s = (if s0 = NOT_FOUND then src_n_elements t else s0) in
                  if s < ZB_APS_SRC_BINDING_TABLE_SIZE \<and> dst_n_elements t < ZB_APS_DST_BINDING_TABLE_SIZE then
                    (case request_dst req g1 of
                       None \<Rightarrow> None
                     | Some (ret, dst, g2) \<Rightarrow>
                         if ret = RET_OK
                         then Some (Bind_ret RET_OK,
                                add_binding s \<lparr>src_addr = the ref, src_end = br_src_endpoint req, cluster_id = br_clusterid req\<rparr>
                                  dst t, g2)
                         else Some (Bind_ret ret, t, g2))
                  else Some (ZDP_STATUS_TABLE_FULL, t, g1))))"

section \<open>Unbinding\<close>

text \<open>
  Removing the record at \<open>d\<close>: the counter goes down, with wrap at 0, then the records behind it are moved
  left. A move past the end of the table is \<open>None\<close>.
\<close>

definition move_left :: "nat \<Rightarrow> nat \<Rightarrow> nat \<Rightarrow> 'a list \<Rightarrow> 'a list option" where
  "move_left sz n d xs =
     (if n = d then Some xs
      else if d < n \<and> n + 1 \<le> sz then Some (memmove d (d + 1) (n - d) xs)
      else None)"

function remove_dst :: "nat \<Rightarrow> aps_bind_addr \<Rightarrow> nat \<Rightarrow> bool \<Rightarrow> aps_binding \<Rightarrow> (bool \<times> aps_binding) option" where
  "remove_dst s dst d found t =
     (if d \<ge> ZB_APS_DST_BINDING_TABLE_SIZE then None
      else if dst_table t ! d = \<lparr>dst_addr = dst, src_table_index = s\<rparr> then
        (let n = u8_dec (dst_n_elements t) in
         case move_left ZB_APS_DST_BINDING_TABLE_SIZE n d (dst_table t) of
           None \<Rightarrow> None
         | Some xs \<Rightarrow>
             (let t1 = t\<lparr>dst_n_elements := n, dst_table := xs\<rparr> in
              if d < n then remove_dst s dst d found t1 else Some (found, t1)))
      else
        (let found1 = (found \<or> src_table_index (dst_table t ! d) = s) in
         if d + 1 < dst_n_elements t then remove_dst s dst (d + 1) found1 t else Some (found1, t)))"
  by pat_completeness auto
termination
proof (relation "measure (\<lambda>(s, dst, d, found, t). dst_n_elements t - d + (if dst_n_elements t = 0 then ZB_APS_DST_BINDING_TABLE_SIZE else 0))", goal_cases)
  case (2 s dst d found t n x2 x)
  then show ?case
    by (cases "dst_n_elements t") (auto simp: move_left_def u8_dec_def ZB_APS_DST_BINDING_TABLE_SIZE_def split: if_split_asm)
qed auto

declare remove_dst.simps [simp del]

definition correct_index :: "nat \<Rightarrow> aps_bind_dst \<Rightarrow> aps_bind_dst" where
  "correct_index s e = (if src_table_index e > s then e\<lparr>src_table_index := src_table_index e - 1\<rparr> else e)"

text \<open>The loop over the destinations runs at least once.\<close>

definition correct_indexes :: "nat \<Rightarrow> aps_binding \<Rightarrow> aps_binding" where
  "correct_indexes s t =
     t\<lparr>dst_table := map (correct_index s) (take (max 1 (dst_n_elements t)) (dst_table t))
                     @ drop (max 1 (dst_n_elements t)) (dst_table t)\<rparr>"

definition remove_src :: "nat \<Rightarrow> aps_binding \<Rightarrow> aps_binding option" where
  "remove_src s t =
     (let n = u8_dec (src_n_elements t) in
      map_option (\<lambda>xs. correct_indexes s (t\<lparr>src_n_elements := n, src_table := xs\<rparr>))
        (move_left ZB_APS_SRC_BINDING_TABLE_SIZE n s (src_table t)))"

definition remove_binding :: "nat \<Rightarrow> aps_bind_addr \<Rightarrow> aps_binding \<Rightarrow> aps_binding option" where
  "remove_binding s dst t =
     (case remove_dst s dst 0 False t of
        None \<Rightarrow> None
      | Some (found, t1) \<Rightarrow> if found then Some t1 else remove_src s t1)"

definition zb_apsme_unbind_request ::
  "binding_req \<Rightarrow> aps_binding \<Rightarrow> zb_addr_globals \<Rightarrow> (bind_status \<times> aps_binding \<times> zb_addr_globals) option" where
  "zb_apsme_unbind_request req t g =
     (case zb_address_by_ieee (br_src_addr req) False False g of
        None \<Rightarrow> None
      | Some (ret, ref, g1) \<Rightarrow>
          if ret \<noteq> RET_OK then Some (Bind_ret RET_ILLEGAL_REQUEST, t, g1)
          else
            (case aps_find_src_ref (the ref) (br_src_endpoint req) (br_clusterid req) t of
               None \<Rightarrow> None
             | Some s \<Rightarrow>
                 if s = NOT_FOUND then Some (Bind_ret RET_INVALID_BINDING, t, g1)
                 else
                   (case request_dst req g1 of
                      None \<Rightarrow> None
                    | Some (ret, dst, g2) \<Rightarrow>
                        if ret = RET_OK
                        then map_option (\<lambda>t1. (Bind_ret RET_OK, t1, g2)) (remove_binding s dst t)
                        else Some (Bind_ret ret, t, g2))))"

section \<open>Using a binding\<close>

text \<open>
  The destination of a frame without one: the first record of the source decides. \<open>None\<close> inside of the result is
  \<^verbatim>\<open>RET_NO_BOUND_DEVICE\<close>.
\<close>

function first_dst :: "nat \<Rightarrow> nat \<Rightarrow> aps_binding \<Rightarrow> aps_bind_addr option option" where
  "first_dst s i t =
     (if i \<ge> ZB_APS_DST_BINDING_TABLE_SIZE then None
      else if src_table_index (dst_table t ! i) = s then Some (Some (dst_addr (dst_table t ! i)))
      else if i + 1 < dst_n_elements t then first_dst s (i + 1) t else Some None)"
  by pat_completeness auto
termination by (relation "measure (\<lambda>(s, i, t). ZB_APS_DST_BINDING_TABLE_SIZE - i)") auto

declare first_dst.simps [simp del]

definition zb_search_dst_in_binding_table ::
  "u16 \<Rightarrow> u8 \<Rightarrow> u16 \<Rightarrow> aps_binding \<Rightarrow> zb_addr_globals \<Rightarrow> ((nat \<times> u8) option \<times> zb_addr_globals) option" where
  "zb_search_dst_in_binding_table own ep cluster t g =
     (case zb_address_by_short own False False g of
        None \<Rightarrow> None
      | Some (ret, ref, g1) \<Rightarrow>
          if ret \<noteq> RET_OK then Some (None, g1)
          else
            (case aps_find_src_ref (the ref) ep cluster t of
               None \<Rightarrow> None
             | Some s \<Rightarrow>
                 if s = NOT_FOUND then Some (None, g1)
                 else
                   map_option (\<lambda>d. (case d of Some (Bind_dst_long r e) \<Rightarrow> Some (r, e) | _ \<Rightarrow> None, g1))
                     (first_dst s 0 t)))"

section \<open>Groups\<close>

definition ZB_APS_GROUP_TABLE_SIZE :: nat where "ZB_APS_GROUP_TABLE_SIZE = 16"
definition ZB_APS_ENDPOINTS_IN_GROUP_TABLE :: nat where "ZB_APS_ENDPOINTS_IN_GROUP_TABLE = 8"

record aps_group =
  group_addr :: u16
  endpoints :: "u8 list"
  n_endpoints :: nat

record aps_group_table =
  groups :: "aps_group list"
  n_groups :: nat

definition group_table_zero :: aps_group_table where
  "group_table_zero = \<lparr>groups = replicate ZB_APS_GROUP_TABLE_SIZE
      \<lparr>group_addr = 0, endpoints = replicate ZB_APS_ENDPOINTS_IN_GROUP_TABLE 0, n_endpoints = 0\<rparr>, n_groups = 0\<rparr>"

text \<open>The result says whether there was room: \<open>False\<close> is \<^verbatim>\<open>ZB_APS_STATUS_TABLE_FULL\<close>.\<close>

definition add_endpoint :: "u8 \<Rightarrow> aps_group \<Rightarrow> bool \<times> aps_group" where
  "add_endpoint ep e =
     (if ep \<in> set (take (n_endpoints e) (endpoints e)) then (True, e)
      else if n_endpoints e < ZB_APS_ENDPOINTS_IN_GROUP_TABLE
      then (True, e\<lparr>endpoints := (endpoints e)[n_endpoints e := ep], n_endpoints := n_endpoints e + 1\<rparr>)
      else (False, e))"

definition zb_apsme_add_group_request :: "u16 \<Rightarrow> u8 \<Rightarrow> aps_group_table \<Rightarrow> bool \<times> aps_group_table" where
  "zb_apsme_add_group_request ga ep t =
     (case find (\<lambda>i. group_addr (groups t ! i) = ga) [0..<n_groups t] of
        Some i \<Rightarrow>
          (case add_endpoint ep (groups t ! i) of (ok, e) \<Rightarrow> (ok, t\<lparr>groups := (groups t)[i := e]\<rparr>))
      | None \<Rightarrow>
          (let i = n_groups t in
           if i < ZB_APS_GROUP_TABLE_SIZE then
             (True, t\<lparr>groups := (groups t)[i := (groups t ! i)\<lparr>group_addr := ga,
                        endpoints := (endpoints (groups t ! i))[0 := ep], n_endpoints := 1\<rparr>],
                      n_groups := i + 1\<rparr>)
           else (False, t)))"

end
