(* ===== verification/Aps_Bind_Lemmas.thy ===== *)
theory Aps_Bind_Lemmas
  imports Aps_Bind
begin

text \<open>
  What the binding table stands for: a list of pairs of a source and a destination. Its invariant, and how adding and
  removing act on the list.
\<close>

section \<open>Invariant and abstraction\<close>

lemmas bind_sizes = ZB_APS_SRC_BINDING_TABLE_SIZE_def ZB_APS_DST_BINDING_TABLE_SIZE_def

definition dsts :: "aps_binding \<Rightarrow> aps_bind_dst list" where
  "dsts t = take (dst_n_elements t) (dst_table t)"

definition srcs :: "aps_binding \<Rightarrow> aps_bind_src list" where
  "srcs t = take (src_n_elements t) (src_table t)"

definition bindings :: "aps_binding \<Rightarrow> (aps_bind_src \<times> aps_bind_addr) list" where
  "bindings t = map (\<lambda>e. (src_table t ! src_table_index e, dst_addr e)) (dsts t)"

definition table_sizes :: "aps_binding \<Rightarrow> bool" where
  "table_sizes t \<longleftrightarrow> length (src_table t) = ZB_APS_SRC_BINDING_TABLE_SIZE
     \<and> length (dst_table t) = ZB_APS_DST_BINDING_TABLE_SIZE
     \<and> src_n_elements t \<le> ZB_APS_SRC_BINDING_TABLE_SIZE \<and> dst_n_elements t \<le> ZB_APS_DST_BINDING_TABLE_SIZE"

text \<open>Every source has a destination and the other way round.\<close>

definition bind_inv :: "aps_binding \<Rightarrow> bool" where
  "bind_inv t \<longleftrightarrow> table_sizes t \<and> distinct (srcs t)
     \<and> src_table_index ` set (dsts t) = {..<src_n_elements t}"

lemma binding_zero_inv: "bind_inv binding_zero" "bindings binding_zero = []"
  by (simp_all add: bind_inv_def table_sizes_def binding_zero_def srcs_def dsts_def bindings_def)

lemma length_srcs: "table_sizes t \<Longrightarrow> length (srcs t) = src_n_elements t"
  by (simp add: srcs_def table_sizes_def)

lemma length_dsts: "table_sizes t \<Longrightarrow> length (dsts t) = dst_n_elements t"
  by (simp add: dsts_def table_sizes_def)

lemma set_srcs: "table_sizes t \<Longrightarrow> set (srcs t) = (!) (src_table t) ` {..<src_n_elements t}"
  by (simp add: srcs_def table_sizes_def nth_image [symmetric] lessThan_atLeast0)

lemma bind_inv_index: "bind_inv t \<Longrightarrow> e \<in> set (dsts t) \<Longrightarrow> src_table_index e < src_n_elements t"
  by (auto simp: bind_inv_def)

lemma bind_inv_empty: "bind_inv t \<Longrightarrow> src_n_elements t = 0 \<longleftrightarrow> dst_n_elements t = 0"
  using length_dsts [of t] by (auto simp: bind_inv_def lessThan_empty_iff)

section \<open>Searching\<close>

lemma find_src_spec:
  assumes "src_n_elements t \<le> ZB_APS_SRC_BINDING_TABLE_SIZE" "l < src_n_elements t"
  shows "find_src k l t = Some (case find (\<lambda>i. src_table t ! i = k) [l..<src_n_elements t] of None \<Rightarrow> NOT_FOUND | Some i \<Rightarrow> i)"
  using assms(2)
proof (induction "src_n_elements t - l" arbitrary: l)
  case (Suc n)
  have u: "[l..<src_n_elements t] = l # [Suc l..<src_n_elements t]" using Suc.prems by (simp add: upt_conv_Cons)
  show ?case
  proof (cases "Suc l < src_n_elements t")
    case True
    then show ?thesis using Suc.hyps(1) [of "Suc l"] Suc.hyps(2) Suc.prems assms(1)
      by (subst find_src.simps) (simp add: u)
  next
    case False
    then show ?thesis using Suc.prems assms(1) by (subst find_src.simps) (simp add: u)
  qed
qed simp

lemma find_src_cases:
  assumes inv: "bind_inv t" and n: "0 < src_n_elements t" and f: "find_src k 0 t = Some s"
  shows "s < src_n_elements t \<and> src_table t ! s = k \<or> s = NOT_FOUND \<and> k \<notin> set (srcs t)"
proof -
  have le: "src_n_elements t \<le> ZB_APS_SRC_BINDING_TABLE_SIZE" "length (src_table t) = ZB_APS_SRC_BINDING_TABLE_SIZE"
    using inv by (simp_all add: bind_inv_def table_sizes_def)
  have s: "s = (case find (\<lambda>i. src_table t ! i = k) [0..<src_n_elements t] of None \<Rightarrow> NOT_FOUND | Some i \<Rightarrow> i)"
    using find_src_spec [OF le(1) n, of k] f by simp
  show ?thesis
  proof (cases "find (\<lambda>i. src_table t ! i = k) [0..<src_n_elements t]")
    case None
    then have "\<forall>i < src_n_elements t. src_table t ! i \<noteq> k" by (simp add: find_None_iff)
    then have "k \<notin> set (srcs t)" by (auto simp: srcs_def in_set_conv_nth)
    with None s show ?thesis by simp
  next
    case (Some i)
    then have "i < src_n_elements t \<and> src_table t ! i = k" by (auto simp: find_Some_iff)
    with Some s show ?thesis by simp
  qed
qed

lemma find_src_total: "table_sizes t \<Longrightarrow> find_src k 0 t \<noteq> None"
  using find_src_spec [of t 0 k] by (cases "src_n_elements t = 0")
    (auto simp: table_sizes_def bind_sizes find_src.simps [of k 0 t])

section \<open>Adding\<close>

lemma take_Suc_update: "n < length xs \<Longrightarrow> take (Suc n) (xs[n := x]) = take n xs @ [x]"
  by (simp add: take_Suc_conv_app_nth)

lemma add_binding_spec:
  assumes inv: "bind_inv t" and d: "dst_n_elements t < ZB_APS_DST_BINDING_TABLE_SIZE"
    and s: "s < src_n_elements t \<and> src_table t ! s = src
      \<or> s = src_n_elements t \<and> s < ZB_APS_SRC_BINDING_TABLE_SIZE \<and> src \<notin> set (srcs t)"
  shows "bind_inv (add_binding s src dst t) \<and> bindings (add_binding s src dst t) = bindings t @ [(src, dst)]"
proof -
  let ?t = "add_binding s src dst t"
  have sz: "length (src_table t) = ZB_APS_SRC_BINDING_TABLE_SIZE" "length (dst_table t) = ZB_APS_DST_BINDING_TABLE_SIZE"
    "src_n_elements t \<le> ZB_APS_SRC_BINDING_TABLE_SIZE" "table_sizes t"
    using inv by (simp_all add: bind_inv_def table_sizes_def)
  have inc: "u8_inc (dst_n_elements t) = Suc (dst_n_elements t)"
    "s < ZB_APS_SRC_BINDING_TABLE_SIZE \<Longrightarrow> u8_inc s = Suc s"
    using d by (simp_all add: bind_sizes)
  have ds: "dsts ?t = dsts t @ [\<lparr>dst_addr = dst, src_table_index = s\<rparr>]"
    using d sz inc by (simp add: dsts_def add_binding_def Let_def take_Suc_update)
  have old: "e \<in> set (dsts t) \<Longrightarrow> src_table ?t ! src_table_index e = src_table t ! src_table_index e" for e
    using bind_inv_index [OF inv, of e] by (simp add: add_binding_def Let_def)
  have new: "src_table ?t ! s = src" using s sz by (auto simp: add_binding_def Let_def)
  have "srcs ?t = (if s = src_n_elements t then srcs t @ [src] else srcs t)"
    using s sz inc by (auto simp: srcs_def add_binding_def Let_def take_Suc_update)
  moreover have "src_n_elements ?t = (if s = src_n_elements t then Suc s else src_n_elements t)"
    using s inc by (auto simp: add_binding_def Let_def)
  moreover have "table_sizes ?t"
    using sz d s inc by (auto simp: table_sizes_def add_binding_def Let_def)
  moreover have "src_table_index ` set (dsts t) = {..<src_n_elements t}" "distinct (srcs t)"
    using inv by (simp_all add: bind_inv_def)
  ultimately have "bind_inv ?t" using s ds by (auto simp: bind_inv_def lessThan_Suc)
  moreover have "bindings ?t = bindings t @ [(src, dst)]" using ds old new by (simp add: bindings_def)
  ultimately show ?thesis by blast
qed

section \<open>Removing\<close>

lemma move_left_spec:
  assumes "length xs = sz" "n < sz" "d \<le> n"
  shows "\<exists>ys. move_left sz n d xs = Some ys \<and> length ys = sz \<and> take n ys = take d xs @ drop (Suc d) (take (Suc n) xs)
    \<and> (\<forall>i<n. ys ! i = xs ! (if i < d then i else Suc i))"
proof (cases "n = d")
  case True
  then show ?thesis using assms by (simp add: move_left_def)
next
  case False
  let ?ys = "memmove d (d + 1) (n - d) xs"
  have l: "length ?ys = sz" using assms False by simp
  have nth: "?ys ! i = xs ! (if i < d then i else Suc i)" if "i < n" for i
    using that assms False by (subst nth_memmove) auto
  have "take n ?ys = take d xs @ drop (Suc d) (take (Suc n) xs)"
    using assms False nth l by (intro nth_equalityI) (auto simp: nth_append min_def)
  with False assms l nth show ?thesis by (simp add: move_left_def)
qed

lemma remove_dst_spec:
  assumes "table_sizes t" "d < dst_n_elements t"
  shows "\<exists>t1. remove_dst s dst d found t =
      Some (found \<or> (\<exists>e\<in>set (drop d (dsts t)). src_table_index e = s \<and> e \<noteq> \<lparr>dst_addr = dst, src_table_index = s\<rparr>), t1)
    \<and> table_sizes t1 \<and> src_table t1 = src_table t \<and> src_n_elements t1 = src_n_elements t
    \<and> dsts t1 = take d (dsts t) @ filter (\<lambda>e. e \<noteq> \<lparr>dst_addr = dst, src_table_index = s\<rparr>) (drop d (dsts t))"
  using assms
proof (induction s dst d found t rule: remove_dst.induct)
  case (1 s dst d found t)
  let ?e = "\<lparr>dst_addr = dst, src_table_index = s\<rparr>"
  have sz: "length (dst_table t) = ZB_APS_DST_BINDING_TABLE_SIZE" "dst_n_elements t \<le> ZB_APS_DST_BINDING_TABLE_SIZE"
    using "1.prems" by (simp_all add: table_sizes_def)
  have d: "\<not> ZB_APS_DST_BINDING_TABLE_SIZE \<le> d" using "1.prems"(2) sz by simp
  have drop: "drop d (dsts t) = dst_table t ! d # drop (Suc d) (dsts t)"
    using "1.prems"(2) sz by (simp add: dsts_def Cons_nth_drop_Suc [symmetric])
  show ?case
  proof (cases "dst_table t ! d = ?e")
    case True
    let ?n = "dst_n_elements t - 1"
    have n: "u8_dec (dst_n_elements t) = ?n" using "1.prems"(2) by simp
    have b: "?n < ZB_APS_DST_BINDING_TABLE_SIZE" "d \<le> ?n" using "1.prems"(2) sz(2) by linarith+
    obtain ys where ys: "move_left ZB_APS_DST_BINDING_TABLE_SIZE ?n d (dst_table t) = Some ys"
        "length ys = ZB_APS_DST_BINDING_TABLE_SIZE" "take ?n ys = take d (dst_table t) @ drop (Suc d) (take (Suc ?n) (dst_table t))"
      using move_left_spec [OF sz(1) b] "1.prems"(2) by auto
    let ?t1 = "t\<lparr>dst_n_elements := ?n, dst_table := ys\<rparr>"
    have ds: "dsts ?t1 = take d (dsts t) @ drop (Suc d) (dsts t)"
      using ys(3) "1.prems"(2) by (simp add: dsts_def min_def)
    have t1: "table_sizes ?t1" using "1.prems" ys(2) b by (simp add: table_sizes_def)
    have r: "remove_dst s dst d found t = (if d < ?n then remove_dst s dst d found ?t1 else Some (found, ?t1))"
      using d True n ys(1) by (subst remove_dst.simps) (simp add: Let_def)
    show ?thesis
    proof (cases "d < ?n")
      case t: True
      have "drop d (dsts ?t1) = drop (Suc d) (dsts t)" "take d (dsts ?t1) = take d (dsts t)"
        using ds length_dsts [OF "1.prems"(1)] "1.prems"(2) by (simp_all add: drop_take)
      with "1.IH"(1) [OF d True n [symmetric] ys(1) refl t] t1 t r drop True show ?thesis by auto
    next
      case False
      then have "drop (Suc d) (dsts t) = []" using length_dsts [OF "1.prems"(1)] by simp
      with False r ds t1 drop True show ?thesis by simp
    qed
  next
    case ne: False
    let ?f = "found \<or> src_table_index (dst_table t ! d) = s"
    have r: "remove_dst s dst d found t = (if d + 1 < dst_n_elements t then remove_dst s dst (d + 1) ?f t else Some (?f, t))"
      using d ne by (subst remove_dst.simps) (simp add: Let_def)
    have take: "take (Suc d) (dsts t) = take d (dsts t) @ [dst_table t ! d]"
      using "1.prems"(2) sz by (simp add: take_Suc_conv_app_nth dsts_def)
    show ?thesis
    proof (cases "d + 1 < dst_n_elements t")
      case True
      with "1.IH"(2) [OF d ne refl True "1.prems"(1)] r drop ne take show ?thesis by auto
    next
      case False
      then have "drop (Suc d) (dsts t) = []" using length_dsts [OF "1.prems"(1)] by simp
      moreover have "dsts t = take d (dsts t) @ drop d (dsts t)" by simp
      ultimately show ?thesis using False r drop ne "1.prems"(1) by auto
    qed
  qed
qed

lemma remove_src_spec:
  assumes sz: "table_sizes t" "distinct (srcs t)" and s: "s < src_n_elements t"
    and ind: "src_table_index ` set (dsts t) = {..<src_n_elements t} - {s}"
  shows "\<exists>t1. remove_src s t = Some t1 \<and> bind_inv t1 \<and> bindings t1 = bindings t"
proof -
  let ?n = "src_n_elements t - 1"
  have l: "length (src_table t) = ZB_APS_SRC_BINDING_TABLE_SIZE" "src_n_elements t \<le> ZB_APS_SRC_BINDING_TABLE_SIZE"
    "length (dst_table t) = ZB_APS_DST_BINDING_TABLE_SIZE"
    using sz by (simp_all add: table_sizes_def)
  have b: "?n < ZB_APS_SRC_BINDING_TABLE_SIZE" "s \<le> ?n" using s l(2) by linarith+
  obtain ys where ys: "move_left ZB_APS_SRC_BINDING_TABLE_SIZE ?n s (src_table t) = Some ys"
      "length ys = ZB_APS_SRC_BINDING_TABLE_SIZE" "take ?n ys = take s (src_table t) @ drop (Suc s) (take (Suc ?n) (src_table t))"
      "\<And>i. i < ?n \<Longrightarrow> ys ! i = src_table t ! (if i < s then i else Suc i)"
    using move_left_spec [OF l(1) b] s by auto
  let ?t1 = "correct_indexes s (t\<lparr>src_n_elements := ?n, src_table := ys\<rparr>)"
  have r: "remove_src s t = Some ?t1" using ys(1) s by (simp add: remove_src_def Let_def)
  have ds: "dsts ?t1 = map (correct_index s) (dsts t)"
    by (cases "dst_n_elements t = 0") (simp_all add: dsts_def correct_indexes_def take_map max_def min_def l(3))
  have "srcs ?t1 = take s (srcs t) @ drop (Suc s) (srcs t)"
    using ys(3) s by (simp add: srcs_def correct_indexes_def min_def)
  moreover have "distinct (take s (srcs t) @ drop (Suc s) (srcs t))"
  proof -
    have e: "srcs t = take s (srcs t) @ srcs t ! s # drop (Suc s) (srcs t)"
      using s length_srcs [OF sz(1)] by (intro id_take_nth_drop) simp
    have "distinct (take s (srcs t) @ srcs t ! s # drop (Suc s) (srcs t))"
      using sz(2) by (simp only: e [symmetric])
    then show ?thesis by simp
  qed
  ultimately have "distinct (srcs ?t1)" by simp
  moreover have "table_sizes ?t1"
    using sz(1) ys(2) b by (auto simp: table_sizes_def correct_indexes_def max_def bind_sizes)
  moreover have "src_table_index ` set (dsts ?t1) = {..<?n}"
  proof -
    have c: "src_table_index (correct_index s e) = (if src_table_index e > s then src_table_index e - 1 else src_table_index e)" for e
      by (simp add: correct_index_def)
    have "src_table_index ` set (dsts ?t1) = (\<lambda>i. if i > s then i - 1 else i) ` (src_table_index ` set (dsts t))"
      by (simp only: ds set_map image_image c)
    also have "\<dots> = {..<?n}"
    proof -
      have "i \<in> (\<lambda>i. if i > s then i - 1 else i) ` ({..<src_n_elements t} - {s})" if "i < ?n" for i
        using that by (intro image_eqI [where x = "if i < s then i else Suc i"]) auto
      then show ?thesis using s unfolding ind by (auto split: if_split_asm)
    qed
    finally show ?thesis .
  qed
  moreover have "bindings ?t1 = bindings t"
  proof -
    have "src_table ?t1 ! src_table_index (correct_index s e) = src_table t ! src_table_index e
        \<and> dst_addr (correct_index s e) = dst_addr e" if "e \<in> set (dsts t)" for e
    proof -
      have "src_table_index e \<in> {..<src_n_elements t} - {s}" using that ind by blast
      then show ?thesis using ys(4) [of "src_table_index (correct_index s e)"] s
        by (auto simp: correct_index_def correct_indexes_def)
    qed
    then show ?thesis by (simp only: bindings_def ds map_map o_def cong: map_cong)
  qed
  ultimately show ?thesis using r by (simp add: bind_inv_def correct_indexes_def)
qed

lemma remove_binding_spec:
  assumes inv: "bind_inv t" and s: "s < src_n_elements t"
  shows "\<exists>t1. remove_binding s dst t = Some t1 \<and> bind_inv t1
    \<and> bindings t1 = filter (\<lambda>b. b \<noteq> (src_table t ! s, dst)) (bindings t)"
proof -
  let ?e = "\<lparr>dst_addr = dst, src_table_index = s\<rparr>"
  have sz: "table_sizes t" "distinct (srcs t)" and ind: "src_table_index ` set (dsts t) = {..<src_n_elements t}"
    using inv by (simp_all add: bind_inv_def)
  have n: "0 < dst_n_elements t" using bind_inv_empty [OF inv] s by auto
  obtain t1 where t1: "remove_dst s dst 0 False t =
      Some (\<exists>e\<in>set (dsts t). src_table_index e = s \<and> e \<noteq> ?e, t1)"
      "table_sizes t1" "src_table t1 = src_table t" "src_n_elements t1 = src_n_elements t"
      "dsts t1 = filter (\<lambda>e. e \<noteq> ?e) (dsts t)"
    using remove_dst_spec [OF sz(1) n, of s dst False] by auto
  have same: "(src_table t ! src_table_index e, dst_addr e) = (src_table t ! s, dst) \<longleftrightarrow> e = ?e" if "e \<in> set (dsts t)" for e
  proof -
    have "src_table_index e < src_n_elements t" using bind_inv_index [OF inv that] .
    then have "src_table t ! src_table_index e = src_table t ! s \<longleftrightarrow> src_table_index e = s"
      using sz(2) s length_srcs [OF sz(1)] nth_eq_iff_index_eq [OF sz(2), of "src_table_index e" s]
      by (simp add: srcs_def)
    then show ?thesis by (cases e) auto
  qed
  have "filter (\<lambda>e. e \<noteq> ?e) (dsts t) =
      filter (\<lambda>e. (src_table t ! src_table_index e, dst_addr e) \<noteq> (src_table t ! s, dst)) (dsts t)"
    using same by (intro filter_cong) auto
  then have b: "bindings t1 = filter (\<lambda>b. b \<noteq> (src_table t ! s, dst)) (bindings t)"
    by (simp add: bindings_def t1 filter_map o_def)
  have src: "srcs t1 = srcs t" using t1 by (simp add: srcs_def)
  show ?thesis
  proof (cases "\<exists>e\<in>set (dsts t). src_table_index e = s \<and> e \<noteq> ?e")
    case True
    then obtain e where e: "e \<in> set (dsts t)" "src_table_index e = s" "e \<noteq> ?e" by blast
    have "src_table_index x \<in> src_table_index ` set (dsts t1)" if "x \<in> set (dsts t)" for x
      using that e by (cases "x = ?e") (auto simp: t1(5) image_iff intro: bexI [of _ e])
    then have "src_table_index ` set (dsts t1) = src_table_index ` set (dsts t)" by (auto simp: t1(5))
    then have "bind_inv t1" using t1 sz src ind by (simp add: bind_inv_def)
    then show ?thesis using True t1(1) b by (simp add: remove_binding_def)
  next
    case False
    then have "src_table_index ` set (dsts t1) = src_table_index ` set (dsts t) - {s}"
      by (auto simp: t1(5) intro!: imageI)
    then have "src_table_index ` set (dsts t1) = {..<src_n_elements t} - {s}" using ind by simp
    then obtain t2 where "remove_src s t1 = Some t2" "bind_inv t2" "bindings t2 = bindings t1"
      using remove_src_spec [of t1 s] t1 sz s src by auto
    then show ?thesis using False t1(1) b by (auto simp: remove_binding_def)
  qed
qed

end
