(* ===== verification/Aps_Bind_Props.thy ===== *)
theory Aps_Bind_Props
  imports Aps_Bind_Lemmas
begin

text \<open>
  Properties of the binding and the group table: binding and unbinding implement operations on a list of
  pairs, except on an empty table, where the entries left in it are still taken for bindings; the group table is a bounded
  set of memberships.
\<close>

section \<open>Bindings as a list\<close>

definition req_src :: "nat \<Rightarrow> binding_req \<Rightarrow> aps_bind_src" where
  "req_src ref req = \<lparr>src_addr = ref, src_end = br_src_endpoint req, cluster_id = br_clusterid req\<rparr>"

text \<open>The two operations on a list of bindings.\<close>

definition abs_bind ::
  "binding_req \<Rightarrow> (aps_bind_src \<times> aps_bind_addr) list \<Rightarrow> zb_addr_globals \<Rightarrow>
     (bind_status \<times> (aps_bind_src \<times> aps_bind_addr) list \<times> zb_addr_globals) option" where
  "abs_bind req l g =
     (case zb_address_by_ieee (br_src_addr req) True False g of
        None \<Rightarrow> None
      | Some (ret, ref, g1) \<Rightarrow>
          if ret \<noteq> RET_OK then Some (Bind_ret ret, l, g1)
          else if length l < ZB_APS_DST_BINDING_TABLE_SIZE
              \<and> card (insert (req_src (the ref) req) (fst ` set l)) \<le> ZB_APS_SRC_BINDING_TABLE_SIZE
          then map_option (\<lambda>(ret, dst, g2).
                 (Bind_ret ret, if ret = RET_OK then l @ [(req_src (the ref) req, dst)] else l, g2))
               (request_dst req g1)
          else Some (ZDP_STATUS_TABLE_FULL, l, g1))"

definition abs_unbind ::
  "binding_req \<Rightarrow> (aps_bind_src \<times> aps_bind_addr) list \<Rightarrow> zb_addr_globals \<Rightarrow>
     (bind_status \<times> (aps_bind_src \<times> aps_bind_addr) list \<times> zb_addr_globals) option" where
  "abs_unbind req l g =
     (case zb_address_by_ieee (br_src_addr req) False False g of
        None \<Rightarrow> None
      | Some (ret, ref, g1) \<Rightarrow>
          if ret \<noteq> RET_OK then Some (Bind_ret RET_ILLEGAL_REQUEST, l, g1)
          else if req_src (the ref) req \<in> fst ` set l
          then map_option (\<lambda>(ret, dst, g2).
                 (Bind_ret ret, if ret = RET_OK then filter (\<lambda>b. b \<noteq> (req_src (the ref) req, dst)) l else l, g2))
               (request_dst req g1)
          else Some (Bind_ret RET_INVALID_BINDING, l, g1))"

lemma fst_bindings: "bind_inv t \<Longrightarrow> fst ` set (bindings t) = set (srcs t)"
proof -
  assume inv: "bind_inv t"
  have "fst ` set (bindings t) = (!) (src_table t) ` (src_table_index ` set (dsts t))"
    by (auto simp: bindings_def image_image)
  also have "\<dots> = (!) (src_table t) ` {..<src_n_elements t}" using inv by (simp add: bind_inv_def)
  also have "\<dots> = set (srcs t)"
    using inv by (simp add: bind_inv_def set_srcs)
  finally show ?thesis .
qed

lemma length_bindings: "bind_inv t \<Longrightarrow> length (bindings t) = dst_n_elements t"
  by (simp add: bindings_def length_dsts bind_inv_def)

lemma find_src_bind:
  assumes inv: "bind_inv t" and f: "find_src k 0 t = Some s0"
    and s: "s = (if s0 = NOT_FOUND then src_n_elements t else s0)"
  shows "s < src_n_elements t \<and> src_table t ! s = k \<or> s = src_n_elements t \<and> k \<notin> set (srcs t)"
proof (cases "src_n_elements t = 0")
  case True
  then have "s0 = 0 \<or> s0 = NOT_FOUND"
    using f by (subst (asm) find_src.simps) (auto split: if_split_asm)
  with True s show ?thesis by (auto simp: srcs_def)
next
  case False
  moreover have "src_n_elements t \<le> 32" using inv by (simp add: bind_inv_def table_sizes_def bind_sizes)
  ultimately show ?thesis using find_src_cases [OF inv _ f] s by (auto simp: NOT_FOUND_def)
qed

lemma insert_card:
  assumes inv: "bind_inv t"
    and s: "s < src_n_elements t \<and> src_table t ! s = k \<or> s = src_n_elements t \<and> k \<notin> set (srcs t)"
  shows "card (insert k (fst ` set (bindings t))) \<le> ZB_APS_SRC_BINDING_TABLE_SIZE \<longleftrightarrow> s < ZB_APS_SRC_BINDING_TABLE_SIZE"
proof -
  have c: "card (set (srcs t)) = src_n_elements t" and le: "src_n_elements t \<le> ZB_APS_SRC_BINDING_TABLE_SIZE"
    using inv length_srcs [of t] by (auto simp: bind_inv_def table_sizes_def distinct_card)
  have "k \<in> set (srcs t)" if "s < src_n_elements t" "src_table t ! s = k"
    using that inv by (auto simp: bind_inv_def set_srcs)
  then show ?thesis using s c le by (auto simp: fst_bindings [OF inv] insert_absorb)
qed

lemma bind_request_refines:
  assumes inv: "bind_inv t"
  shows "map_option (\<lambda>(st, t', g'). (st, bindings t', g')) (zb_apsme_bind_request req t g) = abs_bind req (bindings t) g"
    "zb_apsme_bind_request req t g = Some (st, t', g') \<Longrightarrow> bind_inv t'"
proof -
  have "map_option (\<lambda>(st, t', g'). (st, bindings t', g')) (zb_apsme_bind_request req t g) = abs_bind req (bindings t) g
    \<and> (\<forall>st t' g'. zb_apsme_bind_request req t g = Some (st, t', g') \<longrightarrow> bind_inv t')"
  proof (cases "zb_address_by_ieee (br_src_addr req) True False g")
    case None
    then show ?thesis by (simp add: zb_apsme_bind_request_def abs_bind_def)
  next
    case (Some r)
    obtain ret ref g1 where r: "r = (ret, ref, g1)" by (cases r)
    let ?k = "req_src (the ref) req"
    have sz: "table_sizes t" using inv by (simp add: bind_inv_def)
    obtain s0 where f: "find_src ?k 0 t = Some s0" using find_src_total [OF sz] by blast
    define s where "s = (if s0 = NOT_FOUND then src_n_elements t else s0)"
    note s = find_src_bind [OF inv f s_def]
    note c = insert_card [OF inv s]
    have k: "aps_find_src_ref (the ref) (br_src_endpoint req) (br_clusterid req) t = Some s0"
      "\<lparr>src_addr = the ref, src_end = br_src_endpoint req, cluster_id = br_clusterid req\<rparr> = ?k"
      using f by (simp_all add: aps_find_src_ref_def req_src_def)
    have add: "bind_inv (add_binding s ?k dst t)" "bindings (add_binding s ?k dst t) = bindings t @ [(?k, dst)]"
      if "s < ZB_APS_SRC_BINDING_TABLE_SIZE" "dst_n_elements t < ZB_APS_DST_BINDING_TABLE_SIZE" for dst
      using add_binding_spec [OF inv that(2), of s ?k dst] s that(1) by auto
    show ?thesis
    proof (cases "ret = RET_OK \<and> s < ZB_APS_SRC_BINDING_TABLE_SIZE \<and> dst_n_elements t < ZB_APS_DST_BINDING_TABLE_SIZE")
      case True
      then show ?thesis
        using Some r add by (simp add: zb_apsme_bind_request_def abs_bind_def k s_def [symmetric] c inv
            length_bindings [OF inv] Let_def split: option.split)
    next
      case False
      then show ?thesis
        using Some r by (auto simp: zb_apsme_bind_request_def abs_bind_def k s_def [symmetric] c inv
            length_bindings [OF inv] Let_def)
    qed
  qed
  then show "map_option (\<lambda>(st, t', g'). (st, bindings t', g')) (zb_apsme_bind_request req t g) = abs_bind req (bindings t) g"
    "zb_apsme_bind_request req t g = Some (st, t', g') \<Longrightarrow> bind_inv t'" by blast+
qed

lemma unbind_request_refines:
  assumes inv: "bind_inv t" and ne: "bindings t \<noteq> []"
  shows "map_option (\<lambda>(st, t', g'). (st, bindings t', g')) (zb_apsme_unbind_request req t g) = abs_unbind req (bindings t) g"
    "zb_apsme_unbind_request req t g = Some (st, t', g') \<Longrightarrow> bind_inv t'"
proof -
  have n: "0 < src_n_elements t" using ne length_bindings [OF inv] bind_inv_empty [OF inv] by auto
  have "map_option (\<lambda>(st, t', g'). (st, bindings t', g')) (zb_apsme_unbind_request req t g) = abs_unbind req (bindings t) g
    \<and> (\<forall>st t' g'. zb_apsme_unbind_request req t g = Some (st, t', g') \<longrightarrow> bind_inv t')"
  proof (cases "zb_address_by_ieee (br_src_addr req) False False g")
    case None
    then show ?thesis by (simp add: zb_apsme_unbind_request_def abs_unbind_def)
  next
    case (Some r)
    obtain ret ref g1 where r: "r = (ret, ref, g1)" by (cases r)
    let ?k = "req_src (the ref) req"
    have sz: "table_sizes t" using inv by (simp add: bind_inv_def)
    obtain s where f: "find_src ?k 0 t = Some s" using find_src_total [OF sz] by blast
    have k: "aps_find_src_ref (the ref) (br_src_endpoint req) (br_clusterid req) t = Some s"
      using f by (simp add: aps_find_src_ref_def req_src_def)
    consider (found) "s < src_n_elements t" "src_table t ! s = ?k" "s \<noteq> NOT_FOUND" "?k \<in> set (srcs t)"
      | (absent) "s = NOT_FOUND" "?k \<notin> set (srcs t)"
    proof -
      have "src_n_elements t \<le> 32" using sz by (simp add: table_sizes_def bind_sizes)
      moreover have "src_table t ! s \<in> set (srcs t)" if "s < src_n_elements t"
        using that by (simp add: set_srcs [OF sz])
      then have "?k \<in> set (srcs t)" if "s < src_n_elements t" "src_table t ! s = ?k" using that by metis
      ultimately show ?thesis using find_src_cases [OF inv n f] that by (auto simp: NOT_FOUND_def)
    qed
    then show ?thesis
    proof cases
      case found
      have rem: "\<exists>t1. remove_binding s dst t = Some t1 \<and> bind_inv t1 \<and> bindings t1 = filter (\<lambda>b. b \<noteq> (?k, dst)) (bindings t)" for dst
        using remove_binding_spec [OF inv found(1), of dst] found(2) by simp
      show ?thesis
      proof (cases "request_dst req g1")
        case None
        then show ?thesis using Some r found
          by (simp add: zb_apsme_unbind_request_def abs_unbind_def k fst_bindings [OF inv] inv)
      next
        case d: (Some x)
        obtain ret2 dst g2 where x: "x = (ret2, dst, g2)" by (cases x)
        obtain t1 where "remove_binding s dst t = Some t1" "bind_inv t1" "bindings t1 = filter (\<lambda>b. b \<noteq> (?k, dst)) (bindings t)"
          using rem by blast
        then show ?thesis using Some r found d x
          by (simp add: zb_apsme_unbind_request_def abs_unbind_def k fst_bindings [OF inv] inv)
      qed
    next
      case absent
      then show ?thesis using Some r
        by (simp add: zb_apsme_unbind_request_def abs_unbind_def k fst_bindings [OF inv] inv)
    qed
  qed
  then show "map_option (\<lambda>(st, t', g'). (st, bindings t', g')) (zb_apsme_unbind_request req t g) = abs_unbind req (bindings t) g"
    "zb_apsme_unbind_request req t g = Some (st, t', g') \<Longrightarrow> bind_inv t'" by blast+
qed

section \<open>Histories\<close>

datatype bind_op =
    Op_bind binding_req
  | Op_unbind binding_req

fun bind_step :: "bind_op \<Rightarrow> aps_binding \<times> zb_addr_globals \<Rightarrow> (bind_status \<times> aps_binding \<times> zb_addr_globals) option" where
  "bind_step (Op_bind req) (t, g) = zb_apsme_bind_request req t g"
| "bind_step (Op_unbind req) (t, g) = zb_apsme_unbind_request req t g"

fun abs_step ::
  "bind_op \<Rightarrow> (aps_bind_src \<times> aps_bind_addr) list \<times> zb_addr_globals \<Rightarrow>
     (bind_status \<times> (aps_bind_src \<times> aps_bind_addr) list \<times> zb_addr_globals) option" where
  "abs_step (Op_bind req) (l, g) = abs_bind req l g"
| "abs_step (Op_unbind req) (l, g) = abs_unbind req l g"

text \<open>A history on the tables with the states it reports, and whether it never unbinds on an empty table.\<close>

fun run_ops :: "('s \<Rightarrow> (bind_status \<times> 's) option) list \<Rightarrow> 's \<Rightarrow> (bind_status list \<times> 's) option" where
  "run_ops [] s = Some ([], s)"
| "run_ops (f # fs) s =
     (case f s of None \<Rightarrow> None | Some (st, s1) \<Rightarrow> map_option (\<lambda>(sts, s2). (st # sts, s2)) (run_ops fs s1))"

fun never_empty_unbind :: "bind_op list \<Rightarrow> (aps_bind_src \<times> aps_bind_addr) list \<times> zb_addr_globals \<Rightarrow> bool" where
  "never_empty_unbind [] s \<longleftrightarrow> True"
| "never_empty_unbind (p # ps) s \<longleftrightarrow>
     (case p of Op_bind _ \<Rightarrow> True | Op_unbind _ \<Rightarrow> fst s \<noteq> [])
     \<and> (case abs_step p s of None \<Rightarrow> True | Some (_, s1) \<Rightarrow> never_empty_unbind ps s1)"

abbreviation abs_state :: "aps_binding \<times> zb_addr_globals \<Rightarrow> (aps_bind_src \<times> aps_bind_addr) list \<times> zb_addr_globals" where
  "abs_state s \<equiv> (bindings (fst s), snd s)"

lemma bind_step_refines:
  assumes inv: "bind_inv (fst s)" and ne: "case p of Op_bind _ \<Rightarrow> True | Op_unbind _ \<Rightarrow> bindings (fst s) \<noteq> []"
  shows "map_option (\<lambda>(st, s'). (st, abs_state s')) (bind_step p s) = abs_step p (abs_state s)"
    "bind_step p s = Some (st, s') \<Longrightarrow> bind_inv (fst s')"
proof -
  obtain t g where s: "s = (t, g)" by force
  have f: "(\<lambda>(st, s'). (st, abs_state s')) = (\<lambda>(st, t', g'). (st, bindings t', g'))" by auto
  have "map_option (\<lambda>(st, t', g'). (st, bindings t', g')) (bind_step p s) = abs_step p (abs_state s)
      \<and> (\<forall>st t' g'. bind_step p s = Some (st, t', g') \<longrightarrow> bind_inv t')"
  proof (cases p)
    case (Op_bind req)
    then show ?thesis using bind_request_refines [of t req g] inv by (simp add: s)
  next
    case (Op_unbind req)
    then show ?thesis using unbind_request_refines [of t req g] inv ne by (simp add: s)
  qed
  then show "map_option (\<lambda>(st, s'). (st, abs_state s')) (bind_step p s) = abs_step p (abs_state s)"
    "bind_step p s = Some (st, s') \<Longrightarrow> bind_inv (fst s')" unfolding f by (simp, cases s', simp)
qed


text \<open>
  Unbinding the last binding leaves it in the tables: a frame of its source is still sent to it, and
  unbinding it once more writes behind the end of the table.
\<close>

theorem last_binding_lives_on:
  assumes inv: "bind_inv t" and one: "bindings t = [(src, Bind_dst_long r e)]"
    and removed: "remove_binding 0 (Bind_dst_long r e) t = Some t1"
  shows "bindings t1 = [] \<and> find_src src 0 t1 = Some 0 \<and> remove_binding 0 (Bind_dst_long r e) t1 = None
    \<and> (\<forall>own g g1. zb_address_by_short own False False g = Some (RET_OK, Some (src_addr src), g1) \<longrightarrow>
         zb_search_dst_in_binding_table own (src_end src) (cluster_id src) t1 g = Some (Some (r, e), g1))"
proof -
  let ?d = "Bind_dst_long r e"
  have d: "dst_n_elements t = 1" using length_bindings [OF inv] one by simp
  have sz: "length (src_table t) = 32" "length (dst_table t) = 32" "table_sizes t"
    using inv by (simp_all add: bind_inv_def table_sizes_def bind_sizes)
  have ds: "dsts t = [dst_table t ! 0]" using d sz by (simp add: dsts_def take_Suc_conv_app_nth)
  then have h: "{src_table_index (dst_table t ! 0)} = {..<src_n_elements t}" using inv by (simp add: bind_inv_def)
  have n: "src_n_elements t = 1" using arg_cong [OF h, of card] by simp
  have "src_table_index (dst_table t ! 0) \<in> {..<src_n_elements t}" using h by blast
  then have i: "src_table_index (dst_table t ! 0) = 0" using n by simp
  have e: "dst_table t ! 0 = \<lparr>dst_addr = ?d, src_table_index = 0\<rparr>" "src_table t ! 0 = src"
    using one ds i by (simp_all add: bindings_def)
  have m: "move_left n 0 0 xs = Some xs" "move_left 32 255 0 xs = None" for n and xs :: "'x list"
    by (simp_all add: move_left_def)
  define t0 where "t0 = t\<lparr>dst_n_elements := 0, src_n_elements := 0\<rparr>"
  have r1: "remove_dst 0 ?d 0 False t = Some (False, t\<lparr>dst_n_elements := 0\<rparr>)"
    using e d by (subst remove_dst.simps) (simp add: m bind_sizes)
  have "take (Suc 0) (dst_table t) = [dst_table t ! 0]" using sz by (simp add: take_Suc_conv_app_nth)
  then have "map (correct_index 0) (take (Suc 0) (dst_table t)) @ drop (Suc 0) (dst_table t) = dst_table t"
    using e append_take_drop_id [of "Suc 0" "dst_table t"] by (simp add: correct_index_def)
  then have r2: "remove_src 0 (t\<lparr>dst_n_elements := 0\<rparr>) = Some t0"
    using n by (simp add: remove_src_def correct_indexes_def m t0_def)
  have t1: "t1 = t0" using removed r1 r2 by (simp add: remove_binding_def)
  have f: "find_src src 0 t0 = Some 0" using e by (subst find_src.simps) (simp add: t0_def bind_sizes)
  have g: "first_dst 0 0 t0 = Some (Some ?d)" using e by (subst first_dst.simps) (simp add: t0_def bind_sizes)
  have "remove_dst 0 ?d 0 False t0 = None"
    using e by (subst remove_dst.simps) (simp add: m bind_sizes t0_def u8_dec_def)
  then have "remove_binding 0 ?d t0 = None" by (simp add: remove_binding_def)
  moreover have "bindings t0 = []" by (simp add: bindings_def dsts_def t0_def)
  moreover have "zb_search_dst_in_binding_table own (src_end src) (cluster_id src) t0 g = Some (Some (r, e), g1)"
    if "zb_address_by_short own False False g = Some (RET_OK, Some (src_addr src), g1)" for own g g1
  proof -
    have "find_src \<lparr>src_addr = src_addr src, src_end = src_end src, cluster_id = cluster_id src\<rparr> 0 t0 = Some 0"
      using f by (cases src) simp
    then show ?thesis using that g
      by (simp add: zb_search_dst_in_binding_table_def aps_find_src_ref_def NOT_FOUND_def)
  qed
  ultimately show ?thesis using f by (simp add: t1)
qed

lemma by_ieee_create: "\<exists>ref g. zb_address_by_ieee sample_ieee True False addr_zero = Some (RET_OK, Some ref, g)"
proof -
  have "\<exists>i<ZB_IEEE_ADDR_TABLE_SIZE. \<not> am_used (addr_map addr_one ! i)"
    using addr_one_inv(3) by (intro exI [of _ 0]) (auto simp: used_refs_def ZB_IEEE_ADDR_TABLE_SIZE_def)
  from addr_add_inv [OF addr_one_inv(1) this, of "Some sample_compressed" ZB_UNKNOWN_SHORT_ADDR] show ?thesis
    by (auto simp: zb_address_by_ieee_def compress_samples search_empty [OF addr_one_inv(1,3)] lock_if_def)
qed

definition sample_req :: binding_req where
  "sample_req = \<lparr>br_src_addr = sample_ieee, br_src_endpoint = 1, br_clusterid = 6,
     br_addr_mode = MODE_16_GROUP_ENDP_NOT_PRESENT, br_dst_long = [], br_dst_group = 7, br_dst_endpoint = 0\<rparr>"


theorem last_binding_lives_on_witness:
  "\<exists>t1. remove_binding 0 (Bind_dst_long 3 9) (add_binding 0 \<lparr>src_addr = 5, src_end = 1, cluster_id = 6\<rparr> (Bind_dst_long 3 9) binding_zero)
       = Some t1 \<and> bindings t1 = [] \<and> remove_binding 0 (Bind_dst_long 3 9) t1 = None"
proof -
  let ?src = "\<lparr>src_addr = 5, src_end = 1, cluster_id = 6\<rparr>" and ?d = "Bind_dst_long 3 9"
  let ?t = "add_binding 0 ?src ?d binding_zero"
  have t: "bind_inv ?t \<and> bindings ?t = [(?src, ?d)]"
    using add_binding_spec [OF binding_zero_inv(1), of 0 ?src ?d]
    by (simp add: binding_zero_inv srcs_def) (simp add: binding_zero_def bind_sizes)
  have "0 < src_n_elements ?t" by (simp add: add_binding_def binding_zero_def)
  then obtain t1 where "remove_binding 0 ?d ?t = Some t1" using remove_binding_spec t by blast
  with last_binding_lives_on [of ?t ?src 3 9 t1] t show ?thesis by auto
qed

section \<open>Groups\<close>

lemmas group_sizes = ZB_APS_GROUP_TABLE_SIZE_def ZB_APS_ENDPOINTS_IN_GROUP_TABLE_def

definition members :: "aps_group \<Rightarrow> u8 set" where
  "members e = set (take (n_endpoints e) (endpoints e))"

text \<open>The pairs of a group and an endpoint, and the groups.\<close>

definition memberships :: "aps_group_table \<Rightarrow> (u16 \<times> u8) set" where
  "memberships t = (\<Union>e\<in>set (take (n_groups t) (groups t)). Pair (group_addr e) ` members e)"

definition group_inv :: "aps_group_table \<Rightarrow> bool" where
  "group_inv t \<longleftrightarrow> length (groups t) = ZB_APS_GROUP_TABLE_SIZE \<and> n_groups t \<le> ZB_APS_GROUP_TABLE_SIZE
     \<and> (\<forall>e\<in>set (groups t). length (endpoints e) = ZB_APS_ENDPOINTS_IN_GROUP_TABLE)
     \<and> (\<forall>e\<in>set (take (n_groups t) (groups t)). 0 < n_endpoints e \<and> n_endpoints e \<le> ZB_APS_ENDPOINTS_IN_GROUP_TABLE
          \<and> distinct (take (n_endpoints e) (endpoints e)))
     \<and> distinct (map group_addr (take (n_groups t) (groups t)))"

abbreviation has_group :: "u16 \<Rightarrow> aps_group_table \<Rightarrow> bool" where
  "has_group ga t \<equiv> ga \<in> fst ` memberships t"

abbreviation eps_of :: "u16 \<Rightarrow> aps_group_table \<Rightarrow> u8 set" where
  "eps_of ga t \<equiv> {ep. (ga, ep) \<in> memberships t}"

lemma add_endpoint_spec:
  assumes "length (endpoints e) = ZB_APS_ENDPOINTS_IN_GROUP_TABLE" "0 < n_endpoints e"
    "n_endpoints e \<le> ZB_APS_ENDPOINTS_IN_GROUP_TABLE" "distinct (take (n_endpoints e) (endpoints e))"
    and r: "add_endpoint ep e = (ok, e')"
  shows "group_addr e' = group_addr e \<and> length (endpoints e') = ZB_APS_ENDPOINTS_IN_GROUP_TABLE \<and> 0 < n_endpoints e'
    \<and> n_endpoints e' \<le> ZB_APS_ENDPOINTS_IN_GROUP_TABLE \<and> distinct (take (n_endpoints e') (endpoints e'))
    \<and> members e' = (if ok then insert ep (members e) else members e)
    \<and> (ok \<longleftrightarrow> ep \<in> members e \<or> card (members e) < ZB_APS_ENDPOINTS_IN_GROUP_TABLE)"
proof -
  have c: "card (members e) = n_endpoints e" using assms(1,3,4) by (simp add: members_def distinct_card)
  have "take (Suc n) (xs[n := x]) = take n xs @ [x]" if "n < length xs" for n and x :: u8 and xs
    using that by (simp add: take_Suc_conv_app_nth)
  then show ?thesis
    using assms c by (auto simp: add_endpoint_def members_def split: if_split_asm)
qed

lemma distinct_names: "distinct (map f xs) \<Longrightarrow> x \<in> set xs \<Longrightarrow> y \<in> set xs \<Longrightarrow> f x = f y \<Longrightarrow> x = y"
  by (auto simp: distinct_map dest: inj_onD)

text \<open>Replacing the group at an index by one with the same address.\<close>

lemma replace_group:
  assumes inv: "group_inv t" and i: "i < n_groups t" and ga: "group_addr e' = group_addr (groups t ! i)"
    and e: "length (endpoints e') = ZB_APS_ENDPOINTS_IN_GROUP_TABLE" "0 < n_endpoints e'"
      "n_endpoints e' \<le> ZB_APS_ENDPOINTS_IN_GROUP_TABLE" "distinct (take (n_endpoints e') (endpoints e'))"
  shows "group_inv (t\<lparr>groups := (groups t)[i := e']\<rparr>)"
    "members e' = (if ok then insert ep (members (groups t ! i)) else members (groups t ! i)) \<Longrightarrow>
     memberships (t\<lparr>groups := (groups t)[i := e']\<rparr>) =
       (if ok then insert (group_addr e', ep) (memberships t) else memberships t)"
proof -
  let ?xs = "take (n_groups t) (groups t)"
  have l: "length (groups t) = ZB_APS_GROUP_TABLE_SIZE" "n_groups t \<le> length (groups t)"
    using inv by (simp_all add: group_inv_def)
  have u: "take (n_groups t) ((groups t)[i := e']) = ?xs[i := e']" by (simp add: take_update_swap)
  have m: "map group_addr (?xs[i := e']) = map group_addr ?xs"
    using i l ga by (simp add: map_update list_update_same_conv)
  have s: "set ((groups t)[i := e']) \<subseteq> insert e' (set (groups t))" "set (?xs[i := e']) \<subseteq> insert e' (set ?xs)"
    by (rule set_update_subset_insert)+
  show "group_inv (t\<lparr>groups := (groups t)[i := e']\<rparr>)"
    using inv e s unfolding group_inv_def by (auto simp: u m [simplified])
  have old: "groups t ! i \<in> set ?xs" using i l by (auto simp: in_set_conv_nth)
  define Z where "Z = set ?xs - {groups t ! i}"
  have d: "distinct ?xs" using inv by (simp add: group_inv_def distinct_map)
  have "i < length ?xs" using i l by simp
  then have S: "set (?xs[i := e']) = insert e' Z" using set_update_distinct [OF d, of i e'] i by (simp add: Z_def)
  have Y: "set ?xs = insert (groups t ! i) Z" using old by (auto simp: Z_def)
  show "memberships (t\<lparr>groups := (groups t)[i := e']\<rparr>) =
      (if ok then insert (group_addr e', ep) (memberships t) else memberships t)"
    if "members e' = (if ok then insert ep (members (groups t ! i)) else members (groups t ! i))"
    using that ga by (simp add: memberships_def u S Y)
qed

lemma no_group:
  assumes l: "n_groups t \<le> length (groups t)"
    and f: "find (\<lambda>i. group_addr (groups t ! i) = ga) [0..<n_groups t] = None" and e: "e \<in> set (take (n_groups t) (groups t))"
  shows "group_addr e \<noteq> ga"
proof -
  obtain i where "i < n_groups t" "e = groups t ! i" using e l by (auto simp: in_set_conv_nth)
  then show ?thesis using f by (simp add: find_None_iff)
qed

lemma find_group:
  assumes inv: "group_inv t" and f: "find (\<lambda>i. group_addr (groups t ! i) = ga) [0..<n_groups t] = r"
  shows "case r of
      Some i \<Rightarrow> i < n_groups t \<and> group_addr (groups t ! i) = ga \<and> has_group ga t \<and> eps_of ga t = members (groups t ! i)
    | None \<Rightarrow> \<not> has_group ga t"
proof -
  let ?xs = "take (n_groups t) (groups t)"
  have l: "n_groups t \<le> length (groups t)" using inv by (simp add: group_inv_def)
  show ?thesis
  proof (cases r)
    case None
    then have "\<forall>e\<in>set ?xs. group_addr e \<noteq> ga" using no_group [OF l, of ga] f by blast
    with None show ?thesis by (auto simp: memberships_def)
  next
    case (Some i)
    then have i: "i < n_groups t" "group_addr (groups t ! i) = ga" using f by (auto simp: find_Some_iff)
    then have x: "groups t ! i \<in> set ?xs" using l by (auto simp: in_set_conv_nth)
    have d: "distinct (map group_addr ?xs)" using inv by (simp add: group_inv_def)
    have u: "e = groups t ! i" if "e \<in> set ?xs" "group_addr e = ga" for e
      using distinct_names [OF d that(1) x] that(2) i(2) by simp
    have "(ga, ep) \<in> memberships t \<longleftrightarrow> (\<exists>e\<in>set ?xs. group_addr e = ga \<and> ep \<in> members e)" for ep
      by (auto simp: memberships_def)
    also have "(\<exists>e\<in>set ?xs. group_addr e = ga \<and> ep \<in> members e) \<longleftrightarrow> ep \<in> members (groups t ! i)" for ep
      using u x i(2) by metis
    finally have "eps_of ga t = members (groups t ! i)" by simp
    moreover have "members (groups t ! i) \<noteq> {}"
    proof -
      have "0 < n_endpoints (groups t ! i)" "groups t ! i \<in> set (groups t)"
        using inv x in_set_takeD [OF x] by (auto simp: group_inv_def)
      moreover from this have "0 < length (endpoints (groups t ! i))" using inv by (simp add: group_inv_def group_sizes)
      ultimately show ?thesis by (simp add: members_def)
    qed
    ultimately obtain ep where "(ga, ep) \<in> memberships t" by auto
    then have "has_group ga t" by (rule image_eqI [rotated]) simp
    with Some i \<open>eps_of ga t = members (groups t ! i)\<close> show ?thesis by simp
  qed
qed

text \<open>
  Adding an endpoint to a group adds exactly this membership and no other, and keeps the table well-formed; it
  is refused exactly if the group has eight other endpoints, or is new and there are sixteen groups, and
  then nothing changes.
\<close>

theorem add_group_adds_one_membership:
  assumes inv: "group_inv t" and r: "zb_apsme_add_group_request ga ep t = (ok, t')"
  shows "group_inv t' \<and> memberships t' = (if ok then insert (ga, ep) (memberships t) else memberships t)
    \<and> (ok \<longleftrightarrow> (if has_group ga t then ep \<in> eps_of ga t \<or> card (eps_of ga t) < ZB_APS_ENDPOINTS_IN_GROUP_TABLE
               else n_groups t < ZB_APS_GROUP_TABLE_SIZE))"
proof (cases "find (\<lambda>i. group_addr (groups t ! i) = ga) [0..<n_groups t]")
  case (Some i)
  have i: "i < n_groups t" "group_addr (groups t ! i) = ga" "has_group ga t" "eps_of ga t = members (groups t ! i)"
    using find_group [OF inv Some] by simp_all
  obtain e' where a: "add_endpoint ep (groups t ! i) = (ok, e')" "t' = t\<lparr>groups := (groups t)[i := e']\<rparr>"
    using r Some by (auto simp: zb_apsme_add_group_request_def split: prod.split_asm)
  have l: "n_groups t \<le> length (groups t)" using inv by (simp add: group_inv_def)
  have "groups t ! i \<in> set (groups t)" using i(1) l by simp
  moreover have "groups t ! i \<in> set (take (n_groups t) (groups t))" using i(1) l by (auto simp: in_set_conv_nth)
  ultimately have "length (endpoints (groups t ! i)) = ZB_APS_ENDPOINTS_IN_GROUP_TABLE" "0 < n_endpoints (groups t ! i)"
    "n_endpoints (groups t ! i) \<le> ZB_APS_ENDPOINTS_IN_GROUP_TABLE"
    "distinct (take (n_endpoints (groups t ! i)) (endpoints (groups t ! i)))"
    using inv by (auto simp: group_inv_def)
  note e = add_endpoint_spec [OF this a(1)]
  have "group_inv t'" "memberships t' = (if ok then insert (group_addr e', ep) (memberships t) else memberships t)"
    using replace_group [OF inv i(1), of e'] e a(2) by simp_all
  with e i show ?thesis by simp
next
  case None
  have no: "\<not> has_group ga t" using find_group [OF inv None] by simp
  let ?n = "n_groups t" let ?xs = "take ?n (groups t)"
  have l: "length (groups t) = ZB_APS_GROUP_TABLE_SIZE" "?n \<le> length (groups t)" using inv by (simp_all add: group_inv_def)
  show ?thesis
  proof (cases "?n < ZB_APS_GROUP_TABLE_SIZE")
    case False
    then show ?thesis using r None no inv by (simp add: zb_apsme_add_group_request_def Let_def)
  next
    case True
    define e0 where "e0 = (groups t ! ?n)\<lparr>group_addr := ga, endpoints := (endpoints (groups t ! ?n))[0 := ep], n_endpoints := 1\<rparr>"
    have t': "ok" "t' = t\<lparr>groups := (groups t)[?n := e0], n_groups := Suc ?n\<rparr>"
      using r None True by (simp_all add: zb_apsme_add_group_request_def Let_def e0_def)
    have xs: "take (Suc ?n) ((groups t)[?n := e0]) = ?xs @ [e0]" using True l by (simp add: take_Suc_conv_app_nth)
    have "groups t ! ?n \<in> set (groups t)" using True l by simp
    then have le: "length (endpoints (groups t ! ?n)) = ZB_APS_ENDPOINTS_IN_GROUP_TABLE" using inv by (simp add: group_inv_def)
    have m: "take (n_endpoints e0) (endpoints e0) = [ep]" "group_addr e0 = ga" "n_endpoints e0 = 1"
      "length (endpoints e0) = ZB_APS_ENDPOINTS_IN_GROUP_TABLE"
      using le by (simp_all add: e0_def take_Suc_conv_app_nth group_sizes)
    have s: "set ((groups t)[?n := e0]) \<subseteq> insert e0 (set (groups t))" by (rule set_update_subset_insert)
    have "group_addr e \<noteq> ga" if "e \<in> set ?xs" for e
      using that by (rule no_group [OF l(2) None])
    then have "ga \<notin> group_addr ` set ?xs" by auto
    moreover have "\<forall>e\<in>set ((groups t)[?n := e0]). length (endpoints e) = ZB_APS_ENDPOINTS_IN_GROUP_TABLE"
      using s m(4) inv by (auto simp: group_inv_def)
    ultimately have "group_inv t'"
      using inv True m unfolding group_inv_def t'(2) by (auto simp: xs group_sizes)
    moreover have "memberships t' = insert (ga, ep) (memberships t)"
      using m by (simp add: memberships_def t' xs members_def)
    ultimately show ?thesis using t' no True by simp
  qed
qed

theorem add_group_adds_one_membership_witness:
  "\<exists>t'. zb_apsme_add_group_request 7 10 group_table_zero = (True, t') \<and> memberships t' = {(7, 10)}"
proof -
  have "group_inv group_table_zero" by (auto simp: group_inv_def group_table_zero_def)
  moreover obtain ok t' where r: "zb_apsme_add_group_request 7 10 group_table_zero = (ok, t')" by force
  ultimately have a: "memberships t' = (if ok then insert (7, 10) (memberships group_table_zero) else memberships group_table_zero)
      \<and> (ok \<longleftrightarrow> (if has_group 7 group_table_zero
            then 10 \<in> eps_of 7 group_table_zero \<or> card (eps_of 7 group_table_zero) < ZB_APS_ENDPOINTS_IN_GROUP_TABLE
            else n_groups group_table_zero < ZB_APS_GROUP_TABLE_SIZE))"
    using add_group_adds_one_membership [of group_table_zero 7 10 ok t'] by blast
  have z: "memberships group_table_zero = {}" "n_groups group_table_zero < ZB_APS_GROUP_TABLE_SIZE"
    by (simp_all add: memberships_def group_table_zero_def group_sizes)
  have ok using a z by simp
  with a r z show ?thesis by simp
qed

end
