(* ===== verification/Aps_Dups.thy ===== *)
theory Aps_Dups
  imports Scheduler_Props Address_Props
begin

text \<open>
  Detection of repeated frames, \<^verbatim>\<open>aps/aps_dups.c\<close>: the address translation keeps the last counter of every
  device and a clock of two bits that an alarm counts down. The functions work on the address translation, the
  scheduler and the flag that the alarm is set; the callback of the alarm is \<open>cb\<close>.
\<close>

definition ZB_APS_DUP_CHECK_TIMEOUT :: zb_time where
  "ZB_APS_DUP_CHECK_TIMEOUT = of_nat (zb_milliseconds_to_beacon_interval 1000)"

record 'f dup_ctx =
  dc_addr :: zb_addr_globals
  dc_sched :: "'f zb_sched"
  dups_alarm_running :: bool

text \<open>The result of \<^verbatim>\<open>ZB_SCHEDULE_ALARM\<close> is not looked at.\<close>

definition start_dup_alarm :: "'f \<Rightarrow> 'f dup_ctx \<Rightarrow> 'f dup_ctx option" where
  "start_dup_alarm cb s =
     map_option (\<lambda>(ret, sch). s\<lparr>dc_sched := sch\<rparr>)
       (zb_schedule_alarm cb 0 ZB_APS_DUP_CHECK_TIMEOUT (dc_sched s))"

definition set_dup :: "nat \<Rightarrow> u8 \<Rightarrow> zb_addr_globals \<Rightarrow> zb_addr_globals" where
  "set_dup ref counter g = upd_ent ref (\<lambda>e. e\<lparr>aps_dup_counter := counter, aps_dup_clock := 3\<rparr>) g"

definition aps_check_dups :: "'f \<Rightarrow> u16 \<Rightarrow> u8 \<Rightarrow> 'f dup_ctx \<Rightarrow> (bool \<times> 'f dup_ctx) option" where
  "aps_check_dups cb src counter s =
     (case zb_address_by_short src True False (dc_addr s) of
        None \<Rightarrow> None
      | Some (ret, ref, g) \<Rightarrow>
          (let s1 = s\<lparr>dc_addr := g\<rparr> in
           if ret = RET_OK then
             (let e = addr_map g ! the ref;
                  dup = (aps_dup_clock e \<noteq> 0 \<and> aps_dup_counter e = counter);
                  s2 = s1\<lparr>dc_addr := set_dup (the ref) counter g\<rparr>
              in if dups_alarm_running s2 then Some (dup, s2)
                 else map_option (\<lambda>s3. (dup, s3)) (start_dup_alarm cb (s2\<lparr>dups_alarm_running := True\<rparr>)))
           else Some (False, s1)))"

text \<open>
  The loop of the alarm counts entries in use up to the number of elements; reading behind the table is
  \<open>None\<close>.
\<close>

function dup_loop :: "nat \<Rightarrow> nat \<Rightarrow> nat \<Rightarrow> bool \<Rightarrow> zb_address_map list \<Rightarrow> (bool \<times> zb_address_map list) option" where
  "dup_loop elems i n running m =
     (if n < elems then
        (if i < length m then
           (if am_used (m ! i) then
              (if aps_dup_clock (m ! i) \<noteq> 0 then
                 (let c = aps_dup_clock (m ! i) - 1
                  in dup_loop elems (i + 1) (n + 1) (running \<or> c \<noteq> 0) (m[i := (m ! i)\<lparr>aps_dup_clock := c\<rparr>]))
               else dup_loop elems (i + 1) (n + 1) running m)
            else dup_loop elems (i + 1) n running m)
         else None)
      else Some (running, m))"
  by pat_completeness auto
termination by (relation "measure (\<lambda>(elems, i, n, running, m). length m - i)") auto

declare dup_loop.simps [simp del]

definition zb_aps_check_timer_cb :: "'f \<Rightarrow> u8 \<Rightarrow> 'f dup_ctx \<Rightarrow> 'f dup_ctx option" where
  "zb_aps_check_timer_cb cb param s =
     (case dup_loop (n_elements (dc_addr s)) 0 0 False (addr_map (dc_addr s)) of
        None \<Rightarrow> None
      | Some (running, m) \<Rightarrow>
          (let s1 = s\<lparr>dc_addr := (dc_addr s)\<lparr>addr_map := m\<rparr>, dups_alarm_running := running\<rparr>
           in if running then start_dup_alarm cb s1 else Some s1))"

end
