(* ===== verification/Aps_Dups_Props.thy ===== *)
theory Aps_Dups_Props
  imports Aps_Dups
begin

text \<open>
  Properties of the detection of repeated frames: the alarm visits every device and stops inside of the
  table, a frame is taken for a repetition exactly until the alarm has come three times, and what a full alarm pool does.
\<close>

section \<open>The alarm\<close>

definition tick :: "zb_address_map \<Rightarrow> zb_address_map" where
  "tick e = (if am_used e then e\<lparr>aps_dup_clock := aps_dup_clock e - 1\<rparr> else e)"

definition counts_on :: "zb_address_map \<Rightarrow> bool" where
  "counts_on e \<longleftrightarrow> am_used e \<and> 1 < aps_dup_clock e"

lemma tick_sel [simp]:
  "am_used (tick e) = am_used e" "am_addr (tick e) = am_addr e" "aps_dup_counter (tick e) = aps_dup_counter e"
  "am_used e \<Longrightarrow> aps_dup_clock (tick e) = aps_dup_clock e - 1"
  by (simp_all add: tick_def)

lemma dup_loop_spec:
  assumes "elems = n + length (filter am_used (drop i m))" "i \<le> length m"
  shows "dup_loop elems i n running m =
    Some (running \<or> (\<exists>e\<in>set (drop i m). counts_on e), take i m @ map tick (drop i m))"
  using assms
proof (induction "length m - i" arbitrary: i n running m)
  case 0
  then show ?case by (subst dup_loop.simps) simp
next
  case (Suc k)
  then have i: "i < length m" by simp
  have d: "drop i m = m ! i # drop (Suc i) m" using i by (simp add: Cons_nth_drop_Suc)
  have t: "take (Suc i) m = take i m @ [m ! i]" using i by (simp add: take_Suc_conv_app_nth)
  have none: "tick e = e" "\<not> counts_on e" if "\<not> am_used e" for e using that by (simp_all add: tick_def counts_on_def)
  show ?case
  proof (cases "n < elems")
    case False
    then have u: "filter am_used (drop i m) = []" using Suc.prems(1) by simp
    then have "map tick (drop i m) = drop i m" "\<not> (\<exists>e\<in>set (drop i m). counts_on e)"
      using none by (auto simp: filter_empty_conv intro!: map_idI)
    with False show ?thesis by (subst dup_loop.simps) simp
  next
    case True
    have step: "dup_loop elems i n running m =
      (if am_used (m ! i) then
         (if aps_dup_clock (m ! i) \<noteq> 0
          then dup_loop elems (Suc i) (Suc n) (running \<or> counts_on (m ! i)) (m[i := tick (m ! i)])
          else dup_loop elems (Suc i) (Suc n) running m)
       else dup_loop elems (Suc i) n running m)"
      using True i by (subst dup_loop.simps) (auto simp: Let_def tick_def counts_on_def)
    show ?thesis
    proof (cases "am_used (m ! i) \<and> aps_dup_clock (m ! i) \<noteq> 0")
      case a: True
      have "dup_loop elems (Suc i) (Suc n) (running \<or> counts_on (m ! i)) (m[i := tick (m ! i)]) =
        Some ((running \<or> counts_on (m ! i)) \<or> (\<exists>e\<in>set (drop (Suc i) m). counts_on e),
              take (Suc i) (m[i := tick (m ! i)]) @ map tick (drop (Suc i) m))"
        using Suc.hyps(1) [of "m[i := tick (m ! i)]" "Suc i" "Suc n"] Suc.hyps(2) Suc.prems i a d by simp
      then show ?thesis using a step d i by (simp add: take_Suc_conv_app_nth)
    next
      case b: False
      have same: "tick (m ! i) = m ! i" "\<not> counts_on (m ! i)" using b by (auto simp: tick_def counts_on_def)
      have "dup_loop elems (Suc i) (if am_used (m ! i) then Suc n else n) running m =
        Some (running \<or> (\<exists>e\<in>set (drop (Suc i) m). counts_on e), take (Suc i) m @ map tick (drop (Suc i) m))"
        using Suc.hyps(1) [of m "Suc i" "if am_used (m ! i) then Suc n else n"] Suc.hyps(2) Suc.prems i d
        by (cases "am_used (m ! i)") simp_all
      moreover have "dup_loop elems i n running m = dup_loop elems (Suc i) (if am_used (m ! i) then Suc n else n) running m"
        using b step by (simp split: if_split)
      ultimately show ?thesis using same d t by simp
    qed
  qed
qed

lemma used_count:
  assumes "addr_inv g"
  shows "n_elements g = length (filter am_used (addr_map g))"
  using assms by (simp add: addr_inv_def used_refs_def length_filter_conv_card conj_commute)

lemma timer_spec:
  assumes inv: "addr_inv (dc_addr s)"
  shows "zb_aps_check_timer_cb cb p s =
    (let running = (\<exists>e\<in>set (addr_map (dc_addr s)). counts_on e);
         s1 = s\<lparr>dc_addr := (dc_addr s)\<lparr>addr_map := map tick (addr_map (dc_addr s))\<rparr>, dups_alarm_running := running\<rparr>
     in if running then start_dup_alarm cb s1 else Some s1)"
  using dup_loop_spec [of "n_elements (dc_addr s)" 0 0 "addr_map (dc_addr s)" False] used_count [OF inv]
  by (simp add: zb_aps_check_timer_cb_def Let_def)

text \<open>
  With a well-formed address table the callback of the alarm ends without reading behind the table; it counts the clock of every
  device down by one, not below 0, changes nothing else of the table, and sets the
  alarm again exactly if a clock is still running.
\<close>

theorem dup_alarm_visits_every_device:
  assumes inv: "addr_inv (dc_addr s)" and r: "zb_aps_check_timer_cb cb p s = Some s'"
  shows "dc_addr s' = (dc_addr s)\<lparr>addr_map := map tick (addr_map (dc_addr s))\<rparr> \<and> addr_inv (dc_addr s')
    \<and> (dups_alarm_running s' \<longleftrightarrow> (\<exists>r\<in>used_refs (dc_addr s'). aps_dup_clock (addr_map (dc_addr s') ! r) \<noteq> 0))
    \<and> (if dups_alarm_running s'
       then map_option snd (zb_schedule_alarm cb 0 ZB_APS_DUP_CHECK_TIMEOUT (dc_sched s)) = Some (dc_sched s')
       else dc_sched s' = dc_sched s)"
proof -
  let ?g = "dc_addr s"
  let ?g' = "?g\<lparr>addr_map := map tick (addr_map ?g)\<rparr>"
  have l: "length (addr_map ?g) = ZB_IEEE_ADDR_TABLE_SIZE" using inv by (simp add: addr_inv_def)
  have i: "addr_inv ?g'" using inv l by (intro addr_inv_cong [OF inv]) (simp_all add: addr_inv_def)
  have "(\<exists>e\<in>set (addr_map ?g). counts_on e) \<longleftrightarrow> (\<exists>r<ZB_IEEE_ADDR_TABLE_SIZE. counts_on (addr_map ?g ! r))"
    by (metis in_set_conv_nth l)
  moreover have "r \<in> used_refs ?g' \<and> aps_dup_clock (addr_map ?g' ! r) \<noteq> 0 \<longleftrightarrow>
      r < ZB_IEEE_ADDR_TABLE_SIZE \<and> counts_on (addr_map ?g ! r)" for r
    using l by (auto simp: counts_on_def used_refs_def)
  ultimately have "(\<exists>e\<in>set (addr_map ?g). counts_on e) \<longleftrightarrow> (\<exists>r\<in>used_refs ?g'. aps_dup_clock (addr_map ?g' ! r) \<noteq> 0)"
    by blast
  then show ?thesis using r i timer_spec [OF inv, of cb p]
    by (auto simp: Let_def start_dup_alarm_def split: if_split_asm)
qed

theorem dup_alarm_visits_every_device_witness:
  "\<exists>s'. zb_aps_check_timer_cb 9 0 (\<lparr>dc_addr = addr_zero, dc_sched = boot, dups_alarm_running = True\<rparr> :: nat dup_ctx) = Some s'
     \<and> \<not> dups_alarm_running s'"
proof -
  let ?s = "\<lparr>dc_addr = addr_zero, dc_sched = boot, dups_alarm_running = True\<rparr> :: nat dup_ctx"
  have inv: "addr_inv (dc_addr ?s)" by (simp add: addr_zero_inv)
  have "\<not> (\<exists>e\<in>set (addr_map (dc_addr ?s)). counts_on e)" by (simp add: addr_zero_def counts_on_def)
  then obtain s' where r: "zb_aps_check_timer_cb 9 0 ?s = Some s'"
    and g: "dc_addr s' = addr_zero\<lparr>addr_map := map tick (addr_map addr_zero)\<rparr>"
    unfolding timer_spec [OF inv] Let_def by simp
  have "length (addr_map addr_zero) = ZB_IEEE_ADDR_TABLE_SIZE" "used_refs addr_zero = {}"
    by (simp_all add: addr_zero_def used_refs_def ZB_IEEE_ADDR_TABLE_SIZE_def)
  then have "used_refs (dc_addr s') = {}" unfolding g by (auto simp: used_refs_def)
  with dup_alarm_visits_every_device [OF inv r] r show ?thesis by blast
qed

section \<open>How long a frame is remembered\<close>

fun ticks :: "'f \<Rightarrow> nat \<Rightarrow> 'f dup_ctx \<Rightarrow> 'f dup_ctx option" where
  "ticks cb 0 s = Some s"
| "ticks cb (Suc n) s = (case zb_aps_check_timer_cb cb 0 s of None \<Rightarrow> None | Some s1 \<Rightarrow> ticks cb n s1)"

lemma search_lower_cong:
  "(\<And>i. i < r \<Longrightarrow> sorted_addr g' i = sorted_addr g i) \<Longrightarrow> search_lower g' a l r = search_lower g a l r"
proof (induction "r - l" arbitrary: l r rule: less_induct)
  case less
  show ?case
  proof (cases "l < r")
    case True
    then have i: "l + (r - l) div 2 < r" by simp
    then show ?thesis using True less by (subst (1 2) search_lower.simps) (simp add: Let_def)
  qed (subst (1 2) search_lower.simps, simp)
qed

lemma short_search_cong:
  assumes inv: "addr_inv g"
    and eq: "short_sorted g' = short_sorted g" "n_sorted_elements g' = n_sorted_elements g"
    and ent: "\<And>r. r < ZB_IEEE_ADDR_TABLE_SIZE \<Longrightarrow> am_addr (addr_map g' ! r) = am_addr (addr_map g ! r)"
  shows "short_search a g' = short_search a g"
proof -
  have len: "length (srefs g) = n_sorted_elements g"
    using inv by (auto simp: addr_inv_def srefs_ok_def srefs_def)
  have "sorted_addr g' i = sorted_addr g i" if "i < n_sorted_elements g" for i
  proof -
    have "short_sorted g ! i \<in> set (srefs g)" using that len by (metis nth_mem nth_take srefs_def)
    then have "short_sorted g ! i < ZB_IEEE_ADDR_TABLE_SIZE" using inv used_refs_subset by (auto simp: addr_inv_def)
    then show ?thesis using ent eq by (simp add: sorted_addr_def)
  qed
  then have eqs: "sorted_addr g' i = sorted_addr g i" if "i < n_sorted_elements g" for i using that .
  have "search_lower g' a 0 (n_sorted_elements g) = search_lower g a 0 (n_sorted_elements g)"
    using eqs by (rule search_lower_cong)
  with eq eqs show ?thesis by (auto simp: short_search_def Let_def)
qed

lemma by_short_found:
  assumes inv: "addr_inv g" and a: "a \<noteq> ZB_UNKNOWN_SHORT_ADDR"
    and r: "zb_address_by_short a True False g = Some (RET_OK, ref, g')"
  shows "\<exists>r. ref = Some r \<and> r \<in> used_refs g' \<and> addr_inv g' \<and> short_search a g' = Some r"
proof (cases "short_search a g")
  case (Some q)
  then have q: "q \<in> used_refs g" using short_search_inv [OF inv a] by simp
  have len: "q < length (addr_map g)" using q inv by (simp add: used_refs_def addr_inv_def)
  note nc = set_clock_nth [OF len]
  have "addr_inv (set_clock q g)" by (rule addr_inv_no_clock [OF inv nc]) simp_all
  moreover have "short_search a (set_clock q g) = Some q"
    using Some no_clock_eqD(2) [OF nc] by (subst short_search_cong [OF inv]) simp_all
  moreover have "used_refs (set_clock q g) = used_refs g" using no_clock_eqD(1) [OF nc] by (simp add: used_refs_def)
  moreover have "ref = Some q" "g' = set_clock q g" using Some r by (simp_all add: zb_address_by_short_def lock_if_def)
  ultimately show ?thesis using Some q by simp
next
  case None
  then have no: "\<forall>q\<in>used_refs g. ref_addr g q \<noteq> a" using short_search_inv [OF inv a] by simp
  have add: "addr_add None a g = (RET_OK, ref, g')" using r None by (simp add: zb_address_by_short_def lock_if_def)
  have free: "\<exists>i<ZB_IEEE_ADDR_TABLE_SIZE. \<not> am_used (addr_map g ! i)" using addr_add_full [OF inv] add by fastforce
  obtain i where i: "ref = Some i" "i \<notin> used_refs g" "addr_inv g'" "used_refs g' = insert i (used_refs g)"
      "am_addr (addr_map g' ! i) = a"
      "\<forall>j<ZB_IEEE_ADDR_TABLE_SIZE. j \<noteq> i \<longrightarrow> no_clock (addr_map g' ! j) = no_clock (addr_map g ! j)"
    using addr_add_inv [OF inv free, of None a] add by auto
  have "q = i" if "q \<in> used_refs g'" "ref_addr g' q = a" for q
  proof (rule ccontr)
    assume "q \<noteq> i"
    then have "q \<in> used_refs g" "ref_addr g q = a"
      using that i no_clock_eqD(2) [of "addr_map g' ! q" "addr_map g ! q"] by (auto simp: used_refs_def ref_addr_def)
    with no show False by blast
  qed
  moreover have "short_search a g' \<noteq> None"
    using short_search_inv [OF i(3) a] i(4,5) by (auto simp: ref_addr_def split: option.splits)
  ultimately show ?thesis using short_search_inv [OF i(3) a] i by (auto split: option.splits)
qed

text \<open>The entry of a device after its frame was seen and the alarm came \<open>n\<close> times.\<close>

definition remembers :: "nat \<Rightarrow> u16 \<Rightarrow> u8 \<Rightarrow> zb_addr_globals \<Rightarrow> bool" where
  "remembers n src c g \<longleftrightarrow> addr_inv g \<and> (\<exists>r. short_search src g = Some r \<and> r \<in> used_refs g
     \<and> aps_dup_counter (addr_map g ! r) = c \<and> aps_dup_clock (addr_map g ! r) = 3 - n)"

lemma remembers_cong:
  assumes m: "addr_inv g" "short_search src g = Some r" "r \<in> used_refs g"
    and len: "length (addr_map g') = length (addr_map g)"
    and ent: "\<And>j. j < ZB_IEEE_ADDR_TABLE_SIZE \<Longrightarrow> am_used (addr_map g' ! j) = am_used (addr_map g ! j)
      \<and> am_addr (addr_map g' ! j) = am_addr (addr_map g ! j)"
    and rest: "short_sorted g' = short_sorted g" "n_sorted_elements g' = n_sorted_elements g"
      "n_elements g' = n_elements g" "clock_i g' = clock_i g"
    and dup: "aps_dup_counter (addr_map g' ! r) = c" "aps_dup_clock (addr_map g' ! r) = 3 - n"
  shows "remembers n src c g'"
proof -
  have l: "length (addr_map g) = ZB_IEEE_ADDR_TABLE_SIZE" "clock_i g \<le> ZB_IEEE_ADDR_TABLE_SIZE"
    using m(1) by (simp_all add: addr_inv_def)
  have inv: "addr_inv g'" using l len ent rest by (intro addr_inv_cong [OF m(1)]) simp_all
  have u: "used_refs g' = used_refs g" using ent by (auto simp: used_refs_def)
  have r: "r < ZB_IEEE_ADDR_TABLE_SIZE" using m(3) by (simp add: used_refs_def)
  have "short_search src g' = Some r" using ent rest m(2) by (subst short_search_cong [OF m(1)]) simp_all
  with inv u m(3) dup show ?thesis by (auto simp: remembers_def)
qed

lemma remembers_check:
  assumes inv: "addr_inv (dc_addr s)" and src: "src \<noteq> ZB_UNKNOWN_SHORT_ADDR"
    and known: "zb_address_by_short src True False (dc_addr s) = Some (RET_OK, ref, g)"
    and chk: "aps_check_dups cb src c s = Some (d, s1)"
  shows "remembers 0 src c (dc_addr s1)"
proof -
  obtain r where r: "ref = Some r" "r \<in> used_refs g" "addr_inv g" "short_search src g = Some r"
    using by_short_found [OF inv src known] by blast
  have g: "dc_addr s1 = set_dup r c g"
    using chk known r(1) by (auto simp: aps_check_dups_def start_dup_alarm_def Let_def split: if_split_asm)
  have len: "r < length (addr_map g)" using r by (simp add: used_refs_def addr_inv_def)
  show ?thesis unfolding g
    by (rule remembers_cong [OF r(3,4,2)]) (use len in \<open>simp_all add: set_dup_def upd_ent_nth\<close>)
qed

lemma remembers_tick:
  assumes m: "remembers n src c (dc_addr s)" and t: "zb_aps_check_timer_cb cb p s = Some s1"
  shows "remembers (Suc n) src c (dc_addr s1)"
proof -
  obtain r where r: "addr_inv (dc_addr s)" "short_search src (dc_addr s) = Some r" "r \<in> used_refs (dc_addr s)"
      "aps_dup_counter (addr_map (dc_addr s) ! r) = c" "aps_dup_clock (addr_map (dc_addr s) ! r) = 3 - n"
    using m by (auto simp: remembers_def)
  have l: "length (addr_map (dc_addr s)) = ZB_IEEE_ADDR_TABLE_SIZE" using r(1) by (simp add: addr_inv_def)
  have u: "r < ZB_IEEE_ADDR_TABLE_SIZE" "am_used (addr_map (dc_addr s) ! r)" using r(3) by (simp_all add: used_refs_def)
  have g: "dc_addr s1 = (dc_addr s)\<lparr>addr_map := map tick (addr_map (dc_addr s))\<rparr>"
    using t timer_spec [OF r(1), of cb p] by (auto simp: Let_def start_dup_alarm_def split: if_split_asm)
  show ?thesis unfolding g
    by (rule remembers_cong [OF r(1-3)]) (use l u r(4,5) in simp_all)
qed

lemma remembers_ticks:
  assumes "remembers n src c (dc_addr s)" "ticks cb k s = Some s1"
  shows "remembers (n + k) src c (dc_addr s1)"
  using assms
proof (induction k arbitrary: n s)
  case (Suc k)
  obtain s2 where s2: "zb_aps_check_timer_cb cb 0 s = Some s2" "ticks cb k s2 = Some s1"
    using Suc.prems(2) by (auto split: option.splits)
  show ?case using Suc.IH [OF remembers_tick [OF Suc.prems(1) s2(1)] s2(2)] by simp
qed simp

lemma remembers_answer:
  assumes m: "remembers n src c (dc_addr s)" and src: "src \<noteq> ZB_UNKNOWN_SHORT_ADDR"
    and chk: "aps_check_dups cb src c' s = Some (d, s1)"
  shows "d \<longleftrightarrow> n < 3 \<and> c' = c"
proof -
  obtain r where r: "addr_inv (dc_addr s)" "short_search src (dc_addr s) = Some r" "r \<in> used_refs (dc_addr s)"
      "aps_dup_counter (addr_map (dc_addr s) ! r) = c" "aps_dup_clock (addr_map (dc_addr s) ! r) = 3 - n"
    using m by (auto simp: remembers_def)
  have len: "r < length (addr_map (dc_addr s))" using r by (simp add: used_refs_def addr_inv_def)
  have f: "zb_address_by_short src True False (dc_addr s) = Some (RET_OK, Some r, set_clock r (dc_addr s))"
    using r(2) by (simp add: zb_address_by_short_def lock_if_def)
  have "aps_dup_counter (addr_map (set_clock r (dc_addr s)) ! r) = c"
      "aps_dup_clock (addr_map (set_clock r (dc_addr s)) ! r) = 3 - n"
    using r(4,5) len by (simp_all add: set_clock_def upd_ent_nth)
  then show ?thesis using chk f by (auto simp: aps_check_dups_def Let_def split: if_split_asm)
qed

lemma start_dup_alarm_rep:
  assumes "tm_rep (dc_sched s) xs ys"
  shows "\<exists>s1 xs1 ys1. start_dup_alarm cb s = Some s1 \<and> tm_rep (dc_sched s1) xs1 ys1 \<and> dc_addr s1 = dc_addr s
    \<and> dups_alarm_running s1 = dups_alarm_running s"
proof (cases ys)
  case Nil
  with assms zb_schedule_alarm_full [of "dc_sched s" xs cb 0 ZB_APS_DUP_CHECK_TIMEOUT]
  show ?thesis by (auto simp: start_dup_alarm_def)
next
  case (Cons e ys')
  obtain sch xs1 where "zb_schedule_alarm cb 0 ZB_APS_DUP_CHECK_TIMEOUT (dc_sched s) = Some (RET_OK, sch)" "tm_rep sch xs1 ys'"
    using zb_schedule_alarm_rep [of "dc_sched s" xs e ys' cb 0 ZB_APS_DUP_CHECK_TIMEOUT] assms Cons by blast
  then show ?thesis by (auto simp: start_dup_alarm_def)
qed

lemma check_dups_rep:
  assumes t: "tm_rep (dc_sched s) xs ys" and k: "zb_address_by_short src True False (dc_addr s) = Some (RET_OK, Some r, g)"
  shows "\<exists>d s1 xs1 ys1. aps_check_dups cb src c s = Some (d, s1) \<and> tm_rep (dc_sched s1) xs1 ys1
    \<and> dups_alarm_running s1 \<and> dc_addr s1 = set_dup r c g"
proof -
  let ?s = "s\<lparr>dc_addr := set_dup r c g, dups_alarm_running := True\<rparr>"
  obtain s2 xs2 ys2 where "start_dup_alarm cb ?s = Some s2" "tm_rep (dc_sched s2) xs2 ys2" "dc_addr s2 = set_dup r c g"
      "dups_alarm_running s2"
    using start_dup_alarm_rep [of ?s xs ys cb] t by auto
  with t k show ?thesis by (auto simp: aps_check_dups_def Let_def)
qed

lemma ticks_rep:
  "addr_inv (dc_addr s) \<Longrightarrow> tm_rep (dc_sched s) xs ys \<Longrightarrow>
    \<exists>s1 xs1 ys1. ticks cb n s = Some s1 \<and> tm_rep (dc_sched s1) xs1 ys1"
proof (induction n arbitrary: s xs ys)
  case (Suc n)
  let ?run = "\<exists>e\<in>set (addr_map (dc_addr s)). counts_on e"
  let ?s = "s\<lparr>dc_addr := (dc_addr s)\<lparr>addr_map := map tick (addr_map (dc_addr s))\<rparr>, dups_alarm_running := ?run\<rparr>"
  have l: "length (addr_map (dc_addr s)) = ZB_IEEE_ADDR_TABLE_SIZE" "clock_i (dc_addr s) \<le> ZB_IEEE_ADDR_TABLE_SIZE"
    using Suc.prems by (simp_all add: addr_inv_def)
  have i: "addr_inv (dc_addr ?s)" using l by (intro addr_inv_cong [OF Suc.prems(1)]) simp_all
  obtain s2 xs2 ys2 where "start_dup_alarm cb ?s = Some s2" "tm_rep (dc_sched s2) xs2 ys2" "dc_addr s2 = dc_addr ?s"
    using start_dup_alarm_rep [of ?s xs ys cb] Suc.prems(2) by auto
  then obtain s3 xs3 ys3 where "zb_aps_check_timer_cb cb 0 s = Some s3" "addr_inv (dc_addr s3)" "tm_rep (dc_sched s3) xs3 ys3"
    using i Suc.prems(2) unfolding timer_spec [OF Suc.prems(1)] Let_def by (cases ?run) auto
  with Suc.IH [of s3 xs3 ys3] show ?case by simp
qed auto

text \<open>
  C40: A frame that was accepted is remembered while the alarm comes less than three times: a second frame of the same device is reported as a
  repetition exactly if it has the same counter and the alarm has come at most twice since. This holds for every device that the address
  table knows or can still enter, and both checks and the alarms end without stopping the program.
\<close>

theorem frame_is_remembered_for_three_alarms:
  assumes inv: "addr_inv (dc_addr s)" and t: "tm_rep (dc_sched s) xs ys" and src: "src \<noteq> ZB_UNKNOWN_SHORT_ADDR"
    and known: "zb_address_by_short src True False (dc_addr s) = Some (RET_OK, ref, g)"
  shows "\<exists>d s1 s2 s3. aps_check_dups cb src c s = Some (d, s1) \<and> ticks cb n s1 = Some s2
    \<and> aps_check_dups cb src c' s2 = Some (n < 3 \<and> c' = c, s3)"
proof -
  obtain r where "ref = Some r" using by_short_found [OF inv src known] by blast
  then obtain d s1 xs1 ys1 where s1: "aps_check_dups cb src c s = Some (d, s1)" "tm_rep (dc_sched s1) xs1 ys1"
    using check_dups_rep [OF t, of src r g cb c] known by auto
  have m1: "remembers 0 src c (dc_addr s1)" by (rule remembers_check [OF inv src known s1(1)])
  then obtain s2 xs2 ys2 where s2: "ticks cb n s1 = Some s2" "tm_rep (dc_sched s2) xs2 ys2"
    using ticks_rep [of s1 xs1 ys1 cb n] s1(2) by (auto simp: remembers_def)
  have m2: "remembers n src c (dc_addr s2)" using remembers_ticks [OF m1 s2(1)] by simp
  then obtain r2 where "zb_address_by_short src True False (dc_addr s2) = Some (RET_OK, Some r2, set_clock r2 (dc_addr s2))"
    by (auto simp: remembers_def zb_address_by_short_def lock_if_def)
  from check_dups_rep [OF s2(2) this] obtain d3 s3 where "aps_check_dups cb src c' s2 = Some (d3, s3)" by blast
  with s1 s2 remembers_answer [OF m2 src this] show ?thesis by blast
qed

lemma dups_known_sample:
  "\<exists>r g. zb_address_by_short 7 True False addr_zero = Some (RET_OK, Some r, g)"
proof -
  have "\<exists>i<ZB_IEEE_ADDR_TABLE_SIZE. \<not> am_used (addr_map addr_zero ! i)"
    by (intro exI [of _ 0]) (simp add: addr_zero_def ZB_IEEE_ADDR_TABLE_SIZE_def)
  from addr_add_inv [OF addr_zero_inv(1) this, of None 7]
  obtain r g where "addr_add None 7 addr_zero = (RET_OK, Some r, g)" by auto
  moreover have "used_refs addr_zero = {}" by (simp add: addr_zero_def used_refs_def ZB_IEEE_ADDR_TABLE_SIZE_def)
  ultimately show ?thesis using search_empty(1) [OF addr_zero_inv(1), of 7]
    by (simp add: zb_address_by_short_def lock_if_def ZB_UNKNOWN_SHORT_ADDR_def)
qed

theorem frame_is_remembered_for_three_alarms_witness:
  "\<exists>d s1 s2 s3. aps_check_dups (9 :: nat) 7 5 \<lparr>dc_addr = addr_zero, dc_sched = boot, dups_alarm_running = False\<rparr> = Some (d, s1)
    \<and> ticks 9 2 s1 = Some s2 \<and> aps_check_dups 9 7 5 s2 = Some (True, s3)"
proof -
  obtain r g where k: "zb_address_by_short 7 True False addr_zero = Some (RET_OK, Some r, g)"
    using dups_known_sample by blast
  show ?thesis
    using frame_is_remembered_for_three_alarms
      [of "\<lparr>dc_addr = addr_zero, dc_sched = boot, dups_alarm_running = False\<rparr>" _ _ 7 "Some r" g 9 5 2 5] boot_rep k addr_zero_inv
    by (simp add: ZB_UNKNOWN_SHORT_ADDR_def)
qed

text \<open>
  If no alarm entry is free when the first frame comes, the flag is set although nothing was scheduled, and from then on no check
  sets the alarm, however many entries get free: the clocks stand still and a counter stays a repetition.
\<close>

theorem failed_dup_alarm_is_never_retried:
  assumes full: "tm_rep (dc_sched s) xs []" and off: "\<not> dups_alarm_running s"
    and known: "zb_address_by_short src True False (dc_addr s) = Some (RET_OK, Some r, g)"
  shows "\<exists>d s1. aps_check_dups cb src c s = Some (d, s1) \<and> dups_alarm_running s1 \<and> dc_sched s1 = dc_sched s
    \<and> (\<forall>sch src' c' d' s2. aps_check_dups cb src' c' (s1\<lparr>dc_sched := sch\<rparr>) = Some (d', s2) \<longrightarrow>
          dups_alarm_running s2 \<and> dc_sched s2 = sch)"
proof -
  let ?s1 = "s\<lparr>dc_addr := set_dup r c g, dups_alarm_running := True\<rparr>"
  have "start_dup_alarm cb ?s1 = Some ?s1"
    using zb_schedule_alarm_full [OF full, of cb 0 ZB_APS_DUP_CHECK_TIMEOUT] by (simp add: start_dup_alarm_def)
  then obtain d where "aps_check_dups cb src c s = Some (d, ?s1)" using off known by (simp add: aps_check_dups_def Let_def)
  moreover have "dups_alarm_running s2 \<and> dc_sched s2 = sch"
    if "aps_check_dups cb src' c' (?s1\<lparr>dc_sched := sch\<rparr>) = Some (d', s2)" for sch src' c' d' s2
    using that by (auto simp: aps_check_dups_def Let_def split: option.splits if_split_asm)
  ultimately show ?thesis by (intro exI [of _ d] exI [of _ ?s1]) simp
qed

lemma pool_can_run_empty:
  "tm_rep s xs ys \<Longrightarrow> \<exists>(s' :: 'f zb_sched) xs'. tm_rep s' xs' []" for s :: "'f zb_sched"
proof (induction ys arbitrary: s xs)
  case (Cons e ys)
  from Cons.IH zb_schedule_alarm_rep [OF Cons.prems] show ?case by blast
next
  case Nil
  then show ?case by blast
qed

theorem failed_dup_alarm_is_never_retried_witness:
  "\<exists>sch xs d s1. tm_rep sch xs [] \<and> aps_check_dups (9 :: nat) 7 5 \<lparr>dc_addr = addr_zero, dc_sched = sch, dups_alarm_running = False\<rparr> = Some (d, s1)
     \<and> dups_alarm_running s1 \<and> dc_sched s1 = sch"
proof -
  obtain sch :: "nat zb_sched" and xs where t: "tm_rep sch xs []" using pool_can_run_empty [OF boot_rep] by blast
  obtain r g where k: "zb_address_by_short 7 True False addr_zero = Some (RET_OK, Some r, g)"
    using dups_known_sample by blast
  have "\<exists>d s1. aps_check_dups (9 :: nat) 7 5 \<lparr>dc_addr = addr_zero, dc_sched = sch, dups_alarm_running = False\<rparr> = Some (d, s1)
     \<and> dups_alarm_running s1 \<and> dc_sched s1 = sch"
    using failed_dup_alarm_is_never_retried
      [of "\<lparr>dc_addr = addr_zero, dc_sched = sch, dups_alarm_running = False\<rparr>" xs 7 r g 9 5] t k by auto
  with t show ?thesis by blast
qed

end
