(* ===== verification/Aps_Frame.thy ===== *)
theory Aps_Frame
  imports Nwk_Frame Mac_Frame
begin

text \<open>
  Frames of the application support layer: the frame control macros and structures of \<^verbatim>\<open>include/zb_aps.h\<close>, the
  headers that \<^verbatim>\<open>aps/aps_main.c\<close> writes for data, commands and acknowledgements, and the parser. Frames are not
  secured at this layer (\<^verbatim>\<open>APS_FRAME_SECURITY\<close> is not defined).
\<close>

section \<open>Frame control\<close>

definition ZB_APS_FRAME_DATA :: u8 where "ZB_APS_FRAME_DATA = 0"
definition ZB_APS_FRAME_COMMAND :: u8 where "ZB_APS_FRAME_COMMAND = 1"
definition ZB_APS_FRAME_ACK :: u8 where "ZB_APS_FRAME_ACK = 2"

definition ZB_APS_DELIVERY_UNICAST :: u8 where "ZB_APS_DELIVERY_UNICAST = 0"
definition ZB_APS_DELIVERY_BROADCAST :: u8 where "ZB_APS_DELIVERY_BROADCAST = 2"
definition ZB_APS_DELIVERY_GROUP :: u8 where "ZB_APS_DELIVERY_GROUP = 3"

definition ZB_APS_FC_GET_FRAME_TYPE :: "u8 \<Rightarrow> u8" where "ZB_APS_FC_GET_FRAME_TYPE fc = fc AND 3"
definition ZB_APS_FC_SET_FRAME_TYPE :: "u8 \<Rightarrow> u8 \<Rightarrow> u8" where "ZB_APS_FC_SET_FRAME_TYPE fc t = fc OR t"
definition ZB_APS_FC_GET_DELIVERY_MODE :: "u8 \<Rightarrow> u8" where "ZB_APS_FC_GET_DELIVERY_MODE fc = drop_bit 2 fc AND 3"
definition ZB_APS_FC_SET_DELIVERY_MODE :: "u8 \<Rightarrow> u8 \<Rightarrow> u8" where "ZB_APS_FC_SET_DELIVERY_MODE fc m = fc OR push_bit 2 m"
definition ZB_APS_FC_GET_ACK_FORMAT :: "u8 \<Rightarrow> u8" where "ZB_APS_FC_GET_ACK_FORMAT fc = drop_bit 4 fc AND 1"
definition ZB_APS_FC_SET_ACK_FORMAT :: "u8 \<Rightarrow> u8 \<Rightarrow> u8" where "ZB_APS_FC_SET_ACK_FORMAT fc f = fc OR push_bit 4 f"
definition ZB_APS_FC_GET_SECURITY :: "u8 \<Rightarrow> u8" where "ZB_APS_FC_GET_SECURITY fc = drop_bit 5 fc AND 1"
definition ZB_APS_FC_GET_ACK_REQUEST :: "u8 \<Rightarrow> u8" where "ZB_APS_FC_GET_ACK_REQUEST fc = drop_bit 6 fc AND 1"
definition ZB_APS_FC_SET_ACK_REQUEST :: "u8 \<Rightarrow> u8 \<Rightarrow> u8" where "ZB_APS_FC_SET_ACK_REQUEST fc f = fc OR push_bit 6 f"

definition ZB_APS_FC_SET_COMMAND :: "u8 \<Rightarrow> u8 \<Rightarrow> u8" where
  "ZB_APS_FC_SET_COMMAND fc need_ack = fc OR (ZB_APS_FRAME_COMMAND OR push_bit 6 need_ack OR push_bit 4 1)"

lemmas aps_fc_defs = ZB_APS_FRAME_DATA_def ZB_APS_FRAME_COMMAND_def ZB_APS_FRAME_ACK_def ZB_APS_DELIVERY_UNICAST_def
  ZB_APS_DELIVERY_BROADCAST_def ZB_APS_DELIVERY_GROUP_def ZB_APS_FC_GET_FRAME_TYPE_def ZB_APS_FC_SET_FRAME_TYPE_def
  ZB_APS_FC_GET_DELIVERY_MODE_def ZB_APS_FC_SET_DELIVERY_MODE_def ZB_APS_FC_GET_ACK_FORMAT_def
  ZB_APS_FC_SET_ACK_FORMAT_def ZB_APS_FC_GET_SECURITY_def ZB_APS_FC_GET_ACK_REQUEST_def ZB_APS_FC_SET_ACK_REQUEST_def
  ZB_APS_FC_SET_COMMAND_def

section \<open>Requests and parsed headers\<close>

definition ADDR_MODE_DST_ADDR_ENDP_NOT_PRESENT :: u8 where "ADDR_MODE_DST_ADDR_ENDP_NOT_PRESENT = 0"
definition ADDR_MODE_16_GROUP_ENDP_NOT_PRESENT :: u8 where "ADDR_MODE_16_GROUP_ENDP_NOT_PRESENT = 1"
definition ADDR_MODE_16_ENDP_PRESENT :: u8 where "ADDR_MODE_16_ENDP_PRESENT = 2"
definition ADDR_MODE_64_ENDP_PRESENT :: u8 where "ADDR_MODE_64_ENDP_PRESENT = 3"

definition ZB_APSDE_TX_OPT_ACK_TX :: u8 where "ZB_APSDE_TX_OPT_ACK_TX = 4"

text \<open>The destination is a union: its first two bytes are the short address.\<close>

record zb_apsde_data_req =
  rq_dst_addr :: ieee
  rq_profileid :: u16
  rq_clusterid :: u16
  rq_dst_endpoint :: u8
  rq_src_endpoint :: u8
  rq_radius :: u8
  rq_addr_mode :: u8
  rq_tx_options :: u8

abbreviation rq_short :: "zb_apsde_data_req \<Rightarrow> u16" where "rq_short r \<equiv> addr_short (rq_dst_addr r)"

definition set_rq_short :: "u16 \<Rightarrow> zb_apsde_data_req \<Rightarrow> zb_apsde_data_req" where
  "set_rq_short a r = r\<lparr>rq_dst_addr := htole16 a @ drop 2 (rq_dst_addr r)\<rparr>"

record zb_aps_hdr =
  ah_fc :: u8
  ah_src_addr :: u16
  ah_dst_addr :: u16
  ah_group_addr :: u16
  ah_dst_endpoint :: u8
  ah_src_endpoint :: u8
  ah_clusterid :: u16
  ah_profileid :: u16
  ah_aps_counter :: u8

text \<open>The packed structure as it lies in the tail of a buffer.\<close>

definition SIZEOF_APS_HDR :: nat where "SIZEOF_APS_HDR = 14"

definition aps_hdr_bytes :: "zb_aps_hdr \<Rightarrow> u8 list" where
  "aps_hdr_bytes h = ah_fc h # htole16 (ah_src_addr h) @ htole16 (ah_dst_addr h) @ htole16 (ah_group_addr h)
     @ [ah_dst_endpoint h, ah_src_endpoint h] @ htole16 (ah_clusterid h) @ htole16 (ah_profileid h) @ [ah_aps_counter h]"

definition aps_hdr_of_bytes :: "u8 list \<Rightarrow> zb_aps_hdr" where
  "aps_hdr_of_bytes b = \<lparr>ah_fc = b ! 0, ah_src_addr = letoh16 (drop 1 b), ah_dst_addr = letoh16 (drop 3 b),
     ah_group_addr = letoh16 (drop 5 b), ah_dst_endpoint = b ! 7, ah_src_endpoint = b ! 8,
     ah_clusterid = letoh16 (drop 9 b), ah_profileid = letoh16 (drop 11 b), ah_aps_counter = b ! 13\<rparr>"

definition get_aps_hdr :: "zb_buf \<Rightarrow> zb_aps_hdr option" where
  "get_aps_hdr b = map_option (\<lambda>t. aps_hdr_of_bytes (drop t (bytes b))) (zb_get_buf_tail b SIZEOF_APS_HDR)"

definition put_aps_hdr :: "zb_aps_hdr \<Rightarrow> zb_buf \<Rightarrow> zb_buf option" where
  "put_aps_hdr h b =
     map_option (\<lambda>t. b\<lparr>bytes := memcpy t (aps_hdr_bytes h) (bytes b)\<rparr>) (zb_get_buf_tail b SIZEOF_APS_HDR)"

section \<open>Writing headers\<close>

definition ZB_APS_HDR_SIZE :: "u8 \<Rightarrow> nat" where
  "ZB_APS_HDR_SIZE fc =
     2 + (if ZB_APS_FC_GET_FRAME_TYPE fc = ZB_APS_FRAME_COMMAND then 0
          else 1 + (if ZB_APS_FC_GET_DELIVERY_MODE fc = ZB_APS_DELIVERY_GROUP then 1 else 0) + 2 + 2 + 1)"

definition zb_aps_full_hdr_size :: "zb_buf \<Rightarrow> nat" where
  "zb_aps_full_hdr_size b = ZB_APS_HDR_SIZE (bytes b ! boff b)"

definition ZB_APS_HDR_CUT :: "zb_buf \<Rightarrow> zb_buf option" where
  "ZB_APS_HDR_CUT b = map_option fst (zb_buf_cut_left b (zb_aps_full_hdr_size b))"

definition aps_data_hdr :: "u8 \<Rightarrow> zb_apsde_data_req \<Rightarrow> u8 \<Rightarrow> u8 list" where
  "aps_data_hdr fc req counter =
     fc # (if ZB_APS_FC_GET_DELIVERY_MODE fc = ZB_APS_DELIVERY_GROUP then htole16 (rq_short req) else [rq_dst_endpoint req])
        @ htole16 (rq_clusterid req) @ htole16 (rq_profileid req) @ [rq_src_endpoint req, counter]"

definition aps_data_hdr_fill_datareq :: "u8 \<Rightarrow> zb_apsde_data_req \<Rightarrow> u8 \<Rightarrow> zb_buf \<Rightarrow> zb_buf option" where
  "aps_data_hdr_fill_datareq fc req counter b =
     (let is_group = (ZB_APS_FC_GET_DELIVERY_MODE fc = ZB_APS_DELIVERY_GROUP);
          sz = 1 + 1 + 2 + 2 + 1 + 1 + (if is_group then 1 else 0);
          b0 = b\<lparr>hdr := (hdr b)\<lparr>encrypt_type := ZB_SECUR_NO_ENCR\<rparr>\<rparr>
      in case zb_buf_smart_alloc_left b0 sz of
           None \<Rightarrow> None
         | Some (b1, p) \<Rightarrow>
             if ZB_APS_FC_GET_ACK_FORMAT fc = 0 then write_bytes p (aps_data_hdr fc req counter) b1 else None)"

text \<open>\<^verbatim>\<open>zb_aps_command_header_t\<close>: control, counter and identifier.\<close>

definition aps_command_fill :: "bool \<Rightarrow> u8 \<Rightarrow> u8 \<Rightarrow> zb_buf \<Rightarrow> zb_buf option" where
  "aps_command_fill need_ack counter command b =
     (case zb_buf_smart_alloc_left b 3 of
        None \<Rightarrow> None
      | Some (b1, p) \<Rightarrow> write_bytes p [ZB_APS_FC_SET_COMMAND 0 (if need_ack then 1 else 0), counter, command] b1)"

definition aps_ack_fc :: "zb_aps_hdr \<Rightarrow> u8" where
  "aps_ack_fc h = ZB_APS_FC_SET_ACK_FORMAT (ZB_APS_FC_SET_FRAME_TYPE 0 ZB_APS_FRAME_ACK)
     (if ZB_APS_FC_GET_FRAME_TYPE (ah_fc h) \<noteq> ZB_APS_FRAME_COMMAND then 0 else 1)"

definition aps_ack_fill :: "zb_aps_hdr \<Rightarrow> zb_buf \<Rightarrow> zb_buf option" where
  "aps_ack_fill h b =
     (let fc = aps_ack_fc h;
          sz = (if ZB_APS_FC_GET_FRAME_TYPE (ah_fc h) \<noteq> ZB_APS_FRAME_COMMAND then 2 + 2 + 4 else 2)
      in case zb_buf_initial_alloc b sz of
           None \<Rightarrow> None
         | Some (b1, p) \<Rightarrow>
             write_bytes p (fc # (if ZB_APS_FC_GET_ACK_FORMAT fc = 0
                then ah_src_endpoint h # htole16 (ah_clusterid h) @ htole16 (ah_profileid h) @ [ah_dst_endpoint h] else [])
                @ [ah_aps_counter h]) b1)"

section \<open>Parsing\<close>

text \<open>
  The parser fills in a structure that the caller owns; fields that the frame does not have stay as they are in
  \<open>h\<close>. Reading behind the buffer is \<open>None\<close>.
\<close>

definition aps_parsed_size :: "u8 \<Rightarrow> nat" where
  "aps_parsed_size fc = 2 + (if ZB_APS_FC_GET_ACK_FORMAT fc = 0
     then (if ZB_APS_FC_GET_DELIVERY_MODE fc \<noteq> ZB_APS_DELIVERY_GROUP then 1 else 2) + 2 + 2 + 1 else 0)"

definition aps_parse_fields :: "u8 list \<Rightarrow> zb_aps_hdr \<Rightarrow> zb_aps_hdr" where
  "aps_parse_fields bs h =
     (let fc = bs ! 0; h1 = h\<lparr>ah_src_endpoint := 0xff, ah_fc := fc\<rparr> in
      if ZB_APS_FC_GET_ACK_FORMAT fc = 0
      then (let group = (ZB_APS_FC_GET_DELIVERY_MODE fc = ZB_APS_DELIVERY_GROUP);
                h2 = (if group then h1\<lparr>ah_group_addr := letoh16 (drop 1 bs)\<rparr> else h1\<lparr>ah_dst_endpoint := bs ! 1\<rparr>);
                n = (if group then 3 else 2)
            in h2\<lparr>ah_clusterid := letoh16 (drop n bs), ah_profileid := letoh16 (drop (n + 2) bs),
                  ah_src_endpoint := bs ! (n + 4), ah_aps_counter := bs ! (n + 5)\<rparr>)
      else h1\<lparr>ah_aps_counter := bs ! 1\<rparr>)"

definition zb_aps_hdr_parse :: "bool \<Rightarrow> zb_aps_hdr \<Rightarrow> zb_buf \<Rightarrow> (zb_buf \<times> zb_aps_hdr) option" where
  "zb_aps_hdr_parse cut_nwk_hdr h b =
     (let h1 = (if cut_nwk_hdr then h\<lparr>ah_src_addr := hdr_src b, ah_dst_addr := hdr_dst b\<rparr>
                else h\<lparr>ah_src_addr := 0, ah_dst_addr := 0\<rparr>)
      in case (if cut_nwk_hdr then map_option fst (zb_buf_cut_left b (zb_nwk_hdr_size (hdr_fctl b))) else Some b) of
           None \<Rightarrow> None
         | Some b1 \<Rightarrow>
             (let bs = drop (boff b1) (bytes b1) in
              if bs \<noteq> [] \<and> aps_parsed_size (bs ! 0) \<le> length bs then Some (b1, aps_parse_fields bs h1) else None))"

section \<open>Frames that come back from the lower layers\<close>

definition MAC_SECUR_LEV5_KEYID1_AUX_HDR_SIZE :: nat where "MAC_SECUR_LEV5_KEYID1_AUX_HDR_SIZE = 0"
definition ZB_TAIL_SIZE_FOR_SENDER_MAC_FRAME :: nat where "ZB_TAIL_SIZE_FOR_SENDER_MAC_FRAME = 2"

definition ZB_MAC_CUT_HDR_WITHOUT_TRAILER :: "zb_buf \<Rightarrow> zb_buf option" where
  "ZB_MAC_CUT_HDR_WITHOUT_TRAILER b =
     (let fcf = bytes_at (boff b) 2 b; b1 = b\<lparr>hdr := (hdr b)\<lparr>mac_hdr_offset := of_nat (boff b)\<rparr>\<rparr> in
      case zb_buf_cut_right b1 ZB_TAIL_SIZE_FOR_SENDER_MAC_FRAME of
        None \<Rightarrow> None
      | Some b2 \<Rightarrow>
          (case zb_mac_calculate_mhr_length (ZB_FCF_GET_SRC_ADDRESSING_MODE fcf) (ZB_FCF_GET_DST_ADDRESSING_MODE fcf)
                  (ZB_FCF_GET_PANID_COMPRESSION_BIT fcf) of
             None \<Rightarrow> None
           | Some hlen \<Rightarrow>
               map_option fst (zb_buf_cut_left b2 (hlen + MAC_SECUR_LEV5_KEYID1_AUX_HDR_SIZE * unat (ZB_FCF_GET_SECURITY_BIT fcf)))))"

definition ZB_NWK_HDR_CUT :: "zb_buf \<Rightarrow> zb_buf option" where
  "ZB_NWK_HDR_CUT b = map_option fst (zb_buf_cut_left b (zb_nwk_hdr_size (hdr_fctl b)))"

end
