(* ===== verification/Aps_Node.thy ===== *)
theory Aps_Node
  imports Aps_Frame Aps_Bind Aps_Dups Nwk_Node
begin

text \<open>
  The application support layer, \<^verbatim>\<open>aps/aps_main.c\<close>: data requests, acknowledgements and retransmissions. The state
  puts the tables of the layer and the packet buffers together; parameters of data requests stand beside the buffers,
  parsed headers lie in the tail of a buffer as in the source. What a callback asks others to do is the list
  of actions it returns; a failed assertion and an access outside of a buffer are \<open>None\<close>.
\<close>

section \<open>State\<close>

definition ZB_N_APS_RETRANS_ENTRIES :: nat where "ZB_N_APS_RETRANS_ENTRIES = 10"
definition ZB_N_APS_MAX_FRAME_ENTRIES :: nat where "ZB_N_APS_MAX_FRAME_ENTRIES = 3"
definition ZB_APS_GROUP_UP_Q_SIZE :: nat where "ZB_APS_GROUP_UP_Q_SIZE = 8"
definition ZB_APS_RETRANS_ACK_Q_SIZE :: nat where "ZB_APS_RETRANS_ACK_Q_SIZE = 4"
definition ZB_APS_COMMAND_RADIUS :: u8 where "ZB_APS_COMMAND_RADIUS = 5"
definition ZB_N_APS_ACK_WAIT_DURATION :: zb_time where "ZB_N_APS_ACK_WAIT_DURATION = of_nat (2 * (5 * ZB_TIME_ONE_SECOND))"
definition ZB_APS_POLL_AFTER_REQ_TMO :: zb_time where
  "ZB_APS_POLL_AFTER_REQ_TMO = of_nat (zb_milliseconds_to_beacon_interval 200)"

text \<open>Status bytes: \<^verbatim>\<open>ZB_APS_STATUS_TABLE_FULL\<close>, and \<^verbatim>\<open>RET_NO_ACK\<close>, which is -66, as a byte.\<close>

definition ZB_APS_STATUS_TABLE_FULL :: u8 where "ZB_APS_STATUS_TABLE_FULL = 0xae"
definition RET_NO_ACK_byte :: u8 where "RET_NO_ACK_byte = - 66"
definition RET_OK_byte :: u8 where "RET_OK_byte = 0"

datatype zb_aps_retrans_state =
    RETRANS_ENT_FREE
  | RETRANS_ENT_SENT_MAC_NOT_CONFIRMED
  | RETRANS_ENT_SENT_MAC_NOT_CONFIRMED_APS_ACKED
  | RETRANS_ENT_SENT_MAC_CONFIRMED

record zb_aps_retrans_ent =
  re_addr :: u16
  re_clusterid :: u16
  re_aps_counter :: u8
  re_src_endpoint :: u8
  re_dst_endpoint :: u8
  re_buf :: nat
  re_aps_retries :: nat
  re_nwk_insecure :: bool
  re_state :: zb_aps_retrans_state

text \<open>The buffer number that stands for none.\<close>

definition NO_BUF :: nat where "NO_BUF = 255"

datatype aps_cb = Aps_check_timer_cb

record aps_node =
  abufs :: "nat \<Rightarrow> zb_buf"
  apsde_req :: "nat \<Rightarrow> zb_apsde_data_req"
  nlde_req :: "nat \<Rightarrow> zb_nlde_data_req"
  aps_counter :: u8
  aps_designated_coordinator :: u8
  aps_insecure_join :: u8
  aps_channel_mask :: u32
  aps_use_extended_pan_id :: ieee
  retrans :: "zb_aps_retrans_ent list"
  ack_buf :: nat
  ack_q :: "nat ring"
  binding :: aps_binding
  group_tab :: aps_group_table
  pass_up_q :: "nat ring"
  local_dup_q :: "nat ring"
  active_pass_up_buf :: "nat option"
  aps_dups :: "aps_cb dup_ctx"
  short_address :: u16
  aps_joined_pro :: bool

definition set_abuf :: "nat \<Rightarrow> zb_buf \<Rightarrow> aps_node \<Rightarrow> aps_node" where
  "set_abuf p b s = s\<lparr>abufs := (abufs s)(p := b)\<rparr>"

definition set_apsde :: "nat \<Rightarrow> zb_apsde_data_req \<Rightarrow> aps_node \<Rightarrow> aps_node" where
  "set_apsde p r s = s\<lparr>apsde_req := (apsde_req s)(p := r)\<rparr>"

definition set_nlde :: "nat \<Rightarrow> zb_nlde_data_req \<Rightarrow> aps_node \<Rightarrow> aps_node" where
  "set_nlde p r s = s\<lparr>nlde_req := (nlde_req s)(p := r)\<rparr>"

definition set_ent :: "nat \<Rightarrow> zb_aps_retrans_ent \<Rightarrow> aps_node \<Rightarrow> aps_node" where
  "set_ent i e s = s\<lparr>retrans := (retrans s)[i := e]\<rparr>"

definition set_aps_addr :: "zb_addr_globals \<Rightarrow> aps_node \<Rightarrow> aps_node" where
  "set_aps_addr g s = s\<lparr>aps_dups := (aps_dups s)\<lparr>dc_addr := g\<rparr>\<rparr>"

definition buf_status :: "u16 \<Rightarrow> zb_buf \<Rightarrow> zb_buf" where
  "buf_status st b = b\<lparr>hdr := (hdr b)\<lparr>status := st\<rparr>\<rparr>"

definition zb_aps_init :: "u8 \<Rightarrow> aps_node \<Rightarrow> aps_node" where
  "zb_aps_init random s =
     s\<lparr>aps_counter := random, retrans := map (\<lambda>e. e\<lparr>re_addr := 0xffff, re_buf := NO_BUF\<rparr>) (retrans s), ack_buf := NO_BUF\<rparr>"

section \<open>Actions\<close>

datatype aps_callback = Send_ack_and_continue | Pass_local_group_pkt_up | Pass_group_msg_up

datatype aps_action =
    Apsde_data_confirm nat
  | Apsde_data_indication nat
  | To_nwk nat
  | Free_buf nat
  | In_buf_delayed aps_callback
  | Out_buf_delayed aps_callback
  | Run_callback aps_callback nat
  | Pass_up_group_buf nat
  | Ack_timer nat zb_time
  | Ack_timer_cancel nat
  | Reschedule_poll zb_time
  | Get_peer_short_addr nat nat
  | In_transport_key nat
  | In_update_device nat
  | In_remove_device nat
  | In_request_key nat
  | Apsme_get_confirm nat
  | Apsme_set_confirm nat

section \<open>Requests to the network layer\<close>

definition SIZEOF_NLDE_DATA_REQ :: nat where "SIZEOF_NLDE_DATA_REQ = 8"
definition SIZEOF_APSDE_DATA_REQ :: nat where "SIZEOF_APSDE_DATA_REQ = 18"

definition tail_room :: "nat \<Rightarrow> zb_buf \<Rightarrow> bool" where
  "tail_room n b \<longleftrightarrow> zb_get_buf_tail b n \<noteq> None"

definition fill_nldereq :: "nat \<Rightarrow> u16 \<Rightarrow> bool \<Rightarrow> aps_node \<Rightarrow> aps_node option" where
  "fill_nldereq p dst secure s =
     (if tail_room SIZEOF_NLDE_DATA_REQ (abufs s p)
      then Some (set_nlde p \<lparr>nr_dst_addr = dst, nr_radius = ZB_APS_COMMAND_RADIUS, nr_addr_mode = ADDR_16BIT_DEV_OR_BROADCAST,
                   nr_discovery_route = 1, nr_security_enable = secure, nr_ndsu_handle = 0\<rparr> s)
      else None)"

section \<open>Frames that wait for an acknowledgement\<close>

definition free_entry :: "aps_node \<Rightarrow> nat option" where
  "free_entry s = find (\<lambda>i. re_state (retrans s ! i) = RETRANS_ENT_FREE) [0..<ZB_N_APS_RETRANS_ENTRIES]"

definition keeps_short_addr :: "u8 \<Rightarrow> bool" where
  "keeps_short_addr mode \<longleftrightarrow> mode = ADDR_MODE_DST_ADDR_ENDP_NOT_PRESENT \<or> mode = ADDR_MODE_16_ENDP_PRESENT
     \<or> mode = ADDR_MODE_64_ENDP_PRESENT"

text \<open>
  The result has the status, and the entry. Full is reported when the index is that of the last entry, which is
  in use then; without a free entry the index is one more, and the status is success, with entry 0.
\<close>

definition save_ack_data :: "nat \<Rightarrow> zb_apsde_data_req \<Rightarrow> aps_node \<Rightarrow> u8 \<times> nat \<times> aps_node" where
  "save_ack_data p req s =
     (case free_entry s of
        None \<Rightarrow> (RET_OK_byte, 0, s)
      | Some i \<Rightarrow>
          (if i = ZB_N_APS_RETRANS_ENTRIES - 1 then ZB_APS_STATUS_TABLE_FULL else RET_OK_byte, i,
           set_ent i ((retrans s ! i)\<lparr>
             re_addr := (if keeps_short_addr (rq_addr_mode req) then rq_short req else re_addr (retrans s ! i)),
             re_clusterid := rq_clusterid req, re_aps_counter := aps_counter s - 1,
             re_src_endpoint := rq_src_endpoint req, re_dst_endpoint := rq_dst_endpoint req, re_buf := p,
             re_nwk_insecure := False, re_aps_retries := ZB_N_APS_MAX_FRAME_ENTRIES,
             re_state := RETRANS_ENT_SENT_MAC_NOT_CONFIRMED\<rparr>) s))"

definition done_with_this_ack :: "nat \<Rightarrow> u8 \<Rightarrow> u8 \<Rightarrow> aps_node \<Rightarrow> (aps_node \<times> aps_action list) option" where
  "done_with_this_ack i fc st s =
     (let e = retrans s ! i; p = re_buf e in
      if p \<ge> ZB_IOBUF_POOL_SIZE then None else
      Some (set_ent i (e\<lparr>re_state := RETRANS_ENT_FREE, re_addr := 0xffff, re_buf := NO_BUF\<rparr>)
         (set_abuf p (buf_status (ucast st) (abufs s p)) s),
       [if ZB_APS_FC_GET_ACK_FORMAT fc \<noteq> 0 then Free_buf p else Apsde_data_confirm p, Ack_timer_cancel i]))"

text \<open>The entry an acknowledgement belongs to. Entries that are free have the address \<open>0xffff\<close>.\<close>

definition ack_matches :: "zb_aps_hdr \<Rightarrow> zb_aps_retrans_ent \<Rightarrow> bool" where
  "ack_matches h e \<longleftrightarrow> re_addr e = ah_src_addr h \<and> re_aps_counter e = ah_aps_counter h
     \<and> (ZB_APS_FC_GET_ACK_FORMAT (ah_fc h) \<noteq> 0
        \<or> re_clusterid e = ah_clusterid h \<and> re_src_endpoint e = ah_dst_endpoint h \<and> re_dst_endpoint e = ah_src_endpoint h)"

definition aps_ack_frame_handle :: "zb_aps_hdr \<Rightarrow> aps_node \<Rightarrow> (aps_node \<times> aps_action list) option" where
  "aps_ack_frame_handle h s =
     (case find (\<lambda>i. ack_matches h (retrans s ! i)) [0..<ZB_N_APS_RETRANS_ENTRIES] of
        None \<Rightarrow> Some (s, [])
      | Some i \<Rightarrow>
          if re_state (retrans s ! i) = RETRANS_ENT_SENT_MAC_NOT_CONFIRMED
          then Some (set_ent i ((retrans s ! i)\<lparr>re_state := RETRANS_ENT_SENT_MAC_NOT_CONFIRMED_APS_ACKED\<rparr>) s, [])
          else done_with_this_ack i (ah_fc h) RET_OK_byte s)"

text \<open>The timer of an entry; the number of retries has five bits.\<close>

definition zb_aps_ack_timer_cb :: "nat \<Rightarrow> aps_node \<Rightarrow> (aps_node \<times> aps_action list) option" where
  "zb_aps_ack_timer_cb i s =
     (let p = re_buf (retrans s ! i); fc = bytes (abufs s p) ! boff (abufs s p);
          e = (retrans s ! i)\<lparr>re_aps_retries := re_aps_retries (retrans s ! i) - 1\<rparr>; s1 = set_ent i e s in
      if p \<ge> ZB_IOBUF_POOL_SIZE then None
      else if re_aps_retries e = 0 \<and> re_state e = RETRANS_ENT_SENT_MAC_CONFIRMED
      then done_with_this_ack i fc RET_NO_ACK_byte s1
      else if re_state e = RETRANS_ENT_SENT_MAC_CONFIRMED
      then map_option (\<lambda>s2. (set_ent i (e\<lparr>re_state := RETRANS_ENT_SENT_MAC_NOT_CONFIRMED\<rparr>) s2,
               [Ack_timer i ZB_N_APS_ACK_WAIT_DURATION, To_nwk p]))
             (fill_nldereq p (re_addr e) (\<not> (re_nwk_insecure e \<or> ZB_APS_FC_GET_SECURITY fc \<noteq> 0)) s1)
      else Some (s1, [Ack_timer i ZB_N_APS_ACK_WAIT_DURATION]))"

text \<open>The confirmation of the network layer; the headers of the lower layers are cut off first.\<close>

definition zb_nlde_data_confirm :: "nat \<Rightarrow> aps_node \<Rightarrow> (aps_node \<times> aps_action list) option" where
  "zb_nlde_data_confirm p s =
     (case ZB_MAC_CUT_HDR_WITHOUT_TRAILER (abufs s p) of
        None \<Rightarrow> None
      | Some b1 \<Rightarrow>
         (case ZB_NWK_HDR_CUT b1 of
            None \<Rightarrow> None
          | Some b2 \<Rightarrow>
             (let fc = bytes b2 ! boff b2; s1 = set_abuf p b2 s in
              if ZB_APS_FC_GET_FRAME_TYPE fc = ZB_APS_FRAME_ACK then Some (s1, [Free_buf p])
              else if ZB_APS_FC_GET_ACK_REQUEST fc = 0 then Some (s1, [Apsde_data_confirm p])
              else
                (case find (\<lambda>i. re_buf (retrans s1 ! i) = p) [0..<ZB_N_APS_RETRANS_ENTRIES] of
                   None \<Rightarrow> Some (s1, [Free_buf p])
                 | Some i \<Rightarrow>
                     if re_state (retrans s1 ! i) = RETRANS_ENT_SENT_MAC_NOT_CONFIRMED_APS_ACKED
                     then done_with_this_ack i fc RET_OK_byte s1
                     else if re_state (retrans s1 ! i) = RETRANS_ENT_SENT_MAC_NOT_CONFIRMED
                     then Some (set_ent i ((retrans s1 ! i)\<lparr>re_state := RETRANS_ENT_SENT_MAC_CONFIRMED\<rparr>) s1, [])
                     else None))))"

end
