(* ===== verification/Aps_Data.thy ===== *)
theory Aps_Data
  imports Aps_Node
begin

text \<open>
  Data requests, commands, received frames, frames for groups and the information base, \<^verbatim>\<open>aps/aps_main.c\<close> and
  \<^verbatim>\<open>aps/aps_commands.c\<close>. Variables that the source does not initialise are arguments.
\<close>

section \<open>Data requests\<close>

text \<open>What the address mode of a request says about its destination.\<close>

datatype apsde_destination =
    Send_to u8 u16 zb_apsde_data_req
  | Wait_for_peer nat zb_apsde_data_req
  | No_bound_device

definition is_broadcast_addr :: "u16 \<Rightarrow> bool" where
  "is_broadcast_addr a \<longleftrightarrow> a = 0xffff \<or> a = 0xfffd \<or> a = 0xfffc \<or> a = 0xfffb"

text \<open>An unknown address mode leaves the destination as it was in memory, \<open>u\<close>.\<close>

definition apsde_find_destination ::
  "u16 \<Rightarrow> zb_apsde_data_req \<Rightarrow> aps_node \<Rightarrow> (apsde_destination \<times> aps_node) option" where
  "apsde_find_destination u req s =
     (if rq_addr_mode req = ADDR_MODE_DST_ADDR_ENDP_NOT_PRESENT then
        (case zb_search_dst_in_binding_table (short_address s) (rq_src_endpoint req) (rq_clusterid req) (binding s)
                (dc_addr (aps_dups s)) of
           None \<Rightarrow> None
         | Some (None, g) \<Rightarrow> Some (No_bound_device, set_aps_addr g s)
         | Some (Some (ref, ep), g) \<Rightarrow>
             (let req1 = req\<lparr>rq_dst_endpoint := ep\<rparr>; a = zb_address_short_by_ref ref g in
              Some (if a = ZB_UNKNOWN_SHORT_ADDR then Wait_for_peer ref req1
                    else Send_to (ZB_APS_FC_SET_DELIVERY_MODE 0 ZB_APS_DELIVERY_UNICAST) a (set_rq_short a req1),
                    set_aps_addr g s)))
      else if rq_addr_mode req = ADDR_MODE_16_GROUP_ENDP_NOT_PRESENT then
        Some (Send_to (ZB_APS_FC_SET_DELIVERY_MODE 0 ZB_APS_DELIVERY_GROUP) 0xfffd
               (req\<lparr>rq_tx_options := rq_tx_options req AND NOT ZB_APSDE_TX_OPT_ACK_TX\<rparr>), s)
      else if rq_addr_mode req = ADDR_MODE_16_ENDP_PRESENT then
        Some (Send_to (ZB_APS_FC_SET_DELIVERY_MODE 0
                 (if is_broadcast_addr (rq_short req) then ZB_APS_DELIVERY_BROADCAST else ZB_APS_DELIVERY_UNICAST))
               (rq_short req) req, s)
      else if rq_addr_mode req = ADDR_MODE_64_ENDP_PRESENT then
        map_option (\<lambda>(a, g). (Send_to (ZB_APS_FC_SET_DELIVERY_MODE 0 ZB_APS_DELIVERY_UNICAST) a (set_rq_short a req), set_aps_addr g s))
          (zb_address_short_by_ieee (rq_dst_addr req) (dc_addr (aps_dups s)))
      else Some (Send_to 0 u req, s))"

text \<open>The header is written and the counter goes up.\<close>

definition fill_data_header :: "nat \<Rightarrow> u8 \<Rightarrow> zb_apsde_data_req \<Rightarrow> aps_node \<Rightarrow> aps_node option" where
  "fill_data_header p fc req s =
     map_option (\<lambda>b. (set_abuf p b s)\<lparr>aps_counter := aps_counter s + 1\<rparr>)
       (aps_data_hdr_fill_datareq fc req (aps_counter s) (abufs s p))"

text \<open>The frame goes to the network layer; one for a group first waits for a buffer for the copy for this node.\<close>

definition pass_to_nwk :: "nat \<Rightarrow> u8 \<Rightarrow> u16 \<Rightarrow> u8 \<Rightarrow> aps_node \<Rightarrow> (aps_node \<times> aps_action list) option" where
  "pass_to_nwk p fc dst radius s =
     (if tail_room SIZEOF_NLDE_DATA_REQ (abufs s p) then
        (let s1 = set_nlde p \<lparr>nr_dst_addr = dst, nr_radius = radius, nr_addr_mode = ADDR_16BIT_DEV_OR_BROADCAST,
                    nr_discovery_route = 1, nr_security_enable = (encrypt_type (hdr (abufs s p)) = 0), nr_ndsu_handle = 0\<rparr> s
         in if ZB_APS_FC_GET_DELIVERY_MODE fc = ZB_APS_DELIVERY_GROUP \<and> 0 < n_groups (group_tab s1)
               \<and> \<not> ring_is_full (local_dup_q s1) \<and> \<not> ring_is_full (pass_up_q s1)
            then Some (s1\<lparr>local_dup_q := ring_put (local_dup_q s1) p\<rparr>, [In_buf_delayed Pass_local_group_pkt_up])
            else Some (s1, [To_nwk p]))
      else None)"

definition add_aps :: "aps_action list \<Rightarrow> (aps_node \<times> aps_action list) option \<Rightarrow> (aps_node \<times> aps_action list) option" where
  "add_aps as = map_option (\<lambda>(s, as2). (s, as @ as2))"

definition zb_apsde_data_request :: "u16 \<Rightarrow> nat \<Rightarrow> aps_node \<Rightarrow> (aps_node \<times> aps_action list) option" where
  "zb_apsde_data_request u p s =
     (if \<not> tail_room SIZEOF_APSDE_DATA_REQ (abufs s p) then None
      else
        (case apsde_find_destination u (apsde_req s p) s of
           None \<Rightarrow> None
         | Some (No_bound_device, s1) \<Rightarrow> Some (s1, [Apsde_data_confirm p])
         | Some (Wait_for_peer ref req, s1) \<Rightarrow> Some (set_apsde p req s1, [Get_peer_short_addr ref p])
         | Some (Send_to fc0 dst req, s1) \<Rightarrow>
             (let s2 = set_apsde p req s1; fc = ZB_APS_FC_SET_ACK_FORMAT fc0 0 in
              if rq_tx_options req AND ZB_APSDE_TX_OPT_ACK_TX \<noteq> 0 then
                (let fc1 = ZB_APS_FC_SET_ACK_REQUEST fc 1 in
                 case fill_data_header p fc1 req s2 of
                   None \<Rightarrow> None
                 | Some s3 \<Rightarrow>
                     (case save_ack_data p req s3 of
                        (ret, ref, s4) \<Rightarrow>
                          if ret \<noteq> RET_OK_byte
                          then Some (set_abuf p (buf_status (ucast ret) (abufs s4 p)) s4, [Apsde_data_confirm p])
                          else add_aps [Reschedule_poll ZB_APS_POLL_AFTER_REQ_TMO, Ack_timer ref ZB_N_APS_ACK_WAIT_DURATION]
                                 (pass_to_nwk p fc1 dst (rq_radius req) s4)))
              else
                (case fill_data_header p fc req s2 of
                   None \<Rightarrow> None
                 | Some s3 \<Rightarrow> pass_to_nwk p fc dst (rq_radius req) s3))))"

section \<open>Commands\<close>

definition APS_CMD_TRANSPORT_KEY :: u8 where "APS_CMD_TRANSPORT_KEY = 5"
definition APS_CMD_UPDATE_DEVICE :: u8 where "APS_CMD_UPDATE_DEVICE = 6"
definition APS_CMD_REMOVE_DEVICE :: u8 where "APS_CMD_REMOVE_DEVICE = 7"
definition APS_CMD_REQUEST_KEY :: u8 where "APS_CMD_REQUEST_KEY = 8"

text \<open>A command that must be acknowledged takes a free entry; without one it is sent all the same.\<close>

definition save_command :: "nat \<Rightarrow> u16 \<Rightarrow> bool \<Rightarrow> aps_node \<Rightarrow> aps_node \<times> aps_action list" where
  "save_command p dest secure s =
     (case free_entry s of
        None \<Rightarrow> (s, [])
      | Some i \<Rightarrow>
          (set_ent i ((retrans s ! i)\<lparr>re_addr := dest, re_aps_counter := aps_counter s, re_buf := p,
              re_nwk_insecure := \<not> secure, re_aps_retries := ZB_N_APS_MAX_FRAME_ENTRIES,
              re_state := RETRANS_ENT_SENT_MAC_NOT_CONFIRMED\<rparr>) s,
           [Ack_timer i ZB_N_APS_ACK_WAIT_DURATION]))"

definition zb_aps_send_command :: "nat \<Rightarrow> u16 \<Rightarrow> u8 \<Rightarrow> bool \<Rightarrow> aps_node \<Rightarrow> (aps_node \<times> aps_action list) option" where
  "zb_aps_send_command p dest command secure s =
     (let need_ack = (\<not> ZB_NWK_IS_ADDRESS_BROADCAST dest \<and> command \<noteq> APS_CMD_TRANSPORT_KEY);
          (s1, acts) = (if need_ack then save_command p dest secure s else (s, []))
      in case aps_command_fill need_ack (aps_counter s1) command (abufs s1 p) of
           None \<Rightarrow> None
         | Some b \<Rightarrow>
             map_option (\<lambda>s2. (s2, acts @ [To_nwk p]))
               (fill_nldereq p dest secure ((set_abuf p b s1)\<lparr>aps_counter := aps_counter s1 + 1\<rparr>)))"

definition zb_aps_in_command_handle :: "nat \<Rightarrow> aps_node \<Rightarrow> (aps_node \<times> aps_action list) option" where
  "zb_aps_in_command_handle p s =
     (case zb_buf_cut_left (abufs s p) 3 of
        None \<Rightarrow> None
      | Some (b, q) \<Rightarrow>
          (let cmd = bytes b ! (q - 1); s1 = set_abuf p b s; unless_joined = (\<lambda>a. if aps_joined_pro s then [] else [a]) in
           Some (s1,
             if cmd = APS_CMD_TRANSPORT_KEY then unless_joined (In_transport_key p)
             else if cmd = APS_CMD_UPDATE_DEVICE then unless_joined (In_update_device p)
             else if cmd = APS_CMD_REMOVE_DEVICE then unless_joined (In_remove_device p)
             else if cmd = APS_CMD_REQUEST_KEY then unless_joined (In_request_key p)
             else [Free_buf p])))"

section \<open>Received frames\<close>

definition aps_ack_send_handle :: "nat \<Rightarrow> zb_aps_hdr \<Rightarrow> aps_node \<Rightarrow> (aps_node \<times> aps_action list) option" where
  "aps_ack_send_handle p h s =
     (case aps_ack_fill h (abufs s p) of
        None \<Rightarrow> None
      | Some b \<Rightarrow> map_option (\<lambda>s1. (s1, [To_nwk p])) (fill_nldereq p (ah_src_addr h) True (set_abuf p b s)))"

text \<open>The frame after the check for repetitions; the parsed header becomes the parameter of the buffer.\<close>

definition deliver_frame :: "nat \<Rightarrow> zb_aps_hdr \<Rightarrow> aps_node \<Rightarrow> (aps_node \<times> aps_action list) option" where
  "deliver_frame p h s =
     (case zb_buf_assign_param (abufs s p) (aps_hdr_bytes h) of
        None \<Rightarrow> None
      | Some b \<Rightarrow>
          (let s1 = set_abuf p b s in
           if ZB_APS_FC_GET_FRAME_TYPE (ah_fc h) = ZB_APS_FRAME_COMMAND then zb_aps_in_command_handle p s1
           else if \<not> (ZB_APS_FC_GET_FRAME_TYPE (ah_fc h) = ZB_APS_FRAME_DATA
                      \<and> ZB_APS_FC_GET_DELIVERY_MODE (ah_fc h) = ZB_APS_DELIVERY_GROUP)
           then Some (s1, [Apsde_data_indication p])
           else Some (s1, [Pass_up_group_buf p])))"

definition zb_nlde_data_indication_continue :: "zb_aps_hdr \<Rightarrow> nat \<Rightarrow> aps_node \<Rightarrow> (aps_node \<times> aps_action list) option" where
  "zb_nlde_data_indication_continue u p s =
     (case zb_aps_hdr_parse True u (abufs s p) of
        None \<Rightarrow> None
      | Some (b, h) \<Rightarrow>
          (let s1 = set_abuf p b s in
           case (if ack_buf s1 \<noteq> NO_BUF
                 then map_option (\<lambda>(s2, as). (s2\<lparr>ack_buf := NO_BUF\<rparr>, as)) (aps_ack_send_handle (ack_buf s1) h s1)
                 else Some (s1, [])) of
             None \<Rightarrow> None
           | Some (s2, acts) \<Rightarrow>
               (case aps_check_dups Aps_check_timer_cb (ah_src_addr h) (ah_aps_counter h) (aps_dups s2) of
                  None \<Rightarrow> None
                | Some (dup, d) \<Rightarrow>
                    add_aps acts
                      (if dup then Some (s2\<lparr>aps_dups := d\<rparr>, [Free_buf p])
                       else deliver_frame p h (s2\<lparr>aps_dups := d\<rparr>)))))"

definition zb_aps_send_ack_and_continue :: "zb_aps_hdr \<Rightarrow> nat \<Rightarrow> aps_node \<Rightarrow> (aps_node \<times> aps_action list) option" where
  "zb_aps_send_ack_and_continue u p s =
     (case ring_peek (ack_q s) of
        None \<Rightarrow> None
      | Some in_pkt \<Rightarrow>
          zb_nlde_data_indication_continue u in_pkt (s\<lparr>ack_q := ring_flush_get (ack_q s), ack_buf := p\<rparr>))"

definition zb_nlde_data_indication :: "zb_aps_hdr \<Rightarrow> nat \<Rightarrow> aps_node \<Rightarrow> (aps_node \<times> aps_action list) option" where
  "zb_nlde_data_indication u p s =
     (let b = abufs s p; fc = bytes b ! (boff b + zb_nwk_hdr_size (hdr_fctl b)) in
      if ZB_APS_FC_GET_FRAME_TYPE fc = ZB_APS_FRAME_ACK then
        (case zb_aps_hdr_parse True u b of
           None \<Rightarrow> None
         | Some (b1, h) \<Rightarrow>
             map_option (\<lambda>(s1, as). (s1, as @ [Free_buf p])) (aps_ack_frame_handle h (set_abuf p b1 s)))
      else if ZB_APS_FC_GET_ACK_REQUEST fc \<noteq> 0 \<and> \<not> ring_is_full (ack_q s)
      then Some (s\<lparr>ack_q := ring_put (ack_q s) p\<rparr>, [Out_buf_delayed Send_ack_and_continue])
      else zb_nlde_data_indication_continue u p s)"

section \<open>Frames for groups\<close>

definition set_buf_handle :: "u8 \<Rightarrow> zb_buf \<Rightarrow> zb_buf" where
  "set_buf_handle v b = b\<lparr>hdr := (hdr b)\<lparr>handle := v\<rparr>\<rparr>"

text \<open>The copy of a frame of this node for its own group members. Without a frame an assertion fails.\<close>

definition zb_aps_pass_local_group_pkt_up :: "nat \<Rightarrow> aps_node \<Rightarrow> (aps_node \<times> aps_action list) option" where
  "zb_aps_pass_local_group_pkt_up p s =
     (case ring_peek (local_dup_q s) of
        None \<Rightarrow> None
      | Some out \<Rightarrow>
          (let b = ZB_BUF_COPY (abufs s p) (abufs s out); s1 = s\<lparr>local_dup_q := ring_flush_get (local_dup_q s)\<rparr> in
           case get_aps_hdr b of
             None \<Rightarrow> None
           | Some u \<Rightarrow>
               (case zb_aps_hdr_parse False u b of
                  None \<Rightarrow> None
                | Some (b1, h) \<Rightarrow>
                    map_option (\<lambda>b2. (set_abuf p b2 s1, [To_nwk out, Pass_up_group_buf p]))
                      (put_aps_hdr (h\<lparr>ah_src_addr := short_address s\<rparr>) b1))))"

definition zb_aps_pass_up_group_buf :: "nat \<Rightarrow> aps_node \<Rightarrow> aps_node \<times> aps_action list" where
  "zb_aps_pass_up_group_buf p s =
     (if ring_is_full (pass_up_q s) then (s, [Free_buf p])
      else
        (let s1 = set_abuf p (set_buf_handle 0 (abufs s p)) s in
         if active_pass_up_buf s1 = None
         then (s1\<lparr>active_pass_up_buf := Some p\<rparr>, [In_buf_delayed Pass_group_msg_up])
         else (s1\<lparr>pass_up_q := ring_put (pass_up_q s1) p\<rparr>, [])))"

definition find_group :: "u16 \<Rightarrow> aps_group_table \<Rightarrow> nat option" where
  "find_group a t = find (\<lambda>i. group_addr (groups t ! i) = a) [0..<n_groups t]"

text \<open>The active frame has been passed to all endpoints of its group.\<close>

definition group_msg_done :: "nat \<Rightarrow> nat \<Rightarrow> aps_node \<Rightarrow> aps_node \<times> aps_action list" where
  "group_msg_done p act s =
     (case ring_peek (pass_up_q s) of
        Some q \<Rightarrow>
          (s\<lparr>active_pass_up_buf := Some q, pass_up_q := ring_flush_get (pass_up_q s)\<rparr>,
           [Free_buf act, Run_callback Pass_group_msg_up p])
      | None \<Rightarrow> (s\<lparr>active_pass_up_buf := None\<rparr>, [Free_buf act, Free_buf p]))"

text \<open>
  One endpoint of the group gets the active frame, copied to the new buffer; when all have it the next frame of the
  queue becomes active.
\<close>

definition zb_aps_pass_group_msg_up :: "nat \<Rightarrow> aps_node \<Rightarrow> (aps_node \<times> aps_action list) option" where
  "zb_aps_pass_group_msg_up p s =
     (case active_pass_up_buf s of
        None \<Rightarrow> None
      | Some act \<Rightarrow>
          (case get_aps_hdr (abufs s act) of
             None \<Rightarrow> None
           | Some h \<Rightarrow>
               (let k = unat (handle (hdr (abufs s act))) in
                case find_group (ah_group_addr h) (group_tab s) of
                  Some g \<Rightarrow>
                    if k < n_endpoints (groups (group_tab s) ! g) then
                      (let b = set_buf_handle 0 (ZB_BUF_COPY (abufs s p) (abufs s act)) in
                       map_option (\<lambda>b1. (set_abuf act (set_buf_handle (handle (hdr (abufs s act)) + 1) (abufs s act)) (set_abuf p b1 s),
                            [Apsde_data_indication p, In_buf_delayed Pass_group_msg_up]))
                         (put_aps_hdr (h\<lparr>ah_dst_endpoint := endpoints (groups (group_tab s) ! g) ! k\<rparr>) b))
                    else Some (group_msg_done p act s)
                | None \<Rightarrow> Some (group_msg_done p act s))))"

section \<open>The information base\<close>

definition ZB_APS_AIB_DESIGNATED_COORD :: u32 where "ZB_APS_AIB_DESIGNATED_COORD = 0xc2"
definition ZB_APS_AIB_CHANNEL_MASK :: u32 where "ZB_APS_AIB_CHANNEL_MASK = 0xc3"
definition ZB_APS_AIB_USE_EXT_PANID :: u32 where "ZB_APS_AIB_USE_EXT_PANID = 0xc4"
definition ZB_APS_AIB_NONMEMBER_RADIUS :: u32 where "ZB_APS_AIB_NONMEMBER_RADIUS = 0xc6"
definition ZB_APS_AIB_USE_INSECURE_JOIN :: u32 where "ZB_APS_AIB_USE_INSECURE_JOIN = 0xc8"
definition ZB_APS_STATUS_UNSUPPORTED_ATTRIBUTE :: u32 where "ZB_APS_STATUS_UNSUPPORTED_ATTRIBUTE = 0xb0"

text \<open>
  The confirmation: status, attribute (enumerations, four bytes each), length, then the value. Only one byte is
  written as value of the channel mask; the three behind it, \<open>old\<close>, are what the buffer had there.
\<close>

definition get_confirm_bytes :: "u32 \<Rightarrow> u8 list \<Rightarrow> aps_node \<Rightarrow> u8 list" where
  "get_confirm_bytes attr old s =
     (let ok = (\<lambda>len v. htole32 0 @ htole32 attr @ [len] @ v) in
      if attr = ZB_APS_AIB_DESIGNATED_COORD then ok 1 [aps_designated_coordinator s]
      else if attr = ZB_APS_AIB_USE_INSECURE_JOIN then ok 1 [aps_insecure_join s]
      else if attr = ZB_APS_AIB_CHANNEL_MASK then ok 4 (ucast (aps_channel_mask s) # old)
      else if attr = ZB_APS_AIB_USE_EXT_PANID then ok 8 (aps_use_extended_pan_id s)
      else if attr = ZB_APS_AIB_NONMEMBER_RADIUS then ok 1 [2]
      else htole32 ZB_APS_STATUS_UNSUPPORTED_ATTRIBUTE @ htole32 attr @ [0])"

definition get_confirm_size :: "u32 \<Rightarrow> nat" where
  "get_confirm_size attr = 9 +
     (if attr = ZB_APS_AIB_DESIGNATED_COORD \<or> attr = ZB_APS_AIB_USE_INSECURE_JOIN \<or> attr = ZB_APS_AIB_NONMEMBER_RADIUS then 1
      else if attr = ZB_APS_AIB_CHANNEL_MASK then 4 else if attr = ZB_APS_AIB_USE_EXT_PANID then 8 else 0)"

definition zb_apsme_get_request :: "nat \<Rightarrow> aps_node \<Rightarrow> (aps_node \<times> aps_action list) option" where
  "zb_apsme_get_request p s =
     (let b = abufs s p; attr = letoh32 (bytes_at (boff b) 4 b) in
      case zb_buf_initial_alloc b (get_confirm_size attr) of
        None \<Rightarrow> None
      | Some (b1, q) \<Rightarrow>
          map_option (\<lambda>b2. (set_abuf p b2 s, [Apsme_get_confirm p]))
            (write_bytes q (get_confirm_bytes attr (bytes_at (q + 10) 3 b1) s) b1))"

definition set_aib :: "u32 \<Rightarrow> u8 list \<Rightarrow> aps_node \<Rightarrow> aps_node" where
  "set_aib attr v s =
     (if attr = ZB_APS_AIB_DESIGNATED_COORD then s\<lparr>aps_designated_coordinator := v ! 0\<rparr>
      else if attr = ZB_APS_AIB_USE_INSECURE_JOIN then s\<lparr>aps_insecure_join := v ! 0\<rparr>
      else if attr = ZB_APS_AIB_CHANNEL_MASK then s\<lparr>aps_channel_mask := ucast (v ! 0)\<rparr>
      else if attr = ZB_APS_AIB_USE_EXT_PANID then s\<lparr>aps_use_extended_pan_id := take 8 v\<rparr>
      else s)"

definition set_status :: "u32 \<Rightarrow> u32" where
  "set_status attr =
     (if attr = ZB_APS_AIB_DESIGNATED_COORD \<or> attr = ZB_APS_AIB_USE_INSECURE_JOIN \<or> attr = ZB_APS_AIB_CHANNEL_MASK
         \<or> attr = ZB_APS_AIB_USE_EXT_PANID then 0 else ZB_APS_STATUS_UNSUPPORTED_ATTRIBUTE)"

definition zb_apsme_set_request :: "nat \<Rightarrow> aps_node \<Rightarrow> (aps_node \<times> aps_action list) option" where
  "zb_apsme_set_request p s =
     (let b = abufs s p; attr = letoh32 (bytes_at (boff b) 4 b) in
      case zb_buf_initial_alloc b 8 of
        None \<Rightarrow> None
      | Some (b1, q) \<Rightarrow>
          map_option (\<lambda>b2. (set_abuf p b2 (set_aib attr (drop (boff b + 5) (bytes b)) s), [Apsme_set_confirm p]))
            (write_bytes q (htole32 (set_status attr) @ htole32 attr) b1))"

text \<open>The confirmations only free the buffer.\<close>

definition zb_apsme_get_confirm :: "nat \<Rightarrow> aps_action list" where "zb_apsme_get_confirm p = [Free_buf p]"
definition zb_apsme_set_confirm :: "nat \<Rightarrow> aps_action list" where "zb_apsme_set_confirm p = [Free_buf p]"

end
