(* ===== verification/Aps_Frame_Props.thy ===== *)
theory Aps_Frame_Props
  imports Aps_Frame Nwk_Frame_Props
begin

text \<open>
  Headers of the application support layer: what is filled in is what is parsed, and the acknowledgement of a frame names it.
\<close>

section \<open>Control field\<close>

lemma aps_fc_ack_request:
  "ZB_APS_FC_GET_FRAME_TYPE (ZB_APS_FC_SET_ACK_REQUEST fc 1) = ZB_APS_FC_GET_FRAME_TYPE fc"
  "ZB_APS_FC_GET_DELIVERY_MODE (ZB_APS_FC_SET_ACK_REQUEST fc 1) = ZB_APS_FC_GET_DELIVERY_MODE fc"
  "ZB_APS_FC_GET_ACK_FORMAT (ZB_APS_FC_SET_ACK_REQUEST fc 1) = ZB_APS_FC_GET_ACK_FORMAT fc"
  "ZB_APS_FC_GET_ACK_REQUEST (ZB_APS_FC_SET_ACK_REQUEST fc 1) = 1"
proof -
  have one: "(x AND 1) OR 1 = (1 :: u8)" for x by (rule bit_word_eqI) (auto simp: bit_simps)
  show "ZB_APS_FC_GET_FRAME_TYPE (ZB_APS_FC_SET_ACK_REQUEST fc 1) = ZB_APS_FC_GET_FRAME_TYPE fc"
    "ZB_APS_FC_GET_DELIVERY_MODE (ZB_APS_FC_SET_ACK_REQUEST fc 1) = ZB_APS_FC_GET_DELIVERY_MODE fc"
    "ZB_APS_FC_GET_ACK_FORMAT (ZB_APS_FC_SET_ACK_REQUEST fc 1) = ZB_APS_FC_GET_ACK_FORMAT fc"
    "ZB_APS_FC_GET_ACK_REQUEST (ZB_APS_FC_SET_ACK_REQUEST fc 1) = 1"
    by (simp_all add: aps_fc_defs bit.conj_disj_distrib2 one)
qed

lemma aps_command_fc [simp]:
  "ZB_APS_FC_GET_FRAME_TYPE (ZB_APS_FC_SET_COMMAND 0 (if a then 1 else 0)) = ZB_APS_FRAME_COMMAND"
  "ZB_APS_FC_GET_ACK_FORMAT (ZB_APS_FC_SET_COMMAND 0 (if a then 1 else 0)) = 1"
  "ZB_APS_FC_GET_ACK_REQUEST (ZB_APS_FC_SET_COMMAND 0 (if a then 1 else 0)) = (if a then 1 else 0)"
  by (cases a; simp add: aps_fc_defs)+

lemma aps_ack_fc_fields [simp]:
  "ZB_APS_FC_GET_FRAME_TYPE (aps_ack_fc h) = ZB_APS_FRAME_ACK"
  "ZB_APS_FC_GET_DELIVERY_MODE (aps_ack_fc h) = 0"
  "ZB_APS_FC_GET_ACK_REQUEST (aps_ack_fc h) = 0"
  "ZB_APS_FC_GET_ACK_FORMAT (aps_ack_fc h) = (if ZB_APS_FC_GET_FRAME_TYPE (ah_fc h) \<noteq> ZB_APS_FRAME_COMMAND then 0 else 1)"
  by (cases "ZB_APS_FC_GET_FRAME_TYPE (ah_fc h) = ZB_APS_FRAME_COMMAND"; simp add: aps_ack_fc_def aps_fc_defs)+

section \<open>Parameters in the tail\<close>

lemma letoh16_cons [simp]: "letoh16 (a # c # x # bs) = letoh16 [a, c]"
  by (simp add: letoh16_def)

lemma length_aps_hdr_bytes [simp]: "length (aps_hdr_bytes h) = SIZEOF_APS_HDR"
  by (simp add: aps_hdr_bytes_def SIZEOF_APS_HDR_def)

lemma aps_hdr_of_bytes_append [simp]: "aps_hdr_of_bytes (aps_hdr_bytes h @ r) = h"
proof -
  have "letoh16 [ucast v, ucast (drop_bit 8 v)] = v" for v :: u16
    using letoh16_htole16(1) [of v] by (simp only: htole16_def)
  then show ?thesis by (simp add: aps_hdr_of_bytes_def aps_hdr_bytes_def htole16_def)
qed

lemma aps_hdr_of_bytes_bytes [simp]: "aps_hdr_of_bytes (aps_hdr_bytes h) = h"
  using aps_hdr_of_bytes_append [of h "[]"] by simp

lemma get_put_aps_hdr:
  assumes "buf_ok b" "put_aps_hdr h b = Some b'"
  shows "get_aps_hdr b' = Some h" "payload b' = payload b" "buf_ok b'" "hdr b' = hdr b"
proof -
  have t: "boff b + blen b + length (aps_hdr_bytes h) \<le> ZB_IO_BUF_SIZE" and b': "b' = b\<lparr>bytes := memcpy (ZB_IO_BUF_SIZE - length (aps_hdr_bytes h)) (aps_hdr_bytes h) (bytes b)\<rparr>"
    using assms(2) by (auto simp: put_aps_hdr_def zb_get_buf_tail_def split: if_splits)
  from write_tail [OF _ t b'] assms(1)
  show "get_aps_hdr b' = Some h" "payload b' = payload b" "buf_ok b'" "hdr b' = hdr b"
    by (auto simp: get_aps_hdr_def buf_ok_def b')
qed

section \<open>The parser on the data of a buffer\<close>

lemma letoh16_drop_append: "n + 2 \<le> length bs \<Longrightarrow> letoh16 (drop n (bs @ r)) = letoh16 (drop n bs)"
  by (simp add: letoh16_def nth_append)

lemma parse_fields_append:
  assumes "aps_parsed_size (bs ! 0) \<le> length bs"
  shows "aps_parse_fields (bs @ r) h = aps_parse_fields bs h"
proof -
  have n: "(bs @ r) ! i = bs ! i" if "i < length bs" for i using that by (simp add: nth_append)
  have "2 \<le> length bs" using assms by (simp add: aps_parsed_size_def split: if_splits)
  then have z: "(bs @ r) ! 0 = bs ! 0" "(bs @ r) ! 1 = bs ! 1" by (auto simp: nth_append)
  show ?thesis
  proof (cases "ZB_APS_FC_GET_ACK_FORMAT (bs ! 0) = 0")
    case True
    then show ?thesis
      using assms unfolding aps_parse_fields_def Let_def z
      by (cases "ZB_APS_FC_GET_DELIVERY_MODE (bs ! 0) = ZB_APS_DELIVERY_GROUP")
        (simp_all add: aps_parsed_size_def letoh16_drop_append n del: drop_append)
  next
    case False
    then show ?thesis unfolding aps_parse_fields_def Let_def z by simp
  qed
qed

lemma buf_data: "buf_ok b \<Longrightarrow> drop (boff b) (bytes b) = payload b @ drop (boff b + blen b) (bytes b)"
proof -
  have "drop (boff b + blen b) (bytes b) = drop (blen b) (drop (boff b) (bytes b))" by (simp add: add.commute)
  then show ?thesis unfolding payload_def by (metis append_take_drop_id)
qed

lemma parse_data:
  assumes "buf_ok b" "payload b = bs @ rest" "bs \<noteq> []" "aps_parsed_size (bs ! 0) \<le> length bs"
  shows "(let bs = drop (boff b) (bytes b) in
          if bs \<noteq> [] \<and> aps_parsed_size (bs ! 0) \<le> length bs then Some (b, aps_parse_fields bs h) else None)
    = Some (b, aps_parse_fields bs h)"
proof -
  have d: "drop (boff b) (bytes b) = bs @ rest @ drop (boff b + blen b) (bytes b)"
    using buf_data [OF assms(1)] assms(2) by simp
  show ?thesis unfolding Let_def d using assms(3,4) by (simp add: parse_fields_append nth_append)
qed

lemma parse_payload:
  assumes "buf_ok b" "payload b = bs @ rest" "bs \<noteq> []" "aps_parsed_size (bs ! 0) \<le> length bs"
  shows "zb_aps_hdr_parse False u b = Some (b, aps_parse_fields bs (u\<lparr>ah_src_addr := 0, ah_dst_addr := 0\<rparr>))"
  using parse_data [OF assms] by (simp add: zb_aps_hdr_parse_def)

lemma parse_received:
  assumes "buf_ok b" "payload b = nwk_header fc dst src r q @ x @ bs @ rest" "length fc = 2" "8 + length x = zb_nwk_hdr_size fc"
    "bs \<noteq> []" "aps_parsed_size (bs ! 0) \<le> length bs"
  obtains b' where "zb_aps_hdr_parse True u b = Some (b', aps_parse_fields bs (u\<lparr>ah_src_addr := src, ah_dst_addr := dst\<rparr>))"
    "buf_ok b'" "payload b' = bs @ rest"
proof -
  note f = header_fields [OF assms(1-3)]
  have l: "zb_nwk_hdr_size (hdr_fctl b) \<le> blen b"
    using length_payload [OF assms(1)] assms(2-4) f(1) by simp
  from cut_left_payload [OF assms(1) l] obtain b' where b': "zb_buf_cut_left b (zb_nwk_hdr_size (hdr_fctl b)) = Some (b', boff b')"
    "buf_ok b'" "payload b' = drop (zb_nwk_hdr_size fc) (payload b)" unfolding f(1) by blast
  have "payload b' = bs @ rest" unfolding b'(3) assms(2) assms(4) [symmetric] using assms(3) by simp
  with parse_data [OF b'(2) this assms(5,6)] show thesis
    by (intro that [of b']) (use b'(1,2) f(2,3) in \<open>simp_all add: zb_aps_hdr_parse_def\<close>)
qed

section \<open>Data headers\<close>

definition is_group :: "u8 \<Rightarrow> bool" where
  "is_group fc \<longleftrightarrow> ZB_APS_FC_GET_DELIVERY_MODE fc = ZB_APS_DELIVERY_GROUP"

definition data_fields :: "u8 \<Rightarrow> zb_apsde_data_req \<Rightarrow> u8 \<Rightarrow> zb_aps_hdr \<Rightarrow> zb_aps_hdr" where
  "data_fields fc req counter h =
     (if is_group fc then h\<lparr>ah_group_addr := rq_short req\<rparr> else h\<lparr>ah_dst_endpoint := rq_dst_endpoint req\<rparr>)
       \<lparr>ah_fc := fc, ah_clusterid := rq_clusterid req, ah_profileid := rq_profileid req,
        ah_src_endpoint := rq_src_endpoint req, ah_aps_counter := counter\<rparr>"

lemma parse_data_hdr:
  assumes "ZB_APS_FC_GET_ACK_FORMAT fc = 0"
  shows "aps_parse_fields (aps_data_hdr fc req c) h = data_fields fc req c h"
    and "aps_parsed_size (aps_data_hdr fc req c ! 0) = length (aps_data_hdr fc req c)"
    and "ZB_APS_FC_GET_FRAME_TYPE fc \<noteq> ZB_APS_FRAME_COMMAND \<Longrightarrow> ZB_APS_HDR_SIZE fc = length (aps_data_hdr fc req c)"
proof -
  have v: "letoh16 [ucast v, ucast (drop_bit 8 v)] = v" for v :: u16
    using letoh16_htole16(1) [of v] by (simp only: htole16_def)
  show "aps_parse_fields (aps_data_hdr fc req c) h = data_fields fc req c h"
    using assms by (auto simp: aps_parse_fields_def aps_data_hdr_def data_fields_def is_group_def htole16_def v Let_def)
qed (use assms in \<open>auto simp: aps_data_hdr_def aps_parsed_size_def ZB_APS_HDR_SIZE_def\<close>)

lemma filled_data_header:
  assumes "buf_ok b" "blen b + 9 < ZB_IO_BUF_SIZE" "ZB_APS_FC_GET_ACK_FORMAT fc = 0"
  obtains b1 where "aps_data_hdr_fill_datareq fc req c b = Some b1" "buf_ok b1" "payload b1 = aps_data_hdr fc req c @ payload b"
proof -
  let ?sz = "length (aps_data_hdr fc req c)"
  let ?b0 = "b\<lparr>hdr := (hdr b)\<lparr>encrypt_type := ZB_SECUR_NO_ENCR\<rparr>\<rparr>"
  have sz: "1 + 1 + 2 + 2 + 1 + 1 + (if ZB_APS_FC_GET_DELIVERY_MODE fc = ZB_APS_DELIVERY_GROUP then 1 else 0) = ?sz"
    by (simp add: aps_data_hdr_def)
  have "buf_ok ?b0" "?sz + blen ?b0 < ZB_IO_BUF_SIZE" using assms(1,2) by (auto simp: buf_ok_def aps_data_hdr_def)
  from alloc_left_payload [OF this] obtain b1 where b1: "zb_buf_smart_alloc_left ?b0 ?sz = Some (b1, boff b1)" "buf_ok b1"
    "blen b1 = blen b + ?sz" "drop ?sz (payload b1) = payload b" by (auto simp: payload_def)
  obtain b2 where "write_bytes (boff b1) (aps_data_hdr fc req c) b1 = Some b2" "buf_ok b2"
    "payload b2 = aps_data_hdr fc req c @ drop ?sz (payload b1)"
    by (rule write_front [OF b1(2), of "aps_data_hdr fc req c"]) (use b1(3) in simp)
  then show thesis
    using that [of b2] b1(4) assms(3) unfolding aps_data_hdr_fill_datareq_def Let_def sz b1(1) by simp
qed

text \<open>
  The header that a data request writes is parsed back: addresses of the group or endpoint, cluster, profile, source endpoint
  and counter; fields the frame does not have stay as the caller had them. The computed size of the header
  ends where the payload begins.
\<close>

theorem aps_data_header_reads_back:
  assumes "buf_ok b" "blen b + 9 < ZB_IO_BUF_SIZE"
    and "ZB_APS_FC_GET_ACK_FORMAT fc = 0" "ZB_APS_FC_GET_FRAME_TYPE fc \<noteq> ZB_APS_FRAME_COMMAND"
  shows "\<exists>b1 b2. aps_data_hdr_fill_datareq fc req c b = Some b1
    \<and> zb_aps_hdr_parse False u b1 = Some (b1,
        (if ZB_APS_FC_GET_DELIVERY_MODE fc = ZB_APS_DELIVERY_GROUP then u\<lparr>ah_group_addr := rq_short req\<rparr>
         else u\<lparr>ah_dst_endpoint := rq_dst_endpoint req\<rparr>)
          \<lparr>ah_fc := fc, ah_src_addr := 0, ah_dst_addr := 0, ah_clusterid := rq_clusterid req, ah_profileid := rq_profileid req,
           ah_src_endpoint := rq_src_endpoint req, ah_aps_counter := c\<rparr>)
    \<and> ZB_APS_HDR_CUT b1 = Some b2 \<and> payload b2 = payload b"
proof -
  obtain b1 where b1: "aps_data_hdr_fill_datareq fc req c b = Some b1" "buf_ok b1" "payload b1 = aps_data_hdr fc req c @ payload b"
    by (rule filled_data_header [OF assms(1-3), where req = req and c = c])
  note p = parse_data_hdr [OF assms(3)]
  have ne: "aps_data_hdr fc req c \<noteq> []" by (simp add: aps_data_hdr_def)
  have "bytes b1 ! boff b1 = fc"
    using byte_at_payload [of 0 b1] b1(2,3) length_payload [OF b1(2)] by (simp add: aps_data_hdr_def)
  then have sz: "zb_aps_full_hdr_size b1 = length (aps_data_hdr fc req c)"
    using p(3) assms(4) by (simp add: zb_aps_full_hdr_size_def)
  have "length (aps_data_hdr fc req c) \<le> blen b1" using length_payload [OF b1(2)] b1(3) by simp
  from cut_left_payload [OF b1(2) this] b1(3) obtain b2 where "ZB_APS_HDR_CUT b1 = Some b2" "payload b2 = payload b"
    by (auto simp: ZB_APS_HDR_CUT_def sz)
  with parse_payload [OF b1(2,3) ne eq_imp_le [OF p(2)], of u] b1(1) p(1) show ?thesis
    by (auto simp: data_fields_def is_group_def)
qed

theorem aps_data_header_reads_back_witness:
  "\<exists>b1 h. aps_data_hdr_fill_datareq 0x0c \<lparr>rq_dst_addr = htole16 0x1234 @ replicate 6 0, rq_profileid = 0x104, rq_clusterid = 6,
        rq_dst_endpoint = 10, rq_src_endpoint = 11, rq_radius = 5, rq_addr_mode = 1, rq_tx_options = 0\<rparr> 99
      \<lparr>hdr = hdr_zero, bytes = replicate 148 0\<rparr> = Some b1
    \<and> zb_aps_hdr_parse False (aps_hdr_of_bytes (replicate 14 7)) b1 = Some (b1, h) \<and> ah_group_addr h = 0x1234 \<and> ah_dst_endpoint h = 7
    \<and> ah_profileid h = 0x104 \<and> ah_aps_counter h = 99"
proof -
  have "ZB_APS_FC_GET_ACK_FORMAT 0x0c = 0" "ZB_APS_FC_GET_FRAME_TYPE 0x0c \<noteq> ZB_APS_FRAME_COMMAND"
    "ZB_APS_FC_GET_DELIVERY_MODE 0x0c = ZB_APS_DELIVERY_GROUP" by (simp_all add: aps_fc_defs)
  with aps_data_header_reads_back [where b = "\<lparr>hdr = hdr_zero, bytes = replicate 148 0\<rparr>" and fc = "0x0c" and c = 99
    and u = "aps_hdr_of_bytes (replicate 14 7)"
    and req = "\<lparr>rq_dst_addr = htole16 0x1234 @ replicate 6 0, rq_profileid = 0x104, rq_clusterid = 6,
        rq_dst_endpoint = 10, rq_src_endpoint = 11, rq_radius = 5, rq_addr_mode = 1, rq_tx_options = 0\<rparr>"]
  show ?thesis
    by (auto simp: buf_ok_def hdr_zero_def ZB_IO_BUF_SIZE_def aps_hdr_of_bytes_def addr_short_def)
qed

section \<open>Acknowledgements and commands\<close>

definition ack_bytes :: "zb_aps_hdr \<Rightarrow> u8 list" where
  "ack_bytes h = aps_ack_fc h # (if ZB_APS_FC_GET_FRAME_TYPE (ah_fc h) \<noteq> ZB_APS_FRAME_COMMAND
     then ah_src_endpoint h # htole16 (ah_clusterid h) @ htole16 (ah_profileid h) @ [ah_dst_endpoint h] else []) @ [ah_aps_counter h]"

lemma parse_ack_bytes:
  "aps_parsed_size (ack_bytes h ! 0) = length (ack_bytes h)" "ack_bytes h \<noteq> []"
  "ah_src_addr (aps_parse_fields (ack_bytes h) u) = ah_src_addr u"
  "ah_fc (aps_parse_fields (ack_bytes h) u) = aps_ack_fc h"
  "ah_aps_counter (aps_parse_fields (ack_bytes h) u) = ah_aps_counter h"
  "ZB_APS_FC_GET_FRAME_TYPE (ah_fc h) \<noteq> ZB_APS_FRAME_COMMAND \<Longrightarrow>
     ah_clusterid (aps_parse_fields (ack_bytes h) u) = ah_clusterid h
     \<and> ah_dst_endpoint (aps_parse_fields (ack_bytes h) u) = ah_src_endpoint h
     \<and> ah_src_endpoint (aps_parse_fields (ack_bytes h) u) = ah_dst_endpoint h"
proof -
  have v: "letoh16 [ucast v, ucast (drop_bit 8 v)] = v" for v :: u16
    using letoh16_htole16(1) [of v] by (simp only: htole16_def)
  have g: "(0 :: u8) \<noteq> ZB_APS_DELIVERY_GROUP" by (simp add: ZB_APS_DELIVERY_GROUP_def)
  show "aps_parsed_size (ack_bytes h ! 0) = length (ack_bytes h)" "ack_bytes h \<noteq> []"
    "ah_src_addr (aps_parse_fields (ack_bytes h) u) = ah_src_addr u"
    "ah_fc (aps_parse_fields (ack_bytes h) u) = aps_ack_fc h"
    "ah_aps_counter (aps_parse_fields (ack_bytes h) u) = ah_aps_counter h"
    "ZB_APS_FC_GET_FRAME_TYPE (ah_fc h) \<noteq> ZB_APS_FRAME_COMMAND \<Longrightarrow>
       ah_clusterid (aps_parse_fields (ack_bytes h) u) = ah_clusterid h
       \<and> ah_dst_endpoint (aps_parse_fields (ack_bytes h) u) = ah_src_endpoint h
       \<and> ah_src_endpoint (aps_parse_fields (ack_bytes h) u) = ah_dst_endpoint h"
    using g by (cases "ZB_APS_FC_GET_FRAME_TYPE (ah_fc h) = ZB_APS_FRAME_COMMAND";
      simp add: ack_bytes_def aps_parsed_size_def aps_parse_fields_def Let_def htole16_def v)+
qed

lemma filled_ack:
  assumes "buf_ok b"
  obtains b1 where "aps_ack_fill h b = Some b1" "buf_ok b1" "payload b1 = ack_bytes h"
proof -
  let ?sz = "length (ack_bytes h)"
  have sz: "(if ZB_APS_FC_GET_FRAME_TYPE (ah_fc h) \<noteq> ZB_APS_FRAME_COMMAND then 2 + 2 + 4 else 2) = ?sz"
    by (simp add: ack_bytes_def)
  have l: "length (bytes b) = ZB_IO_BUF_SIZE" "?sz < ZB_IO_BUF_SIZE"
    using assms by (auto simp: buf_ok_def ZB_IO_BUF_SIZE_def ack_bytes_def)
  from initial_alloc_payload [OF l] obtain b1 where b1: "zb_buf_initial_alloc b ?sz = Some (b1, boff b1)" "buf_ok b1" "blen b1 = ?sz"
    by blast
  obtain b2 where b2: "write_bytes (boff b1) (ack_bytes h) b1 = Some b2" "buf_ok b2" "payload b2 = ack_bytes h @ drop ?sz (payload b1)"
    by (rule write_front [OF b1(2), of "ack_bytes h"]) (use b1(3) in simp)
  have e: "(ZB_APS_FC_GET_ACK_FORMAT (aps_ack_fc h) = 0) = (ZB_APS_FC_GET_FRAME_TYPE (ah_fc h) \<noteq> ZB_APS_FRAME_COMMAND)" by simp
  have "aps_ack_fill h b = Some b2"
    unfolding aps_ack_fill_def Let_def sz b1(1) e using b2(1) by (simp add: ack_bytes_def)
  with b2 b1(3) length_payload [OF b1(2)] show thesis by (intro that [of b2]) simp_all
qed

lemma filled_aps_command:
  assumes "buf_ok b" "blen b + 3 < ZB_IO_BUF_SIZE"
  obtains b1 where "aps_command_fill need_ack c cmd b = Some b1" "buf_ok b1"
    "payload b1 = [ZB_APS_FC_SET_COMMAND 0 (if need_ack then 1 else 0), c, cmd] @ payload b"
proof -
  have "3 + blen b < ZB_IO_BUF_SIZE" using assms(2) by simp
  from alloc_left_payload [OF assms(1) this] obtain b1 where b1: "zb_buf_smart_alloc_left b 3 = Some (b1, boff b1)" "buf_ok b1"
    "blen b1 = blen b + 3" "drop 3 (payload b1) = payload b" by auto
  let ?h = "[ZB_APS_FC_SET_COMMAND 0 (if need_ack then 1 else 0), c, cmd]"
  have h: "length ?h = 3" by simp
  obtain b2 where b2: "write_bytes (boff b1) ?h b1 = Some b2" "buf_ok b2" "payload b2 = ?h @ drop (length ?h) (payload b1)"
    by (rule write_front [OF b1(2), of ?h]) (use b1(3) in simp)
  show thesis by (rule that [OF _ b2(2) b2(3) [unfolded h b1(4)]]) (use b1(1) b2(1) in \<open>simp add: aps_command_fill_def\<close>)
qed

end
