(* ===== verification/Aps_Retrans_Props.thy ===== *)
theory Aps_Retrans_Props
  imports Aps_Data Aps_Frame_Props
begin

text \<open>
  Acknowledged transmission of the application support layer: the acknowledgement of a frame finds its entry, retransmissions end,
  the table of waiting frames stays consistent, and what the code does at the edges of the table.
\<close>

section \<open>The memory before the start\<close>

definition req_zero :: zb_apsde_data_req where
  "req_zero = \<lparr>rq_dst_addr = replicate 8 0, rq_profileid = 0, rq_clusterid = 0, rq_dst_endpoint = 0, rq_src_endpoint = 0,
     rq_radius = 0, rq_addr_mode = 0, rq_tx_options = 0\<rparr>"

definition entry_zero :: zb_aps_retrans_ent where
  "entry_zero = \<lparr>re_addr = 0, re_clusterid = 0, re_aps_counter = 0, re_src_endpoint = 0, re_dst_endpoint = 0, re_buf = 0,
     re_aps_retries = 0, re_nwk_insecure = False, re_state = RETRANS_ENT_FREE\<rparr>"

definition nat_ring_zero :: "nat \<Rightarrow> nat ring" where
  "nat_ring_zero n = \<lparr>ring_buf = replicate n 0, read_i = 0, write_i = 0, written = 0\<rparr>"

definition buf_zero :: zb_buf where "buf_zero = \<lparr>hdr = hdr_zero, bytes = replicate 148 0\<rparr>"

definition aps_zero :: aps_node where
  "aps_zero = \<lparr>abufs = (\<lambda>_. buf_zero), apsde_req = (\<lambda>_. req_zero),
     nlde_req = (\<lambda>_. \<lparr>nr_dst_addr = 0, nr_radius = 0, nr_addr_mode = ADDR_16BIT_DEV_OR_BROADCAST, nr_discovery_route = 0,
       nr_security_enable = False, nr_ndsu_handle = 0\<rparr>),
     aps_counter = 0, aps_designated_coordinator = 0, aps_insecure_join = 0, aps_channel_mask = 0,
     aps_use_extended_pan_id = replicate 8 0, retrans = replicate ZB_N_APS_RETRANS_ENTRIES entry_zero, ack_buf = 0,
     ack_q = nat_ring_zero ZB_APS_RETRANS_ACK_Q_SIZE, binding = binding_zero, group_tab = group_table_zero,
     pass_up_q = nat_ring_zero ZB_APS_GROUP_UP_Q_SIZE, local_dup_q = nat_ring_zero ZB_APS_GROUP_UP_Q_SIZE,
     active_pass_up_buf = None, aps_dups = \<lparr>dc_addr = addr_zero, dc_sched = sched_zero Aps_check_timer_cb, dups_alarm_running = False\<rparr>,
     short_address = 0, aps_joined_pro = False\<rparr>"

lemma buf_zero_ok [simp]: "buf_ok buf_zero" "blen buf_zero = 0"
  by (simp_all add: buf_zero_def buf_ok_def hdr_zero_def ZB_IO_BUF_SIZE_def)

section \<open>The acknowledgement of a frame\<close>

lemma received_frame:
  assumes "buf_ok b" "payload b = bs @ rest" "blen b + 8 < ZB_IO_BUF_SIZE" "bs \<noteq> []" "aps_parsed_size (bs ! 0) \<le> length bs"
  obtains b1 b2 where "nwk_alloc_and_fill_hdr dst None None False False False src q b = Some b1" "buf_ok b1"
    "zb_aps_hdr_parse True u b1 = Some (b2, aps_parse_fields bs (u\<lparr>ah_src_addr := src, ah_dst_addr := dst\<rparr>))"
    "buf_ok b2" "payload b2 = bs @ rest"
proof -
  have i: "ieee_opt_ok None" by (simp add: ieee_opt_ok_def)
  have room: "new_hdr_size (None \<noteq> (None :: ieee option)) (None \<noteq> (None :: ieee option)) False False + (if False then 0 else blen b) < ZB_IO_BUF_SIZE"
    using assms(3) by (simp add: new_hdr_size_def ZB_NWK_SHORT_HDR_SIZE_def)
  obtain b1 aux where b1: "nwk_alloc_and_fill_hdr dst None None False False False src q b = Some b1" "buf_ok b1"
    "payload b1 = nwk_header (new_fctl (None \<noteq> (None :: ieee option)) (None \<noteq> (None :: ieee option)) False False) dst src 1 q
       @ ieee_part None @ ieee_part None @ aux @ (if False then [] else payload b)"
    "8 + length (ieee_part None @ ieee_part None @ aux)
       = zb_nwk_hdr_size (new_fctl (None \<noteq> (None :: ieee option)) (None \<noteq> (None :: ieee option)) False False) + (if False then 1 else 0)"
    by (rule filled_header [OF assms(1) i i room, where dst = dst and own = src and q = q])
  have p: "payload b1 = nwk_header (new_fctl False False False False) dst src 1 q @ aux @ bs @ rest"
    "8 + length aux = zb_nwk_hdr_size (new_fctl False False False False)"
    using b1(3,4) assms(2) by (simp_all add: ieee_part_def)
  obtain b2 where "zb_aps_hdr_parse True u b1 = Some (b2, aps_parse_fields bs (u\<lparr>ah_src_addr := src, ah_dst_addr := dst\<rparr>))"
    "buf_ok b2" "payload b2 = bs @ rest"
    by (rule parse_received [OF b1(2) p(1) length_new_fctl p(2) assms(4,5), where u = u])
  with b1 show thesis by (intro that [of b1 b2])
qed

text \<open>
  C17: The acknowledgement finds its frame. A node \<open>a\<close> sends a frame to one endpoint of \<open>d\<close>; \<open>d\<close> parses it behind its network header
  and fills an acknowledgement, which \<open>a\<close> parses: it matches an entry exactly if the entry has the
  address, the counter, the cluster and both endpoints of the frame, in particular the entry that was saved for it.
\<close>

theorem ack_finds_its_frame:
  assumes "buf_ok b" "buf_ok c" "blen b + 17 < ZB_IO_BUF_SIZE"
    and fc: "ZB_APS_FC_GET_ACK_FORMAT fc = 0" "ZB_APS_FC_GET_FRAME_TYPE fc = ZB_APS_FRAME_DATA"
      "ZB_APS_FC_GET_DELIVERY_MODE fc \<noteq> ZB_APS_DELIVERY_GROUP"
  shows "\<exists>b1 b2 b3 h c1 c2 c3 h2. aps_data_hdr_fill_datareq fc req n b = Some b1
    \<and> nwk_alloc_and_fill_hdr d None None False False False a q b1 = Some b2
    \<and> zb_aps_hdr_parse True u b2 = Some (b3, h) \<and> aps_ack_fill h c = Some c1
    \<and> nwk_alloc_and_fill_hdr (ah_src_addr h) None None False False False d q2 c1 = Some c2
    \<and> zb_aps_hdr_parse True u2 c2 = Some (c3, h2)
    \<and> ZB_APS_FC_GET_FRAME_TYPE (ah_fc h2) = ZB_APS_FRAME_ACK
    \<and> (\<forall>e. ack_matches h2 e \<longleftrightarrow> re_addr e = d \<and> re_aps_counter e = n \<and> re_clusterid e = rq_clusterid req
          \<and> re_src_endpoint e = rq_src_endpoint req \<and> re_dst_endpoint e = rq_dst_endpoint req)"
proof -
  have "blen b + 9 < ZB_IO_BUF_SIZE" using assms(3) by simp
  from assms(1) this fc(1) obtain b1 where b1: "aps_data_hdr_fill_datareq fc req n b = Some b1" "buf_ok b1"
    "payload b1 = aps_data_hdr fc req n @ payload b" by (rule filled_data_header)
  note p = parse_data_hdr [OF fc(1)]
  have ne: "aps_data_hdr fc req n \<noteq> []" by (simp add: aps_data_hdr_def)
  have l: "blen b1 = 8 + blen b"
    using length_payload [OF b1(2)] length_payload [OF assms(1)] b1(3) fc(3) by (simp add: aps_data_hdr_def)
  then have "blen b1 + 8 < ZB_IO_BUF_SIZE" using assms(3) by simp
  from b1(2,3) this ne eq_imp_le [OF p(2)] obtain b2 b3 where
    b2: "nwk_alloc_and_fill_hdr d None None False False False a q b1 = Some b2"
      "zb_aps_hdr_parse True u b2 = Some (b3, aps_parse_fields (aps_data_hdr fc req n) (u\<lparr>ah_src_addr := a, ah_dst_addr := d\<rparr>))"
    by (rule received_frame)
  define h where "h = data_fields fc req n (u\<lparr>ah_src_addr := a, ah_dst_addr := d\<rparr>)"
  have h: "ah_fc h = fc" "ah_src_addr h = a" "ah_dst_endpoint h = rq_dst_endpoint req" "ah_src_endpoint h = rq_src_endpoint req"
    "ah_clusterid h = rq_clusterid req" "ah_aps_counter h = n"
    using fc(3) by (simp_all add: h_def data_fields_def is_group_def)
  have ft: "ZB_APS_FC_GET_FRAME_TYPE (ah_fc h) \<noteq> ZB_APS_FRAME_COMMAND" using fc(2) h by (simp add: aps_fc_defs)
  obtain c1 where c1: "aps_ack_fill h c = Some c1" "buf_ok c1" "payload c1 = ack_bytes h" by (rule filled_ack [OF assms(2)])
  have "blen c1 + 8 < ZB_IO_BUF_SIZE"
    using length_payload [OF c1(2)] c1(3) by (simp add: ack_bytes_def ZB_IO_BUF_SIZE_def split: if_splits)
  from c1(2) trans [OF c1(3) append_Nil2 [symmetric]] this parse_ack_bytes(2) eq_imp_le [OF parse_ack_bytes(1)] obtain c2 c3 where
    c2: "nwk_alloc_and_fill_hdr a None None False False False d q2 c1 = Some c2"
      "zb_aps_hdr_parse True u2 c2 = Some (c3, aps_parse_fields (ack_bytes h) (u2\<lparr>ah_src_addr := d, ah_dst_addr := a\<rparr>))"
    by (rule received_frame)
  let ?h2 = "aps_parse_fields (ack_bytes h) (u2\<lparr>ah_src_addr := d, ah_dst_addr := a\<rparr>)"
  have "ack_matches ?h2 e \<longleftrightarrow> re_addr e = d \<and> re_aps_counter e = n \<and> re_clusterid e = rq_clusterid req
          \<and> re_src_endpoint e = rq_src_endpoint req \<and> re_dst_endpoint e = rq_dst_endpoint req" for e
    using parse_ack_bytes(6) [OF ft, of "u2\<lparr>ah_src_addr := d, ah_dst_addr := a\<rparr>"] h ft
    by (auto simp: ack_matches_def parse_ack_bytes)
  moreover have "ZB_APS_FC_GET_FRAME_TYPE (ah_fc ?h2) = ZB_APS_FRAME_ACK" by (simp add: parse_ack_bytes)
  ultimately show ?thesis using b1(1) b2 [unfolded p(1), folded h_def] c1(1) c2 h(2) by blast
qed

theorem ack_finds_its_frame_witness:
  "\<exists>b1 c1 c2 c3 h h2. aps_data_hdr_fill_datareq 0x40 (req_zero\<lparr>rq_clusterid := 6, rq_dst_endpoint := 10\<rparr>) 99 buf_zero = Some b1
    \<and> aps_ack_fill h buf_zero = Some c1 \<and> zb_aps_hdr_parse True (aps_hdr_of_bytes (replicate 14 0)) c2 = Some (c3, h2)
    \<and> ack_matches h2 (entry_zero\<lparr>re_addr := 0x1234, re_aps_counter := 99, re_clusterid := 6, re_dst_endpoint := 10\<rparr>)"
proof -
  have "ZB_APS_FC_GET_ACK_FORMAT 0x40 = 0" "ZB_APS_FC_GET_FRAME_TYPE 0x40 = ZB_APS_FRAME_DATA"
    "ZB_APS_FC_GET_DELIVERY_MODE 0x40 \<noteq> ZB_APS_DELIVERY_GROUP" by (simp_all add: aps_fc_defs)
  have r: "blen buf_zero + 17 < ZB_IO_BUF_SIZE" by (simp add: ZB_IO_BUF_SIZE_def)
  from ack_finds_its_frame [OF buf_zero_ok(1) buf_zero_ok(1) r \<open>ZB_APS_FC_GET_ACK_FORMAT 0x40 = 0\<close> \<open>ZB_APS_FC_GET_FRAME_TYPE 0x40 = ZB_APS_FRAME_DATA\<close>
      \<open>ZB_APS_FC_GET_DELIVERY_MODE 0x40 \<noteq> ZB_APS_DELIVERY_GROUP\<close>, of "req_zero\<lparr>rq_clusterid := 6, rq_dst_endpoint := 10\<rparr>" 99 "0x1234" 1 5
      "aps_hdr_of_bytes (replicate 14 0)" 6 "aps_hdr_of_bytes (replicate 14 0)"]
  obtain b1 c1 c2 c3 h h2 where w: "aps_data_hdr_fill_datareq 0x40 (req_zero\<lparr>rq_clusterid := 6, rq_dst_endpoint := 10\<rparr>) 99 buf_zero = Some b1"
    "aps_ack_fill h buf_zero = Some c1" "zb_aps_hdr_parse True (aps_hdr_of_bytes (replicate 14 0)) c2 = Some (c3, h2)"
    "\<And>e. ack_matches h2 e \<longleftrightarrow> re_addr e = 0x1234 \<and> re_aps_counter e = 99
        \<and> re_clusterid e = rq_clusterid (req_zero\<lparr>rq_clusterid := 6, rq_dst_endpoint := 10\<rparr>)
        \<and> re_src_endpoint e = rq_src_endpoint (req_zero\<lparr>rq_clusterid := 6, rq_dst_endpoint := 10\<rparr>)
        \<and> re_dst_endpoint e = rq_dst_endpoint (req_zero\<lparr>rq_clusterid := 6, rq_dst_endpoint := 10\<rparr>)" by blast
  have "ack_matches h2 (entry_zero\<lparr>re_addr := 0x1234, re_aps_counter := 99, re_clusterid := 6, re_dst_endpoint := 10\<rparr>)"
    unfolding w(4) by (simp add: entry_zero_def req_zero_def)
  with w(1-3) show ?thesis by blast
qed

section \<open>Histories of the table\<close>

abbreviation entry_free :: "aps_node \<Rightarrow> nat \<Rightarrow> bool" where
  "entry_free s i \<equiv> re_state (retrans s ! i) = RETRANS_ENT_FREE"

definition retrans_ok :: "aps_node \<Rightarrow> bool" where
  "retrans_ok s \<longleftrightarrow> length (retrans s) = ZB_N_APS_RETRANS_ENTRIES
     \<and> (\<forall>i < ZB_N_APS_RETRANS_ENTRIES. if entry_free s i then re_buf (retrans s ! i) = NO_BUF \<and> re_addr (retrans s ! i) = 0xffff
          else re_buf (retrans s ! i) < ZB_IOBUF_POOL_SIZE \<and> re_aps_retries (retrans s ! i) \<le> ZB_N_APS_MAX_FRAME_ENTRIES)
     \<and> (\<forall>i < ZB_N_APS_RETRANS_ENTRIES. \<forall>j < ZB_N_APS_RETRANS_ENTRIES.
          re_buf (retrans s ! i) = re_buf (retrans s ! j) \<longrightarrow> re_buf (retrans s ! i) \<noteq> NO_BUF \<longrightarrow> i = j)"

definition table_bufs :: "aps_node \<Rightarrow> nat set" where
  "table_bufs s = (\<lambda>i. re_buf (retrans s ! i)) ` {..<ZB_N_APS_RETRANS_ENTRIES}"

text \<open>The timers that run, and the buffers that the lower layers have, as the actions change them.\<close>

fun timer_action :: "aps_action \<Rightarrow> nat list \<Rightarrow> nat list" where
  "timer_action (Ack_timer i t) T = i # T"
| "timer_action (Ack_timer_cancel i) T = remove1 i T"
| "timer_action _ T = T"

definition timers_after :: "aps_action list \<Rightarrow> nat list \<Rightarrow> nat list" where
  "timers_after acts T = fold timer_action acts T"

definition sent :: "aps_action list \<Rightarrow> nat set" where "sent acts = {p. To_nwk p \<in> set acts}"

definition handed_back :: "aps_action list \<Rightarrow> nat set" where
  "handed_back acts = {p. Apsde_data_confirm p \<in> set acts \<or> Free_buf p \<in> set acts}"

text \<open>The frame that comes back has the control field it was sent with.\<close>

definition confirmed_fc :: "zb_buf \<Rightarrow> u8 option" where
  "confirmed_fc b = (case ZB_MAC_CUT_HDR_WITHOUT_TRAILER b of None \<Rightarrow> None
     | Some b1 \<Rightarrow> map_option (\<lambda>b2. bytes b2 ! boff b2) (ZB_NWK_HDR_CUT b1))"

definition still_asks :: "zb_buf \<Rightarrow> bool" where
  "still_asks b \<longleftrightarrow> (case confirmed_fc b of None \<Rightarrow> False
     | Some fc \<Rightarrow> ZB_APS_FC_GET_FRAME_TYPE fc \<noteq> ZB_APS_FRAME_ACK \<and> ZB_APS_FC_GET_ACK_REQUEST fc \<noteq> 0)"

text \<open>
  The steps of a node: requests of the higher layer with a buffer nobody else has, while one of the first nine entries is free;
  commands; confirmations of what was sent; acknowledgements from a device with an address that
  did not come before; timers.
\<close>

inductive retrans_step :: "aps_node \<times> nat list \<times> nat set \<Rightarrow> aps_action list \<Rightarrow> aps_node \<times> nat list \<times> nat set \<Rightarrow> bool" where
  request: "zb_apsde_data_request u p s = Some (s', acts) \<Longrightarrow> p < ZB_IOBUF_POOL_SIZE \<Longrightarrow> p \<notin> F \<Longrightarrow> p \<notin> table_bufs s \<Longrightarrow>
     free_entry s = Some i \<Longrightarrow> i < ZB_N_APS_RETRANS_ENTRIES - 1 \<Longrightarrow>
     retrans_step (s, T, F) acts (s', timers_after acts T, F \<union> sent acts)"
| command: "zb_aps_send_command p dest cmd secure s = Some (s', acts) \<Longrightarrow> p < ZB_IOBUF_POOL_SIZE \<Longrightarrow> p \<notin> F \<Longrightarrow> p \<notin> table_bufs s \<Longrightarrow>
     retrans_step (s, T, F) acts (s', timers_after acts T, F \<union> sent acts)"
| confirm: "zb_nlde_data_confirm p (set_abuf p b s) = Some (s', acts) \<Longrightarrow> p \<in> F \<Longrightarrow> (p \<in> table_bufs s \<Longrightarrow> still_asks b) \<Longrightarrow>
     retrans_step (s, T, F) acts (s', timers_after acts T, F - {p} \<union> sent acts)"
| ack: "aps_ack_frame_handle h s = Some (s', acts) \<Longrightarrow> ah_src_addr h \<noteq> 0xffff \<Longrightarrow>
     (\<And>i. i < ZB_N_APS_RETRANS_ENTRIES \<Longrightarrow> ack_matches h (retrans s ! i) \<Longrightarrow>
        re_state (retrans s ! i) \<noteq> RETRANS_ENT_SENT_MAC_NOT_CONFIRMED_APS_ACKED) \<Longrightarrow>
     retrans_step (s, T, F) acts (s', timers_after acts T, F \<union> sent acts)"
| timer: "zb_aps_ack_timer_cb i s = Some (s', acts) \<Longrightarrow> i \<in> set T \<Longrightarrow>
     retrans_step (s, T, F) acts (s', timers_after acts (remove1 i T), F \<union> sent acts)"

text \<open>Each entry in use has one timer, and its buffer is with the lower layers until it is confirmed.\<close>

definition retrans_inv :: "aps_node \<times> nat list \<times> nat set \<Rightarrow> bool" where
  "retrans_inv = (\<lambda>(s, T, F). retrans_ok s \<and> distinct T
     \<and> set T = {i. i < ZB_N_APS_RETRANS_ENTRIES \<and> \<not> entry_free s i} \<and> F \<subseteq> {..<ZB_IOBUF_POOL_SIZE}
     \<and> (\<forall>i < ZB_N_APS_RETRANS_ENTRIES. \<not> entry_free s i \<longrightarrow>
          (re_buf (retrans s ! i) \<in> F \<longleftrightarrow> re_state (retrans s ! i) \<noteq> RETRANS_ENT_SENT_MAC_CONFIRMED)))"

inductive retrans_reach :: "aps_node \<times> nat list \<times> nat set \<Rightarrow> aps_node \<times> nat list \<times> nat set \<Rightarrow> bool" for c0 where
  start: "retrans_reach c0 c0"
| step: "retrans_reach c0 c \<Longrightarrow> retrans_step c acts c' \<Longrightarrow> retrans_reach c0 c'"

subsection \<open>What the operations do to the table\<close>

lemma find_upt_Some: "find P [0..<n] = Some i \<Longrightarrow> i < n \<and> P i \<and> (\<forall>j < i. \<not> P j)"
  by (auto simp: find_Some_iff)

lemma find_upt_None: "find P [0..<n] = None \<Longrightarrow> i < n \<Longrightarrow> \<not> P i"
  by (auto simp: find_None_iff)

lemma set_abuf_simps [simp]: "retrans (set_abuf p b s) = retrans s" "abufs (set_abuf p b s) = (abufs s)(p := b)"
  "aps_counter (set_abuf p b s) = aps_counter s"
  by (simp_all add: set_abuf_def)

lemma set_nlde_retrans [simp]: "retrans (set_nlde p r s) = retrans s"
  by (simp add: set_nlde_def)

lemma set_apsde_retrans [simp]: "retrans (set_apsde p r s) = retrans s"
  by (simp add: set_apsde_def)

lemma set_aps_addr_retrans [simp]: "retrans (set_aps_addr g s) = retrans s"
  by (simp add: set_aps_addr_def)

lemma retrans_set_ent [simp]: "retrans (set_ent i e s) = (retrans s)[i := e]" "abufs (set_ent i e s) = abufs s"
  by (simp_all add: set_ent_def)

definition quiet :: "aps_action list \<Rightarrow> bool" where
  "quiet acts \<longleftrightarrow> (\<forall>a \<in> set acts. case a of Ack_timer _ _ \<Rightarrow> False | Ack_timer_cancel _ \<Rightarrow> False | _ \<Rightarrow> True)"

lemma timers_after_simps [simp]:
  "timers_after [] T = T" "timers_after (a # as) T = timers_after as (timer_action a T)"
  "timers_after (as @ bs) T = timers_after bs (timers_after as T)"
  by (simp_all add: timers_after_def)

lemma quiet_timers: "quiet acts \<Longrightarrow> timers_after acts T = T"
proof (induction acts)
  case (Cons a as)
  then show ?case by (cases a) (auto simp: quiet_def)
qed simp

lemma pass_to_nwk_effect:
  assumes "pass_to_nwk p fc dst r s = Some (s', acts)"
  shows "retrans s' = retrans s" "quiet acts" "sent acts \<subseteq> {p}" "handed_back acts = {}" "acts \<noteq> []"
  using assms by (auto simp: pass_to_nwk_def Let_def quiet_def sent_def handed_back_def split: if_splits)

lemma find_destination_retrans: "apsde_find_destination u req s = Some (d, s') \<Longrightarrow> retrans s' = retrans s"
  by (auto simp: apsde_find_destination_def Let_def split: if_splits option.splits prod.splits)

lemma fill_data_header_retrans: "fill_data_header p fc req s = Some s' \<Longrightarrow> retrans s' = retrans s"
  by (auto simp: fill_data_header_def)

lemma fill_nldereq_retrans: "fill_nldereq p dst secure s = Some s' \<Longrightarrow> retrans s' = retrans s"
  by (auto simp: fill_nldereq_def split: if_splits)

subsection \<open>The invariant under one change of the table\<close>

lemma retrans_inv_cong: "retrans s = retrans s' \<Longrightarrow> retrans_inv (s, T, F) \<Longrightarrow> retrans_inv (s', T, F)"
  by (simp add: retrans_inv_def retrans_ok_def cong: if_cong)

lemma inv_entry:
  assumes "retrans_inv (s, T, F)" "i < ZB_N_APS_RETRANS_ENTRIES"
  shows "i < length (retrans s)" "entry_free s i \<Longrightarrow> re_buf (retrans s ! i) = NO_BUF \<and> re_addr (retrans s ! i) = 0xffff"
    "\<not> entry_free s i \<Longrightarrow> re_buf (retrans s ! i) < ZB_IOBUF_POOL_SIZE \<and> re_aps_retries (retrans s ! i) \<le> ZB_N_APS_MAX_FRAME_ENTRIES"
    "i \<in> set T \<longleftrightarrow> \<not> entry_free s i"
    "\<not> entry_free s i \<Longrightarrow> re_buf (retrans s ! i) \<in> F \<longleftrightarrow> re_state (retrans s ! i) \<noteq> RETRANS_ENT_SENT_MAC_CONFIRMED"
    "\<not> entry_free s i \<Longrightarrow> j < ZB_N_APS_RETRANS_ENTRIES \<Longrightarrow> re_buf (retrans s ! i) = re_buf (retrans s ! j) \<Longrightarrow> i = j"
proof -
  have ok: "retrans_ok s" and T: "set T = {i. i < ZB_N_APS_RETRANS_ENTRIES \<and> \<not> entry_free s i}"
    and F: "\<And>i. i < ZB_N_APS_RETRANS_ENTRIES \<Longrightarrow> \<not> entry_free s i \<Longrightarrow>
          (re_buf (retrans s ! i) \<in> F \<longleftrightarrow> re_state (retrans s ! i) \<noteq> RETRANS_ENT_SENT_MAC_CONFIRMED)"
    using assms(1) by (auto simp: retrans_inv_def)
  show "i < length (retrans s)" "entry_free s i \<Longrightarrow> re_buf (retrans s ! i) = NO_BUF \<and> re_addr (retrans s ! i) = 0xffff"
    "\<not> entry_free s i \<Longrightarrow> re_buf (retrans s ! i) < ZB_IOBUF_POOL_SIZE \<and> re_aps_retries (retrans s ! i) \<le> ZB_N_APS_MAX_FRAME_ENTRIES"
    using ok assms(2) by (auto simp: retrans_ok_def)
  show "i \<in> set T \<longleftrightarrow> \<not> entry_free s i" using T assms(2) by simp
  show "\<not> entry_free s i \<Longrightarrow> re_buf (retrans s ! i) \<in> F \<longleftrightarrow> re_state (retrans s ! i) \<noteq> RETRANS_ENT_SENT_MAC_CONFIRMED"
    using F assms(2) by simp
  show "\<not> entry_free s i \<Longrightarrow> j < ZB_N_APS_RETRANS_ENTRIES \<Longrightarrow> re_buf (retrans s ! i) = re_buf (retrans s ! j) \<Longrightarrow> i = j"
  proof -
    assume *: "\<not> entry_free s i" "j < ZB_N_APS_RETRANS_ENTRIES" "re_buf (retrans s ! i) = re_buf (retrans s ! j)"
    then have "re_buf (retrans s ! i) \<noteq> NO_BUF"
      using ok assms(2) by (auto simp: retrans_ok_def NO_BUF_def ZB_IOBUF_POOL_SIZE_def)
    with ok * assms(2) show "i = j" unfolding retrans_ok_def by blast
  qed
qed

lemma retrans_invI:
  assumes "length (retrans s) = ZB_N_APS_RETRANS_ENTRIES" "distinct T" "F \<subseteq> {..<ZB_IOBUF_POOL_SIZE}"
    "set T = {i. i < ZB_N_APS_RETRANS_ENTRIES \<and> \<not> entry_free s i}"
    and "\<And>i. i < ZB_N_APS_RETRANS_ENTRIES \<Longrightarrow> entry_free s i \<Longrightarrow> re_buf (retrans s ! i) = NO_BUF \<and> re_addr (retrans s ! i) = 0xffff"
    and "\<And>i. i < ZB_N_APS_RETRANS_ENTRIES \<Longrightarrow> \<not> entry_free s i \<Longrightarrow> re_buf (retrans s ! i) < ZB_IOBUF_POOL_SIZE
          \<and> re_aps_retries (retrans s ! i) \<le> ZB_N_APS_MAX_FRAME_ENTRIES
          \<and> (re_buf (retrans s ! i) \<in> F \<longleftrightarrow> re_state (retrans s ! i) \<noteq> RETRANS_ENT_SENT_MAC_CONFIRMED)"
    and "\<And>i j. i < ZB_N_APS_RETRANS_ENTRIES \<Longrightarrow> j < ZB_N_APS_RETRANS_ENTRIES \<Longrightarrow> \<not> entry_free s i \<Longrightarrow> \<not> entry_free s j \<Longrightarrow>
          re_buf (retrans s ! i) = re_buf (retrans s ! j) \<Longrightarrow> i = j"
  shows "retrans_inv (s, T, F)"
proof -
  have "i = j" if "i < ZB_N_APS_RETRANS_ENTRIES" "j < ZB_N_APS_RETRANS_ENTRIES" "re_buf (retrans s ! i) = re_buf (retrans s ! j)"
    "re_buf (retrans s ! i) \<noteq> NO_BUF" for i j
    using assms(5) [OF that(1)] assms(5) [OF that(2)] assms(7) [OF that(1,2)] that by auto
  with assms show ?thesis unfolding retrans_inv_def retrans_ok_def by auto
qed

lemma inv_update:
  assumes inv: "retrans_inv (s, T, F)" and i: "i < ZB_N_APS_RETRANS_ENTRIES" and e: "retrans s' = (retrans s)[i := e]"
    and T': "distinct T'" "set T' = set T - {i} \<union> (if re_state e = RETRANS_ENT_FREE then {} else {i})"
    and F': "F' \<subseteq> {..<ZB_IOBUF_POOL_SIZE}"
      "\<And>j. j < ZB_N_APS_RETRANS_ENTRIES \<Longrightarrow> j \<noteq> i \<Longrightarrow> \<not> entry_free s j \<Longrightarrow>
         re_buf (retrans s ! j) \<noteq> re_buf e \<and> (re_buf (retrans s ! j) \<in> F' \<longleftrightarrow> re_buf (retrans s ! j) \<in> F)"
    and free: "re_state e = RETRANS_ENT_FREE \<Longrightarrow> re_buf e = NO_BUF \<and> re_addr e = 0xffff"
    and used: "re_state e \<noteq> RETRANS_ENT_FREE \<Longrightarrow> re_buf e < ZB_IOBUF_POOL_SIZE \<and> re_aps_retries e \<le> ZB_N_APS_MAX_FRAME_ENTRIES
         \<and> (re_buf e \<in> F' \<longleftrightarrow> re_state e \<noteq> RETRANS_ENT_SENT_MAC_CONFIRMED)"
  shows "retrans_inv (s', T', F')"
proof -
  have len: "length (retrans s) = ZB_N_APS_RETRANS_ENTRIES" using inv by (simp add: retrans_inv_def retrans_ok_def)
  have at: "retrans s' ! j = (if j = i then e else retrans s ! j)" if "j < ZB_N_APS_RETRANS_ENTRIES" for j
    using that len by (simp add: e)
  have T: "set T = {i. i < ZB_N_APS_RETRANS_ENTRIES \<and> \<not> entry_free s i}" using inv by (simp add: retrans_inv_def)
  show ?thesis
  proof (rule retrans_invI)
    show "length (retrans s') = ZB_N_APS_RETRANS_ENTRIES" using len by (simp add: e)
    show "distinct T'" "F' \<subseteq> {..<ZB_IOBUF_POOL_SIZE}" using T' F' by simp_all
    show "set T' = {i. i < ZB_N_APS_RETRANS_ENTRIES \<and> \<not> entry_free s' i}"
      unfolding T'(2) T using i by (auto simp: at split: if_splits)
    show "re_buf (retrans s' ! j) = NO_BUF \<and> re_addr (retrans s' ! j) = 0xffff"
      if "j < ZB_N_APS_RETRANS_ENTRIES" "entry_free s' j" for j
      using that free inv_entry(2) [OF inv that(1)] by (simp add: at split: if_splits)
    show "re_buf (retrans s' ! j) < ZB_IOBUF_POOL_SIZE \<and> re_aps_retries (retrans s' ! j) \<le> ZB_N_APS_MAX_FRAME_ENTRIES
          \<and> (re_buf (retrans s' ! j) \<in> F' \<longleftrightarrow> re_state (retrans s' ! j) \<noteq> RETRANS_ENT_SENT_MAC_CONFIRMED)"
      if "j < ZB_N_APS_RETRANS_ENTRIES" "\<not> entry_free s' j" for j
      using that used F'(2) [OF that(1)] inv_entry(3,5) [OF inv that(1)] by (simp add: at split: if_splits)
    show "j = k" if "j < ZB_N_APS_RETRANS_ENTRIES" "k < ZB_N_APS_RETRANS_ENTRIES" "\<not> entry_free s' j" "\<not> entry_free s' k"
      "re_buf (retrans s' ! j) = re_buf (retrans s' ! k)" for j k
      using that F'(2) [of j] F'(2) [of k] inv_entry(6) [OF inv that(1) _ that(2)]
      by (cases "j = i"; cases "k = i") (simp_all add: at)
  qed
qed

lemma not_in_table: "p \<notin> table_bufs s \<Longrightarrow> j < ZB_N_APS_RETRANS_ENTRIES \<Longrightarrow> re_buf (retrans s ! j) \<noteq> p"
  by (auto simp: table_bufs_def)

lemma inv_elsewhere:
  assumes inv: "retrans_inv (s, T, F)" and "retrans s' = retrans s" "F' \<subseteq> {..<ZB_IOBUF_POOL_SIZE}"
    and F': "\<And>q. q \<in> table_bufs s \<Longrightarrow> q \<in> F' \<longleftrightarrow> q \<in> F"
  shows "retrans_inv (s', T, F')"
  using inv assms(2,3) F' by (auto simp: retrans_inv_def retrans_ok_def table_bufs_def)

lemma inv_saved:
  assumes inv: "retrans_inv (s, T, F)" and p: "p < ZB_IOBUF_POOL_SIZE" "p \<notin> F" "p \<notin> table_bufs s"
    and i: "free_entry s = Some i" and s': "retrans s' = (retrans s)[i := e]"
    and e: "re_buf e = p" "re_aps_retries e \<le> ZB_N_APS_MAX_FRAME_ENTRIES" "re_state e = RETRANS_ENT_SENT_MAC_NOT_CONFIRMED"
  shows "retrans_inv (s', i # T, insert p F)"
proof -
  have i': "i < ZB_N_APS_RETRANS_ENTRIES" "entry_free s i" using find_upt_Some i by (auto simp: free_entry_def)
  have "distinct T" "F \<subseteq> {..<ZB_IOBUF_POOL_SIZE}" using inv by (simp_all add: retrans_inv_def)
  then show ?thesis
    by (intro inv_update [OF inv i'(1) s']) (use inv_entry(4) [OF inv i'(1)] i' p e not_in_table [OF p(3)] in auto)
qed

lemma inv_freed:
  assumes inv: "retrans_inv (s, T, F)" and i: "i < ZB_N_APS_RETRANS_ENTRIES" "\<not> entry_free s i" and s': "retrans s' = (retrans s)[i := e]"
    and e: "re_buf e = NO_BUF" "re_addr e = 0xffff" "re_state e = RETRANS_ENT_FREE"
  shows "retrans_inv (s', remove1 i T, F - {re_buf (retrans s ! i)})"
proof -
  have "distinct T" "F \<subseteq> {..<ZB_IOBUF_POOL_SIZE}" using inv by (simp_all add: retrans_inv_def)
  moreover have "re_buf (retrans s ! j) \<noteq> NO_BUF \<and> re_buf (retrans s ! j) \<noteq> re_buf (retrans s ! i)"
    if "j < ZB_N_APS_RETRANS_ENTRIES" "j \<noteq> i" "\<not> entry_free s j" for j
    using inv_entry(3,6) [OF inv that(1)] that i(1) by (auto simp: NO_BUF_def ZB_IOBUF_POOL_SIZE_def)
  ultimately show ?thesis
    by (intro inv_update [OF inv i(1) s']) (use i e in \<open>auto simp: set_remove1_eq\<close>)
qed

lemma inv_state:
  assumes inv: "retrans_inv (s, T, F)" and i: "i < ZB_N_APS_RETRANS_ENTRIES" "\<not> entry_free s i" and s': "retrans s' = (retrans s)[i := e]"
    and e: "re_buf e = re_buf (retrans s ! i)" "re_aps_retries e \<le> ZB_N_APS_MAX_FRAME_ENTRIES" "re_state e \<noteq> RETRANS_ENT_FREE"
    and F': "F' = (if re_state e = RETRANS_ENT_SENT_MAC_CONFIRMED then F - {re_buf e} else insert (re_buf e) F)"
  shows "retrans_inv (s', T, F')"
proof -
  have "distinct T" "F \<subseteq> {..<ZB_IOBUF_POOL_SIZE}" using inv by (simp_all add: retrans_inv_def)
  moreover have "re_buf (retrans s ! j) \<noteq> re_buf (retrans s ! i)"
    if "j < ZB_N_APS_RETRANS_ENTRIES" "j \<noteq> i" "\<not> entry_free s j" for j
    using inv_entry(6) [OF inv that(1)] that i(1) by auto
  ultimately show ?thesis
    by (intro inv_update [OF inv i(1) s']) (use i e F' inv_entry(3,4) [OF inv i(1)] in auto)
qed

lemma inv_timers: "retrans_inv (s, T, F) \<Longrightarrow> distinct T' \<Longrightarrow> set T' = set T \<Longrightarrow> retrans_inv (s, T', F)"
  by (simp add: retrans_inv_def)

subsection \<open>The steps\<close>

lemma done_effect:
  assumes "done_with_this_ack i fc st s = Some (s', acts)"
  obtains e where "retrans s' = (retrans s)[i := e]" "re_buf e = NO_BUF" "re_addr e = 0xffff" "re_state e = RETRANS_ENT_FREE"
    "sent acts = {}" "handed_back acts = {re_buf (retrans s ! i)}" "\<And>T. timers_after acts T = remove1 i T"
    "re_buf (retrans s ! i) < ZB_IOBUF_POOL_SIZE"
  using assms by (auto simp: done_with_this_ack_def Let_def sent_def handed_back_def split: if_splits)

lemma table_bufs_freed:
  assumes inv: "retrans_inv (s, T, F)" and i: "i < ZB_N_APS_RETRANS_ENTRIES" "\<not> entry_free s i" and s': "retrans s' = (retrans s)[i := e]"
    and e: "re_buf e = NO_BUF"
  shows "re_buf (retrans s ! i) \<notin> table_bufs s'"
proof
  assume "re_buf (retrans s ! i) \<in> table_bufs s'"
  then obtain j where j: "j < ZB_N_APS_RETRANS_ENTRIES" "re_buf (retrans s ! i) = re_buf ((retrans s)[i := e] ! j)"
    by (auto simp: table_bufs_def s')
  have "re_buf (retrans s ! i) \<noteq> NO_BUF" using inv_entry(3) [OF inv i] by (simp add: NO_BUF_def ZB_IOBUF_POOL_SIZE_def)
  with j e inv_entry(1,6) [OF inv i(1)] i show False by (cases "j = i") auto
qed

lemma group_never_waits:
  assumes "apsde_find_destination u req s = Some (Send_to fc dst req', s1)" "rq_tx_options req' AND ZB_APSDE_TX_OPT_ACK_TX \<noteq> 0"
  shows "ZB_APS_FC_GET_DELIVERY_MODE fc \<noteq> ZB_APS_DELIVERY_GROUP"
proof -
  have "(x AND NOT ZB_APSDE_TX_OPT_ACK_TX) AND ZB_APSDE_TX_OPT_ACK_TX = 0" for x :: u8
    by (rule bit_word_eqI) (auto simp: bit_simps)
  with assms show ?thesis
    by (auto simp: apsde_find_destination_def aps_fc_defs Let_def split: if_splits option.splits prod.splits)
qed

lemma request_effect:
  assumes "zb_apsde_data_request u p s = Some (s', acts)" "free_entry s = Some i" "i < ZB_N_APS_RETRANS_ENTRIES - 1"
  shows "(retrans s' = retrans s \<and> quiet acts \<and> sent acts \<subseteq> {p} \<and> handed_back acts \<subseteq> {p} - sent acts)
    \<or> (\<exists>e. retrans s' = (retrans s)[i := e] \<and> re_buf e = p \<and> re_aps_retries e \<le> ZB_N_APS_MAX_FRAME_ENTRIES
          \<and> re_state e = RETRANS_ENT_SENT_MAC_NOT_CONFIRMED \<and> sent acts = {p} \<and> handed_back acts = {}
          \<and> (\<forall>T. timers_after acts T = i # T))"
proof -
  obtain d s1 where d: "apsde_find_destination u (apsde_req s p) s = Some (d, s1)"
    using assms(1) by (auto simp: zb_apsde_data_request_def split: if_splits option.splits)
  note r1 = find_destination_retrans [OF d]
  show ?thesis
  proof (cases d)
    case (Send_to fc dst req)
    let ?s2 = "set_apsde p req s1"
    have f0: "ZB_APS_FC_SET_ACK_FORMAT fc 0 = fc" by (simp add: ZB_APS_FC_SET_ACK_FORMAT_def)
    show ?thesis
    proof (cases "rq_tx_options req AND ZB_APSDE_TX_OPT_ACK_TX = 0")
      case True
      with assms(1) d Send_to f0 obtain s3 where s3: "fill_data_header p fc req ?s2 = Some s3" "pass_to_nwk p fc dst (rq_radius req) s3 = Some (s', acts)"
        by (auto simp: zb_apsde_data_request_def Let_def split: if_splits option.splits)
      from pass_to_nwk_effect [OF s3(2)] fill_data_header_retrans [OF s3(1)] r1 show ?thesis by auto
    next
      case False
      let ?fc = "ZB_APS_FC_SET_ACK_REQUEST fc 1"
      from assms(1) d Send_to f0 False obtain s3 where s3: "fill_data_header p ?fc req ?s2 = Some s3"
        by (auto simp: zb_apsde_data_request_def Let_def split: if_splits option.splits)
      have r3: "retrans s3 = retrans s" using fill_data_header_retrans [OF s3] r1 by simp
      then have "free_entry s3 = Some i" using assms(2) by (simp add: free_entry_def)
      then obtain e where e: "save_ack_data p req s3 = (RET_OK_byte, i, set_ent i e s3)" "re_buf e = p"
        "re_aps_retries e \<le> ZB_N_APS_MAX_FRAME_ENTRIES" "re_state e = RETRANS_ENT_SENT_MAC_NOT_CONFIRMED"
        using assms(3) by (simp add: save_ack_data_def)
      from assms(1) d Send_to f0 False s3 e(1) obtain as where as: "pass_to_nwk p ?fc dst (rq_radius req) (set_ent i e s3) = Some (s', as)"
        "acts = [Reschedule_poll ZB_APS_POLL_AFTER_REQ_TMO, Ack_timer i ZB_N_APS_ACK_WAIT_DURATION] @ as"
        by (auto simp: zb_apsde_data_request_def Let_def add_aps_def split: if_splits option.splits)
      have "as = [To_nwk p]"
        using as(1) group_never_waits [OF d [unfolded Send_to] False] aps_fc_ack_request(2) [of fc]
        by (auto simp: pass_to_nwk_def Let_def split: if_splits)
      with as pass_to_nwk_effect(1) [OF as(1)] e(2-4) r3 show ?thesis
        by (intro disjI2 exI [of _ e]) (auto simp: sent_def handed_back_def)
    qed
  qed (use assms(1) d r1 in \<open>auto simp: zb_apsde_data_request_def quiet_def sent_def handed_back_def split: if_splits\<close>)
qed

lemma command_effect:
  assumes "zb_aps_send_command p dest cmd secure s = Some (s', acts)"
  shows "handed_back acts = {}" "sent acts = {p}"
    "(retrans s' = retrans s \<and> quiet acts) \<or> (\<exists>i e. free_entry s = Some i \<and> retrans s' = (retrans s)[i := e] \<and> re_buf e = p
        \<and> re_aps_retries e \<le> ZB_N_APS_MAX_FRAME_ENTRIES \<and> re_state e = RETRANS_ENT_SENT_MAC_NOT_CONFIRMED
        \<and> (\<forall>T. timers_after acts T = i # T))"
proof -
  let ?need = "\<not> ZB_NWK_IS_ADDRESS_BROADCAST dest \<and> cmd \<noteq> APS_CMD_TRANSPORT_KEY"
  obtain s1 as where s1: "(if ?need then save_command p dest secure s else (s, [])) = (s1, as)" by force
  with assms obtain b where b: "aps_command_fill ?need (aps_counter s1) cmd (abufs s1 p) = Some b"
    by (auto simp: zb_aps_send_command_def Let_def split: option.splits)
  with assms s1 have acts: "acts = as @ [To_nwk p]"
    and "fill_nldereq p dest secure ((set_abuf p b s1)\<lparr>aps_counter := aps_counter s1 + 1\<rparr>) = Some s'"
    by (auto simp: zb_aps_send_command_def Let_def split: option.splits)
  from fill_nldereq_retrans [OF this(2)] have r: "retrans s' = retrans s1" by simp
  from s1 show "handed_back acts = {}" "sent acts = {p}"
    unfolding acts by (auto simp: save_command_def handed_back_def sent_def split: if_splits option.splits)
  from s1 r show "(retrans s' = retrans s \<and> quiet acts) \<or> (\<exists>i e. free_entry s = Some i \<and> retrans s' = (retrans s)[i := e] \<and> re_buf e = p
        \<and> re_aps_retries e \<le> ZB_N_APS_MAX_FRAME_ENTRIES \<and> re_state e = RETRANS_ENT_SENT_MAC_NOT_CONFIRMED
        \<and> (\<forall>T. timers_after acts T = i # T))"
    unfolding acts by (auto simp: save_command_def quiet_def split: if_splits option.splits)
qed

lemma inv_new_frame:
  assumes inv: "retrans_inv (s, T, F)" and p: "p < ZB_IOBUF_POOL_SIZE" "p \<notin> F" "p \<notin> table_bufs s"
    and eff: "(retrans s' = retrans s \<and> quiet acts \<and> sent acts \<subseteq> {p} \<and> handed_back acts \<subseteq> {p} - sent acts)
    \<or> (\<exists>i e. free_entry s = Some i \<and> retrans s' = (retrans s)[i := e] \<and> re_buf e = p \<and> re_aps_retries e \<le> ZB_N_APS_MAX_FRAME_ENTRIES
          \<and> re_state e = RETRANS_ENT_SENT_MAC_NOT_CONFIRMED \<and> sent acts = {p} \<and> handed_back acts = {}
          \<and> (\<forall>T. timers_after acts T = i # T))"
  shows "retrans_inv (s', timers_after acts T, F \<union> sent acts) \<and> handed_back acts \<inter> (F \<union> sent acts \<union> table_bufs s') = {}"
  using eff
proof (elim disjE exE conjE)
  assume *: "retrans s' = retrans s" "quiet acts" "sent acts \<subseteq> {p}" "handed_back acts \<subseteq> {p} - sent acts"
  have "F \<subseteq> {..<ZB_IOBUF_POOL_SIZE}" using inv by (simp add: retrans_inv_def)
  with * p have "retrans_inv (s', T, F \<union> sent acts)" by (intro inv_elsewhere [OF inv]) auto
  with * p show ?thesis by (auto simp: quiet_timers table_bufs_def)
next
  fix i e
  assume "free_entry s = Some i" "retrans s' = (retrans s)[i := e]" "re_buf e = p" "re_aps_retries e \<le> ZB_N_APS_MAX_FRAME_ENTRIES"
    "re_state e = RETRANS_ENT_SENT_MAC_NOT_CONFIRMED" "sent acts = {p}" "handed_back acts = {}" "\<forall>T. timers_after acts T = i # T"
  with inv_saved [OF inv p] show ?thesis by simp
qed

lemma inv_done:
  assumes inv: "retrans_inv (s, T, F)" and i: "i < ZB_N_APS_RETRANS_ENTRIES" "\<not> entry_free s i"
    and s1: "retrans s1 = (retrans s)[i := (retrans s ! i)\<lparr>re_aps_retries := r\<rparr>] \<or> retrans s1 = retrans s"
    and fin: "done_with_this_ack i fc st s1 = Some (s', acts)"
  shows "retrans_inv (s', timers_after acts T, F - {re_buf (retrans s ! i)}) \<and> sent acts = {}
    \<and> handed_back acts = {re_buf (retrans s ! i)} \<and> re_buf (retrans s ! i) \<notin> table_bufs s'"
proof -
  have il: "i < length (retrans s)" using inv_entry(1) [OF inv i(1)] .
  have b: "re_buf (retrans s1 ! i) = re_buf (retrans s ! i)" using s1 il by auto
  obtain e where e: "retrans s' = (retrans s1)[i := e]" "re_buf e = NO_BUF" "re_addr e = 0xffff" "re_state e = RETRANS_ENT_FREE"
    "sent acts = {}" "handed_back acts = {re_buf (retrans s1 ! i)}" "\<And>T. timers_after acts T = remove1 i T"
    by (rule done_effect [OF fin]) blast
  have e1: "retrans s' = (retrans s)[i := e]" using e(1) s1 by auto
  from inv_freed [OF inv i e1 e(2-4)] table_bufs_freed [OF inv i e1 e(2)] e(5-7) b show ?thesis by simp
qed

lemma confirm_step:
  assumes inv: "retrans_inv (s, T, F)" and c: "zb_nlde_data_confirm p (set_abuf p b s) = Some (s', acts)" and p: "p \<in> F"
    and asks: "p \<in> table_bufs s \<Longrightarrow> still_asks b"
  shows "retrans_inv (s', timers_after acts T, F - {p} \<union> sent acts) \<and> handed_back acts \<inter> (F - {p} \<union> sent acts \<union> table_bufs s') = {}"
proof -
  have F: "F \<subseteq> {..<ZB_IOBUF_POOL_SIZE}" using inv by (simp add: retrans_inv_def)
  obtain b1 b2 where b2: "ZB_MAC_CUT_HDR_WITHOUT_TRAILER b = Some b1" "ZB_NWK_HDR_CUT b1 = Some b2"
    using c by (auto simp: zb_nlde_data_confirm_def split: option.splits)
  define fc where "fc = bytes b2 ! boff b2"
  define s1 where "s1 = set_abuf p b2 (set_abuf p b s)"
  have s1: "retrans s1 = retrans s" by (simp add: s1_def)
  have fc: "confirmed_fc b = Some fc" using b2 by (simp add: confirmed_fc_def fc_def)
  have ab: "abufs (set_abuf p b s) p = b" by simp
  have body: "(if ZB_APS_FC_GET_FRAME_TYPE fc = ZB_APS_FRAME_ACK then Some (s1, [Free_buf p])
              else if ZB_APS_FC_GET_ACK_REQUEST fc = 0 then Some (s1, [Apsde_data_confirm p])
              else
                (case find (\<lambda>i. re_buf (retrans s1 ! i) = p) [0..<ZB_N_APS_RETRANS_ENTRIES] of
                   None \<Rightarrow> Some (s1, [Free_buf p])
                 | Some i \<Rightarrow>
                     if re_state (retrans s1 ! i) = RETRANS_ENT_SENT_MAC_NOT_CONFIRMED_APS_ACKED
                     then done_with_this_ack i fc RET_OK_byte s1
                     else if re_state (retrans s1 ! i) = RETRANS_ENT_SENT_MAC_NOT_CONFIRMED
                     then Some (set_ent i ((retrans s1 ! i)\<lparr>re_state := RETRANS_ENT_SENT_MAC_CONFIRMED\<rparr>) s1, [])
                     else None)) = Some (s', acts)" (is "?body = _")
    using c unfolding zb_nlde_data_confirm_def ab b2 option.case Let_def fc_def [symmetric] s1_def [symmetric] .
  show ?thesis
  proof (cases "p \<in> table_bufs s")
    case False
    have nf: "find (\<lambda>i. re_buf (retrans s1 ! i) = p) [0..<ZB_N_APS_RETRANS_ENTRIES] = None"
      using not_in_table [OF False] s1 by (auto simp: find_None_iff)
    have r: "s' = s1" "acts = [Free_buf p] \<or> acts = [Apsde_data_confirm p]"
      using body unfolding nf option.case by (simp_all split: if_split_asm)
    have i1: "retrans_inv (s1, T, F - {p})"
    proof (rule inv_elsewhere [OF inv s1])
      show "F - {p} \<subseteq> {..<ZB_IOBUF_POOL_SIZE}" using F by blast
      show "q \<in> F - {p} \<longleftrightarrow> q \<in> F" if "q \<in> table_bufs s" for q using False that by blast
    qed
    have t: "table_bufs s1 = table_bufs s" using s1 by (simp add: table_bufs_def)
    from r(2) have "handed_back acts = {p}" "sent acts = {}" "timers_after acts T = T"
      by (auto simp: handed_back_def sent_def)
    with i1 t False show ?thesis unfolding r(1) by simp
  next
    case True
    obtain i where i: "find (\<lambda>i. re_buf (retrans s1 ! i) = p) [0..<ZB_N_APS_RETRANS_ENTRIES] = Some i"
      "i < ZB_N_APS_RETRANS_ENTRIES" "re_buf (retrans s ! i) = p"
    proof (cases "find (\<lambda>i. re_buf (retrans s1 ! i) = p) [0..<ZB_N_APS_RETRANS_ENTRIES]")
      case None
      then show thesis using find_upt_None [OF None] True s1 by (auto simp: table_bufs_def)
    next
      case (Some i)
      then show thesis using that find_upt_Some [OF Some] s1 by simp
    qed
    have nf: "\<not> entry_free s i" using inv_entry(2) [OF inv i(2)] i(3) p F by (auto simp: NO_BUF_def ZB_IOBUF_POOL_SIZE_def)
    from asks [OF True] fc body i(1) s1 have cs:
      "(re_state (retrans s ! i) = RETRANS_ENT_SENT_MAC_NOT_CONFIRMED_APS_ACKED \<and> done_with_this_ack i fc RET_OK_byte s1 = Some (s', acts))
       \<or> (re_state (retrans s ! i) = RETRANS_ENT_SENT_MAC_NOT_CONFIRMED
          \<and> s' = set_ent i ((retrans s ! i)\<lparr>re_state := RETRANS_ENT_SENT_MAC_CONFIRMED\<rparr>) s1 \<and> acts = [])"
      by (auto simp: still_asks_def split: if_splits)
    then show ?thesis
    proof (elim disjE conjE)
      assume "done_with_this_ack i fc RET_OK_byte s1 = Some (s', acts)"
      from inv_done [OF inv i(2) nf disjI2 [OF s1] this] i(3) show ?thesis by auto
    next
      assume *: "s' = set_ent i ((retrans s ! i)\<lparr>re_state := RETRANS_ENT_SENT_MAC_CONFIRMED\<rparr>) s1" "acts = []"
      have "retrans_inv (s', T, F - {p})"
        by (rule inv_state [OF inv i(2) nf, where e = "(retrans s ! i)\<lparr>re_state := RETRANS_ENT_SENT_MAC_CONFIRMED\<rparr>"])
          (use * s1 i(3) inv_entry(3) [OF inv i(2) nf] in simp_all)
      then show ?thesis using *(2) by (simp add: sent_def handed_back_def)
    qed
  qed
qed

lemma ack_step:
  assumes inv: "retrans_inv (s, T, F)" and a: "aps_ack_frame_handle h s = Some (s', acts)" "ah_src_addr h \<noteq> 0xffff"
    and first: "\<And>i. i < ZB_N_APS_RETRANS_ENTRIES \<Longrightarrow> ack_matches h (retrans s ! i) \<Longrightarrow>
        re_state (retrans s ! i) \<noteq> RETRANS_ENT_SENT_MAC_NOT_CONFIRMED_APS_ACKED"
  shows "retrans_inv (s', timers_after acts T, F \<union> sent acts) \<and> handed_back acts \<inter> (F \<union> sent acts \<union> table_bufs s') = {}"
proof (cases "find (\<lambda>i. ack_matches h (retrans s ! i)) [0..<ZB_N_APS_RETRANS_ENTRIES]")
  case None
  then have "s' = s" "acts = []" using a(1) by (simp_all add: aps_ack_frame_handle_def)
  then show ?thesis using inv by (simp add: sent_def handed_back_def)
next
  case (Some i)
  then have i: "i < ZB_N_APS_RETRANS_ENTRIES" "ack_matches h (retrans s ! i)" using find_upt_Some by blast+
  have nf: "\<not> entry_free s i" using inv_entry(2) [OF inv i(1)] i(2) a(2) by (auto simp: ack_matches_def)
  show ?thesis
  proof (cases "re_state (retrans s ! i) = RETRANS_ENT_SENT_MAC_NOT_CONFIRMED")
    case True
    let ?e = "(retrans s ! i)\<lparr>re_state := RETRANS_ENT_SENT_MAC_NOT_CONFIRMED_APS_ACKED\<rparr>"
    have s': "s' = set_ent i ?e s" "acts = []" using a(1) Some True by (simp_all add: aps_ack_frame_handle_def)
    have "retrans_inv (s', T, F)"
      by (rule inv_state [OF inv i(1) nf, where e = ?e]) (use s' True inv_entry(3,5) [OF inv i(1) nf] in auto)
    then show ?thesis using s'(2) by (simp add: sent_def handed_back_def)
  next
    case False
    then have d: "done_with_this_ack i (ah_fc h) RET_OK_byte s = Some (s', acts)" using a(1) Some by (simp add: aps_ack_frame_handle_def)
    have "re_buf (retrans s ! i) \<notin> F"
      using inv_entry(5) [OF inv i(1) nf] False nf first [OF i] by (cases "re_state (retrans s ! i)") auto
    with inv_done [OF inv i(1) nf disjI2 [OF refl] d] show ?thesis by auto
  qed
qed

lemma timer_step:
  assumes inv: "retrans_inv (s, T, F)" and t: "zb_aps_ack_timer_cb i s = Some (s', acts)" and i: "i \<in> set T"
  shows "retrans_inv (s', timers_after acts (remove1 i T), F \<union> sent acts) \<and> handed_back acts \<inter> (F \<union> sent acts \<union> table_bufs s') = {}"
proof -
  define e where "e = (retrans s ! i)\<lparr>re_aps_retries := re_aps_retries (retrans s ! i) - 1\<rparr>"
  define p where "p = re_buf (retrans s ! i)"
  define fc where "fc = bytes (abufs s p) ! boff (abufs s p)"
  have T: "distinct T" "set T = {i. i < ZB_N_APS_RETRANS_ENTRIES \<and> \<not> entry_free s i}" using inv by (auto simp: retrans_inv_def)
  then have i': "i < ZB_N_APS_RETRANS_ENTRIES" "\<not> entry_free s i" using i by auto
  note ie = inv_entry [OF inv i'(1)]
  have e: "re_buf e = p" "re_state e = re_state (retrans s ! i)" "re_aps_retries e \<le> ZB_N_APS_MAX_FRAME_ENTRIES"
    using ie(3) [OF i'(2)] by (auto simp: e_def p_def)
  have T1: "distinct (remove1 i T)" "set (remove1 i T) = set T - {i}" "remove1 i (remove1 i T) = remove1 i T"
    using T(1) by (simp_all add: set_remove1_eq remove1_idem)
  have c: "(re_aps_retries e = 0 \<and> re_state e = RETRANS_ENT_SENT_MAC_CONFIRMED
        \<and> done_with_this_ack i fc RET_NO_ACK_byte (set_ent i e s) = Some (s', acts))
    \<or> (\<exists>s2. re_state e = RETRANS_ENT_SENT_MAC_CONFIRMED \<and> retrans s2 = (retrans s)[i := e]
        \<and> s' = set_ent i (e\<lparr>re_state := RETRANS_ENT_SENT_MAC_NOT_CONFIRMED\<rparr>) s2
        \<and> acts = [Ack_timer i ZB_N_APS_ACK_WAIT_DURATION, To_nwk p])
    \<or> (re_state e \<noteq> RETRANS_ENT_SENT_MAC_CONFIRMED \<and> s' = set_ent i e s \<and> acts = [Ack_timer i ZB_N_APS_ACK_WAIT_DURATION])"
    using t fill_nldereq_retrans
    unfolding zb_aps_ack_timer_cb_def Let_def e_def [symmetric] p_def [symmetric] fc_def [symmetric]
    by (fastforce split: if_split_asm)
  from c show ?thesis
  proof (elim disjE exE conjE)
    assume d: "done_with_this_ack i fc RET_NO_ACK_byte (set_ent i e s) = Some (s', acts)" "re_state e = RETRANS_ENT_SENT_MAC_CONFIRMED"
    from inv_done [OF inv i' disjI1 d(1), of "re_aps_retries e"]
    have "retrans_inv (s', timers_after acts T, F - {p})" "sent acts = {}" "handed_back acts = {p}" "p \<notin> table_bufs s'"
      by (simp_all add: e_def p_def)
    moreover have "timers_after acts T' = remove1 i T'" for T' by (rule done_effect [OF d(1)]) simp
    moreover have "p \<notin> F" using ie(5) [OF i'(2)] d(2) e(2) by (simp add: p_def)
    ultimately show ?thesis using T1(3) by simp
  next
    fix s2 assume r: "re_state e = RETRANS_ENT_SENT_MAC_CONFIRMED" "retrans s2 = (retrans s)[i := e]"
      "s' = set_ent i (e\<lparr>re_state := RETRANS_ENT_SENT_MAC_NOT_CONFIRMED\<rparr>) s2"
      "acts = [Ack_timer i ZB_N_APS_ACK_WAIT_DURATION, To_nwk p]"
    have "retrans_inv (s', T, insert p F)"
      by (rule inv_state [OF inv i', where e = "e\<lparr>re_state := RETRANS_ENT_SENT_MAC_NOT_CONFIRMED\<rparr>"])
        (use r(2,3) e in \<open>simp_all add: p_def\<close>)
    then have "retrans_inv (s', i # remove1 i T, insert p F)" by (rule inv_timers) (use T1 i in auto)
    then show ?thesis using r(4) by (simp add: sent_def handed_back_def)
  next
    assume r: "re_state e \<noteq> RETRANS_ENT_SENT_MAC_CONFIRMED" "s' = set_ent i e s" "acts = [Ack_timer i ZB_N_APS_ACK_WAIT_DURATION]"
    have "retrans_inv (s', T, F)"
      by (rule inv_state [OF inv i', where e = e])
        (use r e i'(2) ie(5) [OF i'(2)] in \<open>auto simp: p_def\<close>)
    then have "retrans_inv (s', i # remove1 i T, F)" by (rule inv_timers) (use T1 i in auto)
    then show ?thesis using r(3) by (simp add: sent_def handed_back_def)
  qed
qed

lemma retrans_step_inv:
  assumes "retrans_step c acts c'" "retrans_inv c"
  shows "retrans_inv c' \<and> handed_back acts \<inter> (snd (snd c') \<union> table_bufs (fst c')) = {}"
  using assms
proof (induction rule: retrans_step.induct)
  case (request u p s s' acts F i T)
  from inv_new_frame [OF request(7) request(2-4)] request_effect [OF request(1,5,6)] request(5) show ?case by auto
next
  case (command p dest cmd secure s s' acts F T)
  note c = command_effect [OF command(1)]
  have "(retrans s' = retrans s \<and> quiet acts \<and> sent acts \<subseteq> {p} \<and> handed_back acts \<subseteq> {p} - sent acts)
    \<or> (\<exists>i e. free_entry s = Some i \<and> retrans s' = (retrans s)[i := e] \<and> re_buf e = p \<and> re_aps_retries e \<le> ZB_N_APS_MAX_FRAME_ENTRIES
          \<and> re_state e = RETRANS_ENT_SENT_MAC_NOT_CONFIRMED \<and> sent acts = {p} \<and> handed_back acts = {}
          \<and> (\<forall>T. timers_after acts T = i # T))"
    using c by blast
  from inv_new_frame [OF command(5) command(2-4) this] show ?case by simp
next
  case (confirm p b s s' acts F T)
  from confirm_step [OF confirm(4) confirm(1,2,3)] show ?case by simp
next
  case (ack h s s' acts T F)
  from ack_step [OF ack(4) ack(1,2,3)] show ?case by simp
next
  case (timer i s s' acts T F)
  from timer_step [OF timer(3) timer(1,2)] show ?case by simp
qed

lemma retrans_reach_inv: "retrans_reach c0 c \<Longrightarrow> retrans_inv c0 \<Longrightarrow> retrans_inv c"
  by (induction rule: retrans_reach.induct) (auto dest: retrans_step_inv)

lemma retrans_start_inv:
  assumes "length (retrans s) = ZB_N_APS_RETRANS_ENTRIES" "\<forall>e \<in> set (retrans s). re_state e = RETRANS_ENT_FREE"
  shows "retrans_inv (zb_aps_init r s, [], {})"
  by (rule retrans_invI) (use assms in \<open>auto simp: zb_aps_init_def\<close>)



end
