(* ===== verification/Aps_Ack_Props.thy ===== *)
theory Aps_Ack_Props
  imports Aps_Retrans_Props
begin

text \<open>
  How an acknowledged transmission ends: with an acknowledgement, or after the last retransmission; what a request does for each
  filling of the table; and the repeated acknowledgement that takes a buffer from the network layer.
\<close>

section \<open>The last retransmission\<close>

text \<open>The timer runs out, and the lower layers confirm each retransmission with one of the buffers.\<close>

fun unanswered :: "nat \<Rightarrow> nat \<Rightarrow> zb_buf list \<Rightarrow> aps_node \<Rightarrow> (aps_node \<times> aps_action list) option" where
  "unanswered i p [] s = zb_aps_ack_timer_cb i s"
| "unanswered i p (b # bs) s =
     (case zb_aps_ack_timer_cb i s of
        None \<Rightarrow> None
      | Some (s1, a1) \<Rightarrow>
          (case zb_nlde_data_confirm p (set_abuf p b s1) of
             None \<Rightarrow> None
           | Some (s2, a2) \<Rightarrow> add_aps (a1 @ a2) (unanswered i p bs s2)))"

text \<open>A data frame that asks for an acknowledgement, with room for the next request behind it.\<close>

definition data_asks :: "zb_buf \<Rightarrow> bool" where
  "data_asks b \<longleftrightarrow> tail_room SIZEOF_NLDE_DATA_REQ b \<and> (let fc = bytes b ! boff b in
     ZB_APS_FC_GET_FRAME_TYPE fc \<noteq> ZB_APS_FRAME_ACK \<and> ZB_APS_FC_GET_ACK_REQUEST fc \<noteq> 0 \<and> ZB_APS_FC_GET_ACK_FORMAT fc = 0)"

definition comes_back :: "zb_buf \<Rightarrow> zb_buf \<Rightarrow> bool" where
  "comes_back b b2 \<longleftrightarrow> (\<exists>b1. ZB_MAC_CUT_HDR_WITHOUT_TRAILER b = Some b1 \<and> ZB_NWK_HDR_CUT b1 = Some b2)"

lemma one_retransmission:
  assumes inv: "retrans_inv (s, T, F)" and i: "i < ZB_N_APS_RETRANS_ENTRIES" "re_state (retrans s ! i) = RETRANS_ENT_SENT_MAC_CONFIRMED"
    and r: "re_aps_retries (retrans s ! i) = Suc (Suc n)" and p: "re_buf (retrans s ! i) = p"
    and ok: "data_asks (abufs s p)" "comes_back b b2" "data_asks b2"
  obtains s1 s2 T' F' where "zb_aps_ack_timer_cb i s = Some (s1, [Ack_timer i ZB_N_APS_ACK_WAIT_DURATION, To_nwk p])"
    "zb_nlde_data_confirm p (set_abuf p b s1) = Some (s2, [])" "retrans_inv (s2, T', F')"
    "re_state (retrans s2 ! i) = RETRANS_ENT_SENT_MAC_CONFIRMED" "re_aps_retries (retrans s2 ! i) = Suc n"
    "re_buf (retrans s2 ! i) = p" "abufs s2 p = b2"
proof -
  have nf: "\<not> entry_free s i" using i(2) by simp
  note ie = inv_entry [OF inv i(1)]
  have iT: "i \<in> set T" using ie(4) nf by simp
  have p16: "p < ZB_IOBUF_POOL_SIZE" using ie(3) [OF nf] p by simp
  let ?e = "(retrans s ! i)\<lparr>re_aps_retries := Suc n, re_state := RETRANS_ENT_SENT_MAC_NOT_CONFIRMED\<rparr>"
  obtain s1 where s1: "zb_aps_ack_timer_cb i s = Some (s1, [Ack_timer i ZB_N_APS_ACK_WAIT_DURATION, To_nwk p])"
    "retrans s1 = (retrans s)[i := ?e]"
    using ok(1) i(2) r p p16 ie(1)
    by (auto simp: zb_aps_ack_timer_cb_def fill_nldereq_def data_asks_def Let_def)
  from timer_step [OF inv s1(1) iT] have inv1: "retrans_inv (s1, i # remove1 i T, insert p F)"
    by (simp add: sent_def)
  have at: "retrans s1 ! i = ?e" using s1(2) ie(1) by simp
  obtain b1 where b1: "ZB_MAC_CUT_HDR_WITHOUT_TRAILER b = Some b1" "ZB_NWK_HDR_CUT b1 = Some b2"
    using ok(2) by (auto simp: comes_back_def)
  have fnd: "find (\<lambda>j. re_buf (retrans s1 ! j) = p) [0..<ZB_N_APS_RETRANS_ENTRIES] = Some i"
  proof (cases "find (\<lambda>j. re_buf (retrans s1 ! j) = p) [0..<ZB_N_APS_RETRANS_ENTRIES]")
    case None
    then show ?thesis using find_upt_None [OF None i(1)] at p by simp
  next
    case (Some j)
    then have "j < ZB_N_APS_RETRANS_ENTRIES" "re_buf (retrans s1 ! j) = p" using find_upt_Some by blast+
    with inv_entry(6) [OF inv1 i(1), of j] at p Some show ?thesis by simp
  qed
  let ?s2 = "set_ent i (?e\<lparr>re_state := RETRANS_ENT_SENT_MAC_CONFIRMED\<rparr>) (set_abuf p b2 (set_abuf p b s1))"
  have c: "zb_nlde_data_confirm p (set_abuf p b s1) = Some (?s2, [])"
    using ok(3) b1 fnd at by (simp add: zb_nlde_data_confirm_def data_asks_def Let_def)
  have "still_asks b" using b1 ok(3) by (simp add: still_asks_def confirmed_fc_def data_asks_def Let_def)
  from confirm_step [OF inv1 c _ this] have "retrans_inv (?s2, i # remove1 i T, insert p F - {p})" by (simp add: sent_def)
  then show thesis by (rule that [OF s1(1) c]) (use ie(1) s1(2) p in simp_all)
qed

text \<open>
  C16: Retransmissions end. A frame that was sent and confirmed and gets no acknowledgement is sent again once for each
  retry but the last; then the timer hands it back to the higher layer with the status that there was no acknowledgement, frees its
  entry and stops. With the three entries that a request starts with these are two retransmissions.
\<close>

theorem retransmissions_end:
  assumes "retrans_inv (s, T, F)" "i < ZB_N_APS_RETRANS_ENTRIES" "re_state (retrans s ! i) = RETRANS_ENT_SENT_MAC_CONFIRMED"
    "re_aps_retries (retrans s ! i) = Suc (length bs)" "re_buf (retrans s ! i) = p" "data_asks (abufs s p)"
    "\<forall>b \<in> set bs. \<exists>b2. comes_back b b2 \<and> data_asks b2"
  shows "\<exists>s'. unanswered i p bs s = Some (s',
        concat (replicate (length bs) [Ack_timer i ZB_N_APS_ACK_WAIT_DURATION, To_nwk p]) @ [Apsde_data_confirm p, Ack_timer_cancel i])
    \<and> re_state (retrans s' ! i) = RETRANS_ENT_FREE \<and> status (hdr (abufs s' p)) = ucast RET_NO_ACK_byte"
  using assms
proof (induction bs arbitrary: s T F)
  case Nil
  have "\<not> entry_free s i" using Nil.prems(3) by simp
  with inv_entry(1,3) [OF Nil.prems(1,2)] Nil.prems show ?case
    by (auto simp: zb_aps_ack_timer_cb_def done_with_this_ack_def data_asks_def buf_status_def Let_def)
next
  case (Cons b bs)
  from Cons.prems(7) obtain b2 where b2: "comes_back b b2" "data_asks b2" by auto
  have r: "re_aps_retries (retrans s ! i) = Suc (Suc (length bs))" using Cons.prems(4) by simp
  obtain s1 s2 T' F' where s2: "zb_aps_ack_timer_cb i s = Some (s1, [Ack_timer i ZB_N_APS_ACK_WAIT_DURATION, To_nwk p])"
    "zb_nlde_data_confirm p (set_abuf p b s1) = Some (s2, [])" "retrans_inv (s2, T', F')"
    "re_state (retrans s2 ! i) = RETRANS_ENT_SENT_MAC_CONFIRMED" "re_aps_retries (retrans s2 ! i) = Suc (length bs)"
    "re_buf (retrans s2 ! i) = p" "abufs s2 p = b2"
    by (rule one_retransmission [OF Cons.prems(1-3) r Cons.prems(5,6) b2])
  have "data_asks (abufs s2 p)" "\<forall>b \<in> set bs. \<exists>b2. comes_back b b2 \<and> data_asks b2" using s2(7) b2(2) Cons.prems(7) by simp_all
  from Cons.IH [OF s2(3) Cons.prems(2) s2(4-6) this] s2(1,2) show ?case by (auto simp: add_aps_def)
qed

section \<open>Repeated acknowledgements\<close>

text \<open>
  C18: A second copy of an acknowledgement that comes before the network layer has confirmed the frame hands the buffer to
  the higher layer while the network layer still has it; the confirmation then frees it once more.
\<close>

theorem second_ack_takes_the_buffer:
  assumes inv: "retrans_inv (s, T, F)" and i: "find (\<lambda>i. ack_matches h (retrans s ! i)) [0..<ZB_N_APS_RETRANS_ENTRIES] = Some i"
    "re_state (retrans s ! i) = RETRANS_ENT_SENT_MAC_NOT_CONFIRMED" "re_buf (retrans s ! i) = p"
    and h: "ZB_APS_FC_GET_ACK_FORMAT (ah_fc h) = 0" and b: "comes_back b b2" "data_asks b2"
  shows "p \<in> F \<and> (\<exists>s1 s2 s3. aps_ack_frame_handle h s = Some (s1, [])
    \<and> aps_ack_frame_handle h s1 = Some (s2, [Apsde_data_confirm p, Ack_timer_cancel i])
    \<and> zb_nlde_data_confirm p (set_abuf p b s2) = Some (s3, [Free_buf p]))"
proof -
  have i': "i < ZB_N_APS_RETRANS_ENTRIES" "ack_matches h (retrans s ! i)" "\<And>j. j < i \<Longrightarrow> \<not> ack_matches h (retrans s ! j)"
    using find_upt_Some [OF i(1)] by auto
  have nf: "\<not> entry_free s i" using i(2) by simp
  note ie = inv_entry [OF inv i'(1)]
  have pF: "p \<in> F" using ie(5) [OF nf] i(2,3) by simp
  have p16: "p < ZB_IOBUF_POOL_SIZE" using ie(3) [OF nf] i(3) by simp
  let ?e = "(retrans s ! i)\<lparr>re_state := RETRANS_ENT_SENT_MAC_NOT_CONFIRMED_APS_ACKED\<rparr>"
  let ?s1 = "set_ent i ?e s"
  have a1: "aps_ack_frame_handle h s = Some (?s1, [])" using i(1,2) by (simp add: aps_ack_frame_handle_def)
  have at: "retrans ?s1 ! i = ?e" using ie(1) by simp
  have am: "ack_matches h (retrans ?s1 ! j) = ack_matches h (retrans s ! j)" for j
    by (cases "j = i") (simp_all add: ie(1) ack_matches_def)
  have f1: "find (\<lambda>i. ack_matches h (retrans ?s1 ! i)) [0..<ZB_N_APS_RETRANS_ENTRIES] = Some i"
    unfolding am by (rule i(1))
  obtain s2 where d: "done_with_this_ack i (ah_fc h) RET_OK_byte ?s1 = Some (s2, [Apsde_data_confirm p, Ack_timer_cancel i])"
    using p16 i(3) h ie(1) by (simp add: done_with_this_ack_def Let_def)
  then have a2: "aps_ack_frame_handle h ?s1 = Some (s2, [Apsde_data_confirm p, Ack_timer_cancel i])"
    unfolding aps_ack_frame_handle_def f1 option.case at by simp
  obtain e where e: "retrans s2 = (retrans ?s1)[i := e]" "re_buf e = NO_BUF" by (rule done_effect [OF d]) blast
  have ne: "re_buf (retrans s2 ! j) \<noteq> p" if "j < ZB_N_APS_RETRANS_ENTRIES" for j
    using ie(1) ie(6) [OF nf that] i(3) e p16 by (cases "j = i") (auto simp: NO_BUF_def ZB_IOBUF_POOL_SIZE_def)
  then have fn: "find (\<lambda>i. re_buf (retrans s2 ! i) = p) [0..<ZB_N_APS_RETRANS_ENTRIES] = None"
    by (auto simp: find_None_iff)
  obtain b1 where "ZB_MAC_CUT_HDR_WITHOUT_TRAILER b = Some b1" "ZB_NWK_HDR_CUT b1 = Some b2" using b(1) by (auto simp: comes_back_def)
  then have "\<exists>s3. zb_nlde_data_confirm p (set_abuf p b s2) = Some (s3, [Free_buf p])"
    using b(2) fn by (simp add: zb_nlde_data_confirm_def data_asks_def Let_def)
  with pF a1 a2 show ?thesis by blast
qed

section \<open>Requests and the filling of the table\<close>

text \<open>
  A request for an acknowledged frame to a short address. With one of the first nine entries free the frame is sent, its timer
  starts and the entry remembers it. With only the last entry free the entry is taken, but the request is confirmed with
  \<^verbatim>\<open>ZB_APS_STATUS_TABLE_FULL\<close>: nothing is sent, no timer runs, and the entry keeps a buffer that
  the higher layer has. With no free entry the frame is sent all the same and entry 0 gets a second timer.
\<close>

theorem request_by_filling_of_the_table:
  assumes "length (retrans s) = ZB_N_APS_RETRANS_ENTRIES"
    and "rq_addr_mode (apsde_req s p) = ADDR_MODE_16_ENDP_PRESENT" "rq_tx_options (apsde_req s p) AND ZB_APSDE_TX_OPT_ACK_TX \<noteq> 0"
    and "zb_apsde_data_request u p s = Some (s', acts)"
  shows "case free_entry s of
      None \<Rightarrow> retrans s' = retrans s \<and> nr_dst_addr (nlde_req s' p) = rq_short (apsde_req s p)
        \<and> acts = [Reschedule_poll ZB_APS_POLL_AFTER_REQ_TMO, Ack_timer 0 ZB_N_APS_ACK_WAIT_DURATION, To_nwk p]
    | Some i \<Rightarrow> re_buf (retrans s' ! i) = p \<and> re_addr (retrans s' ! i) = rq_short (apsde_req s p)
        \<and> re_aps_counter (retrans s' ! i) = aps_counter s \<and> re_state (retrans s' ! i) = RETRANS_ENT_SENT_MAC_NOT_CONFIRMED
        \<and> (if i < ZB_N_APS_RETRANS_ENTRIES - 1
           then nr_dst_addr (nlde_req s' p) = rq_short (apsde_req s p)
             \<and> acts = [Reschedule_poll ZB_APS_POLL_AFTER_REQ_TMO, Ack_timer i ZB_N_APS_ACK_WAIT_DURATION, To_nwk p]
           else status (hdr (abufs s' p)) = ucast ZB_APS_STATUS_TABLE_FULL \<and> acts = [Apsde_data_confirm p])"
proof -
  let ?req = "apsde_req s p"
  let ?g = "ZB_APS_FC_SET_DELIVERY_MODE 0 (if is_broadcast_addr (rq_short ?req) then ZB_APS_DELIVERY_BROADCAST else ZB_APS_DELIVERY_UNICAST)"
  let ?fc = "ZB_APS_FC_SET_ACK_REQUEST ?g 1"
  have d: "apsde_find_destination u ?req s = Some (Send_to ?g (rq_short ?req) ?req, s)"
    using assms(2) by (simp add: apsde_find_destination_def ADDR_MODE_DST_ADDR_ENDP_NOT_PRESENT_def
      ADDR_MODE_16_GROUP_ENDP_NOT_PRESENT_def ADDR_MODE_16_ENDP_PRESENT_def)
  have f0: "ZB_APS_FC_SET_ACK_FORMAT fc 0 = fc" for fc by (simp add: ZB_APS_FC_SET_ACK_FORMAT_def)
  have ng: "ZB_APS_FC_GET_DELIVERY_MODE ?fc \<noteq> ZB_APS_DELIVERY_GROUP" by (simp add: aps_fc_defs)
  let ?sq = "set_apsde p ?req s"
  obtain s3 where s3: "fill_data_header p ?fc ?req ?sq = Some s3"
    using assms(3,4) unfolding zb_apsde_data_request_def d option.case apsde_destination.case prod.case Let_def f0
    by (auto split: if_splits option.splits)
  have r3: "retrans s3 = retrans s" using fill_data_header_retrans [OF s3] by simp
  have c3: "aps_counter s3 - 1 = aps_counter s" using s3 by (auto simp: fill_data_header_def set_apsde_def)
  have fe: "free_entry s3 = free_entry s" using r3 by (simp add: free_entry_def)
  have pass: "retrans s5 = retrans s4 \<and> nr_dst_addr (nlde_req s5 p) = rq_short ?req \<and> as = [To_nwk p]"
    if "pass_to_nwk p ?fc (rq_short ?req) (rq_radius ?req) s4 = Some (s5, as)" for s4 s5 as
    using that ng by (auto simp: pass_to_nwk_def set_nlde_def Let_def split: if_splits)
  obtain ret ref s4 where s4: "save_ack_data p ?req s3 = (ret, ref, s4)" by (cases "save_ack_data p ?req s3")
  have res: "(if ret \<noteq> RET_OK_byte
              then Some (set_abuf p (buf_status (ucast ret) (abufs s4 p)) s4, [Apsde_data_confirm p])
              else add_aps [Reschedule_poll ZB_APS_POLL_AFTER_REQ_TMO, Ack_timer ref ZB_N_APS_ACK_WAIT_DURATION]
                     (pass_to_nwk p ?fc (rq_short ?req) (rq_radius ?req) s4)) = Some (s', acts)"
    using assms(3,4) unfolding zb_apsde_data_request_def d option.case apsde_destination.case prod.case Let_def f0 s3 s4
    by (simp split: if_splits)
  have k: "keeps_short_addr (rq_addr_mode ?req)" using assms(2) by (simp add: keeps_short_addr_def)
  show ?thesis
  proof (cases "free_entry s")
    case None
    then have "ret = RET_OK_byte" "ref = 0" "s4 = s3" using s4 fe by (simp_all add: save_ack_data_def)
    with res pass r3 None show ?thesis by (auto simp: add_aps_def)
  next
    case (Some i)
    then have il: "i < length (retrans s)" using find_upt_Some assms(1) unfolding free_entry_def by fastforce
    have ret: "ret = (if i = ZB_N_APS_RETRANS_ENTRIES - 1 then ZB_APS_STATUS_TABLE_FULL else RET_OK_byte)" and ref: "ref = i"
      using s4 fe Some by (auto simp: save_ack_data_def)
    have r4: "retrans s4 ! i = (retrans s ! i)\<lparr>re_addr := rq_short ?req, re_clusterid := rq_clusterid ?req, re_aps_counter := aps_counter s,
        re_src_endpoint := rq_src_endpoint ?req, re_dst_endpoint := rq_dst_endpoint ?req, re_buf := p,
        re_nwk_insecure := False, re_aps_retries := ZB_N_APS_MAX_FRAME_ENTRIES, re_state := RETRANS_ENT_SENT_MAC_NOT_CONFIRMED\<rparr>"
      using s4 fe Some r3 c3 il k by (auto simp: save_ack_data_def)
    show ?thesis
    proof (cases "i = ZB_N_APS_RETRANS_ENTRIES - 1")
      case True
      then have "s' = set_abuf p (buf_status (ucast ZB_APS_STATUS_TABLE_FULL) (abufs s4 p)) s4" "acts = [Apsde_data_confirm p]"
        using res ret by (simp_all add: ZB_APS_STATUS_TABLE_FULL_def RET_OK_byte_def)
      then show ?thesis unfolding Some option.case using r4 True by (simp add: buf_status_def)
    next
      case False
      then have lt: "i < ZB_N_APS_RETRANS_ENTRIES - 1" using il assms(1) by simp
      from False ret res have "add_aps [Reschedule_poll ZB_APS_POLL_AFTER_REQ_TMO, Ack_timer i ZB_N_APS_ACK_WAIT_DURATION]
          (pass_to_nwk p ?fc (rq_short ?req) (rq_radius ?req) s4) = Some (s', acts)" by (simp add: ref)
      then obtain as where as: "pass_to_nwk p ?fc (rq_short ?req) (rq_radius ?req) s4 = Some (s', as)"
        "acts = [Reschedule_poll ZB_APS_POLL_AFTER_REQ_TMO, Ack_timer i ZB_N_APS_ACK_WAIT_DURATION] @ as" by (auto simp: add_aps_def)
      show ?thesis unfolding Some option.case using pass [OF as(1)] as(2) lt r4 by simp
    qed
  qed
qed

section \<open>A frame that waits\<close>

text \<open>A node whose entry 0 waits with buffer 2, and the frame as the lower layers give it back.\<close>

definition waiting_node :: "nat \<Rightarrow> zb_aps_retrans_state \<Rightarrow> aps_node" where
  "waiting_node r st = set_ent 0 (entry_zero\<lparr>re_addr := 0x1234, re_aps_counter := 9, re_buf := 2, re_aps_retries := r, re_state := st\<rparr>)
     (set_abuf 2 (buf_zero\<lparr>hdr := hdr_zero\<lparr>h_len := 8, data_offset := 40\<rparr>,
        bytes := replicate 40 0 @ [0x40, 10, 6, 0, 4, 1, 11, 9] @ replicate 100 0\<rparr>) (zb_aps_init 0 aps_zero))"

definition sent_frame :: zb_buf where
  "sent_frame = buf_zero\<lparr>hdr := hdr_zero\<lparr>h_len := 27, data_offset := 23\<rparr>,
     bytes := replicate 23 0 @ [0x41, 0x88, 1, 0xaa, 0x1a, 0x34, 0x12, 0, 0] @ [8, 0, 0x34, 0x12, 0, 0, 10, 1]
       @ [0x40, 10, 6, 0, 4, 1, 11, 9] @ [0, 0] @ replicate 98 0\<rparr>"

lemma waiting_inv:
  assumes "st \<noteq> RETRANS_ENT_FREE" "r \<le> 3"
  shows "retrans_inv (waiting_node r st, [0], if st = RETRANS_ENT_SENT_MAC_CONFIRMED then {} else {2})"
  by (rule retrans_invI) (use assms in \<open>auto simp: waiting_node_def zb_aps_init_def aps_zero_def entry_zero_def ZB_N_APS_RETRANS_ENTRIES_def
    ZB_N_APS_MAX_FRAME_ENTRIES_def ZB_IOBUF_POOL_SIZE_def NO_BUF_def nth_list_update split: if_splits\<close>)

lemma waiting_entry:
  "retrans (waiting_node r st) ! 0 = entry_zero\<lparr>re_addr := 0x1234, re_aps_counter := 9, re_buf := 2, re_aps_retries := r, re_state := st\<rparr>"
  "data_asks (abufs (waiting_node r st) 2)"
  by (simp_all add: waiting_node_def zb_aps_init_def aps_zero_def ZB_N_APS_RETRANS_ENTRIES_def data_asks_def tail_room_def
    zb_get_buf_tail_def hdr_zero_def ZB_IO_BUF_SIZE_def SIZEOF_NLDE_DATA_REQ_def aps_fc_defs Let_def nth_append)

lemma sent_frame_comes_back: "\<exists>b2. comes_back sent_frame b2 \<and> data_asks b2"
  by (simp add: comes_back_def sent_frame_def ZB_MAC_CUT_HDR_WITHOUT_TRAILER_def ZB_NWK_HDR_CUT_def zb_buf_cut_left_def
    zb_buf_cut_right_def set_off_def set_len_def hdr_zero_def ZB_TAIL_SIZE_FOR_SENDER_MAC_FRAME_def bytes_at_def Let_def
    zb_mac_calculate_mhr_length_def ZB_FCF_GET_SRC_ADDRESSING_MODE_def ZB_FCF_GET_DST_ADDRESSING_MODE_def
    ZB_FCF_GET_PANID_COMPRESSION_BIT_def MAC_SECUR_LEV5_KEYID1_AUX_HDR_SIZE_def MODE_NO_ADDR_def MODE_16BIT_def MODE_64BIT_def
    ZB_MAC_DST_PANID_OFFSET_def PAN_ID_LENGTH_def hdr_fctl_def zb_nwk_hdr_size_def ZB_NWK_SHORT_HDR_SIZE_def
    data_asks_def tail_room_def zb_get_buf_tail_def ZB_IO_BUF_SIZE_def SIZEOF_NLDE_DATA_REQ_def aps_fc_defs nth_append)

theorem retransmissions_end_witness:
  "\<exists>s'. unanswered 0 2 [sent_frame] (waiting_node 2 RETRANS_ENT_SENT_MAC_CONFIRMED) = Some (s',
        [Ack_timer 0 ZB_N_APS_ACK_WAIT_DURATION, To_nwk 2, Apsde_data_confirm 2, Ack_timer_cancel 0])
    \<and> status (hdr (abufs s' 2)) = ucast RET_NO_ACK_byte"
proof -
  have i: "0 < ZB_N_APS_RETRANS_ENTRIES" by (simp add: ZB_N_APS_RETRANS_ENTRIES_def)
  have "retrans_inv (waiting_node 2 RETRANS_ENT_SENT_MAC_CONFIRMED, [0], {})"
    using waiting_inv [of RETRANS_ENT_SENT_MAC_CONFIRMED 2] by simp
  from retransmissions_end [OF this i _ _ _ waiting_entry(2), of "[sent_frame]"] sent_frame_comes_back show ?thesis
    by (auto simp: waiting_entry(1))
qed

theorem second_ack_takes_the_buffer_witness:
  "\<exists>s1 s2 s3. aps_ack_frame_handle ((aps_hdr_of_bytes (replicate 14 0))\<lparr>ah_fc := 2, ah_src_addr := 0x1234, ah_aps_counter := 9\<rparr>)
        (waiting_node 3 RETRANS_ENT_SENT_MAC_NOT_CONFIRMED) = Some (s1, [])
    \<and> aps_ack_frame_handle ((aps_hdr_of_bytes (replicate 14 0))\<lparr>ah_fc := 2, ah_src_addr := 0x1234, ah_aps_counter := 9\<rparr>) s1
        = Some (s2, [Apsde_data_confirm 2, Ack_timer_cancel 0])
    \<and> zb_nlde_data_confirm 2 (set_abuf 2 sent_frame s2) = Some (s3, [Free_buf 2])"
proof -
  let ?h = "(aps_hdr_of_bytes (replicate 14 0))\<lparr>ah_fc := 2, ah_src_addr := 0x1234, ah_aps_counter := 9\<rparr>"
  let ?s = "waiting_node 3 RETRANS_ENT_SENT_MAC_NOT_CONFIRMED"
  have inv: "retrans_inv (?s, [0], {2})"
    using waiting_inv [of RETRANS_ENT_SENT_MAC_NOT_CONFIRMED 3] by simp
  have "ack_matches ?h (retrans ?s ! 0)"
    by (simp add: waiting_entry(1) ack_matches_def entry_zero_def aps_hdr_of_bytes_def letoh16_def)
  then have f: "find (\<lambda>i. ack_matches ?h (retrans ?s ! i)) [0..<ZB_N_APS_RETRANS_ENTRIES] = Some 0"
    by (simp add: ZB_N_APS_RETRANS_ENTRIES_def upt_conv_Cons)
  have st: "re_state (retrans ?s ! 0) = RETRANS_ENT_SENT_MAC_NOT_CONFIRMED" "re_buf (retrans ?s ! 0) = 2"
    by (simp_all add: waiting_entry(1))
  have g: "ZB_APS_FC_GET_ACK_FORMAT (ah_fc ?h) = 0" by (simp add: aps_fc_defs)
  obtain b2 where b2: "comes_back sent_frame b2" "data_asks b2" using sent_frame_comes_back by blast
  from second_ack_takes_the_buffer [OF inv f st g b2] show ?thesis by blast
qed

theorem request_by_filling_of_the_table_witness:
  "\<exists>s' acts. zb_apsde_data_request 0 2 (set_apsde 2 (req_zero\<lparr>rq_addr_mode := 2, rq_tx_options := 4\<rparr>) (zb_aps_init 0 aps_zero)) = Some (s', acts)
    \<and> re_buf (retrans s' ! 0) = 2
    \<and> acts = [Reschedule_poll ZB_APS_POLL_AFTER_REQ_TMO, Ack_timer 0 ZB_N_APS_ACK_WAIT_DURATION, To_nwk 2]"
proof -
  let ?s = "set_apsde 2 (req_zero\<lparr>rq_addr_mode := 2, rq_tx_options := 4\<rparr>) (zb_aps_init 0 aps_zero)"
  have l: "length (retrans ?s) = ZB_N_APS_RETRANS_ENTRIES" by (simp add: zb_aps_init_def aps_zero_def)
  have m: "rq_addr_mode (apsde_req ?s 2) = ADDR_MODE_16_ENDP_PRESENT" "rq_tx_options (apsde_req ?s 2) AND ZB_APSDE_TX_OPT_ACK_TX \<noteq> 0"
    by (simp_all add: set_apsde_def ADDR_MODE_16_ENDP_PRESENT_def ZB_APSDE_TX_OPT_ACK_TX_def)
  have f: "free_entry ?s = Some 0"
    by (simp add: free_entry_def zb_aps_init_def aps_zero_def entry_zero_def ZB_N_APS_RETRANS_ENTRIES_def upt_conv_Cons)
  have "zb_apsde_data_request 0 2 ?s \<noteq> None"
    by (simp add: zb_apsde_data_request_def apsde_find_destination_def Let_def tail_room_def zb_get_buf_tail_def zb_aps_init_def
      aps_zero_def buf_zero_def hdr_zero_def ZB_IO_BUF_SIZE_def SIZEOF_APSDE_DATA_REQ_def SIZEOF_NLDE_DATA_REQ_def set_apsde_def
      ADDR_MODE_DST_ADDR_ENDP_NOT_PRESENT_def ADDR_MODE_16_GROUP_ENDP_NOT_PRESENT_def ADDR_MODE_16_ENDP_PRESENT_def
      ZB_APSDE_TX_OPT_ACK_TX_def req_zero_def is_broadcast_addr_def fill_data_header_def aps_data_hdr_fill_datareq_def aps_data_hdr_def
      aps_fc_defs addr_short_def letoh16_def buf_op_defs write_bytes_def htole16_def save_ack_data_def free_entry_def entry_zero_def
      ZB_N_APS_RETRANS_ENTRIES_def upt_conv_Cons RET_OK_byte_def add_aps_def pass_to_nwk_def set_nlde_def set_ent_def set_abuf_def)
  then obtain s' acts where r: "zb_apsde_data_request 0 2 ?s = Some (s', acts)" by auto
  have "0 < ZB_N_APS_RETRANS_ENTRIES - 1" by (simp add: ZB_N_APS_RETRANS_ENTRIES_def)
  with request_by_filling_of_the_table [OF l m r] f r show ?thesis by auto
qed

end
