(* ===== verification/Aps_Group_Props.thy ===== *)
theory Aps_Group_Props
  imports Aps_Retrans_Props
begin

text \<open>
  Frames for groups, frames for devices without a short address, and the information base.
\<close>

section \<open>Groups\<close>

text \<open>The callback for each buffer that gets free.\<close>

fun pass_up_all :: "nat list \<Rightarrow> aps_node \<Rightarrow> (aps_node \<times> aps_action list) option" where
  "pass_up_all [] s = Some (s, [])"
| "pass_up_all (p # ps) s =
     (case zb_aps_pass_group_msg_up p s of
        None \<Rightarrow> None
      | Some (s1, a1) \<Rightarrow> add_aps a1 (pass_up_all ps s1))"

lemma get_aps_hdr_copy:
  assumes "buf_ok b" "get_aps_hdr b = Some h"
  shows "get_aps_hdr (set_buf_handle v b) = Some h" "get_aps_hdr (set_buf_handle v (ZB_BUF_COPY d b)) = Some h"
    "buf_ok (set_buf_handle v b)" "buf_ok (set_buf_handle v (ZB_BUF_COPY d b))"
    "payload (set_buf_handle v b) = payload b" "payload (set_buf_handle v (ZB_BUF_COPY d b)) = payload b"
  using assms by (simp_all add: get_aps_hdr_def zb_get_buf_tail_def set_buf_handle_def ZB_BUF_COPY_def buf_ok_def payload_def)

lemma one_endpoint:
  assumes act: "active_pass_up_buf s = Some act" and b: "buf_ok (abufs s act)" "get_aps_hdr (abufs s act) = Some h"
    and k: "unat (handle (hdr (abufs s act))) = k" and g: "find_group (ah_group_addr h) (group_tab s) = Some g"
    and lt: "k < n_endpoints (groups (group_tab s) ! g)" "k < 255" and p: "p \<noteq> act"
  obtains s1 where "zb_aps_pass_group_msg_up p s = Some (s1, [Apsde_data_indication p, In_buf_delayed Pass_group_msg_up])"
    "active_pass_up_buf s1 = Some act" "group_tab s1 = group_tab s" "pass_up_q s1 = pass_up_q s" "buf_ok (abufs s1 act)"
    "get_aps_hdr (abufs s1 act) = Some h"
    "unat (handle (hdr (abufs s1 act))) = Suc k" "payload (abufs s1 act) = payload (abufs s act)"
    "get_aps_hdr (abufs s1 p) = Some (h\<lparr>ah_dst_endpoint := endpoints (groups (group_tab s) ! g) ! k\<rparr>)"
    "payload (abufs s1 p) = payload (abufs s act)" "\<And>q. q \<noteq> p \<Longrightarrow> q \<noteq> act \<Longrightarrow> abufs s1 q = abufs s q"
proof -
  let ?c = "set_buf_handle 0 (ZB_BUF_COPY (abufs s p) (abufs s act))"
  let ?h = "h\<lparr>ah_dst_endpoint := endpoints (groups (group_tab s) ! g) ! k\<rparr>"
  note c = get_aps_hdr_copy [OF b]
  obtain b1 where b1: "put_aps_hdr ?h ?c = Some b1"
    using c(2) [of 0 "abufs s p"] by (auto simp: get_aps_hdr_def put_aps_hdr_def)
  note pc = get_put_aps_hdr [OF c(4) b1]
  let ?s1 = "set_abuf act (set_buf_handle (handle (hdr (abufs s act)) + 1) (abufs s act)) (set_abuf p b1 s)"
  have r: "zb_aps_pass_group_msg_up p s = Some (?s1, [Apsde_data_indication p, In_buf_delayed Pass_group_msg_up])"
    using act b g lt k b1 by (simp add: zb_aps_pass_group_msg_up_def Let_def)
  have "unat (handle (hdr (abufs s act)) + 1) = Suc k"
    using k lt(2) by (simp add: unat_word_ariths(1))
  then show thesis
    by (intro that [OF r]) (use act b c pc p in \<open>auto simp: set_abuf_def set_buf_handle_def payload_def buf_ok_def get_aps_hdr_def zb_get_buf_tail_def\<close>)
qed

lemma rest_of_endpoints:
  assumes "active_pass_up_buf s = Some act" "buf_ok (abufs s act)" "get_aps_hdr (abufs s act) = Some h"
    "unat (handle (hdr (abufs s act))) = k" "find_group (ah_group_addr h) (group_tab s) = Some g"
    "k + length ps = n_endpoints (groups (group_tab s) ! g)" "n_endpoints (groups (group_tab s) ! g) \<le> 255"
    "distinct ps" "act \<notin> set ps"
  shows "\<exists>s'. pass_up_all ps s = Some (s', concat (map (\<lambda>p. [Apsde_data_indication p, In_buf_delayed Pass_group_msg_up]) ps))
    \<and> active_pass_up_buf s' = Some act \<and> group_tab s' = group_tab s \<and> pass_up_q s' = pass_up_q s
    \<and> get_aps_hdr (abufs s' act) = Some h \<and> unat (handle (hdr (abufs s' act))) = n_endpoints (groups (group_tab s) ! g)
    \<and> (\<forall>q. q \<notin> set ps \<longrightarrow> q \<noteq> act \<longrightarrow> abufs s' q = abufs s q)
    \<and> (\<forall>j < length ps. payload (abufs s' (ps ! j)) = payload (abufs s act)
         \<and> get_aps_hdr (abufs s' (ps ! j)) = Some (h\<lparr>ah_dst_endpoint := endpoints (groups (group_tab s) ! g) ! (k + j)\<rparr>))"
  using assms
proof (induction ps arbitrary: s k)
  case Nil
  then show ?case by simp
next
  case (Cons p ps)
  have lt: "k < n_endpoints (groups (group_tab s) ! g)" "k < 255" "p \<noteq> act" using Cons.prems(6,7,9) by auto
  obtain s1 where s1: "zb_aps_pass_group_msg_up p s = Some (s1, [Apsde_data_indication p, In_buf_delayed Pass_group_msg_up])"
    "active_pass_up_buf s1 = Some act" "group_tab s1 = group_tab s" "pass_up_q s1 = pass_up_q s" "buf_ok (abufs s1 act)"
    "get_aps_hdr (abufs s1 act) = Some h"
    "unat (handle (hdr (abufs s1 act))) = Suc k" "payload (abufs s1 act) = payload (abufs s act)"
    "get_aps_hdr (abufs s1 p) = Some (h\<lparr>ah_dst_endpoint := endpoints (groups (group_tab s) ! g) ! k\<rparr>)"
    "payload (abufs s1 p) = payload (abufs s act)" "\<And>q. q \<noteq> p \<Longrightarrow> q \<noteq> act \<Longrightarrow> abufs s1 q = abufs s q"
    by (rule one_endpoint [OF Cons.prems(1-5) lt]) blast
  have g1: "find_group (ah_group_addr h) (group_tab s1) = Some g" "Suc k + length ps = n_endpoints (groups (group_tab s1) ! g)"
    "n_endpoints (groups (group_tab s1) ! g) \<le> 255" "distinct ps" "act \<notin> set ps"
    using Cons.prems s1(3) by simp_all
  from Cons.IH [OF s1(2,5,6,7) g1] obtain s' where s':
    "pass_up_all ps s1 = Some (s', concat (map (\<lambda>p. [Apsde_data_indication p, In_buf_delayed Pass_group_msg_up]) ps))"
    "active_pass_up_buf s' = Some act" "group_tab s' = group_tab s1" "pass_up_q s' = pass_up_q s1"
    "get_aps_hdr (abufs s' act) = Some h" "unat (handle (hdr (abufs s' act))) = n_endpoints (groups (group_tab s1) ! g)"
    "\<And>q. q \<notin> set ps \<Longrightarrow> q \<noteq> act \<Longrightarrow> abufs s' q = abufs s1 q"
    "\<And>j. j < length ps \<Longrightarrow> payload (abufs s' (ps ! j)) = payload (abufs s1 act)
         \<and> get_aps_hdr (abufs s' (ps ! j)) = Some (h\<lparr>ah_dst_endpoint := endpoints (groups (group_tab s1) ! g) ! (Suc k + j)\<rparr>)"
    by blast
  have run: "pass_up_all (p # ps) s = Some (s', concat (map (\<lambda>p. [Apsde_data_indication p, In_buf_delayed Pass_group_msg_up]) (p # ps)))"
    using s1(1) s'(1) by (simp add: add_aps_def)
  have p': "abufs s' p = abufs s1 p" using s'(7) [of p] Cons.prems(8) lt(3) by simp
  have each: "payload (abufs s' ((p # ps) ! j)) = payload (abufs s act)
       \<and> get_aps_hdr (abufs s' ((p # ps) ! j)) = Some (h\<lparr>ah_dst_endpoint := endpoints (groups (group_tab s) ! g) ! (k + j)\<rparr>)"
    if "j < length (p # ps)" for j
  proof (cases j)
    case 0
    then show ?thesis using p' s1(9,10) by simp
  next
    case (Suc j')
    then show ?thesis using s'(8) [of j'] that s1(3,8) by simp
  qed
  have other: "abufs s' q = abufs s q" if "q \<notin> set (p # ps)" "q \<noteq> act" for q
    using that s'(7) [of q] s1(11) [of q] by simp
  show ?case using run s'(2-6) s1(3,4) each other by auto
qed

text \<open>
  C19: A frame for a group reaches each endpoint of the group once, in the order of the table, each in a buffer of its own with the
  data of the frame and the endpoint as destination; then its buffer is freed and the next frame that waits becomes active, or the last
  buffer is freed, too.
\<close>

theorem group_frame_reaches_every_endpoint:
  assumes "active_pass_up_buf s = Some act" "buf_ok (abufs s act)" "get_aps_hdr (abufs s act) = Some h"
    "handle (hdr (abufs s act)) = 0" "find_group (ah_group_addr h) (group_tab s) = Some g"
    "length ps = n_endpoints (groups (group_tab s) ! g)" "n_endpoints (groups (group_tab s) ! g) \<le> ZB_APS_ENDPOINTS_IN_GROUP_TABLE"
    "distinct ps" "act \<notin> set ps"
  shows "\<exists>s'. pass_up_all ps s = Some (s', concat (map (\<lambda>p. [Apsde_data_indication p, In_buf_delayed Pass_group_msg_up]) ps))
    \<and> (\<forall>j < length ps. payload (abufs s' (ps ! j)) = payload (abufs s act)
         \<and> get_aps_hdr (abufs s' (ps ! j)) = Some (h\<lparr>ah_dst_endpoint := endpoints (groups (group_tab s) ! g) ! j\<rparr>))
    \<and> (\<forall>p. \<exists>s2. zb_aps_pass_group_msg_up p s' = (case ring_peek (pass_up_q s) of
           Some q \<Rightarrow> Some (s2, [Free_buf act, Run_callback Pass_group_msg_up p])
         | None \<Rightarrow> Some (s2, [Free_buf act, Free_buf p])) \<and> active_pass_up_buf s2 = ring_peek (pass_up_q s))"
proof -
  have u: "unat (handle (hdr (abufs s act))) = 0" using assms(4) by simp
  have n: "0 + length ps = n_endpoints (groups (group_tab s) ! g)" "n_endpoints (groups (group_tab s) ! g) \<le> 255"
    using assms(6,7) by (simp_all add: ZB_APS_ENDPOINTS_IN_GROUP_TABLE_def)
  from rest_of_endpoints [OF assms(1-3) u assms(5) n assms(8,9)] obtain s' where s':
    "pass_up_all ps s = Some (s', concat (map (\<lambda>p. [Apsde_data_indication p, In_buf_delayed Pass_group_msg_up]) ps))"
    "active_pass_up_buf s' = Some act" "group_tab s' = group_tab s" "pass_up_q s' = pass_up_q s"
    "get_aps_hdr (abufs s' act) = Some h" "unat (handle (hdr (abufs s' act))) = n_endpoints (groups (group_tab s) ! g)"
    "\<And>j. j < length ps \<Longrightarrow> payload (abufs s' (ps ! j)) = payload (abufs s act)
         \<and> get_aps_hdr (abufs s' (ps ! j)) = Some (h\<lparr>ah_dst_endpoint := endpoints (groups (group_tab s) ! g) ! (0 + j)\<rparr>)"
    by blast
  have last: "\<exists>s2. zb_aps_pass_group_msg_up p s' = (case ring_peek (pass_up_q s) of
           Some q \<Rightarrow> Some (s2, [Free_buf act, Run_callback Pass_group_msg_up p])
         | None \<Rightarrow> Some (s2, [Free_buf act, Free_buf p])) \<and> active_pass_up_buf s2 = ring_peek (pass_up_q s)" for p
    using s'(2-6) assms(5)
    by (cases "ring_peek (pass_up_q s)") (simp_all add: zb_aps_pass_group_msg_up_def group_msg_done_def Let_def)
  show ?thesis using s'(1,7) last by (intro exI [of _ s']) simp
qed

section \<open>Devices without a short address\<close>

text \<open>
  A data request for a long address that the address translation does not know is sent to the network address \<open>0xffff\<close>,
  a broadcast to all devices, under a header that says unicast, instead of being refused with
  \<^verbatim>\<open>ZB_APS_STATUS_NO_SHORT_ADDRESS\<close>.
\<close>

theorem unknown_long_address_is_broadcast:
  assumes "rq_addr_mode (apsde_req s p) = ADDR_MODE_64_ENDP_PRESENT" "rq_tx_options (apsde_req s p) AND ZB_APSDE_TX_OPT_ACK_TX = 0"
    and "zb_address_by_ieee (rq_dst_addr (apsde_req s p)) False False (dc_addr (aps_dups s)) = Some (RET_NOT_FOUND, None, g)"
    and "buf_ok (abufs s p)" "blen (abufs s p) + 9 < ZB_IO_BUF_SIZE" "zb_apsde_data_request u p s = Some (s', acts)"
  shows "acts = [To_nwk p] \<and> nr_dst_addr (nlde_req s' p) = 0xffff \<and> ZB_NWK_IS_ADDRESS_BROADCAST (nr_dst_addr (nlde_req s' p))
    \<and> ZB_APS_FC_GET_DELIVERY_MODE (payload (abufs s' p) ! 0) = ZB_APS_DELIVERY_UNICAST"
proof -
  let ?req = "apsde_req s p"
  let ?rq = "set_rq_short 0xffff ?req"
  let ?fc = "ZB_APS_FC_SET_DELIVERY_MODE 0 ZB_APS_DELIVERY_UNICAST"
  let ?s1 = "set_aps_addr g s"
  let ?sq = "set_apsde p ?rq ?s1"
  have d: "apsde_find_destination u ?req s = Some (Send_to ?fc 0xffff ?rq, ?s1)"
    using assms(1,3) by (simp add: apsde_find_destination_def zb_address_short_by_ieee_def ZB_UNKNOWN_SHORT_ADDR_def
      ADDR_MODE_DST_ADDR_ENDP_NOT_PRESENT_def ADDR_MODE_16_GROUP_ENDP_NOT_PRESENT_def ADDR_MODE_16_ENDP_PRESENT_def ADDR_MODE_64_ENDP_PRESENT_def)
  have f0: "ZB_APS_FC_SET_ACK_FORMAT ?fc 0 = ?fc" by (simp add: aps_fc_defs)
  have ak: "ZB_APS_FC_GET_ACK_FORMAT ?fc = 0" "ZB_APS_FC_GET_DELIVERY_MODE ?fc = ZB_APS_DELIVERY_UNICAST"
    "ZB_APS_FC_GET_DELIVERY_MODE ?fc \<noteq> ZB_APS_DELIVERY_GROUP" by (simp_all add: aps_fc_defs)
  obtain b1 where b1: "aps_data_hdr_fill_datareq ?fc ?rq (aps_counter s) (abufs s p) = Some b1" "buf_ok b1"
    "payload b1 = aps_data_hdr ?fc ?rq (aps_counter s) @ payload (abufs s p)"
    by (rule filled_data_header [OF assms(4,5) ak(1), where req = ?rq and c = "aps_counter s"])
  let ?s3 = "(set_abuf p b1 ?sq)\<lparr>aps_counter := aps_counter s + 1\<rparr>"
  have fl: "fill_data_header p ?fc ?rq ?sq = Some ?s3"
    using b1(1) by (simp add: fill_data_header_def set_apsde_def set_aps_addr_def)
  have no: "rq_tx_options ?rq AND ZB_APSDE_TX_OPT_ACK_TX = 0" using assms(2) by (simp add: set_rq_short_def)
  have "pass_to_nwk p ?fc 0xffff (rq_radius ?rq) ?s3 = Some (s', acts)"
    using assms(6) no unfolding zb_apsde_data_request_def d option.case apsde_destination.case prod.case Let_def f0 fl
    by (simp split: if_splits)
  then have "acts = [To_nwk p]" "nr_dst_addr (nlde_req s' p) = 0xffff" "abufs s' p = b1"
    using ak(3) by (auto simp: pass_to_nwk_def set_nlde_def set_abuf_def Let_def split: if_splits)
  then show ?thesis using b1(3) ak(2) by (simp add: aps_data_hdr_def ZB_NWK_IS_ADDRESS_BROADCAST_def)
qed

section \<open>The information base\<close>

lemmas aib_attr_defs = ZB_APS_AIB_DESIGNATED_COORD_def ZB_APS_AIB_USE_INSECURE_JOIN_def ZB_APS_AIB_CHANNEL_MASK_def
  ZB_APS_AIB_USE_EXT_PANID_def ZB_APS_AIB_NONMEMBER_RADIUS_def

lemma attr_of_payload:
  assumes "buf_ok b" "payload b = htole32 attr @ r"
  shows "letoh32 (bytes_at (boff b) 4 b) = attr"
proof -
  have "4 \<le> blen b" using length_payload [OF assms(1)] assms(2) by simp
  with bytes_at_payload [of 0 4 b] assms(2) show ?thesis by simp
qed

lemma filled_confirm:
  assumes "buf_ok b" "length xs < ZB_IO_BUF_SIZE" "n = length xs"
  obtains b1 b2 where "zb_buf_initial_alloc b n = Some (b1, boff b1)" "write_bytes (boff b1) xs b1 = Some b2" "payload b2 = xs" "buf_ok b2"
proof -
  have "length (bytes b) = ZB_IO_BUF_SIZE" using assms(1) by (simp add: buf_ok_def)
  from initial_alloc_payload [OF this assms(2)] obtain b1 where b1: "zb_buf_initial_alloc b (length xs) = Some (b1, boff b1)"
    "buf_ok b1" "blen b1 = length xs" by blast
  obtain b2 where "write_bytes (boff b1) xs b1 = Some b2" "buf_ok b2" "payload b2 = xs @ drop (length xs) (payload b1)"
    by (rule write_front [OF b1(2), of xs]) (use b1(3) in simp)
  with b1 length_payload [OF b1(2)] assms(3) show thesis by (intro that [of b1 b2]) simp_all
qed

text \<open>
  A value that was set in the information base is read back by later get requests, with its length, for the coordinator
  flag, the insecure join flag and the extended PAN identifier; other attributes are refused and change nothing. Of a channel
  mask only the lowest byte is stored.
\<close>

theorem aib_get_after_set:
  assumes "buf_ok (abufs s p)" "payload (abufs s p) = htole32 attr @ len # v"
    "attr = ZB_APS_AIB_USE_EXT_PANID \<longrightarrow> length v = 8" "length v > 0"
    "buf_ok b" "payload b = htole32 attr"
  shows "\<exists>s1 s2. zb_apsme_set_request p s = Some (s1, [Apsme_set_confirm p])
    \<and> zb_apsme_get_request q (set_abuf q b s1) = Some (s2, [Apsme_get_confirm q])
    \<and> payload (abufs s1 p) = htole32 (set_status attr) @ htole32 attr
    \<and> (attr = ZB_APS_AIB_DESIGNATED_COORD \<or> attr = ZB_APS_AIB_USE_INSECURE_JOIN \<longrightarrow>
         payload (abufs s2 q) = htole32 0 @ htole32 attr @ [1, v ! 0])
    \<and> (attr = ZB_APS_AIB_USE_EXT_PANID \<longrightarrow> payload (abufs s2 q) = htole32 0 @ htole32 attr @ 8 # v)
    \<and> (attr = ZB_APS_AIB_CHANNEL_MASK \<longrightarrow> aps_channel_mask s1 = ucast (v ! 0))
    \<and> (set_status attr \<noteq> 0 \<longrightarrow> set_aib attr v s = s)"
proof -
  have pl: "5 + length v \<le> blen (abufs s p)" using length_payload [OF assms(1)] assms(2) by simp
  have at: "letoh32 (bytes_at (boff (abufs s p)) 4 (abufs s p)) = attr" by (rule attr_of_payload [OF assms(1,2)])
  obtain r where val: "drop (boff (abufs s p) + 5) (bytes (abufs s p)) = v @ r"
  proof (rule that [of "drop (boff (abufs s p) + blen (abufs s p)) (bytes (abufs s p))"])
    have "drop (boff (abufs s p) + 5) (bytes (abufs s p)) = drop 5 (drop (boff (abufs s p)) (bytes (abufs s p)))"
      by (simp add: add.commute)
    also have "\<dots> = v @ drop (boff (abufs s p) + blen (abufs s p)) (bytes (abufs s p))"
      unfolding buf_data [OF assms(1)] assms(2) by (simp add: htole32_def numeral_eq_Suc)
    finally show "drop (boff (abufs s p) + 5) (bytes (abufs s p)) = v @ drop (boff (abufs s p) + blen (abufs s p)) (bytes (abufs s p))" .
  qed
  obtain c1 c2 where c: "zb_buf_initial_alloc (abufs s p) 8 = Some (c1, boff c1)"
    "write_bytes (boff c1) (htole32 (set_status attr) @ htole32 attr) c1 = Some c2" "payload c2 = htole32 (set_status attr) @ htole32 attr"
    by (rule filled_confirm [OF assms(1), of "htole32 (set_status attr) @ htole32 attr" 8]) (simp_all add: ZB_IO_BUF_SIZE_def)
  let ?s1 = "set_abuf p c2 (set_aib attr (v @ r) s)"
  have st: "zb_apsme_set_request p s = Some (?s1, [Apsme_set_confirm p])"
    using c at val by (simp add: zb_apsme_set_request_def Let_def)
  have atq: "letoh32 (bytes_at (boff b) 4 b) = attr" using attr_of_payload [OF assms(5), of attr "[]"] assms(6) by simp
  have sv: "aps_use_extended_pan_id ?s1 = v" if "attr = ZB_APS_AIB_USE_EXT_PANID"
    using that assms(3) by (simp add: set_aib_def set_abuf_def aib_attr_defs)
  have sz: "length (get_confirm_bytes attr old ?s1) = get_confirm_size attr" if "length old = 3" for old
    using that sv assms(3) by (simp add: get_confirm_bytes_def get_confirm_size_def aib_attr_defs Let_def)
  have sz17: "get_confirm_size attr \<le> 17" by (simp add: get_confirm_size_def)
  have lb: "length (bytes b) = ZB_IO_BUF_SIZE" using assms(5) by (simp add: buf_ok_def)
  have "get_confirm_size attr < ZB_IO_BUF_SIZE" using sz17 by (simp add: ZB_IO_BUF_SIZE_def)
  from initial_alloc_payload [OF lb this] obtain d1 where d1: "zb_buf_initial_alloc b (get_confirm_size attr) = Some (d1, boff d1)"
    "buf_ok d1" "blen d1 = get_confirm_size attr" "boff d1 = (ZB_IO_BUF_SIZE - get_confirm_size attr) div 2" by blast
  let ?old = "bytes_at (boff d1 + 10) 3 d1"
  have "length ?old = 3" using d1(2,4) sz17 by (simp add: bytes_at_def buf_ok_def ZB_IO_BUF_SIZE_def)
  note szo = sz [OF this]
  have q1: "set_abuf q b ?s1 = set_abuf q b ?s1" ..
  have cong: "get_confirm_bytes attr old (set_abuf q b ?s1) = get_confirm_bytes attr old ?s1" for old
    by (simp add: get_confirm_bytes_def set_abuf_def Let_def)
  obtain d2 where d2: "write_bytes (boff d1) (get_confirm_bytes attr ?old ?s1) d1 = Some d2"
    "payload d2 = get_confirm_bytes attr ?old ?s1 @ drop (length (get_confirm_bytes attr ?old ?s1)) (payload d1)"
    by (rule write_front [OF d1(2), of "get_confirm_bytes attr ?old ?s1"]) (use szo d1(3) in simp)
  have pd: "payload d2 = get_confirm_bytes attr ?old ?s1" using d2(2) szo length_payload [OF d1(2)] d1(3) by simp
  let ?s2 = "set_abuf q d2 (set_abuf q b ?s1)"
  have gt: "zb_apsme_get_request q (set_abuf q b ?s1) = Some (?s2, [Apsme_get_confirm q])"
    using d1(1) d2(1) atq cong by (simp add: zb_apsme_get_request_def Let_def)
  have v0: "(v @ r) ! 0 = v ! 0" using assms(4) by (simp add: nth_append)
  have one: "get_confirm_bytes attr ?old ?s1 = htole32 0 @ htole32 attr @ [1, v ! 0]"
    if "attr = ZB_APS_AIB_DESIGNATED_COORD \<or> attr = ZB_APS_AIB_USE_INSECURE_JOIN"
    using that v0 by (auto simp: get_confirm_bytes_def set_aib_def set_abuf_def aib_attr_defs Let_def)
  have ext: "get_confirm_bytes attr ?old ?s1 = htole32 0 @ htole32 attr @ 8 # v" if "attr = ZB_APS_AIB_USE_EXT_PANID"
    using that sv [OF that] by (simp add: get_confirm_bytes_def aib_attr_defs Let_def)
  have mask: "aps_channel_mask ?s1 = ucast (v ! 0)" if "attr = ZB_APS_AIB_CHANNEL_MASK"
    using that v0 by (simp add: set_aib_def set_abuf_def aib_attr_defs)
  have no: "set_aib attr v s = s" if "set_status attr \<noteq> 0" using that by (auto simp: set_aib_def set_status_def split: if_splits)
  show ?thesis
    by (intro exI [of _ ?s1] exI [of _ ?s2] conjI impI st gt mask no) (use c(3) pd one ext in \<open>simp_all add: set_abuf_def\<close>)
qed

section \<open>Examples\<close>

definition group_node :: aps_node where
  "group_node = (set_abuf 2 (buf_zero\<lparr>hdr := hdr_zero\<lparr>h_len := 3, data_offset := 40\<rparr>,
       bytes := replicate 40 0 @ [7, 8, 9] @ replicate 91 0 @ aps_hdr_bytes ((aps_hdr_of_bytes (replicate 14 0))\<lparr>ah_group_addr := 0x22\<rparr>)\<rparr>)
     aps_zero)\<lparr>active_pass_up_buf := Some 2,
       group_tab := snd (zb_apsme_add_group_request 0x22 11 (snd (zb_apsme_add_group_request 0x22 10 group_table_zero)))\<rparr>"

theorem group_frame_reaches_every_endpoint_witness:
  "\<exists>s' h. pass_up_all [4, 5] group_node = Some (s', [Apsde_data_indication 4, In_buf_delayed Pass_group_msg_up,
       Apsde_data_indication 5, In_buf_delayed Pass_group_msg_up])
     \<and> get_aps_hdr (abufs s' 5) = Some (h\<lparr>ah_dst_endpoint := 11\<rparr>)"
proof -
  let ?h = "(aps_hdr_of_bytes (replicate 14 0))\<lparr>ah_group_addr := 0x22\<rparr>"
  have a: "active_pass_up_buf group_node = Some 2" by (simp add: group_node_def)
  have b: "buf_ok (abufs group_node 2)" "get_aps_hdr (abufs group_node 2) = Some ?h" "handle (hdr (abufs group_node 2)) = 0"
    by (simp_all add: group_node_def buf_ok_def hdr_zero_def ZB_IO_BUF_SIZE_def get_aps_hdr_def zb_get_buf_tail_def SIZEOF_APS_HDR_def)
  have g: "find_group (ah_group_addr ?h) (group_tab group_node) = Some 0"
    "n_endpoints (groups (group_tab group_node) ! 0) = 2" "endpoints (groups (group_tab group_node) ! 0) ! 1 = 11"
    by (simp_all add: group_node_def find_group_def zb_apsme_add_group_request_def group_table_zero_def add_endpoint_def
      ZB_APS_GROUP_TABLE_SIZE_def ZB_APS_ENDPOINTS_IN_GROUP_TABLE_def Let_def upt_conv_Cons numeral_eq_Suc)
  obtain s' where s': "pass_up_all [4, 5] group_node = Some (s', concat (map (\<lambda>p. [Apsde_data_indication p, In_buf_delayed Pass_group_msg_up]) [4, 5]))"
    "\<forall>j < length [4 :: nat, 5]. payload (abufs s' ([4, 5] ! j)) = payload (abufs group_node 2)
         \<and> get_aps_hdr (abufs s' ([4, 5] ! j)) = Some (?h\<lparr>ah_dst_endpoint := endpoints (groups (group_tab group_node) ! 0) ! j\<rparr>)"
    using group_frame_reaches_every_endpoint [OF a b g(1), of "[4, 5]"] g(2) by (auto simp: ZB_APS_ENDPOINTS_IN_GROUP_TABLE_def)
  have "get_aps_hdr (abufs s' 5) = Some (?h\<lparr>ah_dst_endpoint := 11\<rparr>)" using s'(2) [rule_format, of 1] g(3) by simp
  with s'(1) show ?thesis by (intro exI [of _ s'] exI [of _ ?h]) simp
qed

theorem unknown_long_address_is_broadcast_witness:
  "\<exists>s' acts. zb_apsde_data_request 0 2 (set_apsde 2 (req_zero\<lparr>rq_addr_mode := 3, rq_dst_addr := sample_ieee\<rparr>) aps_zero) = Some (s', acts)
    \<and> acts = [To_nwk 2] \<and> nr_dst_addr (nlde_req s' 2) = 0xffff"
proof -
  let ?s = "set_apsde 2 (req_zero\<lparr>rq_addr_mode := 3, rq_dst_addr := sample_ieee\<rparr>) aps_zero"
  have m: "rq_addr_mode (apsde_req ?s 2) = ADDR_MODE_64_ENDP_PRESENT" "rq_tx_options (apsde_req ?s 2) AND ZB_APSDE_TX_OPT_ACK_TX = 0"
    by (simp_all add: set_apsde_def ADDR_MODE_64_ENDP_PRESENT_def req_zero_def)
  obtain g where g: "zb_address_by_ieee (rq_dst_addr (apsde_req ?s 2)) False False (dc_addr (aps_dups ?s)) = Some (RET_NOT_FOUND, None, g)"
    using by_ieee_empty by (simp add: set_apsde_def aps_zero_def)
  have b: "buf_ok (abufs ?s 2)" "blen (abufs ?s 2) + 9 < ZB_IO_BUF_SIZE" by (simp_all add: set_apsde_def aps_zero_def ZB_IO_BUF_SIZE_def)
  have "zb_apsde_data_request 0 2 ?s \<noteq> None"
    by (simp add: zb_apsde_data_request_def apsde_find_destination_def zb_address_short_by_ieee_def by_ieee_empty Let_def tail_room_def
      zb_get_buf_tail_def aps_zero_def buf_zero_def hdr_zero_def ZB_IO_BUF_SIZE_def SIZEOF_APSDE_DATA_REQ_def SIZEOF_NLDE_DATA_REQ_def
      set_apsde_def set_aps_addr_def ADDR_MODE_DST_ADDR_ENDP_NOT_PRESENT_def ADDR_MODE_16_GROUP_ENDP_NOT_PRESENT_def
      ADDR_MODE_16_ENDP_PRESENT_def ADDR_MODE_64_ENDP_PRESENT_def ZB_APSDE_TX_OPT_ACK_TX_def req_zero_def fill_data_header_def
      aps_data_hdr_fill_datareq_def aps_data_hdr_def aps_fc_defs buf_op_defs write_bytes_def htole16_def pass_to_nwk_def
      set_rq_short_def ZB_UNKNOWN_SHORT_ADDR_def set_nlde_def set_abuf_def)
  then obtain s' acts where r: "zb_apsde_data_request 0 2 ?s = Some (s', acts)" by auto
  from unknown_long_address_is_broadcast [OF m g b r] r show ?thesis by blast
qed

theorem aib_get_after_set_witness:
  "\<exists>s1 s2. zb_apsme_set_request 2 (set_abuf 2 (buf_zero\<lparr>hdr := hdr_zero\<lparr>h_len := 6\<rparr>, bytes := [0xc2, 0, 0, 0, 1, 1] @ replicate 142 0\<rparr>) aps_zero)
      = Some (s1, [Apsme_set_confirm 2])
    \<and> zb_apsme_get_request 3 (set_abuf 3 (buf_zero\<lparr>hdr := hdr_zero\<lparr>h_len := 4\<rparr>, bytes := [0xc2, 0, 0, 0] @ replicate 144 0\<rparr>) s1)
      = Some (s2, [Apsme_get_confirm 3]) \<and> payload (abufs s2 3) = htole32 0 @ htole32 ZB_APS_AIB_DESIGNATED_COORD @ [1, 1]"
proof -
  let ?s = "set_abuf 2 (buf_zero\<lparr>hdr := hdr_zero\<lparr>h_len := 6\<rparr>, bytes := [0xc2, 0, 0, 0, 1, 1] @ replicate 142 0\<rparr>) aps_zero"
  let ?b = "buf_zero\<lparr>hdr := hdr_zero\<lparr>h_len := 4\<rparr>, bytes := [0xc2, 0, 0, 0] @ replicate 144 0\<rparr>"
  have h: "htole32 ZB_APS_AIB_DESIGNATED_COORD = [0xc2, 0, 0, 0]" by (simp add: htole32_def ZB_APS_AIB_DESIGNATED_COORD_def)
  have b: "buf_ok (abufs ?s 2)" "payload (abufs ?s 2) = htole32 ZB_APS_AIB_DESIGNATED_COORD @ 1 # [1]"
    "buf_ok ?b" "payload ?b = htole32 ZB_APS_AIB_DESIGNATED_COORD"
    by (simp_all add: buf_ok_def hdr_zero_def ZB_IO_BUF_SIZE_def payload_def h)
  have n: "ZB_APS_AIB_DESIGNATED_COORD \<noteq> ZB_APS_AIB_USE_EXT_PANID" by (simp add: aib_attr_defs)
  from aib_get_after_set [OF b(1,2) _ _ b(3,4), of 3] n show ?thesis by auto
qed

end
