(* ===== verification/Spec2Isabelle.thy ===== *)
theory Spec2Isabelle
  imports List_Props Scheduler_Props Bufpool_Props Address_Props Secur_Props Nwk_Neighbor_Props Nwk_Secur_Props Secur_Zdo_Props
    Nwk_Tree_Props Nwk_Mesh_Net Mac_Frame_Props Nwk_Node_Props Mac_Pending_Props Mac_Assoc_Props Mac_Scan_Props Aps_Bind_Props Aps_Dups_Props Aps_Ack_Props Aps_Group_Props
begin

text \<open>
  A model of the ZBOSS ZigBee stack (work in progress; see the theories for the parts).
\<close>

end
